(* ===== verification/Prelude.thy ===== *)
theory Prelude
  imports Complex_Main
begin

text \<open>
  Shared vocabulary of the development.

  \<^item> Fixed-width arithmetic as the Rust code uses it: \<open>u32\<close> values are naturals bounded by
    \<open>u32_max\<close>, \<open>i64\<close> values integers in the signed 64-bit range; \<open>saturating_add\<close> and its kin are
    written out.
  \<^item> Text helpers of the Rust standard library that the handlers call: decimal printing, integer
    parsing, trimming, control characters, lower-case hexadecimal.
  \<^item> A database table is a list of row records. \<open>select_one\<close>, \<open>update_rows\<close> and
    \<open>rows_affected\<close> are the three shapes of SQL statement the code issues.
  \<^item> A fallible operation returns \<open>'e + 'a\<close>, with \<open>Inl\<close> for the error value.
\<close>

named_theorems table_simps \<open>how the SQL-shaped list operations act on membership and keys\<close>
named_theorems sat_simps \<open>saturating arithmetic inside its range\<close>

subsection \<open>Fixed-width integers\<close>

definition u32_max :: nat where
  "u32_max = 4294967295"

definition i64_max :: int where
  "i64_max = 9223372036854775807"

definition i64_min :: int where
  "i64_min = - 9223372036854775808"

definition i32_max :: int where
  "i32_max = 2147483647"

definition sat_add32 :: "nat \<Rightarrow> nat \<Rightarrow> nat" where
  "sat_add32 a b = min (a + b) u32_max"

definition sat_mul32 :: "nat \<Rightarrow> nat \<Rightarrow> nat" where
  "sat_mul32 a b = min (a * b) u32_max"

definition sat_sub32 :: "nat \<Rightarrow> nat \<Rightarrow> nat" where
  "sat_sub32 a b = a - b"

definition sat64 :: "int \<Rightarrow> int" where
  "sat64 x = max i64_min (min x i64_max)"

definition u32_of_nat :: "nat \<Rightarrow> nat" where
  "u32_of_nat n = min n u32_max"

text \<open>\<open>u32::try_from(value.max(0)).unwrap_or(u32::MAX)\<close> on a signed 64-bit column.\<close>

definition non_negative_u32 :: "int \<Rightarrow> nat" where
  "non_negative_u32 v = (if nat (max v 0) \<le> u32_max then nat (max v 0) else u32_max)"

lemma sat64_id [sat_simps]: "i64_min \<le> x \<Longrightarrow> x \<le> i64_max \<Longrightarrow> sat64 x = x"
  by (simp add: sat64_def)

lemma sat64_bounds: "i64_min \<le> sat64 x \<and> sat64 x \<le> i64_max"
  by (simp add: sat64_def i64_min_def i64_max_def)

lemma sat64_mono: "x \<le> y \<Longrightarrow> sat64 x \<le> sat64 y"
  by (auto simp: sat64_def)

lemma sat_add32_id [sat_simps]: "a + b \<le> u32_max \<Longrightarrow> sat_add32 a b = a + b"
  by (simp add: sat_add32_def)

lemma sat_add32_le: "sat_add32 a b \<le> u32_max"
  by (simp add: sat_add32_def)

lemma sat_mul32_id [sat_simps]: "a * b \<le> u32_max \<Longrightarrow> sat_mul32 a b = a * b"
  by (simp add: sat_mul32_def)

lemma u32_of_nat_id [sat_simps]: "n \<le> u32_max \<Longrightarrow> u32_of_nat n = n"
  by (simp add: u32_of_nat_def)

lemma non_negative_u32_le: "non_negative_u32 v \<le> u32_max"
  by (simp add: non_negative_u32_def)

lemma non_negative_u32_of_nat [sat_simps]: "n \<le> u32_max \<Longrightarrow> non_negative_u32 (int n) = n"
  by (simp add: non_negative_u32_def)

subsection \<open>Text\<close>

definition is_ascii_control :: "char \<Rightarrow> bool" where
  "is_ascii_control c = ((of_char c :: nat) < 32 \<or> (of_char c :: nat) = 127)"

definition trim_matches :: "char \<Rightarrow> string \<Rightarrow> string" where
  "trim_matches c s = rev (dropWhile (\<lambda>x. x = c) (rev (dropWhile (\<lambda>x. x = c) s)))"

fun strip_prefix :: "string \<Rightarrow> string \<Rightarrow> string option" where
  "strip_prefix [] s = Some s"
| "strip_prefix (p # ps) [] = None"
| "strip_prefix (p # ps) (c # cs) = (if p = c then strip_prefix ps cs else None)"

lemma strip_prefix_append [simp]: "strip_prefix p (p @ s) = Some s"
  by (induction p) auto

lemma strip_prefix_Some: "strip_prefix p s = Some t \<longleftrightarrow> s = p @ t"
  by (induction p s rule: strip_prefix.induct) auto

definition digit_char :: "nat \<Rightarrow> char" where
  "digit_char d = char_of (48 + d)"

definition digit_val :: "char \<Rightarrow> nat option" where
  "digit_val c = (let n = (of_char c :: nat) in if 48 \<le> n \<and> n \<le> 57 then Some (n - 48) else None)"

lemma digit_val_digit_char: "d < 10 \<Longrightarrow> digit_val (digit_char d) = Some d"
  by (simp add: digit_val_def digit_char_def)

fun show_nat :: "nat \<Rightarrow> string" where
  "show_nat n = (if n < 10 then [digit_char n] else show_nat (n div 10) @ [digit_char (n mod 10)])"

declare show_nat.simps [simp del]

definition show_int :: "int \<Rightarrow> string" where
  "show_int i = (if i < 0 then CHR ''-'' # show_nat (nat (- i)) else show_nat (nat i))"

fun parse_digits :: "string \<Rightarrow> nat \<Rightarrow> nat option" where
  "parse_digits [] acc = Some acc"
| "parse_digits (c # cs) acc =
     (case digit_val c of None \<Rightarrow> None | Some d \<Rightarrow> parse_digits cs (acc * 10 + d))"

text \<open>\<open>str::parse::<i64>\<close>: an optional sign, at least one digit, no overflow.\<close>

definition parse_i64 :: "string \<Rightarrow> int option" where
  "parse_i64 s =
     (case s of
        [] \<Rightarrow> None
      | c # cs \<Rightarrow>
          (if c = CHR ''-'' then
             (if cs = [] then None
              else case parse_digits cs 0 of
                     None \<Rightarrow> None
                   | Some n \<Rightarrow> if i64_min \<le> - int n then Some (- int n) else None)
           else
             (let ds = (if c = CHR ''+'' then cs else s) in
              if ds = [] then None
              else case parse_digits ds 0 of
                     None \<Rightarrow> None
                   | Some n \<Rightarrow> if int n \<le> i64_max then Some (int n) else None)))"

text \<open>\<open>str::parse::<u32>\<close>.\<close>

definition parse_u32 :: "string \<Rightarrow> nat option" where
  "parse_u32 s =
     (let ds = (case s of [] \<Rightarrow> [] | c # cs \<Rightarrow> if c = CHR ''+'' then cs else s) in
      if ds = [] then None
      else case parse_digits ds 0 of
             None \<Rightarrow> None
           | Some n \<Rightarrow> if n \<le> u32_max then Some n else None)"

lemma parse_digits_append:
  "parse_digits (xs @ ys) acc =
     (case parse_digits xs acc of None \<Rightarrow> None | Some n \<Rightarrow> parse_digits ys n)"
  by (induction xs arbitrary: acc) (auto split: option.splits)

lemma parse_digits_show_nat: "parse_digits (show_nat n) 0 = Some n"
proof (induction n rule: show_nat.induct)
  case (1 n)
  show ?case
  proof (cases "n < 10")
    case True
    then show ?thesis by (simp add: show_nat.simps [of n] digit_val_digit_char)
  next
    case False
    with 1 have "parse_digits (show_nat (n div 10)) 0 = Some (n div 10)" by simp
    with False show ?thesis
      by (simp add: show_nat.simps [of n] parse_digits_append digit_val_digit_char)
  qed
qed

lemma show_nat_nonempty: "show_nat n \<noteq> []"
  by (subst show_nat.simps) simp

lemma digit_char_of: "d < 10 \<Longrightarrow> (of_char (digit_char d) :: nat) = 48 + d"
  by (simp add: digit_char_def)

lemma digit_char_neq:
  assumes "d < 10" and "(of_char c :: nat) < 48 \<or> 57 < (of_char c :: nat)"
  shows "digit_char d \<noteq> c"
proof
  assume "digit_char d = c"
  then have "(of_char c :: nat) = 48 + d" using assms(1) digit_char_of by blast
  with assms show False by linarith
qed

lemma show_nat_chars: "c \<in> set (show_nat n) \<Longrightarrow> \<exists>d < 10. c = digit_char d"
proof (induction n rule: show_nat.induct)
  case (1 n)
  show ?case
  proof (cases "n < 10")
    case True
    with 1 show ?thesis by (simp add: show_nat.simps [of n]) blast
  next
    case False
    with 1 show ?thesis by (auto simp: show_nat.simps [of n] intro: exI [of _ "n mod 10"])
  qed
qed

lemma parse_i64_show_nat:
  assumes "int n \<le> i64_max"
  shows "parse_i64 (show_nat n) = Some (int n)"
proof -
  obtain c cs where s: "show_nat n = c # cs"
    using show_nat_nonempty [of n] by (cases "show_nat n") auto
  then obtain d where d: "d < 10" "c = digit_char d"
    using show_nat_chars [of c n] by auto
  have "c \<noteq> CHR ''-''" and "c \<noteq> CHR ''+''"
    using d digit_char_neq [of d "CHR ''-''"] digit_char_neq [of d "CHR ''+''"] by auto
  then show ?thesis
    using assms parse_digits_show_nat [of n] s by (simp add: parse_i64_def Let_def)
qed

lemma parse_i64_show_int:
  assumes "i64_min \<le> i" and "i \<le> i64_max"
  shows "parse_i64 (show_int i) = Some i"
proof (cases "i < 0")
  case True
  with assms show ?thesis
    by (simp add: show_int_def parse_i64_def show_nat_nonempty parse_digits_show_nat)
next
  case False
  with assms parse_i64_show_nat [of "nat i"] show ?thesis by (simp add: show_int_def)
qed

lemma parse_i64_range: "parse_i64 s = Some i \<Longrightarrow> i64_min \<le> i \<and> i \<le> i64_max"
  by (auto simp: parse_i64_def Let_def i64_min_def i64_max_def split: list.splits option.splits if_splits)

definition hex_char :: "nat \<Rightarrow> char" where
  "hex_char d = (if d < 10 then char_of (48 + d) else char_of (87 + d))"

text \<open>\<open>format!("{byte:02x}")\<close> for every byte, concatenated.\<close>

definition hex_digest :: "nat list \<Rightarrow> string" where
  "hex_digest bs = concat (map (\<lambda>b. [hex_char (b div 16), hex_char (b mod 16)]) bs)"

lemma of_char_hex_char:
  assumes "a < 16"
  shows "(of_char (hex_char a) :: nat) = (if a < 10 then 48 + a else 87 + a)"
  using assms by (auto simp: hex_char_def of_char_of)

lemma hex_char_inj:
  assumes "a < 16" "b < 16" "hex_char a = hex_char b"
  shows "a = b"
proof -
  have "(if a < 10 then 48 + a else 87 + a) = (if b < 10 then 48 + b else (87 + b :: nat))"
    using assms of_char_hex_char [of a] of_char_hex_char [of b] by metis
  with assms(1,2) show "a = b" by (simp split: if_splits)
qed

lemma length_hex_digest: "length (hex_digest bs) = 2 * length bs"
  by (induction bs) (auto simp: hex_digest_def)

lemma hex_digest_inj:
  "\<forall>b \<in> set xs. b < 256 \<Longrightarrow> \<forall>b \<in> set ys. b < 256 \<Longrightarrow> hex_digest xs = hex_digest ys \<Longrightarrow> xs = ys"
proof (induction xs arbitrary: ys)
  case Nil
  then show ?case by (cases ys) (auto simp: hex_digest_def)
next
  case (Cons x xs)
  then obtain y ys' where ys: "ys = y # ys'" by (cases ys) (auto simp: hex_digest_def)
  with Cons.prems have tl: "hex_digest xs = hex_digest ys'"
    and hi: "hex_char (x div 16) = hex_char (y div 16)"
    and lo: "hex_char (x mod 16) = hex_char (y mod 16)"
    by (auto simp: hex_digest_def)
  have "x div 16 = y div 16" and "x mod 16 = y mod 16"
    using hi lo Cons.prems(1,2) ys by (auto intro!: hex_char_inj)
  then have "x = y" by (metis div_mult_mod_eq)
  with Cons.IH [of ys'] Cons.prems ys tl show ?case by simp
qed

subsection \<open>Lists\<close>

lemma map_nth_map: "map (\<lambda>i. f (xs ! i)) [0..<length xs] = map f xs"
  by (rule nth_equalityI) simp_all

subsection \<open>Results\<close>

text \<open>The \<open>?\<close> operator: an error ends the function, a value goes to the rest of it.\<close>

fun and_then :: "'e + 'a \<Rightarrow> ('a \<Rightarrow> 'e + 'b) \<Rightarrow> 'e + 'b" where
  "and_then (Inl e) f = Inl e"
| "and_then (Inr x) f = f x"

fun map_error :: "('e \<Rightarrow> 'f) \<Rightarrow> 'e + 'a \<Rightarrow> 'f + 'a" where
  "map_error g (Inl e) = Inl (g e)"
| "map_error g (Inr x) = Inr x"

lemma and_then_Inr [simp]: "and_then r f = Inr y \<longleftrightarrow> (\<exists>x. r = Inr x \<and> f x = Inr y)"
  by (cases r) auto

lemma map_error_Inr [simp]: "map_error g r = Inr y \<longleftrightarrow> r = Inr y"
  by (cases r) auto

text \<open>A condition on an optional value computes.\<close>

lemma pred_option_code [code]: "pred_option P None = True" "pred_option P (Some x) = P x"
  by simp_all

subsection \<open>Tables\<close>

definition select_one :: "('r \<Rightarrow> bool) \<Rightarrow> 'r list \<Rightarrow> 'r option" where
  "select_one P rs = find P rs"

definition update_rows :: "('r \<Rightarrow> bool) \<Rightarrow> ('r \<Rightarrow> 'r) \<Rightarrow> 'r list \<Rightarrow> 'r list" where
  "update_rows P f rs = map (\<lambda>r. if P r then f r else r) rs"

definition rows_affected :: "('r \<Rightarrow> bool) \<Rightarrow> 'r list \<Rightarrow> nat" where
  "rows_affected P rs = length (filter P rs)"

lemma select_one_Some: "select_one P rs = Some r \<Longrightarrow> r \<in> set rs \<and> P r"
  by (auto simp: select_one_def find_Some_iff)

lemma select_one_None: "select_one P rs = None \<longleftrightarrow> (\<forall>r \<in> set rs. \<not> P r)"
  by (auto simp: select_one_def find_None_iff)

lemma select_one_unique:
  assumes "distinct (map k rs)" and "r \<in> set rs" and "P r"
    and "\<And>s. s \<in> set rs \<Longrightarrow> P s \<Longrightarrow> k s = k r"
  shows "select_one P rs = Some r"
proof -
  obtain s where s: "select_one P rs = Some s"
    using assms(2,3) select_one_None [of P rs] by (cases "select_one P rs") auto
  with select_one_Some [OF s] assms show ?thesis
    by (metis (no_types, lifting) distinct_map inj_on_def)
qed

lemma select_one_filter: "select_one P rs = (case filter P rs of [] \<Rightarrow> None | x # _ \<Rightarrow> Some x)"
  by (induction rs) (auto simp: select_one_def)

lemma filter_update_rows:
  "(\<And>r. r \<in> set rs \<Longrightarrow> P r \<Longrightarrow> Q (f r) = Q r) \<Longrightarrow>
     filter Q (update_rows P f rs) = update_rows P f (filter Q rs)"
  by (induction rs) (auto simp: update_rows_def)

lemma length_update_rows [simp]: "length (update_rows P f rs) = length rs"
  by (simp add: update_rows_def)

lemma set_update_rows [table_simps]:
  "set (update_rows P f rs) = {r \<in> set rs. \<not> P r} \<union> f ` {r \<in> set rs. P r}"
  by (auto simp: update_rows_def)

lemma map_update_rows [table_simps]:
  "(\<And>r. r \<in> set rs \<Longrightarrow> P r \<Longrightarrow> k (f r) = k r) \<Longrightarrow> map k (update_rows P f rs) = map k rs"
  by (auto simp: update_rows_def)

lemma update_rows_none: "(\<And>r. r \<in> set rs \<Longrightarrow> \<not> P r) \<Longrightarrow> update_rows P f rs = rs"
  by (auto simp: update_rows_def intro: map_idI)

lemma rows_affected_0: "rows_affected P rs = 0 \<longleftrightarrow> (\<forall>r \<in> set rs. \<not> P r)"
  by (auto simp: rows_affected_def filter_empty_conv)

lemma rows_affected_pos: "0 < rows_affected P rs \<longleftrightarrow> (\<exists>r \<in> set rs. P r)"
  by (auto simp: rows_affected_def filter_empty_conv)

lemma rows_affected_1I:
  assumes "distinct (map k rs)" and "r \<in> set rs" and "P r"
    and "\<And>s. s \<in> set rs \<Longrightarrow> P s \<Longrightarrow> k s = k r"
  shows "rows_affected P rs = 1"
  using assms
proof (induction rs)
  case Nil
  then show ?case by simp
next
  case (Cons x xs)
  show ?case
  proof (cases "x = r")
    case True
    then have "\<forall>s \<in> set xs. \<not> P s"
      using Cons.prems by (metis (no_types, lifting) distinct.simps(2) image_eqI list.set_intros(2)
          list.set_map list.simps(9))
    then show ?thesis using True Cons.prems(3)
      by (simp add: rows_affected_def filter_empty_conv)
  next
    case False
    then have r: "r \<in> set xs" using Cons.prems(2) by simp
    have "\<not> P x"
      using Cons.prems r by (metis (no_types, lifting) distinct.simps(2) image_eqI list.set_intros(1)
          list.set_map list.simps(9))
    then show ?thesis
      using Cons.IH [OF _ r Cons.prems(3)] Cons.prems by (simp add: rows_affected_def)
  qed
qed

text \<open>At most one row of a keyed table matches a predicate that pins the key.\<close>

lemma rows_affected_key_le_1:
  assumes "distinct (map k rs)" and "\<And>s. s \<in> set rs \<Longrightarrow> P s \<Longrightarrow> k s = v"
  shows "rows_affected P rs \<le> 1"
proof (cases "\<exists>r \<in> set rs. P r")
  case True
  then obtain r where "r \<in> set rs" "P r" by blast
  then have "rows_affected P rs = 1"
    using assms by (intro rows_affected_1I [of k]) auto
  then show ?thesis by simp
next
  case False
  then show ?thesis using rows_affected_0 [of P rs] by simp
qed

end
