(* ===== verification/Float64.thy ===== *)
theory Float64
  imports Prelude "HOL-Library.Log_Nat"
begin

text \<open>
  The \<open>f64\<close> values of the Rust code. A finite value is the rational number it denotes (the sign of
  zero is not observable by anything the code does with these values); infinities and the
  not-a-number value are constructors of their own. Comparisons are false on \<open>NaN\<close>, as in IEEE 754.
  Arithmetic computes exactly and then rounds to the nearest representable number, ties to even:
  \<open>round_f64\<close> has 53 bits of precision, the smallest exponent is \<open>- 1074\<close> and everything at or above
  \<open>2 ^ 1024\<close> after rounding is infinite.
\<close>

datatype f64 = Fin rat | Inf | NegInf | NaN

fun f_is_finite :: "f64 \<Rightarrow> bool" where
  "f_is_finite (Fin q) = True"
| "f_is_finite _ = False"

fun f_lt :: "f64 \<Rightarrow> f64 \<Rightarrow> bool" where
  "f_lt (Fin a) (Fin b) = (a < b)"
| "f_lt (Fin a) Inf = True"
| "f_lt NegInf (Fin b) = True"
| "f_lt NegInf Inf = True"
| "f_lt _ _ = False"

fun f_le :: "f64 \<Rightarrow> f64 \<Rightarrow> bool" where
  "f_le NaN _ = False"
| "f_le _ NaN = False"
| "f_le (Fin a) (Fin b) = (a \<le> b)"
| "f_le NegInf _ = True"
| "f_le _ Inf = True"
| "f_le _ _ = False"

abbreviation f_gt :: "f64 \<Rightarrow> f64 \<Rightarrow> bool" where
  "f_gt a b \<equiv> f_lt b a"

abbreviation f_ge :: "f64 \<Rightarrow> f64 \<Rightarrow> bool" where
  "f_ge a b \<equiv> f_le b a"

fun f_value :: "f64 \<Rightarrow> rat" where
  "f_value (Fin q) = q"
| "f_value _ = 0"

lemma f_is_finite_iff: "f_is_finite x \<longleftrightarrow> (\<exists>q. x = Fin q)"
  by (cases x) auto

lemma f_lt_le_total: "x \<noteq> NaN \<Longrightarrow> y \<noteq> NaN \<Longrightarrow> f_lt x y \<or> f_le y x"
  by (cases x; cases y) auto

lemma f_lt_not_le: "f_lt x y \<Longrightarrow> \<not> f_le y x"
  by (cases x; cases y) auto

lemma f_lt_le_trans: "f_lt x y \<Longrightarrow> f_le y z \<Longrightarrow> f_lt x z"
  by (cases x; cases y; cases z) auto

lemma f_le_lt_trans: "f_le x y \<Longrightarrow> f_lt y z \<Longrightarrow> f_lt x z"
  by (cases x; cases y; cases z) auto

lemma f_le_trans: "f_le x y \<Longrightarrow> f_le y z \<Longrightarrow> f_le x z"
  by (cases x; cases y; cases z) auto

lemma f_lt_imp_le: "f_lt x y \<Longrightarrow> f_le x y"
  by (cases x; cases y) auto

subsection \<open>Rounding\<close>

text \<open>The position of the leading binary digit of a positive rational.\<close>

definition ilog2 :: "rat \<Rightarrow> int" where
  "ilog2 q =
     (let e = bitlen (fst (quotient_of q)) - bitlen (snd (quotient_of q))
      in if 2 powi e \<le> q then e else e - 1)"

definition round_even :: "rat \<Rightarrow> int" where
  "round_even q =
     (let f = \<lfloor>q\<rfloor>; r = q - of_int f
      in if r < 1 / 2 then f
         else if 1 / 2 < r then f + 1
         else if even f then f else f + 1)"

definition ulp :: "rat \<Rightarrow> rat" where
  "ulp q = 2 powi (max (ilog2 q - 52) (- 1074))"

definition round_f64 :: "rat \<Rightarrow> f64" where
  "round_f64 q =
     (if q = 0 then Fin 0
      else let u = ulp \<bar>q\<bar>; v = of_int (round_even (q / u)) * u
           in if 2 ^ 1024 \<le> v then Inf else if v \<le> - (2 ^ 1024) then NegInf else Fin v)"

definition f_of_nat :: "nat \<Rightarrow> f64" where
  "f_of_nat n = round_f64 (of_nat n)"

definition f_of_int :: "int \<Rightarrow> f64" where
  "f_of_int i = round_f64 (of_int i)"

fun f_div :: "f64 \<Rightarrow> f64 \<Rightarrow> f64" where
  "f_div (Fin a) (Fin b) =
     (if b = 0 then (if a = 0 then NaN else if 0 < a then Inf else NegInf) else round_f64 (a / b))"
| "f_div (Fin a) Inf = Fin 0"
| "f_div (Fin a) NegInf = Fin 0"
| "f_div Inf (Fin b) = (if 0 \<le> b then Inf else NegInf)"
| "f_div NegInf (Fin b) = (if 0 \<le> b then NegInf else Inf)"
| "f_div _ _ = NaN"

fun f_add :: "f64 \<Rightarrow> f64 \<Rightarrow> f64" where
  "f_add (Fin a) (Fin b) = round_f64 (a + b)"
| "f_add NaN _ = NaN"
| "f_add _ NaN = NaN"
| "f_add Inf NegInf = NaN"
| "f_add NegInf Inf = NaN"
| "f_add Inf _ = Inf"
| "f_add _ Inf = Inf"
| "f_add NegInf _ = NegInf"
| "f_add _ NegInf = NegInf"

fun f_neg :: "f64 \<Rightarrow> f64" where
  "f_neg (Fin a) = Fin (- a)"
| "f_neg Inf = NegInf"
| "f_neg NegInf = Inf"
| "f_neg NaN = NaN"

definition f_sub :: "f64 \<Rightarrow> f64 \<Rightarrow> f64" where
  "f_sub x y = f_add x (f_neg y)"

definition f_inf_times :: "bool \<Rightarrow> rat \<Rightarrow> f64" where
  "f_inf_times pos a = (if a = 0 then NaN else if (0 < a) = pos then Inf else NegInf)"

fun f_mul :: "f64 \<Rightarrow> f64 \<Rightarrow> f64" where
  "f_mul (Fin a) (Fin b) = round_f64 (a * b)"
| "f_mul NaN _ = NaN"
| "f_mul _ NaN = NaN"
| "f_mul (Fin a) Inf = f_inf_times True a"
| "f_mul (Fin a) NegInf = f_inf_times False a"
| "f_mul Inf (Fin a) = f_inf_times True a"
| "f_mul NegInf (Fin a) = f_inf_times False a"
| "f_mul Inf Inf = Inf"
| "f_mul NegInf NegInf = Inf"
| "f_mul _ _ = NegInf"

text \<open>\<open>f64::max\<close>: the other operand when one is not a number.\<close>

definition f_max :: "f64 \<Rightarrow> f64 \<Rightarrow> f64" where
  "f_max x y = (if x = NaN then y else if y = NaN then x else if f_lt x y then y else x)"

lemma powi2_less_imp: "(2 :: rat) powi m < 2 powi n \<Longrightarrow> m < n"
  using power_int_increasing [of n m "2 :: rat"] by (cases "n \<le> m") auto

lemma powi2_nonpos: "e \<le> 0 \<Longrightarrow> (2 :: rat) powi e = 1 / 2 ^ nat (- e)"
  by (cases "e = 0") (simp_all add: power_int_def power_one_over field_simps)

lemma bitlen_pos_bounds:
  assumes "0 < n"
  shows "2 powi (bitlen n - 1) \<le> (of_int n :: rat) \<and> (of_int n :: rat) < 2 powi (bitlen n)"
proof -
  have b: "0 < bitlen n"
  proof (rule ccontr)
    assume "\<not> 0 < bitlen n"
    then have "nat (bitlen n) = 0" by simp
    then show False using bitlen_bounds [OF assms] assms by simp
  qed
  have lo: "2 ^ (nat (bitlen n) - 1) \<le> n" and hi: "n < 2 ^ nat (bitlen n)"
    using bitlen_bounds [OF assms] b by (auto simp: nat_diff_distrib)
  have e1: "(2 :: rat) powi (bitlen n - 1) = 2 ^ (nat (bitlen n) - 1)"
    using b by (simp add: power_int_def nat_diff_distrib)
  have e2: "(2 :: rat) powi (bitlen n) = 2 ^ nat (bitlen n)"
    using b by (simp add: power_int_def)
  from lo have "(of_int (2 ^ (nat (bitlen n) - 1)) :: rat) \<le> of_int n"
    by (simp only: of_int_le_iff)
  moreover from hi have "(of_int n :: rat) < of_int (2 ^ nat (bitlen n))"
    by (simp only: of_int_less_iff)
  ultimately show ?thesis by (simp add: e1 e2)
qed

lemma ilog2_bounds:
  assumes "0 < q"
  shows "2 powi (ilog2 q) \<le> q \<and> q < 2 powi (ilog2 q + 1)"
proof -
  obtain n d where nd: "quotient_of q = (n, d)" by (cases "quotient_of q")
  have d: "0 < d" using nd quotient_of_denom_pos by blast
  have q: "q = of_int n / of_int d" using nd quotient_of_div by blast
  with assms d have n: "0 < n" by (simp add: zero_less_divide_iff)
  let ?e = "bitlen n - bitlen d"
  have nb: "2 powi (bitlen n - 1) \<le> (of_int n :: rat)" "(of_int n :: rat) < 2 powi (bitlen n)"
    using bitlen_pos_bounds [OF n] by auto
  have db: "2 powi (bitlen d - 1) \<le> (of_int d :: rat)" "(of_int d :: rat) < 2 powi (bitlen d)"
    using bitlen_pos_bounds [OF d] by auto
  have up: "q < 2 powi (?e + 1)"
  proof -
    have "q < 2 powi (bitlen n) / 2 powi (bitlen d - 1)"
      unfolding q using nb(2) db(1) n d
      by (intro frac_less) auto
    also have "\<dots> = 2 powi (?e + 1)" by (simp add: power_int_diff power_int_add field_simps)
    finally show ?thesis .
  qed
  have lo: "2 powi (?e - 1) \<le> q"
  proof -
    have "2 powi (bitlen n - 1) / 2 powi (bitlen d) \<le> (of_int n / of_int d :: rat)"
      using nb(1) db(2) n d by (intro frac_le) auto
    also have "(2 :: rat) powi (bitlen n - 1) / 2 powi (bitlen d) = 2 powi (?e - 1)"
      by (simp add: power_int_diff power_int_add field_simps)
    finally show ?thesis using q by simp
  qed
  show ?thesis
    using up lo by (auto simp: ilog2_def nd Let_def)
qed

lemma ulp_pos: "0 < ulp q"
  by (simp add: ulp_def)

lemma round_even_mono_int: "q \<le> of_int k \<Longrightarrow> round_even q \<le> k"
proof -
  assume le: "q \<le> of_int k"
  show "round_even q \<le> k"
  proof (cases "q = of_int k")
    case True
    then show ?thesis by (simp add: round_even_def)
  next
    case False
    with le have "\<lfloor>q\<rfloor> < k" by (simp add: floor_less_iff)
    then show ?thesis by (simp add: round_even_def Let_def)
  qed
qed

lemma round_even_ge_int: "of_int k \<le> q \<Longrightarrow> k \<le> round_even q"
  by (simp add: round_even_def Let_def le_floor_iff) linarith

lemma round_even_of_int [simp]: "round_even (of_int k) = k"
  by (simp add: round_even_def)

text \<open>A multiple of the unit in the last place is represented exactly.\<close>

lemma round_f64_exact:
  assumes "q = of_int m * ulp \<bar>q\<bar>" and "\<bar>q\<bar> < 2 ^ 1024"
  shows "round_f64 q = Fin q"
proof (cases "q = 0")
  case True
  then show ?thesis by (simp add: round_f64_def)
next
  case False
  have "q / ulp \<bar>q\<bar> = of_int m"
    using assms(1) ulp_pos [of "\<bar>q\<bar>"] by (metis nonzero_mult_div_cancel_right less_irrefl)
  then have "of_int (round_even (q / ulp \<bar>q\<bar>)) * ulp \<bar>q\<bar> = q"
    using assms(1) by simp
  with assms(2) False show ?thesis
    by (auto simp: round_f64_def Let_def abs_if split: if_splits)
qed

lemma ilog2_of_nat_less:
  assumes "0 < n" and "n < 2 ^ k"
  shows "ilog2 (of_nat n) < int k"
proof -
  have "2 powi (ilog2 (of_nat n)) \<le> (of_nat n :: rat)"
    using ilog2_bounds [of "of_nat n"] assms(1) by simp
  also have "(of_nat n :: rat) < 2 powi (int k)"
  proof -
    have "(of_nat n :: rat) < of_nat (2 ^ k)" using assms(2) by (simp only: of_nat_less_iff)
    then show ?thesis by (simp add: power_int_def)
  qed
  finally show ?thesis by (rule powi2_less_imp)
qed

lemma f_of_nat_exact:
  assumes "n < 2 ^ 53"
  shows "f_of_nat n = Fin (of_nat n)"
proof (cases "n = 0")
  case True
  then show ?thesis by (simp add: f_of_nat_def round_f64_def)
next
  case False
  let ?e = "max (ilog2 (of_nat n) - 52) (- 1074)"
  have "?e \<le> 0" using ilog2_of_nat_less [of n 53] False assms by simp
  then have u: "ulp (of_nat n) = 1 / 2 ^ nat (- ?e)"
    by (simp add: ulp_def powi2_nonpos)
  have "(of_nat n :: rat) = of_int (int n * 2 ^ nat (- ?e)) * ulp \<bar>of_nat n\<bar>"
    by (simp add: u)
  moreover have "\<bar>of_nat n :: rat\<bar> < 2 ^ 1024"
  proof -
    have "n < 2 ^ 1024"
      by (rule less_le_trans [OF assms]) (rule power_increasing, simp_all)
    then have "(of_nat n :: rat) < of_nat (2 ^ 1024)" by (simp only: of_nat_less_iff)
    then show ?thesis by simp
  qed
  ultimately show ?thesis unfolding f_of_nat_def by (rule round_f64_exact)
qed

text \<open>Rounding does not leave an interval from zero to an exactly represented natural number.\<close>

lemma ulp_dyadic:
  assumes "0 < q" and "q \<le> of_nat k" and "k < 2 ^ 53"
  shows "\<exists>m :: nat. ulp q = 1 / 2 ^ m"
proof -
  have k: "0 < k" using assms(1,2) by (cases k) auto
  have "2 powi (ilog2 q) < (2 :: rat) powi (ilog2 (of_nat k) + 1)"
    using ilog2_bounds [OF assms(1)] ilog2_bounds [of "of_nat k"] k assms(2) by fastforce
  then have "ilog2 q < ilog2 (of_nat k) + 1" by (rule powi2_less_imp)
  with ilog2_of_nat_less [OF k assms(3)] have "max (ilog2 q - 52) (- 1074) \<le> 0" by simp
  then show ?thesis unfolding ulp_def by (auto simp: powi2_nonpos)
qed

lemma less_two_1024:
  assumes "v \<le> (of_nat k :: rat)" and "k < 2 ^ 53"
  shows "v < 2 ^ 1024"
proof -
  have "k < 2 ^ 1024" by (rule less_le_trans [OF assms(2)]) (rule power_increasing, simp_all)
  then have "(of_nat k :: rat) < of_nat (2 ^ 1024)" by (simp only: of_nat_less_iff)
  with assms(1) show ?thesis by simp
qed

lemma round_f64_le_nat:
  assumes "0 \<le> q" and "q \<le> of_nat k" and "k < 2 ^ 53"
  shows "\<exists>v. round_f64 q = Fin v \<and> 0 \<le> v \<and> v \<le> of_nat k"
proof (cases "q = 0")
  case True
  then show ?thesis by (simp add: round_f64_def)
next
  case False
  with assms have q: "0 < q" by simp
  obtain m where u: "ulp q = 1 / 2 ^ m" using ulp_dyadic [OF q assms(2,3)] by blast
  let ?v = "of_int (round_even (q / ulp q)) * ulp q"
  have "q / ulp q \<le> of_int (int k * 2 ^ m)" using assms(2) by (simp add: u)
  then have hi: "round_even (q / ulp q) \<le> int k * 2 ^ m" by (rule round_even_mono_int)
  have "(of_int (round_even (q / ulp q)) :: rat) \<le> of_int (int k * 2 ^ m)"
    using hi by (simp only: of_int_le_iff)
  then have le: "?v \<le> of_nat k" by (simp add: u divide_le_eq)
  have "0 \<le> round_even (q / ulp q)"
    using round_even_ge_int [of 0 "q / ulp q"] q ulp_pos [of q] by simp
  then have ge: "0 \<le> ?v" using ulp_pos [of q] by simp
  have "\<not> 2 ^ 1024 \<le> ?v" using less_two_1024 [OF le assms(3)] by simp
  moreover have "\<not> ?v \<le> - (2 ^ 1024)"
  proof -
    have "- (2 ^ 1024) < (0 :: rat)" by simp
    with ge show ?thesis by linarith
  qed
  ultimately show ?thesis using q le ge by (simp add: round_f64_def Let_def)
qed

lemma round_f64_unit_interval:
  assumes "0 \<le> q" and "q \<le> 1"
  shows "\<exists>v. round_f64 q = Fin v \<and> 0 \<le> v \<and> v \<le> 1"
  using round_f64_le_nat [of q 1] assms by simp

text \<open>The rounding error is at most half a unit in the last place.\<close>

lemma round_even_error: "\<bar>of_int (round_even q) - q\<bar> \<le> 1 / 2"
proof -
  have "of_int \<lfloor>q\<rfloor> \<le> q" "q < of_int \<lfloor>q\<rfloor> + 1" by linarith+
  then show ?thesis by (simp add: round_even_def Let_def abs_le_iff)
qed

lemma round_f64_error:
  assumes "round_f64 q = Fin v"
  shows "\<bar>v - q\<bar> \<le> ulp \<bar>q\<bar> / 2"
proof (cases "q = 0")
  case True
  with assms show ?thesis using ulp_pos [of 0] by (simp add: round_f64_def)
next
  case False
  let ?u = "ulp \<bar>q\<bar>"
  have u: "0 < ?u" by (rule ulp_pos)
  have v: "v = of_int (round_even (q / ?u)) * ?u"
    using assms False by (simp add: round_f64_def Let_def split: if_splits)
  have "v - q = (of_int (round_even (q / ?u)) - q / ?u) * ?u"
    using u by (simp add: v left_diff_distrib)
  then have "\<bar>v - q\<bar> = \<bar>of_int (round_even (q / ?u)) - q / ?u\<bar> * ?u"
    using u by (simp add: abs_mult)
  also have "\<dots> \<le> 1 / 2 * ?u" using round_even_error [of "q / ?u"] u by (intro mult_right_mono) auto
  finally show ?thesis by simp
qed

lemma ulp_le:
  assumes "0 < q" and "q < 2 ^ n" and "n \<le> 53"
  shows "ulp q \<le> 2 ^ n / 2 ^ 53"
proof -
  have "2 powi (ilog2 q) < (2 :: rat) powi (int n)"
    using ilog2_bounds [OF assms(1)] assms(2) by (auto simp: power_int_def intro: le_less_trans)
  then have "ilog2 q < int n" by (rule powi2_less_imp)
  then have "max (ilog2 q - 52) (- 1074) \<le> int n - 53" using assms(3) by simp
  then have "ulp q \<le> 2 powi (int n - 53)"
    unfolding ulp_def by (rule power_int_increasing) simp
  also have "(2 :: rat) powi (int n - 53) = 2 ^ n / 2 ^ 53"
    by (simp add: power_int_diff)
  finally show ?thesis .
qed

lemma round_f64_nonneg:
  assumes "0 \<le> q"
  shows "f_le (Fin 0) (round_f64 q)"
proof (cases "q = 0")
  case False
  with assms have "0 \<le> round_even (q / ulp q)"
    using round_even_ge_int [of 0 "q / ulp q"] ulp_pos [of q] by simp
  then have "0 \<le> of_int (round_even (q / ulp q)) * ulp q" using ulp_pos [of q] by simp
  with assms False show ?thesis by (simp add: round_f64_def Let_def)
qed (simp add: round_f64_def)

text \<open>Signs of products and quotients.\<close>

lemma f_of_nat_nonneg: "f_le (Fin 0) (f_of_nat n)"
  by (simp add: f_of_nat_def round_f64_nonneg)

lemma f_mul_nonneg: "f_le (Fin 0) x \<Longrightarrow> 0 < c \<Longrightarrow> f_le (Fin 0) (f_mul x (Fin c))"
  by (cases x) (auto simp: round_f64_nonneg f_inf_times_def)

lemma f_div_nonneg: "f_le (Fin 0) x \<Longrightarrow> 0 < d \<Longrightarrow> f_le (Fin 0) (f_div x (Fin d))"
  by (cases x) (auto simp: round_f64_nonneg)

lemma f_div_ratio:
  assumes "0 \<le> a" and "a \<le> b" and "0 < b"
  shows "\<exists>v. f_div (Fin a) (Fin b) = Fin v \<and> 0 \<le> v \<and> v \<le> 1"
  using assms round_f64_unit_interval [of "a / b"] by simp

end
