(* ===== verification/Contracts.thy ===== *)
theory Contracts
  imports Float64
begin

text \<open>
  The wire and storage vocabulary of \<open>backend/src/contracts.rs\<close> that the monitoring subsystem uses:
  the enumerations with the names the database stores for them, the request and response records,
  and the typed health rules. Texts that hold a time are represented by the number they denote:
  an \<open>instant\<close> is a count of nanoseconds since the epoch (\<open>DateTime<Utc>\<close>), a \<open>secs\<close> value is a
  text with second precision (\<open>SecondsFormat::Secs\<close>), a \<open>millis\<close> value one with millisecond
  precision. Both formats have a fixed width for four-digit years, so the order of the texts, which
  SQL compares, is the order of the numbers.
\<close>

type_synonym instant = int
type_synonym secs = int
type_synonym millis = int

definition ns_per_s :: int where
  "ns_per_s = 1000000000"

definition ns_per_ms :: int where
  "ns_per_ms = 1000000"

text \<open>\<open>timestamp\<close>: the second-precision text of an instant; \<open>parse_timestamp\<close> reads it back.\<close>

definition timestamp :: "instant \<Rightarrow> secs" where
  "timestamp t = t div ns_per_s"

definition parse_timestamp :: "secs \<Rightarrow> instant" where
  "parse_timestamp s = s * ns_per_s"

definition timestamp_ms :: "instant \<Rightarrow> millis" where
  "timestamp_ms t = t div ns_per_ms"

definition timestamp_epoch_ms :: "secs \<Rightarrow> millis" where
  "timestamp_epoch_ms s = parse_timestamp s div ns_per_ms"

definition seconds :: "int \<Rightarrow> int" where
  "seconds n = n * ns_per_s"

lemma timestamp_parse [simp]: "timestamp (parse_timestamp s) = s"
  by (simp add: timestamp_def parse_timestamp_def ns_per_s_def)

lemma timestamp_add_seconds [simp]: "timestamp (t + seconds n) = timestamp t + n"
  by (simp add: timestamp_def seconds_def ns_per_s_def)

lemma timestamp_epoch_ms_eq: "timestamp_epoch_ms s = 1000 * s"
  by (simp add: timestamp_epoch_ms_def parse_timestamp_def ns_per_s_def ns_per_ms_def)

lemma timestamp_mono: "s \<le> t \<Longrightarrow> timestamp s \<le> timestamp t"
  by (simp add: timestamp_def ns_per_s_def zdiv_mono1)

lemma parse_timestamp_le: "parse_timestamp s \<le> t \<longleftrightarrow> s \<le> timestamp t"
  by (auto simp: timestamp_def parse_timestamp_def ns_per_s_def)

lemma parse_timestamp_add: "parse_timestamp s + seconds n = parse_timestamp (s + n)"
  by (simp add: parse_timestamp_def seconds_def algebra_simps)

subsection \<open>Enumerations and their stored names\<close>

datatype schedule_state = SchedEnabled | SchedPaused | SchedArchived

datatype run_state =
  Queued | Running | Succeeded | Partial | Failed | TimedOut | SkippedOverlap | Interrupted

datatype run_trigger = Manual | Scheduled | CatchUp

datatype discovery_state =
  Accepted | DiscoveryRunning | EvidenceReady | DiscoveryComplete | DiscoveryPartial
| DiscoveryUnavailable | SshUnreachable | SshAuthFailed | PermissionDenied
| DockerPermissionDenied | DockerUnavailable | ComposeUnavailable | DiscoveryTimeout
| DocumentReadFailed | EvidenceConflict

datatype requirement = Required | Optional

datatype cpu_series_kind = CollectorWindow

datatype condition_status = Ok | Warning | Critical | Unknown | Stale

datatype host_status = Healthy | Degraded | Unhealthy | HealthUnknown

datatype observation_state = ObsComplete | ObsPartial | ObsNone

datatype monitor_freshness = FreshnessUnknown | MonFresh | MonStale

datatype freshness = Fresh | StaleData | Unavailable

fun is_terminal :: "discovery_state \<Rightarrow> bool" where
  "is_terminal Accepted = False"
| "is_terminal DiscoveryRunning = False"
| "is_terminal _ = True"

fun schedule_state_name :: "schedule_state \<Rightarrow> string" where
  "schedule_state_name SchedEnabled = ''enabled''"
| "schedule_state_name SchedPaused = ''paused''"
| "schedule_state_name SchedArchived = ''archived''"

definition parse_schedule_state :: "string \<Rightarrow> schedule_state" where
  "parse_schedule_state v =
     (if v = ''enabled'' then SchedEnabled else if v = ''archived'' then SchedArchived else SchedPaused)"

fun trigger_name :: "run_trigger \<Rightarrow> string" where
  "trigger_name Manual = ''manual''"
| "trigger_name Scheduled = ''scheduled''"
| "trigger_name CatchUp = ''catch_up''"

definition parse_monitor_trigger :: "string \<Rightarrow> run_trigger" where
  "parse_monitor_trigger v =
     (if v = ''scheduled'' then Scheduled else if v = ''catch_up'' then CatchUp else Manual)"

fun run_state_name :: "run_state \<Rightarrow> string" where
  "run_state_name Queued = ''queued''"
| "run_state_name Running = ''running''"
| "run_state_name Succeeded = ''succeeded''"
| "run_state_name Partial = ''partial''"
| "run_state_name Failed = ''failed''"
| "run_state_name TimedOut = ''timed_out''"
| "run_state_name SkippedOverlap = ''skipped_overlap''"
| "run_state_name Interrupted = ''interrupted''"

definition parse_monitor_state :: "string \<Rightarrow> run_state" where
  "parse_monitor_state v =
     (if v = ''queued'' then Queued
      else if v = ''running'' then Running
      else if v = ''succeeded'' then Succeeded
      else if v = ''partial'' then Partial
      else if v = ''timed_out'' then TimedOut
      else if v = ''skipped_overlap'' then SkippedOverlap
      else if v = ''interrupted'' then Interrupted
      else Failed)"

fun requirement_name :: "requirement \<Rightarrow> string" where
  "requirement_name Required = ''required''"
| "requirement_name Optional = ''optional''"

definition parse_requirement :: "string \<Rightarrow> requirement" where
  "parse_requirement v = (if v = ''optional'' then Optional else Required)"

fun condition_status_name :: "condition_status \<Rightarrow> string" where
  "condition_status_name Ok = ''ok''"
| "condition_status_name Warning = ''warning''"
| "condition_status_name Critical = ''critical''"
| "condition_status_name Unknown = ''unknown''"
| "condition_status_name Stale = ''unknown''"

definition parse_condition_status :: "string \<Rightarrow> condition_status" where
  "parse_condition_status v =
     (if v = ''ok'' then Ok
      else if v = ''warning'' then Warning
      else if v = ''critical'' then Critical
      else if v = ''stale'' then Stale
      else Unknown)"

fun host_status_name :: "host_status \<Rightarrow> string" where
  "host_status_name Healthy = ''healthy''"
| "host_status_name Degraded = ''degraded''"
| "host_status_name Unhealthy = ''unhealthy''"
| "host_status_name HealthUnknown = ''unknown''"

definition parse_host_status :: "string \<Rightarrow> host_status" where
  "parse_host_status v =
     (if v = ''healthy'' then Healthy
      else if v = ''degraded'' then Degraded
      else if v = ''unhealthy'' then Unhealthy
      else HealthUnknown)"

fun observation_state_name :: "observation_state \<Rightarrow> string" where
  "observation_state_name ObsComplete = ''complete''"
| "observation_state_name ObsPartial = ''partial''"
| "observation_state_name ObsNone = ''none''"

definition parse_observation_state :: "string \<Rightarrow> observation_state" where
  "parse_observation_state v =
     (if v = ''complete'' then ObsComplete else if v = ''partial'' then ObsPartial else ObsNone)"

text \<open>
  The contract of a stored enumeration: reading back what was written gives the value. Under it the
  text equality that SQL tests is equality of the values, so the model's rows may hold the values.
\<close>

locale stored_enum =
  fixes nm :: "'a \<Rightarrow> string" and parse :: "string \<Rightarrow> 'a"
  assumes parse_nm: "parse (nm x) = x"
begin

lemma nm_eq_iff: "nm x = nm y \<longleftrightarrow> x = y"
  by (metis parse_nm)

lemma nm_inj: "inj nm"
  by (rule injI) (simp add: nm_eq_iff)

lemma nm_in_iff: "nm x \<in> nm ` S \<longleftrightarrow> x \<in> S"
  by (auto simp: nm_eq_iff)

end

interpretation schedule_state: stored_enum schedule_state_name parse_schedule_state
proof
  show "parse_schedule_state (schedule_state_name x) = x" for x
    by (cases x) (simp_all add: parse_schedule_state_def)
qed

interpretation run_trigger: stored_enum trigger_name parse_monitor_trigger
proof
  show "parse_monitor_trigger (trigger_name x) = x" for x
    by (cases x) (simp_all add: parse_monitor_trigger_def)
qed

interpretation run_state: stored_enum run_state_name parse_monitor_state
proof
  show "parse_monitor_state (run_state_name x) = x" for x
    by (cases x) (simp_all add: parse_monitor_state_def)
qed

interpretation requirement: stored_enum requirement_name parse_requirement
proof
  show "parse_requirement (requirement_name x) = x" for x
    by (cases x) (simp_all add: parse_requirement_def)
qed

interpretation host_status: stored_enum host_status_name parse_host_status
proof
  show "parse_host_status (host_status_name x) = x" for x
    by (cases x) (simp_all add: parse_host_status_def)
qed

interpretation observation_state: stored_enum observation_state_name parse_observation_state
proof
  show "parse_observation_state (observation_state_name x) = x" for x
    by (cases x) (simp_all add: parse_observation_state_def)
qed

text \<open>A condition status survives storage, except that a stale status is stored as unknown.\<close>

lemma parse_condition_status_name:
  "parse_condition_status (condition_status_name s) = (if s = Stale then Unknown else s)"
  by (cases s) (simp_all add: parse_condition_status_def)

subsection \<open>JSON values\<close>

datatype json =
  JNull | JBool bool | JInt int | JStr string | JArr "json list" | JObj "(string \<times> json) list"

subsection \<open>Monitor schedules\<close>

record schedule_record =
  rec_schedule_id :: string
  rec_host_id :: string
  rec_interval_seconds :: nat
  rec_jitter_seconds :: nat
  rec_jitter_offset_seconds :: nat
  rec_stale_after_seconds :: nat
  rec_state :: schedule_state
  rec_next_due_at :: "secs option"
  rec_last_due_at :: "secs option"
  rec_revision :: int
  rec_created_at :: secs
  rec_updated_at :: secs

record api_meta =
  meta_request_id :: string
  meta_revision :: int
  meta_generated_at :: secs
  meta_freshness :: freshness

record schedule_response =
  resp_data :: schedule_record
  resp_meta :: api_meta

record schedule_create_request =
  cr_interval_seconds :: nat
  cr_jitter_seconds :: nat
  cr_stale_after_seconds :: nat
  cr_enabled :: bool

record schedule_update_request =
  up_interval_seconds :: "nat option"
  up_jitter_seconds :: "nat option"
  up_stale_after_seconds :: "nat option"
  up_state :: "schedule_state option"

record run_accepted =
  acc_request_id :: string
  acc_run_id :: string
  acc_host_id :: string
  acc_state :: run_state
  acc_submitted_at :: secs

record run_accepted_response =
  acc_data :: run_accepted
  acc_meta :: api_meta

subsection \<open>Health rules and policies\<close>

record cpu_rule =
  cpu_requirement :: requirement
  cpu_series :: cpu_series_kind
  cpu_minimum_window :: f64
  cpu_warning :: f64
  cpu_critical :: f64
  cpu_recovery :: f64
  cpu_enter_count :: nat
  cpu_recover_count :: nat

record high_rule =
  high_requirement :: requirement
  high_warning :: f64
  high_critical :: f64
  high_recovery :: f64
  high_enter_count :: nat
  high_recover_count :: nat

record low_rule =
  low_requirement :: requirement
  low_warning :: f64
  low_critical :: f64
  low_recovery :: f64
  low_enter_count :: nat
  low_recover_count :: nat

record fs_rule =
  fs_mount :: string
  fs_requirement :: requirement
  fs_warning :: f64
  fs_critical :: f64
  fs_recovery :: f64
  fs_critical_available :: "nat option"
  fs_enter_count :: nat
  fs_recover_count :: nat

record policy_request =
  pr_enabled :: bool
  pr_cpu_busy :: "cpu_rule option"
  pr_memory :: "low_rule option"
  pr_load5 :: "high_rule option"
  pr_filesystems :: "fs_rule list"

end
