(* ===== verification/SnapshotContracts.thy ===== *)
theory SnapshotContracts
  imports Contracts
begin

text \<open>
  The records of \<open>backend/src/contracts.rs\<close> that carry one collection: the quality of a metric, the coverage
  of a family, the snapshot of a host and the receipt of a run. The profile, an enumeration with the single
  value \<open>HostResourceV1\<close>, is left out of the records.
\<close>

datatype monitor_metric_quality =
  MObserved | MUnsupported | MParseFailed | MCounterReset | MCounterUnreliable | MInsufficientInterval
| MPermissionDenied | MTimedOut

record family_coverage_row =
  fcv_family :: string
  fcv_required :: bool
  fcv_quality :: monitor_metric_quality
  fcv_observed_item_count :: nat

record host_cpu_core_metric =
  hcc_cpu :: string
  hcc_quality :: monitor_metric_quality
  hcc_busy_percent :: "f64 option"
  hcc_iowait_percent :: "f64 option"
  hcc_steal_percent :: "f64 option"

record host_cpu_metric =
  hcm_quality :: monitor_metric_quality
  hcm_busy_percent :: "f64 option"
  hcm_iowait_percent :: "f64 option"
  hcm_steal_percent :: "f64 option"
  hcm_online_cpu_count :: "nat option"
  hcm_window_seconds :: "f64 option"
  hcm_per_cpu :: "host_cpu_core_metric list"

record host_memory_metric =
  hmm_quality :: monitor_metric_quality
  hmm_total_bytes :: "nat option"
  hmm_available_bytes :: "nat option"
  hmm_used_bytes :: "nat option"
  hmm_swap_total_bytes :: "nat option"
  hmm_swap_free_bytes :: "nat option"
  hmm_cached_bytes :: "nat option"
  hmm_buffers_bytes :: "nat option"
  hmm_slab_bytes :: "nat option"

record host_load_metric =
  hlm_quality :: monitor_metric_quality
  hlm_load1 :: "f64 option"
  hlm_load5 :: "f64 option"
  hlm_load15 :: "f64 option"
  hlm_normalized_load1 :: "f64 option"
  hlm_normalized_load5 :: "f64 option"
  hlm_normalized_load15 :: "f64 option"
  hlm_runnable_entities :: "nat option"
  hlm_total_scheduling_entities :: "nat option"
  hlm_online_cpu_count :: "nat option"

record host_filesystem_metric =
  hfm_mount :: string
  hfm_size_bytes :: nat
  hfm_used_bytes :: nat
  hfm_available_bytes :: nat
  hfm_allocatable_used_ratio :: "f64 option"
  hfm_inode_total :: "nat option"
  hfm_inode_used :: "nat option"
  hfm_inode_available :: "nat option"
  hfm_inode_used_ratio :: "f64 option"
  hfm_inode_quality :: monitor_metric_quality

record host_disk_io_metric =
  hdm_identity :: string
  hdm_name :: string
  hdm_major :: nat
  hdm_minor :: nat
  hdm_quality :: monitor_metric_quality
  hdm_window_seconds :: f64
  hdm_read_bytes_per_second :: "f64 option"
  hdm_write_bytes_per_second :: "f64 option"
  hdm_iops :: "f64 option"
  hdm_read_await_ms :: "f64 option"
  hdm_write_await_ms :: "f64 option"
  hdm_util_percent :: "f64 option"
  hdm_average_queue_depth :: "f64 option"

record host_network_metric =
  hnm_identity :: string
  hnm_name :: string
  hnm_ifindex :: nat
  hnm_iflink :: "nat option"
  hnm_operstate :: string
  hnm_speed_mbps :: "nat option"
  hnm_quality :: monitor_metric_quality
  hnm_window_seconds :: f64
  hnm_rx_bytes_per_second :: "f64 option"
  hnm_tx_bytes_per_second :: "f64 option"
  hnm_rx_packets_per_second :: "f64 option"
  hnm_tx_packets_per_second :: "f64 option"
  hnm_rx_error_drop_percent :: "f64 option"
  hnm_tx_error_drop_percent :: "f64 option"
  hnm_rx_util_percent :: "f64 option"
  hnm_tx_util_percent :: "f64 option"

record host_uptime_metric =
  hum_quality :: monitor_metric_quality
  hum_boot_id :: "string option"
  hum_uptime_seconds :: "f64 option"
  hum_idle_seconds :: "f64 option"
  hum_rebooted_during_sample :: "bool option"
  hum_window_seconds :: "f64 option"

record host_process_metric =
  hpm_quality :: monitor_metric_quality
  hpm_scanned :: "nat option"
  hpm_running :: "nat option"
  hpm_blocked :: "nat option"
  hpm_zombie :: "nat option"
  hpm_raced :: "nat option"
  hpm_truncated :: "bool option"

record host_resource_snapshot =
  snap_observation_id :: string
  snap_run_id :: string
  snap_host_id :: string
  snap_collector_version :: string
  snap_observed_at :: millis
  snap_valid_until :: millis
  snap_freshness :: monitor_freshness
  snap_retention_tier :: string
  snap_ssh_session_count :: nat
  snap_coverage :: "family_coverage_row list"
  snap_metric_count :: nat
  snap_unknown_count :: nat
  snap_cpu :: host_cpu_metric
  snap_memory :: host_memory_metric
  snap_load :: host_load_metric
  snap_filesystems :: "host_filesystem_metric list"
  snap_disk_io :: "host_disk_io_metric list"
  snap_network :: "host_network_metric list"
  snap_uptime :: host_uptime_metric
  snap_process :: host_process_metric

record monitor_run_record =
  mrr_request_id :: string
  mrr_run_id :: string
  mrr_host_id :: string
  mrr_trigger_kind :: run_trigger
  mrr_state :: run_state
  mrr_schedule_id :: "string option"
  mrr_schedule_revision :: "int option"
  mrr_scheduled_for :: "secs option"
  mrr_stale_after_seconds :: nat
  mrr_due_interval_seconds :: "nat option"
  mrr_missed_due_count :: "nat option"
  mrr_collector_version :: "string option"
  mrr_boot_id :: "string option"
  mrr_coverage :: "family_coverage_row list"
  mrr_output_bytes :: nat
  mrr_ssh_session_count :: nat
  mrr_failure_code :: "string option"
  mrr_failure_summary :: "string option"
  mrr_submitted_at :: secs
  mrr_started_at :: "secs option"
  mrr_finished_at :: "millis option"

record monitor_run_response =
  mrs_data :: monitor_run_record
  mrs_meta :: api_meta

record host_monitoring_data =
  hmd_host_id :: string
  hmd_latest_run :: "monitor_run_record option"
  hmd_current_snapshot :: "host_resource_snapshot option"
  hmd_monitor_freshness :: monitor_freshness

record host_monitoring_response =
  hmr_data :: host_monitoring_data
  hmr_meta :: api_meta

end
