(* ===== verification/Store.thy ===== *)
theory Store
  imports SnapshotContracts
begin

text \<open>
  The SQLite tables of the monitoring subsystem as one record of row lists, in the shape the
  migrations 0002 to 0016 give them. Columns that only repeat another one (an epoch column beside
  its text) are kept once. The statements that insert rows check the constraints of the schema:
  primary keys, unique indexes, \<open>CHECK\<close> clauses and the triggers that raise an abort. A violated
  constraint is a value of \<open>db_error\<close>, and the transaction that met it leaves the tables as they were.
\<close>

record schedule_row =
  sch_id :: string
  sch_host :: string
  sch_interval :: nat
  sch_jitter :: nat
  sch_jitter_offset :: nat
  sch_stale_after :: nat
  sch_state :: schedule_state
  sch_next_due :: "secs option"
  sch_last_due :: "secs option"
  sch_revision :: int
  sch_lease_owner :: "string option"
  sch_lease_token :: "string option"
  sch_lease_until :: "secs option"
  sch_create_key :: string
  sch_create_sha :: string
  sch_created_response :: schedule_response
  sch_created_at :: secs
  sch_updated_at :: secs

datatype provenance_kind = LegacyBaseline | Recorded

record version_row =
  ver_id :: string
  ver_schedule :: string
  ver_host :: string
  ver_revision :: int
  ver_interval :: nat
  ver_jitter :: nat
  ver_jitter_offset :: nat
  ver_stale_after :: nat
  ver_state :: schedule_state
  ver_due_from :: "secs option"
  ver_due_until :: "secs option"
  ver_effective_from :: secs
  ver_effective_until :: "secs option"
  ver_provenance :: provenance_kind
  ver_activated_at :: "secs option"
  ver_paused_at :: "secs option"
  ver_resumed_at :: "secs option"
  ver_archived_at :: "secs option"
  ver_created_at :: secs

record run_row =
  run_id :: string
  run_host :: string
  run_request_id :: string
  run_key :: string
  run_sha :: string
  run_trigger_kind :: run_trigger
  run_status :: run_state
  run_schedule :: "string option"
  run_schedule_revision :: "int option"
  run_version :: "string option"
  run_policy_version :: "string option"
  run_scheduled_for :: "secs option"
  run_stale_after :: int
  run_due_interval :: "int option"
  run_missed :: "int option"
  run_collector_version :: "string option"
  run_boot_id :: "string option"
  run_coverage :: "family_coverage_row list"
  run_failure :: "string option"
  run_failure_summary :: "string option"
  run_output_bytes :: int
  run_ssh_sessions :: nat
  run_submitted_at :: secs
  run_started_at :: "secs option"
  run_finished_at :: "millis option"
  run_accepted :: run_accepted_response

record discovery_row =
  disc_id :: string
  disc_host :: string
  disc_state :: discovery_state

datatype lifecycle = Current | Superseded

record policy_row =
  pol_version_id :: string
  pol_id :: string
  pol_host :: string
  pol_revision :: int
  pol_lifecycle :: lifecycle
  pol_enabled :: bool
  pol_json :: "policy_request option"
  pol_sha :: string
  pol_effective_from :: millis
  pol_effective_until :: "millis option"

record sample_row =
  smp_id :: string
  smp_run :: string
  smp_host :: string
  smp_family :: string
  smp_subject_kind :: string
  smp_subject_id :: string
  smp_metric :: string
  smp_dims_json :: string
  smp_dims_sha :: string
  smp_kind :: string
  smp_value :: "f64 option"
  smp_value_integer :: "int option"
  smp_unit :: string
  smp_window :: "f64 option"
  smp_quality :: string
  smp_observed_at :: millis
  smp_observed_ms :: millis
  smp_source :: string
  smp_created_at :: millis

record evaluation_row =
  evl_id :: string
  evl_run :: string
  evl_host :: string
  evl_policy_version :: "string option"
  evl_policy :: "string option"
  evl_policy_revision :: "int option"
  evl_status :: host_status
  evl_reason :: string
  evl_required :: int
  evl_optional :: int
  evl_ok :: int
  evl_warning :: int
  evl_critical :: int
  evl_unknown :: int
  evl_observation :: observation_state
  evl_input_sha :: string
  evl_evaluated_at :: millis
  evl_observed_at :: "millis option"
  evl_valid_until :: "millis option"

record condition_row =
  cnd_id :: string
  cnd_evaluation :: string
  cnd_key :: string
  cnd_kind :: string
  cnd_requirement :: requirement
  cnd_subject_kind :: string
  cnd_subject_id :: string
  cnd_subject_label :: string
  cnd_status :: string
  cnd_candidate :: string
  cnd_reason :: string
  cnd_value :: "f64 option"
  cnd_unit :: string
  cnd_window :: "f64 option"
  cnd_streak :: int
  cnd_streak_required :: int
  cnd_evidence :: "string list"
  cnd_input_sha :: string
  cnd_created_at :: millis

record current_row =
  cur_host :: string
  cur_run :: string
  cur_collector_version :: string
  cur_boot_id :: "string option"
  cur_snapshot :: host_resource_snapshot
  cur_coverage :: "family_coverage_row list"
  cur_metric_count :: nat
  cur_unknown_count :: nat
  cur_observed_at :: millis
  cur_valid_until :: millis
  cur_retention_tier :: string
  cur_sha :: string
  cur_updated_at :: millis

record event_row =
  ev_cursor :: int
  ev_workspace :: string
  ev_kind :: string
  ev_subject :: string
  ev_revision :: int
  ev_summary :: json
  ev_committed_at :: secs

record db =
  hosts :: "string list"
  schedules :: "schedule_row list"
  versions :: "version_row list"
  runs :: "run_row list"
  discoveries :: "discovery_row list"
  policies :: "policy_row list"
  samples :: "sample_row list"
  evaluations :: "evaluation_row list"
  conditions :: "condition_row list"
  currents :: "current_row list"
  events :: "event_row list"
  event_seq :: int
  provenance_started_ms :: millis

datatype db_error =
    UniqueViolation
  | CheckViolation
  | ForeignKeyViolation
  | TriggerAbort string
  | RowNotFound

type_synonym 'a stmt = "db_error + 'a"

definition empty_db :: db where
  "empty_db = \<lparr>hosts = [], schedules = [], versions = [], runs = [], discoveries = [], policies = [],
     samples = [], evaluations = [], conditions = [], currents = [], events = [], event_seq = 0,
     provenance_started_ms = 0\<rparr>"

subsection \<open>What the Rust code takes from other crates\<close>

text \<open>
  Hashing, JSON text, time formatting and the SSH collector are not under \<open>src/\<close>. Their results are
  arguments: \<open>fmt_secs\<close> is the RFC 3339 text of a second-precision time, \<open>sha256\<close> the digest of a
  text as bytes, \<open>json_of_create\<close>, \<open>json_of_policy\<close> and \<open>json_of_inputs\<close> the serialised texts that
  are hashed.
\<close>

record env =
  fmt_secs :: "secs \<Rightarrow> string"
  sha256 :: "string \<Rightarrow> nat list"
  json_of_create :: "schedule_create_request \<Rightarrow> string"
  json_of_policy :: "policy_request \<Rightarrow> string"
  json_of_inputs ::
    "string option \<times> string list \<times> (string \<times> string \<times> string list) list \<times> int \<Rightarrow> string"
  json_of_strings :: "string list \<Rightarrow> string"

definition digest_text :: "env \<Rightarrow> string \<Rightarrow> string" where
  "digest_text env v = hex_digest (sha256 env v)"

text \<open>A concrete instance and a host, at which the witnesses evaluate the model.\<close>

definition sample_env :: env where
  "sample_env = \<lparr>fmt_secs = show_int, sha256 = (\<lambda>s. map of_char s),
     json_of_create = (\<lambda>r. show_nat (cr_interval_seconds r)),
     json_of_policy = (\<lambda>q. if pr_enabled q then ''on'' else ''off''),
     json_of_inputs = (\<lambda>_. ''inputs''), json_of_strings = concat\<rparr>"

definition sample_hosts :: db where
  "sample_hosts = empty_db\<lparr>hosts := [''h'']\<rparr>"

definition sample_meta :: api_meta where
  "sample_meta = \<lparr>meta_request_id = ''q'', meta_revision = 0, meta_generated_at = 0, meta_freshness = Fresh\<rparr>"

definition sample_run :: "run_state \<Rightarrow> run_row" where
  "sample_run s = \<lparr>run_id = ''r'', run_host = ''h'', run_request_id = ''q'', run_key = ''k'', run_sha = ''s'',
     run_trigger_kind = Manual, run_status = s, run_schedule = None, run_schedule_revision = None,
     run_version = None, run_policy_version = Some ''v'', run_scheduled_for = None,
     run_stale_after = 600, run_due_interval = None, run_missed = None, run_collector_version = None,
     run_boot_id = None, run_coverage = [], run_failure = None, run_failure_summary = None, run_output_bytes = 0, run_ssh_sessions = 0, run_submitted_at = 0, run_started_at = Some 0,
     run_finished_at = None,
     run_accepted = \<lparr>acc_data = \<lparr>acc_request_id = ''q'', acc_run_id = ''r'', acc_host_id = ''h'',
       acc_state = Queued, acc_submitted_at = 0\<rparr>, acc_meta = sample_meta\<rparr>\<rparr>"

subsection \<open>Constraints of \<open>monitor_schedules\<close>\<close>

definition schedule_checks :: "schedule_row \<Rightarrow> bool" where
  "schedule_checks r =
     (300 \<le> sch_interval r \<and> sch_interval r \<le> 86400
      \<and> sch_jitter r < sch_interval r
      \<and> sch_jitter_offset r \<le> sch_jitter r
      \<and> sch_interval r \<le> sch_stale_after r \<and> sch_stale_after r \<le> 604800
      \<and> 1 \<le> sch_revision r
      \<and> (if sch_state r = SchedEnabled then sch_next_due r \<noteq> None else sch_next_due r = None)
      \<and> ((sch_lease_owner r = None \<and> sch_lease_token r = None \<and> sch_lease_until r = None)
         \<or> (sch_lease_owner r \<noteq> None \<and> sch_lease_token r \<noteq> None \<and> sch_lease_until r \<noteq> None)))"

definition insert_schedule :: "schedule_row \<Rightarrow> db \<Rightarrow> db stmt" where
  "insert_schedule r d =
     (if \<not> schedule_checks r then Inl CheckViolation
      else if sch_id r \<in> set (map sch_id (schedules d))
           \<or> (\<exists>s \<in> set (schedules d). sch_host s = sch_host r \<and> sch_create_key s = sch_create_key r)
           \<or> (sch_state r \<noteq> SchedArchived
              \<and> (\<exists>s \<in> set (schedules d). sch_host s = sch_host r \<and> sch_state s \<noteq> SchedArchived))
      then Inl UniqueViolation
      else if sch_host r \<notin> set (hosts d) then Inl ForeignKeyViolation
      else Inr (d\<lparr>schedules := schedules d @ [r]\<rparr>))"

subsection \<open>Constraints of \<open>monitor_schedule_versions\<close>\<close>

definition version_checks :: "version_row \<Rightarrow> bool" where
  "version_checks v =
     (1 \<le> ver_revision v
      \<and> 300 \<le> ver_interval v \<and> ver_interval v \<le> 86400
      \<and> ver_jitter v < ver_interval v
      \<and> ver_jitter_offset v \<le> ver_jitter v
      \<and> ver_interval v \<le> ver_stale_after v \<and> ver_stale_after v \<le> 604800
      \<and> 0 \<le> ver_effective_from v
      \<and> (case ver_due_from v of None \<Rightarrow> True | Some f \<Rightarrow> 0 \<le> f)
      \<and> (if ver_state v = SchedEnabled then ver_due_from v \<noteq> None else ver_due_from v = None)
      \<and> (case ver_due_until v of None \<Rightarrow> True
         | Some u \<Rightarrow> 0 \<le> u \<and> (case ver_due_from v of None \<Rightarrow> False | Some f \<Rightarrow> f \<le> u))
      \<and> (case ver_effective_until v of None \<Rightarrow> True | Some u \<Rightarrow> ver_effective_from v \<le> u))"

definition insert_version :: "version_row \<Rightarrow> db \<Rightarrow> db stmt" where
  "insert_version v d =
     (if \<not> version_checks v then Inl CheckViolation
      else if ver_id v \<in> set (map ver_id (versions d))
           \<or> (\<exists>w \<in> set (versions d). ver_schedule w = ver_schedule v \<and> ver_revision w = ver_revision v)
           \<or> (ver_effective_until v = None
              \<and> (\<exists>w \<in> set (versions d). ver_schedule w = ver_schedule v \<and> ver_effective_until w = None))
      then Inl UniqueViolation
      else if \<not> (\<exists>s \<in> set (schedules d). sch_id s = ver_schedule v \<and> sch_host s = ver_host v)
      then Inl ForeignKeyViolation
      else Inr (d\<lparr>versions := versions d @ [v]\<rparr>))"

text \<open>The trigger \<open>monitor_schedule_versions_close_only\<close> together with the checks of the new row.\<close>

definition close_allowed :: "version_row \<Rightarrow> version_row \<Rightarrow> bool" where
  "close_allowed old new =
     (ver_effective_until old = None \<and> ver_effective_until new \<noteq> None
      \<and> new = old\<lparr>ver_effective_until := ver_effective_until new, ver_due_until := ver_due_until new\<rparr>
      \<and> (if ver_state old = SchedEnabled then ver_due_until new \<noteq> None else ver_due_until new = None))"

subsection \<open>Constraints of \<open>monitor_runs\<close>\<close>

definition active_run :: "run_row \<Rightarrow> bool" where
  "active_run r = (run_status r = Queued \<or> run_status r = Running)"

definition active_discovery :: "discovery_row \<Rightarrow> bool" where
  "active_discovery r = (disc_state r = Accepted \<or> disc_state r = DiscoveryRunning)"

definition run_checks :: "run_row \<Rightarrow> bool" where
  "run_checks r =
     (60 \<le> run_stale_after r \<and> run_stale_after r \<le> 604800
      \<and> (case run_due_interval r of None \<Rightarrow> True | Some i \<Rightarrow> 300 \<le> i \<and> i \<le> 86400)
      \<and> (case run_missed r of None \<Rightarrow> True | Some m \<Rightarrow> 0 \<le> m)
      \<and> 0 \<le> run_output_bytes r
      \<and> (if run_trigger_kind r = Manual
         then run_schedule r = None \<and> run_scheduled_for r = None
         else run_schedule r \<noteq> None \<and> run_scheduled_for r \<noteq> None))"

definition run_conflicts :: "run_row \<Rightarrow> run_row \<Rightarrow> bool" where
  "run_conflicts r s =
     (run_id s = run_id r
      \<or> (run_host s = run_host r \<and> run_key s = run_key r)
      \<or> (run_schedule r \<noteq> None \<and> run_scheduled_for r \<noteq> None
         \<and> run_schedule s = run_schedule r \<and> run_scheduled_for s = run_scheduled_for r)
      \<or> (active_run r \<and> active_run s \<and> run_host s = run_host r))"

definition insert_run :: "run_row \<Rightarrow> db \<Rightarrow> db stmt" where
  "insert_run r d =
     (if active_run r \<and> (\<exists>x \<in> set (discoveries d). disc_host x = run_host r \<and> active_discovery x)
      then Inl (TriggerAbort ''host observation already active'')
      else if (case run_version r of None \<Rightarrow> False
               | Some vid \<Rightarrow> \<not> (\<exists>v \<in> set (versions d). ver_id v = vid
                    \<and> Some (ver_schedule v) = run_schedule r
                    \<and> Some (ver_revision v) = run_schedule_revision r \<and> ver_host v = run_host r))
      then Inl (TriggerAbort ''monitor run schedule version must match host, schedule and revision'')
      else if (case run_policy_version r of None \<Rightarrow> False
               | Some pid \<Rightarrow> \<not> (\<exists>p \<in> set (policies d). pol_version_id p = pid \<and> pol_host p = run_host r))
      then Inl (TriggerAbort ''monitor run policy version must match host'')
      else if \<not> run_checks r then Inl CheckViolation
      else if \<exists>s \<in> set (runs d). run_conflicts r s then Inl UniqueViolation
      else if run_host r \<notin> set (hosts d)
           \<or> (case run_schedule r of None \<Rightarrow> False | Some sid \<Rightarrow> sid \<notin> set (map sch_id (schedules d)))
      then Inl ForeignKeyViolation
      else Inr (d\<lparr>runs := runs d @ [r]\<rparr>))"

text \<open>
  An \<open>UPDATE\<close> of the state and result columns of the runs that satisfy \<open>P\<close>, with the number of rows it
  changed: the trigger on active discovery runs, the checks and the index of one active run per host.
\<close>

definition update_runs :: "(run_row \<Rightarrow> bool) \<Rightarrow> (run_row \<Rightarrow> run_row) \<Rightarrow> db \<Rightarrow> (nat \<times> db) stmt" where
  "update_runs P f d =
     (let changed = filter P (runs d)
      in if \<exists>r \<in> set changed. active_run (f r)
             \<and> (\<exists>x \<in> set (discoveries d). disc_host x = run_host r \<and> active_discovery x)
         then Inl (TriggerAbort ''host observation already active'')
         else if \<exists>r \<in> set changed. \<not> run_checks (f r) then Inl CheckViolation
         else if \<exists>r \<in> set changed. active_run (f r)
             \<and> (\<exists>s \<in> set (runs d). s \<noteq> r \<and> active_run s \<and> run_host s = run_host r)
         then Inl UniqueViolation
         else Inr (length changed, d\<lparr>runs := update_rows P f (runs d)\<rparr>))"

subsection \<open>Constraints of \<open>monitoring_current\<close>\<close>

text \<open>The \<open>INSERT\<close> with \<open>ON CONFLICT(host_id) DO UPDATE\<close>.\<close>

definition upsert_current :: "current_row \<Rightarrow> db \<Rightarrow> db stmt" where
  "upsert_current c d =
     (if \<not> (\<exists>r \<in> set (runs d). run_id r = cur_run c \<and> run_host r = cur_host c)
      then Inl (TriggerAbort ''monitoring_current run must belong to host'')
      else if \<exists>x \<in> set (currents d). cur_run x = cur_run c \<and> cur_host x \<noteq> cur_host c
      then Inl UniqueViolation
      else if cur_host c \<in> set (map cur_host (currents d))
      then Inr (d\<lparr>currents := update_rows (\<lambda>x. cur_host x = cur_host c) (\<lambda>_. c) (currents d)\<rparr>)
      else if cur_host c \<notin> set (hosts d) then Inl ForeignKeyViolation
      else Inr (d\<lparr>currents := currents d @ [c]\<rparr>))"

subsection \<open>Constraints of \<open>metric_samples\<close>\<close>

text \<open>SQLite counts the characters of a text: the bytes that do not continue one.\<close>

definition char_length :: "string \<Rightarrow> nat" where
  "char_length s = length (filter (\<lambda>c. (of_char c :: nat) < 128 \<or> 192 \<le> (of_char c :: nat)) s)"

definition text_between :: "nat \<Rightarrow> nat \<Rightarrow> string \<Rightarrow> bool" where
  "text_between a b s = (a \<le> char_length s \<and> char_length s \<le> b)"

definition sample_families :: "string list" where
  "sample_families =
     [''cpu'', ''memory'', ''load'', ''disk_capacity'', ''disk_io'', ''network'', ''uptime'', ''process'']"

definition sample_subjects :: "string list" where
  "sample_subjects = [''host'', ''cpu'', ''filesystem'', ''block_device'', ''interface'', ''process'']"

definition sample_qualities :: "string list" where
  "sample_qualities =
     [''observed'', ''unsupported'', ''parse_failed'', ''counter_reset'', ''counter_unreliable'',
      ''insufficient_interval'', ''permission_denied'', ''timed_out'']"

definition sample_checks :: "sample_row \<Rightarrow> bool" where
  "sample_checks s =
     (smp_family s \<in> set sample_families
      \<and> smp_subject_kind s \<in> set sample_subjects
      \<and> text_between 1 512 (smp_subject_id s)
      \<and> text_between 1 128 (smp_metric s)
      \<and> char_length (smp_dims_sha s) = 64
      \<and> smp_kind s \<in> {''gauge'', ''counter'', ''derived''}
      \<and> text_between 1 64 (smp_unit s)
      \<and> pred_option (f_lt (Fin 0)) (smp_window s)
      \<and> smp_quality s \<in> set sample_qualities
      \<and> 0 \<le> smp_observed_ms s
      \<and> smp_source s = ''ssh_host_resource_v1''
      \<and> (if smp_quality s = ''observed'' then (smp_value s \<noteq> None) \<noteq> (smp_value_integer s \<noteq> None)
         else smp_value s = None \<and> smp_value_integer s = None))"

definition sample_key ::
  "sample_row \<Rightarrow> string \<times> string \<times> string \<times> string \<times> string \<times> string \<times> string \<times> string"
where
  "sample_key s = (smp_run s, smp_family s, smp_subject_kind s, smp_subject_id s, smp_metric s,
     smp_dims_sha s, smp_kind s, smp_source s)"

definition insert_sample :: "sample_row \<Rightarrow> db \<Rightarrow> db stmt" where
  "insert_sample s d =
     (if \<not> sample_checks s then Inl CheckViolation
      else if \<exists>x \<in> set (samples d). smp_id x = smp_id s \<or> sample_key x = sample_key s
      then Inl UniqueViolation
      else if \<not> (\<exists>r \<in> set (runs d). run_id r = smp_run s \<and> run_host r = smp_host s)
      then Inl ForeignKeyViolation
      else Inr (d\<lparr>samples := samples d @ [s]\<rparr>))"

subsection \<open>Constraints of \<open>health_evaluations\<close> and its conditions\<close>

definition evaluation_checks :: "evaluation_row \<Rightarrow> bool" where
  "evaluation_checks e =
     (0 \<le> evl_required e \<and> 0 \<le> evl_optional e
      \<and> 0 \<le> evl_ok e \<and> 0 \<le> evl_warning e \<and> 0 \<le> evl_critical e \<and> 0 \<le> evl_unknown e
      \<and> evl_ok e + evl_warning e + evl_critical e + evl_unknown e = evl_required e + evl_optional e
      \<and> ((evl_policy_version e = None \<and> evl_policy e = None \<and> evl_policy_revision e = None)
         \<or> (evl_policy_version e \<noteq> None \<and> evl_policy e \<noteq> None \<and> evl_policy_revision e \<noteq> None))
      \<and> (case evl_policy_revision e of None \<Rightarrow> True | Some r \<Rightarrow> 1 \<le> r)
      \<and> evl_reason e \<noteq> []
      \<and> 0 \<le> evl_evaluated_at e
      \<and> (case evl_observed_at e of None \<Rightarrow> True | Some o' \<Rightarrow> 0 \<le> o')
      \<and> (case evl_valid_until e of None \<Rightarrow> True
         | Some v \<Rightarrow> (case evl_observed_at e of None \<Rightarrow> False | Some o' \<Rightarrow> o' \<le> v))
      \<and> (if evl_observation e = ObsNone
         then evl_observed_at e = None \<and> evl_valid_until e = None
         else evl_observed_at e \<noteq> None \<and> evl_valid_until e \<noteq> None))"

definition insert_evaluation :: "evaluation_row \<Rightarrow> db \<Rightarrow> db stmt" where
  "insert_evaluation e d =
     (if \<not> evaluation_checks e then Inl CheckViolation
      else if \<exists>x \<in> set (evaluations d). evl_id x = evl_id e \<or> evl_run x = evl_run e
      then Inl UniqueViolation
      else if \<not> (\<exists>r \<in> set (runs d). run_id r = evl_run e \<and> run_host r = evl_host e)
      then Inl ForeignKeyViolation
      else Inr (d\<lparr>evaluations := evaluations d @ [e]\<rparr>))"

definition condition_checks :: "condition_row \<Rightarrow> bool" where
  "condition_checks c =
     (cnd_key c \<noteq> [] \<and> length (cnd_key c) \<le> 128
      \<and> cnd_status c \<in> {''ok'', ''warning'', ''critical'', ''unknown''}
      \<and> cnd_candidate c \<in> {''ok'', ''warning'', ''critical'', ''unknown''}
      \<and> cnd_subject_kind c \<in> {''host'', ''filesystem''}
      \<and> 0 \<le> cnd_streak c \<and> 1 \<le> cnd_streak_required c
      \<and> (case cnd_window c of None \<Rightarrow> True | Some w \<Rightarrow> f_gt w (Fin 0))
      \<and> (if cnd_candidate c = ''unknown'' then cnd_value c = None else cnd_value c \<noteq> None))"

definition insert_condition :: "condition_row \<Rightarrow> db \<Rightarrow> db stmt" where
  "insert_condition c d =
     (if \<not> condition_checks c then Inl CheckViolation
      else if \<exists>x \<in> set (conditions d). cnd_id x = cnd_id c
              \<or> (cnd_evaluation x = cnd_evaluation c \<and> cnd_key x = cnd_key c)
      then Inl UniqueViolation
      else if cnd_evaluation c \<notin> set (map evl_id (evaluations d)) then Inl ForeignKeyViolation
      else Inr (d\<lparr>conditions := conditions d @ [c]\<rparr>))"

subsection \<open>Insertions as exact updates\<close>

text \<open>A successful insertion appends the row and nothing else, and the row met its checks.\<close>

lemma insert_schedule_Inr:
  "insert_schedule r d = Inr d' \<Longrightarrow>
     d' = d\<lparr>schedules := schedules d @ [r]\<rparr> \<and> schedule_checks r
     \<and> sch_id r \<notin> set (map sch_id (schedules d)) \<and> sch_host r \<in> set (hosts d)"
  by (auto simp: insert_schedule_def split: if_splits)

lemma insert_version_Inr:
  "insert_version v d = Inr d' \<Longrightarrow>
     d' = d\<lparr>versions := versions d @ [v]\<rparr> \<and> version_checks v
     \<and> ver_id v \<notin> set (map ver_id (versions d))
     \<and> (\<forall>w \<in> set (versions d). ver_schedule w = ver_schedule v \<longrightarrow> ver_revision w \<noteq> ver_revision v)"
  by (auto simp: insert_version_def split: if_splits)

lemma insert_run_Inr:
  "insert_run r d = Inr d' \<Longrightarrow>
     d' = d\<lparr>runs := runs d @ [r]\<rparr> \<and> run_checks r
     \<and> (\<forall>s \<in> set (runs d). \<not> run_conflicts r s) \<and> run_host r \<in> set (hosts d)"
  by (auto simp: insert_run_def split: if_splits)

lemma insert_evaluation_Inr:
  "insert_evaluation e d = Inr d' \<Longrightarrow>
     d' = d\<lparr>evaluations := evaluations d @ [e]\<rparr> \<and> evaluation_checks e
     \<and> (\<forall>x \<in> set (evaluations d). evl_id x \<noteq> evl_id e \<and> evl_run x \<noteq> evl_run e)"
  by (auto simp: insert_evaluation_def split: if_splits)

lemma insert_condition_Inr:
  "insert_condition c d = Inr d' \<Longrightarrow>
     d' = d\<lparr>conditions := conditions d @ [c]\<rparr> \<and> condition_checks c"
  by (auto simp: insert_condition_def split: if_splits)

lemma update_runs_Inr:
  "update_runs P f d = Inr (n, d') \<Longrightarrow>
     d' = d\<lparr>runs := update_rows P f (runs d)\<rparr> \<and> n = rows_affected P (runs d)"
  by (auto simp: update_runs_def Let_def rows_affected_def split: if_splits)

lemma update_runs_terminal:
  assumes "\<And>r. r \<in> set (runs d) \<Longrightarrow> P r \<Longrightarrow> run_checks (f r) \<and> \<not> active_run (f r)"
  shows "update_runs P f d = Inr (rows_affected P (runs d), d\<lparr>runs := update_rows P f (runs d)\<rparr>)"
  using assms by (auto simp: update_runs_def Let_def rows_affected_def)

lemmas insert_InrD =
  insert_schedule_Inr insert_version_Inr insert_run_Inr insert_evaluation_Inr insert_condition_Inr

end
