(* ===== verification/Http.thy ===== *)
theory Http
  imports Contracts
begin

text \<open>
  The header handling the API modules share. A header map gives the value of a lower-case header
  name; \<open>Opaque\<close> is a value that is not visible ASCII, on which \<open>to_str\<close> fails.
\<close>

datatype header_value = Text string | Opaque

type_synonym headers = "string \<Rightarrow> header_value option"

definition header_str :: "headers \<Rightarrow> string \<Rightarrow> string option" where
  "header_str h name = (case h name of Some (Text v) \<Rightarrow> Some v | _ \<Rightarrow> None)"

definition max_header_key :: nat where
  "max_header_key = 128"

definition acceptable_key :: "string \<Rightarrow> bool" where
  "acceptable_key v = (v \<noteq> [] \<and> length v \<le> max_header_key \<and> (\<forall>c \<in> set v. \<not> is_ascii_control c))"

text \<open>The \<open>Idempotency-Key\<close> header, \<open>None\<close> where the handler answers 400.\<close>

definition idempotency_key :: "headers \<Rightarrow> string option" where
  "idempotency_key h =
     (case header_str h ''idempotency-key'' of
        None \<Rightarrow> None
      | Some v \<Rightarrow> if acceptable_key v then Some v else None)"

text \<open>The \<open>X-Request-Id\<close> header, or the fresh identifier \<open>u\<close> when it is absent or unacceptable.\<close>

definition request_id :: "headers \<Rightarrow> string \<Rightarrow> string" where
  "request_id h u =
     (case header_str h ''x-request-id'' of
        None \<Rightarrow> u
      | Some v \<Rightarrow> if acceptable_key v then v else u)"

datatype if_match = IfMatchMissing | IfMatchInvalid | IfMatchRevision int

text \<open>
  \<open>If-Match: "revision-N"\<close>. The two modules differ only in the least revision they accept: 1 for a
  schedule, 0 for a health policy, whose revision 0 stands for no policy.
\<close>

definition if_match_revision :: "int \<Rightarrow> headers \<Rightarrow> if_match" where
  "if_match_revision least h =
     (case header_str h ''if-match'' of
        None \<Rightarrow> IfMatchMissing
      | Some v \<Rightarrow>
          (case strip_prefix ''revision-'' (trim_matches (CHR 0x22) v) of
             None \<Rightarrow> IfMatchInvalid
           | Some n \<Rightarrow>
               (case parse_i64 n of
                  None \<Rightarrow> IfMatchInvalid
                | Some r \<Rightarrow> if least \<le> r then IfMatchRevision r else IfMatchInvalid)))"

definition if_match_schedule :: "headers \<Rightarrow> if_match" where
  "if_match_schedule = if_match_revision 1"

definition if_match_policy :: "headers \<Rightarrow> if_match" where
  "if_match_policy = if_match_revision 0"

text \<open>The entity tag of a response: \<open>"revision-N"\<close> between double quotes.\<close>

definition etag :: "int \<Rightarrow> string" where
  "etag r = [CHR 0x22] @ ''revision-'' @ show_int r @ [CHR 0x22]"

lemma dropWhile_quote:
  assumes "xs \<noteq> []" and "last xs \<noteq> c" and "hd xs \<noteq> c"
  shows "trim_matches c ([c] @ xs @ [c]) = xs"
proof -
  obtain y ys where xs: "xs = y # ys" using assms(1) by (cases xs) auto
  obtain zs z where xs': "xs = zs @ [z]" using assms(1) by (metis append_butlast_last_id)
  have "dropWhile (\<lambda>x. x = c) ([c] @ xs @ [c]) = xs @ [c]" using xs assms(3) by simp
  moreover have "dropWhile (\<lambda>x. x = c) (rev (xs @ [c])) = rev xs" using xs' assms(2) by simp
  ultimately show ?thesis by (simp add: trim_matches_def)
qed

lemma show_int_last:
  assumes "(of_char c :: nat) < 48 \<or> 57 < (of_char c :: nat)"
  shows "last (show_int i) \<noteq> c"
proof -
  have last_nat: "last (show_nat n) \<noteq> c" for n
  proof -
    have "last (show_nat n) \<in> set (show_nat n)" using show_nat_nonempty by simp
    then obtain d where "d < 10" "last (show_nat n) = digit_char d" using show_nat_chars by blast
    then show ?thesis using digit_char_neq [OF _ assms] by simp
  qed
  show ?thesis
    by (simp add: show_int_def last_nat show_nat_nonempty)
qed

lemma show_int_nonempty: "show_int i \<noteq> []"
  by (simp add: show_int_def show_nat_nonempty)

text \<open>A client that sends back the entity tag it was given is understood.\<close>

lemma if_match_etag:
  assumes "h ''if-match'' = Some (Text (etag r))" and "least \<le> r" and "i64_min \<le> r" and "r \<le> i64_max"
  shows "if_match_revision least h = IfMatchRevision r"
proof -
  have "last (''revision-'' @ show_int r) \<noteq> CHR 0x22"
    using show_int_last [of "CHR 0x22" r] by (simp add: show_int_nonempty)
  then have "trim_matches (CHR 0x22) (etag r) = ''revision-'' @ show_int r"
    unfolding etag_def using dropWhile_quote [of "''revision-'' @ show_int r" "CHR 0x22"] by simp
  moreover have "strip_prefix ''revision-'' (''revision-'' @ show_int r) = Some (show_int r)"
    by (rule strip_prefix_append)
  ultimately show ?thesis
    using assms parse_i64_show_int [of r]
    by (simp add: if_match_revision_def header_str_def)
qed

lemma if_match_revision_least:
  "if_match_revision least h = IfMatchRevision r \<Longrightarrow> least \<le> r"
  by (auto simp: if_match_revision_def split: option.splits if_splits)

lemma idempotency_key_acceptable:
  "idempotency_key h = Some k \<Longrightarrow> acceptable_key k"
  by (auto simp: idempotency_key_def split: option.splits if_splits)

end
