(* ===== verification/Versions.thy ===== *)
theory Versions
  imports Prelude
begin

text \<open>
  Append-only version histories. Health policies and monitor schedules both keep one row per
  revision: writing a revision closes the open row at the instant the new one takes effect. A
  \<open>chain\<close> is such a history, oldest first: revisions are consecutive, each row ends where the next
  begins, and only the newest row is open. The locale states what a table's close operation must
  keep, and proves once that a close followed by an append extends the chain, and that at every
  instant after the first exactly one row is in effect.
\<close>

fun chain :: "('r \<Rightarrow> int) \<Rightarrow> ('r \<Rightarrow> int) \<Rightarrow> ('r \<Rightarrow> int option) \<Rightarrow> 'r list \<Rightarrow> bool" where
  "chain rv fr un [] = True"
| "chain rv fr un [r] = (un r = None)"
| "chain rv fr un (r # s # rs) =
     (rv s = rv r + 1 \<and> un r = Some (fr s) \<and> fr r \<le> fr s \<and> chain rv fr un (s # rs))"

definition in_effect :: "('r \<Rightarrow> int) \<Rightarrow> ('r \<Rightarrow> int option) \<Rightarrow> int \<Rightarrow> 'r \<Rightarrow> bool" where
  "in_effect fr un t r = (fr r \<le> t \<and> (case un r of None \<Rightarrow> True | Some u \<Rightarrow> t < u))"

lemma chain_tl: "chain rv fr un (r # rs) \<Longrightarrow> chain rv fr un rs"
  by (cases rs) auto

lemma chain_from_le:
  "chain rv fr un (r # rs) \<Longrightarrow> s \<in> set rs \<Longrightarrow> fr r \<le> fr s"
proof (induction rs arbitrary: r)
  case Nil
  then show ?case by simp
next
  case (Cons x xs)
  then show ?case by (metis (no_types, lifting) chain.simps(3) order_trans set_ConsD)
qed

lemma chain_revisions:
  "chain rv fr un (r # rs) \<Longrightarrow> map rv (r # rs) = [rv r .. rv r + int (length rs)]"
proof (induction rs arbitrary: r)
  case Nil
  then show ?case by simp
next
  case (Cons s rs)
  from Cons.prems have rv: "rv s = rv r + 1" and c: "chain rv fr un (s # rs)" by simp_all
  have "map rv (s # rs) = [rv r + 1 .. rv r + int (length (s # rs))]"
    using Cons.IH [OF c] rv by (simp add: algebra_simps)
  then show ?case by (simp only: list.map(2) [of rv r]) (simp add: upto_rec1 [of "rv r"])
qed

lemma chain_open:
  assumes "chain rv fr un rs" and "rs \<noteq> []"
  shows "filter (\<lambda>r. un r = None) rs = [last rs]"
  using assms
proof (induction rs rule: list.induct)
  case Nil
  then show ?case by simp
next
  case (Cons r rs)
  then show ?case by (cases rs) auto
qed

lemma chain_last_revision:
  assumes "chain rv fr un rs" and "rs \<noteq> []"
  shows "rv (last rs) = rv (hd rs) + int (length rs) - 1"
  using assms
proof (induction rs rule: list.induct)
  case Nil
  then show ?case by simp
next
  case (Cons r rs)
  then show ?case by (cases rs) auto
qed

text \<open>Exactly one version is in effect at any instant from the first on.\<close>

lemma chain_in_effect_unique:
  assumes "chain rv fr un (r # rs)" and "fr r \<le> t"
  shows "length (filter (in_effect fr un t) (r # rs)) = 1"
  using assms
proof (induction rs arbitrary: r)
  case Nil
  then show ?case by (simp add: in_effect_def)
next
  case (Cons s rs)
  show ?case
  proof (cases "fr s \<le> t")
    case True
    then have "\<not> in_effect fr un t r" using Cons.prems by (simp add: in_effect_def)
    with True Cons show ?thesis by simp
  next
    case False
    then have "in_effect fr un t r" using Cons.prems by (simp add: in_effect_def)
    moreover have "\<forall>x \<in> set (s # rs). fr s \<le> fr x"
      using Cons.prems chain_from_le [of rv fr un s rs] by auto
    then have "filter (in_effect fr un t) (s # rs) = []"
      using False by (auto simp: filter_empty_conv in_effect_def)
    ultimately show ?thesis by simp
  qed
qed

locale version_table =
  fixes rv :: "'r \<Rightarrow> int" and fr :: "'r \<Rightarrow> int" and un :: "'r \<Rightarrow> int option"
    and close :: "'c \<Rightarrow> 'r \<Rightarrow> 'r" and closed_at :: "'c \<Rightarrow> int"
  assumes rv_close: "rv (close c r) = rv r"
    and fr_close: "fr (close c r) = fr r"
    and un_close: "un (close c r) = Some (closed_at c)"
begin

lemma close_append:
  assumes "chain rv fr un (rs @ [r])" and "rv n = rv r + 1" and "fr n = closed_at c"
    and "fr r \<le> closed_at c" and "un n = None"
  shows "chain rv fr un (rs @ [close c r, n])"
  using assms(1)
proof (induction rs)
  case Nil
  then show ?case using assms by (simp add: rv_close fr_close un_close)
next
  case (Cons x xs)
  then show ?case by (cases xs) (auto simp: rv_close fr_close un_close)
qed

lemma close_append_last:
  assumes "chain rv fr un rs" and "rs \<noteq> []" and "rv n = rv (last rs) + 1" and "fr n = closed_at c"
    and "fr (last rs) \<le> closed_at c" and "un n = None"
  shows "chain rv fr un (butlast rs @ [close c (last rs), n])"
  using assms by (intro close_append) simp_all

end

text \<open>Closing the only open row of a chain touches its last row.\<close>

lemma update_rows_last:
  assumes "chain rv fr un rs" and "rs \<noteq> []"
    and "\<And>r. r \<in> set rs \<Longrightarrow> P r \<longleftrightarrow> un r = None"
  shows "update_rows P f rs = butlast rs @ [f (last rs)]"
  using assms
proof (induction rs rule: list.induct)
  case Nil
  then show ?case by simp
next
  case hyp: (Cons r rs)
  show ?case
  proof (cases rs)
    case Nil
    then show ?thesis using hyp.prems by (simp add: update_rows_def)
  next
    case (Cons s ss)
    then have "un r \<noteq> None" using hyp.prems(1) by simp
    then have "\<not> P r" using hyp.prems(3) [of r] by simp
    moreover have "update_rows P f rs = butlast rs @ [f (last rs)]"
      using hyp.prems hyp.IH chain_tl [OF hyp.prems(1)] Cons by auto
    ultimately show ?thesis using Cons by (simp add: update_rows_def)
  qed
qed

end
