(* ===== verification/HealthPolicy.thy ===== *)
theory HealthPolicy
  imports Store Http Versions "HOL-Library.Multiset" "HOL-Library.List_Lexorder" "HOL-Library.Char_ord"
begin

text \<open>
  Health policies, from \<open>backend/src/monitoring_health.rs\<close>: the validation and normalisation of a
  policy request, the version store behind \<open>put_health_policy\<close> and the view \<open>get_health_policy\<close>
  returns. A policy is written under the revision the client names in \<open>If-Match\<close>; the open version is
  closed and a new one appended, and a request with the digest of the open version writes nothing.
\<close>

datatype health_error =
    HBadRequest string
  | HNotFound string string
  | HPreconditionFailed int
  | HPreconditionRequired
  | HConflict string
  | HStorage db_error
  | HInternal

text \<open>\<open>into_response\<close>: the status and the code of the body.\<close>

fun health_error_response :: "health_error \<Rightarrow> nat \<times> string" where
  "health_error_response (HBadRequest code) = (400, code)"
| "health_error_response (HNotFound resource i) = (404, ''NOT_FOUND'')"
| "health_error_response (HPreconditionFailed expected) = (412, ''REVISION_MISMATCH'')"
| "health_error_response HPreconditionRequired = (428, ''IF_MATCH_REQUIRED'')"
| "health_error_response (HConflict code) = (409, code)"
| "health_error_response (HStorage e) = (503, ''STORAGE_UNAVAILABLE'')"
| "health_error_response HInternal = (500, ''INTERNAL_ERROR'')"

definition max_filesystem_rules :: nat where
  "max_filesystem_rules = 64"

definition max_streak :: nat where
  "max_streak = 10"

definition max_exact_f64_integer :: nat where
  "max_exact_f64_integer = 2 ^ 53"

subsection \<open>Validation\<close>

definition finite_between :: "f64 \<Rightarrow> f64 \<Rightarrow> f64 \<Rightarrow> bool" where
  "finite_between v mn mx = (f_is_finite v \<and> f_le mn v \<and> f_le v mx)"

definition validate_high_rule ::
  "f64 \<Rightarrow> f64 \<Rightarrow> f64 \<Rightarrow> nat \<Rightarrow> nat \<Rightarrow> f64 \<Rightarrow> f64 \<Rightarrow> string \<Rightarrow> health_error + unit" where
  "validate_high_rule warning critical recovery enter recover mn mx code =
     (if \<not> finite_between warning mn mx
         \<or> \<not> finite_between critical mn mx
         \<or> \<not> finite_between recovery mn mx
         \<or> f_le warning recovery
         \<or> f_le critical warning
         \<or> \<not> (1 \<le> enter \<and> enter \<le> max_streak)
         \<or> \<not> (1 \<le> recover \<and> recover \<le> max_streak)
      then Inl (HBadRequest code) else Inr ())"

definition validate_low_rule ::
  "f64 \<Rightarrow> f64 \<Rightarrow> f64 \<Rightarrow> nat \<Rightarrow> nat \<Rightarrow> string \<Rightarrow> health_error + unit" where
  "validate_low_rule warning critical recovery enter recover code =
     (if \<not> finite_between warning (Fin 0) (Fin 1)
         \<or> \<not> finite_between critical (Fin 0) (Fin 1)
         \<or> \<not> finite_between recovery warning (Fin 1)
         \<or> f_le warning critical
         \<or> \<not> (1 \<le> enter \<and> enter \<le> max_streak)
         \<or> \<not> (1 \<le> recover \<and> recover \<le> max_streak)
      then Inl (HBadRequest code) else Inr ())"

text \<open>The literal \<open>0.1\<close> as the double it denotes.\<close>

definition f_tenth :: f64 where
  "f_tenth = Fin (3602879701896397 / 36028797018963968)"

definition mount_ok :: "string \<Rightarrow> bool" where
  "mount_ok m = (m \<noteq> [] \<and> length m \<le> 256 \<and> hd m = CHR ''/'' \<and> (\<forall>c \<in> set m. \<not> is_ascii_control c))"

text \<open>The loop over the sorted rules; \<open>seen\<close> is the set \<open>mounts\<close>.\<close>

fun validate_filesystems :: "string list \<Rightarrow> fs_rule list \<Rightarrow> health_error + unit" where
  "validate_filesystems seen [] = Inr ()"
| "validate_filesystems seen (r # rs) =
     (if \<not> mount_ok (fs_mount r) then Inl (HBadRequest ''INVALID_FILESYSTEM_MOUNT'')
      else if fs_mount r \<in> set seen then Inl (HBadRequest ''DUPLICATE_FILESYSTEM_RULE'')
      else if (case fs_critical_available r of None \<Rightarrow> False
               | Some v \<Rightarrow> v = 0 \<or> max_exact_f64_integer < v)
      then Inl (HBadRequest ''INVALID_FILESYSTEM_AVAILABLE_THRESHOLD'')
      else and_then
        (validate_high_rule (fs_warning r) (fs_critical r) (fs_recovery r) (fs_enter_count r)
           (fs_recover_count r) (Fin 0) (Fin 1) ''INVALID_FILESYSTEM_THRESHOLD'')
        (\<lambda>_. validate_filesystems (fs_mount r # seen) rs))"

definition validate_cpu :: "cpu_rule \<Rightarrow> health_error + unit" where
  "validate_cpu r =
     (if cpu_series r \<noteq> CollectorWindow \<or> \<not> finite_between (cpu_minimum_window r) f_tenth (Fin 60)
      then Inl (HBadRequest ''INVALID_CPU_SERIES'')
      else validate_high_rule (cpu_warning r) (cpu_critical r) (cpu_recovery r) (cpu_enter_count r)
             (cpu_recover_count r) (Fin 0) (Fin 100) ''INVALID_CPU_THRESHOLD'')"

definition validate_load :: "high_rule \<Rightarrow> health_error + unit" where
  "validate_load r =
     validate_high_rule (high_warning r) (high_critical r) (high_recovery r) (high_enter_count r)
       (high_recover_count r) (Fin 0) (Fin 100) ''INVALID_LOAD_THRESHOLD''"

definition validate_memory :: "low_rule \<Rightarrow> health_error + unit" where
  "validate_memory r =
     validate_low_rule (low_warning r) (low_critical r) (low_recovery r) (low_enter_count r)
       (low_recover_count r) ''INVALID_MEMORY_THRESHOLD''"

definition optional_rule :: "('r \<Rightarrow> health_error + unit) \<Rightarrow> 'r option \<Rightarrow> health_error + unit" where
  "optional_rule f r = (case r of None \<Rightarrow> Inr () | Some x \<Rightarrow> f x)"

definition has_required :: "policy_request \<Rightarrow> bool" where
  "has_required q =
     ((case pr_cpu_busy q of None \<Rightarrow> False | Some r \<Rightarrow> cpu_requirement r = Required)
      \<or> (case pr_memory q of None \<Rightarrow> False | Some r \<Rightarrow> low_requirement r = Required)
      \<or> (case pr_load5 q of None \<Rightarrow> False | Some r \<Rightarrow> high_requirement r = Required)
      \<or> (\<exists>r \<in> set (pr_filesystems q). fs_requirement r = Required))"

definition normalize_and_validate_policy :: "policy_request \<Rightarrow> health_error + policy_request" where
  "normalize_and_validate_policy q0 =
     (if max_filesystem_rules < length (pr_filesystems q0)
      then Inl (HBadRequest ''TOO_MANY_FILESYSTEM_RULES'')
      else
        (let q = q0\<lparr>pr_filesystems := sort_key fs_mount (pr_filesystems q0)\<rparr> in
         and_then (validate_filesystems [] (pr_filesystems q)) (\<lambda>_.
         and_then (optional_rule validate_cpu (pr_cpu_busy q)) (\<lambda>_.
         and_then (optional_rule validate_load (pr_load5 q)) (\<lambda>_.
         and_then (optional_rule validate_memory (pr_memory q)) (\<lambda>_.
           if pr_enabled q \<and> pr_cpu_busy q = None \<and> pr_memory q = None \<and> pr_load5 q = None
              \<and> pr_filesystems q = []
           then Inl (HBadRequest ''EMPTY_HEALTH_POLICY'')
           else if pr_enabled q \<and> \<not> has_required q
           then Inl (HBadRequest ''REQUIRED_HEALTH_CONDITION_MISSING'')
           else Inr q))))))"

subsection \<open>What a valid policy is\<close>

text \<open>
  The contract of validation, stated without its order of checks: every rule is ordered with room
  for hysteresis, its values are finite and in range and its streaks between 1 and 10; the mounts are
  absolute, free of control characters and strictly increasing; an enabled policy has a required rule.
\<close>

definition high_ok :: "f64 \<Rightarrow> f64 \<Rightarrow> f64 \<Rightarrow> nat \<Rightarrow> nat \<Rightarrow> rat \<Rightarrow> bool" where
  "high_ok w c r enter recover mx =
     (\<exists>w' c' r'. w = Fin w' \<and> c = Fin c' \<and> r = Fin r' \<and> 0 \<le> r' \<and> r' < w' \<and> w' < c' \<and> c' \<le> mx
        \<and> enter \<in> {1..10} \<and> recover \<in> {1..10})"

definition low_ok :: "f64 \<Rightarrow> f64 \<Rightarrow> f64 \<Rightarrow> nat \<Rightarrow> nat \<Rightarrow> bool" where
  "low_ok w c r enter recover =
     (\<exists>w' c' r'. w = Fin w' \<and> c = Fin c' \<and> r = Fin r' \<and> 0 \<le> c' \<and> c' < w' \<and> w' \<le> r' \<and> r' \<le> 1
        \<and> enter \<in> {1..10} \<and> recover \<in> {1..10})"

definition fs_ok :: "fs_rule \<Rightarrow> bool" where
  "fs_ok r =
     (mount_ok (fs_mount r)
      \<and> (case fs_critical_available r of None \<Rightarrow> True | Some v \<Rightarrow> 0 < v \<and> v \<le> 2 ^ 53)
      \<and> high_ok (fs_warning r) (fs_critical r) (fs_recovery r) (fs_enter_count r) (fs_recover_count r) 1)"

definition cpu_ok :: "cpu_rule \<Rightarrow> bool" where
  "cpu_ok r =
     (finite_between (cpu_minimum_window r) f_tenth (Fin 60)
      \<and> high_ok (cpu_warning r) (cpu_critical r) (cpu_recovery r) (cpu_enter_count r)
          (cpu_recover_count r) 100)"

definition load_ok :: "high_rule \<Rightarrow> bool" where
  "load_ok r =
     high_ok (high_warning r) (high_critical r) (high_recovery r) (high_enter_count r)
       (high_recover_count r) 100"

definition memory_ok :: "low_rule \<Rightarrow> bool" where
  "memory_ok r =
     low_ok (low_warning r) (low_critical r) (low_recovery r) (low_enter_count r) (low_recover_count r)"

definition policy_valid :: "policy_request \<Rightarrow> bool" where
  "policy_valid q =
     (length (pr_filesystems q) \<le> 64
      \<and> sorted_wrt (<) (map fs_mount (pr_filesystems q))
      \<and> list_all fs_ok (pr_filesystems q)
      \<and> pred_option cpu_ok (pr_cpu_busy q)
      \<and> pred_option load_ok (pr_load5 q)
      \<and> pred_option memory_ok (pr_memory q)
      \<and> (pr_enabled q \<longrightarrow> has_required q))"

lemma validate_high_rule_Inr:
  "validate_high_rule w c r enter recover (Fin 0) (Fin mx) code = Inr () \<longleftrightarrow>
     high_ok w c r enter recover mx"
  by (cases w; cases c; cases r)
    (auto simp: validate_high_rule_def high_ok_def finite_between_def max_streak_def not_le)

lemma validate_low_rule_Inr:
  "validate_low_rule w c r enter recover code = Inr () \<longleftrightarrow> low_ok w c r enter recover"
  by (cases w; cases c; cases r)
    (auto simp: validate_low_rule_def low_ok_def finite_between_def max_streak_def not_le)

lemma validate_cpu_Inr: "validate_cpu r = Inr () \<longleftrightarrow> cpu_ok r"
  by (cases "cpu_series r") (simp add: validate_cpu_def cpu_ok_def validate_high_rule_Inr)

lemma validate_load_Inr: "validate_load r = Inr () \<longleftrightarrow> load_ok r"
  by (simp add: validate_load_def load_ok_def validate_high_rule_Inr)

lemma validate_memory_Inr: "validate_memory r = Inr () \<longleftrightarrow> memory_ok r"
  by (simp add: validate_memory_def memory_ok_def validate_low_rule_Inr)

lemma optional_rule_Inr:
  assumes "\<And>x. f x = Inr () \<longleftrightarrow> p x"
  shows "optional_rule f r = Inr () \<longleftrightarrow> pred_option p r"
  using assms by (cases r) (simp_all add: optional_rule_def)

lemma validate_filesystems_Inr:
  "validate_filesystems seen rs = Inr () \<longleftrightarrow>
     list_all fs_ok rs \<and> distinct (map fs_mount rs) \<and> set (map fs_mount rs) \<inter> set seen = {}"
proof (induction rs arbitrary: seen)
  case Nil
  then show ?case by simp
next
  case (Cons r rs)
  have "(case fs_critical_available r of None \<Rightarrow> False | Some v \<Rightarrow> v = 0 \<or> max_exact_f64_integer < v)
      \<longleftrightarrow> \<not> (case fs_critical_available r of None \<Rightarrow> True | Some v \<Rightarrow> 0 < v \<and> v \<le> 2 ^ 53)"
    by (auto simp: max_exact_f64_integer_def split: option.split)
  then show ?case
    using Cons by (auto simp: fs_ok_def validate_high_rule_Inr)
qed

lemma has_required_sort:
  "has_required (q\<lparr>pr_filesystems := sort_key k (pr_filesystems q)\<rparr>) = has_required q"
  by (simp add: has_required_def)

lemma has_required_nonempty:
  "has_required q \<Longrightarrow> \<not> (pr_cpu_busy q = None \<and> pr_memory q = None \<and> pr_load5 q = None
     \<and> pr_filesystems q = [])"
  by (auto simp: has_required_def)

lemma normalize_Inr:
  "normalize_and_validate_policy q0 = Inr q \<longleftrightarrow>
     q = q0\<lparr>pr_filesystems := sort_key fs_mount (pr_filesystems q0)\<rparr> \<and> policy_valid q"
proof -
  let ?q = "q0\<lparr>pr_filesystems := sort_key fs_mount (pr_filesystems q0)\<rparr>"
  have srt: "distinct (map fs_mount (pr_filesystems ?q)) \<longleftrightarrow>
      sorted_wrt (<) (map fs_mount (pr_filesystems ?q))"
    by (simp add: strict_sorted_iff)
  have empty: "(pr_enabled ?q \<longrightarrow> has_required ?q) \<longrightarrow>
      \<not> (pr_enabled ?q \<and> pr_cpu_busy ?q = None \<and> pr_memory ?q = None \<and> pr_load5 ?q = None
         \<and> pr_filesystems ?q = [])"
    using has_required_nonempty [of ?q] by blast
  show ?thesis
    unfolding normalize_and_validate_policy_def Let_def policy_valid_def
    using srt empty
    by (auto simp: validate_filesystems_Inr optional_rule_Inr [OF validate_cpu_Inr]
        optional_rule_Inr [OF validate_load_Inr] optional_rule_Inr [OF validate_memory_Inr]
        max_filesystem_rules_def split: if_splits)
qed

subsection \<open>The version table\<close>

definition policy_checks :: "policy_row \<Rightarrow> bool" where
  "policy_checks p =
     (1 \<le> pol_revision p \<and> 0 \<le> pol_effective_from p
      \<and> (case pol_effective_until p of None \<Rightarrow> True | Some u \<Rightarrow> pol_effective_from p \<le> u)
      \<and> (pol_lifecycle p = Current \<longleftrightarrow> pol_effective_until p = None))"

definition insert_policy :: "policy_row \<Rightarrow> db \<Rightarrow> db stmt" where
  "insert_policy p d =
     (if \<exists>x \<in> set (policies d). pol_host x = pol_host p \<and> pol_id x \<noteq> pol_id p
      then Inl (TriggerAbort ''health policy identity cannot change for a host'')
      else if \<not> policy_checks p then Inl CheckViolation
      else if \<exists>x \<in> set (policies d).
                pol_version_id x = pol_version_id p
                \<or> (pol_id x = pol_id p \<and> pol_revision x = pol_revision p)
                \<or> (pol_host x = pol_host p \<and> pol_revision x = pol_revision p)
                \<or> (pol_host x = pol_host p \<and> pol_lifecycle x = Current \<and> pol_lifecycle p = Current)
      then Inl UniqueViolation
      else if pol_host p \<notin> set (hosts d) then Inl ForeignKeyViolation
      else Inr (d\<lparr>policies := policies d @ [p]\<rparr>))"

text \<open>The \<open>UPDATE\<close> that closes the open version; its new row must meet the checks of the table.\<close>

definition close_policy :: "millis \<Rightarrow> policy_row \<Rightarrow> policy_row" where
  "close_policy now p = p\<lparr>pol_lifecycle := Superseded, pol_effective_until := Some now\<rparr>"

definition supersede_policy :: "string \<Rightarrow> millis \<Rightarrow> db \<Rightarrow> db stmt" where
  "supersede_policy vid now d =
     (let P = (\<lambda>p. pol_version_id p = vid \<and> pol_lifecycle p = Current) in
      if \<exists>p \<in> set (policies d). P p \<and> \<not> policy_checks (close_policy now p) then Inl CheckViolation
      else Inr (d\<lparr>policies := update_rows P (close_policy now) (policies d)\<rparr>))"

definition load_policy :: "string \<Rightarrow> db \<Rightarrow> policy_row option" where
  "load_policy h d = select_one (\<lambda>p. pol_host p = h \<and> pol_lifecycle p = Current) (policies d)"

definition policy_config :: "policy_row \<Rightarrow> policy_request" where
  "policy_config row =
     (case pol_json row of
        Some q \<Rightarrow> q
      | None \<Rightarrow> \<lparr>pr_enabled = pol_enabled row, pr_cpu_busy = None, pr_memory = None, pr_load5 = None,
                 pr_filesystems = []\<rparr>)"

datatype configuration_state = NotConfigured | PolicyEnabled | PolicyDisabled

record policy_record =
  prec_policy_id :: string
  prec_version_id :: string
  prec_host_id :: string
  prec_revision :: int
  prec_enabled :: bool
  prec_cpu_busy :: "cpu_rule option"
  prec_memory :: "low_rule option"
  prec_load5 :: "high_rule option"
  prec_filesystems :: "fs_rule list"
  prec_sha :: string
  prec_effective_from :: millis

record policy_view =
  pview_host :: string
  pview_configured :: bool
  pview_state :: configuration_state
  pview_policy :: "policy_record option"

definition policy_data :: "string \<Rightarrow> policy_row option \<Rightarrow> policy_view" where
  "policy_data h r =
     (case r of
        None \<Rightarrow> \<lparr>pview_host = h, pview_configured = False, pview_state = NotConfigured,
                 pview_policy = None\<rparr>
      | Some row \<Rightarrow>
          (let config = policy_config row in
           \<lparr>pview_host = h, pview_configured = True,
            pview_state = (if pol_enabled row then PolicyEnabled else PolicyDisabled),
            pview_policy = Some
              \<lparr>prec_policy_id = pol_id row, prec_version_id = pol_version_id row,
               prec_host_id = pol_host row, prec_revision = pol_revision row,
               prec_enabled = pol_enabled row, prec_cpu_busy = pr_cpu_busy config,
               prec_memory = pr_memory config, prec_load5 = pr_load5 config,
               prec_filesystems = pr_filesystems config, prec_sha = pol_sha row,
               prec_effective_from = pol_effective_from row\<rparr>\<rparr>))"

definition ensure_host :: "string \<Rightarrow> db \<Rightarrow> health_error + unit" where
  "ensure_host h d = (if h \<in> set (hosts d) then Inr () else Inl (HNotFound ''host'' h))"

definition revision_of :: "policy_row option \<Rightarrow> int" where
  "revision_of r = (case r of None \<Rightarrow> 0 | Some row \<Rightarrow> pol_revision row)"

text \<open>A response is its entity tag and its body.\<close>

type_synonym policy_response = "string \<times> policy_view"

definition get_health_policy :: "string \<Rightarrow> db \<Rightarrow> health_error + policy_response" where
  "get_health_policy h d =
     and_then (ensure_host h d) (\<lambda>_.
       (let p = load_policy h d in Inr (etag (revision_of p), policy_data h p)))"

definition if_match_health :: "headers \<Rightarrow> health_error + int" where
  "if_match_health hdr =
     (case if_match_policy hdr of
        IfMatchMissing \<Rightarrow> Inl HPreconditionRequired
      | IfMatchInvalid \<Rightarrow> Inl (HBadRequest ''INVALID_IF_MATCH'')
      | IfMatchRevision r \<Rightarrow> Inr r)"

text \<open>
  The write transaction of \<open>put_health_policy\<close>: \<open>pid\<close> and \<open>vid\<close> are the fresh identifiers, \<open>now\<close> the
  clock. An error leaves the tables as they were, since the transaction is dropped.
\<close>

definition write_policy ::
  "string \<Rightarrow> policy_request \<Rightarrow> string \<Rightarrow> policy_row option \<Rightarrow> string \<Rightarrow> string \<Rightarrow> millis \<Rightarrow> db \<Rightarrow> db stmt" where
  "write_policy h q sha current pid vid now d =
     and_then (case current of None \<Rightarrow> Inr d | Some row \<Rightarrow> supersede_policy (pol_version_id row) now d)
       (insert_policy
         \<lparr>pol_version_id = vid, pol_id = (case current of None \<Rightarrow> pid | Some row \<Rightarrow> pol_id row),
          pol_host = h, pol_revision = revision_of current + 1, pol_lifecycle = Current,
          pol_enabled = pr_enabled q, pol_json = Some q, pol_sha = sha, pol_effective_from = now,
          pol_effective_until = None\<rparr>)"

definition put_health_policy ::
  "env \<Rightarrow> headers \<Rightarrow> string \<Rightarrow> policy_request option \<Rightarrow> string \<Rightarrow> string \<Rightarrow> millis \<Rightarrow> db
     \<Rightarrow> (health_error + policy_response) \<times> db" where
  "put_health_policy env hdr h payload pid vid now d =
     (let checked =
        and_then (case payload of None \<Rightarrow> Inl (HBadRequest ''INVALID_JSON'') | Some q \<Rightarrow> Inr q) (\<lambda>q0.
        and_then (normalize_and_validate_policy q0) (\<lambda>q.
        and_then (if_match_health hdr) (\<lambda>expected.
        and_then (ensure_host h d) (\<lambda>_. Inr (q, expected)))))
      in case checked of
           Inl e \<Rightarrow> (Inl e, d)
         | Inr (q, expected) \<Rightarrow>
             (let sha = digest_text env (json_of_policy env q);
                  current = load_policy h d;
                  actual = revision_of current
              in if actual \<noteq> expected then (Inl (HPreconditionFailed actual), d)
                 else if (case current of None \<Rightarrow> False | Some row \<Rightarrow> pol_sha row = sha)
                 then (Inr (etag (revision_of (load_policy h d)), policy_data h (load_policy h d)), d)
                 else (case write_policy h q sha current pid vid now d of
                         Inl e \<Rightarrow> (Inl (HStorage e), d)
                       | Inr d' \<Rightarrow> (Inr (etag (actual + 1), policy_data h (load_policy h d')), d'))))"

subsection \<open>The history of a host's policy\<close>

definition host_policies :: "string \<Rightarrow> db \<Rightarrow> policy_row list" where
  "host_policies h d = filter (\<lambda>p. pol_host p = h) (policies d)"

text \<open>
  Every host's rows are a chain of versions from revision 1 under one identity, the open one is
  current, and the version identifiers are a key.
\<close>

definition policies_wf :: "db \<Rightarrow> bool" where
  "policies_wf d =
     (distinct (map pol_version_id (policies d))
      \<and> list_all policy_checks (policies d)
      \<and> (\<forall>h. chain pol_revision pol_effective_from pol_effective_until (host_policies h d)
             \<and> (host_policies h d = [] \<or> pol_revision (hd (host_policies h d)) = 1)
             \<and> (\<forall>p \<in> set (host_policies h d). \<forall>p' \<in> set (host_policies h d). pol_id p = pol_id p')))"

interpretation policy_versions:
  version_table pol_revision pol_effective_from pol_effective_until close_policy "\<lambda>now. now"
  by unfold_locales (simp_all add: close_policy_def)

lemma current_iff_open:
  "policies_wf d \<Longrightarrow> p \<in> set (policies d) \<Longrightarrow> pol_lifecycle p = Current \<longleftrightarrow> pol_effective_until p = None"
  by (auto simp: policies_wf_def list_all_iff policy_checks_def)

lemma load_policy_last:
  assumes "policies_wf d"
  shows "load_policy h d = (if host_policies h d = [] then None else Some (last (host_policies h d)))"
proof -
  let ?rs = "host_policies h d"
  have c: "chain pol_revision pol_effective_from pol_effective_until ?rs"
    using assms by (simp add: policies_wf_def)
  have "filter (\<lambda>p. pol_host p = h \<and> pol_lifecycle p = Current) (policies d)
      = filter (\<lambda>p. pol_effective_until p = None) ?rs"
    unfolding host_policies_def filter_filter using current_iff_open [OF assms]
    by (intro filter_cong) auto
  also have "\<dots> = (if ?rs = [] then [] else [last ?rs])"
    using chain_open [OF c] by simp
  finally have f: "filter (\<lambda>p. pol_host p = h \<and> pol_lifecycle p = Current) (policies d)
      = (if ?rs = [] then [] else [last ?rs])" .
  have "load_policy h d = (case filter (\<lambda>p. pol_host p = h \<and> pol_lifecycle p = Current) (policies d) of
      [] \<Rightarrow> None | x # _ \<Rightarrow> Some x)"
    by (simp add: load_policy_def select_one_filter)
  then show ?thesis by (simp add: f)
qed

lemma supersede_policy_Inr:
  assumes wf: "policies_wf d" and row: "host_policies h d \<noteq> []"
    and s: "supersede_policy (pol_version_id (last (host_policies h d))) now d = Inr d1"
  shows "host_policies h d1
           = butlast (host_policies h d) @ [close_policy now (last (host_policies h d))]"
    and "k \<noteq> h \<Longrightarrow> host_policies k d1 = host_policies k d"
    and "map pol_version_id (policies d1) = map pol_version_id (policies d)"
    and "list_all policy_checks (policies d1)"
    and "d1 = d\<lparr>policies := policies d1\<rparr>"
proof -
  let ?r = "last (host_policies h d)"
  let ?P = "\<lambda>p. pol_version_id p = pol_version_id ?r \<and> pol_lifecycle p = Current"
  have d1: "policies d1 = update_rows ?P (close_policy now) (policies d)"
    and frame: "d1 = d\<lparr>policies := policies d1\<rparr>"
    and chk: "\<forall>p \<in> set (policies d). ?P p \<longrightarrow> policy_checks (close_policy now p)"
    using s by (auto simp: supersede_policy_def Let_def split: if_splits)
  have dist: "distinct (map pol_version_id (policies d))"
    and all: "list_all policy_checks (policies d)"
    and c: "chain pol_revision pol_effective_from pol_effective_until (host_policies h d)"
    using wf by (auto simp: policies_wf_def)
  have mem: "?r \<in> set (policies d)" and host: "pol_host ?r = h"
    using last_in_set [OF row] by (auto simp: host_policies_def)
  have pick: "p = ?r" if "p \<in> set (policies d)" "?P p" for p
    using that mem dist by (simp add: distinct_map inj_on_def)
  have upd: "host_policies k d1 = update_rows ?P (close_policy now) (host_policies k d)" for k
    unfolding host_policies_def d1 by (rule filter_update_rows) (simp add: close_policy_def)
  have "?P p \<longleftrightarrow> pol_effective_until p = None" if "p \<in> set (host_policies h d)" for p
  proof -
    have p: "p \<in> set (policies d)" using that by (simp add: host_policies_def)
    have "p = ?r" if "pol_effective_until p = None"
    proof -
      have "p \<in> set (filter (\<lambda>r. pol_effective_until r = None) (host_policies h d))"
        using that \<open>p \<in> set (host_policies h d)\<close> by simp
      then show ?thesis by (simp add: chain_open [OF c row])
    qed
    then show ?thesis using current_iff_open [OF wf p] by auto
  qed
  then show "host_policies h d1 = butlast (host_policies h d) @ [close_policy now ?r]"
    unfolding upd using c row by (intro update_rows_last) auto
  show "host_policies k d1 = host_policies k d" if "k \<noteq> h"
    unfolding upd using pick host that by (intro update_rows_none) (auto simp: host_policies_def)
  show "map pol_version_id (policies d1) = map pol_version_id (policies d)"
    unfolding d1 by (rule map_update_rows) (simp add: close_policy_def)
  show "list_all policy_checks (policies d1)"
    using all chk by (auto simp: d1 list_all_iff set_update_rows)
  show "d1 = d\<lparr>policies := policies d1\<rparr>" by (rule frame)
qed

lemma insert_policy_Inr:
  "insert_policy p d = Inr d' \<Longrightarrow>
     d' = d\<lparr>policies := policies d @ [p]\<rparr> \<and> policy_checks p
     \<and> pol_version_id p \<notin> set (map pol_version_id (policies d)) \<and> pol_host p \<in> set (hosts d)
     \<and> (\<forall>x \<in> set (policies d). pol_host x = pol_host p \<longrightarrow> pol_id x = pol_id p)"
  by (auto simp: insert_policy_def split: if_splits)

definition closed_history :: "millis \<Rightarrow> policy_row list \<Rightarrow> policy_row list" where
  "closed_history now rs = (if rs = [] then [] else butlast rs @ [close_policy now (last rs)])"

lemma closed_history_chain:
  assumes "chain pol_revision pol_effective_from pol_effective_until rs"
    and "rs = [] \<or> pol_revision (hd rs) = 1"
    and "rs \<noteq> [] \<Longrightarrow> pol_effective_from (last rs) \<le> now"
    and "pol_revision n = (if rs = [] then 0 else pol_revision (last rs)) + 1"
    and "pol_effective_from n = now" and "pol_effective_until n = None"
  shows "chain pol_revision pol_effective_from pol_effective_until (closed_history now rs @ [n])
       \<and> pol_revision (hd (closed_history now rs @ [n])) = 1"
proof (cases "rs = []")
  case True
  then show ?thesis using assms by (simp add: closed_history_def)
next
  case False
  have "chain pol_revision pol_effective_from pol_effective_until
      (butlast rs @ [close_policy now (last rs), n])"
    using assms False by (intro policy_versions.close_append_last) simp_all
  moreover have "pol_revision (hd (butlast rs @ [close_policy now (last rs), n])) = 1"
    using assms(2) False by (cases rs) (auto simp: close_policy_def)
  ultimately show ?thesis using False by (simp add: closed_history_def)
qed

lemma write_policy_Inr:
  assumes wf: "policies_wf d"
    and w: "write_policy h q sha (load_policy h d) pid vid now d = Inr d'"
  obtains n where "host_policies h d' = closed_history now (host_policies h d) @ [n]"
    and "pol_host n = h" and "pol_revision n = revision_of (load_policy h d) + 1"
    and "pol_json n = Some q" and "pol_sha n = sha" and "pol_enabled n = pr_enabled q"
    and "pol_effective_from n = now" and "pol_lifecycle n = Current"
    and "\<And>k. k \<noteq> h \<Longrightarrow> host_policies k d' = host_policies k d"
    and "d' = d\<lparr>policies := policies d'\<rparr>"
    and "policies_wf d'"
proof -
  let ?rs = "host_policies h d"
  let ?cur = "load_policy h d"
  define n where "n = \<lparr>pol_version_id = vid, pol_id = (case ?cur of None \<Rightarrow> pid | Some row \<Rightarrow> pol_id row),
          pol_host = h, pol_revision = revision_of ?cur + 1, pol_lifecycle = Current,
          pol_enabled = pr_enabled q, pol_json = Some q, pol_sha = sha, pol_effective_from = now,
          pol_effective_until = None\<rparr>"
  from w obtain d1 where
    d1: "(case ?cur of None \<Rightarrow> Inr d | Some row \<Rightarrow> supersede_policy (pol_version_id row) now d) = Inr d1"
    and ins: "insert_policy n d1 = Inr d'"
    by (auto simp: write_policy_def n_def)
  have *: "list_all policy_checks (policies d1)
      \<and> map pol_version_id (policies d1) = map pol_version_id (policies d)
      \<and> host_policies h d1 = closed_history now ?rs
      \<and> (\<forall>k. k \<noteq> h \<longrightarrow> host_policies k d1 = host_policies k d)
      \<and> d1 = d\<lparr>policies := policies d1\<rparr>"
  proof (cases "?rs = []")
    case True
    then show ?thesis
      using d1 wf load_policy_last [OF wf, of h] by (simp add: closed_history_def policies_wf_def)
  next
    case False
    then have "supersede_policy (pol_version_id (last ?rs)) now d = Inr d1"
      using d1 load_policy_last [OF wf, of h] by simp
    from supersede_policy_Inr [OF wf False this] False show ?thesis
      by (simp add: closed_history_def)
  qed
  then have chk: "list_all policy_checks (policies d1)"
    and ids: "map pol_version_id (policies d1) = map pol_version_id (policies d)"
    and hist: "host_policies h d1 = closed_history now ?rs"
    and other: "\<And>k. k \<noteq> h \<Longrightarrow> host_policies k d1 = host_policies k d"
    and frame: "d1 = d\<lparr>policies := policies d1\<rparr>"
    by blast+
  note ins' = insert_policy_Inr [OF ins]
  have d': "policies d' = policies d1 @ [n]" "d' = d1\<lparr>policies := policies d'\<rparr>" using ins' by auto
  have hist': "host_policies h d' = closed_history now ?rs @ [n]"
    using hist by (simp add: host_policies_def d'(1) n_def)
  have other': "host_policies k d' = host_policies k d" if "k \<noteq> h" for k
    using other [OF that] that by (simp add: host_policies_def d'(1) n_def)
  have from_le: "pol_effective_from (last ?rs) \<le> now" if "?rs \<noteq> []"
  proof -
    have "close_policy now (last ?rs) \<in> set (host_policies h d1)"
      using hist that by (simp add: closed_history_def)
    then have "policy_checks (close_policy now (last ?rs))"
      using chk by (auto simp: host_policies_def list_all_iff)
    then show ?thesis by (simp add: policy_checks_def close_policy_def)
  qed
  have c: "chain pol_revision pol_effective_from pol_effective_until ?rs"
    and first: "?rs = [] \<or> pol_revision (hd ?rs) = 1"
    using wf by (auto simp: policies_wf_def)
  have rev: "revision_of ?cur = (if ?rs = [] then 0 else pol_revision (last ?rs))"
    by (simp add: load_policy_last [OF wf] revision_of_def)
  have ch: "chain pol_revision pol_effective_from pol_effective_until (host_policies h d')
        \<and> pol_revision (hd (host_policies h d')) = 1"
    unfolding hist' using c first from_le rev by (intro closed_history_chain) (auto simp: n_def)
  have idn: "\<forall>x \<in> set (host_policies h d'). pol_id x = pol_id n"
    using ins' by (auto simp: host_policies_def d'(1) n_def)
  have same: "\<forall>p \<in> set (host_policies k d). \<forall>p' \<in> set (host_policies k d). pol_id p = pol_id p'" for k
    using wf unfolding policies_wf_def by blast
  have "policies_wf d'"
    unfolding policies_wf_def
  proof (intro conjI allI)
    show "distinct (map pol_version_id (policies d'))"
      using wf ids ins' by (auto simp: d'(1) policies_wf_def)
    show "list_all policy_checks (policies d')" using chk ins' by (simp add: d'(1))
    fix k
    show "chain pol_revision pol_effective_from pol_effective_until (host_policies k d')"
      using ch other' [of k] wf by (cases "k = h") (auto simp: policies_wf_def)
    show "host_policies k d' = [] \<or> pol_revision (hd (host_policies k d')) = 1"
      using ch other' [of k] wf by (cases "k = h") (auto simp: policies_wf_def)
    show "\<forall>p \<in> set (host_policies k d'). \<forall>p' \<in> set (host_policies k d'). pol_id p = pol_id p'"
    proof (cases "k = h")
      case True
      then show ?thesis using idn [THEN bspec] by (intro ballI) (simp only:)
    next
      case False
      show ?thesis unfolding other' [OF False] by (rule same)
    qed
  qed
  moreover have "d' = d\<lparr>policies := policies d'\<rparr>"
    by (subst d'(2), subst frame) simp
  moreover have "pol_host n = h" "pol_revision n = revision_of ?cur + 1" "pol_json n = Some q"
    "pol_sha n = sha" "pol_enabled n = pr_enabled q" "pol_effective_from n = now"
    "pol_lifecycle n = Current"
    by (simp_all add: n_def)
  ultimately show thesis using that [of n] hist' other' by blast
qed

lemma write_policy_load:
  assumes wf: "policies_wf d"
    and w: "write_policy h q sha (load_policy h d) pid vid now d = Inr d'"
  shows "\<exists>n. load_policy h d' = Some n \<and> pol_host n = h \<and> pol_json n = Some q \<and> pol_sha n = sha
           \<and> pol_enabled n = pr_enabled q \<and> pol_effective_from n = now
           \<and> pol_revision n = revision_of (load_policy h d) + 1"
proof -
  obtain n where n: "host_policies h d' = closed_history now (host_policies h d) @ [n]"
    "pol_host n = h" "pol_json n = Some q" "pol_sha n = sha" "pol_enabled n = pr_enabled q"
    "pol_effective_from n = now" "pol_revision n = revision_of (load_policy h d) + 1"
    and wf': "policies_wf d'"
    by (rule write_policy_Inr [OF wf w])
  then show ?thesis by (simp add: load_policy_last [OF wf'])
qed

lemma put_health_policy_Inr:
  assumes "put_health_policy env hdr h payload pid vid now d = (Inr (tag, v), d')"
  obtains q0 q where "payload = Some q0" and "normalize_and_validate_policy q0 = Inr q"
    and "if_match_health hdr = Inr (revision_of (load_policy h d))" and "h \<in> set (hosts d)"
    and "(pred_option (\<lambda>row. pol_sha row = digest_text env (json_of_policy env q)) (load_policy h d)
            \<and> load_policy h d \<noteq> None \<and> d' = d \<and> tag = etag (revision_of (load_policy h d))
          \<or> \<not> (load_policy h d \<noteq> None
               \<and> pred_option (\<lambda>row. pol_sha row = digest_text env (json_of_policy env q)) (load_policy h d))
            \<and> write_policy h q (digest_text env (json_of_policy env q)) (load_policy h d) pid vid now d = Inr d'
            \<and> tag = etag (revision_of (load_policy h d) + 1))"
    and "v = policy_data h (load_policy h d')"
proof -
  obtain q0 where p: "payload = Some q0"
    using assms by (cases payload) (auto simp: put_health_policy_def Let_def)
  obtain q where q: "normalize_and_validate_policy q0 = Inr q"
    using assms p by (cases "normalize_and_validate_policy q0") (auto simp: put_health_policy_def Let_def)
  obtain r where r: "if_match_health hdr = Inr r"
    using assms p q by (cases "if_match_health hdr") (auto simp: put_health_policy_def Let_def)
  have h: "h \<in> set (hosts d)"
    using assms p q r by (auto simp: put_health_policy_def Let_def ensure_host_def split: if_splits)
  have eq: "r = revision_of (load_policy h d)"
    using assms p q r h by (auto simp: put_health_policy_def Let_def ensure_host_def split: if_splits)
  show thesis
    using assms p q r h eq that [of q0 q]
    by (auto simp: put_health_policy_def Let_def ensure_host_def split: if_splits option.splits sum.splits)
qed

text \<open>
  C27. Validation accepts exactly the requests that become a valid policy once their filesystem rules
  are sorted by mount, returns that policy with nothing else changed, and leaves a normalised policy
  as it is.
\<close>

theorem normalize_policy_correct:
  "(normalize_and_validate_policy q0 = Inr q \<longleftrightarrow>
      q = q0\<lparr>pr_filesystems := sort_key fs_mount (pr_filesystems q0)\<rparr> \<and> policy_valid q)
   \<and> (normalize_and_validate_policy q0 = Inr q \<longrightarrow>
        mset (pr_filesystems q) = mset (pr_filesystems q0)
        \<and> sorted_wrt (<) (map fs_mount (pr_filesystems q))
        \<and> normalize_and_validate_policy q = Inr q)"
proof (intro conjI impI)
  show "normalize_and_validate_policy q0 = Inr q \<longleftrightarrow>
      q = q0\<lparr>pr_filesystems := sort_key fs_mount (pr_filesystems q0)\<rparr> \<and> policy_valid q"
    by (rule normalize_Inr)
  assume n: "normalize_and_validate_policy q0 = Inr q"
  then have q: "q = q0\<lparr>pr_filesystems := sort_key fs_mount (pr_filesystems q0)\<rparr>"
    and v: "policy_valid q" using normalize_Inr by blast+
  show "mset (pr_filesystems q) = mset (pr_filesystems q0)" by (simp add: q)
  show srt: "sorted_wrt (<) (map fs_mount (pr_filesystems q))" using v by (simp add: policy_valid_def)
  then have "sort_key fs_mount (pr_filesystems q) = pr_filesystems q"
    by (intro sort_key_id_if_sorted) (simp add: strict_sorted_iff)
  then show "normalize_and_validate_policy q = Inr q" using v by (simp add: normalize_Inr)
qed

definition sample_policy :: policy_request where
  "sample_policy = \<lparr>pr_enabled = True, pr_cpu_busy = None, pr_memory = None,
     pr_load5 = Some \<lparr>high_requirement = Required, high_warning = Fin 2, high_critical = Fin 4,
       high_recovery = Fin 1, high_enter_count = 2, high_recover_count = 2\<rparr>,
     pr_filesystems = []\<rparr>"

lemma normalize_sample: "normalize_and_validate_policy sample_policy = Inr sample_policy"
  by (simp add: normalize_Inr sample_policy_def policy_valid_def load_ok_def high_ok_def has_required_def)

theorem normalize_policy_correct_witness:
  "mset (pr_filesystems sample_policy) = mset (pr_filesystems sample_policy)
   \<and> normalize_and_validate_policy sample_policy = Inr sample_policy"
  using normalize_policy_correct [of sample_policy sample_policy] normalize_sample by blast

lemma put_policy_versions_facts:
  assumes wf: "policies_wf d"
    and put: "put_health_policy env hdr h payload pid vid now d = (Inr (tag, v), d')"
  shows "\<exists>q0 q n. payload = Some q0 \<and> normalize_and_validate_policy q0 = Inr q
      \<and> if_match_policy hdr = IfMatchRevision (revision_of (load_policy h d))
      \<and> load_policy h d' = Some n \<and> v = policy_data h (Some n) \<and> tag = etag (pol_revision n)
      \<and> pol_sha n = digest_text env (json_of_policy env q)
      \<and> d' = d\<lparr>policies := policies d'\<rparr>
      \<and> (d' = d \<or> (host_policies h d' = closed_history now (host_policies h d) @ [n]
                   \<and> pol_json n = Some q \<and> pol_effective_from n = now
                   \<and> pol_revision n = revision_of (load_policy h d) + 1
                   \<and> (\<forall>k. k \<noteq> h \<longrightarrow> host_policies k d' = host_policies k d)))"
proof (rule put_health_policy_Inr [OF put], goal_cases)
  case (1 q0 q)
  have match: "if_match_policy hdr = IfMatchRevision (revision_of (load_policy h d))"
    using 1(3) by (auto simp: if_match_health_def split: if_match.splits)
  let ?sha = "digest_text env (json_of_policy env q)"
  from 1(5) consider
    (same) "pred_option (\<lambda>row. pol_sha row = ?sha) (load_policy h d)" "load_policy h d \<noteq> None"
       "d' = d" "tag = etag (revision_of (load_policy h d))"
  | (new) "write_policy h q ?sha (load_policy h d) pid vid now d = Inr d'"
       "tag = etag (revision_of (load_policy h d) + 1)"
    by blast
  then show ?case
  proof cases
    case same
    then obtain n where "load_policy h d = Some n" "pol_sha n = ?sha" by auto
    with same 1 match show ?thesis by (auto simp: revision_of_def)
  next
    case new
    obtain n where n: "host_policies h d' = closed_history now (host_policies h d) @ [n]"
      "pol_revision n = revision_of (load_policy h d) + 1"
      "pol_json n = Some q" "pol_sha n = ?sha" "pol_effective_from n = now"
      "\<And>k. k \<noteq> h \<Longrightarrow> host_policies k d' = host_policies k d"
      "d' = d\<lparr>policies := policies d'\<rparr>" and wf': "policies_wf d'"
      by (rule write_policy_Inr [OF wf new(1)]) (rule that)
    have "load_policy h d' = Some n" by (simp add: load_policy_last [OF wf'] n(1))
    with n 1 new(2) match show ?thesis by (intro exI [of _ q0] exI [of _ q] exI [of _ n]) auto
  qed
qed

lemma put_wf:
  assumes wf: "policies_wf d"
    and put: "put_health_policy env hdr h payload pid vid now d = (Inr (tag, v), d')"
  shows "policies_wf d'"
proof (rule put_health_policy_Inr [OF put], goal_cases)
  case (1 q0 q)
  show ?case
  proof (cases "d' = d")
    case False
    then have "write_policy h q (digest_text env (json_of_policy env q)) (load_policy h d) pid vid now d
        = Inr d'" using 1(5) by blast
    then show ?thesis by (rule write_policy_Inr [OF wf]) (assumption)
  qed (simp add: wf)
qed

text \<open>
  C9. An accepted \<open>PUT\<close> named the revision that was current. Either it repeats the current policy and
  nothing is written, or the open version is closed at \<open>now\<close> and the normalised policy is appended
  under the next revision; histories of other hosts and all other tables are untouched, and the
  response shows the stored policy.
\<close>

theorem put_policy_versions:
  assumes wf: "policies_wf d"
    and put: "put_health_policy env hdr h payload pid vid now d = (Inr (tag, v), d')"
  shows "\<exists>q0 q n. payload = Some q0 \<and> normalize_and_validate_policy q0 = Inr q
      \<and> if_match_policy hdr = IfMatchRevision (revision_of (load_policy h d))
      \<and> load_policy h d' = Some n \<and> v = policy_data h (Some n) \<and> tag = etag (pol_revision n)
      \<and> pol_sha n = digest_text env (json_of_policy env q)
      \<and> d' = d\<lparr>policies := policies d'\<rparr>
      \<and> (d' = d \<or> (host_policies h d' = closed_history now (host_policies h d) @ [n]
                   \<and> pol_json n = Some q \<and> pol_effective_from n = now
                   \<and> pol_revision n = revision_of (load_policy h d) + 1
                   \<and> (\<forall>k. k \<noteq> h \<longrightarrow> host_policies k d' = host_policies k d)))"
  using put_policy_versions_facts [OF assms] .

lemma policies_wf_empty: "policies_wf sample_hosts"
  by (simp add: policies_wf_def sample_hosts_def empty_db_def host_policies_def)

definition if_match_header :: "int \<Rightarrow> headers" where
  "if_match_header r = (\<lambda>n. if n = ''if-match'' then Some (Text (etag r)) else None)"

lemma if_match_health_header:
  "0 \<le> r \<Longrightarrow> r \<le> i64_max \<Longrightarrow> if_match_health (if_match_header r) = Inr r"
  using if_match_etag [of "if_match_header r" r 0]
  by (simp add: if_match_health_def if_match_policy_def if_match_header_def i64_min_def)

definition sample_put :: "db \<Rightarrow> (health_error + policy_response) \<times> db" where
  "sample_put d = put_health_policy sample_env (if_match_header 0) ''h'' (Some sample_policy)
     ''pid'' ''v1'' 5 d"

lemma sample_put:
  "\<exists>v d'. sample_put sample_hosts = (Inr (etag 1, v), d')"
  "\<exists>p. host_policies ''h'' (snd (sample_put sample_hosts)) = [p] \<and> pol_effective_from p = 5"
  by (simp_all add: Let_def host_policies_def sample_put_def put_health_policy_def normalize_sample if_match_health_header
      ensure_host_def load_policy_def select_one_def write_policy_def insert_policy_def
      policy_checks_def sample_hosts_def empty_db_def revision_of_def i64_max_def)

theorem put_policy_versions_witness:
  "\<exists>n. load_policy ''h'' (snd (sample_put sample_hosts)) = Some n \<and> etag 1 = etag (pol_revision n)"
proof -
  obtain v d' where p: "sample_put sample_hosts = (Inr (etag 1, v), d')" using sample_put(1) by blast
  show ?thesis
    using put_policy_versions [OF policies_wf_empty p [unfolded sample_put_def]] p by auto
qed

text \<open>
  Whatever \<open>PUT\<close> is sent and whatever it answers, the version table stays well formed: per host
  the revisions are 1, 2, 3, ... under one policy identity, every version ends exactly when the next
  begins, and only the newest is current; an error leaves the whole database as it was.
\<close>

theorem put_policy_invariant:
  assumes "policies_wf d"
  shows "policies_wf (snd (put_health_policy env hdr h payload pid vid now d))
       \<and> (\<forall>e d'. put_health_policy env hdr h payload pid vid now d = (Inl e, d') \<longrightarrow> d' = d)"
proof (intro conjI allI impI)
  show "policies_wf (snd (put_health_policy env hdr h payload pid vid now d))"
  proof (cases "put_health_policy env hdr h payload pid vid now d")
    case (Pair r d')
    show ?thesis
    proof (cases r)
      case (Inl e)
      then have "d' = d" using Pair
        by (auto simp: put_health_policy_def Let_def split: sum.splits if_splits)
      then show ?thesis using assms Pair by simp
    next
      case (Inr a)
      obtain tag v where a: "a = (tag, v)" by (cases a)
      from Pair Inr a have put: "put_health_policy env hdr h payload pid vid now d = (Inr (tag, v), d')"
        by simp
      show ?thesis using put_wf [OF assms put] put by simp
    qed
  qed
  fix e d'
  assume "put_health_policy env hdr h payload pid vid now d = (Inl e, d')"
  then show "d' = d" by (auto simp: put_health_policy_def Let_def split: sum.splits if_splits)
qed

theorem put_policy_invariant_witness:
  "policies_wf (snd (sample_put sample_hosts))"
  using put_policy_invariant [OF policies_wf_empty] unfolding sample_put_def by blast

text \<open>
  At any instant from a host's first policy on, exactly one version of that host's policy is in
  effect, so a time of the past always names one policy.
\<close>

theorem policy_in_effect_unique:
  assumes "policies_wf d" and "host_policies h d = first # rest" and "pol_effective_from first \<le> t"
  shows "length (filter (in_effect pol_effective_from pol_effective_until t) (host_policies h d)) = 1"
proof -
  have "chain pol_revision pol_effective_from pol_effective_until (first # rest)"
    using assms(1,2) by (metis policies_wf_def)
  then show ?thesis unfolding assms(2) using assms(3) by (rule chain_in_effect_unique)
qed

theorem policy_in_effect_unique_witness:
  "length (filter (in_effect pol_effective_from pol_effective_until 7)
     (host_policies ''h'' (snd (sample_put sample_hosts)))) = 1"
proof -
  obtain v d' where p: "sample_put sample_hosts = (Inr (etag 1, v), d')" using sample_put(1) by blast
  obtain n where n: "host_policies ''h'' d' = [n]" "pol_effective_from n = 5"
    using sample_put(2) p by auto
  have "policies_wf d'" using put_wf [OF policies_wf_empty p [unfolded sample_put_def]] .
  from policy_in_effect_unique [OF this n(1), of 7] n(2) p show ?thesis by (simp only: snd_conv)
qed

text \<open>
  A client that repeats a successful \<open>PUT\<close> with the entity tag it was answered gets the same
  answer and writes no new version, whatever the clock and the fresh identifiers are by then.
\<close>

theorem put_policy_retry:
  assumes wf: "policies_wf d"
    and put: "put_health_policy env hdr h payload pid vid now d = (Inr (tag, v), d')"
    and hdr': "hdr' ''if-match'' = Some (Text tag)"
    and fits: "revision_of (load_policy h d) < i64_max"
  shows "put_health_policy env hdr' h payload pid' vid' now' d' = (Inr (tag, v), d')"
proof -
  obtain q0 q n where q: "payload = Some q0" "normalize_and_validate_policy q0 = Inr q"
    and n: "load_policy h d' = Some n" "v = policy_data h (Some n)" "tag = etag (pol_revision n)"
      "pol_sha n = digest_text env (json_of_policy env q)"
    and fr: "d' = d\<lparr>policies := policies d'\<rparr>"
    and rev: "d' = d \<or> pol_revision n = revision_of (load_policy h d) + 1"
    using put_policy_versions_facts [OF wf put] by blast
  have h: "h \<in> set (hosts d')"
    by (rule put_health_policy_Inr [OF put]) (subst fr, simp)
  have wf': "policies_wf d'" using put_wf [OF wf put] .
  have "1 \<le> pol_revision n"
    using n(1) wf' select_one_Some [of _ "policies d'" n]
    by (auto simp: load_policy_def policies_wf_def list_all_iff policy_checks_def)
  moreover have "pol_revision n \<le> i64_max"
    using rev n(1) fits by (auto simp: revision_of_def)
  ultimately have "if_match_health hdr' = Inr (pol_revision n)"
    using if_match_etag [of hdr' "pol_revision n" 0] hdr' n(3)
    by (simp add: if_match_health_def if_match_policy_def i64_min_def)
  then show ?thesis
    using q n h by (simp add: put_health_policy_def ensure_host_def revision_of_def)
qed

theorem put_policy_retry_witness:
  "put_health_policy sample_env (if_match_header 1) ''h'' (Some sample_policy) ''p2'' ''v2'' 9
     (snd (sample_put sample_hosts)) = sample_put sample_hosts"
proof -
  obtain v d' where p: "sample_put sample_hosts = (Inr (etag 1, v), d')" using sample_put(1) by blast
  show ?thesis
    using put_policy_retry [OF policies_wf_empty p [unfolded sample_put_def], of "if_match_header 1"] p
    by (simp add: if_match_header_def revision_of_def load_policy_def select_one_def sample_hosts_def
        empty_db_def i64_max_def)
qed

end
