(* ===== verification/HealthEvaluation.thy ===== *)
theory HealthEvaluation
  imports HealthPolicy
begin

text \<open>
  The evaluation of one monitor run, from \<open>backend/src/monitoring_health.rs\<close>: the candidate status of
  each rule from the run's samples, the debouncing over the preceding evaluations
  (\<open>debounced_status\<close>), the status of the host, and \<open>evaluate_run_tx\<close>, which writes one receipt with
  its condition rows inside the transaction that ends the run. \<open>current_health\<close> reads it back.
\<close>

record previous_condition =
  prev_status :: condition_status
  prev_candidate :: condition_status
  prev_value :: "f64 option"

record draft =
  df_key :: string
  df_kind :: string
  df_requirement :: requirement
  df_subject_kind :: string
  df_subject_id :: string
  df_label :: string
  df_candidate :: condition_status
  df_status :: condition_status
  df_reason :: string
  df_value :: "f64 option"
  df_unit :: string
  df_window :: "f64 option"
  df_streak :: nat
  df_streak_required :: nat
  df_evidence :: "string list"

record evaluation_timing =
  tm_evaluated_at :: instant
  tm_observation :: observation_state
  tm_observed_at :: "instant option"
  tm_valid_until :: "instant option"

subsection \<open>Samples\<close>

definition quality_is_observed :: "string \<Rightarrow> f64 option \<Rightarrow> bool" where
  "quality_is_observed quality v =
     (quality = ''observed'' \<and> (case v of None \<Rightarrow> False | Some x \<Rightarrow> f_is_finite x))"

definition observed_sample :: "sample_row \<Rightarrow> bool" where
  "observed_sample s = quality_is_observed (smp_quality s) (smp_value s)"

definition load_samples :: "string \<Rightarrow> string \<Rightarrow> db \<Rightarrow> sample_row list" where
  "load_samples run host d =
     sort_key smp_id (filter (\<lambda>s. smp_run s = run \<and> smp_host s = host) (samples d))"

definition find_sample ::
  "sample_row list \<Rightarrow> string \<Rightarrow> string \<Rightarrow> string \<Rightarrow> string \<Rightarrow> sample_row option" where
  "find_sample ss family kind subject metric =
     find (\<lambda>s. smp_family s = family \<and> smp_subject_kind s = kind \<and> smp_subject_id s = subject
               \<and> smp_metric s = metric) ss"

definition unknown_draft ::
  "string \<Rightarrow> string \<Rightarrow> requirement \<Rightarrow> string \<Rightarrow> string \<Rightarrow> string \<Rightarrow> string \<Rightarrow> string \<Rightarrow> nat \<Rightarrow> draft" where
  "unknown_draft key kind req skind sid label reason unit streak_required =
     \<lparr>df_key = key, df_kind = kind, df_requirement = req, df_subject_kind = skind,
      df_subject_id = sid, df_label = label, df_candidate = Unknown, df_status = Unknown,
      df_reason = reason, df_value = None, df_unit = unit, df_window = None, df_streak = 0,
      df_streak_required = streak_required, df_evidence = []\<rparr>"

subsection \<open>Candidates\<close>

definition high_candidate :: "f64 \<Rightarrow> high_rule \<Rightarrow> condition_status \<times> bool" where
  "high_candidate v r =
     ((if f_le (high_critical r) v then Critical else if f_le (high_warning r) v then Warning else Ok),
      f_lt v (high_recovery r))"

definition cpu_candidate :: "f64 \<Rightarrow> cpu_rule \<Rightarrow> condition_status \<times> bool" where
  "cpu_candidate v r =
     ((if f_le (cpu_critical r) v then Critical else if f_le (cpu_warning r) v then Warning else Ok),
      f_lt v (cpu_recovery r))"

definition low_candidate :: "f64 \<Rightarrow> low_rule \<Rightarrow> condition_status \<times> bool" where
  "low_candidate v r =
     ((if f_lt v (low_critical r) then Critical else if f_lt v (low_warning r) then Warning else Ok),
      f_le (low_recovery r) v)"

fun severity :: "condition_status \<Rightarrow> nat" where
  "severity Ok = 0"
| "severity Warning = 1"
| "severity Critical = 2"
| "severity Unknown = 0"
| "severity Stale = 0"

fun is_unknown :: "condition_status \<Rightarrow> bool" where
  "is_unknown Unknown = True"
| "is_unknown Stale = True"
| "is_unknown _ = False"

subsection \<open>Debouncing\<close>

text \<open>The loops of \<open>count_consecutive\<close> and \<open>count_recovery\<close> over the history, newest first.\<close>

fun count_history :: "(previous_condition \<Rightarrow> bool) \<Rightarrow> previous_condition list \<Rightarrow> nat \<Rightarrow> nat" where
  "count_history p [] n = n"
| "count_history p (h # hs) n =
     (if is_unknown (prev_candidate h) \<or> \<not> p h then n
      else count_history p hs (sat_add32 n 1))"

definition count_consecutive ::
  "condition_status \<Rightarrow> previous_condition list \<Rightarrow> (condition_status \<Rightarrow> bool) \<Rightarrow> nat" where
  "count_consecutive current history p =
     (if p current then count_history (\<lambda>h. p (prev_candidate h)) history 1 else 0)"

definition count_recovery ::
  "bool \<Rightarrow> previous_condition list \<Rightarrow> (f64 option \<Rightarrow> bool) \<Rightarrow> nat" where
  "count_recovery recovered history p =
     (if \<not> recovered then 0 else count_history (\<lambda>h. p (prev_value h)) history 1)"

definition debounced_status ::
  "condition_status \<Rightarrow> bool \<Rightarrow> previous_condition list \<Rightarrow> nat \<Rightarrow> nat \<Rightarrow> (f64 option \<Rightarrow> bool) \<Rightarrow> bool
     \<Rightarrow> condition_status \<times> nat \<times> string" where
  "debounced_status candidate recovery_now history enter recover recovered missed_due =
     (let enter_new =
        (if candidate = Ok then (Ok, 1, ''ok'')
         else
           (let broad = count_consecutive candidate history (\<lambda>s. 1 \<le> severity s);
                crit = count_consecutive candidate history (\<lambda>s. s = Critical)
            in if candidate = Critical \<and> enter \<le> crit then (Critical, crit, ''threshold_critical'')
               else if enter \<le> broad then (Warning, broad, ''threshold_warning'')
               else (Unknown, broad, ''threshold_pending'')));
          stay = (\<lambda>status.
            if recovery_now then
              (let n = count_recovery recovery_now history recovered
               in if recover \<le> n then (Ok, n, ''recovered'') else (status, n, ''recovery_pending''))
            else if status = Warning \<and> candidate = Critical then
              (let n = count_consecutive candidate history (\<lambda>s. s = Critical)
               in if enter \<le> n then (Critical, n, ''threshold_critical'')
                  else (Warning, n, ''threshold_pending''))
            else (status, 1, ''threshold_active''))
      in if is_unknown candidate then (Unknown, 0, ''metric_unavailable'')
         else if missed_due then
           (if severity candidate = 0 then (Ok, 1, ''ok_after_gap'')
            else (Unknown, 1, ''threshold_pending_after_gap''))
         else
           (case history of
              [] \<Rightarrow> enter_new
            | previous # _ \<Rightarrow>
                (if prev_status previous = Critical \<or> prev_status previous = Warning
                 then stay (prev_status previous) else enter_new)))"

text \<open>
  \<open>previous_conditions\<close>: the earlier conditions under the same policy version and key, newest first, cut
  at the first one whose validity did not reach the evaluation after it.
\<close>

fun contiguous :: "millis \<Rightarrow> (condition_row \<times> evaluation_row) list \<Rightarrow> previous_condition list" where
  "contiguous newer [] = []"
| "contiguous newer ((c, e) # rest) =
     (if (case evl_valid_until e of None \<Rightarrow> True | Some v \<Rightarrow> v \<le> newer) then []
      else \<lparr>prev_status = parse_condition_status (cnd_status c),
            prev_candidate = parse_condition_status (cnd_candidate c),
            prev_value = cnd_value c\<rparr> # contiguous (evl_evaluated_at e) rest)"

definition condition_history ::
  "string \<Rightarrow> string \<Rightarrow> string \<Rightarrow> db \<Rightarrow> (condition_row \<times> evaluation_row) list" where
  "condition_history host version key d =
     take 20 (rev (sort_key (\<lambda>p. evl_evaluated_at (snd p)) (sort_key (\<lambda>p. evl_id (snd p))
       [(c, e). c \<leftarrow> conditions d, e \<leftarrow> evaluations d,
         evl_id e = cnd_evaluation c \<and> evl_host e = host \<and> evl_policy_version e = Some version
         \<and> cnd_key c = key])))"

definition previous_conditions ::
  "string \<Rightarrow> string \<Rightarrow> string \<Rightarrow> millis \<Rightarrow> db \<Rightarrow> previous_condition list" where
  "previous_conditions host version key continuity d =
     contiguous continuity (condition_history host version key d)"

subsection \<open>Condition drafts\<close>

definition quality_reason :: "string \<Rightarrow> string" where
  "quality_reason quality = ''metric_'' @ quality"

definition stable_subject_id :: "'a env_scheme \<Rightarrow> string \<Rightarrow> string \<Rightarrow> string" where
  "stable_subject_id env kind v = kind @ '':'' @ hex_digest (sha256 env v)"

text \<open>What the four rule kinds do alike once they have a value.\<close>

definition decided_draft ::
  "draft \<Rightarrow> condition_status \<times> bool \<Rightarrow> previous_condition list \<Rightarrow> nat \<Rightarrow> nat
     \<Rightarrow> (f64 option \<Rightarrow> bool) \<Rightarrow> bool \<Rightarrow> f64 \<Rightarrow> f64 option \<Rightarrow> string list \<Rightarrow> draft" where
  "decided_draft base cand history enter recover recovered missed v window evidence =
     (let (candidate, recovery_now) = cand;
          (status, streak, reason) =
            debounced_status candidate recovery_now history enter recover recovered missed
      in base\<lparr>df_candidate := candidate, df_status := status, df_reason := reason, df_value := Some v,
              df_window := window, df_streak := streak,
              df_streak_required := (if status = Ok then recover else enter),
              df_evidence := evidence\<rparr>)"

text \<open>The arguments every draft needs: the host, the pinned policy version, continuity and the gap flag.\<close>

record draft_context =
  ctx_host :: string
  ctx_version :: string
  ctx_continuity :: millis
  ctx_missed :: bool
  ctx_samples :: "sample_row list"

definition history_for :: "draft_context \<Rightarrow> string \<Rightarrow> db \<Rightarrow> previous_condition list" where
  "history_for cx key d = previous_conditions (ctx_host cx) (ctx_version cx) key (ctx_continuity cx) d"

definition cpu_draft :: "draft_context \<Rightarrow> db \<Rightarrow> cpu_rule \<Rightarrow> draft" where
  "cpu_draft cx d r =
     (let sample = find_sample (ctx_samples cx) ''cpu'' ''host'' (ctx_host cx) ''busy_pct'';
          unknown = (\<lambda>reason. unknown_draft ''cpu_busy'' ''cpu_busy_instant_percent'' (cpu_requirement r)
                       ''host'' (ctx_host cx) ''CPU busy'' reason ''percent'' (cpu_enter_count r))
      in case sample of
           None \<Rightarrow> unknown ''metric_unavailable''
         | Some s \<Rightarrow>
             (let dr =
                (if observed_sample s then
                   (let v = the (smp_value s) in
                    if f_lt (case smp_window s of None \<Rightarrow> Fin 0 | Some w \<Rightarrow> w) (cpu_minimum_window r)
                    then unknown ''window_too_short''
                    else decided_draft (unknown []) (cpu_candidate v r) (history_for cx ''cpu_busy'' d)
                           (cpu_enter_count r) (cpu_recover_count r)
                           (\<lambda>x. case x of None \<Rightarrow> False | Some y \<Rightarrow> f_lt y (cpu_recovery r))
                           (ctx_missed cx) v (smp_window s) [smp_id s])
                 else unknown (quality_reason (smp_quality s)))
              in dr\<lparr>df_evidence := remdups_adj (sort (df_evidence dr @ [smp_id s])),
                    df_window := (if df_value dr = None then smp_window s else df_window dr)\<rparr>))"

definition memory_draft :: "draft_context \<Rightarrow> db \<Rightarrow> low_rule \<Rightarrow> draft" where
  "memory_draft cx d r =
     (let available = find_sample (ctx_samples cx) ''memory'' ''host'' (ctx_host cx) ''available_bytes'';
          total = find_sample (ctx_samples cx) ''memory'' ''host'' (ctx_host cx) ''total_bytes'';
          key = ''memory_available_ratio'';
          unknown = (\<lambda>reason. unknown_draft key key (low_requirement r) ''host'' (ctx_host cx)
                       ''MemAvailable ratio'' reason ''ratio'' (low_enter_count r))
      in case (available, total) of
           (Some a, Some t) \<Rightarrow>
             (if observed_sample a \<and> observed_sample t then
                (let tv = the (smp_value t);
                     v = (if f_lt (Fin 0) tv then f_div (the (smp_value a)) tv else NaN)
                 in if f_is_finite v
                    then decided_draft (unknown []) (low_candidate v r) (history_for cx key d)
                           (low_enter_count r) (low_recover_count r)
                           (\<lambda>x. case x of None \<Rightarrow> False | Some y \<Rightarrow> f_le (low_recovery r) y)
                           (ctx_missed cx) v None [smp_id a, smp_id t]
                    else unknown ''invalid_memory_total'')
              else unknown ''memory_metric_unavailable'')
         | _ \<Rightarrow> unknown ''memory_metric_unavailable'')"

definition load_draft :: "draft_context \<Rightarrow> db \<Rightarrow> high_rule \<Rightarrow> draft" where
  "load_draft cx d r =
     (let sample = find_sample (ctx_samples cx) ''load'' ''host'' (ctx_host cx) ''normalized_load5'';
          unknown = (\<lambda>reason. unknown_draft ''normalized_load5'' ''normalized_load5'' (high_requirement r)
                       ''host'' (ctx_host cx) ''normalized load5'' reason ''ratio'' (high_enter_count r))
      in case sample of
           None \<Rightarrow> unknown ''metric_unavailable''
         | Some s \<Rightarrow>
             (if observed_sample s then
                (let v = the (smp_value s) in
                 decided_draft (unknown []) (high_candidate v r) (history_for cx ''normalized_load5'' d)
                   (high_enter_count r) (high_recover_count r)
                   (\<lambda>x. case x of None \<Rightarrow> False | Some y \<Rightarrow> f_lt y (high_recovery r))
                   (ctx_missed cx) v (smp_window s) [smp_id s])
              else unknown (quality_reason (smp_quality s))))"

definition fs_candidate :: "f64 \<Rightarrow> f64 option \<Rightarrow> fs_rule \<Rightarrow> condition_status \<times> bool" where
  "fs_candidate v available r =
     (let by_ratio = (if f_le (fs_critical r) v then Critical
                      else if f_le (fs_warning r) v then Warning else Ok);
          low_bytes = (case fs_critical_available r of None \<Rightarrow> False
                       | Some limit \<Rightarrow> (case available of None \<Rightarrow> False | Some a \<Rightarrow> f_lt a (f_of_nat limit)));
          enough_bytes = (case fs_critical_available r of None \<Rightarrow> True
                       | Some limit \<Rightarrow> (case available of None \<Rightarrow> False | Some a \<Rightarrow> f_le (f_of_nat limit) a))
      in (if low_bytes then Critical else by_ratio, f_lt v (fs_recovery r) \<and> enough_bytes))"

definition fs_key :: "env \<Rightarrow> fs_rule \<Rightarrow> string" where
  "fs_key env r = ''filesystem:'' @ stable_subject_id env ''filesystem'' (fs_mount r)"

definition filesystem_draft :: "env \<Rightarrow> draft_context \<Rightarrow> db \<Rightarrow> fs_rule \<Rightarrow> draft" where
  "filesystem_draft env cx d r =
     (let sid = stable_subject_id env ''filesystem'' (fs_mount r);
          key = ''filesystem:'' @ sid;
          ratio = find_sample (ctx_samples cx) ''disk_capacity'' ''filesystem'' sid ''allocatable_used_ratio'';
          available = find_sample (ctx_samples cx) ''disk_capacity'' ''filesystem'' sid ''available_bytes'';
          unknown = (\<lambda>reason. unknown_draft key ''filesystem_allocatable_used_ratio'' (fs_requirement r)
                       ''filesystem'' sid (fs_mount r) reason ''ratio'' (fs_enter_count r))
      in case ratio of
           None \<Rightarrow> unknown ''filesystem_metric_unavailable''
         | Some s \<Rightarrow>
             (if observed_sample s then
                (let v = the (smp_value s);
                     av = (case available of None \<Rightarrow> None
                           | Some a \<Rightarrow> if observed_sample a then smp_value a else None)
                 in if fs_critical_available r \<noteq> None \<and> av = None
                    then unknown ''filesystem_available_unavailable''
                    else decided_draft (unknown []) (fs_candidate v av r) (history_for cx key d)
                           (fs_enter_count r) (fs_recover_count r)
                           (\<lambda>x. case x of None \<Rightarrow> False | Some y \<Rightarrow> f_lt y (fs_recovery r))
                           (ctx_missed cx) v (smp_window s)
                           (sort ([smp_id s] @ (case available of None \<Rightarrow> [] | Some a \<Rightarrow> [smp_id a]))))
              else unknown (quality_reason (smp_quality s))))"

definition option_list :: "'a option \<Rightarrow> 'a list" where
  "option_list x = (case x of None \<Rightarrow> [] | Some y \<Rightarrow> [y])"

lemma set_option_list [simp]: "x \<in> set (option_list y) \<longleftrightarrow> y = Some x"
  by (cases y) (auto simp: option_list_def)

definition build_condition_drafts :: "env \<Rightarrow> draft_context \<Rightarrow> db \<Rightarrow> policy_request \<Rightarrow> draft list" where
  "build_condition_drafts env cx d q =
     map (cpu_draft cx d) (option_list (pr_cpu_busy q))
     @ map (memory_draft cx d) (option_list (pr_memory q))
     @ map (load_draft cx d) (option_list (pr_load5 q))
     @ map (filesystem_draft env cx d) (pr_filesystems q)"

definition build_disabled_drafts :: "env \<Rightarrow> string \<Rightarrow> policy_request \<Rightarrow> draft list" where
  "build_disabled_drafts env host q =
     map (\<lambda>r. unknown_draft ''cpu_busy'' ''cpu_busy_instant_percent'' (cpu_requirement r) ''host'' host
            ''CPU busy'' ''policy_disabled'' ''percent'' (cpu_enter_count r)) (option_list (pr_cpu_busy q))
     @ map (\<lambda>r. unknown_draft ''memory_available_ratio'' ''memory_available_ratio'' (low_requirement r)
            ''host'' host ''MemAvailable ratio'' ''policy_disabled'' ''ratio'' (low_enter_count r))
         (option_list (pr_memory q))
     @ map (\<lambda>r. unknown_draft ''normalized_load5'' ''normalized_load5'' (high_requirement r) ''host'' host
            ''normalized load5'' ''policy_disabled'' ''ratio'' (high_enter_count r)) (option_list (pr_load5 q))
     @ map (\<lambda>r. unknown_draft (fs_key env r) ''filesystem_allocatable_used_ratio'' (fs_requirement r)
            ''filesystem'' (stable_subject_id env ''filesystem'' (fs_mount r)) (fs_mount r)
            ''policy_disabled'' ''ratio'' (fs_enter_count r)) (pr_filesystems q)"

subsection \<open>The receipt\<close>

definition evaluation_digest :: "env \<Rightarrow> string option \<Rightarrow> sample_row list \<Rightarrow> draft list \<Rightarrow> int \<Rightarrow> string" where
  "evaluation_digest env policy_sha ss drafts missed =
     digest_text env (json_of_inputs env
       (policy_sha, map smp_id ss,
        map (\<lambda>x. (df_key x, condition_status_name (df_candidate x), df_evidence x)) drafts, missed))"

definition policy_enabled :: "policy_row option \<Rightarrow> bool" where
  "policy_enabled p = (case p of None \<Rightarrow> False | Some row \<Rightarrow> pol_enabled row)"

definition evaluation_status :: "bool \<Rightarrow> draft list \<Rightarrow> host_status" where
  "evaluation_status enabled drafts =
     (if \<not> enabled then HealthUnknown
      else if \<exists>x \<in> set drafts. df_requirement x = Required \<and> df_status x = Critical then Unhealthy
      else if \<exists>x \<in> set drafts. df_requirement x = Required \<and> is_unknown (df_status x) then HealthUnknown
      else if \<exists>x \<in> set drafts.
                (df_requirement x = Required \<and> df_status x = Warning)
                \<or> (df_requirement x = Optional \<and> (df_status x = Warning \<or> df_status x = Critical))
      then Degraded
      else Healthy)"

definition evaluation_reason :: "policy_row option \<Rightarrow> host_status \<Rightarrow> string" where
  "evaluation_reason policy status =
     (if policy = None then ''not_configured''
      else if \<not> policy_enabled policy then ''policy_disabled''
      else if status = Unhealthy then ''required_critical''
      else if status = HealthUnknown then ''required_unknown''
      else if status = Degraded then ''threshold_warning''
      else ''all_conditions_ok'')"

definition count_drafts :: "(draft \<Rightarrow> bool) \<Rightarrow> draft list \<Rightarrow> int" where
  "count_drafts p drafts = int (length (filter p drafts))"

definition run_policy :: "run_row \<Rightarrow> db \<Rightarrow> policy_row option" where
  "run_policy r d =
     (case run_policy_version r of
        None \<Rightarrow> None
      | Some v \<Rightarrow> select_one (\<lambda>p. pol_version_id p = v \<and> pol_host p = run_host r) (policies d))"

definition run_observed :: "run_row \<Rightarrow> bool" where
  "run_observed r = (run_status r = Succeeded \<or> run_status r = Partial)"

definition effective_timing :: "run_row \<Rightarrow> evaluation_timing \<Rightarrow> evaluation_timing" where
  "effective_timing r tm =
     (if run_observed r then tm
      else tm\<lparr>tm_observation := ObsNone, tm_observed_at := None, tm_valid_until := None\<rparr>)"

definition run_missed_count :: "run_row \<Rightarrow> int" where
  "run_missed_count r = (case run_missed r of None \<Rightarrow> 0 | Some m \<Rightarrow> m)"

definition evaluation_samples :: "run_row \<Rightarrow> db \<Rightarrow> sample_row list" where
  "evaluation_samples r d =
     (if run_observed r \<and> policy_enabled (run_policy r d)
      then load_samples (run_id r) (run_host r) d else [])"

definition evaluation_drafts :: "env \<Rightarrow> run_row \<Rightarrow> evaluation_timing \<Rightarrow> db \<Rightarrow> draft list" where
  "evaluation_drafts env r tm d =
     (case run_policy r d of
        None \<Rightarrow> []
      | Some policy \<Rightarrow>
          (if \<not> pol_enabled policy then build_disabled_drafts env (run_host r) (policy_config policy)
           else build_condition_drafts env
             \<lparr>ctx_host = run_host r, ctx_version = pol_version_id policy,
              ctx_continuity = timestamp_ms (case tm_observed_at tm of None \<Rightarrow> tm_evaluated_at tm
                                             | Some o' \<Rightarrow> o'),
              ctx_missed = 0 < run_missed_count r, ctx_samples = evaluation_samples r d\<rparr>
             d (policy_config policy)))"

definition evaluation_of ::
  "env \<Rightarrow> run_row \<Rightarrow> evaluation_timing \<Rightarrow> string \<Rightarrow> db \<Rightarrow> evaluation_row" where
  "evaluation_of env r tm eid d =
     (let policy = run_policy r d;
          drafts = evaluation_drafts env r tm d;
          status = evaluation_status (policy_enabled policy) drafts
      in \<lparr>evl_id = eid, evl_run = run_id r, evl_host = run_host r,
          evl_policy_version = map_option pol_version_id policy,
          evl_policy = map_option pol_id policy,
          evl_policy_revision = map_option pol_revision policy,
          evl_status = status, evl_reason = evaluation_reason policy status,
          evl_required = count_drafts (\<lambda>x. df_requirement x = Required) drafts,
          evl_optional = count_drafts (\<lambda>x. df_requirement x = Optional) drafts,
          evl_ok = count_drafts (\<lambda>x. df_status x = Ok) drafts,
          evl_warning = count_drafts (\<lambda>x. df_status x = Warning) drafts,
          evl_critical = count_drafts (\<lambda>x. df_status x = Critical) drafts,
          evl_unknown = count_drafts (\<lambda>x. is_unknown (df_status x)) drafts,
          evl_observation = tm_observation tm,
          evl_input_sha = evaluation_digest env (map_option pol_sha policy) (evaluation_samples r d)
                            drafts (run_missed_count r),
          evl_evaluated_at = timestamp_ms (tm_evaluated_at tm),
          evl_observed_at = map_option timestamp_ms (tm_observed_at tm),
          evl_valid_until = map_option timestamp_ms (tm_valid_until tm)\<rparr>)"

definition condition_of :: "env \<Rightarrow> evaluation_row \<Rightarrow> string \<Rightarrow> draft \<Rightarrow> condition_row" where
  "condition_of env e cid x =
     \<lparr>cnd_id = cid, cnd_evaluation = evl_id e, cnd_key = df_key x, cnd_kind = df_kind x,
      cnd_requirement = df_requirement x, cnd_subject_kind = df_subject_kind x,
      cnd_subject_id = df_subject_id x, cnd_subject_label = df_label x,
      cnd_status = condition_status_name (df_status x),
      cnd_candidate = condition_status_name (df_candidate x), cnd_reason = df_reason x,
      cnd_value = df_value x, cnd_unit = df_unit x, cnd_window = df_window x,
      cnd_streak = int (df_streak x), cnd_streak_required = int (df_streak_required x),
      cnd_evidence = df_evidence x,
      cnd_input_sha = digest_text env (evl_input_sha e @ '':'' @ df_key x @ '':''
        @ condition_status_name (df_candidate x) @ '':'' @ json_of_strings env (df_evidence x)),
      cnd_created_at = evl_evaluated_at e\<rparr>"

fun insert_conditions :: "condition_row list \<Rightarrow> db \<Rightarrow> db stmt" where
  "insert_conditions [] d = Inr d"
| "insert_conditions (c # cs) d = and_then (insert_condition c d) (insert_conditions cs)"

text \<open>
  \<open>evaluate_run_tx\<close>: \<open>eid\<close> is the fresh identifier of the receipt, \<open>cids i\<close> that of its \<open>i\<close>th condition.
\<close>

definition evaluate_run_tx ::
  "env \<Rightarrow> string \<Rightarrow> string \<Rightarrow> evaluation_timing \<Rightarrow> string \<Rightarrow> (nat \<Rightarrow> string) \<Rightarrow> db \<Rightarrow> db stmt" where
  "evaluate_run_tx env run host timing eid cids d =
     (if \<exists>e \<in> set (evaluations d). evl_run e = run then Inr d
      else case select_one (\<lambda>r. run_id r = run \<and> run_host r = host) (runs d) of
             None \<Rightarrow> Inl RowNotFound
           | Some r \<Rightarrow>
               (let tm = effective_timing r timing;
                    e = evaluation_of env r tm eid d;
                    drafts = evaluation_drafts env r tm d
                in and_then (insert_evaluation e d)
                     (insert_conditions
                        (map (\<lambda>i. condition_of env e (cids i) (drafts ! i)) [0..<length drafts]))))"

subsection \<open>Reading the current health\<close>

record coverage =
  cov_required_total :: nat
  cov_required_ok :: nat
  cov_required_warning :: nat
  cov_required_critical :: nat
  cov_required_unknown :: nat
  cov_optional_total :: nat
  cov_optional_ok :: nat
  cov_optional_warning :: nat
  cov_optional_critical :: nat
  cov_optional_unknown :: nat

definition empty_coverage :: coverage where
  "empty_coverage = \<lparr>cov_required_total = 0, cov_required_ok = 0, cov_required_warning = 0,
     cov_required_critical = 0, cov_required_unknown = 0, cov_optional_total = 0, cov_optional_ok = 0,
     cov_optional_warning = 0, cov_optional_critical = 0, cov_optional_unknown = 0\<rparr>"

fun increment_condition_coverage :: "requirement \<Rightarrow> condition_status \<Rightarrow> coverage \<Rightarrow> coverage" where
  "increment_condition_coverage Required status c0 =
     (let c = c0\<lparr>cov_required_total := sat_add32 (cov_required_total c0) 1\<rparr> in
      case status of
        Ok \<Rightarrow> c\<lparr>cov_required_ok := sat_add32 (cov_required_ok c) 1\<rparr>
      | Warning \<Rightarrow> c\<lparr>cov_required_warning := sat_add32 (cov_required_warning c) 1\<rparr>
      | Critical \<Rightarrow> c\<lparr>cov_required_critical := sat_add32 (cov_required_critical c) 1\<rparr>
      | _ \<Rightarrow> c\<lparr>cov_required_unknown := sat_add32 (cov_required_unknown c) 1\<rparr>)"
| "increment_condition_coverage Optional status c0 =
     (let c = c0\<lparr>cov_optional_total := sat_add32 (cov_optional_total c0) 1\<rparr> in
      case status of
        Ok \<Rightarrow> c\<lparr>cov_optional_ok := sat_add32 (cov_optional_ok c) 1\<rparr>
      | Warning \<Rightarrow> c\<lparr>cov_optional_warning := sat_add32 (cov_optional_warning c) 1\<rparr>
      | Critical \<Rightarrow> c\<lparr>cov_optional_critical := sat_add32 (cov_optional_critical c) 1\<rparr>
      | _ \<Rightarrow> c\<lparr>cov_optional_unknown := sat_add32 (cov_optional_unknown c) 1\<rparr>)"

record host_condition =
  hc_key :: string
  hc_kind :: string
  hc_requirement :: requirement
  hc_status :: condition_status
  hc_candidate :: condition_status
  hc_reason :: string
  hc_value :: "f64 option"
  hc_window :: "f64 option"
  hc_streak :: nat
  hc_streak_required :: nat
  hc_evidence :: "string list"

record current_health_data =
  ch_host :: string
  ch_health :: host_status
  ch_reason :: string
  ch_freshness :: monitor_freshness
  ch_observation :: observation_state
  ch_evaluation :: "string option"
  ch_run :: "string option"
  ch_trigger :: "run_trigger option"
  ch_policy :: "string option"
  ch_policy_revision :: "int option"
  ch_evaluated_at :: millis
  ch_observed_at :: "millis option"
  ch_valid_until :: "millis option"
  ch_coverage :: coverage
  ch_conditions :: "host_condition list"

definition synthetic_health :: "string \<Rightarrow> policy_row option \<Rightarrow> instant \<Rightarrow> string \<Rightarrow> current_health_data" where
  "synthetic_health host policy now reason =
     \<lparr>ch_host = host, ch_health = HealthUnknown, ch_reason = reason, ch_freshness = FreshnessUnknown,
      ch_observation = ObsNone, ch_evaluation = None, ch_run = None, ch_trigger = None,
      ch_policy = map_option pol_id policy, ch_policy_revision = map_option pol_revision policy,
      ch_evaluated_at = timestamp_ms now, ch_observed_at = None, ch_valid_until = None,
      ch_coverage = empty_coverage, ch_conditions = []\<rparr>"

definition latest_evaluation :: "string \<Rightarrow> string \<Rightarrow> db \<Rightarrow> (evaluation_row \<times> run_row) option" where
  "latest_evaluation host version d =
     (case rev (sort_key (\<lambda>p. evl_evaluated_at (fst p)) (sort_key (\<lambda>p. evl_id (fst p))
        [(e, r). e \<leftarrow> evaluations d, r \<leftarrow> runs d,
          run_id r = evl_run e \<and> evl_host e = host \<and> evl_policy_version e = Some version])) of
        [] \<Rightarrow> None
      | p # _ \<Rightarrow> Some p)"

definition terminal_failure :: "run_state \<Rightarrow> bool" where
  "terminal_failure s = (s = Failed \<or> s = TimedOut \<or> s = SkippedOverlap \<or> s = Interrupted)"

definition view_condition :: "bool \<Rightarrow> bool \<Rightarrow> condition_row \<Rightarrow> host_condition" where
  "view_condition stale failed c =
     \<lparr>hc_key = cnd_key c, hc_kind = cnd_kind c, hc_requirement = cnd_requirement c,
      hc_status = (if stale then Stale else if failed then Unknown
                   else parse_condition_status (cnd_status c)),
      hc_candidate = parse_condition_status (cnd_candidate c),
      hc_reason = (if stale then ''stale'' else if failed then ''terminal_run_unknown'' else cnd_reason c),
      hc_value = cnd_value c, hc_window = cnd_window c,
      hc_streak = non_negative_u32 (cnd_streak c),
      hc_streak_required = non_negative_u32 (cnd_streak_required c), hc_evidence = cnd_evidence c\<rparr>"

definition current_health ::
  "string \<Rightarrow> policy_row option \<Rightarrow> instant \<Rightarrow> db \<Rightarrow> current_health_data" where
  "current_health host policy now d =
     (case policy of
        None \<Rightarrow> synthetic_health host policy now ''not_configured''
      | Some p \<Rightarrow>
          (if \<not> pol_enabled p then synthetic_health host policy now ''policy_disabled''
           else case latest_evaluation host (pol_version_id p) d of
                  None \<Rightarrow> synthetic_health host policy now ''awaiting_policy_evaluation''
                | Some (e, r) \<Rightarrow>
                    (let stale = (case evl_valid_until e of None \<Rightarrow> False
                                  | Some v \<Rightarrow> v \<le> timestamp_ms now);
                         failed = terminal_failure (run_status r);
                         rows = sort_key cnd_key (filter (\<lambda>c. cnd_evaluation c = evl_id e) (conditions d));
                         view = map (view_condition stale failed) rows
                     in \<lparr>ch_host = host,
                         ch_health = (if stale \<or> evl_observation e = ObsNone \<or> failed
                                      then HealthUnknown else evl_status e),
                         ch_reason = (if stale then ''stale''
                                      else if failed then ''terminal_run_unknown'' else evl_reason e),
                         ch_freshness = (if stale then MonStale
                                         else if evl_observation e = ObsNone \<or> failed
                                         then FreshnessUnknown else MonFresh),
                         ch_observation = evl_observation e, ch_evaluation = Some (evl_id e),
                         ch_run = Some (run_id r), ch_trigger = Some (run_trigger_kind r),
                         ch_policy = evl_policy e, ch_policy_revision = evl_policy_revision e,
                         ch_evaluated_at = evl_evaluated_at e, ch_observed_at = evl_observed_at e,
                         ch_valid_until = evl_valid_until e,
                         ch_coverage = fold (\<lambda>x. increment_condition_coverage (hc_requirement x)
                                                    (hc_status x)) view empty_coverage,
                         ch_conditions = view\<rparr>)))"

subsection \<open>Streaks\<close>

lemma count_history_takeWhile:
  assumes "n + length hs \<le> u32_max"
  shows "count_history p hs n
           = n + length (takeWhile (\<lambda>h. \<not> is_unknown (prev_candidate h) \<and> p h) hs)"
  using assms by (induction hs arbitrary: n) (simp_all add: sat_add32_id)

definition critical_run :: "previous_condition list \<Rightarrow> nat" where
  "critical_run hs = length (takeWhile (\<lambda>h. prev_candidate h = Critical) hs)"

definition alert_run :: "previous_condition list \<Rightarrow> nat" where
  "alert_run hs = length (takeWhile (\<lambda>h. prev_candidate h = Critical \<or> prev_candidate h = Warning) hs)"

definition recovered_run :: "(f64 option \<Rightarrow> bool) \<Rightarrow> previous_condition list \<Rightarrow> nat" where
  "recovered_run p hs =
     length (takeWhile (\<lambda>h. \<not> is_unknown (prev_candidate h) \<and> p (prev_value h)) hs)"

lemma count_critical:
  assumes "1 + length hs \<le> u32_max"
  shows "count_consecutive c hs (\<lambda>s. s = Critical) = (if c = Critical then 1 + critical_run hs else 0)"
proof -
  have "takeWhile (\<lambda>h. \<not> is_unknown (prev_candidate h) \<and> prev_candidate h = Critical) hs
      = takeWhile (\<lambda>h. prev_candidate h = Critical) hs" by (rule takeWhile_cong) auto
  then show ?thesis using assms
    by (simp add: count_consecutive_def count_history_takeWhile critical_run_def)
qed

lemma severity_alert: "Suc 0 \<le> severity s \<longleftrightarrow> s = Critical \<or> s = Warning"
  by (cases s) simp_all

lemma count_alert:
  assumes "1 + length hs \<le> u32_max"
  shows "count_consecutive c hs (\<lambda>s. Suc 0 \<le> severity s)
           = (if c = Critical \<or> c = Warning then 1 + alert_run hs else 0)"
proof -
  have "takeWhile (\<lambda>h. \<not> is_unknown (prev_candidate h)
          \<and> (prev_candidate h = Critical \<or> prev_candidate h = Warning)) hs
      = takeWhile (\<lambda>h. prev_candidate h = Critical \<or> prev_candidate h = Warning) hs"
    by (rule takeWhile_cong) auto
  then show ?thesis using assms
    by (simp add: count_consecutive_def count_history_takeWhile alert_run_def severity_alert)
qed

lemma count_recovery_run:
  assumes "1 + length hs \<le> u32_max"
  shows "count_recovery b hs p = (if b then 1 + recovered_run p hs else 0)"
  using assms by (simp add: count_recovery_def count_history_takeWhile recovered_run_def)

lemmas debounce_simps = debounced_status_def Let_def count_critical count_alert count_recovery_run

definition was_active :: "previous_condition list \<Rightarrow> bool" where
  "was_active hs = (case hs of [] \<Rightarrow> False | h # _ \<Rightarrow> prev_status h = Critical \<or> prev_status h = Warning)"

definition was_critical :: "previous_condition list \<Rightarrow> bool" where
  "was_critical hs = (case hs of [] \<Rightarrow> False | h # _ \<Rightarrow> prev_status h = Critical)"

text \<open>
  C26. The status of a condition, exactly. Between slots that all ran, an alert starts only after \<open>enter\<close>
  consecutive bad samples, counting this one, and an active one ends only when this sample and the ones before it
  make \<open>recover\<close> recovered samples in a row; a critical alert is not softened to a warning before that. A sample
  after missed slots starts afresh: it is ok at once if it is not bad, also when an alert was active, and unknown
  otherwise, never an alert. A missing sample is unknown, and an alert before it is forgotten.
\<close>

theorem debounced_hysteresis:
  assumes "1 + length hs \<le> u32_max"
    and "debounced_status candidate now hs enter recover p missed = (status, streak, reason)"
  defines "recovered \<equiv> now \<and> recover \<le> 1 + recovered_run p hs"
    and "turns_critical \<equiv> candidate = Critical \<and> enter \<le> 1 + critical_run hs"
    and "turns_bad \<equiv> candidate \<in> {Warning, Critical} \<and> enter \<le> 1 + alert_run hs"
  shows "(status = Critical \<longleftrightarrow> \<not> is_unknown candidate \<and> \<not> missed
            \<and> (if was_active hs then \<not> recovered \<and> (was_critical hs \<or> turns_critical \<and> \<not> now) else turns_critical))
       \<and> (status = Warning \<longleftrightarrow> \<not> is_unknown candidate \<and> \<not> missed
            \<and> (if was_active hs then \<not> recovered \<and> \<not> was_critical hs \<and> (now \<or> \<not> turns_critical)
               else turns_bad \<and> \<not> turns_critical))
       \<and> (status = Ok \<longleftrightarrow> (if \<not> missed \<and> was_active hs then \<not> is_unknown candidate \<and> recovered else candidate = Ok))
       \<and> status \<noteq> Stale"
proof -
  have s: "status = fst (debounced_status candidate now hs enter recover p missed)"
    using assms(2) by simp
  show ?thesis
    unfolding s recovered_def turns_critical_def turns_bad_def
    using assms(1)
    by (cases candidate; cases hs)
      (auto simp: debounce_simps was_critical_def was_active_def split: if_splits)
qed

definition sample_history :: "previous_condition list" where
  "sample_history = [\<lparr>prev_status = Unknown, prev_candidate = Critical, prev_value = Some (Fin 5)\<rparr>]"

theorem debounced_hysteresis_witness:
  "debounced_status Critical False sample_history 2 3 (\<lambda>_. False) False
     = (Critical, 2, ''threshold_critical'')
   \<and> \<not> was_active sample_history \<and> (2 :: nat) \<le> 1 + critical_run sample_history"
proof -
  have e: "debounced_status Critical False sample_history 2 3 (\<lambda>_. False) False
      = (Critical, 2, ''threshold_critical'')"
    by (simp add: debounce_simps sample_history_def u32_max_def critical_run_def)
  have "\<not> was_active sample_history" by (simp add: sample_history_def was_active_def)
  then show ?thesis
    using debounced_hysteresis [OF _ e] e by (simp add: sample_history_def u32_max_def)
qed

text \<open>
  The history test of a filesystem rule looks only at the used ratio. When a filesystem was critical
  because its free bytes were below the absolute limit while its ratio was always low, every one of those
  critical samples counts as recovered, so the first sample above the limit ends the alert at once, however
  many consecutive recovered samples the policy asks for.
\<close>

theorem filesystem_recovery_ignores_bytes:
  assumes "fs_candidate v (Some a) r = (Ok, True)" and "hs \<noteq> []" and "length hs \<le> 20"
    and "\<forall>h \<in> set hs. prev_status h = Critical \<and> prev_candidate h = Critical
            \<and> (\<exists>y. prev_value h = Some y \<and> f_lt y (fs_recovery r))"
    and "fs_recover_count r \<le> 1 + length hs"
  shows "debounced_status Ok True hs (fs_enter_count r) (fs_recover_count r)
           (\<lambda>x. case x of None \<Rightarrow> False | Some y \<Rightarrow> f_lt y (fs_recovery r)) False
         = (Ok, 1 + length hs, ''recovered'')"
proof -
  let ?p = "\<lambda>x. case x of None \<Rightarrow> False | Some y \<Rightarrow> f_lt y (fs_recovery r)"
  have "takeWhile (\<lambda>h. \<not> is_unknown (prev_candidate h) \<and> ?p (prev_value h)) hs = hs"
    using assms(4) by (intro takeWhile_eq_all_conv [THEN iffD2]) auto
  then have "recovered_run ?p hs = length hs" by (simp only: recovered_run_def)
  moreover have "1 + length hs \<le> u32_max" using assms(3) by (simp add: u32_max_def)
  ultimately show ?thesis
    using assms(2,4,5) by (cases hs) (auto simp: debounce_simps)
qed

definition sample_fs_rule :: fs_rule where
  "sample_fs_rule = \<lparr>fs_mount = ''/'', fs_requirement = Required, fs_warning = Fin (8/10),
     fs_critical = Fin (9/10), fs_recovery = Fin (7/10), fs_critical_available = Some 1000,
     fs_enter_count = 1, fs_recover_count = 3\<rparr>"

definition low_bytes_history :: "previous_condition list" where
  "low_bytes_history =
     replicate 2 \<lparr>prev_status = Critical, prev_candidate = Critical, prev_value = Some (Fin (1/2))\<rparr>"

theorem filesystem_recovery_ignores_bytes_witness:
  "fst (debounced_status Ok True low_bytes_history (fs_enter_count sample_fs_rule)
     (fs_recover_count sample_fs_rule)
     (\<lambda>x. case x of None \<Rightarrow> False | Some y \<Rightarrow> f_lt y (fs_recovery sample_fs_rule)) False) = Ok"
proof -
  have "fs_candidate (Fin (1/2)) (Some (Fin 2000)) sample_fs_rule = (Ok, True)"
    by (simp add: fs_candidate_def sample_fs_rule_def f_of_nat_exact)
  then have "debounced_status Ok True low_bytes_history (fs_enter_count sample_fs_rule)
     (fs_recover_count sample_fs_rule)
     (\<lambda>x. case x of None \<Rightarrow> False | Some y \<Rightarrow> f_lt y (fs_recovery sample_fs_rule)) False
     = (Ok, 1 + length low_bytes_history, ''recovered'')"
    by (rule filesystem_recovery_ignores_bytes)
      (simp_all add: low_bytes_history_def sample_fs_rule_def)
  then show ?thesis by simp
qed

subsection \<open>What an evaluation writes\<close>

lemma insert_conditions_Inr:
  "insert_conditions cs d = Inr d' \<Longrightarrow> d' = d\<lparr>conditions := conditions d @ cs\<rparr>"
proof (induction cs arbitrary: d)
  case Nil
  then show ?case by simp
next
  case (Cons c cs)
  then obtain d1 where "insert_condition c d = Inr d1" "insert_conditions cs d1 = Inr d'" by auto
  with Cons.IH [of d1] insert_condition_Inr [of c d d1] show ?case by simp
qed

definition condition_rows :: "env \<Rightarrow> evaluation_row \<Rightarrow> (nat \<Rightarrow> string) \<Rightarrow> draft list \<Rightarrow> condition_row list" where
  "condition_rows env e cids drafts =
     map (\<lambda>i. condition_of env e (cids i) (drafts ! i)) [0..<length drafts]"

lemma evaluate_run_tx_Inr:
  assumes "evaluate_run_tx env run host timing eid cids d = Inr d'"
    and "\<forall>e \<in> set (evaluations d). evl_run e \<noteq> run"
  obtains r tm where "select_one (\<lambda>r. run_id r = run \<and> run_host r = host) (runs d) = Some r"
    and "run_id r = run" and "run_host r = host" and "tm = effective_timing r timing"
    and "d' = d\<lparr>evaluations := evaluations d @ [evaluation_of env r tm eid d],
                conditions := conditions d @ condition_rows env (evaluation_of env r tm eid d) cids
                                (evaluation_drafts env r tm d)\<rparr>"
proof -
  obtain r where r: "select_one (\<lambda>r. run_id r = run \<and> run_host r = host) (runs d) = Some r"
    using assms by (cases "select_one (\<lambda>r. run_id r = run \<and> run_host r = host) (runs d)")
      (auto simp: evaluate_run_tx_def)
  let ?tm = "effective_timing r timing"
  let ?e = "evaluation_of env r ?tm eid d"
  have "\<exists>d1. insert_evaluation ?e d = Inr d1
      \<and> insert_conditions (condition_rows env ?e cids (evaluation_drafts env r ?tm d)) d1 = Inr d'"
    using assms r by (auto simp: evaluate_run_tx_def Let_def condition_rows_def)
  then obtain d1 where d1: "insert_evaluation ?e d = Inr d1"
    "insert_conditions (condition_rows env ?e cids (evaluation_drafts env r ?tm d)) d1 = Inr d'"
    by blast
  have "d1 = d\<lparr>evaluations := evaluations d @ [?e]\<rparr>" using insert_evaluation_Inr [OF d1(1)] by simp
  moreover note insert_conditions_Inr [OF d1(2)]
  ultimately show thesis using that [OF r _ _ refl] select_one_Some [OF r] by simp
qed

lemma length_condition_rows [simp]: "length (condition_rows env e cids drafts) = length drafts"
  by (simp add: condition_rows_def)

lemma count_condition_rows:
  assumes "\<And>cid x. P (condition_of env e cid x) \<longleftrightarrow> Q x"
  shows "length (filter P (condition_rows env e cids drafts)) = length (filter Q drafts)"
proof -
  have "length (filter P (condition_rows env e cids drafts))
      = length (filter (\<lambda>i. Q (drafts ! i)) [0..<length drafts])"
    unfolding condition_rows_def filter_map length_map using assms by (simp add: comp_def)
  also have "\<dots> = length (filter Q (map (nth drafts) [0..<length drafts]))"
    by (simp add: filter_map comp_def)
  finally show ?thesis by (simp add: map_nth)
qed

lemma in_condition_rows:
  "c \<in> set (condition_rows env e cids drafts) \<Longrightarrow>
     \<exists>x \<in> set drafts. \<exists>cid. c = condition_of env e cid x"
  by (auto simp: condition_rows_def)

lemma condition_status_name_iff:
  "condition_status_name s = ''ok'' \<longleftrightarrow> s = Ok"
  "condition_status_name s = ''warning'' \<longleftrightarrow> s = Warning"
  "condition_status_name s = ''critical'' \<longleftrightarrow> s = Critical"
  "condition_status_name s = ''unknown'' \<longleftrightarrow> is_unknown s"
  by (cases s; simp)+

lemma evaluation_of_simps [simp]:
  "evl_id (evaluation_of env r tm eid d) = eid"
  "evl_run (evaluation_of env r tm eid d) = run_id r"
  "evl_host (evaluation_of env r tm eid d) = run_host r"
  "evl_observation (evaluation_of env r tm eid d) = tm_observation tm"
  "evl_status (evaluation_of env r tm eid d)
     = evaluation_status (policy_enabled (run_policy r d)) (evaluation_drafts env r tm d)"
  by (simp_all add: evaluation_of_def Let_def)

lemma status_partition:
  "length (filter (\<lambda>x. df_status x = Ok) xs) + length (filter (\<lambda>x. df_status x = Warning) xs)
     + length (filter (\<lambda>x. df_status x = Critical) xs) + length (filter (\<lambda>x. is_unknown (df_status x)) xs)
   = length xs"
proof (induction xs)
  case (Cons x xs)
  then show ?case by (cases "df_status x") simp_all
qed simp

lemma requirement_partition:
  "length (filter (\<lambda>x. df_requirement x = Required) xs)
     + length (filter (\<lambda>x. df_requirement x = Optional) xs) = length xs"
proof (induction xs)
  case (Cons x xs)
  then show ?case by (cases "df_requirement x") simp_all
qed simp

definition status_count :: "string \<Rightarrow> condition_row list \<Rightarrow> int" where
  "status_count s cs = int (length (filter (\<lambda>c. cnd_status c = s) cs))"

text \<open>
  Evaluating a run that has no receipt yet writes exactly one, together with one condition row per
  rule of the pinned policy, and nothing else; the counts of the receipt are the counts of those rows, and
  evaluating the run again changes nothing.
\<close>

theorem evaluate_writes_one_receipt:
  assumes "\<forall>e \<in> set (evaluations d). evl_run e \<noteq> run"
    and "evaluate_run_tx env run host timing eid cids d = Inr d'"
  shows "\<exists>e cs. d' = d\<lparr>evaluations := evaluations d @ [e], conditions := conditions d @ cs\<rparr>
      \<and> evl_run e = run \<and> evl_host e = host \<and> (\<forall>c \<in> set cs. cnd_evaluation c = evl_id e)
      \<and> evl_ok e = status_count ''ok'' cs \<and> evl_warning e = status_count ''warning'' cs
      \<and> evl_critical e = status_count ''critical'' cs \<and> evl_unknown e = status_count ''unknown'' cs
      \<and> evl_required e = int (length (filter (\<lambda>c. cnd_requirement c = Required) cs))
      \<and> evl_ok e + evl_warning e + evl_critical e + evl_unknown e = evl_required e + evl_optional e
      \<and> (\<forall>env' timing' eid' cids'. evaluate_run_tx env' run host timing' eid' cids' d' = Inr d')"
proof (rule evaluate_run_tx_Inr [OF assms(2,1)], goal_cases)
  case (1 r tm)
  let ?e = "evaluation_of env r tm eid d"
  let ?ds = "evaluation_drafts env r tm d"
  let ?cs = "condition_rows env ?e cids ?ds"
  have counts: "status_count ''ok'' ?cs = count_drafts (\<lambda>x. df_status x = Ok) ?ds"
    "status_count ''warning'' ?cs = count_drafts (\<lambda>x. df_status x = Warning) ?ds"
    "status_count ''critical'' ?cs = count_drafts (\<lambda>x. df_status x = Critical) ?ds"
    "status_count ''unknown'' ?cs = count_drafts (\<lambda>x. is_unknown (df_status x)) ?ds"
    "int (length (filter (\<lambda>c. cnd_requirement c = Required) ?cs))
       = count_drafts (\<lambda>x. df_requirement x = Required) ?ds"
    by (auto simp: status_count_def count_drafts_def condition_of_def condition_status_name_iff
        intro!: count_condition_rows)
  have sum: "count_drafts (\<lambda>x. df_status x = Ok) ?ds + count_drafts (\<lambda>x. df_status x = Warning) ?ds
      + count_drafts (\<lambda>x. df_status x = Critical) ?ds + count_drafts (\<lambda>x. is_unknown (df_status x)) ?ds
      = count_drafts (\<lambda>x. df_requirement x = Required) ?ds + count_drafts (\<lambda>x. df_requirement x = Optional) ?ds"
    unfolding count_drafts_def using status_partition [of ?ds] requirement_partition [of ?ds] by linarith
  have evl: "evl_ok ?e = count_drafts (\<lambda>x. df_status x = Ok) ?ds"
    "evl_warning ?e = count_drafts (\<lambda>x. df_status x = Warning) ?ds"
    "evl_critical ?e = count_drafts (\<lambda>x. df_status x = Critical) ?ds"
    "evl_unknown ?e = count_drafts (\<lambda>x. is_unknown (df_status x)) ?ds"
    "evl_required ?e = count_drafts (\<lambda>x. df_requirement x = Required) ?ds"
    "evl_optional ?e = count_drafts (\<lambda>x. df_requirement x = Optional) ?ds"
    by (simp_all add: evaluation_of_def Let_def)
  have ref: "\<forall>c \<in> set ?cs. cnd_evaluation c = evl_id ?e"
    by (auto dest!: in_condition_rows simp: condition_of_def)
  have again: "evaluate_run_tx env' run host timing' eid' cids' d' = Inr d'" for env' timing' eid' cids'
    using 1 by (simp add: evaluate_run_tx_def)
  show ?case
    by (rule exI [of _ ?e], rule exI [of _ ?cs])
      (use 1 counts sum evl ref again in simp)
qed

subsection \<open>Drafts and their evidence\<close>

text \<open>
  A draft is grounded when it has a known candidate and value only together with evidence from the
  samples it was given, and is unknown in every respect otherwise.
\<close>

definition grounded :: "sample_row list \<Rightarrow> draft \<Rightarrow> bool" where
  "grounded ss x =
     (if df_value x = None then df_status x = Unknown \<and> df_candidate x = Unknown \<and> df_streak x = 0
      else \<not> is_unknown (df_candidate x) \<and> df_evidence x \<noteq> [] \<and> set (df_evidence x) \<subseteq> set (map smp_id ss))"

definition window_ok :: "sample_row list \<Rightarrow> draft \<Rightarrow> bool" where
  "window_ok ss x = (case df_window x of None \<Rightarrow> True | Some w \<Rightarrow> \<exists>s \<in> set ss. smp_window s = Some w)"

lemma find_sample_Some: "find_sample ss f k i m = Some s \<Longrightarrow> s \<in> set ss"
  by (auto simp: find_sample_def find_Some_iff)

lemma find_sample_Nil [simp]: "find_sample [] f k i m = None"
  by (simp add: find_sample_def)

lemma observed_sample_value: "observed_sample s \<Longrightarrow> \<exists>q. smp_value s = Some (Fin q)"
  by (auto simp: observed_sample_def quality_is_observed_def f_is_finite_iff split: option.splits)

lemma candidate_known:
  "\<not> is_unknown (fst (high_candidate v h))" "\<not> is_unknown (fst (cpu_candidate v c))"
  "\<not> is_unknown (fst (low_candidate v l))" "\<not> is_unknown (fst (fs_candidate v a f))"
  by (simp_all add: high_candidate_def cpu_candidate_def low_candidate_def fs_candidate_def Let_def)

lemma unknown_draft_simps [simp]:
  "df_key (unknown_draft k kd rq sk si l rs u n) = k"
  "df_requirement (unknown_draft k kd rq sk si l rs u n) = rq"
  "df_subject_kind (unknown_draft k kd rq sk si l rs u n) = sk"
  "df_value (unknown_draft k kd rq sk si l rs u n) = None"
  "df_status (unknown_draft k kd rq sk si l rs u n) = Unknown"
  "df_candidate (unknown_draft k kd rq sk si l rs u n) = Unknown"
  "df_window (unknown_draft k kd rq sk si l rs u n) = None"
  "df_streak (unknown_draft k kd rq sk si l rs u n) = 0"
  "df_streak_required (unknown_draft k kd rq sk si l rs u n) = n"
  "df_evidence (unknown_draft k kd rq sk si l rs u n) = []"
  by (simp_all add: unknown_draft_def)

lemma decided_draft_simps [simp]:
  "df_key (decided_draft b c hs en rc p m v w ev) = df_key b"
  "df_requirement (decided_draft b c hs en rc p m v w ev) = df_requirement b"
  "df_subject_kind (decided_draft b c hs en rc p m v w ev) = df_subject_kind b"
  "df_value (decided_draft b c hs en rc p m v w ev) = Some v"
  "df_candidate (decided_draft b c hs en rc p m v w ev) = fst c"
  "df_window (decided_draft b c hs en rc p m v w ev) = w"
  "df_evidence (decided_draft b c hs en rc p m v w ev) = ev"
  "df_streak_required (decided_draft b c hs en rc p m v w ev)
     = (if df_status (decided_draft b c hs en rc p m v w ev) = Ok then rc else en)"
  by (simp_all add: decided_draft_def Let_def split: prod.splits)

lemmas draft_simps = grounded_def window_ok_def Let_def candidate_known

lemma cpu_draft_facts:
  "df_key (cpu_draft cx d r) = ''cpu_busy'' \<and> df_requirement (cpu_draft cx d r) = cpu_requirement r
   \<and> df_subject_kind (cpu_draft cx d r) = ''host''
   \<and> df_streak_required (cpu_draft cx d r) \<in> {cpu_enter_count r, cpu_recover_count r}
   \<and> grounded (ctx_samples cx) (cpu_draft cx d r) \<and> window_ok (ctx_samples cx) (cpu_draft cx d r)"
proof (cases "find_sample (ctx_samples cx) ''cpu'' ''host'' (ctx_host cx) ''busy_pct''")
  case None
  then show ?thesis by (simp add: cpu_draft_def draft_simps)
next
  case (Some s)
  have "s \<in> set (ctx_samples cx)" by (rule find_sample_Some [OF Some])
  then show ?thesis by (auto simp: Some cpu_draft_def draft_simps split: option.splits)
qed

lemma memory_draft_facts:
  "df_key (memory_draft cx d r) = ''memory_available_ratio''
   \<and> df_requirement (memory_draft cx d r) = low_requirement r
   \<and> df_subject_kind (memory_draft cx d r) = ''host''
   \<and> df_streak_required (memory_draft cx d r) \<in> {low_enter_count r, low_recover_count r}
   \<and> grounded (ctx_samples cx) (memory_draft cx d r) \<and> window_ok (ctx_samples cx) (memory_draft cx d r)"
  by (auto simp: memory_draft_def draft_simps dest: find_sample_Some split: option.splits)

lemma load_draft_facts:
  "df_key (load_draft cx d r) = ''normalized_load5'' \<and> df_requirement (load_draft cx d r) = high_requirement r
   \<and> df_subject_kind (load_draft cx d r) = ''host''
   \<and> df_streak_required (load_draft cx d r) \<in> {high_enter_count r, high_recover_count r}
   \<and> grounded (ctx_samples cx) (load_draft cx d r) \<and> window_ok (ctx_samples cx) (load_draft cx d r)"
  by (auto simp: load_draft_def draft_simps dest: find_sample_Some split: option.splits)

lemma filesystem_draft_facts:
  "df_key (filesystem_draft env cx d r) = fs_key env r
   \<and> df_requirement (filesystem_draft env cx d r) = fs_requirement r
   \<and> df_subject_kind (filesystem_draft env cx d r) = ''filesystem''
   \<and> df_streak_required (filesystem_draft env cx d r) \<in> {fs_enter_count r, fs_recover_count r}
   \<and> grounded (ctx_samples cx) (filesystem_draft env cx d r)
   \<and> window_ok (ctx_samples cx) (filesystem_draft env cx d r)"
  by (auto simp: filesystem_draft_def draft_simps fs_key_def dest: find_sample_Some
      split: option.splits)

definition rule_requirements :: "policy_request \<Rightarrow> requirement list" where
  "rule_requirements q =
     map cpu_requirement (option_list (pr_cpu_busy q)) @ map low_requirement (option_list (pr_memory q))
     @ map high_requirement (option_list (pr_load5 q)) @ map fs_requirement (pr_filesystems q)"

definition rule_keys :: "env \<Rightarrow> policy_request \<Rightarrow> string list" where
  "rule_keys env q =
     map (\<lambda>_. ''cpu_busy'') (option_list (pr_cpu_busy q))
     @ map (\<lambda>_. ''memory_available_ratio'') (option_list (pr_memory q))
     @ map (\<lambda>_. ''normalized_load5'') (option_list (pr_load5 q)) @ map (fs_key env) (pr_filesystems q)"

lemma build_condition_drafts_grounded:
  "x \<in> set (build_condition_drafts env cx d q) \<Longrightarrow>
     grounded (ctx_samples cx) x \<and> window_ok (ctx_samples cx) x"
  by (auto simp: build_condition_drafts_def cpu_draft_facts memory_draft_facts load_draft_facts
      filesystem_draft_facts)

lemma build_condition_drafts_shape:
  "map df_requirement (build_condition_drafts env cx d q) = rule_requirements q"
  "map df_key (build_condition_drafts env cx d q) = rule_keys env q"
  by (simp_all add: build_condition_drafts_def rule_requirements_def rule_keys_def cpu_draft_facts
      memory_draft_facts load_draft_facts filesystem_draft_facts comp_def)

lemma build_disabled_drafts_shape:
  "map df_requirement (build_disabled_drafts env h q) = rule_requirements q"
  "map df_key (build_disabled_drafts env h q) = rule_keys env q"
  "x \<in> set (build_disabled_drafts env h q) \<Longrightarrow> grounded [] x \<and> window_ok [] x"
  by (auto simp: build_disabled_drafts_def rule_requirements_def rule_keys_def comp_def draft_simps)

lemma has_required_requirements: "has_required q \<longleftrightarrow> Required \<in> set (rule_requirements q)"
  by (auto simp: has_required_def rule_requirements_def option_list_def image_iff
      eq_commute [of Required] split: option.splits)

lemma evaluation_drafts_grounded:
  "x \<in> set (evaluation_drafts env r tm d) \<Longrightarrow>
     grounded (evaluation_samples r d) x \<and> window_ok (evaluation_samples r d) x"
  using build_condition_drafts_grounded [of x env] build_disabled_drafts_shape(3) [of x env]
  by (fastforce simp: evaluation_drafts_def grounded_def window_ok_def split: option.splits if_splits)

lemma grounded_Nil: "grounded [] x \<Longrightarrow> df_status x = Unknown \<and> df_candidate x = Unknown"
  by (auto simp: grounded_def split: if_splits)

subsection \<open>An evaluation meets every constraint\<close>

text \<open>What the caller of \<open>evaluate_run_tx\<close> has to provide for its rows to be accepted.\<close>

definition timing_ok :: "evaluation_timing \<Rightarrow> bool" where
  "timing_ok tm =
     (0 \<le> tm_evaluated_at tm
      \<and> (case (tm_observed_at tm, tm_valid_until tm) of
            (None, None) \<Rightarrow> tm_observation tm = ObsNone
          | (Some a, Some b) \<Rightarrow> tm_observation tm \<noteq> ObsNone \<and> 0 \<le> a \<and> a \<le> b
          | _ \<Rightarrow> False))"

definition policy_keys_ok :: "env \<Rightarrow> policy_request \<Rightarrow> bool" where
  "policy_keys_ok env q =
     (inj_on (sha256 env) (set (map fs_mount (pr_filesystems q)))
      \<and> (\<forall>m \<in> set (map fs_mount (pr_filesystems q)).
            length (sha256 env m) = 32 \<and> (\<forall>b \<in> set (sha256 env m). b < 256)))"

lemma effective_timing_ok: "timing_ok tm \<Longrightarrow> timing_ok (effective_timing r tm)"
  by (auto simp: timing_ok_def effective_timing_def)

lemma timestamp_ms_nonneg: "0 \<le> t \<Longrightarrow> 0 \<le> timestamp_ms t"
  by (simp add: timestamp_ms_def ns_per_ms_def pos_imp_zdiv_nonneg_iff)

lemma timestamp_ms_mono: "s \<le> t \<Longrightarrow> timestamp_ms s \<le> timestamp_ms t"
  by (simp add: timestamp_ms_def ns_per_ms_def zdiv_mono1)

lemma evaluation_checks_of:
  assumes "timing_ok tm" and "\<forall>p. run_policy r d = Some p \<longrightarrow> 1 \<le> pol_revision p"
  shows "evaluation_checks (evaluation_of env r tm eid d)"
proof -
  let ?ds = "evaluation_drafts env r tm d"
  have sum: "count_drafts (\<lambda>x. df_status x = Ok) ?ds + count_drafts (\<lambda>x. df_status x = Warning) ?ds
      + count_drafts (\<lambda>x. df_status x = Critical) ?ds + count_drafts (\<lambda>x. is_unknown (df_status x)) ?ds
      = count_drafts (\<lambda>x. df_requirement x = Required) ?ds + count_drafts (\<lambda>x. df_requirement x = Optional) ?ds"
    unfolding count_drafts_def using status_partition [of ?ds] requirement_partition [of ?ds] by linarith
  have nn: "0 \<le> count_drafts P ?ds" for P by (simp add: count_drafts_def)
  have reason: "evaluation_reason p s \<noteq> []" for p s by (simp add: evaluation_reason_def)
  show ?thesis
    using assms sum nn reason
    by (cases "tm_observed_at tm"; cases "tm_valid_until tm"; cases "run_policy r d")
      (auto simp: evaluation_checks_def evaluation_of_def Let_def timing_ok_def
        intro: timestamp_ms_nonneg timestamp_ms_mono)
qed

lemma length_fs_key:
  "length (fs_key env r) = 22 + 2 * length (sha256 env (fs_mount r))"
  by (simp add: fs_key_def stable_subject_id_def length_hex_digest)

lemma rule_keys_ok:
  assumes "policy_valid q" and "policy_keys_ok env q"
  shows "distinct (rule_keys env q)" and "k \<in> set (rule_keys env q) \<Longrightarrow> k \<noteq> [] \<and> length k \<le> 128"
proof -
  have mounts: "distinct (map fs_mount (pr_filesystems q))"
    using assms(1) by (simp add: policy_valid_def strict_sorted_iff)
  have "inj_on (fs_key env) (set (pr_filesystems q))"
  proof (rule inj_onI)
    fix a b assume ab: "a \<in> set (pr_filesystems q)" "b \<in> set (pr_filesystems q)" "fs_key env a = fs_key env b"
    then have "hex_digest (sha256 env (fs_mount a)) = hex_digest (sha256 env (fs_mount b))"
      by (simp add: fs_key_def stable_subject_id_def)
    then have "sha256 env (fs_mount a) = sha256 env (fs_mount b)"
      using ab assms(2) by (intro hex_digest_inj) (auto simp: policy_keys_ok_def)
    then have "fs_mount a = fs_mount b" using ab assms(2) by (auto simp: policy_keys_ok_def inj_on_def)
    then show "a = b" using ab mounts by (auto simp: distinct_map inj_on_def)
  qed
  then have "distinct (map (fs_key env) (pr_filesystems q))"
    using mounts by (simp add: distinct_map)
  then show "distinct (rule_keys env q)"
    by (auto simp: rule_keys_def option_list_def fs_key_def stable_subject_id_def split: option.splits)
  show "k \<noteq> [] \<and> length k \<le> 128" if "k \<in> set (rule_keys env q)"
    using that assms(2)
    by (auto simp: rule_keys_def option_list_def policy_keys_ok_def length_fs_key split: option.splits)
      (auto simp: fs_key_def)
qed

lemma condition_drafts_rows_ok:
  assumes "policy_valid q"
  shows "x \<in> set (build_condition_drafts env cx d q) \<Longrightarrow>
           1 \<le> df_streak_required x \<and> df_subject_kind x \<in> {''host'', ''filesystem''}"
    and "x \<in> set (build_disabled_drafts env h q) \<Longrightarrow>
           1 \<le> df_streak_required x \<and> df_subject_kind x \<in> {''host'', ''filesystem''}"
proof -
  have counts: "pr_cpu_busy q = Some c \<Longrightarrow> 1 \<le> cpu_enter_count c \<and> 1 \<le> cpu_recover_count c"
    "pr_memory q = Some l \<Longrightarrow> 1 \<le> low_enter_count l \<and> 1 \<le> low_recover_count l"
    "pr_load5 q = Some h \<Longrightarrow> 1 \<le> high_enter_count h \<and> 1 \<le> high_recover_count h"
    "f \<in> set (pr_filesystems q) \<Longrightarrow> 1 \<le> fs_enter_count f \<and> 1 \<le> fs_recover_count f" for c l h f
    using assms by (auto simp: policy_valid_def cpu_ok_def memory_ok_def load_ok_def fs_ok_def high_ok_def
        low_ok_def list_all_iff)
  show "x \<in> set (build_disabled_drafts env h q) \<Longrightarrow>
           1 \<le> df_streak_required x \<and> df_subject_kind x \<in> {''host'', ''filesystem''}"
    using counts by (auto simp: build_disabled_drafts_def option_list_def split: option.splits)
  assume "x \<in> set (build_condition_drafts env cx d q)"
  then consider (cpu) r where "pr_cpu_busy q = Some r" "x = cpu_draft cx d r"
    | (memory) r where "pr_memory q = Some r" "x = memory_draft cx d r"
    | (load) r where "pr_load5 q = Some r" "x = load_draft cx d r"
    | (fs) r where "r \<in> set (pr_filesystems q)" "x = filesystem_draft env cx d r"
    by (auto simp: build_condition_drafts_def)
  then show "1 \<le> df_streak_required x \<and> df_subject_kind x \<in> {''host'', ''filesystem''}"
  proof cases
    case cpu
    then show ?thesis using cpu_draft_facts [of cx d r] counts(1) [of r] by auto
  next
    case memory
    then show ?thesis using memory_draft_facts [of cx d r] counts(2) [of r] by auto
  next
    case load
    then show ?thesis using load_draft_facts [of cx d r] counts(3) [of r] by auto
  next
    case fs
    then show ?thesis using filesystem_draft_facts [of env cx d r] counts(4) [of r] by auto
  qed
qed

lemma evaluation_drafts_rows_ok:
  assumes "run_policy r d = Some p" and "policy_valid (policy_config p)"
    and "x \<in> set (evaluation_drafts env r tm d)"
  shows "1 \<le> df_streak_required x \<and> df_subject_kind x \<in> {''host'', ''filesystem''}"
  using assms condition_drafts_rows_ok [OF assms(2)]
  by (simp only: evaluation_drafts_def option.case split: if_splits)

lemma evaluation_drafts_keys:
  "run_policy r d = Some p \<Longrightarrow>
     map df_key (evaluation_drafts env r tm d) = rule_keys env (policy_config p)"
  by (simp add: evaluation_drafts_def build_condition_drafts_shape build_disabled_drafts_shape)

lemma insert_conditions_defined:
  assumes "\<forall>c \<in> set cs. condition_checks c \<and> cnd_evaluation c = eid" and "eid \<in> set (map evl_id (evaluations d))"
    and "distinct (map cnd_id cs)" and "distinct (map cnd_key cs)"
    and "\<forall>x \<in> set (conditions d). cnd_id x \<notin> set (map cnd_id cs)
            \<and> (cnd_evaluation x = eid \<longrightarrow> cnd_key x \<notin> set (map cnd_key cs))"
  shows "\<exists>d'. insert_conditions cs d = Inr d'"
  using assms
proof (induction cs arbitrary: d)
  case Nil
  then show ?case by simp
next
  case (Cons c cs)
  let ?d = "d\<lparr>conditions := conditions d @ [c]\<rparr>"
  have "insert_condition c d = Inr ?d"
    using Cons.prems by (auto simp: insert_condition_def)
  moreover have "\<exists>d'. insert_conditions cs ?d = Inr d'"
    using Cons.prems by (intro Cons.IH) auto
  ultimately show ?case by auto
qed

lemma condition_checks_of:
  assumes "grounded ss x" and "window_ok ss x" and "\<forall>s \<in> set ss. pred_option (f_lt (Fin 0)) (smp_window s)"
    and "1 \<le> df_streak_required x" and "df_subject_kind x \<in> {''host'', ''filesystem''}"
    and "df_key x \<noteq> []" and "length (df_key x) \<le> 128"
  shows "condition_checks (condition_of env e cid x)"
proof -
  have names: "condition_status_name s \<in> {''ok'', ''warning'', ''critical'', ''unknown''}" for s
    by (cases s) simp_all
  have win: "case df_window x of None \<Rightarrow> True | Some w \<Rightarrow> f_lt (Fin 0) w"
    using assms(2,3) by (auto simp: window_ok_def split: option.splits)
  have "if condition_status_name (df_candidate x) = ''unknown'' then df_value x = None else df_value x \<noteq> None"
    using assms(1) by (auto simp: grounded_def condition_status_name_iff split: if_splits)
  then show ?thesis
    using names win assms(4-7) by (simp add: condition_checks_def condition_of_def)
qed

definition evaluation_ready ::
  "env \<Rightarrow> string \<Rightarrow> string \<Rightarrow> run_row \<Rightarrow> evaluation_timing \<Rightarrow> string \<Rightarrow> (nat \<Rightarrow> string) \<Rightarrow> db \<Rightarrow> bool" where
  "evaluation_ready env run host r timing eid cids d =
     (select_one (\<lambda>r. run_id r = run \<and> run_host r = host) (runs d) = Some r
      \<and> timing_ok timing
      \<and> (case run_policy r d of None \<Rightarrow> True
         | Some p \<Rightarrow> 1 \<le> pol_revision p \<and> policy_valid (policy_config p) \<and> policy_keys_ok env (policy_config p))
      \<and> list_all (\<lambda>s. pred_option (f_lt (Fin 0)) (smp_window s)) (samples d)
      \<and> list_all (\<lambda>e. evl_id e \<noteq> eid) (evaluations d)
      \<and> list_all (\<lambda>c. cnd_evaluation c \<noteq> eid \<and> cnd_id c \<notin> range cids) (conditions d)
      \<and> inj cids)"

lemma evaluate_run_defined:
  assumes "evaluation_ready env run host r timing eid cids d"
  shows "\<exists>d'. evaluate_run_tx env run host timing eid cids d = Inr d'"
proof (cases "\<exists>e \<in> set (evaluations d). evl_run e = run")
  case True
  then show ?thesis by (simp add: evaluate_run_tx_def)
next
  case False
  let ?tm = "effective_timing r timing"
  let ?e = "evaluation_of env r ?tm eid d"
  let ?ds = "evaluation_drafts env r ?tm d"
  let ?cs = "condition_rows env ?e cids ?ds"
  have r: "select_one (\<lambda>r. run_id r = run \<and> run_host r = host) (runs d) = Some r"
    using assms by (simp add: evaluation_ready_def)
  note r' = select_one_Some [OF r]
  have "evaluation_checks ?e"
    using assms by (intro evaluation_checks_of effective_timing_ok)
      (auto simp: evaluation_ready_def)
  moreover have "\<forall>x \<in> set (evaluations d). evl_id x \<noteq> eid \<and> evl_run x \<noteq> run_id r"
    using assms False r' by (auto simp: evaluation_ready_def list_all_iff)
  ultimately have ins: "insert_evaluation ?e d = Inr (d\<lparr>evaluations := evaluations d @ [?e]\<rparr>)"
    using r' by (auto simp: insert_evaluation_def)
  have "condition_checks c \<and> cnd_evaluation c = eid" if c: "c \<in> set ?cs" for c
  proof -
    obtain x cid where x: "x \<in> set ?ds" "c = condition_of env ?e cid x"
      using in_condition_rows [OF c] by blast
    obtain p where p: "run_policy r d = Some p"
      using x(1) by (cases "run_policy r d") (auto simp: evaluation_drafts_def)
    have pv: "policy_valid (policy_config p)" "policy_keys_ok env (policy_config p)"
      using assms p by (auto simp: evaluation_ready_def)
    have "df_key x \<in> set (rule_keys env (policy_config p))"
      using x(1) evaluation_drafts_keys [OF p, of env ?tm] by (metis imageI list.set_map)
    then have key: "df_key x \<noteq> [] \<and> length (df_key x) \<le> 128" by (rule rule_keys_ok(2) [OF pv])
    have "set (evaluation_samples r d) \<subseteq> set (samples d)"
      by (auto simp: evaluation_samples_def load_samples_def)
    then have win: "\<forall>s \<in> set (evaluation_samples r d). pred_option (f_lt (Fin 0)) (smp_window s)"
      using assms by (auto simp: evaluation_ready_def list_all_iff)
    show ?thesis
      using condition_checks_of [OF _ _ win] evaluation_drafts_grounded [OF x(1)]
        evaluation_drafts_rows_ok [OF p pv(1) x(1)] key
      by (simp add: x(2)) (simp add: condition_of_def)
  qed
  moreover have "map cnd_id ?cs = map cids [0..<length ?ds]"
    by (simp add: condition_rows_def condition_of_def)
  then have "distinct (map cnd_id ?cs)" and ids: "set (map cnd_id ?cs) \<subseteq> range cids"
    using assms by (auto simp: evaluation_ready_def distinct_map intro: inj_on_subset)
  moreover have keys: "map cnd_key ?cs = map df_key ?ds"
    by (simp add: condition_rows_def condition_of_def comp_def map_nth_map)
  have "distinct (map cnd_key ?cs)"
    unfolding keys using assms rule_keys_ok(1) evaluation_drafts_keys [of r d _ env ?tm]
    by (cases "run_policy r d") (auto simp: evaluation_ready_def evaluation_drafts_def)
  moreover have "\<forall>x \<in> set (conditions d). cnd_evaluation x \<noteq> eid \<and> cnd_id x \<notin> range cids"
    using assms by (simp add: evaluation_ready_def list_all_iff)
  then have "\<forall>x \<in> set (conditions d). cnd_id x \<notin> set (map cnd_id ?cs)
      \<and> (cnd_evaluation x = eid \<longrightarrow> cnd_key x \<notin> set (map cnd_key ?cs))"
    using ids by blast
  ultimately have "\<exists>d'. insert_conditions ?cs (d\<lparr>evaluations := evaluations d @ [?e]\<rparr>) = Inr d'"
    by (intro insert_conditions_defined [where eid = eid]) simp_all
  then show ?thesis using False r ins by (simp add: evaluate_run_tx_def Let_def condition_rows_def)
qed

text \<open>A host with one enabled policy, one run and one sample, for the witnesses.\<close>

definition sample_policy_row :: "policy_request option \<Rightarrow> policy_row" where
  "sample_policy_row q = \<lparr>pol_version_id = ''v'', pol_id = ''p'', pol_host = ''h'', pol_revision = 1,
     pol_lifecycle = Current, pol_enabled = True, pol_json = q, pol_sha = ''s'',
     pol_effective_from = 0, pol_effective_until = None\<rparr>"

definition sample_metric :: sample_row where
  "sample_metric = \<lparr>smp_id = ''m'', smp_run = ''r'', smp_host = ''h'', smp_family = ''load'',
     smp_subject_kind = ''host'', smp_subject_id = ''h'', smp_metric = ''normalized_load5'',
     smp_dims_json = ''{}'', smp_dims_sha = ''s'', smp_kind = ''derived'',
     smp_value = Some (Fin 0), smp_value_integer = None, smp_unit = ''ratio'', smp_window = None,
     smp_quality = ''observed'', smp_observed_at = 0, smp_observed_ms = 0,
     smp_source = ''ssh_host_resource_v1'', smp_created_at = 0\<rparr>"

definition sample_eval_db :: "run_state \<Rightarrow> policy_request option \<Rightarrow> db" where
  "sample_eval_db s q = sample_hosts\<lparr>policies := [sample_policy_row q], runs := [sample_run s],
     samples := [sample_metric]\<rparr>"

definition sample_timing :: evaluation_timing where
  "sample_timing = \<lparr>tm_evaluated_at = 5, tm_observation = ObsComplete, tm_observed_at = Some 5,
     tm_valid_until = Some 600\<rparr>"

definition sample_cids :: "nat \<Rightarrow> string" where
  "sample_cids i = replicate i CHR ''c''"

lemma inj_sample_cids: "inj sample_cids"
  by (rule inj_on_inverseI [where g = List.length]) (simp add: sample_cids_def)

lemma sample_policy_valid: "policy_valid sample_policy"
  using normalize_sample by (simp add: normalize_Inr)

lemma sample_ready:
  "evaluation_ready sample_env ''r'' ''h'' (sample_run s) sample_timing ''e'' sample_cids
     (sample_eval_db s (Some sample_policy))"
  using inj_sample_cids sample_policy_valid
  by (simp add: evaluation_ready_def sample_eval_db_def sample_hosts_def empty_db_def select_one_def
      sample_run_def timing_ok_def sample_timing_def run_policy_def sample_policy_row_def policy_config_def
      policy_keys_ok_def sample_metric_def) (simp add: sample_policy_def)

definition sample_evaluation :: "run_state \<Rightarrow> policy_request option \<Rightarrow> db stmt" where
  "sample_evaluation s q =
     evaluate_run_tx sample_env ''r'' ''h'' sample_timing ''e'' sample_cids (sample_eval_db s q)"

lemma sample_evaluation_defined: "\<exists>d'. sample_evaluation s (Some sample_policy) = Inr d'"
  unfolding sample_evaluation_def by (rule evaluate_run_defined [OF sample_ready])

lemma sample_no_receipt: "\<forall>e \<in> set (evaluations (sample_eval_db s q)). evl_run e \<noteq> run"
  by (simp add: sample_eval_db_def sample_hosts_def empty_db_def)

lemma sample_selects:
  "select_one (\<lambda>r. run_id r = ''r'' \<and> run_host r = ''h'') (runs (sample_eval_db s q)) = Some (sample_run s)"
  by (simp add: sample_eval_db_def select_one_def sample_run_def)

lemma sample_db_empty:
  "evaluations (sample_eval_db s q) = []" "conditions (sample_eval_db s q) = []"
  "runs (sample_eval_db s q) = [sample_run s]"
  by (simp_all add: sample_eval_db_def sample_hosts_def empty_db_def)

lemma sample_run_simps: "run_id (sample_run s) = ''r''" "run_host (sample_run s) = ''h''"
  "run_status (sample_run s) = s" "run_missed (sample_run s) = None"
  by (simp_all add: sample_run_def)

lemma sample_run_policy: "run_policy (sample_run s) (sample_eval_db s q) = Some (sample_policy_row q)"
  by (simp add: run_policy_def sample_eval_db_def sample_run_def select_one_def sample_policy_row_def)

theorem evaluate_writes_one_receipt_witness:
  "\<exists>d' e cs. sample_evaluation Succeeded (Some sample_policy) = Inr d'
     \<and> evaluations d' = [e] \<and> conditions d' = cs \<and> evl_run e = ''r''
     \<and> evl_ok e = status_count ''ok'' cs"
proof -
  obtain d' where d': "sample_evaluation Succeeded (Some sample_policy) = Inr d'"
    using sample_evaluation_defined by blast
  obtain e cs where "d' = sample_eval_db Succeeded (Some sample_policy)
      \<lparr>evaluations := evaluations (sample_eval_db Succeeded (Some sample_policy)) @ [e],
       conditions := conditions (sample_eval_db Succeeded (Some sample_policy)) @ cs\<rparr>"
    "evl_run e = ''r''" "evl_ok e = status_count ''ok'' cs"
    using evaluate_writes_one_receipt [OF sample_no_receipt d' [unfolded sample_evaluation_def]] by blast
  then show ?thesis
    by (intro exI [of _ d'] exI [of _ e] exI [of _ cs])
      (simp add: d' sample_eval_db_def sample_hosts_def empty_db_def)
qed

lemma sample_evaluation_healthy:
  "evaluation_status (policy_enabled (run_policy (sample_run Succeeded) (sample_eval_db Succeeded (Some sample_policy))))
     (evaluation_drafts sample_env (sample_run Succeeded) (effective_timing (sample_run Succeeded) sample_timing)
        (sample_eval_db Succeeded (Some sample_policy))) = Healthy"
proof -
  have "evaluation_samples (sample_run Succeeded) (sample_eval_db Succeeded (Some sample_policy)) = [sample_metric]"
    by (simp add: evaluation_samples_def sample_run_policy policy_enabled_def sample_policy_row_def
        run_observed_def load_samples_def)
      (simp add: sample_run_def sample_eval_db_def sample_metric_def)
  then show ?thesis
    by (simp add: evaluation_drafts_def sample_run_policy policy_enabled_def)
      (simp add: sample_policy_row_def policy_config_def build_condition_drafts_def option_list_def
        sample_policy_def load_draft_def find_sample_def sample_metric_def observed_sample_def
        quality_is_observed_def decided_draft_def Let_def high_candidate_def evaluation_status_def
        debounced_status_def history_for_def previous_conditions_def condition_history_def
        sample_eval_db_def sample_hosts_def empty_db_def sample_run_def run_missed_count_def)
qed

lemma sample_unreadable_checks:
  "evaluation_checks (evaluation_of sample_env (sample_run s) (effective_timing (sample_run s) sample_timing) ''e''
     (sample_eval_db s None))"
  by (rule evaluation_checks_of)
    (simp_all add: effective_timing_ok timing_ok_def sample_timing_def sample_run_policy
      sample_policy_row_def effective_timing_def)

text \<open>
  C25. Evaluating a stored run never trips a constraint of the schema: with a policy that passed validation,
  fresh identifiers and a consistent timing, the insertion of the receipt and of every condition row succeeds,
  so the transaction that ends the run is not rolled back by its own health receipt.
\<close>

theorem evaluate_run_total:
  assumes "evaluation_ready env run host r timing eid cids d"
  shows "\<exists>d'. evaluate_run_tx env run host timing eid cids d = Inr d'"
  by (rule evaluate_run_defined [OF assms])

theorem evaluate_run_total_witness:
  "\<exists>d'. evaluate_run_tx sample_env ''r'' ''h'' sample_timing ''e'' sample_cids
          (sample_eval_db Succeeded (Some sample_policy)) = Inr d'"
  by (rule evaluate_run_total [OF sample_ready])

text \<open>
  A run that produced no observation (failed, timed out, skipped, interrupted) is never shown green:
  under a valid policy, or none, its receipt says unknown, carries no observation or validity window, and
  every condition row it writes is unknown, whatever timing the caller supplied.
\<close>

theorem no_green_without_observation:
  assumes "\<forall>e \<in> set (evaluations d). evl_run e \<noteq> run"
    and "evaluate_run_tx env run host timing eid cids d = Inr d'"
    and "select_one (\<lambda>r. run_id r = run \<and> run_host r = host) (runs d) = Some r"
    and "\<not> run_observed r"
    and "\<forall>p. run_policy r d = Some p \<longrightarrow> pol_enabled p = pr_enabled (policy_config p) \<and> policy_valid (policy_config p)"
  shows "\<exists>e cs. d' = d\<lparr>evaluations := evaluations d @ [e], conditions := conditions d @ cs\<rparr>
      \<and> evl_status e = HealthUnknown \<and> evl_observation e = ObsNone
      \<and> evl_observed_at e = None \<and> evl_valid_until e = None
      \<and> (\<forall>c \<in> set cs. cnd_status c = ''unknown'' \<and> cnd_candidate c = ''unknown'')"
proof (rule evaluate_run_tx_Inr [OF assms(2,1)], goal_cases)
  case (1 r' tm)
  have r': "r' = r" using 1(1) assms(3) by simp
  let ?ds = "evaluation_drafts env r tm d"
  have empty: "evaluation_samples r d = []" using assms(4) by (simp add: evaluation_samples_def)
  have unk: "df_status x = Unknown \<and> df_candidate x = Unknown" if "x \<in> set ?ds" for x
    using evaluation_drafts_grounded [OF that] unfolding empty by (intro grounded_Nil) simp
  have status: "evaluation_status (policy_enabled (run_policy r d)) ?ds = HealthUnknown"
  proof (cases "policy_enabled (run_policy r d)")
    case True
    then obtain p where p: "run_policy r d = Some p" "pol_enabled p"
      by (auto simp: policy_enabled_def split: option.splits)
    then have "Required \<in> set (rule_requirements (policy_config p))"
      using assms(5) by (auto simp: policy_valid_def has_required_requirements)
    then have "Required \<in> set (map df_requirement ?ds)"
      using p by (simp only: evaluation_drafts_def) (simp add: build_condition_drafts_shape)
    then have "\<exists>x \<in> set ?ds. df_requirement x = Required \<and> is_unknown (df_status x)"
      using unk by force
    moreover have "\<not> (\<exists>x \<in> set ?ds. df_requirement x = Required \<and> df_status x = Critical)"
      using unk by force
    ultimately show ?thesis using True by (simp add: evaluation_status_def)
  qed (simp add: evaluation_status_def)
  have "tm = effective_timing r timing" using 1 r' by simp
  then have tm: "tm_observation tm = ObsNone" "tm_observed_at tm = None" "tm_valid_until tm = None"
    using assms(4) by (simp_all add: effective_timing_def)
  let ?e = "evaluation_of env r tm eid d"
  let ?cs = "condition_rows env ?e cids ?ds"
  have cs: "\<forall>c \<in> set ?cs. cnd_status c = ''unknown'' \<and> cnd_candidate c = ''unknown''"
    using unk by (fastforce dest!: in_condition_rows simp: condition_of_def)
  have times: "evl_observed_at ?e = None" "evl_valid_until ?e = None"
    using tm by (simp_all add: evaluation_of_def Let_def)
  show ?case
    by (rule exI [of _ ?e], rule exI [of _ ?cs]) (use 1 r' status tm cs times in simp)
qed

theorem no_green_without_observation_witness:
  "\<exists>d'. sample_evaluation Failed (Some sample_policy) = Inr d'
     \<and> map evl_status (evaluations d') = [HealthUnknown]"
proof -
  obtain d' where d': "sample_evaluation Failed (Some sample_policy) = Inr d'"
    using sample_evaluation_defined by blast
  have "\<not> run_observed (sample_run Failed)" by (simp add: run_observed_def sample_run_def)
  moreover have "\<forall>p. run_policy (sample_run Failed) (sample_eval_db Failed (Some sample_policy)) = Some p
      \<longrightarrow> pol_enabled p = pr_enabled (policy_config p) \<and> policy_valid (policy_config p)"
    using sample_policy_valid
    by (simp add: sample_run_policy policy_config_def sample_policy_row_def) (simp add: sample_policy_def)
  ultimately show ?thesis
    using no_green_without_observation [OF sample_no_receipt d' [unfolded sample_evaluation_def]
        sample_selects] d'
    by (auto simp: sample_eval_db_def sample_hosts_def empty_db_def)
qed

text \<open>
  A healthy receipt refers to evidence: every required condition is ok with a known candidate, a value
  and at least one reference, and all its references are samples of this run and this host.
\<close>

theorem healthy_has_evidence:
  assumes "\<forall>e \<in> set (evaluations d). evl_run e \<noteq> run"
    and "evaluate_run_tx env run host timing eid cids d = Inr d'"
  shows "\<exists>e cs. d' = d\<lparr>evaluations := evaluations d @ [e], conditions := conditions d @ cs\<rparr>
      \<and> (evl_status e = Healthy \<longrightarrow>
           (\<forall>c \<in> set cs. cnd_requirement c = Required \<longrightarrow>
              cnd_status c = ''ok'' \<and> cnd_candidate c \<noteq> ''unknown'' \<and> cnd_value c \<noteq> None
              \<and> cnd_evidence c \<noteq> []
              \<and> (\<forall>i \<in> set (cnd_evidence c).
                   \<exists>s \<in> set (samples d). smp_id s = i \<and> smp_run s = run \<and> smp_host s = host)))"
proof (rule evaluate_run_tx_Inr [OF assms(2,1)], goal_cases)
  case (1 r tm)
  let ?ds = "evaluation_drafts env r tm d"
  let ?e = "evaluation_of env r tm eid d"
  let ?cs = "condition_rows env ?e cids ?ds"
  have "cnd_status c = ''ok'' \<and> cnd_candidate c \<noteq> ''unknown'' \<and> cnd_value c \<noteq> None
      \<and> cnd_evidence c \<noteq> [] \<and> (\<forall>i \<in> set (cnd_evidence c).
                   \<exists>s \<in> set (samples d). smp_id s = i \<and> smp_run s = run \<and> smp_host s = host)"
    if h: "evl_status ?e = Healthy" and c: "c \<in> set ?cs" and req: "cnd_requirement c = Required" for c
  proof -
    obtain x cid where x: "x \<in> set ?ds" "c = condition_of env ?e cid x"
      using in_condition_rows [OF c] by blast
    have rx: "df_requirement x = Required" using req x by (simp add: condition_of_def)
    have "df_status x \<noteq> Critical \<and> \<not> is_unknown (df_status x) \<and> df_status x \<noteq> Warning"
      using h x(1) rx by (auto simp: evaluation_status_def split: if_splits)
    then have ok: "df_status x = Ok" by (cases "df_status x") auto
    have g: "grounded (evaluation_samples r d) x" using evaluation_drafts_grounded [OF x(1)] by simp
    then have v: "df_value x \<noteq> None" using ok by (auto simp: grounded_def split: if_splits)
    then have ev: "\<not> is_unknown (df_candidate x)" "df_evidence x \<noteq> []"
      "set (df_evidence x) \<subseteq> set (map smp_id (evaluation_samples r d))"
      using g by (auto simp: grounded_def split: if_splits)
    have "set (evaluation_samples r d) \<subseteq> {s \<in> set (samples d). smp_run s = run \<and> smp_host s = host}"
      using 1 by (auto simp: evaluation_samples_def load_samples_def)
    then have "\<forall>i \<in> set (df_evidence x).
        \<exists>s \<in> set (samples d). smp_id s = i \<and> smp_run s = run \<and> smp_host s = host"
      using ev(3) by fastforce
    then show ?thesis
      using x ok v ev by (simp add: condition_of_def condition_status_name_iff)
  qed
  then show ?case
    by (intro exI [of _ ?e] exI [of _ ?cs] conjI impI) (use 1 in simp_all)
qed

theorem healthy_has_evidence_witness:
  "\<exists>d' cs. sample_evaluation Succeeded (Some sample_policy) = Inr d' \<and> conditions d' = cs
     \<and> map evl_status (evaluations d') = [Healthy]
     \<and> (\<forall>c \<in> set cs. cnd_requirement c = Required \<longrightarrow> cnd_status c = ''ok'' \<and> cnd_evidence c \<noteq> [])"
proof -
  let ?d = "sample_eval_db Succeeded (Some sample_policy)"
  obtain d' where d': "sample_evaluation Succeeded (Some sample_policy) = Inr d'"
    using sample_evaluation_defined by blast
  obtain e cs where e: "d' = ?d\<lparr>evaluations := evaluations ?d @ [e], conditions := conditions ?d @ cs\<rparr>"
    and h: "evl_status e = Healthy \<longrightarrow> (\<forall>c \<in> set cs. cnd_requirement c = Required \<longrightarrow>
              cnd_status c = ''ok'' \<and> cnd_evidence c \<noteq> [])"
    using healthy_has_evidence [OF sample_no_receipt d' [unfolded sample_evaluation_def]] by blast
  have ev: "evaluations d' = [e]" using e by (simp add: sample_db_empty)
  have "evl_status e = Healthy"
  proof (rule evaluate_run_tx_Inr [OF d' [unfolded sample_evaluation_def] sample_no_receipt], goal_cases)
    case (1 r tm)
    then have "evaluations d' = [evaluation_of sample_env r tm ''e'' ?d]" by (simp add: sample_db_empty)
    with ev have "e = evaluation_of sample_env r tm ''e'' ?d" by simp
    moreover have "r = sample_run Succeeded" using 1(1) by (simp add: sample_selects)
    ultimately show ?case using 1(4) by (simp add: sample_evaluation_healthy)
  qed
  then show ?thesis
    using h e by (intro exI [of _ d'] exI [of _ cs])
      (simp add: d' sample_eval_db_def sample_hosts_def empty_db_def)
qed

text \<open>
  A stored policy whose JSON can no longer be read evaluates to healthy: the fallback configuration
  keeps it enabled with no rules, so no condition is required and none can fail.
\<close>

theorem unreadable_policy_is_healthy:
  assumes "\<forall>e \<in> set (evaluations d). evl_run e \<noteq> run"
    and "evaluate_run_tx env run host timing eid cids d = Inr d'"
    and "select_one (\<lambda>r. run_id r = run \<and> run_host r = host) (runs d) = Some r"
    and "run_policy r d = Some p" and "pol_json p = None" and "pol_enabled p"
  shows "\<exists>e. d' = d\<lparr>evaluations := evaluations d @ [e]\<rparr> \<and> evl_status e = Healthy
           \<and> evl_reason e = ''all_conditions_ok'' \<and> evl_required e = 0"
proof (rule evaluate_run_tx_Inr [OF assms(2,1)], goal_cases)
  case (1 r' tm)
  have r': "r' = r" using 1(1) assms(3) by simp
  have ds: "evaluation_drafts env r tm d = []"
    using assms(4-6) by (simp add: evaluation_drafts_def build_condition_drafts_def policy_config_def
        option_list_def)
  show ?case
    by (rule exI [of _ "evaluation_of env r tm eid d"])
      (use 1 r' ds assms(4,6) in \<open>simp add: condition_rows_def evaluation_of_def Let_def
         evaluation_status_def evaluation_reason_def policy_enabled_def count_drafts_def\<close>)
qed

theorem unreadable_policy_is_healthy_witness:
  "\<exists>d'. sample_evaluation Failed None = Inr d' \<and> map evl_status (evaluations d') = [Healthy]"
proof -
  have "\<exists>d'. sample_evaluation Failed None = Inr d'"
    by (simp add: sample_evaluation_def evaluate_run_tx_def sample_no_receipt sample_selects Let_def
        evaluation_drafts_def sample_run_policy sample_policy_row_def policy_config_def
        build_condition_drafts_def option_list_def insert_evaluation_def sample_unreadable_checks
        sample_db_empty sample_run_simps select_one_def)
  then obtain d' where d': "sample_evaluation Failed None = Inr d'" by blast
  show ?thesis
    using unreadable_policy_is_healthy [OF sample_no_receipt d' [unfolded sample_evaluation_def]
        sample_selects sample_run_policy] d'
    by (auto simp: sample_policy_row_def sample_eval_db_def sample_hosts_def empty_db_def)
qed

subsection \<open>The current health\<close>

definition coverage_sums :: "coverage \<Rightarrow> bool" where
  "coverage_sums c =
     (cov_required_total c = cov_required_ok c + cov_required_warning c + cov_required_critical c
        + cov_required_unknown c
      \<and> cov_optional_total c = cov_optional_ok c + cov_optional_warning c + cov_optional_critical c
        + cov_optional_unknown c)"

lemma increment_coverage:
  assumes "coverage_sums c" and "cov_required_total c + cov_optional_total c < u32_max"
  shows "coverage_sums (increment_condition_coverage rq st c)
       \<and> cov_required_total (increment_condition_coverage rq st c)
          + cov_optional_total (increment_condition_coverage rq st c)
          = cov_required_total c + cov_optional_total c + 1
       \<and> (st \<noteq> Ok \<longrightarrow> cov_required_ok (increment_condition_coverage rq st c) = cov_required_ok c
                      \<and> cov_optional_ok (increment_condition_coverage rq st c) = cov_optional_ok c)"
  using assms by (cases rq; cases st) (simp_all add: coverage_sums_def Let_def sat_add32_id)

lemma fold_coverage:
  assumes "coverage_sums c" and "cov_required_total c + cov_optional_total c + length xs \<le> u32_max"
  shows "coverage_sums (fold (\<lambda>x. increment_condition_coverage (hc_requirement x) (hc_status x)) xs c)
       \<and> (let c' = fold (\<lambda>x. increment_condition_coverage (hc_requirement x) (hc_status x)) xs c
          in cov_required_total c' + cov_optional_total c'
               = cov_required_total c + cov_optional_total c + length xs
             \<and> ((\<forall>x \<in> set xs. hc_status x \<noteq> Ok) \<longrightarrow> cov_required_ok c' = cov_required_ok c
                                                \<and> cov_optional_ok c' = cov_optional_ok c))"
  using assms
proof (induction xs arbitrary: c)
  case Nil
  then show ?case by simp
next
  case (Cons x xs)
  let ?c = "increment_condition_coverage (hc_requirement x) (hc_status x) c"
  have i: "coverage_sums ?c" "cov_required_total ?c + cov_optional_total ?c
          = cov_required_total c + cov_optional_total c + 1"
    "hc_status x \<noteq> Ok \<longrightarrow> cov_required_ok ?c = cov_required_ok c \<and> cov_optional_ok ?c = cov_optional_ok c"
    using increment_coverage [OF Cons.prems(1)] Cons.prems(2) by auto
  have "cov_required_total ?c + cov_optional_total ?c + length xs \<le> u32_max"
    using i(2) Cons.prems(2) by simp
  from Cons.IH [OF i(1) this] i show ?case by (auto simp: Let_def)
qed

lemma rev_sort_key_hd:
  assumes "rev (sort_key f xs) = p # ps"
  shows "p \<in> set xs" and "x \<in> set xs \<Longrightarrow> f x \<le> f p"
proof -
  have s: "sort_key f xs = rev ps @ [p]" using assms by (metis rev.simps(2) rev_rev_ident)
  then show "p \<in> set xs" by (metis in_set_conv_decomp set_sort)
  have "sorted (map f (rev ps @ [p]))" using s by (metis sorted_sort_key)
  then have "\<forall>y \<in> set (rev ps @ [p]). f y \<le> f p" by (auto simp: sorted_append)
  then show "x \<in> set xs \<Longrightarrow> f x \<le> f p" using s by (metis set_sort)
qed

lemma latest_evaluation_Some:
  assumes "latest_evaluation host version d = Some (e, r)"
  shows "e \<in> set (evaluations d)" and "r \<in> set (runs d)" and "run_id r = evl_run e"
    and "evl_host e = host" and "evl_policy_version e = Some version"
    and "e' \<in> set (evaluations d) \<Longrightarrow> r' \<in> set (runs d) \<Longrightarrow> run_id r' = evl_run e' \<Longrightarrow> evl_host e' = host
           \<Longrightarrow> evl_policy_version e' = Some version \<Longrightarrow> evl_evaluated_at e' \<le> evl_evaluated_at e"
proof -
  let ?xs = "[(e, r). e \<leftarrow> evaluations d, r \<leftarrow> runs d,
          run_id r = evl_run e \<and> evl_host e = host \<and> evl_policy_version e = Some version]"
  obtain ps where ps: "rev (sort_key (\<lambda>p. evl_evaluated_at (fst p)) (sort_key (\<lambda>p. evl_id (fst p)) ?xs))
      = (e, r) # ps"
    using assms by (auto simp: latest_evaluation_def split: list.splits)
  have "(e, r) \<in> set ?xs" using rev_sort_key_hd(1) [OF ps] by simp
  then show "e \<in> set (evaluations d)" and "r \<in> set (runs d)" and "run_id r = evl_run e"
    and "evl_host e = host" and "evl_policy_version e = Some version"
    by (auto split: if_splits)
  assume "e' \<in> set (evaluations d)" "r' \<in> set (runs d)" "run_id r' = evl_run e'" "evl_host e' = host"
    "evl_policy_version e' = Some version"
  then have "(e', r') \<in> set ?xs" by auto
  then show "evl_evaluated_at e' \<le> evl_evaluated_at e"
    using rev_sort_key_hd(2) [OF ps, of "(e', r')"] by simp
qed

text \<open>
  The health shown for a host is that of the newest receipt under the current policy, and it expires:
  from the receipt's validity bound on, the host is unknown, the data is stale and every condition is stale;
  healthy is shown only from a healthy, still valid receipt of an observed run. The coverage counts every
  condition once.
\<close>

theorem current_health_expires:
  assumes "latest_evaluation host (pol_version_id p) d = Some (e, r)" and "pol_enabled p"
    and "length (conditions d) \<le> u32_max"
  shows "let ch = current_health host (Some p) now d;
             expired = (\<exists>v. evl_valid_until e = Some v \<and> v \<le> timestamp_ms now)
         in ch_evaluation ch = Some (evl_id e)
            \<and> (\<forall>e' r'. e' \<in> set (evaluations d) \<and> r' \<in> set (runs d) \<and> run_id r' = evl_run e'
                 \<and> evl_host e' = host \<and> evl_policy_version e' = Some (pol_version_id p)
                 \<longrightarrow> evl_evaluated_at e' \<le> evl_evaluated_at e)
            \<and> (expired \<longrightarrow> ch_health ch = HealthUnknown \<and> ch_freshness ch = MonStale
                 \<and> (\<forall>c \<in> set (ch_conditions ch). hc_status c = Stale)
                 \<and> cov_required_ok (ch_coverage ch) = 0 \<and> cov_optional_ok (ch_coverage ch) = 0)
            \<and> (ch_health ch = Healthy \<longrightarrow> \<not> expired \<and> evl_status e = Healthy
                 \<and> evl_observation e \<noteq> ObsNone \<and> \<not> terminal_failure (run_status r)
                 \<and> ch_freshness ch = MonFresh)
            \<and> coverage_sums (ch_coverage ch)
            \<and> cov_required_total (ch_coverage ch) + cov_optional_total (ch_coverage ch)
                = length (filter (\<lambda>c. cnd_evaluation c = evl_id e) (conditions d))"
proof -
  let ?stale = "case evl_valid_until e of None \<Rightarrow> False | Some v \<Rightarrow> v \<le> timestamp_ms now"
  let ?failed = "terminal_failure (run_status r)"
  let ?rows = "sort_key cnd_key (filter (\<lambda>c. cnd_evaluation c = evl_id e) (conditions d))"
  let ?view = "map (view_condition ?stale ?failed) ?rows"
  let ?ch = "current_health host (Some p) now d"
  have stale: "?stale \<longleftrightarrow> (\<exists>v. evl_valid_until e = Some v \<and> v \<le> timestamp_ms now)"
    by (auto split: option.splits)
  have conds: "ch_conditions ?ch = ?view"
    and cov: "ch_coverage ?ch = fold (\<lambda>x. increment_condition_coverage (hc_requirement x)
                                                    (hc_status x)) ?view empty_coverage"
    and health: "ch_health ?ch = (if ?stale \<or> evl_observation e = ObsNone \<or> ?failed
                                      then HealthUnknown else evl_status e)"
    and fresh: "ch_freshness ?ch = (if ?stale then MonStale
                                         else if evl_observation e = ObsNone \<or> ?failed
                                         then FreshnessUnknown else MonFresh)"
    and ev: "ch_evaluation ?ch = Some (evl_id e)"
    using assms(1,2) by (simp_all add: current_health_def Let_def)
  have len: "length ?view = length (filter (\<lambda>c. cnd_evaluation c = evl_id e) (conditions d))" by simp
  have bound: "cov_required_total empty_coverage + cov_optional_total empty_coverage + length ?view
      \<le> u32_max" using order_trans [OF length_filter_le assms(3)] by (simp add: empty_coverage_def)
  have sums0: "coverage_sums empty_coverage" by (simp add: coverage_sums_def empty_coverage_def)
  note c = fold_coverage [OF sums0 bound, folded cov, unfolded Let_def]
  have total: "cov_required_total (ch_coverage ?ch) + cov_optional_total (ch_coverage ?ch)
      = length (filter (\<lambda>c. cnd_evaluation c = evl_id e) (conditions d))"
    using c len by (simp add: empty_coverage_def)
  have st: "\<forall>x \<in> set ?view. hc_status x = Stale" if ?stale using that by (auto simp: view_condition_def)
  then have ok0: "cov_required_ok (ch_coverage ?ch) = 0 \<and> cov_optional_ok (ch_coverage ?ch) = 0" if ?stale
    using c that by (force simp: empty_coverage_def)
  show ?thesis
    unfolding Let_def
    using latest_evaluation_Some(6) [OF assms(1)] ev health fresh total c st ok0 unfolding conds stale
    by (intro conjI) (auto split: if_splits)
qed

theorem current_health_expires_witness:
  "\<exists>d'. sample_evaluation Succeeded (Some sample_policy) = Inr d'
     \<and> ch_health (current_health ''h'' (Some (sample_policy_row (Some sample_policy))) 700000000 d')
        = HealthUnknown"
proof -
  let ?p = "sample_policy_row (Some sample_policy)"
  let ?d = "sample_eval_db Succeeded (Some sample_policy)"
  obtain d' where d': "sample_evaluation Succeeded (Some sample_policy) = Inr d'"
    using sample_evaluation_defined by blast
  obtain e where e: "evaluations d' = [e]" "runs d' = [sample_run Succeeded]" "length (conditions d') \<le> 1"
    "evl_run e = ''r''" "evl_host e = ''h''" "evl_policy_version e = Some ''v''" "evl_valid_until e = Some 0"
  proof (rule evaluate_run_tx_Inr [OF d' [unfolded sample_evaluation_def] sample_no_receipt], goal_cases)
    case (1 r tm)
    have r: "r = sample_run Succeeded" using 1(2) by (simp add: sample_selects)
    have tm: "tm_valid_until tm = Some 600"
      using 1(5) by (simp add: r effective_timing_def run_observed_def sample_run_simps sample_timing_def)
    have "length (evaluation_drafts sample_env r tm ?d) \<le> 1"
      by (simp add: r evaluation_drafts_def sample_run_policy sample_policy_row_def policy_config_def
          build_condition_drafts_def sample_policy_def option_list_def)
    then show ?case
      using 1(6) tm by (intro 1(1) [of "evaluation_of sample_env r tm ''e'' ?d"])
        (simp_all add: sample_db_empty r sample_run_simps evaluation_of_def Let_def sample_run_policy
          sample_policy_row_def timestamp_ms_def ns_per_ms_def)
  qed
  have l: "latest_evaluation ''h'' (pol_version_id ?p) d' = Some (e, sample_run Succeeded)"
    using e by (simp add: latest_evaluation_def sample_run_simps sample_policy_row_def)
  show ?thesis
    using current_health_expires [OF l, of 700000000] e d'
    by (auto simp: Let_def sample_policy_row_def timestamp_ms_def ns_per_ms_def u32_max_def)
qed

end
