(* ===== verification/HealthEvidence.thy ===== *)
theory HealthEvidence
  imports HealthEvaluation
begin

text \<open>
  What a healthy receipt of \<open>evaluate_run_tx\<close> says about the samples of its run: the rules of the policy one by
  one, from the drafts of \<open>build_condition_drafts\<close> to the rows that are stored.
\<close>

text \<open>
  What a required rule needs for an ok condition: an observed, finite sample of the run and the host under
  the rule's metric, cited by the condition and giving its value, that does not reach the warning threshold.
\<close>

definition observed_metric ::
  "db \<Rightarrow> string \<Rightarrow> string \<Rightarrow> string \<Rightarrow> string \<Rightarrow> string \<Rightarrow> string \<Rightarrow> rat \<Rightarrow> sample_row \<Rightarrow> bool" where
  "observed_metric d run host family kind subject metric v s =
     (s \<in> set (samples d) \<and> smp_run s = run \<and> smp_host s = host \<and> smp_family s = family
      \<and> smp_subject_kind s = kind \<and> smp_subject_id s = subject \<and> smp_metric s = metric
      \<and> smp_quality s = ''observed'' \<and> smp_value s = Some (Fin v))"

definition ok_condition :: "condition_row list \<Rightarrow> string \<Rightarrow> f64 \<Rightarrow> sample_row list \<Rightarrow> bool" where
  "ok_condition cs key v ss =
     (\<exists>c \<in> set cs. cnd_key c = key \<and> cnd_requirement c = Required \<and> cnd_status c = ''ok''
        \<and> cnd_value c = Some v \<and> set (map smp_id ss) \<subseteq> set (cnd_evidence c))"

definition cpu_evidenced :: "db \<Rightarrow> string \<Rightarrow> string \<Rightarrow> condition_row list \<Rightarrow> cpu_rule \<Rightarrow> bool" where
  "cpu_evidenced d run host cs r =
     (\<exists>v s. observed_metric d run host ''cpu'' ''host'' host ''busy_pct'' v s
        \<and> \<not> f_lt (case smp_window s of None \<Rightarrow> Fin 0 | Some w \<Rightarrow> w) (cpu_minimum_window r)
        \<and> f_lt (Fin v) (cpu_warning r) \<and> ok_condition cs ''cpu_busy'' (Fin v) [s])"

definition memory_evidenced :: "db \<Rightarrow> string \<Rightarrow> string \<Rightarrow> condition_row list \<Rightarrow> low_rule \<Rightarrow> bool" where
  "memory_evidenced d run host cs r =
     (\<exists>a t x y. observed_metric d run host ''memory'' ''host'' host ''available_bytes'' x a
        \<and> observed_metric d run host ''memory'' ''host'' host ''total_bytes'' y t \<and> 0 < y
        \<and> f_le (low_warning r) (f_div (Fin x) (Fin y))
        \<and> ok_condition cs ''memory_available_ratio'' (f_div (Fin x) (Fin y)) [a, t])"

definition load_evidenced :: "db \<Rightarrow> string \<Rightarrow> string \<Rightarrow> condition_row list \<Rightarrow> high_rule \<Rightarrow> bool" where
  "load_evidenced d run host cs r =
     (\<exists>v s. observed_metric d run host ''load'' ''host'' host ''normalized_load5'' v s
        \<and> f_lt (Fin v) (high_warning r) \<and> ok_condition cs ''normalized_load5'' (Fin v) [s])"

definition filesystem_evidenced ::
  "env \<Rightarrow> db \<Rightarrow> string \<Rightarrow> string \<Rightarrow> condition_row list \<Rightarrow> fs_rule \<Rightarrow> bool" where
  "filesystem_evidenced env d run host cs r =
     (\<exists>v s. observed_metric d run host ''disk_capacity'' ''filesystem''
              (stable_subject_id env ''filesystem'' (fs_mount r)) ''allocatable_used_ratio'' v s
        \<and> f_lt (Fin v) (fs_warning r) \<and> ok_condition cs (fs_key env r) (Fin v) [s]
        \<and> (case fs_critical_available r of None \<Rightarrow> True
           | Some limit \<Rightarrow> \<exists>w a. observed_metric d run host ''disk_capacity'' ''filesystem''
               (stable_subject_id env ''filesystem'' (fs_mount r)) ''available_bytes'' w a
               \<and> f_le (f_of_nat limit) (Fin w) \<and> ok_condition cs (fs_key env r) (Fin v) [s, a]))"

definition rules_evidenced ::
  "env \<Rightarrow> db \<Rightarrow> string \<Rightarrow> string \<Rightarrow> condition_row list \<Rightarrow> policy_request \<Rightarrow> bool" where
  "rules_evidenced env d run host cs q =
     (pred_option (\<lambda>r. cpu_requirement r = Required \<longrightarrow> cpu_evidenced d run host cs r) (pr_cpu_busy q)
      \<and> pred_option (\<lambda>r. low_requirement r = Required \<longrightarrow> memory_evidenced d run host cs r) (pr_memory q)
      \<and> pred_option (\<lambda>r. high_requirement r = Required \<longrightarrow> load_evidenced d run host cs r) (pr_load5 q)
      \<and> list_all (\<lambda>r. fs_requirement r = Required \<longrightarrow> filesystem_evidenced env d run host cs r)
          (pr_filesystems q))"

lemma decided_ok:
  assumes "df_status (decided_draft b c hs en rc p m v w ev) = Ok"
  shows "fst c = Ok \<or> snd c"
  using assms
  by (cases c) (auto simp: decided_draft_def debounced_status_def Let_def split: if_splits prod.splits list.splits
      elim: severity.elims)

lemma find_sample_key:
  assumes "find_sample ss f k i m = Some s"
  shows "s \<in> set ss \<and> smp_family s = f \<and> smp_subject_kind s = k \<and> smp_subject_id s = i \<and> smp_metric s = m"
  using assms by (auto simp: find_sample_def find_Some_iff)

lemma observed_sample_iff:
  "observed_sample s \<longleftrightarrow> smp_quality s = ''observed'' \<and> (\<exists>q. smp_value s = Some (Fin q))"
  by (auto simp: observed_sample_def quality_is_observed_def f_is_finite_iff split: option.splits)

definition samples_of :: "db \<Rightarrow> string \<Rightarrow> string \<Rightarrow> sample_row list \<Rightarrow> bool" where
  "samples_of d run host ss = (set ss \<subseteq> {s \<in> set (samples d). smp_run s = run \<and> smp_host s = host})"

lemma found_observed:
  assumes "samples_of d run host ss" and "find_sample ss f k i m = Some s" and "observed_sample s"
  shows "\<exists>q. smp_value s = Some (Fin q) \<and> observed_metric d run host f k i m q s"
  using assms find_sample_key [OF assms(2)]
  by (auto simp: samples_of_def observed_metric_def observed_sample_iff)

lemma high_below_warning:
  assumes "high_ok w c r en rc mx"
    and "(if f_le c v then Critical else if f_le w v then Warning else Ok) = Ok \<or> f_lt v r" and "v = Fin q"
  shows "f_lt v w"
  using assms by (auto simp: high_ok_def split: if_splits)

lemma cpu_draft_ok:
  assumes "samples_of d run (ctx_host cx) (ctx_samples cx)" and "cpu_ok r" and "df_status (cpu_draft cx d' r) = Ok"
  shows "\<exists>v s. observed_metric d run (ctx_host cx) ''cpu'' ''host'' (ctx_host cx) ''busy_pct'' v s
        \<and> \<not> f_lt (case smp_window s of None \<Rightarrow> Fin 0 | Some w \<Rightarrow> w) (cpu_minimum_window r)
        \<and> f_lt (Fin v) (cpu_warning r) \<and> df_value (cpu_draft cx d' r) = Some (Fin v)
        \<and> smp_id s \<in> set (df_evidence (cpu_draft cx d' r))"
proof (cases "find_sample (ctx_samples cx) ''cpu'' ''host'' (ctx_host cx) ''busy_pct''")
  case None
  then show ?thesis using assms(3) by (simp add: cpu_draft_def Let_def)
next
  case (Some s)
  have o: "observed_sample s"
    using assms(3) by (rule contrapos_pp) (simp add: cpu_draft_def Some Let_def)
  obtain q where q: "smp_value s = Some (Fin q)"
    and m: "observed_metric d run (ctx_host cx) ''cpu'' ''host'' (ctx_host cx) ''busy_pct'' q s"
    using found_observed [OF assms(1) Some o] by blast
  have w: "\<not> f_lt (case smp_window s of None \<Rightarrow> Fin 0 | Some w \<Rightarrow> w) (cpu_minimum_window r)"
    using assms(3) by (rule contrapos_pn) (simp add: cpu_draft_def Some Let_def o)
  have "fst (cpu_candidate (Fin q) r) = Ok \<or> snd (cpu_candidate (Fin q) r)"
    using assms(3) w by (intro decided_ok) (simp add: cpu_draft_def Some o q Let_def)
  then have "f_lt (Fin q) (cpu_warning r)"
    using assms(2) by (intro high_below_warning [OF _ _ refl]) (auto simp: cpu_candidate_def cpu_ok_def)
  then show ?thesis using q m w
    by (intro exI [of _ q] exI [of _ s]) (simp add: cpu_draft_def Some o Let_def)
qed

lemma load_draft_ok:
  assumes "samples_of d run (ctx_host cx) (ctx_samples cx)" and "load_ok r" and "df_status (load_draft cx d' r) = Ok"
  shows "\<exists>v s. observed_metric d run (ctx_host cx) ''load'' ''host'' (ctx_host cx) ''normalized_load5'' v s
        \<and> f_lt (Fin v) (high_warning r) \<and> df_value (load_draft cx d' r) = Some (Fin v)
        \<and> smp_id s \<in> set (df_evidence (load_draft cx d' r))"
proof (cases "find_sample (ctx_samples cx) ''load'' ''host'' (ctx_host cx) ''normalized_load5''")
  case None
  then show ?thesis using assms(3) by (simp add: load_draft_def Let_def)
next
  case (Some s)
  have o: "observed_sample s"
    using assms(3) by (rule contrapos_pp) (simp add: load_draft_def Some Let_def)
  obtain q where q: "smp_value s = Some (Fin q)"
    and m: "observed_metric d run (ctx_host cx) ''load'' ''host'' (ctx_host cx) ''normalized_load5'' q s"
    using found_observed [OF assms(1) Some o] by blast
  have "fst (high_candidate (Fin q) r) = Ok \<or> snd (high_candidate (Fin q) r)"
    using assms(3) by (intro decided_ok) (simp add: load_draft_def Some o q Let_def)
  then have "f_lt (Fin q) (high_warning r)"
    using assms(2) by (intro high_below_warning [OF _ _ refl]) (auto simp: high_candidate_def load_ok_def)
  then show ?thesis using q m
    by (intro exI [of _ q] exI [of _ s]) (simp add: load_draft_def Some o Let_def)
qed

lemma low_above_warning:
  assumes "low_ok w c r en rc"
    and "(if f_lt v c then Critical else if f_lt v w then Warning else Ok) = Ok \<or> f_le r v" and "v = Fin q"
  shows "f_le w v"
  using assms by (auto simp: low_ok_def split: if_splits)

lemma memory_draft_ok:
  assumes "samples_of d run (ctx_host cx) (ctx_samples cx)" and "memory_ok r" and "df_status (memory_draft cx d' r) = Ok"
  shows "\<exists>a t x y. observed_metric d run (ctx_host cx) ''memory'' ''host'' (ctx_host cx) ''available_bytes'' x a
        \<and> observed_metric d run (ctx_host cx) ''memory'' ''host'' (ctx_host cx) ''total_bytes'' y t \<and> 0 < y
        \<and> f_le (low_warning r) (f_div (Fin x) (Fin y))
        \<and> df_value (memory_draft cx d' r) = Some (f_div (Fin x) (Fin y))
        \<and> {smp_id a, smp_id t} \<subseteq> set (df_evidence (memory_draft cx d' r))"
proof -
  let ?a = "find_sample (ctx_samples cx) ''memory'' ''host'' (ctx_host cx) ''available_bytes''"
  let ?t = "find_sample (ctx_samples cx) ''memory'' ''host'' (ctx_host cx) ''total_bytes''"
  obtain a t where at: "?a = Some a" "?t = Some t"
    using assms(3) by (cases ?a; cases ?t) (simp_all add: memory_draft_def Let_def)
  have o: "observed_sample a" "observed_sample t"
    using assms(3) by (simp_all add: memory_draft_def at Let_def split: if_splits)
  obtain x y where x: "smp_value a = Some (Fin x)"
      "observed_metric d run (ctx_host cx) ''memory'' ''host'' (ctx_host cx) ''available_bytes'' x a"
    and y: "smp_value t = Some (Fin y)"
      "observed_metric d run (ctx_host cx) ''memory'' ''host'' (ctx_host cx) ''total_bytes'' y t"
    using found_observed [OF assms(1) at(1) o(1)] found_observed [OF assms(1) at(2) o(2)] by blast
  have p: "0 < y" and fin: "f_is_finite (f_div (Fin x) (Fin y))"
    using assms(3) by (simp_all add: memory_draft_def at Let_def o x y del: f_div.simps split: if_splits)
  have "fst (low_candidate (f_div (Fin x) (Fin y)) r) = Ok \<or> snd (low_candidate (f_div (Fin x) (Fin y)) r)"
    using assms(3) by (intro decided_ok) (simp add: memory_draft_def at Let_def o x y p fin del: f_div.simps)
  moreover obtain q where "f_div (Fin x) (Fin y) = Fin q" using fin by (auto simp: f_is_finite_iff)
  ultimately have "f_le (low_warning r) (f_div (Fin x) (Fin y))"
    using assms(2) unfolding low_candidate_def fst_conv snd_conv memory_ok_def by (rule low_above_warning [rotated])
  then show ?thesis using x y p fin
    by (intro exI [of _ a] exI [of _ t] exI [of _ x] exI [of _ y])
      (simp add: memory_draft_def at o Let_def del: f_div.simps)
qed
lemma fs_below_warning:
  assumes "fs_ok r" and "fst (fs_candidate (Fin q) a r) = Ok \<or> snd (fs_candidate (Fin q) a r)"
  shows "f_lt (Fin q) (fs_warning r)"
    and "fs_critical_available r = Some limit \<Longrightarrow> a = Some (Fin x) \<Longrightarrow> f_le (f_of_nat limit) (Fin x)"
proof -
  have h: "high_ok (fs_warning r) (fs_critical r) (fs_recovery r) (fs_enter_count r) (fs_recover_count r) 1"
    using assms(1) by (simp add: fs_ok_def)
  show "f_lt (Fin q) (fs_warning r)"
    using assms(2) by (intro high_below_warning [OF h _ refl])
      (auto simp: fs_candidate_def Let_def split: if_splits option.splits)
  show "fs_critical_available r = Some limit \<Longrightarrow> a = Some (Fin x) \<Longrightarrow> f_le (f_of_nat limit) (Fin x)"
  proof -
    assume l: "fs_critical_available r = Some limit" and a: "a = Some (Fin x)"
    have "f_of_nat limit \<noteq> NaN" by (simp add: f_of_nat_def round_f64_def Let_def)
    then have "\<not> f_lt (Fin x) (f_of_nat limit) \<Longrightarrow> f_le (f_of_nat limit) (Fin x)"
      using f_lt_le_total by blast
    then show "f_le (f_of_nat limit) (Fin x)"
      using assms(2) l a by (auto simp: fs_candidate_def Let_def split: if_splits)
  qed
qed

lemma filesystem_draft_ok:
  fixes env :: env
  defines "sid r \<equiv> stable_subject_id env ''filesystem'' (fs_mount r)"
  assumes "samples_of d run (ctx_host cx) (ctx_samples cx)" and "fs_ok r"
    and "df_status (filesystem_draft env cx d' r) = Ok"
  shows "\<exists>v s. observed_metric d run (ctx_host cx) ''disk_capacity'' ''filesystem'' (sid r) ''allocatable_used_ratio'' v s
        \<and> f_lt (Fin v) (fs_warning r) \<and> df_value (filesystem_draft env cx d' r) = Some (Fin v)
        \<and> smp_id s \<in> set (df_evidence (filesystem_draft env cx d' r))
        \<and> (case fs_critical_available r of None \<Rightarrow> True
           | Some limit \<Rightarrow> \<exists>w a. observed_metric d run (ctx_host cx) ''disk_capacity'' ''filesystem'' (sid r)
                ''available_bytes'' w a \<and> f_le (f_of_nat limit) (Fin w)
               \<and> smp_id a \<in> set (df_evidence (filesystem_draft env cx d' r)))"
proof -
  let ?s = "find_sample (ctx_samples cx) ''disk_capacity'' ''filesystem'' (sid r) ''allocatable_used_ratio''"
  let ?a = "find_sample (ctx_samples cx) ''disk_capacity'' ''filesystem'' (sid r) ''available_bytes''"
  let ?av = "case ?a of None \<Rightarrow> None | Some a \<Rightarrow> if observed_sample a then smp_value a else None"
  note D = filesystem_draft_def sid_def [symmetric] Let_def
  obtain s where s: "?s = Some s" using assms(4) by (cases ?s) (simp_all add: D)
  have o: "observed_sample s"
    using assms(4) by (rule contrapos_pp) (simp add: D s)
  obtain q where q: "smp_value s = Some (Fin q)"
    and m: "observed_metric d run (ctx_host cx) ''disk_capacity'' ''filesystem'' (sid r) ''allocatable_used_ratio'' q s"
    using found_observed [OF assms(2) s o] by blast
  have av: "fs_critical_available r = None \<or> ?av \<noteq> None"
    using assms(4) by (rule contrapos_pp) (auto simp: D s o)
  then have g: "\<not> (fs_critical_available r \<noteq> None \<and> ?av = None)" by (simp only: de_Morgan_conj not_not)
  have "fst (fs_candidate (Fin q) ?av r) = Ok \<or> snd (fs_candidate (Fin q) ?av r)"
    using assms(4) by (intro decided_ok) (simp only: D s o q g option.case if_True if_False option.sel)
  note below = fs_below_warning [OF assms(3) this]
  have e: "df_value (filesystem_draft env cx d' r) = Some (Fin q)"
    "set (df_evidence (filesystem_draft env cx d' r)) = insert (smp_id s) (smp_id ` set_option ?a)"
    using g by (simp_all only: D s o q option.case if_True if_False option.sel decided_draft_simps)
      (auto split: option.splits)
  have "\<exists>w a. observed_metric d run (ctx_host cx) ''disk_capacity'' ''filesystem'' (sid r) ''available_bytes'' w a
      \<and> f_le (f_of_nat limit) (Fin w) \<and> smp_id a \<in> set (df_evidence (filesystem_draft env cx d' r))"
    if limit: "fs_critical_available r = Some limit" for limit
  proof -
    obtain a where a: "?a = Some a" "observed_sample a" using av limit by (auto split: option.splits if_splits)
    obtain w where "smp_value a = Some (Fin w)"
      "observed_metric d run (ctx_host cx) ''disk_capacity'' ''filesystem'' (sid r) ''available_bytes'' w a"
      using found_observed [OF assms(2) a] by blast
    then show ?thesis using below(2) [OF limit] a by (intro exI [of _ w] exI [of _ a]) (simp add: e)
  qed
  then show ?thesis using m below(1) e
    by (intro exI [of _ q] exI [of _ s]) (auto split: option.splits)
qed

lemma condition_row_of:
  assumes "x \<in> set ds" and "df_requirement x = Required" and "df_status x = Ok" and "df_value x = Some v"
    and "set (map smp_id ss) \<subseteq> set (df_evidence x)"
  shows "ok_condition (condition_rows env e cids ds) (df_key x) v ss"
proof -
  obtain i where i: "i < length ds" "ds ! i = x" using assms(1) by (auto simp: in_set_conv_nth)
  then have "condition_of env e (cids i) x \<in> set (condition_rows env e cids ds)"
    by (auto simp: condition_rows_def)
  then show ?thesis unfolding ok_condition_def
    by (rule bexI [rotated]) (use assms in \<open>simp add: condition_of_def condition_status_name_iff\<close>)
qed

lemma build_drafts_evidenced:
  fixes env :: env and d' :: db
  defines "cs cx q e cids \<equiv> condition_rows env e cids (build_condition_drafts env cx d' q)"
  assumes "samples_of d run (ctx_host cx) (ctx_samples cx)" and "policy_valid q"
    and ok: "\<forall>x \<in> set (build_condition_drafts env cx d' q). df_requirement x = Required \<longrightarrow> df_status x = Ok"
  shows "rules_evidenced env d run (ctx_host cx) (cs cx q e cids) q"
proof -
  let ?ds = "build_condition_drafts env cx d' q"
  have rows: "ok_condition (cs cx q e cids) (df_key x) v ss"
    if "x \<in> set ?ds" "df_requirement x = Required" "df_value x = Some v" "set (map smp_id ss) \<subseteq> set (df_evidence x)"
    for x v ss
    unfolding cs_def using that ok by (intro condition_row_of) simp_all
  have "cpu_evidenced d run (ctx_host cx) (cs cx q e cids) r"
    if r: "pr_cpu_busy q = Some r" "cpu_requirement r = Required" for r
  proof -
    have x: "cpu_draft cx d' r \<in> set ?ds" "df_requirement (cpu_draft cx d' r) = Required"
      "df_key (cpu_draft cx d' r) = ''cpu_busy''"
      using r cpu_draft_facts [of cx d' r] by (simp_all add: build_condition_drafts_def)
    have "cpu_ok r" using assms(3) r by (simp add: policy_valid_def)
    from cpu_draft_ok [OF assms(2) this] ok x show ?thesis
      using rows [OF x(1,2), unfolded x(3)] unfolding cpu_evidenced_def by fastforce
  qed
  moreover have "memory_evidenced d run (ctx_host cx) (cs cx q e cids) r"
    if r: "pr_memory q = Some r" "low_requirement r = Required" for r
  proof -
    have x: "memory_draft cx d' r \<in> set ?ds" "df_requirement (memory_draft cx d' r) = Required"
      "df_key (memory_draft cx d' r) = ''memory_available_ratio''"
      using r memory_draft_facts [of cx d' r] by (simp_all add: build_condition_drafts_def)
    have v: "memory_ok r" using assms(3) r by (simp add: policy_valid_def)
    have s: "df_status (memory_draft cx d' r) = Ok" using ok x by blast
    obtain a t u y where f: "observed_metric d run (ctx_host cx) ''memory'' ''host'' (ctx_host cx) ''available_bytes'' u a"
        "observed_metric d run (ctx_host cx) ''memory'' ''host'' (ctx_host cx) ''total_bytes'' y t" "0 < y"
        "f_le (low_warning r) (f_div (Fin u) (Fin y))"
        "df_value (memory_draft cx d' r) = Some (f_div (Fin u) (Fin y))"
        "{smp_id a, smp_id t} \<subseteq> set (df_evidence (memory_draft cx d' r))"
      using memory_draft_ok [OF assms(2) v s] by blast
    have "ok_condition (cs cx q e cids) ''memory_available_ratio'' (f_div (Fin u) (Fin y)) [a, t]"
      using rows [OF x(1,2) f(5)] f(6) x(3) by simp
    then show ?thesis using f(1-4) unfolding memory_evidenced_def by blast
  qed
  moreover have "load_evidenced d run (ctx_host cx) (cs cx q e cids) r"
    if r: "pr_load5 q = Some r" "high_requirement r = Required" for r
  proof -
    have x: "load_draft cx d' r \<in> set ?ds" "df_requirement (load_draft cx d' r) = Required"
      "df_key (load_draft cx d' r) = ''normalized_load5''"
      using r load_draft_facts [of cx d' r] by (simp_all add: build_condition_drafts_def)
    have "load_ok r" using assms(3) r by (simp add: policy_valid_def)
    from load_draft_ok [OF assms(2) this] ok x show ?thesis
      using rows [OF x(1,2), unfolded x(3)] unfolding load_evidenced_def by fastforce
  qed
  moreover have "filesystem_evidenced env d run (ctx_host cx) (cs cx q e cids) r"
    if r: "r \<in> set (pr_filesystems q)" "fs_requirement r = Required" for r
  proof -
    have x: "filesystem_draft env cx d' r \<in> set ?ds" "df_requirement (filesystem_draft env cx d' r) = Required"
      "df_key (filesystem_draft env cx d' r) = fs_key env r"
      using r filesystem_draft_facts [of env cx d' r] by (simp_all add: build_condition_drafts_def)
    have v: "fs_ok r" using assms(3) r by (simp add: policy_valid_def list_all_iff)
    have s: "df_status (filesystem_draft env cx d' r) = Ok" using ok x by blast
    obtain u z where f: "observed_metric d run (ctx_host cx) ''disk_capacity'' ''filesystem''
          (stable_subject_id env ''filesystem'' (fs_mount r)) ''allocatable_used_ratio'' u z"
        "f_lt (Fin u) (fs_warning r)" "df_value (filesystem_draft env cx d' r) = Some (Fin u)"
        "smp_id z \<in> set (df_evidence (filesystem_draft env cx d' r))"
        "case fs_critical_available r of None \<Rightarrow> True
           | Some limit \<Rightarrow> \<exists>w a. observed_metric d run (ctx_host cx) ''disk_capacity'' ''filesystem''
                (stable_subject_id env ''filesystem'' (fs_mount r)) ''available_bytes'' w a \<and> f_le (f_of_nat limit) (Fin w)
               \<and> smp_id a \<in> set (df_evidence (filesystem_draft env cx d' r))"
      using filesystem_draft_ok [OF assms(2) v s] by blast
    have k: "ok_condition (cs cx q e cids) (fs_key env r) (Fin u) ss"
      if "set (map smp_id ss) \<subseteq> set (df_evidence (filesystem_draft env cx d' r))" for ss
      using rows [OF x(1,2) f(3) that] x(3) by simp
    have limit: "case fs_critical_available r of None \<Rightarrow> True
        | Some limit \<Rightarrow> \<exists>w a. observed_metric d run (ctx_host cx) ''disk_capacity'' ''filesystem''
               (stable_subject_id env ''filesystem'' (fs_mount r)) ''available_bytes'' w a
             \<and> f_le (f_of_nat limit) (Fin w) \<and> ok_condition (cs cx q e cids) (fs_key env r) (Fin u) [z, a]"
    proof (cases "fs_critical_available r")
      case (Some limit)
      then obtain w a where w: "observed_metric d run (ctx_host cx) ''disk_capacity'' ''filesystem''
            (stable_subject_id env ''filesystem'' (fs_mount r)) ''available_bytes'' w a"
          "f_le (f_of_nat limit) (Fin w)" "smp_id a \<in> set (df_evidence (filesystem_draft env cx d' r))"
        using f(5) by auto
      then have "ok_condition (cs cx q e cids) (fs_key env r) (Fin u) [z, a]" using f(4) by (intro k) simp
      with w Some show ?thesis by auto
    qed simp
    show ?thesis unfolding filesystem_evidenced_def
      by (rule exI [of _ u], rule exI [of _ z], intro conjI) (use f(1,2,4) k [of "[z]"] limit in simp_all)
  qed
  ultimately show ?thesis
    unfolding rules_evidenced_def
    by (cases "pr_cpu_busy q"; cases "pr_memory q"; cases "pr_load5 q") (simp_all add: list_all_iff)
qed

text \<open>
  C8. A healthy receipt rests on observed evidence. When the stored policies are readable and valid, as
  \<open>put_policy\<close> writes them, a run is judged healthy only if it succeeded at least in part, its policy is enabled
  and has a required rule, and for each of its required rules there is a sample of this run and host with quality
  \<open>observed\<close> and a finite value under the metric of the rule, which the condition cites and reports and which
  does not reach the warning threshold: two samples for the memory ratio, an interval of at least the minimum
  window for the processor, and an observed number of free bytes where a filesystem rule limits it.
\<close>

theorem healthy_evidence_observed:
  assumes "\<forall>e \<in> set (evaluations d). evl_run e \<noteq> run"
    and "\<forall>p \<in> set (policies d). pol_enabled p = pr_enabled (policy_config p) \<and> policy_valid (policy_config p)"
    and "evaluate_run_tx env run host timing eid cids d = Inr d'"
  shows "\<exists>e cs. d' = d\<lparr>evaluations := evaluations d @ [e], conditions := conditions d @ cs\<rparr>
      \<and> (evl_status e = Healthy \<longrightarrow>
           (\<exists>r p. r \<in> set (runs d) \<and> run_id r = run \<and> run_host r = host
              \<and> (run_status r = Succeeded \<or> run_status r = Partial)
              \<and> run_policy r d = Some p \<and> pol_enabled p \<and> has_required (policy_config p)
              \<and> rules_evidenced env d run host cs (policy_config p)))"
proof (rule evaluate_run_tx_Inr [OF assms(3,1)], goal_cases)
  case (1 r tm)
  let ?ds = "evaluation_drafts env r tm d"
  let ?e = "evaluation_of env r tm eid d"
  let ?cs = "condition_rows env ?e cids ?ds"
  have "\<exists>p. (run_status r = Succeeded \<or> run_status r = Partial)
              \<and> run_policy r d = Some p \<and> pol_enabled p \<and> has_required (policy_config p)
              \<and> rules_evidenced env d run host ?cs (policy_config p)"
    if h: "evl_status ?e = Healthy"
  proof -
    have en: "policy_enabled (run_policy r d)"
      and ok: "\<forall>x \<in> set ?ds. df_requirement x = Required \<longrightarrow> df_status x = Ok"
    proof -
      show "policy_enabled (run_policy r d)" using h by (auto simp: evaluation_status_def split: if_splits)
      show "\<forall>x \<in> set ?ds. df_requirement x = Required \<longrightarrow> df_status x = Ok"
      proof (intro ballI impI)
        fix x assume "x \<in> set ?ds" "df_requirement x = Required"
        then have "df_status x \<noteq> Critical \<and> \<not> is_unknown (df_status x) \<and> df_status x \<noteq> Warning"
          using h by (auto simp: evaluation_status_def split: if_splits)
        then show "df_status x = Ok" by (cases "df_status x") auto
      qed
    qed
    obtain p where p: "run_policy r d = Some p" "pol_enabled p"
      using en by (auto simp: policy_enabled_def split: option.splits)
    have "p \<in> set (policies d)"
      using p(1) by (auto simp: run_policy_def split: option.splits dest: select_one_Some)
    then have v: "policy_valid (policy_config p)" "has_required (policy_config p)"
      using assms(2) p(2) by (auto simp: policy_valid_def)
    define cx where "cx = \<lparr>ctx_host = run_host r, ctx_version = pol_version_id p,
              ctx_continuity = timestamp_ms (case tm_observed_at tm of None \<Rightarrow> tm_evaluated_at tm | Some o' \<Rightarrow> o'),
              ctx_missed = 0 < run_missed_count r, ctx_samples = evaluation_samples r d\<rparr>"
    have cx: "ctx_host cx = host" "ctx_samples cx = evaluation_samples r d"
      and ds: "?ds = build_condition_drafts env cx d (policy_config p)"
      using p 1(3) by (simp_all add: cx_def evaluation_drafts_def)
    have "samples_of d run (ctx_host cx) (ctx_samples cx)"
      using 1(2,3) by (auto simp: samples_of_def cx evaluation_samples_def load_samples_def)
    from build_drafts_evidenced [OF this v(1) ok [unfolded ds], of ?e cids]
    have rules: "rules_evidenced env d run host ?cs (policy_config p)" by (simp add: cx ds)
    obtain x where x: "x \<in> set ?ds" "df_requirement x = Required"
    proof -
      have "Required \<in> set (map df_requirement ?ds)"
        using v(2) by (simp only: has_required_requirements ds build_condition_drafts_shape)
      then show thesis using that by auto
    qed
    have "run_observed r"
    proof (rule ccontr)
      assume "\<not> run_observed r"
      then have "grounded [] x" using evaluation_drafts_grounded [OF x(1)] by (simp add: evaluation_samples_def)
      then show False using ok x by (auto dest: grounded_Nil)
    qed
    then show ?thesis using p v(2) rules by (auto simp: run_observed_def)
  qed
  then show ?case
    using 1 select_one_Some [OF 1(1)] by (intro exI [of _ ?e] exI [of _ ?cs] conjI impI) (simp, blast)
qed

theorem healthy_evidence_observed_witness:
  "\<exists>d' cs. sample_evaluation Succeeded (Some sample_policy) = Inr d' \<and> conditions d' = cs
     \<and> map evl_status (evaluations d') = [Healthy]
     \<and> rules_evidenced sample_env (sample_eval_db Succeeded (Some sample_policy)) ''r'' ''h'' cs sample_policy"
proof -
  let ?d = "sample_eval_db Succeeded (Some sample_policy)"
  obtain d' where d': "sample_evaluation Succeeded (Some sample_policy) = Inr d'"
    using sample_evaluation_defined by blast
  have ps: "policies ?d = [sample_policy_row (Some sample_policy)]"
    "policy_config (sample_policy_row (Some sample_policy)) = sample_policy"
    "pol_enabled (sample_policy_row (Some sample_policy))"
    by (simp_all add: sample_eval_db_def sample_policy_row_def policy_config_def)
  have "pr_enabled sample_policy" by (simp add: sample_policy_def)
  then have v: "\<forall>p \<in> set (policies ?d). pol_enabled p = pr_enabled (policy_config p) \<and> policy_valid (policy_config p)"
    using sample_policy_valid by (simp add: ps)
  obtain e cs where e: "d' = ?d\<lparr>evaluations := evaluations ?d @ [e], conditions := conditions ?d @ cs\<rparr>"
    and h: "evl_status e = Healthy \<longrightarrow> (\<exists>r p. r \<in> set (runs ?d) \<and> run_policy r ?d = Some p
              \<and> rules_evidenced sample_env ?d ''r'' ''h'' cs (policy_config p))"
    using healthy_evidence_observed [OF sample_no_receipt v d' [unfolded sample_evaluation_def]] by blast
  have ev: "evaluations d' = [e]" "conditions d' = cs" using e by (simp_all add: sample_db_empty)
  have "evl_status e = Healthy"
  proof (rule evaluate_run_tx_Inr [OF d' [unfolded sample_evaluation_def] sample_no_receipt], goal_cases)
    case (1 r tm)
    then have "evaluations d' = [evaluation_of sample_env r tm ''e'' ?d]" by (simp add: sample_db_empty)
    with ev have "e = evaluation_of sample_env r tm ''e'' ?d" by simp
    moreover have "r = sample_run Succeeded" using 1(1) by (simp add: sample_selects)
    ultimately show ?case using 1(4) by (simp add: sample_evaluation_healthy)
  qed
  with h obtain r p where r: "r \<in> set (runs ?d)" "run_policy r ?d = Some p"
      "rules_evidenced sample_env ?d ''r'' ''h'' cs (policy_config p)"
    by blast
  have "r = sample_run Succeeded" using r(1) by (simp add: sample_db_empty)
  then have "policy_config p = sample_policy" using r(2) ps(2) by (simp add: sample_run_policy)
  with r(3) \<open>evl_status e = Healthy\<close> d' ev show ?thesis
    by (intro exI [of _ d'] exI [of _ cs]) simp
qed

end
