(* ===== verification/Events.thy ===== *)
theory Events
  imports Store Http
begin

text \<open>
  \<open>backend/src/events.rs\<close>: the change-event log and the server-sent event stream that follows it.

  \<open>publish_in_transaction\<close> appends one event under the next value of the autoincrement sequence and
  trims the log to the newest \<open>event_retention\<close> cursors. A stream remembers the cursor of the last
  event it sent; opening it compares the client's cursor with the oldest retained one and starts
  with a reset when events were lost, each poll sends at most \<open>event_batch\<close> later events. The
  timers are not modelled: a run of a stream is a sequence of polls, with any publications between them
  (\<open>follow_stream\<close>).
\<close>

definition workspace_id :: string where
  "workspace_id = ''workspace-default''"

definition event_retention :: int where
  "event_retention = 2000"

definition event_batch :: nat where
  "event_batch = 100"

datatype change_event_kind =
    HostConnectionChanged | DiscoveryRunChanged | ProjectionChanged | OnboardingChanged
  | ProjectAgentChanged | MonitorScheduleChanged | MonitorRunChanged

fun event_kind_str :: "change_event_kind \<Rightarrow> string" where
  "event_kind_str HostConnectionChanged = ''host.connection.changed''"
| "event_kind_str DiscoveryRunChanged = ''discovery.run.changed''"
| "event_kind_str ProjectionChanged = ''projection.changed''"
| "event_kind_str OnboardingChanged = ''onboarding.changed''"
| "event_kind_str ProjectAgentChanged = ''project_agent.changed''"
| "event_kind_str MonitorScheduleChanged = ''monitor.schedule.changed''"
| "event_kind_str MonitorRunChanged = ''monitor.run.changed''"

subsection \<open>Publishing\<close>

definition max_cursor :: "event_row list \<Rightarrow> int" where
  "max_cursor es = (if es = [] then 0 else Max (set (map ev_cursor es)))"

definition own_events :: "db \<Rightarrow> event_row list" where
  "own_events d = filter (\<lambda>e. ev_workspace e = workspace_id) (events d)"

text \<open>The clock value \<open>now\<close> and the database are the arguments; the new cursor is returned.\<close>

definition publish_in_transaction ::
  "change_event_kind \<Rightarrow> string \<Rightarrow> int \<Rightarrow> json \<Rightarrow> secs \<Rightarrow> db \<Rightarrow> int \<times> db" where
  "publish_in_transaction kind subject revision summary now d =
     (let cursor = event_seq d + 1;
          row = \<lparr>ev_cursor = cursor, ev_workspace = workspace_id, ev_kind = event_kind_str kind,
                 ev_subject = take 512 subject, ev_revision = revision, ev_summary = summary,
                 ev_committed_at = now\<rparr>;
          inserted = d\<lparr>events := events d @ [row], event_seq := cursor\<rparr>;
          bound = max_cursor (own_events inserted) - event_retention
      in (cursor,
          inserted\<lparr>events := filter (\<lambda>e. \<not> (ev_workspace e = workspace_id \<and> ev_cursor e \<le> bound))
                               (events inserted)\<rparr>))"

definition publish ::
  "change_event_kind \<Rightarrow> string \<Rightarrow> int \<Rightarrow> json \<Rightarrow> secs \<Rightarrow> db \<Rightarrow> db" where
  "publish kind subject revision summary now d =
     snd (publish_in_transaction kind subject revision summary now d)"

subsection \<open>Which requests announce a change\<close>

datatype http_method = GET | HEAD | OPTIONS | POST | PUT | PATCH | DELETE

fun is_prefix :: "string \<Rightarrow> string \<Rightarrow> bool" where
  "is_prefix [] s = True"
| "is_prefix (p # ps) [] = False"
| "is_prefix (p # ps) (c # cs) = (p = c \<and> is_prefix ps cs)"

fun contains :: "string \<Rightarrow> string \<Rightarrow> bool" where
  "contains p [] = (p = [])"
| "contains p (c # cs) = (is_prefix p (c # cs) \<or> contains p cs)"

definition ends_with :: "string \<Rightarrow> string \<Rightarrow> bool" where
  "ends_with p s = is_prefix (rev p) (rev s)"

definition event_kind_for_request :: "http_method \<Rightarrow> string \<Rightarrow> change_event_kind option" where
  "event_kind_for_request m path =
     (if m \<in> {GET, HEAD, OPTIONS} \<or> contains ''/auth/'' path \<or> contains ''/exports/'' path then None
      else if contains ''discovery-runs'' path then Some DiscoveryRunChanged
      else if contains ''project-agents'' path \<or> ends_with ''/agent'' path then Some ProjectAgentChanged
      else if contains ''technical-projects'' path \<or> contains ''project-targets'' path
           \<or> contains ''deployment-candidates'' path \<or> contains ''/deployments/'' path
      then Some ProjectionChanged
      else if contains ''monitor-schedules'' path \<or> contains ''monitor-runs'' path then None
      else if contains ''connection-tests'' path \<or> contains ''host-key-confirmations'' path
           \<or> ends_with ''/hosts'' path
           \<or> (m = PATCH \<and> contains ''/hosts/'' path) \<or> (m = DELETE \<and> contains ''/hosts/'' path)
      then Some HostConnectionChanged
      else if contains ''projection-drafts'' path \<or> contains ''layouts'' path
           \<or> contains ''ignore-rules'' path \<or> contains ''/projects/'' path \<or> ends_with ''/workspace'' path
      then Some ProjectionChanged
      else if contains ''onboarding'' path \<or> contains ''model-provider'' path then Some OnboardingChanged
      else None)"

subsection \<open>The stream\<close>

datatype event_error = InvalidCursor

definition last_event_id :: "headers \<Rightarrow> event_error + int" where
  "last_event_id h =
     (case h ''last-event-id'' of
        None \<Rightarrow> Inr 0
      | Some Opaque \<Rightarrow> Inl InvalidCursor
      | Some (Text v) \<Rightarrow>
          (case parse_i64 v of
             None \<Rightarrow> Inl InvalidCursor
           | Some n \<Rightarrow> if 0 \<le> n then Inr n else Inl InvalidCursor))"

definition cursor_bounds :: "db \<Rightarrow> int option \<times> int option" where
  "cursor_bounds d =
     (let cs = map ev_cursor (own_events d)
      in if cs = [] then (None, None) else (Some (Min (set cs)), Some (Max (set cs))))"

definition load_after :: "int \<Rightarrow> db \<Rightarrow> event_row list" where
  "load_after c d =
     take event_batch (sort_key ev_cursor (filter (\<lambda>e. c < ev_cursor e) (own_events d)))"

datatype sse = StreamReset int | ChangeEvent event_row

record stream_state =
  st_cursor :: int
  st_open :: bool

text \<open>Opening: the cursor expired when an event after it is no longer retained.\<close>

definition cursor_expired :: "int \<Rightarrow> db \<Rightarrow> bool" where
  "cursor_expired requested d =
     (0 < requested
      \<and> (case fst (cursor_bounds d) of None \<Rightarrow> False | Some mn \<Rightarrow> requested < sat64 (mn - 1)))"

definition stream_open :: "int \<Rightarrow> db \<Rightarrow> sse list \<times> stream_state" where
  "stream_open requested d =
     (if cursor_expired requested d
      then (let c = (case snd (cursor_bounds d) of None \<Rightarrow> requested | Some mx \<Rightarrow> mx)
            in ([StreamReset c], \<lparr>st_cursor = c, st_open = True\<rparr>))
      else ([], \<lparr>st_cursor = requested, st_open = True\<rparr>))"

text \<open>
  One poll. \<open>active\<close> is the result of revalidating the owner session (always true when the request
  carries none), \<open>shutdown\<close> the application's shutdown flag, which is read before every wait.
\<close>

definition stream_poll :: "bool \<Rightarrow> bool \<Rightarrow> db \<Rightarrow> stream_state \<Rightarrow> sse list \<times> stream_state" where
  "stream_poll active shutdown d st =
     (if \<not> st_open st then ([], st)
      else if shutdown \<or> \<not> active then ([], st\<lparr>st_open := False\<rparr>)
      else (let es = load_after (st_cursor st) d
            in (map ChangeEvent es,
                st\<lparr>st_cursor := (if es = [] then st_cursor st else ev_cursor (last es))\<rparr>)))"

fun stream_polls :: "nat \<Rightarrow> db \<Rightarrow> stream_state \<Rightarrow> sse list \<times> stream_state" where
  "stream_polls 0 d st = ([], st)"
| "stream_polls (Suc n) d st =
     (let (out, st') = stream_poll True False d st;
          (outs, st'') = stream_polls n d st'
      in (out @ outs, st''))"

subsection \<open>The log is a window of consecutive cursors\<close>

text \<open>
  The representation invariant: the retained cursors are consecutive, end at the sequence value, are
  at most \<open>event_retention\<close> many and all belong to the one workspace.
\<close>

definition events_wf :: "db \<Rightarrow> bool" where
  "events_wf d =
     (map ev_cursor (events d) = [event_seq d - int (length (events d)) + 1 .. event_seq d]
      \<and> int (length (events d)) \<le> event_retention
      \<and> int (length (events d)) \<le> event_seq d
      \<and> list_all (\<lambda>e. ev_workspace e = workspace_id) (events d))"

text \<open>The oldest cursor still retained (one past the newest when the log is empty).\<close>

definition oldest :: "db \<Rightarrow> int" where
  "oldest d = event_seq d - int (length (events d)) + 1"

lemma filter_less_upto: "filter (\<lambda>x. b < x) [i..j] = [max i (b + 1)..j]"
proof (rule sorted_distinct_set_unique)
  show "sorted (filter (\<lambda>x. b < x) [i..j])" and "distinct (filter (\<lambda>x. b < x) [i..j])"
    by (simp_all add: sorted_wrt_filter)
  show "sorted [max i (b + 1)..j]" and "distinct [max i (b + 1)..j]" by simp_all
  show "set (filter (\<lambda>x. b < x) [i..j]) = set [max i (b + 1)..j]" by auto
qed

lemma map_cursor_filter:
  "map ev_cursor (filter (\<lambda>e. b < ev_cursor e) es) = filter (\<lambda>x. b < x) (map ev_cursor es)"
  by (induction es) auto

lemma own_events_wf [simp]: "events_wf d \<Longrightarrow> own_events d = events d"
  by (simp add: events_wf_def own_events_def list_all_iff filter_id_conv)

lemma events_wf_cursors: "events_wf d \<Longrightarrow> map ev_cursor (events d) = [oldest d .. event_seq d]"
  by (simp add: events_wf_def oldest_def)

lemma oldest_pos: "events_wf d \<Longrightarrow> 1 \<le> oldest d \<and> oldest d \<le> event_seq d + 1"
  by (simp add: events_wf_def oldest_def)

lemma publish_in_transaction_cursor:
  "fst (publish_in_transaction k sub r s t d) = event_seq d + 1"
  by (simp add: publish_in_transaction_def Let_def)

lemma event_seq_publish [simp]: "event_seq (publish k sub r s t d) = event_seq d + 1"
  by (simp add: publish_def publish_in_transaction_def Let_def)

lemma publish_frame:
  "publish k sub r s t d = d\<lparr>events := events (publish k sub r s t d), event_seq := event_seq d + 1\<rparr>"
  by (simp add: publish_def publish_in_transaction_def Let_def)

lemma publish_frame_simps [simp]:
  "hosts (publish k sub r s t d) = hosts d"
  "schedules (publish k sub r s t d) = schedules d"
  "versions (publish k sub r s t d) = versions d"
  "runs (publish k sub r s t d) = runs d"
  "discoveries (publish k sub r s t d) = discoveries d"
  "policies (publish k sub r s t d) = policies d"
  "samples (publish k sub r s t d) = samples d"
  "evaluations (publish k sub r s t d) = evaluations d"
  "conditions (publish k sub r s t d) = conditions d"
  "currents (publish k sub r s t d) = currents d"
  by (simp_all add: publish_def publish_in_transaction_def Let_def)

lemma publish_events:
  assumes "events_wf d"
  obtains row where "ev_cursor row = event_seq d + 1" and "ev_workspace row = workspace_id"
    and "ev_kind row = event_kind_str k" and "ev_subject row = take 512 sub"
    and "events (publish k sub r s t d) =
           filter (\<lambda>e. event_seq d + 1 - event_retention < ev_cursor e) (events d @ [row])"
proof -
  define row where "row = \<lparr>ev_cursor = event_seq d + 1, ev_workspace = workspace_id,
    ev_kind = event_kind_str k, ev_subject = take 512 sub, ev_revision = r, ev_summary = s,
    ev_committed_at = t\<rparr>"
  have ws: "\<forall>e \<in> set (events d @ [row]). ev_workspace e = workspace_id"
    using assms by (auto simp: events_wf_def list_all_iff row_def)
  then have own: "filter (\<lambda>e. ev_workspace e = workspace_id) (events d @ [row]) = events d @ [row]"
    by (simp add: filter_id_conv)
  have cs: "map ev_cursor (events d @ [row]) = [oldest d .. event_seq d] @ [event_seq d + 1]"
    using events_wf_cursors [OF assms] by (simp add: row_def)
  have mx: "max_cursor (events d @ [row]) = event_seq d + 1"
  proof -
    have "Max (set (map ev_cursor (events d @ [row]))) = event_seq d + 1"
      unfolding cs by (intro Max_eqI) auto
    then show ?thesis by (simp add: max_cursor_def)
  qed
  have "events (publish k sub r s t d) =
          filter (\<lambda>e. \<not> (ev_workspace e = workspace_id
                      \<and> ev_cursor e \<le> max_cursor (filter (\<lambda>e. ev_workspace e = workspace_id)
                                                     (events d @ [row])) - event_retention))
            (events d @ [row])"
    by (simp add: publish_def publish_in_transaction_def Let_def row_def own_events_def)
  also have "\<dots> = filter (\<lambda>e. event_seq d + 1 - event_retention < ev_cursor e) (events d @ [row])"
    unfolding own mx using ws by (intro filter_cong) (auto simp: not_le)
  finally show thesis using that [of row] by (simp add: row_def)
qed

lemma publish_cursors:
  assumes "events_wf d"
  shows "map ev_cursor (events (publish k sub r s t d)) =
           [max (oldest d) (event_seq d + 2 - event_retention) .. event_seq d + 1]"
proof -
  obtain row where row: "ev_cursor row = event_seq d + 1"
    and es: "events (publish k sub r s t d) =
           filter (\<lambda>e. event_seq d + 1 - event_retention < ev_cursor e) (events d @ [row])"
    by (rule publish_events [OF assms])
  have "map ev_cursor (events d @ [row]) = [oldest d .. event_seq d + 1]"
    using events_wf_cursors [OF assms] oldest_pos [OF assms] row
    by (simp add: upto_rec2 [of "oldest d" "event_seq d + 1"])
  then have "map ev_cursor (events (publish k sub r s t d))
      = [max (oldest d) (event_seq d + 1 - event_retention + 1) .. event_seq d + 1]"
    by (simp only: es map_cursor_filter filter_less_upto)
  moreover have "event_seq d + 1 - event_retention + 1 = event_seq d + 2 - event_retention" by simp
  ultimately show ?thesis by (simp only:)
qed

lemma length_upto_window:
  assumes "map f xs = [i..j]" and "i \<le> j + 1"
  shows "int (length xs) = j - i + 1"
  using assms by (metis add.commute diff_add_eq length_map length_upto nat_0_le diff_ge_0_iff_ge
      add_diff_eq)

lemma publish_wf:
  assumes "events_wf d"
  shows "events_wf (publish k sub r s t d)"
    and "oldest (publish k sub r s t d) = max (oldest d) (event_seq d + 2 - event_retention)"
proof -
  let ?d = "publish k sub r s t d"
  let ?lo = "max (oldest d) (event_seq d + 2 - event_retention)"
  have cs: "map ev_cursor (events ?d) = [?lo .. event_seq d + 1]"
    by (rule publish_cursors [OF assms])
  have le: "?lo \<le> (event_seq d + 1) + 1" using oldest_pos [OF assms] by (simp add: event_retention_def)
  have len: "int (length (events ?d)) = (event_seq d + 1) - ?lo + 1"
    by (rule length_upto_window [OF cs le])
  have ws: "list_all (\<lambda>e. ev_workspace e = workspace_id) (events ?d)"
    by (rule publish_events [OF assms, where k = k and sub = sub and r = r and s = s and t = t])
      (use assms in \<open>auto simp: events_wf_def list_all_iff\<close>)
  have eq: "event_seq d + 1 - int (length (events ?d)) + 1 = ?lo" using len by simp
  show "oldest ?d = ?lo" using eq by (simp only: oldest_def [of ?d] event_seq_publish)
  show "events_wf ?d"
    unfolding events_wf_def event_seq_publish eq cs
    using len ws oldest_pos [OF assms] by (auto simp: event_retention_def)
qed

text \<open>
  The interface the streams rely on: appending advances the sequence by one, keeps the invariant
  and drops nothing newer than the retention window.
\<close>

locale windowed_log =
  fixes append :: "'a \<Rightarrow> 's \<Rightarrow> 's" and seq :: "'s \<Rightarrow> int" and low :: "'s \<Rightarrow> int"
    and invar :: "'s \<Rightarrow> bool" and window :: int
  assumes low_window: "invar s \<Longrightarrow> seq s + 1 - window \<le> low s"
    and seq_append: "seq (append a s) = seq s + 1"
    and invar_append: "invar s \<Longrightarrow> invar (append a s)"
    and low_append: "invar s \<Longrightarrow> low (append a s) = max (low s) (seq s + 2 - window)"
begin

lemma seq_fold: "seq (fold append as s) = seq s + int (length as)"
  by (induction as arbitrary: s) (simp_all add: seq_append)

lemma invar_fold: "invar s \<Longrightarrow> invar (fold append as s)"
  by (induction as arbitrary: s) (simp_all add: invar_append)

lemma low_fold:
  "invar s \<Longrightarrow> low (fold append as s) = max (low s) (seq s + int (length as) + 1 - window)"
proof (induction as arbitrary: s)
  case Nil
  then show ?case using low_window [of s] by simp
next
  case (Cons a as)
  have "low (fold append as (append a s))
          = max (low (append a s)) (seq (append a s) + int (length as) + 1 - window)"
    using Cons.prems by (intro Cons.IH invar_append)
  then show ?case using Cons.prems by (simp add: low_append seq_append)
qed

end

type_synonym publication = "change_event_kind \<times> string \<times> int \<times> json \<times> secs"

fun publish_event :: "publication \<Rightarrow> db \<Rightarrow> db" where
  "publish_event (k, sub, r, s, t) d = publish k sub r s t d"

interpretation change_log: windowed_log publish_event event_seq oldest events_wf event_retention
proof
  fix a :: publication and d :: db
  obtain k sub r s t where a: "a = (k, sub, r, s, t)" by (cases a) auto
  show "events_wf d \<Longrightarrow> event_seq d + 1 - event_retention \<le> oldest d"
    by (simp add: events_wf_def oldest_def)
  show "event_seq (publish_event a d) = event_seq d + 1" by (simp add: a)
  show "events_wf d \<Longrightarrow> events_wf (publish_event a d)" by (simp add: a publish_wf)
  show "events_wf d \<Longrightarrow>
      oldest (publish_event a d) = max (oldest d) (event_seq d + 2 - event_retention)"
    by (simp add: a publish_wf)
qed

subsection \<open>What a stream delivers\<close>

definition pending :: "int \<Rightarrow> db \<Rightarrow> event_row list" where
  "pending c d = filter (\<lambda>e. c < ev_cursor e) (events d)"

lemma pending_cursors:
  assumes "events_wf d"
  shows "map ev_cursor (pending c d) = [max (oldest d) (c + 1) .. event_seq d]"
  unfolding pending_def map_cursor_filter events_wf_cursors [OF assms] by (rule filter_less_upto)

lemma sorted_wrt_less_upto: "sorted_wrt (<) [i..j::int]"
  by (simp add: sorted_wrt_iff_nth_less)

lemma load_after_pending:
  assumes "events_wf d"
  shows "load_after c d = take event_batch (pending c d)"
proof -
  have "sorted (map ev_cursor (pending c d))" by (simp add: pending_cursors [OF assms])
  then show ?thesis
    using assms by (simp add: load_after_def pending_def sort_key_id_if_sorted)
qed

lemma filter_after_last_take:
  assumes "sorted_wrt (<) (map k xs)" and "xs \<noteq> []" and "0 < n"
  shows "filter (\<lambda>e. (k (last (take n xs)) :: int) < k e) xs = drop n xs"
proof -
  let ?l = "k (last (take n xs))"
  have ne: "take n xs \<noteq> []" using assms(2,3) by simp
  have srt: "sorted_wrt (<) (map k (take n xs) @ map k (drop n xs))"
    using assms(1) by (simp flip: map_append)
  have mem: "?l \<in> set (map k (take n xs))" using last_in_set [OF ne] by simp
  have "sorted_wrt (<) (map k (butlast (take n xs) @ [last (take n xs)]))"
    using srt ne by (simp add: sorted_wrt_append del: map_append)
  then have "\<forall>x \<in> set (butlast (take n xs)). k x < ?l" by (simp add: sorted_wrt_append)
  then have "\<forall>x \<in> set (take n xs). \<not> ?l < k x"
    using ne by (metis (no_types, lifting) append_butlast_last_id in_set_conv_decomp less_irrefl
        less_asym rotate1.simps(2) set_ConsD set_rotate1)
  then have "filter (\<lambda>e. ?l < k e) (take n xs) = []" by (simp add: filter_empty_conv)
  moreover have "filter (\<lambda>e. ?l < k e) (drop n xs) = drop n xs"
    using srt mem by (auto simp: sorted_wrt_append filter_id_conv)
  moreover have "filter (\<lambda>e. ?l < k e) xs
      = filter (\<lambda>e. ?l < k e) (take n xs) @ filter (\<lambda>e. ?l < k e) (drop n xs)"
    by (simp flip: filter_append)
  ultimately show ?thesis by simp
qed

lemma pending_trans:
  assumes "c < l"
  shows "filter (\<lambda>e. l < ev_cursor e) (pending c d) = pending l d"
  unfolding pending_def filter_filter by (rule filter_cong) (use assms in auto)

lemma pending_step:
  assumes "events_wf d" and "pending c d \<noteq> []"
  shows "pending (ev_cursor (last (take event_batch (pending c d)))) d = drop event_batch (pending c d)"
proof -
  let ?l = "last (take event_batch (pending c d))"
  have "sorted_wrt (<) (map ev_cursor (pending c d))"
    unfolding pending_cursors [OF assms(1)] by (rule sorted_wrt_less_upto)
  then have "filter (\<lambda>e. ev_cursor ?l < ev_cursor e) (pending c d) = drop event_batch (pending c d)"
    by (rule filter_after_last_take [OF _ assms(2)]) (simp add: event_batch_def)
  moreover have later: "c < ev_cursor ?l"
  proof -
    have "?l \<in> set (take event_batch (pending c d))"
      using assms(2) by (intro last_in_set) (simp add: event_batch_def)
    then have "?l \<in> set (pending c d)" by (rule in_set_takeD)
    then show ?thesis by (simp add: pending_def)
  qed
  moreover have "filter (\<lambda>e. ev_cursor ?l < ev_cursor e) (pending c d) = pending (ev_cursor ?l) d"
    by (rule pending_trans [OF later])
  ultimately show ?thesis by simp
qed

lemma stream_polls_pending:
  assumes "events_wf d"
  shows "fst (stream_polls n d \<lparr>st_cursor = c, st_open = True\<rparr>)
           = map ChangeEvent (take (n * event_batch) (pending c d))"
proof (induction n arbitrary: c)
  case 0
  then show ?case by simp
next
  case (Suc n)
  let ?st = "\<lparr>st_cursor = c, st_open = True\<rparr>"
  let ?es = "take event_batch (pending c d)"
  show ?case
  proof (cases "pending c d = []")
    case True
    then have "stream_poll True False d ?st = ([], ?st)"
      by (simp add: stream_poll_def load_after_pending [OF assms] Let_def)
    with Suc [of c] True show ?thesis by (simp split: prod.splits)
  next
    case False
    then have ne: "?es \<noteq> []" by (simp add: event_batch_def)
    have "stream_poll True False d ?st
        = (map ChangeEvent ?es, \<lparr>st_cursor = ev_cursor (last ?es), st_open = True\<rparr>)"
      using ne by (simp add: stream_poll_def load_after_pending [OF assms] Let_def)
    then have "fst (stream_polls (Suc n) d ?st)
        = map ChangeEvent ?es @ map ChangeEvent (take (n * event_batch) (drop event_batch (pending c d)))"
      using Suc [of "ev_cursor (last ?es)"] pending_step [OF assms False]
      by (simp split: prod.splits) (metis fst_conv)
    also have "\<dots> = map ChangeEvent (take (Suc n * event_batch) (pending c d))"
      by (simp add: take_add flip: map_append)
    finally show ?thesis .
  qed
qed

lemma cursor_bounds_wf:
  assumes "events_wf d" and "events d \<noteq> []"
  shows "cursor_bounds d = (Some (oldest d), Some (event_seq d))"
proof -
  have cs: "map ev_cursor (own_events d) = [oldest d .. event_seq d]"
    using events_wf_cursors [OF assms(1)] assms(1) by simp
  have le: "oldest d \<le> event_seq d" using assms(2) cs assms(1)
    by (metis Nil_is_map_conv linorder_not_le own_events_wf upto_Nil2)
  have "Min (set (map ev_cursor (own_events d))) = oldest d" unfolding cs
    using le by (intro Min_eqI) auto
  moreover have "Max (set (map ev_cursor (own_events d))) = event_seq d" unfolding cs
    using le by (intro Max_eqI) auto
  ultimately show ?thesis using assms by (simp add: cursor_bounds_def Let_def)
qed

lemma cursor_expired_wf:
  assumes "events_wf d" and "events d \<noteq> []" and "event_seq d \<le> i64_max"
  shows "cursor_expired c d \<longleftrightarrow> 0 < c \<and> c < oldest d - 1"
proof -
  have "oldest d \<le> event_seq d + 1" "1 \<le> oldest d" using oldest_pos [OF assms(1)] by auto
  then have "sat64 (oldest d - 1) = oldest d - 1"
    using assms(3) by (intro sat64_id) (auto simp: i64_min_def)
  then show ?thesis by (simp add: cursor_expired_def cursor_bounds_wf [OF assms(1,2)])
qed

lemma oldest_fold:
  assumes "events_wf d"
  shows "oldest (fold publish_event ps d)
           = max (oldest d) (event_seq d + int (length ps) + 1 - event_retention)"
  by (rule change_log.low_fold [OF assms])

lemma stream_polls_quiet:
  assumes "events_wf d" and "event_seq d \<le> c"
  shows "fst (stream_polls n d \<lparr>st_cursor = c, st_open = True\<rparr>) = []"
proof -
  have "map ev_cursor (pending c d) = []" using pending_cursors [OF assms(1), of c] assms(2) by simp
  then show ?thesis by (simp add: stream_polls_pending [OF assms(1)])
qed

text \<open>A log for the witnesses: three publications into empty tables.\<close>

definition sample_publication :: publication where
  "sample_publication = (MonitorRunChanged, ''run'', 1, JNull, 0)"

definition sample_log :: db where
  "sample_log = fold publish_event [sample_publication, sample_publication, sample_publication] empty_db"

lemma events_wf_empty: "events_wf empty_db"
  by (simp add: events_wf_def empty_db_def event_retention_def)

lemma events_wf_sample: "events_wf sample_log"
  unfolding sample_log_def by (rule change_log.invar_fold [OF events_wf_empty])

lemma event_seq_sample: "event_seq sample_log = 3"
  unfolding sample_log_def change_log.seq_fold by (simp add: empty_db_def)

lemma oldest_sample: "oldest sample_log = 1"
  unfolding sample_log_def oldest_fold [OF events_wf_empty]
  by (simp add: oldest_def empty_db_def event_retention_def)

lemma events_sample: "events sample_log \<noteq> []"
  using oldest_sample event_seq_sample by (auto simp: oldest_def)

text \<open>
  Publishing appends exactly one event under the next cursor, with the kind's stored name and the
  subject cut to 512 characters, never reuses a cursor, and keeps precisely the newest 2000 cursors
  (fewer only when fewer were retained), still consecutive.
\<close>

theorem publish_keeps_window:
  assumes "events_wf d"
  shows "fst (publish_in_transaction k sub r s t d) = event_seq d + 1
       \<and> events_wf (publish k sub r s t d)
       \<and> map ev_cursor (events (publish k sub r s t d))
           = [max (oldest d) (event_seq d + 2 - event_retention) .. event_seq d + 1]
       \<and> length (events (publish k sub r s t d)) \<le> 2000
       \<and> (let e = last (events (publish k sub r s t d))
          in ev_cursor e = event_seq d + 1 \<and> ev_kind e = event_kind_str k \<and> ev_subject e = take 512 sub)"
proof -
  obtain row where row: "ev_cursor row = event_seq d + 1" "ev_kind row = event_kind_str k"
      "ev_subject row = take 512 sub"
    and es: "events (publish k sub r s t d) =
           filter (\<lambda>e. event_seq d + 1 - event_retention < ev_cursor e) (events d @ [row])"
    by (rule publish_events [OF assms])
  have "last (events (publish k sub r s t d)) = row"
    by (simp add: es row event_retention_def)
  moreover have "length (events (publish k sub r s t d)) \<le> 2000"
    using publish_wf(1) [OF assms, of k sub r s t] by (simp add: events_wf_def event_retention_def)
  ultimately show ?thesis
    using publish_wf(1) [OF assms] publish_cursors [OF assms] row
    by (simp add: publish_in_transaction_cursor Let_def)
qed

theorem publish_keeps_window_witness:
  "fst (publish_in_transaction MonitorRunChanged ''r'' 1 JNull 0 sample_log) = 4
   \<and> map ev_cursor (events (publish MonitorRunChanged ''r'' 1 JNull 0 sample_log)) = [1 .. 4]"
  using publish_keeps_window [OF events_wf_sample, of MonitorRunChanged "''r''" 1 JNull 0]
  by (simp add: event_seq_sample oldest_sample event_retention_def)

text \<open>
  A client that has seen everything and comes back after \<open>n\<close> further publications is told that
  its cursor expired exactly when more than 2000 events were published meanwhile.
\<close>

theorem reconnect_expires_iff:
  assumes "events_wf d" and "0 < event_seq d" and "events (fold publish_event ps d) \<noteq> []"
    and "event_seq d + int (length ps) \<le> i64_max"
  shows "cursor_expired (event_seq d) (fold publish_event ps d) \<longleftrightarrow> 2000 < length ps"
proof -
  let ?d = "fold publish_event ps d"
  have "event_seq ?d = event_seq d + int (length ps)" by (rule change_log.seq_fold)
  then have "cursor_expired (event_seq d) ?d \<longleftrightarrow> event_seq d < oldest ?d - 1"
    using cursor_expired_wf [OF change_log.invar_fold [OF assms(1)] assms(3)] assms(2,4) by simp
  also have "\<dots> \<longleftrightarrow> 2000 < length ps"
    using oldest_pos [OF assms(1)] by (auto simp: oldest_fold [OF assms(1)] event_retention_def)
  finally show ?thesis .
qed

theorem reconnect_expires_iff_witness:
  "\<not> cursor_expired 3 (fold publish_event [] sample_log)
   \<and> cursor_expired 3 (fold publish_event (replicate 2001 sample_publication) sample_log)"
proof -
  let ?ps = "replicate 2001 sample_publication"
  let ?d = "fold publish_event ?ps sample_log"
  have "oldest ?d \<le> event_seq ?d"
    by (simp add: oldest_fold [OF events_wf_sample] change_log.seq_fold event_seq_sample
        oldest_sample event_retention_def
        del: fold_replicate)
  then have "events ?d \<noteq> []" by (auto simp: oldest_def)
  then show ?thesis
    using reconnect_expires_iff [OF events_wf_sample, of "[]"]
      reconnect_expires_iff [OF events_wf_sample, of ?ps] events_sample
    by (simp add: event_seq_sample i64_max_def del: fold_replicate)
qed

text \<open>
  When events after the client's cursor were lost, the stream says so before anything else: it
  opens with one reset that names the newest cursor, continues from there, and the snapshot the client
  then fetches is not followed by stale events.
\<close>

theorem expired_stream_resets:
  assumes "events_wf d" and "events d \<noteq> []" and "cursor_expired c d"
  shows "stream_open c d
           = ([StreamReset (event_seq d)], \<lparr>st_cursor = event_seq d, st_open = True\<rparr>)
         \<and> fst (stream_polls n d (snd (stream_open c d))) = []"
  using assms stream_polls_quiet [OF assms(1), of "event_seq d"]
  by (simp add: stream_open_def cursor_bounds_wf Let_def)

text \<open>A log that lost its first event, reached by 2001 publications.\<close>

definition long_log :: db where
  "long_log = fold publish_event (replicate 2002 sample_publication) empty_db"

lemma long_log:
  "events_wf long_log" "event_seq long_log = 2002" "oldest long_log = 3" "events long_log \<noteq> []"
proof -
  show wf: "events_wf long_log" unfolding long_log_def by (rule change_log.invar_fold [OF events_wf_empty])
  show seq: "event_seq long_log = 2002" unfolding long_log_def change_log.seq_fold
    by (simp add: empty_db_def)
  show old: "oldest long_log = 3" unfolding long_log_def oldest_fold [OF events_wf_empty]
    by (simp add: oldest_def empty_db_def event_retention_def)
  show "events long_log \<noteq> []" using seq old by (auto simp: oldest_def)
qed

theorem expired_stream_resets_witness:
  "fst (stream_open 1 long_log) = [StreamReset 2002]"
proof -
  have "cursor_expired 1 long_log"
    using cursor_expired_wf [of long_log 1] long_log by (simp add: i64_max_def)
  from expired_stream_resets [OF long_log(1,4) this, of 0] show ?thesis by (simp add: long_log)
qed

text \<open>
  A client whose cursor lies ahead of the log (the database was restored from an older backup, or
  the log was cleared) gets no reset, and every event published until the log has caught up with that
  cursor is withheld from it.
\<close>

theorem ahead_of_log_is_silent:
  assumes "events_wf d" and "events (fold publish_event ps d) \<noteq> []"
    and "event_seq d + int (length ps) \<le> c" and "c \<le> i64_max"
  shows "fst (stream_open c (fold publish_event ps d)) = []
       \<and> fst (stream_polls n (fold publish_event ps d) (snd (stream_open c (fold publish_event ps d)))) = []"
proof -
  let ?d = "fold publish_event ps d"
  have wf: "events_wf ?d" by (rule change_log.invar_fold [OF assms(1)])
  have le: "event_seq ?d \<le> c" using assms(3) by (simp add: change_log.seq_fold)
  have "\<not> cursor_expired c ?d"
    using cursor_expired_wf [OF wf assms(2)] oldest_pos [OF wf] le assms(4) by simp
  then show ?thesis using stream_polls_quiet [OF wf le] by (simp add: stream_open_def)
qed

theorem ahead_of_log_is_silent_witness:
  "fst (stream_open 9 (fold publish_event [] sample_log)) = []
   \<and> fst (stream_polls 4 (fold publish_event [] sample_log)
           (snd (stream_open 9 (fold publish_event [] sample_log)))) = []"
  using ahead_of_log_is_silent [OF events_wf_sample, of "[]" 9 4] events_sample
  by (simp add: event_seq_sample i64_max_def)

subsection \<open>A stream beside the publishers\<close>

text \<open>
  A stream beside the publishers: before each poll the batch \<open>ps\<close> of publications commits, from the moment
  the response is built, because the first poll comes half a second after the cursor was checked.
\<close>

fun follow_stream ::
  "publication list list \<Rightarrow> db \<Rightarrow> stream_state \<Rightarrow> sse list \<times> stream_state \<times> db" where
  "follow_stream [] d st = ([], st, d)"
| "follow_stream (ps # pss) d st =
     (let d1 = fold publish_event ps d;
          (out, st1) = stream_poll True False d1 st;
          (outs, st2, d2) = follow_stream pss d1 st1
      in (out @ outs, st2, d2))"

text \<open>
  The pace of the publishers: at no poll is the cursor of the stream, which moves by at most a batch per poll,
  more than the retention window behind the log. Only numbers count here.
\<close>

fun keeps_up :: "nat list \<Rightarrow> int \<Rightarrow> int \<Rightarrow> bool" where
  "keeps_up [] newest c = True"
| "keeps_up (n # ns) newest c =
     (let newest' = newest + int n
      in newest' - c \<le> event_retention \<and> keeps_up ns newest' (min newest' (c + int event_batch)))"

text \<open>The rows a list of publications commits after cursor \<open>c\<close>, before any trimming.\<close>

definition event_row_of :: "int \<Rightarrow> publication \<Rightarrow> event_row" where
  "event_row_of c p = (case p of (k, sub, r, s, t) \<Rightarrow>
     \<lparr>ev_cursor = c, ev_workspace = workspace_id, ev_kind = event_kind_str k, ev_subject = take 512 sub,
      ev_revision = r, ev_summary = s, ev_committed_at = t\<rparr>)"

fun event_rows_of :: "int \<Rightarrow> publication list \<Rightarrow> event_row list" where
  "event_rows_of c [] = []"
| "event_rows_of c (p # ps) = event_row_of (c + 1) p # event_rows_of (c + 1) ps"

lemma event_rows_of_append: "event_rows_of c (ps @ qs) = event_rows_of c ps @ event_rows_of (c + int (length ps)) qs"
  by (induction ps arbitrary: c) (simp_all add: add.assoc)

lemma event_rows_of_cursors: "map ev_cursor (event_rows_of c ps) = [c + 1 .. c + int (length ps)]"
proof (induction ps arbitrary: c)
  case (Cons p ps)
  obtain k sub r s t where p: "p = (k, sub, r, s, t)" by (cases p) auto
  have "[c + 1 .. c + int (length (p # ps))] = (c + 1) # [c + 1 + 1 .. c + int (length (p # ps))]"
    by (rule upto_rec1) simp
  then show ?case using Cons [of "c + 1"] by (simp add: p event_row_of_def ac_simps)
qed simp

lemma publish_events_subset: "set (events (publish_event p d)) \<subseteq> insert (event_row_of (event_seq d + 1) p) (set (events d))"
  by (cases p) (auto simp: publish_def publish_in_transaction_def Let_def event_row_of_def)

lemma publishes_events_subset:
  "set (events (fold publish_event ps d)) \<subseteq> set (events d) \<union> set (event_rows_of (event_seq d) ps)"
proof (induction ps arbitrary: d)
  case (Cons p ps)
  have "event_seq (publish_event p d) = event_seq d + 1" by (rule change_log.seq_append)
  then show ?case using Cons [of "publish_event p d"] publish_events_subset [of p d] by auto
qed simp

lemma poll_open:
  assumes "events_wf d"
  shows "stream_poll True False d \<lparr>st_cursor = c, st_open = True\<rparr>
    = (map ChangeEvent (take event_batch (pending c d)),
       \<lparr>st_cursor = (if pending c d = [] then c else ev_cursor (last (take event_batch (pending c d)))), st_open = True\<rparr>)"
  by (simp add: stream_poll_def load_after_pending [OF assms] Let_def event_batch_def)

lemma take_upto: "take n [i..j] = [i..min j (i + int n - 1)]"
proof (cases "n \<le> length [i..j]")
  case True
  then show ?thesis by (intro nth_equalityI) (auto simp: min_def nth_upto split: if_splits)
next
  case False
  then show ?thesis by (auto simp: min_def)
qed

text \<open>What one poll sends, by cursors, and where the stream is after it.\<close>

lemma poll_cursors:
  fixes c :: int
  assumes wf: "events_wf d"
  defines "lo \<equiv> max (oldest d) (c + 1)"
  shows "map ev_cursor (take event_batch (pending c d)) = [lo .. min (event_seq d) (lo + int event_batch - 1)]"
    and "st_cursor (snd (stream_poll True False d \<lparr>st_cursor = c, st_open = True\<rparr>))
      = (if event_seq d < lo then c else min (event_seq d) (lo + int event_batch - 1))"
proof -
  show cs: "map ev_cursor (take event_batch (pending c d)) = [lo .. min (event_seq d) (lo + int event_batch - 1)]"
    by (simp only: take_map [symmetric] pending_cursors [OF wf] take_upto lo_def)
  show "st_cursor (snd (stream_poll True False d \<lparr>st_cursor = c, st_open = True\<rparr>))
      = (if event_seq d < lo then c else min (event_seq d) (lo + int event_batch - 1))"
  proof (cases "event_seq d < lo")
    case True
    then have "map ev_cursor (pending c d) = []" by (simp only: pending_cursors [OF wf] lo_def upto_empty)
    then show ?thesis using True by (simp add: poll_open [OF wf])
  next
    case False
    let ?m = "min (event_seq d) (lo + int event_batch - 1)"
    have le: "lo \<le> ?m" using False by (simp add: event_batch_def)
    then have ne: "take event_batch (pending c d) \<noteq> []" using cs by (metis list.simps(8) upto_rec1 neq_Nil_conv)
    have "ev_cursor (last (take event_batch (pending c d))) = last [lo .. ?m]"
      unfolding cs [symmetric] using ne by (simp add: last_map)
    also have "\<dots> = ?m" using le by (simp add: upto_rec2)
    finally show ?thesis using ne False by (auto simp: poll_open [OF wf])
  qed
qed

lemma poll_state: "events_wf d \<Longrightarrow> snd (stream_poll True False d \<lparr>st_cursor = c, st_open = True\<rparr>)
    = \<lparr>st_cursor = st_cursor (snd (stream_poll True False d \<lparr>st_cursor = c, st_open = True\<rparr>)), st_open = True\<rparr>"
  by (simp add: poll_open)

text \<open>However slow the stream is, what it sends is in order, without repetition, and real.\<close>

lemma follow_ordered:
  assumes "events_wf d" and "c \<le> event_seq d" and "oldest d \<le> event_seq d"
    and "follow_stream pss d \<lparr>st_cursor = c, st_open = True\<rparr> = (out, st', d')"
  shows "\<exists>es. out = map ChangeEvent es
    \<and> set es \<subseteq> set (events d) \<union> set (event_rows_of (event_seq d) (concat pss))
    \<and> sorted_wrt (<) (map ev_cursor es) \<and> (\<forall>x \<in> set es. c < ev_cursor x \<and> ev_cursor x \<le> st_cursor st')
    \<and> c \<le> st_cursor st' \<and> st_cursor st' \<le> event_seq d'
    \<and> min (event_seq d) (c + int (length pss) * int event_batch) \<le> st_cursor st'"
  using assms
proof (induction pss arbitrary: d c out)
  case Nil
  then show ?case by (intro exI [of _ "[]"]) auto
next
  case (Cons ps pss)
  let ?d = "fold publish_event ps d" and ?st = "\<lparr>st_cursor = c, st_open = True\<rparr>"
  have wf: "events_wf ?d" by (rule change_log.invar_fold [OF Cons.prems(1)])
  have seq: "event_seq ?d = event_seq d + int (length ps)" by (rule change_log.seq_fold)
  define es where "es = take event_batch (pending c ?d)"
  define m where "m = st_cursor (snd (stream_poll True False ?d ?st))"
  define lo where "lo = max (oldest ?d) (c + 1)"
  have poll: "stream_poll True False ?d ?st = (map ChangeEvent es, \<lparr>st_cursor = m, st_open = True\<rparr>)"
    unfolding m_def es_def by (subst poll_state [OF wf, symmetric]) (simp add: poll_open [OF wf])
  have cs: "map ev_cursor es = [lo .. min (event_seq ?d) (lo + int event_batch - 1)]"
    and m: "m = (if event_seq ?d < lo then c else min (event_seq ?d) (lo + int event_batch - 1))"
    using poll_cursors [OF wf, of c] by (simp_all add: es_def m_def lo_def)
  have old: "oldest ?d \<le> event_seq ?d"
    using Cons.prems(3) by (simp add: oldest_fold [OF Cons.prems(1)] seq event_retention_def)
  have bounds: "c \<le> m" "m \<le> event_seq ?d" "c < lo" "min (event_seq ?d) (c + int event_batch) \<le> m"
    using Cons.prems(2) old seq by (auto simp: m lo_def event_batch_def)
  obtain outs where rest: "follow_stream pss ?d \<lparr>st_cursor = m, st_open = True\<rparr> = (outs, st', d')"
    and out: "out = map ChangeEvent es @ outs"
    using Cons.prems(4) by (auto simp: poll Let_def split: prod.splits)
  obtain fs where fs: "outs = map ChangeEvent fs"
      "set fs \<subseteq> set (events ?d) \<union> set (event_rows_of (event_seq ?d) (concat pss))"
      "sorted_wrt (<) (map ev_cursor fs)" "\<forall>x \<in> set fs. m < ev_cursor x \<and> ev_cursor x \<le> st_cursor st'"
      "m \<le> st_cursor st'" "st_cursor st' \<le> event_seq d'"
      "min (event_seq ?d) (m + int (length pss) * int event_batch) \<le> st_cursor st'"
    using Cons.IH [OF wf bounds(2) old rest] by blast
  have es: "\<forall>x \<in> set es. c < ev_cursor x \<and> ev_cursor x \<le> m"
  proof
    fix x assume "x \<in> set es"
    then have "ev_cursor x \<in> set [lo .. min (event_seq ?d) (lo + int event_batch - 1)]" unfolding cs [symmetric] by simp
    then show "c < ev_cursor x \<and> ev_cursor x \<le> m" using bounds(3) by (auto simp: m)
  qed
  have "set es \<subseteq> set (events ?d)" using set_take_subset by (fastforce simp: es_def pending_def)
  then have real: "set (es @ fs) \<subseteq> set (events d) \<union> set (event_rows_of (event_seq d) (concat (ps # pss)))"
    using fs(2) publishes_events_subset [of ps d] by (auto simp: event_rows_of_append seq)
  have "sorted_wrt (<) (map ev_cursor es)" by (simp only: cs sorted_wrt_less_upto)
  then have srt: "sorted_wrt (<) (map ev_cursor (es @ fs))"
    using fs(3,4) es by (fastforce simp: sorted_wrt_append)
  have "min (event_seq d) (c + int (length (ps # pss)) * int event_batch) \<le> st_cursor st'"
    using fs(5,7) bounds(4) seq by (auto simp: min_def algebra_simps split: if_splits)
  then show ?case
    using out fs(1,4,5,6) es bounds(1) real srt
    by (intro exI [of _ "es @ fs"] conjI ballI) (auto intro: order.trans less_le_trans order.strict_trans1)
qed

text \<open>It misses nothing exactly as long as the log never runs more than the window ahead of it.\<close>

lemma follow_gapless:
  assumes "events_wf d" and "c \<le> event_seq d" and "oldest d \<le> c + 1" and "oldest d \<le> event_seq d"
    and "follow_stream pss d \<lparr>st_cursor = c, st_open = True\<rparr> = (map ChangeEvent es, st', d')"
  shows "map ev_cursor es = [c + 1 .. st_cursor st'] \<longleftrightarrow> keeps_up (map length pss) (event_seq d) c"
  using assms
proof (induction pss arbitrary: d c es)
  case Nil
  then show ?case by auto
next
  case (Cons ps pss)
  let ?d = "fold publish_event ps d" and ?st = "\<lparr>st_cursor = c, st_open = True\<rparr>"
  have wf: "events_wf ?d" by (rule change_log.invar_fold [OF Cons.prems(1)])
  have seq: "event_seq ?d = event_seq d + int (length ps)" by (rule change_log.seq_fold)
  have old: "oldest ?d = max (oldest d) (event_seq ?d + 1 - event_retention)"
    by (simp only: oldest_fold [OF Cons.prems(1)] seq)
  define es0 where "es0 = take event_batch (pending c ?d)"
  define m where "m = st_cursor (snd (stream_poll True False ?d ?st))"
  define lo where "lo = max (oldest ?d) (c + 1)"
  have poll: "stream_poll True False ?d ?st = (map ChangeEvent es0, \<lparr>st_cursor = m, st_open = True\<rparr>)"
    unfolding m_def es0_def by (subst poll_state [OF wf, symmetric]) (simp add: poll_open [OF wf])
  have cs: "map ev_cursor es0 = [lo .. min (event_seq ?d) (lo + int event_batch - 1)]"
    and m: "m = (if event_seq ?d < lo then c else min (event_seq ?d) (lo + int event_batch - 1))"
    using poll_cursors [OF wf, of c] by (simp_all add: es0_def m_def lo_def)
  obtain outs where rest: "follow_stream pss ?d \<lparr>st_cursor = m, st_open = True\<rparr> = (outs, st', d')"
    and out: "map ChangeEvent es = map ChangeEvent es0 @ outs"
    using Cons.prems(5) by (auto simp: poll Let_def split: prod.splits)
  then obtain fs where fs: "outs = map ChangeEvent fs" "es = es0 @ fs"
    by (auto simp: map_eq_append_conv dest: map_injective [OF _ injI])
  have old_le: "oldest ?d \<le> event_seq ?d" using Cons.prems(4) by (simp add: old seq event_retention_def)
  have le: "m \<le> event_seq ?d" using Cons.prems(2) seq by (simp add: m)
  have mono: "m \<le> st_cursor st'" using follow_ordered [OF wf le old_le rest] by blast
  show ?case
  proof (cases "event_seq ?d - c \<le> event_retention")
    case True
    then have lo: "lo = c + 1" using Cons.prems(3) by (simp add: lo_def old)
    have m': "m = min (event_seq ?d) (c + int event_batch)" using Cons.prems(2) seq by (auto simp: m lo)
    have cm: "c \<le> m" using Cons.prems(2) seq by (simp add: m')
    have old': "oldest ?d \<le> m + 1" using lo cm by (simp add: lo_def)
    have split: "[c + 1 .. st_cursor st'] = [c + 1 .. m] @ [m + 1 .. st_cursor st']"
    proof (cases "c + 1 \<le> m")
      case True
      then show ?thesis using mono by (rule upto_split2)
    next
      case False
      then have "c = m" using cm by simp
      then show ?thesis by simp
    qed
    have "map ev_cursor es0 = [c + 1 .. m]" by (simp add: cs lo m' add.commute)
    then have "map ev_cursor es = [c + 1 .. st_cursor st'] \<longleftrightarrow> map ev_cursor fs = [m + 1 .. st_cursor st']"
      unfolding split fs(2) by simp
    also have "\<dots> \<longleftrightarrow> keeps_up (map length pss) (event_seq ?d) m"
      by (rule Cons.IH [OF wf le old' old_le rest [unfolded fs(1)]])
    finally show ?thesis using True by (simp add: Let_def seq m')
  next
    case False
    have "c + 1 < lo" "lo \<le> event_seq ?d" "oldest ?d \<le> event_seq ?d"
      using False Cons.prems(3) by (auto simp: lo_def old event_retention_def)
    then have "map ev_cursor es0 = lo # [lo + 1 .. min (event_seq ?d) (lo + int event_batch - 1)]"
      unfolding cs by (intro upto_rec1) (simp add: event_batch_def)
    then have "hd (map ev_cursor es) = lo" "es \<noteq> []" by (auto simp: fs(2))
    moreover have "hd [c + 1 .. st_cursor st'] = c + 1" if "[c + 1 .. st_cursor st'] \<noteq> []"
      using that upto_rec1 [of "c + 1" "st_cursor st'"] by (auto simp: not_less)
    ultimately have "map ev_cursor es \<noteq> [c + 1 .. st_cursor st']" using \<open>c + 1 < lo\<close> by (metis map_is_Nil_conv less_irrefl)
    then show ?thesis using False by (simp add: Let_def seq)
  qed
qed

text \<open>
  C17. A client that resumes from a cursor that has not expired gets no reset and is sent real events, in cursor
  order and none twice, however the polls and the publications interleave. It is sent every event after its
  cursor, without a gap, exactly if at no poll the log has run more than its window of 2000 events ahead of the
  stream; and the events of the log at the time of the request have been passed after one poll per hundred of them.
\<close>

theorem stream_resume_complete:
  assumes "events_wf d" and "events d \<noteq> []" and "event_seq d \<le> i64_max"
    and "0 < c" and "c \<le> event_seq d" and "\<not> cursor_expired c d"
    and "follow_stream pss d (snd (stream_open c d)) = (out, st, d')"
  shows "\<exists>es. fst (stream_open c d) = [] \<and> out = map ChangeEvent es
    \<and> set es \<subseteq> set (events d) \<union> set (event_rows_of (event_seq d) (concat pss))
    \<and> sorted_wrt (<) (map ev_cursor es)
    \<and> (map ev_cursor es = [c + 1 .. st_cursor st] \<longleftrightarrow> keeps_up (map length pss) (event_seq d) c)
    \<and> min (event_seq d) (c + int (length pss) * int event_batch) \<le> st_cursor st"
proof -
  have old: "oldest d \<le> c + 1" using cursor_expired_wf [OF assms(1-3)] assms(4,6) by auto
  have nonempty: "oldest d \<le> event_seq d" using assms(2) by (cases "events d") (simp_all add: oldest_def)
  have open': "stream_open c d = ([], \<lparr>st_cursor = c, st_open = True\<rparr>)"
    using assms(6) by (simp add: stream_open_def)
  then have run: "follow_stream pss d \<lparr>st_cursor = c, st_open = True\<rparr> = (out, st, d')" using assms(7) by simp
  obtain es where es: "out = map ChangeEvent es"
      "set es \<subseteq> set (events d) \<union> set (event_rows_of (event_seq d) (concat pss))"
      "sorted_wrt (<) (map ev_cursor es)"
      "min (event_seq d) (c + int (length pss) * int event_batch) \<le> st_cursor st"
    using follow_ordered [OF assms(1,5) nonempty run] by blast
  show ?thesis
    using es open' follow_gapless [OF assms(1,5) old nonempty run [unfolded es(1)]] by (intro exI [of _ es]) simp
qed

theorem stream_resume_complete_witness:
  "\<exists>out st d' es. follow_stream [[sample_publication], []] sample_log (snd (stream_open 1 sample_log)) = (out, st, d')
     \<and> out = map ChangeEvent es \<and> map ev_cursor es = [2 .. st_cursor st] \<and> 3 \<le> st_cursor st"
proof -
  obtain out st d' where run: "follow_stream [[sample_publication], []] sample_log (snd (stream_open 1 sample_log)) = (out, st, d')"
    by (metis prod.exhaust)
  have i64: "(3 :: int) \<le> i64_max" by (simp add: i64_max_def)
  have "\<not> cursor_expired 1 sample_log"
    using cursor_expired_wf [OF events_wf_sample events_sample] i64 by (simp add: event_seq_sample oldest_sample)
  moreover have "keeps_up (map length [[sample_publication], []]) (event_seq sample_log) 1"
    by (simp add: event_seq_sample event_retention_def event_batch_def)
  ultimately obtain es where es: "out = map ChangeEvent es" "map ev_cursor es = [2 .. st_cursor st]"
      "min (event_seq sample_log) (1 + int (length [[sample_publication], []]) * int event_batch) \<le> st_cursor st"
    using stream_resume_complete [OF events_wf_sample events_sample _ _ _ _ run] i64 by (auto simp: event_seq_sample)
  have "3 \<le> st_cursor st" using es(3) by (simp add: event_seq_sample event_batch_def)
  with run es(1,2) show ?thesis
    by (intro exI [of _ out] exI [of _ st] exI [of _ d'] exI [of _ es]) simp
qed

text \<open>
  The window is checked once, but the first events are read half a second later. A client whose next event is
  the oldest of a full log gets no reset, and if one event is published meanwhile, its next event is trimmed: it
  is never sent, and nothing tells the client.
\<close>

theorem event_lost_without_reset:
  assumes "events_wf d" and "int (length (events d)) = event_retention" and "event_seq d \<le> i64_max"
    and "1 < oldest d" and "follow_stream ([p] # pss) d (snd (stream_open (oldest d - 1) d)) = (out, st, d')"
  shows "fst (stream_open (oldest d - 1) d) = []
    \<and> (\<exists>es. out = map ChangeEvent es \<and> (\<forall>x \<in> set es. oldest d < ev_cursor x) \<and> oldest d < st_cursor st)"
proof -
  let ?c = "oldest d - 1" and ?d = "publish_event p d"
  have ne: "events d \<noteq> []" using assms(2) by (auto simp: event_retention_def)
  have seq: "event_seq d = oldest d + event_retention - 1" using assms(2) by (simp add: oldest_def)
  have "\<not> cursor_expired ?c d" using cursor_expired_wf [OF assms(1) ne assms(3)] by simp
  then have op: "stream_open ?c d = ([], \<lparr>st_cursor = ?c, st_open = True\<rparr>)" by (simp add: stream_open_def)
  have wf: "events_wf ?d" by (rule change_log.invar_append [OF assms(1)])
  have seq': "event_seq ?d = event_seq d + 1" by (rule change_log.seq_append)
  have old: "oldest ?d = oldest d + 1"
    using change_log.low_append [OF assms(1)] seq by simp
  define es0 where "es0 = take event_batch (pending ?c ?d)"
  define m where "m = st_cursor (snd (stream_poll True False ?d \<lparr>st_cursor = ?c, st_open = True\<rparr>))"
  have poll: "stream_poll True False ?d \<lparr>st_cursor = ?c, st_open = True\<rparr> = (map ChangeEvent es0, \<lparr>st_cursor = m, st_open = True\<rparr>)"
    unfolding m_def es0_def by (subst poll_state [OF wf, symmetric]) (simp add: poll_open [OF wf])
  have cs: "map ev_cursor es0 = [oldest d + 1 .. min (event_seq ?d) (oldest d + int event_batch)]"
    and m: "m = min (event_seq ?d) (oldest d + int event_batch)"
    using poll_cursors [OF wf, of ?c] seq seq' old
    by (simp_all add: es0_def m_def event_retention_def algebra_simps)
  have range: "oldest d < m" "m \<le> event_seq ?d" "oldest ?d \<le> event_seq ?d"
    using seq seq' old by (auto simp: m event_retention_def event_batch_def)
  obtain outs where rest: "follow_stream pss ?d \<lparr>st_cursor = m, st_open = True\<rparr> = (outs, st, d')"
    and out: "out = map ChangeEvent es0 @ outs"
    using assms(5) by (auto simp: op poll Let_def split: prod.splits)
  obtain fs where fs: "outs = map ChangeEvent fs" "\<forall>x \<in> set fs. m < ev_cursor x" "m \<le> st_cursor st"
    using follow_ordered [OF wf range(2,3) rest] by blast
  have "oldest d < ev_cursor x" if "x \<in> set es0" for x
  proof -
    have "ev_cursor x \<in> set [oldest d + 1 .. min (event_seq ?d) (oldest d + int event_batch)]"
      unfolding cs [symmetric] using that by simp
    then show ?thesis by simp
  qed
  then show ?thesis using op out fs range(1) by (intro conjI exI [of _ "es0 @ fs"]) auto
qed

theorem event_lost_without_reset_witness:
  "fst (stream_open 2 long_log) = []
   \<and> (\<exists>out st d' es. follow_stream [[sample_publication]] long_log (snd (stream_open 2 long_log)) = (out, st, d')
        \<and> out = map ChangeEvent es \<and> (\<forall>x \<in> set es. 3 < ev_cursor x) \<and> 3 < st_cursor st)"
proof -
  obtain out st d' where run: "follow_stream [[sample_publication]] long_log (snd (stream_open 2 long_log)) = (out, st, d')"
    by (metis prod.exhaust)
  have "int (length (events long_log)) = event_retention"
    using long_log(2,3) by (simp add: oldest_def event_retention_def)
  moreover have "event_seq long_log \<le> i64_max" by (simp add: long_log i64_max_def)
  ultimately show ?thesis
    using event_lost_without_reset [OF long_log(1), of sample_publication "[]" out st d'] run
    by (auto simp: long_log(3))
qed

end
