(* ===== verification/Scheduler.thy ===== *)
theory Scheduler
  imports HealthEvaluation Events
begin

text \<open>
  The monitoring scheduler, \<open>backend/src/monitoring_scheduler.rs\<close>: schedules are created idempotently and
  updated under a revision, every revision leaves a version row that says which due slots belong to it,
  and a tick claims due slots. A claim takes a lease by compare-and-set on the revision and the due time,
  materialises one run for the newest missed slot and advances the schedule past the tick.

  The clock, fresh identifiers and the permits other tasks hold are arguments. A handler that reads the
  database before its transaction takes that earlier state as \<open>pre\<close>, so that the changes other tasks make
  in between are part of the model. Lease and due times are compared as texts by SQL and as numbers here.
\<close>

datatype scheduler_error =
    SBadRequest string
  | SNotFound string string
  | SConflict string
  | SPreconditionRequired
  | SPreconditionFailed int
  | SStorage db_error
  | SInternal
  | SPanic

text \<open>\<open>SPanic\<close> is not an error value of the code: it stands for the panic of a division by zero.\<close>

fun scheduler_error_response :: "scheduler_error \<Rightarrow> nat \<times> string" where
  "scheduler_error_response (SBadRequest code) = (400, code)"
| "scheduler_error_response (SNotFound resource i) = (404, ''NOT_FOUND'')"
| "scheduler_error_response (SConflict code) = (409, code)"
| "scheduler_error_response SPreconditionRequired = (428, ''IF_MATCH_REQUIRED'')"
| "scheduler_error_response (SPreconditionFailed expected) = (412, ''REVISION_MISMATCH'')"
| "scheduler_error_response (SStorage e) = (503, ''STORAGE_UNAVAILABLE'')"
| "scheduler_error_response SInternal = (500, ''INTERNAL_ERROR'')"
| "scheduler_error_response SPanic = (500, '''')"

fun scheduler_tick_error_code :: "scheduler_error \<Rightarrow> string" where
  "scheduler_tick_error_code (SStorage e) = ''SCHEDULER_STORAGE_UNAVAILABLE''"
| "scheduler_tick_error_code SInternal = ''SCHEDULER_INTERNAL_ERROR''"
| "scheduler_tick_error_code _ = ''SCHEDULER_TICK_FAILED''"

subsection \<open>Settings and tick health\<close>

definition min_interval_seconds :: nat where "min_interval_seconds = 300"

definition max_interval_seconds :: nat where "max_interval_seconds = 86400"

definition max_stale_after_seconds :: nat where "max_stale_after_seconds = 604800"

definition max_due_per_tick :: nat where "max_due_per_tick = 64"

definition min_late_after_seconds :: nat where "min_late_after_seconds = 15"

record scheduler_settings =
  set_max_concurrency :: nat
  set_tick_seconds :: nat

definition env_u32 :: "(string \<Rightarrow> string option) \<Rightarrow> string \<Rightarrow> nat \<Rightarrow> nat \<Rightarrow> nat \<Rightarrow> nat" where
  "env_u32 vars name dflt mn mx =
     (case vars name of
        None \<Rightarrow> dflt
      | Some v \<Rightarrow> (case parse_u32 v of
                    None \<Rightarrow> dflt
                  | Some n \<Rightarrow> if mn \<le> n \<and> n \<le> mx then n else dflt))"

definition settings_from_environment :: "(string \<Rightarrow> string option) \<Rightarrow> scheduler_settings" where
  "settings_from_environment vars =
     \<lparr>set_max_concurrency = env_u32 vars ''NETWORK_ATLAS_MONITOR_MAX_CONCURRENCY'' 1 1 32,
      set_tick_seconds = env_u32 vars ''NETWORK_ATLAS_MONITOR_TICK_SECONDS'' 5 1 60\<rparr>"

record tick_health =
  th_last_successful :: "instant option"
  th_last_error :: "(string \<times> instant) option"
  th_failures :: nat

definition initial_tick_health :: tick_health where
  "initial_tick_health = \<lparr>th_last_successful = None, th_last_error = None, th_failures = 0\<rparr>"

definition record_tick_success :: "instant \<Rightarrow> tick_health \<Rightarrow> tick_health" where
  "record_tick_success t h = h\<lparr>th_last_successful := Some t, th_failures := 0\<rparr>"

definition record_tick_failure :: "instant \<Rightarrow> string \<Rightarrow> tick_health \<Rightarrow> tick_health" where
  "record_tick_failure t code h =
     h\<lparr>th_last_error := Some (code, t), th_failures := sat_add32 (th_failures h) 1\<rparr>"

definition scheduler_late_after_seconds :: "scheduler_settings \<Rightarrow> nat" where
  "scheduler_late_after_seconds s = max (sat_mul32 (set_tick_seconds s) 3) min_late_after_seconds"

datatype scheduler_state = SchedulerStopped | SchedulerUnknown | SchedulerLate | SchedulerRunning

datatype state_reason =
  SchedulerNotStarted | LatestTickFailed | AwaitingFirstTick | TickLate | TickRecent

definition derive_scheduler_state ::
  "bool \<Rightarrow> instant \<Rightarrow> tick_health \<Rightarrow> nat \<Rightarrow> scheduler_state \<times> state_reason" where
  "derive_scheduler_state started now h late_after =
     (if \<not> started then (SchedulerStopped, SchedulerNotStarted)
      else if 0 < th_failures h then (SchedulerUnknown, LatestTickFailed)
      else case th_last_successful h of
             None \<Rightarrow> (SchedulerUnknown, AwaitingFirstTick)
           | Some t \<Rightarrow>
               (if seconds (int late_after) < now - t then (SchedulerLate, TickLate)
                else (SchedulerRunning, TickRecent)))"

subsection \<open>Validation, lookup and idempotency\<close>

definition validate_schedule_values :: "nat \<Rightarrow> nat \<Rightarrow> nat \<Rightarrow> scheduler_error + unit" where
  "validate_schedule_values interval jitter stale =
     (if \<not> (min_interval_seconds \<le> interval \<and> interval \<le> max_interval_seconds)
      then Inl (SBadRequest ''INVALID_MONITOR_INTERVAL'')
      else if interval \<le> jitter then Inl (SBadRequest ''INVALID_MONITOR_JITTER'')
      else if stale < interval \<or> max_stale_after_seconds < stale
      then Inl (SBadRequest ''INVALID_MONITOR_STALE_AFTER'')
      else Inr ())"

definition ensure_host_exists :: "string \<Rightarrow> db \<Rightarrow> scheduler_error + unit" where
  "ensure_host_exists h d = (if h \<in> set (hosts d) then Inr () else Inl (SNotFound ''host'' h))"

definition schedule_from_row :: "schedule_row \<Rightarrow> schedule_record" where
  "schedule_from_row r =
     \<lparr>rec_schedule_id = sch_id r, rec_host_id = sch_host r, rec_interval_seconds = sch_interval r,
      rec_jitter_seconds = sch_jitter r, rec_jitter_offset_seconds = sch_jitter_offset r,
      rec_stale_after_seconds = sch_stale_after r, rec_state = sch_state r,
      rec_next_due_at = sch_next_due r, rec_last_due_at = sch_last_due r, rec_revision = sch_revision r,
      rec_created_at = sch_created_at r, rec_updated_at = sch_updated_at r\<rparr>"

definition load_schedule :: "string \<Rightarrow> db \<Rightarrow> schedule_record option" where
  "load_schedule sid d = map_option schedule_from_row (select_one (\<lambda>r. sch_id r = sid) (schedules d))"

definition list_monitor_schedules :: "string \<Rightarrow> db \<Rightarrow> scheduler_error + schedule_record list" where
  "list_monitor_schedules h d =
     and_then (ensure_host_exists h d) (\<lambda>_.
       Inr (map schedule_from_row
         (sort_key sch_created_at (sort_key sch_id
            (filter (\<lambda>r. sch_host r = h \<and> sch_state r \<noteq> SchedArchived) (schedules d))))))"

definition replay_create ::
  "string \<Rightarrow> string \<Rightarrow> string \<Rightarrow> db \<Rightarrow> scheduler_error + schedule_response option" where
  "replay_create h key sha d =
     (case select_one (\<lambda>r. sch_host r = h \<and> sch_create_key r = key) (schedules d) of
        None \<Rightarrow> Inr None
      | Some r \<Rightarrow> if sch_create_sha r \<noteq> sha then Inl (SConflict ''IDEMPOTENCY_KEY_REUSED'')
                  else Inr (Some (sch_created_response r)))"

definition scheduler_idempotency_key :: "headers \<Rightarrow> scheduler_error + string" where
  "scheduler_idempotency_key hdr =
     (case idempotency_key hdr of
        None \<Rightarrow> Inl (SBadRequest ''IDEMPOTENCY_KEY_REQUIRED'')
      | Some k \<Rightarrow> Inr k)"

definition scheduler_if_match :: "headers \<Rightarrow> scheduler_error + int" where
  "scheduler_if_match hdr =
     (case if_match_schedule hdr of
        IfMatchMissing \<Rightarrow> Inl SPreconditionRequired
      | IfMatchInvalid \<Rightarrow> Inl (SBadRequest ''INVALID_IF_MATCH'')
      | IfMatchRevision r \<Rightarrow> Inr r)"

definition u64_from_be_bytes :: "nat list \<Rightarrow> nat" where
  "u64_from_be_bytes bs = foldl (\<lambda>acc b. acc * 256 + b) 0 bs"

definition stable_jitter :: "env \<Rightarrow> string \<Rightarrow> int \<Rightarrow> nat \<Rightarrow> nat" where
  "stable_jitter env sid revision jitter =
     (if jitter = 0 then 0
      else (let digest = sha256 env (sid @ '':'' @ show_int revision);
                v = u64_from_be_bytes (take 8 digest) mod (jitter + 1)
            in if v \<le> u32_max then v else 0))"

definition real_meta :: "string \<Rightarrow> int \<Rightarrow> secs \<Rightarrow> api_meta" where
  "real_meta rid revision generated =
     \<lparr>meta_request_id = rid, meta_revision = revision, meta_generated_at = generated,
      meta_freshness = Fresh\<rparr>"

definition publish_schedule_state :: "schedule_record \<Rightarrow> secs \<Rightarrow> db \<Rightarrow> db" where
  "publish_schedule_state s now d =
     publish MonitorScheduleChanged (''monitor-schedule:'' @ rec_schedule_id s) (rec_revision s)
       (JObj [(''host_id'', JStr (rec_host_id s)), (''profile'', JStr ''host_resource_v1''),
              (''state'', JStr (schedule_state_name (rec_state s)))]) now d"

subsection \<open>Versions\<close>

definition version_marks ::
  "schedule_state \<Rightarrow> schedule_state option \<Rightarrow> secs
     \<Rightarrow> secs option \<times> secs option \<times> secs option \<times> secs option" where
  "version_marks state previous t =
     (case state of
        SchedEnabled \<Rightarrow>
          (case previous of
             Some SchedPaused \<Rightarrow> (None, None, Some t, None)
           | Some SchedEnabled \<Rightarrow> (None, None, None, None)
           | _ \<Rightarrow> (Some t, None, None, None))
      | SchedPaused \<Rightarrow>
          (case previous of
             Some SchedPaused \<Rightarrow> (None, None, None, None)
           | _ \<Rightarrow> (None, Some t, None, None))
      | SchedArchived \<Rightarrow> (None, None, None, Some t))"

definition version_of ::
  "schedule_record \<Rightarrow> string \<Rightarrow> secs \<Rightarrow> secs \<Rightarrow> provenance_kind \<Rightarrow> schedule_state option \<Rightarrow> version_row" where
  "version_of s vid effective_from created provenance previous =
     (let (activated, paused, resumed, archived) = version_marks (rec_state s) previous effective_from
      in \<lparr>ver_id = vid, ver_schedule = rec_schedule_id s, ver_host = rec_host_id s,
          ver_revision = rec_revision s, ver_interval = rec_interval_seconds s,
          ver_jitter = rec_jitter_seconds s, ver_jitter_offset = rec_jitter_offset_seconds s,
          ver_stale_after = rec_stale_after_seconds s, ver_state = rec_state s,
          ver_due_from = rec_next_due_at s, ver_due_until = None, ver_effective_from = effective_from,
          ver_effective_until = None, ver_provenance = provenance, ver_activated_at = activated,
          ver_paused_at = paused, ver_resumed_at = resumed, ver_archived_at = archived,
          ver_created_at = created\<rparr>)"

definition insert_schedule_version ::
  "schedule_record \<Rightarrow> string \<Rightarrow> secs \<Rightarrow> secs \<Rightarrow> provenance_kind \<Rightarrow> schedule_state option \<Rightarrow> db \<Rightarrow> db stmt" where
  "insert_schedule_version s vid effective_from created provenance previous d =
     insert_version (version_of s vid effective_from created provenance previous) d"

text \<open>The compatibility row for a schedule that has no version of its revision.\<close>

definition baseline_version :: "schedule_record \<Rightarrow> version_row" where
  "baseline_version s =
     \<lparr>ver_id = rec_schedule_id s @ '':revision:'' @ show_int (rec_revision s) @ '':compat'',
      ver_schedule = rec_schedule_id s, ver_host = rec_host_id s,
      ver_revision = rec_revision s, ver_interval = rec_interval_seconds s,
      ver_jitter = rec_jitter_seconds s, ver_jitter_offset = rec_jitter_offset_seconds s,
      ver_stale_after = rec_stale_after_seconds s, ver_state = rec_state s,
      ver_due_from = rec_next_due_at s, ver_due_until = None,
      ver_effective_from = rec_created_at s, ver_effective_until = None,
      ver_provenance = LegacyBaseline,
      ver_activated_at = (if rec_state s = SchedEnabled then Some (rec_created_at s) else None),
      ver_paused_at = (if rec_state s = SchedPaused then Some (rec_created_at s) else None),
      ver_resumed_at = None,
      ver_archived_at = (if rec_state s = SchedArchived then Some (rec_created_at s) else None),
      ver_created_at = rec_created_at s\<rparr>"

text \<open>The two closing instants: when the version stops being in effect, and its last due bound.\<close>

definition close_version :: "secs \<times> secs \<Rightarrow> version_row \<Rightarrow> version_row" where
  "close_version c v =
     v\<lparr>ver_effective_until := Some (fst c),
       ver_due_until := (if ver_state v = SchedEnabled then Some (snd c) else None)\<rparr>"

definition close_schedule_version :: "schedule_record \<Rightarrow> secs \<Rightarrow> secs \<Rightarrow> db \<Rightarrow> db stmt" where
  "close_schedule_version s effective_until due_until d =
     and_then
       (if \<exists>v \<in> set (versions d). ver_schedule v = rec_schedule_id s \<and> ver_revision v = rec_revision s
        then Inr d else insert_version (baseline_version s) d)
       (\<lambda>d1.
          (let P = (\<lambda>v. ver_schedule v = rec_schedule_id s \<and> ver_revision v = rec_revision s
                        \<and> ver_effective_until v = None);
               f = close_version (effective_until, due_until)
           in if \<exists>v \<in> set (versions d1). P v \<and> \<not> close_allowed v (f v)
              then Inl (TriggerAbort ''monitor_schedule_versions are immutable except for one close'')
              else if \<exists>v \<in> set (versions d1). P v \<and> \<not> version_checks (f v) then Inl CheckViolation
              else if rows_affected P (versions d1) \<noteq> 1 then Inl RowNotFound
              else Inr (d1\<lparr>versions := update_rows P f (versions d1)\<rparr>)))"

subsection \<open>Creating a schedule\<close>

definition created_record ::
  "env \<Rightarrow> string \<Rightarrow> string \<Rightarrow> schedule_create_request \<Rightarrow> instant \<Rightarrow> schedule_record" where
  "created_record env sid h q now =
     (let offset = stable_jitter env sid 1 (cr_jitter_seconds q)
      in \<lparr>rec_schedule_id = sid, rec_host_id = h, rec_interval_seconds = cr_interval_seconds q,
          rec_jitter_seconds = cr_jitter_seconds q, rec_jitter_offset_seconds = offset,
          rec_stale_after_seconds = cr_stale_after_seconds q,
          rec_state = (if cr_enabled q then SchedEnabled else SchedPaused),
          rec_next_due_at =
            (if cr_enabled q
             then Some (timestamp (now + seconds (int (cr_interval_seconds q)) + seconds (int offset)))
             else None),
          rec_last_due_at = None, rec_revision = 1, rec_created_at = timestamp now,
          rec_updated_at = timestamp now\<rparr>)"

definition created_row :: "schedule_record \<Rightarrow> string \<Rightarrow> string \<Rightarrow> schedule_response \<Rightarrow> schedule_row" where
  "created_row s key sha response =
     \<lparr>sch_id = rec_schedule_id s, sch_host = rec_host_id s, sch_interval = rec_interval_seconds s,
      sch_jitter = rec_jitter_seconds s, sch_jitter_offset = rec_jitter_offset_seconds s,
      sch_stale_after = rec_stale_after_seconds s, sch_state = rec_state s,
      sch_next_due = rec_next_due_at s, sch_last_due = None, sch_revision = 1,
      sch_lease_owner = None, sch_lease_token = None, sch_lease_until = None,
      sch_create_key = key, sch_create_sha = sha, sch_created_response = response,
      sch_created_at = rec_created_at s, sch_updated_at = rec_updated_at s\<rparr>"

text \<open>
  \<open>pre\<close> is the database at the existence check and the first replay lookup, \<open>d\<close> the one the transaction
  runs on; \<open>sid\<close>, \<open>vid\<close>, \<open>rid\<close> are the fresh schedule, version and request identifiers.
\<close>

definition create_monitor_schedule ::
  "env \<Rightarrow> headers \<Rightarrow> string \<Rightarrow> schedule_create_request option \<Rightarrow> string \<Rightarrow> string \<Rightarrow> string \<Rightarrow> instant \<Rightarrow> secs
     \<Rightarrow> db \<Rightarrow> db \<Rightarrow> (scheduler_error + schedule_response) \<times> db" where
  "create_monitor_schedule env hdr h payload sid vid rid now generated pre d =
     (let checked =
        and_then (case payload of None \<Rightarrow> Inl (SBadRequest ''INVALID_JSON'') | Some q \<Rightarrow> Inr q) (\<lambda>q.
        and_then (validate_schedule_values (cr_interval_seconds q) (cr_jitter_seconds q)
                    (cr_stale_after_seconds q)) (\<lambda>_.
        and_then (ensure_host_exists h pre) (\<lambda>_.
        and_then (scheduler_idempotency_key hdr) (\<lambda>key.
        and_then (replay_create h key (digest_text env (json_of_create env q)) pre) (\<lambda>replayed.
          Inr (q, key, replayed))))))
      in case checked of
           Inl e \<Rightarrow> (Inl e, d)
         | Inr (q, key, Some response) \<Rightarrow> (Inr response, d)
         | Inr (q, key, None) \<Rightarrow>
             (let sha = digest_text env (json_of_create env q);
                  s = created_record env sid h q now;
                  response = \<lparr>resp_data = s, resp_meta = real_meta (request_id hdr rid) 1 generated\<rparr>
              in case insert_schedule (created_row s key sha response) d of
                   Inl UniqueViolation \<Rightarrow>
                     (case replay_create h key sha d of
                        Inl e \<Rightarrow> (Inl e, d)
                      | Inr (Some r) \<Rightarrow> (Inr r, d)
                      | Inr None \<Rightarrow> (Inl (SConflict ''MONITOR_SCHEDULE_EXISTS''), d))
                 | Inl e \<Rightarrow> (Inl (SStorage e), d)
                 | Inr d1 \<Rightarrow>
                     (case insert_schedule_version s vid (rec_created_at s) (rec_created_at s) Recorded None d1 of
                        Inl e \<Rightarrow> (Inl (SStorage e), d)
                      | Inr d2 \<Rightarrow> (Inr response, publish_schedule_state s generated d2))))"

subsection \<open>Updating a schedule\<close>

definition empty_patch :: "schedule_update_request \<Rightarrow> bool" where
  "empty_patch q =
     (up_interval_seconds q = None \<and> up_jitter_seconds q = None \<and> up_stale_after_seconds q = None
      \<and> up_state q = None)"

definition unwrap_or :: "'a option \<Rightarrow> 'a \<Rightarrow> 'a" where
  "unwrap_or x dflt = (case x of None \<Rightarrow> dflt | Some v \<Rightarrow> v)"

text \<open>The values a request leaves unset are those of the record read before the transaction.\<close>

record patch_plan =
  pl_interval :: nat
  pl_jitter :: nat
  pl_stale :: nat
  pl_target :: schedule_state
  pl_revision :: int
  pl_grid_changed :: bool

definition plan_of :: "schedule_update_request \<Rightarrow> schedule_record \<Rightarrow> patch_plan" where
  "plan_of q current =
     (let interval = unwrap_or (up_interval_seconds q) (rec_interval_seconds current);
          jitter = unwrap_or (up_jitter_seconds q) (rec_jitter_seconds current);
          target = unwrap_or (up_state q) (rec_state current)
      in \<lparr>pl_interval = interval, pl_jitter = jitter,
          pl_stale = unwrap_or (up_stale_after_seconds q) (rec_stale_after_seconds current),
          pl_target = target, pl_revision = rec_revision current + 1,
          pl_grid_changed = (interval \<noteq> rec_interval_seconds current
             \<or> jitter \<noteq> rec_jitter_seconds current \<or> target \<noteq> rec_state current)\<rparr>)"

definition patch_offset :: "env \<Rightarrow> string \<Rightarrow> patch_plan \<Rightarrow> schedule_record \<Rightarrow> nat" where
  "patch_offset env sid pl before =
     (if pl_grid_changed pl then stable_jitter env sid (pl_revision pl) (pl_jitter pl)
      else rec_jitter_offset_seconds before)"

definition patch_next_due :: "patch_plan \<Rightarrow> nat \<Rightarrow> schedule_record \<Rightarrow> instant \<Rightarrow> secs option" where
  "patch_next_due pl offset before now =
     (case pl_target pl of
        SchedEnabled \<Rightarrow>
          (if pl_grid_changed pl
           then Some (timestamp (now + seconds (int (pl_interval pl)) + seconds (int offset)))
           else rec_next_due_at before)
      | _ \<Rightarrow> None)"

definition updated_row :: "patch_plan \<Rightarrow> nat \<Rightarrow> secs option \<Rightarrow> secs \<Rightarrow> schedule_row \<Rightarrow> schedule_row" where
  "updated_row pl offset next_due updated r =
     r\<lparr>sch_interval := pl_interval pl, sch_jitter := pl_jitter pl, sch_jitter_offset := offset,
       sch_stale_after := pl_stale pl, sch_state := pl_target pl,
       sch_next_due := (if pl_grid_changed pl then next_due else sch_next_due r),
       sch_revision := pl_revision pl, sch_lease_owner := None, sch_lease_token := None,
       sch_lease_until := None, sch_updated_at := updated\<rparr>"

definition persist_schedule_update ::
  "string \<Rightarrow> patch_plan \<Rightarrow> nat \<Rightarrow> secs option \<Rightarrow> secs \<Rightarrow> int \<Rightarrow> db \<Rightarrow> (nat \<times> db) stmt" where
  "persist_schedule_update sid pl offset next_due updated expected d =
     (let P = (\<lambda>r. sch_id r = sid \<and> sch_revision r = expected);
          f = updated_row pl offset next_due updated
      in if \<exists>r \<in> set (schedules d). P r \<and> \<not> schedule_checks (f r) then Inl CheckViolation
         else if pl_target pl \<noteq> SchedArchived
              \<and> (\<exists>r \<in> set (schedules d). P r
                   \<and> (\<exists>s \<in> set (schedules d). sch_id s \<noteq> sid \<and> sch_host s = sch_host r
                        \<and> sch_state s \<noteq> SchedArchived))
         then Inl UniqueViolation
         else Inr (rows_affected P (schedules d), d\<lparr>schedules := update_rows P f (schedules d)\<rparr>))"

text \<open>The instant up to which due slots belong to the old revision.\<close>

definition old_due_until :: "bool \<Rightarrow> schedule_record \<Rightarrow> schedule_record \<Rightarrow> instant \<Rightarrow> secs" where
  "old_due_until grid_changed before persisted now =
     (if grid_changed then
        (if (case rec_next_due_at before of None \<Rightarrow> False | Some due \<Rightarrow> now < parse_timestamp due)
         then unwrap_or (rec_next_due_at before) (timestamp now)
         else timestamp now)
      else unwrap_or (rec_next_due_at persisted) (timestamp now))"

text \<open>
  The body of the transaction after the writer lock, on a schedule whose revision still is \<open>expected\<close>.
\<close>

definition update_transaction ::
  "env \<Rightarrow> string \<Rightarrow> patch_plan \<Rightarrow> int \<Rightarrow> string \<Rightarrow> instant \<Rightarrow> db \<Rightarrow> scheduler_error + db" where
  "update_transaction env sid pl expected vid now d =
     (case load_schedule sid d of
        None \<Rightarrow> Inl SInternal
      | Some before \<Rightarrow>
          (let offset = patch_offset env sid pl before;
               next_due = patch_next_due pl offset before now;
               updated = timestamp now
           in and_then (map_error SStorage
                (persist_schedule_update sid pl offset next_due updated expected d)) (\<lambda>(affected, d1).
              if affected \<noteq> 1
              then Inl (SPreconditionFailed
                     (case load_schedule sid d of None \<Rightarrow> expected | Some s \<Rightarrow> rec_revision s))
              else case load_schedule sid d1 of
                     None \<Rightarrow> Inl SInternal
                   | Some persisted \<Rightarrow>
                       and_then (map_error SStorage (close_schedule_version before updated
                                   (old_due_until (pl_grid_changed pl) before persisted now) d1)) (\<lambda>d2.
                       map_error SStorage (insert_schedule_version persisted vid updated updated Recorded
                                   (Some (rec_state before)) d2)))))"

definition update_monitor_schedule ::
  "env \<Rightarrow> headers \<Rightarrow> string \<Rightarrow> schedule_update_request option \<Rightarrow> string \<Rightarrow> string \<Rightarrow> instant \<Rightarrow> secs
     \<Rightarrow> db \<Rightarrow> db \<Rightarrow> (scheduler_error + schedule_response) \<times> db" where
  "update_monitor_schedule env hdr sid payload vid rid now generated pre d =
     (let checked =
        and_then (scheduler_if_match hdr) (\<lambda>expected.
        and_then (case payload of None \<Rightarrow> Inl (SBadRequest ''INVALID_JSON'') | Some q \<Rightarrow> Inr q) (\<lambda>q.
        if empty_patch q then Inl (SBadRequest ''EMPTY_PATCH'')
        else case load_schedule sid pre of
               None \<Rightarrow> Inl (SNotFound ''monitor_schedule'' sid)
             | Some current \<Rightarrow>
                 (if rec_revision current \<noteq> expected then Inl (SPreconditionFailed (rec_revision current))
                  else if rec_state current = SchedArchived then Inl (SConflict ''MONITOR_SCHEDULE_ARCHIVED'')
                  else
                    (let pl = plan_of q current in
                     and_then (validate_schedule_values (pl_interval pl) (pl_jitter pl) (pl_stale pl))
                       (\<lambda>_. Inr (expected, pl))))))
      in case checked of
           Inl e \<Rightarrow> (Inl e, d)
         | Inr (expected, pl) \<Rightarrow>
             (if rows_affected (\<lambda>r. sch_id r = sid \<and> sch_revision r = expected) (schedules d) \<noteq> 1
              then (Inl (SPreconditionFailed
                      (case load_schedule sid d of None \<Rightarrow> expected | Some s \<Rightarrow> rec_revision s)), d)
              else case update_transaction env sid pl expected vid now d of
                     Inl e \<Rightarrow> (Inl e, d)
                   | Inr d1 \<Rightarrow>
                       (case load_schedule sid d1 of
                          None \<Rightarrow> (Inl SInternal, d1)
                        | Some updated \<Rightarrow>
                            (Inr \<lparr>resp_data = updated,
                                  resp_meta = real_meta (request_id hdr rid) (pl_revision pl) generated\<rparr>,
                             publish_schedule_state updated generated d1))))"

definition clear_scheduler_leases :: "db \<Rightarrow> nat \<times> db" where
  "clear_scheduler_leases d =
     (let P = (\<lambda>r. sch_lease_token r \<noteq> None)
      in (rows_affected P (schedules d),
          d\<lparr>schedules := update_rows P (\<lambda>r. r\<lparr>sch_lease_owner := None, sch_lease_token := None,
                                             sch_lease_until := None\<rparr>) (schedules d)\<rparr>))"

subsection \<open>Claiming a due slot\<close>

record due_schedule =
  due_schedule :: string
  due_version :: string
  due_host :: string
  due_interval :: nat
  due_stale :: nat
  due_revision :: int
  due_next :: secs

record claimed_run =
  clm_run :: string
  clm_host :: string
  clm_state :: run_state

text \<open>Fresh identifiers of one claim: lease token, run, request, evaluation and its conditions.\<close>

record claim_ids =
  cid_token :: string
  cid_run :: string
  cid_request :: string
  cid_evaluation :: string
  cid_conditions :: "nat \<Rightarrow> string"

definition missed_slots :: "due_schedule \<Rightarrow> instant \<Rightarrow> int" where
  "missed_slots due tick = ((tick - parse_timestamp (due_next due)) div ns_per_s) div int (due_interval due)"

definition claimed_slot :: "due_schedule \<Rightarrow> instant \<Rightarrow> instant" where
  "claimed_slot due tick =
     (let missed = max (missed_slots due tick) 0
      in parse_timestamp (due_next due)
         + seconds (int (due_interval due)) * (if missed \<le> i32_max then missed else i32_max))"

definition schedule_run_key :: "env \<Rightarrow> string \<Rightarrow> secs \<Rightarrow> string" where
  "schedule_run_key env sid slot = ''schedule:'' @ sid @ '':'' @ fmt_secs env slot"

definition current_policy_version :: "string \<Rightarrow> db \<Rightarrow> string option" where
  "current_policy_version h d =
     (case rev (sort_key pol_revision (filter (\<lambda>p. pol_host p = h \<and> pol_lifecycle p = Current) (policies d))) of
        [] \<Rightarrow> None
      | p # _ \<Rightarrow> Some (pol_version_id p))"

definition claim_run ::
  "env \<Rightarrow> due_schedule \<Rightarrow> instant \<Rightarrow> claim_ids \<Rightarrow> secs \<Rightarrow> run_state \<Rightarrow> db \<Rightarrow> run_row" where
  "claim_run env due tick ids generated state d =
     (let slot = timestamp (claimed_slot due tick);
          key = schedule_run_key env (due_schedule due) slot;
          skipped = (state = SkippedOverlap)
      in \<lparr>run_id = cid_run ids, run_host = due_host due, run_request_id = cid_request ids, run_key = key,
          run_sha = digest_text env key,
          run_trigger_kind = (if 0 < missed_slots due tick then CatchUp else Scheduled),
          run_status = state, run_schedule = Some (due_schedule due),
          run_schedule_revision = Some (due_revision due), run_version = Some (due_version due),
          run_policy_version = current_policy_version (due_host due) d,
          run_scheduled_for = Some slot, run_stale_after = int (due_stale due),
          run_due_interval = Some (int (due_interval due)),
          run_missed = Some (max (missed_slots due tick) 0),
          run_collector_version = None, run_boot_id = None, run_coverage = [],
          run_failure = (if skipped then Some ''MONITOR_OVERLAP_SKIPPED'' else None),
          run_failure_summary = (if skipped then Some ''Scheduled observation was skipped because this HOST already had an active observation'' else None),
          run_output_bytes = 0, run_ssh_sessions = 0, run_submitted_at = timestamp tick,
          run_started_at = None,
          run_finished_at = (if skipped then Some (1000 * timestamp tick) else None),
          run_accepted = \<lparr>acc_data = \<lparr>acc_request_id = cid_request ids, acc_run_id = cid_run ids,
             acc_host_id = due_host due, acc_state = state, acc_submitted_at = timestamp tick\<rparr>,
             acc_meta = real_meta (cid_request ids) (due_revision due) generated\<rparr>\<rparr>)"

definition lease_matches :: "due_schedule \<Rightarrow> instant \<Rightarrow> schedule_row \<Rightarrow> bool" where
  "lease_matches due tick r =
     (sch_id r = due_schedule due \<and> sch_state r = SchedEnabled \<and> sch_revision r = due_revision due
      \<and> sch_next_due r = Some (due_next due)
      \<and> (case sch_lease_until r of None \<Rightarrow> True | Some u \<Rightarrow> u < timestamp tick))"

definition take_lease :: "string \<Rightarrow> claim_ids \<Rightarrow> instant \<Rightarrow> schedule_row \<Rightarrow> schedule_row" where
  "take_lease instance ids tick r =
     r\<lparr>sch_lease_owner := Some instance, sch_lease_token := Some (cid_token ids),
       sch_lease_until := Some (timestamp (tick + seconds 120))\<rparr>"

definition advance_schedule :: "due_schedule \<Rightarrow> instant \<Rightarrow> schedule_row \<Rightarrow> schedule_row" where
  "advance_schedule due tick r =
     r\<lparr>sch_last_due := Some (timestamp (claimed_slot due tick)),
       sch_next_due := Some (timestamp (claimed_slot due tick + seconds (int (due_interval due)))),
       sch_lease_owner := None, sch_lease_token := None, sch_lease_until := None,
       sch_updated_at := timestamp tick\<rparr>"

definition host_busy :: "string \<Rightarrow> db \<Rightarrow> bool" where
  "host_busy h d =
     ((\<exists>r \<in> set (runs d). run_host r = h \<and> active_run r)
      \<or> (\<exists>x \<in> set (discoveries d). disc_host x = h \<and> active_discovery x))"

definition overlap_timing :: "instant \<Rightarrow> evaluation_timing" where
  "overlap_timing tick =
     \<lparr>tm_evaluated_at = tick, tm_observation = ObsNone, tm_observed_at = None, tm_valid_until = None\<rparr>"

definition claim_due ::
  "env \<Rightarrow> string \<Rightarrow> due_schedule \<Rightarrow> instant \<Rightarrow> bool \<Rightarrow> claim_ids \<Rightarrow> secs \<Rightarrow> db
     \<Rightarrow> (scheduler_error + claimed_run option) \<times> db" where
  "claim_due env instance due tick overlap_only ids generated d =
     (if tick < parse_timestamp (due_next due) then (Inr None, d)
      else if due_interval due = 0 then (Inl SPanic, d)
      else if rows_affected (lease_matches due tick) (schedules d) \<noteq> 1 then (Inr None, d)
      else
        (let leased = d\<lparr>schedules := update_rows (lease_matches due tick) (take_lease instance ids tick)
                                        (schedules d)\<rparr>;
             busy = host_busy (due_host due) leased
         in if overlap_only \<and> \<not> busy then (Inr None, d)
            else
              (let state = (if busy then SkippedOverlap else Queued);
                   body =
                     and_then (insert_run (claim_run env due tick ids generated state leased) leased) (\<lambda>d1.
                       let d2 = d1\<lparr>schedules := update_rows
                                    (\<lambda>r. sch_id r = due_schedule due \<and> sch_lease_token r = Some (cid_token ids))
                                    (advance_schedule due tick) (schedules d1)\<rparr>
                       in if state = SkippedOverlap
                          then evaluate_run_tx env (cid_run ids) (due_host due) (overlap_timing tick)
                                 (cid_evaluation ids) (cid_conditions ids) d2
                          else Inr d2)
               in case body of
                    Inl e \<Rightarrow> (Inl (SStorage e), d)
                  | Inr d3 \<Rightarrow>
                      (Inr (Some \<lparr>clm_run = cid_run ids, clm_host = due_host due, clm_state = state\<rparr>), d3))))"

subsection \<open>A tick\<close>

text \<open>
  The rows of the due query: enabled schedules whose due time has come, oldest first, at most 64, each with
  the identifier of its open version (the left join; at most one row can match).
\<close>

definition open_version :: "schedule_row \<Rightarrow> db \<Rightarrow> string option" where
  "open_version r d =
     map_option ver_id (select_one (\<lambda>v. ver_schedule v = sch_id r \<and> ver_host v = sch_host r
       \<and> ver_revision v = sch_revision r \<and> ver_effective_until v = None) (versions d))"

definition due_now :: "instant \<Rightarrow> schedule_row \<Rightarrow> bool" where
  "due_now tick r =
     (sch_state r = SchedEnabled
      \<and> (case sch_next_due r of None \<Rightarrow> False | Some n \<Rightarrow> n \<le> timestamp tick))"

definition due_rows :: "instant \<Rightarrow> db \<Rightarrow> (schedule_row \<times> string option) list" where
  "due_rows tick d =
     map (\<lambda>r. (r, open_version r d))
       (take max_due_per_tick
          (sort_key (\<lambda>r. the (sch_next_due r)) (sort_key sch_id (filter (due_now tick) (schedules d)))))"

definition due_of :: "schedule_row \<Rightarrow> string \<Rightarrow> due_schedule" where
  "due_of r vid =
     \<lparr>due_schedule = sch_id r, due_version = vid, due_host = sch_host r,
      due_interval = non_negative_u32 (int (sch_interval r)),
      due_stale = non_negative_u32 (int (sch_stale_after r)),
      due_revision = sch_revision r, due_next = the (sch_next_due r)\<rparr>"

text \<open>What one iteration of the loop meets: the shutdown flag, whether a permit is free, its identifiers.\<close>

record tick_input =
  ti_shutdown_before :: bool
  ti_permit :: bool
  ti_shutdown_after :: bool
  ti_ids :: claim_ids

definition publish_claimed :: "claimed_run \<Rightarrow> secs \<Rightarrow> db \<Rightarrow> db" where
  "publish_claimed c now d =
     publish MonitorRunChanged (''monitor-run:'' @ clm_run c) 0
       (JObj [(''state'', JStr (run_state_name (clm_state c)))]) now d"

text \<open>The loop: the runs it hands to background tasks, the number of claims or the error, the database.\<close>

fun tick_loop ::
  "env \<Rightarrow> string \<Rightarrow> instant \<Rightarrow> secs \<Rightarrow> (schedule_row \<times> string option) list \<Rightarrow> tick_input list \<Rightarrow> nat \<Rightarrow> db
     \<Rightarrow> (scheduler_error + nat) \<times> claimed_run list \<times> db" where
  "tick_loop env instance tick generated [] inputs claimed d = (Inr claimed, [], d)"
| "tick_loop env instance tick generated (row # rows) [] claimed d = (Inr claimed, [], d)"
| "tick_loop env instance tick generated ((r, version) # rows) (i # inputs) claimed d =
     (if ti_shutdown_before i then (Inr claimed, [], d)
      else case version of
             None \<Rightarrow> (Inl SInternal, [], d)
           | Some vid \<Rightarrow>
               (if ti_shutdown_after i then (Inr claimed, [], d)
                else case claim_due env instance (due_of r vid) tick (\<not> ti_permit i) (ti_ids i) generated d of
                       (Inl e, d1) \<Rightarrow> (Inl e, [], d1)
                     | (Inr None, d1) \<Rightarrow> tick_loop env instance tick generated rows inputs claimed d1
                     | (Inr (Some c), d1) \<Rightarrow>
                         (let d2 = publish_claimed c generated d1 in
                          if clm_state c = Queued \<and> \<not> ti_permit i then (Inl SInternal, [], d2)
                          else
                            (let (result, started, d3) =
                               tick_loop env instance tick generated rows inputs (sat_add32 claimed 1) d2
                             in (result, (if clm_state c = Queued then c # started else started), d3)))))"

definition tick_once_inner ::
  "env \<Rightarrow> string \<Rightarrow> instant \<Rightarrow> secs \<Rightarrow> tick_input list \<Rightarrow> db
     \<Rightarrow> (scheduler_error + nat) \<times> claimed_run list \<times> db" where
  "tick_once_inner env instance tick generated inputs d =
     tick_loop env instance tick generated (due_rows tick d) inputs 0 d"

text \<open>\<open>shutdown\<close> and \<open>shutdown_fenced\<close> are the flag before and after the admission fence is entered.\<close>

definition tick_once ::
  "env \<Rightarrow> string \<Rightarrow> bool \<Rightarrow> bool \<Rightarrow> instant \<Rightarrow> instant \<Rightarrow> secs \<Rightarrow> tick_input list \<Rightarrow> tick_health \<Rightarrow> db
     \<Rightarrow> (scheduler_error + nat) \<times> claimed_run list \<times> tick_health \<times> db" where
  "tick_once env instance shutdown shutdown_fenced tick completed generated inputs health d =
     (if shutdown \<or> shutdown_fenced then (Inr 0, [], health, d)
      else
        (let (result, started, d1) = tick_once_inner env instance tick generated inputs d
         in (result, started,
             (case result of
                Inr _ \<Rightarrow> record_tick_success completed health
              | Inl e \<Rightarrow> record_tick_failure completed (scheduler_tick_error_code e) health),
             d1)))"

subsection \<open>The status report\<close>

record scheduler_status =
  ss_state :: scheduler_state
  ss_reason :: state_reason
  ss_active_schedules :: nat
  ss_due_schedules :: nat
  ss_queued_runs :: nat
  ss_running_runs :: nat
  ss_oldest_due :: "secs option"
  ss_last_tick :: "secs option"
  ss_last_error_at :: "secs option"
  ss_last_error_code :: "string option"
  ss_failures :: nat
  ss_max_concurrency :: nat
  ss_tick_seconds :: nat
  ss_late_after :: nat

definition count_u32 :: "nat \<Rightarrow> nat" where
  "count_u32 n = non_negative_u32 (int n)"

definition oldest_due :: "instant \<Rightarrow> db \<Rightarrow> secs option" where
  "oldest_due now d =
     (let ds = map (\<lambda>r. the (sch_next_due r)) (filter (due_now now) (schedules d))
      in if ds = [] then None else Some (Min (set ds)))"

definition get_scheduler_status ::
  "bool \<Rightarrow> instant \<Rightarrow> scheduler_settings \<Rightarrow> tick_health \<Rightarrow> db \<Rightarrow> scheduler_status" where
  "get_scheduler_status started now settings health d =
     (let late = scheduler_late_after_seconds settings;
          (state, reason) = derive_scheduler_state started now health late
      in \<lparr>ss_state = state, ss_reason = reason,
          ss_active_schedules = count_u32 (rows_affected (\<lambda>r. sch_state r = SchedEnabled) (schedules d)),
          ss_due_schedules = count_u32 (rows_affected (due_now now) (schedules d)),
          ss_queued_runs = count_u32 (rows_affected (\<lambda>r. run_status r = Queued) (runs d)),
          ss_running_runs = count_u32 (rows_affected (\<lambda>r. run_status r = Running) (runs d)),
          ss_oldest_due = oldest_due now d,
          ss_last_tick = map_option timestamp (th_last_successful health),
          ss_last_error_at = map_option (\<lambda>e. timestamp (snd e)) (th_last_error health),
          ss_last_error_code = map_option fst (th_last_error health),
          ss_failures = th_failures health, ss_max_concurrency = set_max_concurrency settings,
          ss_tick_seconds = set_tick_seconds settings, ss_late_after = late\<rparr>)"

subsection \<open>Slot arithmetic\<close>

definition due_ok :: "due_schedule \<Rightarrow> bool" where
  "due_ok due = (min_interval_seconds \<le> due_interval due \<and> due_interval due \<le> max_interval_seconds)"

lemma parse_timestamp_slot: "timestamp (parse_timestamp s + seconds n * k) = s + n * k"
proof -
  have "parse_timestamp s + seconds n * k = (s + n * k) * ns_per_s"
    by (simp add: parse_timestamp_def seconds_def algebra_simps)
  then show ?thesis by (simp add: timestamp_def ns_per_s_def)
qed

lemma elapsed_seconds: "(tick - parse_timestamp s) div ns_per_s = timestamp tick - s"
  by (simp add: parse_timestamp_def timestamp_def ns_per_s_def)

lemma missed_slots_eq: "missed_slots due tick = (timestamp tick - due_next due) div int (due_interval due)"
  by (simp add: missed_slots_def elapsed_seconds)

lemma missed_slots_nonneg:
  "parse_timestamp (due_next due) \<le> tick \<Longrightarrow> 0 \<le> missed_slots due tick"
  by (cases "due_interval due = 0")
    (simp_all add: missed_slots_eq parse_timestamp_le pos_imp_zdiv_nonneg_iff)

text \<open>The due times a 32 bit multiple of the interval can reach from here: some 20000 years.\<close>

definition slots_fit :: "due_schedule \<Rightarrow> instant \<Rightarrow> bool" where
  "slots_fit due tick = (missed_slots due tick \<le> i32_max)"

lemma claimed_slot_eq:
  assumes "parse_timestamp (due_next due) \<le> tick" and "slots_fit due tick"
  shows "timestamp (claimed_slot due tick) = due_next due + int (due_interval due) * missed_slots due tick"
proof -
  have "max (missed_slots due tick) 0 = missed_slots due tick" using missed_slots_nonneg [OF assms(1)] by simp
  then show ?thesis
    using assms(2) by (simp add: claimed_slot_def slots_fit_def parse_timestamp_slot)
qed

lemma claimed_slot_bounds:
  assumes "parse_timestamp (due_next due) \<le> tick" and "slots_fit due tick" and "due_ok due"
  shows "due_next due \<le> timestamp (claimed_slot due tick)"
    and "timestamp (claimed_slot due tick) \<le> timestamp tick"
    and "timestamp tick < timestamp (claimed_slot due tick) + int (due_interval due)"
proof -
  let ?i = "int (due_interval due)" let ?e = "timestamp tick - due_next due"
  have i: "0 < ?i" using assms(3) by (simp add: due_ok_def min_interval_seconds_def)
  have "?i * (?e div ?i) + ?e mod ?i = ?e" by simp
  moreover have "0 \<le> ?e mod ?i" "?e mod ?i < ?i" using i by simp_all
  moreover have "0 \<le> ?i * (?e div ?i)"
    using missed_slots_nonneg [OF assms(1)] i by (simp add: missed_slots_eq)
  ultimately show "due_next due \<le> timestamp (claimed_slot due tick)"
    and "timestamp (claimed_slot due tick) \<le> timestamp tick"
    and "timestamp tick < timestamp (claimed_slot due tick) + ?i"
    unfolding claimed_slot_eq [OF assms(1,2)] missed_slots_eq by linarith+
qed

subsection \<open>The effect of a claim\<close>

lemma evaluate_run_tx_frame:
  assumes "evaluate_run_tx env run host timing eid cids d = Inr d'"
  shows "d' = d\<lparr>evaluations := evaluations d', conditions := conditions d'\<rparr>"
proof (cases "\<exists>e \<in> set (evaluations d). evl_run e = run")
  case True
  then show ?thesis using assms by (simp add: evaluate_run_tx_def)
next
  case False
  show ?thesis
  proof (rule evaluate_run_tx_Inr [OF assms], goal_cases)
    case 1
    then show ?case using False by blast
  next
    case (2 r tm)
    show ?case unfolding 2(5) by simp
  qed
qed

lemma advance_take_lease [simp]:
  "advance_schedule due tick (take_lease instance ids tick' r) = advance_schedule due tick r"
  by (simp add: advance_schedule_def take_lease_def)

lemma take_lease_simps [simp]:
  "sch_id (take_lease instance ids tick r) = sch_id r"
  "sch_lease_token (take_lease instance ids tick r) = Some (cid_token ids)"
  by (simp_all add: take_lease_def)

lemma key_of_unique:
  "distinct (map k rs) \<Longrightarrow> r \<in> set rs \<Longrightarrow> s \<in> set rs \<Longrightarrow> k r = k s \<Longrightarrow> r = s"
  by (auto simp: distinct_map inj_on_def)

lemma lease_advance:
  assumes "distinct (map sch_id rs)" and "r0 \<in> set rs" and "lease_matches due tick r0"
  shows "update_rows (\<lambda>r. sch_id r = due_schedule due \<and> sch_lease_token r = Some (cid_token ids))
           (advance_schedule due tick) (update_rows (lease_matches due tick) (take_lease instance ids tick) rs)
         = update_rows (\<lambda>r. sch_id r = due_schedule due) (advance_schedule due tick) rs"
proof -
  have "lease_matches due tick r \<longleftrightarrow> sch_id r = due_schedule due" if "r \<in> set rs" for r
    using key_of_unique [OF assms(1) that assms(2)] assms(3) by (auto simp: lease_matches_def)
  then show ?thesis by (auto simp: update_rows_def)
qed

lemma rows_affected_1E:
  assumes "rows_affected P rs = 1"
  obtains r where "r \<in> set rs" and "P r"
  using assms rows_affected_pos [of P rs] by auto

lemma claim_due_Some:
  assumes claim: "claim_due env instance due tick overlap_only ids generated d = (Inr (Some c), d')"
    and dist: "distinct (map sch_id (schedules d))"
  obtains r0 state where "r0 \<in> set (schedules d)" and "lease_matches due tick r0"
    and "parse_timestamp (due_next due) \<le> tick" and "due_interval due \<noteq> 0"
    and "state = (if host_busy (due_host due) d then SkippedOverlap else Queued)"
    and "overlap_only \<longrightarrow> host_busy (due_host due) d"
    and "c = \<lparr>clm_run = cid_run ids, clm_host = due_host due, clm_state = state\<rparr>"
    and "\<exists>d1. insert_run (claim_run env due tick ids generated state d) d = Inr d1"
    and "d' = d\<lparr>schedules := update_rows (\<lambda>r. sch_id r = due_schedule due) (advance_schedule due tick) (schedules d),
                runs := runs d @ [claim_run env due tick ids generated state d],
                evaluations := evaluations d', conditions := conditions d'\<rparr>"
    and "state \<noteq> SkippedOverlap \<longrightarrow> evaluations d' = evaluations d \<and> conditions d' = conditions d"
    and "state = SkippedOverlap \<longrightarrow>
           evaluate_run_tx env (cid_run ids) (due_host due) (overlap_timing tick) (cid_evaluation ids)
             (cid_conditions ids)
             (d\<lparr>schedules := update_rows (\<lambda>r. sch_id r = due_schedule due) (advance_schedule due tick) (schedules d),
                runs := runs d @ [claim_run env due tick ids generated state d]\<rparr>) = Inr d'"
proof -
  let ?rs = "update_rows (lease_matches due tick) (take_lease instance ids tick) (schedules d)"
  let ?leased = "d\<lparr>schedules := ?rs\<rparr>"
  have busy: "host_busy h ?leased = host_busy h d" for h by (simp add: host_busy_def)
  have crun: "claim_run env due tick ids generated s ?leased = claim_run env due tick ids generated s d" for s
    by (simp add: claim_run_def current_policy_version_def Let_def)
  have time: "parse_timestamp (due_next due) \<le> tick" and int0: "due_interval due \<noteq> 0"
    and one: "rows_affected (lease_matches due tick) (schedules d) = 1"
    and over: "overlap_only \<longrightarrow> host_busy (due_host due) d"
    using claim by (auto simp: claim_due_def Let_def busy split: if_splits)
  obtain r0 where r0: "r0 \<in> set (schedules d)" "lease_matches due tick r0"
    by (rule rows_affected_1E [OF one])
  define state where "state = (if host_busy (due_host due) d then SkippedOverlap else Queued)"
  define run where "run = claim_run env due tick ids generated state d"
  let ?adv = "update_rows (\<lambda>r. sch_id r = due_schedule due) (advance_schedule due tick) (schedules d)"
  have "\<exists>d1. insert_run run ?leased = Inr d1
      \<and> (let d2 = d1\<lparr>schedules := update_rows
                        (\<lambda>r. sch_id r = due_schedule due \<and> sch_lease_token r = Some (cid_token ids))
                        (advance_schedule due tick) (schedules d1)\<rparr>
         in if state = SkippedOverlap
            then evaluate_run_tx env (cid_run ids) (due_host due) (overlap_timing tick)
                   (cid_evaluation ids) (cid_conditions ids) d2 = Inr d'
            else d2 = d')
      \<and> c = \<lparr>clm_run = cid_run ids, clm_host = due_host due, clm_state = state\<rparr>"
    using claim time int0 one over
    by (cases "insert_run run ?leased")
      (auto simp: claim_due_def Let_def busy crun state_def run_def split: if_splits sum.splits)
  then obtain d1 where ins: "insert_run run ?leased = Inr d1"
    and rest: "let d2 = d1\<lparr>schedules := update_rows
                        (\<lambda>r. sch_id r = due_schedule due \<and> sch_lease_token r = Some (cid_token ids))
                        (advance_schedule due tick) (schedules d1)\<rparr>
         in if state = SkippedOverlap
            then evaluate_run_tx env (cid_run ids) (due_host due) (overlap_timing tick)
                   (cid_evaluation ids) (cid_conditions ids) d2 = Inr d'
            else d2 = d'"
    and c: "c = \<lparr>clm_run = cid_run ids, clm_host = due_host due, clm_state = state\<rparr>"
    by blast
  have d1: "d1 = d\<lparr>schedules := ?rs, runs := runs d @ [run]\<rparr>"
    using insert_run_Inr [OF ins] by simp
  have d2: "d1\<lparr>schedules := update_rows
                        (\<lambda>r. sch_id r = due_schedule due \<and> sch_lease_token r = Some (cid_token ids))
                        (advance_schedule due tick) (schedules d1)\<rparr>
      = d\<lparr>schedules := ?adv, runs := runs d @ [run]\<rparr>"
    using lease_advance [OF dist r0] by (simp add: d1)
  have "map sch_id ?rs = map sch_id (schedules d)"
    by (rule map_update_rows) (simp add: take_lease_def)
  then have "set (map sch_id ?rs) = set (map sch_id (schedules d))" by (rule arg_cong)
  then have ids: "sch_id ` set ?rs = sch_id ` set (schedules d)" by simp
  have ins': "\<exists>d1. insert_run run d = Inr d1"
    using ins by (auto simp: insert_run_def ids split: if_splits option.splits)
  show thesis
  proof (rule that [OF r0 time int0 state_def over c])
    show "\<exists>d1. insert_run (claim_run env due tick ids generated state d) d = Inr d1"
      using ins' by (simp add: run_def)
    show "d' = d\<lparr>schedules := ?adv, runs := runs d @ [claim_run env due tick ids generated state d],
                evaluations := evaluations d', conditions := conditions d'\<rparr>"
      using rest evaluate_run_tx_frame [of env _ _ _ _ _ "d\<lparr>schedules := ?adv, runs := runs d @ [run]\<rparr>" d']
      unfolding Let_def d2 run_def by (auto split: if_splits)
    show "state \<noteq> SkippedOverlap \<longrightarrow> evaluations d' = evaluations d \<and> conditions d' = conditions d"
      using rest unfolding Let_def d2 by auto
    show "state = SkippedOverlap \<longrightarrow>
           evaluate_run_tx env (cid_run ids) (due_host due) (overlap_timing tick) (cid_evaluation ids)
             (cid_conditions ids)
             (d\<lparr>schedules := ?adv, runs := runs d @ [claim_run env due tick ids generated state d]\<rparr>) = Inr d'"
    proof
      assume "state = SkippedOverlap"
      then show "evaluate_run_tx env (cid_run ids) (due_host due) (overlap_timing tick) (cid_evaluation ids)
             (cid_conditions ids)
             (d\<lparr>schedules := ?adv, runs := runs d @ [claim_run env due tick ids generated state d]\<rparr>) = Inr d'"
        using rest unfolding Let_def d2 run_def by simp
    qed
  qed
qed

lemma claim_run_simps [simp]:
  "run_id (claim_run env due tick ids g s d) = cid_run ids"
  "run_host (claim_run env due tick ids g s d) = due_host due"
  "run_status (claim_run env due tick ids g s d) = s"
  "run_schedule (claim_run env due tick ids g s d) = Some (due_schedule due)"
  "run_version (claim_run env due tick ids g s d) = Some (due_version due)"
  "run_scheduled_for (claim_run env due tick ids g s d) = Some (timestamp (claimed_slot due tick))"
  "run_key (claim_run env due tick ids g s d)
     = schedule_run_key env (due_schedule due) (timestamp (claimed_slot due tick))"
  "run_missed (claim_run env due tick ids g s d) = Some (max (missed_slots due tick) 0)"
  "run_trigger_kind (claim_run env due tick ids g s d)
     = (if 0 < missed_slots due tick then CatchUp else Scheduled)"
  by (simp_all add: claim_run_def Let_def)

lemma claim_runs:
  assumes "claim_due env instance due tick overlap_only ids generated d = (Inr (Some c), d')"
    and "distinct (map sch_id (schedules d))"
  shows "runs d' = runs d @ [claim_run env due tick ids generated (clm_state c) d]"
    and "schedules d' = update_rows (\<lambda>r. sch_id r = due_schedule due) (advance_schedule due tick) (schedules d)"
    and "versions d' = versions d" and "policies d' = policies d" and "discoveries d' = discoveries d"
    and "hosts d' = hosts d" and "events d' = events d" and "event_seq d' = event_seq d"
    and "clm_state c = (if host_busy (due_host due) d then SkippedOverlap else Queued)"
proof -
  obtain r0 state where st: "state = (if host_busy (due_host due) d then SkippedOverlap else Queued)"
    and c: "c = \<lparr>clm_run = cid_run ids, clm_host = due_host due, clm_state = state\<rparr>"
    and eq: "d' = d\<lparr>schedules := update_rows (\<lambda>r. sch_id r = due_schedule due) (advance_schedule due tick) (schedules d),
                runs := runs d @ [claim_run env due tick ids generated state d],
                evaluations := evaluations d', conditions := conditions d'\<rparr>"
    by (rule claim_due_Some [OF assms]) (rule that)
  show "runs d' = runs d @ [claim_run env due tick ids generated (clm_state c) d]"
    using arg_cong [OF eq, of runs] c by simp
  show "schedules d' = update_rows (\<lambda>r. sch_id r = due_schedule due) (advance_schedule due tick) (schedules d)"
    using arg_cong [OF eq, of schedules] by simp
  show "versions d' = versions d" using arg_cong [OF eq, of versions] by simp
  show "policies d' = policies d" using arg_cong [OF eq, of policies] by simp
  show "discoveries d' = discoveries d" using arg_cong [OF eq, of discoveries] by simp
  show "hosts d' = hosts d" using arg_cong [OF eq, of hosts] by simp
  show "events d' = events d" using arg_cong [OF eq, of events] by simp
  show "event_seq d' = event_seq d" using arg_cong [OF eq, of event_seq] by simp
  show "clm_state c = (if host_busy (due_host due) d then SkippedOverlap else Queued)"
    using c st by simp
qed

text \<open>One enabled schedule with its first version, for the witnesses.\<close>

definition sample_record :: schedule_record where
  "sample_record = \<lparr>rec_schedule_id = ''s'', rec_host_id = ''h'', rec_interval_seconds = 300,
     rec_jitter_seconds = 0, rec_jitter_offset_seconds = 0, rec_stale_after_seconds = 600,
     rec_state = SchedEnabled, rec_next_due_at = Some 1000, rec_last_due_at = None, rec_revision = 1,
     rec_created_at = 700, rec_updated_at = 700\<rparr>"

definition sample_schedule :: schedule_row where
  "sample_schedule = created_row sample_record ''key'' ''sha'' \<lparr>resp_data = sample_record, resp_meta = sample_meta\<rparr>"

definition sample_version :: version_row where
  "sample_version = version_of sample_record ''v1'' 700 700 Recorded None"

definition sample_schedule_db :: db where
  "sample_schedule_db = sample_hosts\<lparr>schedules := [sample_schedule], versions := [sample_version]\<rparr>"

definition sample_due :: due_schedule where
  "sample_due = due_of sample_schedule ''v1''"

definition sample_ids :: claim_ids where
  "sample_ids = \<lparr>cid_token = ''t'', cid_run = ''r1'', cid_request = ''q1'', cid_evaluation = ''e1'',
     cid_conditions = sample_cids\<rparr>"

lemmas sample_schedule_defs = sample_record_def sample_schedule_def sample_version_def
  sample_schedule_db_def sample_due_def sample_ids_def created_row_def version_of_def version_marks_def
  due_of_def sample_hosts_def empty_db_def

lemma sample_due_simps: "due_schedule sample_due = ''s''" "due_version sample_due = ''v1''"
  "due_host sample_due = ''h''" "due_interval sample_due = 300" "due_revision sample_due = 1"
  "due_next sample_due = 1000" "due_stale sample_due = 600"
  by (simp_all add: sample_schedule_defs non_negative_u32_def u32_max_def)

text \<open>A claim two and a half intervals late.\<close>

definition sample_tick :: instant where
  "sample_tick = 1700 * ns_per_s"

definition sample_claim :: "(scheduler_error + claimed_run option) \<times> db" where
  "sample_claim = claim_due sample_env ''i'' sample_due sample_tick False sample_ids 0 sample_schedule_db"

lemma sample_missed: "missed_slots sample_due sample_tick = 2"
  by (simp add: missed_slots_eq sample_due_simps sample_tick_def timestamp_def ns_per_s_def)

lemma sample_due_time: "parse_timestamp (due_next sample_due) \<le> sample_tick"
  by (simp add: sample_due_simps sample_tick_def parse_timestamp_def ns_per_s_def)

lemma sample_claim_run_defined:
  "\<exists>d1. insert_run (claim_run sample_env sample_due sample_tick sample_ids 0 Queued sample_schedule_db)
     sample_schedule_db = Inr d1"
  by (simp add: insert_run_def active_run_def run_checks_def claim_run_def Let_def sample_missed
      sample_due_simps current_policy_version_def)
    (simp add: sample_schedule_defs)

lemma sample_claim:
  "\<exists>d'. sample_claim = (Inr (Some \<lparr>clm_run = ''r1'', clm_host = ''h'', clm_state = Queued\<rparr>), d')"
proof -
  let ?leased = "sample_schedule_db\<lparr>schedules := update_rows (lease_matches sample_due sample_tick)
      (take_lease ''i'' sample_ids sample_tick) (schedules sample_schedule_db)\<rparr>"
  have one: "rows_affected (lease_matches sample_due sample_tick) (schedules sample_schedule_db) = 1"
    by (simp add: rows_affected_def lease_matches_def sample_due_simps sample_schedule_db_def)
      (simp add: sample_schedule_defs)
  have idle: "\<not> host_busy (due_host sample_due) ?leased"
    by (simp add: host_busy_def sample_schedule_db_def sample_hosts_def empty_db_def)
  have run: "claim_run sample_env sample_due sample_tick sample_ids 0 Queued ?leased
      = claim_run sample_env sample_due sample_tick sample_ids 0 Queued sample_schedule_db"
    by (simp add: claim_run_def current_policy_version_def Let_def)
  have ids: "sch_id ` set (update_rows (lease_matches sample_due sample_tick)
      (take_lease ''i'' sample_ids sample_tick) (schedules sample_schedule_db))
      = sch_id ` set (schedules sample_schedule_db)"
    using arg_cong [OF map_update_rows [of "schedules sample_schedule_db" "lease_matches sample_due sample_tick"
        sch_id "take_lease ''i'' sample_ids sample_tick"], of set] by simp
  have "\<exists>d1. insert_run (claim_run sample_env sample_due sample_tick sample_ids 0 Queued sample_schedule_db)
      ?leased = Inr d1"
    using sample_claim_run_defined by (auto simp: insert_run_def ids split: if_splits option.splits)
  then show ?thesis
    using one idle run sample_due_time
    by (auto simp: sample_claim_def claim_due_def Let_def sample_due_simps) (simp add: sample_ids_def)
qed

lemma sample_distinct: "distinct (map sch_id (schedules sample_schedule_db))"
  by (simp add: sample_schedule_db_def)

subsection \<open>Properties of a claim\<close>

text \<open>
  C6. A claim materialises exactly one due slot and loses none: the new run is for the newest slot of the
  grid that is not after the tick, it records how many earlier slots were missed (catch-up exactly when
  there were any), and the schedule's next due time is the first slot after the tick.
\<close>

theorem claim_materialises_slot:
  assumes "claim_due env instance due tick overlap_only ids generated d = (Inr (Some c), d')"
    and "distinct (map sch_id (schedules d))" and "due_ok due" and "slots_fit due tick"
  shows "\<exists>run slot missed. runs d' = runs d @ [run] \<and> run_schedule run = Some (due_schedule due)
      \<and> run_scheduled_for run = Some slot \<and> run_missed run = Some missed
      \<and> slot = due_next due + int (due_interval due) * missed \<and> 0 \<le> missed
      \<and> slot \<le> timestamp tick \<and> timestamp tick < slot + int (due_interval due)
      \<and> (run_trigger_kind run = CatchUp \<longleftrightarrow> 0 < missed)
      \<and> (\<forall>r' \<in> set (schedules d'). sch_id r' = due_schedule due \<longrightarrow>
            sch_next_due r' = Some (slot + int (due_interval due)) \<and> sch_last_due r' = Some slot
            \<and> sch_lease_token r' = None)"
proof -
  have time: "parse_timestamp (due_next due) \<le> tick"
    by (rule claim_due_Some [OF assms(1,2)])
  note runs = claim_runs [OF assms(1,2)]
  let ?run = "claim_run env due tick ids generated (clm_state c) d"
  let ?slot = "timestamp (claimed_slot due tick)"
  have missed: "0 \<le> missed_slots due tick" by (rule missed_slots_nonneg [OF time])
  have rows: "\<forall>r' \<in> set (schedules d'). sch_id r' = due_schedule due \<longrightarrow>
            sch_next_due r' = Some (?slot + int (due_interval due)) \<and> sch_last_due r' = Some ?slot
            \<and> sch_lease_token r' = None"
    by (auto simp: runs(2) set_update_rows advance_schedule_def)
  show ?thesis
    using runs(1) missed rows claimed_slot_bounds [OF time assms(4,3)] claimed_slot_eq [OF time assms(4)]
    by (intro exI [of _ ?run] exI [of _ ?slot] exI [of _ "missed_slots due tick"]) simp
qed

theorem claim_materialises_slot_witness:
  "\<exists>run. map run_scheduled_for [run :: run_row] = [Some 1600] \<and> run_missed run = Some 2
     \<and> runs (snd sample_claim) = [run] \<and> run_trigger_kind run = CatchUp"
proof -
  obtain c d' where cl: "sample_claim = (Inr (Some c), d')" using sample_claim by blast
  have ok: "due_ok sample_due" "slots_fit sample_due sample_tick"
    by (simp_all add: due_ok_def sample_due_simps min_interval_seconds_def max_interval_seconds_def
        slots_fit_def sample_missed i32_max_def)
  obtain run slot missed where r: "runs d' = runs sample_schedule_db @ [run]" "run_scheduled_for run = Some slot"
    "run_missed run = Some missed" "slot = due_next sample_due + int (due_interval sample_due) * missed"
    "slot \<le> timestamp sample_tick" "timestamp sample_tick < slot + int (due_interval sample_due)"
    "run_trigger_kind run = CatchUp \<longleftrightarrow> 0 < missed"
    using claim_materialises_slot [OF cl [unfolded sample_claim_def] sample_distinct ok] by blast
  have "missed = 2"
    using r(4-6) by (simp add: sample_due_simps sample_tick_def timestamp_def ns_per_s_def)
  then show ?thesis
    unfolding cl using r by (intro exI [of _ run])
      (simp add: sample_due_simps sample_schedule_db_def sample_hosts_def empty_db_def)
qed

text \<open>
  C20. A slot is claimed once. After a claim, every other attempt to claim the same due row (another
  instance, another tick, with or without a permit, holding the row it read before) does nothing.
\<close>

theorem claim_exactly_once:
  assumes "claim_due env instance due tick overlap_only ids generated d = (Inr (Some c), d')"
    and "distinct (map sch_id (schedules d))" and "due_ok due" and "slots_fit due tick"
  shows "claim_due env instance' due tick' overlap_only' ids' generated' d' = (Inr None, d')"
proof -
  have time: "parse_timestamp (due_next due) \<le> tick"
    by (rule claim_due_Some [OF assms(1,2)])
  have "due_next due \<noteq> timestamp (claimed_slot due tick) + int (due_interval due)"
    using claimed_slot_bounds(1) [OF time assms(4,3)] assms(3)
    by (simp add: due_ok_def min_interval_seconds_def)
  then have "\<not> lease_matches due tick' r" if "r \<in> set (schedules d')" for r
    using that
    by (auto simp: claim_runs(2) [OF assms(1,2)] set_update_rows lease_matches_def advance_schedule_def)
  then have "rows_affected (lease_matches due tick') (schedules d') = 0"
    by (simp add: rows_affected_0)
  moreover have "due_interval due \<noteq> 0" using assms(3) by (simp add: due_ok_def min_interval_seconds_def)
  ultimately show ?thesis by (simp add: claim_due_def)
qed

theorem claim_exactly_once_witness:
  "claim_due sample_env ''other'' sample_due (2 * sample_tick) False sample_ids 9 (snd sample_claim)
     = (Inr None, snd sample_claim)"
proof -
  obtain c d' where cl: "sample_claim = (Inr (Some c), d')" using sample_claim by blast
  have "due_ok sample_due" "slots_fit sample_due sample_tick"
    by (simp_all add: due_ok_def sample_due_simps min_interval_seconds_def max_interval_seconds_def
        slots_fit_def sample_missed i32_max_def)
  from claim_exactly_once [OF cl [unfolded sample_claim_def] sample_distinct this] show ?thesis
    unfolding cl snd_conv .
qed

text \<open>At most one observation of a host, monitor run or discovery, is active at a time.\<close>

definition one_observation :: "db \<Rightarrow> bool" where
  "one_observation d =
     ((\<forall>i < length (runs d). \<forall>j < length (runs d). i \<noteq> j \<longrightarrow>
         \<not> (active_run (runs d ! i) \<and> active_run (runs d ! j) \<and> run_host (runs d ! i) = run_host (runs d ! j)))
      \<and> (\<forall>r \<in> set (runs d). \<forall>x \<in> set (discoveries d).
           \<not> (active_run r \<and> active_discovery x \<and> disc_host x = run_host r)))"

lemma one_observation_append:
  assumes "one_observation d" and "runs d' = runs d @ [run]" and "discoveries d' = discoveries d"
    and "active_run run \<Longrightarrow> \<not> host_busy (run_host run) d"
  shows "one_observation d'"
proof -
  have "\<not> (active_run (runs d' ! i) \<and> active_run (runs d' ! j) \<and> run_host (runs d' ! i) = run_host (runs d' ! j))"
    if "i < length (runs d')" "j < length (runs d')" "i \<noteq> j" for i j
  proof (cases "i < length (runs d) \<and> j < length (runs d)")
    case True
    then show ?thesis using assms(1,2) that by (simp add: one_observation_def nth_append)
  next
    case False
    then have "i = length (runs d) \<and> j < length (runs d) \<or> j = length (runs d) \<and> i < length (runs d)"
      using that assms(2) by auto
    then show ?thesis
      using assms(2,4) nth_mem [of i "runs d"] nth_mem [of j "runs d"]
      by (auto simp: host_busy_def nth_append)
  qed
  moreover have "\<not> (active_run r \<and> active_discovery x \<and> disc_host x = run_host r)"
    if "r \<in> set (runs d')" "x \<in> set (discoveries d')" for r x
    using that assms by (auto simp: one_observation_def host_busy_def)
  ultimately show ?thesis by (auto simp: one_observation_def)
qed

text \<open>
  Scheduled work never overlaps another observation of its host and never queues a backlog. A claim on
  a busy host is recorded as skipped, already finished, with an explicit receipt that carries no observation;
  a claim on an idle host is queued, and only with a permit: without one nothing happens. At most one active
  observation per host is preserved.
\<close>

theorem claim_never_overlaps:
  assumes "claim_due env instance due tick overlap_only ids generated d = (Inr (Some c), d')"
    and "distinct (map sch_id (schedules d))" and "one_observation d"
    and "\<forall>e \<in> set (evaluations d). evl_run e \<noteq> cid_run ids"
  shows "one_observation d'
      \<and> (overlap_only \<longrightarrow> clm_state c = SkippedOverlap)
      \<and> (clm_state c = (if host_busy (due_host due) d then SkippedOverlap else Queued))
      \<and> (clm_state c = SkippedOverlap \<longrightarrow>
           (\<exists>e. evaluations d' = evaluations d @ [e] \<and> evl_run e = cid_run ids
              \<and> evl_observation e = ObsNone \<and> evl_valid_until e = None))"
proof (intro conjI impI)
  note runs = claim_runs [OF assms(1,2)]
  show st: "clm_state c = (if host_busy (due_host due) d then SkippedOverlap else Queued)" by (rule runs(9))
  show "one_observation d'"
    using st by (intro one_observation_append [OF assms(3) runs(1) runs(5)])
      (auto simp: active_run_def split: if_splits)
  show "clm_state c = SkippedOverlap" if overlap_only
  proof -
    have "host_busy (due_host due) d"
      using that by (rule_tac claim_due_Some [OF assms(1,2)]) blast
    with st show ?thesis by simp
  qed
  assume skipped: "clm_state c = SkippedOverlap"
  let ?run = "claim_run env due tick ids generated (clm_state c) d"
  let ?d = "d\<lparr>schedules := update_rows (\<lambda>r. sch_id r = due_schedule due) (advance_schedule due tick) (schedules d),
                runs := runs d @ [?run]\<rparr>"
  have ev: "evaluate_run_tx env (cid_run ids) (due_host due) (overlap_timing tick) (cid_evaluation ids)
             (cid_conditions ids) ?d = Inr d'"
    by (rule claim_due_Some [OF assms(1,2)]) (use skipped st in auto)
  have no: "\<forall>e \<in> set (evaluations ?d). evl_run e \<noteq> cid_run ids" using assms(4) by simp
  show "\<exists>e. evaluations d' = evaluations d @ [e] \<and> evl_run e = cid_run ids
              \<and> evl_observation e = ObsNone \<and> evl_valid_until e = None"
  proof (rule evaluate_run_tx_Inr [OF ev no], goal_cases)
    case (1 r tm)
    have "tm_observation tm = ObsNone" "tm_valid_until tm = None"
      using 1(4) by (auto simp: effective_timing_def overlap_timing_def)
    with 1(2) arg_cong [OF 1(5), of evaluations] show ?case
      by (intro exI [of _ "evaluation_of env r tm (cid_evaluation ids) ?d"])
        (simp add: evaluation_of_def Let_def)
  qed
qed

theorem claim_never_overlaps_witness:
  "\<exists>c d'. sample_claim = (Inr (Some c), d') \<and> one_observation d' \<and> clm_state c = Queued"
proof -
  obtain c d' where cl: "sample_claim = (Inr (Some c), d')" using sample_claim by blast
  have "one_observation sample_schedule_db" and "\<forall>e \<in> set (evaluations sample_schedule_db). evl_run e \<noteq> cid_run sample_ids"
    and "\<not> host_busy (due_host sample_due) sample_schedule_db"
    by (simp_all add: one_observation_def host_busy_def sample_schedule_db_def sample_hosts_def empty_db_def)
  with claim_never_overlaps [OF cl [unfolded sample_claim_def] sample_distinct] cl show ?thesis by auto
qed

end
