(* ===== verification/ScheduleHistory.thy ===== *)
theory ScheduleHistory
  imports Scheduler
begin

text \<open>
  The provenance of due slots. Every schedule has a chain of version rows, the newest of which describes
  the schedule row; the slots of a version are the points of its grid from its first due time up to its
  due bound. The invariant \<open>schedules_wf t\<close> states this together with the clock \<open>t\<close> the tables have seen:
  the slots a version has given up lie in the past and before the first slot of every later version, so no
  due slot is ever accounted to two versions. Creating, updating and claiming preserve it.
\<close>

subsection \<open>The invariant\<close>

definition schedule_versions :: "string \<Rightarrow> db \<Rightarrow> version_row list" where
  "schedule_versions sid d = filter (\<lambda>v. ver_schedule v = sid) (versions d)"

definition slot_in :: "version_row \<Rightarrow> secs \<Rightarrow> secs \<Rightarrow> bool" where
  "slot_in v u s =
     (case ver_due_from v of None \<Rightarrow> False
      | Some f \<Rightarrow> f \<le> s \<and> s < u \<and> (s - f) mod int (ver_interval v) = 0)"

definition version_matches :: "schedule_row \<Rightarrow> version_row \<Rightarrow> bool" where
  "version_matches r v =
     (ver_host v = sch_host r \<and> ver_revision v = sch_revision r \<and> ver_interval v = sch_interval r
      \<and> ver_state v = sch_state r
      \<and> (case (ver_due_from v, sch_next_due r) of
           (None, None) \<Rightarrow> sch_state r \<noteq> SchedEnabled
         | (Some f, Some n) \<Rightarrow> sch_state r = SchedEnabled \<and> f \<le> n \<and> (n - f) mod int (sch_interval r) = 0
         | _ \<Rightarrow> False))"

definition given_up :: "version_row \<Rightarrow> version_row \<Rightarrow> bool" where
  "given_up v w =
     (\<forall>u s f. ver_due_until v = Some u \<longrightarrow> ver_due_from w = Some f \<longrightarrow> slot_in v u s \<longrightarrow> s < f)"

definition past_slots :: "secs \<Rightarrow> version_row \<Rightarrow> bool" where
  "past_slots t v = (\<forall>u s. ver_due_until v = Some u \<longrightarrow> slot_in v u s \<longrightarrow> s \<le> t)"

definition history_ok :: "secs \<Rightarrow> schedule_row \<Rightarrow> version_row list \<Rightarrow> bool" where
  "history_ok t r vs =
     (vs \<noteq> [] \<and> chain ver_revision ver_effective_from ver_effective_until vs \<and> ver_revision (hd vs) = 1
      \<and> version_matches r (last vs) \<and> ver_effective_from (last vs) \<le> t
      \<and> (\<forall>n s. sch_next_due r = Some n \<longrightarrow> slot_in (last vs) n s \<longrightarrow> s \<le> t)
      \<and> list_all (past_slots t) vs
      \<and> list_all (\<lambda>v. ver_due_from v = None \<or> ver_due_until v \<noteq> None) (butlast vs)
      \<and> sorted_wrt given_up vs)"

definition schedules_wf :: "secs \<Rightarrow> db \<Rightarrow> bool" where
  "schedules_wf t d =
     (distinct (map sch_id (schedules d)) \<and> list_all schedule_checks (schedules d)
      \<and> distinct (map ver_id (versions d))
      \<and> (\<forall>r \<in> set (schedules d). history_ok t r (schedule_versions (sch_id r) d))
      \<and> (\<forall>r \<in> set (schedules d). \<forall>s \<in> set (schedules d).
            sch_host r = sch_host s \<and> sch_state r \<noteq> SchedArchived \<and> sch_state s \<noteq> SchedArchived \<longrightarrow> r = s))"

interpretation schedule_versions:
  version_table ver_revision ver_effective_from ver_effective_until close_version fst
  by unfold_locales (simp_all add: close_version_def)

lemma history_ok_mono: "history_ok t r vs \<Longrightarrow> t \<le> t' \<Longrightarrow> history_ok t' r vs"
  unfolding history_ok_def past_slots_def list_all_iff by (meson order_trans)

lemma schedules_wf_mono: "schedules_wf t d \<Longrightarrow> t \<le> t' \<Longrightarrow> schedules_wf t' d"
  unfolding schedules_wf_def using history_ok_mono by blast

lemma schedules_wfD:
  assumes "schedules_wf t d"
  shows "distinct (map sch_id (schedules d))" and "list_all schedule_checks (schedules d)"
    and "distinct (map ver_id (versions d))"
    and "r \<in> set (schedules d) \<Longrightarrow> history_ok t r (schedule_versions (sch_id r) d)"
    and "r \<in> set (schedules d) \<Longrightarrow> s \<in> set (schedules d) \<Longrightarrow> sch_host r = sch_host s \<Longrightarrow>
           sch_state r \<noteq> SchedArchived \<Longrightarrow> sch_state s \<noteq> SchedArchived \<Longrightarrow> r = s"
  using assms by (auto simp: schedules_wf_def)

subsection \<open>Grids\<close>

lemma grid_step:
  assumes "(s - f) mod i = 0" and "(n - f) mod i = 0" and "s < n + i" and "0 < (i :: int)"
  shows "s \<le> n"
proof -
  have "i dvd (s - f)" "i dvd (n - f)" using assms(1,2) by (simp_all add: dvd_eq_mod_eq_0)
  then have "i dvd (s - n)" using dvd_diff [of i "s - f" "n - f"] by simp
  then obtain k where k: "s - n = i * k" by (elim dvdE)
  then have "i * k < i * 1" using assms(3) by simp
  then have "k < 1" using assms(4) by (simp only: mult_less_cancel_left_pos)
  then have "i * k \<le> 0" using assms(4) by (simp add: mult_le_0_iff)
  then show ?thesis using k by simp
qed

lemma grid_advance: "(n - f) mod i = 0 \<Longrightarrow> (n + i * k - f) mod i = (0 :: int)"
proof -
  assume "(n - f) mod i = 0"
  moreover have "n + i * k - f = (n - f) + i * k" by simp
  ultimately show ?thesis by (simp only: mod_mult_self2)
qed

subsection \<open>Claims preserve the invariant\<close>

text \<open>
  What the tick knows of a due row: it was read from the schedule at the same revision. A row with another
  revision fails the compare-and-set, so nothing is asked of it.
\<close>

definition due_read :: "due_schedule \<Rightarrow> db \<Rightarrow> bool" where
  "due_read due d =
     (\<forall>r \<in> set (schedules d). sch_id r = due_schedule due \<and> sch_revision r = due_revision due \<longrightarrow>
        due_interval due = sch_interval r \<and> due_host due = sch_host r
        \<and> (\<exists>v \<in> set (schedule_versions (sch_id r) d). ver_id v = due_version due
             \<and> ver_effective_until v = None))"

lemma schedule_due_ok:
  "schedule_checks r \<Longrightarrow> due_interval due = sch_interval r \<Longrightarrow> due_ok due"
  by (simp add: schedule_checks_def due_ok_def min_interval_seconds_def max_interval_seconds_def)

lemma history_ok_advance:
  assumes h: "history_ok t r vs" and match: "lease_matches due tick r"
    and int: "due_interval due = sch_interval r" and ok: "due_ok due" and fit: "slots_fit due tick"
    and time: "parse_timestamp (due_next due) \<le> tick" and t: "t \<le> timestamp tick"
  shows "history_ok (timestamp tick) (advance_schedule due tick r) vs"
proof -
  let ?v = "last vs"
  let ?i = "int (due_interval due)"
  let ?slot = "timestamp (claimed_slot due tick)"
  have h': "history_ok (timestamp tick) r vs" by (rule history_ok_mono [OF h t])
  have n: "sch_next_due r = Some (due_next due)" and en: "sch_state r = SchedEnabled"
    using match by (auto simp: lease_matches_def)
  obtain f where f: "ver_due_from ?v = Some f" "f \<le> due_next due" "(due_next due - f) mod ?i = 0"
    and iv: "ver_interval ?v = due_interval due"
    using h n int by (auto simp: history_ok_def version_matches_def split: option.splits)
  have i: "0 < ?i" using ok by (simp add: due_ok_def min_interval_seconds_def)
  have slot: "?slot = due_next due + ?i * missed_slots due tick" by (rule claimed_slot_eq [OF time fit])
  note b = claimed_slot_bounds [OF time fit ok]
  have on_grid: "(?slot - f) mod ?i = 0" unfolding slot by (rule grid_advance [OF f(3)])
  have next_grid: "(?slot + ?i - f) mod ?i = 0" using grid_advance [OF on_grid, of 1] by simp
  have "s \<le> timestamp tick" if "slot_in ?v (?slot + ?i) s" for s
    using that f(1) iv grid_step [OF _ on_grid _ i, of s] b(2) by (auto simp: slot_in_def)
  moreover have "version_matches (advance_schedule due tick r) ?v"
    using h' f b(1) i next_grid en int
    by (auto simp: history_ok_def version_matches_def advance_schedule_def n)
  ultimately show ?thesis
    using h' by (simp add: history_ok_def) (simp add: advance_schedule_def)
qed

lemma schedule_checks_advance:
  "schedule_checks r \<Longrightarrow> sch_state r = SchedEnabled \<Longrightarrow> schedule_checks (advance_schedule due tick r)"
  by (simp add: schedule_checks_def advance_schedule_def)

lemma claim_schedules_wf:
  assumes wf: "schedules_wf t d" and t: "t \<le> timestamp tick"
    and claim: "claim_due env instance due tick overlap_only ids generated d = (Inr (Some c), d')"
    and read: "due_read due d" and fit: "slots_fit due tick"
  shows "schedules_wf (timestamp tick) d'"
proof -
  note wf' = schedules_wfD [OF schedules_wf_mono [OF wf t]]
  note runs = claim_runs [OF claim wf'(1)]
  obtain r0 where r0: "r0 \<in> set (schedules d)" "lease_matches due tick r0"
    and time: "parse_timestamp (due_next due) \<le> tick"
    by (rule claim_due_Some [OF claim wf'(1)]) (rule that)
  have id0: "sch_id r0 = due_schedule due" and rev0: "sch_revision r0 = due_revision due"
    and en0: "sch_state r0 = SchedEnabled" using r0(2) by (auto simp: lease_matches_def)
  have int0: "due_interval due = sch_interval r0" using read r0(1) id0 rev0 by (auto simp: due_read_def)
  have chk0: "schedule_checks r0" using wf'(2) r0(1) by (simp add: list_all_iff)
  have ok: "due_ok due" by (rule schedule_due_ok [OF chk0 int0])
  have only: "r = r0" if "r \<in> set (schedules d)" "sch_id r = due_schedule due" for r
    using key_of_unique [OF wf'(1) that(1) r0(1)] that(2) id0 by simp
  have rows: "set (schedules d') =
      {r \<in> set (schedules d). sch_id r \<noteq> due_schedule due} \<union> {advance_schedule due tick r0}"
  proof -
    have "{r \<in> set (schedules d). sch_id r = due_schedule due} = {r0}" using r0(1) id0 only by blast
    then show ?thesis by (simp add: runs(2) set_update_rows)
  qed
  have adv: "sch_id (advance_schedule due tick r) = sch_id r" "sch_host (advance_schedule due tick r) = sch_host r"
    "sch_state (advance_schedule due tick r) = sch_state r" for r
    by (simp_all add: advance_schedule_def)
  have vs: "schedule_versions sid d' = schedule_versions sid d" for sid
    by (simp add: schedule_versions_def runs(3))
  have ids: "map sch_id (schedules d') = map sch_id (schedules d)"
    unfolding runs(2) by (rule map_update_rows) (simp add: adv)
  have hist: "history_ok (timestamp tick) (advance_schedule due tick r0) (schedule_versions (sch_id r0) d)"
    by (rule history_ok_advance [OF schedules_wfD(4) [OF wf r0(1)] r0(2) int0 ok fit time t])
  have clash: False if "s \<in> set (schedules d)" "sch_id s \<noteq> due_schedule due" "sch_host r0 = sch_host s"
    "sch_state r0 \<noteq> SchedArchived" "sch_state s \<noteq> SchedArchived" for s
    using wf'(5) [OF r0(1) that(1,3-5)] id0 that(2) by simp
  show ?thesis
    unfolding schedules_wf_def
  proof (intro conjI ballI impI)
    show "distinct (map sch_id (schedules d'))" using wf'(1) by (simp add: ids)
    show "list_all schedule_checks (schedules d')"
      using wf'(2) schedule_checks_advance [OF chk0 en0] by (auto simp: list_all_iff rows)
    show "distinct (map ver_id (versions d'))" using wf'(3) by (simp add: runs(3))
    show "history_ok (timestamp tick) r (schedule_versions (sch_id r) d')" if "r \<in> set (schedules d')" for r
      using that hist wf'(4) unfolding rows vs by (auto simp: adv)
    fix r s
    assume "r \<in> set (schedules d')" "s \<in> set (schedules d')"
      "sch_host r = sch_host s \<and> sch_state r \<noteq> SchedArchived \<and> sch_state s \<noteq> SchedArchived"
    then show "r = s" using wf'(5) [of r s] clash [of r] clash [of s] unfolding rows
      by (auto simp: adv)
  qed
qed

subsection \<open>Updates\<close>

lemma load_schedule_row:
  assumes "distinct (map sch_id (schedules d))" and "r \<in> set (schedules d)" and "sch_id r = sid"
  shows "load_schedule sid d = Some (schedule_from_row r)"
  using assms select_one_unique [of sch_id "schedules d" r "\<lambda>r. sch_id r = sid"]
  by (simp add: load_schedule_def)

lemma schedule_from_row_simps [simp]:
  "rec_schedule_id (schedule_from_row r) = sch_id r" "rec_host_id (schedule_from_row r) = sch_host r"
  "rec_interval_seconds (schedule_from_row r) = sch_interval r"
  "rec_jitter_seconds (schedule_from_row r) = sch_jitter r"
  "rec_state (schedule_from_row r) = sch_state r" "rec_next_due_at (schedule_from_row r) = sch_next_due r"
  "rec_revision (schedule_from_row r) = sch_revision r"
  by (simp_all add: schedule_from_row_def)

lemma updated_row_simps [simp]:
  "sch_id (updated_row pl o' n u r) = sch_id r" "sch_host (updated_row pl o' n u r) = sch_host r"
  "sch_interval (updated_row pl o' n u r) = pl_interval pl" "sch_state (updated_row pl o' n u r) = pl_target pl"
  "sch_revision (updated_row pl o' n u r) = pl_revision pl"
  "sch_next_due (updated_row pl o' n u r) = (if pl_grid_changed pl then n else sch_next_due r)"
  by (simp_all add: updated_row_def)

lemma version_of_simps [simp]:
  "ver_id (version_of s vid ef cr pv prev) = vid"
  "ver_schedule (version_of s vid ef cr pv prev) = rec_schedule_id s"
  "ver_host (version_of s vid ef cr pv prev) = rec_host_id s"
  "ver_revision (version_of s vid ef cr pv prev) = rec_revision s"
  "ver_interval (version_of s vid ef cr pv prev) = rec_interval_seconds s"
  "ver_state (version_of s vid ef cr pv prev) = rec_state s"
  "ver_due_from (version_of s vid ef cr pv prev) = rec_next_due_at s"
  "ver_due_until (version_of s vid ef cr pv prev) = None"
  "ver_effective_from (version_of s vid ef cr pv prev) = ef"
  "ver_effective_until (version_of s vid ef cr pv prev) = None"
  by (simp_all add: version_of_def Let_def split: prod.split)

lemma close_version_simps [simp]:
  "ver_id (close_version c v) = ver_id v" "ver_schedule (close_version c v) = ver_schedule v"
  "ver_revision (close_version c v) = ver_revision v" "ver_interval (close_version c v) = ver_interval v"
  "ver_due_from (close_version c v) = ver_due_from v" "ver_effective_from (close_version c v) = ver_effective_from v"
  "ver_due_until (close_version c v) = (if ver_state v = SchedEnabled then Some (snd c) else None)"
  by (simp_all add: close_version_def)

lemma slot_in_close [simp]: "slot_in (close_version c v) = slot_in v"
  by (simp add: slot_in_def fun_eq_iff split: option.split)

definition patched_row :: "env \<Rightarrow> patch_plan \<Rightarrow> instant \<Rightarrow> schedule_row \<Rightarrow> schedule_row" where
  "patched_row env pl now r =
     (let before = schedule_from_row r; offset = patch_offset env (sch_id r) pl before
      in updated_row pl offset (patch_next_due pl offset before now) (timestamp now) r)"

definition patched_due_until :: "env \<Rightarrow> patch_plan \<Rightarrow> instant \<Rightarrow> schedule_row \<Rightarrow> secs" where
  "patched_due_until env pl now r =
     old_due_until (pl_grid_changed pl) (schedule_from_row r) (schedule_from_row (patched_row env pl now r)) now"

definition patched_version :: "env \<Rightarrow> patch_plan \<Rightarrow> string \<Rightarrow> instant \<Rightarrow> schedule_row \<Rightarrow> version_row" where
  "patched_version env pl vid now r =
     version_of (schedule_from_row (patched_row env pl now r)) vid (timestamp now) (timestamp now) Recorded
       (Some (sch_state r))"

definition closing :: "env \<Rightarrow> patch_plan \<Rightarrow> instant \<Rightarrow> schedule_row \<Rightarrow> version_row list \<Rightarrow> version_row list" where
  "closing env pl now r =
     update_rows (\<lambda>v. ver_schedule v = sch_id r \<and> ver_revision v = sch_revision r \<and> ver_effective_until v = None)
       (close_version (timestamp now, patched_due_until env pl now r))"

lemma update_transaction_Inr:
  assumes upd: "update_transaction env (sch_id r0) pl (sch_revision r0) vid now d = Inr d'"
    and dist: "distinct (map sch_id (schedules d))" and r0: "r0 \<in> set (schedules d)"
    and ver: "\<exists>v \<in> set (versions d). ver_schedule v = sch_id r0 \<and> ver_revision v = sch_revision r0"
  shows "d' = d\<lparr>schedules := update_rows (\<lambda>r. sch_id r = sch_id r0) (patched_row env pl now) (schedules d),
               versions := closing env pl now r0 (versions d) @ [patched_version env pl vid now r0]\<rparr>"
    and "schedule_checks (patched_row env pl now r0)"
    and "vid \<notin> set (map ver_id (versions d))"
    and "pl_target pl \<noteq> SchedArchived \<Longrightarrow> s \<in> set (schedules d) \<Longrightarrow> sch_id s \<noteq> sch_id r0 \<Longrightarrow>
           sch_host s = sch_host r0 \<Longrightarrow> sch_state s = SchedArchived"
    and "\<forall>v \<in> set (versions d). ver_schedule v = sch_id r0 \<and> ver_revision v = sch_revision r0
           \<and> ver_effective_until v = None \<longrightarrow> ver_effective_from v \<le> timestamp now"
proof -
  let ?before = "schedule_from_row r0"
  let ?offset = "patch_offset env (sch_id r0) pl ?before"
  let ?P = "\<lambda>r. sch_id r = sch_id r0 \<and> sch_revision r = sch_revision r0"
  let ?f = "updated_row pl ?offset (patch_next_due pl ?offset ?before now) (timestamp now)"
  let ?d1 = "d\<lparr>schedules := update_rows ?P ?f (schedules d)\<rparr>"
  have f0: "?f r0 = patched_row env pl now r0" by (simp add: patched_row_def Let_def)
  have only: "r = r0" if "r \<in> set (schedules d)" "sch_id r = sch_id r0" for r
    using key_of_unique [OF dist that(1) r0 that(2)] .
  have rows: "update_rows ?P ?f (schedules d)
      = update_rows (\<lambda>r. sch_id r = sch_id r0) (patched_row env pl now) (schedules d)"
    unfolding update_rows_def using only f0 by (intro map_cong) auto
  have load: "load_schedule (sch_id r0) d = Some ?before" by (rule load_schedule_row [OF dist r0 refl])
  have "map sch_id (schedules ?d1) = map sch_id (schedules d)"
    by simp (rule map_update_rows, simp)
  then have load1: "load_schedule (sch_id r0) ?d1 = Some (schedule_from_row (patched_row env pl now r0))"
    using r0 f0 dist by (intro load_schedule_row) (auto simp: set_update_rows patched_row_def Let_def)
  let ?s1 = "schedule_from_row (patched_row env pl now r0)"
  have one: "rows_affected ?P (schedules d) = 1"
    by (rule rows_affected_1I [OF dist r0]) auto
  have "\<exists>d2. persist_schedule_update (sch_id r0) pl ?offset (patch_next_due pl ?offset ?before now)
         (timestamp now) (sch_revision r0) d = Inr (1, ?d1)
      \<and> close_schedule_version ?before (timestamp now) (old_due_until (pl_grid_changed pl) ?before ?s1 now) ?d1
           = Inr d2
      \<and> insert_schedule_version ?s1 vid (timestamp now) (timestamp now) Recorded (Some (sch_state r0)) d2 = Inr d'"
    using upd load load1 one
    by (auto simp: update_transaction_def Let_def persist_schedule_update_def split: if_splits)
  then obtain d2 where
    p: "persist_schedule_update (sch_id r0) pl ?offset (patch_next_due pl ?offset ?before now)
         (timestamp now) (sch_revision r0) d = Inr (1, ?d1)"
    and c: "close_schedule_version ?before (timestamp now) (old_due_until (pl_grid_changed pl) ?before ?s1 now) ?d1
           = Inr d2"
    and i: "insert_schedule_version ?s1 vid (timestamp now) (timestamp now) Recorded (Some (sch_state r0)) d2 = Inr d'"
    by blast
  show "schedule_checks (patched_row env pl now r0)"
    using p r0 f0 by (auto simp: persist_schedule_update_def Let_def split: if_splits)
  show "sch_state s = SchedArchived" if "pl_target pl \<noteq> SchedArchived" "s \<in> set (schedules d)"
      "sch_id s \<noteq> sch_id r0" "sch_host s = sch_host r0"
    using p r0 that by (auto simp: persist_schedule_update_def Let_def split: if_splits)
  have d2: "d2 = ?d1\<lparr>versions := closing env pl now r0 (versions d)\<rparr>"
    using c ver by (auto simp: close_schedule_version_def Let_def closing_def patched_due_until_def split: if_splits)
  have chk: "\<forall>v \<in> set (versions d). ver_schedule v = sch_id r0 \<and> ver_revision v = sch_revision r0
           \<and> ver_effective_until v = None \<longrightarrow>
         version_checks (close_version (timestamp now, old_due_until (pl_grid_changed pl) ?before ?s1 now) v)"
    using c ver by (auto simp: close_schedule_version_def Let_def split: if_splits)
  then show "\<forall>v \<in> set (versions d). ver_schedule v = sch_id r0 \<and> ver_revision v = sch_revision r0
           \<and> ver_effective_until v = None \<longrightarrow> ver_effective_from v \<le> timestamp now"
    by (simp add: version_checks_def) (simp add: close_version_def)
  note ins = insert_version_Inr [OF i [unfolded insert_schedule_version_def]]
  have ids: "map ver_id (closing env pl now r0 (versions d)) = map ver_id (versions d)"
    unfolding closing_def by (rule map_update_rows) simp
  have v2: "versions d2 = closing env pl now r0 (versions d)" by (simp add: d2)
  have "vid \<notin> set (map ver_id (versions d2))" using ins by simp
  then show "vid \<notin> set (map ver_id (versions d))" by (simp only: v2 ids not_False_eq_True)
  show "d' = d\<lparr>schedules := update_rows (\<lambda>r. sch_id r = sch_id r0) (patched_row env pl now) (schedules d),
               versions := closing env pl now r0 (versions d) @ [patched_version env pl vid now r0]\<rparr>"
    using ins by (simp add: d2 rows patched_version_def)
qed

text \<open>The plan of a request is built from a record of the same revision, so with its settings.\<close>

definition plan_for :: "patch_plan \<Rightarrow> schedule_row \<Rightarrow> bool" where
  "plan_for pl r =
     (pl_revision pl = sch_revision r + 1
      \<and> pl_grid_changed pl = (pl_interval pl \<noteq> sch_interval r \<or> pl_jitter pl \<noteq> sch_jitter r
                              \<or> pl_target pl \<noteq> sch_state r))"

lemma patched_row_simps:
  "sch_id (patched_row env pl now r) = sch_id r" "sch_host (patched_row env pl now r) = sch_host r"
  "sch_interval (patched_row env pl now r) = pl_interval pl" "sch_state (patched_row env pl now r) = pl_target pl"
  "sch_revision (patched_row env pl now r) = pl_revision pl"
  by (simp_all add: patched_row_def Let_def)

lemma patched_next_due:
  "sch_next_due (patched_row env pl now r) =
     (if pl_grid_changed pl then
        (if pl_target pl = SchedEnabled
         then Some (timestamp now + int (pl_interval pl)
                    + int (patch_offset env (sch_id r) pl (schedule_from_row r)))
         else None)
      else sch_next_due r)"
  by (cases "pl_target pl") (simp_all add: patched_row_def Let_def patch_next_due_def)

lemma slots_given_up:
  assumes h: "history_ok t r vs" and plan: "plan_for pl r" and t: "t \<le> timestamp now"
    and chk: "schedule_checks r" and pos: "0 < pl_interval pl"
    and slot: "slot_in (last vs) (patched_due_until env pl now r) s" and en: "sch_state r = SchedEnabled"
  shows "s \<le> timestamp now"
    and "sch_next_due (patched_row env pl now r) = Some f \<Longrightarrow> s < f"
proof -
  obtain n where n: "sch_next_due r = Some n"
    using chk en by (auto simp: schedule_checks_def)
  have past: "s \<le> t" if "slot_in (last vs) n s" for s
    using h n that by (simp add: history_ok_def)
  have below: "s \<le> timestamp now \<and> s < n" if "slot_in (last vs) n s"
    using past [OF that] t that by (auto simp: slot_in_def split: option.splits)
  show le: "s \<le> timestamp now"
  proof (cases "pl_grid_changed pl")
    case True
    show ?thesis
    proof (cases "now < parse_timestamp n")
      case True
      then have "patched_due_until env pl now r = n"
        using \<open>pl_grid_changed pl\<close> n by (simp add: patched_due_until_def old_due_until_def unwrap_or_def)
      then show ?thesis using below slot by simp
    next
      case False
      then have "patched_due_until env pl now r = timestamp now"
        using \<open>pl_grid_changed pl\<close> n by (simp add: patched_due_until_def old_due_until_def unwrap_or_def)
      then show ?thesis using slot by (auto simp: slot_in_def split: option.splits)
    qed
  next
    case False
    then have "patched_due_until env pl now r = n"
      using n by (simp add: patched_due_until_def old_due_until_def unwrap_or_def patched_next_due)
    then show ?thesis using below slot by simp
  qed
  assume f: "sch_next_due (patched_row env pl now r) = Some f"
  show "s < f"
  proof (cases "pl_grid_changed pl")
    case True
    then have "timestamp now < f" using f pos by (auto simp: patched_next_due split: if_splits)
    then show ?thesis using le by simp
  next
    case False
    then have "f = n" and "patched_due_until env pl now r = n"
      using f n by (simp_all add: patched_due_until_def old_due_until_def unwrap_or_def patched_next_due)
    then show ?thesis using below slot by simp
  qed
qed

lemma closing_history:
  assumes h: "history_ok t r vs" and vs: "\<forall>v \<in> set vs. ver_schedule v = sch_id r"
  shows "closing env pl now r vs
           = butlast vs @ [close_version (timestamp now, patched_due_until env pl now r) (last vs)]"
  unfolding closing_def
proof (rule update_rows_last)
  let ?rs = vs
  show c: "chain ver_revision ver_effective_from ver_effective_until vs" and ne: "vs \<noteq> []"
    using h by (simp_all add: history_ok_def)
  have last: "ver_revision (last vs) = sch_revision r" using h by (simp add: history_ok_def version_matches_def)
  fix v assume v: "v \<in> set vs"
  show "(ver_schedule v = sch_id r \<and> ver_revision v = sch_revision r \<and> ver_effective_until v = None)
      \<longleftrightarrow> ver_effective_until v = None"
  proof -
    have "v = last vs" if "ver_effective_until v = None"
    proof -
      have "v \<in> set (filter (\<lambda>r. ver_effective_until r = None) vs)" using v that by simp
      then show ?thesis by (simp add: chain_open [OF c ne])
    qed
    then show ?thesis using last vs v by auto
  qed
qed

lemma history_ok_patch:
  assumes h: "history_ok t r vs" and vs: "\<forall>v \<in> set vs. ver_schedule v = sch_id r"
    and plan: "plan_for pl r" and t: "t \<le> timestamp now" and chk: "schedule_checks r"
    and chk': "schedule_checks (patched_row env pl now r)"
  shows "history_ok (timestamp now) (patched_row env pl now r)
           (closing env pl now r vs @ [patched_version env pl vid now r])"
proof -
  let ?r = "patched_row env pl now r"
  let ?new = "patched_version env pl vid now r"
  let ?c = "(timestamp now, patched_due_until env pl now r)"
  let ?old = "close_version ?c (last vs)"
  have new: "ver_due_from ?new = sch_next_due ?r" "ver_state ?new = pl_target pl"
    "ver_effective_from ?new = timestamp now" "ver_effective_until ?new = None" "ver_due_until ?new = None"
    "ver_revision ?new = sch_revision r + 1" "ver_interval ?new = pl_interval pl" "ver_host ?new = sch_host r"
    using plan by (simp_all add: patched_version_def patched_row_simps plan_for_def)
  have pos: "0 < pl_interval pl" using chk' by (simp add: schedule_checks_def patched_row_simps)
  have m: "version_matches r (last vs)" and ne: "vs \<noteq> []"
    and c: "chain ver_revision ver_effective_from ver_effective_until vs"
    and first: "ver_revision (hd vs) = 1" and ef: "ver_effective_from (last vs) \<le> t"
    and past: "list_all (past_slots t) vs" and sorted: "sorted_wrt given_up vs"
    using h by (simp_all add: history_ok_def)
  have rev: "ver_revision (last vs) = sch_revision r" using m by (simp add: version_matches_def)
  have st: "ver_state (last vs) = sch_state r" using m by (simp add: version_matches_def)
  have eq: "closing env pl now r vs = butlast vs @ [?old]" by (rule closing_history [OF h vs])
  have ch: "chain ver_revision ver_effective_from ver_effective_until (butlast vs @ [?old, ?new])"
    using rev new ef t by (intro schedule_versions.close_append_last [OF c ne]) simp_all
  have hd': "ver_revision (hd (butlast vs @ [?old, ?new])) = 1"
    using first ne by (cases vs) auto
  have due: "(sch_next_due ?r = None) = (sch_state ?r \<noteq> SchedEnabled)"
    using chk' by (auto simp: schedule_checks_def split: if_splits)
  have match: "version_matches ?r ?new"
    using due new by (auto simp: version_matches_def patched_row_simps plan [unfolded plan_for_def]
        split: option.splits)
  have empty: "\<not> slot_in ?new n s" if "sch_next_due ?r = Some n" for n s
    using that new(1) by (simp add: slot_in_def)
  have old_past: "past_slots (timestamp now) ?old"
    using slots_given_up(1) [OF h plan t chk pos] st
    by (auto simp: past_slots_def split: if_splits)
  have split_vs: "vs = butlast vs @ [last vs]" using ne by simp
  then have "sorted_wrt given_up (butlast vs @ [last vs])" using sorted by simp
  then have sb: "sorted_wrt given_up (butlast vs)" and sl: "\<forall>v \<in> set (butlast vs). given_up v (last vs)"
    by (simp_all add: sorted_wrt_append)
  have g_old: "given_up v ?old" if "v \<in> set (butlast vs)" for v
    using sl that by (simp add: given_up_def)
  have now_lt: "timestamp now < f \<or> \<not> pl_grid_changed pl" if "ver_due_from ?new = Some f" for f
    using that pos by (auto simp: new patched_next_due split: if_splits)
  have g_new: "given_up v ?new" if "v \<in> set (butlast vs)" for v
    unfolding given_up_def
  proof (intro allI impI)
    fix u s f assume u: "ver_due_until v = Some u" and f: "ver_due_from ?new = Some f" and s: "slot_in v u s"
    show "s < f"
    proof (cases "pl_grid_changed pl")
      case True
      have "past_slots t v" using past that by (auto simp: list_all_iff dest: in_set_butlastD)
      then have "s \<le> timestamp now" using u s t by (force simp: past_slots_def)
      then show ?thesis using now_lt [OF f] True by simp
    next
      case False
      then have n: "sch_next_due r = Some f" using f by (simp add: new patched_next_due)
      then obtain f0 where "ver_due_from (last vs) = Some f0" "f0 \<le> f"
        using m by (auto simp: version_matches_def split: option.splits)
      then show ?thesis using sl that u s by (force simp: given_up_def)
    qed
  qed
  have g_on: "given_up ?old ?new"
    using slots_given_up(2) [OF h plan t chk pos] st
    by (auto simp: given_up_def new split: if_splits)
  have srt: "sorted_wrt given_up (butlast vs @ [?old, ?new])"
    using sb g_old g_new g_on by (auto simp: sorted_wrt_append)
  have pb: "list_all (past_slots (timestamp now)) (butlast vs)"
    using past t by (auto simp: list_all_iff past_slots_def dest!: in_set_butlastD) force
  have pn: "past_slots (timestamp now) ?new" by (simp add: past_slots_def new)
  have "ver_due_from ?old = None \<or> ver_due_until ?old \<noteq> None"
    using m st by (auto simp: version_matches_def split: option.splits)
  moreover have "list_all (\<lambda>v. ver_due_from v = None \<or> ver_due_until v \<noteq> None) (butlast vs)"
    using h by (simp add: history_ok_def)
  ultimately have closed: "list_all (\<lambda>v. ver_due_from v = None \<or> ver_due_until v \<noteq> None)
      (butlast (butlast vs @ [?old, ?new]))" by (simp add: butlast_append)
  show ?thesis
    unfolding eq history_ok_def using ch hd' match empty old_past pb pn srt new(3) closed by simp
qed

lemma schedule_versions_patch:
  assumes "versions d' = closing env pl now r0 (versions d) @ [patched_version env pl vid now r0]"
  shows "schedule_versions sid d' =
           (if sid = sch_id r0
            then closing env pl now r0 (schedule_versions sid d) @ [patched_version env pl vid now r0]
            else schedule_versions sid d)"
proof -
  let ?Q = "\<lambda>v. ver_schedule v = sid"
  have f: "filter ?Q (closing env pl now r0 (versions d)) = closing env pl now r0 (filter ?Q (versions d))"
    unfolding closing_def by (rule filter_update_rows) simp
  have new: "ver_schedule (patched_version env pl vid now r0) = sch_id r0"
    by (simp add: patched_version_def patched_row_simps)
  have other: "closing env pl now r0 (filter ?Q (versions d)) = filter ?Q (versions d)" if "sid \<noteq> sch_id r0"
    unfolding closing_def using that by (intro update_rows_none) auto
  show ?thesis
    using new other by (auto simp: schedule_versions_def assms f)
qed

lemma update_schedules_wf:
  assumes wf: "schedules_wf t d" and t: "t \<le> timestamp now" and r0: "r0 \<in> set (schedules d)"
    and plan: "plan_for pl r0"
    and upd: "update_transaction env (sch_id r0) pl (sch_revision r0) vid now d = Inr d'"
  shows "schedules_wf (timestamp now) d'"
proof -
  note wf' = schedules_wfD [OF wf]
  have h0: "history_ok t r0 (schedule_versions (sch_id r0) d)" by (rule wf'(4) [OF r0])
  have chk0: "schedule_checks r0" using wf'(2) r0 by (simp add: list_all_iff)
  have ver: "\<exists>v \<in> set (versions d). ver_schedule v = sch_id r0 \<and> ver_revision v = sch_revision r0"
  proof -
    have "last (schedule_versions (sch_id r0) d) \<in> set (schedule_versions (sch_id r0) d)"
      and "ver_revision (last (schedule_versions (sch_id r0) d)) = sch_revision r0"
      using h0 by (auto simp: history_ok_def version_matches_def)
    then show ?thesis by (auto simp: schedule_versions_def)
  qed
  note u = update_transaction_Inr [OF upd wf'(1) r0 ver]
  let ?r1 = "patched_row env pl now r0"
  have sd: "schedules d' = update_rows (\<lambda>r. sch_id r = sch_id r0) (patched_row env pl now) (schedules d)"
    and vd: "versions d' = closing env pl now r0 (versions d) @ [patched_version env pl vid now r0]"
    using u(1) by simp_all
  have only: "r = r0" if "r \<in> set (schedules d)" "sch_id r = sch_id r0" for r
    using key_of_unique [OF wf'(1) that(1) r0 that(2)] .
  have rows: "set (schedules d') = {r \<in> set (schedules d). sch_id r \<noteq> sch_id r0} \<union> {?r1}"
  proof -
    have "{r \<in> set (schedules d). sch_id r = sch_id r0} = {r0}" using r0 only by blast
    then show ?thesis by (simp add: sd set_update_rows)
  qed
  note sv = schedule_versions_patch [OF vd]
  have own: "\<forall>v \<in> set (schedule_versions (sch_id r0) d). ver_schedule v = sch_id r0"
    by (simp add: schedule_versions_def)
  have hist: "history_ok (timestamp now) ?r1 (schedule_versions (sch_id r0) d')"
    using history_ok_patch [OF h0 own plan t chk0 u(2)] by (simp add: sv)
  have clash: False if "s \<in> set (schedules d)" "sch_id s \<noteq> sch_id r0" "sch_host s = sch_host r0"
    "pl_target pl \<noteq> SchedArchived" "sch_state s \<noteq> SchedArchived" for s
    using u(4) [OF that(4) that(1-3)] that(5) by simp
  show ?thesis
    unfolding schedules_wf_def
  proof (intro conjI ballI impI)
    have "map sch_id (schedules d') = map sch_id (schedules d)"
      unfolding sd by (rule map_update_rows) (simp add: patched_row_simps)
    then show "distinct (map sch_id (schedules d'))" using wf'(1) by simp
    show "list_all schedule_checks (schedules d')" using wf'(2) u(2) by (auto simp: list_all_iff rows)
    have "map ver_id (closing env pl now r0 (versions d)) = map ver_id (versions d)"
      unfolding closing_def by (rule map_update_rows) simp
    then show "distinct (map ver_id (versions d'))"
      using wf'(3) u(3) unfolding vd by (simp add: patched_version_def)
    show "history_ok (timestamp now) r (schedule_versions (sch_id r) d')" if "r \<in> set (schedules d')" for r
    proof (cases "sch_id r = sch_id r0")
      case True
      then have "r = ?r1" using that by (auto simp: rows)
      then show ?thesis using hist by (simp add: patched_row_simps)
    next
      case False
      then have "r \<in> set (schedules d)" using that by (auto simp: rows patched_row_simps)
      then show ?thesis using False history_ok_mono [OF wf'(4) t] by (simp add: sv)
    qed
    fix r s
    assume "r \<in> set (schedules d')" "s \<in> set (schedules d')"
      "sch_host r = sch_host s \<and> sch_state r \<noteq> SchedArchived \<and> sch_state s \<noteq> SchedArchived"
    then show "r = s" using wf'(5) [of r s] clash [of r] clash [of s] unfolding rows
      by (auto simp: patched_row_simps)
  qed
qed

subsection \<open>Creation\<close>

lemma create_Inr_cases:
  assumes "create_monitor_schedule env hdr h payload sid vid rid now generated pre d = (res, d')"
  shows "d' = d \<or> (\<exists>q key d2. payload = Some q \<and> res = Inr \<lparr>resp_data = created_record env sid h q now,
              resp_meta = real_meta (request_id hdr rid) 1 generated\<rparr>
            \<and> validate_schedule_values (cr_interval_seconds q) (cr_jitter_seconds q) (cr_stale_after_seconds q) = Inr ()
            \<and> idempotency_key hdr = Some key
            \<and> (\<exists>d1. insert_schedule (created_row (created_record env sid h q now) key
                    (digest_text env (json_of_create env q))
                    \<lparr>resp_data = created_record env sid h q now,
                     resp_meta = real_meta (request_id hdr rid) 1 generated\<rparr>) d = Inr d1
                \<and> insert_version (version_of (created_record env sid h q now) vid (timestamp now) (timestamp now)
                     Recorded None) d1 = Inr d2)
            \<and> d' = publish_schedule_state (created_record env sid h q now) generated d2)"
proof (cases "d' = d")
  case False
  obtain q where q: "payload = Some q"
    using assms False by (cases payload) (auto simp: create_monitor_schedule_def Let_def)
  have v: "validate_schedule_values (cr_interval_seconds q) (cr_jitter_seconds q) (cr_stale_after_seconds q) = Inr ()"
    using assms False q
    by (cases "validate_schedule_values (cr_interval_seconds q) (cr_jitter_seconds q) (cr_stale_after_seconds q)")
      (auto simp: create_monitor_schedule_def Let_def)
  have e: "ensure_host_exists h pre = Inr ()"
    using assms False q v by (cases "ensure_host_exists h pre") (auto simp: create_monitor_schedule_def Let_def)
  obtain key where k: "scheduler_idempotency_key hdr = Inr key"
    using assms False q v e
    by (cases "scheduler_idempotency_key hdr") (auto simp: create_monitor_schedule_def Let_def)
  then have key: "idempotency_key hdr = Some key" by (auto simp: scheduler_idempotency_key_def split: option.splits)
  have rp: "replay_create h key (digest_text env (json_of_create env q)) pre = Inr None"
    using assms False q v e k
    by (cases "replay_create h key (digest_text env (json_of_create env q)) pre")
      (auto simp: create_monitor_schedule_def Let_def split: option.splits)
  have c: "rec_created_at (created_record env sid h q now) = timestamp now"
    by (simp add: created_record_def Let_def)
  show ?thesis
    using assms False q v e k key rp
    by (auto simp: create_monitor_schedule_def Let_def insert_schedule_version_def c
        split: sum.splits db_error.splits option.splits)
qed simp

lemma insert_schedule_host:
  "insert_schedule r d = Inr d' \<Longrightarrow> sch_state r \<noteq> SchedArchived \<Longrightarrow> s \<in> set (schedules d) \<Longrightarrow>
     sch_host s = sch_host r \<Longrightarrow> sch_state s = SchedArchived"
  by (auto simp: insert_schedule_def split: if_splits)

lemma created_row_simps [simp]:
  "sch_id (created_row s k sh rp) = rec_schedule_id s" "sch_host (created_row s k sh rp) = rec_host_id s"
  "sch_interval (created_row s k sh rp) = rec_interval_seconds s"
  "sch_state (created_row s k sh rp) = rec_state s" "sch_next_due (created_row s k sh rp) = rec_next_due_at s"
  "sch_revision (created_row s k sh rp) = 1" "sch_create_key (created_row s k sh rp) = k"
  "sch_create_sha (created_row s k sh rp) = sh" "sch_created_response (created_row s k sh rp) = rp"
  by (simp_all add: created_row_def)

lemma created_record_simps [simp]:
  "rec_schedule_id (created_record env sid h q now) = sid"
  "rec_host_id (created_record env sid h q now) = h"
  "rec_revision (created_record env sid h q now) = 1"
  "rec_interval_seconds (created_record env sid h q now) = cr_interval_seconds q"
  by (simp_all add: created_record_def Let_def)

lemma create_schedules_wf:
  assumes wf: "schedules_wf t d" and t: "t \<le> timestamp now"
    and fresh: "\<forall>v \<in> set (versions d). ver_schedule v \<noteq> sid"
    and cr: "create_monitor_schedule env hdr h payload sid vid rid now generated pre d = (res, d')"
  shows "schedules_wf (timestamp now) d'"
proof (cases "d' = d")
  case True
  then show ?thesis using schedules_wf_mono [OF wf t] by simp
next
  case False
  then obtain q key d1 d2 where
    i1: "insert_schedule (created_row (created_record env sid h q now) key
                    (digest_text env (json_of_create env q))
                    \<lparr>resp_data = created_record env sid h q now,
                     resp_meta = real_meta (request_id hdr rid) 1 generated\<rparr>) d = Inr d1"
    and i2: "insert_version (version_of (created_record env sid h q now) vid (timestamp now) (timestamp now)
                     Recorded None) d1 = Inr d2"
    and d': "d' = publish_schedule_state (created_record env sid h q now) generated d2"
    using create_Inr_cases [OF cr] by blast
  define s where "s = created_record env sid h q now"
  define r where "r = created_row s key (digest_text env (json_of_create env q))
                    \<lparr>resp_data = s, resp_meta = real_meta (request_id hdr rid) 1 generated\<rparr>"
  define v where "v = version_of s vid (timestamp now) (timestamp now) Recorded None"
  have ins1: "insert_schedule r d = Inr d1" and ins2: "insert_version v d1 = Inr d2"
    using i1 i2 by (simp_all add: r_def s_def v_def)
  note a = insert_schedule_Inr [OF ins1] and b = insert_version_Inr [OF ins2]
  have sd: "schedules d' = schedules d @ [r]" and vd: "versions d' = versions d @ [v]"
    using a b by (simp_all add: d' publish_schedule_state_def)
  have id: "sch_id r = sid" "ver_schedule v = sid" by (simp_all add: r_def v_def s_def)
  have new: "schedule_versions sid d' = [v]"
    using fresh id(2) by (simp add: schedule_versions_def vd filter_empty_conv)
  have other: "schedule_versions k d' = schedule_versions k d" if "k \<noteq> sid" for k
    using that id(2) by (simp add: schedule_versions_def vd)
  have chk: "schedule_checks r" using a by simp
  have due: "(sch_next_due r = None) = (sch_state r \<noteq> SchedEnabled)"
    using chk by (auto simp: schedule_checks_def split: if_splits)
  have match: "version_matches r v"
    using due by (auto simp: version_matches_def r_def v_def s_def split: option.splits)
  have empty: "\<not> slot_in v n x" if "sch_next_due r = Some n" for n x
    using that by (simp add: slot_in_def v_def r_def)
  have "history_ok (timestamp now) r [v]"
    using match empty
    by (simp add: history_ok_def past_slots_def) (simp add: v_def s_def)
  note hist = this
  note wf' = schedules_wfD [OF wf]
  have clash: False if "s' \<in> set (schedules d)" "sch_host s' = sch_host r" "sch_state r \<noteq> SchedArchived"
    "sch_state s' \<noteq> SchedArchived" for s'
    using insert_schedule_host [OF ins1 that(3,1,2)] that(4) by simp
  show ?thesis
    unfolding schedules_wf_def
  proof (intro conjI ballI impI)
    show "distinct (map sch_id (schedules d'))" using wf'(1) a by (simp add: sd)
    show "list_all schedule_checks (schedules d')" using wf'(2) chk by (simp add: sd)
    show "distinct (map ver_id (versions d'))" using wf'(3) a b by (simp add: vd)
    show "history_ok (timestamp now) x (schedule_versions (sch_id x) d')" if "x \<in> set (schedules d')" for x
    proof (cases "x = r")
      case True
      then show ?thesis using hist id new by simp
    next
      case False
      then have x: "x \<in> set (schedules d)" using that by (simp add: sd)
      then have "sch_id x \<noteq> sid" using a id(1) by (metis image_eqI list.set_map)
      then show ?thesis using history_ok_mono [OF wf'(4) [OF x] t] other by simp
    qed
    fix x y
    assume "x \<in> set (schedules d')" "y \<in> set (schedules d')"
      "sch_host x = sch_host y \<and> sch_state x \<noteq> SchedArchived \<and> sch_state y \<noteq> SchedArchived"
    then show "x = y"
      using wf'(5) [of x y] clash [of x] clash [of y] unfolding sd
      by (cases "x = r"; cases "y = r") auto
  qed
qed

subsection \<open>The scheduler as a transition system\<close>

lemma schedules_wf_publish: "schedules_wf t (publish k sub r s n d) = schedules_wf t d"
  by (simp add: schedules_wf_def schedule_versions_def)

text \<open>A record read at a revision agrees with the row as long as the row keeps that revision.\<close>

definition snapshot_of :: "string \<Rightarrow> db \<Rightarrow> db \<Rightarrow> bool" where
  "snapshot_of sid pre d =
     (\<forall>x r. load_schedule sid pre = Some x \<longrightarrow> r \<in> set (schedules d) \<longrightarrow> sch_id r = sid
        \<longrightarrow> sch_revision r = rec_revision x
        \<longrightarrow> rec_interval_seconds x = sch_interval r \<and> rec_jitter_seconds x = sch_jitter r
            \<and> rec_state x = sch_state r)"

lemma plan_of_for:
  assumes "rec_revision x = sch_revision r" and "rec_interval_seconds x = sch_interval r"
    and "rec_jitter_seconds x = sch_jitter r" and "rec_state x = sch_state r"
  shows "plan_for (plan_of q x) r"
  using assms by (simp add: plan_for_def plan_of_def Let_def)

lemma update_Inr_cases:
  assumes "update_monitor_schedule env hdr sid payload vid rid now generated pre d = (res, d')"
  shows "(d' = d \<and> (\<exists>e. res = Inl e)) \<or>
    (\<exists>q x r0 d1 s. payload = Some q \<and> scheduler_if_match hdr = Inr (sch_revision r0)
       \<and> load_schedule sid pre = Some x \<and> rec_revision x = sch_revision r0 \<and> rec_state x \<noteq> SchedArchived
       \<and> r0 \<in> set (schedules d) \<and> sch_id r0 = sid
       \<and> update_transaction env sid (plan_of q x) (sch_revision r0) vid now d = Inr d1
       \<and> ((load_schedule sid d1 = Some s \<and> d' = publish_schedule_state s generated d1
            \<and> res = Inr \<lparr>resp_data = s,
                 resp_meta = real_meta (request_id hdr rid) (sch_revision r0 + 1) generated\<rparr>)
          \<or> (load_schedule sid d1 = None \<and> d' = d1 \<and> res = Inl SInternal)))"
proof (cases "d' = d \<and> (\<exists>e. res = Inl e)")
  case False
  obtain expected where e: "scheduler_if_match hdr = Inr expected"
    using assms False by (cases "scheduler_if_match hdr") (auto simp: update_monitor_schedule_def Let_def)
  obtain q where q: "payload = Some q" "\<not> empty_patch q"
    using assms False e
    by (cases payload) (auto simp: update_monitor_schedule_def Let_def split: if_splits)
  obtain x where x: "load_schedule sid pre = Some x" "rec_revision x = expected" "rec_state x \<noteq> SchedArchived"
    using assms False e q
    by (cases "load_schedule sid pre") (auto simp: update_monitor_schedule_def Let_def split: if_splits)
  let ?pl = "plan_of q x"
  have v: "validate_schedule_values (pl_interval ?pl) (pl_jitter ?pl) (pl_stale ?pl) = Inr ()"
    using assms False e q x
    by (cases "validate_schedule_values (pl_interval ?pl) (pl_jitter ?pl) (pl_stale ?pl)")
      (auto simp: update_monitor_schedule_def Let_def)
  have one: "rows_affected (\<lambda>r. sch_id r = sid \<and> sch_revision r = expected) (schedules d) = 1"
    using assms False e q x v by (auto simp: update_monitor_schedule_def Let_def split: if_splits)
  obtain r0 where r0: "r0 \<in> set (schedules d)" "sch_id r0 = sid" "sch_revision r0 = expected"
    by (rule rows_affected_1E [OF one]) auto
  obtain d1 where d1: "update_transaction env sid ?pl expected vid now d = Inr d1"
    using assms False e q x v one
    by (cases "update_transaction env sid ?pl expected vid now d")
      (auto simp: update_monitor_schedule_def Let_def)
  have rv: "pl_revision ?pl = expected + 1" using x(2) by (simp add: plan_of_def Let_def)
  show ?thesis
  proof (cases "load_schedule sid d1")
    case None
    then show ?thesis
      using assms e q x v one d1 r0
      by (intro disjI2 exI [of _ q] exI [of _ x] exI [of _ r0] exI [of _ d1])
        (auto simp: update_monitor_schedule_def Let_def)
  next
    case (Some s)
    then show ?thesis
      using assms e q x v one d1 r0 rv
      by (intro disjI2 exI [of _ q] exI [of _ x] exI [of _ r0] exI [of _ d1] exI [of _ s])
        (auto simp: update_monitor_schedule_def Let_def)
  qed
qed simp

inductive scheduler_step :: "env \<Rightarrow> secs \<times> db \<Rightarrow> secs \<times> db \<Rightarrow> bool" for env where
  step_create:
    "create_monitor_schedule env hdr h payload sid vid rid now generated pre d = (res, d') \<Longrightarrow>
     t \<le> timestamp now \<Longrightarrow> \<forall>v \<in> set (versions d). ver_schedule v \<noteq> sid \<Longrightarrow>
     scheduler_step env (t, d) (timestamp now, d')"
| step_update:
    "update_monitor_schedule env hdr sid payload vid rid now generated pre d = (res, d') \<Longrightarrow>
     t \<le> timestamp now \<Longrightarrow> snapshot_of sid pre d \<Longrightarrow>
     scheduler_step env (t, d) (timestamp now, d')"
| step_claim:
    "claim_due env instance due tick overlap_only ids generated d = (res, d') \<Longrightarrow>
     t \<le> timestamp tick \<Longrightarrow> due_read due d \<Longrightarrow> slots_fit due tick \<Longrightarrow>
     scheduler_step env (t, d) (timestamp tick, d')"
| step_publish:
    "t \<le> t' \<Longrightarrow> scheduler_step env (t, d) (t', publish_event p d)"

inductive_cases scheduler_stepE: "scheduler_step env s s'"

lemma claim_due_error_frame:
  "claim_due env instance due tick overlap_only ids generated d = (res, d') \<Longrightarrow>
     d' = d \<or> (\<exists>c. res = Inr (Some c))"
  by (auto simp: claim_due_def Let_def split: if_splits sum.splits)

lemma scheduler_step_wf:
  assumes "scheduler_step env s s'" and "schedules_wf (fst s) (snd s)"
  shows "schedules_wf (fst s') (snd s')"
  using assms
proof (cases rule: scheduler_step.cases)
  case (step_create hdr h payload sid vid rid now generated pre d res d' t)
  then show ?thesis using assms(2) create_schedules_wf [of t d now sid env hdr h payload vid rid generated pre res d']
    by simp
next
  case (step_update hdr sid payload vid rid now generated pre d res d' t)
  have wf: "schedules_wf t d" using assms(2) step_update by simp
  show ?thesis
  proof (cases "d' = d \<and> (\<exists>e. res = Inl e)")
    case True
    then show ?thesis using step_update schedules_wf_mono [OF wf] by simp
  next
    case False
    then obtain q x r0 d1 s where u: "load_schedule sid pre = Some x" "rec_revision x = sch_revision r0"
      "r0 \<in> set (schedules d)" "sch_id r0 = sid"
      "update_transaction env sid (plan_of q x) (sch_revision r0) vid now d = Inr d1"
      "d' = publish_schedule_state s generated d1 \<or> d' = d1"
      using update_Inr_cases [OF step_update(3)] by blast
    have "rec_interval_seconds x = sch_interval r0 \<and> rec_jitter_seconds x = sch_jitter r0
        \<and> rec_state x = sch_state r0"
      using step_update(5) u(1-4) unfolding snapshot_of_def by metis
    then have "plan_for (plan_of q x) r0" using u(2) by (intro plan_of_for) simp_all
    then have "schedules_wf (timestamp now) d1"
      using update_schedules_wf [OF wf step_update(4) u(3)] u(4,5) by blast
    then show ?thesis using u(6) step_update by (auto simp: publish_schedule_state_def schedules_wf_publish)
  qed
next
  case (step_claim inst due tick overlap_only ids generated d res d' t)
  have wf: "schedules_wf t d" using assms(2) step_claim by simp
  show ?thesis
  proof (cases "d' = d")
    case True
    then show ?thesis using step_claim schedules_wf_mono [OF wf] by simp
  next
    case False
    then obtain c where "res = Inr (Some c)" using claim_due_error_frame [OF step_claim(3)] by blast
    then show ?thesis using claim_schedules_wf [OF wf step_claim(4)] step_claim by simp
  qed
next
  case (step_publish t t' d p)
  obtain k sub r s n where p: "p = (k, sub, r, s, n)" by (cases p) auto
  show ?thesis using step_publish assms(2) schedules_wf_mono [of t d t']
    by (simp add: p schedules_wf_publish)
qed

lemma scheduler_steps_wf:
  assumes "(scheduler_step env)\<^sup>*\<^sup>* s s'" and "schedules_wf (fst s) (snd s)"
  shows "schedules_wf (fst s') (snd s')"
  using assms by (induction rule: rtranclp_induct) (auto intro: scheduler_step_wf)

lemma schedules_wf_initial: "schedules d = [] \<Longrightarrow> versions d = [] \<Longrightarrow> schedules_wf t d"
  by (simp add: schedules_wf_def)

text \<open>
  C1. Along every sequence of creations, updates and claims, successful or not and in any interleaving, each
  schedule keeps a complete history: revisions 1, 2, 3, ... whose versions take effect one after the other,
  the newest describing the row and its grid, every due time on that grid; and a host never has two schedules
  that are not archived.
\<close>

theorem schedule_history_invariant:
  assumes "(scheduler_step env)\<^sup>*\<^sup>* (t0, d0) (t, d)" and "schedules d0 = []" and "versions d0 = []"
  shows "schedules_wf t d"
  using scheduler_steps_wf [OF assms(1)] schedules_wf_initial [OF assms(2,3)] by simp

text \<open>The slots a version accounts for: up to its due bound, or up to the next due time while it is open.\<close>

definition accounted :: "schedule_row \<Rightarrow> version_row \<Rightarrow> secs \<Rightarrow> bool" where
  "accounted r v s =
     (case ver_due_until v of
        Some u \<Rightarrow> slot_in v u s
      | None \<Rightarrow> (case sch_next_due r of None \<Rightarrow> False | Some n \<Rightarrow> slot_in v n s))"

lemma accounted_unique:
  assumes h: "history_ok t r vs" and v: "i < j" "j < length vs"
    and a: "accounted r (vs ! i) s" and b: "accounted r (vs ! j) s"
  shows False
proof -
  have fi: "ver_due_from (vs ! i) \<noteq> None"
    using a by (auto simp: accounted_def slot_in_def split: option.splits)
  have "i < length (butlast vs)" using v by simp
  then have "vs ! i \<in> set (butlast vs)" using nth_mem [of i "butlast vs"] by (simp add: nth_butlast)
  then obtain u where u: "ver_due_until (vs ! i) = Some u"
    using h fi by (auto simp: history_ok_def list_all_iff)
  have "given_up (vs ! i) (vs ! j)"
    using h v sorted_wrt_nth_less [of given_up vs i j] by (simp add: history_ok_def)
  moreover obtain f where f: "ver_due_from (vs ! j) = Some f" "f \<le> s"
    using b by (auto simp: accounted_def slot_in_def split: option.splits)
  moreover have "slot_in (vs ! i) u s" using a u by (simp add: accounted_def)
  ultimately show False using u by (force simp: given_up_def)
qed

subsection \<open>Creation is total and idempotent\<close>

lemma stable_jitter_le: "stable_jitter env sid rv jitter \<le> jitter"
proof -
  have "v mod (jitter + 1) \<le> jitter" for v :: nat
    using mod_less_divisor [of "jitter + 1" v] by linarith
  then show ?thesis by (simp add: stable_jitter_def Let_def)
qed

lemma created_row_checks:
  assumes "validate_schedule_values (cr_interval_seconds q) (cr_jitter_seconds q) (cr_stale_after_seconds q) = Inr ()"
  shows "schedule_checks (created_row (created_record env sid h q now) key sha rp)"
  using assms stable_jitter_le [of env sid 1 "cr_jitter_seconds q"]
  by (auto simp: validate_schedule_values_def schedule_checks_def created_row_def created_record_def Let_def
      min_interval_seconds_def max_interval_seconds_def max_stale_after_seconds_def split: if_splits)

lemma created_version_checks:
  assumes "validate_schedule_values (cr_interval_seconds q) (cr_jitter_seconds q) (cr_stale_after_seconds q) = Inr ()"
    and "0 \<le> now"
  shows "version_checks (version_of (created_record env sid h q now) vid (timestamp now) (timestamp now) Recorded None)"
proof -
  have "0 \<le> timestamp now" using assms(2) timestamp_mono [of 0 now] by (simp add: timestamp_def)
  then show ?thesis
    using assms(1) stable_jitter_le [of env sid 1 "cr_jitter_seconds q"]
    by (auto simp: validate_schedule_values_def version_checks_def version_of_def created_record_def Let_def
        min_interval_seconds_def max_interval_seconds_def max_stale_after_seconds_def
        split: if_splits prod.splits)
qed

text \<open>The situation in which nothing but the request decides the outcome.\<close>

definition create_ready :: "headers \<Rightarrow> string \<Rightarrow> string \<Rightarrow> string \<Rightarrow> instant \<Rightarrow> db \<Rightarrow> bool" where
  "create_ready hdr h sid vid now d =
     (h \<in> set (hosts d) \<and> 0 \<le> now
      \<and> list_all (\<lambda>r. sch_id r \<noteq> sid) (schedules d)
      \<and> list_all (\<lambda>v. ver_id v \<noteq> vid \<and> ver_schedule v \<noteq> sid) (versions d)
      \<and> list_all (\<lambda>r. sch_host r = h \<longrightarrow> sch_state r = SchedArchived \<and> Some (sch_create_key r) \<noteq> idempotency_key hdr)
          (schedules d)
      \<and> idempotency_key hdr \<noteq> None)"

lemma create_defined:
  assumes ready: "create_ready hdr h sid vid now d"
    and valid: "validate_schedule_values (cr_interval_seconds q) (cr_jitter_seconds q) (cr_stale_after_seconds q) = Inr ()"
  shows "\<exists>key d'. create_monitor_schedule env hdr h (Some q) sid vid rid now generated d d
       = (Inr \<lparr>resp_data = created_record env sid h q now,
               resp_meta = real_meta (request_id hdr rid) 1 generated\<rparr>, d')
     \<and> schedules d' = schedules d @ [created_row (created_record env sid h q now) key
          (digest_text env (json_of_create env q))
          \<lparr>resp_data = created_record env sid h q now, resp_meta = real_meta (request_id hdr rid) 1 generated\<rparr>]
     \<and> versions d' = versions d
          @ [version_of (created_record env sid h q now) vid (timestamp now) (timestamp now) Recorded None]
     \<and> hosts d' = hosts d \<and> runs d' = runs d \<and> discoveries d' = discoveries d"
proof -
  obtain key where key: "idempotency_key hdr = Some key" using ready by (auto simp: create_ready_def)
  let ?s = "created_record env sid h q now"
  let ?sha = "digest_text env (json_of_create env q)"
  let ?rp = "\<lparr>resp_data = ?s, resp_meta = real_meta (request_id hdr rid) 1 generated\<rparr>"
  let ?r = "created_row ?s key ?sha ?rp"
  let ?v = "version_of ?s vid (timestamp now) (timestamp now) Recorded None"
  have created: "rec_created_at ?s = timestamp now" by (simp add: created_record_def Let_def)
  have none: "select_one (\<lambda>r. sch_host r = h \<and> sch_create_key r = key) (schedules d) = None"
    using ready key by (auto simp: select_one_None create_ready_def list_all_iff)
  have "insert_schedule ?r d = Inr (d\<lparr>schedules := schedules d @ [?r]\<rparr>)"
    using created_row_checks [OF valid, of env sid h now key ?sha ?rp] ready key
    by (auto simp: insert_schedule_def create_ready_def list_all_iff)
  moreover have "insert_version ?v (d\<lparr>schedules := schedules d @ [?r]\<rparr>)
      = Inr (d\<lparr>schedules := schedules d @ [?r], versions := versions d @ [?v]\<rparr>)"
    using created_version_checks [OF valid, of now env sid h vid] ready
    by (auto simp: insert_version_def create_ready_def list_all_iff)
  ultimately show ?thesis
    using ready valid none key created
    by (intro exI [of _ key])
      (simp add: create_monitor_schedule_def Let_def ensure_host_exists_def create_ready_def
        scheduler_idempotency_key_def replay_create_def insert_schedule_version_def publish_schedule_state_def)
qed

text \<open>
  C18. A well-formed request for a host without a live schedule always succeeds: no constraint of the schema
  rejects it. The first due time lies between one interval and one interval plus the requested jitter after
  the creation, and the one new version row describes exactly the new schedule.
\<close>

theorem create_schedule_total:
  assumes "create_ready hdr h sid vid now d"
    and "validate_schedule_values (cr_interval_seconds q) (cr_jitter_seconds q) (cr_stale_after_seconds q) = Inr ()"
  shows "\<exists>resp d' r v. create_monitor_schedule env hdr h (Some q) sid vid rid now generated d d = (Inr resp, d')
      \<and> schedules d' = schedules d @ [r] \<and> versions d' = versions d @ [v]
      \<and> sch_id r = sid \<and> sch_host r = h \<and> version_matches r v \<and> schedule_checks r
      \<and> (cr_enabled q \<longrightarrow> (\<exists>n. sch_next_due r = Some n
            \<and> timestamp now + int (cr_interval_seconds q) \<le> n
            \<and> n \<le> timestamp now + int (cr_interval_seconds q) + int (cr_jitter_seconds q)))"
proof -
  obtain key d' where c: "create_monitor_schedule env hdr h (Some q) sid vid rid now generated d d
       = (Inr \<lparr>resp_data = created_record env sid h q now,
               resp_meta = real_meta (request_id hdr rid) 1 generated\<rparr>, d')"
    and s: "schedules d' = schedules d @ [created_row (created_record env sid h q now) key
          (digest_text env (json_of_create env q))
          \<lparr>resp_data = created_record env sid h q now, resp_meta = real_meta (request_id hdr rid) 1 generated\<rparr>]"
    and v: "versions d' = versions d
          @ [version_of (created_record env sid h q now) vid (timestamp now) (timestamp now) Recorded None]"
    using create_defined [OF assms] by blast
  let ?s = "created_record env sid h q now"
  have due: "rec_next_due_at ?s = (if cr_enabled q then Some (timestamp now + int (cr_interval_seconds q)
        + int (stable_jitter env sid 1 (cr_jitter_seconds q))) else None)"
    "rec_state ?s = (if cr_enabled q then SchedEnabled else SchedPaused)"
    by (simp_all add: created_record_def Let_def)
  show ?thesis
    using c s v due stable_jitter_le [of env sid 1 "cr_jitter_seconds q"] created_row_checks [OF assms(2)]
    by (intro exI) (auto simp: version_matches_def)
qed

definition sample_create :: schedule_create_request where
  "sample_create = \<lparr>cr_interval_seconds = 300, cr_jitter_seconds = 30, cr_stale_after_seconds = 600, cr_enabled = True\<rparr>"

definition key_header :: headers where
  "key_header = (\<lambda>n. if n = ''idempotency-key'' then Some (Text ''k1'') else None)"

lemma key_header: "idempotency_key key_header = Some ''k1''"
  by (simp add: idempotency_key_def key_header_def header_str_def acceptable_key_def max_header_key_def
      is_ascii_control_def)

lemma sample_create_ready: "create_ready key_header ''h'' ''s1'' ''v1'' 5 sample_hosts"
  by (simp add: create_ready_def key_header sample_hosts_def empty_db_def)

lemma sample_create_valid:
  "validate_schedule_values (cr_interval_seconds sample_create) (cr_jitter_seconds sample_create)
     (cr_stale_after_seconds sample_create) = Inr ()"
  by (simp add: validate_schedule_values_def sample_create_def min_interval_seconds_def max_interval_seconds_def
      max_stale_after_seconds_def)

definition sample_created :: "(scheduler_error + schedule_response) \<times> db" where
  "sample_created = create_monitor_schedule sample_env key_header ''h'' (Some sample_create) ''s1'' ''v1'' ''q''
     5 0 sample_hosts sample_hosts"

theorem create_schedule_total_witness:
  "\<exists>resp d' r n. sample_created = (Inr resp, d') \<and> schedules d' = [r] \<and> sch_next_due r = Some n
     \<and> 300 \<le> n \<and> n \<le> 330"
proof -
  obtain resp d' r n where "sample_created = (Inr resp, d')" "schedules d' = schedules sample_hosts @ [r]"
    "sch_next_due r = Some n" "timestamp 5 + int (cr_interval_seconds sample_create) \<le> n"
    "n \<le> timestamp 5 + int (cr_interval_seconds sample_create) + int (cr_jitter_seconds sample_create)"
    using create_schedule_total [OF sample_create_ready sample_create_valid, of sample_env "''q''" 0]
    unfolding sample_created_def by (auto simp: sample_create_def)
  then show ?thesis
    by (intro exI [of _ resp] exI [of _ d'] exI [of _ r] exI [of _ n])
      (simp add: sample_hosts_def empty_db_def sample_create_def timestamp_def ns_per_s_def)
qed

text \<open>
  Creating is idempotent under the client's key. A retry of a request that created a schedule, whether it
  runs after the first one or raced with it, answers with the response of the first and changes nothing; a
  different request under the same key is refused and changes nothing.
\<close>

theorem create_schedule_idempotent:
  assumes "create_monitor_schedule env hdr h (Some q) sid vid rid now generated pre d = (Inr resp, d')"
    and "d' \<noteq> d" and "pre' = d \<or> pre' = d'"
    and "validate_schedule_values (cr_interval_seconds q') (cr_jitter_seconds q') (cr_stale_after_seconds q') = Inr ()"
  shows "(q' = q \<longrightarrow> create_monitor_schedule env hdr h (Some q') sid' vid' rid' now' generated' pre' d' = (Inr resp, d'))
      \<and> (digest_text env (json_of_create env q') \<noteq> digest_text env (json_of_create env q) \<longrightarrow>
           create_monitor_schedule env hdr h (Some q') sid' vid' rid' now' generated' pre' d'
             = (Inl (SConflict ''IDEMPOTENCY_KEY_REUSED''), d'))"
proof -
  let ?s = "created_record env sid h q now"
  let ?sha = "digest_text env (json_of_create env q)"
  obtain key d1 d2 where resp: "resp = \<lparr>resp_data = ?s, resp_meta = real_meta (request_id hdr rid) 1 generated\<rparr>"
    and key: "idempotency_key hdr = Some key"
    and i1: "insert_schedule (created_row ?s key ?sha resp) d = Inr d1"
    and i2: "insert_version (version_of ?s vid (timestamp now) (timestamp now) Recorded None) d1 = Inr d2"
    and d': "d' = publish_schedule_state ?s generated d2"
    using create_Inr_cases [OF assms(1)] assms(2) by auto
  let ?r = "created_row ?s key ?sha resp"
  have sd: "schedules d' = schedules d @ [?r]" and hd: "hosts d' = hosts d"
    using insert_schedule_Inr [OF i1] insert_version_Inr [OF i2] by (simp_all add: d' publish_schedule_state_def)
  have host: "h \<in> set (hosts d)" and none: "\<forall>s \<in> set (schedules d). \<not> (sch_host s = h \<and> sch_create_key s = key)"
    using i1 by (auto simp: insert_schedule_def split: if_splits)
  have found: "select_one (\<lambda>r. sch_host r = h \<and> sch_create_key r = key) (schedules d') = Some ?r"
    using none by (simp add: sd select_one_filter filter_empty_conv)
  have missing: "select_one (\<lambda>r. sch_host r = h \<and> sch_create_key r = key) (schedules d) = None"
    using none by (simp add: select_one_None)
  have dup: "insert_schedule (created_row (created_record env sid' h q' now') key sha rp) d' = Inl UniqueViolation"
    for sha rp
    using created_row_checks [OF assms(4), of env sid' h now' key sha rp]
    by (auto simp: insert_schedule_def sd)
  show ?thesis
    using assms(3,4) host hd key found missing dup
    by (auto simp: create_monitor_schedule_def Let_def ensure_host_exists_def scheduler_idempotency_key_def
        replay_create_def)
qed

theorem create_schedule_idempotent_witness:
  "create_monitor_schedule sample_env key_header ''h'' (Some sample_create) ''s2'' ''v2'' ''q2'' 77 8
     sample_hosts (snd sample_created) = sample_created"
proof -
  obtain resp d' r where c: "sample_created = (Inr resp, d')" "schedules d' = [r]"
    using create_defined [OF sample_create_ready sample_create_valid, of sample_env "''q''" 0]
    by (auto simp: sample_created_def sample_hosts_def empty_db_def)
  then have "d' \<noteq> sample_hosts" by (auto simp: sample_hosts_def empty_db_def)
  from create_schedule_idempotent [OF c(1) [unfolded sample_created_def] this _ sample_create_valid]
  show ?thesis unfolding c(1) by simp
qed

theorem schedule_history_invariant_witness:
  "schedules_wf 0 (snd sample_created) \<and> length (schedules (snd sample_created)) = 1"
proof -
  have "scheduler_step sample_env (0, sample_hosts) (timestamp 5, snd sample_created)"
    by (rule step_create [of _ key_header "''h''" "Some sample_create" "''s1''" "''v1''" "''q''" 5 0 sample_hosts
          _ "fst sample_created"])
      (simp_all add: sample_created_def timestamp_def ns_per_s_def sample_hosts_def empty_db_def)
  then have "(scheduler_step sample_env)\<^sup>*\<^sup>* (0, sample_hosts) (timestamp 5, snd sample_created)" by simp
  from schedule_history_invariant [OF this] have "schedules_wf (timestamp 5) (snd sample_created)"
    by (simp add: sample_hosts_def empty_db_def)
  moreover obtain r where "schedules (snd sample_created) = [r]"
    using create_defined [OF sample_create_ready sample_create_valid, of sample_env "''q''" 0]
    by (auto simp: sample_created_def sample_hosts_def empty_db_def)
  ultimately show ?thesis by (simp add: timestamp_def ns_per_s_def)
qed

end
