(* ===== verification/SchedulerTick.thy ===== *)
theory SchedulerTick
  imports ScheduleHistory
begin

text \<open>
  What a tick achieves on well-formed tables: a due slot is claimed whenever nothing of the host or its key
  stands in the way, the rows of the due query keep their meaning while earlier rows are claimed, and a tick
  that finishes has advanced every row it read. The last section is the way a client can stop a tick.
\<close>

subsection \<open>A due slot is claimed\<close>

lemma due_of_simps:
  assumes "schedule_checks r" and "sch_next_due r = Some n"
  shows "due_schedule (due_of r vid) = sch_id r" "due_version (due_of r vid) = vid"
    "due_host (due_of r vid) = sch_host r" "due_interval (due_of r vid) = sch_interval r"
    "due_stale (due_of r vid) = sch_stale_after r" "due_revision (due_of r vid) = sch_revision r"
    "due_next (due_of r vid) = n"
  using assms
  by (simp_all add: due_of_def non_negative_u32_of_nat schedule_checks_def u32_max_def)

lemma open_version_last:
  assumes "history_ok t r (schedule_versions (sch_id r) d)"
  shows "open_version r d = Some (ver_id (last (schedule_versions (sch_id r) d)))"
proof -
  let ?vs = "schedule_versions (sch_id r) d"
  have ch: "chain ver_revision ver_effective_from ver_effective_until ?vs" "?vs \<noteq> []"
    and m: "version_matches r (last ?vs)"
    using assms by (simp_all add: history_ok_def)
  have "filter (\<lambda>v. ver_effective_until v = None) ?vs = [last ?vs]" by (rule chain_open [OF ch])
  then have "filter (\<lambda>v. ver_host v = sch_host r \<and> ver_revision v = sch_revision r)
      (filter (\<lambda>v. ver_effective_until v = None) ?vs) = [last ?vs]"
    using m by (simp add: version_matches_def)
  then have "filter (\<lambda>v. ver_schedule v = sch_id r \<and> ver_host v = sch_host r
       \<and> ver_revision v = sch_revision r \<and> ver_effective_until v = None) (versions d) = [last ?vs]"
    by (simp add: schedule_versions_def filter_filter conj_ac)
  then show ?thesis by (simp add: open_version_def select_one_filter)
qed

lemma last_version_open:
  assumes "history_ok t r (schedule_versions (sch_id r) d)"
  shows "last (schedule_versions (sch_id r) d) \<in> set (schedule_versions (sch_id r) d)"
    and "ver_effective_until (last (schedule_versions (sch_id r) d)) = None"
proof -
  let ?vs = "schedule_versions (sch_id r) d"
  have "filter (\<lambda>v. ver_effective_until v = None) ?vs = [last ?vs]"
    using assms by (intro chain_open [of ver_revision ver_effective_from]) (simp_all add: history_ok_def)
  then have "last ?vs \<in> set (filter (\<lambda>v. ver_effective_until v = None) ?vs)" by simp
  then show "last ?vs \<in> set ?vs" "ver_effective_until (last ?vs) = None" by simp_all
qed

lemma due_read_row:
  assumes wf: "schedules_wf t d" and r: "r \<in> set (schedules d)" and n: "sch_next_due r = Some n"
    and vid: "open_version r d = Some vid"
  shows "due_read (due_of r vid) d"
proof -
  note w = schedules_wfD [OF wf]
  have chk: "schedule_checks r" using w(2) r by (simp add: list_all_iff)
  note h = w(4) [OF r]
  have "\<exists>v \<in> set (schedule_versions (sch_id r) d). ver_id v = vid \<and> ver_effective_until v = None"
    using last_version_open [OF h] open_version_last [OF h] vid by auto
  moreover have "s = r" if "s \<in> set (schedules d)" "sch_id s = sch_id r" for s
    using key_of_unique [OF w(1) that(1) r that(2)] .
  ultimately show ?thesis by (auto simp: due_read_def due_of_simps [OF chk n])
qed

text \<open>The version the claim stamps on its run exists and carries the schedule and the revision.\<close>

lemma open_version_row:
  assumes "open_version r d = Some vid"
  shows "\<exists>v \<in> set (versions d). ver_id v = vid \<and> ver_schedule v = sch_id r
            \<and> ver_revision v = sch_revision r \<and> ver_host v = sch_host r"
  using assms by (auto simp: open_version_def dest!: select_one_Some)

lemma current_policy_version_row:
  assumes "current_policy_version h d = Some pid"
  shows "\<exists>p \<in> set (policies d). pol_version_id p = pid \<and> pol_host p = h"
proof -
  obtain p ps where "rev (sort_key pol_revision (filter (\<lambda>p. pol_host p = h \<and> pol_lifecycle p = Current)
      (policies d))) = p # ps" and pid: "pol_version_id p = pid"
    using assms by (auto simp: current_policy_version_def split: list.splits)
  then have "p \<in> set (rev (sort_key pol_revision (filter (\<lambda>p. pol_host p = h \<and> pol_lifecycle p = Current)
      (policies d))))" by simp
  then show ?thesis using pid by auto
qed

definition no_lease :: "instant \<Rightarrow> schedule_row \<Rightarrow> bool" where
  "no_lease tick r = (case sch_lease_until r of None \<Rightarrow> True | Some u \<Rightarrow> u < timestamp tick)"

text \<open>No run has the new identifier, the key of the slot or the slot itself.\<close>

definition run_fits :: "env \<Rightarrow> due_schedule \<Rightarrow> instant \<Rightarrow> claim_ids \<Rightarrow> run_row \<Rightarrow> bool" where
  "run_fits env due tick ids s =
     (run_id s \<noteq> cid_run ids
      \<and> \<not> (run_host s = due_host due
           \<and> run_key s = schedule_run_key env (due_schedule due) (timestamp (claimed_slot due tick)))
      \<and> \<not> (run_schedule s = Some (due_schedule due)
           \<and> run_scheduled_for s = Some (timestamp (claimed_slot due tick))))"

lemma claim_run_checks:
  assumes "schedule_checks r" and "sch_next_due r = Some n"
  shows "run_checks (claim_run env (due_of r vid) tick ids g s d)"
  using assms(1)
  by (simp add: run_checks_def)
    (simp add: claim_run_def Let_def due_of_simps [OF assms] schedule_checks_def)

lemma insert_claim_run:
  assumes chk: "schedule_checks r" and n: "sch_next_due r = Some n" and r: "r \<in> set (schedules d)"
    and host: "sch_host r \<in> set (hosts d)" and vid: "open_version r d = Some vid"
    and idle: "\<not> host_busy (sch_host r) d"
    and fits: "list_all (run_fits env (due_of r vid) tick ids) (runs d)"
  shows "\<exists>d1. insert_run (claim_run env (due_of r vid) tick ids g Queued d) d = Inr d1"
proof -
  let ?run = "claim_run env (due_of r vid) tick ids g Queued d"
  have pol: "run_policy_version ?run = current_policy_version (sch_host r) d"
    and rev: "run_schedule_revision ?run = Some (sch_revision r)"
    by (simp_all add: claim_run_def Let_def due_of_simps [OF chk n])
  have "\<not> run_conflicts ?run s" if "s \<in> set (runs d)" for s
    using that fits idle
    by (auto simp: run_conflicts_def list_all_iff run_fits_def host_busy_def due_of_simps [OF chk n])
  then show ?thesis
    using open_version_row [OF vid] current_policy_version_row [of "sch_host r" d] host r idle
      claim_run_checks [OF chk n, of env vid tick ids g Queued d]
    by (auto simp: insert_run_def due_of_simps [OF chk n] pol rev host_busy_def split: option.splits)
qed

lemma claim_row_matches:
  assumes chk: "schedule_checks r" and r: "r \<in> set (schedules d)" and due: "due_now tick r"
    and lease: "no_lease tick r" and dist: "distinct (map sch_id (schedules d))"
  shows "tick \<ge> parse_timestamp (due_next (due_of r vid))" and "due_interval (due_of r vid) \<noteq> 0"
    and "rows_affected (lease_matches (due_of r vid) tick) (schedules d) = 1"
proof -
  obtain n where n: "sch_next_due r = Some n" "n \<le> timestamp tick" and en: "sch_state r = SchedEnabled"
    using due by (auto simp: due_now_def split: option.splits)
  note s = due_of_simps [OF chk n(1), of vid]
  show "tick \<ge> parse_timestamp (due_next (due_of r vid))" using n(2) by (simp add: s parse_timestamp_le)
  show "due_interval (due_of r vid) \<noteq> 0" using chk by (simp add: s schedule_checks_def)
  show "rows_affected (lease_matches (due_of r vid) tick) (schedules d) = 1"
    using lease n en by (intro rows_affected_1I [OF dist r])
      (auto simp: lease_matches_def s no_lease_def)
qed

lemma claim_succeeds:
  assumes wf: "schedules_wf t d" and r: "r \<in> set (schedules d)" and due: "due_now tick r"
    and lease: "no_lease tick r" and host: "sch_host r \<in> set (hosts d)" and idle: "\<not> host_busy (sch_host r) d"
    and vid: "open_version r d = Some vid" and fits: "list_all (run_fits env (due_of r vid) tick ids) (runs d)"
  shows "\<exists>d'. claim_due env instance (due_of r vid) tick False ids generated d
             = (Inr (Some \<lparr>clm_run = cid_run ids, clm_host = sch_host r, clm_state = Queued\<rparr>), d')"
proof -
  note w = schedules_wfD [OF wf]
  have chk: "schedule_checks r" using w(2) r by (simp add: list_all_iff)
  obtain n where n: "sch_next_due r = Some n" using due by (auto simp: due_now_def split: option.splits)
  note m = claim_row_matches [OF chk r due lease w(1), of vid]
  let ?due = "due_of r vid"
  let ?rs = "update_rows (lease_matches ?due tick) (take_lease instance ids tick) (schedules d)"
  obtain d1 where ins: "insert_run (claim_run env ?due tick ids generated Queued d) d = Inr d1"
    using insert_claim_run [OF chk n r host vid idle fits] by blast
  have "map sch_id ?rs = map sch_id (schedules d)" by (rule map_update_rows) simp
  then have "set (map sch_id ?rs) = set (map sch_id (schedules d))" by (rule arg_cong)
  then have ids: "sch_id ` set ?rs = sch_id ` set (schedules d)" by simp
  have busy: "\<not> host_busy (due_host ?due) (d\<lparr>schedules := ?rs\<rparr>)"
    using idle by (simp add: host_busy_def due_of_simps [OF chk n])
  have crun: "claim_run env ?due tick ids generated s (d\<lparr>schedules := ?rs\<rparr>)
      = claim_run env ?due tick ids generated s d" for s
    by (simp add: claim_run_def current_policy_version_def Let_def)
  have "\<exists>d2. insert_run (claim_run env ?due tick ids generated Queued d) (d\<lparr>schedules := ?rs\<rparr>) = Inr d2"
    using ins by (auto simp: insert_run_def ids split: if_splits option.splits)
  then show ?thesis
    using m busy by (auto simp: claim_due_def Let_def crun due_of_simps [OF chk n])
qed

text \<open>
  A due schedule runs. On well-formed tables, a row of the due query always has its open version, and
  when the host is idle and a permit is free the claim succeeds: the only thing that can stop it is a run
  that already has the slot, the key of the slot or the fresh identifier.
\<close>

theorem due_slot_is_claimed:
  assumes "schedules_wf t d" and "r \<in> set (schedules d)" and "due_now tick r" and "no_lease tick r"
    and "sch_host r \<in> set (hosts d)" and "\<not> host_busy (sch_host r) d"
  shows "\<exists>vid. open_version r d = Some vid
      \<and> (list_all (run_fits env (due_of r vid) tick ids) (runs d) \<longrightarrow>
          (\<exists>d'. claim_due env instance (due_of r vid) tick False ids generated d
             = (Inr (Some \<lparr>clm_run = cid_run ids, clm_host = sch_host r, clm_state = Queued\<rparr>), d')))"
  using open_version_last [OF schedules_wfD(4) [OF assms(1,2)]] claim_succeeds [OF assms] by blast

subsection \<open>The rows of a tick\<close>

definition rows_ready :: "instant \<Rightarrow> (schedule_row \<times> string option) list \<Rightarrow> db \<Rightarrow> bool" where
  "rows_ready tick rows d =
     (distinct (map (sch_id \<circ> fst) rows)
      \<and> (\<forall>x \<in> set rows. fst x \<in> set (schedules d) \<and> snd x = open_version (fst x) d \<and> due_now tick (fst x)))"

lemma distinct_map_filter_sort:
  assumes "distinct (map k rs)"
  shows "distinct (map k (take n (sort_key f (sort_key g (filter P rs)))))"
proof -
  let ?xs = "take n (sort_key f (sort_key g (filter P rs)))"
  have "set ?xs \<subseteq> set (sort_key f (sort_key g (filter P rs)))" by (rule set_take_subset)
  also have "\<dots> \<subseteq> set rs" by simp
  finally have "set ?xs \<subseteq> set rs" .
  with assms show ?thesis by (auto simp: distinct_map intro: inj_on_subset)
qed

lemma due_rows_ready:
  assumes "distinct (map sch_id (schedules d))"
  shows "rows_ready tick (due_rows tick d) d"
proof -
  let ?rs = "take max_due_per_tick
          (sort_key (\<lambda>r. the (sch_next_due r)) (sort_key sch_id (filter (due_now tick) (schedules d))))"
  have "distinct (map sch_id ?rs)" by (rule distinct_map_filter_sort [OF assms])
  moreover have "set ?rs \<subseteq> set (filter (due_now tick) (schedules d))"
    using set_take_subset by fastforce
  ultimately show ?thesis by (auto simp: rows_ready_def due_rows_def comp_def)
qed

lemma open_version_cong: "versions d' = versions d \<Longrightarrow> open_version r d' = open_version r d"
  by (simp add: open_version_def)

lemma claim_rows_ready:
  assumes "rows_ready tick ((r, Some vid) # rows) d" and "distinct (map sch_id (schedules d))"
    and "schedule_checks r"
    and claim: "claim_due env instance (due_of r vid) tick overlap_only ids generated d = (Inr (Some c), d')"
  shows "rows_ready tick rows (publish_claimed c g d')"
proof -
  note cr = claim_runs [OF claim assms(2)]
  obtain n where n: "sch_next_due r = Some n" using assms(1) by (auto simp: rows_ready_def due_now_def split: option.splits)
  have "fst x \<in> set (schedules d')" if "x \<in> set rows" for x
  proof -
    have "sch_id r \<notin> (sch_id \<circ> fst) ` set rows" using assms(1) by (simp add: rows_ready_def)
    moreover have "(sch_id \<circ> fst) x \<in> (sch_id \<circ> fst) ` set rows" using that by (rule imageI)
    ultimately have "sch_id (fst x) \<noteq> sch_id r" by (metis comp_apply)
    moreover have "fst x \<in> set (schedules d)" using that assms(1) by (simp add: rows_ready_def)
    ultimately show ?thesis by (simp add: cr(2) set_update_rows due_of_simps [OF assms(3) n])
  qed
  moreover have "snd x = open_version (fst x) (publish_claimed c g d')" if "x \<in> set rows" for x
    using that assms(1) open_version_cong [OF cr(3), of "fst x"]
      open_version_cong [of "publish_claimed c g d'" d' "fst x"]
    by (auto simp: rows_ready_def publish_claimed_def)
  ultimately show ?thesis using assms(1) by (auto simp: rows_ready_def publish_claimed_def)
qed

text \<open>One iteration that claims, seen from the invariants of the loop.\<close>

lemma slots_fit_due_of: "slots_fit (due_of r vid) tick = slots_fit (due_of r []) tick"
  by (simp add: slots_fit_def missed_slots_def due_of_def)

lemma schedules_wf_publish_claimed: "schedules_wf t (publish_claimed c g d) = schedules_wf t d"
  by (simp add: publish_claimed_def schedules_wf_publish)

lemma one_observation_publish_claimed: "one_observation (publish_claimed c g d) = one_observation d"
  by (simp add: publish_claimed_def one_observation_def)

lemma claim_one_observation:
  assumes "claim_due env instance due tick overlap_only ids generated d = (Inr (Some c), d')"
    and "distinct (map sch_id (schedules d))" and "one_observation d"
  shows "one_observation d'"
  using claim_runs [OF assms(1,2)]
  by (intro one_observation_append [OF assms(3) claim_runs(1,5) [OF assms(1,2)]])
    (auto simp: active_run_def split: if_splits)

lemma claim_iteration:
  assumes ready: "rows_ready tick ((r, Some vid) # rows) d" and wf: "schedules_wf (timestamp tick) d"
    and fit: "slots_fit (due_of r []) tick"
    and claim: "claim_due env instance (due_of r vid) tick overlap_only ids generated d = (Inr (Some c), d')"
  shows "rows_ready tick rows (publish_claimed c g d')" and "schedules_wf (timestamp tick) (publish_claimed c g d')"
    and "\<forall>r' \<in> set (schedules d'). sch_id r' = sch_id r \<longrightarrow>
           (\<exists>m. sch_next_due r' = Some m \<and> timestamp tick < m)"
    and "one_observation d \<Longrightarrow> one_observation (publish_claimed c g d')"
    and "clm_state c \<in> {Queued, SkippedOverlap}"
proof -
  note w = schedules_wfD [OF wf]
  have r: "r \<in> set (schedules d)" and vid: "open_version r d = Some vid" and due: "due_now tick r"
    using ready by (auto simp: rows_ready_def)
  have chk: "schedule_checks r" using w(2) r by (simp add: list_all_iff)
  obtain n where n: "sch_next_due r = Some n" "n \<le> timestamp tick"
    using due by (auto simp: due_now_def split: option.splits)
  note s = due_of_simps [OF chk n(1)]
  have read: "due_read (due_of r vid) d" by (rule due_read_row [OF wf r n(1) vid])
  have ok: "due_ok (due_of r vid)" using schedule_due_ok [OF chk] by (simp add: s)
  have time: "parse_timestamp (due_next (due_of r vid)) \<le> tick" using n(2) by (simp add: s parse_timestamp_le)
  have fit': "slots_fit (due_of r vid) tick" using fit slots_fit_due_of [of r vid] by simp
  show "rows_ready tick rows (publish_claimed c g d')" by (rule claim_rows_ready [OF ready w(1) chk claim])
  show "schedules_wf (timestamp tick) (publish_claimed c g d')"
    using claim_schedules_wf [OF wf _ claim read fit'] by (simp add: schedules_wf_publish_claimed)
  show "\<forall>r' \<in> set (schedules d'). sch_id r' = sch_id r \<longrightarrow>
           (\<exists>m. sch_next_due r' = Some m \<and> timestamp tick < m)"
    using claimed_slot_bounds(3) [OF time fit' ok]
    by (auto simp: claim_runs(2) [OF claim w(1)] set_update_rows s advance_schedule_def)
  show "one_observation d \<Longrightarrow> one_observation (publish_claimed c g d')"
    using claim_one_observation [OF claim w(1)] by (simp add: one_observation_publish_claimed)
  show "clm_state c \<in> {Queued, SkippedOverlap}" using claim_runs(9) [OF claim w(1)] by simp
qed

text \<open>A tick never breaks the tables, whatever stops it.\<close>

lemma tick_loop_safe:
  assumes "tick_loop env inst tick g rows inputs claimed d = (res, started, d')"
    and "rows_ready tick rows d" and "schedules_wf (timestamp tick) d"
    and "\<forall>x \<in> set rows. slots_fit (due_of (fst x) []) tick"
  shows "schedules_wf (timestamp tick) d' \<and> (one_observation d \<longrightarrow> one_observation d')
       \<and> length started \<le> length rows \<and> (\<forall>c \<in> set started. clm_state c = Queued)"
  using assms
proof (induction env inst tick g rows inputs claimed d arbitrary: res started d' rule: tick_loop.induct)
  case (1 env inst tick g inputs claimed d)
  then show ?case by simp
next
  case (2 env inst tick g row rows claimed d)
  then show ?case by simp
next
  case (3 env inst tick g r version rows i inputs claimed d)
  show ?case
  proof (cases "ti_shutdown_before i \<or> version = None \<or> ti_shutdown_after i")
    case True
    then show ?thesis using "3.prems" by (cases version) (auto split: if_splits)
  next
    case False
    then obtain vid where vid: "version = Some vid" and sh: "\<not> ti_shutdown_before i" "\<not> ti_shutdown_after i" by auto
    obtain cres d1 where cl: "claim_due env inst (due_of r vid) tick (\<not> ti_permit i) (ti_ids i) g d = (cres, d1)"
      by (metis surj_pair)
    note prem = "3.prems" [unfolded vid]
    show ?thesis
    proof (cases "\<exists>c. cres = Inr (Some c)")
      case True
      then obtain c where c: "cres = Inr (Some c)" by blast
      note it = claim_iteration [OF prem(2,3) _ cl [unfolded c]]
      have fit: "slots_fit (due_of r []) tick" using prem(4) by simp
      let ?d2 = "publish_claimed c g d1"
      show ?thesis
      proof (cases "clm_state c = Queued \<and> \<not> ti_permit i")
        case True
        then show ?thesis using prem(1) it(2,4) [OF fit] cl c sh by auto
      next
        case ok: False
        obtain res' started' d3 where rest:
          "tick_loop env inst tick g rows inputs (sat_add32 claimed 1) ?d2 = (res', started', d3)"
          by (metis prod_cases3)
        have "schedules_wf (timestamp tick) d3 \<and> (one_observation ?d2 \<longrightarrow> one_observation d3)
            \<and> length started' \<le> length rows \<and> (\<forall>c \<in> set started'. clm_state c = Queued)"
          by (rule "3.IH"(2) [OF sh(1) vid sh(2) cl [symmetric] c refl refl ok rest it(1,2) [OF fit]])
            (use prem(4) in simp)
        then show ?thesis using prem(1) it(4) [OF fit] cl c sh rest ok by (auto simp: Let_def split: if_splits)
      qed
    next
      case False
      then have d1: "d1 = d" using claim_due_error_frame [OF cl] by blast
      show ?thesis
      proof (cases cres)
        case (Inl e)
        then show ?thesis using prem cl sh d1 by simp
      next
        case (Inr o')
        then have none: "cres = Inr None" using False by (cases o') auto
        have ready: "rows_ready tick rows d" using prem(2) by (simp add: rows_ready_def)
        have "tick_loop env inst tick g rows inputs claimed d = (res, started, d')"
          using prem(1) cl sh d1 none by simp
        then have "schedules_wf (timestamp tick) d' \<and> (one_observation d \<longrightarrow> one_observation d')
            \<and> length started \<le> length rows \<and> (\<forall>c \<in> set started. clm_state c = Queued)"
          using "3.IH"(1) [OF sh(1) vid sh(2) cl [symmetric] none refl] d1 ready prem(3,4) by simp
        then show ?thesis by auto
      qed
    qed
  qed
qed

text \<open>An iteration that is not stopped by a shutdown and finds a free permit.\<close>

definition permitting :: "tick_input \<Rightarrow> bool" where
  "permitting i = (\<not> ti_shutdown_before i \<and> ti_permit i \<and> \<not> ti_shutdown_after i)"

definition advanced :: "instant \<Rightarrow> string \<Rightarrow> db \<Rightarrow> bool" where
  "advanced tick sid d =
     (\<forall>r' \<in> set (schedules d). sch_id r' = sid \<longrightarrow> \<not> due_now tick r')"

lemma claim_keeps_advanced:
  assumes "claim_due env instance due tick overlap_only ids generated d = (Inr (Some c), d')"
    and "distinct (map sch_id (schedules d))" and "advanced tick sid d" and "sid \<noteq> due_schedule due"
  shows "advanced tick sid d'"
  using assms(3,4) by (auto simp: advanced_def claim_runs(2) [OF assms(1,2)] set_update_rows advance_schedule_def)

lemma claim_permitted_not_None:
  assumes ready: "rows_ready tick ((r, Some vid) # rows) d" and wf: "schedules_wf (timestamp tick) d"
    and lease: "no_lease tick r"
  shows "claim_due env instance (due_of r vid) tick False ids g d \<noteq> (Inr None, d')"
proof -
  note w = schedules_wfD [OF wf]
  have r: "r \<in> set (schedules d)" and due: "due_now tick r" using ready by (auto simp: rows_ready_def)
  have chk: "schedule_checks r" using w(2) r by (simp add: list_all_iff)
  note m = claim_row_matches [OF chk r due lease w(1), of vid]
  show ?thesis using m by (auto simp: claim_due_def Let_def split: sum.splits)
qed

lemma tick_loop_drains:
  assumes "tick_loop env inst tick g rows inputs claimed d = (Inr n, started, d')"
    and "rows_ready tick rows d" and "schedules_wf (timestamp tick) d"
    and "\<forall>x \<in> set rows. slots_fit (due_of (fst x) []) tick \<and> no_lease tick (fst x)"
    and "list_all permitting inputs" and "length rows \<le> length inputs"
    and "advanced tick sid d \<or> sid \<in> (sch_id \<circ> fst) ` set rows"
  shows "advanced tick sid d'"
  using assms
proof (induction env inst tick g rows inputs claimed d arbitrary: n started d' rule: tick_loop.induct)
  case (1 env inst tick g inputs claimed d)
  then show ?case by simp
next
  case (2 env inst tick g row rows claimed d)
  then show ?case by simp
next
  case (3 env inst tick g r version rows i inputs claimed d)
  note w = schedules_wfD [OF "3.prems"(3)]
  have r: "r \<in> set (schedules d)" and ver: "version = open_version r d" and due: "due_now tick r"
    using "3.prems"(2) by (auto simp: rows_ready_def)
  then obtain vid where vid: "version = Some vid" using open_version_last [OF w(4) [OF r]] by simp
  note prem = "3.prems" [unfolded vid]
  have sh: "\<not> ti_shutdown_before i" "\<not> ti_shutdown_after i" and permit: "ti_permit i"
    using prem(5) by (simp_all add: permitting_def)
  have fit: "slots_fit (due_of r []) tick" and lease: "no_lease tick r" using prem(4) by simp_all
  have chk: "schedule_checks r" using w(2) r by (simp add: list_all_iff)
  obtain m where m: "sch_next_due r = Some m" using due by (auto simp: due_now_def split: option.splits)
  obtain cres d1 where cl: "claim_due env inst (due_of r vid) tick (\<not> ti_permit i) (ti_ids i) g d = (cres, d1)"
    by (metis surj_pair)
  have "cres \<noteq> Inr None"
    using claim_permitted_not_None [OF prem(2,3) lease, of env inst "ti_ids i" g d1] cl permit by auto
  moreover have "cres \<noteq> Inl e" for e using prem(1) cl sh by auto
  ultimately obtain c where c: "cres = Inr (Some c)" by (metis not_Some_eq sum.exhaust)
  note cl' = cl [unfolded c]
  let ?d2 = "publish_claimed c g d1"
  note it = claim_iteration [OF prem(2,3) fit cl']
  obtain started' where rest:
    "tick_loop env inst tick g rows inputs (sat_add32 claimed 1) ?d2 = (Inr n, started', d')"
    using prem(1) cl c sh permit by (auto simp: Let_def split: prod.splits)
  have adv: "advanced tick (sch_id r) d1" using it(3) by (auto simp: advanced_def due_now_def)
  have pub: "advanced tick s ?d2 = advanced tick s d1" for s by (simp add: advanced_def publish_claimed_def)
  have "advanced tick sid ?d2 \<or> sid \<in> (sch_id \<circ> fst) ` set rows"
    using prem(7) adv claim_keeps_advanced [OF cl' w(1), of sid]
    by (auto simp: pub due_of_simps [OF chk m])
  moreover have "\<not> (clm_state c = Queued \<and> \<not> ti_permit i)" using permit by simp
  ultimately show ?case
    using "3.IH"(2) [OF sh(1) vid sh(2) cl [symmetric] c refl refl _ rest it(1,2)] prem(4-6) by simp
qed

subsection \<open>Properties of a tick\<close>

lemma sample_schedules_wf: "schedules_wf 1000 sample_schedule_db"
proof -
  have vs: "schedule_versions ''s'' sample_schedule_db = [sample_version]"
    by (simp add: schedule_versions_def sample_schedule_db_def) (simp add: sample_version_def sample_record_def)
  have m: "version_matches sample_schedule sample_version" and c: "schedule_checks sample_schedule"
    by (simp_all add: version_matches_def schedule_checks_def sample_version_def sample_schedule_def
        sample_record_def created_row_def)
  have s: "sch_id sample_schedule = ''s''" "ver_revision sample_version = 1" "ver_effective_until sample_version = None"
    "ver_effective_from sample_version = 700" "ver_due_until sample_version = None"
    "sch_next_due sample_schedule = Some 1000"
    by (simp_all add: sample_version_def sample_schedule_def sample_record_def)
  have "x \<le> 1000" if "slot_in v 1000 x" for v x
    using that by (simp add: slot_in_def split: option.splits)
  then have "history_ok 1000 sample_schedule [sample_version]"
    using m by (simp add: history_ok_def past_slots_def s)
  then show ?thesis
    unfolding schedules_wf_def using vs c s by (simp add: sample_schedule_db_def)
qed

lemma sample_due_now: "due_now sample_tick sample_schedule" "no_lease sample_tick sample_schedule"
  "sch_host sample_schedule = ''h''" "slots_fit (due_of sample_schedule []) sample_tick"
  "sample_schedule \<in> set (schedules sample_schedule_db)" "1000 \<le> timestamp sample_tick"
  by (simp_all add: due_now_def no_lease_def slots_fit_def missed_slots_eq due_of_def sample_tick_def timestamp_def
      ns_per_s_def sample_schedule_def sample_record_def created_row_def sample_schedule_db_def i32_max_def
      non_negative_u32_def u32_max_def)

lemma sample_db_simps: "hosts sample_schedule_db = [''h'']" "runs sample_schedule_db = []"
  "discoveries sample_schedule_db = []" "evaluations sample_schedule_db = []"
  "schedules sample_schedule_db = [sample_schedule]"
  by (simp_all add: sample_schedule_db_def sample_hosts_def empty_db_def)

theorem due_slot_is_claimed_witness:
  "\<exists>vid d'. claim_due sample_env ''i'' (due_of sample_schedule vid) sample_tick False sample_ids 0 sample_schedule_db
     = (Inr (Some \<lparr>clm_run = ''r1'', clm_host = ''h'', clm_state = Queued\<rparr>), d')"
proof -
  have "sch_host sample_schedule \<in> set (hosts sample_schedule_db)"
    "\<not> host_busy (sch_host sample_schedule) sample_schedule_db"
    by (simp_all add: sample_db_simps sample_due_now(3) host_busy_def)
  from due_slot_is_claimed [OF sample_schedules_wf sample_due_now(5,1,2) this, of sample_env sample_ids "''i''" 0]
  show ?thesis by (auto simp: sample_db_simps sample_due_now(3) sample_ids_def)
qed

text \<open>
  A tick is safe however it ends, by finishing, by a shutdown at any point or by an error: the schedule
  histories stay intact, no host gets a second active observation, and at most 64 runs are started, each of
  them queued.
\<close>

theorem tick_preserves_history:
  assumes "tick_once env inst shutdown fenced tick completed g inputs health d = (res, started, health', d')"
    and "schedules_wf t d" and "one_observation d" and "t \<le> timestamp tick"
    and "\<forall>r \<in> set (schedules d). slots_fit (due_of r []) tick"
  shows "schedules_wf (timestamp tick) d' \<and> one_observation d' \<and> length started \<le> 64
      \<and> (\<forall>c \<in> set started. clm_state c = Queued)"
proof (cases "shutdown \<or> fenced")
  case True
  then show ?thesis using assms schedules_wf_mono by (auto simp: tick_once_def)
next
  case False
  have wf: "schedules_wf (timestamp tick) d" by (rule schedules_wf_mono [OF assms(2,4)])
  have loop: "tick_loop env inst tick g (due_rows tick d) inputs 0 d = (res, started, d')"
    using assms(1) False by (auto simp: tick_once_def tick_once_inner_def Let_def split: prod.splits)
  have ready: "rows_ready tick (due_rows tick d) d" by (rule due_rows_ready [OF schedules_wfD(1) [OF wf]])
  have "length (due_rows tick d) \<le> 64" by (simp add: due_rows_def max_due_per_tick_def)
  then show ?thesis
    using tick_loop_safe [OF loop ready wf] ready assms(3,5) by (auto simp: rows_ready_def)
qed

theorem tick_preserves_history_witness:
  "\<exists>d' res started health'. tick_once sample_env ''i'' False False sample_tick sample_tick 0
       [\<lparr>ti_shutdown_before = False, ti_permit = True, ti_shutdown_after = False, ti_ids = sample_ids\<rparr>]
       initial_tick_health sample_schedule_db = (res, started, health', d')
     \<and> schedules_wf 1700 d'"
proof -
  obtain res started health' d' where t: "tick_once sample_env ''i'' False False sample_tick sample_tick 0
       [\<lparr>ti_shutdown_before = False, ti_permit = True, ti_shutdown_after = False, ti_ids = sample_ids\<rparr>]
       initial_tick_health sample_schedule_db = (res, started, health', d')"
    by (metis prod_cases4)
  have "one_observation sample_schedule_db" by (simp add: one_observation_def sample_db_simps)
  moreover have "timestamp sample_tick = 1700" by (simp add: sample_tick_def timestamp_def ns_per_s_def)
  ultimately show ?thesis
    using tick_preserves_history [OF t sample_schedules_wf] t sample_due_now by (auto simp: sample_db_simps)
qed

text \<open>
  C7. A tick drains what is due. When it finishes without a shutdown and with permits, no row it read is
  still due, and when at most 64 schedules were due, none is due any more.
\<close>

theorem tick_drains_due:
  assumes "tick_once_inner env inst tick g inputs d = (Inr n, started, d')"
    and "schedules_wf t d" and "t \<le> timestamp tick"
    and "\<forall>r \<in> set (schedules d). slots_fit (due_of r []) tick \<and> no_lease tick r"
    and "list_all permitting inputs" and "max_due_per_tick \<le> length inputs"
  shows "(\<forall>x \<in> set (due_rows tick d). \<forall>r \<in> set (schedules d'). sch_id r = sch_id (fst x) \<longrightarrow> \<not> due_now tick r)
      \<and> (length (filter (due_now tick) (schedules d)) \<le> max_due_per_tick \<longrightarrow>
          (\<forall>r \<in> set (schedules d'). \<not> due_now tick r))"
proof -
  have wf: "schedules_wf (timestamp tick) d" by (rule schedules_wf_mono [OF assms(2,3)])
  let ?rows = "due_rows tick d"
  have ready: "rows_ready tick ?rows d" by (rule due_rows_ready [OF schedules_wfD(1) [OF wf]])
  have fit: "\<forall>x \<in> set ?rows. slots_fit (due_of (fst x) []) tick \<and> no_lease tick (fst x)"
    using ready assms(4) by (auto simp: rows_ready_def)
  have len: "length ?rows \<le> length inputs" using assms(6) by (simp add: due_rows_def)
  note drains = tick_loop_drains [OF assms(1) [unfolded tick_once_inner_def] ready wf fit assms(5) len]
  have "advanced tick sid d'" if few: "length (filter (due_now tick) (schedules d)) \<le> max_due_per_tick" for sid
  proof (cases "advanced tick sid d")
    case False
    then obtain r where r: "r \<in> set (schedules d)" "sch_id r = sid" "due_now tick r" by (auto simp: advanced_def)
    have "set (map fst ?rows) = set (filter (due_now tick) (schedules d))"
      using few by (simp add: due_rows_def comp_def)
    then have "r \<in> fst ` set ?rows" using r by auto
    then have "sid \<in> (sch_id \<circ> fst) ` set ?rows" using r(2) by force
    then show ?thesis by (intro drains disjI2)
  qed (use drains in blast)
  moreover have "advanced tick (sch_id (fst x)) d'" if "x \<in> set ?rows" for x
    using that by (intro drains disjI2) force
  ultimately show ?thesis by (auto simp: advanced_def)
qed

definition sample_input :: tick_input where
  "sample_input = \<lparr>ti_shutdown_before = False, ti_permit = True, ti_shutdown_after = False, ti_ids = sample_ids\<rparr>"

lemma sample_due_rows: "due_rows sample_tick sample_schedule_db = [(sample_schedule, Some ''v1'')]"
proof -
  have "open_version sample_schedule sample_schedule_db = Some ''v1''"
    by (simp add: open_version_def sample_schedule_db_def select_one_def)
      (simp add: sample_schedule_def sample_version_def sample_record_def)
  then show ?thesis
    by (simp add: due_rows_def sample_db_simps sample_due_now(1) max_due_per_tick_def)
qed

theorem tick_drains_due_witness:
  "\<exists>started d'. tick_once_inner sample_env ''i'' sample_tick 0 (replicate 64 sample_input) sample_schedule_db
      = (Inr 1, started, d') \<and> (\<forall>r \<in> set (schedules d'). \<not> due_now sample_tick r)"
proof -
  obtain d1 where "sample_claim = (Inr (Some \<lparr>clm_run = ''r1'', clm_host = ''h'', clm_state = Queued\<rparr>), d1)"
    using sample_claim by blast
  then have "claim_due sample_env ''i'' (due_of sample_schedule ''v1'') sample_tick False sample_ids 0 sample_schedule_db
      = (Inr (Some \<lparr>clm_run = ''r1'', clm_host = ''h'', clm_state = Queued\<rparr>), d1)"
    by (simp only: sample_claim_def sample_due_def)
  then have "\<exists>started d'. tick_once_inner sample_env ''i'' sample_tick 0 (sample_input # replicate 63 sample_input)
      sample_schedule_db = (Inr 1, started, d')"
    by (simp add: tick_once_inner_def sample_due_rows sample_input_def Let_def sat_add32_def u32_max_def)
  then obtain started d' where t: "tick_once_inner sample_env ''i'' sample_tick 0 (replicate 64 sample_input)
      sample_schedule_db = (Inr 1, started, d')"
    by (auto simp: numeral_eq_Suc)
  moreover have "list_all permitting (replicate 64 sample_input)"
    by (simp add: list_all_iff permitting_def sample_input_def)
  ultimately show ?thesis
    using tick_drains_due [OF t sample_schedules_wf] sample_due_now
    by (auto simp: sample_db_simps max_due_per_tick_def)
qed

subsection \<open>A client can stop a tick\<close>

lemma insert_claim_run_conflict:
  assumes chk: "schedule_checks r" and n: "sch_next_due r = Some n"
    and vid: "open_version r d = Some vid" and idle: "\<not> host_busy (sch_host r) d"
    and s: "s \<in> set (runs d)" "run_host s = sch_host r"
      "run_key s = schedule_run_key env (sch_id r) (timestamp (claimed_slot (due_of r vid) tick))"
  shows "insert_run (claim_run env (due_of r vid) tick ids g Queued d) d = Inl UniqueViolation"
proof -
  let ?run = "claim_run env (due_of r vid) tick ids g Queued d"
  have pol: "run_policy_version ?run = current_policy_version (sch_host r) d"
    and rev: "run_schedule_revision ?run = Some (sch_revision r)"
    by (simp_all add: claim_run_def Let_def due_of_simps [OF chk n])
  have "run_conflicts ?run s" using s by (simp add: run_conflicts_def due_of_simps [OF chk n])
  then show ?thesis
    using open_version_row [OF vid] current_policy_version_row [of "sch_host r" d] idle s(1)
      claim_run_checks [OF chk n, of env vid tick ids g Queued d]
    by (auto simp: insert_run_def due_of_simps [OF chk n] pol rev host_busy_def split: option.splits)
qed

lemma claim_conflict:
  assumes wf: "schedules_wf t d" and r: "r \<in> set (schedules d)" and due: "due_now tick r"
    and lease: "no_lease tick r" and idle: "\<not> host_busy (sch_host r) d"
    and vid: "open_version r d = Some vid" and s: "s \<in> set (runs d)" "run_host s = sch_host r"
      "run_key s = schedule_run_key env (sch_id r) (timestamp (claimed_slot (due_of r vid) tick))"
  shows "claim_due env instance (due_of r vid) tick False ids g d = (Inl (SStorage UniqueViolation), d)"
proof -
  note w = schedules_wfD [OF wf]
  have chk: "schedule_checks r" using w(2) r by (simp add: list_all_iff)
  obtain n where n: "sch_next_due r = Some n" using due by (auto simp: due_now_def split: option.splits)
  note m = claim_row_matches [OF chk r due lease w(1), of vid]
  let ?rs = "update_rows (lease_matches (due_of r vid) tick) (take_lease instance ids tick) (schedules d)"
  have "insert_run (claim_run env (due_of r vid) tick ids g Queued (d\<lparr>schedules := ?rs\<rparr>)) (d\<lparr>schedules := ?rs\<rparr>)
      = Inl UniqueViolation"
  proof -
    have crun: "claim_run env (due_of r vid) tick ids g Queued (d\<lparr>schedules := ?rs\<rparr>)
        = claim_run env (due_of r vid) tick ids g Queued d"
      by (simp add: claim_run_def current_policy_version_def Let_def)
    show ?thesis
      using insert_claim_run_conflict [OF chk n vid idle s, of ids g]
      by (auto simp: insert_run_def crun split: if_splits option.splits)
  qed
  moreover have "\<not> host_busy (due_host (due_of r vid)) (d\<lparr>schedules := ?rs\<rparr>)"
    using idle by (simp add: host_busy_def due_of_simps [OF chk n])
  ultimately show ?thesis using m by (simp add: claim_due_def Let_def)
qed

text \<open>
  A client can stop a tick. A finished run of the host whose idempotency key is the key the scheduler
  derives for the slot makes the claim fail on the uniqueness constraint; the claim is rolled back and the
  error ends the tick, so that no row after it is claimed, whatever the state of their hosts.
\<close>

theorem client_key_stops_tick:
  assumes "schedules_wf t d" and "due_rows tick d = (r, version) # rows" and "no_lease tick r"
    and "\<not> host_busy (sch_host r) d" and "s \<in> set (runs d)" and "run_host s = sch_host r"
    and "run_key s = schedule_run_key env (sch_id r) (timestamp (claimed_slot (due_of r []) tick))"
    and "permitting i"
  shows "tick_once_inner env inst tick g (i # inputs) d = (Inl (SStorage UniqueViolation), [], d)"
proof -
  have "rows_ready tick ((r, version) # rows) d"
    using due_rows_ready [OF schedules_wfD(1) [OF assms(1)], of tick] assms(2) by simp
  then have r: "r \<in> set (schedules d)" "version = open_version r d" "due_now tick r"
    by (auto simp: rows_ready_def)
  obtain vid where vid: "open_version r d = Some vid"
    using open_version_last [OF schedules_wfD(4) [OF assms(1) r(1)]] by blast
  have slot: "claimed_slot (due_of r vid) tick = claimed_slot (due_of r []) tick"
    by (simp add: claimed_slot_def missed_slots_def due_of_def)
  have "claim_due env inst (due_of r vid) tick False (ti_ids i) g d = (Inl (SStorage UniqueViolation), d)"
    by (rule claim_conflict [OF assms(1) r(1,3) assms(3,4) vid assms(5,6)]) (simp add: assms(7) slot)
  then show ?thesis
    using assms(8) vid r(2) by (simp add: tick_once_inner_def assms(2) permitting_def)
qed

text \<open>A finished manual run that a client submitted under the key of the slot at 1600.\<close>

definition sample_blocked :: db where
  "sample_blocked = sample_schedule_db\<lparr>runs :=
     [(sample_run Succeeded)\<lparr>run_key := schedule_run_key sample_env ''s'' 1600\<rparr>]\<rparr>"

theorem client_key_stops_tick_witness:
  "tick_once_inner sample_env ''i'' sample_tick 0 [sample_input] sample_blocked
     = (Inl (SStorage UniqueViolation), [], sample_blocked)"
proof -
  have wf: "schedules_wf 1000 sample_blocked"
    using sample_schedules_wf by (simp add: schedules_wf_def schedule_versions_def sample_blocked_def)
  have rows: "due_rows sample_tick sample_blocked = [(sample_schedule, Some ''v1'')]"
    using sample_due_rows by (simp add: due_rows_def open_version_def sample_blocked_def)
  have idle: "\<not> host_busy (sch_host sample_schedule) sample_blocked"
    by (simp add: host_busy_def sample_blocked_def sample_db_simps)
      (simp add: sample_run_def active_run_def)
  have "timestamp (claimed_slot (due_of sample_schedule []) sample_tick) = 1600" "sch_id sample_schedule = ''s''"
    by (simp_all add: claimed_slot_def missed_slots_eq due_of_def sample_tick_def timestamp_def parse_timestamp_def
        seconds_def ns_per_s_def sample_schedule_def sample_record_def created_row_def i32_max_def
        non_negative_u32_def u32_max_def)
  then have s: "(sample_run Succeeded)\<lparr>run_key := schedule_run_key sample_env ''s'' 1600\<rparr> \<in> set (runs sample_blocked)"
    "run_key ((sample_run Succeeded)\<lparr>run_key := schedule_run_key sample_env ''s'' 1600\<rparr>)
      = schedule_run_key sample_env (sch_id sample_schedule)
          (timestamp (claimed_slot (due_of sample_schedule []) sample_tick))"
    "run_host ((sample_run Succeeded)\<lparr>run_key := schedule_run_key sample_env ''s'' 1600\<rparr>) = sch_host sample_schedule"
    by (simp_all add: sample_blocked_def sample_due_now(3)) (simp add: sample_run_def)
  have "permitting sample_input" by (simp add: permitting_def sample_input_def)
  from client_key_stops_tick [OF wf rows sample_due_now(2) idle s(1,3,2) this] show ?thesis by simp
qed

subsection \<open>Slots across versions\<close>

text \<open>
  C19. No due slot is accounted twice: whatever was changed and claimed before, a slot time belongs to at
  most one version of a schedule, so a slot claimed under one revision is not expected again by another.
\<close>

theorem slot_has_one_version:
  assumes "(scheduler_step env)\<^sup>*\<^sup>* (t0, d0) (t, d)" and "schedules d0 = []" and "versions d0 = []"
    and "r \<in> set (schedules d)" and "v \<in> set (schedule_versions (sch_id r) d)"
    and "w \<in> set (schedule_versions (sch_id r) d)" and "accounted r v s" and "accounted r w s"
  shows "v = w"
proof -
  let ?vs = "schedule_versions (sch_id r) d"
  have "schedules_wf t d"
    using scheduler_steps_wf [OF assms(1)] schedules_wf_initial [OF assms(2,3)] by simp
  then have h: "history_ok t r ?vs" using schedules_wfD(4) assms(4) by blast
  obtain i where i: "i < length ?vs" "v = ?vs ! i" using assms(5) by (auto simp: in_set_conv_nth)
  obtain j where j: "j < length ?vs" "w = ?vs ! j" using assms(6) by (auto simp: in_set_conv_nth)
  have "\<not> i < j" using accounted_unique [OF h _ j(1)] i j assms(7,8) by blast
  moreover have "\<not> j < i" using accounted_unique [OF h _ i(1)] i j assms(7,8) by blast
  ultimately show ?thesis using i j by simp
qed

lemma sample_created_eq:
  "\<exists>r v n. schedules (snd sample_created) = [r] \<and> versions (snd sample_created) = [v] \<and> sch_id r = ''s1''
     \<and> ver_schedule v = ''s1'' \<and> sch_host r = ''h'' \<and> sch_state r = SchedEnabled \<and> sch_next_due r = Some n
     \<and> ver_due_from v = Some n \<and> ver_due_until v = None \<and> sch_lease_until r = None
     \<and> sch_interval r = 300 \<and> ver_interval v = 300 \<and> 300 \<le> n \<and> n \<le> 340
     \<and> hosts (snd sample_created) = [''h''] \<and> runs (snd sample_created) = [] \<and> discoveries (snd sample_created) = []"
proof -
  have "stable_jitter sample_env ''s1'' 1 30 \<le> 30" by (rule stable_jitter_le)
  moreover obtain key where
    "schedules (snd sample_created) = [created_row (created_record sample_env ''s1'' ''h'' sample_create 5) key
        (digest_text sample_env (json_of_create sample_env sample_create))
        \<lparr>resp_data = created_record sample_env ''s1'' ''h'' sample_create 5,
         resp_meta = real_meta (request_id key_header ''q'') 1 0\<rparr>]"
    "versions (snd sample_created) = [version_of (created_record sample_env ''s1'' ''h'' sample_create 5) ''v1''
        (timestamp 5) (timestamp 5) Recorded None]"
    "hosts (snd sample_created) = [''h'']" "runs (snd sample_created) = []" "discoveries (snd sample_created) = []"
    using create_defined [OF sample_create_ready sample_create_valid, of sample_env "''q''" 0]
    by (auto simp: sample_created_def sample_hosts_def empty_db_def)
  ultimately show ?thesis
    by (simp add: created_row_def created_record_def Let_def sample_create_def timestamp_def seconds_def ns_per_s_def)
qed

text \<open>The first slot of the created schedule, claimed at 340: it is accounted to the one version.\<close>

theorem slot_has_one_version_witness:
  "\<exists>t d r v n. (scheduler_step sample_env)\<^sup>*\<^sup>* (0, sample_hosts) (t, d) \<and> schedules d = [r]
     \<and> v \<in> set (schedule_versions (sch_id r) d) \<and> accounted r v n
     \<and> (\<forall>w \<in> set (schedule_versions (sch_id r) d). accounted r w n \<longrightarrow> w = v)"
proof -
  let ?d = "snd sample_created" let ?tick = "340 * ns_per_s"
  obtain r v n where s: "schedules ?d = [r]" "versions ?d = [v]" "sch_id r = ''s1''" "ver_schedule v = ''s1''"
    "sch_host r = ''h''" "sch_state r = SchedEnabled" "sch_next_due r = Some n" "ver_due_from v = Some n"
    "ver_due_until v = None" "sch_lease_until r = None" "sch_interval r = 300" "ver_interval v = 300"
    "300 \<le> n" "n \<le> 340"
    "hosts ?d = [''h'']" "runs ?d = []" "discoveries ?d = []"
    using sample_created_eq by blast
  have step: "scheduler_step sample_env (0, sample_hosts) (timestamp 5, ?d)"
    by (rule step_create [of _ key_header "''h''" "Some sample_create" "''s1''" "''v1''" "''q''" 5 0 sample_hosts
          _ "fst sample_created"])
      (simp_all add: sample_created_def timestamp_def ns_per_s_def sample_hosts_def empty_db_def)
  have wf: "schedules_wf (timestamp 5) ?d"
    using scheduler_step_wf [OF step] schedules_wf_initial [of sample_hosts]
    by (simp add: sample_hosts_def empty_db_def)
  have tick: "timestamp ?tick = 340" by (simp add: timestamp_def ns_per_s_def)
  have r: "r \<in> set (schedules ?d)" by (simp add: s)
  have due: "due_now ?tick r" "no_lease ?tick r"
    using s by (simp_all add: due_now_def no_lease_def tick)
  have host: "sch_host r \<in> set (hosts ?d)" "\<not> host_busy (sch_host r) ?d"
    by (simp_all add: s host_busy_def)
  obtain vid where vid: "open_version r ?d = Some vid"
    using open_version_last [OF schedules_wfD(4) [OF wf r]] by blast
  have fits: "list_all (run_fits sample_env (due_of r vid) ?tick sample_ids) (runs ?d)" by (simp add: s)
  obtain d' where cl: "claim_due sample_env ''i'' (due_of r vid) ?tick False sample_ids 0 ?d
      = (Inr (Some \<lparr>clm_run = cid_run sample_ids, clm_host = sch_host r, clm_state = Queued\<rparr>), d')"
    using claim_succeeds [OF wf r due host vid fits] by blast
  have chk: "schedule_checks r" using schedules_wfD(2) [OF wf] r by (simp add: list_all_iff)
  note ds = due_of_simps [OF chk s(7), of vid]
  have fit: "slots_fit (due_of r vid) ?tick"
    using s by (simp add: slots_fit_def missed_slots_eq ds tick i32_max_def)
  have "scheduler_step sample_env (timestamp 5, ?d) (timestamp ?tick, d')"
    using due_read_row [OF wf r s(7) vid] fit
    by (intro step_claim [OF cl]) (simp_all add: timestamp_def ns_per_s_def)
  with step have steps: "(scheduler_step sample_env)\<^sup>*\<^sup>* (0, sample_hosts) (340, d')"
    by (simp add: tick)
  note runs = claim_runs [OF cl schedules_wfD(1) [OF wf]]
  let ?r = "advance_schedule (due_of r vid) ?tick r"
  have rows: "schedules d' = [?r]" by (simp add: runs(2) s update_rows_def ds)
  have vs: "schedule_versions (sch_id ?r) d' = [v]"
    by (simp add: schedule_versions_def runs(3) s) (simp add: advance_schedule_def s)
  have "parse_timestamp (due_next (due_of r vid)) \<le> ?tick" using s by (simp add: ds parse_timestamp_le tick)
  from claimed_slot_bounds [OF this fit schedule_due_ok [OF chk ds(4)]]
  have "sch_next_due ?r = Some (timestamp (claimed_slot (due_of r vid) ?tick) + 300)"
    "n \<le> timestamp (claimed_slot (due_of r vid) ?tick)"
    by (simp_all add: advance_schedule_def ds s)
  then have acc: "accounted ?r v n" using s by (simp add: accounted_def slot_in_def)
  have v: "v \<in> set (schedule_versions (sch_id ?r) d')" by (simp add: vs)
  have "w = v" if "w \<in> set (schedule_versions (sch_id ?r) d')" "accounted ?r w n" for w
    using slot_has_one_version [OF steps _ _ _ that(1) v that(2) acc]
    by (simp add: rows sample_hosts_def empty_db_def)
  with steps rows acc v show ?thesis by blast
qed

subsection \<open>Updates are guarded by the revision\<close>

text \<open>
  C21. A PATCH is a compare-and-set. An error changes nothing. A success had an If-Match that names the
  revision the row still has; it writes exactly that row, in the way the request says, at the next revision,
  answers with the new row, and leaves every other schedule and all runs alone.
\<close>

theorem update_is_cas:
  assumes "update_monitor_schedule env hdr sid payload vid rid now generated pre d = (res, d')"
    and "schedules_wf t d"
  shows "(\<forall>e. res = Inl e \<longrightarrow> d' = d)
      \<and> (\<forall>resp. res = Inr resp \<longrightarrow>
          (\<exists>r q x. r \<in> set (schedules d) \<and> sch_id r = sid \<and> scheduler_if_match hdr = Inr (sch_revision r)
             \<and> payload = Some q \<and> load_schedule sid pre = Some x \<and> rec_revision x = sch_revision r
             \<and> schedules d' = update_rows (\<lambda>s. sch_id s = sid) (patched_row env (plan_of q x) now) (schedules d)
             \<and> resp_data resp = schedule_from_row (patched_row env (plan_of q x) now r)
             \<and> rec_revision (resp_data resp) = sch_revision r + 1
             \<and> runs d' = runs d \<and> evaluations d' = evaluations d \<and> policies d' = policies d))"
proof (cases "d' = d \<and> (\<exists>e. res = Inl e)")
  case True
  then show ?thesis by auto
next
  case False
  note w = schedules_wfD [OF assms(2)]
  obtain q x r d1 s where u: "payload = Some q" "scheduler_if_match hdr = Inr (sch_revision r)"
    "load_schedule sid pre = Some x" "rec_revision x = sch_revision r" "r \<in> set (schedules d)" "sch_id r = sid"
    "update_transaction env sid (plan_of q x) (sch_revision r) vid now d = Inr d1"
    and res: "(load_schedule sid d1 = Some s \<and> d' = publish_schedule_state s generated d1
            \<and> res = Inr \<lparr>resp_data = s, resp_meta = real_meta (request_id hdr rid) (sch_revision r + 1) generated\<rparr>)
          \<or> (load_schedule sid d1 = None \<and> d' = d1 \<and> res = Inl SInternal)"
    using update_Inr_cases [OF assms(1)] False by blast
  let ?v = "last (schedule_versions (sch_id r) d)"
  have "?v \<in> set (schedule_versions (sch_id r) d)" and "ver_revision ?v = sch_revision r"
    using last_version_open(1) [OF w(4) [OF u(5)]] w(4) [OF u(5)]
    by (simp_all add: history_ok_def version_matches_def)
  then have ver: "\<exists>v \<in> set (versions d). ver_schedule v = sch_id r \<and> ver_revision v = sch_revision r"
    by (auto simp: schedule_versions_def)
  note tx = update_transaction_Inr [OF u(7) [folded u(6)] w(1) u(5) ver]
  let ?new = "patched_row env (plan_of q x) now r"
  have d1: "schedules d1 = update_rows (\<lambda>s. sch_id s = sid) (patched_row env (plan_of q x) now) (schedules d)"
    "runs d1 = runs d" "evaluations d1 = evaluations d" "policies d1 = policies d"
    by (simp_all add: tx(1) u(6))
  have new: "?new \<in> set (schedules d1)" using u(5,6) by (auto simp: d1 set_update_rows)
  have "map sch_id (schedules d1) = map sch_id (schedules d)"
    unfolding d1(1) by (rule map_update_rows) (simp add: patched_row_simps)
  then have load: "load_schedule sid d1 = Some (schedule_from_row ?new)"
    using w(1) new u(6) by (intro load_schedule_row) (simp_all add: patched_row_simps)
  then have s: "s = schedule_from_row ?new" and r': "d' = publish_schedule_state s generated d1"
    "res = Inr \<lparr>resp_data = s, resp_meta = real_meta (request_id hdr rid) (sch_revision r + 1) generated\<rparr>"
    using res by auto
  have "rec_revision s = sch_revision r + 1"
    using u(4) by (simp add: s patched_row_simps plan_of_def Let_def)
  moreover have "schedules d' = schedules d1" "runs d' = runs d1" "evaluations d' = evaluations d1"
    "policies d' = policies d1"
    by (simp_all add: r' publish_schedule_state_def)
  ultimately show ?thesis using u d1 r'(2) s by auto
qed

text \<open>Pausing the sample schedule with the entity tag of its revision.\<close>

definition sample_pause :: "(scheduler_error + schedule_response) \<times> db" where
  "sample_pause = update_monitor_schedule sample_env (if_match_header 1) ''s''
     (Some \<lparr>up_interval_seconds = None, up_jitter_seconds = None, up_stale_after_seconds = None,
            up_state = Some SchedPaused\<rparr>)
     ''v2'' ''q'' sample_tick 0 sample_schedule_db sample_schedule_db"

lemma scheduler_if_match_header: "scheduler_if_match (if_match_header 1) = Inr 1"
  using if_match_etag [of "if_match_header 1" 1 1]
  by (simp add: scheduler_if_match_def if_match_schedule_def if_match_header_def i64_min_def i64_max_def)

lemma sample_pause: "\<exists>resp d'. sample_pause = (Inr resp, d')"
  by (simp add: sample_pause_def update_monitor_schedule_def scheduler_if_match_header empty_patch_def
      load_schedule_def select_one_def schedule_from_row_def plan_of_def unwrap_or_def Let_def
      validate_schedule_values_def min_interval_seconds_def max_interval_seconds_def max_stale_after_seconds_def
      rows_affected_def update_transaction_def patch_offset_def patch_next_due_def stable_jitter_def
      persist_schedule_update_def update_rows_def updated_row_def schedule_checks_def old_due_until_def
      close_schedule_version_def close_version_def close_allowed_def version_checks_def
      insert_schedule_version_def insert_version_def sample_tick_def timestamp_def parse_timestamp_def
      ns_per_s_def publish_schedule_state_def sample_schedule_defs)

theorem update_is_cas_witness:
  "\<exists>resp d'. sample_pause = (Inr resp, d') \<and> rec_revision (resp_data resp) = 2 \<and> runs d' = []"
proof -
  obtain resp d' where u: "sample_pause = (Inr resp, d')" using sample_pause by blast
  have "sch_revision sample_schedule = 1" by (simp add: sample_schedule_def)
  then show ?thesis
    using update_is_cas [OF u [unfolded sample_pause_def] sample_schedules_wf] u by (auto simp: sample_db_simps)
qed

subsection \<open>What the status reports\<close>

text \<open>The outcome of one finished tick, and the health it leaves.\<close>

datatype tick_outcome = TickOk instant | TickFailed string instant

primrec note_tick :: "tick_health \<Rightarrow> tick_outcome \<Rightarrow> tick_health" where
  "note_tick h (TickOk t) = record_tick_success t h"
| "note_tick h (TickFailed code t) = record_tick_failure t code h"

primrec tick_failed :: "tick_outcome \<Rightarrow> bool" where
  "tick_failed (TickOk a) = False"
| "tick_failed (TickFailed c a) = True"

definition last_ok :: "tick_outcome list \<Rightarrow> instant option" where
  "last_ok os = (case filter (\<lambda>o'. \<not> tick_failed o') (rev os) of TickOk t # _ \<Rightarrow> Some t | _ \<Rightarrow> None)"

lemma tick_health_history:
  "th_failures (foldl note_tick initial_tick_health os) = min u32_max (length (takeWhile tick_failed (rev os)))
   \<and> th_last_successful (foldl note_tick initial_tick_health os) = last_ok os"
proof (induction os rule: rev_induct)
  case Nil
  then show ?case by (simp add: initial_tick_health_def last_ok_def)
next
  case (snoc x xs)
  then show ?case
    by (cases x) (auto simp: record_tick_success_def record_tick_failure_def last_ok_def sat_add32_def min_def)
qed

text \<open>
  The status reports the newest tick. After any history of ticks, the derived state depends on whether
  the scheduler was started, on how the newest tick ended and, when it succeeded, on whether that was within
  the late threshold; older failures and successes do not matter.
\<close>

theorem status_reports_newest_tick:
  "derive_scheduler_state started now (foldl note_tick initial_tick_health os) late =
     (if \<not> started then (SchedulerStopped, SchedulerNotStarted)
      else case rev os of
             [] \<Rightarrow> (SchedulerUnknown, AwaitingFirstTick)
           | TickFailed code t # _ \<Rightarrow> (SchedulerUnknown, LatestTickFailed)
           | TickOk t # _ \<Rightarrow> if now \<le> t + seconds (int late) then (SchedulerRunning, TickRecent)
                            else (SchedulerLate, TickLate))"
  using tick_health_history [of os]
  by (auto simp: derive_scheduler_state_def last_ok_def u32_max_def min_def
      split: list.splits tick_outcome.splits)

end
