(* ===== verification/RustStd.thy ===== *)
theory RustStd
  imports Float64 "HOL-Library.List_Lexorder" "HOL-Library.Char_ord" "HOL-Library.Product_Lexorder"
begin

text \<open>
  The parts of the Rust standard library that the host collector reads remote output with. A \<open>&str\<close>
  is the list of its UTF-8 bytes, so \<open>len\<close> is \<open>length\<close> and the order of texts is the order of their
  bytes.

  \<^item> \<open>lines\<close>, \<open>trim\<close>, \<open>split_whitespace\<close>, \<open>split\<close>, \<open>split_once\<close>, \<open>rsplit_once\<close>, \<open>find\<close>.
  \<^item> \<open>parse::<u32>\<close>, \<open>parse::<u64>\<close>, \<open>parse::<i32>\<close> and the documented grammar of \<open>parse::<f64>\<close>.
  \<^item> \<open>BTreeMap\<close> as an association list in key order, behind the interface \<open>ordered_map\<close>.
\<close>

named_theorems text_simps \<open>texts cut at separators that do not occur in their pieces\<close>

definition u64_max :: nat where
  "u64_max = 18446744073709551615"

definition sat_add64 :: "nat \<Rightarrow> nat \<Rightarrow> nat" where
  "sat_add64 a b = min (a + b) u64_max"

definition checked_add64 :: "nat \<Rightarrow> nat \<Rightarrow> nat option" where
  "checked_add64 a b = (if a + b \<le> u64_max then Some (a + b) else None)"

fun ok_or :: "'e \<Rightarrow> 'a option \<Rightarrow> 'e + 'a" where
  "ok_or e None = Inl e"
| "ok_or e (Some x) = Inr x"

definition first :: "'a list \<Rightarrow> 'a option" where
  "first xs = (case xs of [] \<Rightarrow> None | x # _ \<Rightarrow> Some x)"

lemma ok_or_Inr [simp]: "ok_or e x = Inr y \<longleftrightarrow> x = Some y"
  by (cases x) auto

subsection \<open>White space\<close>

text \<open>The characters with the Unicode property \<open>White_Space\<close>, as UTF-8.\<close>

definition white_space :: "string list" where
  "white_space = map (map char_of)
     ([[9], [10], [11], [12], [13], [32 :: nat], [194, 133], [194, 160], [225, 154, 128]]
      @ map (\<lambda>n. [226, 128, n]) ([128..<139] @ [168, 169, 175]) @ [[226, 129, 159], [227, 128, 128]])"

definition ascii_white_space :: "char \<Rightarrow> bool" where
  "ascii_white_space c = ((of_char c :: nat) \<in> {9, 10, 12, 13, 32})"

text \<open>The length of the white space character a text begins with, \<open>0\<close> for none.\<close>

definition ws_len :: "string list \<Rightarrow> string \<Rightarrow> nat" where
  "ws_len ws s = (case find (\<lambda>w. strip_prefix w s \<noteq> None) ws of None \<Rightarrow> 0 | Some w \<Rightarrow> length w)"

fun trim_start :: "string list \<Rightarrow> string \<Rightarrow> string" where
  "trim_start ws [] = []"
| "trim_start ws (c # cs) =
     (let n = ws_len ws (c # cs) in if n = 0 then c # cs else trim_start ws (drop (n - 1) cs))"

definition trim :: "string \<Rightarrow> string" where
  "trim s = rev (trim_start (map rev white_space) (rev (trim_start white_space s)))"

definition push_word :: "string \<Rightarrow> string list \<Rightarrow> string list" where
  "push_word w ws = (if w = [] then ws else rev w # ws)"

text \<open>The current word is kept in reverse.\<close>

fun words_from :: "string \<Rightarrow> string \<Rightarrow> string list" where
  "words_from w [] = push_word w []"
| "words_from w (c # cs) =
     (let n = ws_len white_space (c # cs)
      in if n = 0 then words_from (c # w) cs else push_word w (words_from [] (drop (n - 1) cs)))"

definition split_whitespace :: "string \<Rightarrow> string list" where
  "split_whitespace s = words_from [] s"

definition is_blank :: "string \<Rightarrow> bool" where
  "is_blank s = (trim s = [])"

text \<open>Printable ASCII characters neither are white space nor end one.\<close>

definition plain_char :: "char \<Rightarrow> bool" where
  "plain_char c = (33 \<le> (of_char c :: nat) \<and> (of_char c :: nat) < 128)"

lemma white_space_heads:
  "\<forall>w \<in> set white_space. w \<noteq> [] \<and> \<not> plain_char (hd w) \<and> \<not> plain_char (last w)"
  by (simp add: white_space_def upt_rec plain_char_def)

lemma ws_len_0:
  assumes "\<forall>w \<in> set ws. w \<noteq> [] \<and> hd w \<noteq> c"
  shows "ws_len ws (c # cs) = 0"
proof -
  have "strip_prefix w (c # cs) = None" if "w \<in> set ws" for w
    using assms that by (cases w) auto
  then have "find (\<lambda>w. strip_prefix w (c # cs) \<noteq> None) ws = None" by (simp add: find_None_iff)
  then show ?thesis by (simp add: ws_len_def)
qed

lemma ws_len_plain [simp]:
  assumes "plain_char c"
  shows "ws_len white_space (c # cs) = 0" and "ws_len (map rev white_space) (c # cs) = 0"
  using white_space_heads assms by (auto intro!: ws_len_0 simp: hd_rev)

lemma white_space_ascii:
  "\<exists>rest. white_space = [CHR 0x09] # [CHR 0x0A] # [CHR 0x0B] # [CHR 0x0C] # [CHR 0x0D] # '' '' # rest"
  by (simp add: white_space_def char_of_eq_iff)

lemma ws_len_space [simp]: "ws_len white_space (CHR '' '' # cs) = 1"
proof -
  obtain rest where w: "white_space = [CHR 0x09] # [CHR 0x0A] # [CHR 0x0B] # [CHR 0x0C] # [CHR 0x0D] # '' '' # rest"
    using white_space_ascii by blast
  show ?thesis unfolding ws_len_def w by simp
qed

lemma trim_plain: "s = [] \<or> plain_char (hd s) \<and> plain_char (last s) \<Longrightarrow> trim s = s"
proof (cases s)
  case (Cons c cs)
  moreover assume "s = [] \<or> plain_char (hd s) \<and> plain_char (last s)"
  ultimately have c: "plain_char c" "plain_char (last s)" by auto
  obtain d ds where r: "rev s = d # ds" using Cons by (cases "rev s") auto
  then have "plain_char d" using c(2) hd_rev [of s] by simp
  moreover have "trim_start white_space s = s" using c(1) Cons by simp
  ultimately have "trim s = rev (d # ds)" using r by (simp add: trim_def)
  then show ?thesis by (simp only: r [symmetric] rev_rev_ident)
qed (simp add: trim_def)

subsection \<open>Cutting texts\<close>

text \<open>\<open>str::lines\<close>: a line ends at a line feed, one carriage return before it belongs to the ending.\<close>

definition strip_cr :: "string \<Rightarrow> string" where
  "strip_cr w = (case w of [] \<Rightarrow> [] | c # cs \<Rightarrow> if c = CHR 0x0D then cs else w)"

fun lines_from :: "string \<Rightarrow> string \<Rightarrow> string list" where
  "lines_from w [] = (if w = [] then [] else [rev w])"
| "lines_from w (c # cs) =
     (if c = CHR 0x0A then rev (strip_cr w) # lines_from [] cs else lines_from (c # w) cs)"

definition lines :: "string \<Rightarrow> string list" where
  "lines s = lines_from [] s"

fun split_on :: "char \<Rightarrow> string \<Rightarrow> string list" where
  "split_on d [] = [[]]"
| "split_on d (c # cs) =
     (if c = d then [] # split_on d cs
      else (case split_on d cs of [] \<Rightarrow> [[c]] | w # ws \<Rightarrow> (c # w) # ws))"

definition split_once :: "char \<Rightarrow> string \<Rightarrow> (string \<times> string) option" where
  "split_once d s =
     (if d \<in> set s then Some (takeWhile (\<lambda>c. c \<noteq> d) s, tl (dropWhile (\<lambda>c. c \<noteq> d) s)) else None)"

definition rsplit_once :: "char \<Rightarrow> string \<Rightarrow> (string \<times> string) option" where
  "rsplit_once d s = map_option (\<lambda>(a, b). (rev b, rev a)) (split_once d (rev s))"

text \<open>The text before and after the first occurrence of a pattern.\<close>

fun split_first :: "string \<Rightarrow> string \<Rightarrow> (string \<times> string) option" where
  "split_first pat [] = (if pat = [] then Some ([], []) else None)"
| "split_first pat (c # cs) =
     (case strip_prefix pat (c # cs) of
        Some rest \<Rightarrow> Some ([], rest)
      | None \<Rightarrow> map_option (\<lambda>(a, b). (c # a, b)) (split_first pat cs))"

definition text_contains :: "string \<Rightarrow> string \<Rightarrow> bool" where
  "text_contains pat s = (split_first pat s \<noteq> None)"

definition trim_where :: "(char \<Rightarrow> bool) \<Rightarrow> string \<Rightarrow> string" where
  "trim_where P s = rev (dropWhile P (rev (dropWhile P s)))"

definition trim_end_where :: "(char \<Rightarrow> bool) \<Rightarrow> string \<Rightarrow> string" where
  "trim_end_where P s = rev (dropWhile P (rev s))"

fun join_with :: "string \<Rightarrow> string list \<Rightarrow> string" where
  "join_with sep [] = []"
| "join_with sep [w] = w"
| "join_with sep (w # ws) = w @ sep @ join_with sep ws"

definition lower_char :: "char \<Rightarrow> char" where
  "lower_char c =
     (let n = (of_char c :: nat) in if 65 \<le> n \<and> n \<le> 90 then char_of (n + 32) else c)"

definition is_digit_char :: "char \<Rightarrow> bool" where
  "is_digit_char c = (digit_val c \<noteq> None)"

definition is_alnum_char :: "char \<Rightarrow> bool" where
  "is_alnum_char c =
     (let n = (of_char c :: nat)
      in (48 \<le> n \<and> n \<le> 57) \<or> (65 \<le> n \<and> n \<le> 90) \<or> (97 \<le> n \<and> n \<le> 122))"

lemma split_once_append [text_simps]: "d \<notin> set a \<Longrightarrow> split_once d (a @ d # b) = Some (a, b)"
  by (auto simp: split_once_def takeWhile_append dropWhile_append)

lemma rsplit_once_append [text_simps]: "d \<notin> set b \<Longrightarrow> rsplit_once d (a @ d # b) = Some (a, b)"
  by (simp add: rsplit_once_def split_once_append)

lemma trim_where_snoc [text_simps]: "P c \<Longrightarrow> trim_where P (s @ [c]) = trim_where P s"
proof (cases "dropWhile P s = []")
  case True
  then have "dropWhile P (s @ [c]) = dropWhile P [c]"
    by (simp add: dropWhile_append2 dropWhile_eq_Nil_conv)
  then show "P c \<Longrightarrow> ?thesis" unfolding trim_where_def True by simp
next
  case False
  then have "dropWhile P (s @ [c]) = dropWhile P s @ [c]"
    by (simp add: dropWhile_append)
  then show "P c \<Longrightarrow> ?thesis" by (simp add: trim_where_def)
qed

lemma split_first_prefix: "p \<noteq> [] \<Longrightarrow> split_first p (p @ t) = Some ([], t)"
  by (cases p) simp_all

text \<open>A prefix that fits across a separator it does not contain lies before the separator.\<close>

lemma strip_prefix_separator:
  "d \<notin> set p \<Longrightarrow> strip_prefix p (s @ d # t) \<noteq> None \<Longrightarrow> strip_prefix p s \<noteq> None"
  by (induction p s rule: strip_prefix.induct) (auto split: if_splits)

lemma split_first_separator [text_simps]:
  assumes "d \<notin> set p" and "p \<noteq> []" and "split_first p s = None"
  shows "split_first p (s @ d # p @ t) = Some (s @ [d], t)"
  using assms
proof (induction s)
  case Nil
  then have "strip_prefix p (d # p @ t) = None" by (cases p) auto
  moreover have "split_first p (p @ t) = Some ([], t)"
    using Nil.prems(2) by (rule split_first_prefix)
  ultimately show ?case by simp
next
  case (Cons c s)
  then have n: "strip_prefix p (c # s) = None" and s: "split_first p s = None"
    by (auto split: option.splits)
  have "strip_prefix p (c # s @ d # p @ t) = None"
    using strip_prefix_separator [of d p "c # s" "p @ t"] Cons.prems(1) n
    by (cases "strip_prefix p (c # s @ d # p @ t)") auto
  with Cons.IH [OF Cons.prems(1,2) s] show ?case by simp
qed

subsection \<open>Numbers\<close>

text \<open>\<open>parse\<close> for an unsigned type with largest value \<open>m\<close>: an optional plus sign and digits.\<close>

definition parse_unsigned :: "nat \<Rightarrow> string \<Rightarrow> nat option" where
  "parse_unsigned m s =
     (let ds = (case s of [] \<Rightarrow> [] | c # cs \<Rightarrow> if c = CHR ''+'' then cs else s) in
      if ds = [] then None
      else case parse_digits ds 0 of None \<Rightarrow> None | Some n \<Rightarrow> if n \<le> m then Some n else None)"

definition parse_u64 :: "string \<Rightarrow> nat option" where
  "parse_u64 s = parse_unsigned u64_max s"

definition parse_i32 :: "string \<Rightarrow> int option" where
  "parse_i32 s =
     (case parse_i64 s of
        None \<Rightarrow> None
      | Some i \<Rightarrow> if - i32_max - 1 \<le> i \<and> i \<le> i32_max then Some i else None)"

lemma show_int_chars: "c \<in> set (show_int i) \<Longrightarrow> c = CHR ''-'' \<or> (\<exists>d < 10. c = digit_char d)"
  using show_nat_chars by (auto simp: show_int_def split: if_splits)

lemma not_in_show_int:
  assumes "(of_char c :: nat) < 48 \<or> 57 < (of_char c :: nat)" and "c \<noteq> CHR ''-''"
  shows "c \<notin> set (show_int i)"
  using assms show_int_chars [of c i] digit_char_neq by blast

lemma parse_i32_show_int:
  assumes "- i32_max - 1 \<le> i" and "i \<le> i32_max"
  shows "parse_i32 (show_int i) = Some i"
  using assms parse_i64_show_int [of i] by (simp add: parse_i32_def i32_max_def i64_min_def i64_max_def)

text \<open>
  The documented grammar of \<open>f64::from_str\<close>: a sign, then \<open>inf\<close>, \<open>infinity\<close> or \<open>nan\<close> in any case, or
  digits with a fraction and an exponent. The value is rounded to the nearest representable one.
\<close>

definition parse_exponent :: "string \<Rightarrow> int option" where
  "parse_exponent s =
     (case s of
        [] \<Rightarrow> Some 0
      | c # cs \<Rightarrow>
          if c \<noteq> CHR ''e'' then None
          else let neg = (take 1 cs = ''-''); ds = (if take 1 cs \<in> {''-'', ''+''} then tl cs else cs)
               in if ds = [] then None
                  else map_option (\<lambda>n. if neg then - int n else int n) (parse_digits ds 0))"

definition parse_decimal :: "string \<Rightarrow> rat option" where
  "parse_decimal s =
     (let whole = takeWhile is_digit_char s; rest = dropWhile is_digit_char s;
          dotted = (take 1 rest = ''.'');
          frac = (if dotted then takeWhile is_digit_char (tl rest) else []);
          tail = (if dotted then dropWhile is_digit_char (tl rest) else rest)
      in if whole = [] \<and> frac = [] then None
         else case (parse_digits (whole @ frac) 0, parse_exponent tail) of
                (Some n, Some e) \<Rightarrow> Some (of_nat n * 10 powi (e - int (length frac)))
              | _ \<Rightarrow> None)"

definition parse_float :: "string \<Rightarrow> f64 option" where
  "parse_float s =
     (let t = map lower_char s; neg = (take 1 t = ''-'');
          body = (if take 1 t \<in> {''-'', ''+''} then tl t else t)
      in if body \<in> {''inf'', ''infinity''} then Some (if neg then NegInf else Inf)
         else if body = ''nan'' then Some NaN
         else map_option (\<lambda>q. round_f64 (if neg then - q else q)) (parse_decimal body))"

subsection \<open>Ordered maps\<close>

text \<open>
  What the collector needs of a \<open>BTreeMap\<close>: an insertion replaces the value of its key, the size
  counts the keys, and iteration goes through them in order.
\<close>

locale ordered_map =
  fixes mempty :: "'m" and minsert :: "'k::linorder \<Rightarrow> 'v \<Rightarrow> 'm \<Rightarrow> 'm"
    and mget :: "'m \<Rightarrow> 'k \<Rightarrow> 'v option" and mkeys :: "'m \<Rightarrow> 'k list" and inv :: "'m \<Rightarrow> bool"
  assumes inv_empty: "inv mempty"
    and inv_insert: "inv m \<Longrightarrow> inv (minsert k v m)"
    and get_empty: "mget mempty k = None"
    and get_insert: "inv m \<Longrightarrow> mget (minsert k v m) j = (if j = k then Some v else mget m j)"
    and keys_sorted: "inv m \<Longrightarrow> sorted (mkeys m) \<and> distinct (mkeys m)"
    and keys_get: "inv m \<Longrightarrow> k \<in> set (mkeys m) \<longleftrightarrow> mget m k \<noteq> None"
begin

definition collect :: "('k \<times> 'v) list \<Rightarrow> 'm" where
  "collect kvs = fold (\<lambda>(k, v). minsert k v) kvs mempty"

lemma inv_fold: "inv m \<Longrightarrow> inv (fold (\<lambda>(k, v). minsert k v) kvs m)"
  by (induction kvs arbitrary: m) (auto simp: inv_insert)

lemma get_fold:
  "inv m \<Longrightarrow> mget (fold (\<lambda>(k, v). minsert k v) kvs m) j =
     (case map_of (rev kvs) j of Some v \<Rightarrow> Some v | None \<Rightarrow> mget m j)"
  by (induction kvs arbitrary: m)
    (auto simp: inv_insert get_insert map_add_def split: option.splits)

lemma inv_collect: "inv (collect kvs)"
  by (simp add: collect_def inv_fold inv_empty)

lemma get_collect: "mget (collect kvs) j = map_of (rev kvs) j"
  by (simp add: collect_def get_fold inv_empty get_empty split: option.splits)

lemma keys_collect: "set (mkeys (collect kvs)) = fst ` set kvs"
proof -
  have "k \<in> set (mkeys (collect kvs)) \<longleftrightarrow> k \<in> fst ` set kvs" for k
    using keys_get [OF inv_collect, of k kvs]
    by (auto simp: get_collect map_of_eq_None_iff)
  then show ?thesis by blast
qed

lemma keys_collect_sorted: "mkeys (collect kvs) = sorted_list_of_set (fst ` set kvs)"
  using keys_sorted [OF inv_collect, of kvs] keys_collect [of kvs]
  by (simp add: sorted_list_of_set.idem_if_sorted_distinct flip: keys_collect)

end

fun bt_insert :: "'k::linorder \<Rightarrow> 'v \<Rightarrow> ('k \<times> 'v) list \<Rightarrow> ('k \<times> 'v) list" where
  "bt_insert k v [] = [(k, v)]"
| "bt_insert k v ((j, w) # m) =
     (if k < j then (k, v) # (j, w) # m
      else if k = j then (k, v) # m
      else (j, w) # bt_insert k v m)"

definition bt_collect :: "('k::linorder \<times> 'v) list \<Rightarrow> ('k \<times> 'v) list" where
  "bt_collect kvs = fold (\<lambda>(k, v). bt_insert k v) kvs []"

definition bt_inv :: "('k::linorder \<times> 'v) list \<Rightarrow> bool" where
  "bt_inv m = (sorted (map fst m) \<and> distinct (map fst m))"

lemma set_keys_bt_insert: "set (map fst (bt_insert k v m)) = insert k (set (map fst m))"
  by (induction k v m rule: bt_insert.induct) auto

lemma bt_inv_insert: "bt_inv m \<Longrightarrow> bt_inv (bt_insert k v m)"
proof (induction k v m rule: bt_insert.induct)
  case (2 k v j w m)
  have "set (map fst (bt_insert k v m)) = insert k (set (map fst m))"
    by (rule set_keys_bt_insert)
  with 2 show ?case by (auto simp: bt_inv_def image_iff less_le)
qed (simp add: bt_inv_def)

lemma bt_get_insert: "bt_inv m \<Longrightarrow> map_of (bt_insert k v m) j = (if j = k then Some v else map_of m j)"
proof (induction k v m rule: bt_insert.induct)
  case (2 k v i w m)
  then have "k < i \<Longrightarrow> map_of m k = None"
    by (auto simp: bt_inv_def map_of_eq_None_iff)
  with 2 show ?case by (auto simp: bt_inv_def)
qed simp

interpretation bt: ordered_map "[]" bt_insert map_of "map fst" bt_inv
  rewrites "ordered_map.collect [] bt_insert = bt_collect"
proof -
  show om: "ordered_map [] bt_insert map_of (map fst) (bt_inv :: ('k::linorder \<times> 'v) list \<Rightarrow> bool)"
  proof
    show "bt_inv m \<Longrightarrow> k \<in> set (map fst m) \<longleftrightarrow> map_of m k \<noteq> None"
      for m :: "('k \<times> 'v) list" and k
      by (simp add: map_of_eq_None_iff)
  qed (simp_all add: bt_inv_insert bt_get_insert, simp_all add: bt_inv_def)
  show "ordered_map.collect [] bt_insert = (bt_collect :: ('k::linorder \<times> 'v) list \<Rightarrow> _)"
    by (simp add: fun_eq_iff bt_collect_def ordered_map.collect_def [OF om])
qed

end
