(* ===== verification/Collector.thy ===== *)
theory Collector
  imports RustStd "HOL-Library.Monad_Syntax"
begin

text \<open>
  The collection protocol of \<open>backend/src/monitoring.rs\<close>: the fixed profile of actions
  (\<open>host_resource_v1_profile\<close>), the one remote command that runs them all
  (\<open>host_resource_v1_batch_command\<close>), the parser of its output (\<open>parse_host_resource_v1_batch\<close>) and
  one parser per action (\<open>parse_boot_sample\<close> to \<open>parse_process_summary\<close>). A parser that returns
  \<open>Err(())\<close> is an option.
\<close>

subsection \<open>Profile\<close>

datatype metric_family = FCpu | FMemory | FLoad | FDiskCapacity | FDiskIo | FNetwork | FUptime | FProcess

datatype collection_phase = CounterFrameA | CounterFrameB | Snapshot

record fixed_action =
  act_id :: string
  act_family :: metric_family
  act_phase :: collection_phase
  act_command :: string
  act_max_stdout :: nat
  act_max_items :: nat
  act_required :: bool

datatype profile_step = Action fixed_action | LocalDelayMillis nat

definition COUNTER_SAMPLE_DELAY_MILLIS :: nat where
  "COUNTER_SAMPLE_DELAY_MILLIS = 1000"

definition MIN_COUNTER_INTERVAL_SECONDS :: f64 where
  "MIN_COUNTER_INTERVAL_SECONDS = Fin (1 / 2)"

definition MAX_FILESYSTEMS :: nat where "MAX_FILESYSTEMS = 256"
definition MAX_BLOCK_DEVICES :: nat where "MAX_BLOCK_DEVICES = 512"
definition MAX_INTERFACES :: nat where "MAX_INTERFACES = 512"
definition MAX_PROCESS_ENTRIES :: nat where "MAX_PROCESS_ENTRIES = 4096"
definition FILESYSTEM_ACTION_TIMEOUT_SECONDS :: nat where "FILESYSTEM_ACTION_TIMEOUT_SECONDS = 3"
definition PROCESS_ACTION_TIMEOUT_SECONDS :: nat where "PROCESS_ACTION_TIMEOUT_SECONDS = 2"

definition BATCH_BEGIN_MARKER :: string where
  "BATCH_BEGIN_MARKER = ''__NETWORK_ATLAS_HOST_RESOURCE_V1_BEGIN__''"

definition BATCH_END_MARKER :: string where
  "BATCH_END_MARKER = ''__NETWORK_ATLAS_HOST_RESOURCE_V1_END__''"

text \<open>Characters that a string literal of the logic cannot hold.\<close>

abbreviation LF :: string where "LF \<equiv> [CHR 0x0A]"
abbreviation BSL :: string where "BSL \<equiv> [CHR 0x5C]"
abbreviation DQ :: string where "DQ \<equiv> [CHR 0x22]"
abbreviation SQ :: string where "SQ \<equiv> [CHR 0x27]"

definition shell_single_quote :: "string \<Rightarrow> string" where
  "shell_single_quote v =
     SQ @ concat (map (\<lambda>c. if c = CHR 0x27 then SQ @ DQ @ SQ @ DQ @ SQ else [c]) v) @ SQ"

definition BOOT_UPTIME_COMMAND :: string where
  "BOOT_UPTIME_COMMAND =
     ''LC_ALL=C sh -c '' @ SQ @ ''cat /proc/sys/kernel/random/boot_id; cat /proc/uptime'' @ SQ"

definition CPU_STAT_COMMAND :: string where
  "CPU_STAT_COMMAND = ''LC_ALL=C cat /proc/stat''"

definition DISK_IO_COMMAND :: string where
  "DISK_IO_COMMAND = ''LC_ALL=C cat /proc/diskstats''"

definition NETWORK_COMMAND :: string where
  "NETWORK_COMMAND = ''LC_ALL=C cat /proc/net/dev''"

definition NETWORK_IDENTITY_COMMAND :: string where
  "NETWORK_IDENTITY_COMMAND =
     ''LC_ALL=C sh -c '' @ SQ
     @ ''for path in /sys/class/net/*; do [ -e '' @ DQ @ ''$path'' @ DQ @ '' ] || continue; ''
     @ ''name=${path##*/}; ifindex=-; iflink=-; operstate=unknown; speed=-; ''
     @ ''IFS= read -r ifindex < '' @ DQ @ ''$path/ifindex'' @ DQ @ '' || continue; ''
     @ ''IFS= read -r iflink < '' @ DQ @ ''$path/iflink'' @ DQ @ '' || iflink=-; ''
     @ ''IFS= read -r operstate < '' @ DQ @ ''$path/operstate'' @ DQ @ '' || operstate=unknown; ''
     @ ''IFS= read -r speed < '' @ DQ @ ''$path/speed'' @ DQ @ '' || speed=-; ''
     @ ''printf '' @ DQ @ ''%s'' @ BSL @ ''t%s'' @ BSL @ ''t%s'' @ BSL @ ''t%s'' @ BSL @ ''t%s'' @ BSL @ ''n''
     @ DQ @ '' '' @ DQ @ ''$name'' @ DQ @ '' '' @ DQ @ ''$ifindex'' @ DQ @ '' '' @ DQ @ ''$iflink''
     @ DQ @ '' '' @ DQ @ ''$operstate'' @ DQ @ '' '' @ DQ @ ''$speed'' @ DQ @ ''; done'' @ SQ"

definition CPU_ONLINE_COMMAND :: string where
  "CPU_ONLINE_COMMAND =
     ''LC_ALL=C sh -c '' @ SQ
     @ ''if [ -r /sys/devices/system/cpu/online ]; then printf '' @ DQ @ ''list '' @ DQ
     @ ''; cat /sys/devices/system/cpu/online; elif command -v getconf >/dev/null 2>&1; then printf ''
     @ DQ @ ''count '' @ DQ @ ''; getconf _NPROCESSORS_ONLN; else exit 127; fi'' @ SQ"

definition MEMORY_COMMAND :: string where
  "MEMORY_COMMAND = ''LC_ALL=C cat /proc/meminfo''"

definition LOAD_COMMAND :: string where
  "LOAD_COMMAND = ''LC_ALL=C cat /proc/loadavg''"

definition DISK_CAPACITY_COMMAND :: string where
  "DISK_CAPACITY_COMMAND = ''LC_ALL=C df -P -k''"

definition DISK_INODE_COMMAND :: string where
  "DISK_INODE_COMMAND = ''LC_ALL=C df -P -i''"

definition PROCESS_SUMMARY_COMMAND :: string where
  "PROCESS_SUMMARY_COMMAND =
     ''LC_ALL=C sh -c '' @ SQ
     @ ''limit=4096; scanned=0; running=0; blocked=0; zombie=0; raced=0; truncated=0; ''
     @ ''for path in /proc/[0-9]*; do if [ '' @ DQ @ ''$scanned'' @ DQ @ '' -ge '' @ DQ @ ''$limit'' @ DQ
     @ '' ]; then truncated=1; break; fi; if ! IFS= read -r line < '' @ DQ @ ''$path/stat'' @ DQ
     @ ''; then raced=$((raced+1)); continue; fi; rest=${line##*) }; state=${rest%% *}; case '' @ DQ
     @ ''$state'' @ DQ @ '' in R) running=$((running+1));; D) blocked=$((blocked+1));; ''
     @ ''Z) zombie=$((zombie+1));; esac; scanned=$((scanned+1)); done; printf '' @ DQ
     @ ''scanned=%s running=%s blocked=%s zombie=%s raced=%s truncated=%s'' @ BSL @ ''n'' @ DQ
     @ '' '' @ DQ @ ''$scanned'' @ DQ @ '' '' @ DQ @ ''$running'' @ DQ @ '' '' @ DQ @ ''$blocked'' @ DQ
     @ '' '' @ DQ @ ''$zombie'' @ DQ @ '' '' @ DQ @ ''$raced'' @ DQ @ '' '' @ DQ @ ''$truncated'' @ DQ @ SQ"

definition action ::
  "string \<Rightarrow> metric_family \<Rightarrow> collection_phase \<Rightarrow> string \<Rightarrow> nat \<Rightarrow> nat \<Rightarrow> bool \<Rightarrow> profile_step"
where
  "action i f p c m n r =
     Action \<lparr>act_id = i, act_family = f, act_phase = p, act_command = c, act_max_stdout = m,
       act_max_items = n, act_required = r\<rparr>"

definition host_resource_v1_profile :: "profile_step list" where
  "host_resource_v1_profile =
    [action ''frame_a_boot_uptime'' FUptime CounterFrameA BOOT_UPTIME_COMMAND (4 * 1024) 2 True,
     action ''frame_a_cpu'' FCpu CounterFrameA CPU_STAT_COMMAND (256 * 1024) 4096 True,
     action ''frame_a_disk_io'' FDiskIo CounterFrameA DISK_IO_COMMAND (256 * 1024) MAX_BLOCK_DEVICES False,
     action ''frame_a_network'' FNetwork CounterFrameA NETWORK_COMMAND (256 * 1024) MAX_INTERFACES False,
     action ''frame_a_network_identity'' FNetwork CounterFrameA NETWORK_IDENTITY_COMMAND (128 * 1024)
       MAX_INTERFACES False,
     LocalDelayMillis COUNTER_SAMPLE_DELAY_MILLIS,
     action ''frame_b_boot_uptime'' FUptime CounterFrameB BOOT_UPTIME_COMMAND (4 * 1024) 2 True,
     action ''frame_b_cpu'' FCpu CounterFrameB CPU_STAT_COMMAND (256 * 1024) 4096 True,
     action ''frame_b_disk_io'' FDiskIo CounterFrameB DISK_IO_COMMAND (256 * 1024) MAX_BLOCK_DEVICES False,
     action ''frame_b_network'' FNetwork CounterFrameB NETWORK_COMMAND (256 * 1024) MAX_INTERFACES False,
     action ''frame_b_network_identity'' FNetwork CounterFrameB NETWORK_IDENTITY_COMMAND (128 * 1024)
       MAX_INTERFACES False,
     action ''cpu_online'' FCpu Snapshot CPU_ONLINE_COMMAND (4 * 1024) 1 True,
     action ''memory'' FMemory Snapshot MEMORY_COMMAND (64 * 1024) 128 True,
     action ''load'' FLoad Snapshot LOAD_COMMAND (4 * 1024) 1 True,
     action ''disk_capacity'' FDiskCapacity Snapshot DISK_CAPACITY_COMMAND (256 * 1024) MAX_FILESYSTEMS True,
     action ''disk_inodes'' FDiskCapacity Snapshot DISK_INODE_COMMAND (256 * 1024) MAX_FILESYSTEMS False,
     action ''process_summary'' FProcess Snapshot PROCESS_SUMMARY_COMMAND (4 * 1024) MAX_PROCESS_ENTRIES
       False]"

fun step_action :: "profile_step \<Rightarrow> fixed_action option" where
  "step_action (Action a) = Some a"
| "step_action (LocalDelayMillis n) = None"

definition profile_actions :: "fixed_action list" where
  "profile_actions = List.map_filter step_action host_resource_v1_profile"

subsection \<open>The remote command\<close>

definition timed_command :: "nat \<Rightarrow> string \<Rightarrow> string" where
  "timed_command s c =
     ''if command -v timeout >/dev/null 2>&1; then timeout '' @ show_nat s @ '' sh -c ''
     @ shell_single_quote c @ ''; else exit 127; fi''"

definition batch_action_command :: "fixed_action \<Rightarrow> string" where
  "batch_action_command a =
     (if act_id a \<in> {''disk_capacity'', ''disk_inodes''}
        then timed_command FILESYSTEM_ACTION_TIMEOUT_SECONDS (act_command a)
      else if act_id a = ''process_summary''
        then timed_command PROCESS_ACTION_TIMEOUT_SECONDS (act_command a)
      else act_command a)"

text \<open>\<open>format!("{seconds:.3}")\<close> of a whole number of milliseconds.\<close>

definition show_seconds3 :: "nat \<Rightarrow> string" where
  "show_seconds3 ms =
     show_nat (ms div 1000) @ ''.'' @
     map (\<lambda>d. digit_char (d mod 10)) [ms mod 1000 div 100, ms mod 100 div 10, ms mod 10]"

fun batch_step :: "profile_step \<Rightarrow> string" where
  "batch_step (Action a) =
     ''printf '' @ SQ @ ''%s'' @ BSL @ ''n'' @ SQ @ '' '' @ SQ @ BATCH_BEGIN_MARKER @ act_id a @ SQ @ LF
     @ ''exec 3>&1'' @ LF
     @ ''network_atlas_error=$( ( '' @ batch_action_command a @ '' ) 2>&1 1>&3 )'' @ LF
     @ ''network_atlas_rc=$?'' @ LF
     @ ''exec 3>&-'' @ LF
     @ ''case '' @ DQ @ ''$network_atlas_error'' @ DQ
     @ '' in *[Pp]ermission*[Dd]enied*) network_atlas_rc=126 ;; esac'' @ LF
     @ ''printf '' @ SQ @ BSL @ ''n%s:%s'' @ BSL @ ''n'' @ SQ @ '' '' @ SQ @ BATCH_END_MARKER @ act_id a @ SQ
     @ '' '' @ DQ @ ''$network_atlas_rc'' @ DQ @ LF"
| "batch_step (LocalDelayMillis ms) = ''sleep '' @ show_seconds3 ms @ LF"

definition batch_script :: string where
  "batch_script = ''set +e'' @ LF @ concat (map batch_step host_resource_v1_profile)"

definition host_resource_v1_batch_command :: string where
  "host_resource_v1_batch_command = ''LC_ALL=C sh -c '' @ shell_single_quote batch_script"

subsection \<open>Captured output\<close>

datatype metric_quality =
    Observed
  | Unsupported
  | ParseFailed
  | CounterReset
  | CounterUnreliable
  | InsufficientInterval
  | PermissionDenied
  | TimedOut

definition is_observed :: "metric_quality \<Rightarrow> bool" where
  "is_observed q = (q = Observed)"

datatype raw_source = Output string | Unavailable metric_quality

definition default_source :: raw_source where
  "default_source = Unavailable Unsupported"

record counter_frame =
  fr_boot_uptime :: raw_source
  fr_cpu :: raw_source
  fr_disk_io :: raw_source
  fr_network :: raw_source
  fr_network_identity :: raw_source

record host_capture =
  cap_frame_a :: counter_frame
  cap_frame_b :: counter_frame
  cap_cpu_online :: raw_source
  cap_memory :: raw_source
  cap_load :: raw_source
  cap_disk_capacity :: raw_source
  cap_disk_inodes :: raw_source
  cap_process_summary :: raw_source

definition default_frame :: counter_frame where
  "default_frame = \<lparr>fr_boot_uptime = default_source, fr_cpu = default_source,
     fr_disk_io = default_source, fr_network = default_source, fr_network_identity = default_source\<rparr>"

definition default_capture :: host_capture where
  "default_capture = \<lparr>cap_frame_a = default_frame, cap_frame_b = default_frame,
     cap_cpu_online = default_source, cap_memory = default_source, cap_load = default_source,
     cap_disk_capacity = default_source, cap_disk_inodes = default_source,
     cap_process_summary = default_source\<rparr>"

definition set_action :: "string \<Rightarrow> raw_source \<Rightarrow> host_capture \<Rightarrow> string + host_capture" where
  "set_action i s c =
     (if i = ''frame_a_boot_uptime'' then Inr (c\<lparr>cap_frame_a := (cap_frame_a c)\<lparr>fr_boot_uptime := s\<rparr>\<rparr>)
      else if i = ''frame_a_cpu'' then Inr (c\<lparr>cap_frame_a := (cap_frame_a c)\<lparr>fr_cpu := s\<rparr>\<rparr>)
      else if i = ''frame_a_disk_io'' then Inr (c\<lparr>cap_frame_a := (cap_frame_a c)\<lparr>fr_disk_io := s\<rparr>\<rparr>)
      else if i = ''frame_a_network'' then Inr (c\<lparr>cap_frame_a := (cap_frame_a c)\<lparr>fr_network := s\<rparr>\<rparr>)
      else if i = ''frame_a_network_identity''
        then Inr (c\<lparr>cap_frame_a := (cap_frame_a c)\<lparr>fr_network_identity := s\<rparr>\<rparr>)
      else if i = ''frame_b_boot_uptime'' then Inr (c\<lparr>cap_frame_b := (cap_frame_b c)\<lparr>fr_boot_uptime := s\<rparr>\<rparr>)
      else if i = ''frame_b_cpu'' then Inr (c\<lparr>cap_frame_b := (cap_frame_b c)\<lparr>fr_cpu := s\<rparr>\<rparr>)
      else if i = ''frame_b_disk_io'' then Inr (c\<lparr>cap_frame_b := (cap_frame_b c)\<lparr>fr_disk_io := s\<rparr>\<rparr>)
      else if i = ''frame_b_network'' then Inr (c\<lparr>cap_frame_b := (cap_frame_b c)\<lparr>fr_network := s\<rparr>\<rparr>)
      else if i = ''frame_b_network_identity''
        then Inr (c\<lparr>cap_frame_b := (cap_frame_b c)\<lparr>fr_network_identity := s\<rparr>\<rparr>)
      else if i = ''cpu_online'' then Inr (c\<lparr>cap_cpu_online := s\<rparr>)
      else if i = ''memory'' then Inr (c\<lparr>cap_memory := s\<rparr>)
      else if i = ''load'' then Inr (c\<lparr>cap_load := s\<rparr>)
      else if i = ''disk_capacity'' then Inr (c\<lparr>cap_disk_capacity := s\<rparr>)
      else if i = ''disk_inodes'' then Inr (c\<lparr>cap_disk_inodes := s\<rparr>)
      else if i = ''process_summary'' then Inr (c\<lparr>cap_process_summary := s\<rparr>)
      else Inl ''unknown host_resource_v1 action id'')"

definition action_exit_quality :: "int \<Rightarrow> metric_quality" where
  "action_exit_quality code =
     (if code = 124 then TimedOut
      else if code = 126 then PermissionDenied
      else if code = 127 then Unsupported
      else Unsupported)"

definition action_source :: "fixed_action \<Rightarrow> int \<Rightarrow> string \<Rightarrow> raw_source" where
  "action_source a code out =
     (if code \<noteq> 0 then Unavailable (action_exit_quality code)
      else if act_max_stdout a < length out then Unavailable ParseFailed
      else Output out)"

definition line_end_char :: "char \<Rightarrow> bool" where
  "line_end_char c = (c = CHR 0x0D \<or> c = CHR 0x0A)"

definition first_line :: "string \<Rightarrow> string \<times> string" where
  "first_line s = (case split_once (CHR 0x0A) s of Some p \<Rightarrow> p | None \<Rightarrow> (s, []))"

text \<open>One action of the batch output: its identifier, its source and the text after its end line.\<close>

definition batch_section :: "string \<Rightarrow> string list \<Rightarrow> string + string \<times> raw_source \<times> string" where
  "batch_section s seen =
     and_then (ok_or ''unexpected output outside host_resource_v1 markers''
       (strip_prefix BATCH_BEGIN_MARKER s)) (\<lambda>after_begin.
     and_then (ok_or ''unterminated host_resource_v1 begin marker'' (split_once (CHR 0x0A) after_begin))
       (\<lambda>(action_id, body).
     if action_id = [] \<or> action_id \<in> set seen
     then Inl ''invalid or duplicate host_resource_v1 begin marker''
     else
     and_then (ok_or ''unterminated host_resource_v1 action output'' (split_first BATCH_END_MARKER body))
       (\<lambda>(raw, end_tail).
     let output = trim_where line_end_char raw;
         (end_line, rest) = first_line end_tail
     in and_then (ok_or ''invalid host_resource_v1 end marker'' (rsplit_once (CHR '':'') end_line))
       (\<lambda>(end_action, code_text).
     and_then (ok_or ''invalid host_resource_v1 action exit code'' (parse_i32 code_text)) (\<lambda>exit_code.
     if action_id \<noteq> end_action then Inl ''host_resource_v1 action markers do not match''
     else
     and_then (ok_or ''unknown host_resource_v1 action''
       (find (\<lambda>a. act_id a = action_id) profile_actions)) (\<lambda>a.
     Inr (action_id, action_source a exit_code output, rest)))))))"

lemma length_strip_prefix: "strip_prefix p s = Some t \<Longrightarrow> length s = length p + length t"
  by (simp add: strip_prefix_Some)

lemma length_split_once: "split_once d s = Some (a, b) \<Longrightarrow> length b < length s"
proof -
  assume a: "split_once d s = Some (a, b)"
  then have "dropWhile (\<lambda>c. c \<noteq> d) s \<noteq> []" and b: "b = tl (dropWhile (\<lambda>c. c \<noteq> d) s)"
    by (auto simp: split_once_def dropWhile_eq_Nil_conv split: if_splits)
  then have "length b < length (dropWhile (\<lambda>c. c \<noteq> d) s)"
    by (cases "dropWhile (\<lambda>c. c \<noteq> d) s") simp_all
  with length_dropWhile_le [of "\<lambda>c. c \<noteq> d" s] show ?thesis by linarith
qed

lemma length_split_first: "split_first p s = Some (a, b) \<Longrightarrow> length b \<le> length s"
  by (induction p s arbitrary: a b rule: split_first.induct)
    (fastforce dest: length_strip_prefix split: if_splits option.splits)+

lemma batch_section_shorter:
  assumes "batch_section s seen = Inr (i, r, t)"
  shows "length t < length s"
proof -
  from assms obtain sb body raw tl' where
    "strip_prefix BATCH_BEGIN_MARKER s = Some sb" "split_once (CHR 0x0A) sb = Some (i, body)"
    "split_first BATCH_END_MARKER body = Some (raw, tl')"
    "t = snd (first_line tl')"
    by (auto simp: batch_section_def Let_def case_prod_beta split: if_splits)
  then show ?thesis
    using length_strip_prefix [of BATCH_BEGIN_MARKER s sb] length_split_once [of "CHR 0x0A" sb i body]
      length_split_first [of BATCH_END_MARKER body raw tl'] length_split_once [of "CHR 0x0A" tl']
    by (auto simp: first_line_def split: option.splits)
qed

function batch_loop :: "string \<Rightarrow> string list \<Rightarrow> host_capture \<Rightarrow> string + string list \<times> host_capture" where
  "batch_loop s seen cap =
     (let s' = dropWhile ascii_white_space s
      in if s' = [] then Inr (seen, cap)
         else case batch_section s' seen of
                Inl e \<Rightarrow> Inl e
              | Inr (i, source, rest) \<Rightarrow>
                  (case set_action i source cap of
                     Inl e \<Rightarrow> Inl e
                   | Inr cap' \<Rightarrow> batch_loop rest (i # seen) cap'))"
  by pat_completeness auto
termination
proof (relation "measure (\<lambda>(s, _, _). length s)", simp)
  fix s seen cap s' p i source rest y cap'
  assume "s' = dropWhile ascii_white_space s" "batch_section s' seen = Inr p" "(i, y) = p"
    "(source, rest) = y"
  then have "length rest < length (dropWhile ascii_white_space s)"
    using batch_section_shorter [of s' seen i source rest] by auto
  then show "((rest, i # seen, cap'), s, seen, cap) \<in> measure (\<lambda>(s, _, _). length s)"
    using length_dropWhile_le [of ascii_white_space s] by simp
qed

declare batch_loop.simps [simp del]

definition parse_host_resource_v1_batch :: "string \<Rightarrow> string + host_capture" where
  "parse_host_resource_v1_batch stdout =
     and_then (batch_loop stdout [] default_capture) (\<lambda>(seen, cap).
       if length seen \<noteq> length profile_actions
       then Inl ''host_resource_v1 batch omitted a fixed action''
       else Inr cap)"

subsection \<open>What the remote shell prints comes back\<close>

text \<open>
  The output of the batch script when action \<open>a\<close> wrote \<open>out\<close> and ended with \<open>rc\<close>: the two \<open>printf\<close>
  lines of \<open>batch_step\<close> around the standard output of the action.
\<close>

definition printed_action :: "fixed_action \<Rightarrow> string \<times> int \<Rightarrow> string" where
  "printed_action a = (\<lambda>(out, rc).
     BATCH_BEGIN_MARKER @ act_id a @ LF @ out @ LF @ BATCH_END_MARKER @ act_id a @ '':'' @ show_int rc @ LF)"

definition printed_batch :: "(string \<Rightarrow> string \<times> int) \<Rightarrow> string" where
  "printed_batch outs = concat (map (\<lambda>a. printed_action a (outs (act_id a))) profile_actions)"

definition captured_source :: "fixed_action \<Rightarrow> string \<times> int \<Rightarrow> raw_source" where
  "captured_source a = (\<lambda>(out, rc). action_source a rc (trim_where line_end_char out))"

definition get_action :: "string \<Rightarrow> host_capture \<Rightarrow> raw_source option" where
  "get_action i c =
     (if i = ''frame_a_boot_uptime'' then Some (fr_boot_uptime (cap_frame_a c))
      else if i = ''frame_a_cpu'' then Some (fr_cpu (cap_frame_a c))
      else if i = ''frame_a_disk_io'' then Some (fr_disk_io (cap_frame_a c))
      else if i = ''frame_a_network'' then Some (fr_network (cap_frame_a c))
      else if i = ''frame_a_network_identity'' then Some (fr_network_identity (cap_frame_a c))
      else if i = ''frame_b_boot_uptime'' then Some (fr_boot_uptime (cap_frame_b c))
      else if i = ''frame_b_cpu'' then Some (fr_cpu (cap_frame_b c))
      else if i = ''frame_b_disk_io'' then Some (fr_disk_io (cap_frame_b c))
      else if i = ''frame_b_network'' then Some (fr_network (cap_frame_b c))
      else if i = ''frame_b_network_identity'' then Some (fr_network_identity (cap_frame_b c))
      else if i = ''cpu_online'' then Some (cap_cpu_online c)
      else if i = ''memory'' then Some (cap_memory c)
      else if i = ''load'' then Some (cap_load c)
      else if i = ''disk_capacity'' then Some (cap_disk_capacity c)
      else if i = ''disk_inodes'' then Some (cap_disk_inodes c)
      else if i = ''process_summary'' then Some (cap_process_summary c)
      else None)"

lemma profile_ids:
  "map act_id profile_actions =
     [''frame_a_boot_uptime'', ''frame_a_cpu'', ''frame_a_disk_io'', ''frame_a_network'',
      ''frame_a_network_identity'', ''frame_b_boot_uptime'', ''frame_b_cpu'', ''frame_b_disk_io'',
      ''frame_b_network'', ''frame_b_network_identity'', ''cpu_online'', ''memory'', ''load'',
      ''disk_capacity'', ''disk_inodes'', ''process_summary'']"
  by (simp add: profile_actions_def host_resource_v1_profile_def action_def map_filter_simps)

lemma profile_ids_distinct: "distinct (map act_id profile_actions)"
  unfolding profile_ids by simp

lemma profile_id_text:
  "a \<in> set profile_actions \<Longrightarrow> act_id a \<noteq> [] \<and> CHR 0x0A \<notin> set (act_id a)"
proof -
  have "\<forall>i \<in> set (map act_id profile_actions). i \<noteq> [] \<and> CHR 0x0A \<notin> set i"
    unfolding profile_ids by simp
  then show "a \<in> set profile_actions \<Longrightarrow> ?thesis" by simp
qed

lemma find_key: "distinct (map f xs) \<Longrightarrow> x \<in> set xs \<Longrightarrow> find (\<lambda>y. f y = f x) xs = Some x"
  by (induction xs) (auto simp: image_iff)

lemma profile_find: "a \<in> set profile_actions \<Longrightarrow> find (\<lambda>b. act_id b = act_id a) profile_actions = Some a"
  using find_key [OF profile_ids_distinct] .

lemma set_action_get:
  assumes "i \<in> set (map act_id profile_actions)"
  shows "\<exists>c'. set_action i s c = Inr c' \<and> get_action i c' = Some s
     \<and> (\<forall>j. j \<noteq> i \<longrightarrow> get_action j c' = get_action j c)"
  using assms unfolding profile_ids list.set insert_iff empty_iff
  by (elim disjE FalseE; hypsubst; simp add: set_action_def get_action_def cong: if_cong)

lemma marker_no_newline: "CHR 0x0A \<notin> set BATCH_END_MARKER" "BATCH_END_MARKER \<noteq> []"
  by (simp_all add: BATCH_END_MARKER_def)

lemma batch_section_printed:
  assumes a: "a \<in> set profile_actions" and seen: "act_id a \<notin> set seen"
    and out: "split_first BATCH_END_MARKER out = None"
    and rc: "- i32_max - 1 \<le> rc" "rc \<le> i32_max"
  shows "batch_section (printed_action a (out, rc) @ rest) seen
    = Inr (act_id a, captured_source a (out, rc), rest)"
proof -
  let ?tail = "act_id a @ CHR '':'' # show_int rc @ CHR 0x0A # rest"
  have i: "act_id a \<noteq> []" "CHR 0x0A \<notin> set (act_id a)" using profile_id_text [OF a] by auto
  have nl: "CHR 0x0A \<notin> set (show_int rc)" and co: "CHR '':'' \<notin> set (show_int rc)"
    by (rule not_in_show_int; simp)+
  have raw: "split_first BATCH_END_MARKER (out @ CHR 0x0A # BATCH_END_MARKER @ ?tail)
      = Some (out @ LF, ?tail)"
    using split_first_separator [OF marker_no_newline out] .
  have line: "first_line ?tail = (act_id a @ CHR '':'' # show_int rc, rest)"
    using split_once_append [of "CHR 0x0A" "act_id a @ CHR '':'' # show_int rc" rest] i nl
    by (simp add: first_line_def)
  have id_line: "split_once (CHR 0x0A) (act_id a @ CHR 0x0A # out @ CHR 0x0A # BATCH_END_MARKER @ ?tail)
      = Some (act_id a, out @ CHR 0x0A # BATCH_END_MARKER @ ?tail)"
    by (rule split_once_append [OF i(2)])
  show ?thesis
    using i seen profile_find [OF a] parse_i32_show_int [OF rc]
    by (simp add: batch_section_def printed_action_def captured_source_def id_line raw line
        rsplit_once_append [OF co] trim_where_snoc line_end_char_def)
qed

lemma printed_action_start: "dropWhile ascii_white_space (printed_action a p @ rest) = printed_action a p @ rest"
  by (cases p) (simp add: printed_action_def BATCH_BEGIN_MARKER_def ascii_white_space_def)

lemma batch_loop_printed:
  assumes "set as \<subseteq> set profile_actions" and "distinct (map act_id as)"
    and "set (map act_id as) \<inter> set seen = {}"
    and "\<And>a. a \<in> set as \<Longrightarrow> split_first BATCH_END_MARKER (fst (outs (act_id a))) = None
       \<and> - i32_max - 1 \<le> snd (outs (act_id a)) \<and> snd (outs (act_id a)) \<le> i32_max"
  shows "\<exists>c'. batch_loop (concat (map (\<lambda>a. printed_action a (outs (act_id a))) as)) seen c
       = Inr (rev (map act_id as) @ seen, c')
     \<and> (\<forall>a \<in> set as. get_action (act_id a) c' = Some (captured_source a (outs (act_id a))))
     \<and> (\<forall>j. j \<notin> act_id ` set as \<longrightarrow> get_action j c' = get_action j c)"
  using assms
proof (induction as arbitrary: seen c)
  case Nil
  then show ?case by (simp add: batch_loop.simps)
next
  case (Cons a as)
  let ?rest = "concat (map (\<lambda>a. printed_action a (outs (act_id a))) as)"
  obtain out rc where o: "outs (act_id a) = (out, rc)" by (cases "outs (act_id a)")
  have a: "a \<in> set profile_actions" using Cons.prems(1) by simp
  have sec: "batch_section (printed_action a (out, rc) @ ?rest) seen
      = Inr (act_id a, captured_source a (out, rc), ?rest)"
    using Cons.prems(3) Cons.prems(4) [of a] o by (intro batch_section_printed [OF a]) auto
  obtain c1 where c1: "set_action (act_id a) (captured_source a (out, rc)) c = Inr c1"
      "get_action (act_id a) c1 = Some (captured_source a (out, rc))"
      "\<And>j. j \<noteq> act_id a \<Longrightarrow> get_action j c1 = get_action j c"
    using set_action_get [of "act_id a" "captured_source a (out, rc)" c] a by auto
  have ne: "printed_action a (out, rc) @ ?rest \<noteq> []"
    by (simp add: printed_action_def BATCH_BEGIN_MARKER_def)
  have step: "batch_loop (printed_action a (out, rc) @ ?rest) seen c = batch_loop ?rest (act_id a # seen) c1"
    by (subst batch_loop.simps) (simp only: printed_action_start Let_def ne if_False sec sum.case prod.case c1)
  obtain c2 where c2: "batch_loop ?rest (act_id a # seen) c1 = Inr (rev (map act_id as) @ act_id a # seen, c2)"
      "\<forall>b \<in> set as. get_action (act_id b) c2 = Some (captured_source b (outs (act_id b)))"
      "\<forall>j. j \<notin> act_id ` set as \<longrightarrow> get_action j c2 = get_action j c1"
    using Cons.IH [of "act_id a # seen" c1] Cons.prems by auto
  have "act_id a \<notin> act_id ` set as" using Cons.prems(2) by simp
  then have "get_action (act_id a) c2 = Some (captured_source a (outs (act_id a)))"
    using c2(3) c1(2) o by simp
  with c1(3) c2 show ?case by (auto simp: step o)
qed

text \<open>
  C28. When the remote shell runs every action and no output contains the end marker, the parser
  recovers for each action its exit code and its standard output without surrounding line ends, and
  reports the source accordingly: no action leaks into another.
\<close>

theorem batch_roundtrip:
  assumes "\<And>a. a \<in> set profile_actions \<Longrightarrow>
      split_first BATCH_END_MARKER (fst (outs (act_id a))) = None
      \<and> - i32_max - 1 \<le> snd (outs (act_id a)) \<and> snd (outs (act_id a)) \<le> i32_max"
  shows "\<exists>c. parse_host_resource_v1_batch (printed_batch outs) = Inr c
     \<and> (\<forall>a \<in> set profile_actions. get_action (act_id a) c = Some (captured_source a (outs (act_id a))))"
proof -
  obtain c where c: "batch_loop (printed_batch outs) [] default_capture
        = Inr (rev (map act_id profile_actions), c)"
      "\<forall>a \<in> set profile_actions. get_action (act_id a) c = Some (captured_source a (outs (act_id a)))"
    using batch_loop_printed [OF _ profile_ids_distinct, where seen = "[]" and c = default_capture
        and outs = outs] assms
    unfolding printed_batch_def by auto
  then show ?thesis by (simp add: parse_host_resource_v1_batch_def)
qed

theorem batch_roundtrip_witness:
  "\<exists>c. parse_host_resource_v1_batch (printed_batch (\<lambda>_. (''ok'', 0))) = Inr c
     \<and> get_action ''memory'' c = Some (Output ''ok'')"
proof -
  obtain c where c: "parse_host_resource_v1_batch (printed_batch (\<lambda>_. (''ok'', 0))) = Inr c"
      "\<forall>a \<in> set profile_actions. get_action (act_id a) c = Some (captured_source a (''ok'', 0))"
    using batch_roundtrip [of "\<lambda>_. (''ok'', 0)"]
    by (auto simp: i32_max_def BATCH_END_MARKER_def)
  have "\<exists>a \<in> set profile_actions. act_id a = ''memory'' \<and> act_max_stdout a = 64 * 1024"
    by (simp add: profile_actions_def host_resource_v1_profile_def action_def map_filter_simps)
  with c(2) have "get_action ''memory'' c = Some (Output ''ok'')"
    by (force simp: captured_source_def action_source_def trim_where_def line_end_char_def)
  with c(1) show ?thesis by blast
qed

end
