(* ===== verification/HostParsers.thy ===== *)
theory HostParsers
  imports Collector
begin

text \<open>
  The parsers of \<open>backend/src/monitoring.rs\<close>, one per remote action, from \<open>parse_boot_sample\<close> to
  \<open>parse_process_summary\<close>, and the records they fill. \<open>Err(())\<close> is \<open>None\<close>. A \<open>BTreeMap\<close> is an
  association list in key order (\<open>bt_insert\<close>).
\<close>

subsection \<open>Parsed values\<close>

record boot_sample =
  bs_boot_id :: string
  bs_uptime_seconds :: f64

record cpu_ticks =
  ct_user :: nat
  ct_nice :: nat
  ct_system :: nat
  ct_idle :: nat
  ct_iowait :: nat
  ct_irq :: nat
  ct_softirq :: nat
  ct_steal :: nat

record cpu_frame =
  cf_aggregate :: cpu_ticks
  cf_per_cpu :: "(string \<times> cpu_ticks) list"

record memory_metrics =
  mm_total_kib :: nat
  mm_available_kib :: "nat option"
  mm_used_kib :: "nat option"
  mm_swap_total_kib :: "nat option"
  mm_swap_free_kib :: "nat option"
  mm_cached_kib :: "nat option"
  mm_buffers_kib :: "nat option"
  mm_slab_kib :: "nat option"
  mm_derived_quality :: metric_quality

record load_metrics =
  lm_load1 :: f64
  lm_load5 :: f64
  lm_load15 :: f64
  lm_runnable :: nat
  lm_total_entities :: nat
  lm_online_cpu_count :: "nat option"
  lm_normalized1 :: "f64 option"
  lm_normalized5 :: "f64 option"
  lm_normalized15 :: "f64 option"
  lm_normalized_quality :: metric_quality

record df_row =
  df_source :: string
  df_mount :: string
  df_total :: nat
  df_used :: nat
  df_available :: nat

record disk_counters =
  dk_major :: nat
  dk_minor :: nat
  dk_name :: string
  dk_reads :: nat
  dk_read_sectors :: nat
  dk_read_ms :: nat
  dk_writes :: nat
  dk_write_sectors :: nat
  dk_write_ms :: nat
  dk_io_ms :: nat
  dk_weighted_io_ms :: nat

record network_counters =
  nc_rx_bytes :: nat
  nc_rx_packets :: nat
  nc_rx_errors :: nat
  nc_rx_drops :: nat
  nc_tx_bytes :: nat
  nc_tx_packets :: nat
  nc_tx_errors :: nat
  nc_tx_drops :: nat

record interface_identity =
  ii_ifindex :: nat
  ii_iflink :: "nat option"
  ii_operstate :: string
  ii_speed_mbps :: "nat option"

record process_counts =
  ps_scanned :: nat
  ps_running :: nat
  ps_blocked :: nat
  ps_zombie :: nat
  ps_raced :: nat
  ps_truncated :: bool

subsection \<open>Helpers\<close>

definition parse_f64 :: "string \<Rightarrow> f64 option" where
  "parse_f64 s =
     do {
       v \<leftarrow> parse_float s;
       if f_is_finite v then Some v else None
     }"

definition parse_optional_positive :: "string \<Rightarrow> nat option" where
  "parse_optional_positive s =
     (case parse_u32 s of None \<Rightarrow> None | Some v \<Rightarrow> if 0 < v then Some v else None)"

definition parse_u32_field :: "string option \<Rightarrow> nat option" where
  "parse_u32_field v = Option.bind v parse_u32"

definition cpu_total :: "cpu_ticks \<Rightarrow> nat option" where
  "cpu_total t =
     fold (\<lambda>v acc. Option.bind acc (\<lambda>a. checked_add64 a v))
       [ct_user t, ct_nice t, ct_system t, ct_idle t, ct_iowait t, ct_irq t, ct_softirq t, ct_steal t]
       (Some 0)"

subsection \<open>Boot and processor\<close>

definition parse_boot_sample :: "string \<Rightarrow> boot_sample option" where
  "parse_boot_sample output =
     (let ls = filter (\<lambda>l. l \<noteq> []) (map trim (lines output))
      in do {
        boot_id \<leftarrow> first ls;
        if 128 < length boot_id
           \<or> \<not> list_all (\<lambda>c. is_alnum_char c \<or> c = CHR ''-'' \<or> c = CHR ''_'') boot_id
        then None
        else do {
          uptime_line \<leftarrow> first (tl ls);
          word \<leftarrow> first (split_whitespace uptime_line);
          uptime \<leftarrow> parse_f64 word;
          if f_lt uptime (Fin 0) then None
          else Some \<lparr>bs_boot_id = boot_id, bs_uptime_seconds = uptime\<rparr>
        }
      })"

definition is_cpu_name :: "string \<Rightarrow> bool" where
  "is_cpu_name name =
     (name = ''cpu''
      \<or> (case strip_prefix ''cpu'' name of
           None \<Rightarrow> False
         | Some suffix \<Rightarrow> suffix \<noteq> [] \<and> list_all is_digit_char suffix))"

definition cpu_ticks_of :: "string list \<Rightarrow> cpu_ticks option" where
  "cpu_ticks_of ws =
     (if length ws < 8 then None
      else map_option
        (\<lambda>v. \<lparr>ct_user = v ! 0, ct_nice = v ! 1, ct_system = v ! 2, ct_idle = v ! 3, ct_iowait = v ! 4,
           ct_irq = v ! 5, ct_softirq = v ! 6, ct_steal = v ! 7\<rparr>)
        (those (map parse_u64 (take 8 ws))))"

fun proc_stat_lines ::
  "string list \<Rightarrow> cpu_ticks option \<Rightarrow> (string \<times> cpu_ticks) list
     \<Rightarrow> (cpu_ticks option \<times> (string \<times> cpu_ticks) list) option"
where
  "proc_stat_lines [] aggregate per_cpu = Some (aggregate, per_cpu)"
| "proc_stat_lines (line # ls) aggregate per_cpu =
     (case split_whitespace line of
        [] \<Rightarrow> proc_stat_lines ls aggregate per_cpu
      | name # ws \<Rightarrow>
          if \<not> is_cpu_name name then proc_stat_lines ls aggregate per_cpu
          else do {
            ticks \<leftarrow> cpu_ticks_of ws;
            total \<leftarrow> cpu_total ticks;
            if name = ''cpu'' then proc_stat_lines ls (Some ticks) per_cpu
            else proc_stat_lines ls aggregate (bt_insert name ticks per_cpu)
          })"

definition parse_proc_stat :: "string \<Rightarrow> cpu_frame option" where
  "parse_proc_stat output =
     do {
       (aggregate, per_cpu) \<leftarrow> proc_stat_lines (lines output) None [];
       ticks \<leftarrow> aggregate;
       Some \<lparr>cf_aggregate = ticks, cf_per_cpu = per_cpu\<rparr>
     }"

text \<open>
  One range of a processor list. \<open>end - start + 1\<close> is \<open>u32\<close> arithmetic; a release build wraps, so the
  full range \<open>0-4294967295\<close> counts zero processors (a debug build stops there).
\<close>

definition online_range :: "string \<Rightarrow> nat option" where
  "online_range part =
     (let range = split_on CHR ''-'' (trim part)
      in do {
        start \<leftarrow> parse_u32 (range ! 0);
        stop \<leftarrow> (if length range < 2 then Some start else parse_u32 (range ! 1));
        if 2 < length range \<or> stop < start then None
        else Some ((stop - start + 1) mod (u32_max + 1))
      })"

fun online_ranges :: "string list \<Rightarrow> nat \<Rightarrow> nat option" where
  "online_ranges [] count = Some count"
| "online_ranges (part # parts) count =
     do {
       n \<leftarrow> online_range part;
       if count + n \<le> u32_max then online_ranges parts (count + n) else None
     }"

definition parse_online_cpu_count :: "string \<Rightarrow> nat option" where
  "parse_online_cpu_count output =
     (let text = trim output;
          (kind, value) = (case split_once (CHR '' '') text of Some p \<Rightarrow> p | None \<Rightarrow> (''legacy'', text))
      in if kind = ''count''
         then do { count \<leftarrow> parse_u32 value; if 0 < count then Some count else None }
         else if kind \<noteq> ''list'' \<and> kind \<noteq> ''legacy'' then None
         else if kind = ''legacy'' \<and> parse_optional_positive value \<noteq> None
         then parse_optional_positive value
         else do {
           count \<leftarrow> online_ranges (split_on CHR '','' value) 0;
           if 0 < count then Some count else None
         })"

subsection \<open>Memory and load\<close>

fun memory_lines :: "string list \<Rightarrow> (string \<times> nat) list \<Rightarrow> (string \<times> nat) list option" where
  "memory_lines [] values = Some values"
| "memory_lines (line # ls) values =
     (case split_once CHR '':'' line of
        None \<Rightarrow> memory_lines ls values
      | Some (key, raw) \<Rightarrow>
          do {
            word \<leftarrow> first (split_whitespace raw);
            value \<leftarrow> parse_u64 word;
            if first (tl (split_whitespace raw)) \<notin> {None, Some ''kB''} then None
            else memory_lines ls (bt_insert (trim key) value values)
          })"

definition parse_memory :: "string \<Rightarrow> memory_metrics option" where
  "parse_memory output =
     do {
       values \<leftarrow> memory_lines (lines output) [];
       total \<leftarrow> map_of values ''MemTotal'';
       let available = map_of values ''MemAvailable'';
       if (case available of None \<Rightarrow> False | Some v \<Rightarrow> total < v) then None
       else Some \<lparr>mm_total_kib = total, mm_available_kib = available,
         mm_used_kib = map_option (\<lambda>v. total - v) available,
         mm_swap_total_kib = map_of values ''SwapTotal'', mm_swap_free_kib = map_of values ''SwapFree'',
         mm_cached_kib = map_of values ''Cached'', mm_buffers_kib = map_of values ''Buffers'',
         mm_slab_kib = map_of values ''Slab'',
         mm_derived_quality = (if available \<noteq> None then Observed else Unsupported)\<rparr>
     }"

definition parse_load :: "string \<Rightarrow> load_metrics option" where
  "parse_load output =
     (let ws = split_whitespace output
      in if length ws < 4 then None
         else do {
           load1 \<leftarrow> parse_f64 (ws ! 0);
           load5 \<leftarrow> parse_f64 (ws ! 1);
           load15 \<leftarrow> parse_f64 (ws ! 2);
           (runnable, total) \<leftarrow> split_once CHR ''/'' (ws ! 3);
           runnable' \<leftarrow> parse_u64 runnable;
           total' \<leftarrow> parse_u64 total;
           Some \<lparr>lm_load1 = load1, lm_load5 = load5, lm_load15 = load15, lm_runnable = runnable',
             lm_total_entities = total', lm_online_cpu_count = None, lm_normalized1 = None,
             lm_normalized5 = None, lm_normalized15 = None, lm_normalized_quality = Unsupported\<rparr>
         })"

subsection \<open>Disks\<close>

definition parse_df_row :: "string \<Rightarrow> df_row option" where
  "parse_df_row line =
     (let ws = split_whitespace line
      in if length ws < 6 then None
         else do {
           total \<leftarrow> parse_u64 (ws ! 1);
           used \<leftarrow> parse_u64 (ws ! 2);
           available \<leftarrow> parse_u64 (ws ! 3);
           Some \<lparr>df_source = ws ! 0, df_mount = join_with '' '' (drop 5 ws), df_total = total,
             df_used = used, df_available = available\<rparr>
         })"

definition parse_diskstats_row :: "string \<Rightarrow> disk_counters option" where
  "parse_diskstats_row line =
     (let ws = split_whitespace line
      in if length ws < 14 then None
         else do {
           major \<leftarrow> parse_u32 (ws ! 0);
           minor \<leftarrow> parse_u32 (ws ! 1);
           reads \<leftarrow> parse_u64 (ws ! 3);
           read_sectors \<leftarrow> parse_u64 (ws ! 5);
           read_ms \<leftarrow> parse_u64 (ws ! 6);
           writes \<leftarrow> parse_u64 (ws ! 7);
           write_sectors \<leftarrow> parse_u64 (ws ! 9);
           write_ms \<leftarrow> parse_u64 (ws ! 10);
           io_ms \<leftarrow> parse_u64 (ws ! 12);
           weighted \<leftarrow> parse_u64 (ws ! 13);
           Some \<lparr>dk_major = major, dk_minor = minor, dk_name = ws ! 2, dk_reads = reads,
             dk_read_sectors = read_sectors, dk_read_ms = read_ms, dk_writes = writes,
             dk_write_sectors = write_sectors, dk_write_ms = write_ms, dk_io_ms = io_ms,
             dk_weighted_io_ms = weighted\<rparr>
         })"

text \<open>A bounded loop that parses every line and keeps the rows in order.\<close>

fun bounded_rows :: "nat \<Rightarrow> (string \<Rightarrow> 'r option) \<Rightarrow> string list \<Rightarrow> 'r list \<Rightarrow> 'r list option" where
  "bounded_rows m f [] rows = Some rows"
| "bounded_rows m f (line # ls) rows =
     (if m \<le> length rows then None
      else do { row \<leftarrow> f line; bounded_rows m f ls (rows @ [row]) })"

definition non_empty :: "'r list \<Rightarrow> 'r list option" where
  "non_empty rows = (if rows = [] then None else Some rows)"

definition parse_df :: "nat \<Rightarrow> string \<Rightarrow> df_row list option" where
  "parse_df max_items output =
     (let ls = filter (\<lambda>l. \<not> is_blank l) (lines output)
      in do {
        header \<leftarrow> first ls;
        if \<not> text_contains ''filesystem'' (map lower_char header) then None
        else do { rows \<leftarrow> bounded_rows max_items parse_df_row (tl ls) []; non_empty rows }
      })"

definition parse_diskstats :: "nat \<Rightarrow> string \<Rightarrow> disk_counters list option" where
  "parse_diskstats max_items output =
     do {
       devices \<leftarrow> bounded_rows max_items parse_diskstats_row (filter (\<lambda>l. \<not> is_blank l) (lines output)) [];
       non_empty devices
     }"

subsection \<open>Network\<close>

definition network_counters_of :: "string list \<Rightarrow> network_counters option" where
  "network_counters_of ws =
     (if length ws < 16 then None
      else do {
        rx_bytes \<leftarrow> parse_u64 (ws ! 0);
        rx_packets \<leftarrow> parse_u64 (ws ! 1);
        rx_errors \<leftarrow> parse_u64 (ws ! 2);
        rx_drops \<leftarrow> parse_u64 (ws ! 3);
        tx_bytes \<leftarrow> parse_u64 (ws ! 8);
        tx_packets \<leftarrow> parse_u64 (ws ! 9);
        tx_errors \<leftarrow> parse_u64 (ws ! 10);
        tx_drops \<leftarrow> parse_u64 (ws ! 11);
        Some \<lparr>nc_rx_bytes = rx_bytes, nc_rx_packets = rx_packets, nc_rx_errors = rx_errors,
          nc_rx_drops = rx_drops, nc_tx_bytes = tx_bytes, nc_tx_packets = tx_packets,
          nc_tx_errors = tx_errors, nc_tx_drops = tx_drops\<rparr>
      })"

fun network_lines ::
  "nat \<Rightarrow> string list \<Rightarrow> (string \<times> network_counters) list \<Rightarrow> (string \<times> network_counters) list option"
where
  "network_lines m [] interfaces = Some interfaces"
| "network_lines m (line # ls) interfaces =
     (case split_once CHR '':'' line of
        None \<Rightarrow> network_lines m ls interfaces
      | Some (raw_name, payload) \<Rightarrow>
          (let name = trim raw_name
           in if name = [] then None
              else if m \<le> length interfaces then None
              else do {
                counters \<leftarrow> network_counters_of (split_whitespace payload);
                network_lines m ls (bt_insert name counters interfaces)
              }))"

definition parse_network :: "nat \<Rightarrow> string \<Rightarrow> (string \<times> network_counters) list option" where
  "parse_network max_items output =
     do { interfaces \<leftarrow> network_lines max_items (lines output) []; non_empty interfaces }"

definition interface_speed :: "string \<Rightarrow> nat option" where
  "interface_speed s =
     (case parse_i64 s of None \<Rightarrow> None | Some v \<Rightarrow> if 0 < v then Some (nat v) else None)"

definition interface_identity_of :: "string \<Rightarrow> (string \<times> interface_identity) option" where
  "interface_identity_of line =
     (let ws = split_on (CHR 0x09) (trim_end_where (\<lambda>c. c = CHR 0x0D) line)
      in if length ws \<noteq> 5 \<or> ws ! 0 = [] then None
         else do {
           ifindex \<leftarrow> parse_u32 (ws ! 1);
           if ifindex = 0 then None
           else Some (ws ! 0, \<lparr>ii_ifindex = ifindex, ii_iflink = parse_optional_positive (ws ! 2),
             ii_operstate = ws ! 3, ii_speed_mbps = interface_speed (ws ! 4)\<rparr>)
         })"

fun identity_lines ::
  "nat \<Rightarrow> string list \<Rightarrow> (string \<times> interface_identity) list \<Rightarrow> (string \<times> interface_identity) list option"
where
  "identity_lines m [] interfaces = Some interfaces"
| "identity_lines m (line # ls) interfaces =
     (if m \<le> length interfaces then None
      else do {
        (name, identity) \<leftarrow> interface_identity_of line;
        identity_lines m ls (bt_insert name identity interfaces)
      })"

definition parse_network_identity :: "nat \<Rightarrow> string \<Rightarrow> (string \<times> interface_identity) list option" where
  "parse_network_identity max_items output =
     do {
       interfaces \<leftarrow> identity_lines max_items (filter (\<lambda>l. \<not> is_blank l) (lines output)) [];
       non_empty interfaces
     }"

subsection \<open>Processes\<close>

fun summary_fields :: "string list \<Rightarrow> (string \<times> string) list \<Rightarrow> (string \<times> string) list option" where
  "summary_fields [] values = Some values"
| "summary_fields (field # ws) values =
     do {
       (key, value) \<leftarrow> split_once CHR ''='' field;
       summary_fields ws (bt_insert key value values)
     }"

definition parse_process_summary :: "string \<Rightarrow> process_counts option" where
  "parse_process_summary output =
     do {
       values \<leftarrow> summary_fields (split_whitespace output) [];
       scanned \<leftarrow> parse_u32_field (map_of values ''scanned'');
       if MAX_PROCESS_ENTRIES < scanned then None
       else do {
         running \<leftarrow> parse_u32_field (map_of values ''running'');
         blocked \<leftarrow> parse_u32_field (map_of values ''blocked'');
         zombie \<leftarrow> parse_u32_field (map_of values ''zombie'');
         if scanned < sat_add32 (sat_add32 running blocked) zombie then None
         else do {
           raced \<leftarrow> parse_u32_field (map_of values ''raced'');
           truncated \<leftarrow> (if map_of values ''truncated'' = Some ''0'' then Some False
                        else if map_of values ''truncated'' = Some ''1'' then Some True
                        else None);
           Some \<lparr>ps_scanned = scanned, ps_running = running, ps_blocked = blocked, ps_zombie = zombie,
             ps_raced = raced, ps_truncated = truncated\<rparr>
         }
       }
     }"

end
