(* ===== verification/HostRates.thy ===== *)
theory HostRates
  imports HostParsers
begin

text \<open>
  What \<open>parse_host_resource_v1\<close> of \<open>backend/src/monitoring.rs\<close> makes of a capture: gauges from single
  outputs, rates from the two counter frames, the counter baselines for later runs, and the coverage
  of the run.
\<close>

record 'a family_observation =
  fo_quality :: metric_quality
  fo_value :: "'a option"

definition observed :: "'a \<Rightarrow> 'a family_observation" where
  "observed v = \<lparr>fo_quality = Observed, fo_value = Some v\<rparr>"

definition unavailable :: "metric_quality \<Rightarrow> 'a family_observation" where
  "unavailable q = \<lparr>fo_quality = q, fo_value = None\<rparr>"

definition with_value :: "metric_quality \<Rightarrow> 'a \<Rightarrow> 'a family_observation" where
  "with_value q v = \<lparr>fo_quality = q, fo_value = Some v\<rparr>"

datatype run_completeness = RunSucceeded | RunPartial | RunFailed

record collection_coverage =
  cov_required_observed :: nat
  cov_required_total :: nat
  cov_optional_observed :: nat
  cov_optional_total :: nat
  cov_completeness :: run_completeness

record cpu_core_counter =
  ccs_cpu :: string
  ccs_ticks :: cpu_ticks

record cpu_counter_snapshot =
  ccn_aggregate :: cpu_ticks
  ccn_per_cpu :: "cpu_core_counter list"

record cpu_rate =
  cr_busy_pct :: f64
  cr_iowait_pct :: f64
  cr_steal_pct :: f64
  cr_total_delta_ticks :: nat

record cpu_core_rate =
  ccr_cpu :: string
  ccr_quality :: metric_quality
  ccr_rate :: "cpu_rate option"

record cpu_metrics =
  cm_aggregate :: cpu_rate
  cm_per_cpu :: "cpu_core_rate list"
  cm_online_cpu_count :: "nat option"
  cm_online_cpu_quality :: metric_quality
  cm_window_seconds :: f64

record filesystem_capacity =
  fc_source :: string
  fc_mount :: string
  fc_size_kib :: nat
  fc_used_kib :: nat
  fc_available_kib :: nat
  fc_used_ratio :: "f64 option"
  fc_inode_total :: "nat option"
  fc_inode_used :: "nat option"
  fc_inode_available :: "nat option"
  fc_inode_used_ratio :: "f64 option"
  fc_inode_quality :: metric_quality

record block_io_metrics =
  bm_read_bytes :: f64
  bm_write_bytes :: f64
  bm_iops :: f64
  bm_read_await_ms :: "f64 option"
  bm_write_await_ms :: "f64 option"
  bm_util_pct :: f64
  bm_queue_depth :: f64

record block_io_rate =
  br_identity :: string
  br_name :: string
  br_major :: nat
  br_minor :: nat
  br_quality :: metric_quality
  br_window_seconds :: f64
  br_metrics :: "block_io_metrics option"

record block_io_counter =
  bc_identity :: string
  bc_name :: string
  bc_major :: nat
  bc_minor :: nat
  bc_reads_completed :: nat
  bc_read_sectors :: nat
  bc_read_time_ms :: nat
  bc_writes_completed :: nat
  bc_write_sectors :: nat
  bc_write_time_ms :: nat
  bc_io_time_ms :: nat
  bc_weighted_io_time_ms :: nat

record interface_metrics =
  im_rx_bytes :: f64
  im_tx_bytes :: f64
  im_rx_packets :: f64
  im_tx_packets :: f64
  im_rx_error_drop_pct :: "f64 option"
  im_tx_error_drop_pct :: "f64 option"
  im_rx_util_pct :: "f64 option"
  im_tx_util_pct :: "f64 option"

record interface_rate =
  ir_identity :: string
  ir_name :: string
  ir_ifindex :: nat
  ir_iflink :: "nat option"
  ir_operstate :: string
  ir_speed_mbps :: "nat option"
  ir_quality :: metric_quality
  ir_window_seconds :: f64
  ir_metrics :: "interface_metrics option"

record interface_counter =
  ic_identity :: string
  ic_name :: string
  ic_ifindex :: nat
  ic_rx_bytes :: nat
  ic_rx_packets :: nat
  ic_rx_errors :: nat
  ic_rx_drops :: nat
  ic_tx_bytes :: nat
  ic_tx_packets :: nat
  ic_tx_errors :: nat
  ic_tx_drops :: nat

record uptime_metrics =
  um_boot_id :: string
  um_uptime_seconds :: f64
  um_rebooted :: "bool option"

definition HOST_RESOURCE_PROFILE_ID :: string where
  "HOST_RESOURCE_PROFILE_ID = ''host_resource_v1''"

definition HOST_RESOURCE_PROTOCOL_VERSION :: nat where
  "HOST_RESOURCE_PROTOCOL_VERSION = 1"

record host_observation =
  ob_profile :: string
  ob_protocol_version :: nat
  ob_cpu :: "cpu_metrics family_observation"
  ob_cpu_counters :: "cpu_counter_snapshot family_observation"
  ob_memory :: "memory_metrics family_observation"
  ob_load :: "load_metrics family_observation"
  ob_disk_capacity :: "filesystem_capacity list family_observation"
  ob_disk_io :: "block_io_rate list family_observation"
  ob_disk_io_counters :: "block_io_counter list family_observation"
  ob_network :: "interface_rate list family_observation"
  ob_network_counters :: "interface_counter list family_observation"
  ob_uptime :: "uptime_metrics family_observation"
  ob_process :: "process_counts family_observation"
  ob_coverage :: collection_coverage

subsection \<open>Helpers\<close>

definition parse_source :: "raw_source \<Rightarrow> (string \<Rightarrow> 'a option) \<Rightarrow> 'a family_observation" where
  "parse_source source parser =
     (case source of
        Output out \<Rightarrow> (case parser out of Some v \<Rightarrow> observed v | None \<Rightarrow> unavailable ParseFailed)
      | Unavailable q \<Rightarrow> if q = Observed then unavailable ParseFailed else unavailable q)"

definition first_unavailable :: "metric_quality list \<Rightarrow> metric_quality" where
  "first_unavailable qs =
     (case find (\<lambda>q. \<not> is_observed q) qs of Some q \<Rightarrow> q | None \<Rightarrow> ParseFailed)"

definition valid_interval :: "f64 \<Rightarrow> bool" where
  "valid_interval dt = (f_is_finite dt \<and> f_ge dt MIN_COUNTER_INTERVAL_SECONDS)"

definition percent :: "nat \<Rightarrow> nat \<Rightarrow> f64" where
  "percent n d = f_div (f_mul (f_of_nat n) (Fin 100)) (f_of_nat d)"

definition ratio :: "nat \<Rightarrow> nat \<Rightarrow> f64 option" where
  "ratio n d = (if 0 < d then Some (f_div (f_of_nat n) (f_of_nat d)) else None)"

definition family_from_members :: "'a list \<Rightarrow> ('a \<Rightarrow> metric_quality) \<Rightarrow> 'a list family_observation" where
  "family_from_members members quality =
     (case members of
        [] \<Rightarrow> unavailable Unsupported
      | m # _ \<Rightarrow>
          if \<exists>x \<in> set members. is_observed (quality x) then observed members
          else with_value (quality m) members)"

subsection \<open>Counter baselines\<close>

definition capture_cpu_counters ::
  "host_capture \<Rightarrow> boot_sample family_observation \<Rightarrow> cpu_counter_snapshot family_observation"
where
  "capture_cpu_counters capture boot_b =
     (let current = parse_source (fr_cpu (cap_frame_b capture)) parse_proc_stat
      in case fo_value current of
           None \<Rightarrow> unavailable (fo_quality current)
         | Some frame \<Rightarrow>
             let snapshot = \<lparr>ccn_aggregate = cf_aggregate frame,
                   ccn_per_cpu = map (\<lambda>(cpu, ticks). \<lparr>ccs_cpu = cpu, ccs_ticks = ticks\<rparr>) (cf_per_cpu frame)\<rparr>
             in if fo_value boot_b = None then with_value (fo_quality boot_b) snapshot
                else observed snapshot)"

definition block_identity :: "string \<Rightarrow> nat \<Rightarrow> nat \<Rightarrow> string" where
  "block_identity boot_id major minor = boot_id @ '':'' @ show_nat major @ '':'' @ show_nat minor"

definition interface_key :: "string \<Rightarrow> nat \<Rightarrow> string" where
  "interface_key boot_id ifindex = boot_id @ '':'' @ show_nat ifindex"

definition block_counter_of :: "string \<Rightarrow> disk_counters \<Rightarrow> block_io_counter" where
  "block_counter_of boot_id d =
     \<lparr>bc_identity = block_identity boot_id (dk_major d) (dk_minor d), bc_name = dk_name d,
      bc_major = dk_major d, bc_minor = dk_minor d, bc_reads_completed = dk_reads d,
      bc_read_sectors = dk_read_sectors d, bc_read_time_ms = dk_read_ms d,
      bc_writes_completed = dk_writes d, bc_write_sectors = dk_write_sectors d,
      bc_write_time_ms = dk_write_ms d, bc_io_time_ms = dk_io_ms d,
      bc_weighted_io_time_ms = dk_weighted_io_ms d\<rparr>"

definition capture_disk_io_counters ::
  "host_capture \<Rightarrow> boot_sample family_observation \<Rightarrow> block_io_counter list family_observation"
where
  "capture_disk_io_counters capture boot_b =
     (let current = parse_source (fr_disk_io (cap_frame_b capture)) (parse_diskstats MAX_BLOCK_DEVICES)
      in case fo_value current of
           None \<Rightarrow> unavailable (fo_quality current)
         | Some devices \<Rightarrow>
             (case fo_value boot_b of
                None \<Rightarrow> unavailable (fo_quality boot_b)
              | Some boot \<Rightarrow> observed (map (block_counter_of (bs_boot_id boot)) devices)))"

definition interface_counter_of ::
  "string \<Rightarrow> string \<Rightarrow> interface_identity \<Rightarrow> network_counters \<Rightarrow> interface_counter"
where
  "interface_counter_of boot_id name identity v =
     \<lparr>ic_identity = interface_key boot_id (ii_ifindex identity), ic_name = name,
      ic_ifindex = ii_ifindex identity, ic_rx_bytes = nc_rx_bytes v, ic_rx_packets = nc_rx_packets v,
      ic_rx_errors = nc_rx_errors v, ic_rx_drops = nc_rx_drops v, ic_tx_bytes = nc_tx_bytes v,
      ic_tx_packets = nc_tx_packets v, ic_tx_errors = nc_tx_errors v, ic_tx_drops = nc_tx_drops v\<rparr>"

definition capture_network_counters ::
  "host_capture \<Rightarrow> boot_sample family_observation \<Rightarrow> interface_counter list family_observation"
where
  "capture_network_counters capture boot_b =
     (let current_counters = parse_source (fr_network (cap_frame_b capture)) (parse_network MAX_INTERFACES);
          current_identity = parse_source (fr_network_identity (cap_frame_b capture))
            (parse_network_identity MAX_INTERFACES)
      in case fo_value current_counters of
           None \<Rightarrow> unavailable (fo_quality current_counters)
         | Some counters_by_name \<Rightarrow>
             (case fo_value current_identity of
                None \<Rightarrow> unavailable (fo_quality current_identity)
              | Some identity_by_name \<Rightarrow>
                  (case fo_value boot_b of
                     None \<Rightarrow> unavailable (fo_quality boot_b)
                   | Some boot \<Rightarrow>
                       let counters = List.map_filter
                         (\<lambda>(name, v). map_option (\<lambda>i. interface_counter_of (bs_boot_id boot) name i v)
                            (map_of identity_by_name name)) counters_by_name
                       in if counters = [] then unavailable ParseFailed else observed counters)))"

subsection \<open>Uptime, processor, memory and load\<close>

definition derive_uptime ::
  "boot_sample family_observation \<Rightarrow> boot_sample family_observation \<Rightarrow> uptime_metrics family_observation"
where
  "derive_uptime boot_a boot_b =
     (case fo_value boot_b of
        None \<Rightarrow> unavailable (fo_quality boot_b)
      | Some current \<Rightarrow> observed
          \<lparr>um_boot_id = bs_boot_id current, um_uptime_seconds = bs_uptime_seconds current,
           um_rebooted = map_option (\<lambda>previous. bs_boot_id previous \<noteq> bs_boot_id current) (fo_value boot_a)\<rparr>)"

definition cpu_deltas :: "cpu_ticks \<Rightarrow> cpu_ticks \<Rightarrow> cpu_ticks" where
  "cpu_deltas previous current =
     \<lparr>ct_user = ct_user current - ct_user previous, ct_nice = ct_nice current - ct_nice previous,
      ct_system = ct_system current - ct_system previous, ct_idle = ct_idle current - ct_idle previous,
      ct_iowait = ct_iowait current - ct_iowait previous, ct_irq = ct_irq current - ct_irq previous,
      ct_softirq = ct_softirq current - ct_softirq previous,
      ct_steal = ct_steal current - ct_steal previous\<rparr>"

definition diff_cpu_ticks :: "cpu_ticks \<Rightarrow> cpu_ticks \<Rightarrow> f64 \<Rightarrow> cpu_rate family_observation" where
  "diff_cpu_ticks previous current dt =
     (if \<not> valid_interval dt then unavailable InsufficientInterval
      else if ct_user current < ct_user previous \<or> ct_nice current < ct_nice previous
              \<or> ct_system current < ct_system previous \<or> ct_idle current < ct_idle previous
              \<or> ct_irq current < ct_irq previous \<or> ct_softirq current < ct_softirq previous
              \<or> ct_steal current < ct_steal previous
        then unavailable CounterReset
      else if ct_iowait current < ct_iowait previous then unavailable CounterUnreliable
      else let deltas = cpu_deltas previous current
           in case cpu_total deltas of
                None \<Rightarrow> unavailable CounterUnreliable
              | Some ticks \<Rightarrow>
                  if ticks = 0 then unavailable InsufficientInterval
                  else let busy = ticks - ct_idle deltas - ct_iowait deltas
                       in observed \<lparr>cr_busy_pct = percent busy ticks,
                            cr_iowait_pct = percent (ct_iowait deltas) ticks,
                            cr_steal_pct = percent (ct_steal deltas) ticks,
                            cr_total_delta_ticks = ticks\<rparr>)"

definition cpu_core_rate_of :: "cpu_frame \<Rightarrow> f64 \<Rightarrow> string \<times> cpu_ticks \<Rightarrow> cpu_core_rate" where
  "cpu_core_rate_of previous_frame dt = (\<lambda>(name, current_ticks).
     let rate = (case map_of (cf_per_cpu previous_frame) name of
                   Some previous_ticks \<Rightarrow> diff_cpu_ticks previous_ticks current_ticks dt
                 | None \<Rightarrow> unavailable CounterReset)
     in \<lparr>ccr_cpu = name, ccr_quality = fo_quality rate, ccr_rate = fo_value rate\<rparr>)"

definition derive_cpu ::
  "host_capture \<Rightarrow> boot_sample family_observation \<Rightarrow> boot_sample family_observation
     \<Rightarrow> nat family_observation \<Rightarrow> cpu_metrics family_observation"
where
  "derive_cpu capture boot_a boot_b online_cpu =
     (let previous = parse_source (fr_cpu (cap_frame_a capture)) parse_proc_stat;
          current = parse_source (fr_cpu (cap_frame_b capture)) parse_proc_stat
      in case (fo_value boot_a, fo_value boot_b) of
           (Some previous_boot, Some current_boot) \<Rightarrow>
             (case fo_value previous of
                None \<Rightarrow> unavailable (fo_quality previous)
              | Some previous_frame \<Rightarrow>
                  (case fo_value current of
                     None \<Rightarrow> unavailable (fo_quality current)
                   | Some current_frame \<Rightarrow>
                       if bs_boot_id previous_boot \<noteq> bs_boot_id current_boot then unavailable CounterReset
                       else let dt = f_sub (bs_uptime_seconds current_boot) (bs_uptime_seconds previous_boot);
                                aggregate = diff_cpu_ticks (cf_aggregate previous_frame)
                                  (cf_aggregate current_frame) dt
                            in case fo_value aggregate of
                                 None \<Rightarrow> unavailable (fo_quality aggregate)
                               | Some aggregate_rate \<Rightarrow> observed
                                   \<lparr>cm_aggregate = aggregate_rate,
                                    cm_per_cpu = map (cpu_core_rate_of previous_frame dt)
                                      (cf_per_cpu current_frame),
                                    cm_online_cpu_count = fo_value online_cpu,
                                    cm_online_cpu_quality = fo_quality online_cpu,
                                    cm_window_seconds = dt\<rparr>))
         | _ \<Rightarrow> unavailable (first_unavailable [fo_quality boot_a, fo_quality boot_b]))"

definition derive_memory :: "raw_source \<Rightarrow> memory_metrics family_observation" where
  "derive_memory source =
     (let parsed = parse_source source parse_memory
      in case fo_value parsed of
           None \<Rightarrow> unavailable (fo_quality parsed)
         | Some memory \<Rightarrow> with_value (mm_derived_quality memory) memory)"

definition normalized_load :: "nat \<Rightarrow> load_metrics \<Rightarrow> load_metrics" where
  "normalized_load n load = load\<lparr>lm_online_cpu_count := Some n,
     lm_normalized1 := Some (f_div (lm_load1 load) (f_of_nat n)),
     lm_normalized5 := Some (f_div (lm_load5 load) (f_of_nat n)),
     lm_normalized15 := Some (f_div (lm_load15 load) (f_of_nat n)),
     lm_normalized_quality := Observed\<rparr>"

definition derive_load :: "raw_source \<Rightarrow> nat family_observation \<Rightarrow> load_metrics family_observation" where
  "derive_load source online_cpu =
     (let parsed = parse_source source parse_load
      in case fo_value parsed of
           None \<Rightarrow> unavailable (fo_quality parsed)
         | Some load \<Rightarrow>
             observed (case fo_value online_cpu of
                 None \<Rightarrow> load\<lparr>lm_normalized_quality := fo_quality online_cpu\<rparr>
               | Some n \<Rightarrow> if 0 < n then normalized_load n load
                           else load\<lparr>lm_normalized_quality := fo_quality online_cpu\<rparr>))"

subsection \<open>Disks\<close>

definition filesystem_of ::
  "(string \<times> df_row) list \<Rightarrow> metric_quality \<Rightarrow> df_row \<Rightarrow> filesystem_capacity"
where
  "filesystem_of inode_by_mount inodes_quality row =
     (let inode = map_of inode_by_mount (df_mount row)
      in \<lparr>fc_source = df_source row, fc_mount = df_mount row, fc_size_kib = df_total row,
          fc_used_kib = df_used row, fc_available_kib = df_available row,
          fc_used_ratio = ratio (df_used row) (sat_add64 (df_used row) (df_available row)),
          fc_inode_total = map_option df_total inode, fc_inode_used = map_option df_used inode,
          fc_inode_available = map_option df_available inode,
          fc_inode_used_ratio = Option.bind inode
            (\<lambda>v. ratio (df_used v) (sat_add64 (df_used v) (df_available v))),
          fc_inode_quality = (if inode \<noteq> None then Observed else inodes_quality)\<rparr>)"

definition derive_disk_capacity ::
  "raw_source \<Rightarrow> raw_source \<Rightarrow> filesystem_capacity list family_observation"
where
  "derive_disk_capacity capacity_source inode_source =
     (let capacities = parse_source capacity_source (parse_df MAX_FILESYSTEMS)
      in case fo_value capacities of
           None \<Rightarrow> unavailable (fo_quality capacities)
         | Some rows \<Rightarrow>
             let inodes = parse_source inode_source (parse_df MAX_FILESYSTEMS);
                 inode_rows = (case fo_value inodes of Some rs \<Rightarrow> rs | None \<Rightarrow> []);
                 inode_by_mount = bt_collect (map (\<lambda>row. (df_mount row, row)) inode_rows)
             in observed (map (filesystem_of inode_by_mount (fo_quality inodes)) rows))"

definition disk_reset :: "disk_counters \<Rightarrow> disk_counters \<Rightarrow> bool" where
  "disk_reset previous current =
     (dk_reads current < dk_reads previous \<or> dk_read_sectors current < dk_read_sectors previous
      \<or> dk_read_ms current < dk_read_ms previous \<or> dk_writes current < dk_writes previous
      \<or> dk_write_sectors current < dk_write_sectors previous \<or> dk_write_ms current < dk_write_ms previous
      \<or> dk_io_ms current < dk_io_ms previous \<or> dk_weighted_io_ms current < dk_weighted_io_ms previous)"

definition per_second :: "nat \<Rightarrow> f64 \<Rightarrow> f64" where
  "per_second n dt = f_div (f_of_nat n) dt"

definition diff_disk :: "disk_counters \<Rightarrow> disk_counters \<Rightarrow> f64 \<Rightarrow> block_io_metrics family_observation" where
  "diff_disk previous current dt =
     (if disk_reset previous current then unavailable CounterReset
      else let reads = dk_reads current - dk_reads previous;
               writes = dk_writes current - dk_writes previous;
               read_ms = dk_read_ms current - dk_read_ms previous;
               write_ms = dk_write_ms current - dk_write_ms previous
           in observed
             \<lparr>bm_read_bytes = f_div (f_mul (f_of_nat (dk_read_sectors current - dk_read_sectors previous))
                (Fin 512)) dt,
              bm_write_bytes = f_div (f_mul (f_of_nat (dk_write_sectors current - dk_write_sectors previous))
                (Fin 512)) dt,
              bm_iops = per_second (sat_add64 reads writes) dt,
              bm_read_await_ms = (if 0 < reads then Some (f_div (f_of_nat read_ms) (f_of_nat reads)) else None),
              bm_write_await_ms = (if 0 < writes then Some (f_div (f_of_nat write_ms) (f_of_nat writes)) else None),
              bm_util_pct = f_div (f_mul (f_of_nat (dk_io_ms current - dk_io_ms previous)) (Fin 100))
                (f_mul dt (Fin 1000)),
              bm_queue_depth = f_div (f_of_nat (dk_weighted_io_ms current - dk_weighted_io_ms previous))
                (f_mul dt (Fin 1000))\<rparr>)"

definition block_rate_of ::
  "string \<Rightarrow> bool \<Rightarrow> f64 \<Rightarrow> ((nat \<times> nat) \<times> disk_counters) list \<Rightarrow> disk_counters \<Rightarrow> block_io_rate"
where
  "block_rate_of boot_id same_boot dt previous_by_id device =
     (let observation =
        (if \<not> same_boot then unavailable CounterReset
         else if \<not> valid_interval dt then unavailable InsufficientInterval
         else case map_of previous_by_id (dk_major device, dk_minor device) of
                Some previous \<Rightarrow> diff_disk previous device dt
              | None \<Rightarrow> unavailable CounterReset)
      in \<lparr>br_identity = block_identity boot_id (dk_major device) (dk_minor device),
          br_name = dk_name device, br_major = dk_major device, br_minor = dk_minor device,
          br_quality = fo_quality observation, br_window_seconds = f_max dt (Fin 0),
          br_metrics = fo_value observation\<rparr>)"

definition derive_disk_io ::
  "host_capture \<Rightarrow> boot_sample family_observation \<Rightarrow> boot_sample family_observation
     \<Rightarrow> block_io_rate list family_observation"
where
  "derive_disk_io capture boot_a boot_b =
     (let previous = parse_source (fr_disk_io (cap_frame_a capture)) (parse_diskstats MAX_BLOCK_DEVICES);
          current = parse_source (fr_disk_io (cap_frame_b capture)) (parse_diskstats MAX_BLOCK_DEVICES)
      in case (fo_value boot_a, fo_value boot_b) of
           (Some previous_boot, Some current_boot) \<Rightarrow>
             (case fo_value previous of
                None \<Rightarrow> unavailable (fo_quality previous)
              | Some previous_devices \<Rightarrow>
                  (case fo_value current of
                     None \<Rightarrow> unavailable (fo_quality current)
                   | Some current_devices \<Rightarrow>
                       let dt = f_sub (bs_uptime_seconds current_boot) (bs_uptime_seconds previous_boot);
                           same_boot = (bs_boot_id previous_boot = bs_boot_id current_boot);
                           previous_by_id = bt_collect
                             (map (\<lambda>d. ((dk_major d, dk_minor d), d)) previous_devices)
                       in family_from_members
                            (map (block_rate_of (bs_boot_id current_boot) same_boot dt previous_by_id)
                               current_devices) br_quality))
         | _ \<Rightarrow> unavailable (first_unavailable [fo_quality boot_a, fo_quality boot_b]))"

subsection \<open>Network\<close>

definition network_reset :: "network_counters \<Rightarrow> network_counters \<Rightarrow> bool" where
  "network_reset previous current =
     (nc_rx_bytes current < nc_rx_bytes previous \<or> nc_rx_packets current < nc_rx_packets previous
      \<or> nc_rx_errors current < nc_rx_errors previous \<or> nc_rx_drops current < nc_rx_drops previous
      \<or> nc_tx_bytes current < nc_tx_bytes previous \<or> nc_tx_packets current < nc_tx_packets previous
      \<or> nc_tx_errors current < nc_tx_errors previous \<or> nc_tx_drops current < nc_tx_drops previous)"

definition util_pct :: "f64 \<Rightarrow> f64 \<Rightarrow> f64" where
  "util_pct bytes_per_second capacity =
     f_div (f_mul (f_mul bytes_per_second (Fin 8)) (Fin 100)) capacity"

definition diff_network ::
  "network_counters \<Rightarrow> network_counters \<Rightarrow> nat option \<Rightarrow> f64 \<Rightarrow> interface_metrics family_observation"
where
  "diff_network previous current speed dt =
     (if network_reset previous current then unavailable CounterReset
      else let rx_bytes = nc_rx_bytes current - nc_rx_bytes previous;
               tx_bytes = nc_tx_bytes current - nc_tx_bytes previous;
               rx_packets = nc_rx_packets current - nc_rx_packets previous;
               tx_packets = nc_tx_packets current - nc_tx_packets previous;
               rx_bad = sat_add64 (nc_rx_errors current - nc_rx_errors previous)
                 (nc_rx_drops current - nc_rx_drops previous);
               tx_bad = sat_add64 (nc_tx_errors current - nc_tx_errors previous)
                 (nc_tx_drops current - nc_tx_drops previous);
               rx_rate = per_second rx_bytes dt;
               tx_rate = per_second tx_bytes dt;
               capacity = (case speed of
                   None \<Rightarrow> None
                 | Some v \<Rightarrow> if 0 < v then Some (f_mul (f_of_nat v) (Fin 1000000)) else None)
           in observed
             \<lparr>im_rx_bytes = rx_rate, im_tx_bytes = tx_rate,
              im_rx_packets = per_second rx_packets dt, im_tx_packets = per_second tx_packets dt,
              im_rx_error_drop_pct = (if 0 < rx_packets then Some (percent rx_bad rx_packets) else None),
              im_tx_error_drop_pct = (if 0 < tx_packets then Some (percent tx_bad tx_packets) else None),
              im_rx_util_pct = map_option (util_pct rx_rate) capacity,
              im_tx_util_pct = map_option (util_pct tx_rate) capacity\<rparr>)"

definition unknown_interface :: "string \<Rightarrow> f64 \<Rightarrow> string \<Rightarrow> interface_rate" where
  "unknown_interface boot_id dt name =
     \<lparr>ir_identity = boot_id @ '':unknown:'' @ name, ir_name = name, ir_ifindex = 0, ir_iflink = None,
      ir_operstate = ''unknown'', ir_speed_mbps = None, ir_quality = ParseFailed,
      ir_window_seconds = f_max dt (Fin 0), ir_metrics = None\<rparr>"

definition interface_rate_of ::
  "string \<Rightarrow> bool \<Rightarrow> f64 \<Rightarrow> (nat \<times> network_counters) list \<Rightarrow> (string \<times> interface_identity) list
     \<Rightarrow> string \<times> network_counters \<Rightarrow> interface_rate"
where
  "interface_rate_of boot_id same_boot dt previous_by_ifindex current_identity = (\<lambda>(name, counters).
     case map_of current_identity name of
       None \<Rightarrow> unknown_interface boot_id dt name
     | Some identity \<Rightarrow>
         let observation =
           (if \<not> same_boot then unavailable CounterReset
            else if \<not> valid_interval dt then unavailable InsufficientInterval
            else case map_of previous_by_ifindex (ii_ifindex identity) of
                   Some previous \<Rightarrow> diff_network previous counters (ii_speed_mbps identity) dt
                 | None \<Rightarrow> unavailable CounterReset)
         in \<lparr>ir_identity = interface_key boot_id (ii_ifindex identity), ir_name = name,
             ir_ifindex = ii_ifindex identity, ir_iflink = ii_iflink identity,
             ir_operstate = ii_operstate identity, ir_speed_mbps = ii_speed_mbps identity,
             ir_quality = fo_quality observation, ir_window_seconds = f_max dt (Fin 0),
             ir_metrics = fo_value observation\<rparr>)"

definition counters_by_ifindex ::
  "(string \<times> interface_identity) list \<Rightarrow> (string \<times> network_counters) list \<Rightarrow> (nat \<times> network_counters) list"
where
  "counters_by_ifindex identities counters =
     bt_collect (List.map_filter
       (\<lambda>(name, identity). map_option (\<lambda>c. (ii_ifindex identity, c)) (map_of counters name)) identities)"

definition derive_network ::
  "host_capture \<Rightarrow> boot_sample family_observation \<Rightarrow> boot_sample family_observation
     \<Rightarrow> interface_rate list family_observation"
where
  "derive_network capture boot_a boot_b =
     (let previous_counters = parse_source (fr_network (cap_frame_a capture)) (parse_network MAX_INTERFACES);
          current_counters = parse_source (fr_network (cap_frame_b capture)) (parse_network MAX_INTERFACES);
          previous_identity = parse_source (fr_network_identity (cap_frame_a capture))
            (parse_network_identity MAX_INTERFACES);
          current_identity = parse_source (fr_network_identity (cap_frame_b capture))
            (parse_network_identity MAX_INTERFACES)
      in case (fo_value boot_a, fo_value boot_b) of
           (Some previous_boot, Some current_boot) \<Rightarrow>
             (case fo_value previous_counters of
                None \<Rightarrow> unavailable (fo_quality previous_counters)
              | Some previous_by_name \<Rightarrow>
             (case fo_value current_counters of
                None \<Rightarrow> unavailable (fo_quality current_counters)
              | Some current_by_name \<Rightarrow>
             (case fo_value previous_identity of
                None \<Rightarrow> unavailable (fo_quality previous_identity)
              | Some previous_ids \<Rightarrow>
             (case fo_value current_identity of
                None \<Rightarrow> unavailable (fo_quality current_identity)
              | Some current_ids \<Rightarrow>
                  let dt = f_sub (bs_uptime_seconds current_boot) (bs_uptime_seconds previous_boot);
                      same_boot = (bs_boot_id previous_boot = bs_boot_id current_boot)
                  in family_from_members
                       (map (interface_rate_of (bs_boot_id current_boot) same_boot dt
                               (counters_by_ifindex previous_ids previous_by_name) current_ids)
                          current_by_name) ir_quality))))
         | _ \<Rightarrow> unavailable (first_unavailable [fo_quality boot_a, fo_quality boot_b]))"

subsection \<open>The observation of a run\<close>

definition completeness_of :: "nat \<Rightarrow> nat \<Rightarrow> run_completeness" where
  "completeness_of seen all = (if seen = all then RunSucceeded else if 0 < seen then RunPartial else RunFailed)"

definition parse_host_resource_v1 :: "host_capture \<Rightarrow> host_observation" where
  "parse_host_resource_v1 capture =
     (let boot_a = parse_source (fr_boot_uptime (cap_frame_a capture)) parse_boot_sample;
          boot_b = parse_source (fr_boot_uptime (cap_frame_b capture)) parse_boot_sample;
          online_cpu = parse_source (cap_cpu_online capture) parse_online_cpu_count;
          uptime = derive_uptime boot_a boot_b;
          cpu = derive_cpu capture boot_a boot_b online_cpu;
          cpu_counters = capture_cpu_counters capture boot_b;
          memory = derive_memory (cap_memory capture);
          load = derive_load (cap_load capture) online_cpu;
          disk_capacity = derive_disk_capacity (cap_disk_capacity capture) (cap_disk_inodes capture);
          disk_io = derive_disk_io capture boot_a boot_b;
          disk_io_counters = capture_disk_io_counters capture boot_b;
          network = derive_network capture boot_a boot_b;
          network_counters = capture_network_counters capture boot_b;
          process = parse_source (cap_process_summary capture) parse_process_summary;
          required = [fo_quality cpu, fo_quality memory, fo_quality load, fo_quality disk_capacity,
            fo_quality uptime];
          optional = [fo_quality disk_io, fo_quality network, fo_quality process];
          required_observed = length (filter is_observed required);
          optional_observed = length (filter is_observed optional)
      in \<lparr>ob_profile = HOST_RESOURCE_PROFILE_ID, ob_protocol_version = HOST_RESOURCE_PROTOCOL_VERSION,
          ob_cpu = cpu, ob_cpu_counters = cpu_counters, ob_memory = memory, ob_load = load,
          ob_disk_capacity = disk_capacity, ob_disk_io = disk_io, ob_disk_io_counters = disk_io_counters,
          ob_network = network, ob_network_counters = network_counters, ob_uptime = uptime,
          ob_process = process,
          ob_coverage = \<lparr>cov_required_observed = required_observed, cov_required_total = length required,
            cov_optional_observed = optional_observed, cov_optional_total = length optional,
            cov_completeness = completeness_of required_observed (length required)\<rparr>\<rparr>)"

subsection \<open>Processor rates\<close>

definition ticks_le :: "cpu_ticks \<Rightarrow> cpu_ticks \<Rightarrow> bool" where
  "ticks_le p c =
     (ct_user p \<le> ct_user c \<and> ct_nice p \<le> ct_nice c \<and> ct_system p \<le> ct_system c \<and> ct_idle p \<le> ct_idle c
      \<and> ct_iowait p \<le> ct_iowait c \<and> ct_irq p \<le> ct_irq c \<and> ct_softirq p \<le> ct_softirq c
      \<and> ct_steal p \<le> ct_steal c)"

definition busy_ticks :: "cpu_ticks \<Rightarrow> nat" where
  "busy_ticks t = ct_user t + ct_nice t + ct_system t + ct_irq t + ct_softirq t + ct_steal t"

definition all_ticks :: "cpu_ticks \<Rightarrow> nat" where
  "all_ticks t = busy_ticks t + ct_idle t + ct_iowait t"

lemma cpu_total_eq: "cpu_total t = (if all_ticks t \<le> u64_max then Some (all_ticks t) else None)"
  by (auto simp: cpu_total_def checked_add64_def all_ticks_def busy_ticks_def)

lemmas observation_simps = observed_def unavailable_def with_value_def is_observed_def

lemma diff_cpu_ticks_eq:
  assumes "valid_interval dt" and "ticks_le p c"
  shows "diff_cpu_ticks p c dt =
    (let d = cpu_deltas p c
     in if u64_max < all_ticks d then unavailable CounterUnreliable
        else if all_ticks d = 0 then unavailable InsufficientInterval
        else observed \<lparr>cr_busy_pct = percent (busy_ticks d) (all_ticks d),
          cr_iowait_pct = percent (ct_iowait d) (all_ticks d),
          cr_steal_pct = percent (ct_steal d) (all_ticks d), cr_total_delta_ticks = all_ticks d\<rparr>)"
proof -
  have "all_ticks d - ct_idle d - ct_iowait d = busy_ticks d" for d
    by (simp add: all_ticks_def)
  with assms show ?thesis
    by (simp add: diff_cpu_ticks_def ticks_le_def cpu_total_eq Let_def not_less)
qed

lemma diff_cpu_ticks_observed:
  "is_observed (fo_quality (diff_cpu_ticks p c dt)) \<longleftrightarrow>
     valid_interval dt \<and> ticks_le p c \<and> 0 < all_ticks (cpu_deltas p c)
     \<and> all_ticks (cpu_deltas p c) \<le> u64_max"
proof (cases "valid_interval dt \<and> ticks_le p c")
  case True
  then show ?thesis by (auto simp: diff_cpu_ticks_eq Let_def observation_simps)
next
  case False
  then show ?thesis
    by (auto simp: diff_cpu_ticks_def ticks_le_def observation_simps)
qed

lemma diff_cpu_ticks_quality_value:
  "fo_value (diff_cpu_ticks p c dt) \<noteq> None \<longleftrightarrow> is_observed (fo_quality (diff_cpu_ticks p c dt))"
  by (simp add: diff_cpu_ticks_def Let_def observation_simps split: option.splits)

lemma percent_correct:
  assumes "n \<le> d" and "0 < d" and "100 * d < 2 ^ 53"
  shows "\<exists>v. percent n d = Fin v \<and> 0 \<le> v \<and> v \<le> 100
     \<and> \<bar>v - 100 * (of_nat n / of_nat d)\<bar> \<le> 1 / 2 ^ 47"
proof -
  let ?q = "of_nat (n * 100) / of_nat d :: rat"
  have d: "f_of_nat d = Fin (of_nat d)" and n: "f_of_nat n = Fin (of_nat n)"
    using assms by (intro f_of_nat_exact; simp)+
  have "round_f64 (of_nat n * 100) = Fin (of_nat (n * 100))"
    using f_of_nat_exact [of "n * 100"] assms by (simp add: f_of_nat_def)
  then have p: "percent n d = round_f64 ?q"
    using assms(2) by (simp add: percent_def n d)
  have q: "0 \<le> ?q" "?q \<le> of_nat 100"
    using assms(1,2) by (simp_all add: divide_le_eq flip: of_nat_mult)
  obtain v where v: "round_f64 ?q = Fin v" "0 \<le> v" "v \<le> of_nat 100"
    using round_f64_le_nat [OF q] by auto
  have "\<bar>v - ?q\<bar> \<le> 1 / 2 ^ 47"
  proof (cases "?q = 0")
    case True
    have "v = 0" using v(1) unfolding True by (simp add: round_f64_def)
    then show ?thesis unfolding True by simp
  next
    case False
    with q have pos: "0 < ?q" by linarith
    have "?q < 2 ^ 7" using q(2) by simp
    then have "ulp ?q \<le> 2 ^ 7 / 2 ^ 53" by (rule ulp_le [OF pos]) simp
    with round_f64_error [OF v(1)] pos show ?thesis by simp
  qed
  then show ?thesis using p v by (simp add: field_simps)
qed

text \<open>
  C29. When the interval is valid, no counter went back and the interval has ticks, but fewer than a hundredth of
  \<open>2 ^ 53\<close> (the products with 100 are exact; at 100 ticks a second on 1000 processors that takes 28 years), a
  processor rate is reported. Its percentages lie between 0 and 100 and are the exact shares of the ticks of the
  interval up to the rounding of the last place; the busy share is everything but idle and waiting
  time.
\<close>

theorem cpu_rate_correct:
  assumes "valid_interval dt" and "ticks_le p c"
    and "0 < all_ticks (cpu_deltas p c)" and "100 * all_ticks (cpu_deltas p c) < 2 ^ 53"
  shows "\<exists>r b w s. diff_cpu_ticks p c dt = observed r
     \<and> cr_total_delta_ticks r = all_ticks (cpu_deltas p c)
     \<and> cr_busy_pct r = Fin b \<and> 0 \<le> b \<and> b \<le> 100
     \<and> \<bar>b - 100 * (of_nat (busy_ticks (cpu_deltas p c)) / of_nat (all_ticks (cpu_deltas p c)))\<bar> \<le> 1 / 2 ^ 47
     \<and> cr_iowait_pct r = Fin w \<and> 0 \<le> w \<and> w \<le> 100
     \<and> \<bar>w - 100 * (of_nat (ct_iowait (cpu_deltas p c)) / of_nat (all_ticks (cpu_deltas p c)))\<bar> \<le> 1 / 2 ^ 47
     \<and> cr_steal_pct r = Fin s \<and> 0 \<le> s \<and> s \<le> 100
     \<and> \<bar>s - 100 * (of_nat (ct_steal (cpu_deltas p c)) / of_nat (all_ticks (cpu_deltas p c)))\<bar> \<le> 1 / 2 ^ 47"
proof -
  let ?d = "cpu_deltas p c"
  have le: "busy_ticks ?d \<le> all_ticks ?d" "ct_iowait ?d \<le> all_ticks ?d" "ct_steal ?d \<le> all_ticks ?d"
    by (simp_all add: all_ticks_def busy_ticks_def)
  have "all_ticks ?d \<le> u64_max" using assms(4) by (simp add: u64_max_def)
  then have "diff_cpu_ticks p c dt = observed
      \<lparr>cr_busy_pct = percent (busy_ticks ?d) (all_ticks ?d),
       cr_iowait_pct = percent (ct_iowait ?d) (all_ticks ?d),
       cr_steal_pct = percent (ct_steal ?d) (all_ticks ?d), cr_total_delta_ticks = all_ticks ?d\<rparr>"
    using assms(3) by (simp add: diff_cpu_ticks_eq [OF assms(1,2)] Let_def)
  with percent_correct [OF le(1) assms(3,4)] percent_correct [OF le(2) assms(3,4)]
    percent_correct [OF le(3) assms(3,4)]
  show ?thesis by fastforce
qed

theorem cpu_rate_correct_witness:
  "\<exists>r b. diff_cpu_ticks
       \<lparr>ct_user = 5, ct_nice = 0, ct_system = 0, ct_idle = 10, ct_iowait = 0, ct_irq = 0, ct_softirq = 0,
        ct_steal = 0\<rparr>
       \<lparr>ct_user = 35, ct_nice = 0, ct_system = 0, ct_idle = 80, ct_iowait = 0, ct_irq = 0, ct_softirq = 0,
        ct_steal = 0\<rparr> (Fin 1) = observed r
     \<and> cr_total_delta_ticks r = 100 \<and> cr_busy_pct r = Fin b \<and> \<bar>b - 30\<bar> \<le> 1 / 2 ^ 47"
  using cpu_rate_correct [of "Fin 1"
      "\<lparr>ct_user = 5, ct_nice = 0, ct_system = 0, ct_idle = 10, ct_iowait = 0, ct_irq = 0, ct_softirq = 0,
        ct_steal = 0\<rparr>"
      "\<lparr>ct_user = 35, ct_nice = 0, ct_system = 0, ct_idle = 80, ct_iowait = 0, ct_irq = 0, ct_softirq = 0,
        ct_steal = 0\<rparr>"]
  by (simp add: valid_interval_def MIN_COUNTER_INTERVAL_SECONDS_def ticks_le_def cpu_deltas_def
      all_ticks_def busy_ticks_def) blast

subsection \<open>Rates never span a reboot\<close>

definition boot_of :: "counter_frame \<Rightarrow> boot_sample family_observation" where
  "boot_of f = parse_source (fr_boot_uptime f) parse_boot_sample"

definition same_boot_interval :: "host_capture \<Rightarrow> f64 \<Rightarrow> bool" where
  "same_boot_interval capture dt =
     (\<exists>a b. fo_value (boot_of (cap_frame_a capture)) = Some a
        \<and> fo_value (boot_of (cap_frame_b capture)) = Some b
        \<and> bs_boot_id a = bs_boot_id b \<and> dt = f_sub (bs_uptime_seconds b) (bs_uptime_seconds a)
        \<and> valid_interval dt)"

definition members :: "'a list family_observation \<Rightarrow> 'a list" where
  "members f = (case fo_value f of None \<Rightarrow> [] | Some xs \<Rightarrow> xs)"

text \<open>
  What justifies a reported rate: a valid interval within one boot, and two counter rows of the same
  subject. A block device is known by its major and minor number, an interface by its index in the
  inventory of each frame, a processor by its name.
\<close>

definition block_rate_justified :: "host_capture \<Rightarrow> block_io_rate \<Rightarrow> bool" where
  "block_rate_justified capture r =
     (case br_metrics r of
        None \<Rightarrow> True
      | Some m \<Rightarrow> \<exists>dt ps p cs c. same_boot_interval capture dt
          \<and> fo_value (parse_source (fr_disk_io (cap_frame_a capture)) (parse_diskstats MAX_BLOCK_DEVICES)) = Some ps
          \<and> fo_value (parse_source (fr_disk_io (cap_frame_b capture)) (parse_diskstats MAX_BLOCK_DEVICES)) = Some cs
          \<and> p \<in> set ps \<and> c \<in> set cs
          \<and> (dk_major p, dk_minor p) = (br_major r, br_minor r)
          \<and> (dk_major c, dk_minor c) = (br_major r, br_minor r)
          \<and> \<not> disk_reset p c \<and> diff_disk p c dt = observed m)"

definition interface_rate_justified :: "host_capture \<Rightarrow> interface_rate \<Rightarrow> bool" where
  "interface_rate_justified capture r =
     (case ir_metrics r of
        None \<Rightarrow> True
      | Some m \<Rightarrow> \<exists>dt ps pis cs cis n i p j c. same_boot_interval capture dt
          \<and> fo_value (parse_source (fr_network (cap_frame_a capture)) (parse_network MAX_INTERFACES)) = Some ps
          \<and> fo_value (parse_source (fr_network_identity (cap_frame_a capture))
               (parse_network_identity MAX_INTERFACES)) = Some pis
          \<and> fo_value (parse_source (fr_network (cap_frame_b capture)) (parse_network MAX_INTERFACES)) = Some cs
          \<and> fo_value (parse_source (fr_network_identity (cap_frame_b capture))
               (parse_network_identity MAX_INTERFACES)) = Some cis
          \<and> (n, i) \<in> set pis \<and> map_of ps n = Some p \<and> ii_ifindex i = ir_ifindex r
          \<and> (ir_name r, c) \<in> set cs \<and> map_of cis (ir_name r) = Some j \<and> ii_ifindex j = ir_ifindex r
          \<and> \<not> network_reset p c \<and> diff_network p c (ii_speed_mbps j) dt = observed m)"

definition core_rate_justified :: "cpu_frame \<Rightarrow> cpu_frame \<Rightarrow> f64 \<Rightarrow> cpu_core_rate \<Rightarrow> bool" where
  "core_rate_justified p c dt r =
     (case ccr_rate r of
        None \<Rightarrow> True
      | Some m \<Rightarrow> \<exists>before now. map_of (cf_per_cpu p) (ccr_cpu r) = Some before \<and> (ccr_cpu r, now) \<in> set (cf_per_cpu c)
          \<and> ticks_le before now \<and> diff_cpu_ticks before now dt = observed m)"

definition cpu_metrics_justified :: "host_capture \<Rightarrow> cpu_metrics \<Rightarrow> bool" where
  "cpu_metrics_justified capture m =
     (\<exists>p c. same_boot_interval capture (cm_window_seconds m)
        \<and> fo_value (parse_source (fr_cpu (cap_frame_a capture)) parse_proc_stat) = Some p
        \<and> fo_value (parse_source (fr_cpu (cap_frame_b capture)) parse_proc_stat) = Some c
        \<and> ticks_le (cf_aggregate p) (cf_aggregate c)
        \<and> diff_cpu_ticks (cf_aggregate p) (cf_aggregate c) (cm_window_seconds m) = observed (cm_aggregate m)
        \<and> map ccr_cpu (cm_per_cpu m) = map fst (cf_per_cpu c)
        \<and> list_all (core_rate_justified p c (cm_window_seconds m)) (cm_per_cpu m))"

lemma diff_disk_value: "fo_value (diff_disk p c dt) = Some m \<longleftrightarrow> \<not> disk_reset p c \<and> diff_disk p c dt = observed m"
  by (auto simp: diff_disk_def Let_def observation_simps)

lemma diff_network_value:
  "fo_value (diff_network p c v dt) = Some m \<longleftrightarrow> \<not> network_reset p c \<and> diff_network p c v dt = observed m"
  by (auto simp: diff_network_def Let_def observation_simps)

lemma diff_cpu_ticks_value:
  assumes "fo_value (diff_cpu_ticks p c dt) = Some r"
  shows "valid_interval dt \<and> ticks_le p c \<and> diff_cpu_ticks p c dt = observed r"
proof -
  have "valid_interval dt \<and> ticks_le p c"
    using assms diff_cpu_ticks_quality_value [of p c dt] diff_cpu_ticks_observed [of p c dt] by auto
  with assms show ?thesis
    by (auto simp: diff_cpu_ticks_eq Let_def observation_simps split: if_splits)
qed

lemma members_family [simp]: "members (family_from_members xs q) = xs"
  by (cases xs) (auto simp: members_def family_from_members_def observation_simps)

lemma members_unavailable [simp]: "members (unavailable q) = []"
  by (simp add: members_def unavailable_def)

lemma map_of_collect_SomeD: "map_of (bt_collect kvs) k = Some v \<Longrightarrow> (k, v) \<in> set kvs"
  using bt.get_collect [of kvs k] map_of_SomeD [of "rev kvs" k v] by simp

lemma cores_justified:
  "map ccr_cpu (map (cpu_core_rate_of p dt) (cf_per_cpu c)) = map fst (cf_per_cpu c)
   \<and> list_all (core_rate_justified p c dt) (map (cpu_core_rate_of p dt) (cf_per_cpu c))"
proof
  show "map ccr_cpu (map (cpu_core_rate_of p dt) (cf_per_cpu c)) = map fst (cf_per_cpu c)"
    by (auto simp: cpu_core_rate_of_def Let_def)
  have "core_rate_justified p c dt (cpu_core_rate_of p dt (name, now))" if "(name, now) \<in> set (cf_per_cpu c)" for name now
    using that diff_cpu_ticks_value [of _ now dt]
    by (auto simp: core_rate_justified_def cpu_core_rate_of_def Let_def unavailable_def split: option.splits)
  then show "list_all (core_rate_justified p c dt) (map (cpu_core_rate_of p dt) (cf_per_cpu c))"
    by (auto simp: list_all_iff)
qed

lemma cpu_justified:
  assumes "fo_value (derive_cpu capture (boot_of (cap_frame_a capture)) (boot_of (cap_frame_b capture)) n) = Some m"
  shows "cpu_metrics_justified capture m"
  using assms cores_justified
  by (auto simp: derive_cpu_def cpu_metrics_justified_def same_boot_interval_def Let_def observed_def
      unavailable_def split: option.splits if_splits dest!: diff_cpu_ticks_value)

lemma blocks_justified:
  assumes "r \<in> set (members (derive_disk_io capture (boot_of (cap_frame_a capture)) (boot_of (cap_frame_b capture))))"
  shows "block_rate_justified capture r"
proof -
  let ?dt = "\<lambda>a b. f_sub (bs_uptime_seconds b) (bs_uptime_seconds a)"
  from assms obtain a b ps cs d where
    ab: "fo_value (boot_of (cap_frame_a capture)) = Some a" "fo_value (boot_of (cap_frame_b capture)) = Some b"
    and ps: "fo_value (parse_source (fr_disk_io (cap_frame_a capture)) (parse_diskstats MAX_BLOCK_DEVICES)) = Some ps"
    and cs: "fo_value (parse_source (fr_disk_io (cap_frame_b capture)) (parse_diskstats MAX_BLOCK_DEVICES)) = Some cs"
    and d: "d \<in> set cs"
    and r: "r = block_rate_of (bs_boot_id b) (bs_boot_id a = bs_boot_id b) (?dt a b)
        (bt_collect (map (\<lambda>d. ((dk_major d, dk_minor d), d)) ps)) d"
    by (auto simp: derive_disk_io_def Let_def split: option.splits)
  show ?thesis
  proof (cases "br_metrics r")
    case None
    then show ?thesis by (simp add: block_rate_justified_def)
  next
    case (Some m)
    then obtain p where eq: "bs_boot_id a = bs_boot_id b" and vi: "valid_interval (?dt a b)"
      and p: "p \<in> set ps" "dk_major p = dk_major d" "dk_minor p = dk_minor d"
      and m: "fo_value (diff_disk p d (?dt a b)) = Some m"
      by (auto simp: r block_rate_of_def Let_def unavailable_def split: if_splits option.splits
          dest!: map_of_collect_SomeD)
    have "same_boot_interval capture (?dt a b)"
      using ab vi eq by (auto simp: same_boot_interval_def)
    moreover have "br_major r = dk_major d" "br_minor r = dk_minor d"
      by (simp_all add: r block_rate_of_def Let_def)
    ultimately show ?thesis
      using ps cs d Some p m unfolding block_rate_justified_def Some option.case diff_disk_value
      by (intro exI [of _ "?dt a b"] exI [of _ ps] exI [of _ p] exI [of _ cs] exI [of _ d]) simp
  qed
qed

lemma interfaces_justified:
  assumes "r \<in> set (members (derive_network capture (boot_of (cap_frame_a capture)) (boot_of (cap_frame_b capture))))"
  shows "interface_rate_justified capture r"
proof -
  let ?dt = "\<lambda>a b. f_sub (bs_uptime_seconds b) (bs_uptime_seconds a)"
  from assms obtain a b ps cs pis cis name c where
    ab: "fo_value (boot_of (cap_frame_a capture)) = Some a" "fo_value (boot_of (cap_frame_b capture)) = Some b"
    and ps: "fo_value (parse_source (fr_network (cap_frame_a capture)) (parse_network MAX_INTERFACES)) = Some ps"
    and cs: "fo_value (parse_source (fr_network (cap_frame_b capture)) (parse_network MAX_INTERFACES)) = Some cs"
    and pis: "fo_value (parse_source (fr_network_identity (cap_frame_a capture))
               (parse_network_identity MAX_INTERFACES)) = Some pis"
    and cis: "fo_value (parse_source (fr_network_identity (cap_frame_b capture))
               (parse_network_identity MAX_INTERFACES)) = Some cis"
    and c: "(name, c) \<in> set cs"
    and r: "r = interface_rate_of (bs_boot_id b) (bs_boot_id a = bs_boot_id b) (?dt a b)
        (counters_by_ifindex pis ps) cis (name, c)"
    by (auto simp: derive_network_def Let_def split: option.splits)
  show ?thesis
  proof (cases "ir_metrics r")
    case None
    then show ?thesis by (simp add: interface_rate_justified_def)
  next
    case (Some m)
    then obtain j p where j: "map_of cis name = Some j" and eq: "bs_boot_id a = bs_boot_id b"
      and vi: "valid_interval (?dt a b)"
      and p: "map_of (counters_by_ifindex pis ps) (ii_ifindex j) = Some p"
      and m: "fo_value (diff_network p c (ii_speed_mbps j) (?dt a b)) = Some m"
      by (auto simp: r interface_rate_of_def unknown_interface_def Let_def unavailable_def
          split: if_splits option.splits)
    from p obtain n i where "(n, i) \<in> set pis" "map_of ps n = Some p" "ii_ifindex i = ii_ifindex j"
      by (auto simp: counters_by_ifindex_def map_filter_def dest!: map_of_collect_SomeD)
    moreover have "same_boot_interval capture (?dt a b)"
      using ab vi eq by (auto simp: same_boot_interval_def)
    moreover have "ir_name r = name" "ir_ifindex r = ii_ifindex j"
      using j by (simp_all add: r interface_rate_of_def Let_def)
    ultimately show ?thesis
      using ps cs pis cis c j m Some
      unfolding interface_rate_justified_def Some option.case diff_network_value
      by (intro exI [of _ "?dt a b"] exI [of _ ps] exI [of _ pis] exI [of _ cs] exI [of _ cis]
          exI [of _ n] exI [of _ i] exI [of _ p] exI [of _ j] exI [of _ c]) simp
  qed
qed

text \<open>
  C30. Every rate of an observation is justified: it was computed over a valid interval within one
  boot of the host, from two counter rows of the same subject none of which went back. Rates are
  never computed across a reboot, a renumbered device or another interface. The rates of the processor cores
  are those of the cores of the second frame, each against the row of the same core in the first.
\<close>

theorem rates_justified:
  "list_all (block_rate_justified capture) (members (ob_disk_io (parse_host_resource_v1 capture)))
   \<and> list_all (interface_rate_justified capture) (members (ob_network (parse_host_resource_v1 capture)))
   \<and> (case fo_value (ob_cpu (parse_host_resource_v1 capture)) of
        None \<Rightarrow> True | Some m \<Rightarrow> cpu_metrics_justified capture m)"
  using blocks_justified [of _ capture] interfaces_justified [of _ capture] cpu_justified [of capture]
  by (auto simp: list_all_iff parse_host_resource_v1_def Let_def boot_of_def split: option.splits)

subsection \<open>Required and optional families\<close>

text \<open>A capture whose optional outputs are replaced.\<close>

definition with_optional ::
  "raw_source \<Rightarrow> raw_source \<Rightarrow> raw_source \<Rightarrow> raw_source \<Rightarrow> raw_source \<Rightarrow> raw_source \<Rightarrow> raw_source
     \<Rightarrow> raw_source \<Rightarrow> host_capture \<Rightarrow> host_capture"
where
  "with_optional d1 n1 i1 d2 n2 i2 inodes processes c =
     c\<lparr>cap_frame_a := (cap_frame_a c)\<lparr>fr_disk_io := d1, fr_network := n1, fr_network_identity := i1\<rparr>,
       cap_frame_b := (cap_frame_b c)\<lparr>fr_disk_io := d2, fr_network := n2, fr_network_identity := i2\<rparr>,
       cap_disk_inodes := inodes, cap_process_summary := processes\<rparr>"

definition capacity_part :: "filesystem_capacity \<Rightarrow> string \<times> string \<times> nat \<times> nat \<times> nat \<times> f64 option" where
  "capacity_part f = (fc_source f, fc_mount f, fc_size_kib f, fc_used_kib f, fc_available_kib f, fc_used_ratio f)"

lemma derive_disk_capacity_quality:
  "fo_quality (derive_disk_capacity s i) = fo_quality (parse_source s (parse_df MAX_FILESYSTEMS))"
  by (auto simp: derive_disk_capacity_def Let_def parse_source_def observation_simps
      split: option.splits raw_source.splits if_splits)

lemma derive_disk_capacity_members:
  "map capacity_part (members (derive_disk_capacity s i)) = map capacity_part (members (derive_disk_capacity s i'))"
  by (auto simp: derive_disk_capacity_def Let_def members_def observation_simps capacity_part_def
      filesystem_of_def split: option.splits)

abbreviation online_of :: "host_capture \<Rightarrow> nat family_observation" where
  "online_of c \<equiv> parse_source (cap_cpu_online c) parse_online_cpu_count"

lemma observation_fields:
  "ob_cpu (parse_host_resource_v1 c) = derive_cpu c (boot_of (cap_frame_a c)) (boot_of (cap_frame_b c)) (online_of c)"
  "ob_cpu_counters (parse_host_resource_v1 c) = capture_cpu_counters c (boot_of (cap_frame_b c))"
  "ob_memory (parse_host_resource_v1 c) = derive_memory (cap_memory c)"
  "ob_load (parse_host_resource_v1 c) = derive_load (cap_load c) (online_of c)"
  "ob_disk_capacity (parse_host_resource_v1 c) = derive_disk_capacity (cap_disk_capacity c) (cap_disk_inodes c)"
  "ob_uptime (parse_host_resource_v1 c) = derive_uptime (boot_of (cap_frame_a c)) (boot_of (cap_frame_b c))"
  by (simp_all add: parse_host_resource_v1_def Let_def boot_of_def)

definition required_qualities :: "host_observation \<Rightarrow> metric_quality list" where
  "required_qualities o1 = [fo_quality (ob_cpu o1), fo_quality (ob_memory o1), fo_quality (ob_load o1),
     fo_quality (ob_disk_capacity o1), fo_quality (ob_uptime o1)]"

lemma completeness_field:
  "cov_completeness (ob_coverage (parse_host_resource_v1 c)) =
     completeness_of (length (filter is_observed (required_qualities (parse_host_resource_v1 c))))
       (length (required_qualities (parse_host_resource_v1 c)))"
  unfolding required_qualities_def observation_fields
  by (simp only: parse_host_resource_v1_def Let_def boot_of_def host_observation.simps
      collection_coverage.simps)

lemma completeness_of_filter:
  assumes "qs \<noteq> []"
  shows "completeness_of (length (filter P qs)) (length qs) = RunSucceeded \<longleftrightarrow> (\<forall>q \<in> set qs. P q)"
    and "completeness_of (length (filter P qs)) (length qs) = RunFailed \<longleftrightarrow> (\<forall>q \<in> set qs. \<not> P q)"
proof -
  have all: "length (filter P qs) = length qs \<longleftrightarrow> (\<forall>q \<in> set qs. P q)"
  proof
    assume "length (filter P qs) = length qs"
    then show "\<forall>q \<in> set qs. P q" using length_filter_less [of _ qs P] by fastforce
  qed (simp add: filter_True)
  have none: "filter P qs = [] \<longleftrightarrow> (\<forall>q \<in> set qs. \<not> P q)" by (simp add: filter_empty_conv)
  show "completeness_of (length (filter P qs)) (length qs) = RunSucceeded \<longleftrightarrow> (\<forall>q \<in> set qs. P q)"
    using all by (simp add: completeness_of_def)
  show "completeness_of (length (filter P qs)) (length qs) = RunFailed \<longleftrightarrow> (\<forall>q \<in> set qs. \<not> P q)"
    unfolding none [symmetric] using assms by (auto simp: completeness_of_def)
qed

text \<open>
  Whatever happens to the optional outputs (block and network counters, interface inventory,
  inodes, processes), the required families report the same values and the run has the same
  completeness: it has succeeded exactly when all five required families are observed and failed
  exactly when none is.
\<close>

theorem optional_never_degrades:
  "let o1 = parse_host_resource_v1 c;
       o2 = parse_host_resource_v1 (with_optional d1 n1 i1 d2 n2 i2 inodes processes c)
   in ob_cpu o2 = ob_cpu o1 \<and> ob_cpu_counters o2 = ob_cpu_counters o1 \<and> ob_memory o2 = ob_memory o1
      \<and> ob_load o2 = ob_load o1 \<and> ob_uptime o2 = ob_uptime o1
      \<and> fo_quality (ob_disk_capacity o2) = fo_quality (ob_disk_capacity o1)
      \<and> map capacity_part (members (ob_disk_capacity o2)) = map capacity_part (members (ob_disk_capacity o1))
      \<and> cov_completeness (ob_coverage o2) = cov_completeness (ob_coverage o1)
      \<and> (cov_completeness (ob_coverage o1) = RunSucceeded
           \<longleftrightarrow> set (required_qualities o1) = {Observed})
      \<and> (cov_completeness (ob_coverage o1) = RunFailed
           \<longleftrightarrow> Observed \<notin> set (required_qualities o1))"
proof -
  let ?w = "with_optional d1 n1 i1 d2 n2 i2 inodes processes c"
  have w: "fr_boot_uptime (cap_frame_a ?w) = fr_boot_uptime (cap_frame_a c)"
      "fr_boot_uptime (cap_frame_b ?w) = fr_boot_uptime (cap_frame_b c)"
      "fr_cpu (cap_frame_a ?w) = fr_cpu (cap_frame_a c)" "fr_cpu (cap_frame_b ?w) = fr_cpu (cap_frame_b c)"
      "cap_cpu_online ?w = cap_cpu_online c" "cap_memory ?w = cap_memory c" "cap_load ?w = cap_load c"
      "cap_disk_capacity ?w = cap_disk_capacity c"
    by (simp_all add: with_optional_def)
  have boot: "boot_of (cap_frame_a ?w) = boot_of (cap_frame_a c)"
      "boot_of (cap_frame_b ?w) = boot_of (cap_frame_b c)"
    by (simp_all add: boot_of_def w)
  have cong: "derive_cpu ?w a b n = derive_cpu c a b n"
      "capture_cpu_counters ?w b = capture_cpu_counters c b" for a b n
    by (simp_all add: derive_cpu_def capture_cpu_counters_def w)
  note same = observation_fields w boot cong
  have cap: "fo_quality (ob_disk_capacity (parse_host_resource_v1 ?w))
      = fo_quality (ob_disk_capacity (parse_host_resource_v1 c))"
    by (simp only: same derive_disk_capacity_quality)
  have rq: "required_qualities (parse_host_resource_v1 ?w) = required_qualities (parse_host_resource_v1 c)"
    unfolding required_qualities_def cap by (simp only: same)
  have iff: "(\<forall>q \<in> set qs. is_observed q) \<longleftrightarrow> set qs = {Observed}"
      "(\<forall>q \<in> set qs. \<not> is_observed q) \<longleftrightarrow> Observed \<notin> set qs" if "qs \<noteq> []" for qs
    using that by (cases qs, auto simp: is_observed_def)+
  have ne: "required_qualities (parse_host_resource_v1 c) \<noteq> []"
    by (simp add: required_qualities_def)
  have mem: "map capacity_part (members (ob_disk_capacity (parse_host_resource_v1 ?w)))
      = map capacity_part (members (ob_disk_capacity (parse_host_resource_v1 c)))"
    by (simp only: same) (rule derive_disk_capacity_members)
  show ?thesis
    unfolding Let_def completeness_field rq completeness_of_filter [OF ne] iff [OF ne] cap mem
    by (simp only: same simp_thms)
qed

text \<open>Two frames of a host with one core, a second apart.\<close>

definition stat_frame :: "string \<Rightarrow> string \<Rightarrow> counter_frame" where
  "stat_frame boot stat = default_frame\<lparr>fr_boot_uptime := Output boot, fr_cpu := Output stat\<rparr>"

definition two_frames :: host_capture where
  "two_frames = default_capture\<lparr>cap_frame_a := stat_frame (''b'' @ LF @ ''1'') (''cpu 1 0 0 1 0 0 0 0'' @ LF @ ''cpu0 1 0 0 1 0 0 0 0''),
     cap_frame_b := stat_frame (''b'' @ LF @ ''2'') (''cpu 2 0 0 3 0 0 0 0'' @ LF @ ''cpu0 2 0 0 3 0 0 0 0'')\<rparr>"

abbreviation user_idle :: "nat \<Rightarrow> nat \<Rightarrow> cpu_ticks" where
  "user_idle u i \<equiv> \<lparr>ct_user = u, ct_nice = 0, ct_system = 0, ct_idle = i, ct_iowait = 0, ct_irq = 0, ct_softirq = 0, ct_steal = 0\<rparr>"

lemma small_numbers: "parse_u64 ''0'' = Some 0" "parse_u64 ''1'' = Some 1" "parse_u64 ''2'' = Some 2" "parse_u64 ''3'' = Some 3"
  by (simp_all add: parse_u64_def parse_unsigned_def digit_val_def u64_max_def)

lemma small_floats: "parse_float ''1'' = Some (Fin 1)" "parse_float ''2'' = Some (Fin 2)"
proof -
  have "round_f64 1 = Fin 1" "round_f64 2 = Fin 2"
    using f_of_nat_exact [of 1] f_of_nat_exact [of 2] by (simp_all add: f_of_nat_def)
  then show "parse_float ''1'' = Some (Fin 1)" "parse_float ''2'' = Some (Fin 2)"
    by (simp_all add: parse_float_def parse_decimal_def parse_exponent_def lower_char_def is_digit_char_def
        digit_val_def Let_def)
qed

lemma frames_boot:
  "parse_boot_sample (''b'' @ LF @ ''1'') = Some \<lparr>bs_boot_id = ''b'', bs_uptime_seconds = Fin 1\<rparr>"
  "parse_boot_sample (''b'' @ LF @ ''2'') = Some \<lparr>bs_boot_id = ''b'', bs_uptime_seconds = Fin 2\<rparr>"
proof -
  have t: "trim ''b'' = ''b''" "trim ''1'' = ''1''" "trim ''2'' = ''2''" by (simp_all add: trim_plain plain_char_def)
  have w: "split_whitespace ''1'' = [''1'']" "split_whitespace ''2'' = [''2'']"
    by (simp_all add: split_whitespace_def push_word_def plain_char_def)
  have l: "lines (''b'' @ LF @ ''1'') = [''b'', ''1'']" "lines (''b'' @ LF @ ''2'') = [''b'', ''2'']"
    by (simp_all add: lines_def strip_cr_def)
  show "parse_boot_sample (''b'' @ LF @ ''1'') = Some \<lparr>bs_boot_id = ''b'', bs_uptime_seconds = Fin 1\<rparr>"
    "parse_boot_sample (''b'' @ LF @ ''2'') = Some \<lparr>bs_boot_id = ''b'', bs_uptime_seconds = Fin 2\<rparr>"
    unfolding parse_boot_sample_def l by (simp_all add: t w first_def parse_f64_def small_floats is_alnum_char_def)
qed

lemma frames_stat:
  "parse_proc_stat (''cpu 1 0 0 1 0 0 0 0'' @ LF @ ''cpu0 1 0 0 1 0 0 0 0'') = Some \<lparr>cf_aggregate = user_idle 1 1, cf_per_cpu = [(''cpu0'', user_idle 1 1)]\<rparr>"
  "parse_proc_stat (''cpu 2 0 0 3 0 0 0 0'' @ LF @ ''cpu0 2 0 0 3 0 0 0 0'') = Some \<lparr>cf_aggregate = user_idle 2 3, cf_per_cpu = [(''cpu0'', user_idle 2 3)]\<rparr>"
proof -
  have l: "lines (''cpu 1 0 0 1 0 0 0 0'' @ LF @ ''cpu0 1 0 0 1 0 0 0 0'') = [''cpu 1 0 0 1 0 0 0 0'', ''cpu0 1 0 0 1 0 0 0 0'']"
    "lines (''cpu 2 0 0 3 0 0 0 0'' @ LF @ ''cpu0 2 0 0 3 0 0 0 0'') = [''cpu 2 0 0 3 0 0 0 0'', ''cpu0 2 0 0 3 0 0 0 0'']"
    by (simp_all add: lines_def strip_cr_def)
  have w: "split_whitespace ''cpu 1 0 0 1 0 0 0 0'' = [''cpu'', ''1'', ''0'', ''0'', ''1'', ''0'', ''0'', ''0'', ''0'']"
    "split_whitespace ''cpu0 1 0 0 1 0 0 0 0'' = [''cpu0'', ''1'', ''0'', ''0'', ''1'', ''0'', ''0'', ''0'', ''0'']"
    "split_whitespace ''cpu 2 0 0 3 0 0 0 0'' = [''cpu'', ''2'', ''0'', ''0'', ''3'', ''0'', ''0'', ''0'', ''0'']"
    "split_whitespace ''cpu0 2 0 0 3 0 0 0 0'' = [''cpu0'', ''2'', ''0'', ''0'', ''3'', ''0'', ''0'', ''0'', ''0'']"
    by (simp_all add: split_whitespace_def push_word_def plain_char_def)
  have n: "is_cpu_name ''cpu''" "is_cpu_name ''cpu0''" by (simp_all add: is_cpu_name_def is_digit_char_def digit_val_def)
  show "parse_proc_stat (''cpu 1 0 0 1 0 0 0 0'' @ LF @ ''cpu0 1 0 0 1 0 0 0 0'') = Some \<lparr>cf_aggregate = user_idle 1 1, cf_per_cpu = [(''cpu0'', user_idle 1 1)]\<rparr>"
    "parse_proc_stat (''cpu 2 0 0 3 0 0 0 0'' @ LF @ ''cpu0 2 0 0 3 0 0 0 0'') = Some \<lparr>cf_aggregate = user_idle 2 3, cf_per_cpu = [(''cpu0'', user_idle 2 3)]\<rparr>"
    unfolding parse_proc_stat_def l
    by (simp_all add: w n cpu_ticks_of_def small_numbers cpu_total_def checked_add64_def u64_max_def)
qed

lemma frame_sources:
  "boot_of (cap_frame_a two_frames) = observed \<lparr>bs_boot_id = ''b'', bs_uptime_seconds = Fin 1\<rparr>"
  "boot_of (cap_frame_b two_frames) = observed \<lparr>bs_boot_id = ''b'', bs_uptime_seconds = Fin 2\<rparr>"
  "parse_source (fr_cpu (cap_frame_a two_frames)) parse_proc_stat = observed \<lparr>cf_aggregate = user_idle 1 1, cf_per_cpu = [(''cpu0'', user_idle 1 1)]\<rparr>"
  "parse_source (fr_cpu (cap_frame_b two_frames)) parse_proc_stat = observed \<lparr>cf_aggregate = user_idle 2 3, cf_per_cpu = [(''cpu0'', user_idle 2 3)]\<rparr>"
  by (simp_all add: boot_of_def two_frames_def stat_frame_def parse_source_def frames_boot [simplified] frames_stat [simplified])

lemma second_apart: "f_sub (Fin 2) (Fin 1) = Fin 1" "valid_interval (Fin 1)"
  using f_of_nat_exact [of 1] by (simp_all add: f_of_nat_def valid_interval_def MIN_COUNTER_INTERVAL_SECONDS_def f_sub_def)

theorem rates_justified_witness:
  "\<exists>m r. fo_value (ob_cpu (parse_host_resource_v1 two_frames)) = Some m \<and> r \<in> set (cm_per_cpu m) \<and> ccr_rate r \<noteq> None
     \<and> cpu_metrics_justified two_frames m"
proof -
  have le: "ticks_le (user_idle 1 1) (user_idle 2 3)" by (simp add: ticks_le_def)
  have pos: "0 < all_ticks (cpu_deltas (user_idle 1 1) (user_idle 2 3))" "100 * all_ticks (cpu_deltas (user_idle 1 1) (user_idle 2 3)) < 2 ^ 53"
    by (simp_all add: cpu_deltas_def all_ticks_def busy_ticks_def)
  obtain q where q: "diff_cpu_ticks (user_idle 1 1) (user_idle 2 3) (Fin 1) = observed q"
    using diff_cpu_ticks_eq [OF second_apart(2) le] pos by (simp add: Let_def u64_max_def)
  let ?m = "\<lparr>cm_aggregate = q, cm_per_cpu = [\<lparr>ccr_cpu = ''cpu0'', ccr_quality = Observed, ccr_rate = Some q\<rparr>],
    cm_online_cpu_count = fo_value (online_of two_frames), cm_online_cpu_quality = fo_quality (online_of two_frames),
    cm_window_seconds = Fin 1\<rparr>"
  have "fo_value (ob_cpu (parse_host_resource_v1 two_frames)) = Some ?m"
    by (simp add: observation_fields derive_cpu_def frame_sources observation_simps Let_def second_apart q [simplified] cpu_core_rate_of_def)
  then show ?thesis using rates_justified [of two_frames] by (intro exI [of _ ?m] exI) auto
qed

end
