(* ===== verification/HistorySamples.thy ===== *)
theory HistorySamples
  imports HostRates HealthEvaluation
begin

text \<open>
  How an observation becomes rows of \<open>metric_samples\<close>: \<open>samples_from_observation\<close> and
  \<open>insert_samples\<close> of \<open>backend/src/monitoring_history.rs\<close>, with the helpers \<open>push_metric\<close>,
  \<open>push_counter_metric\<close>. A loop that pushes onto the sample vector is the list
  of what it pushes. The JSON text of the dimensions is an argument (\<open>dims_json\<close>), the digest is the
  one of \<open>env\<close>.
\<close>

datatype dim_value = DimText string | DimNat nat

type_synonym dimensions = "(string \<times> dim_value) list"

record history_env = env +
  dims_json :: "dimensions \<Rightarrow> string"

record metric_sample =
  ms_family :: string
  ms_subject_kind :: string
  ms_subject_id :: string
  ms_metric_name :: string
  ms_dims_json :: string
  ms_dims_sha :: string
  ms_sample_kind :: string
  ms_value_real :: "f64 option"
  ms_value_integer :: "int option"
  ms_unit :: string
  ms_window :: "f64 option"
  ms_quality :: string

record metric_descriptor =
  md_family :: string
  md_subject_kind :: string
  md_subject_id :: string
  md_metric_name :: string
  md_sample_kind :: string
  md_unit :: string

definition descriptor :: "string \<Rightarrow> string \<Rightarrow> string \<Rightarrow> string \<Rightarrow> string \<Rightarrow> string \<Rightarrow> metric_descriptor" where
  "descriptor f k s m kind u = \<lparr>md_family = f, md_subject_kind = k, md_subject_id = s,
     md_metric_name = m, md_sample_kind = kind, md_unit = u\<rparr>"

definition HISTORY_SOURCE_KIND :: string where
  "HISTORY_SOURCE_KIND = ''ssh_host_resource_v1''"

fun quality_name :: "metric_quality \<Rightarrow> string" where
  "quality_name Observed = ''observed''"
| "quality_name Unsupported = ''unsupported''"
| "quality_name ParseFailed = ''parse_failed''"
| "quality_name CounterReset = ''counter_reset''"
| "quality_name CounterUnreliable = ''counter_unreliable''"
| "quality_name InsufficientInterval = ''insufficient_interval''"
| "quality_name metric_quality.PermissionDenied = ''permission_denied''"
| "quality_name metric_quality.TimedOut = ''timed_out''"

definition kib_as_f64_bytes :: "nat \<Rightarrow> f64" where
  "kib_as_f64_bytes v = f_mul (f_of_nat v) (Fin 1024)"

definition availability_value :: "metric_quality \<Rightarrow> f64 option" where
  "availability_value q = (if is_observed q then Some (Fin 1) else None)"

definition real_value :: "f64 option \<Rightarrow> metric_quality \<Rightarrow> f64 option \<times> metric_quality" where
  "real_value v q =
     (if is_observed q
      then (case v of
              None \<Rightarrow> (None, ParseFailed)
            | Some x \<Rightarrow> if f_is_finite x then (Some x, q) else (None, ParseFailed))
      else (None, q))"

definition integer_value :: "nat \<Rightarrow> metric_quality \<Rightarrow> int option \<times> metric_quality" where
  "integer_value v q =
     (if is_observed q
      then (if int v \<le> i64_max then (Some (int v), q) else (None, CounterUnreliable))
      else (None, q))"

definition positive_window :: "f64 option \<Rightarrow> f64 option" where
  "positive_window w =
     (case w of None \<Rightarrow> None | Some x \<Rightarrow> if f_is_finite x \<and> f_lt (Fin 0) x then Some x else None)"

definition push_metric ::
  "history_env \<Rightarrow> metric_descriptor \<Rightarrow> dimensions \<Rightarrow> f64 option \<Rightarrow> f64 option \<Rightarrow> metric_quality
     \<Rightarrow> metric_sample"
where
  "push_metric e m dims v w q =
     \<lparr>ms_family = md_family m, ms_subject_kind = md_subject_kind m, ms_subject_id = md_subject_id m,
      ms_metric_name = md_metric_name m, ms_dims_json = dims_json e dims,
      ms_dims_sha = hex_digest (sha256 e (dims_json e dims)), ms_sample_kind = md_sample_kind m,
      ms_value_real = fst (real_value v q), ms_value_integer = None, ms_unit = md_unit m,
      ms_window = positive_window w, ms_quality = quality_name (snd (real_value v q))\<rparr>"

definition push_counter_metric ::
  "history_env \<Rightarrow> metric_descriptor \<Rightarrow> dimensions \<Rightarrow> nat \<Rightarrow> metric_quality \<Rightarrow> metric_sample"
where
  "push_counter_metric e m dims v q =
     \<lparr>ms_family = md_family m, ms_subject_kind = md_subject_kind m, ms_subject_id = md_subject_id m,
      ms_metric_name = md_metric_name m, ms_dims_json = dims_json e dims,
      ms_dims_sha = hex_digest (sha256 e (dims_json e dims)), ms_sample_kind = md_sample_kind m,
      ms_value_real = None, ms_value_integer = fst (integer_value v q), ms_unit = md_unit m,
      ms_window = None, ms_quality = quality_name (snd (integer_value v q))\<rparr>"

definition push_family_availability ::
  "history_env \<Rightarrow> string \<Rightarrow> string \<Rightarrow> metric_quality \<Rightarrow> metric_sample"
where
  "push_family_availability e host family q =
     push_metric e (descriptor family ''host'' host ''availability'' ''gauge'' ''status'') []
       (availability_value q) None q"

definition push_cpu_tick_counters ::
  "history_env \<Rightarrow> string \<Rightarrow> string \<Rightarrow> dimensions \<Rightarrow> cpu_ticks \<Rightarrow> metric_quality \<Rightarrow> metric_sample list"
where
  "push_cpu_tick_counters e kind subject dims t q =
     map (\<lambda>(name, v). push_counter_metric e (descriptor ''cpu'' kind subject name ''counter'' ''ticks'') dims v q)
       [(''user_ticks'', ct_user t), (''nice_ticks'', ct_nice t), (''system_ticks'', ct_system t),
        (''idle_ticks'', ct_idle t), (''iowait_ticks'', ct_iowait t), (''irq_ticks'', ct_irq t),
        (''softirq_ticks'', ct_softirq t), (''steal_ticks'', ct_steal t)]"

text \<open>A loop that skips absent values.\<close>

definition push_present :: "('a \<times> 'b option) list \<Rightarrow> ('a \<Rightarrow> 'b \<Rightarrow> metric_sample) \<Rightarrow> metric_sample list" where
  "push_present xs f = List.map_filter (\<lambda>(n, v). map_option (f n) v) xs"

definition cpu_dimensions :: "string \<Rightarrow> dimensions" where
  "cpu_dimensions cpu = [(''cpu'', DimText cpu)]"

definition block_dimensions :: "string \<Rightarrow> nat \<Rightarrow> nat \<Rightarrow> dimensions" where
  "block_dimensions name major minor =
     bt_collect [(''name'', DimText name), (''major'', DimNat major), (''minor'', DimNat minor)]"

definition interface_dimensions :: "string \<Rightarrow> nat \<Rightarrow> nat option \<Rightarrow> dimensions" where
  "interface_dimensions name ifindex iflink =
     bt_collect ([(''name'', DimText name), (''ifindex'', DimNat ifindex)]
       @ (case iflink of None \<Rightarrow> [] | Some l \<Rightarrow> [(''iflink'', DimNat l)]))"

subsection \<open>The sections of \<open>samples_from_observation\<close>\<close>

definition availability_samples :: "history_env \<Rightarrow> string \<Rightarrow> host_observation \<Rightarrow> metric_sample list" where
  "availability_samples e host o1 =
     map (\<lambda>(family, q). push_family_availability e host family q)
       [(''cpu'', fo_quality (ob_cpu o1)), (''memory'', fo_quality (ob_memory o1)),
        (''load'', fo_quality (ob_load o1)), (''disk_capacity'', fo_quality (ob_disk_capacity o1)),
        (''disk_io'', fo_quality (ob_disk_io o1)), (''network'', fo_quality (ob_network o1)),
        (''uptime'', fo_quality (ob_uptime o1)), (''process'', fo_quality (ob_process o1))]"

definition cpu_counter_samples :: "history_env \<Rightarrow> string \<Rightarrow> host_observation \<Rightarrow> metric_sample list" where
  "cpu_counter_samples e host o1 =
     (case fo_value (ob_cpu_counters o1) of
        None \<Rightarrow> []
      | Some cpu \<Rightarrow>
          push_cpu_tick_counters e ''host'' host [] (ccn_aggregate cpu) (fo_quality (ob_cpu_counters o1))
          @ concat (map (\<lambda>core. push_cpu_tick_counters e ''cpu'' (ccs_cpu core) (cpu_dimensions (ccs_cpu core))
                (ccs_ticks core) (fo_quality (ob_cpu_counters o1))) (ccn_per_cpu cpu)))"

definition block_counter_metrics :: "history_env \<Rightarrow> metric_quality \<Rightarrow> block_io_counter \<Rightarrow> metric_sample list" where
  "block_counter_metrics e q b =
     map (\<lambda>(name, v, unit). push_counter_metric e
            (descriptor ''disk_io'' ''block_device'' (bc_identity b) name ''counter'' unit)
            (block_dimensions (bc_name b) (bc_major b) (bc_minor b)) v q)
       [(''reads_completed'', bc_reads_completed b, ''count''), (''read_sectors'', bc_read_sectors b, ''sectors''),
        (''read_time_ms'', bc_read_time_ms b, ''milliseconds''),
        (''writes_completed'', bc_writes_completed b, ''count''),
        (''write_sectors'', bc_write_sectors b, ''sectors''),
        (''write_time_ms'', bc_write_time_ms b, ''milliseconds''),
        (''io_time_ms'', bc_io_time_ms b, ''milliseconds''),
        (''weighted_io_time_ms'', bc_weighted_io_time_ms b, ''milliseconds'')]"

definition disk_counter_samples :: "history_env \<Rightarrow> host_observation \<Rightarrow> metric_sample list" where
  "disk_counter_samples e o1 =
     concat (map (block_counter_metrics e (fo_quality (ob_disk_io_counters o1)))
       (members (ob_disk_io_counters o1)))"

definition interface_counter_metrics :: "history_env \<Rightarrow> metric_quality \<Rightarrow> interface_counter \<Rightarrow> metric_sample list" where
  "interface_counter_metrics e q i =
     map (\<lambda>(name, v, unit). push_counter_metric e
            (descriptor ''network'' ''interface'' (ic_identity i) name ''counter'' unit)
            (interface_dimensions (ic_name i) (ic_ifindex i) None) v q)
       [(''rx_bytes'', ic_rx_bytes i, ''bytes''), (''rx_packets'', ic_rx_packets i, ''count''),
        (''rx_errors'', ic_rx_errors i, ''count''), (''rx_drops'', ic_rx_drops i, ''count''),
        (''tx_bytes'', ic_tx_bytes i, ''bytes''), (''tx_packets'', ic_tx_packets i, ''count''),
        (''tx_errors'', ic_tx_errors i, ''count''), (''tx_drops'', ic_tx_drops i, ''count'')]"

definition network_counter_samples :: "history_env \<Rightarrow> host_observation \<Rightarrow> metric_sample list" where
  "network_counter_samples e o1 =
     concat (map (interface_counter_metrics e (fo_quality (ob_network_counters o1)))
       (members (ob_network_counters o1)))"

definition cpu_rate_metrics ::
  "history_env \<Rightarrow> string \<Rightarrow> string \<Rightarrow> dimensions \<Rightarrow> f64 \<Rightarrow> metric_quality \<Rightarrow> cpu_rate \<Rightarrow> metric_sample list"
where
  "cpu_rate_metrics e kind subject dims window q r =
     map (\<lambda>(name, v). push_metric e (descriptor ''cpu'' kind subject name ''derived'' ''percent'') dims
            (Some v) (Some window) q)
       [(''busy_pct'', cr_busy_pct r), (''iowait_pct'', cr_iowait_pct r), (''steal_pct'', cr_steal_pct r)]"

definition core_metrics :: "history_env \<Rightarrow> f64 \<Rightarrow> cpu_core_rate \<Rightarrow> metric_sample list" where
  "core_metrics e window core =
     push_metric e (descriptor ''cpu'' ''cpu'' (ccr_cpu core) ''availability'' ''gauge'' ''status'')
       (cpu_dimensions (ccr_cpu core)) (availability_value (ccr_quality core)) (Some window) (ccr_quality core)
     # (case ccr_rate core of
          None \<Rightarrow> []
        | Some r \<Rightarrow> cpu_rate_metrics e ''cpu'' (ccr_cpu core) (cpu_dimensions (ccr_cpu core)) window
            (ccr_quality core) r)"

definition cpu_samples :: "history_env \<Rightarrow> string \<Rightarrow> host_observation \<Rightarrow> metric_sample list" where
  "cpu_samples e host o1 =
     (case fo_value (ob_cpu o1) of
        None \<Rightarrow> []
      | Some cpu \<Rightarrow>
          cpu_rate_metrics e ''host'' host [] (cm_window_seconds cpu) (fo_quality (ob_cpu o1)) (cm_aggregate cpu)
          @ (case cm_online_cpu_count cpu of
               None \<Rightarrow> []
             | Some n \<Rightarrow> [push_metric e (descriptor ''cpu'' ''host'' host ''online_cpu_count'' ''gauge'' ''count'') []
                 (Some (f_of_nat n)) None (cm_online_cpu_quality cpu)])
          @ concat (map (core_metrics e (cm_window_seconds cpu)) (cm_per_cpu cpu)))"

definition memory_metric_list :: "memory_metrics \<Rightarrow> ((string \<times> metric_quality) \<times> nat option) list" where
  "memory_metric_list m =
     [((''total_bytes'', Observed), Some (mm_total_kib m)),
      ((''available_bytes'', mm_derived_quality m), mm_available_kib m),
      ((''used_bytes'', mm_derived_quality m), mm_used_kib m),
      ((''swap_total_bytes'', Observed), mm_swap_total_kib m),
      ((''swap_free_bytes'', Observed), mm_swap_free_kib m),
      ((''cached_bytes'', Observed), mm_cached_kib m),
      ((''buffers_bytes'', Observed), mm_buffers_kib m),
      ((''slab_bytes'', Observed), mm_slab_kib m)]"

definition memory_samples :: "history_env \<Rightarrow> string \<Rightarrow> host_observation \<Rightarrow> metric_sample list" where
  "memory_samples e host o1 =
     (case fo_value (ob_memory o1) of
        None \<Rightarrow> []
      | Some m \<Rightarrow> push_present (memory_metric_list m) (\<lambda>(name, q) v.
          push_metric e (descriptor ''memory'' ''host'' host name
            (if name = ''used_bytes'' then ''derived'' else ''gauge'') ''bytes'') []
            (Some (kib_as_f64_bytes v)) None q))"

definition load_metric_samples :: "history_env \<Rightarrow> string \<Rightarrow> host_observation \<Rightarrow> metric_sample list" where
  "load_metric_samples e host o1 =
     (case fo_value (ob_load o1) of
        None \<Rightarrow> []
      | Some l \<Rightarrow>
          map (\<lambda>(name, v). push_metric e (descriptor ''load'' ''host'' host name ''gauge'' ''load'') [] (Some v)
                 None (fo_quality (ob_load o1)))
            [(''load1'', lm_load1 l), (''load5'', lm_load5 l), (''load15'', lm_load15 l)]
          @ push_present [(''normalized_load1'', lm_normalized1 l), (''normalized_load5'', lm_normalized5 l),
              (''normalized_load15'', lm_normalized15 l)]
              (\<lambda>name v. push_metric e (descriptor ''load'' ''host'' host name ''derived'' ''ratio'') [] (Some v)
                 None (lm_normalized_quality l))
          @ map (\<lambda>(name, v). push_metric e (descriptor ''load'' ''host'' host name ''gauge'' ''count'') []
                 (Some (f_of_nat v)) None (fo_quality (ob_load o1)))
            [(''runnable_entities'', lm_runnable l), (''scheduling_entities'', lm_total_entities l)])"

definition starts_inode :: "string \<Rightarrow> bool" where
  "starts_inode name = (strip_prefix ''inode_'' name \<noteq> None)"

definition filesystem_metrics :: "history_env \<Rightarrow> metric_quality \<Rightarrow> filesystem_capacity \<Rightarrow> metric_sample list" where
  "filesystem_metrics e q f =
     (let subject = stable_subject_id e ''filesystem'' (fc_mount f);
          dims = [(''mount'', DimText (fc_mount f))]
      in push_metric e (descriptor ''disk_capacity'' ''filesystem'' subject ''availability'' ''gauge'' ''status'')
           dims (availability_value q) None q
         # push_present
             [(''size_bytes'', Some (fc_size_kib f)), (''used_bytes'', Some (fc_used_kib f)),
              (''available_bytes'', Some (fc_available_kib f)), (''inode_total'', fc_inode_total f),
              (''inode_used'', fc_inode_used f), (''inode_available'', fc_inode_available f)]
             (\<lambda>name v. push_metric e (descriptor ''disk_capacity'' ''filesystem'' subject name ''gauge''
                  (if starts_inode name then ''count'' else ''bytes'')) dims
                (Some (if starts_inode name then f_of_nat v else kib_as_f64_bytes v)) None
                (if starts_inode name then fc_inode_quality f else q))
         @ push_present
             [((''allocatable_used_ratio'', q), fc_used_ratio f),
              ((''inode_used_ratio'', fc_inode_quality f), fc_inode_used_ratio f)]
             (\<lambda>(name, mq) v. push_metric e (descriptor ''disk_capacity'' ''filesystem'' subject name ''derived''
                  ''ratio'') dims (Some v) None mq))"

definition capacity_samples :: "history_env \<Rightarrow> host_observation \<Rightarrow> metric_sample list" where
  "capacity_samples e o1 =
     concat (map (filesystem_metrics e (fo_quality (ob_disk_capacity o1))) (members (ob_disk_capacity o1)))"

definition block_metrics :: "history_env \<Rightarrow> block_io_rate \<Rightarrow> metric_sample list" where
  "block_metrics e b =
     (let dims = block_dimensions (br_name b) (br_major b) (br_minor b)
      in push_metric e (descriptor ''disk_io'' ''block_device'' (br_identity b) ''availability'' ''gauge'' ''status'')
           dims (availability_value (br_quality b)) (Some (br_window_seconds b)) (br_quality b)
         # (case br_metrics b of
              None \<Rightarrow> []
            | Some m \<Rightarrow>
                map (\<lambda>(name, v, unit). push_metric e
                    (descriptor ''disk_io'' ''block_device'' (br_identity b) name ''derived'' unit) dims
                    (Some v) (Some (br_window_seconds b)) (br_quality b))
                  [(''read_bytes_per_second'', bm_read_bytes m, ''bytes_per_second''),
                   (''write_bytes_per_second'', bm_write_bytes m, ''bytes_per_second''),
                   (''iops'', bm_iops m, ''operations_per_second''), (''util_pct'', bm_util_pct m, ''percent''),
                   (''average_queue_depth'', bm_queue_depth m, ''count'')]
                @ push_present [(''read_await_ms'', bm_read_await_ms m), (''write_await_ms'', bm_write_await_ms m)]
                    (\<lambda>name v. push_metric e
                      (descriptor ''disk_io'' ''block_device'' (br_identity b) name ''derived'' ''milliseconds'')
                      dims (Some v) (Some (br_window_seconds b)) (br_quality b))))"

definition disk_samples :: "history_env \<Rightarrow> host_observation \<Rightarrow> metric_sample list" where
  "disk_samples e o1 = concat (map (block_metrics e) (members (ob_disk_io o1)))"

definition interface_metric_samples :: "history_env \<Rightarrow> interface_rate \<Rightarrow> metric_sample list" where
  "interface_metric_samples e i =
     (let dims = interface_dimensions (ir_name i) (ir_ifindex i) (ir_iflink i)
      in push_metric e (descriptor ''network'' ''interface'' (ir_identity i) ''availability'' ''gauge'' ''status'')
           dims (availability_value (ir_quality i)) (Some (ir_window_seconds i)) (ir_quality i)
         # push_present [(''speed_mbps'', ir_speed_mbps i)]
             (\<lambda>name v. push_metric e
               (descriptor ''network'' ''interface'' (ir_identity i) name ''gauge'' ''megabits_per_second'') dims
               (Some (f_of_nat v)) None Observed)
         @ (case ir_metrics i of
              None \<Rightarrow> []
            | Some m \<Rightarrow>
                map (\<lambda>(name, v, unit). push_metric e
                    (descriptor ''network'' ''interface'' (ir_identity i) name ''derived'' unit) dims
                    (Some v) (Some (ir_window_seconds i)) (ir_quality i))
                  [(''rx_bytes_per_second'', im_rx_bytes m, ''bytes_per_second''),
                   (''tx_bytes_per_second'', im_tx_bytes m, ''bytes_per_second''),
                   (''rx_packets_per_second'', im_rx_packets m, ''packets_per_second''),
                   (''tx_packets_per_second'', im_tx_packets m, ''packets_per_second'')]
                @ push_present
                    [(''rx_error_drop_pct'', im_rx_error_drop_pct m), (''tx_error_drop_pct'', im_tx_error_drop_pct m),
                     (''rx_util_pct'', im_rx_util_pct m), (''tx_util_pct'', im_tx_util_pct m)]
                    (\<lambda>name v. push_metric e
                      (descriptor ''network'' ''interface'' (ir_identity i) name ''derived'' ''percent'')
                      dims (Some v) (Some (ir_window_seconds i)) (ir_quality i))))"

definition network_samples :: "history_env \<Rightarrow> host_observation \<Rightarrow> metric_sample list" where
  "network_samples e o1 = concat (map (interface_metric_samples e) (members (ob_network o1)))"

definition uptime_samples :: "history_env \<Rightarrow> string \<Rightarrow> host_observation \<Rightarrow> metric_sample list" where
  "uptime_samples e host o1 =
     (case fo_value (ob_uptime o1) of
        None \<Rightarrow> []
      | Some u \<Rightarrow> [push_metric e (descriptor ''uptime'' ''host'' host ''uptime_seconds'' ''gauge'' ''seconds'')
          [(''boot_id'', DimText (um_boot_id u))] (Some (um_uptime_seconds u)) None (fo_quality (ob_uptime o1))])"

definition process_samples :: "history_env \<Rightarrow> host_observation \<Rightarrow> metric_sample list" where
  "process_samples e o1 =
     (case fo_value (ob_process o1) of
        None \<Rightarrow> []
      | Some p \<Rightarrow>
          map (\<lambda>(name, v). push_metric e (descriptor ''process'' ''process'' ''summary'' name ''gauge'' ''count'')
                 [] (Some (f_of_nat v)) None (fo_quality (ob_process o1)))
            [(''scanned'', ps_scanned p), (''running'', ps_running p), (''blocked'', ps_blocked p),
             (''zombie'', ps_zombie p), (''raced'', ps_raced p)])"

definition samples_from_observation ::
  "history_env \<Rightarrow> string \<Rightarrow> host_observation \<Rightarrow> metric_sample list"
where
  "samples_from_observation e host o1 =
     availability_samples e host o1 @ cpu_counter_samples e host o1 @ disk_counter_samples e o1
     @ network_counter_samples e o1 @ cpu_samples e host o1 @ memory_samples e host o1
     @ load_metric_samples e host o1 @ capacity_samples e o1 @ disk_samples e o1 @ network_samples e o1
     @ uptime_samples e host o1 @ process_samples e o1"

subsection \<open>Insertion\<close>

definition sample_row_of ::
  "string \<Rightarrow> string \<Rightarrow> millis \<Rightarrow> millis \<Rightarrow> millis \<Rightarrow> string \<Rightarrow> metric_sample \<Rightarrow> sample_row"
where
  "sample_row_of run host observed_at observed_ms created_at i s =
     \<lparr>smp_id = i, smp_run = run, smp_host = host, smp_family = ms_family s,
      smp_subject_kind = ms_subject_kind s, smp_subject_id = ms_subject_id s,
      smp_metric = ms_metric_name s, smp_dims_json = ms_dims_json s, smp_dims_sha = ms_dims_sha s,
      smp_kind = ms_sample_kind s, smp_value = ms_value_real s, smp_value_integer = ms_value_integer s,
      smp_unit = ms_unit s, smp_window = ms_window s, smp_quality = ms_quality s,
      smp_observed_at = observed_at, smp_observed_ms = observed_ms, smp_source = HISTORY_SOURCE_KIND,
      smp_created_at = created_at\<rparr>"

text \<open>\<open>ids\<close> are the fresh identifiers of the rows.\<close>

fun insert_rows :: "sample_row list \<Rightarrow> db \<Rightarrow> nat \<Rightarrow> (nat \<times> db) stmt" where
  "insert_rows [] d n = Inr (n, d)"
| "insert_rows (r # rs) d n = (case insert_sample r d of Inl x \<Rightarrow> Inl x | Inr d1 \<Rightarrow> insert_rows rs d1 (n + 1))"

definition insert_samples ::
  "string \<Rightarrow> string \<Rightarrow> millis \<Rightarrow> millis \<Rightarrow> millis \<Rightarrow> string list \<Rightarrow> metric_sample list \<Rightarrow> db
     \<Rightarrow> (nat \<times> db) stmt"
where
  "insert_samples run host observed_at observed_ms created_at ids ss d =
     insert_rows (map2 (sample_row_of run host observed_at observed_ms created_at) ids ss) d 0"

subsection \<open>One sample per slot\<close>

text \<open>
  The slot of a sample is its family, subject kind and metric name (the topic) with its subject. The
  sections of an observation have disjoint topics, and the loops of a section go through distinct
  subjects or distinct metric names.
\<close>

type_synonym topic = "string \<times> string \<times> string"

definition ms_topic :: "metric_sample \<Rightarrow> topic" where
  "ms_topic s = (ms_family s, ms_subject_kind s, ms_metric_name s)"

definition ms_slot :: "metric_sample \<Rightarrow> topic \<times> string" where
  "ms_slot s = (ms_topic s, ms_subject_id s)"

definition block_ok :: "topic set \<Rightarrow> metric_sample list \<Rightarrow> bool" where
  "block_ok T ss = (distinct (map ms_slot ss) \<and> ms_topic ` set ss \<subseteq> T)"

definition topics :: "string \<Rightarrow> string \<Rightarrow> string list \<Rightarrow> topic set" where
  "topics f k ns = (\<lambda>n. (f, k, n)) ` set ns"

lemma topics_mem [simp]: "(g, l, n) \<in> topics f k ns \<longleftrightarrow> g = f \<and> l = k \<and> n \<in> set ns"
  by (auto simp: topics_def)

lemma topics_disjoint [simp]:
  "topics f k ns \<inter> topics g l ms = {} \<longleftrightarrow> f \<noteq> g \<or> k \<noteq> l \<or> set ns \<inter> set ms = {}"
  by (auto simp: topics_def)

lemma topics_subset [simp]: "topics f k ns \<subseteq> topics f k ms \<longleftrightarrow> set ns \<subseteq> set ms"
  by (auto simp: topics_def)

lemma block_ok_append:
  "block_ok A xs \<Longrightarrow> block_ok B ys \<Longrightarrow> A \<inter> B = {} \<Longrightarrow> block_ok (A \<union> B) (xs @ ys)"
  by (fastforce simp: block_ok_def ms_slot_def)

lemma block_ok_Nil [simp]: "block_ok T []"
  by (simp add: block_ok_def)

lemma block_ok_Cons:
  "block_ok T (s # ss) \<longleftrightarrow> ms_topic s \<in> T \<and> block_ok T ss \<and> ms_slot s \<notin> ms_slot ` set ss"
  by (auto simp: block_ok_def)

lemma block_ok_mono: "block_ok A xs \<Longrightarrow> A \<subseteq> B \<Longrightarrow> block_ok B xs"
  by (auto simp: block_ok_def)

lemma block_ok_head:
  "ms_topic s \<in> A \<Longrightarrow> block_ok B ss \<Longrightarrow> A \<inter> B = {} \<Longrightarrow> block_ok (A \<union> B) (s # ss)"
  by (fastforce simp: block_ok_def ms_slot_def)

lemma block_ok_append_slots:
  "block_ok T xs \<Longrightarrow> block_ok T ys \<Longrightarrow> ms_slot ` set xs \<inter> ms_slot ` set ys = {} \<Longrightarrow> block_ok T (xs @ ys)"
  by (simp add: block_ok_def image_Un)

lemma block_ok_concat:
  assumes "distinct (map key xs)"
    and "\<And>x. x \<in> set xs \<Longrightarrow> block_ok T (f x)"
    and "\<And>x s. x \<in> set xs \<Longrightarrow> s \<in> set (f x) \<Longrightarrow> tag (ms_slot s) = key x"
  shows "block_ok T (concat (map f xs))"
  using assms
proof (induction xs)
  case (Cons x xs)
  have "block_ok T (f x)" and rest: "block_ok T (concat (map f xs))" using Cons by simp_all
  moreover have "ms_slot ` set (f x) \<inter> ms_slot ` set (concat (map f xs)) = {}"
  proof -
    have "tag y = key x" if "y \<in> ms_slot ` set (f x)" for y using that Cons.prems(3) by auto
    moreover have "tag y \<in> key ` set xs" if y: "y \<in> ms_slot ` set (concat (map f xs))" for y
    proof -
      obtain z s where "z \<in> set xs" "s \<in> set (f z)" "y = ms_slot s" using y by auto
      then show ?thesis using Cons.prems(3) [of z s] by simp
    qed
    moreover have "key x \<notin> key ` set xs" using Cons.prems(1) by simp
    ultimately show ?thesis by (metis disjoint_iff)
  qed
  ultimately show ?case using block_ok_append_slots by simp
qed simp

lemma block_ok_map:
  assumes "distinct (map key xs)" and "\<And>x. x \<in> set xs \<Longrightarrow> ms_topic (f x) \<in> T"
    and "\<And>x. x \<in> set xs \<Longrightarrow> tag (ms_slot (f x)) = key x"
  shows "block_ok T (map f xs)"
proof -
  have "block_ok T (concat (map (\<lambda>x. [f x]) xs))"
    using assms by (intro block_ok_concat [where key = key and tag = tag]) (auto simp: block_ok_Cons)
  moreover have "concat (map (\<lambda>x. [f x]) xs) = map f xs" by (induction xs) auto
  ultimately show ?thesis by simp
qed

lemma push_present_concat:
  "push_present xs f = concat (map (\<lambda>(n, v). case v of None \<Rightarrow> [] | Some x \<Rightarrow> [f n x]) xs)"
  by (induction xs) (auto simp: push_present_def map_filter_simps split: option.splits)

lemma block_ok_present:
  assumes "distinct (map (key \<circ> fst) xs)" and "\<And>n v x. (n, v) \<in> set xs \<Longrightarrow> ms_topic (f n x) \<in> T"
    and "\<And>n v x. (n, v) \<in> set xs \<Longrightarrow> tag (ms_slot (f n x)) = key n"
  shows "block_ok T (push_present xs f)"
  unfolding push_present_concat
  using assms
  by (intro block_ok_concat [where key = "key \<circ> fst" and tag = tag])
    (auto simp: block_ok_Cons split: option.splits)

lemma ms_topic_push [simp]:
  "ms_topic (push_metric e m dims v w q) = (md_family m, md_subject_kind m, md_metric_name m)"
  "ms_topic (push_counter_metric e m dims n q) = (md_family m, md_subject_kind m, md_metric_name m)"
  by (simp_all add: ms_topic_def push_metric_def push_counter_metric_def)

lemma ms_slot_push [simp]:
  "ms_slot (push_metric e m dims v w q) = ((md_family m, md_subject_kind m, md_metric_name m), md_subject_id m)"
  "ms_slot (push_counter_metric e m dims n q) =
     ((md_family m, md_subject_kind m, md_metric_name m), md_subject_id m)"
  by (simp_all add: ms_slot_def) (simp_all add: push_metric_def push_counter_metric_def)

lemma descriptor_fields [simp]:
  "md_family (descriptor f k s m kind u) = f" "md_subject_kind (descriptor f k s m kind u) = k"
  "md_subject_id (descriptor f k s m kind u) = s" "md_metric_name (descriptor f k s m kind u) = m"
  "md_sample_kind (descriptor f k s m kind u) = kind" "md_unit (descriptor f k s m kind u) = u"
  by (simp_all add: descriptor_def)

abbreviation slot_metric :: "topic \<times> string \<Rightarrow> string" where
  "slot_metric x \<equiv> snd (snd (fst x))"

definition tick_names :: "string list" where
  "tick_names = [''user_ticks'', ''nice_ticks'', ''system_ticks'', ''idle_ticks'', ''iowait_ticks'',
     ''irq_ticks'', ''softirq_ticks'', ''steal_ticks'']"

definition rate_names :: "string list" where
  "rate_names = [''busy_pct'', ''iowait_pct'', ''steal_pct'']"

definition block_counter_names :: "string list" where
  "block_counter_names = [''reads_completed'', ''read_sectors'', ''read_time_ms'', ''writes_completed'',
     ''write_sectors'', ''write_time_ms'', ''io_time_ms'', ''weighted_io_time_ms'']"

definition interface_counter_names :: "string list" where
  "interface_counter_names = [''rx_bytes'', ''rx_packets'', ''rx_errors'', ''rx_drops'', ''tx_bytes'',
     ''tx_packets'', ''tx_errors'', ''tx_drops'']"

definition memory_names :: "string list" where
  "memory_names = [''total_bytes'', ''available_bytes'', ''used_bytes'', ''swap_total_bytes'',
     ''swap_free_bytes'', ''cached_bytes'', ''buffers_bytes'', ''slab_bytes'']"

definition load_names :: "string list" where
  "load_names = [''load1'', ''load5'', ''load15'', ''normalized_load1'', ''normalized_load5'',
     ''normalized_load15'', ''runnable_entities'', ''scheduling_entities'']"

definition filesystem_names :: "string list" where
  "filesystem_names = [''availability'', ''size_bytes'', ''used_bytes'', ''available_bytes'', ''inode_total'',
     ''inode_used'', ''inode_available'', ''allocatable_used_ratio'', ''inode_used_ratio'']"

definition block_names :: "string list" where
  "block_names = [''availability'', ''read_bytes_per_second'', ''write_bytes_per_second'', ''iops'',
     ''util_pct'', ''average_queue_depth'', ''read_await_ms'', ''write_await_ms'']"

definition interface_names :: "string list" where
  "interface_names = [''availability'', ''speed_mbps'', ''rx_bytes_per_second'', ''tx_bytes_per_second'',
     ''rx_packets_per_second'', ''tx_packets_per_second'', ''rx_error_drop_pct'', ''tx_error_drop_pct'',
     ''rx_util_pct'', ''tx_util_pct'']"

definition process_names :: "string list" where
  "process_names = [''scanned'', ''running'', ''blocked'', ''zombie'', ''raced'']"

lemmas name_lists =
  tick_names_def rate_names_def block_counter_names_def interface_counter_names_def memory_names_def
  load_names_def filesystem_names_def block_names_def interface_names_def process_names_def

lemma availability_block: "block_ok ((\<lambda>f. (f, ''host'', ''availability'')) ` set sample_families)
    (availability_samples e host o1)"
  unfolding availability_samples_def
  by (rule block_ok_map [where key = fst and tag = "\<lambda>x. fst (fst x)"])
    (auto simp: push_family_availability_def sample_families_def)

lemma tick_block: "block_ok (topics ''cpu'' k tick_names) (push_cpu_tick_counters e k s dims t q)"
  unfolding push_cpu_tick_counters_def
  by (rule block_ok_map [where key = fst and tag = slot_metric]) (auto simp: topics_def tick_names_def)

lemma tick_subject: "x \<in> set (push_cpu_tick_counters e k s dims t q) \<Longrightarrow> snd (ms_slot x) = s"
  by (auto simp: push_cpu_tick_counters_def)

lemma rate_block: "block_ok (topics ''cpu'' k rate_names) (cpu_rate_metrics e k s dims w q r)"
  unfolding cpu_rate_metrics_def
  by (rule block_ok_map [where key = fst and tag = slot_metric]) (auto simp: topics_def rate_names_def)

lemma rate_subject: "x \<in> set (cpu_rate_metrics e k s dims w q r) \<Longrightarrow> snd (ms_slot x) = s"
  by (auto simp: cpu_rate_metrics_def)

lemma block_counter_block:
  "block_ok (topics ''disk_io'' ''block_device'' block_counter_names) (block_counter_metrics e q b)"
  unfolding block_counter_metrics_def
  by (rule block_ok_map [where key = fst and tag = slot_metric]) (auto simp: topics_def block_counter_names_def)

lemma interface_counter_block:
  "block_ok (topics ''network'' ''interface'' interface_counter_names) (interface_counter_metrics e q b)"
  unfolding interface_counter_metrics_def
  by (rule block_ok_map [where key = fst and tag = slot_metric]) (auto simp: topics_def interface_counter_names_def)

lemma memory_block: "block_ok (topics ''memory'' ''host'' memory_names) (memory_samples e host o1)"
proof (cases "fo_value (ob_memory o1)")
  case None
  then show ?thesis by (simp add: memory_samples_def)
next
  case (Some m)
  then show ?thesis
    unfolding memory_samples_def Some option.case
    by (intro block_ok_present [where key = fst and tag = slot_metric])
      (auto simp: memory_metric_list_def topics_def memory_names_def)
qed

lemma load_block: "block_ok (topics ''load'' ''host'' load_names) (load_metric_samples e host o1)"
proof (cases "fo_value (ob_load o1)")
  case None
  then show ?thesis by (simp add: load_metric_samples_def)
next
  case (Some l)
  let ?A = "topics ''load'' ''host'' [''load1'', ''load5'', ''load15'']"
  let ?B = "topics ''load'' ''host'' [''normalized_load1'', ''normalized_load5'', ''normalized_load15'']"
  let ?C = "topics ''load'' ''host'' [''runnable_entities'', ''scheduling_entities'']"
  have "block_ok (?A \<union> (?B \<union> ?C)) (load_metric_samples e host o1)"
    unfolding load_metric_samples_def Some option.case
    by (intro block_ok_append block_ok_map [where key = fst and tag = slot_metric]
        block_ok_present [where key = "\<lambda>x. x" and tag = slot_metric])
      (auto simp: topics_def)
  then show ?thesis by (rule block_ok_mono) (simp add: load_names_def)
qed

lemma availability_not_rate: "''availability'' \<notin> set rate_names"
  by (simp add: rate_names_def)

lemma core_block: "block_ok (topics ''cpu'' ''cpu'' (''availability'' # rate_names)) (core_metrics e w c)"
proof -
  have "block_ok (topics ''cpu'' ''cpu'' [''availability''] \<union> topics ''cpu'' ''cpu'' rate_names) (core_metrics e w c)"
    unfolding core_metrics_def
    by (rule block_ok_head) (simp_all add: rate_block availability_not_rate split: option.split)
  then show ?thesis by (rule block_ok_mono) auto
qed

lemma core_subject: "x \<in> set (core_metrics e w c) \<Longrightarrow> snd (ms_slot x) = ccr_cpu c"
  by (auto simp: core_metrics_def rate_subject split: option.splits)

lemma set_push_present: "x \<in> set (push_present xs f) \<longleftrightarrow> (\<exists>n v. (n, Some v) \<in> set xs \<and> x = f n v)"
  by (induction xs) (auto simp: push_present_def map_filter_simps split: option.splits)

lemma filesystem_block: "block_ok (topics ''disk_capacity'' ''filesystem'' filesystem_names) (filesystem_metrics e q f)"
proof -
  have "block_ok (topics ''disk_capacity'' ''filesystem'' [''availability'']
     \<union> (topics ''disk_capacity'' ''filesystem'' [''size_bytes'', ''used_bytes'', ''available_bytes'',
            ''inode_total'', ''inode_used'', ''inode_available'']
        \<union> topics ''disk_capacity'' ''filesystem'' [''allocatable_used_ratio'', ''inode_used_ratio'']))
     (filesystem_metrics e q f)"
    unfolding filesystem_metrics_def Let_def
  proof (intro block_ok_head block_ok_append)
  qed (rule block_ok_present [where key = "\<lambda>x. x" and tag = slot_metric]
        block_ok_present [where key = fst and tag = slot_metric]; force | simp add: Int_Un_distrib)+
  then show ?thesis by (rule block_ok_mono) (simp add: filesystem_names_def)
qed

lemma filesystem_subject:
  "x \<in> set (filesystem_metrics e q f) \<Longrightarrow> snd (ms_slot x) = stable_subject_id e ''filesystem'' (fc_mount f)"
  by (auto simp: filesystem_metrics_def Let_def set_push_present)

lemma block_rate_block: "block_ok (topics ''disk_io'' ''block_device'' block_names) (block_metrics e b)"
proof (cases "br_metrics b")
  case None
  have "block_ok (topics ''disk_io'' ''block_device'' [''availability''] \<union> {}) (block_metrics e b)"
    unfolding block_metrics_def Let_def None option.case by (rule block_ok_head) simp_all
  then show ?thesis by (rule block_ok_mono) (simp add: block_names_def)
next
  case (Some m)
  have "block_ok (topics ''disk_io'' ''block_device'' [''availability'']
     \<union> (topics ''disk_io'' ''block_device'' [''read_bytes_per_second'', ''write_bytes_per_second'', ''iops'',
           ''util_pct'', ''average_queue_depth'']
        \<union> topics ''disk_io'' ''block_device'' [''read_await_ms'', ''write_await_ms''])) (block_metrics e b)"
    unfolding block_metrics_def Let_def Some option.case
  proof (intro block_ok_head block_ok_append)
  qed (rule block_ok_present [where key = "\<lambda>x. x" and tag = slot_metric]
        block_ok_map [where key = fst and tag = slot_metric]; force | simp add: Int_Un_distrib)+
  then show ?thesis by (rule block_ok_mono) (simp add: block_names_def)
qed

lemma block_rate_subject: "x \<in> set (block_metrics e b) \<Longrightarrow> snd (ms_slot x) = br_identity b"
  by (auto simp: block_metrics_def Let_def set_push_present split: option.splits)

lemma interface_block: "block_ok (topics ''network'' ''interface'' interface_names) (interface_metric_samples e i)"
proof (cases "ir_metrics i")
  case None
  have "block_ok (topics ''network'' ''interface'' [''availability''] \<union> (topics ''network'' ''interface'' [''speed_mbps''] \<union> {}))
     (interface_metric_samples e i)"
    unfolding interface_metric_samples_def Let_def None option.case
  proof (intro block_ok_head block_ok_append)
  qed (rule block_ok_present [where key = "\<lambda>x. x" and tag = slot_metric]; force | simp add: Int_Un_distrib)+
  then show ?thesis by (rule block_ok_mono) (simp add: interface_names_def)
next
  case (Some m)
  have "block_ok (topics ''network'' ''interface'' [''availability'']
     \<union> (topics ''network'' ''interface'' [''speed_mbps'']
     \<union> (topics ''network'' ''interface'' [''rx_bytes_per_second'', ''tx_bytes_per_second'',
           ''rx_packets_per_second'', ''tx_packets_per_second'']
        \<union> topics ''network'' ''interface'' [''rx_error_drop_pct'', ''tx_error_drop_pct'',
           ''rx_util_pct'', ''tx_util_pct'']))) (interface_metric_samples e i)"
    unfolding interface_metric_samples_def Let_def Some option.case
  proof (intro block_ok_head block_ok_append)
  qed (rule block_ok_present [where key = "\<lambda>x. x" and tag = slot_metric]
        block_ok_map [where key = fst and tag = slot_metric]; force | simp add: Int_Un_distrib)+
  then show ?thesis by (rule block_ok_mono) (simp add: interface_names_def)
qed

lemma interface_subject: "x \<in> set (interface_metric_samples e i) \<Longrightarrow> snd (ms_slot x) = ir_identity i"
  by (auto simp: interface_metric_samples_def Let_def set_push_present split: option.splits)

definition core_counters :: "host_observation \<Rightarrow> cpu_core_counter list" where
  "core_counters o1 = (case fo_value (ob_cpu_counters o1) of None \<Rightarrow> [] | Some c \<Rightarrow> ccn_per_cpu c)"

definition core_rates :: "host_observation \<Rightarrow> cpu_core_rate list" where
  "core_rates o1 = (case fo_value (ob_cpu o1) of None \<Rightarrow> [] | Some c \<Rightarrow> cm_per_cpu c)"

text \<open>The subjects of each kind are told apart by their identifiers.\<close>

definition distinct_subjects :: "history_env \<Rightarrow> host_observation \<Rightarrow> bool" where
  "distinct_subjects e o1 =
     (distinct (map ccs_cpu (core_counters o1)) \<and> distinct (map ccr_cpu (core_rates o1))
      \<and> distinct (map bc_identity (members (ob_disk_io_counters o1)))
      \<and> distinct (map ic_identity (members (ob_network_counters o1)))
      \<and> distinct (map (\<lambda>f. stable_subject_id e ''filesystem'' (fc_mount f)) (members (ob_disk_capacity o1)))
      \<and> distinct (map br_identity (members (ob_disk_io o1)))
      \<and> distinct (map ir_identity (members (ob_network o1))))"

definition availability_topics :: "topic set" where
  "availability_topics = (\<lambda>f. (f, ''host'', ''availability'')) ` set sample_families"

lemma availability_disjoint [simp]:
  "availability_topics \<inter> topics g l ms = {}
     \<longleftrightarrow> g \<notin> set sample_families \<or> l \<noteq> ''host'' \<or> ''availability'' \<notin> set ms"
  by (auto simp: availability_topics_def topics_def)

definition observation_topics :: "topic set" where
  "observation_topics =
     availability_topics
     \<union> ((topics ''cpu'' ''host'' tick_names \<union> topics ''cpu'' ''cpu'' tick_names)
     \<union> (topics ''disk_io'' ''block_device'' block_counter_names
     \<union> (topics ''network'' ''interface'' interface_counter_names
     \<union> ((topics ''cpu'' ''host'' rate_names
          \<union> (topics ''cpu'' ''host'' [''online_cpu_count''] \<union> topics ''cpu'' ''cpu'' (''availability'' # rate_names)))
     \<union> (topics ''memory'' ''host'' memory_names
     \<union> (topics ''load'' ''host'' load_names
     \<union> (topics ''disk_capacity'' ''filesystem'' filesystem_names
     \<union> (topics ''disk_io'' ''block_device'' block_names
     \<union> (topics ''network'' ''interface'' interface_names
     \<union> (topics ''uptime'' ''host'' [''uptime_seconds''] \<union> topics ''process'' ''process'' process_names))))))))))"

lemma cpu_counter_block:
  assumes "distinct (map ccs_cpu (core_counters o1))"
  shows "block_ok (topics ''cpu'' ''host'' tick_names \<union> topics ''cpu'' ''cpu'' tick_names)
    (cpu_counter_samples e host o1)"
proof (cases "fo_value (ob_cpu_counters o1)")
  case None
  then show ?thesis by (simp add: cpu_counter_samples_def)
next
  case (Some c)
  then have d: "distinct (map ccs_cpu (ccn_per_cpu c))" using assms by (simp add: core_counters_def)
  have "block_ok (topics ''cpu'' ''cpu'' tick_names)
     (concat (map (\<lambda>core. push_cpu_tick_counters e ''cpu'' (ccs_cpu core) (cpu_dimensions (ccs_cpu core))
                (ccs_ticks core) q) (ccn_per_cpu c)))" for q
    using tick_block tick_subject by (rule block_ok_concat [OF d, where tag = snd])
  then show ?thesis
    unfolding cpu_counter_samples_def Some option.case by (intro block_ok_append tick_block) simp_all
qed

lemma cpu_block:
  assumes "distinct (map ccr_cpu (core_rates o1))"
  shows "block_ok (topics ''cpu'' ''host'' rate_names
          \<union> (topics ''cpu'' ''host'' [''online_cpu_count''] \<union> topics ''cpu'' ''cpu'' (''availability'' # rate_names)))
    (cpu_samples e host o1)"
proof (cases "fo_value (ob_cpu o1)")
  case None
  then show ?thesis by (simp add: cpu_samples_def)
next
  case (Some c)
  then have d: "distinct (map ccr_cpu (cm_per_cpu c))" using assms by (simp add: core_rates_def)
  have "block_ok (topics ''cpu'' ''cpu'' (''availability'' # rate_names)) (concat (map (core_metrics e w) (cm_per_cpu c)))" for w
    using core_block core_subject by (rule block_ok_concat [OF d, where tag = snd])
  then show ?thesis
    unfolding cpu_samples_def Some option.case
    by (intro block_ok_append rate_block)
      (simp_all add: Int_Un_distrib rate_names_def block_ok_Cons split: option.split)
qed

lemma uptime_block: "block_ok (topics ''uptime'' ''host'' [''uptime_seconds'']) (uptime_samples e host o1)"
  by (simp add: uptime_samples_def block_ok_Cons split: option.split)

lemma process_block: "block_ok (topics ''process'' ''process'' process_names) (process_samples e o1)"
proof (cases "fo_value (ob_process o1)")
  case None
  then show ?thesis by (simp add: process_samples_def)
next
  case (Some p)
  then show ?thesis unfolding process_samples_def Some option.case
    by (intro block_ok_map [where key = fst and tag = slot_metric]) (auto simp: process_names_def)
qed

lemma observation_block:
  assumes "distinct_subjects e o1"
  shows "block_ok observation_topics (samples_from_observation e host o1)"
proof -
  note d = assms [unfolded distinct_subjects_def]
  have disk_c: "block_ok (topics ''disk_io'' ''block_device'' block_counter_names) (disk_counter_samples e o1)"
    unfolding disk_counter_samples_def
    by (rule block_ok_concat [where key = bc_identity and tag = snd])
      (use d block_counter_block in \<open>auto simp: block_counter_metrics_def\<close>)
  have net_c: "block_ok (topics ''network'' ''interface'' interface_counter_names) (network_counter_samples e o1)"
    unfolding network_counter_samples_def
    by (rule block_ok_concat [where key = ic_identity and tag = snd])
      (use d interface_counter_block in \<open>auto simp: interface_counter_metrics_def\<close>)
  have fs: "block_ok (topics ''disk_capacity'' ''filesystem'' filesystem_names) (capacity_samples e o1)"
    unfolding capacity_samples_def
    by (rule block_ok_concat [where key = "\<lambda>f. stable_subject_id e ''filesystem'' (fc_mount f)" and tag = snd])
      (use d filesystem_block filesystem_subject in auto)
  have disk: "block_ok (topics ''disk_io'' ''block_device'' block_names) (disk_samples e o1)"
    unfolding disk_samples_def
    by (rule block_ok_concat [where key = br_identity and tag = snd])
      (use d block_rate_block block_rate_subject in auto)
  have net: "block_ok (topics ''network'' ''interface'' interface_names) (network_samples e o1)"
    unfolding network_samples_def
    by (rule block_ok_concat [where key = ir_identity and tag = snd])
      (use d interface_block interface_subject in auto)
  show ?thesis
    unfolding samples_from_observation_def observation_topics_def
    using d
    by (intro block_ok_append cpu_counter_block cpu_block disk_c net_c fs disk net memory_block load_block
        uptime_block process_block availability_block [folded availability_topics_def])
      (simp_all add: Int_Un_distrib Int_Un_distrib2 name_lists)
qed

subsection \<open>The checks of the table\<close>

definition sample_units :: "string list" where
  "sample_units = [''status'', ''ticks'', ''count'', ''sectors'', ''milliseconds'', ''bytes'', ''percent'', ''load'',
     ''ratio'', ''bytes_per_second'', ''operations_per_second'', ''megabits_per_second'',
     ''packets_per_second'', ''seconds'']"

text \<open>What every pushed sample meets, whatever its subject.\<close>

definition ms_ok :: "metric_sample \<Rightarrow> bool" where
  "ms_ok s =
     (ms_sample_kind s \<in> {''gauge'', ''counter'', ''derived''} \<and> ms_unit s \<in> set sample_units
      \<and> char_length (ms_dims_sha s) = 64 \<and> pred_option (f_lt (Fin 0)) (ms_window s)
      \<and> ms_quality s \<in> set sample_qualities
      \<and> (if ms_quality s = ''observed'' then (ms_value_real s \<noteq> None) \<noteq> (ms_value_integer s \<noteq> None)
         else ms_value_real s = None \<and> ms_value_integer s = None))"

definition sha_ok :: "history_env \<Rightarrow> bool" where
  "sha_ok e = (\<forall>s. length (sha256 e s) = 32 \<and> (\<forall>b \<in> set (sha256 e s). b < 256))"

lemma char_length_simps [simp]:
  "char_length [] = 0"
  "char_length (c # s) = (if (of_char c :: nat) < 128 \<or> 192 \<le> (of_char c :: nat) then 1 else 0) + char_length s"
  "char_length (s @ t) = char_length s + char_length t"
  by (simp_all add: char_length_def)

lemma char_length_le: "char_length s \<le> length s"
  by (simp add: char_length_def)

lemma char_length_hex: "\<forall>b \<in> set bs. b < 256 \<Longrightarrow> char_length (hex_digest bs) = 2 * length bs"
proof (induction bs)
  case (Cons b bs)
  have "(of_char (hex_char (b div 16)) :: nat) < 128" "(of_char (hex_char (b mod 16)) :: nat) < 128"
    using Cons.prems of_char_hex_char [of "b div 16"] of_char_hex_char [of "b mod 16"]
    by (auto split: if_splits)
  then show ?case using Cons by (simp add: hex_digest_def)
qed (simp add: hex_digest_def)

lemma sha_length: "sha_ok e \<Longrightarrow> char_length (hex_digest (sha256 e s)) = 64"
  by (simp add: sha_ok_def char_length_hex)

lemma quality_name_range: "quality_name q \<in> set sample_qualities"
  by (cases q) (simp_all add: sample_qualities_def)

lemma quality_name_observed: "quality_name q = ''observed'' \<longleftrightarrow> q = Observed"
  by (cases q) simp_all

lemma ms_ok_push:
  assumes "sha_ok e" and "md_sample_kind m \<in> {''gauge'', ''counter'', ''derived''}"
    and "md_unit m \<in> set sample_units"
  shows "ms_ok (push_metric e m dims v w q)" and "ms_ok (push_counter_metric e m dims n q)"
proof -
  have "(snd (real_value v q) = Observed) = (fst (real_value v q) \<noteq> None)"
    by (auto simp: real_value_def is_observed_def split: option.splits)
  moreover have "pred_option (f_lt (Fin 0)) (positive_window w)"
    by (simp add: positive_window_def split: option.split)
  ultimately show "ms_ok (push_metric e m dims v w q)"
    using assms by (simp add: ms_ok_def push_metric_def sha_length quality_name_range quality_name_observed)
  have "(snd (integer_value n q) = Observed) = (fst (integer_value n q) \<noteq> None)"
    by (auto simp: integer_value_def is_observed_def)
  then show "ms_ok (push_counter_metric e m dims n q)"
    using assms by (simp add: ms_ok_def push_counter_metric_def sha_length quality_name_range quality_name_observed)
qed

lemma samples_ms_ok:
  assumes "sha_ok e" and "s \<in> set (samples_from_observation e host o1)"
  shows "ms_ok s"
proof -
  note ok = ms_ok_push [OF assms(1)]
  have "\<forall>s \<in> set (availability_samples e host o1). ms_ok s"
    by (simp add: availability_samples_def push_family_availability_def ok sample_units_def)
  moreover have "\<forall>s \<in> set (push_cpu_tick_counters e k sj dims t q). ms_ok s" for k sj dims t q
    by (simp add: push_cpu_tick_counters_def ok sample_units_def)
  then have "\<forall>s \<in> set (cpu_counter_samples e host o1). ms_ok s"
    by (auto simp: cpu_counter_samples_def split: option.split)
  moreover have "\<forall>s \<in> set (disk_counter_samples e o1). ms_ok s"
    by (simp add: disk_counter_samples_def block_counter_metrics_def ok sample_units_def)
  moreover have "\<forall>s \<in> set (network_counter_samples e o1). ms_ok s"
    by (simp add: network_counter_samples_def interface_counter_metrics_def ok sample_units_def)
  moreover have rate: "\<forall>s \<in> set (cpu_rate_metrics e k sj dims w q r). ms_ok s" for k sj dims w q r
    by (simp add: cpu_rate_metrics_def ok sample_units_def)
  then have "\<forall>s \<in> set (core_metrics e w c). ms_ok s" for w c
    by (auto simp: core_metrics_def ok sample_units_def split: option.splits)
  with rate have "\<forall>s \<in> set (cpu_samples e host o1). ms_ok s"
    by (auto simp: cpu_samples_def ok sample_units_def split: option.split)
  moreover have "\<forall>s \<in> set (memory_samples e host o1). ms_ok s"
    by (auto simp: memory_samples_def set_push_present ok sample_units_def split: option.split)
  moreover have "\<forall>s \<in> set (load_metric_samples e host o1). ms_ok s"
    by (auto simp: load_metric_samples_def set_push_present ok sample_units_def split: option.split)
  moreover have "\<forall>s \<in> set (capacity_samples e o1). ms_ok s"
    by (auto simp: capacity_samples_def filesystem_metrics_def Let_def set_push_present ok sample_units_def)
  moreover have "\<forall>s \<in> set (disk_samples e o1). ms_ok s"
    by (auto simp: disk_samples_def block_metrics_def Let_def set_push_present ok sample_units_def
        split: option.splits)
  moreover have "\<forall>s \<in> set (network_samples e o1). ms_ok s"
    by (auto simp: network_samples_def interface_metric_samples_def Let_def set_push_present ok sample_units_def
        split: option.splits)
  moreover have "\<forall>s \<in> set (uptime_samples e host o1). ms_ok s"
    by (auto simp: uptime_samples_def ok sample_units_def split: option.splits)
  moreover have "\<forall>s \<in> set (process_samples e o1). ms_ok s"
    by (auto simp: process_samples_def ok sample_units_def split: option.splits)
  ultimately show ?thesis using assms(2) unfolding samples_from_observation_def by auto
qed

text \<open>The subject identifiers an observation names.\<close>

definition subject_ids :: "history_env \<Rightarrow> string \<Rightarrow> host_observation \<Rightarrow> string set" where
  "subject_ids e host o1 =
     {host, ''summary''} \<union> ccs_cpu ` set (core_counters o1) \<union> ccr_cpu ` set (core_rates o1)
     \<union> bc_identity ` set (members (ob_disk_io_counters o1))
     \<union> ic_identity ` set (members (ob_network_counters o1))
     \<union> (\<lambda>f. stable_subject_id e ''filesystem'' (fc_mount f)) ` set (members (ob_disk_capacity o1))
     \<union> br_identity ` set (members (ob_disk_io o1)) \<union> ir_identity ` set (members (ob_network o1))"

lemma ms_subject_slot: "ms_subject_id s = snd (ms_slot s)"
  by (simp add: ms_slot_def)

lemma samples_subject:
  assumes "s \<in> set (samples_from_observation e host o1)"
  shows "ms_subject_id s \<in> subject_ids e host o1"
proof -
  consider "s \<in> set (availability_samples e host o1)" | "s \<in> set (cpu_counter_samples e host o1)"
    | "s \<in> set (disk_counter_samples e o1)" | "s \<in> set (network_counter_samples e o1)"
    | "s \<in> set (cpu_samples e host o1)" | "s \<in> set (memory_samples e host o1)"
    | "s \<in> set (load_metric_samples e host o1)" | "s \<in> set (capacity_samples e o1)"
    | "s \<in> set (disk_samples e o1)" | "s \<in> set (network_samples e o1)"
    | "s \<in> set (uptime_samples e host o1)" | "s \<in> set (process_samples e o1)"
    using assms unfolding samples_from_observation_def by auto
  then show ?thesis
  proof cases
    case 1
    then show ?thesis
      by (auto simp: ms_subject_slot subject_ids_def availability_samples_def push_family_availability_def)
  next
    case 2
    then show ?thesis
      by (auto simp: ms_subject_slot subject_ids_def cpu_counter_samples_def core_counters_def tick_subject
          split: option.splits)
  next
    case 3
    then show ?thesis
      by (auto simp: ms_subject_slot subject_ids_def disk_counter_samples_def block_counter_metrics_def)
  next
    case 4
    then show ?thesis
      by (auto simp: ms_subject_slot subject_ids_def network_counter_samples_def interface_counter_metrics_def)
  next
    case 5
    then show ?thesis
      by (auto simp: ms_subject_slot subject_ids_def cpu_samples_def core_rates_def rate_subject core_subject
          split: option.splits)
  next
    case 6
    then show ?thesis
      by (auto simp: ms_subject_slot subject_ids_def memory_samples_def set_push_present split: option.splits)
  next
    case 7
    then show ?thesis
      by (auto simp: ms_subject_slot subject_ids_def load_metric_samples_def set_push_present split: option.splits)
  next
    case 8
    then show ?thesis by (auto simp: ms_subject_slot subject_ids_def capacity_samples_def filesystem_subject)
  next
    case 9
    then show ?thesis by (auto simp: ms_subject_slot subject_ids_def disk_samples_def block_rate_subject)
  next
    case 10
    then show ?thesis by (auto simp: ms_subject_slot subject_ids_def network_samples_def interface_subject)
  next
    case 11
    then show ?thesis by (auto simp: ms_subject_slot subject_ids_def uptime_samples_def split: option.splits)
  next
    case 12
    then show ?thesis by (auto simp: ms_subject_slot subject_ids_def process_samples_def split: option.splits)
  qed
qed

lemma text_between_names:
  "\<forall>(f, k, n) \<in> observation_topics. f \<in> set sample_families \<and> k \<in> set sample_subjects \<and> text_between 1 128 n"
  by (simp add: observation_topics_def ball_Un availability_topics_def topics_def name_lists
      sample_families_def sample_subjects_def text_between_def)

lemma sample_units_short: "u \<in> set sample_units \<Longrightarrow> text_between 1 64 u"
  by (auto simp: sample_units_def text_between_def)

lemma row_checks:
  assumes "ms_ok s" and "ms_topic s \<in> observation_topics" and "text_between 1 512 (ms_subject_id s)" and "0 \<le> ms"
  shows "sample_checks (sample_row_of run host at' ms created i s)"
proof -
  have "ms_family s \<in> set sample_families" "ms_subject_kind s \<in> set sample_subjects"
      "text_between 1 128 (ms_metric_name s)"
    using text_between_names assms(2) by (auto simp: ms_topic_def)
  then show ?thesis
    using assms sample_units_short by (auto simp: sample_checks_def sample_row_of_def ms_ok_def HISTORY_SOURCE_KIND_def)
qed

subsection \<open>Inserting all samples of a run\<close>

lemma insert_rows_success:
  assumes "\<forall>r \<in> set rs. sample_checks r \<and> (\<exists>x \<in> set (runs d). run_id x = smp_run r \<and> run_host x = smp_host r)"
    and "distinct (map smp_id rs)" and "distinct (map sample_key rs)"
    and "\<forall>r \<in> set rs. \<forall>x \<in> set (samples d). smp_id x \<noteq> smp_id r \<and> sample_key x \<noteq> sample_key r"
  shows "insert_rows rs d n = Inr (n + length rs, d\<lparr>samples := samples d @ rs\<rparr>)"
  using assms
proof (induction rs arbitrary: d n)
  case (Cons r rs)
  then have "insert_sample r d = Inr (d\<lparr>samples := samples d @ [r]\<rparr>)"
    by (auto simp: insert_sample_def)
  moreover have "insert_rows rs (d\<lparr>samples := samples d @ [r]\<rparr>) (n + 1)
      = Inr (n + 1 + length rs, d\<lparr>samples := samples d @ [r]\<rparr>\<lparr>samples := samples (d\<lparr>samples := samples d @ [r]\<rparr>) @ rs\<rparr>)"
    using Cons.prems by (intro Cons.IH) auto
  ultimately show ?case by simp
qed simp

lemma insert_rows_keys:
  "insert_rows rs d n = Inr (m, d') \<Longrightarrow> distinct (map sample_key rs)
     \<and> sample_key ` set rs \<inter> sample_key ` set (samples d) = {}"
proof (induction rs arbitrary: d n)
  case (Cons r rs)
  then obtain d1 where d1: "insert_sample r d = Inr d1" and rs: "insert_rows rs d1 (n + 1) = Inr (m, d')"
    by (auto split: sum.splits)
  have s: "samples d1 = samples d @ [r]" and new: "sample_key r \<notin> sample_key ` set (samples d)"
    using d1 by (auto simp: insert_sample_def split: if_splits)
  from Cons.IH [OF rs] new show ?case by (auto simp: s)
qed simp

lemma sample_row_fields [simp]:
  "smp_id (sample_row_of run host o' ms c i s) = i" "smp_run (sample_row_of run host o' ms c i s) = run"
  "smp_host (sample_row_of run host o' ms c i s) = host"
  "smp_value (sample_row_of run host o' ms c i s) = ms_value_real s"
  "smp_quality (sample_row_of run host o' ms c i s) = ms_quality s"
  "smp_window (sample_row_of run host o' ms c i s) = ms_window s"
  "smp_family (sample_row_of run host o' ms c i s) = ms_family s"
  "smp_subject_kind (sample_row_of run host o' ms c i s) = ms_subject_kind s"
  "smp_subject_id (sample_row_of run host o' ms c i s) = ms_subject_id s"
  "smp_metric (sample_row_of run host o' ms c i s) = ms_metric_name s"
  by (simp_all add: sample_row_of_def)

lemma distinct_map_weaken:
  assumes "distinct (map f xs)" and "\<And>x y. g x = g y \<Longrightarrow> f x = f y"
  shows "distinct (map g xs)"
  unfolding distinct_map
proof
  show "distinct xs" using assms(1) by (simp add: distinct_map)
  show "inj_on g (set xs)"
  proof (rule inj_onI)
    fix x y
    assume "x \<in> set xs" "y \<in> set xs" "g x = g y"
    then show "x = y" using assms(1) assms(2) [of x y] by (auto simp: distinct_map inj_on_def)
  qed
qed

definition rows_of ::
  "string \<Rightarrow> string \<Rightarrow> millis \<Rightarrow> millis \<Rightarrow> millis \<Rightarrow> string list \<Rightarrow> metric_sample list \<Rightarrow> sample_row list"
where
  "rows_of run host o' ms c ids ss = map2 (sample_row_of run host o' ms c) ids ss"

definition row_slot :: "sample_row \<Rightarrow> topic \<times> string" where
  "row_slot r = ((smp_family r, smp_subject_kind r, smp_metric r), smp_subject_id r)"

lemma row_slot_of: "row_slot (sample_row_of run host o' ms c i s) = ms_slot s"
  by (simp add: row_slot_def ms_slot_def ms_topic_def)

lemma rows_of_maps:
  assumes "length ids = length ss"
  shows "map smp_id (rows_of run host o' ms c ids ss) = ids"
    and "map row_slot (rows_of run host o' ms c ids ss) = map ms_slot ss"
  using assms by (induction ids ss rule: list_induct2) (simp_all add: rows_of_def row_slot_of)

lemma rows_of_mem:
  assumes "length ids = length ss" and "s \<in> set ss"
  shows "\<exists>i. sample_row_of run host o' ms c i s \<in> set (rows_of run host o' ms c ids ss)"
  using assms by (induction ids ss rule: list_induct2) (auto simp: rows_of_def)

lemma rows_of_memD:
  "r \<in> set (rows_of run host o' ms c ids ss) \<Longrightarrow> \<exists>i s. s \<in> set ss \<and> r = sample_row_of run host o' ms c i s"
  by (auto simp: rows_of_def dest: set_zip_rightD)

text \<open>A query by slot finds the one row of the run with that slot.\<close>

lemma find_sample_unique:
  assumes "distinct (map row_slot (filter (\<lambda>s. smp_run s = run \<and> smp_host s = host) (samples d)))"
    and "r \<in> set (samples d)" and "smp_run r = run" and "smp_host r = host"
  shows "find_sample (load_samples run host d) (smp_family r) (smp_subject_kind r) (smp_subject_id r) (smp_metric r)
    = Some r"
proof -
  let ?ss = "load_samples run host d"
  have mem: "r \<in> set ?ss" using assms(2-4) by (simp add: load_samples_def)
  have "mset (map row_slot ?ss) = mset (map row_slot (filter (\<lambda>s. smp_run s = run \<and> smp_host s = host) (samples d)))"
    by (simp add: load_samples_def)
  then have "distinct (map row_slot ?ss)" using assms(1) mset_eq_imp_distinct_iff by blast
  then have "find (\<lambda>s. row_slot s = row_slot r) ?ss = Some r" using find_key mem by metis
  then show ?thesis by (simp add: find_sample_def row_slot_def conj_ac)
qed

end
