(* ===== verification/CollectionHistory.thy ===== *)
theory CollectionHistory
  imports HistorySamples
begin

text \<open>
  The collector and the history together: what the parsers of \<open>monitoring.rs\<close> guarantee about the
  subjects of an observation, that the samples of every such observation are accepted by the table,
  and the one input on which they are not.
\<close>

subsection \<open>What the parsers guarantee\<close>

lemma proc_stat_lines_inv:
  "proc_stat_lines ls a m = Some (a', m') \<Longrightarrow> bt_inv m \<Longrightarrow> bt_inv m'"
proof (induction ls a m rule: proc_stat_lines.induct)
  case (2 line ls a m)
  show ?case
  proof (cases "split_whitespace line")
    case Nil
    then show ?thesis using 2 by simp
  next
    case (Cons name ws)
    show ?thesis
    proof (cases "is_cpu_name name")
      case True
      with "2.prems" Cons obtain t n where t: "cpu_ticks_of ws = Some t" "cpu_total t = Some n"
        by (auto simp: bind_eq_Some_conv)
      show ?thesis
        using "2.IH"(3,4) [OF Cons] "2.prems" Cons True t by (cases "name = ''cpu''") (auto simp: bt_inv_insert)
    qed (use 2 Cons in simp)
  qed
qed simp

lemma parse_proc_stat_distinct: "parse_proc_stat s = Some f \<Longrightarrow> distinct (map fst (cf_per_cpu f))"
  using proc_stat_lines_inv [of "lines s" None "[]"]
  by (auto simp: parse_proc_stat_def bind_eq_Some_conv bt_inv_def)

lemma network_lines_inv: "network_lines k ls m = Some m' \<Longrightarrow> bt_inv m \<Longrightarrow> bt_inv m'"
proof (induction k ls m rule: network_lines.induct)
  case (2 k line ls m)
  then show ?case
    by (auto simp: bind_eq_Some_conv bt_inv_insert Let_def split: option.splits if_splits)
qed simp

lemma parse_network_distinct: "parse_network k s = Some m \<Longrightarrow> distinct (map fst m)"
  using network_lines_inv [of k "lines s" "[]"]
  by (auto simp: parse_network_def bind_eq_Some_conv bt_inv_def non_empty_def split: if_splits)

lemma identity_lines_inv: "identity_lines k ls m = Some m' \<Longrightarrow> bt_inv m \<Longrightarrow> bt_inv m'"
proof (induction k ls m rule: identity_lines.induct)
  case (2 k line ls m)
  then show ?case by (auto simp: bind_eq_Some_conv bt_inv_insert split: if_splits)
qed simp

lemma parse_identity_distinct: "parse_network_identity k s = Some m \<Longrightarrow> distinct (map fst m)"
  using identity_lines_inv [of k _ "[]"]
  by (auto simp: parse_network_identity_def bind_eq_Some_conv bt_inv_def non_empty_def split: if_splits)

lemma parse_u32_le: "parse_u32 s = Some n \<Longrightarrow> n \<le> u32_max"
  by (auto simp: parse_u32_def Let_def split: if_splits option.splits)

lemma identity_lines_ifindex:
  "identity_lines k ls m = Some m' \<Longrightarrow> \<forall>(n, i) \<in> set m. ii_ifindex i \<le> u32_max
     \<Longrightarrow> \<forall>(n, i) \<in> set m'. ii_ifindex i \<le> u32_max"
proof (induction k ls m rule: identity_lines.induct)
  case (2 k line ls m)
  have bt: "set (bt_insert a b m) \<subseteq> insert (a, b) (set m)" for a b and m :: "(string \<times> interface_identity) list"
    by (induction a b m rule: bt_insert.induct) auto
  from 2 obtain name i where l: "interface_identity_of line = Some (name, i)"
    and r: "identity_lines k ls (bt_insert name i m) = Some m'" and k: "\<not> k \<le> length m"
    by (auto simp: bind_eq_Some_conv split: if_splits)
  have "ii_ifindex i \<le> u32_max"
    using l by (auto simp: interface_identity_of_def Let_def bind_eq_Some_conv dest: parse_u32_le split: if_splits)
  then have "\<forall>(n, i) \<in> set (bt_insert name i m). ii_ifindex i \<le> u32_max"
    using 2 (3) bt [of name i m] by auto
  with 2(1) [OF k _ refl] l r show ?case by auto
qed simp

lemma parse_identity_ifindex:
  "parse_network_identity k s = Some m \<Longrightarrow> (n, i) \<in> set m \<Longrightarrow> ii_ifindex i \<le> u32_max"
  using identity_lines_ifindex [of k _ "[]" m]
  by (fastforce simp: parse_network_identity_def bind_eq_Some_conv non_empty_def split: if_splits)

lemma bounded_rows_all:
  "bounded_rows k f ls rows = Some rows' \<Longrightarrow> \<forall>r \<in> set rows. P r \<Longrightarrow> (\<And>l r. f l = Some r \<Longrightarrow> P r)
     \<Longrightarrow> \<forall>r \<in> set rows'. P r"
proof (induction k f ls rows rule: bounded_rows.induct)
  case (2 m f line ls rows)
  then show ?case by (fastforce simp: bind_eq_Some_conv split: if_splits)
qed simp

lemma diskstats_row_numbers:
  "parse_diskstats_row l = Some r \<Longrightarrow> dk_major r \<le> u32_max \<and> dk_minor r \<le> u32_max"
  by (auto simp: parse_diskstats_row_def Let_def bind_eq_Some_conv split: if_splits intro: parse_u32_le)

lemma parse_diskstats_numbers:
  assumes "parse_diskstats k s = Some ds" and "d \<in> set ds"
  shows "dk_major d \<le> u32_max \<and> dk_minor d \<le> u32_max"
proof -
  have "bounded_rows k parse_diskstats_row (filter (\<lambda>l. \<not> is_blank l) (lines s)) [] = Some ds"
    using assms(1) by (auto simp: parse_diskstats_def bind_eq_Some_conv non_empty_def split: if_splits)
  from bounded_rows_all [OF this, of "\<lambda>d. dk_major d \<le> u32_max \<and> dk_minor d \<le> u32_max"] assms(2)
    diskstats_row_numbers
  show ?thesis by auto
qed

text \<open>A boot identifier is a short ASCII text.\<close>

lemma alnum_ascii: "is_alnum_char c \<or> c = CHR ''-'' \<or> c = CHR ''_'' \<Longrightarrow> (of_char c :: nat) < 128"
  by (auto simp: is_alnum_char_def Let_def)

lemma char_length_ascii: "list_all (\<lambda>c. (of_char c :: nat) < 128) s \<Longrightarrow> char_length s = length s"
  by (induction s) auto

lemma parse_boot_id:
  assumes "parse_boot_sample s = Some b"
  shows "1 \<le> char_length (bs_boot_id b) \<and> char_length (bs_boot_id b) \<le> 128"
proof -
  obtain ls where ls: "ls = filter (\<lambda>l. l \<noteq> []) (map trim (lines s))" by simp
  from assms have b: "first ls = Some (bs_boot_id b)" "length (bs_boot_id b) \<le> 128"
      "list_all (\<lambda>c. is_alnum_char c \<or> c = CHR ''-'' \<or> c = CHR ''_'') (bs_boot_id b)"
    by (auto simp: parse_boot_sample_def Let_def bind_eq_Some_conv ls split: if_splits)
  have "bs_boot_id b \<in> set ls" using b(1) by (auto simp: first_def split: list.splits)
  then have "bs_boot_id b \<noteq> []" by (simp add: ls)
  moreover have "char_length (bs_boot_id b) = length (bs_boot_id b)"
    using b(3) alnum_ascii by (intro char_length_ascii) (auto simp: list_all_iff)
  ultimately show ?thesis using b(2) by (cases "bs_boot_id b") auto
qed

subsection \<open>Identifiers\<close>

lemma show_nat_inj: "show_nat m = show_nat n \<Longrightarrow> m = n"
  using parse_digits_show_nat by (metis option.inject)

lemma not_in_show_nat: "(of_char c :: nat) < 48 \<or> 57 < (of_char c :: nat) \<Longrightarrow> c \<notin> set (show_nat n)"
  using show_nat_chars [of c n] digit_char_neq by blast

lemma colon_not_in_show_nat: "CHR '':'' \<notin> set (show_nat n)"
  by (rule not_in_show_nat) simp

lemma block_identity_inj: "block_identity b m n = block_identity b m' n' \<longleftrightarrow> m = m' \<and> n = n'"
proof
  assume "block_identity b m n = block_identity b m' n'"
  then have "split_once CHR '':'' (show_nat m @ CHR '':'' # show_nat n)
      = split_once CHR '':'' (show_nat m' @ CHR '':'' # show_nat n')"
    by (simp add: block_identity_def)
  then show "m = m' \<and> n = n'"
    by (auto simp: split_once_append colon_not_in_show_nat dest: show_nat_inj)
qed simp

lemma interface_key_inj: "interface_key b i = interface_key b j \<longleftrightarrow> i = j"
  by (auto simp: interface_key_def dest: show_nat_inj)

lemma interface_key_unknown: "interface_key b i \<noteq> b @ '':unknown:'' @ n"
proof
  assume "interface_key b i = b @ '':unknown:'' @ n"
  then have "CHR ''u'' \<in> set (show_nat i)" by (simp add: interface_key_def)
  moreover have "CHR ''u'' \<notin> set (show_nat i)" by (rule not_in_show_nat) simp
  ultimately show False by blast
qed

lemma length_show_nat: "n < 10 ^ k \<Longrightarrow> 0 < k \<Longrightarrow> length (show_nat n) \<le> k"
proof (induction k arbitrary: n)
  case (Suc k)
  show ?case
  proof (cases "n < 10")
    case True
    then show ?thesis by (simp add: show_nat.simps [of n])
  next
    case False
    then have "0 < k" using Suc.prems by (cases k) auto
    moreover have "n div 10 < 10 ^ k" using Suc.prems by (simp add: less_mult_imp_div_less mult.commute)
    ultimately have "length (show_nat (n div 10)) \<le> k" by (intro Suc.IH)
    then show ?thesis using False by (simp add: show_nat.simps [of n])
  qed
qed simp

lemma length_show_u32: "n \<le> u32_max \<Longrightarrow> length (show_nat n) \<le> 10"
  by (rule length_show_nat) (simp_all add: u32_max_def)

lemma char_length_colon [simp]: "char_length (CHR '':'' # s) = Suc (char_length s)"
  by simp

lemma show_u32_chars: "n \<le> u32_max \<Longrightarrow> char_length (show_nat n) \<le> 10"
  using char_length_le [of "show_nat n"] length_show_u32 [of n] by linarith

lemma block_identity_length:
  assumes "1 \<le> char_length b" "char_length b \<le> 128" "m \<le> u32_max" "n \<le> u32_max"
  shows "text_between 1 512 (block_identity b m n)"
  using assms show_u32_chars [of m] show_u32_chars [of n]
  by (simp add: text_between_def block_identity_def)

lemma interface_key_length:
  assumes "1 \<le> char_length b" "char_length b \<le> 128" "i \<le> u32_max"
  shows "text_between 1 512 (interface_key b i)"
  using assms show_u32_chars [of i] by (simp add: text_between_def interface_key_def)

lemma unknown_length:
  assumes "1 \<le> char_length b" "char_length b \<le> 128" "char_length n \<le> 300"
  shows "text_between 1 512 (b @ '':unknown:'' @ n)"
  using assms by (simp add: text_between_def)

lemma stable_length: "sha_ok e \<Longrightarrow> text_between 1 512 (stable_subject_id e ''filesystem'' v)"
  by (simp add: text_between_def stable_subject_id_def sha_length)

subsection \<open>Subjects of an observation\<close>

abbreviation parsed_cpu :: "host_capture \<Rightarrow> cpu_frame option" where
  "parsed_cpu c \<equiv> fo_value (parse_source (fr_cpu (cap_frame_b c)) parse_proc_stat)"

abbreviation parsed_disks :: "host_capture \<Rightarrow> disk_counters list option" where
  "parsed_disks c \<equiv> fo_value (parse_source (fr_disk_io (cap_frame_b c)) (parse_diskstats MAX_BLOCK_DEVICES))"

abbreviation parsed_network :: "host_capture \<Rightarrow> (string \<times> network_counters) list option" where
  "parsed_network c \<equiv> fo_value (parse_source (fr_network (cap_frame_b c)) (parse_network MAX_INTERFACES))"

abbreviation parsed_interfaces :: "host_capture \<Rightarrow> (string \<times> interface_identity) list option" where
  "parsed_interfaces c \<equiv>
     fo_value (parse_source (fr_network_identity (cap_frame_b c)) (parse_network_identity MAX_INTERFACES))"

abbreviation parsed_df :: "host_capture \<Rightarrow> df_row list option" where
  "parsed_df c \<equiv> fo_value (parse_source (cap_disk_capacity c) (parse_df MAX_FILESYSTEMS))"

text \<open>
  What the host has to report apart: no mount point, device number or interface index twice, and a
  digest that separates its mount points. Processor and interface names fit the subject column.
\<close>

definition separate_subjects :: "history_env \<Rightarrow> host_capture \<Rightarrow> bool" where
  "separate_subjects e c =
     (pred_option (\<lambda>rows. distinct (map df_mount rows) \<and> inj_on (sha256 e) (df_mount ` set rows)) (parsed_df c)
      \<and> pred_option (\<lambda>ds. distinct (map (\<lambda>d. (dk_major d, dk_minor d)) ds)) (parsed_disks c)
      \<and> pred_option (\<lambda>is. distinct (map (ii_ifindex \<circ> snd) is)) (parsed_interfaces c)
      \<and> pred_option (\<lambda>f. \<forall>(n, _) \<in> set (cf_per_cpu f). text_between 1 512 n) (parsed_cpu c)
      \<and> pred_option (\<lambda>ns. \<forall>(n, _) \<in> set ns. char_length n \<le> 300) (parsed_network c))"

lemma parse_source_SomeD: "fo_value (parse_source s p) = Some v \<Longrightarrow> \<exists>out. s = Output out \<and> p out = Some v"
  by (auto simp: parse_source_def observation_simps split: raw_source.splits option.splits if_splits)

lemma parsed_boot_length:
  "fo_value (boot_of f) = Some b \<Longrightarrow> 1 \<le> char_length (bs_boot_id b) \<and> char_length (bs_boot_id b) \<le> 128"
  using parse_boot_id by (auto simp: boot_of_def dest!: parse_source_SomeD)

lemma core_counters_names:
  "map ccs_cpu (core_counters (parse_host_resource_v1 c)) =
     (case parsed_cpu c of None \<Rightarrow> [] | Some f \<Rightarrow> map fst (cf_per_cpu f))"
  by (auto simp: core_counters_def observation_fields capture_cpu_counters_def Let_def observation_simps
      split: option.splits)

lemma core_rates_names:
  "map ccr_cpu (core_rates (parse_host_resource_v1 c)) = []
   \<or> (\<exists>f. parsed_cpu c = Some f \<and> map ccr_cpu (core_rates (parse_host_resource_v1 c)) = map fst (cf_per_cpu f))"
proof -
  have "ccr_cpu (cpu_core_rate_of pf dt p) = fst p" for pf dt p
    by (cases p) (simp add: cpu_core_rate_of_def Let_def)
  then show ?thesis
    by (auto simp: core_rates_def observation_fields derive_cpu_def Let_def observation_simps
        split: option.splits)
qed

lemma disk_counter_members:
  "members (ob_disk_io_counters (parse_host_resource_v1 c)) = []
   \<or> (\<exists>ds b. parsed_disks c = Some ds \<and> fo_value (boot_of (cap_frame_b c)) = Some b
       \<and> members (ob_disk_io_counters (parse_host_resource_v1 c)) = map (block_counter_of (bs_boot_id b)) ds)"
  by (auto simp: parse_host_resource_v1_def boot_of_def capture_disk_io_counters_def Let_def members_def
      observation_simps split: option.splits)

lemma disk_rate_members:
  "members (ob_disk_io (parse_host_resource_v1 c)) = []
   \<or> (\<exists>ds b f. parsed_disks c = Some ds \<and> fo_value (boot_of (cap_frame_b c)) = Some b
       \<and> members (ob_disk_io (parse_host_resource_v1 c)) = map f ds
       \<and> (\<forall>d. br_identity (f d) = block_identity (bs_boot_id b) (dk_major d) (dk_minor d)))"
proof -
  have "br_identity (block_rate_of b sb dt ps d) = block_identity b (dk_major d) (dk_minor d)" for b sb dt ps d
    by (simp add: block_rate_of_def Let_def)
  then show ?thesis
    by (auto simp: parse_host_resource_v1_def boot_of_def derive_disk_io_def Let_def split: option.splits)
qed

lemma capacity_members:
  "map fc_mount (members (ob_disk_capacity (parse_host_resource_v1 c))) =
     (case parsed_df c of None \<Rightarrow> [] | Some rows \<Rightarrow> map df_mount rows)"
  by (auto simp: observation_fields derive_disk_capacity_def Let_def members_def observation_simps
      filesystem_of_def split: option.splits)

lemma network_rate_members:
  "members (ob_network (parse_host_resource_v1 c)) = []
   \<or> (\<exists>ns ids b f. parsed_network c = Some ns \<and> parsed_interfaces c = Some ids
       \<and> fo_value (boot_of (cap_frame_b c)) = Some b
       \<and> members (ob_network (parse_host_resource_v1 c)) = map f ns
       \<and> (\<forall>n v. ir_identity (f (n, v)) = (case map_of ids n of
            None \<Rightarrow> bs_boot_id b @ '':unknown:'' @ n | Some i \<Rightarrow> interface_key (bs_boot_id b) (ii_ifindex i))))"
proof -
  have "ir_identity (interface_rate_of b sb dt ps ids (n, v)) =
      (case map_of ids n of None \<Rightarrow> b @ '':unknown:'' @ n | Some i \<Rightarrow> interface_key b (ii_ifindex i))"
    for b sb dt ps ids n v
    by (simp add: interface_rate_of_def unknown_interface_def Let_def split: option.split)
  then show ?thesis
    by (auto simp: parse_host_resource_v1_def boot_of_def derive_network_def Let_def split: option.splits)
qed

lemma network_rate_membersE:
  assumes "members (ob_network (parse_host_resource_v1 c)) \<noteq> []"
  obtains ns ids b f where "parsed_network c = Some ns" "parsed_interfaces c = Some ids"
    "fo_value (boot_of (cap_frame_b c)) = Some b"
    "members (ob_network (parse_host_resource_v1 c)) = map f ns"
    "\<forall>n v. ir_identity (f (n, v)) = (case map_of ids n of
       None \<Rightarrow> bs_boot_id b @ '':unknown:'' @ n | Some i \<Rightarrow> interface_key (bs_boot_id b) (ii_ifindex i))"
  using network_rate_members [of c] assms by blast

definition known_counters :: "string \<Rightarrow> (string \<times> interface_identity) list \<Rightarrow> (string \<times> network_counters) list \<Rightarrow> interface_counter list" where
  "known_counters b ids ns = List.map_filter
     (\<lambda>(name, v). map_option (\<lambda>i. interface_counter_of b name i v) (map_of ids name)) ns"

lemma network_counter_members:
  "members (ob_network_counters (parse_host_resource_v1 c)) = []
   \<or> (\<exists>ns ids b. parsed_network c = Some ns \<and> parsed_interfaces c = Some ids
       \<and> fo_value (boot_of (cap_frame_b c)) = Some b
       \<and> members (ob_network_counters (parse_host_resource_v1 c)) = known_counters (bs_boot_id b) ids ns)"
  by (auto simp: parse_host_resource_v1_def boot_of_def capture_network_counters_def Let_def members_def
      known_counters_def observation_simps split: option.splits)

lemma known_ifindex_unique:
  assumes "distinct (map (ii_ifindex \<circ> snd) ids)"
    and "map_of ids n = Some i" and "map_of ids m = Some j" and "ii_ifindex i = ii_ifindex j"
  shows "n = m"
proof -
  have "(n, i) \<in> set ids" "(m, j) \<in> set ids" using assms(2,3) by (auto dest: map_of_SomeD)
  with assms(1,4) show ?thesis by (fastforce simp: distinct_map inj_on_def)
qed

lemma known_counters_distinct:
  assumes "distinct (map fst ns)" and "distinct (map (ii_ifindex \<circ> snd) ids)"
  shows "distinct (map ic_identity (known_counters b ids ns))"
  using assms(1)
proof (induction ns)
  case (Cons p ns)
  obtain n v where p: "p = (n, v)" by (cases p)
  have ne: "interface_key b (ii_ifindex i) \<noteq> ic_identity r"
    if i: "map_of ids n = Some i" and r: "r \<in> set (known_counters b ids ns)" for i r
  proof -
    obtain m w j where m: "(m, w) \<in> set ns" "map_of ids m = Some j"
        "ic_identity r = interface_key b (ii_ifindex j)"
      using r by (auto simp: known_counters_def map_filter_def interface_counter_of_def)
    have "n \<noteq> m" using Cons.prems m(1) p by (force simp: image_iff)
    then show ?thesis using known_ifindex_unique [OF assms(2) i m(2)] m(3) by (auto simp: interface_key_inj)
  qed
  show ?case
  proof (cases "map_of ids n")
    case None
    then show ?thesis using Cons by (simp add: p known_counters_def map_filter_simps)
  next
    case (Some i)
    then show ?thesis using Cons ne [OF Some]
      by (auto simp: p known_counters_def map_filter_simps interface_counter_of_def)
  qed
qed (simp add: known_counters_def map_filter_simps)

lemma stable_subject_inj:
  assumes "sha_ok e" and "inj_on (sha256 e) M" and "x \<in> M" and "y \<in> M"
  shows "stable_subject_id e k x = stable_subject_id e k y \<longleftrightarrow> x = y"
proof
  assume "stable_subject_id e k x = stable_subject_id e k y"
  then have "sha256 e x = sha256 e y"
    using assms(1) hex_digest_inj by (simp add: stable_subject_id_def sha_ok_def)
  then show "x = y" using assms(2-4) by (simp add: inj_on_def)
qed simp

lemma separate_distinct:
  assumes e: "sha_ok e" and sep: "separate_subjects e c"
  shows "distinct_subjects e (parse_host_resource_v1 c)"
proof -
  let ?o = "parse_host_resource_v1 c"
  have cpu: "distinct (map fst (cf_per_cpu f))" if "parsed_cpu c = Some f" for f
    using parse_proc_stat_distinct parse_source_SomeD [OF that] by auto
  have net: "distinct (map fst ns)" if "parsed_network c = Some ns" for ns
    using parse_network_distinct parse_source_SomeD [OF that] by auto
  have disks: "distinct (map (\<lambda>d. block_identity b (dk_major d) (dk_minor d)) ds)" if "parsed_disks c = Some ds" for ds b
    using sep that by (auto simp: separate_subjects_def distinct_map inj_on_def block_identity_inj)
  have 1: "distinct (map ccs_cpu (core_counters ?o))"
    using cpu by (simp add: core_counters_names split: option.split)
  have 2: "distinct (map ccr_cpu (core_rates ?o))" using core_rates_names [of c] cpu by auto
  have 3: "distinct (map bc_identity (members (ob_disk_io_counters ?o)))"
    using disk_counter_members [of c] disks by (auto simp: comp_def block_counter_of_def)
  have 4: "distinct (map br_identity (members (ob_disk_io ?o)))"
    using disk_rate_members [of c] disks by (auto simp: comp_def)
  have 5: "distinct (map ic_identity (members (ob_network_counters ?o)))"
    using network_counter_members [of c] net known_counters_distinct sep
    by (auto simp: separate_subjects_def)
  have 6: "distinct (map (\<lambda>f. stable_subject_id e ''filesystem'' (fc_mount f)) (members (ob_disk_capacity ?o)))"
  proof (cases "parsed_df c")
    case None
    then show ?thesis using capacity_members [of c] by simp
  next
    case (Some rows)
    then have m: "map fc_mount (members (ob_disk_capacity ?o)) = map df_mount rows"
      using capacity_members [of c] by simp
    have "distinct (map df_mount rows)" and inj: "inj_on (sha256 e) (df_mount ` set rows)"
      using sep Some by (simp_all add: separate_subjects_def)
    then have "distinct (map (stable_subject_id e ''filesystem'') (map df_mount rows))"
      using stable_subject_inj [OF e inj] by (auto simp: distinct_map inj_on_def)
    then have "distinct (map (stable_subject_id e ''filesystem'') (map fc_mount (members (ob_disk_capacity ?o))))"
      by (simp only: m)
    then show ?thesis by (simp add: comp_def)
  qed
  have 7: "distinct (map ir_identity (members (ob_network ?o)))"
  proof (cases "members (ob_network ?o) = []")
    case False
    then obtain ns ids b f where m: "parsed_network c = Some ns" "parsed_interfaces c = Some ids"
        "fo_value (boot_of (cap_frame_b c)) = Some b" "members (ob_network ?o) = map f ns"
      and id: "\<forall>n v. ir_identity (f (n, v)) = (case map_of ids n of
            None \<Rightarrow> bs_boot_id b @ '':unknown:'' @ n | Some i \<Rightarrow> interface_key (bs_boot_id b) (ii_ifindex i))"
      by (rule network_rate_membersE)
    have u: "distinct (map (ii_ifindex \<circ> snd) ids)" using sep m(2) by (simp add: separate_subjects_def)
    have "n = m" if "ir_identity (f (n, v)) = ir_identity (f (m, w))" for n v m w
      using that known_ifindex_unique [OF u] interface_key_unknown interface_key_unknown [symmetric]
      by (auto simp: id interface_key_inj split: option.splits)
    then have "inj_on (ir_identity \<circ> f) (set ns)"
      using net [OF m(1)] by (fastforce simp: inj_on_def distinct_map)
    then show ?thesis using net [OF m(1)] by (simp add: m(4) distinct_map)
  qed simp
  show ?thesis unfolding distinct_subjects_def using 1 2 3 4 5 6 7 by simp
qed

lemma separate_lengths:
  assumes e: "sha_ok e" and sep: "separate_subjects e c" and host: "text_between 1 512 host"
    and x: "x \<in> subject_ids e host (parse_host_resource_v1 c)"
  shows "text_between 1 512 x"
proof -
  let ?o = "parse_host_resource_v1 c"
  have cpu: "text_between 1 512 n" if "parsed_cpu c = Some f" "n \<in> fst ` set (cf_per_cpu f)" for f n
    using sep that by (auto simp: separate_subjects_def)
  have disks: "text_between 1 512 (block_identity (bs_boot_id b) (dk_major d) (dk_minor d))"
    if "parsed_disks c = Some ds" "d \<in> set ds" "fo_value (boot_of (cap_frame_b c)) = Some b" for ds d b
    using that parse_diskstats_numbers parsed_boot_length parse_source_SomeD [OF that(1)]
    by (intro block_identity_length) auto
  have key: "text_between 1 512 (interface_key (bs_boot_id b) (ii_ifindex i))"
    if "parsed_interfaces c = Some ids" "map_of ids n = Some i" "fo_value (boot_of (cap_frame_b c)) = Some b" for ids n i b
  proof (rule interface_key_length)
    show "ii_ifindex i \<le> u32_max"
      using parse_source_SomeD [OF that(1)] parse_identity_ifindex map_of_SomeD [OF that(2)] by blast
  qed (use parsed_boot_length [OF that(3)] in auto)
  have "text_between 1 512 n" if n: "n \<in> ccs_cpu ` set (core_counters ?o)" for n
  proof -
    have "n \<in> set (map ccs_cpu (core_counters ?o))" using n by simp
    then show ?thesis using cpu by (cases "parsed_cpu c") (auto simp: core_counters_names)
  qed
  moreover have "text_between 1 512 n" if n: "n \<in> ccr_cpu ` set (core_rates ?o)" for n
  proof -
    have "n \<in> set (map ccr_cpu (core_rates ?o))" using n by simp
    then show ?thesis using core_rates_names [of c] cpu by (metis empty_iff list.set(1) list.set_map)
  qed
  moreover have "text_between 1 512 (bc_identity r)" if "r \<in> set (members (ob_disk_io_counters ?o))" for r
    using that disk_counter_members [of c] disks by (auto simp: block_counter_of_def)
  moreover have "text_between 1 512 (br_identity r)" if "r \<in> set (members (ob_disk_io ?o))" for r
    using that disk_rate_members [of c] disks by auto
  moreover have "text_between 1 512 (ic_identity r)" if "r \<in> set (members (ob_network_counters ?o))" for r
    using that network_counter_members [of c] key
    by (auto simp: known_counters_def map_filter_def interface_counter_of_def)
  moreover have "text_between 1 512 (ir_identity r)" if r: "r \<in> set (members (ob_network ?o))" for r
  proof -
    from r have "members (ob_network ?o) \<noteq> []" by auto
    then obtain ns ids b f where m: "parsed_network c = Some ns" "parsed_interfaces c = Some ids"
        "fo_value (boot_of (cap_frame_b c)) = Some b" "members (ob_network ?o) = map f ns"
      and id: "\<forall>n v. ir_identity (f (n, v)) = (case map_of ids n of
            None \<Rightarrow> bs_boot_id b @ '':unknown:'' @ n | Some i \<Rightarrow> interface_key (bs_boot_id b) (ii_ifindex i))"
      by (rule network_rate_membersE)
    from r m(4) obtain n v where nv: "(n, v) \<in> set ns" "r = f (n, v)" by auto
    have "char_length n \<le> 300" using sep m(1) nv(1) by (auto simp: separate_subjects_def)
    then show ?thesis
      using key [OF m(2) _ m(3)] unknown_length parsed_boot_length [OF m(3)]
      by (auto simp: nv(2) id split: option.split)
  qed
  moreover have "text_between 1 512 ''summary''" by (simp add: text_between_def)
  ultimately show ?thesis using x host stable_length [OF e] unfolding subject_ids_def by auto
qed

subsection \<open>Every observation is stored\<close>

lemma capture_insertion:
  assumes e: "sha_ok e" and sep: "separate_subjects e c" and host: "text_between 1 512 host" and ms: "0 \<le> ms"
    and run: "\<exists>r \<in> set (runs d). run_id r = run \<and> run_host r = host"
    and new: "\<forall>s \<in> set (samples d). smp_run s \<noteq> run \<and> smp_id s \<notin> set ids"
    and ids: "distinct ids" and len: "length ids = length (samples_from_observation e host (parse_host_resource_v1 c))"
    and rows: "rows = rows_of run host at' ms created ids (samples_from_observation e host (parse_host_resource_v1 c))"
  shows "insert_samples run host at' ms created ids (samples_from_observation e host (parse_host_resource_v1 c)) d
      = Inr (length rows, d\<lparr>samples := samples d @ rows\<rparr>)"
    and "distinct (map row_slot rows)"
    and "\<forall>r \<in> set rows. sample_checks r \<and> smp_run r = run \<and> smp_host r = host"
proof -
  let ?ss = "samples_from_observation e host (parse_host_resource_v1 c)"
  have block: "block_ok observation_topics ?ss" by (rule observation_block [OF separate_distinct [OF e sep]])
  show slots: "distinct (map row_slot rows)"
    unfolding rows using block by (simp only: rows_of_maps(2) [OF len] block_ok_def)
  then have keys: "distinct (map sample_key rows)"
    by (rule distinct_map_weaken) (simp add: sample_key_def row_slot_def)
  have row: "sample_checks r \<and> smp_run r = run \<and> smp_host r = host" if r: "r \<in> set rows" for r
  proof -
    obtain i s where s: "s \<in> set ?ss" and req: "r = sample_row_of run host at' ms created i s"
      using rows_of_memD [OF r [unfolded rows]] by auto
    have "ms_topic s \<in> observation_topics" using block s by (auto simp: block_ok_def)
    then have "sample_checks r" unfolding req
      using row_checks [OF samples_ms_ok [OF e s] _ separate_lengths [OF e sep host samples_subject [OF s]] ms] by blast
    then show ?thesis by (simp add: req)
  qed
  then show "\<forall>r \<in> set rows. sample_checks r \<and> smp_run r = run \<and> smp_host r = host" by blast
  have "insert_rows rows d 0 = Inr (0 + length rows, d\<lparr>samples := samples d @ rows\<rparr>)"
  proof (rule insert_rows_success [OF _ _ keys])
    show "\<forall>r \<in> set rows. sample_checks r \<and> (\<exists>x \<in> set (runs d). run_id x = smp_run r \<and> run_host x = smp_host r)"
      using row run by simp
    show "distinct (map smp_id rows)" using ids unfolding rows by (simp only: rows_of_maps(1) [OF len])
    have "smp_id r \<in> set ids" if "r \<in> set rows" for r
      using that rows_of_maps(1) [OF len, of run host at' ms created] unfolding rows by (metis image_eqI list.set_map)
    then show "\<forall>r \<in> set rows. \<forall>x \<in> set (samples d). smp_id x \<noteq> smp_id r \<and> sample_key x \<noteq> sample_key r"
      using row new by (fastforce simp: sample_key_def)
  qed
  then show "insert_samples run host at' ms created ids ?ss d = Inr (length rows, d\<lparr>samples := samples d @ rows\<rparr>)"
    using len by (simp add: insert_samples_def rows_of_def rows)
qed

text \<open>
  C31. For any output of the host that reports no mount point, device number or interface index twice,
  the samples of the observation are all accepted by the table: whatever failed to parse, went back
  or is missing. The insertion adds exactly one row per sample, and the health evaluation of the run
  finds each of them under its family, subject and metric name with the value, window and quality the
  collector gave it.
\<close>

theorem capture_samples_stored:
  fixes e :: history_env
  defines "ss \<equiv> \<lambda>host c. samples_from_observation e host (parse_host_resource_v1 c)"
  assumes e: "sha_ok e" and sep: "separate_subjects e c" and host: "text_between 1 512 host" and ms: "0 \<le> ms"
    and run: "\<exists>r \<in> set (runs d). run_id r = run \<and> run_host r = host"
    and new: "\<forall>s \<in> set (samples d). smp_run s \<noteq> run \<and> smp_id s \<notin> set ids"
    and ids: "distinct ids" "length ids = length (ss host c)"
  shows "\<exists>d'. insert_samples run host at' ms created ids (ss host c) d = Inr (length (ss host c), d')
     \<and> d' = d\<lparr>samples := samples d @ rows_of run host at' ms created ids (ss host c)\<rparr>
     \<and> (\<forall>s \<in> set (ss host c). \<exists>r.
          find_sample (load_samples run host d') (ms_family s) (ms_subject_kind s) (ms_subject_id s)
            (ms_metric_name s) = Some r
          \<and> smp_value r = ms_value_real s \<and> smp_window r = ms_window s \<and> smp_quality r = ms_quality s)"
proof -
  let ?ss = "samples_from_observation e host (parse_host_resource_v1 c)"
  let ?rows = "rows_of run host at' ms created ids ?ss"
  let ?d' = "d\<lparr>samples := samples d @ ?rows\<rparr>"
  have len: "length ids = length ?ss" using ids(2) by (simp add: ss_def)
  note ins = capture_insertion [OF e sep host ms run new ids(1) len refl, of at' created]
  have rows_len: "length ?rows = length ?ss" using len by (simp add: rows_of_def)
  have "filter (\<lambda>s. smp_run s = run \<and> smp_host s = host) (samples d) = []"
    using new by (simp add: filter_empty_conv)
  moreover have "filter (\<lambda>s. smp_run s = run \<and> smp_host s = host) ?rows = ?rows"
    using ins(3) by (simp add: filter_id_conv)
  ultimately have flt: "distinct (map row_slot (filter (\<lambda>s. smp_run s = run \<and> smp_host s = host) (samples ?d')))"
    using ins(2) by simp
  have "\<exists>r. find_sample (load_samples run host ?d') (ms_family s) (ms_subject_kind s) (ms_subject_id s)
            (ms_metric_name s) = Some r
          \<and> smp_value r = ms_value_real s \<and> smp_window r = ms_window s \<and> smp_quality r = ms_quality s"
    if s: "s \<in> set ?ss" for s
  proof -
    obtain i where i: "sample_row_of run host at' ms created i s \<in> set ?rows"
      using rows_of_mem [OF len s] by blast
    have "find_sample (load_samples run host ?d') (ms_family s) (ms_subject_kind s) (ms_subject_id s)
            (ms_metric_name s) = Some (sample_row_of run host at' ms created i s)"
      using find_sample_unique [OF flt, of "sample_row_of run host at' ms created i s"] i by simp
    then show ?thesis by simp
  qed
  with ins(1) rows_len show ?thesis unfolding ss_def by metis
qed

definition plain_env :: history_env where
  "plain_env = env.extend sample_env \<lparr>dims_json = \<lambda>_. ''{}''\<rparr>\<lparr>sha256 := \<lambda>_. replicate 32 0\<rparr>"

lemma plain_sha_ok: "sha_ok plain_env"
  by (simp add: sha_ok_def plain_env_def env.defs)

lemma default_unparsed: "fo_value (parse_source default_source p) = None"
  by (simp add: parse_source_def default_source_def observation_simps)

lemma default_separate: "separate_subjects plain_env default_capture"
  by (simp add: separate_subjects_def default_capture_def default_frame_def default_unparsed)

lemma default_samples_length:
  "length (samples_from_observation plain_env host (parse_host_resource_v1 default_capture)) = 8"
  by (simp add: samples_from_observation_def availability_samples_def cpu_counter_samples_def
      disk_counter_samples_def network_counter_samples_def cpu_samples_def memory_samples_def
      load_metric_samples_def capacity_samples_def disk_samples_def network_samples_def uptime_samples_def
      process_samples_def members_def parse_host_resource_v1_def Let_def default_capture_def default_frame_def
      derive_cpu_def derive_memory_def derive_load_def derive_disk_capacity_def derive_disk_io_def
      derive_network_def derive_uptime_def capture_cpu_counters_def capture_disk_io_counters_def
      capture_network_counters_def default_unparsed unavailable_def)

theorem capture_samples_stored_witness:
  "\<exists>d'. insert_samples ''r'' ''h'' 0 0 0 [''1'', ''2'', ''3'', ''4'', ''5'', ''6'', ''7'', ''8'']
       (samples_from_observation plain_env ''h'' (parse_host_resource_v1 default_capture))
       (empty_db\<lparr>runs := [sample_run Running]\<rparr>) = Inr (8, d')
     \<and> length (samples d') = 8"
  using capture_samples_stored [OF plain_sha_ok default_separate, of "''h''" 0 "empty_db\<lparr>runs := [sample_run Running]\<rparr>"
      "''r''" "[''1'', ''2'', ''3'', ''4'', ''5'', ''6'', ''7'', ''8'']" 0 0] default_samples_length
  by (auto simp: text_between_def empty_db_def sample_run_def rows_of_def)

text \<open>The part of a row's key that the run does not determine.\<close>

definition row_key :: "sample_row \<Rightarrow> (topic \<times> string) \<times> string \<times> string" where
  "row_key r = (row_slot r, smp_dims_sha r, smp_kind r)"

definition ms_key :: "metric_sample \<Rightarrow> (topic \<times> string) \<times> string \<times> string" where
  "ms_key s = (ms_slot s, ms_dims_sha s, ms_sample_kind s)"

lemma rows_of_keys:
  "length ids = length ss \<Longrightarrow> map row_key (rows_of run host o' ms c ids ss) = map ms_key ss"
proof (induction ids ss rule: list_induct2)
  case (Cons i ids s ss)
  have "row_key (sample_row_of run host o' ms c i s) = ms_key s"
    by (simp add: row_key_def ms_key_def row_slot_of) (simp add: sample_row_of_def)
  with Cons show ?case by (simp add: rows_of_def)
qed (simp add: rows_of_def)

lemma rows_of_const:
  "r \<in> set (rows_of run host o' ms c ids ss) \<Longrightarrow> smp_run r = run \<and> smp_source r = HISTORY_SOURCE_KIND"
proof -
  assume "r \<in> set (rows_of run host o' ms c ids ss)"
  then obtain i s where "r = sample_row_of run host o' ms c i s" using rows_of_memD by blast
  then show ?thesis by (simp add: sample_row_of_def)
qed

lemma mounts_of_keys: "distinct (map ms_key (concat (map (filesystem_metrics e q) fs))) \<Longrightarrow> distinct (map fc_mount fs)"
proof (induction fs)
  case (Cons f fs)
  obtain k where k: "\<And>f. k (fc_mount f) \<in> ms_key ` set (filesystem_metrics e q f)"
  proof
    fix f
    let ?m = "\<lambda>m. push_metric e (descriptor ''disk_capacity'' ''filesystem'' (stable_subject_id e ''filesystem'' m)
        ''availability'' ''gauge'' ''status'') [(''mount'', DimText m)] (availability_value q) None q"
    show "ms_key (?m (fc_mount f)) \<in> ms_key ` set (filesystem_metrics e q f)"
      by (simp add: filesystem_metrics_def Let_def)
  qed
  have disj: "ms_key ` set (filesystem_metrics e q f)
      \<inter> ms_key ` set (concat (map (filesystem_metrics e q) fs)) = {}"
    using Cons.prems by (simp only: list.map concat.simps map_append distinct_append set_map)
  have "fc_mount f \<notin> fc_mount ` set fs"
  proof
    assume "fc_mount f \<in> fc_mount ` set fs"
    then obtain g where g: "g \<in> set fs" "fc_mount g = fc_mount f" by auto
    then have "k (fc_mount f) \<in> ms_key ` set (concat (map (filesystem_metrics e q) fs))"
      using k [of g] by auto
    with k [of f] disj show False by blast
  qed
  moreover have "distinct (map fc_mount fs)"
    using Cons.prems by (intro Cons.IH) (simp only: list.map concat.simps map_append distinct_append)
  ultimately show ?case by simp
qed simp

text \<open>
  When \<open>df\<close> reports the same mount point twice (one filesystem mounted over another), the two rows
  get the same key and the whole insertion is rejected: the run loses all its samples.
\<close>

lemma duplicate_mount_rejected:
  assumes "parsed_df c = Some rows" and "\<not> distinct (map df_mount rows)"
    and "length ids = length (samples_from_observation e host (parse_host_resource_v1 c))"
  shows "\<exists>x. insert_samples run host at' ms created ids
      (samples_from_observation e host (parse_host_resource_v1 c)) d = Inl x"
proof (rule ccontr)
  let ?o = "parse_host_resource_v1 c"
  let ?fs = "members (ob_disk_capacity ?o)"
  let ?ss = "samples_from_observation e host ?o"
  assume "\<not> ?thesis"
  then obtain n d' where ok: "insert_rows (rows_of run host at' ms created ids ?ss) d 0 = Inr (n, d')"
    unfolding insert_samples_def rows_of_def
    by (cases "insert_rows (map2 (sample_row_of run host at' ms created) ids ?ss) d 0") auto
  have "map row_key (rows_of run host at' ms created ids ?ss) = map ms_key ?ss"
    using rows_of_keys [OF assms(3)] .
  moreover have "distinct (map row_key (rows_of run host at' ms created ids ?ss))"
  proof -
    have "sample_key r = sample_key r'"
      if "r \<in> set (rows_of run host at' ms created ids ?ss)" "r' \<in> set (rows_of run host at' ms created ids ?ss)"
        "row_key r = row_key r'" for r r'
      using that(3) rows_of_const [OF that(1)] rows_of_const [OF that(2)]
      by (simp add: row_key_def row_slot_def sample_key_def)
    moreover have "distinct (map sample_key (rows_of run host at' ms created ids ?ss))"
      using insert_rows_keys [OF ok] by blast
    ultimately show ?thesis unfolding distinct_map inj_on_def by blast
  qed
  ultimately have "distinct (map ms_key ?ss)" by simp
  then have "distinct (map ms_key (concat (map (filesystem_metrics e (fo_quality (ob_disk_capacity ?o))) ?fs)))"
    unfolding samples_from_observation_def capacity_samples_def by (simp only: map_append distinct_append)
  then have "distinct (map fc_mount ?fs)" by (rule mounts_of_keys)
  then show False using assms(1,2) capacity_members [of c] by simp
qed

definition shadowed_df :: string where
  "shadowed_df = ''filesystem'' @ LF @ ''a 1 1 1 1% /'' @ LF @ ''b 1 1 1 1% /''"

definition shadowed_capture :: host_capture where
  "shadowed_capture = default_capture\<lparr>cap_disk_capacity := Output shadowed_df\<rparr>"

lemma shadowed_rows: "\<exists>rows. parsed_df shadowed_capture = Some rows \<and> \<not> distinct (map df_mount rows)"
proof -
  have ls: "lines shadowed_df = [''filesystem'', ''a 1 1 1 1% /'', ''b 1 1 1 1% /'']"
    by (simp add: lines_def shadowed_df_def strip_cr_def)
  have w: "split_whitespace ''a 1 1 1 1% /'' = [''a'', ''1'', ''1'', ''1'', ''1%'', ''/'']"
      "split_whitespace ''b 1 1 1 1% /'' = [''b'', ''1'', ''1'', ''1'', ''1%'', ''/'']"
    by (simp_all add: split_whitespace_def push_word_def plain_char_def)
  have one: "parse_u64 ''1'' = Some 1"
    by (simp add: parse_u64_def parse_unsigned_def digit_val_def u64_max_def)
  have rows': "parse_df_row ''a 1 1 1 1% /'' = Some \<lparr>df_source = ''a'', df_mount = ''/'', df_total = 1,
        df_used = 1, df_available = 1\<rparr>"
      "parse_df_row ''b 1 1 1 1% /'' = Some \<lparr>df_source = ''b'', df_mount = ''/'', df_total = 1,
        df_used = 1, df_available = 1\<rparr>"
    by (simp_all add: parse_df_row_def w one)
  have blank: "filter (\<lambda>l. \<not> is_blank l) (lines shadowed_df) = lines shadowed_df"
    unfolding ls by (simp add: is_blank_def trim_plain plain_char_def)
  have lower: "map lower_char ''filesystem'' = ''filesystem''" by (simp add: lower_char_def)
  have header: "text_contains ''filesystem'' ''filesystem''" by (simp add: text_contains_def)
  have "\<exists>rows. parse_df MAX_FILESYSTEMS shadowed_df = Some rows \<and> map df_mount rows = [''/'', ''/'']"
    unfolding parse_df_def blank unfolding ls
    by (simp add: first_def header lower [simplified] rows' MAX_FILESYSTEMS_def non_empty_def)
  then have "\<exists>rows. parsed_df shadowed_capture = Some rows \<and> map df_mount rows = [''/'', ''/'']"
    by (auto simp: shadowed_capture_def parse_source_def observed_def)
  then show ?thesis by force
qed

end
