(* ===== verification/Snapshot.thy ===== *)
theory Snapshot
  imports HostRates SnapshotContracts
begin

text \<open>
  What an observation shows to the owner: \<open>snapshot_from_observation\<close> of \<open>backend/src/monitoring_api.rs\<close>
  with its helpers, and what the counts of a snapshot say about the observation it was made of.
\<close>

definition COLLECTOR_VERSION :: string where
  "COLLECTOR_VERSION = ''host_resource_v1/1''"

fun quality :: "metric_quality \<Rightarrow> monitor_metric_quality" where
  "quality Observed = MObserved"
| "quality Unsupported = MUnsupported"
| "quality ParseFailed = MParseFailed"
| "quality CounterReset = MCounterReset"
| "quality CounterUnreliable = MCounterUnreliable"
| "quality InsufficientInterval = MInsufficientInterval"
| "quality metric_quality.PermissionDenied = MPermissionDenied"
| "quality metric_quality.TimedOut = MTimedOut"

definition kib_to_bytes :: "nat \<Rightarrow> nat" where
  "kib_to_bytes v = min (v * 1024) u64_max"

definition family_coverage :: "string \<Rightarrow> bool \<Rightarrow> 'a family_observation \<Rightarrow> nat \<Rightarrow> family_coverage_row" where
  "family_coverage family required observation item_count =
     \<lparr>fcv_family = family, fcv_required = required, fcv_quality = quality (fo_quality observation),
      fcv_observed_item_count = (if fo_value observation \<noteq> None then u32_of_nat item_count else 0)\<rparr>"

definition observation_coverage :: "host_observation \<Rightarrow> family_coverage_row list" where
  "observation_coverage o1 =
     [family_coverage ''cpu'' True (ob_cpu o1) 1,
      family_coverage ''memory'' True (ob_memory o1) 1,
      family_coverage ''load'' True (ob_load o1) 1,
      family_coverage ''disk_capacity'' True (ob_disk_capacity o1) (length (members (ob_disk_capacity o1))),
      family_coverage ''disk_io'' False (ob_disk_io o1) (length (members (ob_disk_io o1))),
      family_coverage ''network'' False (ob_network o1) (length (members (ob_network o1))),
      family_coverage ''uptime'' True (ob_uptime o1) 1,
      family_coverage ''process'' False (ob_process o1) 1]"

definition core_metric :: "cpu_core_rate \<Rightarrow> host_cpu_core_metric" where
  "core_metric core =
     \<lparr>hcc_cpu = ccr_cpu core, hcc_quality = quality (ccr_quality core),
      hcc_busy_percent = map_option cr_busy_pct (ccr_rate core),
      hcc_iowait_percent = map_option cr_iowait_pct (ccr_rate core),
      hcc_steal_percent = map_option cr_steal_pct (ccr_rate core)\<rparr>"

definition cpu_metric :: "cpu_metrics family_observation \<Rightarrow> host_cpu_metric" where
  "cpu_metric c =
     (let cpu = fo_value c
      in \<lparr>hcm_quality = quality (fo_quality c),
          hcm_busy_percent = map_option (\<lambda>v. cr_busy_pct (cm_aggregate v)) cpu,
          hcm_iowait_percent = map_option (\<lambda>v. cr_iowait_pct (cm_aggregate v)) cpu,
          hcm_steal_percent = map_option (\<lambda>v. cr_steal_pct (cm_aggregate v)) cpu,
          hcm_online_cpu_count = Option.bind cpu cm_online_cpu_count,
          hcm_window_seconds = map_option cm_window_seconds cpu,
          hcm_per_cpu = (case cpu of None \<Rightarrow> [] | Some v \<Rightarrow> map core_metric (cm_per_cpu v))\<rparr>)"

definition memory_metric :: "memory_metrics family_observation \<Rightarrow> host_memory_metric" where
  "memory_metric c =
     (let m = fo_value c;
          bytes = (\<lambda>f. Option.bind m (\<lambda>v. map_option kib_to_bytes (f v)))
      in \<lparr>hmm_quality = quality (fo_quality c),
          hmm_total_bytes = map_option (\<lambda>v. kib_to_bytes (mm_total_kib v)) m,
          hmm_available_bytes = bytes mm_available_kib, hmm_used_bytes = bytes mm_used_kib,
          hmm_swap_total_bytes = bytes mm_swap_total_kib, hmm_swap_free_bytes = bytes mm_swap_free_kib,
          hmm_cached_bytes = bytes mm_cached_kib, hmm_buffers_bytes = bytes mm_buffers_kib,
          hmm_slab_bytes = bytes mm_slab_kib\<rparr>)"

definition load_metric :: "load_metrics family_observation \<Rightarrow> host_load_metric" where
  "load_metric c =
     (let l = fo_value c
      in \<lparr>hlm_quality = quality (fo_quality c), hlm_load1 = map_option lm_load1 l,
          hlm_load5 = map_option lm_load5 l, hlm_load15 = map_option lm_load15 l,
          hlm_normalized_load1 = Option.bind l lm_normalized1,
          hlm_normalized_load5 = Option.bind l lm_normalized5,
          hlm_normalized_load15 = Option.bind l lm_normalized15,
          hlm_runnable_entities = map_option lm_runnable l,
          hlm_total_scheduling_entities = map_option lm_total_entities l,
          hlm_online_cpu_count = Option.bind l lm_online_cpu_count\<rparr>)"

definition filesystem_metric :: "filesystem_capacity \<Rightarrow> host_filesystem_metric" where
  "filesystem_metric f =
     \<lparr>hfm_mount = fc_mount f, hfm_size_bytes = kib_to_bytes (fc_size_kib f),
      hfm_used_bytes = kib_to_bytes (fc_used_kib f),
      hfm_available_bytes = kib_to_bytes (fc_available_kib f),
      hfm_allocatable_used_ratio = fc_used_ratio f, hfm_inode_total = fc_inode_total f,
      hfm_inode_used = fc_inode_used f, hfm_inode_available = fc_inode_available f,
      hfm_inode_used_ratio = fc_inode_used_ratio f, hfm_inode_quality = quality (fc_inode_quality f)\<rparr>"

definition disk_io_metric :: "block_io_rate \<Rightarrow> host_disk_io_metric" where
  "disk_io_metric b =
     (let m = br_metrics b
      in \<lparr>hdm_identity = br_identity b, hdm_name = br_name b, hdm_major = br_major b, hdm_minor = br_minor b,
          hdm_quality = quality (br_quality b), hdm_window_seconds = br_window_seconds b,
          hdm_read_bytes_per_second = map_option bm_read_bytes m,
          hdm_write_bytes_per_second = map_option bm_write_bytes m,
          hdm_iops = map_option bm_iops m, hdm_read_await_ms = Option.bind m bm_read_await_ms,
          hdm_write_await_ms = Option.bind m bm_write_await_ms,
          hdm_util_percent = map_option bm_util_pct m,
          hdm_average_queue_depth = map_option bm_queue_depth m\<rparr>)"

definition network_metric :: "interface_rate \<Rightarrow> host_network_metric" where
  "network_metric i =
     (let m = ir_metrics i
      in \<lparr>hnm_identity = ir_identity i, hnm_name = ir_name i, hnm_ifindex = ir_ifindex i,
          hnm_iflink = ir_iflink i, hnm_operstate = ir_operstate i, hnm_speed_mbps = ir_speed_mbps i,
          hnm_quality = quality (ir_quality i), hnm_window_seconds = ir_window_seconds i,
          hnm_rx_bytes_per_second = map_option im_rx_bytes m,
          hnm_tx_bytes_per_second = map_option im_tx_bytes m,
          hnm_rx_packets_per_second = map_option im_rx_packets m,
          hnm_tx_packets_per_second = map_option im_tx_packets m,
          hnm_rx_error_drop_percent = Option.bind m im_rx_error_drop_pct,
          hnm_tx_error_drop_percent = Option.bind m im_tx_error_drop_pct,
          hnm_rx_util_percent = Option.bind m im_rx_util_pct,
          hnm_tx_util_percent = Option.bind m im_tx_util_pct\<rparr>)"

definition uptime_metric :: "uptime_metrics family_observation \<Rightarrow> cpu_metrics option \<Rightarrow> host_uptime_metric" where
  "uptime_metric c cpu =
     (let u = fo_value c
      in \<lparr>hum_quality = quality (fo_quality c), hum_boot_id = map_option um_boot_id u,
          hum_uptime_seconds = map_option um_uptime_seconds u, hum_idle_seconds = None,
          hum_rebooted_during_sample = Option.bind u um_rebooted,
          hum_window_seconds = map_option cm_window_seconds cpu\<rparr>)"

definition process_metric :: "process_counts family_observation \<Rightarrow> host_process_metric" where
  "process_metric c =
     (let p = fo_value c
      in \<lparr>hpm_quality = quality (fo_quality c), hpm_scanned = map_option ps_scanned p,
          hpm_running = map_option ps_running p, hpm_blocked = map_option ps_blocked p,
          hpm_zombie = map_option ps_zombie p, hpm_raced = map_option ps_raced p,
          hpm_truncated = map_option ps_truncated p\<rparr>)"

definition snapshot_from_observation ::
  "string \<Rightarrow> string \<Rightarrow> string \<Rightarrow> millis \<Rightarrow> millis \<Rightarrow> host_observation \<Rightarrow> host_resource_snapshot"
where
  "snapshot_from_observation observation run host observed_at valid_until o1 =
     (let coverage = observation_coverage o1
      in \<lparr>snap_observation_id = observation, snap_run_id = run, snap_host_id = host,
          snap_collector_version = COLLECTOR_VERSION, snap_observed_at = observed_at,
          snap_valid_until = valid_until, snap_freshness = MonFresh, snap_retention_tier = ''full'',
          snap_ssh_session_count = 1, snap_coverage = coverage,
          snap_metric_count = fold (\<lambda>c n. sat_add32 n (fcv_observed_item_count c)) coverage 0,
          snap_unknown_count = u32_of_nat (length (filter (\<lambda>c. fcv_quality c \<noteq> MObserved) coverage)),
          snap_cpu = cpu_metric (ob_cpu o1), snap_memory = memory_metric (ob_memory o1),
          snap_load = load_metric (ob_load o1),
          snap_filesystems = map filesystem_metric (members (ob_disk_capacity o1)),
          snap_disk_io = map disk_io_metric (members (ob_disk_io o1)),
          snap_network = map network_metric (members (ob_network o1)),
          snap_uptime = uptime_metric (ob_uptime o1) (fo_value (ob_cpu o1)),
          snap_process = process_metric (ob_process o1)\<rparr>)"

subsection \<open>Counts\<close>

lemma quality_observed [simp]: "quality q = MObserved \<longleftrightarrow> q = Observed" "MObserved = quality q \<longleftrightarrow> q = Observed"
  by (cases q; simp)+

lemma fold_sat_add32:
  "n \<le> u32_max \<Longrightarrow> fold (\<lambda>c n. sat_add32 n (f c)) cs n = min u32_max (n + sum_list (map f cs))"
  by (induction cs arbitrary: n) (auto simp: sat_add32_def)

text \<open>
  The families a snapshot counts as unknown are those the collector did not count as observed, and its
  metric count is the saturated number of items of the families that have a value.
\<close>

lemma snapshot_counts:
  fixes c :: host_capture
  defines "o1 \<equiv> parse_host_resource_v1 c"
  shows "snap_unknown_count (snapshot_from_observation i r h t v o1)
           + cov_required_observed (ob_coverage o1) + cov_optional_observed (ob_coverage o1) = 8"
    and "snap_metric_count (snapshot_from_observation i r h t v o1)
           = min u32_max (sum_list (map fcv_observed_item_count (observation_coverage o1)))"
proof -
  show "snap_metric_count (snapshot_from_observation i r h t v o1)
           = min u32_max (sum_list (map fcv_observed_item_count (observation_coverage o1)))"
    by (simp add: snapshot_from_observation_def Let_def fold_sat_add32)
  have "length (filter (\<lambda>c. fcv_quality c \<noteq> MObserved) (observation_coverage o1)) \<le> 8"
    using length_filter_le [of _ "observation_coverage o1"] by (simp add: observation_coverage_def)
  then have "snap_unknown_count (snapshot_from_observation i r h t v o1)
      = length (filter (\<lambda>c. fcv_quality c \<noteq> MObserved) (observation_coverage o1))"
    by (simp add: snapshot_from_observation_def Let_def u32_of_nat_def u32_max_def)
  then show "snap_unknown_count (snapshot_from_observation i r h t v o1)
           + cov_required_observed (ob_coverage o1) + cov_optional_observed (ob_coverage o1) = 8"
    by (simp add: o1_def observation_coverage_def family_coverage_def parse_host_resource_v1_def Let_def
        is_observed_def)
qed

end
