(* ===== verification/MonitorRuns.thy ===== *)
theory MonitorRuns
  imports Snapshot CollectionHistory ScheduleHistory
begin

text \<open>
  \<open>backend/src/monitoring_api.rs\<close>: manual runs, the background task that collects a host, its persistence,
  and the recovery of interrupted runs, with \<open>M1Error\<close> and \<open>resolve_monitoring_target\<close> of \<open>m1.rs\<close>. The
  connection columns of \<open>hosts\<close> (\<open>inventory\<close>), the secret store and what the remote shell answers are
  arguments. A statement or transaction is one step on the database; the background task is the sequence
  of its steps.
\<close>

record monitor_env = history_env +
  json_of_snapshot :: "host_resource_snapshot \<Rightarrow> string"

subsection \<open>Errors\<close>

datatype m1_error =
    M1BadRequest string
  | M1NotFound string string
  | M1Conflict string
  | M1External nat string
  | M1Storage db_error
  | M1SecretStore
  | M1SecretRefUnavailable
  | M1ShuttingDown
  | M1Internal

fun m1_error_response :: "m1_error \<Rightarrow> nat \<times> string" where
  "m1_error_response (M1BadRequest code) = (400, code)"
| "m1_error_response (M1NotFound resource i) = (404, ''NOT_FOUND'')"
| "m1_error_response (M1Conflict code) = (409, code)"
| "m1_error_response (M1External status code) = (status, code)"
| "m1_error_response (M1Storage e) = (503, ''STORAGE_UNAVAILABLE'')"
| "m1_error_response M1SecretStore = (503, ''SECRET_STORE_UNAVAILABLE'')"
| "m1_error_response M1SecretRefUnavailable = (503, ''SECRET_REF_UNAVAILABLE'')"
| "m1_error_response M1ShuttingDown = (503, ''APPLICATION_SHUTTING_DOWN'')"
| "m1_error_response M1Internal = (500, ''INTERNAL_ERROR'')"

subsection \<open>The target of a collection\<close>

datatype host_key_state = KeyUnverified | KeyVerified | KeyChanged

datatype host_connection =
    HostRegistered | FingerprintFetching | HostKeyUnverified | HostKeyVerified | HostKeyChanged
  | ConnectionChecking | ConnectionReady | HostDockerUnavailable | HostDockerPermissionDenied
  | HostDiscoveryRunning | HostEvidenceReady | HostDiscoveryComplete | HostDiscoveryPartial
  | HostDiscoveryUnavailable | HostFailed

definition host_connection_state :: "host_connection \<Rightarrow> host_connection" where
  "host_connection_state s =
     (if s \<in> {ConnectionReady, HostDockerUnavailable, HostDockerPermissionDenied, HostDiscoveryRunning,
              HostEvidenceReady, HostDiscoveryComplete, HostDiscoveryPartial, HostDiscoveryUnavailable}
      then ConnectionReady else s)"

record host_db =
  hd_host_id :: string
  hd_address :: string
  hd_port :: nat
  hd_ssh_user :: string
  hd_credential_ref :: string
  hd_host_key_state :: host_key_state
  hd_status :: host_connection

datatype ssh_credential = PrivateKey string | Password string

record ssh_target =
  tg_host_id :: string
  tg_address :: string
  tg_port :: nat
  tg_user :: string
  tg_credential :: ssh_credential

definition resolve_monitoring_target ::
  "(string \<Rightarrow> host_db option) \<Rightarrow> (string \<Rightarrow> ssh_credential option) \<Rightarrow> string \<Rightarrow> m1_error + ssh_target"
where
  "resolve_monitoring_target inventory secret host =
     (case inventory host of
        None \<Rightarrow> Inl (M1NotFound ''host'' host)
      | Some h \<Rightarrow>
          if hd_host_key_state h \<noteq> KeyVerified \<or> host_connection_state (hd_status h) \<noteq> ConnectionReady
          then Inl (M1Conflict ''CONNECTION_NOT_READY'')
          else (case secret (hd_credential_ref h) of
                  None \<Rightarrow> Inl M1SecretRefUnavailable
                | Some credential \<Rightarrow>
                    Inr \<lparr>tg_host_id = hd_host_id h, tg_address = hd_address h, tg_port = hd_port h,
                         tg_user = hd_ssh_user h, tg_credential = credential\<rparr>))"

subsection \<open>Freshness and meta data\<close>

definition freshness_from_valid_until :: "millis \<Rightarrow> instant \<Rightarrow> monitor_freshness" where
  "freshness_from_valid_until valid_until now =
     (if now \<le> valid_until * ns_per_ms then MonFresh else MonStale)"

fun api_freshness :: "monitor_freshness \<Rightarrow> freshness" where
  "api_freshness MonFresh = Fresh"
| "api_freshness MonStale = StaleData"
| "api_freshness FreshnessUnknown = Unavailable"

definition run_freshness :: "run_state \<Rightarrow> freshness" where
  "run_freshness s =
     (if s \<in> {Succeeded, Partial} then Fresh else if s \<in> {Queued, Running} then StaleData else Unavailable)"

definition monitor_meta :: "string \<Rightarrow> freshness \<Rightarrow> secs \<Rightarrow> api_meta" where
  "monitor_meta rid f generated =
     \<lparr>meta_request_id = rid, meta_revision = 1, meta_generated_at = generated, meta_freshness = f\<rparr>"

subsection \<open>Announcing a run\<close>

definition publish_run_state :: "string \<Rightarrow> secs \<Rightarrow> db \<Rightarrow> db" where
  "publish_run_state run now d =
     (case select_one (\<lambda>r. run_id r = run) (runs d) of
        None \<Rightarrow> d
      | Some r \<Rightarrow> publish MonitorRunChanged (''monitor-run:'' @ run) 0
                    (JObj [(''state'', JStr (run_state_name (run_status r)))]) now d)"

subsection \<open>Creating a manual run\<close>

text \<open>The only request is \<open>{"profile":"host_resource_v1"}\<close>; its JSON text is hashed.\<close>

definition run_request_json :: string where
  "run_request_json =
     ''{'' @ DQ @ ''profile'' @ DQ @ '':'' @ DQ @ ''host_resource_v1'' @ DQ @ ''}''"

definition request_digest :: "env \<Rightarrow> string" where
  "request_digest env = digest_text env run_request_json"

definition DEFAULT_SNAPSHOT_STALE_AFTER_SECONDS :: int where
  "DEFAULT_SNAPSHOT_STALE_AFTER_SECONDS = 900"

definition replay_request :: "string \<Rightarrow> string \<Rightarrow> string \<Rightarrow> db \<Rightarrow> m1_error + run_accepted_response option" where
  "replay_request host key sha d =
     (case select_one (\<lambda>r. run_host r = host \<and> run_key r = key) (runs d) of
        None \<Rightarrow> Inr None
      | Some r \<Rightarrow>
          if run_sha r \<noteq> sha then Inl (M1Conflict ''IDEMPOTENCY_KEY_REUSED'') else Inr (Some (run_accepted r)))"

definition manual_run ::
  "string \<Rightarrow> string \<Rightarrow> string \<Rightarrow> string \<Rightarrow> secs \<Rightarrow> run_accepted_response \<Rightarrow> db \<Rightarrow> run_row"
where
  "manual_run run host key sha submitted accepted d =
     \<lparr>run_id = run, run_host = host, run_request_id = acc_request_id (acc_data accepted), run_key = key,
      run_sha = sha, run_trigger_kind = Manual, run_status = Queued, run_schedule = None,
      run_schedule_revision = None, run_version = None,
      run_policy_version = map_option pol_version_id
        (select_one (\<lambda>p. pol_host p = host \<and> pol_lifecycle p = Current) (policies d)),
      run_scheduled_for = None, run_stale_after = DEFAULT_SNAPSHOT_STALE_AFTER_SECONDS,
      run_due_interval = None, run_missed = None, run_collector_version = None, run_boot_id = None,
      run_coverage = [], run_failure = None, run_failure_summary = None, run_output_bytes = 0,
      run_ssh_sessions = 0, run_submitted_at = submitted, run_started_at = None, run_finished_at = None,
      run_accepted = accepted\<rparr>"

text \<open>
  \<open>pre\<close> is the database of the first replay lookup, \<open>d\<close> the one at the insertion; \<open>parsed\<close> says that the
  body is a request of the contract. The second component of an answer is the background task it starts.
\<close>

definition create_monitor_run ::
  "env \<Rightarrow> headers \<Rightarrow> string \<Rightarrow> bool \<Rightarrow> bool \<Rightarrow> (m1_error + ssh_target) \<Rightarrow> string \<Rightarrow> string \<Rightarrow> secs \<Rightarrow> secs \<Rightarrow> secs
     \<Rightarrow> db \<Rightarrow> db \<Rightarrow> (m1_error + run_accepted_response \<times> (string \<times> string \<times> ssh_target) option) \<times> db"
where
  "create_monitor_run env hdr host parsed shutdown target run rid submitted generated announced pre d =
     (if \<not> parsed then (Inl (M1BadRequest ''INVALID_JSON''), d)
      else case idempotency_key hdr of
             None \<Rightarrow> (Inl (M1BadRequest ''IDEMPOTENCY_KEY_REQUIRED''), d)
           | Some key \<Rightarrow>
               (let sha = request_digest env in
                case replay_request host key sha pre of
                  Inl e \<Rightarrow> (Inl e, d)
                | Inr (Some response) \<Rightarrow> (Inr (response, None), d)
                | Inr None \<Rightarrow>
                    if shutdown then (Inl M1ShuttingDown, d)
                    else case target of
                           Inl e \<Rightarrow> (Inl e, d)
                         | Inr t \<Rightarrow>
                             (let request = request_id hdr rid;
                                  accepted = \<lparr>acc_data = \<lparr>acc_request_id = request, acc_run_id = run,
                                      acc_host_id = host, acc_state = Queued, acc_submitted_at = submitted\<rparr>,
                                    acc_meta = monitor_meta request StaleData generated\<rparr>
                              in case insert_run (manual_run run host key sha submitted accepted d) d of
                                   Inr d1 \<Rightarrow> (Inr (accepted, Some (run, host, t)), publish_run_state run announced d1)
                                 | Inl e \<Rightarrow>
                                     if e = UniqueViolation \<or> e = TriggerAbort ''host observation already active''
                                     then (case replay_request host key sha d of
                                             Inl e' \<Rightarrow> (Inl e', d)
                                           | Inr (Some response) \<Rightarrow> (Inr (response, None), d)
                                           | Inr None \<Rightarrow> (Inl (M1Conflict ''MONITOR_ALREADY_RUNNING''), d))
                                     else (Inl (M1Storage e), d))))"

subsection \<open>Interruption and recovery\<close>

definition no_observation :: "instant \<Rightarrow> evaluation_timing" where
  "no_observation finished =
     \<lparr>tm_evaluated_at = finished, tm_observation = ObsNone, tm_observed_at = None, tm_valid_until = None\<rparr>"

definition interrupted_run :: "string \<Rightarrow> instant \<Rightarrow> run_row \<Rightarrow> run_row" where
  "interrupted_run summary finished r =
     r\<lparr>run_status := Interrupted, run_failure := Some ''MONITOR_INTERRUPTED'',
       run_failure_summary := Some summary, run_finished_at := Some (timestamp_ms finished)\<rparr>"

text \<open>The receipt identifiers of an evaluation: its own and those of its condition rows.\<close>

type_synonym receipt_ids = "string \<times> (nat \<Rightarrow> string)"

definition interrupt_queued_monitor_run ::
  "env \<Rightarrow> string \<Rightarrow> instant \<Rightarrow> receipt_ids \<Rightarrow> db \<Rightarrow> (bool \<times> db) stmt"
where
  "interrupt_queued_monitor_run env run finished ids d =
     (let queued = (\<lambda>r. run_id r = run \<and> run_status r = Queued);
          host = map_option run_host (select_one queued (runs d))
      in and_then (update_runs queued
             (interrupted_run ''Monitor run was interrupted during application shutdown'' finished) d)
           (\<lambda>(n, d1).
             case (if n = 1 then host else None) of
               None \<Rightarrow> Inr (n = 1, d1)
             | Some h \<Rightarrow>
                 and_then (evaluate_run_tx env run h (no_observation finished) (fst ids) (snd ids) d1)
                   (\<lambda>d2. Inr (n = 1, d2))))"

fun evaluate_interrupted ::
  "env \<Rightarrow> evaluation_timing \<Rightarrow> (string \<Rightarrow> receipt_ids) \<Rightarrow> run_row list \<Rightarrow> db \<Rightarrow> db stmt"
where
  "evaluate_interrupted env tm ids [] d = Inr d"
| "evaluate_interrupted env tm ids (r # rs) d =
     and_then (evaluate_run_tx env (run_id r) (run_host r) tm (fst (ids (run_id r))) (snd (ids (run_id r))) d)
       (evaluate_interrupted env tm ids rs)"

definition recover_interrupted_monitor_runs ::
  "env \<Rightarrow> instant \<Rightarrow> secs \<Rightarrow> (string \<Rightarrow> receipt_ids) \<Rightarrow> db \<Rightarrow> (nat \<times> db) stmt"
where
  "recover_interrupted_monitor_runs env finished announced ids d =
     (let interrupted = filter active_run (runs d)
      in and_then (update_runs active_run
             (interrupted_run ''Monitor run was interrupted by process restart'' finished) d)
           (\<lambda>(recovered, d1).
             and_then (evaluate_interrupted env (no_observation finished) ids interrupted d1) (\<lambda>d2.
               Inr (recovered,
                 if 0 < recovered
                 then snd (publish_in_transaction MonitorRunChanged ''monitor-runs:startup-recovery'' 0
                        (JObj [(''state'', JStr ''interrupted''), (''recovered_count'', JInt (int recovered)),
                               (''snapshot_required'', JBool True)]) announced d2)
                 else d2))))"

subsection \<open>Failures of a run\<close>

datatype ssh_failure = SshFUnreachable | SshFAuthentication | SshFHostKey | SshFTimeout | SshFOutputLimit | SshFProcess

record ssh_error =
  se_failure :: ssh_failure
  se_output_bytes :: nat

record command_output =
  co_stdout :: string
  co_output_bytes :: nat

record monitor_failure =
  mf_state :: run_state
  mf_code :: string
  mf_summary :: string
  mf_output_bytes :: nat
  mf_ssh_sessions :: nat

fun ssh_failure_state :: "ssh_failure \<Rightarrow> run_state \<times> string \<times> string" where
  "ssh_failure_state SshFUnreachable = (Failed, ''SSH_UNREACHABLE'', ''SSH target was unreachable'')"
| "ssh_failure_state SshFAuthentication = (Failed, ''SSH_AUTH_FAILED'', ''SSH authentication failed'')"
| "ssh_failure_state SshFHostKey =
     (Failed, ''HOST_KEY_CHANGED'', ''SSH host identity is no longer verified'')"
| "ssh_failure_state SshFTimeout =
     (TimedOut, ''COLLECTOR_TIMED_OUT'', ''Fixed host resource collection timed out'')"
| "ssh_failure_state SshFOutputLimit =
     (Failed, ''COLLECTOR_OUTPUT_LIMIT'', ''Fixed host resource output exceeded its byte limit'')"
| "ssh_failure_state SshFProcess =
     (Failed, ''COLLECTOR_PROCESS_FAILED'', ''Fixed host resource command failed'')"

definition classify_ssh_failure :: "ssh_error \<Rightarrow> monitor_failure" where
  "classify_ssh_failure e =
     (let (state, code, summary) = ssh_failure_state (se_failure e)
      in \<lparr>mf_state = state, mf_code = code, mf_summary = summary, mf_output_bytes = se_output_bytes e,
          mf_ssh_sessions = 1\<rparr>)"

fun target_failure_text :: "m1_error \<Rightarrow> string \<times> string" where
  "target_failure_text (M1NotFound resource i) = (''MONITOR_HOST_NOT_FOUND'', ''Registered HOST no longer exists'')"
| "target_failure_text (M1Conflict code) =
     (''CONNECTION_NOT_READY'', ''HOST connection or verified SSH identity is not ready'')"
| "target_failure_text M1SecretStore =
     (''SECRET_REF_UNAVAILABLE'', ''SSH credential reference could not be resolved'')"
| "target_failure_text M1SecretRefUnavailable =
     (''SECRET_REF_UNAVAILABLE'', ''SSH credential reference could not be resolved'')"
| "target_failure_text (M1Storage e) = (''STORAGE_UNAVAILABLE'', ''Local monitor storage was unavailable'')"
| "target_failure_text _ =
     (''MONITOR_TARGET_UNAVAILABLE'', ''Fixed monitoring target could not be resolved'')"

definition classify_target_resolution_failure :: "m1_error \<Rightarrow> monitor_failure" where
  "classify_target_resolution_failure e =
     \<lparr>mf_state = Failed, mf_code = fst (target_failure_text e), mf_summary = snd (target_failure_text e),
      mf_output_bytes = 0, mf_ssh_sessions = 0\<rparr>"

definition parser_failure :: "string \<Rightarrow> nat \<Rightarrow> monitor_failure" where
  "parser_failure summary output_bytes =
     \<lparr>mf_state = Failed, mf_code = ''COLLECTOR_PARSE_FAILED'', mf_summary = summary,
      mf_output_bytes = output_bytes, mf_ssh_sessions = 1\<rparr>"

definition bytes_column :: "nat \<Rightarrow> int" where
  "bytes_column n = min (int n) i64_max"

definition failed_run :: "monitor_failure \<Rightarrow> instant \<Rightarrow> run_row \<Rightarrow> run_row" where
  "failed_run f finished r =
     r\<lparr>run_status := mf_state f, run_failure := Some (mf_code f), run_failure_summary := Some (mf_summary f),
       run_output_bytes := bytes_column (mf_output_bytes f), run_ssh_sessions := mf_ssh_sessions f,
       run_finished_at := Some (timestamp_ms finished)\<rparr>"

definition persist_failure ::
  "env \<Rightarrow> string \<Rightarrow> monitor_failure \<Rightarrow> instant \<Rightarrow> receipt_ids \<Rightarrow> db \<Rightarrow> m1_error + db"
where
  "persist_failure env run f finished ids d =
     (case select_one (\<lambda>r. run_id r = run) (runs d) of
        None \<Rightarrow> Inl (M1Storage RowNotFound)
      | Some r0 \<Rightarrow>
          map_error M1Storage
            (and_then (update_runs (\<lambda>r. run_id r = run \<and> run_status r = Running) (failed_run f finished) d)
              (\<lambda>(n, d1).
                if n = 1
                then evaluate_run_tx env run (run_host r0) (no_observation finished) (fst ids) (snd ids) d1
                else Inr d1)))"

subsection \<open>A successful collection\<close>

fun completeness_state :: "run_completeness \<Rightarrow> run_state" where
  "completeness_state RunSucceeded = Succeeded"
| "completeness_state RunPartial = Partial"
| "completeness_state RunFailed = Failed"

text \<open>What a run brings along: clock values, fresh identifiers and the answers of the outside world.\<close>

record background_env =
  bk_started :: secs
  bk_finished :: instant
  bk_created :: millis
  bk_announced_start :: secs
  bk_announced_end :: secs
  bk_observation :: string
  bk_samples :: "string list"
  bk_receipt :: receipt_ids
  bk_target :: "string \<Rightarrow> m1_error + ssh_target"
  bk_ssh :: "ssh_target \<Rightarrow> string \<Rightarrow> nat \<Rightarrow> ssh_error + command_output"

definition observed_run ::
  "run_state \<Rightarrow> host_resource_snapshot \<Rightarrow> nat \<Rightarrow> instant \<Rightarrow> run_row \<Rightarrow> run_row"
where
  "observed_run state s output_bytes finished r =
     r\<lparr>run_status := state, run_collector_version := Some COLLECTOR_VERSION,
       run_boot_id := hum_boot_id (snap_uptime s), run_coverage := snap_coverage s,
       run_output_bytes := bytes_column output_bytes, run_ssh_sessions := 1,
       run_failure := (if state = Failed then Some ''COLLECTOR_REQUIRED_FAMILIES_UNAVAILABLE'' else None),
       run_failure_summary := (if state = Failed
         then Some ''No required host resource family produced a valid observation'' else None),
       run_finished_at := Some (timestamp_ms finished)\<rparr>"

definition current_of ::
  "monitor_env \<Rightarrow> string \<Rightarrow> string \<Rightarrow> host_resource_snapshot \<Rightarrow> millis \<Rightarrow> current_row"
where
  "current_of e run host s finished_at =
     \<lparr>cur_host = host, cur_run = run, cur_collector_version = COLLECTOR_VERSION,
      cur_boot_id = hum_boot_id (snap_uptime s), cur_snapshot = s, cur_coverage = snap_coverage s,
      cur_metric_count = snap_metric_count s, cur_unknown_count = snap_unknown_count s,
      cur_observed_at = snap_observed_at s, cur_valid_until = snap_valid_until s,
      cur_retention_tier = ''full'', cur_sha = hex_digest (sha256 e (json_of_snapshot e s)),
      cur_updated_at = finished_at\<rparr>"

definition valid_for :: "int \<Rightarrow> instant \<Rightarrow> instant" where
  "valid_for stale_after finished = finished + seconds (max stale_after 60)"

definition observation_timing :: "run_state \<Rightarrow> int \<Rightarrow> instant \<Rightarrow> evaluation_timing" where
  "observation_timing state stale_after finished =
     \<lparr>tm_evaluated_at = finished, tm_observation = (if state = Succeeded then ObsComplete else ObsPartial),
      tm_observed_at = Some finished, tm_valid_until = Some (valid_for stale_after finished)\<rparr>"

text \<open>The transaction of \<open>persist_observation\<close>, once its snapshot is made.\<close>

definition observation_transaction ::
  "monitor_env \<Rightarrow> background_env \<Rightarrow> string \<Rightarrow> string \<Rightarrow> int \<Rightarrow> nat \<Rightarrow> host_observation \<Rightarrow> db \<Rightarrow> m1_error + db"
where
  "observation_transaction e b run host stale_after output_bytes o1 d =
     (let finished = bk_finished b;
          state = completeness_state (cov_completeness (ob_coverage o1));
          s = snapshot_from_observation (bk_observation b) run host (timestamp_ms finished)
                (timestamp_ms (valid_for stale_after finished)) o1
      in and_then (map_error M1Storage
           (update_runs (\<lambda>r. run_id r = run \<and> run_status r = Running)
              (observed_run state s output_bytes finished) d)) (\<lambda>(n, d1).
         if n \<noteq> 1 then Inl M1Internal
         else map_error M1Storage
           (and_then (insert_samples run host (timestamp_ms finished) (timestamp_ms finished) (bk_created b)
              (bk_samples b) (samples_from_observation (history_env.truncate e) host o1) d1) (\<lambda>(_, d2).
            and_then (if state \<noteq> Failed then upsert_current (current_of e run host s (timestamp_ms finished)) d2
                      else Inr d2) (\<lambda>d3.
            evaluate_run_tx (env.truncate e) run host (observation_timing state stale_after finished)
              (fst (bk_receipt b)) (snd (bk_receipt b)) d3)))))"

definition persist_observation ::
  "monitor_env \<Rightarrow> background_env \<Rightarrow> string \<Rightarrow> string \<Rightarrow> nat \<Rightarrow> host_observation \<Rightarrow> db \<Rightarrow> db \<Rightarrow> m1_error + db"
where
  "persist_observation e b run host output_bytes o1 pre d =
     (case select_one (\<lambda>r. run_id r = run) (runs pre) of
        None \<Rightarrow> Inl (M1Storage RowNotFound)
      | Some r \<Rightarrow> observation_transaction e b run host (run_stale_after r) output_bytes o1 d)"

subsection \<open>The background task\<close>

definition MAX_BATCH_STDOUT_BYTES :: nat where
  "MAX_BATCH_STDOUT_BYTES = 1024 * 1024"

definition started_run :: "secs \<Rightarrow> run_row \<Rightarrow> run_row" where
  "started_run started r = r\<lparr>run_status := Running, run_started_at := Some started\<rparr>"

definition start_monitor_run :: "string \<Rightarrow> secs \<Rightarrow> db \<Rightarrow> (nat \<times> db) stmt" where
  "start_monitor_run run started d =
     update_runs (\<lambda>r. run_id r = run \<and> run_status r = Queued) (started_run started) d"

text \<open>What the collection came to: an observation with the size of the output, or a failure.\<close>

definition collect_host :: "background_env \<Rightarrow> ssh_target \<Rightarrow> monitor_failure + host_observation \<times> nat" where
  "collect_host b t =
     (case bk_ssh b t host_resource_v1_batch_command MAX_BATCH_STDOUT_BYTES of
        Inl e \<Rightarrow> Inl (classify_ssh_failure e)
      | Inr out \<Rightarrow>
          (case parse_host_resource_v1_batch (co_stdout out) of
             Inl summary \<Rightarrow> Inl (parser_failure summary (co_output_bytes out))
           | Inr c \<Rightarrow> Inr (parse_host_resource_v1 c, co_output_bytes out)))"

definition run_outcome :: "background_env \<Rightarrow> string \<Rightarrow> ssh_target option \<Rightarrow> monitor_failure + host_observation \<times> nat" where
  "run_outcome b host target =
     (case (case target of Some t \<Rightarrow> Inr t | None \<Rightarrow> bk_target b host) of
        Inl e \<Rightarrow> Inl (classify_target_resolution_failure e)
      | Inr t \<Rightarrow> collect_host b t)"

definition persist_outcome ::
  "monitor_env \<Rightarrow> background_env \<Rightarrow> string \<Rightarrow> string \<Rightarrow> (monitor_failure + host_observation \<times> nat) \<Rightarrow> db
     \<Rightarrow> m1_error + db"
where
  "persist_outcome e b run host outcome d =
     (case outcome of
        Inl f \<Rightarrow> persist_failure (env.truncate e) run f (bk_finished b) (bk_receipt b) d
      | Inr (o1, output_bytes) \<Rightarrow> persist_observation e b run host output_bytes o1 d d)"

text \<open>A step whose error is only logged.\<close>

definition or_unchanged :: "'e + db \<Rightarrow> db \<Rightarrow> db" where
  "or_unchanged r d = (case r of Inl _ \<Rightarrow> d | Inr d' \<Rightarrow> d')"

definition run_monitor_background ::
  "monitor_env \<Rightarrow> background_env \<Rightarrow> string \<Rightarrow> string \<Rightarrow> ssh_target option \<Rightarrow> db \<Rightarrow> db"
where
  "run_monitor_background e b run host target d =
     (case start_monitor_run run (bk_started b) d of
        Inl _ \<Rightarrow> d
      | Inr (n, d1) \<Rightarrow>
          if n \<noteq> 1 then d1
          else (let d2 = publish_run_state run (bk_announced_start b) d1
                in publish_run_state run (bk_announced_end b)
                     (or_unchanged (persist_outcome e b run host (run_outcome b host target) d2) d2)))"

text \<open>\<open>gate\<close> is None when the concurrency gate was closed, else the shutdown flag once a permit was free.\<close>

definition run_manual_monitor_when_permitted ::
  "monitor_env \<Rightarrow> background_env \<Rightarrow> bool option \<Rightarrow> string \<Rightarrow> string \<Rightarrow> ssh_target \<Rightarrow> db \<Rightarrow> db"
where
  "run_manual_monitor_when_permitted e b gate run host target d =
     (case gate of
        None \<Rightarrow> d
      | Some shutdown \<Rightarrow>
          if shutdown
          then (case interrupt_queued_monitor_run (env.truncate e) run (bk_finished b) (bk_receipt b) d of
                  Inr (True, d1) \<Rightarrow> publish_run_state run (bk_announced_end b) d1
                | Inr (False, d1) \<Rightarrow> d1
                | Inl _ \<Rightarrow> d)
          else run_monitor_background e b run host (Some target) d)"

definition run_scheduled_monitor_background ::
  "monitor_env \<Rightarrow> background_env \<Rightarrow> string \<Rightarrow> string \<Rightarrow> db \<Rightarrow> db"
where
  "run_scheduled_monitor_background e b run host d = run_monitor_background e b run host None d"

subsection \<open>Reading\<close>

definition monitor_record_from_row :: "run_row \<Rightarrow> monitor_run_record" where
  "monitor_record_from_row r =
     \<lparr>mrr_request_id = run_request_id r, mrr_run_id = run_id r, mrr_host_id = run_host r,
      mrr_trigger_kind = parse_monitor_trigger (trigger_name (run_trigger_kind r)),
      mrr_state = parse_monitor_state (run_state_name (run_status r)), mrr_schedule_id = run_schedule r,
      mrr_schedule_revision = run_schedule_revision r, mrr_scheduled_for = run_scheduled_for r,
      mrr_stale_after_seconds = non_negative_u32 (run_stale_after r),
      mrr_due_interval_seconds = map_option non_negative_u32 (run_due_interval r),
      mrr_missed_due_count = map_option non_negative_u32 (run_missed r),
      mrr_collector_version = run_collector_version r, mrr_boot_id = run_boot_id r,
      mrr_coverage = run_coverage r, mrr_output_bytes = nat (max (run_output_bytes r) 0),
      mrr_ssh_session_count = non_negative_u32 (int (run_ssh_sessions r)),
      mrr_failure_code = run_failure r, mrr_failure_summary = run_failure_summary r,
      mrr_submitted_at = run_submitted_at r, mrr_started_at = run_started_at r,
      mrr_finished_at = run_finished_at r\<rparr>"

definition load_monitor_run :: "string \<Rightarrow> db \<Rightarrow> monitor_run_record option" where
  "load_monitor_run run d = map_option monitor_record_from_row (select_one (\<lambda>r. run_id r = run) (runs d))"

definition get_monitor_run ::
  "headers \<Rightarrow> string \<Rightarrow> string \<Rightarrow> secs \<Rightarrow> db \<Rightarrow> m1_error + monitor_run_response"
where
  "get_monitor_run hdr run rid generated d =
     (case load_monitor_run run d of
        None \<Rightarrow> Inl (M1NotFound ''monitor_run'' run)
      | Some x \<Rightarrow> Inr \<lparr>mrs_data = x,
          mrs_meta = monitor_meta (request_id hdr rid) (run_freshness (mrr_state x)) generated\<rparr>)"

definition load_current_snapshot :: "string \<Rightarrow> instant \<Rightarrow> db \<Rightarrow> host_resource_snapshot option" where
  "load_current_snapshot host now d =
     map_option (\<lambda>c. (cur_snapshot c)\<lparr>snap_freshness := freshness_from_valid_until (cur_valid_until c) now\<rparr>)
       (select_one (\<lambda>c. cur_host c = host) (currents d))"

text \<open>The newest run of a host: by its submission, the later row first among equals.\<close>

definition latest_run_id :: "string \<Rightarrow> db \<Rightarrow> string option" where
  "latest_run_id host d =
     (case rev (sort_key run_submitted_at (filter (\<lambda>r. run_host r = host) (runs d))) of
        [] \<Rightarrow> None
      | r # _ \<Rightarrow> Some (run_id r))"

definition latest_for_host ::
  "string \<Rightarrow> instant \<Rightarrow> db \<Rightarrow> monitor_run_record option \<times> host_resource_snapshot option"
where
  "latest_for_host host now d =
     (Option.bind (latest_run_id host d) (\<lambda>run. load_monitor_run run d), load_current_snapshot host now d)"

definition ensure_monitored_host :: "string \<Rightarrow> db \<Rightarrow> m1_error + unit" where
  "ensure_monitored_host host d = (if host \<in> set (hosts d) then Inr () else Inl (M1NotFound ''host'' host))"

definition get_host_monitoring ::
  "headers \<Rightarrow> string \<Rightarrow> string \<Rightarrow> instant \<Rightarrow> secs \<Rightarrow> db \<Rightarrow> m1_error + host_monitoring_response"
where
  "get_host_monitoring hdr host rid now generated d =
     and_then (ensure_monitored_host host d) (\<lambda>_.
       let (latest, snapshot) = latest_for_host host now d;
           f = (case snapshot of None \<Rightarrow> FreshnessUnknown | Some s \<Rightarrow> snap_freshness s)
       in Inr \<lparr>hmr_data = \<lparr>hmd_host_id = host, hmd_latest_run = latest, hmd_current_snapshot = snapshot,
                 hmd_monitor_freshness = f\<rparr>,
               hmr_meta = monitor_meta (request_id hdr rid) (api_freshness f) generated\<rparr>)"

end
