(* ===== verification/RunLedger.thy ===== *)
theory RunLedger
  imports MonitorRuns
begin

text \<open>
  The ledger of monitor runs under every operation that writes it, in any order: manual creation, scheduled
  claims, the start and the end of a collection, interruption, recovery, and the discovery runs that share
  the hosts. Rows are only added, their identity never changes, a finished run is never touched again, and
  a run has a receipt exactly when it is finished.
\<close>

subsection \<open>Discovery runs as their triggers admit them\<close>

definition discovery_blocked :: "discovery_row \<Rightarrow> db \<Rightarrow> bool" where
  "discovery_blocked x d =
     (active_discovery x \<and> (\<exists>r \<in> set (runs d). run_host r = disc_host x \<and> active_run r))"

definition insert_discovery :: "discovery_row \<Rightarrow> db \<Rightarrow> db stmt" where
  "insert_discovery x d =
     (if discovery_blocked x d then Inl (TriggerAbort ''host observation already active'')
      else if \<exists>y \<in> set (discoveries d). disc_id y = disc_id x
                \<or> (active_discovery x \<and> active_discovery y \<and> disc_host y = disc_host x)
      then Inl UniqueViolation
      else if disc_host x \<notin> set (hosts d) then Inl ForeignKeyViolation
      else Inr (d\<lparr>discoveries := discoveries d @ [x]\<rparr>))"

definition update_discovery :: "string \<Rightarrow> discovery_state \<Rightarrow> db \<Rightarrow> db stmt" where
  "update_discovery i s d =
     (let f = (\<lambda>x. x\<lparr>disc_state := s\<rparr>);
          changed = filter (\<lambda>x. disc_id x = i) (discoveries d)
      in if \<exists>x \<in> set changed. discovery_blocked (f x) d
         then Inl (TriggerAbort ''host observation already active'')
         else if \<exists>x \<in> set changed. active_discovery (f x)
                   \<and> (\<exists>y \<in> set (discoveries d). y \<noteq> x \<and> active_discovery y \<and> disc_host y = disc_host x)
         then Inl UniqueViolation
         else Inr (d\<lparr>discoveries := update_rows (\<lambda>x. disc_id x = i) f (discoveries d)\<rparr>))"

subsection \<open>The invariant\<close>

definition has_receipt :: "string \<Rightarrow> db \<Rightarrow> bool" where
  "has_receipt run d = (run \<in> evl_run ` set (evaluations d))"

text \<open>Receipts of all finished runs but those named in \<open>S\<close>, whose receipts are still to be written.\<close>

definition receipts_except :: "string set \<Rightarrow> db \<Rightarrow> bool" where
  "receipts_except S d =
     (distinct (map evl_run (evaluations d))
      \<and> (\<forall>e \<in> set (evaluations d). \<exists>r \<in> set (runs d). run_id r = evl_run e \<and> \<not> active_run r)
      \<and> (\<forall>r \<in> set (runs d). \<not> active_run r \<and> run_id r \<notin> S \<longrightarrow> has_receipt (run_id r) d)
      \<and> (\<forall>r \<in> set (runs d). run_id r \<in> S \<longrightarrow> \<not> active_run r))"

definition ledger_ok :: "db \<Rightarrow> bool" where
  "ledger_ok d = (distinct (map run_id (runs d)) \<and> one_observation d \<and> receipts_except {} d)"

lemma ledger_receipt_iff:
  assumes "ledger_ok d" and "r \<in> set (runs d)"
  shows "has_receipt (run_id r) d \<longleftrightarrow> \<not> active_run r"
proof
  assume "has_receipt (run_id r) d"
  then obtain e s where "e \<in> set (evaluations d)" "evl_run e = run_id r" "s \<in> set (runs d)"
    "run_id s = run_id r" "\<not> active_run s"
    using assms(1) by (auto simp: ledger_ok_def receipts_except_def has_receipt_def)
  with key_of_unique [of run_id "runs d" s r] assms show "\<not> active_run r"
    by (simp add: ledger_ok_def)
next
  assume "\<not> active_run r"
  then show "has_receipt (run_id r) d" using assms by (simp add: ledger_ok_def receipts_except_def)
qed

text \<open>What never changes of a run, and how a later ledger extends an earlier one.\<close>

definition run_identity :: "run_row \<Rightarrow> string \<times> string \<times> string \<times> string \<times> run_trigger \<times> string option \<times> secs option
    \<times> secs \<times> run_accepted_response" where
  "run_identity r = (run_id r, run_host r, run_key r, run_sha r, run_trigger_kind r, run_schedule r,
     run_scheduled_for r, run_submitted_at r, run_accepted r)"

definition ledger_extends :: "db \<Rightarrow> db \<Rightarrow> bool" where
  "ledger_extends d d' =
     ((\<exists>rs. map run_identity (runs d') = map run_identity (runs d) @ rs)
      \<and> (\<exists>es. evaluations d' = evaluations d @ es)
      \<and> (\<forall>i < length (runs d). \<not> active_run (runs d ! i) \<longrightarrow> runs d' ! i = runs d ! i))"

lemma ledger_extends_refl [intro]: "ledger_extends d d"
  by (simp add: ledger_extends_def)

lemma ledger_extendsI:
  assumes "map run_identity (runs d') = map run_identity (runs d)" and "evaluations d' = evaluations d"
    and "\<And>i. i < length (runs d) \<Longrightarrow> \<not> active_run (runs d ! i) \<Longrightarrow> runs d' ! i = runs d ! i"
  shows "ledger_extends d d'"
  using assms by (simp add: ledger_extends_def)

lemma ledger_extends_length:
  assumes "ledger_extends d d'"
  shows "length (runs d) \<le> length (runs d')"
proof -
  obtain rs where rs: "map run_identity (runs d') = map run_identity (runs d) @ rs"
    using assms by (auto simp: ledger_extends_def)
  have "length (runs d') = length (runs d) + length rs"
    using arg_cong [OF rs, of length] by simp
  then show ?thesis by simp
qed

lemma ledger_extends_trans:
  assumes "ledger_extends d d'" and "ledger_extends d' d''"
  shows "ledger_extends d d''"
proof -
  have "runs d'' ! i = runs d ! i" if "i < length (runs d)" "\<not> active_run (runs d ! i)" for i
    using assms that ledger_extends_length [OF assms(1)] unfolding ledger_extends_def
    by (metis order_less_le_trans)
  then show ?thesis using assms by (auto simp: ledger_extends_def)
qed

lemma ledger_extends_member:
  assumes "ledger_extends d d'" and "r \<in> set (runs d)"
  obtains r' where "r' \<in> set (runs d')" and "run_identity r' = run_identity r"
    and "\<not> active_run r \<Longrightarrow> r' = r"
proof -
  obtain i where i: "i < length (runs d)" "runs d ! i = r" using assms(2) by (auto simp: in_set_conv_nth)
  obtain rs where rs: "map run_identity (runs d') = map run_identity (runs d) @ rs"
    using assms(1) by (auto simp: ledger_extends_def)
  have l: "i < length (runs d')" using i ledger_extends_length [OF assms(1)] by simp
  have "run_identity (runs d' ! i) = run_identity r"
    using arg_cong [OF rs, of "\<lambda>xs. xs ! i"] i l by (simp add: nth_append)
  moreover have "\<not> active_run r \<Longrightarrow> runs d' ! i = r" using assms(1) i by (auto simp: ledger_extends_def)
  ultimately show thesis using that [of "runs d' ! i"] l by simp
qed

lemma ledger_cong:
  assumes "runs d' = runs d" and "discoveries d' = discoveries d" and "evaluations d' = evaluations d"
  shows "ledger_ok d' = ledger_ok d" and "ledger_extends d0 d' = ledger_extends d0 d"
  using assms by (simp_all add: ledger_ok_def one_observation_def receipts_except_def has_receipt_def
      ledger_extends_def)

subsection \<open>Updating active runs\<close>

lemma symmetric_pairs:
  assumes "\<And>x y. Q x y \<Longrightarrow> Q y x"
  shows "(\<forall>i < length xs. \<forall>j < length xs. i \<noteq> j \<longrightarrow> \<not> Q (xs ! i) (xs ! j))
      \<longleftrightarrow> sorted_wrt (\<lambda>x y. \<not> Q x y) xs"
proof
  assume "\<forall>i < length xs. \<forall>j < length xs. i \<noteq> j \<longrightarrow> \<not> Q (xs ! i) (xs ! j)"
  then show "sorted_wrt (\<lambda>x y. \<not> Q x y) xs" by (simp add: sorted_wrt_iff_nth_less)
next
  assume s: "sorted_wrt (\<lambda>x y. \<not> Q x y) xs"
  show "\<forall>i < length xs. \<forall>j < length xs. i \<noteq> j \<longrightarrow> \<not> Q (xs ! i) (xs ! j)"
  proof (intro allI impI)
    fix i j assume "i < length xs" "j < length xs" "i \<noteq> j"
    then show "\<not> Q (xs ! i) (xs ! j)"
      using s assms [of "xs ! i" "xs ! j"] unfolding sorted_wrt_iff_nth_less
      by (cases i j rule: linorder_cases) auto
  qed
qed

lemma distinct_filtered: "distinct (map h (filter P xs)) \<longleftrightarrow> sorted_wrt (\<lambda>x y. \<not> (P x \<and> P y \<and> h x = h y)) xs"
  by (induction xs) auto

lemma one_observation_alt:
  "one_observation d \<longleftrightarrow>
     distinct (map run_host (filter active_run (runs d)))
     \<and> (\<forall>r \<in> set (runs d). \<forall>x \<in> set (discoveries d).
          \<not> (active_run r \<and> active_discovery x \<and> disc_host x = run_host r))"
  unfolding one_observation_def distinct_filtered
  by (subst symmetric_pairs) auto

text \<open>Finishing every active run that satisfies \<open>P\<close>, before their receipts are written.\<close>

lemma filter_active_finished:
  assumes "\<And>r. \<not> active_run (f r)"
  shows "filter active_run (update_rows P f rs) = filter (\<lambda>r. active_run r \<and> \<not> P r) rs"
  using assms by (induction rs) (auto simp: update_rows_def)

lemma finish_runs:
  assumes ok: "ledger_ok d" and P: "\<And>r. P r \<Longrightarrow> active_run r"
    and f: "\<And>r. run_identity (f r) = run_identity r" "\<And>r. \<not> active_run (f r)"
    and d1: "d1 = d\<lparr>runs := update_rows P f (runs d)\<rparr>"
  shows "distinct (map run_id (runs d1))" and "one_observation d1"
    and "receipts_except (run_id ` {r \<in> set (runs d). P r}) d1" and "ledger_extends d d1"
proof -
  have id: "run_id (f r) = run_id r" for r using f(1) [of r] by (simp add: run_identity_def)
  show dist: "distinct (map run_id (runs d1))"
    using ok map_update_rows [of "runs d" P run_id f] id by (simp add: d1 ledger_ok_def)
  have obs: "one_observation d" using ok by (simp add: ledger_ok_def)
  have sub: "r \<in> set (runs d1) \<Longrightarrow> active_run r \<Longrightarrow> r \<in> set (runs d)" for r
    using f(2) by (auto simp: d1 set_update_rows)
  have "distinct (map run_host (filter active_run (runs d1)))"
    using obs unfolding one_observation_alt d1
    by (simp add: filter_active_finished f(2)) (metis distinct_map_filter filter_filter)
  then show "one_observation d1"
    using obs sub unfolding one_observation_alt by (auto simp: d1)
  show "receipts_except (run_id ` {r \<in> set (runs d). P r}) d1"
    unfolding receipts_except_def
  proof (intro conjI ballI impI)
    show "distinct (map evl_run (evaluations d1))"
      using ok by (simp add: d1 ledger_ok_def receipts_except_def)
  next
    fix e assume "e \<in> set (evaluations d1)"
    then obtain r where r: "r \<in> set (runs d)" "run_id r = evl_run e" "\<not> active_run r"
      using ok by (auto simp: d1 ledger_ok_def receipts_except_def)
    then have "r \<in> set (runs d1)" using P by (auto simp: d1 set_update_rows)
    then show "\<exists>r \<in> set (runs d1). run_id r = evl_run e \<and> \<not> active_run r" using r by blast
  next
    fix r assume r: "r \<in> set (runs d1)" "\<not> active_run r \<and> run_id r \<notin> run_id ` {r \<in> set (runs d). P r}"
    then have "r \<in> set (runs d)" using id by (auto simp: d1 set_update_rows)
    then show "has_receipt (run_id r) d1"
      using r ok by (auto simp: d1 ledger_ok_def receipts_except_def has_receipt_def)
  next
    fix r assume r: "r \<in> set (runs d1)" "run_id r \<in> run_id ` {r \<in> set (runs d). P r}"
    then obtain s where s: "s \<in> set (runs d)" "P s" "run_id r = run_id s" by blast
    have "f s \<in> set (runs d1)" using s by (auto simp: d1 set_update_rows)
    then have "r = f s" using key_of_unique [OF dist r(1)] s(3) id by simp
    then show "\<not> active_run r" by (simp add: f(2))
  qed
  have "runs d1 ! i = runs d ! i" if "i < length (runs d)" "\<not> active_run (runs d ! i)" for i
    using that P by (auto simp: d1 update_rows_def)
  then show "ledger_extends d d1"
    using map_update_rows [of "runs d" P run_identity f] f(1) by (simp add: ledger_extends_def d1)
qed

subsection \<open>Writing the receipts\<close>

lemma receipts_mono:
  assumes "receipts_except S d" and "S \<subseteq> T" and "\<forall>r \<in> set (runs d). run_id r \<in> T \<longrightarrow> \<not> active_run r"
  shows "receipts_except T d"
  using assms unfolding receipts_except_def by blast

lemma write_receipt:
  assumes rec: "receipts_except S d" and run: "run \<in> S"
    and ev: "evaluate_run_tx env run host tm eid cids d = Inr d'"
  shows "receipts_except (S - {run}) d'" and "ledger_extends d d'" and "has_receipt run d'"
    and "d' = d\<lparr>evaluations := evaluations d', conditions := conditions d'\<rparr>"
proof -
  show frame: "d' = d\<lparr>evaluations := evaluations d', conditions := conditions d'\<rparr>"
    by (rule evaluate_run_tx_frame [OF ev])
  have runs: "runs d' = runs d" using arg_cong [OF frame, of runs] by simp
  show "receipts_except (S - {run}) d'" and "ledger_extends d d'" and "has_receipt run d'"
  proof (atomize (full), cases "has_receipt run d")
    case True
    then have "\<exists>e \<in> set (evaluations d). evl_run e = run" by (auto simp: has_receipt_def)
    then have "d' = d" using ev by (simp add: evaluate_run_tx_def)
    moreover have "receipts_except (S - {run}) d"
      using rec True unfolding receipts_except_def by auto
    ultimately show "receipts_except (S - {run}) d' \<and> ledger_extends d d' \<and> has_receipt run d'"
      using True by auto
  next
    case False
    then have none: "\<forall>e \<in> set (evaluations d). evl_run e \<noteq> run" by (auto simp: has_receipt_def)
    show "receipts_except (S - {run}) d' \<and> ledger_extends d d' \<and> has_receipt run d'"
    proof (rule evaluate_run_tx_Inr [OF ev none], goal_cases)
      case (1 r tm')
      let ?e = "evaluation_of env r tm' eid d"
      have e: "evaluations d' = evaluations d @ [?e]" using arg_cong [OF 1(5), of evaluations] by simp
      have er: "evl_run ?e = run" using 1(2) by (simp add: evaluation_of_def Let_def)
      have r: "r \<in> set (runs d)" "\<not> active_run r"
        using select_one_Some [OF 1(1)] rec run 1(2) by (auto simp: receipts_except_def)
      have "receipts_except (S - {run}) d'"
        using rec none r er 1(2) unfolding receipts_except_def has_receipt_def
        by (auto simp: runs e)
      moreover have "ledger_extends d d'" by (simp add: ledger_extends_def runs e)
      moreover have "has_receipt run d'" using er by (auto simp: has_receipt_def e)
      ultimately show ?case by blast
    qed
  qed
qed

lemma write_receipts:
  assumes "evaluate_interrupted env tm ids rs d = Inr d'" and "receipts_except (run_id ` set rs) d"
    and "distinct (map run_id rs)"
  shows "receipts_except {} d' \<and> ledger_extends d d' \<and> (\<exists>es cs. d' = d\<lparr>evaluations := es, conditions := cs\<rparr>)"
  using assms
proof (induction rs arbitrary: d)
  case Nil
  have "\<exists>es cs. d = d\<lparr>evaluations := es, conditions := cs\<rparr>"
    by (rule exI [of _ "evaluations d"], rule exI [of _ "conditions d"]) simp
  with Nil show ?case by auto
next
  case (Cons r rs)
  then obtain d1 where d1: "evaluate_run_tx env (run_id r) (run_host r) tm (fst (ids (run_id r)))
      (snd (ids (run_id r))) d = Inr d1" and rest: "evaluate_interrupted env tm ids rs d1 = Inr d'"
    by auto
  have "run_id r \<in> run_id ` set (r # rs)" by simp
  note w = write_receipt [OF Cons.prems(2) this d1]
  have "run_id ` set (r # rs) - {run_id r} = run_id ` set rs" using Cons.prems(3) by auto
  then have "receipts_except (run_id ` set rs) d1" using w(1) by simp
  then have ih: "receipts_except {} d'" "ledger_extends d1 d'"
      "\<exists>es cs. d' = d1\<lparr>evaluations := es, conditions := cs\<rparr>"
    using Cons.IH [OF rest] Cons.prems(3) by simp_all
  have e1: "ledger_extends d d1" using w(2) by simp
  obtain e2 c2 where d1': "d1 = d\<lparr>evaluations := e2, conditions := c2\<rparr>" using w(4) that by blast
  have "\<exists>es cs. d' = d\<lparr>evaluations := es, conditions := cs\<rparr>" using ih(3) unfolding d1' by simp
  with ih(1) ledger_extends_trans [OF e1 ih(2)] show ?case by blast
qed

subsection \<open>What a transaction on the ledger keeps\<close>

definition keeps_ledger :: "db \<Rightarrow> db \<Rightarrow> bool" where
  "keeps_ledger d d' = (ledger_ok d' \<and> ledger_extends d d' \<and> schedules d' = schedules d \<and> versions d' = versions d)"

lemma keeps_ledger_refl: "ledger_ok d \<Longrightarrow> keeps_ledger d d"
  by (auto simp: keeps_ledger_def)

lemma keeps_ledger_cong:
  "keeps_ledger d d1 \<Longrightarrow> runs d' = runs d1 \<Longrightarrow> discoveries d' = discoveries d1 \<Longrightarrow>
     evaluations d' = evaluations d1 \<Longrightarrow> schedules d' = schedules d1 \<Longrightarrow> versions d' = versions d1 \<Longrightarrow>
     keeps_ledger d d'"
  using ledger_cong(1) [of d' d1] ledger_cong(2) [of d' d1 d] by (simp add: keeps_ledger_def)

lemma publish_run_state_frame [simp]:
  "runs (publish_run_state run n d) = runs d" "discoveries (publish_run_state run n d) = discoveries d"
  "evaluations (publish_run_state run n d) = evaluations d" "schedules (publish_run_state run n d) = schedules d"
  "versions (publish_run_state run n d) = versions d" "hosts (publish_run_state run n d) = hosts d"
  "policies (publish_run_state run n d) = policies d" "samples (publish_run_state run n d) = samples d"
  "conditions (publish_run_state run n d) = conditions d" "currents (publish_run_state run n d) = currents d"
  by (simp_all add: publish_run_state_def split: option.split)

text \<open>One run leaves the active states and gets its receipt in the same transaction.\<close>

lemma finish_one:
  assumes ok: "ledger_ok d" and s: "s = Queued \<or> s = Running"
    and f: "\<And>r. run_identity (f r) = run_identity r" "\<And>r. \<not> active_run (f r)"
    and up: "update_runs (\<lambda>r. run_id r = run \<and> run_status r = s) f d = Inr (n, d1)" and n: "n = 1"
    and mid: "runs d2 = runs d1" "discoveries d2 = discoveries d1" "evaluations d2 = evaluations d1"
      "schedules d2 = schedules d1" "versions d2 = versions d1"
    and ev: "evaluate_run_tx env run host tm eid cids d2 = Inr d'"
  shows "keeps_ledger d d'"
proof -
  let ?P = "\<lambda>r. run_id r = run \<and> run_status r = s"
  note d1 = update_runs_Inr [OF up]
  note fin = finish_runs [OF ok _ f conjunct1 [OF d1]]
  have act: "?P r \<Longrightarrow> active_run r" for r using s by (auto simp: active_run_def)
  obtain r where "r \<in> set (runs d)" "?P r" using d1 n rows_affected_pos [of ?P "runs d"] by auto
  then have S: "run_id ` {r \<in> set (runs d). ?P r} = {run}" by auto
  have rec: "receipts_except {run} d2"
    using fin(3) act unfolding S by (simp add: receipts_except_def has_receipt_def mid)
  note w = write_receipt [OF rec _ ev]
  have fields: "runs d' = runs d1" "discoveries d' = discoveries d1" "schedules d' = schedules d"
    "versions d' = versions d"
    using arg_cong [OF w(4), of runs] arg_cong [OF w(4), of discoveries] arg_cong [OF w(4), of schedules]
      arg_cong [OF w(4), of versions] mid d1 by simp_all
  have "ledger_ok d'"
    using fin(1,2) act w(1) fields by (simp add: ledger_ok_def one_observation_def)
  moreover have "ledger_extends d d2"
    using fin(4) act ledger_cong(2) [OF mid(1-3)] by blast
  ultimately show ?thesis
    using ledger_extends_trans [OF _ w(2), of d] fields by (simp add: keeps_ledger_def)
qed

lemma update_none:
  assumes ok: "ledger_ok d" and up: "update_runs (\<lambda>r. run_id r = run \<and> Q r) f d = Inr (n, d1)" and n: "n \<noteq> 1"
  shows "n = 0 \<and> d1 = d"
proof -
  note d1 = update_runs_Inr [OF up]
  have "rows_affected (\<lambda>r. run_id r = run \<and> Q r) (runs d) \<le> 1"
    using ok by (intro rows_affected_key_le_1 [of run_id]) (auto simp: ledger_ok_def)
  then have n0: "n = 0" using d1 n by simp
  then have "\<forall>r \<in> set (runs d). \<not> (run_id r = run \<and> Q r)"
    using d1 rows_affected_0 [of "\<lambda>r. run_id r = run \<and> Q r" "runs d"] by metis
  then have "update_rows (\<lambda>r. run_id r = run \<and> Q r) f (runs d) = runs d" by (intro update_rows_none) blast
  with d1 n0 show ?thesis by simp
qed

subsection \<open>Every operation keeps the ledger\<close>

lemma insert_run_idle: "insert_run r d = Inr d' \<Longrightarrow> active_run r \<Longrightarrow> \<not> host_busy (run_host r) d"
  by (auto simp: insert_run_def host_busy_def run_conflicts_def split: if_splits)

lemma append_run:
  assumes ok: "ledger_ok d" and ins: "insert_run r d = Inr d1"
    and d2: "runs d2 = runs d @ [r]" "discoveries d2 = discoveries d" "evaluations d2 = evaluations d"
  shows "distinct (map run_id (runs d2))" and "one_observation d2" and "ledger_extends d d2"
    and "receipts_except (if active_run r then {} else {run_id r}) d2"
proof -
  have new: "\<forall>s \<in> set (runs d). run_id s \<noteq> run_id r"
    using insert_run_Inr [OF ins] by (auto simp: run_conflicts_def)
  then show dist: "distinct (map run_id (runs d2))" using ok by (auto simp: d2 ledger_ok_def)
  show "one_observation d2"
    using ok insert_run_idle [OF ins] by (intro one_observation_append [OF _ d2(1,2)]) (auto simp: ledger_ok_def)
  show "ledger_extends d d2" by (simp add: ledger_extends_def d2 nth_append)
  show "receipts_except (if active_run r then {} else {run_id r}) d2"
    using ok new unfolding ledger_ok_def receipts_except_def has_receipt_def by (auto simp: d2)
qed

lemma create_keeps:
  assumes "ledger_ok d"
    and "create_monitor_run env hdr host parsed shutdown target run rid submitted generated announced pre d = (res, d')"
  shows "keeps_ledger d d'"
proof (cases "d' = d")
  case True
  then show ?thesis using assms(1) keeps_ledger_refl by simp
next
  case False
  then obtain key sha acc d1 where ins: "insert_run (manual_run run host key sha submitted acc d) d = Inr d1"
    and d': "d' = publish_run_state run announced d1"
    using assms(2)
    by (auto simp: create_monitor_run_def Let_def split: if_splits option.splits sum.splits)
  have d1: "d1 = d\<lparr>runs := runs d @ [manual_run run host key sha submitted acc d]\<rparr>"
    using insert_run_Inr [OF ins] by simp
  have "active_run (manual_run run host key sha submitted acc d)" by (simp add: active_run_def manual_run_def)
  with append_run [OF assms(1) ins, of d'] show ?thesis
    by (simp add: keeps_ledger_def ledger_ok_def d' d1)
qed

lemma claim_keeps:
  assumes ok: "ledger_ok d" and dist: "distinct (map sch_id (schedules d))"
    and claim: "claim_due env instance due tick overlap_only ids generated d = (res, d')"
  shows "ledger_ok d' \<and> ledger_extends d d'"
proof (cases "d' = d")
  case True
  then show ?thesis using ok by auto
next
  case False
  then obtain c where "res = Inr (Some c)" using claim_due_error_frame [OF claim] by blast
  with claim have claim': "claim_due env instance due tick overlap_only ids generated d = (Inr (Some c), d')"
    by simp
  show ?thesis
  proof (rule claim_due_Some [OF claim' dist], goal_cases)
    case (1 r0 state)
    let ?r = "claim_run env due tick ids generated state d"
    let ?d = "d\<lparr>schedules := update_rows (\<lambda>r. sch_id r = due_schedule due) (advance_schedule due tick) (schedules d),
                runs := runs d @ [?r]\<rparr>"
    obtain d1 where ins: "insert_run ?r d = Inr d1" using 1(8) by blast
    have frame: "runs d' = runs d @ [?r]" "discoveries d' = discoveries d"
      using arg_cong [OF 1(9), of runs] arg_cong [OF 1(9), of discoveries] by simp_all
    show ?thesis
    proof (cases "state = SkippedOverlap")
      case False
      then have "active_run ?r" "evaluations d' = evaluations d"
        using 1(5,10) by (auto simp: active_run_def split: if_splits)
      with append_run [OF ok ins frame] show ?thesis by (simp add: ledger_ok_def)
    next
      case True
      then have skipped: "\<not> active_run ?r" by (simp add: active_run_def)
      have "runs ?d = runs d @ [?r]" "discoveries ?d = discoveries d" "evaluations ?d = evaluations d" by simp_all
      note app = append_run [OF ok ins this]
      have ev: "evaluate_run_tx env (cid_run ids) (due_host due) (overlap_timing tick) (cid_evaluation ids)
          (cid_conditions ids) ?d = Inr d'" using 1(11) True by simp
      have rec: "receipts_except {cid_run ids} ?d" using app(4) skipped by simp
      note w = write_receipt [OF rec _ ev]
      have "ledger_ok d'"
        using app(1,2) w(1) frame by (simp add: ledger_ok_def one_observation_def)
      with ledger_extends_trans [OF app(3)] w(2) show ?thesis by simp
    qed
  qed
qed

lemma start_keeps:
  assumes ok: "ledger_ok d" and up: "start_monitor_run run started d = Inr (n, d1)"
  shows "keeps_ledger d d1"
proof -
  let ?P = "\<lambda>r. run_id r = run \<and> run_status r = Queued"
  let ?f = "started_run started"
  have d1: "d1 = d\<lparr>runs := update_rows ?P ?f (runs d)\<rparr>"
    using update_runs_Inr up unfolding start_monitor_run_def by blast
  have act: "?P r \<Longrightarrow> active_run r" "active_run (?f r)" for r by (simp_all add: active_run_def started_run_def)
  have ident: "run_identity (?f r) = run_identity r" for r by (simp add: run_identity_def started_run_def)
  have host: "run_host (?f r) = run_host r" "run_id (?f r) = run_id r" for r by (simp_all add: started_run_def)
  have hosts: "map run_host (filter active_run (update_rows ?P ?f rs)) = map run_host (filter active_run rs)" for rs
    using act host by (induction rs) (auto simp: update_rows_def)
  have "one_observation d1"
    using ok act host unfolding ledger_ok_def one_observation_alt
    by (auto simp: d1 hosts set_update_rows)
  moreover have "distinct (map run_id (runs d1))"
    using ok map_update_rows [of "runs d" ?P run_id ?f] host by (simp add: d1 ledger_ok_def)
  moreover have "receipts_except {} d1"
    using ok act unfolding ledger_ok_def receipts_except_def has_receipt_def
    by (simp add: d1 set_update_rows) blast
  moreover have "map run_identity (runs d1) = map run_identity (runs d)"
    using map_update_rows [of "runs d" ?P run_identity ?f] ident by (simp add: d1)
  then have "ledger_extends d d1"
    using act(1) by (intro ledger_extendsI) (auto simp: d1 update_rows_def)
  ultimately show ?thesis by (simp add: keeps_ledger_def ledger_ok_def d1)
qed

lemma failed_run_identity [simp]: "run_identity (failed_run f t r) = run_identity r"
  by (simp add: run_identity_def failed_run_def)

lemma interrupted_run_identity [simp]: "run_identity (interrupted_run m t r) = run_identity r"
  by (simp add: run_identity_def interrupted_run_def)

lemma interrupted_run_inactive [simp]: "\<not> active_run (interrupted_run m t r)"
  by (simp add: active_run_def interrupted_run_def)

lemma observed_run_identity [simp]: "run_identity (observed_run s sn b t r) = run_identity r"
  by (simp add: run_identity_def observed_run_def)

lemma completeness_inactive [simp]: "\<not> active_run (observed_run (completeness_state c) sn b t r)"
  by (cases c) (simp_all add: active_run_def observed_run_def)

definition failure_final :: "monitor_failure \<Rightarrow> bool" where
  "failure_final f = (mf_state f = Failed \<or> mf_state f = TimedOut)"

lemma failure_final_cases:
  "failure_final (classify_ssh_failure x)" "failure_final (classify_target_resolution_failure m)"
  "failure_final (parser_failure s b)"
  by (cases "se_failure x")
    (simp_all add: failure_final_def classify_ssh_failure_def classify_target_resolution_failure_def
      parser_failure_def)

lemma failed_run_inactive: "failure_final f \<Longrightarrow> \<not> active_run (failed_run f t r)"
  by (auto simp: active_run_def failed_run_def failure_final_def)

lemma fail_keeps:
  assumes ok: "ledger_ok d" and fin: "failure_final f"
    and p: "persist_failure env run f finished ids d = Inr d'"
  shows "keeps_ledger d d'"
proof -
  obtain r0 where r0: "select_one (\<lambda>r. run_id r = run) (runs d) = Some r0"
    using p by (cases "select_one (\<lambda>r. run_id r = run) (runs d)") (auto simp: persist_failure_def)
  obtain x where x: "update_runs (\<lambda>r. run_id r = run \<and> run_status r = Running) (failed_run f finished) d = Inr x"
    and x': "(case x of (n, d1) \<Rightarrow>
      if n = 1 then evaluate_run_tx env run (run_host r0) (no_observation finished) (fst ids) (snd ids) d1
      else Inr d1) = Inr d'"
    using p r0 unfolding persist_failure_def by auto
  obtain n d1 where nd: "x = (n, d1)" by (cases x)
  note up = x [unfolded nd]
  have rest: "(if n = 1 then evaluate_run_tx env run (run_host r0) (no_observation finished) (fst ids) (snd ids) d1
      else Inr d1) = Inr d'" using x' by (simp add: nd)
  show ?thesis
  proof (cases "n = 1")
    case True
    then show ?thesis
      using finish_one [OF ok _ failed_run_identity _ up, of d1 env "run_host r0" "no_observation finished"
          "fst ids" "snd ids" d'] rest failed_run_inactive [OF fin] by simp
  next
    case False
    then show ?thesis using update_none [OF ok up] rest keeps_ledger_refl [OF ok] by simp
  qed
qed

lemma insert_rows_frame: "insert_rows rs d n = Inr (m, d') \<Longrightarrow> \<exists>ss. d' = d\<lparr>samples := ss\<rparr>"
proof (induction rs arbitrary: d n)
  case Nil
  then show ?case by (auto intro: exI [of _ "samples d"])
next
  case (Cons r rs)
  then obtain d1 where d1: "insert_sample r d = Inr d1" "insert_rows rs d1 (n + 1) = Inr (m, d')"
    by (auto split: sum.splits)
  then show ?case using Cons.IH [OF d1(2)] by (auto simp: insert_sample_def split: if_splits)
qed

lemma upsert_current_frame: "upsert_current c d = Inr d' \<Longrightarrow> \<exists>cs. d' = d\<lparr>currents := cs\<rparr>"
  by (auto simp: upsert_current_def split: if_splits)

lemma observe_keeps:
  assumes ok: "ledger_ok d" and p: "observation_transaction e b run host stale bytes o1 d = Inr d'"
  shows "keeps_ledger d d'"
proof -
  let ?state = "completeness_state (cov_completeness (ob_coverage o1))"
  let ?s = "snapshot_from_observation (bk_observation b) run host (timestamp_ms (bk_finished b))
      (timestamp_ms (valid_for stale (bk_finished b))) o1"
  obtain x where x: "update_runs (\<lambda>r. run_id r = run \<and> run_status r = Running)
           (observed_run ?state ?s bytes (bk_finished b)) d = Inr x"
    and n: "fst x = 1" and body: "and_then (insert_samples run host (timestamp_ms (bk_finished b))
        (timestamp_ms (bk_finished b)) (bk_created b) (bk_samples b)
        (samples_from_observation (history_env.truncate e) host o1) (snd x)) (\<lambda>(_, d2).
      and_then (if ?state \<noteq> Failed then upsert_current (current_of e run host ?s (timestamp_ms (bk_finished b))) d2
                else Inr d2) (\<lambda>d3.
      evaluate_run_tx (env.truncate e) run host (observation_timing ?state stale (bk_finished b))
        (fst (bk_receipt b)) (snd (bk_receipt b)) d3)) = Inr d'"
    using p unfolding observation_transaction_def Let_def by (auto simp del: One_nat_def split: if_splits)
  obtain d1 where d1: "x = (1, d1)" using n by (cases x) simp
  note up = x [unfolded d1]
  obtain m d2 d3 where
    ins: "insert_samples run host (timestamp_ms (bk_finished b)) (timestamp_ms (bk_finished b)) (bk_created b)
        (bk_samples b) (samples_from_observation (history_env.truncate e) host o1) d1 = Inr (m, d2)"
    and cur: "(if ?state \<noteq> Failed then upsert_current (current_of e run host ?s (timestamp_ms (bk_finished b))) d2
        else Inr d2) = Inr d3"
    and ev: "evaluate_run_tx (env.truncate e) run host (observation_timing ?state stale (bk_finished b))
              (fst (bk_receipt b)) (snd (bk_receipt b)) d3 = Inr d'"
    using body unfolding d1 snd_conv and_then_Inr by auto
  obtain ss where "d2 = d1\<lparr>samples := ss\<rparr>" using insert_rows_frame ins unfolding insert_samples_def by blast
  moreover have "\<exists>cs. d3 = d2\<lparr>currents := cs\<rparr>"
  proof (cases "?state = Failed")
    case True
    then show ?thesis using cur by (auto intro: exI [of _ "currents d2"])
  next
    case False
    then show ?thesis using cur by (intro upsert_current_frame) simp
  qed
  then obtain cs where "d3 = d2\<lparr>currents := cs\<rparr>" ..
  ultimately have mid: "runs d3 = runs d1" "discoveries d3 = discoveries d1" "evaluations d3 = evaluations d1"
      "schedules d3 = schedules d1" "versions d3 = versions d1" by simp_all
  show ?thesis by (rule finish_one [OF ok _ observed_run_identity completeness_inactive up refl mid ev]) simp
qed

lemma interrupt_keeps:
  assumes ok: "ledger_ok d" and p: "interrupt_queued_monitor_run env run finished ids d = Inr (res, d')"
  shows "keeps_ledger d d'"
proof -
  let ?Q = "\<lambda>r. run_id r = run \<and> run_status r = Queued"
  obtain n d1 where up: "update_runs ?Q
      (interrupted_run ''Monitor run was interrupted during application shutdown'' finished) d = Inr (n, d1)"
    and rest: "(case (if n = 1 then map_option run_host (select_one ?Q (runs d)) else None) of
        None \<Rightarrow> Inr (n = 1, d1)
      | Some h \<Rightarrow> and_then (evaluate_run_tx env run h (no_observation finished) (fst ids) (snd ids) d1)
                    (\<lambda>d2. Inr (n = 1, d2))) = Inr (res, d')"
    using p unfolding interrupt_queued_monitor_run_def Let_def by auto
  show ?thesis
  proof (cases "n = 1")
    case True
    then have "rows_affected ?Q (runs d) = 1" using update_runs_Inr [OF up] by simp
    then obtain r where "select_one ?Q (runs d) = Some r"
      using rows_affected_pos [of ?Q "runs d"] select_one_None [of ?Q "runs d"] by (cases "select_one ?Q (runs d)") auto
    then have "evaluate_run_tx env run (run_host r) (no_observation finished) (fst ids) (snd ids) d1 = Inr d'"
      using rest True by auto
    then show ?thesis
      using finish_one [OF ok _ interrupted_run_identity interrupted_run_inactive up True] by simp
  next
    case False
    then show ?thesis using update_none [OF ok up] rest keeps_ledger_refl [OF ok] by simp
  qed
qed

lemma recover_keeps:
  assumes ok: "ledger_ok d" and p: "recover_interrupted_monitor_runs env finished announced ids d = Inr (n, d')"
  shows "keeps_ledger d d'"
proof -
  let ?f = "interrupted_run ''Monitor run was interrupted by process restart'' finished"
  let ?rs = "filter active_run (runs d)"
  obtain x where x: "update_runs active_run ?f d = Inr x"
    and rest: "\<exists>d2. evaluate_interrupted env (no_observation finished) ids ?rs (snd x) = Inr d2
      \<and> runs d' = runs d2 \<and> discoveries d' = discoveries d2 \<and> evaluations d' = evaluations d2
      \<and> schedules d' = schedules d2 \<and> versions d' = versions d2"
    using p unfolding recover_interrupted_monitor_runs_def Let_def
    by (auto simp: publish_def [symmetric] split: if_splits)
  obtain m d1 where nd: "x = (m, d1)" by (cases x)
  have d1: "d1 = d\<lparr>runs := update_rows active_run ?f (runs d)\<rparr>" using update_runs_Inr x nd by blast
  note fin = finish_runs [OF ok _ interrupted_run_identity interrupted_run_inactive d1]
  obtain d2 where d2: "evaluate_interrupted env (no_observation finished) ids ?rs d1 = Inr d2"
    and f: "runs d' = runs d2" "discoveries d' = discoveries d2" "evaluations d' = evaluations d2"
      "schedules d' = schedules d2" "versions d' = versions d2"
    using rest nd by auto
  have "run_id ` {r \<in> set (runs d). active_run r} = run_id ` set ?rs" by simp
  then have "receipts_except (run_id ` set ?rs) d1" using fin(3) by simp
  moreover have "distinct (map run_id ?rs)" using ok by (simp add: ledger_ok_def distinct_map_filter)
  ultimately have w: "receipts_except {} d2" "ledger_extends d1 d2"
    "\<exists>es cs. d2 = d1\<lparr>evaluations := es, conditions := cs\<rparr>"
    using write_receipts [OF d2] by simp_all
  obtain es cs where frame: "d2 = d1\<lparr>evaluations := es, conditions := cs\<rparr>" using w(3) by blast
  have "ledger_ok d2" using fin(1,2) w(1) by (simp add: ledger_ok_def one_observation_def frame)
  moreover have "ledger_extends d d2" using ledger_extends_trans [OF fin(4) w(2)] by simp
  ultimately have "keeps_ledger d d2" by (simp add: keeps_ledger_def frame d1)
  then show ?thesis by (rule keeps_ledger_cong [OF _ f])
qed

lemma discovery_keeps:
  assumes "ledger_ok d" and "discoveries d' = ds" and "runs d' = runs d" and "evaluations d' = evaluations d"
    and "schedules d' = schedules d" and "versions d' = versions d"
    and "\<forall>x \<in> set ds. active_discovery x \<longrightarrow> x \<in> set (discoveries d) \<or> \<not> discovery_blocked x d"
  shows "keeps_ledger d d'"
proof -
  have "one_observation d'"
    using assms unfolding ledger_ok_def one_observation_alt discovery_blocked_def by fastforce
  then show ?thesis
    using assms by (auto simp: keeps_ledger_def ledger_ok_def receipts_except_def has_receipt_def intro: ledger_extendsI)
qed

lemma insert_discovery_keeps: "ledger_ok d \<Longrightarrow> insert_discovery x d = Inr d' \<Longrightarrow> keeps_ledger d d'"
  by (rule discovery_keeps) (auto simp: insert_discovery_def split: if_splits)

lemma update_discovery_keeps: "ledger_ok d \<Longrightarrow> update_discovery i s d = Inr d' \<Longrightarrow> keeps_ledger d d'"
  by (rule discovery_keeps) (auto simp: update_discovery_def Let_def set_update_rows split: if_splits)

lemma create_schedule_ledger:
  assumes "create_monitor_schedule env hdr h payload sid vid rid now generated pre d = (res, d')"
  shows "runs d' = runs d \<and> discoveries d' = discoveries d \<and> evaluations d' = evaluations d"
  using assms insert_schedule_Inr insert_version_Inr
  by (fastforce simp: create_monitor_schedule_def Let_def insert_schedule_version_def publish_schedule_state_def
      split: sum.splits option.splits db_error.splits)

lemma update_transaction_ledger:
  assumes "update_transaction env sid pl expected vid now d = Inr d'"
  shows "runs d' = runs d \<and> discoveries d' = discoveries d \<and> evaluations d' = evaluations d"
proof -
  obtain before where b: "load_schedule sid d = Some before"
    using assms by (cases "load_schedule sid d") (auto simp: update_transaction_def)
  obtain x where x: "persist_schedule_update sid pl (patch_offset env sid pl before)
      (patch_next_due pl (patch_offset env sid pl before) before now) (timestamp now) expected d = Inr x"
    and rest: "(case x of (n, d1) \<Rightarrow> if n \<noteq> 1 then Inl (SPreconditionFailed
        (case load_schedule sid d of None \<Rightarrow> expected | Some s \<Rightarrow> rec_revision s))
      else case load_schedule sid d1 of
         None \<Rightarrow> Inl SInternal
       | Some persisted \<Rightarrow>
           and_then (map_error SStorage (close_schedule_version before (timestamp now)
                       (old_due_until (pl_grid_changed pl) before persisted now) d1)) (\<lambda>d2.
           map_error SStorage (insert_schedule_version persisted vid (timestamp now) (timestamp now) Recorded
                       (Some (rec_state before)) d2))) = Inr d'"
    using assms b unfolding update_transaction_def Let_def by auto
  obtain n d1 where nd: "x = (n, d1)" by (cases x)
  have 1: "runs d1 = runs d \<and> discoveries d1 = discoveries d \<and> evaluations d1 = evaluations d"
    using x nd by (auto simp: persist_schedule_update_def Let_def split: if_splits)
  obtain persisted d2 where c: "close_schedule_version before (timestamp now)
                       (old_due_until (pl_grid_changed pl) before persisted now) d1 = Inr d2"
    and i: "insert_schedule_version persisted vid (timestamp now) (timestamp now) Recorded
                       (Some (rec_state before)) d2 = Inr d'"
    using rest unfolding nd by (auto split: if_splits option.splits)
  have 2: "runs d2 = runs d1 \<and> discoveries d2 = discoveries d1 \<and> evaluations d2 = evaluations d1"
    using c unfolding close_schedule_version_def and_then_Inr
    by (auto simp: Let_def split: if_splits dest!: insert_version_Inr)
  show ?thesis using 1 2 insert_version_Inr i unfolding insert_schedule_version_def by fastforce
qed

lemma update_schedule_ledger:
  assumes "update_monitor_schedule env hdr sid payload vid rid now generated pre d = (res, d')"
  shows "runs d' = runs d \<and> discoveries d' = discoveries d \<and> evaluations d' = evaluations d"
proof (cases "d' = d \<and> (\<exists>e. res = Inl e)")
  case True
  then show ?thesis by simp
next
  case False
  show ?thesis
    using update_Inr_cases [OF assms] False update_transaction_ledger
    by (fastforce simp: publish_schedule_state_def)
qed

end
