(* ===== verification/RunProgress.thy ===== *)
theory RunProgress
  imports RunLedger
begin

text \<open>
  When the statements of a run succeed: its start, its end, its receipt, and the recovery of all interrupted
  runs. \<open>receipt_ready\<close> is what a receipt needs: a policy the API admitted, samples that passed their
  checks, and identifiers not in use.
\<close>

definition receipt_ready :: "env \<Rightarrow> receipt_ids \<Rightarrow> run_row \<Rightarrow> db \<Rightarrow> bool" where
  "receipt_ready env ids r d =
     ((case run_policy r d of None \<Rightarrow> True
       | Some p \<Rightarrow> 1 \<le> pol_revision p \<and> policy_valid (policy_config p) \<and> policy_keys_ok env (policy_config p))
      \<and> list_all (\<lambda>s. pred_option (f_lt (Fin 0)) (smp_window s)) (samples d)
      \<and> list_all (\<lambda>x. evl_id x \<noteq> fst ids) (evaluations d)
      \<and> list_all (\<lambda>c. cnd_evaluation c \<noteq> fst ids \<and> cnd_id c \<notin> range (snd ids)) (conditions d)
      \<and> inj (snd ids))"

lemma select_run:
  "distinct (map run_id (runs d)) \<Longrightarrow> r \<in> set (runs d) \<Longrightarrow>
     select_one (\<lambda>s. run_id s = run_id r \<and> run_host s = run_host r) (runs d) = Some r"
  by (rule select_one_unique [of run_id]) auto

lemma receipt_written:
  assumes ready: "receipt_ready env ids r d" and dist: "distinct (map run_id (runs d))"
    and r: "r \<in> set (runs d)" and tm: "timing_ok tm" and none: "\<not> has_receipt (run_id r) d"
  shows "\<exists>cs. evaluate_run_tx env (run_id r) (run_host r) tm (fst ids) (snd ids) d
      = Inr (d\<lparr>evaluations := evaluations d @ [evaluation_of env r (effective_timing r tm) (fst ids) d],
              conditions := conditions d @ cs\<rparr>)
    \<and> (\<forall>c \<in> set cs. cnd_evaluation c = fst ids \<and> cnd_id c \<in> range (snd ids))"
proof -
  note sel = select_run [OF dist r]
  have none': "\<forall>x \<in> set (evaluations d). evl_run x \<noteq> run_id r" using none unfolding has_receipt_def by (metis image_eqI)
  have "evaluation_ready env (run_id r) (run_host r) r tm (fst ids) (snd ids) d"
    using ready sel tm by (simp add: evaluation_ready_def receipt_ready_def)
  then obtain d' where d': "evaluate_run_tx env (run_id r) (run_host r) tm (fst ids) (snd ids) d = Inr d'"
    using evaluate_run_defined by blast
  show ?thesis
  proof (rule evaluate_run_tx_Inr [OF d' none'], goal_cases)
    case (1 r' tm')
    then have "r' = r" using sel by simp
    have "\<forall>c \<in> set (condition_rows env (evaluation_of env r tm' (fst ids) d) (snd ids) (evaluation_drafts env r tm' d)).
        cnd_evaluation c = fst ids \<and> cnd_id c \<in> range (snd ids)"
      by (auto simp: condition_rows_def condition_of_def)
    then show ?case using d' 1(4,5) \<open>r' = r\<close> by blast
  qed
qed

lemma no_receipt_filter: "\<not> has_receipt run d \<Longrightarrow> filter (\<lambda>x. evl_run x = run) (evaluations d) = []"
  unfolding has_receipt_def filter_empty_conv by (metis image_eqI)

subsection \<open>Statements that change the state of runs\<close>

lemma filter_eq_distinct: "distinct xs \<Longrightarrow> x \<in> set xs \<Longrightarrow> filter (\<lambda>y. y = x) xs = [x]"
  by (induction xs) (auto simp: filter_empty_conv)

lemma filter_one_run:
  assumes "distinct (map run_id (runs d))" and "r \<in> set (runs d)" and "Q r"
  shows "filter (\<lambda>s. run_id s = run_id r \<and> Q s) (runs d) = [r]"
proof -
  have "filter (\<lambda>s. run_id s = run_id r \<and> Q s) (runs d) = filter (\<lambda>s. s = r) (runs d)"
    using assms by (intro filter_cong) (auto dest: key_of_unique)
  also have "\<dots> = [r]"
    using assms(1,2) by (intro filter_eq_distinct) (simp_all add: distinct_map)
  finally show ?thesis .
qed

text \<open>The start of a queued run is never rejected.\<close>

lemma start_succeeds:
  assumes ok: "ledger_ok d" and r: "r \<in> set (runs d)" "run_status r = Queued" and checks: "run_checks r"
  shows "start_monitor_run (run_id r) started d
    = Inr (1, d\<lparr>runs := update_rows (\<lambda>s. run_id s = run_id r \<and> run_status s = Queued) (started_run started) (runs d)\<rparr>)"
proof -
  have dist: "distinct (map run_id (runs d))" and obs: "one_observation d" using ok by (simp_all add: ledger_ok_def)
  have one: "filter (\<lambda>s. run_id s = run_id r \<and> run_status s = Queued) (runs d) = [r]"
    using filter_one_run [OF dist r(1), of "\<lambda>s. run_status s = Queued"] r(2) by simp
  have act: "active_run r" using r(2) by (simp add: active_run_def)
  have "\<not> (\<exists>x \<in> set (discoveries d). disc_host x = run_host r \<and> active_discovery x)"
    using obs act r(1) unfolding one_observation_alt by blast
  moreover have "run_checks (started_run started r)" using checks by (simp add: run_checks_def started_run_def)
  moreover have "\<not> (\<exists>s \<in> set (runs d). s \<noteq> r \<and> active_run s \<and> run_host s = run_host r)"
    using obs act r(1) unfolding one_observation_alt by (auto simp: distinct_map inj_on_def)
  ultimately show ?thesis by (simp add: start_monitor_run_def update_runs_def Let_def one)
qed

subsection \<open>Recovery\<close>

lemma evaluate_interrupted_rows:
  "(\<And>r. run_id (f r) = run_id r \<and> run_host (f r) = run_host r) \<Longrightarrow>
     evaluate_interrupted env tm ids (map f rs) = evaluate_interrupted env tm ids rs"
  by (induction rs) (auto intro!: ext)

definition separate_ids :: "(string \<Rightarrow> receipt_ids) \<Rightarrow> run_row list \<Rightarrow> bool" where
  "separate_ids ids rs =
     (\<forall>r \<in> set rs. \<forall>s \<in> set rs. run_id r \<noteq> run_id s \<longrightarrow>
        fst (ids (run_id r)) \<noteq> fst (ids (run_id s))
        \<and> range (snd (ids (run_id r))) \<inter> range (snd (ids (run_id s))) = {})"

lemma receipt_ready_after:
  assumes "receipt_ready env ids r d" and "evl_id x \<noteq> fst ids"
    and "\<forall>c \<in> set cs. cnd_evaluation c \<noteq> fst ids \<and> cnd_id c \<notin> range (snd ids)"
  shows "receipt_ready env ids r (d\<lparr>evaluations := evaluations d @ [x], conditions := conditions d @ cs\<rparr>)"
  using assms by (auto simp: receipt_ready_def run_policy_def list_all_iff split: option.splits)

lemma evaluate_interrupted_defined:
  assumes "\<forall>r \<in> set rs. receipt_ready env (ids (run_id r)) r d \<and> r \<in> set (runs d) \<and> \<not> has_receipt (run_id r) d"
    and "distinct (map run_id rs)" and "separate_ids ids rs" and "timing_ok tm" and "distinct (map run_id (runs d))"
  shows "\<exists>es cs. evaluate_interrupted env tm ids rs d
        = Inr (d\<lparr>evaluations := evaluations d @ es, conditions := conditions d @ cs\<rparr>)
      \<and> map evl_run es = map run_id rs
      \<and> map evl_observation es = map (\<lambda>r. tm_observation (effective_timing r tm)) rs"
  using assms
proof (induction rs arbitrary: d)
  case Nil
  have "d = d\<lparr>evaluations := evaluations d @ [], conditions := conditions d @ []\<rparr>" by simp
  then show ?case by (metis evaluate_interrupted.simps(1) list.simps(8))
next
  case (Cons r rs)
  let ?ids = "ids (run_id r)"
  let ?e = "evaluation_of env r (effective_timing r tm) (fst ?ids) d"
  have r: "receipt_ready env ?ids r d" "r \<in> set (runs d)" "\<not> has_receipt (run_id r) d" using Cons.prems(1) by auto
  obtain cs where ev: "evaluate_run_tx env (run_id r) (run_host r) tm (fst ?ids) (snd ?ids) d
      = Inr (d\<lparr>evaluations := evaluations d @ [?e], conditions := conditions d @ cs\<rparr>)"
    and cs: "\<forall>c \<in> set cs. cnd_evaluation c = fst ?ids \<and> cnd_id c \<in> range (snd ?ids)"
    using receipt_written [OF r(1) Cons.prems(5) r(2) Cons.prems(4) r(3)] by blast
  let ?d = "d\<lparr>evaluations := evaluations d @ [?e], conditions := conditions d @ cs\<rparr>"
  have "receipt_ready env (ids (run_id s)) s ?d \<and> s \<in> set (runs ?d) \<and> \<not> has_receipt (run_id s) ?d"
    if s: "s \<in> set rs" for s
  proof -
    have ne: "run_id s \<noteq> run_id r" using Cons.prems(2) s by (metis distinct.simps(2) image_eqI list.set_map list.simps(9))
    then have sep: "fst ?ids \<noteq> fst (ids (run_id s))" "range (snd ?ids) \<inter> range (snd (ids (run_id s))) = {}"
      using Cons.prems(3) s unfolding separate_ids_def by (metis list.set_intros)+
    have "receipt_ready env (ids (run_id s)) s ?d"
      using Cons.prems(1) s sep cs by (intro receipt_ready_after) (auto simp: disjoint_iff)
    then show ?thesis using Cons.prems(1) s ne by (auto simp: has_receipt_def)
  qed
  moreover have "distinct (map run_id rs)" "separate_ids ids rs" "distinct (map run_id (runs ?d))"
    using Cons.prems(2,3,5) by (simp_all add: separate_ids_def)
  ultimately obtain es cs' where "evaluate_interrupted env tm ids rs ?d
        = Inr (?d\<lparr>evaluations := evaluations ?d @ es, conditions := conditions ?d @ cs'\<rparr>)"
      "map evl_run es = map run_id rs"
      "map evl_observation es = map (\<lambda>r. tm_observation (effective_timing r tm)) rs"
    using Cons.IH [of ?d] Cons.prems(4) by blast
  then show ?case using ev by (intro exI [of _ "?e # es"] exI [of _ "cs @ cs'"]) simp
qed

definition recovery_ready :: "env \<Rightarrow> (string \<Rightarrow> receipt_ids) \<Rightarrow> db \<Rightarrow> bool" where
  "recovery_ready env ids d =
     (separate_ids ids (filter active_run (runs d))
      \<and> (\<forall>r \<in> set (runs d). active_run r \<longrightarrow> run_checks r \<and> receipt_ready env (ids (run_id r)) r d))"

lemma interrupted_run_simps [simp]:
  "run_id (interrupted_run m t r) = run_id r" "run_host (interrupted_run m t r) = run_host r"
  "run_policy (interrupted_run m t r) d = run_policy r d" "run_checks (interrupted_run m t r) = run_checks r"
  by (simp_all add: interrupted_run_def run_policy_def run_checks_def split: option.split)

lemma run_policy_cong: "policies d' = policies d \<Longrightarrow> run_policy r d' = run_policy r d"
  by (simp add: run_policy_def split: option.split)

lemma run_policy_runs [simp]: "run_policy r (d\<lparr>runs := rs\<rparr>) = run_policy r d"
  by (rule run_policy_cong) simp

lemma recovery_defined:
  assumes ok: "ledger_ok d" and ready: "recovery_ready env ids d" and t: "0 \<le> finished"
  defines "f \<equiv> interrupted_run ''Monitor run was interrupted by process restart'' finished"
  shows "\<exists>es d'. recover_interrupted_monitor_runs env finished announced ids d
        = Inr (length (filter active_run (runs d)), d')
      \<and> runs d' = update_rows active_run f (runs d) \<and> evaluations d' = evaluations d @ es
      \<and> map evl_run es = map run_id (filter active_run (runs d)) \<and> (\<forall>x \<in> set es. evl_observation x = ObsNone)
      \<and> event_seq d' = event_seq d + (if \<exists>r \<in> set (runs d). active_run r then 1 else 0)"
proof -
  let ?rs = "filter active_run (runs d)"
  let ?d1 = "d\<lparr>runs := update_rows active_run f (runs d)\<rparr>"
  have f: "run_id (f r) = run_id r \<and> run_host (f r) = run_host r" for r by (simp add: f_def)
  have up: "update_runs active_run f d = Inr (length ?rs, ?d1)"
    using update_runs_terminal [of d active_run f] ready by (auto simp: f_def recovery_ready_def rows_affected_def)
  have dist: "distinct (map run_id (runs d))" using ok by (simp add: ledger_ok_def)
  have dist1: "distinct (map run_id (runs ?d1))" using map_update_rows [of "runs d" active_run run_id f] dist f by simp
  have ready1: "receipt_ready env (ids (run_id s)) s ?d1 \<and> s \<in> set (runs ?d1) \<and> \<not> has_receipt (run_id s) ?d1"
    if "s \<in> set (map f ?rs)" for s
  proof -
    obtain r where r: "r \<in> set (runs d)" "active_run r" "s = f r" using \<open>s \<in> set (map f ?rs)\<close> by auto
    have "\<not> has_receipt (run_id s) ?d1"
      using ledger_receipt_iff [OF ok r(1)] r(2,3) f by (simp add: has_receipt_def)
    moreover have "receipt_ready env (ids (run_id s)) s ?d1"
      using ready r unfolding recovery_ready_def by (auto simp: receipt_ready_def f_def)
    ultimately show ?thesis using r by (simp add: set_update_rows)
  qed
  have ids1: "map run_id (map f ?rs) = map run_id ?rs" using f by simp
  have "\<exists>es cs. evaluate_interrupted env (no_observation finished) ids (map f ?rs) ?d1
        = Inr (?d1\<lparr>evaluations := evaluations ?d1 @ es, conditions := conditions ?d1 @ cs\<rparr>)
      \<and> map evl_run es = map run_id (map f ?rs)
      \<and> map evl_observation es = map (\<lambda>r. tm_observation (effective_timing r (no_observation finished))) (map f ?rs)"
  proof (rule evaluate_interrupted_defined)
    show "distinct (map run_id (map f ?rs))" unfolding ids1 using dist by (rule distinct_map_filter)
    show "separate_ids ids (map f ?rs)" using ready f by (auto simp: recovery_ready_def separate_ids_def)
    show "timing_ok (no_observation finished)" using t by (simp add: timing_ok_def no_observation_def)
  qed (use ready1 dist1 in auto)
  then obtain es cs where ev: "evaluate_interrupted env (no_observation finished) ids ?rs ?d1
        = Inr (?d1\<lparr>evaluations := evaluations ?d1 @ es, conditions := conditions ?d1 @ cs\<rparr>)"
      "map evl_run es = map run_id ?rs"
      "map evl_observation es = map (\<lambda>r. ObsNone) (map f ?rs)"
    unfolding ids1 evaluate_interrupted_rows [OF f] by (auto simp: effective_timing_def no_observation_def)
  have obs: "\<forall>x \<in> set es. evl_observation x = ObsNone"
    using arg_cong [OF ev(3), of set] by auto
  let ?d2 = "?d1\<lparr>evaluations := evaluations ?d1 @ es, conditions := conditions ?d1 @ cs\<rparr>"
  have pos: "(0 < length ?rs) = (\<exists>r \<in> set (runs d). active_run r)" by (auto simp: filter_empty_conv)
  show ?thesis
    unfolding recover_interrupted_monitor_runs_def Let_def f_def [symmetric] up
    by (intro exI [of _ es]) (use ev(1,2) obs pos in \<open>auto simp: publish_def [symmetric]\<close>)
qed

subsection \<open>The end of one run\<close>

lemma finish_row:
  assumes ok: "ledger_ok d" and r: "r \<in> set (runs d)" "Q r" and act: "active_run r"
    and f: "\<And>s. run_id (f s) = run_id s" "\<not> active_run (f r)" "run_checks (f r)"
  defines "P \<equiv> \<lambda>s. run_id s = run_id r \<and> Q s"
  shows "update_runs P f d = Inr (1, d\<lparr>runs := update_rows P f (runs d)\<rparr>)"
    and "distinct (map run_id (update_rows P f (runs d)))" and "f r \<in> set (update_rows P f (runs d))"
    and "\<not> has_receipt (run_id r) d"
    and "hosts d = hosts d' \<Longrightarrow> runs d' = update_rows P f (runs d) \<Longrightarrow> discoveries d' = discoveries d \<Longrightarrow>
      \<not> host_busy (run_host r) d'"
proof -
  have dist: "distinct (map run_id (runs d))" and obs: "one_observation d" using ok by (simp_all add: ledger_ok_def)
  have one: "filter P (runs d) = [r]" unfolding P_def by (rule filter_one_run [of d r Q, OF dist r])
  have only: "P s \<Longrightarrow> s \<in> set (runs d) \<Longrightarrow> s = r" for s
    using key_of_unique [OF dist _ r(1)] by (auto simp: P_def)
  show "update_runs P f d = Inr (1, d\<lparr>runs := update_rows P f (runs d)\<rparr>)"
    using update_runs_terminal [of d P f] only f(2,3) by (auto simp: one rows_affected_def)
  show "distinct (map run_id (update_rows P f (runs d)))"
    using map_update_rows [of "runs d" P run_id f] dist f(1) by simp
  show "f r \<in> set (update_rows P f (runs d))" using r by (auto simp: set_update_rows P_def)
  show "\<not> has_receipt (run_id r) d" using ledger_receipt_iff [OF ok r(1)] act by simp
  show "\<not> host_busy (run_host r) d'" if "runs d' = update_rows P f (runs d)" "discoveries d' = discoveries d"
  proof -
    have "\<not> (active_run s \<and> run_host s = run_host r)" if s: "s \<in> set (runs d')" for s
    proof
      assume a: "active_run s \<and> run_host s = run_host r"
      have "s \<in> set (runs d) \<and> \<not> P s"
        using s a only f(2) that unfolding \<open>runs d' = update_rows P f (runs d)\<close> set_update_rows by auto
      moreover from this have "s = r"
        using obs act a r(1) unfolding one_observation_alt by (auto simp: distinct_map inj_on_def)
      ultimately show False using r by (simp add: P_def)
    qed
    moreover have "\<not> (\<exists>x \<in> set (discoveries d'). active_discovery x \<and> disc_host x = run_host r)"
      using obs act r(1) that unfolding one_observation_alt by auto
    ultimately show ?thesis by (auto simp: host_busy_def active_run_def)
  qed
qed

lemma failed_run_simps [simp]:
  "run_id (failed_run f t r) = run_id r" "run_host (failed_run f t r) = run_host r"
  "run_policy (failed_run f t r) d = run_policy r d" "run_checks r \<Longrightarrow> run_checks (failed_run f t r)"
  by (simp_all add: failed_run_def run_policy_def run_checks_def bytes_column_def i64_max_def split: option.splits)

lemma failure_persisted:
  assumes ok: "ledger_ok d" and r: "r \<in> set (runs d)" "run_status r = Running" and checks: "run_checks r"
    and ready: "receipt_ready env ids r d" and fin: "failure_final f" and t: "0 \<le> finished"
  shows "\<exists>x d'. persist_failure env (run_id r) f finished ids d = Inr d'
      \<and> failed_run f finished r \<in> set (runs d') \<and> evaluations d' = evaluations d @ [x]
      \<and> evl_run x = run_id r \<and> evl_observation x = ObsNone
      \<and> samples d' = samples d \<and> currents d' = currents d \<and> \<not> host_busy (run_host r) d'"
proof -
  let ?f = "failed_run f finished"
  let ?P = "\<lambda>s. run_id s = run_id r \<and> run_status s = Running"
  let ?d1 = "d\<lparr>runs := update_rows ?P ?f (runs d)\<rparr>"
  have act: "active_run r" using r(2) by (simp add: active_run_def)
  note row = finish_row [OF ok r(1), where Q = "\<lambda>s. run_status s = Running" and f = ?f, OF r(2) act]
  have off: "\<not> active_run (?f r)" and chk: "run_checks (?f r)" using failed_run_inactive [OF fin] checks by simp_all
  note row = row [OF failed_run_simps(1) off chk]
  have "receipt_ready env ids (?f r) ?d1" using ready by (simp add: receipt_ready_def)
  then obtain cs where ev: "evaluate_run_tx env (run_id r) (run_host r) (no_observation finished) (fst ids) (snd ids) ?d1
      = Inr (?d1\<lparr>evaluations := evaluations ?d1 @ [evaluation_of env (?f r) (effective_timing (?f r) (no_observation finished))
                 (fst ids) ?d1], conditions := conditions ?d1 @ cs\<rparr>)"
    using receipt_written [of env ids "?f r" ?d1 "no_observation finished"] row(2-4) t
    by (auto simp: timing_ok_def no_observation_def has_receipt_def)
  let ?d' = "?d1\<lparr>evaluations := evaluations ?d1 @ [evaluation_of env (?f r) (effective_timing (?f r) (no_observation finished))
                 (fst ids) ?d1], conditions := conditions ?d1 @ cs\<rparr>"
  have "select_one (\<lambda>s. run_id s = run_id r) (runs d) = Some r"
    using ok r(1) by (intro select_one_unique [of run_id]) (auto simp: ledger_ok_def)
  then have "persist_failure env (run_id r) f finished ids d = Inr ?d'"
    using row(1) ev by (simp add: persist_failure_def)
  moreover have "\<not> host_busy (run_host r) ?d'" by (rule row(5)) simp_all
  moreover have "tm_observation (effective_timing (?f r) (no_observation finished)) = ObsNone"
    by (simp add: effective_timing_def no_observation_def)
  ultimately show ?thesis using row(3) by (intro exI [of _ "evaluation_of env (?f r)
      (effective_timing (?f r) (no_observation finished)) (fst ids) ?d1"] exI [of _ ?d']) simp
qed

lemma observed_run_simps [simp]:
  "run_id (observed_run s sn b t r) = run_id r" "run_host (observed_run s sn b t r) = run_host r"
  "run_policy (observed_run s sn b t r) d = run_policy r d" "run_status (observed_run s sn b t r) = s"
  "run_checks r \<Longrightarrow> run_checks (observed_run s sn b t r)"
  by (simp_all add: observed_run_def run_policy_def run_checks_def bytes_column_def i64_max_def split: option.splits)

lemma upsert_selected:
  assumes "upsert_current c d = Inr d'"
  shows "select_one (\<lambda>x. cur_host x = cur_host c) (currents d') = Some c"
proof -
  have upd: "cur_host c \<in> cur_host ` set xs \<Longrightarrow>
      select_one (\<lambda>x. cur_host x = cur_host c) (update_rows (\<lambda>x. cur_host x = cur_host c) (\<lambda>_. c) xs) = Some c" for xs
    by (induction xs) (auto simp: select_one_def update_rows_def)
  have app: "cur_host c \<notin> cur_host ` set xs \<Longrightarrow> select_one (\<lambda>x. cur_host x = cur_host c) (xs @ [c]) = Some c" for xs
    by (induction xs) (auto simp: select_one_def)
  show ?thesis
  proof (cases "cur_host c \<in> cur_host ` set (currents d)")
    case True
    then have "d' = d\<lparr>currents := update_rows (\<lambda>x. cur_host x = cur_host c) (\<lambda>_. c) (currents d)\<rparr>"
      using assms by (simp add: upsert_current_def split: if_splits)
    then show ?thesis using upd [OF True] by simp
  next
    case False
    then have "d' = d\<lparr>currents := currents d @ [c]\<rparr>"
      using assms by (simp add: upsert_current_def split: if_splits)
    then show ?thesis using app [OF False] by simp
  qed
qed

lemma upsert_defined:
  assumes "\<exists>r \<in> set (runs d). run_id r = cur_run c \<and> run_host r = cur_host c"
    and "\<forall>x \<in> set (currents d). cur_run x = cur_run c \<longrightarrow> cur_host x = cur_host c"
    and "cur_host c \<in> set (hosts d)"
  shows "\<exists>cs. upsert_current c d = Inr (d\<lparr>currents := cs\<rparr>)"
  using assms by (auto simp: upsert_current_def)

text \<open>What the receipt of a collection says it observed.\<close>

fun observed_as :: "run_state \<Rightarrow> observation_state" where
  "observed_as Succeeded = ObsComplete"
| "observed_as Partial = ObsPartial"
| "observed_as _ = ObsNone"

text \<open>What storing an observation needs of the host, the identifiers and the tables.\<close>

definition storable :: "monitor_env \<Rightarrow> background_env \<Rightarrow> host_capture \<Rightarrow> run_row \<Rightarrow> db \<Rightarrow> bool" where
  "storable e b c r d =
     (sha_ok (history_env.truncate e) \<and> separate_subjects (history_env.truncate e) c
      \<and> text_between 1 512 (run_host r) \<and> run_host r \<in> set (hosts d)
      \<and> list_all (\<lambda>s. smp_run s \<noteq> run_id r \<and> smp_id s \<notin> set (bk_samples b)) (samples d)
      \<and> distinct (bk_samples b)
      \<and> length (bk_samples b)
          = length (samples_from_observation (history_env.truncate e) (run_host r) (parse_host_resource_v1 c))
      \<and> list_all (\<lambda>x. cur_run x \<noteq> run_id r) (currents d))"

definition observed_rows :: "monitor_env \<Rightarrow> background_env \<Rightarrow> host_capture \<Rightarrow> run_row \<Rightarrow> sample_row list" where
  "observed_rows e b c r =
     rows_of (run_id r) (run_host r) (timestamp_ms (bk_finished b)) (timestamp_ms (bk_finished b)) (bk_created b)
       (bk_samples b) (samples_from_observation (history_env.truncate e) (run_host r) (parse_host_resource_v1 c))"

definition snapshot_of_run :: "background_env \<Rightarrow> host_capture \<Rightarrow> run_row \<Rightarrow> host_resource_snapshot" where
  "snapshot_of_run b c r =
     snapshot_from_observation (bk_observation b) (run_id r) (run_host r) (timestamp_ms (bk_finished b))
       (timestamp_ms (valid_for (run_stale_after r) (bk_finished b))) (parse_host_resource_v1 c)"

definition capture_state :: "host_capture \<Rightarrow> run_state" where
  "capture_state c = completeness_state (cov_completeness (ob_coverage (parse_host_resource_v1 c)))"

lemma observation_chain:
  assumes "select_one (\<lambda>s. run_id s = run_id r) (runs d) = Some r"
    and "update_runs (\<lambda>s. run_id s = run_id r \<and> run_status s = Running)
           (observed_run (capture_state c) (snapshot_of_run b c r) bytes (bk_finished b)) d = Inr (1, d1)"
    and "insert_samples (run_id r) (run_host r) (timestamp_ms (bk_finished b)) (timestamp_ms (bk_finished b))
           (bk_created b) (bk_samples b)
           (samples_from_observation (history_env.truncate e) (run_host r) (parse_host_resource_v1 c)) d1 = Inr (m, d2)"
    and "(if capture_state c \<noteq> Failed
          then upsert_current (current_of e (run_id r) (run_host r) (snapshot_of_run b c r) (timestamp_ms (bk_finished b))) d2
          else Inr d2) = Inr d3"
    and "evaluate_run_tx (env.truncate e) (run_id r) (run_host r)
           (observation_timing (capture_state c) (run_stale_after r) (bk_finished b)) (fst (bk_receipt b))
           (snd (bk_receipt b)) d3 = Inr d'"
  shows "persist_observation e b (run_id r) (run_host r) bytes (parse_host_resource_v1 c) d d = Inr d'"
  using assms unfolding capture_state_def snapshot_of_run_def
  by (simp add: persist_observation_def observation_transaction_def Let_def split del: if_split)

lemma observation_persisted:
  assumes ok: "ledger_ok d" and r: "r \<in> set (runs d)" "run_status r = Running" and checks: "run_checks r"
    and ready: "receipt_ready (env.truncate e) (bk_receipt b) r d" and t: "0 \<le> bk_finished b"
    and st: "storable e b c r d"
  shows "\<exists>x d'. persist_observation e b (run_id r) (run_host r) bytes (parse_host_resource_v1 c) d d = Inr d'
      \<and> observed_run (capture_state c) (snapshot_of_run b c r) bytes (bk_finished b) r \<in> set (runs d')
      \<and> evaluations d' = evaluations d @ [x] \<and> evl_run x = run_id r
      \<and> evl_observation x = observed_as (capture_state c)
      \<and> samples d' = samples d @ observed_rows e b c r
      \<and> (if capture_state c = Failed then currents d' = currents d
         else select_one (\<lambda>y. cur_host y = run_host r) (currents d')
            = Some (current_of e (run_id r) (run_host r) (snapshot_of_run b c r) (timestamp_ms (bk_finished b))))
      \<and> \<not> host_busy (run_host r) d'"
proof -
  let ?o = "parse_host_resource_v1 c"
  let ?fin = "bk_finished b"
  let ?f = "observed_run (capture_state c) (snapshot_of_run b c r) bytes ?fin"
  let ?P = "\<lambda>s. run_id s = run_id r \<and> run_status s = Running"
  let ?d1 = "d\<lparr>runs := update_rows ?P ?f (runs d)\<rparr>"
  let ?rows = "observed_rows e b c r"
  let ?d2 = "?d1\<lparr>samples := samples ?d1 @ ?rows\<rparr>"
  let ?tm = "observation_timing (capture_state c) (run_stale_after r) ?fin"
  have act: "active_run r" using r(2) by (simp add: active_run_def)
  have off: "\<not> active_run (?f r)" and chk: "run_checks (?f r)" using checks by (simp_all add: capture_state_def)
  note row = finish_row [OF ok r(1), where Q = "\<lambda>s. run_status s = Running" and f = ?f, OF r(2) act
      observed_run_simps(1) off chk]
  have run: "\<exists>s \<in> set (runs ?d1). run_id s = run_id r \<and> run_host s = run_host r"
    using row(3) by (intro bexI [of _ "?f r"]) simp_all
  have sto: "sha_ok (history_env.truncate e)" "separate_subjects (history_env.truncate e) c"
    "text_between 1 512 (run_host r)" "run_host r \<in> set (hosts d)"
    "\<forall>s \<in> set (samples ?d1). smp_run s \<noteq> run_id r \<and> smp_id s \<notin> set (bk_samples b)" "distinct (bk_samples b)"
    "length (bk_samples b) = length (samples_from_observation (history_env.truncate e) (run_host r) ?o)"
    "\<forall>x \<in> set (currents d). cur_run x \<noteq> run_id r"
    using st by (simp_all add: storable_def list_all_iff)
  note ins = capture_insertion [OF sto(1-3) timestamp_ms_nonneg [OF t] run sto(5-7) observed_rows_def]
  have cur: "\<exists>cs. (if capture_state c \<noteq> Failed
        then upsert_current (current_of e (run_id r) (run_host r) (snapshot_of_run b c r) (timestamp_ms ?fin)) ?d2
        else Inr ?d2) = Inr (?d2\<lparr>currents := cs\<rparr>)
      \<and> (if capture_state c = Failed then cs = currents d
         else select_one (\<lambda>y. cur_host y = run_host r) cs
            = Some (current_of e (run_id r) (run_host r) (snapshot_of_run b c r) (timestamp_ms ?fin)))"
  proof (cases "capture_state c = Failed")
    case True
    then show ?thesis by (intro exI [of _ "currents d"]) simp
  next
    case False
    let ?c = "current_of e (run_id r) (run_host r) (snapshot_of_run b c r) (timestamp_ms ?fin)"
    have c: "cur_run ?c = run_id r" "cur_host ?c = run_host r" by (simp_all add: current_of_def)
    obtain cs where "upsert_current ?c ?d2 = Inr (?d2\<lparr>currents := cs\<rparr>)"
      using upsert_defined [of ?d2 ?c] run sto(4,8) c by auto
    then show ?thesis using upsert_selected [of ?c ?d2] c False by auto
  qed
  then obtain cs where cs: "(if capture_state c \<noteq> Failed
        then upsert_current (current_of e (run_id r) (run_host r) (snapshot_of_run b c r) (timestamp_ms ?fin)) ?d2
        else Inr ?d2) = Inr (?d2\<lparr>currents := cs\<rparr>)"
    and sel: "if capture_state c = Failed then cs = currents d
         else select_one (\<lambda>y. cur_host y = run_host r) cs
            = Some (current_of e (run_id r) (run_host r) (snapshot_of_run b c r) (timestamp_ms ?fin))" by blast
  let ?d3 = "?d2\<lparr>currents := cs\<rparr>"
  let ?x = "evaluation_of (env.truncate e) (?f r) (effective_timing (?f r) ?tm) (fst (bk_receipt b)) ?d3"
  have "list_all (\<lambda>s. pred_option (f_lt (Fin 0)) (smp_window s)) ?rows"
    using ins(3) by (auto simp: list_all_iff sample_checks_def)
  moreover have "run_policy (?f r) ?d3 = run_policy r d"
    unfolding observed_run_simps by (rule run_policy_cong) simp
  ultimately have "receipt_ready (env.truncate e) (bk_receipt b) (?f r) ?d3"
    using ready by (simp add: receipt_ready_def)
  moreover have "timing_ok ?tm"
    using t by (simp add: timing_ok_def observation_timing_def valid_for_def seconds_def ns_per_s_def)
  ultimately obtain cds where ev: "evaluate_run_tx (env.truncate e) (run_id r) (run_host r) ?tm (fst (bk_receipt b))
        (snd (bk_receipt b)) ?d3 = Inr (?d3\<lparr>evaluations := evaluations ?d3 @ [?x], conditions := conditions ?d3 @ cds\<rparr>)"
    using receipt_written [of "env.truncate e" "bk_receipt b" "?f r" ?d3 ?tm] row(2-4)
    by (auto simp: has_receipt_def)
  let ?d' = "?d3\<lparr>evaluations := evaluations ?d3 @ [?x], conditions := conditions ?d3 @ cds\<rparr>"
  have "select_one (\<lambda>s. run_id s = run_id r) (runs d) = Some r"
    using ok r(1) by (intro select_one_unique [of run_id]) (auto simp: ledger_ok_def)
  then have "persist_observation e b (run_id r) (run_host r) bytes ?o d d = Inr ?d'"
    by (rule observation_chain [OF _ row(1) ins(1) cs ev])
  moreover have "\<not> host_busy (run_host r) ?d'" by (rule row(5)) simp_all
  moreover have "evl_observation ?x = observed_as (capture_state c)"
    by (cases "cov_completeness (ob_coverage ?o)")
      (simp_all add: effective_timing_def observation_timing_def run_observed_def capture_state_def)
  ultimately show ?thesis using row(3) sel by (intro exI [of _ ?x] exI [of _ ?d']) simp
qed

end
