(* ===== verification/RunHistory.thy ===== *)
theory RunHistory
  imports RunProgress
begin

text \<open>
  The monitoring subsystem as a transition system: the schedule operations and claims of \<open>ScheduleHistory\<close>
  together with the run operations and the discovery runs, one step per transaction. The locale
  \<open>ledger_system\<close> is what a client of the ledger may rely on; the properties of the runs follow from it.
\<close>

lemma select_one_append: "select_one P xs = Some r \<Longrightarrow> select_one P (xs @ ys) = Some r"
  by (induction xs) (auto simp: select_one_def)

locale ledger_system =
  fixes step :: "'s \<Rightarrow> 's \<Rightarrow> bool"
    and inv :: "'s \<Rightarrow> bool"
    and base :: "'s \<Rightarrow> db"
  assumes step_keeps: "step s s' \<Longrightarrow> inv s \<Longrightarrow> ledger_ok (base s) \<Longrightarrow>
    inv s' \<and> ledger_ok (base s') \<and> ledger_extends (base s) (base s')"
begin

lemma steps_keep:
  "step\<^sup>*\<^sup>* s s' \<Longrightarrow> inv s \<Longrightarrow> ledger_ok (base s) \<Longrightarrow>
     inv s' \<and> ledger_ok (base s') \<and> ledger_extends (base s) (base s')"
proof (induction rule: rtranclp_induct)
  case base
  then show ?case by auto
next
  case (step y z)
  then show ?case using step_keeps [of y z] ledger_extends_trans [of "base s" "base y" "base z"] by blast
qed

lemma finished_is_final:
  assumes "step\<^sup>*\<^sup>* s s'" and "inv s" and "ledger_ok (base s)"
    and "r \<in> set (runs (base s))" and "\<not> active_run r"
  shows "r \<in> set (runs (base s'))"
    and "filter (\<lambda>e. evl_run e = run_id r) (evaluations (base s'))
       = filter (\<lambda>e. evl_run e = run_id r) (evaluations (base s))"
proof -
  have k: "ledger_ok (base s')" "ledger_extends (base s) (base s')" using steps_keep [OF assms(1-3)] by auto
  show "r \<in> set (runs (base s'))" by (rule ledger_extends_member [OF k(2) assms(4)]) (use assms(5) in auto)
  obtain es where es: "evaluations (base s') = evaluations (base s) @ es"
    using k(2) by (auto simp: ledger_extends_def)
  obtain e where "e \<in> set (evaluations (base s))" "evl_run e = run_id r"
    using ledger_receipt_iff [OF assms(3,4)] assms(5) by (auto simp: has_receipt_def)
  moreover have "distinct (map evl_run (evaluations (base s) @ es))"
    using k(1) es by (simp add: ledger_ok_def receipts_except_def)
  ultimately have "run_id r \<notin> evl_run ` set es" by auto
  then have "\<forall>x \<in> set es. evl_run x \<noteq> run_id r" by force
  then show "filter (\<lambda>e. evl_run e = run_id r) (evaluations (base s'))
       = filter (\<lambda>e. evl_run e = run_id r) (evaluations (base s))" by (simp add: es)
qed

lemma replay_is_stable:
  assumes "step\<^sup>*\<^sup>* s s'" and "inv s" and "ledger_ok (base s)"
    and "replay_request host key sha (base s) = Inr (Some response)"
  shows "replay_request host key sha (base s') = Inr (Some response)"
proof -
  obtain rs where rs: "map run_identity (runs (base s')) = map run_identity (runs (base s)) @ rs"
    using steps_keep [OF assms(1-3)] by (auto simp: ledger_extends_def)
  let ?P = "\<lambda>(i, h, k, x). h = host \<and> k = key"
  have sel: "map_option run_identity (select_one (\<lambda>r. run_host r = host \<and> run_key r = key) xs)
      = select_one ?P (map run_identity xs)" for xs
    by (induction xs) (auto simp: select_one_def run_identity_def)
  obtain r where r: "select_one (\<lambda>r. run_host r = host \<and> run_key r = key) (runs (base s)) = Some r"
      "run_sha r = sha" "run_accepted r = response"
    using assms(4) by (auto simp: replay_request_def split: option.splits if_splits)
  have "select_one ?P (map run_identity (runs (base s))) = Some (run_identity r)"
    using sel [of "runs (base s)"] r(1) by simp
  then have "select_one ?P (map run_identity (runs (base s'))) = Some (run_identity r)"
    unfolding rs by (rule select_one_append)
  then obtain r' where "select_one (\<lambda>r. run_host r = host \<and> run_key r = key) (runs (base s')) = Some r'"
      "run_identity r' = run_identity r"
    using sel [of "runs (base s')"] by (auto simp: map_option_eq_Some)
  then show ?thesis using r by (simp add: replay_request_def run_identity_def)
qed

end

subsection \<open>The steps\<close>

inductive monitor_step :: "monitor_env \<Rightarrow> secs \<times> db \<Rightarrow> secs \<times> db \<Rightarrow> bool" for e where
  ms_schedule: "scheduler_step (env.truncate e) s s' \<Longrightarrow> monitor_step e s s'"
| ms_create:
    "create_monitor_run (env.truncate e) hdr host parsed shutdown target run rid submitted generated announced pre d
       = (res, d') \<Longrightarrow> monitor_step e (t, d) (t, d')"
| ms_start: "start_monitor_run run started d = Inr (n, d') \<Longrightarrow> monitor_step e (t, d) (t, d')"
| ms_observe: "persist_observation e b run host bytes o1 pre d = Inr d' \<Longrightarrow> monitor_step e (t, d) (t, d')"
| ms_fail:
    "failure_final f \<Longrightarrow> persist_failure (env.truncate e) run f finished ids d = Inr d' \<Longrightarrow>
     monitor_step e (t, d) (t, d')"
| ms_interrupt:
    "interrupt_queued_monitor_run (env.truncate e) run finished ids d = Inr (res, d') \<Longrightarrow>
     monitor_step e (t, d) (t, d')"
| ms_recover:
    "recover_interrupted_monitor_runs (env.truncate e) finished announced ids' d = Inr (n, d') \<Longrightarrow>
     monitor_step e (t, d) (t, d')"
| ms_announce: "monitor_step e (t, d) (t, publish_run_state run announced d)"
| ms_discovery_insert: "insert_discovery x d = Inr d' \<Longrightarrow> monitor_step e (t, d) (t, d')"
| ms_discovery_update: "update_discovery i s d = Inr d' \<Longrightarrow> monitor_step e (t, d) (t, d')"

fun clocked_wf :: "secs \<times> db \<Rightarrow> bool" where
  "clocked_wf (t, d) = schedules_wf t d"

lemma schedules_wf_cong:
  "schedules d' = schedules d \<Longrightarrow> versions d' = versions d \<Longrightarrow> schedules_wf t d' = schedules_wf t d"
  by (simp add: schedules_wf_def schedule_versions_def)

lemma scheduler_step_ledger:
  assumes "scheduler_step env s s'" and "clocked_wf s" and ok: "ledger_ok (snd s)"
  shows "clocked_wf s' \<and> ledger_ok (snd s') \<and> ledger_extends (snd s) (snd s')"
proof -
  have "clocked_wf s'"
    using scheduler_step_wf [OF assms(1)] assms(2) by (cases s; cases s') simp
  moreover have "ledger_ok (snd s') \<and> ledger_extends (snd s) (snd s')"
    using assms(1)
  proof (cases rule: scheduler_step.cases)
    case (step_create hdr h payload sid vid rid now generated pre d res d' t)
    note frame = create_schedule_ledger [OF step_create(3)]
    show ?thesis
      using ok step_create(1,2) frame ledger_cong(1) [of d' d] ledger_cong(2) [of d' d d] by auto
  next
    case (step_update hdr sid payload vid rid now generated pre d res d' t)
    note frame = update_schedule_ledger [OF step_update(3)]
    show ?thesis
      using ok step_update(1,2) frame ledger_cong(1) [of d' d] ledger_cong(2) [of d' d d] by auto
  next
    case (step_claim inst due tick overlap_only ids generated d res d' t)
    have "distinct (map sch_id (schedules d))"
      using assms(2) step_claim(1) by (auto dest: schedules_wfD(1))
    then show ?thesis using claim_keeps [OF _ _ step_claim(3)] ok step_claim(1,2) by simp
  next
    case (step_publish t t' d p)
    have "runs (publish_event p d) = runs d \<and> discoveries (publish_event p d) = discoveries d
        \<and> evaluations (publish_event p d) = evaluations d" by (cases p) simp
    then show ?thesis
      using ok step_publish(1,2) ledger_cong(1) [of "publish_event p d" d]
        ledger_cong(2) [of "publish_event p d" d d] by auto
  qed
  ultimately show ?thesis by blast
qed

lemma monitor_step_keeps:
  assumes "monitor_step e s s'" and wf: "clocked_wf s" and ok: "ledger_ok (snd s)"
  shows "clocked_wf s' \<and> ledger_ok (snd s') \<and> ledger_extends (snd s) (snd s')"
proof -
  have keeps: ?thesis if "s = (t, d)" "s' = (t, d')" "ledger_ok d \<Longrightarrow> keeps_ledger d d'" for t d d'
    using that wf ok schedules_wf_cong [of d' d t] by (auto simp: keeps_ledger_def)
  show ?thesis
    using assms(1)
  proof (cases rule: monitor_step.cases)
    case ms_schedule
    then show ?thesis using scheduler_step_ledger wf ok by blast
  next
    case (ms_create hdr host parsed shutdown target run rid submitted generated announced pre d res d' t)
    then show ?thesis by (intro keeps [OF ms_create(1,2)] create_keeps)
  next
    case (ms_start run started d n d' t)
    then show ?thesis by (intro keeps [OF ms_start(1,2)] start_keeps)
  next
    case (ms_observe b run host bytes o1 pre d d' t)
    then obtain stale where "observation_transaction e b run host stale bytes o1 d = Inr d'"
      by (cases "select_one (\<lambda>r. run_id r = run) (runs pre)") (auto simp: persist_observation_def)
    then show ?thesis by (intro keeps [OF ms_observe(1,2)] observe_keeps)
  next
    case (ms_fail f run finished ids d d' t)
    then show ?thesis by (intro keeps [OF ms_fail(1,2)] fail_keeps)
  next
    case (ms_interrupt run finished ids d res d' t)
    then show ?thesis by (intro keeps [OF ms_interrupt(1,2)] interrupt_keeps)
  next
    case (ms_recover finished announced ids' d n d' t)
    then show ?thesis by (intro keeps [OF ms_recover(1,2)] recover_keeps)
  next
    case (ms_announce t d run announced)
    have "keeps_ledger d (publish_run_state run announced d)" if "ledger_ok d"
      by (rule keeps_ledger_cong [OF keeps_ledger_refl [OF that]]) simp_all
    then show ?thesis by (rule keeps [OF ms_announce])
  next
    case (ms_discovery_insert x d d' t)
    then show ?thesis by (intro keeps [OF ms_discovery_insert(1,2)] insert_discovery_keeps)
  next
    case (ms_discovery_update i st d d' t)
    then show ?thesis by (intro keeps [OF ms_discovery_update(1,2)] update_discovery_keeps)
  qed
qed

interpretation run_ledger: ledger_system "monitor_step e" clocked_wf snd for e
  by unfold_locales (rule monitor_step_keeps)

lemma empty_ledger_ok:
  "runs d = [] \<Longrightarrow> evaluations d = [] \<Longrightarrow> ledger_ok d"
  by (simp add: ledger_ok_def one_observation_def receipts_except_def)

subsection \<open>A host with a manual run\<close>

definition sample_monitor_env :: monitor_env where
  "sample_monitor_env = history_env.extend plain_env \<lparr>json_of_snapshot = \<lambda>_. ''{}''\<rparr>"

definition sample_ssh_target :: ssh_target where
  "sample_ssh_target = \<lparr>tg_host_id = ''h'', tg_address = ''10.0.0.1'', tg_port = 22, tg_user = ''ops'',
     tg_credential = PrivateKey ''key''\<rparr>"

definition sample_manual :: "(m1_error + run_accepted_response \<times> (string \<times> string \<times> ssh_target) option) \<times> db" where
  "sample_manual = create_monitor_run (env.truncate sample_monitor_env) key_header ''h'' True False
     (Inr sample_ssh_target) ''r1'' ''q'' 0 0 0 sample_hosts sample_hosts"

definition sample_accepted :: run_accepted_response where
  "sample_accepted = \<lparr>acc_data = \<lparr>acc_request_id = request_id key_header ''q'', acc_run_id = ''r1'',
     acc_host_id = ''h'', acc_state = Queued, acc_submitted_at = 0\<rparr>,
     acc_meta = monitor_meta (request_id key_header ''q'') StaleData 0\<rparr>"

definition sample_manual_row :: run_row where
  "sample_manual_row = manual_run ''r1'' ''h'' ''k1'' (request_digest (env.truncate sample_monitor_env)) 0
     sample_accepted sample_hosts"

lemma sample_manual_row_simps [simp]:
  "run_id sample_manual_row = ''r1''" "run_host sample_manual_row = ''h''" "run_status sample_manual_row = Queued"
  "active_run sample_manual_row" "run_checks sample_manual_row" "run_policy sample_manual_row d = None"
  by (simp_all add: sample_manual_row_def manual_run_def active_run_def run_checks_def run_policy_def
      sample_hosts_def empty_db_def select_one_def DEFAULT_SNAPSHOT_STALE_AFTER_SECONDS_def)

lemma sample_hosts_simps [simp]:
  "runs sample_hosts = []" "discoveries sample_hosts = []" "evaluations sample_hosts = []"
  "conditions sample_hosts = []" "samples sample_hosts = []" "policies sample_hosts = []"
  "schedules sample_hosts = []" "versions sample_hosts = []" "hosts sample_hosts = [''h'']"
  "currents sample_hosts = []"
  by (simp_all add: sample_hosts_def empty_db_def)

lemma sample_manual_eq:
  "sample_manual = (Inr (sample_accepted, Some (''r1'', ''h'', sample_ssh_target)),
     publish_run_state ''r1'' 0 (sample_hosts\<lparr>runs := [sample_manual_row]\<rparr>))"
proof -
  have "insert_run sample_manual_row sample_hosts = Inr (sample_hosts\<lparr>runs := [sample_manual_row]\<rparr>)"
    by (simp add: insert_run_def) (simp add: sample_manual_row_def manual_run_def select_one_def)
  then show ?thesis
    by (simp add: sample_manual_def create_monitor_run_def key_header Let_def replay_request_def select_one_def
        sample_accepted_def [symmetric] sample_manual_row_def [symmetric])
qed

abbreviation sample_ledger :: db where
  "sample_ledger \<equiv> snd sample_manual"

lemma sample_ledger_simps [simp]:
  "runs sample_ledger = [sample_manual_row]" "discoveries sample_ledger = []" "evaluations sample_ledger = []"
  "conditions sample_ledger = []" "samples sample_ledger = []" "policies sample_ledger = []"
  "hosts sample_ledger = [''h'']" "currents sample_ledger = []"
  by (simp_all add: sample_manual_eq)

lemma sample_manual_step: "(monitor_step sample_monitor_env)\<^sup>*\<^sup>* (0, sample_hosts) (0, sample_ledger)"
proof -
  have "monitor_step sample_monitor_env (0, sample_hosts) (0, sample_ledger)"
    by (rule ms_create [of _ key_header "''h''" True False "Inr sample_ssh_target" "''r1''" "''q''" 0 0 0
          sample_hosts _ "fst sample_manual"]) (simp add: sample_manual_def [symmetric])
  then show ?thesis by simp
qed

lemma sample_ledger_ok: "ledger_ok sample_ledger"
  using run_ledger.steps_keep [OF sample_manual_step] empty_ledger_ok [of sample_hosts]
    schedules_wf_initial [of sample_hosts] by simp

definition sample_receipt_ids :: "string \<Rightarrow> receipt_ids" where
  "sample_receipt_ids run = (run, sample_cids)"

lemma sample_recovery_ready: "recovery_ready env sample_receipt_ids sample_ledger"
  using inj_sample_cids
  by (simp add: recovery_ready_def separate_ids_def receipt_ready_def sample_receipt_ids_def)

subsection \<open>What a client may rely on\<close>

text \<open>
  C2. From an empty ledger, after any sequence of schedule operations, claims, manual runs, starts,
  observations, failures, interruptions, recoveries and discovery runs: a host has at most one active
  observation, every finished run has exactly one health receipt and no active run has one.
\<close>

theorem run_ledger_invariant:
  assumes "(monitor_step e)\<^sup>*\<^sup>* (t0, d0) (t, d)"
    and "runs d0 = []" and "evaluations d0 = []" and "schedules d0 = []" and "versions d0 = []"
  shows "one_observation d \<and> distinct (map run_id (runs d)) \<and> distinct (map evl_run (evaluations d))
    \<and> (\<forall>r \<in> set (runs d). (run_id r \<in> evl_run ` set (evaluations d)) = (\<not> active_run r))"
proof -
  have "ledger_ok d"
    using run_ledger.steps_keep [OF assms(1)] empty_ledger_ok [OF assms(2,3)] schedules_wf_initial [OF assms(4,5)]
    by simp
  then show ?thesis
    using ledger_receipt_iff [of d] by (simp add: ledger_ok_def receipts_except_def has_receipt_def)
qed

theorem run_ledger_invariant_witness:
  "one_observation sample_ledger \<and> runs sample_ledger = [sample_manual_row] \<and> active_run sample_manual_row
   \<and> ''r1'' \<notin> evl_run ` set (evaluations sample_ledger)"
  using run_ledger_invariant [OF sample_manual_step] by simp

text \<open>
  C11. A finished run is final: whatever happens later, its row stays as it is and so do its receipts.
\<close>

theorem finished_run_is_final:
  assumes "(monitor_step e)\<^sup>*\<^sup>* (t0, d0) (t1, d1)" and "(monitor_step e)\<^sup>*\<^sup>* (t1, d1) (t2, d2)"
    and "runs d0 = []" and "evaluations d0 = []" and "schedules d0 = []" and "versions d0 = []"
    and "r \<in> set (runs d1)" and "\<not> active_run r"
  shows "r \<in> set (runs d2) \<and> filter (\<lambda>x. evl_run x = run_id r) (evaluations d2)
      = filter (\<lambda>x. evl_run x = run_id r) (evaluations d1)"
proof -
  have "clocked_wf (t1, d1) \<and> ledger_ok d1"
    using run_ledger.steps_keep [OF assms(1)] empty_ledger_ok [OF assms(3,4)] schedules_wf_initial [OF assms(5,6)]
    by simp
  then show ?thesis using run_ledger.finished_is_final [OF assms(2) _ _ _ assms(8)] assms(7) by simp
qed

theorem finished_run_is_final_witness:
  "\<exists>d1 r. (monitor_step sample_monitor_env)\<^sup>*\<^sup>* (0, sample_hosts) (0, d1) \<and> \<not> active_run r
     \<and> r \<in> set (runs d1) \<and> r \<in> set (runs (publish_run_state ''r1'' 1 d1))"
proof -
  obtain es d1 where rec: "recover_interrupted_monitor_runs (env.truncate sample_monitor_env) 0 0 sample_receipt_ids
        sample_ledger = Inr (length (filter active_run (runs sample_ledger)), d1)"
    and rows: "runs d1 = update_rows active_run
        (interrupted_run ''Monitor run was interrupted by process restart'' 0) (runs sample_ledger)"
    using recovery_defined [OF sample_ledger_ok sample_recovery_ready, of 0 "env.truncate sample_monitor_env" 0] by auto
  have "monitor_step sample_monitor_env (0, sample_ledger) (0, d1)" by (rule ms_recover [OF rec])
  then have s: "(monitor_step sample_monitor_env)\<^sup>*\<^sup>* (0, sample_hosts) (0, d1)"
    by (rule rtranclp.rtrancl_into_rtrancl [OF sample_manual_step])
  have "(monitor_step sample_monitor_env)\<^sup>*\<^sup>* (0, d1) (0, publish_run_state ''r1'' 1 d1)"
    using ms_announce by (rule r_into_rtranclp)
  note final = finished_run_is_final [OF s this]
  have "interrupted_run ''Monitor run was interrupted by process restart'' 0 sample_manual_row \<in> set (runs d1)"
    using rows by (simp add: update_rows_def)
  then show ?thesis using s final interrupted_run_inactive by fastforce
qed

lemma create_replays:
  assumes "create_monitor_run env hdr host parsed shutdown target run rid submitted generated announced pre d
      = (Inr (response, started), d')"
    and "idempotency_key hdr = Some key"
  shows "replay_request host key (request_digest env) pre = Inr (Some response)
    \<or> replay_request host key (request_digest env) d' = Inr (Some response)"
proof (cases "replay_request host key (request_digest env) pre = Inr (Some response)")
  case False
  let ?acc = "\<lparr>acc_data = \<lparr>acc_request_id = request_id hdr rid, acc_run_id = run, acc_host_id = host,
      acc_state = Queued, acc_submitted_at = submitted\<rparr>,
      acc_meta = monitor_meta (request_id hdr rid) StaleData generated\<rparr>"
  let ?r = "manual_run run host key (request_digest env) submitted ?acc d"
  have step: "replay_request host key (request_digest env) d = Inr (Some response) \<and> d' = d
    \<or> (\<exists>d1. insert_run ?r d = Inr d1 \<and> response = ?acc \<and> d' = publish_run_state run announced d1)"
    using assms False
    by (auto simp: create_monitor_run_def Let_def split: if_splits option.splits sum.splits)
  then show ?thesis
  proof
    assume "\<exists>d1. insert_run ?r d = Inr d1 \<and> response = ?acc \<and> d' = publish_run_state run announced d1"
    then obtain d1 where d1: "insert_run ?r d = Inr d1" "response = ?acc" "d' = publish_run_state run announced d1"
      by blast
    have "runs d' = runs d @ [?r]" using insert_run_Inr [OF d1(1)] d1(3) by simp
    moreover have "\<forall>s \<in> set (runs d). \<not> (run_host s = host \<and> run_key s = key)"
      using insert_run_Inr [OF d1(1)] by (auto simp: run_conflicts_def manual_run_def)
    then have "filter (\<lambda>s. run_host s = host \<and> run_key s = key) (runs d) = []" by (simp add: filter_empty_conv)
    ultimately have "select_one (\<lambda>s. run_host s = host \<and> run_key s = key) (runs d') = Some ?r"
      by (simp add: select_one_filter manual_run_def)
    then show ?thesis using d1(2) by (simp add: replay_request_def manual_run_def)
  qed simp
qed simp

text \<open>
  C12. Creating a run is idempotent: a retry with the same key at any later time, even while the application
  shuts down or the target is gone, returns the first response, starts no second task and changes nothing.
\<close>

theorem create_run_idempotent:
  assumes "(monitor_step e)\<^sup>*\<^sup>* (t0, d0) (t1, pre)" and "(monitor_step e)\<^sup>*\<^sup>* (t1, pre) (t2, d)"
    and "runs d0 = []" and "evaluations d0 = []" and "schedules d0 = []" and "versions d0 = []"
    and first: "create_monitor_run (env.truncate e) hdr host parsed shutdown target run rid submitted generated
        announced pre d = (Inr (response, started), d')"
    and later: "(monitor_step e)\<^sup>*\<^sup>* (t2, d') (t3, pre')"
    and key: "idempotency_key hdr' = idempotency_key hdr"
  shows "create_monitor_run (env.truncate e) hdr' host True shutdown' target' run' rid' submitted' generated'
      announced' pre' d'' = (Inr (response, None), d'')"
proof -
  have ok: "clocked_wf (t1, pre) \<and> ledger_ok pre"
    using run_ledger.steps_keep [OF assms(1)] empty_ledger_ok [OF assms(3,4)] schedules_wf_initial [OF assms(5,6)]
    by simp
  have create: "monitor_step e (t2, d) (t2, d')" using first by (rule ms_create)
  then have all: "(monitor_step e)\<^sup>*\<^sup>* (t1, pre) (t3, pre')" using assms(2) later by (meson converse_rtranclp_into_rtranclp rtranclp_trans)
  have "(monitor_step e)\<^sup>*\<^sup>* (t1, pre) (t2, d')" using assms(2) create by (rule rtranclp.rtrancl_into_rtrancl)
  then have ok': "clocked_wf (t2, d') \<and> ledger_ok d'" using run_ledger.steps_keep ok by force
  obtain key where k: "idempotency_key hdr = Some key"
    using first by (auto simp: create_monitor_run_def split: if_splits option.splits)
  have "replay_request host key (request_digest (env.truncate e)) pre' = Inr (Some response)"
    using create_replays [OF first k] run_ledger.replay_is_stable [OF all] run_ledger.replay_is_stable [OF later] ok ok'
    by auto
  then show ?thesis using k key by (simp add: create_monitor_run_def Let_def)
qed

theorem create_run_idempotent_witness:
  "create_monitor_run (env.truncate sample_monitor_env) key_header ''h'' True True (Inl M1SecretRefUnavailable)
      ''r2'' ''q2'' 9 9 9 sample_ledger sample_ledger = (Inr (sample_accepted, None), sample_ledger)"
proof (rule create_run_idempotent [where hdr = key_header and pre = sample_hosts and ?d0.0 = sample_hosts
      and d = sample_hosts and d' = sample_ledger and ?t0.0 = 0 and ?t1.0 = 0 and ?t2.0 = 0 and ?t3.0 = 0])
  show "create_monitor_run (env.truncate sample_monitor_env) key_header ''h'' True False (Inr sample_ssh_target)
      ''r1'' ''q'' 0 0 0 sample_hosts sample_hosts
      = (Inr (sample_accepted, Some (''r1'', ''h'', sample_ssh_target)), sample_ledger)"
    using sample_manual_eq by (simp add: sample_manual_def)
qed simp_all

end
