(* ===== verification/RunOutcomes.thy ===== *)
theory RunOutcomes
  imports RunHistory
begin

text \<open>
  How a run ends: after a restart, after a failed collection, after a collection that is stored, and the
  one output that cannot be stored.
\<close>

text \<open>
  C4. Recovery after a restart always succeeds and leaves no run behind: every run that was queued or
  running becomes interrupted with exactly one receipt, which observes nothing, the other runs stay as they
  are, and one event announces the recovery if there was anything to recover.
\<close>

theorem recovery_interrupts_all:
  assumes "(monitor_step e)\<^sup>*\<^sup>* (t0, d0) (t, d)"
    and "runs d0 = []" and "evaluations d0 = []" and "schedules d0 = []" and "versions d0 = []"
    and ready: "recovery_ready (env.truncate e) ids d" and "0 \<le> finished"
  shows "\<exists>d'. recover_interrupted_monitor_runs (env.truncate e) finished announced ids d
        = Inr (length (filter active_run (runs d)), d')
      \<and> runs d' = map (\<lambda>r. if active_run r
          then interrupted_run ''Monitor run was interrupted by process restart'' finished r else r) (runs d)
      \<and> (\<forall>r \<in> set (runs d). active_run r \<longrightarrow>
          (\<exists>x. filter (\<lambda>x. evl_run x = run_id r) (evaluations d') = [x] \<and> evl_observation x = ObsNone))
      \<and> event_seq d' = event_seq d + (if \<exists>r \<in> set (runs d). active_run r then 1 else 0)"
proof -
  have ok: "ledger_ok d"
    using run_ledger.steps_keep [OF assms(1)] empty_ledger_ok [OF assms(2,3)] schedules_wf_initial [OF assms(4,5)]
    by simp
  obtain es d' where rec: "recover_interrupted_monitor_runs (env.truncate e) finished announced ids d
        = Inr (length (filter active_run (runs d)), d')"
    and d': "runs d' = update_rows active_run
        (interrupted_run ''Monitor run was interrupted by process restart'' finished) (runs d)"
      "evaluations d' = evaluations d @ es" "map evl_run es = map run_id (filter active_run (runs d))"
      "\<forall>x \<in> set es. evl_observation x = ObsNone"
      "event_seq d' = event_seq d + (if \<exists>r \<in> set (runs d). active_run r then 1 else 0)"
    using recovery_defined [OF ok ready assms(7), of announced] by (elim exE conjE)
  have "\<exists>x. filter (\<lambda>x. evl_run x = run_id r) (evaluations d') = [x] \<and> evl_observation x = ObsNone"
    if r: "r \<in> set (runs d)" "active_run r" for r
  proof -
    have "run_id r \<in> set (map evl_run es)" using r by (simp add: d'(3))
    then obtain x where x: "x \<in> set es" "evl_run x = run_id r" by auto
    have "distinct (map evl_run es)" unfolding d'(3) using ok by (simp add: ledger_ok_def distinct_map_filter)
    then have "filter (\<lambda>x. evl_run x = run_id r) es = filter (\<lambda>y. y = x) es"
      using x by (intro filter_cong) (auto dest: key_of_unique)
    also have "\<dots> = [x]" using x(1) \<open>distinct (map evl_run es)\<close> by (intro filter_eq_distinct) (simp_all add: distinct_map)
    moreover have "filter (\<lambda>x. evl_run x = run_id r) (evaluations d) = []"
      using ledger_receipt_iff [OF ok r(1)] r(2) by (intro no_receipt_filter) simp
    ultimately show ?thesis using d'(2,4) x(1) by simp
  qed
  then show ?thesis using rec d'(1,5) by (auto simp: update_rows_def)
qed

theorem recovery_interrupts_all_witness:
  "\<exists>d'. recover_interrupted_monitor_runs (env.truncate sample_monitor_env) 7 7 sample_receipt_ids sample_ledger
        = Inr (1, d') \<and> map run_status (runs d') = [Interrupted] \<and> length (evaluations d') = 1"
proof -
  obtain d' x where d': "recover_interrupted_monitor_runs (env.truncate sample_monitor_env) 7 7 sample_receipt_ids
        sample_ledger = Inr (1, d')"
      "runs d' = [interrupted_run ''Monitor run was interrupted by process restart'' 7 sample_manual_row]"
      "filter (\<lambda>x. evl_run x = ''r1'') (evaluations d') = [x]"
    using recovery_interrupts_all [OF sample_manual_step _ _ _ _ sample_recovery_ready, of 7 7] by auto
  have "ledger_ok d'" using recover_keeps [OF sample_ledger_ok d'(1)] by (simp add: keeps_ledger_def)
  then have "\<forall>y \<in> set (evaluations d'). evl_run y = ''r1''"
    by (auto simp: ledger_ok_def receipts_except_def d'(2))
  then have "evaluations d' = [x]" using d'(3) by (simp add: filter_id_conv [THEN iffD2])
  then show ?thesis using d'(1,2) by (simp add: interrupted_run_def)
qed

subsection \<open>The background task\<close>

lemma started_run_simps [simp]:
  "run_id (started_run t r) = run_id r" "run_host (started_run t r) = run_host r"
  "run_status (started_run t r) = Running" "run_checks (started_run t r) = run_checks r"
  "run_policy (started_run t r) d = run_policy r d" "run_stale_after (started_run t r) = run_stale_after r"
  by (simp_all add: started_run_def run_policy_def run_checks_def split: option.split)

text \<open>What the task starts from: the queued row of an admitted run.\<close>

definition admitted :: "monitor_env \<Rightarrow> background_env \<Rightarrow> run_row \<Rightarrow> db \<Rightarrow> bool" where
  "admitted e b r d =
     (ledger_ok d \<and> r \<in> set (runs d) \<and> run_status r = Queued \<and> run_checks r \<and> 0 \<le> bk_finished b
      \<and> receipt_ready (env.truncate e) (bk_receipt b) r d)"

lemma background_started:
  assumes "admitted e b r d"
  obtains d2 where "run_monitor_background e b (run_id r) (run_host r) target d
      = publish_run_state (run_id r) (bk_announced_end b)
          (or_unchanged (persist_outcome e b (run_id r) (run_host r) (run_outcome b (run_host r) target) d2) d2)"
    and "ledger_ok d2" and "started_run (bk_started b) r \<in> set (runs d2)"
    and "receipt_ready (env.truncate e) (bk_receipt b) (started_run (bk_started b) r) d2"
    and "evaluations d2 = evaluations d" and "samples d2 = samples d" and "currents d2 = currents d"
    and "hosts d2 = hosts d"
proof -
  let ?P = "\<lambda>s. run_id s = run_id r \<and> run_status s = Queued"
  let ?d1 = "d\<lparr>runs := update_rows ?P (started_run (bk_started b)) (runs d)\<rparr>"
  let ?d2 = "publish_run_state (run_id r) (bk_announced_start b) ?d1"
  have a: "ledger_ok d" "r \<in> set (runs d)" "run_status r = Queued" "run_checks r"
      "receipt_ready (env.truncate e) (bk_receipt b) r d"
    using assms by (simp_all add: admitted_def)
  note start = start_succeeds [OF a(1-4), of "bk_started b"]
  have "keeps_ledger d ?d2" by (rule keeps_ledger_cong [OF start_keeps [OF a(1) start]]) simp_all
  then have "ledger_ok ?d2" by (simp add: keeps_ledger_def)
  moreover have "started_run (bk_started b) r \<in> set (runs ?d2)" using a(2,3) by (simp add: set_update_rows)
  moreover have "run_policy (started_run (bk_started b) r) ?d2 = run_policy r d"
    unfolding started_run_simps by (rule run_policy_cong) simp
  then have "receipt_ready (env.truncate e) (bk_receipt b) (started_run (bk_started b) r) ?d2"
    using a(5) by (simp add: receipt_ready_def)
  moreover have "run_monitor_background e b (run_id r) (run_host r) target d
      = publish_run_state (run_id r) (bk_announced_end b)
          (or_unchanged (persist_outcome e b (run_id r) (run_host r) (run_outcome b (run_host r) target) ?d2) ?d2)"
    by (simp add: run_monitor_background_def start Let_def)
  ultimately show thesis by (intro that [of ?d2]) simp_all
qed

lemma outcome_failure_final: "run_outcome b host target = Inl f \<Longrightarrow> failure_final f"
  using failure_final_cases
  by (auto simp: run_outcome_def collect_host_def split: option.splits sum.splits)

subsection \<open>A collection of the sample host\<close>

lemma printed_batch_parsed:
  assumes "\<And>a. a \<in> set profile_actions \<Longrightarrow>
      split_first BATCH_END_MARKER (fst (outs (act_id a))) = None
      \<and> - i32_max - 1 \<le> snd (outs (act_id a)) \<and> snd (outs (act_id a)) \<le> i32_max"
    and "\<And>a. a \<in> set profile_actions \<Longrightarrow> get_action (act_id a) c = Some (captured_source a (outs (act_id a)))"
  shows "parse_host_resource_v1_batch (printed_batch outs) = Inr c"
proof -
  obtain c' where c': "batch_loop (printed_batch outs) [] default_capture
        = Inr (rev (map act_id profile_actions), c')"
      "\<forall>a \<in> set profile_actions. get_action (act_id a) c' = Some (captured_source a (outs (act_id a)))"
    using batch_loop_printed [OF _ profile_ids_distinct, where seen = "[]" and c = default_capture
        and outs = outs] assms(1)
    unfolding printed_batch_def by auto
  have "\<forall>i \<in> set (map act_id profile_actions). get_action i c' = get_action i c" using c'(2) assms(2) by auto
  then have "c' = c"
    unfolding profile_ids
    by (cases c; cases c'; cases "cap_frame_a c"; cases "cap_frame_b c"; cases "cap_frame_a c'"; cases "cap_frame_b c'")
      (simp add: get_action_def)
  then show ?thesis using c'(1) by (simp add: parse_host_resource_v1_batch_def)
qed

definition sample_background :: "(ssh_error + command_output) \<Rightarrow> string list \<Rightarrow> background_env" where
  "sample_background answer ids =
     \<lparr>bk_started = 1, bk_finished = 2, bk_created = 3, bk_announced_start = 1, bk_announced_end = 2,
      bk_observation = ''o'', bk_samples = ids, bk_receipt = (''e'', sample_cids),
      bk_target = (\<lambda>_. Inl M1SecretRefUnavailable), bk_ssh = (\<lambda>_ _ _. answer)\<rparr>"

lemma sample_background_simps [simp]:
  "bk_finished (sample_background answer ids) = 2" "bk_samples (sample_background answer ids) = ids"
  "bk_receipt (sample_background answer ids) = (''e'', sample_cids)"
  "bk_started (sample_background answer ids) = 1"
  by (simp_all add: sample_background_def)

lemma sample_admitted: "admitted e (sample_background answer ids) sample_manual_row sample_ledger"
  using sample_ledger_ok inj_sample_cids by (simp add: admitted_def receipt_ready_def)

lemma sample_outcome:
  "run_outcome (sample_background answer ids) ''h'' (Some sample_ssh_target)
   = (case answer of
        Inl x \<Rightarrow> Inl (classify_ssh_failure x)
      | Inr out \<Rightarrow>
          (case parse_host_resource_v1_batch (co_stdout out) of
             Inl summary \<Rightarrow> Inl (parser_failure summary (co_output_bytes out))
           | Inr c \<Rightarrow> Inr (parse_host_resource_v1 c, co_output_bytes out)))"
  by (simp add: run_outcome_def collect_host_def sample_background_def)

definition silent_host :: command_output where
  "silent_host = \<lparr>co_stdout = printed_batch (\<lambda>_. ([], 127)), co_output_bytes = 9\<rparr>"

definition shadowed_host :: command_output where
  "shadowed_host =
     \<lparr>co_stdout = printed_batch (\<lambda>i. if i = ''disk_capacity'' then (shadowed_df, 0) else ([], 127)), co_output_bytes = 9\<rparr>"

lemma silent_parsed: "parse_host_resource_v1_batch (co_stdout silent_host) = Inr default_capture"
proof -
  have "get_action i default_capture = Some default_source" if "i \<in> set (map act_id profile_actions)" for i
    using that unfolding profile_ids by (auto simp: get_action_def default_capture_def default_frame_def)
  then show ?thesis unfolding silent_host_def command_output.simps
    by (intro printed_batch_parsed)
      (auto simp: captured_source_def action_source_def action_exit_quality_def default_source_def i32_max_def
        BATCH_END_MARKER_def)
qed

lemma shadowed_parsed: "parse_host_resource_v1_batch (co_stdout shadowed_host) = Inr shadowed_capture"
proof -
  let ?o = "\<lambda>i. if i = ''disk_capacity'' then (shadowed_df, 0) else ([] :: string, 127 :: int)"
  have trim: "trim_where line_end_char shadowed_df = shadowed_df"
    by (simp add: trim_where_def shadowed_df_def line_end_char_def)
  have cap: "a \<in> set profile_actions \<Longrightarrow> act_id a = ''disk_capacity'' \<Longrightarrow> length shadowed_df \<le> act_max_stdout a" for a
    by (auto simp: profile_actions_def host_resource_v1_profile_def action_def map_filter_simps shadowed_df_def)
  have other: "get_action i shadowed_capture = Some default_source"
    if "i \<in> set (map act_id profile_actions)" "i \<noteq> ''disk_capacity''" for i
    using that unfolding profile_ids
    by (auto simp: get_action_def shadowed_capture_def default_capture_def default_frame_def)
  have disk: "get_action ''disk_capacity'' shadowed_capture = Some (Output shadowed_df)"
    by (simp add: get_action_def shadowed_capture_def)
  have "parse_host_resource_v1_batch (printed_batch ?o) = Inr shadowed_capture"
  proof (rule printed_batch_parsed)
    fix a assume a: "a \<in> set profile_actions"
    show "split_first BATCH_END_MARKER (fst (?o (act_id a))) = None
      \<and> - i32_max - 1 \<le> snd (?o (act_id a)) \<and> snd (?o (act_id a)) \<le> i32_max"
      by (simp add: shadowed_df_def BATCH_END_MARKER_def i32_max_def)
    show "get_action (act_id a) shadowed_capture = Some (captured_source a (?o (act_id a)))"
      using disk other [of "act_id a"] a cap [OF a]
      by (cases "act_id a = ''disk_capacity''")
        (simp_all add: captured_source_def action_source_def action_exit_quality_def default_source_def trim)
  qed
  then show ?thesis by (simp add: shadowed_host_def)
qed

lemma sample_sha_env: "history_env.truncate sample_monitor_env = plain_env"
  by (simp add: sample_monitor_env_def history_env.defs plain_env_def env.defs)

text \<open>
  C16. A run whose target or collection fails ends: in the state and with the code of the failure, with one
  receipt that observes nothing, without samples and without touching the current snapshot of the host,
  which is free for the next observation.
\<close>

theorem failed_collection_ends:
  assumes adm: "admitted e b r d" and out: "run_outcome b (run_host r) target = Inl f"
  shows "\<exists>x. let d' = run_monitor_background e b (run_id r) (run_host r) target d in
      failed_run f (bk_finished b) (started_run (bk_started b) r) \<in> set (runs d')
      \<and> evaluations d' = evaluations d @ [x] \<and> evl_run x = run_id r \<and> evl_observation x = ObsNone
      \<and> samples d' = samples d \<and> currents d' = currents d \<and> \<not> host_busy (run_host r) d'"
proof (rule background_started [OF adm, of target])
  fix d2
  let ?r = "started_run (bk_started b) r"
  assume bg: "run_monitor_background e b (run_id r) (run_host r) target d
      = publish_run_state (run_id r) (bk_announced_end b)
          (or_unchanged (persist_outcome e b (run_id r) (run_host r) (run_outcome b (run_host r) target) d2) d2)"
    and d2: "ledger_ok d2" "?r \<in> set (runs d2)" "receipt_ready (env.truncate e) (bk_receipt b) ?r d2"
      "evaluations d2 = evaluations d" "samples d2 = samples d" "currents d2 = currents d"
  have "run_checks r" "0 \<le> bk_finished b" using adm by (simp_all add: admitted_def)
  then obtain x d3 where d3: "persist_failure (env.truncate e) (run_id r) f (bk_finished b) (bk_receipt b) d2 = Inr d3"
    and "failed_run f (bk_finished b) ?r \<in> set (runs d3) \<and> evaluations d3 = evaluations d2 @ [x]
      \<and> evl_run x = run_id r \<and> evl_observation x = ObsNone \<and> samples d3 = samples d2 \<and> currents d3 = currents d2
      \<and> \<not> host_busy (run_host r) d3"
    using failure_persisted [OF d2(1,2) _ _ d2(3) outcome_failure_final [OF out], of "bk_finished b"] by auto
  then show ?thesis
    using bg d2(4-6) d3 by (intro exI [of _ x]) (simp add: out persist_outcome_def or_unchanged_def host_busy_def)
qed

theorem failed_collection_ends_witness:
  "\<exists>x. let d' = run_monitor_background sample_monitor_env
        (sample_background (Inl \<lparr>se_failure = SshFTimeout, se_output_bytes = 5\<rparr>) []) ''r1'' ''h''
        (Some sample_ssh_target) sample_ledger in
      (\<exists>r \<in> set (runs d'). run_status r = TimedOut) \<and> evaluations d' = [x] \<and> evl_observation x = ObsNone"
proof -
  let ?b = "sample_background (Inl \<lparr>se_failure = SshFTimeout, se_output_bytes = 5\<rparr>) []"
  let ?f = "classify_ssh_failure \<lparr>se_failure = SshFTimeout, se_output_bytes = 5\<rparr>"
  have out: "run_outcome ?b (run_host sample_manual_row) (Some sample_ssh_target) = Inl ?f"
    by (simp add: sample_outcome)
  obtain x d' where d': "run_monitor_background sample_monitor_env ?b ''r1'' ''h'' (Some sample_ssh_target) sample_ledger = d'"
      "failed_run ?f 2 (started_run 1 sample_manual_row) \<in> set (runs d')" "evaluations d' = [x]" "evl_observation x = ObsNone"
    using failed_collection_ends [OF sample_admitted out, of sample_monitor_env] by (auto simp: Let_def)
  have "run_status (failed_run ?f 2 (started_run 1 sample_manual_row)) = TimedOut"
    by (simp add: failed_run_def classify_ssh_failure_def)
  then show ?thesis using d' by (auto simp: Let_def)
qed

text \<open>
  C3. A run whose host answered and whose samples can be stored ends: in the state its required families call for,
  with all its samples, one receipt that says how much was observed, and, unless nothing required was observed, as
  the current snapshot of the host, valid for the promised time; the host is free for the next observation. The
  samples can be stored when their identifiers are new and no two have the same key, that is when no mount point,
  block device or interface is reported twice (otherwise see the next property).
\<close>

theorem collected_run_ends:
  assumes adm: "admitted e b r d" and out: "run_outcome b (run_host r) target = Inr (parse_host_resource_v1 c, bytes)"
    and st: "storable e b c r d"
  shows "\<exists>x. let d' = run_monitor_background e b (run_id r) (run_host r) target d in
      observed_run (capture_state c) (snapshot_of_run b c r) bytes (bk_finished b) (started_run (bk_started b) r)
        \<in> set (runs d')
      \<and> evaluations d' = evaluations d @ [x] \<and> evl_run x = run_id r
      \<and> evl_observation x = observed_as (capture_state c)
      \<and> samples d' = samples d @ observed_rows e b c r
      \<and> (if capture_state c = Failed then currents d' = currents d
         else select_one (\<lambda>y. cur_host y = run_host r) (currents d')
            = Some (current_of e (run_id r) (run_host r) (snapshot_of_run b c r) (timestamp_ms (bk_finished b))))
      \<and> \<not> host_busy (run_host r) d'"
proof (rule background_started [OF adm, of target])
  fix d2
  let ?r = "started_run (bk_started b) r"
  assume bg: "run_monitor_background e b (run_id r) (run_host r) target d
      = publish_run_state (run_id r) (bk_announced_end b)
          (or_unchanged (persist_outcome e b (run_id r) (run_host r) (run_outcome b (run_host r) target) d2) d2)"
    and d2: "ledger_ok d2" "?r \<in> set (runs d2)" "receipt_ready (env.truncate e) (bk_receipt b) ?r d2"
      "evaluations d2 = evaluations d" "samples d2 = samples d" "currents d2 = currents d" "hosts d2 = hosts d"
  have adm': "run_checks r" "0 \<le> bk_finished b" using adm by (simp_all add: admitted_def)
  have "storable e b c ?r d2" using st d2(5-7) by (simp add: storable_def)
  note persisted = observation_persisted [OF d2(1,2) _ _ d2(3) adm'(2) this, of bytes,
      unfolded started_run_simps, OF refl adm'(1)]
  obtain x d3 where d3: "persist_observation e b (run_id r) (run_host r) bytes (parse_host_resource_v1 c) d2 d2
        = Inr d3"
    and rest: "observed_run (capture_state c) (snapshot_of_run b c ?r) bytes (bk_finished b) ?r \<in> set (runs d3)
      \<and> evaluations d3 = evaluations d2 @ [x] \<and> evl_run x = run_id r
      \<and> evl_observation x = observed_as (capture_state c)
      \<and> samples d3 = samples d2 @ observed_rows e b c ?r
      \<and> (if capture_state c = Failed then currents d3 = currents d2
         else select_one (\<lambda>y. cur_host y = run_host r) (currents d3)
            = Some (current_of e (run_id r) (run_host r) (snapshot_of_run b c ?r) (timestamp_ms (bk_finished b))))
      \<and> \<not> host_busy (run_host r) d3"
    using persisted by (elim exE) (rule that, (erule conjunct1, erule conjunct2))
  moreover have "snapshot_of_run b c ?r = snapshot_of_run b c r" "observed_rows e b c ?r = observed_rows e b c r"
    by (simp_all add: snapshot_of_run_def observed_rows_def)
  ultimately show ?thesis
    using bg d2(4-6) by (intro exI [of _ x]) (simp add: out persist_outcome_def or_unchanged_def host_busy_def)
qed

theorem collected_run_ends_witness:
  "let d' = run_monitor_background sample_monitor_env
        (sample_background (Inr silent_host) [''1'', ''2'', ''3'', ''4'', ''5'', ''6'', ''7'', ''8'']) ''r1'' ''h''
        (Some sample_ssh_target) sample_ledger in
      length (samples d') = 8 \<and> length (evaluations d') = 1 \<and> \<not> host_busy ''h'' d'"
proof -
  let ?b = "sample_background (Inr silent_host) [''1'', ''2'', ''3'', ''4'', ''5'', ''6'', ''7'', ''8'']"
  have out: "run_outcome ?b (run_host sample_manual_row) (Some sample_ssh_target)
      = Inr (parse_host_resource_v1 default_capture, 9)"
    by (simp add: sample_outcome silent_parsed) (simp add: silent_host_def)
  have st: "storable sample_monitor_env ?b default_capture sample_manual_row sample_ledger"
    by (simp add: storable_def sample_sha_env plain_sha_ok default_separate default_samples_length text_between_def)
  have "length (observed_rows sample_monitor_env ?b default_capture sample_manual_row) = 8"
    by (simp add: observed_rows_def sample_sha_env rows_of_def default_samples_length)
  then show ?thesis using collected_run_ends [OF sample_admitted out st] by (auto simp: Let_def)
qed

text \<open>
  C32. When the host reports a mount point twice (one filesystem mounted over another), its collection is
  lost: nothing of it is stored, the run stays running without a receipt, and the host is busy for every
  later run and discovery until the application restarts.
\<close>

theorem duplicate_mount_strands_run:
  assumes adm: "admitted e b r d" and out: "run_outcome b (run_host r) target = Inr (parse_host_resource_v1 c, bytes)"
    and df: "parsed_df c = Some rows" "\<not> distinct (map df_mount rows)"
    and ids: "length (bk_samples b)
      = length (samples_from_observation (history_env.truncate e) (run_host r) (parse_host_resource_v1 c))"
  shows "let d' = run_monitor_background e b (run_id r) (run_host r) target d in
      started_run (bk_started b) r \<in> set (runs d') \<and> samples d' = samples d \<and> evaluations d' = evaluations d
      \<and> currents d' = currents d \<and> host_busy (run_host r) d'"
proof (rule background_started [OF adm, of target])
  fix d2
  let ?r = "started_run (bk_started b) r"
  let ?o = "parse_host_resource_v1 c"
  assume bg: "run_monitor_background e b (run_id r) (run_host r) target d
      = publish_run_state (run_id r) (bk_announced_end b)
          (or_unchanged (persist_outcome e b (run_id r) (run_host r) (run_outcome b (run_host r) target) d2) d2)"
    and d2: "?r \<in> set (runs d2)" "evaluations d2 = evaluations d" "samples d2 = samples d" "currents d2 = currents d"
  have lost: "\<exists>x. observation_transaction e b (run_id r) (run_host r) stale bytes ?o d2 = Inl x" for stale
  proof (rule ccontr)
    assume "\<not> ?thesis"
    then obtain d' where "observation_transaction e b (run_id r) (run_host r) stale bytes ?o d2 = Inr d'"
      by (cases "observation_transaction e b (run_id r) (run_host r) stale bytes ?o d2") auto
    then obtain n d1 m d3 where "insert_samples (run_id r) (run_host r) (timestamp_ms (bk_finished b))
        (timestamp_ms (bk_finished b)) (bk_created b) (bk_samples b)
        (samples_from_observation (history_env.truncate e) (run_host r) ?o) d1 = Inr (m, d3)"
      unfolding observation_transaction_def Let_def by (auto split: if_splits)
    then show False using duplicate_mount_rejected [OF df ids] by (metis Inl_Inr_False)
  qed
  have "persist_outcome e b (run_id r) (run_host r) (run_outcome b (run_host r) target) d2 \<noteq> Inr d'" for d'
    using lost unfolding out persist_outcome_def persist_observation_def
    by (auto split: option.split) (metis Inl_Inr_False)
  then have "or_unchanged (persist_outcome e b (run_id r) (run_host r) (run_outcome b (run_host r) target) d2) d2 = d2"
    by (auto simp: or_unchanged_def split: sum.split)
  moreover have "host_busy (run_host r) d2" using d2(1) by (auto simp: host_busy_def active_run_def intro!: bexI [of _ ?r])
  ultimately show ?thesis using bg d2 by (simp add: host_busy_def)
qed

theorem duplicate_mount_strands_run_witness:
  "let d' = run_monitor_background sample_monitor_env
        (sample_background (Inr shadowed_host)
          (map show_nat [0..<length (samples_from_observation plain_env ''h'' (parse_host_resource_v1 shadowed_capture))]))
        ''r1'' ''h'' (Some sample_ssh_target) sample_ledger in
      samples d' = [] \<and> evaluations d' = [] \<and> host_busy ''h'' d'"
proof -
  let ?b = "sample_background (Inr shadowed_host)
      (map show_nat [0..<length (samples_from_observation plain_env ''h'' (parse_host_resource_v1 shadowed_capture))])"
  have out: "run_outcome ?b (run_host sample_manual_row) (Some sample_ssh_target)
      = Inr (parse_host_resource_v1 shadowed_capture, 9)"
    by (simp add: sample_outcome shadowed_parsed) (simp add: shadowed_host_def)
  obtain rows where rows: "parsed_df shadowed_capture = Some rows" "\<not> distinct (map df_mount rows)"
    using shadowed_rows by blast
  have ids: "length (bk_samples ?b) = length (samples_from_observation (history_env.truncate sample_monitor_env)
      (run_host sample_manual_row) (parse_host_resource_v1 shadowed_capture))"
    by (simp only: sample_background_simps sample_sha_env sample_manual_row_simps length_map length_upt minus_nat.diff_0)
  show ?thesis using duplicate_mount_strands_run [OF sample_admitted out rows ids] by (simp add: Let_def)
qed

end
