(* ===== verification/Rollup.thy ===== *)
theory Rollup
  imports RustStd Store
begin

text \<open>
  The pure part of \<open>backend/src/monitoring_rollup.rs\<close>: the retention settings, the hour and day buckets, the
  statistics of a gauge and of a counter over one bucket, and the digests of their inputs. Text columns that
  hold a time are kept as milliseconds; their text, the bits of a double and SHA-256 are arguments.
\<close>

subsection \<open>Resolutions\<close>

datatype resolution = Hour | Day

definition HOUR_MILLISECONDS :: int where
  "HOUR_MILLISECONDS = 60 * 60 * 1000"

definition DAY_MILLISECONDS :: int where
  "DAY_MILLISECONDS = 24 * HOUR_MILLISECONDS"

fun resolution_name :: "resolution \<Rightarrow> string" where
  "resolution_name Hour = ''hour''"
| "resolution_name Day = ''day''"

fun bucket_milliseconds :: "resolution \<Rightarrow> int" where
  "bucket_milliseconds Hour = HOUR_MILLISECONDS"
| "bucket_milliseconds Day = DAY_MILLISECONDS"

definition bucket_seconds :: "resolution \<Rightarrow> nat" where
  "bucket_seconds r = u32_of_nat (nat (bucket_milliseconds r div 1000))"

subsection \<open>Settings\<close>

record rollup_settings =
  rs_tick_seconds :: nat
  rs_partitions_per_tick :: nat
  rs_delete_batch_size :: nat
  rs_retention_enabled :: bool
  rs_raw_observed_days :: nat
  rs_raw_non_observed_days :: nat
  rs_hour_days :: nat
  rs_day_days :: nat

definition default_rollup_settings :: rollup_settings where
  "default_rollup_settings =
     \<lparr>rs_tick_seconds = 3600, rs_partitions_per_tick = 32, rs_delete_batch_size = 5000,
      rs_retention_enabled = False, rs_raw_observed_days = 7, rs_raw_non_observed_days = 30,
      rs_hour_days = 90, rs_day_days = 365\<rparr>"

definition clamp_nat :: "nat \<Rightarrow> nat \<Rightarrow> nat \<Rightarrow> nat" where
  "clamp_nat n mn mx = (if n < mn then mn else if mx < n then mx else n)"

definition rollup_env_u32 :: "(string \<Rightarrow> string option) \<Rightarrow> string \<Rightarrow> nat \<Rightarrow> nat \<Rightarrow> nat \<Rightarrow> nat" where
  "rollup_env_u32 vars name dflt mn mx =
     (case Option.bind (vars name) parse_u32 of
        None \<Rightarrow> clamp_nat dflt mn mx
      | Some v \<Rightarrow> if mn \<le> v \<and> v \<le> mx then v else clamp_nat dflt mn mx)"

definition rollup_env_bool :: "(string \<Rightarrow> string option) \<Rightarrow> string \<Rightarrow> bool \<Rightarrow> bool" where
  "rollup_env_bool vars name dflt =
     (case map_option trim (vars name) of
        None \<Rightarrow> dflt
      | Some v \<Rightarrow>
          if v \<in> {''1'', ''true'', ''TRUE'', ''yes'', ''YES''} then True
          else if v \<in> {''0'', ''false'', ''FALSE'', ''no'', ''NO''} then False
          else dflt)"

definition rollup_settings_from_environment :: "(string \<Rightarrow> string option) \<Rightarrow> rollup_settings" where
  "rollup_settings_from_environment vars =
     (let d = default_rollup_settings;
          observed = rollup_env_u32 vars ''NETWORK_ATLAS_MONITOR_RAW_OBSERVED_RETENTION_DAYS''
            (rs_raw_observed_days d) 1 365;
          non_observed = rollup_env_u32 vars ''NETWORK_ATLAS_MONITOR_RAW_NON_OBSERVED_RETENTION_DAYS''
            (max (rs_raw_non_observed_days d) observed) observed 730;
          hours = rollup_env_u32 vars ''NETWORK_ATLAS_MONITOR_HOUR_RETENTION_DAYS''
            (max (rs_hour_days d) non_observed) non_observed 3650;
          days = rollup_env_u32 vars ''NETWORK_ATLAS_MONITOR_DAY_RETENTION_DAYS''
            (max (rs_day_days d) hours) hours 7300
      in \<lparr>rs_tick_seconds = rollup_env_u32 vars ''NETWORK_ATLAS_MONITOR_COMPACTOR_TICK_SECONDS''
            (rs_tick_seconds d) 60 86400,
          rs_partitions_per_tick = rollup_env_u32 vars
            ''NETWORK_ATLAS_MONITOR_COMPACTOR_PARTITIONS_PER_TICK'' (rs_partitions_per_tick d) 1 1024,
          rs_delete_batch_size = rollup_env_u32 vars
            ''NETWORK_ATLAS_MONITOR_RETENTION_DELETE_BATCH_SIZE'' (rs_delete_batch_size d) 1 100000,
          rs_retention_enabled = rollup_env_bool vars ''NETWORK_ATLAS_MONITOR_RETENTION_ENABLED''
            (rs_retention_enabled d),
          rs_raw_observed_days = observed, rs_raw_non_observed_days = non_observed,
          rs_hour_days = hours, rs_day_days = days\<rparr>)"

lemma rollup_env_u32_range: "mn \<le> mx \<Longrightarrow> mn \<le> rollup_env_u32 vars n dflt mn mx \<and> rollup_env_u32 vars n dflt mn mx \<le> mx"
  by (auto simp: rollup_env_u32_def clamp_nat_def split: option.split)

subsection \<open>Buckets\<close>

definition bucket_start_epoch_ms :: "int \<Rightarrow> resolution \<Rightarrow> int option" where
  "bucket_start_epoch_ms t r =
     (if t < 0 then None else Some (t div bucket_milliseconds r * bucket_milliseconds r))"

text \<open>The bucket of a stored sample, as the SQL statements compute it.\<close>

definition bucket_of :: "resolution \<Rightarrow> int \<Rightarrow> int" where
  "bucket_of r t = t div bucket_milliseconds r * bucket_milliseconds r"

lemma bucket_milliseconds_pos [simp]: "0 < bucket_milliseconds r"
  by (cases r) (simp_all add: HOUR_MILLISECONDS_def DAY_MILLISECONDS_def)

lemma bucket_of_bounds: "bucket_of r t \<le> t \<and> t < bucket_of r t + bucket_milliseconds r"
  using pos_mod_bound [of "bucket_milliseconds r" t] pos_mod_sign [of "bucket_milliseconds r" t]
    div_mult_mod_eq [of t "bucket_milliseconds r"]
  unfolding bucket_of_def by (smt (verit) bucket_milliseconds_pos)

lemma bucket_of_unique:
  assumes "bucket_milliseconds r dvd s"
  shows "bucket_of r t = s \<longleftrightarrow> s \<le> t \<and> t < s + bucket_milliseconds r"
proof
  assume "bucket_of r t = s"
  then show "s \<le> t \<and> t < s + bucket_milliseconds r" using bucket_of_bounds [of r t] by simp
next
  assume a: "s \<le> t \<and> t < s + bucket_milliseconds r"
  obtain k where k: "s = bucket_milliseconds r * k" using assms by blast
  have "t div bucket_milliseconds r = k"
    using a by (intro int_div_pos_eq [of t _ k "t - s"]) (simp_all add: k)
  then show "bucket_of r t = s" by (simp add: bucket_of_def k)
qed

lemma bucket_of_dvd [simp]: "bucket_milliseconds r dvd bucket_of r t"
  by (simp add: bucket_of_def)

lemma bucket_of_day_hour: "bucket_of Day (bucket_of Hour t) = bucket_of Day t"
proof -
  have "t div HOUR_MILLISECONDS * HOUR_MILLISECONDS div (HOUR_MILLISECONDS * 24) = t div (HOUR_MILLISECONDS * 24)"
    by (subst (1 2) zdiv_zmult2_eq) (simp_all add: HOUR_MILLISECONDS_def)
  then show ?thesis by (simp add: bucket_of_def DAY_MILLISECONDS_def mult.commute)
qed

subsection \<open>Samples, series and their rollup\<close>

record series_key =
  sk_family :: string
  sk_subject_kind :: string
  sk_subject_id :: string
  sk_metric :: string
  sk_dims_sha :: string
  sk_kind :: string
  sk_source :: string
  sk_unit :: string

text \<open>The derived order of \<open>SeriesKey\<close>: by its fields, in their order.\<close>

definition series_fields ::
  "series_key \<Rightarrow> string \<times> string \<times> string \<times> string \<times> string \<times> string \<times> string \<times> string"
where
  "series_fields k = (sk_family k, sk_subject_kind k, sk_subject_id k, sk_metric k, sk_dims_sha k, sk_kind k,
     sk_source k, sk_unit k)"

record raw_sample =
  rw_id :: string
  rw_run :: string
  rw_key :: series_key
  rw_dims_json :: string
  rw_real :: "f64 option"
  rw_integer :: "int option"
  rw_quality :: string
  rw_observed_at :: int
  rw_epoch :: int
  rw_boot :: "string option"

record counter_boundary =
  cb_sample :: string
  cb_value :: int
  cb_boot :: "string option"

record series_rollup =
  sr_key :: series_key
  sr_dims_json :: string
  sr_sample_count :: nat
  sr_observed_count :: nat
  sr_min :: "f64 option"
  sr_max :: "f64 option"
  sr_average :: "f64 option"
  sr_p95 :: "f64 option"
  sr_last :: "f64 option"
  sr_counter_first :: "int option"
  sr_counter_last :: "int option"
  sr_counter_delta :: "int option"
  sr_reset_count :: nat
  sr_quality :: string
  sr_quality_counts :: "(string \<times> nat) list"
  sr_input_digest :: string
  sr_boundary :: "string option"
  sr_last_sample :: string
  sr_last_run :: string
  sr_last_sample_at :: int
  sr_last_sample_ms :: int
  sr_last_valid_at :: "int option"
  sr_last_valid_ms :: "int option"
  sr_last_valid_run :: "string option"

subsection \<open>Statistics of a gauge\<close>

record gauge_statistics =
  gs_min :: "f64 option"
  gs_max :: "f64 option"
  gs_average :: "f64 option"
  gs_p95 :: "f64 option"

definition f_abs :: "f64 \<Rightarrow> f64" where
  "f_abs x = (if f_lt x (Fin 0) then f_neg x else x)"

definition f_clamp :: "f64 \<Rightarrow> f64 \<Rightarrow> f64 \<Rightarrow> f64" where
  "f_clamp x mn mx = (if f_lt x mn then mn else if f_lt mx x then mx else x)"

definition gauge_average :: "f64 list \<Rightarrow> f64" where
  "gauge_average values =
     (let scale = fold (\<lambda>v m. f_max m v) (map f_abs values) (Fin 0)
      in if scale = Fin 0 then Fin 0
         else let normalized_sum = fold (\<lambda>v s. f_add s (f_div v scale)) values (Fin 0)
              in f_mul (f_clamp (f_div normalized_sum (f_of_nat (length values))) (Fin (- 1)) (Fin 1)) scale)"

text \<open>\<open>usize\<close> has 64 bits.\<close>

definition percentile_rank :: "nat \<Rightarrow> nat" where
  "percentile_rank n = min ((sat_add64 (min (n * 95) u64_max) 99) div 100 - 1) (n - 1)"

definition gauge_statistics_of :: "f64 list \<Rightarrow> gauge_statistics" where
  "gauge_statistics_of values =
     (if values = [] then \<lparr>gs_min = None, gs_max = None, gs_average = None, gs_p95 = None\<rparr>
      else \<lparr>gs_min = Some (hd values), gs_max = Some (last values),
            gs_average = (if f_is_finite (gauge_average values) then Some (gauge_average values) else None),
            gs_p95 = (if percentile_rank (length values) < length values
                      then Some (values ! percentile_rank (length values)) else None)\<rparr>)"

subsection \<open>Statistics of a counter\<close>

record counter_statistics =
  cs_first :: "int option"
  cs_last :: "int option"
  cs_delta :: "int option"
  cs_reset_count :: nat
  cs_boundary :: "string option"
  cs_overflowed :: bool

definition default_counter_statistics :: counter_statistics where
  "default_counter_statistics =
     \<lparr>cs_first = None, cs_last = None, cs_delta = None, cs_reset_count = 0, cs_boundary = None, cs_overflowed = False\<rparr>"

definition wrap_i64 :: "int \<Rightarrow> int" where
  "wrap_i64 x = (x + 2 ^ 63) mod 2 ^ 64 - 2 ^ 63"

definition checked_add_i64 :: "int \<Rightarrow> int \<Rightarrow> int option" where
  "checked_add_i64 a b = (if i64_min \<le> a + b \<and> a + b \<le> i64_max then Some (a + b) else None)"

definition observed_integers :: "raw_sample list \<Rightarrow> (raw_sample \<times> int) list" where
  "observed_integers ss =
     List.map_filter (\<lambda>s. map_option (Pair s) (rw_integer s)) (filter (\<lambda>s. rw_quality s = ''observed'') ss)"

definition boot_changed :: "string option \<Rightarrow> string option \<Rightarrow> bool" where
  "boot_changed a b = (a \<noteq> None \<and> b \<noteq> None \<and> a \<noteq> b)"

record counter_state =
  ct_previous :: "(int \<times> string option) option"
  ct_delta :: int
  ct_transitions :: nat
  ct_resets :: nat
  ct_overflowed :: bool

definition counter_step :: "raw_sample \<times> int \<Rightarrow> counter_state \<Rightarrow> counter_state" where
  "counter_step = (\<lambda>(s, v) c.
     (case ct_previous c of
        None \<Rightarrow> c
      | Some (p, boot) \<Rightarrow>
          if boot_changed boot (rw_boot s) \<or> v < p
          then c\<lparr>ct_resets := sat_add32 (ct_resets c) 1\<rparr>
          else (case checked_add_i64 (ct_delta c) (wrap_i64 (v - p)) of
                  Some next \<Rightarrow> c\<lparr>ct_delta := next, ct_transitions := sat_add32 (ct_transitions c) 1\<rparr>
                | None \<Rightarrow> c\<lparr>ct_overflowed := True\<rparr>))
     \<lparr>ct_previous := Some (v, rw_boot s)\<rparr>)"

definition aggregate_counter :: "raw_sample list \<Rightarrow> counter_boundary option \<Rightarrow> counter_statistics" where
  "aggregate_counter ss boundary =
     (case observed_integers ss of
        [] \<Rightarrow> default_counter_statistics
      | (s0, v0) # rest \<Rightarrow>
          let observed = (s0, v0) # rest;
              c = fold counter_step observed
                    \<lparr>ct_previous = map_option (\<lambda>b. (cb_value b, cb_boot b)) boundary, ct_delta = 0,
                     ct_transitions = 0, ct_resets = 0, ct_overflowed = False\<rparr>
          in \<lparr>cs_first = Some v0, cs_last = Some (snd (last observed)),
              cs_delta = (if \<not> ct_overflowed c \<and> 0 < ct_transitions c then Some (ct_delta c) else None),
              cs_reset_count = ct_resets c, cs_boundary = map_option cb_sample boundary,
              cs_overflowed = ct_overflowed c\<rparr>)"

subsection \<open>Digests\<close>

record rollup_env = env +
  millis_text :: "int \<Rightarrow> string"
  f64_bits :: "f64 \<Rightarrow> nat"
  representable :: "int \<Rightarrow> bool"

text \<open>The bytes hashed for one field: its length as eight big-endian bytes, then its bytes.\<close>

definition length_bytes :: "nat \<Rightarrow> string" where
  "length_bytes n = map (\<lambda>i. char_of (n div 256 ^ i)) [7, 6, 5, 4, 3, 2, 1, 0 :: nat]"

definition digest_field :: "string \<Rightarrow> string" where
  "digest_field v = length_bytes (length v) @ v"

definition sample_fields :: "rollup_env \<Rightarrow> raw_sample \<Rightarrow> string list" where
  "sample_fields e s =
     [rw_id s, rw_run s, sk_family (rw_key s), sk_subject_kind (rw_key s), sk_subject_id (rw_key s),
      sk_metric (rw_key s), rw_dims_json s, sk_dims_sha (rw_key s), sk_kind (rw_key s), sk_source (rw_key s),
      sk_unit (rw_key s), rw_quality s, millis_text e (rw_observed_at s),
      (case rw_boot s of None \<Rightarrow> [] | Some b \<Rightarrow> b),
      show_int (rw_epoch s),
      (case rw_real s of None \<Rightarrow> [] | Some x \<Rightarrow> show_nat (f64_bits e x)),
      (case rw_integer s of None \<Rightarrow> [] | Some i \<Rightarrow> show_int i)]"

definition digest_sample :: "rollup_env \<Rightarrow> raw_sample \<Rightarrow> string" where
  "digest_sample e s = concat (map digest_field (sample_fields e s))"

definition series_input_digest :: "rollup_env \<Rightarrow> raw_sample list \<Rightarrow> string option \<Rightarrow> string" where
  "series_input_digest e ss boundary =
     hex_digest (sha256 e (digest_field (case boundary of None \<Rightarrow> [] | Some b \<Rightarrow> b)
       @ concat (map (digest_sample e) ss)))"

definition partition_input_digest :: "rollup_env \<Rightarrow> raw_sample list \<Rightarrow> string" where
  "partition_input_digest e ss = hex_digest (sha256 e (concat (map (digest_sample e) ss)))"

subsection \<open>One series of a bucket\<close>

definition quality_rank :: "string \<Rightarrow> nat" where
  "quality_rank q =
     (if q = ''observed'' then 0 else if q = ''unsupported'' then 1 else if q = ''insufficient_interval'' then 2
      else if q = ''counter_reset'' then 3 else if q = ''counter_unreliable'' then 4
      else if q = ''parse_failed'' then 5 else if q = ''permission_denied'' then 6
      else if q = ''timed_out'' then 7 else 255)"

text \<open>\<open>max_by_key\<close> returns the last of the greatest elements.\<close>

fun worst_quality :: "string \<Rightarrow> string list \<Rightarrow> string" where
  "worst_quality q [] = q"
| "worst_quality q (x # xs) = worst_quality (if quality_rank q \<le> quality_rank x then x else q) xs"

definition count_quality :: "string \<Rightarrow> (string \<times> nat) list \<Rightarrow> (string \<times> nat) list" where
  "count_quality q m = bt_insert q (sat_add32 (case map_of m q of None \<Rightarrow> 0 | Some n \<Rightarrow> n) 1) m"

datatype rollup_error =
    AlreadyRunning
  | RollupStorage db_error
  | InvalidData
  | Overflow
  | LateSamples nat

fun rollup_error_code :: "rollup_error \<Rightarrow> string" where
  "rollup_error_code AlreadyRunning = ''COMPACTOR_ALREADY_RUNNING''"
| "rollup_error_code (RollupStorage _) = ''COMPACTOR_STORAGE_FAILED''"
| "rollup_error_code InvalidData = ''COMPACTOR_INVALID_DATA''"
| "rollup_error_code Overflow = ''COMPACTOR_ARITHMETIC_OVERFLOW''"
| "rollup_error_code (LateSamples _) = ''COMPACTOR_LATE_SAMPLE''"

definition is_observed :: "raw_sample \<Rightarrow> bool" where
  "is_observed s = (rw_quality s = ''observed'')"

definition by_time :: "raw_sample list \<Rightarrow> raw_sample list" where
  "by_time ss = sort_key (\<lambda>s. (rw_epoch s, rw_id s)) ss"

definition finite_value :: "f64 option \<Rightarrow> f64 option" where
  "finite_value v = (case v of Some x \<Rightarrow> if f_is_finite x then Some x else None | None \<Rightarrow> None)"

definition gauge_values :: "raw_sample list \<Rightarrow> f64 list" where
  "gauge_values ss = sort_key f_value (List.map_filter (\<lambda>s. finite_value (rw_real s)) (filter is_observed ss))"

definition aggregate_series ::
  "rollup_env \<Rightarrow> series_key \<Rightarrow> raw_sample list \<Rightarrow> counter_boundary option \<Rightarrow> rollup_error + series_rollup"
where
  "aggregate_series e key unsorted boundary =
     (let ss = by_time unsorted in
      case rev ss of
        [] \<Rightarrow> Inl InvalidData
      | newest # _ \<Rightarrow>
          if u32_max < length ss then Inl Overflow
          else
          (let last_valid = find is_observed (rev ss);
               counter = aggregate_counter ss boundary;
               gauge = gauge_statistics_of (gauge_values ss);
               is_counter = (sk_kind key = ''counter'');
               worst = worst_quality (rw_quality (hd ss)) (map rw_quality (tl ss));
               boundary_id = (if is_counter then cs_boundary counter else None)
           in Inr \<lparr>sr_key = key, sr_dims_json = rw_dims_json newest, sr_sample_count = length ss,
               sr_observed_count = length (filter is_observed ss),
               sr_min = (if is_counter then None else gs_min gauge),
               sr_max = (if is_counter then None else gs_max gauge),
               sr_average = (if is_counter then None else gs_average gauge),
               sr_p95 = (if is_counter then None else gs_p95 gauge),
               sr_last = (if is_counter then None
                 else finite_value (Option.bind last_valid rw_real)),
               sr_counter_first = (if is_counter then cs_first counter else None),
               sr_counter_last = (if is_counter then cs_last counter else None),
               sr_counter_delta = (if is_counter then cs_delta counter else None),
               sr_reset_count = (if is_counter then cs_reset_count counter else 0),
               sr_quality = (if is_counter \<and> cs_overflowed counter then ''counter_unreliable'' else worst),
               sr_quality_counts = fold (\<lambda>s. count_quality (rw_quality s)) ss [],
               sr_input_digest = series_input_digest e ss boundary_id, sr_boundary = boundary_id,
               sr_last_sample = rw_id newest, sr_last_run = rw_run newest,
               sr_last_sample_at = rw_observed_at newest, sr_last_sample_ms = rw_epoch newest,
               sr_last_valid_at = map_option rw_observed_at last_valid,
               sr_last_valid_ms = map_option rw_epoch last_valid,
               sr_last_valid_run = map_option rw_run last_valid\<rparr>))"

end
