(* ===== verification/RollupStore.thy ===== *)
theory RollupStore
  imports Rollup
begin

text \<open>
  The tables of \<open>migrations/0012_monitoring_rollups.sql\<close> beside those of \<open>Store\<close>: rollup partitions, rollup
  rows, the maintenance row and the compaction runs, with the statements that write them and the
  constraints those must pass. A bucket is kept as its epoch columns, of which the text columns are the
  RFC 3339 form; \<open>expected_count\<close> and \<open>missing_count\<close> are always \<open>NULL\<close>; JSON columns are kept as values.
\<close>

record partition_row =
  pt_id :: string
  pt_host :: string
  pt_resolution :: resolution
  pt_start :: int
  pt_end :: int
  pt_input_count :: nat
  pt_input_digest :: string
  pt_series_count :: nat
  pt_state :: string
  pt_compacted_at :: millis
  pt_sealed_at :: "millis option"
  pt_pruned_at :: "millis option"

record rollup_row =
  ru_id :: string
  ru_partition :: string
  ru_host :: string
  ru_resolution :: resolution
  ru_start :: int
  ru_end :: int
  ru_series :: series_rollup
  ru_non_observed :: nat
  ru_input_count :: nat
  ru_created_at :: millis
  ru_updated_at :: millis

record compaction_outcome =
  out_hours :: nat
  out_days :: nat
  out_raw_deleted :: nat
  out_hour_deleted :: nat
  out_day_deleted :: nat

definition default_outcome :: compaction_outcome where
  "default_outcome = \<lparr>out_hours = 0, out_days = 0, out_raw_deleted = 0, out_hour_deleted = 0, out_day_deleted = 0\<rparr>"

record storage_counts =
  sc_raw :: nat
  sc_hours :: nat
  sc_days :: nat
  sc_bytes :: int

record maintenance_row =
  mm_state :: string
  mm_retention_enabled :: bool
  mm_raw_observed_days :: nat
  mm_raw_non_observed_days :: nat
  mm_hour_days :: nat
  mm_day_days :: nat
  mm_last_started_at :: "millis option"
  mm_last_completed_at :: "millis option"
  mm_last_successful_at :: "millis option"
  mm_last_error_at :: "millis option"
  mm_last_error_code :: "string option"
  mm_outcome :: compaction_outcome
  mm_storage :: storage_counts
  mm_updated_at :: millis

record compaction_row =
  cmp_id :: string
  cmp_state :: string
  cmp_started_at :: millis
  cmp_finished_at :: "millis option"
  cmp_outcome :: compaction_outcome
  cmp_error_code :: "string option"
  cmp_settings :: "bool \<times> nat \<times> nat \<times> nat \<times> nat \<times> nat \<times> nat"

record rollup_db = db +
  partitions :: "partition_row list"
  rollups :: "rollup_row list"
  maintenance :: maintenance_row
  compactions :: "compaction_row list"

text \<open>The row the migration inserts.\<close>

definition first_maintenance :: "millis \<Rightarrow> maintenance_row" where
  "first_maintenance now = \<lparr>mm_state = ''idle'', mm_retention_enabled = False, mm_raw_observed_days = 7,
     mm_raw_non_observed_days = 30, mm_hour_days = 90, mm_day_days = 365, mm_last_started_at = None,
     mm_last_completed_at = None, mm_last_successful_at = None, mm_last_error_at = None, mm_last_error_code = None,
     mm_outcome = default_outcome, mm_storage = \<lparr>sc_raw = 0, sc_hours = 0, sc_days = 0, sc_bytes = 0\<rparr>,
     mm_updated_at = now\<rparr>"

subsection \<open>Partitions\<close>

definition partition_checks :: "partition_row \<Rightarrow> bool" where
  "partition_checks p =
     (0 \<le> pt_start p \<and> pt_start p < pt_end p \<and> 0 < pt_input_count p \<and> 0 < pt_series_count p
      \<and> (pt_state p = ''complete'' \<and> pt_sealed_at p = None \<or> pt_state p = ''sealed'' \<and> pt_sealed_at p \<noteq> None))"

definition bucket_key :: "partition_row \<Rightarrow> string \<times> resolution \<times> int" where
  "bucket_key p = (pt_host p, pt_resolution p, pt_start p)"

definition find_partition :: "('a rollup_db_scheme) \<Rightarrow> string \<Rightarrow> resolution \<Rightarrow> int \<Rightarrow> partition_row option" where
  "find_partition d host r start = find (\<lambda>p. bucket_key p = (host, r, start)) (partitions d)"

text \<open>
  \<open>INSERT \<dots> ON CONFLICT(host_id, resolution, bucket_start_epoch_ms) DO UPDATE\<close>: the identifier, the state
  and the times of sealing and pruning of an existing row stay.
\<close>

definition overwrite_partition :: "partition_row \<Rightarrow> partition_row \<Rightarrow> partition_row" where
  "overwrite_partition p q = q\<lparr>pt_end := pt_end p, pt_input_count := pt_input_count p,
     pt_input_digest := pt_input_digest p, pt_series_count := pt_series_count p,
     pt_compacted_at := pt_compacted_at p\<rparr>"

definition upsert_partition :: "partition_row \<Rightarrow> rollup_db \<Rightarrow> rollup_db stmt" where
  "upsert_partition p d =
     (if \<not> partition_checks p then Inl CheckViolation
      else if bucket_key p \<in> set (map bucket_key (partitions d))
      then Inr (d\<lparr>partitions := update_rows (\<lambda>q. bucket_key q = bucket_key p) (overwrite_partition p) (partitions d)\<rparr>)
      else if pt_id p \<in> set (map pt_id (partitions d)) then Inl UniqueViolation
      else if pt_host p \<notin> set (hosts d) then Inl ForeignKeyViolation
      else Inr (d\<lparr>partitions := partitions d @ [p]\<rparr>))"

subsection \<open>Rollup rows\<close>

definition rollup_key :: "rollup_row \<Rightarrow> string \<times> series_key \<times> resolution \<times> int" where
  "rollup_key u = (ru_host u, sr_key (ru_series u), ru_resolution u, ru_start u)"

definition series_key_checks :: "series_key \<Rightarrow> bool" where
  "series_key_checks k =
     (sk_family k \<in> set sample_families \<and> sk_subject_kind k \<in> set sample_subjects
      \<and> text_between 1 512 (sk_subject_id k) \<and> text_between 1 128 (sk_metric k)
      \<and> char_length (sk_dims_sha k) = 64 \<and> sk_kind k \<in> {''gauge'', ''counter'', ''derived''}
      \<and> sk_source k = ''ssh_host_resource_v1'' \<and> text_between 1 64 (sk_unit k))"

definition rollup_checks :: "rollup_row \<Rightarrow> bool" where
  "rollup_checks u =
     (let s = ru_series u;
          no_gauge = (sr_min s = None \<and> sr_max s = None \<and> sr_average s = None \<and> sr_p95 s = None \<and> sr_last s = None);
          no_counter = (sr_counter_first s = None \<and> sr_counter_last s = None \<and> sr_counter_delta s = None)
      in series_key_checks (sr_key s)
         \<and> 0 \<le> ru_start u \<and> ru_start u < ru_end u
         \<and> 0 < sr_sample_count s \<and> sr_observed_count s \<le> sr_sample_count s
         \<and> ru_non_observed u = sr_sample_count s - sr_observed_count s
         \<and> pred_option (\<lambda>v. 0 \<le> v) (sr_counter_delta s)
         \<and> sr_quality s \<in> set sample_qualities
         \<and> ru_input_count u = sr_sample_count s
         \<and> 0 \<le> sr_last_sample_ms s \<and> pred_option (\<lambda>v. 0 \<le> v) (sr_last_valid_ms s)
         \<and> (if sk_kind (sr_key s) = ''counter'' then no_gauge else no_counter \<and> sr_reset_count s = 0)
         \<and> (0 < sr_observed_count s \<or> no_gauge \<and> no_counter))"

text \<open>The identifier, the key and the creation time of an existing row stay.\<close>

definition overwrite_rollup :: "rollup_row \<Rightarrow> rollup_row \<Rightarrow> rollup_row" where
  "overwrite_rollup u v = u\<lparr>ru_id := ru_id v, ru_created_at := ru_created_at v\<rparr>"

definition insert_rollup :: "rollup_row \<Rightarrow> rollup_db \<Rightarrow> rollup_db stmt" where
  "insert_rollup u d =
     (if \<not> rollup_checks u then Inl CheckViolation
      else if rollup_key u \<notin> set (map rollup_key (rollups d)) \<and> ru_id u \<in> set (map ru_id (rollups d))
      then Inl UniqueViolation
      else if \<not> (\<exists>p \<in> set (partitions d). pt_id p = ru_partition u \<and> bucket_key p = (ru_host u, ru_resolution u, ru_start u))
      then Inl ForeignKeyViolation
      else if rollup_key u \<in> set (map rollup_key (rollups d))
      then Inr (d\<lparr>rollups := update_rows (\<lambda>v. rollup_key v = rollup_key u) (overwrite_rollup u) (rollups d)\<rparr>)
      else Inr (d\<lparr>rollups := rollups d @ [u]\<rparr>))"

subsection \<open>Maintenance and compaction runs\<close>

definition maintenance_checks :: "maintenance_row \<Rightarrow> bool" where
  "maintenance_checks m =
     (mm_state m \<in> {''idle'', ''running'', ''succeeded'', ''failed''}
      \<and> 1 \<le> mm_raw_observed_days m \<and> mm_raw_observed_days m \<le> mm_raw_non_observed_days m
      \<and> mm_raw_non_observed_days m \<le> mm_hour_days m \<and> mm_hour_days m \<le> mm_day_days m
      \<and> 0 \<le> sc_bytes (mm_storage m))"

definition update_maintenance :: "(maintenance_row \<Rightarrow> maintenance_row) \<Rightarrow> rollup_db \<Rightarrow> rollup_db stmt" where
  "update_maintenance f d =
     (if maintenance_checks (f (maintenance d)) then Inr (d\<lparr>maintenance := f (maintenance d)\<rparr>)
      else Inl CheckViolation)"

definition compaction_checks :: "compaction_row \<Rightarrow> bool" where
  "compaction_checks c =
     (cmp_state c = ''running'' \<and> cmp_finished_at c = None \<and> cmp_error_code c = None
      \<or> cmp_state c = ''succeeded'' \<and> cmp_finished_at c \<noteq> None \<and> cmp_error_code c = None
      \<or> cmp_state c \<in> {''failed'', ''interrupted''} \<and> cmp_finished_at c \<noteq> None \<and> cmp_error_code c \<noteq> None)"

definition is_running :: "compaction_row \<Rightarrow> bool" where
  "is_running c = (cmp_state c = ''running'')"

definition insert_compaction :: "compaction_row \<Rightarrow> rollup_db \<Rightarrow> rollup_db stmt" where
  "insert_compaction c d =
     (if \<not> compaction_checks c then Inl CheckViolation
      else if cmp_id c \<in> set (map cmp_id (compactions d)) \<or> (is_running c \<and> (\<exists>x \<in> set (compactions d). is_running x))
      then Inl UniqueViolation
      else Inr (d\<lparr>compactions := compactions d @ [c]\<rparr>))"

text \<open>An \<open>UPDATE\<close> that ends runs, with the number of rows it changed.\<close>

definition update_compactions ::
  "(compaction_row \<Rightarrow> bool) \<Rightarrow> (compaction_row \<Rightarrow> compaction_row) \<Rightarrow> rollup_db \<Rightarrow> (nat \<times> rollup_db) stmt"
where
  "update_compactions P f d =
     (if \<exists>c \<in> set (compactions d). P c \<and> \<not> compaction_checks (f c) then Inl CheckViolation
      else Inr (rows_affected P (compactions d), d\<lparr>compactions := update_rows P f (compactions d)\<rparr>))"


subsection \<open>Tables for the witnesses\<close>

definition sample_archive :: "run_row list \<Rightarrow> sample_row list \<Rightarrow> partition_row list \<Rightarrow> rollup_row list \<Rightarrow> rollup_db" where
  "sample_archive rs ss ps us = db.extend (sample_hosts\<lparr>runs := rs, samples := ss\<rparr>)
     (rollup_db.fields ps us (first_maintenance 0) [])"

lemma sample_archive_simps [simp]:
  "samples (sample_archive rs ss ps us) = ss" "runs (sample_archive rs ss ps us) = rs"
  "partitions (sample_archive rs ss ps us) = ps" "rollups (sample_archive rs ss ps us) = us"
  "hosts (sample_archive rs ss ps us) = [''h'']"
  by (simp_all add: sample_archive_def sample_hosts_def empty_db_def db.defs rollup_db.defs)

lemma sample_archive_updates [simp]:
  "sample_archive rs ss ps us\<lparr>samples := ss'\<rparr> = sample_archive rs ss' ps us"
  "sample_archive rs ss ps us\<lparr>partitions := ps'\<rparr> = sample_archive rs ss ps' us"
  "sample_archive rs ss ps us\<lparr>rollups := us'\<rparr> = sample_archive rs ss ps us'"
  by (simp_all add: sample_archive_def db.defs rollup_db.defs)

text \<open>A sample of a gauge, stored a second after it was observed.\<close>

definition sample_gauge :: "string \<Rightarrow> millis \<Rightarrow> sample_row" where
  "sample_gauge i t = \<lparr>smp_id = i, smp_run = ''r'', smp_host = ''h'', smp_family = ''load'', smp_subject_kind = ''host'',
     smp_subject_id = ''h'', smp_metric = ''load1'', smp_dims_json = ''{}'', smp_dims_sha = replicate 64 CHR ''0'',
     smp_kind = ''gauge'', smp_value = Some (Fin 1), smp_value_integer = None, smp_unit = ''load'', smp_window = None,
     smp_quality = ''observed'', smp_observed_at = t, smp_observed_ms = t, smp_source = ''ssh_host_resource_v1'',
     smp_created_at = t + 1000\<rparr>"

lemma sample_gauge_checks: "0 \<le> t \<Longrightarrow> sample_checks (sample_gauge i t)"
  by (simp add: sample_checks_def sample_gauge_def sample_families_def sample_subjects_def sample_qualities_def
      text_between_def char_length_def)

lemma sample_gauge_eq [simp]: "sample_gauge i t = sample_gauge j u \<longleftrightarrow> i = j \<and> t = u"
  by (auto simp: sample_gauge_def)

end
