(* ===== verification/RollupCompaction.thy ===== *)
theory RollupCompaction
  imports RollupStore
begin

text \<open>
  The compaction of \<open>backend/src/monitoring_rollup.rs\<close>: closed buckets whose samples changed since they were
  compacted are loaded, each in a transaction of its own is aggregated per series and written. An error
  before the commit leaves the tables as they were. The inputs of a candidate are the clock, fresh
  identifiers, the shutdown flag and what other tasks commit before its transaction.
\<close>

definition from_storage :: "'a stmt \<Rightarrow> rollup_error + 'a" where
  "from_storage r = map_error RollupStorage r"

fun collect_results :: "('e + 'a) list \<Rightarrow> 'e + 'a list" where
  "collect_results [] = Inr []"
| "collect_results (r # rs) = and_then r (\<lambda>x. and_then (collect_results rs) (\<lambda>xs. Inr (x # xs)))"

subsection \<open>Candidates\<close>

record partition_candidate =
  ca_host :: string
  ca_start :: int
  ca_count :: nat

record bucket_range =
  br_start :: int
  br_end :: int

definition bucket_bounds :: "rollup_env \<Rightarrow> int \<Rightarrow> resolution \<Rightarrow> rollup_error + bucket_range" where
  "bucket_bounds e start r =
     (case checked_add_i64 start (bucket_milliseconds r) of
        None \<Rightarrow> Inl Overflow
      | Some end_ms \<Rightarrow>
          if representable e start \<and> representable e end_ms then Inr \<lparr>br_start = start, br_end = end_ms\<rparr>
          else Inl InvalidData)"

definition bucket_samples :: "('a db_scheme) \<Rightarrow> string \<Rightarrow> int \<Rightarrow> int \<Rightarrow> sample_row list" where
  "bucket_samples d host lo hi =
     filter (\<lambda>s. smp_host s = host \<and> lo \<le> smp_observed_ms s \<and> smp_observed_ms s < hi) (samples d)"

text \<open>The condition on a complete partition that its samples are no longer those it was computed from.\<close>

definition outdated :: "('a rollup_db_scheme) \<Rightarrow> partition_row \<Rightarrow> bool" where
  "outdated d p =
     (let current = bucket_samples d (pt_host p) (pt_start p) (pt_start p + bucket_milliseconds (pt_resolution p))
      in pt_state p = ''complete''
         \<and> (pt_input_count p \<noteq> length current \<or> (\<exists>s \<in> set current. pt_compacted_at p < smp_created_at s)))"

definition needs_compaction :: "('a rollup_db_scheme) \<Rightarrow> resolution \<Rightarrow> sample_row \<Rightarrow> bool" where
  "needs_compaction d r s =
     (case find_partition d (smp_host s) r (bucket_of r (smp_observed_ms s)) of
        None \<Rightarrow> True
      | Some p \<Rightarrow> outdated d p)"

definition load_partition_candidates ::
  "('a rollup_db_scheme) \<Rightarrow> resolution \<Rightarrow> int \<Rightarrow> nat \<Rightarrow> rollup_error + partition_candidate list"
where
  "load_partition_candidates d r cutoff limit =
     (let rows = filter (\<lambda>s. smp_observed_ms s < cutoff \<and> needs_compaction d r s) (samples d);
          group = (\<lambda>s. (bucket_of r (smp_observed_ms s), smp_host s))
      in collect_results (map (\<lambda>(start, host).
           let n = length (filter (\<lambda>s. group s = (start, host)) rows)
           in if u32_max < n then Inl Overflow
              else Inr \<lparr>ca_host = host, ca_start = start, ca_count = n\<rparr>)
         (take limit (sort (remdups (map group rows))))))"

subsection \<open>The samples of a partition\<close>

definition run_of :: "('a db_scheme) \<Rightarrow> string \<Rightarrow> run_row option" where
  "run_of d i = find (\<lambda>r. run_id r = i) (runs d)"

definition key_of_row :: "sample_row \<Rightarrow> series_key" where
  "key_of_row s = \<lparr>sk_family = smp_family s, sk_subject_kind = smp_subject_kind s, sk_subject_id = smp_subject_id s,
     sk_metric = smp_metric s, sk_dims_sha = smp_dims_sha s, sk_kind = smp_kind s, sk_source = smp_source s,
     sk_unit = smp_unit s\<rparr>"

definition raw_of_row :: "sample_row \<Rightarrow> run_row \<Rightarrow> raw_sample" where
  "raw_of_row s r = \<lparr>rw_id = smp_id s, rw_run = smp_run s, rw_key = key_of_row s, rw_dims_json = smp_dims_json s,
     rw_real = smp_value s, rw_integer = smp_value_integer s, rw_quality = smp_quality s,
     rw_observed_at = smp_observed_at s, rw_epoch = smp_observed_ms s, rw_boot = run_boot_id r\<rparr>"

definition raw_sample_from_row :: "sample_row \<times> run_row \<Rightarrow> rollup_error + raw_sample" where
  "raw_sample_from_row = (\<lambda>(s, r).
     if pred_option (\<lambda>v. \<not> f_is_finite v) (smp_value s) \<and> smp_value s \<noteq> None then Inl InvalidData
     else Inr (raw_of_row s r))"

text \<open>The join of samples with their runs, whose identifier is the primary key.\<close>

definition with_runs :: "('a db_scheme) \<Rightarrow> sample_row list \<Rightarrow> (sample_row \<times> run_row) list" where
  "with_runs d ss = List.map_filter (\<lambda>s. map_option (Pair s) (run_of d (smp_run s))) ss"

definition load_raw_partition ::
  "('a db_scheme) \<Rightarrow> string \<Rightarrow> bucket_range \<Rightarrow> rollup_error + raw_sample list"
where
  "load_raw_partition d host b =
     collect_results (map raw_sample_from_row
       (sort_key (\<lambda>(s, _). (smp_observed_ms s, smp_id s))
         (with_runs d (bucket_samples d host (br_start b) (br_end b)))))"

subsection \<open>The boundary of a counter\<close>

record boundary_row =
  bo_sample :: string
  bo_value :: int
  bo_boot :: "string option"
  bo_epoch :: int
  bo_rank :: nat

definition raw_boundaries :: "('a rollup_db_scheme) \<Rightarrow> string \<Rightarrow> series_key \<Rightarrow> int \<Rightarrow> boundary_row list" where
  "raw_boundaries d host key before =
     List.map_filter (\<lambda>(s, r). map_option (\<lambda>v. \<lparr>bo_sample = smp_id s, bo_value = v, bo_boot = run_boot_id r,
         bo_epoch = smp_observed_ms s, bo_rank = 0\<rparr>) (smp_value_integer s))
       (with_runs d (filter (\<lambda>s. smp_host s = host \<and> key_of_row s = key \<and> smp_observed_ms s < before
          \<and> smp_quality s = ''observed'') (samples d)))"

definition rollup_boundaries :: "('a rollup_db_scheme) \<Rightarrow> string \<Rightarrow> series_key \<Rightarrow> int \<Rightarrow> boundary_row list" where
  "rollup_boundaries d host key before =
     concat (map (\<lambda>u. case (sr_counter_last (ru_series u), run_of d (sr_last_run (ru_series u))) of
         (Some v, Some r) \<Rightarrow> [\<lparr>bo_sample = sr_last_sample (ru_series u), bo_value = v, bo_boot = run_boot_id r,
           bo_epoch = sr_last_sample_ms (ru_series u), bo_rank = 1\<rparr>]
       | _ \<Rightarrow> [])
       (filter (\<lambda>u. ru_host u = host \<and> sr_key (ru_series u) = key \<and> sr_last_sample_ms (ru_series u) < before)
         (rollups d)))"

text \<open>\<open>ORDER BY observed_at_epoch_ms DESC, sample_id DESC, source_rank LIMIT 1\<close>.\<close>

definition load_counter_boundary ::
  "('a rollup_db_scheme) \<Rightarrow> string \<Rightarrow> series_key \<Rightarrow> int \<Rightarrow> counter_boundary option"
where
  "load_counter_boundary d host key before =
     (let rows = raw_boundaries d host key before @ rollup_boundaries d host key before
      in if rows = [] then None
         else let b = last (sort_key (\<lambda>b. (bo_epoch b, bo_sample b, - int (bo_rank b))) rows)
              in Some \<lparr>cb_sample = bo_sample b, cb_value = bo_value b, cb_boot = bo_boot b\<rparr>)"

subsection \<open>One partition\<close>

record compaction_input =
  ci_shutdown :: bool
  ci_others :: "rollup_db \<Rightarrow> rollup_db"
  ci_now :: millis
  ci_partition_id :: string
  ci_rollup_ids :: "series_key \<Rightarrow> string"

definition group_by_series :: "raw_sample list \<Rightarrow> (series_key \<times> raw_sample list) list" where
  "group_by_series ss =
     map (\<lambda>k. (k, filter (\<lambda>s. rw_key s = k) ss)) (sort_key series_fields (remdups (map rw_key ss)))"

definition rollup_row_of ::
  "string \<Rightarrow> string \<Rightarrow> string \<Rightarrow> resolution \<Rightarrow> bucket_range \<Rightarrow> millis \<Rightarrow> series_rollup \<Rightarrow> rollup_row"
where
  "rollup_row_of i partition_id host r b now s =
     \<lparr>ru_id = i, ru_partition = partition_id, ru_host = host, ru_resolution = r, ru_start = br_start b,
      ru_end = br_end b, ru_series = s, ru_non_observed = sr_sample_count s - sr_observed_count s,
      ru_input_count = sr_sample_count s, ru_created_at = now, ru_updated_at = now\<rparr>"

definition upsert_rollup ::
  "string \<Rightarrow> string \<Rightarrow> string \<Rightarrow> resolution \<Rightarrow> bucket_range \<Rightarrow> millis \<Rightarrow> series_rollup \<Rightarrow> rollup_db
     \<Rightarrow> rollup_error + rollup_db"
where
  "upsert_rollup i partition_id host r b now s d =
     from_storage (insert_rollup (rollup_row_of i partition_id host r b now s) d)"

definition boundary_for :: "('a rollup_db_scheme) \<Rightarrow> string \<Rightarrow> series_key \<Rightarrow> int \<Rightarrow> counter_boundary option" where
  "boundary_for d host key start =
     (if sk_kind key = ''counter'' then load_counter_boundary d host key start else None)"

fun write_series ::
  "rollup_env \<Rightarrow> string \<Rightarrow> string \<Rightarrow> resolution \<Rightarrow> bucket_range \<Rightarrow> compaction_input
     \<Rightarrow> (series_key \<times> raw_sample list) list \<Rightarrow> rollup_db \<Rightarrow> rollup_error + rollup_db"
where
  "write_series e partition_id host r b i [] d = Inr d"
| "write_series e partition_id host r b i ((key, ss) # groups) d =
     and_then (aggregate_series e key ss (boundary_for d host key (br_start b))) (\<lambda>s.
     and_then (upsert_rollup (ci_rollup_ids i key) partition_id host r b (ci_now i) s d) (\<lambda>d1.
       write_series e partition_id host r b i groups d1))"

definition compact_partition ::
  "rollup_env \<Rightarrow> resolution \<Rightarrow> partition_candidate \<Rightarrow> compaction_input \<Rightarrow> rollup_db
     \<Rightarrow> rollup_error + (bool \<times> rollup_db)"
where
  "compact_partition e r c i d =
     and_then (bucket_bounds e (ca_start c) r) (\<lambda>b.
     let existing = find_partition d (ca_host c) r (br_start b) in
     if pred_option (\<lambda>p. pt_state p = ''sealed'') existing \<and> existing \<noteq> None then Inl InvalidData
     else and_then (load_raw_partition d (ca_host c) b) (\<lambda>ss.
       if ss = [] \<or> length ss \<noteq> ca_count c then Inr (False, d)
       else
       let digest = partition_input_digest e ss in
       if existing \<noteq> None \<and> pred_option (\<lambda>p. pt_input_count p = ca_count c \<and> pt_input_digest p = digest) existing
       then Inr (False, d)
       else
       let groups = group_by_series ss;
           partition_id = (case existing of Some p \<Rightarrow> pt_id p | None \<Rightarrow> ci_partition_id i)
       in if u32_max < length groups then Inl Overflow
          else
          and_then (from_storage (upsert_partition
            \<lparr>pt_id = partition_id, pt_host = ca_host c, pt_resolution = r, pt_start = br_start b, pt_end = br_end b,
             pt_input_count = ca_count c, pt_input_digest = digest, pt_series_count = length groups,
             pt_state = ''complete'', pt_compacted_at = ci_now i, pt_sealed_at = None, pt_pruned_at = None\<rparr> d)) (\<lambda>d1.
          and_then (write_series e partition_id (ca_host c) r b i groups d1) (\<lambda>d2. Inr (True, d2)))))"

subsection \<open>One resolution\<close>

fun compact_loop ::
  "rollup_env \<Rightarrow> resolution \<Rightarrow> (partition_candidate \<Rightarrow> compaction_input) \<Rightarrow> partition_candidate list \<Rightarrow> nat
     \<Rightarrow> rollup_db \<Rightarrow> rollup_db \<times> (rollup_error + nat)"
where
  "compact_loop e r ins [] n d = (d, Inr n)"
| "compact_loop e r ins (c # cs) n d =
     (if ci_shutdown (ins c) then (d, Inr n)
      else let d0 = ci_others (ins c) d in
      case compact_partition e r c (ins c) d0 of
        Inl x \<Rightarrow> (d0, Inl x)
      | Inr (done, d1) \<Rightarrow> compact_loop e r ins cs (if done then sat_add32 n 1 else n) d1)"

definition compact_resolution ::
  "rollup_env \<Rightarrow> resolution \<Rightarrow> int \<Rightarrow> nat \<Rightarrow> (partition_candidate \<Rightarrow> compaction_input) \<Rightarrow> rollup_db
     \<Rightarrow> rollup_db \<times> (rollup_error + nat)"
where
  "compact_resolution e r evaluated_at limit ins d =
     (case bucket_start_epoch_ms evaluated_at r of
        None \<Rightarrow> (d, Inl InvalidData)
      | Some cutoff \<Rightarrow>
          (case load_partition_candidates d r cutoff limit of
             Inl x \<Rightarrow> (d, Inl x)
           | Inr cs \<Rightarrow> compact_loop e r ins cs 0 d))"

definition has_pending_closed_partitions :: "('a rollup_db_scheme) \<Rightarrow> int \<Rightarrow> rollup_error + bool" where
  "has_pending_closed_partitions d evaluated_at =
     (let pending = (\<lambda>r. case bucket_start_epoch_ms evaluated_at r of
            None \<Rightarrow> Inl InvalidData
          | Some cutoff \<Rightarrow> and_then (load_partition_candidates d r cutoff 1) (\<lambda>cs. Inr (cs \<noteq> [])))
      in and_then (pending Hour) (\<lambda>h. if h then Inr True else pending Day))"

end
