(* ===== verification/HistoryQueries.thy ===== *)
theory HistoryQueries
  imports RollupCompaction HistorySamples "HOL-Library.Option_ord"
begin

text \<open>
  The history queries of \<open>backend/src/monitoring_history.rs\<close>: the query parameters and their validation, the
  choice of a resolution, the page of raw samples or rollup rows with its cursor, the counts and times beside
  it, and the handler \<open>get_host_metrics\<close>. Instants are nanoseconds; the parsers of RFC 3339 times, UUIDs and
  JSON texts are arguments. The handler reads with several statements, each of which sees tables of its own.
\<close>

subsection \<open>Names\<close>

locale named_value =
  fixes nm :: "'a \<Rightarrow> string" and parse :: "string \<Rightarrow> 'e + 'a"
  assumes parse_nm: "parse (nm x) = Inr x"
    and nm_parse: "parse s = Inr x \<Longrightarrow> nm x = s"
begin

lemma parse_iff: "parse s = Inr x \<longleftrightarrow> s = nm x"
  using parse_nm nm_parse by blast

lemma parse_range: "s \<in> range nm \<Longrightarrow> \<exists>x. parse s = Inr x"
  using parse_nm by blast

end

datatype history_family =
    HfCpu | HfMemory | HfLoad | HfDiskCapacity | HfDiskIo | HfNetwork | HfUptime | HfProcess

datatype history_sample_kind = HkGauge | HkCounter | HkDerived

datatype history_subject_kind =
    HsHost | HsCpu | HsFilesystem | HsBlockDevice | HsInterface | HsProcess

datatype history_source_kind = SshHostResourceV1

datatype requested_resolution = ReqAuto | ReqRaw | ReqHour | ReqDay

datatype history_resolution = ResRaw | ResHour | ResDay

datatype history_error = QBadRequest string | QNotFound string | QStorage | QInternal

fun history_error_response :: "history_error \<Rightarrow> nat \<times> string" where
  "history_error_response (QBadRequest code) = (400, code)"
| "history_error_response (QNotFound h) = (404, ''NOT_FOUND'')"
| "history_error_response QStorage = (503, ''STORAGE_UNAVAILABLE'')"
| "history_error_response QInternal = (500, ''INTERNAL_ERROR'')"

fun family_name :: "history_family \<Rightarrow> string" where
  "family_name HfCpu = ''cpu''"
| "family_name HfMemory = ''memory''"
| "family_name HfLoad = ''load''"
| "family_name HfDiskCapacity = ''disk_capacity''"
| "family_name HfDiskIo = ''disk_io''"
| "family_name HfNetwork = ''network''"
| "family_name HfUptime = ''uptime''"
| "family_name HfProcess = ''process''"

fun sample_kind_name :: "history_sample_kind \<Rightarrow> string" where
  "sample_kind_name HkGauge = ''gauge''"
| "sample_kind_name HkCounter = ''counter''"
| "sample_kind_name HkDerived = ''derived''"

fun subject_kind_name :: "history_subject_kind \<Rightarrow> string" where
  "subject_kind_name HsHost = ''host''"
| "subject_kind_name HsCpu = ''cpu''"
| "subject_kind_name HsFilesystem = ''filesystem''"
| "subject_kind_name HsBlockDevice = ''block_device''"
| "subject_kind_name HsInterface = ''interface''"
| "subject_kind_name HsProcess = ''process''"

definition parse_family :: "string \<Rightarrow> history_error + history_family" where
  "parse_family s =
     (if s = ''cpu'' then Inr HfCpu else if s = ''memory'' then Inr HfMemory
      else if s = ''load'' then Inr HfLoad else if s = ''disk_capacity'' then Inr HfDiskCapacity
      else if s = ''disk_io'' then Inr HfDiskIo else if s = ''network'' then Inr HfNetwork
      else if s = ''uptime'' then Inr HfUptime else if s = ''process'' then Inr HfProcess
      else Inl QInternal)"

definition parse_sample_kind :: "string \<Rightarrow> history_error + history_sample_kind" where
  "parse_sample_kind s =
     (if s = ''gauge'' then Inr HkGauge else if s = ''counter'' then Inr HkCounter
      else if s = ''derived'' then Inr HkDerived else Inl QInternal)"

definition parse_subject_kind :: "string \<Rightarrow> history_error + history_subject_kind" where
  "parse_subject_kind s =
     (if s = ''host'' then Inr HsHost else if s = ''cpu'' then Inr HsCpu
      else if s = ''filesystem'' then Inr HsFilesystem else if s = ''block_device'' then Inr HsBlockDevice
      else if s = ''interface'' then Inr HsInterface else if s = ''process'' then Inr HsProcess
      else Inl QInternal)"

definition parse_source_kind :: "string \<Rightarrow> history_error + history_source_kind" where
  "parse_source_kind s = (if s = HISTORY_SOURCE_KIND then Inr SshHostResourceV1 else Inl QInternal)"

definition parse_metric_quality :: "string \<Rightarrow> history_error + monitor_metric_quality" where
  "parse_metric_quality s =
     (if s = ''observed'' then Inr MObserved else if s = ''unsupported'' then Inr MUnsupported
      else if s = ''parse_failed'' then Inr MParseFailed else if s = ''counter_reset'' then Inr MCounterReset
      else if s = ''counter_unreliable'' then Inr MCounterUnreliable
      else if s = ''insufficient_interval'' then Inr MInsufficientInterval
      else if s = ''permission_denied'' then Inr MPermissionDenied
      else if s = ''timed_out'' then Inr MTimedOut else Inl QInternal)"

interpretation families: named_value family_name parse_family
proof
  show "parse_family (family_name x) = Inr x" for x by (cases x) (simp_all add: parse_family_def)
  show "family_name x = s" if "parse_family s = Inr x" for s x
    using that by (auto simp: parse_family_def split: if_splits)
qed

interpretation sample_kinds: named_value sample_kind_name parse_sample_kind
proof
  show "parse_sample_kind (sample_kind_name x) = Inr x" for x by (cases x) (simp_all add: parse_sample_kind_def)
  show "sample_kind_name x = s" if "parse_sample_kind s = Inr x" for s x
    using that by (auto simp: parse_sample_kind_def split: if_splits)
qed

interpretation subject_kinds: named_value subject_kind_name parse_subject_kind
proof
  show "parse_subject_kind (subject_kind_name x) = Inr x" for x by (cases x) (simp_all add: parse_subject_kind_def)
  show "subject_kind_name x = s" if "parse_subject_kind s = Inr x" for s x
    using that by (auto simp: parse_subject_kind_def split: if_splits)
qed

text \<open>What the constraints of \<open>metric_samples\<close> admit is what the queries can read.\<close>

lemma stored_names_parse:
  "f \<in> set sample_families \<Longrightarrow> \<exists>x. parse_family f = Inr x"
  "k \<in> set sample_subjects \<Longrightarrow> \<exists>x. parse_subject_kind k = Inr x"
  "m \<in> {''gauge'', ''counter'', ''derived''} \<Longrightarrow> \<exists>x. parse_sample_kind m = Inr x"
  "q \<in> set sample_qualities \<Longrightarrow> \<exists>x. parse_metric_quality q = Inr x"
  by (auto simp: sample_families_def sample_subjects_def sample_qualities_def parse_family_def
      parse_subject_kind_def parse_sample_kind_def parse_metric_quality_def)

subsection \<open>Contracts\<close>

record history_cursor =
  hcu_epoch_ms :: int
  hcu_sample_id :: string

record history_query =
  hq_from :: string
  hq_to :: string
  hq_resolution :: requested_resolution
  hq_family :: "history_family option"
  hq_subject_kind :: "history_subject_kind option"
  hq_subject_id :: "string option"
  hq_metric_name :: "string option"
  hq_sample_kind :: "history_sample_kind option"
  hq_after_epoch_ms :: "int option"
  hq_after_sample_id :: "string option"
  hq_limit :: "nat option"

record history_filters =
  hf_family :: "string option"
  hf_subject_kind :: string
  hf_subject_id :: "string option"
  hf_metric_name :: "string option"
  hf_sample_kind :: "string option"

text \<open>\<open>expected_count\<close> and \<open>missing_count\<close> of a rollup are always \<open>NULL\<close> and are left out.\<close>

record history_rollup =
  hru_resolution :: history_resolution
  hru_bucket_start :: int
  hru_bucket_end :: int
  hru_bucket_width_seconds :: nat
  hru_sample_count :: nat
  hru_observed_count :: nat
  hru_non_observed_count :: nat
  hru_reset_count :: nat
  hru_min :: "f64 option"
  hru_max :: "f64 option"
  hru_average :: "f64 option"
  hru_p95 :: "f64 option"
  hru_last :: "f64 option"
  hru_counter_delta_integer :: "string option"
  hru_quality_counts :: "(string \<times> nat) list"
  hru_input_digest :: string

record history_point =
  hp_sample_id :: string
  hp_run_id :: string
  hp_at :: millis
  hp_at_epoch_ms :: int
  hp_value :: "f64 option"
  hp_value_integer :: "string option"
  hp_quality :: monitor_metric_quality
  hp_window_seconds :: "f64 option"
  hp_rollup :: "history_rollup option"

record history_series =
  hse_family :: history_family
  hse_subject_kind :: history_subject_kind
  hse_subject_id :: string
  hse_metric_name :: string
  hse_dimensions :: json
  hse_sample_kind :: history_sample_kind
  hse_source_kind :: history_source_kind
  hse_unit :: string
  hse_points :: "history_point list"

record history_page =
  hpg_series :: "history_series list"
  hpg_has_more :: bool
  hpg_next_cursor :: "history_cursor option"

text \<open>The fields \<open>expected_count\<close>, \<open>gap_count\<close> and \<open>coverage\<close> are always null, \<open>provenance_complete\<close> false.\<close>

record history_coverage =
  hco_observed_count :: nat
  hco_provenance_complete :: bool

record history_data =
  hda_host :: string
  hda_from :: millis
  hda_to :: millis
  hda_requested_resolution :: requested_resolution
  hda_actual_resolution :: history_resolution
  hda_retention_tier :: string
  hda_history_started_at :: millis
  hda_latest_observation_at :: "millis option"
  hda_latest_valid_sample_at :: "millis option"
  hda_latest_valid_until :: "millis option"
  hda_freshness :: monitor_freshness
  hda_coverage :: history_coverage
  hda_series :: "history_series list"
  hda_limit :: nat
  hda_has_more :: bool
  hda_next_cursor :: "history_cursor option"

record history_response =
  hr_data :: history_data
  hr_meta :: api_meta

record query_env =
  rfc3339 :: "string \<Rightarrow> instant option"
  uuid_text :: "string \<Rightarrow> string option"
  json_value :: "string \<Rightarrow> json option"

fun is_object :: "json \<Rightarrow> bool" where
  "is_object (JObj fs) = True"
| "is_object _ = False"

subsection \<open>Validation\<close>

definition MAX_SUBJECT_ID_CHARS :: nat where
  "MAX_SUBJECT_ID_CHARS = 512"

definition MAX_METRIC_NAME_CHARS :: nat where
  "MAX_METRIC_NAME_CHARS = 128"

definition MAX_CURSOR_SAMPLE_ID_CHARS :: nat where
  "MAX_CURSOR_SAMPLE_ID_CHARS = 128"

definition RAW_QUERY_MAX_SPAN_SECONDS :: int where
  "RAW_QUERY_MAX_SPAN_SECONDS = 7 * 24 * 60 * 60"

definition HOUR_QUERY_MAX_SPAN_SECONDS :: int where
  "HOUR_QUERY_MAX_SPAN_SECONDS = 366 * 24 * 60 * 60"

definition DAY_QUERY_MAX_SPAN_SECONDS :: int where
  "DAY_QUERY_MAX_SPAN_SECONDS = 3660 * 24 * 60 * 60"

definition DEFAULT_HISTORY_PAGE_LIMIT :: nat where
  "DEFAULT_HISTORY_PAGE_LIMIT = 1000"

definition MAX_HISTORY_PAGE_LIMIT :: nat where
  "MAX_HISTORY_PAGE_LIMIT = 5000"

text \<open>\<open>char::is_control\<close> on UTF-8 bytes: \<open>U+0000\<close> to \<open>U+001F\<close>, \<open>U+007F\<close>, and \<open>U+0080\<close> to \<open>U+009F\<close>.\<close>

fun has_control :: "string \<Rightarrow> bool" where
  "has_control [] = False"
| "has_control (c # cs) =
     (is_ascii_control c
      \<or> (of_char c :: nat) = 194 \<and> (case cs of [] \<Rightarrow> False | x # _ \<Rightarrow> 128 \<le> (of_char x :: nat) \<and> (of_char x :: nat) < 160)
      \<or> has_control cs)"

definition valid_bounded_text :: "string \<Rightarrow> nat \<Rightarrow> bool" where
  "valid_bounded_text v maximum = (text_between 1 maximum v \<and> trim v = v \<and> \<not> has_control v)"

definition valid_metric_name :: "string \<Rightarrow> bool" where
  "valid_metric_name v =
     (valid_bounded_text v MAX_METRIC_NAME_CHARS
      \<and> list_all (\<lambda>c. is_alnum_char c \<or> c \<in> {CHR ''.'', CHR ''_'', CHR '':'', CHR ''-''}) v)"

definition valid_cursor_sample_id :: "query_env \<Rightarrow> string \<Rightarrow> bool" where
  "valid_cursor_sample_id e v = (valid_bounded_text v MAX_CURSOR_SAMPLE_ID_CHARS \<and> uuid_text e v = Some v)"

definition effective_subject :: "string \<Rightarrow> history_query \<Rightarrow> history_error + string option" where
  "effective_subject host q =
     (case (hq_subject_kind q, hq_subject_id q) of
        (None, None) \<Rightarrow> Inr (Some host)
      | (Some HsHost, None) \<Rightarrow> Inr (Some host)
      | (Some HsHost, Some v) \<Rightarrow> if v \<noteq> host then Inl (QBadRequest ''INVALID_SUBJECT_FILTER'') else Inr (Some v)
      | (_, v) \<Rightarrow> Inr v)"

definition effective_cursor :: "query_env \<Rightarrow> history_query \<Rightarrow> history_error + history_cursor option" where
  "effective_cursor e q =
     (case (hq_after_epoch_ms q, hq_after_sample_id q) of
        (None, None) \<Rightarrow> Inr None
      | (Some t, Some i) \<Rightarrow>
          if 0 \<le> t \<and> valid_cursor_sample_id e i then Inr (Some \<lparr>hcu_epoch_ms = t, hcu_sample_id = i\<rparr>)
          else Inl (QBadRequest ''INVALID_CURSOR'')
      | _ \<Rightarrow> Inl (QBadRequest ''INVALID_CURSOR''))"

definition validate_query_options ::
  "query_env \<Rightarrow> string \<Rightarrow> history_query \<Rightarrow> history_error + (history_filters \<times> history_cursor option \<times> nat)"
where
  "validate_query_options e host q =
     (if hq_subject_id q \<noteq> None \<and> hq_subject_kind q = None then Inl (QBadRequest ''INVALID_SUBJECT_FILTER'')
      else if \<not> pred_option (\<lambda>v. valid_bounded_text v MAX_SUBJECT_ID_CHARS) (hq_subject_id q)
      then Inl (QBadRequest ''INVALID_SUBJECT_FILTER'')
      else if \<not> pred_option valid_metric_name (hq_metric_name q) then Inl (QBadRequest ''INVALID_METRIC_NAME'')
      else and_then (effective_subject host q) (\<lambda>subject_id.
           and_then (effective_cursor e q) (\<lambda>cursor.
           let limit = (case hq_limit q of None \<Rightarrow> DEFAULT_HISTORY_PAGE_LIMIT | Some n \<Rightarrow> n)
           in if \<not> (1 \<le> limit \<and> limit \<le> MAX_HISTORY_PAGE_LIMIT) then Inl (QBadRequest ''INVALID_LIMIT'')
              else Inr (\<lparr>hf_family = map_option family_name (hq_family q),
                         hf_subject_kind = (case hq_subject_kind q of None \<Rightarrow> ''host'' | Some k \<Rightarrow> subject_kind_name k),
                         hf_subject_id = subject_id, hf_metric_name = hq_metric_name q,
                         hf_sample_kind = map_option sample_kind_name (hq_sample_kind q)\<rparr>, cursor, limit))))"

definition parse_query_time :: "query_env \<Rightarrow> string \<Rightarrow> history_error + instant" where
  "parse_query_time e v =
     (case rfc3339 e v of None \<Rightarrow> Inl (QBadRequest ''INVALID_TIME_RANGE'') | Some t \<Rightarrow> Inr t)"

fun maximum_span_seconds :: "requested_resolution \<Rightarrow> int" where
  "maximum_span_seconds ReqRaw = RAW_QUERY_MAX_SPAN_SECONDS"
| "maximum_span_seconds ReqHour = HOUR_QUERY_MAX_SPAN_SECONDS"
| "maximum_span_seconds ReqAuto = DAY_QUERY_MAX_SPAN_SECONDS"
| "maximum_span_seconds ReqDay = DAY_QUERY_MAX_SPAN_SECONDS"

definition validate_range :: "instant \<Rightarrow> instant \<Rightarrow> instant \<Rightarrow> requested_resolution \<Rightarrow> history_error + unit" where
  "validate_range now from to r =
     (if to \<le> from then Inl (QBadRequest ''INVALID_TIME_RANGE'')
      else if seconds (maximum_span_seconds r) < to - from then Inl (QBadRequest ''TIME_RANGE_TOO_LARGE'')
      else if now + seconds 300 < to then Inl (QBadRequest ''INVALID_TIME_RANGE'')
      else Inr ())"

text \<open>The start of the day that is the given number of days back.\<close>

definition ns_per_day :: int where
  "ns_per_day = DAY_MILLISECONDS * ns_per_ms"

definition retention_horizon :: "instant \<Rightarrow> nat \<Rightarrow> instant" where
  "retention_horizon evaluated_at days = (evaluated_at - int days * ns_per_day) div ns_per_day * ns_per_day"

definition choose_resolution ::
  "requested_resolution \<Rightarrow> instant \<Rightarrow> instant \<Rightarrow> instant \<Rightarrow> rollup_settings \<Rightarrow> history_resolution"
where
  "choose_resolution requested from to evaluated_at s =
     (case requested of
        ReqRaw \<Rightarrow> ResRaw
      | ReqHour \<Rightarrow> ResHour
      | ReqDay \<Rightarrow> ResDay
      | ReqAuto \<Rightarrow>
          if to - from \<le> seconds RAW_QUERY_MAX_SPAN_SECONDS
             \<and> (\<not> rs_retention_enabled s \<or> retention_horizon evaluated_at (rs_raw_observed_days s) \<le> from)
          then ResRaw
          else if to - from \<le> seconds HOUR_QUERY_MAX_SPAN_SECONDS
             \<and> (\<not> rs_retention_enabled s \<or> retention_horizon evaluated_at (rs_hour_days s) \<le> from)
          then ResHour
          else ResDay)"

subsection \<open>Pages\<close>

text \<open>The condition \<open>? IS NULL OR column = ?\<close>.\<close>

definition passes :: "'a option \<Rightarrow> 'a \<Rightarrow> bool" where
  "passes f x = (case f of None \<Rightarrow> True | Some y \<Rightarrow> x = y)"

definition key_passes :: "history_filters \<Rightarrow> series_key \<Rightarrow> bool" where
  "key_passes f k =
     (passes (hf_family f) (sk_family k) \<and> sk_subject_kind k = hf_subject_kind f
      \<and> passes (hf_subject_id f) (sk_subject_id k) \<and> passes (hf_metric_name f) (sk_metric k)
      \<and> passes (hf_sample_kind f) (sk_kind k))"

definition after_cursor :: "history_cursor option \<Rightarrow> int \<times> string \<Rightarrow> bool" where
  "after_cursor c p =
     (case c of
        None \<Rightarrow> True
      | Some x \<Rightarrow> hcu_epoch_ms x < fst p \<or> fst p = hcu_epoch_ms x \<and> hcu_sample_id x < snd p)"

text \<open>
  What both queries do with the rows they fetch, which are one more than the page may hold: the rows of the
  page, whether there are more, and the cursor to continue from.
\<close>

definition cut_page :: "('r \<Rightarrow> int \<times> string) \<Rightarrow> nat \<Rightarrow> 'r list \<Rightarrow> 'r list \<times> bool \<times> history_cursor option" where
  "cut_page pos limit rows =
     (let has_more = limit < length rows; page = take limit rows
      in (page, has_more,
          if has_more
          then (case rev page of [] \<Rightarrow> None
                | r # _ \<Rightarrow> Some \<lparr>hcu_epoch_ms = fst (pos r), hcu_sample_id = snd (pos r)\<rparr>)
          else None))"

definition group_points :: "(series_key \<times> json \<times> history_point) list \<Rightarrow> (series_key \<times> json \<times> history_point list) list" where
  "group_points ps =
     map (\<lambda>k. let g = filter (\<lambda>p. fst p = k) ps in (k, fst (snd (hd g)), map (\<lambda>p. snd (snd p)) g))
       (sort_key series_fields (remdups (map fst ps)))"

definition series_of :: "series_key \<times> json \<times> history_point list \<Rightarrow> history_error + history_series" where
  "series_of g =
     (let k = fst g in
      and_then (parse_family (sk_family k)) (\<lambda>family.
      and_then (parse_subject_kind (sk_subject_kind k)) (\<lambda>subject.
      and_then (parse_sample_kind (sk_kind k)) (\<lambda>kind.
      and_then (parse_source_kind (sk_source k)) (\<lambda>source.
      Inr \<lparr>hse_family = family, hse_subject_kind = subject, hse_subject_id = sk_subject_id k,
           hse_metric_name = sk_metric k, hse_dimensions = fst (snd g), hse_sample_kind = kind,
           hse_source_kind = source, hse_unit = sk_unit k, hse_points = snd (snd g)\<rparr>)))))"

definition page_of ::
  "('r \<Rightarrow> int \<times> string) \<Rightarrow> ('r \<Rightarrow> history_error + series_key \<times> json \<times> history_point) \<Rightarrow> nat \<Rightarrow> 'r list
   \<Rightarrow> history_error + history_page"
where
  "page_of pos point limit rows =
     (case cut_page pos limit rows of (page, has_more, cursor) \<Rightarrow>
        and_then (collect_results (map point page)) (\<lambda>ps.
        and_then (collect_results (map series_of (group_points ps))) (\<lambda>series.
        Inr \<lparr>hpg_series = series, hpg_has_more = has_more, hpg_next_cursor = cursor\<rparr>)))"

subsection \<open>Raw samples\<close>

definition json_or_internal :: "query_env \<Rightarrow> string \<Rightarrow> history_error + json" where
  "json_or_internal e v = ok_or QInternal (json_value e v)"

definition sample_position :: "sample_row \<Rightarrow> int \<times> string" where
  "sample_position s = (smp_observed_ms s, smp_id s)"

definition sample_in_range :: "string \<Rightarrow> instant \<Rightarrow> instant \<Rightarrow> sample_row \<Rightarrow> bool" where
  "sample_in_range host from to s =
     (smp_host s = host \<and> timestamp_ms from \<le> smp_observed_ms s \<and> smp_observed_ms s < timestamp_ms to)"

definition matching_samples ::
  "string \<Rightarrow> instant \<Rightarrow> instant \<Rightarrow> history_filters \<Rightarrow> ('a db_scheme) \<Rightarrow> sample_row list"
where
  "matching_samples host from to f d =
     sort_key sample_position (filter (\<lambda>s. sample_in_range host from to s \<and> key_passes f (key_of_row s)) (samples d))"

definition sample_point :: "query_env \<Rightarrow> sample_row \<Rightarrow> history_error + series_key \<times> json \<times> history_point" where
  "sample_point e s =
     and_then (json_or_internal e (smp_dims_json s)) (\<lambda>dimensions.
     and_then (parse_metric_quality (smp_quality s)) (\<lambda>quality.
     Inr (key_of_row s, dimensions,
       \<lparr>hp_sample_id = smp_id s, hp_run_id = smp_run s, hp_at = smp_observed_at s, hp_at_epoch_ms = smp_observed_ms s,
        hp_value = (case smp_value s of Some v \<Rightarrow> Some v | None \<Rightarrow> map_option f_of_int (smp_value_integer s)),
        hp_value_integer = map_option show_int (smp_value_integer s), hp_quality = quality,
        hp_window_seconds = smp_window s, hp_rollup = None\<rparr>)))"

definition query_metric_series ::
  "query_env \<Rightarrow> string \<Rightarrow> instant \<Rightarrow> instant \<Rightarrow> history_filters \<Rightarrow> history_cursor option \<Rightarrow> nat \<Rightarrow> ('a db_scheme)
   \<Rightarrow> history_error + history_page"
where
  "query_metric_series e host from to f cursor limit d =
     page_of sample_position (sample_point e) limit
       (take (limit + 1) (filter (\<lambda>s. after_cursor cursor (sample_position s)) (matching_samples host from to f d)))"

subsection \<open>Rollup rows\<close>

fun contract_resolution :: "resolution \<Rightarrow> history_resolution" where
  "contract_resolution Hour = ResHour"
| "contract_resolution Day = ResDay"

definition rollup_position :: "rollup_row \<Rightarrow> int \<times> string" where
  "rollup_position u = (ru_start u, ru_id u)"

definition rollup_in_range :: "string \<Rightarrow> resolution \<Rightarrow> instant \<Rightarrow> instant \<Rightarrow> rollup_row \<Rightarrow> bool" where
  "rollup_in_range host r from to u =
     (ru_host u = host \<and> ru_resolution u = r \<and> timestamp_ms from < ru_end u \<and> ru_start u < timestamp_ms to)"

definition matching_rollups ::
  "string \<Rightarrow> resolution \<Rightarrow> instant \<Rightarrow> instant \<Rightarrow> history_filters \<Rightarrow> ('a rollup_db_scheme) \<Rightarrow> rollup_row list"
where
  "matching_rollups host r from to f d =
     sort_key rollup_position
       (filter (\<lambda>u. rollup_in_range host r from to u \<and> key_passes f (sr_key (ru_series u))) (rollups d))"

definition rollup_point ::
  "query_env \<Rightarrow> resolution \<Rightarrow> rollup_row \<Rightarrow> history_error + series_key \<times> json \<times> history_point"
where
  "rollup_point e r u =
     (let s = ru_series u; key = sr_key s in
      and_then (json_or_internal e (sr_dims_json s)) (\<lambda>dimensions.
      if \<not> is_object dimensions then Inl QInternal
      else and_then (parse_metric_quality (sr_quality s)) (\<lambda>quality.
      Inr (key, dimensions,
        \<lparr>hp_sample_id = ru_id u, hp_run_id = sr_last_run s, hp_at = ru_start u, hp_at_epoch_ms = ru_start u,
         hp_value = (if sk_kind key = ''counter'' then map_option f_of_int (sr_counter_delta s) else sr_average s),
         hp_value_integer = map_option show_int (sr_counter_delta s), hp_quality = quality,
         hp_window_seconds = Some (f_of_nat (bucket_seconds r)),
         hp_rollup = Some
           \<lparr>hru_resolution = contract_resolution r, hru_bucket_start = ru_start u, hru_bucket_end = ru_end u,
            hru_bucket_width_seconds = bucket_seconds r,
            hru_sample_count = non_negative_u32 (int (sr_sample_count s)),
            hru_observed_count = non_negative_u32 (int (sr_observed_count s)),
            hru_non_observed_count = non_negative_u32 (int (ru_non_observed u)),
            hru_reset_count = non_negative_u32 (int (sr_reset_count s)),
            hru_min = sr_min s, hru_max = sr_max s, hru_average = sr_average s, hru_p95 = sr_p95 s,
            hru_last = sr_last s, hru_counter_delta_integer = map_option show_int (sr_counter_delta s),
            hru_quality_counts = sr_quality_counts s, hru_input_digest = sr_input_digest s\<rparr>\<rparr>))))"

definition query_rollup_series ::
  "query_env \<Rightarrow> string \<Rightarrow> instant \<Rightarrow> instant \<Rightarrow> history_filters \<Rightarrow> history_cursor option \<Rightarrow> nat \<Rightarrow> resolution
   \<Rightarrow> ('a rollup_db_scheme) \<Rightarrow> history_error + history_page"
where
  "query_rollup_series e host from to f cursor limit r d =
     page_of rollup_position (rollup_point e r) limit
       (take (limit + 1) (filter (\<lambda>u. after_cursor cursor (rollup_position u)) (matching_rollups host r from to f d)))"

subsection \<open>Coverage, latest observation and freshness\<close>

definition is_availability :: "string option \<Rightarrow> series_key \<Rightarrow> bool" where
  "is_availability family k =
     (sk_subject_kind k = ''host'' \<and> sk_metric k = ''availability'' \<and> passes family (sk_family k))"

fun rollup_resolution_name :: "history_resolution \<Rightarrow> history_error + resolution" where
  "rollup_resolution_name ResHour = Inr Hour"
| "rollup_resolution_name ResDay = Inr Day"
| "rollup_resolution_name ResRaw = Inl QInternal"

definition coverage_of :: "int \<Rightarrow> history_coverage" where
  "coverage_of n = \<lparr>hco_observed_count = non_negative_u32 n, hco_provenance_complete = False\<rparr>"

text \<open>The greatest observed count per bucket, added up over the buckets.\<close>

definition query_rollup_coverage ::
  "string \<Rightarrow> instant \<Rightarrow> instant \<Rightarrow> string option \<Rightarrow> history_resolution \<Rightarrow> ('a rollup_db_scheme)
   \<Rightarrow> history_error + history_coverage"
where
  "query_rollup_coverage host from to family res d =
     and_then (rollup_resolution_name res) (\<lambda>r.
     let rows = filter (\<lambda>u. rollup_in_range host r from to u \<and> is_availability family (sr_key (ru_series u))) (rollups d)
     in Inr (coverage_of (sum_list (map (\<lambda>b.
          int (Max (set (map (\<lambda>u. sr_observed_count (ru_series u)) (filter (\<lambda>u. ru_start u = b) rows)))))
          (remdups (map ru_start rows))))))"

definition query_coverage ::
  "string \<Rightarrow> instant \<Rightarrow> instant \<Rightarrow> string option \<Rightarrow> history_resolution \<Rightarrow> ('a rollup_db_scheme)
   \<Rightarrow> history_error + history_coverage"
where
  "query_coverage host from to family res d =
     (if res \<noteq> ResRaw then query_rollup_coverage host from to family res d
      else Inr (coverage_of (int (length (remdups (map smp_run (filter (\<lambda>s. sample_in_range host from to s
             \<and> is_availability family (key_of_row s) \<and> smp_quality s = ''observed'') (samples d))))))))"

text \<open>\<open>ORDER BY \<dots> DESC LIMIT 1\<close>.\<close>

definition latest_by :: "('r \<Rightarrow> 'k::linorder) \<Rightarrow> 'r list \<Rightarrow> 'r option" where
  "latest_by k rows = (case rev (sort_key k rows) of [] \<Rightarrow> None | r # _ \<Rightarrow> Some r)"

definition query_rollup_latest_observation ::
  "string \<Rightarrow> instant \<Rightarrow> instant \<Rightarrow> history_filters \<Rightarrow> history_resolution \<Rightarrow> ('a rollup_db_scheme)
   \<Rightarrow> history_error + millis option"
where
  "query_rollup_latest_observation host from to f res d =
     and_then (rollup_resolution_name res) (\<lambda>r.
     Inr (map_option (\<lambda>u. sr_last_sample_at (ru_series u))
       (latest_by (\<lambda>u. (sr_last_sample_ms (ru_series u), ru_id u)) (matching_rollups host r from to f d))))"

definition query_latest_observation ::
  "string \<Rightarrow> instant \<Rightarrow> instant \<Rightarrow> history_filters \<Rightarrow> history_resolution \<Rightarrow> ('a rollup_db_scheme)
   \<Rightarrow> history_error + millis option"
where
  "query_latest_observation host from to f res d =
     (if res \<noteq> ResRaw then query_rollup_latest_observation host from to f res d
      else Inr (map_option smp_observed_at (latest_by sample_position (matching_samples host from to f d))))"

definition valid_until :: "int \<Rightarrow> millis \<Rightarrow> millis" where
  "valid_until stale_after at_ms = at_ms + max stale_after 60 * 1000"

text \<open>The last sample with a value, the end of its validity, and whether that is past.\<close>

definition freshness_of :: "instant \<Rightarrow> (millis \<times> int) option \<Rightarrow> millis option \<times> millis option \<times> monitor_freshness" where
  "freshness_of evaluated_at row =
     (case row of
        None \<Rightarrow> (None, None, FreshnessUnknown)
      | Some (at_ms, stale_after) \<Rightarrow>
          (Some at_ms, Some (valid_until stale_after at_ms),
           if evaluated_at \<le> valid_until stale_after at_ms * ns_per_ms then MonFresh else MonStale))"

text \<open>The rows joined with their run; a row without a run drops out of the join.\<close>

definition with_run :: "('a db_scheme) \<Rightarrow> ('r \<Rightarrow> string option) \<Rightarrow> 'r list \<Rightarrow> ('r \<times> run_row) list" where
  "with_run d f rows = List.map_filter (\<lambda>x. map_option (Pair x) (Option.bind (f x) (run_of d))) rows"

definition query_rollup_freshness ::
  "string \<Rightarrow> instant \<Rightarrow> instant \<Rightarrow> instant \<Rightarrow> history_filters \<Rightarrow> history_resolution \<Rightarrow> ('a rollup_db_scheme)
   \<Rightarrow> history_error + millis option \<times> millis option \<times> monitor_freshness"
where
  "query_rollup_freshness host from to evaluated_at f res d =
     and_then (rollup_resolution_name res) (\<lambda>r.
     Inr (freshness_of evaluated_at (map_option (\<lambda>(u, run). (the (sr_last_valid_at (ru_series u)), run_stale_after run))
       (latest_by (\<lambda>(u, run). (sr_last_valid_ms (ru_series u), ru_id u))
          (with_run d (\<lambda>u. sr_last_valid_run (ru_series u))
             (filter (\<lambda>u. sr_last_valid_at (ru_series u) \<noteq> None) (matching_rollups host r from to f d)))))))"

definition query_freshness ::
  "string \<Rightarrow> instant \<Rightarrow> instant \<Rightarrow> instant \<Rightarrow> history_filters \<Rightarrow> history_resolution \<Rightarrow> ('a rollup_db_scheme)
   \<Rightarrow> history_error + millis option \<times> millis option \<times> monitor_freshness"
where
  "query_freshness host from to evaluated_at f res d =
     (if res \<noteq> ResRaw then query_rollup_freshness host from to evaluated_at f res d
      else Inr (freshness_of evaluated_at (map_option (\<lambda>(s, run). (smp_observed_at s, run_stale_after run))
        (latest_by (\<lambda>(s, run). sample_position s)
           (with_run d (\<lambda>s. Some (smp_run s))
              (filter (\<lambda>s. smp_quality s = ''observed'' \<and> (smp_value s \<noteq> None \<or> smp_value_integer s \<noteq> None))
                 (matching_samples host from to f d)))))))"

subsection \<open>The handler\<close>

definition history_meta :: "string \<Rightarrow> millis \<Rightarrow> api_meta" where
  "history_meta rid generated = \<lparr>meta_request_id = rid, meta_revision = 1, meta_generated_at = generated, meta_freshness = Fresh\<rparr>"

fun retention_tier :: "history_resolution \<Rightarrow> string" where
  "retention_tier ResRaw = ''full''"
| "retention_tier ResHour = ''hour''"
| "retention_tier ResDay = ''day''"

text \<open>
  The tables as the statements of one request see them, the instants at which the clock is read, and the
  time the history began, which the migration wrote.
\<close>

record 'd history_request =
  qr_hosts :: 'd
  qr_page :: 'd
  qr_coverage :: 'd
  qr_latest :: 'd
  qr_freshness :: 'd
  qr_history_started_at :: millis
  qr_range_checked_at :: instant
  qr_evaluated_at :: instant
  qr_generated_at :: instant
  qr_settings :: rollup_settings
  qr_fresh_id :: string

definition query_page ::
  "query_env \<Rightarrow> string \<Rightarrow> instant \<Rightarrow> instant \<Rightarrow> history_filters \<Rightarrow> history_cursor option \<Rightarrow> nat \<Rightarrow> history_resolution
   \<Rightarrow> ('a rollup_db_scheme) \<Rightarrow> history_error + history_page"
where
  "query_page e host from to f cursor limit res d =
     (case res of
        ResRaw \<Rightarrow> query_metric_series e host from to f cursor limit d
      | ResHour \<Rightarrow> query_rollup_series e host from to f cursor limit Hour d
      | ResDay \<Rightarrow> query_rollup_series e host from to f cursor limit Day d)"

text \<open>\<open>None\<close> is a query string that is rejected before the handler's own checks.\<close>

definition get_host_metrics ::
  "query_env \<Rightarrow> headers \<Rightarrow> string \<Rightarrow> history_query option \<Rightarrow> ('a rollup_db_scheme) history_request
   \<Rightarrow> history_error + history_response"
where
  "get_host_metrics e hdr host query x =
     and_then (ok_or (QBadRequest ''INVALID_QUERY'') query) (\<lambda>q.
     if host \<notin> set (hosts (qr_hosts x)) then Inl (QNotFound host)
     else
     and_then (parse_query_time e (hq_from q)) (\<lambda>from.
     and_then (parse_query_time e (hq_to q)) (\<lambda>to.
     and_then (validate_range (qr_range_checked_at x) from to (hq_resolution q)) (\<lambda>_.
     and_then (validate_query_options e host q) (\<lambda>(f, cursor, limit).
     let effective_from = max from (qr_history_started_at x * ns_per_ms);
         res = choose_resolution (hq_resolution q) from to (qr_evaluated_at x) (qr_settings x)
     in
     and_then (query_page e host effective_from to f cursor limit res (qr_page x)) (\<lambda>page.
     and_then (query_coverage host effective_from to (hf_family f) res (qr_coverage x)) (\<lambda>cov.
     and_then (query_latest_observation host effective_from to f res (qr_latest x)) (\<lambda>latest.
     and_then (query_freshness host effective_from to (qr_evaluated_at x) f res (qr_freshness x))
       (\<lambda>(valid_at, valid_end, fresh).
     Inr \<lparr>hr_data =
            \<lparr>hda_host = host, hda_from = timestamp_ms from, hda_to = timestamp_ms to,
             hda_requested_resolution = hq_resolution q, hda_actual_resolution = res,
             hda_retention_tier = retention_tier res, hda_history_started_at = qr_history_started_at x,
             hda_latest_observation_at = latest, hda_latest_valid_sample_at = valid_at,
             hda_latest_valid_until = valid_end, hda_freshness = fresh, hda_coverage = cov,
             hda_series = hpg_series page, hda_limit = limit, hda_has_more = hpg_has_more page,
             hda_next_cursor = hpg_next_cursor page\<rparr>,
          hr_meta = history_meta (request_id hdr (qr_fresh_id x)) (timestamp_ms (qr_generated_at x))\<rparr>)))))))))"

end
