(* ===== verification/RollupRetention.thy ===== *)
theory RollupRetention
  imports RollupCompaction
begin

text \<open>
  Retention and the compaction run of \<open>backend/src/monitoring_rollup.rs\<close>: sealing of partitions, deletion of
  raw samples and of rollup rows, the durable record of a run, and the runtime around it.
\<close>

subsection \<open>Retention\<close>

definition day_aligned_cutoff :: "rollup_env \<Rightarrow> int \<Rightarrow> nat \<Rightarrow> rollup_error + int" where
  "day_aligned_cutoff e evaluated_at days =
     (let t = evaluated_at - int days * DAY_MILLISECONDS
      in if \<not> representable e t then Inl Overflow
         else case bucket_start_epoch_ms t Day of None \<Rightarrow> Inl InvalidData | Some c \<Rightarrow> Inr c)"

definition row_bucket :: "('a db_scheme) \<Rightarrow> partition_row \<Rightarrow> sample_row list" where
  "row_bucket d p = bucket_samples d (pt_host p) (pt_start p) (pt_end p)"

definition partition_rollups :: "('a rollup_db_scheme) \<Rightarrow> partition_row \<Rightarrow> rollup_row list" where
  "partition_rollups d p = filter (\<lambda>u. ru_partition u = pt_id p) (rollups d)"

text \<open>The update of one resolution that seals what is older than the cutoff and complete.\<close>

definition sealable :: "('a rollup_db_scheme) \<Rightarrow> int \<Rightarrow> resolution \<Rightarrow> partition_row \<Rightarrow> bool" where
  "sealable d cutoff r p =
     (pt_state p = ''complete'' \<and> pt_end p \<le> cutoff \<and> pt_resolution p = r
      \<and> pt_input_count p = length (row_bucket d p) \<and> pt_series_count p = length (partition_rollups d p))"

definition seal_partition :: "millis \<Rightarrow> partition_row \<Rightarrow> partition_row" where
  "seal_partition now p = p\<lparr>pt_state := ''sealed'',
     pt_sealed_at := (case pt_sealed_at p of Some t \<Rightarrow> Some t | None \<Rightarrow> Some now)\<rparr>"

definition seal_partitions :: "millis \<Rightarrow> int \<Rightarrow> resolution \<Rightarrow> rollup_db \<Rightarrow> rollup_db" where
  "seal_partitions now cutoff r d =
     d\<lparr>partitions := update_rows (sealable d cutoff r) (seal_partition now) (partitions d)\<rparr>"

text \<open>The partition that covers a sample: sealed later than the sample was stored, with all its rows.\<close>

definition covers :: "('a rollup_db_scheme) \<Rightarrow> resolution \<Rightarrow> sample_row \<Rightarrow> partition_row \<Rightarrow> bool" where
  "covers d r s p =
     (bucket_key p = (smp_host s, r, bucket_of r (smp_observed_ms s)) \<and> pt_state p = ''sealed''
      \<and> pt_pruned_at p = None \<and> (case pt_sealed_at p of None \<Rightarrow> False | Some t \<Rightarrow> smp_created_at s < t)
      \<and> pt_series_count p = length (partition_rollups d p))"

definition deletable :: "('a rollup_db_scheme) \<Rightarrow> bool \<Rightarrow> int \<Rightarrow> sample_row \<Rightarrow> bool" where
  "deletable d observed cutoff s =
     ((\<exists>p \<in> set (partitions d). covers d Hour s p) \<and> (\<exists>p \<in> set (partitions d). covers d Day s p)
      \<and> (smp_quality s = ''observed'') = observed \<and> smp_observed_ms s < cutoff)"

definition delete_raw_batch :: "bool \<Rightarrow> int \<Rightarrow> nat \<Rightarrow> rollup_db \<Rightarrow> nat \<times> rollup_db" where
  "delete_raw_batch observed cutoff limit d =
     (if limit = 0 then (0, d)
      else let ids = take limit (map smp_id (sort_key (\<lambda>s. (smp_observed_ms s, smp_id s))
             (filter (deletable d observed cutoff) (samples d))))
      in (u32_of_nat (length (filter (\<lambda>s. smp_id s \<in> set ids) (samples d))),
          d\<lparr>samples := filter (\<lambda>s. smp_id s \<notin> set ids) (samples d)\<rparr>))"

definition hour_prunable :: "('a rollup_db_scheme) \<Rightarrow> int \<Rightarrow> partition_row \<Rightarrow> bool" where
  "hour_prunable d cutoff p =
     (pt_resolution p = Hour \<and> pt_state p = ''sealed'' \<and> pt_end p \<le> cutoff \<and> pt_pruned_at p = None
      \<and> row_bucket d p = []
      \<and> (\<exists>q \<in> set (partitions d). bucket_key q = (pt_host p, Day, bucket_of Day (pt_start p))
           \<and> pt_state q \<in> {''complete'', ''sealed''} \<and> pt_pruned_at q = None))"

definition day_prunable :: "('a rollup_db_scheme) \<Rightarrow> int \<Rightarrow> partition_row \<Rightarrow> bool" where
  "day_prunable d cutoff p =
     (pt_resolution p = Day \<and> pt_state p = ''sealed'' \<and> pt_end p \<le> cutoff \<and> pt_pruned_at p = None
      \<and> row_bucket d p = [])"

text \<open>Marking the oldest prunable partitions, and deleting the rows of the marked ones.\<close>

definition mark_pruned :: "(partition_row \<Rightarrow> bool) \<Rightarrow> millis \<Rightarrow> nat \<Rightarrow> rollup_db \<Rightarrow> rollup_db" where
  "mark_pruned P now limit d =
     (let ids = take limit (map pt_id (sort_key (\<lambda>p. (pt_start p, pt_host p)) (filter P (partitions d))))
      in d\<lparr>partitions := update_rows (\<lambda>p. pt_id p \<in> set ids)
             (\<lambda>p. p\<lparr>pt_pruned_at := (case pt_pruned_at p of Some t \<Rightarrow> Some t | None \<Rightarrow> Some now)\<rparr>) (partitions d)\<rparr>)"

definition is_pruned_row :: "('a rollup_db_scheme) \<Rightarrow> resolution \<Rightarrow> rollup_row \<Rightarrow> bool" where
  "is_pruned_row d r u =
     (ru_resolution u = r \<and> (\<exists>p \<in> set (partitions d). pt_id p = ru_partition u \<and> pt_resolution p = r
        \<and> pt_pruned_at p \<noteq> None))"

definition delete_pruned_rows :: "resolution \<Rightarrow> rollup_db \<Rightarrow> nat \<times> rollup_db" where
  "delete_pruned_rows r d =
     (rows_affected (is_pruned_row d r) (rollups d),
      d\<lparr>rollups := filter (\<lambda>u. \<not> is_pruned_row d r u) (rollups d)\<rparr>)"

definition enforce_retention ::
  "rollup_env \<Rightarrow> int \<Rightarrow> rollup_settings \<Rightarrow> millis \<Rightarrow> rollup_db \<Rightarrow> rollup_error + (compaction_outcome \<times> rollup_db)"
where
  "enforce_retention e evaluated_at s now d =
     and_then (day_aligned_cutoff e evaluated_at (rs_raw_observed_days s)) (\<lambda>observed_cutoff.
     and_then (day_aligned_cutoff e evaluated_at (rs_raw_non_observed_days s)) (\<lambda>non_observed_cutoff.
     and_then (day_aligned_cutoff e evaluated_at (rs_hour_days s)) (\<lambda>hour_cutoff.
     and_then (day_aligned_cutoff e evaluated_at (rs_day_days s)) (\<lambda>day_cutoff.
     let d1 = seal_partitions now observed_cutoff Day (seal_partitions now observed_cutoff Hour d);
         (observed_deleted, d2) = delete_raw_batch True observed_cutoff (rs_delete_batch_size s) d1;
         (non_observed_deleted, d3) =
           delete_raw_batch False non_observed_cutoff (rs_delete_batch_size s - observed_deleted) d2;
         (hour_deleted, d4) =
           delete_pruned_rows Hour (mark_pruned (hour_prunable d3 hour_cutoff) now (rs_partitions_per_tick s) d3);
         (day_deleted, d5) =
           delete_pruned_rows Day (mark_pruned (day_prunable d4 day_cutoff) now (rs_partitions_per_tick s) d4)
     in Inr (\<lparr>out_hours = 0, out_days = 0, out_raw_deleted = u32_of_nat (observed_deleted + non_observed_deleted),
               out_hour_deleted = u32_of_nat hour_deleted, out_day_deleted = u32_of_nat day_deleted\<rparr>, d5)))))"

subsection \<open>Counts\<close>

text \<open>The size of the database file, which the pragmas report, is an argument.\<close>

definition storage_counts_of :: "int \<Rightarrow> ('a rollup_db_scheme) \<Rightarrow> storage_counts" where
  "storage_counts_of bytes d =
     \<lparr>sc_raw = length (samples d), sc_hours = rows_affected (\<lambda>u. ru_resolution u = Hour) (rollups d),
      sc_days = rows_affected (\<lambda>u. ru_resolution u = Day) (rollups d), sc_bytes = bytes\<rparr>"

definition is_late :: "('a rollup_db_scheme) \<Rightarrow> sample_row \<Rightarrow> bool" where
  "is_late d s =
     (\<exists>p \<in> set (partitions d). pt_host p = smp_host s \<and> pt_state p = ''sealed''
        \<and> pt_start p = bucket_of (pt_resolution p) (smp_observed_ms s)
        \<and> (case pt_sealed_at p of None \<Rightarrow> False | Some t \<Rightarrow> t \<le> smp_created_at s))"

definition count_late_samples :: "('a rollup_db_scheme) \<Rightarrow> nat" where
  "count_late_samples d = card (smp_id ` set (filter (is_late d) (samples d)))"

subsection \<open>The durable record of a run\<close>

definition repair_orphaned_maintenance :: "millis \<Rightarrow> string \<Rightarrow> rollup_db \<Rightarrow> (nat \<times> rollup_db) stmt" where
  "repair_orphaned_maintenance completed_at code d =
     (if mm_state (maintenance d) = ''running'' \<and> \<not> (\<exists>c \<in> set (compactions d). is_running c)
      then and_then (update_maintenance (\<lambda>m. m\<lparr>mm_state := ''failed'', mm_last_completed_at := Some completed_at,
             mm_last_error_at := Some completed_at, mm_last_error_code := Some code,
             mm_updated_at := completed_at\<rparr>) d) (\<lambda>d1. Inr (1, d1))
      else Inr (0, d))"

definition recover_interrupted_compactions :: "millis \<Rightarrow> rollup_db \<Rightarrow> rollup_db \<times> nat stmt" where
  "recover_interrupted_compactions now d =
     (case update_compactions is_running (\<lambda>c. c\<lparr>cmp_state := ''interrupted'', cmp_finished_at := Some now,
             cmp_error_code := Some ''APP_RESTARTED''\<rparr>) d of
        Inl x \<Rightarrow> (d, Inl x)
      | Inr (n, d1) \<Rightarrow>
          (case repair_orphaned_maintenance now
                  (if 0 < n then ''APP_RESTARTED'' else ''COMPACTOR_TERMINAL_SYNC_FAILED'') d1 of
             Inl x \<Rightarrow> (d1, Inl x)
           | Inr (_, d2) \<Rightarrow> (d2, Inr n)))"

definition runs_as :: "string \<Rightarrow> compaction_row \<Rightarrow> bool" where
  "runs_as run c = (cmp_id c = run \<and> is_running c)"

definition mark_succeeded ::
  "string \<Rightarrow> millis \<Rightarrow> compaction_outcome \<Rightarrow> storage_counts \<Rightarrow> rollup_db \<Rightarrow> rollup_db stmt"
where
  "mark_succeeded run completed_at outcome counts d =
     and_then (update_compactions (runs_as run) (\<lambda>c. c\<lparr>cmp_state := ''succeeded'',
       cmp_finished_at := Some completed_at, cmp_outcome := outcome\<rparr>) d) (\<lambda>(_, d1).
     update_maintenance (\<lambda>m. m\<lparr>mm_state := ''succeeded'', mm_last_completed_at := Some completed_at,
       mm_last_successful_at := Some completed_at, mm_last_error_code := None, mm_outcome := outcome,
       mm_storage := counts, mm_updated_at := completed_at\<rparr>) d1)"

text \<open>The two updates are statements of their own; the fallback runs when either fails.\<close>

definition fail_run :: "string \<Rightarrow> millis \<Rightarrow> string \<Rightarrow> rollup_db \<Rightarrow> (nat \<times> rollup_db) stmt" where
  "fail_run run completed_at code =
     update_compactions (runs_as run) (\<lambda>c. c\<lparr>cmp_state := ''failed'', cmp_finished_at := Some completed_at,
       cmp_error_code := Some code\<rparr>)"

definition mark_failed :: "string \<Rightarrow> millis \<Rightarrow> string \<Rightarrow> rollup_db \<Rightarrow> rollup_db \<times> unit stmt" where
  "mark_failed run completed_at code d =
     (let run_terminal = fail_run run completed_at code d;
          d1 = (case run_terminal of Inl _ \<Rightarrow> d | Inr (_, d1) \<Rightarrow> d1);
          maintenance_terminal = update_maintenance (\<lambda>m. m\<lparr>mm_state := ''failed'',
            mm_last_completed_at := Some completed_at, mm_last_error_at := Some completed_at,
            mm_last_error_code := Some code, mm_updated_at := completed_at\<rparr>) d1;
          d2 = (case maintenance_terminal of Inl _ \<Rightarrow> d1 | Inr d2 \<Rightarrow> d2)
      in if (case run_terminal of Inl _ \<Rightarrow> False | Inr _ \<Rightarrow> True)
            \<and> (case maintenance_terminal of Inl _ \<Rightarrow> False | Inr _ \<Rightarrow> True)
         then (d2, Inr ())
         else (case fail_run run completed_at ''COMPACTOR_TERMINAL_SYNC_FAILED'' d2 of
                 Inl x \<Rightarrow> (d2, Inl x)
               | Inr (_, d3) \<Rightarrow>
                   (case repair_orphaned_maintenance completed_at ''COMPACTOR_TERMINAL_SYNC_FAILED'' d3 of
                      Inl x \<Rightarrow> (d3, Inl x)
                    | Inr (_, d4) \<Rightarrow> (d4, Inr ()))))"

subsection \<open>One compaction\<close>

record compactor_input =
  ki_settings :: rollup_settings
  ki_shutdown_on_entry :: bool
  ki_shutdown_admitted :: bool
  ki_run_id :: string
  ki_started_at :: millis
  ki_start_failed_at :: millis
  ki_hours :: "partition_candidate \<Rightarrow> compaction_input"
  ki_shutdown_before_days :: bool
  ki_days :: "partition_candidate \<Rightarrow> compaction_input"
  ki_shutdown_before_retention :: bool
  ki_retention_at :: millis
  ki_database_bytes :: int
  ki_completed_at :: millis

definition settings_json :: "rollup_settings \<Rightarrow> bool \<times> nat \<times> nat \<times> nat \<times> nat \<times> nat \<times> nat" where
  "settings_json s = (rs_retention_enabled s, rs_raw_observed_days s, rs_raw_non_observed_days s, rs_hour_days s,
     rs_day_days s, rs_partitions_per_tick s, rs_delete_batch_size s)"

text \<open>The name of the violated constraint is the text of the error.\<close>

definition mentions_unique :: "db_error \<Rightarrow> bool" where
  "mentions_unique x = (x = UniqueViolation)"

definition compaction_work ::
  "rollup_env \<Rightarrow> int \<Rightarrow> compactor_input \<Rightarrow> rollup_db
     \<Rightarrow> rollup_db \<times> (rollup_error + (compaction_outcome \<times> storage_counts))"
where
  "compaction_work e evaluated_at k d =
     (let s = ki_settings k in
      case compact_resolution e Hour evaluated_at (rs_partitions_per_tick s) (ki_hours k) d of
        (d1, Inl x) \<Rightarrow> (d1, Inl x)
      | (d1, Inr hours) \<Rightarrow>
      (case (if ki_shutdown_before_days k then (d1, Inr 0)
             else compact_resolution e Day evaluated_at (rs_partitions_per_tick s) (ki_days k) d1) of
        (d2, Inl x) \<Rightarrow> (d2, Inl x)
      | (d2, Inr days) \<Rightarrow>
      (case has_pending_closed_partitions d2 evaluated_at of
        Inl x \<Rightarrow> (d2, Inl x)
      | Inr backlog \<Rightarrow>
      (case (if rs_retention_enabled s \<and> \<not> backlog \<and> \<not> ki_shutdown_before_retention k
             then enforce_retention e evaluated_at s (ki_retention_at k) d2
             else Inr (default_outcome, d2)) of
        Inl x \<Rightarrow> (d2, Inl x)
      | Inr (deleted, d3) \<Rightarrow>
          if 0 < count_late_samples d3 then (d3, Inl (LateSamples (count_late_samples d3)))
          else (d3, Inr (deleted\<lparr>out_hours := hours, out_days := days\<rparr>,
                 storage_counts_of (ki_database_bytes k) d3))))))"

definition compact_once_inner ::
  "rollup_env \<Rightarrow> int \<Rightarrow> compactor_input \<Rightarrow> rollup_db \<Rightarrow> rollup_db \<times> (rollup_error + compaction_outcome)"
where
  "compact_once_inner e evaluated_at k d =
     (if ki_shutdown_on_entry k \<or> ki_shutdown_admitted k then (d, Inr default_outcome)
      else
      let s = ki_settings k in
      case repair_orphaned_maintenance (ki_started_at k) ''COMPACTOR_TERMINAL_SYNC_FAILED'' d of
        Inl x \<Rightarrow> (d, Inl (RollupStorage x))
      | Inr (_, d0) \<Rightarrow>
      (case insert_compaction \<lparr>cmp_id = ki_run_id k, cmp_state = ''running'', cmp_started_at = ki_started_at k,
              cmp_finished_at = None, cmp_outcome = default_outcome, cmp_error_code = None,
              cmp_settings = settings_json s\<rparr> d0 of
        Inl x \<Rightarrow> (d0, Inl (if mentions_unique x then AlreadyRunning else RollupStorage x))
      | Inr d1 \<Rightarrow>
      (case update_maintenance (\<lambda>m. m\<lparr>mm_state := ''running'', mm_retention_enabled := rs_retention_enabled s,
              mm_raw_observed_days := rs_raw_observed_days s, mm_raw_non_observed_days := rs_raw_non_observed_days s,
              mm_hour_days := rs_hour_days s, mm_day_days := rs_day_days s,
              mm_last_started_at := Some (ki_started_at k), mm_last_error_code := None,
              mm_updated_at := ki_started_at k\<rparr>) d1 of
        Inl x \<Rightarrow> (fst (mark_failed (ki_run_id k) (ki_start_failed_at k) (rollup_error_code (RollupStorage x)) d1),
                  Inl (RollupStorage x))
      | Inr d2 \<Rightarrow>
      (case compaction_work e evaluated_at k d2 of
        (d3, Inl x) \<Rightarrow> (fst (mark_failed (ki_run_id k) (ki_completed_at k) (rollup_error_code x) d3), Inl x)
      | (d3, Inr (outcome, counts)) \<Rightarrow>
          (case mark_succeeded (ki_run_id k) (ki_completed_at k) outcome counts d3 of
             Inl x \<Rightarrow> (fst (mark_failed (ki_run_id k) (ki_completed_at k) (rollup_error_code (RollupStorage x)) d3),
                       Inl (RollupStorage x))
           | Inr d4 \<Rightarrow> (d4, Inr outcome))))))"

subsection \<open>The runtime\<close>

record runtime_health =
  rh_last_successful_at :: "millis option"
  rh_last_error_at :: "millis option"
  rh_last_error_code :: "string option"
  rh_consecutive_failures :: nat

record rollup_runtime =
  rt_started :: bool
  rt_running :: bool
  rt_health :: runtime_health

definition compact_once ::
  "rollup_env \<Rightarrow> int \<Rightarrow> compactor_input \<Rightarrow> millis \<Rightarrow> rollup_runtime \<Rightarrow> rollup_db
     \<Rightarrow> rollup_runtime \<times> rollup_db \<times> (rollup_error + compaction_outcome)"
where
  "compact_once e evaluated_at k now rt d =
     (if rt_running rt then (rt, d, Inl AlreadyRunning)
      else
      let (d1, result) = compact_once_inner e evaluated_at k d;
          h = rt_health rt;
          h1 = (case result of
                  Inr _ \<Rightarrow> h\<lparr>rh_last_successful_at := Some now, rh_consecutive_failures := 0\<rparr>
                | Inl x \<Rightarrow> h\<lparr>rh_last_error_at := Some now, rh_last_error_code := Some (rollup_error_code x),
                    rh_consecutive_failures := sat_add32 (rh_consecutive_failures h) 1\<rparr>)
      in (rt\<lparr>rt_running := False, rt_health := h1\<rparr>, d1, result))"

record maintenance_status =
  mst_state :: string
  mst_runtime_started :: bool
  mst_runtime_running :: bool
  mst_last_started_at :: "millis option"
  mst_last_completed_at :: "millis option"
  mst_last_successful_at :: "millis option"
  mst_last_error_at :: "millis option"
  mst_last_error_code :: "string option"
  mst_consecutive_failures :: nat
  mst_outcome :: compaction_outcome
  mst_raw_count :: nat
  mst_hour_count :: nat
  mst_day_count :: nat
  mst_bytes :: nat
  mst_tick_seconds :: nat
  mst_partitions_per_tick :: nat
  mst_retention :: "bool \<times> nat \<times> nat \<times> nat \<times> nat \<times> nat"

definition maintenance_status_of ::
  "rollup_settings \<Rightarrow> int \<Rightarrow> rollup_runtime \<Rightarrow> rollup_db \<Rightarrow> rollup_error + maintenance_status"
where
  "maintenance_status_of s bytes rt d =
     (let m = maintenance d; o1 = mm_outcome m; c = storage_counts_of bytes d in
      if mm_state m \<notin> {''idle'', ''running'', ''succeeded'', ''failed''} then Inl InvalidData
      else Inr \<lparr>mst_state = mm_state m, mst_runtime_started = rt_started rt, mst_runtime_running = rt_running rt,
        mst_last_started_at = mm_last_started_at m, mst_last_completed_at = mm_last_completed_at m,
        mst_last_successful_at = mm_last_successful_at m, mst_last_error_at = mm_last_error_at m,
        mst_last_error_code = mm_last_error_code m,
        mst_consecutive_failures = rh_consecutive_failures (rt_health rt),
        mst_outcome = \<lparr>out_hours = u32_of_nat (out_hours o1), out_days = u32_of_nat (out_days o1),
          out_raw_deleted = u32_of_nat (out_raw_deleted o1), out_hour_deleted = u32_of_nat (out_hour_deleted o1),
          out_day_deleted = u32_of_nat (out_day_deleted o1)\<rparr>,
        mst_raw_count = u32_of_nat (sc_raw c), mst_hour_count = u32_of_nat (sc_hours c),
        mst_day_count = u32_of_nat (sc_days c), mst_bytes = nat (max (sc_bytes c) 0),
        mst_tick_seconds = rs_tick_seconds s, mst_partitions_per_tick = rs_partitions_per_tick s,
        mst_retention = (rs_retention_enabled s, rs_raw_observed_days s, rs_raw_non_observed_days s,
          rs_hour_days s, rs_day_days s, rs_delete_batch_size s)\<rparr>)"

end
