(* ===== verification/RollupAccounting.thy ===== *)
theory RollupAccounting
  imports RollupRetention
begin

text \<open>
  What a compaction writes: the tables stay well formed, the rows of the compacted partition are one per
  series of the bucket and count exactly its samples, and nothing else changes.
\<close>

subsection \<open>Results and groups\<close>

lemma collect_results_Inr: "collect_results rs = Inr xs \<longleftrightarrow> rs = map Inr xs"
  by (induction rs arbitrary: xs) (auto simp: map_eq_Cons_conv Cons_eq_map_conv)

lemma from_storage_Inr [simp]: "from_storage r = Inr x \<longleftrightarrow> r = Inr x"
  by (simp add: from_storage_def)

lemma map_Inr_eq: "map f xs = map Inr ys \<Longrightarrow> ys = map (\<lambda>x. projr (f x)) xs"
  by (induction xs arbitrary: ys) auto

lemma sort_key_map: "sort_key f (map g xs) = map g (sort_key (f \<circ> g) xs)"
proof -
  have "insort_key f (g x) (map g ys) = map g (insort_key (f \<circ> g) x ys)" for x ys
    by (induction ys) auto
  then show ?thesis by (induction xs) simp_all
qed

text \<open>The sample as the aggregation sees it.\<close>

definition raw_view :: "('a db_scheme) \<Rightarrow> sample_row \<Rightarrow> raw_sample" where
  "raw_view d s = raw_of_row s (the (run_of d (smp_run s)))"

lemma raw_view_fields [simp]:
  "rw_key (raw_view d s) = key_of_row s" "rw_id (raw_view d s) = smp_id s" "rw_epoch (raw_view d s) = smp_observed_ms s"
  "rw_quality (raw_view d s) = smp_quality s" "rw_integer (raw_view d s) = smp_value_integer s"
  "rw_real (raw_view d s) = smp_value s" "rw_run (raw_view d s) = smp_run s"
  by (simp_all add: raw_view_def raw_of_row_def)

lemma with_runs_all:
  "\<forall>s \<in> set ss. run_of d (smp_run s) \<noteq> None \<Longrightarrow> with_runs d ss = map (\<lambda>s. (s, the (run_of d (smp_run s)))) ss"
  by (induction ss) (auto simp: with_runs_def map_filter_simps)

lemma load_raw_partition_view:
  assumes "load_raw_partition d host b = Inr ss"
    and "\<forall>s \<in> set (samples d). run_of d (smp_run s) \<noteq> None"
  shows "ss = map (raw_view d) (sort_key (\<lambda>s. (smp_observed_ms s, smp_id s))
      (bucket_samples d host (br_start b) (br_end b)))"
proof -
  let ?rows = "bucket_samples d host (br_start b) (br_end b)" and ?f = "\<lambda>s. (s, the (run_of d (smp_run s)))"
  have w: "with_runs d ?rows = map ?f ?rows"
    using assms(2) by (intro with_runs_all) (auto simp: bucket_samples_def)
  have sort: "sort_key (\<lambda>(s, _). (smp_observed_ms s, smp_id s)) (map ?f xs)
      = map ?f (sort_key (\<lambda>s. (smp_observed_ms s, smp_id s)) xs)" for xs
    by (simp add: sort_key_map comp_def)
  have "map raw_sample_from_row (map ?f (sort_key (\<lambda>s. (smp_observed_ms s, smp_id s)) ?rows)) = map Inr ss"
    using assms(1) by (simp add: load_raw_partition_def w sort collect_results_Inr)
  then have "map (raw_sample_from_row \<circ> ?f) (sort_key (\<lambda>s. (smp_observed_ms s, smp_id s)) ?rows) = map Inr ss" by simp
  then show ?thesis
    by (auto simp: list_eq_iff_nth_eq raw_sample_from_row_def raw_view_def split: if_splits)
qed

lemma load_raw_partition_total:
  assumes "\<forall>s \<in> set (samples d). run_of d (smp_run s) \<noteq> None"
    and "\<forall>s \<in> set (samples d). pred_option f_is_finite (smp_value s)"
  shows "\<exists>ss. load_raw_partition d host b = Inr ss"
proof -
  let ?ps = "sort_key (\<lambda>(s, _). (smp_observed_ms s, smp_id s)) (with_runs d (bucket_samples d host (br_start b) (br_end b)))"
  have "raw_sample_from_row p = Inr (case p of (s, r) \<Rightarrow> raw_of_row s r)" if "p \<in> set ?ps" for p
    using that assms(2) by (auto simp: with_runs_def map_filter_def bucket_samples_def raw_sample_from_row_def pred_option_def)
  then have "map raw_sample_from_row ?ps = map Inr (map (\<lambda>(s, r). raw_of_row s r) ?ps)"
    unfolding map_map comp_def by (rule map_cong [OF refl])
  then have "collect_results (map raw_sample_from_row ?ps) = Inr (map (\<lambda>(s, r). raw_of_row s r) ?ps)"
    by (rule collect_results_Inr [THEN iffD2])
  then show ?thesis unfolding load_raw_partition_def by (rule exI)
qed

lemma group_by_series_keys:
  "distinct (map fst (group_by_series ss))" "fst ` set (group_by_series ss) = rw_key ` set ss"
  "(k, g) \<in> set (group_by_series ss) \<Longrightarrow> g = filter (\<lambda>s. rw_key s = k) ss"
  "length (group_by_series ss) = card (rw_key ` set ss)"
  by (auto simp: group_by_series_def comp_def image_iff length_remdups_card_conv)

lemma aggregate_series_counts:
  assumes "aggregate_series e k ss b = Inr s"
  shows "sr_key s = k \<and> sr_sample_count s = length ss \<and> sr_observed_count s = length (filter is_observed ss)"
proof -
  have "length (by_time ss) = length ss" "length (filter is_observed (by_time ss)) = length (filter is_observed ss)"
    by (simp_all add: by_time_def filter_sort)
  with assms show ?thesis by (auto simp: aggregate_series_def Let_def split: list.splits if_splits)
qed

subsection \<open>Writing rows\<close>

lemma keyed_update:
  assumes "distinct (map k xs)" and "x \<in> set xs" and "\<And>y. k y = k x \<Longrightarrow> k (f y) = k x"
  shows "set (update_rows (\<lambda>y. k y = k x) f xs) = insert (f x) {y \<in> set xs. k y \<noteq> k x}"
    and "distinct (map k (update_rows (\<lambda>y. k y = k x) f xs))"
proof -
  have "{y \<in> set xs. k y = k x} = {x}" using assms(1,2) by (auto simp: distinct_map inj_on_def)
  then show "set (update_rows (\<lambda>y. k y = k x) f xs) = insert (f x) {y \<in> set xs. k y \<noteq> k x}"
    by (auto simp: set_update_rows)
  show "distinct (map k (update_rows (\<lambda>y. k y = k x) f xs))"
    by (subst map_update_rows) (use assms in auto)
qed

lemma overwrite_rollup_fields [simp]:
  "rollup_key (overwrite_rollup u v) = rollup_key u" "ru_partition (overwrite_rollup u v) = ru_partition u"
  "ru_series (overwrite_rollup u v) = ru_series u" "ru_id (overwrite_rollup u v) = ru_id v"
  by (simp_all add: overwrite_rollup_def rollup_key_def)

lemma insert_rollup_effect:
  assumes "insert_rollup u d = Inr d'" and "distinct (map rollup_key (rollups d))"
  obtains u' where "rollup_key u' = rollup_key u" "ru_partition u' = ru_partition u" "ru_series u' = ru_series u"
    "set (rollups d') = insert u' {v \<in> set (rollups d). rollup_key v \<noteq> rollup_key u}"
    "distinct (map rollup_key (rollups d'))" "d' = d\<lparr>rollups := rollups d'\<rparr>"
    "ru_id u' \<in> insert (ru_id u) (ru_id ` set (rollups d))"
proof (cases "rollup_key u \<in> set (map rollup_key (rollups d))")
  case True
  then obtain v where v: "v \<in> set (rollups d)" "rollup_key v = rollup_key u" by auto
  have d': "d' = d\<lparr>rollups := update_rows (\<lambda>w. rollup_key w = rollup_key v) (overwrite_rollup u) (rollups d)\<rparr>"
    using assms(1) True v(2) by (simp add: insert_rollup_def split: if_splits)
  note upd = keyed_update [where k = rollup_key and f = "overwrite_rollup u", OF assms(2) v(1)]
  show thesis
    using upd v(2) imageI [OF v(1), of ru_id] by (intro that [of "overwrite_rollup u v"]) (simp_all add: d')
next
  case False
  then have "d' = d\<lparr>rollups := rollups d @ [u]\<rparr>" using assms(1) by (auto simp: insert_rollup_def split: if_splits)
  with False assms(2) show thesis by (intro that [of u]) (auto simp: image_iff)
qed

lemma write_series_effect:
  assumes "write_series e pid host r b i groups d = Inr d'" and "distinct (map rollup_key (rollups d))"
    and "distinct (map fst groups)"
  defines "K \<equiv> (\<lambda>k. (host, k, r, br_start b)) ` fst ` set groups"
  shows "d' = d\<lparr>rollups := rollups d'\<rparr> \<and> distinct (map rollup_key (rollups d'))
    \<and> {u \<in> set (rollups d'). rollup_key u \<notin> K} = {u \<in> set (rollups d). rollup_key u \<notin> K}
    \<and> (\<forall>(k, ss) \<in> set groups. \<exists>u \<in> set (rollups d'). rollup_key u = (host, k, r, br_start b) \<and> ru_partition u = pid
        \<and> sr_sample_count (ru_series u) = length ss
        \<and> sr_observed_count (ru_series u) = length (filter is_observed ss))"
  using assms(1-3) unfolding K_def
proof (induction groups arbitrary: d)
  case (Cons g groups)
  obtain k ss where g: "g = (k, ss)" by (cases g)
  let ?u = "\<lambda>s. rollup_row_of (ci_rollup_ids i k) pid host r b (ci_now i) s"
  from Cons.prems(1) obtain s d1 where s: "aggregate_series e k ss (boundary_for d host k (br_start b)) = Inr s"
    and d1: "insert_rollup (?u s) d = Inr d1" and rest: "write_series e pid host r b i groups d1 = Inr d'"
    by (auto simp: g upsert_rollup_def)
  note counts = aggregate_series_counts [OF s]
  have key: "rollup_key (?u s) = (host, k, r, br_start b)" by (simp add: rollup_key_def rollup_row_of_def counts)
  obtain u' where u': "rollup_key u' = (host, k, r, br_start b)" "ru_partition u' = pid" "ru_series u' = s"
      "set (rollups d1) = insert u' {v \<in> set (rollups d). rollup_key v \<noteq> (host, k, r, br_start b)}"
      "distinct (map rollup_key (rollups d1))" "d1 = d\<lparr>rollups := rollups d1\<rparr>"
    by (rule insert_rollup_effect [OF d1 Cons.prems(2), unfolded key]) (simp add: rollup_row_of_def)
  let ?K = "(\<lambda>k. (host, k, r, br_start b)) ` fst ` set groups"
  have IH: "d' = d1\<lparr>rollups := rollups d'\<rparr>" "distinct (map rollup_key (rollups d'))"
      "{u \<in> set (rollups d'). rollup_key u \<notin> ?K} = {u \<in> set (rollups d1). rollup_key u \<notin> ?K}"
      "\<forall>(k, ss) \<in> set groups. \<exists>u \<in> set (rollups d'). rollup_key u = (host, k, r, br_start b) \<and> ru_partition u = pid
        \<and> sr_sample_count (ru_series u) = length ss \<and> sr_observed_count (ru_series u) = length (filter is_observed ss)"
    using Cons.IH [OF rest u'(5)] Cons.prems(3) by (simp_all add: g)
  have "k \<notin> fst ` set groups" using Cons.prems(3) by (simp add: g image_iff)
  then have "u' \<in> {u \<in> set (rollups d1). rollup_key u \<notin> ?K}" using u'(1,4) by auto
  then have mem: "u' \<in> set (rollups d')" using IH(3) by blast
  have "d' = d\<lparr>rollups := rollups d'\<rparr>" using IH(1) u'(6) by (metis (no_types, lifting) rollup_db.ext_inject rollup_db.surjective rollup_db.update_convs(2))
  moreover have "{u \<in> set (rollups d'). rollup_key u \<notin> insert (host, k, r, br_start b) ?K}
      = {u \<in> set (rollups d). rollup_key u \<notin> insert (host, k, r, br_start b) ?K}"
  proof -
    have "{u \<in> set (rollups d'). rollup_key u \<notin> insert (host, k, r, br_start b) ?K}
        = {u \<in> {u \<in> set (rollups d'). rollup_key u \<notin> ?K}. rollup_key u \<noteq> (host, k, r, br_start b)}" by auto
    also have "\<dots> = {u \<in> {u \<in> set (rollups d1). rollup_key u \<notin> ?K}. rollup_key u \<noteq> (host, k, r, br_start b)}"
      by (simp only: IH(3))
    also have "\<dots> = {u \<in> set (rollups d). rollup_key u \<notin> insert (host, k, r, br_start b) ?K}" using u'(1,4) by auto
    finally show ?thesis .
  qed
  moreover have "\<exists>u \<in> set (rollups d'). rollup_key u = (host, k, r, br_start b) \<and> ru_partition u = pid
      \<and> sr_sample_count (ru_series u) = length ss \<and> sr_observed_count (ru_series u) = length (filter is_observed ss)"
    using mem u' counts by (intro bexI [of _ u']) simp_all
  ultimately show ?case using IH(2,4) by (simp add: g)
qed simp


lemma upsert_partition_effect:
  assumes "upsert_partition p d = Inr d'" and "distinct (map bucket_key (partitions d))" "distinct (map pt_id (partitions d))"
    and "\<And>q. find_partition d (pt_host p) (pt_resolution p) (pt_start p) = Some q \<Longrightarrow> pt_id p = pt_id q"
  obtains p' where "bucket_key p' = bucket_key p" "pt_id p' = pt_id p" "pt_end p' = pt_end p"
    "pt_input_count p' = pt_input_count p" "pt_series_count p' = pt_series_count p"
    "pt_input_digest p' = pt_input_digest p" "pt_compacted_at p' = pt_compacted_at p"
    "case find_partition d (pt_host p) (pt_resolution p) (pt_start p) of
       None \<Rightarrow> p' = p \<and> pt_id p \<notin> pt_id ` set (partitions d)
     | Some q \<Rightarrow> pt_state p' = pt_state q \<and> pt_sealed_at p' = pt_sealed_at q \<and> pt_pruned_at p' = pt_pruned_at q"
    "set (partitions d') = insert p' {q \<in> set (partitions d). bucket_key q \<noteq> bucket_key p}"
    "distinct (map bucket_key (partitions d'))" "distinct (map pt_id (partitions d'))"
    "d' = d\<lparr>partitions := partitions d'\<rparr>" "partition_checks p"
proof (cases "find_partition d (pt_host p) (pt_resolution p) (pt_start p)")
  case None
  then have "bucket_key p \<notin> set (map bucket_key (partitions d))"
    by (auto simp: find_partition_def find_None_iff bucket_key_def)
  moreover from this have "d' = d\<lparr>partitions := partitions d @ [p]\<rparr>" "pt_id p \<notin> set (map pt_id (partitions d))"
      "partition_checks p"
    using assms(1) by (auto simp: upsert_partition_def split: if_splits)
  ultimately show thesis using assms(2,3) None by (intro that [of p]) (auto simp: image_iff)
next
  case (Some q)
  then have q: "q \<in> set (partitions d)" "bucket_key q = bucket_key p"
    by (auto simp: find_partition_def find_Some_iff bucket_key_def)
  then have "bucket_key p \<in> set (map bucket_key (partitions d))" by (metis image_eqI set_map)
  then have d': "d' = d\<lparr>partitions := update_rows (\<lambda>w. bucket_key w = bucket_key q) (overwrite_partition p) (partitions d)\<rparr>"
      and c: "partition_checks p"
    using assms(1) q(2) by (auto simp: upsert_partition_def split: if_splits)
  have key: "bucket_key (overwrite_partition p w) = bucket_key w" "pt_id (overwrite_partition p w) = pt_id w" for w
    by (simp_all add: overwrite_partition_def bucket_key_def)
  note upd = keyed_update [where k = bucket_key and f = "overwrite_partition p", OF assms(2) q(1)]
  have "map pt_id (update_rows (\<lambda>w. bucket_key w = bucket_key q) (overwrite_partition p) (partitions d))
      = map pt_id (partitions d)"
    by (rule map_update_rows) (simp add: key)
  then show thesis
    using upd q c assms(3,4) Some key
    by (intro that [of "overwrite_partition p q"]) (simp_all add: d' overwrite_partition_def)
qed

subsection \<open>Well-formed tables\<close>

definition tables_ok :: "rollup_db \<Rightarrow> bool" where
  "tables_ok d =
     (distinct (map smp_id (samples d))
      \<and> (\<forall>s \<in> set (samples d). sample_checks s \<and> run_of d (smp_run s) \<noteq> None)
      \<and> distinct (map pt_id (partitions d)) \<and> distinct (map bucket_key (partitions d))
      \<and> (\<forall>p \<in> set (partitions d). partition_checks p
           \<and> pt_end p = pt_start p + bucket_milliseconds (pt_resolution p)
           \<and> bucket_milliseconds (pt_resolution p) dvd pt_start p)
      \<and> distinct (map rollup_key (rollups d))
      \<and> (\<forall>u \<in> set (rollups d). \<exists>p \<in> set (partitions d). pt_id p = ru_partition u
           \<and> bucket_key p = (ru_host u, ru_resolution u, ru_start u)))"

text \<open>The samples of a bucket, as a set.\<close>

definition bucket_set :: "sample_row set \<Rightarrow> string \<Rightarrow> resolution \<Rightarrow> int \<Rightarrow> sample_row set" where
  "bucket_set H host r start = {s \<in> H. smp_host s = host \<and> bucket_of r (smp_observed_ms s) = start}"

lemma bucket_samples_set:
  "bucket_milliseconds r dvd start \<Longrightarrow>
     set (bucket_samples d host start (start + bucket_milliseconds r)) = bucket_set (set (samples d)) host r start"
  by (auto simp: bucket_samples_def bucket_set_def bucket_of_unique)

lemma bucket_samples_card:
  assumes "distinct (map smp_id (samples d))" and "bucket_milliseconds r dvd start"
  shows "length (bucket_samples d host start (start + bucket_milliseconds r)) = card (bucket_set (set (samples d)) host r start)"
proof -
  have "distinct (bucket_samples d host start (start + bucket_milliseconds r))"
    using assms(1) by (simp add: bucket_samples_def distinct_map)
  then show ?thesis unfolding bucket_samples_set [OF assms(2), of d host, symmetric] by (simp add: distinct_card)
qed


lemma bucket_bounds_Inr: "bucket_bounds e start r = Inr b \<Longrightarrow> br_start b = start \<and> br_end b = start + bucket_milliseconds r"
  by (auto simp: bucket_bounds_def checked_add_i64_def split: if_splits)

text \<open>The groups of a bucket: one per series, with as many members as the bucket has samples of it.\<close>

lemma bucket_groups:
  assumes ok: "tables_ok d" and ld: "load_raw_partition d host b = Inr ss"
    and b: "br_start b = start" "br_end b = start + bucket_milliseconds r" and dvd: "bucket_milliseconds r dvd start"
  defines "B \<equiv> bucket_set (set (samples d)) host r start"
  shows "length ss = card B" and "rw_key ` set ss = key_of_row ` B"
    and "length (filter (\<lambda>s. rw_key s = k) ss) = card {s \<in> B. key_of_row s = k}"
    and "length (filter is_observed (filter (\<lambda>s. rw_key s = k) ss)) = card {s \<in> B. key_of_row s = k \<and> smp_quality s = ''observed''}"
proof -
  let ?rows = "sort_key (\<lambda>s. (smp_observed_ms s, smp_id s)) (bucket_samples d host start (start + bucket_milliseconds r))"
  have ss: "ss = map (raw_view d) ?rows"
    using load_raw_partition_view [OF ld] ok by (simp add: tables_ok_def b)
  have B: "set ?rows = B" using bucket_samples_set [OF dvd, of d host] by (simp add: B_def)
  have dist: "distinct ?rows" using ok by (simp add: tables_ok_def bucket_samples_def distinct_map)
  have count: "length (filter P ?rows) = card {s \<in> B. P s}" for P
    using distinct_card [OF distinct_filter [OF dist], of P] unfolding set_filter B by simp
  show "length ss = card B" using distinct_card [OF dist] unfolding ss B by simp
  show "rw_key ` set ss = key_of_row ` B" unfolding ss set_map B by (simp add: image_image)
  show "length (filter (\<lambda>s. rw_key s = k) ss) = card {s \<in> B. key_of_row s = k}"
    unfolding ss using count [of "\<lambda>s. key_of_row s = k"] by (simp add: filter_map comp_def)
  show "length (filter is_observed (filter (\<lambda>s. rw_key s = k) ss)) = card {s \<in> B. key_of_row s = k \<and> smp_quality s = ''observed''}"
    unfolding ss using count [of "\<lambda>s. key_of_row s = k \<and> smp_quality s = ''observed''"]
    by (simp add: filter_map comp_def is_observed_def conj_commute)
qed

lemma record_chain:
  assumes "d1 = d\<lparr>partitions := P\<rparr>" and "d' = d1\<lparr>rollups := R\<rparr>"
  shows "d' = d\<lparr>partitions := partitions d', rollups := rollups d'\<rparr> \<and> partitions d' = P"
  by (simp add: assms)

text \<open>What a successful compaction of one partition leaves.\<close>

definition compacted_into :: "rollup_db \<Rightarrow> string \<Rightarrow> resolution \<Rightarrow> int \<Rightarrow> partition_row \<Rightarrow> rollup_db \<Rightarrow> bool" where
  "compacted_into d host r start p d' =
     (let B = bucket_set (set (samples d)) host r start;
          K = (\<lambda>k. (host, k, r, start)) ` key_of_row ` B
      in d' = d\<lparr>partitions := partitions d', rollups := rollups d'\<rparr>
         \<and> bucket_key p = (host, r, start) \<and> pt_state p = ''complete''
         \<and> pt_input_count p = card B \<and> pt_series_count p = card (key_of_row ` B)
         \<and> set (partitions d') = insert p {q \<in> set (partitions d). bucket_key q \<noteq> (host, r, start)}
         \<and> {u \<in> set (rollups d'). rollup_key u \<notin> K} = {u \<in> set (rollups d). rollup_key u \<notin> K}
         \<and> (\<forall>k \<in> key_of_row ` B. \<exists>u \<in> set (rollups d'). rollup_key u = (host, k, r, start) \<and> ru_partition u = pt_id p
              \<and> sr_sample_count (ru_series u) = card {s \<in> B. key_of_row s = k}
              \<and> sr_observed_count (ru_series u) = card {s \<in> B. key_of_row s = k \<and> smp_quality s = ''observed''})
         \<and> (case find_partition d host r start of
              None \<Rightarrow> pt_pruned_at p = None \<and> pt_id p \<notin> pt_id ` set (partitions d)
            | Some q \<Rightarrow> pt_id p = pt_id q \<and> pt_pruned_at p = pt_pruned_at q \<and> pt_state q = ''complete''))"

lemma find_partition_SomeD:
  "find_partition d host r start = Some q \<Longrightarrow> q \<in> set (partitions d) \<and> bucket_key q = (host, r, start)"
  by (auto simp: find_partition_def find_Some_iff)

lemma compact_partition_effect:
  assumes ok: "tables_ok d" and run: "compact_partition e r c i d = Inr (True, d')"
    and dvd: "bucket_milliseconds r dvd ca_start c"
  shows "tables_ok d' \<and> (\<exists>p. compacted_into d (ca_host c) r (ca_start c) p d' \<and> pt_compacted_at p = ci_now i)"
proof -
  let ?host = "ca_host c" and ?start = "ca_start c"
  let ?B = "bucket_set (set (samples d)) ?host r ?start"
  obtain b where bb: "bucket_bounds e ?start r = Inr b" using run by (auto simp: compact_partition_def)
  note b = bucket_bounds_Inr [OF bb]
  let ?ex = "find_partition d ?host r ?start"
  obtain ss where ss: "load_raw_partition d ?host b = Inr ss"
    using run by (auto simp: compact_partition_def bb Let_def split: if_splits)
  note groups = bucket_groups [OF ok ss conjunct1 [OF b] conjunct2 [OF b] dvd]
  let ?pid = "case ?ex of Some p \<Rightarrow> pt_id p | None \<Rightarrow> ci_partition_id i"
  let ?p = "\<lparr>pt_id = ?pid, pt_host = ?host, pt_resolution = r, pt_start = br_start b, pt_end = br_end b,
      pt_input_count = ca_count c, pt_input_digest = partition_input_digest e ss,
      pt_series_count = length (group_by_series ss), pt_state = ''complete'', pt_compacted_at = ci_now i,
      pt_sealed_at = None, pt_pruned_at = None\<rparr>"
  have open_: "pt_state q = ''complete''" if "?ex = Some q" for q
  proof -
    have "pt_state q \<noteq> ''sealed''"
      using run that by (auto simp: compact_partition_def bb Let_def b pred_option_def split: if_splits)
    moreover have "partition_checks q"
      using find_partition_SomeD [OF that] ok by (auto simp: tables_ok_def)
    ultimately show ?thesis by (auto simp: partition_checks_def)
  qed
  obtain d1 where len: "length ss = ca_count c" and d1: "upsert_partition ?p d = Inr d1"
    and ws: "write_series e ?pid ?host r b i (group_by_series ss) d1 = Inr d'"
    using run by (auto simp: compact_partition_def bb ss Let_def b split: if_splits)
  have "distinct (map bucket_key (partitions d))" "distinct (map pt_id (partitions d))"
    using ok by (simp_all add: tables_ok_def)
  then obtain p where p: "bucket_key p = bucket_key ?p" "pt_id p = ?pid" "pt_end p = br_end b"
    "pt_input_count p = ca_count c" "pt_series_count p = length (group_by_series ss)" "pt_compacted_at p = ci_now i"
    "case ?ex of None \<Rightarrow> p = ?p \<and> pt_id ?p \<notin> pt_id ` set (partitions d)
     | Some q \<Rightarrow> pt_state p = pt_state q \<and> pt_sealed_at p = pt_sealed_at q \<and> pt_pruned_at p = pt_pruned_at q"
    "set (partitions d1) = insert p {q \<in> set (partitions d). bucket_key q \<noteq> bucket_key ?p}"
    "distinct (map bucket_key (partitions d1))" "distinct (map pt_id (partitions d1))"
    "d1 = d\<lparr>partitions := partitions d1\<rparr>" "partition_checks ?p"
    by (rule upsert_partition_effect [OF d1]) (simp_all add: b split: option.splits)
  have key: "bucket_key p = (?host, r, ?start)" using p(1) by (simp add: bucket_key_def b)
  have d1_eq: "samples d1 = samples d" "rollups d1 = rollups d" "runs d1 = runs d"
    by (subst p(11), simp)+
  have state: "pt_state p = ''complete'' \<and> partition_checks p"
  proof (cases ?ex)
    case None
    then show ?thesis using p(7,12) by simp
  next
    case (Some q)
    then have "partition_checks q" using find_partition_SomeD [OF Some] ok by (auto simp: tables_ok_def)
    then show ?thesis
      using p(1,3-5,7,12) open_ [OF Some] Some by (auto simp: partition_checks_def bucket_key_def)
  qed
  have "distinct (map rollup_key (rollups d1))" using ok by (simp add: d1_eq tables_ok_def)
  note W = write_series_effect [OF ws this group_by_series_keys(1)]
  let ?K = "(\<lambda>k. (?host, k, r, ?start)) ` key_of_row ` ?B"
  have W: "d' = d1\<lparr>rollups := rollups d'\<rparr>" "distinct (map rollup_key (rollups d'))"
      "{u \<in> set (rollups d'). rollup_key u \<notin> ?K} = {u \<in> set (rollups d). rollup_key u \<notin> ?K}"
      "\<forall>(k, g) \<in> set (group_by_series ss). \<exists>u \<in> set (rollups d'). rollup_key u = (?host, k, r, ?start) \<and> ru_partition u = ?pid
        \<and> sr_sample_count (ru_series u) = length g \<and> sr_observed_count (ru_series u) = length (filter is_observed g)"
    using W by (simp_all add: b groups(2) group_by_series_keys(2) d1_eq)
  have rows: "\<exists>u \<in> set (rollups d'). rollup_key u = (?host, k, r, ?start) \<and> ru_partition u = pt_id p
        \<and> sr_sample_count (ru_series u) = card {s \<in> ?B. key_of_row s = k}
        \<and> sr_observed_count (ru_series u) = card {s \<in> ?B. key_of_row s = k \<and> smp_quality s = ''observed''}"
    if "k \<in> key_of_row ` ?B" for k
  proof -
    have "k \<in> fst ` set (group_by_series ss)" using that by (simp add: group_by_series_keys(2) groups(2))
    then obtain g where g: "(k, g) \<in> set (group_by_series ss)" by auto
    from W(4) [THEN bspec, OF g] show ?thesis
      using group_by_series_keys(3) [OF g] groups(3,4) [of k] by (simp add: p(2))
  qed
  have d'_eq: "d' = d\<lparr>partitions := partitions d', rollups := rollups d'\<rparr>" and parts: "partitions d' = partitions d1"
    by (rule conjunct1 [OF record_chain [OF p(11) W(1)]], rule conjunct2 [OF record_chain [OF p(11) W(1)]])
  have same: "samples d' = samples d" "runs d' = runs d" by (subst d'_eq, simp)+
  have set_parts: "set (partitions d') = insert p {q \<in> set (partitions d). bucket_key q \<noteq> (?host, r, ?start)}"
    using p(8) key p(1) by (simp add: parts)
  have "compacted_into d ?host r ?start p d'"
    unfolding compacted_into_def Let_def
  proof (intro conjI ballI)
    show "pt_input_count p = card ?B" using p(4) len groups(1) by simp
    show "pt_series_count p = card (key_of_row ` ?B)" using p(5) groups(2) by (simp add: group_by_series_keys(4))
    show "case ?ex of None \<Rightarrow> pt_pruned_at p = None \<and> pt_id p \<notin> pt_id ` set (partitions d)
        | Some q \<Rightarrow> pt_id p = pt_id q \<and> pt_pruned_at p = pt_pruned_at q \<and> pt_state q = ''complete''"
      using p(2,7) open_ by (cases ?ex) auto
  qed (use key state set_parts W(3) rows d'_eq in auto)
  moreover have "tables_ok d'"
  proof -
    have "\<exists>q \<in> set (partitions d'). pt_id q = ru_partition u \<and> bucket_key q = (ru_host u, ru_resolution u, ru_start u)"
      if u: "u \<in> set (rollups d')" for u
    proof (cases "rollup_key u \<in> ?K")
      case True
      then obtain k where k: "k \<in> key_of_row ` ?B" "rollup_key u = (?host, k, r, ?start)" by auto
      obtain v where v: "v \<in> set (rollups d')" "rollup_key v = (?host, k, r, ?start)" "ru_partition v = pt_id p"
        using rows [OF k(1)] by blast
      have "v = u" using W(2) u v k(2) by (auto simp: distinct_map inj_on_def)
      then show ?thesis using v key k(2) set_parts by (auto simp: rollup_key_def)
    next
      case False
      then have "u \<in> set (rollups d)" using u W(3) by blast
      then obtain q where q: "q \<in> set (partitions d)" "pt_id q = ru_partition u" "bucket_key q = (ru_host u, ru_resolution u, ru_start u)"
        using ok unfolding tables_ok_def by blast
      show ?thesis
      proof (cases "bucket_key q = (?host, r, ?start)")
        case True
        then obtain q' where q': "?ex = Some q'" using q(1)
          by (cases ?ex) (auto simp: find_partition_def find_None_iff)
        then have "q' = q" using find_partition_SomeD [OF q'] q(1) True ok
          by (auto simp: tables_ok_def distinct_map inj_on_def)
        then show ?thesis using q' p(2) key q True set_parts by auto
      qed (use q set_parts in auto)
    qed
    moreover have "pt_end p = pt_start p + bucket_milliseconds (pt_resolution p) \<and> bucket_milliseconds (pt_resolution p) dvd pt_start p"
      using key p(3) dvd by (simp add: bucket_key_def b)
    ultimately show ?thesis
      using ok state W(2) p(9,10)
      by (auto simp: tables_ok_def same parts [symmetric] run_of_def set_parts)
  qed
  ultimately show ?thesis using p(6) by blast
qed

end
