(* ===== verification/RollupStatistics.thy ===== *)
theory RollupStatistics
  imports Rollup
begin

text \<open>
  What the numbers of a rollup mean: the settings fit the maintenance table, the mean of finite samples is
  finite and within their magnitude, the 95th percentile is the nearest-rank percentile, the counter delta
  is the sum of the increments between resets, and the hashed input determines the samples.
\<close>

subsection \<open>Rounding stays below a representable bound\<close>

lemma round_even_neg: "round_even (- q) = - round_even q"
proof (cases "q = of_int \<lfloor>q\<rfloor>")
  case True
  have "round_even (- of_int \<lfloor>q\<rfloor>) = - round_even (of_int \<lfloor>q\<rfloor>)"
    using round_even_of_int [of "- \<lfloor>q\<rfloor>"] by simp
  then show ?thesis using True by simp
next
  case False
  then have "\<lfloor>- q\<rfloor> = - \<lfloor>q\<rfloor> - 1"
    by (simp add: floor_minus ceiling_altdef)
  then show ?thesis by (auto simp: round_even_def Let_def)
qed

lemma ilog2_mono: "0 < q \<Longrightarrow> q \<le> s \<Longrightarrow> ilog2 q \<le> ilog2 s"
proof -
  assume q: "0 < q" "q \<le> s"
  then have "2 powi (ilog2 q) < (2 :: rat) powi (ilog2 s + 1)"
    using ilog2_bounds [of q] ilog2_bounds [of s] by linarith
  then show ?thesis using powi2_less_imp by fastforce
qed

lemma ulp_multiple:
  assumes "0 < q" and "q \<le> s"
  shows "\<exists>j :: nat. ulp s = 2 ^ j * ulp q"
proof -
  let ?a = "max (ilog2 s - 52) (- 1074)" and ?b = "max (ilog2 q - 52) (- 1074)"
  have "?b \<le> ?a" using ilog2_mono [OF assms] by simp
  then have "(2 :: rat) powi ?a = 2 ^ nat (?a - ?b) * 2 powi ?b"
    by (simp add: power_int_def [of _ "?a - ?b", symmetric] power_int_add [symmetric] flip: power_int_of_nat)
  then show ?thesis unfolding ulp_def by blast
qed

lemma round_f64_le:
  assumes q: "0 \<le> q" "q \<le> s" and s: "round_f64 s = Fin s"
  shows "\<exists>v. round_f64 q = Fin v \<and> 0 \<le> v \<and> v \<le> s"
proof (cases "q = 0")
  case True
  then show ?thesis using q by (simp add: round_f64_def)
next
  case False
  with q have q0: "0 < q" and s0: "0 < s" by simp_all
  have sm: "of_int (round_even (s / ulp s)) * ulp s = s" and lim: "s < 2 ^ 1024"
    using s s0 by (auto simp: round_f64_def Let_def split: if_splits)
  obtain j where j: "ulp s = 2 ^ j * ulp q" using ulp_multiple [OF q0 q(2)] by blast
  let ?k = "round_even (s / ulp s) * 2 ^ j"
  have sk: "s = of_int ?k * ulp q" using sm j by (simp add: mult.assoc)
  have "q / ulp q \<le> of_int ?k" using q(2) sk ulp_pos [of q] by (metis pos_divide_le_eq)
  then have "round_even (q / ulp q) \<le> ?k" by (rule round_even_mono_int)
  then have "(of_int (round_even (q / ulp q)) :: rat) \<le> of_int ?k" by (simp only: of_int_le_iff)
  then have le: "of_int (round_even (q / ulp q)) * ulp q \<le> s"
    using sk ulp_pos [of q] by (metis mult_right_mono less_imp_le)
  have ge: "0 \<le> of_int (round_even (q / ulp q)) * ulp q"
    using round_even_ge_int [of 0 "q / ulp q"] q0 ulp_pos [of q] by simp
  have "- (2 ^ 1024) < (0 :: rat)" by simp
  then show ?thesis using q0 le ge lim unfolding round_f64_def Let_def by auto
qed

lemma round_f64_neg: "round_f64 (- q) = f_neg (round_f64 q)"
proof (cases "q = 0")
  case True
  then show ?thesis by (simp add: round_f64_def)
next
  case False
  let ?v = "of_int (round_even (q / ulp \<bar>q\<bar>)) * ulp \<bar>q\<bar>"
  have "of_int (round_even (- q / ulp \<bar>- q\<bar>)) * ulp \<bar>- q\<bar> = - ?v"
    using round_even_neg [of "q / ulp \<bar>q\<bar>"] by simp
  moreover have "(0 :: rat) < 2 ^ 1024" by simp
  ultimately show ?thesis using False unfolding round_f64_def Let_def by auto
qed

lemma round_f64_abs_le:
  assumes "\<bar>q\<bar> \<le> s" and "round_f64 s = Fin s"
  shows "\<exists>v. round_f64 q = Fin v \<and> \<bar>v\<bar> \<le> s"
proof (cases "0 \<le> q")
  case True
  then show ?thesis using round_f64_le [of q s] assms by auto
next
  case False
  then obtain v where "round_f64 (- q) = Fin v" "0 \<le> v" "v \<le> s" using round_f64_le [of "- q" s] assms by auto
  then show ?thesis using round_f64_neg [of "- q"] by (intro exI [of _ "- v"]) simp
qed

subsection \<open>The mean of a gauge\<close>

text \<open>A finite double: a rational that rounding leaves alone.\<close>

definition finite_double :: "f64 \<Rightarrow> bool" where
  "finite_double x = (case x of Fin q \<Rightarrow> round_f64 q = Fin q | _ \<Rightarrow> False)"

lemma finite_doubleE:
  assumes "finite_double x"
  obtains q where "x = Fin q" and "round_f64 q = Fin q" and "round_f64 \<bar>q\<bar> = Fin \<bar>q\<bar>"
proof -
  obtain q where q: "x = Fin q" "round_f64 q = Fin q" using assms by (cases x) (auto simp: finite_double_def)
  moreover have "round_f64 \<bar>q\<bar> = Fin \<bar>q\<bar>" using q(2) round_f64_neg [of q] by (simp add: abs_if)
  ultimately show thesis by (rule that)
qed

lemma gauge_scale:
  assumes "\<forall>v \<in> set vs. finite_double v" and "round_f64 a = Fin a" and "0 \<le> a"
  shows "\<exists>s. fold (\<lambda>v m. f_max m v) (map f_abs vs) (Fin a) = Fin s \<and> a \<le> s \<and> round_f64 s = Fin s
    \<and> (\<forall>v \<in> set vs. \<bar>f_value v\<bar> \<le> s) \<and> (s = a \<or> (\<exists>v \<in> set vs. s = \<bar>f_value v\<bar>))"
  using assms
proof (induction vs arbitrary: a)
  case (Cons v vs)
  obtain q where q: "v = Fin q" "round_f64 \<bar>q\<bar> = Fin \<bar>q\<bar>"
    using Cons.prems(1) by (auto elim: finite_doubleE)
  have abs: "f_abs v = Fin \<bar>q\<bar>" by (simp add: f_abs_def q(1))
  let ?a = "max a \<bar>q\<bar>"
  have step: "f_max (Fin a) (f_abs v) = Fin ?a" by (simp add: abs f_max_def max_def)
  have "round_f64 ?a = Fin ?a" using q(2) Cons.prems(2) by (simp add: max_def)
  moreover have "0 \<le> ?a" using Cons.prems(3) by simp
  ultimately obtain s where s: "fold (\<lambda>v m. f_max m v) (map f_abs vs) (Fin ?a) = Fin s" "?a \<le> s" "round_f64 s = Fin s"
      "\<forall>v \<in> set vs. \<bar>f_value v\<bar> \<le> s" "s = ?a \<or> (\<exists>v \<in> set vs. s = \<bar>f_value v\<bar>)"
    using Cons.IH [of ?a] Cons.prems(1) by auto
  have "\<forall>w \<in> set (v # vs). \<bar>f_value w\<bar> \<le> s" using s(2,4) by (simp add: q(1))
  moreover have "s = a \<or> (\<exists>w \<in> set (v # vs). s = \<bar>f_value w\<bar>)" using s(5) by (auto simp: q(1) max_def split: if_splits)
  ultimately show ?case using s(1-3) step by (intro exI [of _ s]) simp
qed simp

lemma gauge_sum:
  assumes "\<forall>v \<in> set vs. \<exists>q. v = Fin q \<and> \<bar>q\<bar> \<le> s" and "0 < s" and "\<bar>a\<bar> \<le> of_nat k" and "k + length vs < 2 ^ 53"
  shows "\<exists>t. fold (\<lambda>v x. f_add x (f_div v (Fin s))) vs (Fin a) = Fin t \<and> \<bar>t\<bar> \<le> of_nat (k + length vs)"
  using assms
proof (induction vs arbitrary: a k)
  case (Cons v vs)
  obtain q where q: "v = Fin q" "\<bar>q\<bar> \<le> s" using Cons.prems(1) by auto
  have one: "round_f64 1 = Fin 1" using f_of_nat_exact [of 1] by (simp add: f_of_nat_def)
  have "\<bar>q / s\<bar> \<le> 1" using q(2) Cons.prems(2) by (simp add: abs_divide)
  then obtain u where u: "round_f64 (q / s) = Fin u" "\<bar>u\<bar> \<le> 1" using round_f64_abs_le [OF _ one] by blast
  have "round_f64 (of_nat (Suc k)) = Fin (of_nat (Suc k))"
    using f_of_nat_exact [of "Suc k"] Cons.prems(4) by (simp add: f_of_nat_def)
  moreover have "\<bar>a + u\<bar> \<le> of_nat (Suc k)" using u(2) Cons.prems(3) by simp
  ultimately obtain b where b: "round_f64 (a + u) = Fin b" "\<bar>b\<bar> \<le> of_nat (Suc k)"
    using round_f64_abs_le by blast
  have "\<exists>t. fold (\<lambda>v x. f_add x (f_div v (Fin s))) vs (Fin b) = Fin t \<and> \<bar>t\<bar> \<le> of_nat (Suc k + length vs)"
    using Cons.prems b(2) by (intro Cons.IH) auto
  then show ?case using Cons.prems(2) by (simp add: q(1) u(1) b(1))
qed auto

lemma gauge_average_bound:
  assumes fin: "\<forall>v \<in> set vs. finite_double v" and ne: "vs \<noteq> []" and len: "length vs < 2 ^ 53"
  shows "\<exists>a. gauge_average vs = Fin a \<and> (\<exists>v \<in> set vs. \<bar>a\<bar> \<le> \<bar>f_value v\<bar>)"
proof -
  have zero: "round_f64 0 = Fin 0" by (simp add: round_f64_def)
  obtain s where s: "fold (\<lambda>v m. f_max m v) (map f_abs vs) (Fin 0) = Fin s" "0 \<le> s" "round_f64 s = Fin s"
      "\<forall>v \<in> set vs. \<bar>f_value v\<bar> \<le> s" "s = 0 \<or> (\<exists>v \<in> set vs. s = \<bar>f_value v\<bar>)"
    using gauge_scale [OF fin zero] by auto
  show ?thesis
  proof (cases "s = 0")
    case True
    obtain v where "v \<in> set vs" using ne by (cases vs) auto
    then show ?thesis by (intro exI [of _ 0]) (auto simp: gauge_average_def s(1) True intro!: bexI [of _ v])
  next
    case False
    with s(2) have pos: "0 < s" by simp
    have "\<forall>v \<in> set vs. \<exists>q. v = Fin q \<and> \<bar>q\<bar> \<le> s"
    proof
      fix v assume v: "v \<in> set vs"
      then obtain q where "v = Fin q" using fin by (auto elim: finite_doubleE)
      then show "\<exists>q. v = Fin q \<and> \<bar>q\<bar> \<le> s" using s(4) v by auto
    qed
    then obtain t where t: "fold (\<lambda>v x. f_add x (f_div v (Fin s))) vs (Fin 0) = Fin t"
      using gauge_sum [of vs s 0 0] pos len by auto
    have n: "f_of_nat (length vs) = Fin (of_nat (length vs))" by (rule f_of_nat_exact [OF len])
    have nz: "(of_nat (length vs) :: rat) \<noteq> 0" using ne by simp
    let ?d = "f_div (Fin t) (f_of_nat (length vs))"
    have "\<exists>c. f_clamp ?d (Fin (- 1)) (Fin 1) = Fin c \<and> \<bar>c\<bar> \<le> 1"
    proof -
      have "?d \<noteq> NaN" using nz by (simp add: n round_f64_def Let_def)
      then show ?thesis by (cases ?d) (auto simp: f_clamp_def)
    qed
    then obtain c where c: "f_clamp ?d (Fin (- 1)) (Fin 1) = Fin c" "\<bar>c\<bar> \<le> 1" by blast
    have "\<bar>c * s\<bar> \<le> s" using c(2) pos by (simp add: abs_mult mult_left_le_one_le)
    then obtain a where a: "round_f64 (c * s) = Fin a" "\<bar>a\<bar> \<le> s" using round_f64_abs_le [OF _ s(3)] by blast
    have "gauge_average vs = Fin a" using False by (simp add: gauge_average_def s(1) t c(1) a(1))
    moreover obtain v where "v \<in> set vs" "s = \<bar>f_value v\<bar>" using s(5) False by auto
    ultimately show ?thesis using a(2) by auto
  qed
qed

subsection \<open>The percentile\<close>

lemma sorted_counts:
  assumes "sorted xs" and "r < length xs"
  shows "r < length (filter (\<lambda>x. x \<le> xs ! r) xs)" and "length (filter (\<lambda>x. x < xs ! r) xs) \<le> r"
proof -
  have "card {..r} \<le> card {i. i < length xs \<and> xs ! i \<le> xs ! r}"
    using assms by (intro card_mono) (auto intro: sorted_nth_mono)
  then show "r < length (filter (\<lambda>x. x \<le> xs ! r) xs)" by (simp add: length_filter_conv_card)
  have "{i. i < length xs \<and> xs ! i < xs ! r} \<subseteq> {..<r}"
  proof
    fix i assume "i \<in> {i. i < length xs \<and> xs ! i < xs ! r}"
    then show "i \<in> {..<r}" using sorted_nth_mono [OF assms(1), of r i] by (cases "r \<le> i") auto
  qed
  then have "card {i. i < length xs \<and> xs ! i < xs ! r} \<le> card {..<r}" by (intro card_mono) auto
  then show "length (filter (\<lambda>x. x < xs ! r) xs) \<le> r" by (simp add: length_filter_conv_card)
qed

lemma percentile_rank_eq:
  assumes "0 < n" and "n \<le> u32_max"
  shows "percentile_rank n = (n * 95 + 99) div 100 - 1" and "percentile_rank n < n"
proof -
  have "n * 95 + 99 \<le> u64_max" using assms(2) by (simp add: u32_max_def u64_max_def)
  then have "percentile_rank n = min ((n * 95 + 99) div 100 - 1) (n - 1)"
    by (simp add: percentile_rank_def sat_add64_def)
  moreover have "(n * 95 + 99) div 100 - 1 \<le> n - 1" using assms(1) by linarith
  ultimately show "percentile_rank n = (n * 95 + 99) div 100 - 1" "percentile_rank n < n" using assms(1) by simp_all
qed

lemma percentile_rank_bounds:
  assumes "0 < n" and "n \<le> u32_max"
  shows "95 * n \<le> 100 * (percentile_rank n + 1) \<and> 100 * percentile_rank n < 95 * n"
proof -
  let ?m = "n * 95 + 99"
  have "100 * (?m div 100) \<le> ?m" and "?m < 100 * (?m div 100) + 100"
    using mult_div_mod_eq [of 100 ?m] mod_less_divisor [of 100 ?m] by linarith+
  moreover have "1 \<le> ?m div 100" using assms(1) by simp
  ultimately show ?thesis
    unfolding percentile_rank_eq(1) [OF assms] by (cases "?m div 100") simp_all
qed

text \<open>
  The statistics of a bucket of finite gauge samples: least and greatest are the ends of the sorted
  list, the mean is a finite number that is never larger in magnitude than the largest sample, although
  summing the samples could overflow, and the 95th percentile is the nearest-rank one: a sample such that
  at least 95% of the samples are not above it and fewer than 95% are below it.
\<close>

theorem gauge_statistics_correct:
  assumes ne: "vs \<noteq> []" and fin: "\<forall>v \<in> set vs. finite_double v" and sorted: "sorted (map f_value vs)"
    and len: "length vs \<le> u32_max"
  shows "\<exists>a p. gauge_statistics_of vs
        = \<lparr>gs_min = Some (hd vs), gs_max = Some (last vs), gs_average = Some (Fin a), gs_p95 = Some p\<rparr>
      \<and> (\<exists>v \<in> set vs. \<bar>a\<bar> \<le> \<bar>f_value v\<bar>) \<and> p \<in> set vs
      \<and> 95 * length vs \<le> 100 * length (filter (\<lambda>v. f_value v \<le> f_value p) vs)
      \<and> 100 * length (filter (\<lambda>v. f_value v < f_value p) vs) < 95 * length vs"
proof -
  let ?n = "length vs" and ?r = "percentile_rank (length vs)"
  have n: "0 < ?n" "?n < 2 ^ 53" using ne len by (simp_all add: u32_max_def)
  obtain a where a: "gauge_average vs = Fin a" "\<exists>v \<in> set vs. \<bar>a\<bar> \<le> \<bar>f_value v\<bar>"
    using gauge_average_bound [OF fin ne n(2)] by blast
  note rank = percentile_rank_eq [OF n(1) len]
  have "?r < length (map f_value vs)" using rank(2) by simp
  note counts = sorted_counts [OF sorted this]
  have le: "?r < length (filter (\<lambda>v. f_value v \<le> f_value (vs ! ?r)) vs)"
    using counts(1) rank(2) by (simp add: filter_map comp_def)
  have less: "length (filter (\<lambda>v. f_value v < f_value (vs ! ?r)) vs) \<le> ?r"
    using counts(2) rank(2) by (simp add: filter_map comp_def)
  from percentile_rank_bounds [OF n(1) len] show ?thesis
    using a le less rank(2) ne
    by (intro exI [of _ a] exI [of _ "vs ! ?r"]) (simp add: gauge_statistics_of_def)
qed

theorem gauge_statistics_correct_witness:
  "\<exists>a p. gauge_statistics_of [Fin 1, Fin 3] = \<lparr>gs_min = Some (Fin 1), gs_max = Some (Fin 3),
      gs_average = Some (Fin a), gs_p95 = Some p\<rparr> \<and> \<bar>a\<bar> \<le> 3 \<and> p \<in> {Fin 1, Fin 3}"
proof -
  have one: "round_f64 1 = Fin 1" using f_of_nat_exact [of 1] by (simp add: f_of_nat_def)
  have three: "round_f64 3 = Fin 3" using f_of_nat_exact [of 3] by (simp add: f_of_nat_def)
  show ?thesis
    using gauge_statistics_correct [of "[Fin 1, Fin 3]"] one three
    by (fastforce simp: finite_double_def u32_max_def)
qed

subsection \<open>The delta of a counter\<close>

text \<open>The reading before each reading, and the transitions that count as a reset.\<close>

fun readings :: "(int \<times> string option) option \<Rightarrow> (int \<times> string option) list
    \<Rightarrow> ((int \<times> string option) \<times> (int \<times> string option)) list" where
  "readings _ [] = []"
| "readings None (x # xs) = readings (Some x) xs"
| "readings (Some p) (x # xs) = (p, x) # readings (Some x) xs"

fun is_reset :: "(int \<times> string option) \<times> (int \<times> string option) \<Rightarrow> bool" where
  "is_reset ((p, boot), (v, boot')) = (boot_changed boot boot' \<or> v < p)"

definition increments :: "((int \<times> string option) \<times> (int \<times> string option)) list \<Rightarrow> int list" where
  "increments ts = map (\<lambda>((p, _), (v, _)). v - p) (filter (\<lambda>t. \<not> is_reset t) ts)"

lemma increments_nonneg: "0 \<le> sum_list (increments ts)"
  by (rule sum_list_nonneg) (auto simp: increments_def)

definition reading :: "raw_sample \<times> int \<Rightarrow> int \<times> string option" where
  "reading = (\<lambda>(s, v). (v, rw_boot s))"

lemma reading_simp [simp]: "reading (s, v) = (v, rw_boot s)"
  by (simp add: reading_def)

lemma wrap_i64_id: "0 \<le> x \<Longrightarrow> x \<le> i64_max \<Longrightarrow> wrap_i64 x = x"
  by (simp add: wrap_i64_def i64_max_def)

lemma counter_fold:
  assumes "\<forall>(s, v) \<in> set obs. 0 \<le> v \<and> v \<le> i64_max"
    and "\<forall>p b. ct_previous c = Some (p, b) \<longrightarrow> 0 \<le> p"
    and "0 \<le> ct_delta c" and "ct_delta c \<le> i64_max"
    and "ct_resets c + length obs \<le> u32_max" and "ct_transitions c + length obs \<le> u32_max"
  defines "ts \<equiv> readings (ct_previous c) (map reading obs)"
  shows "ct_resets (fold counter_step obs c) = ct_resets c + length (filter is_reset ts)
    \<and> (if ct_overflowed c then ct_overflowed (fold counter_step obs c)
       else ct_overflowed (fold counter_step obs c) = (i64_max < ct_delta c + sum_list (increments ts))
         \<and> (\<not> ct_overflowed (fold counter_step obs c) \<longrightarrow>
              ct_delta (fold counter_step obs c) = ct_delta c + sum_list (increments ts)
              \<and> ct_transitions (fold counter_step obs c) = ct_transitions c + length (increments ts)))"
  using assms(1-6) unfolding ts_def
proof (induction obs arbitrary: c)
  case Nil
  then show ?case by (simp add: increments_def)
next
  case (Cons x obs)
  obtain s v where x: "x = (s, v)" by (cases x)
  have v: "0 \<le> v" "v \<le> i64_max" using Cons.prems(1) by (auto simp: x)
  show ?case
  proof (cases "ct_previous c")
    case None
    let ?c = "c\<lparr>ct_previous := Some (v, rw_boot s)\<rparr>"
    have step: "counter_step (s, v) c = ?c" by (simp add: counter_step_def None)
    show ?thesis using Cons.IH [of ?c] Cons.prems v by (simp add: step None x cong: if_cong)
  next
    case (Some pb)
    obtain p boot where pb: "pb = (p, boot)" by (cases pb)
    have p: "0 \<le> p" using Cons.prems(2) Some pb by auto
    show ?thesis
    proof (cases "is_reset ((p, boot), (v, rw_boot s))")
      case True
      let ?c = "c\<lparr>ct_resets := ct_resets c + 1, ct_previous := Some (v, rw_boot s)\<rparr>"
      have step: "counter_step (s, v) c = ?c"
        using True Cons.prems(5) by (auto simp: counter_step_def Some pb sat_add32_def)
      show ?thesis
        using Cons.IH [of ?c] Cons.prems v True by (simp add: step Some pb x increments_def cong: if_cong)
    next
      case False
      then have le: "p \<le> v" by auto
      then have w: "wrap_i64 (v - p) = v - p" using p v by (intro wrap_i64_id) simp_all
      show ?thesis
      proof (cases "ct_delta c + (v - p) \<le> i64_max")
        case True
        let ?c = "c\<lparr>ct_delta := ct_delta c + (v - p), ct_transitions := ct_transitions c + 1,
            ct_previous := Some (v, rw_boot s)\<rparr>"
        have step: "counter_step (s, v) c = ?c"
          using False True Cons.prems(3,6) le w
          by (auto simp: counter_step_def Some pb sat_add32_def checked_add_i64_def i64_min_def)
        show ?thesis
          using Cons.IH [of ?c] Cons.prems v False True le
          by (simp add: step Some pb x increments_def algebra_simps cong: if_cong)
      next
        case over: False
        let ?c = "c\<lparr>ct_overflowed := True, ct_previous := Some (v, rw_boot s)\<rparr>"
        have step: "counter_step (s, v) c = ?c"
          using False over Cons.prems(3) le w
          by (auto simp: counter_step_def Some pb checked_add_i64_def i64_min_def)
        have "i64_max < ct_delta c + ((v - p) + sum_list (increments (readings (Some (v, rw_boot s)) (map reading obs))))"
          using over increments_nonneg [of "readings (Some (v, rw_boot s)) (map reading obs)"] by linarith
        then show ?thesis
          using Cons.IH [of ?c] Cons.prems v False by (simp add: step Some pb x increments_def cong: if_cong)
      qed
    qed
  qed
qed


lemma observed_integers_length: "length (observed_integers ss) \<le> length ss"
proof -
  have "length (List.map_filter f xs) \<le> length xs" for f :: "raw_sample \<Rightarrow> (raw_sample \<times> int) option" and xs
    by (induction xs) (simp_all add: map_filter_simps le_SucI split: option.split)
  from this [of "\<lambda>s. map_option (Pair s) (rw_integer s)" "filter (\<lambda>s. rw_quality s = ''observed'') ss"]
  show ?thesis unfolding observed_integers_def by (meson length_filter_le le_trans)
qed

lemma observed_integers_mem: "(s, v) \<in> set (observed_integers ss) \<Longrightarrow> s \<in> set ss \<and> rw_integer s = Some v"
  by (auto simp: observed_integers_def map_filter_def)

text \<open>
  C38. The counter of a bucket: with non-negative readings, the resets reported are the transitions at which
  the boot identifier changed or the value fell, the delta is the sum of the increments over all the other
  transitions (the boundary reading of an earlier bucket included), it is missing exactly when there is no
  such transition or the sum does not fit 64 bits, and the overflow is reported.
\<close>

theorem counter_delta_correct:
  assumes vals: "\<forall>s \<in> set ss. \<forall>v. rw_integer s = Some v \<longrightarrow> 0 \<le> v \<and> v \<le> i64_max"
    and bound: "\<forall>b. boundary = Some b \<longrightarrow> 0 \<le> cb_value b"
    and len: "length ss \<le> u32_max" and ne: "observed_integers ss \<noteq> []"
  defines "ts \<equiv> readings (map_option (\<lambda>b. (cb_value b, cb_boot b)) boundary) (map reading (observed_integers ss))"
  shows "cs_reset_count (aggregate_counter ss boundary) = length (filter is_reset ts)
    \<and> cs_overflowed (aggregate_counter ss boundary) = (i64_max < sum_list (increments ts))
    \<and> cs_delta (aggregate_counter ss boundary) =
        (if increments ts = [] \<or> i64_max < sum_list (increments ts) then None else Some (sum_list (increments ts)))"
proof -
  let ?c = "\<lparr>ct_previous = map_option (\<lambda>b. (cb_value b, cb_boot b)) boundary, ct_delta = 0,
      ct_transitions = 0, ct_resets = 0, ct_overflowed = False\<rparr>"
  let ?r = "fold counter_step (observed_integers ss) ?c"
  have "\<forall>(s, v) \<in> set (observed_integers ss). 0 \<le> v \<and> v \<le> i64_max"
    using vals by (auto dest!: observed_integers_mem)
  moreover have "\<forall>p b. ct_previous ?c = Some (p, b) \<longrightarrow> 0 \<le> p" using bound by auto
  moreover have "length (observed_integers ss) \<le> u32_max" using observed_integers_length len by (rule le_trans)
  ultimately have fold: "ct_resets ?r = length (filter is_reset ts)"
      "ct_overflowed ?r = (i64_max < sum_list (increments ts))"
      "\<not> ct_overflowed ?r \<Longrightarrow> ct_delta ?r = sum_list (increments ts) \<and> ct_transitions ?r = length (increments ts)"
    using counter_fold [of "observed_integers ss" ?c] by (simp_all add: ts_def i64_max_def)
  obtain p rest where o: "observed_integers ss = p # rest" using ne by (cases "observed_integers ss") auto
  have "aggregate_counter ss boundary = \<lparr>cs_first = Some (snd p), cs_last = Some (snd (last (p # rest))),
      cs_delta = (if \<not> ct_overflowed ?r \<and> 0 < ct_transitions ?r then Some (ct_delta ?r) else None),
      cs_reset_count = ct_resets ?r, cs_boundary = map_option cb_sample boundary, cs_overflowed = ct_overflowed ?r\<rparr>"
    by (cases p) (simp add: aggregate_counter_def o Let_def)
  then show ?thesis using fold by auto
qed

text \<open>A sample of a counter, at which the witnesses evaluate.\<close>

definition sample_raw :: "string \<Rightarrow> int \<Rightarrow> int \<Rightarrow> string option \<Rightarrow> raw_sample" where
  "sample_raw i t v boot = \<lparr>rw_id = i, rw_run = ''r'',
     rw_key = \<lparr>sk_family = ''network'', sk_subject_kind = ''interface'', sk_subject_id = ''b:1'',
       sk_metric = ''rx_bytes'', sk_dims_sha = [], sk_kind = ''counter'', sk_source = ''ssh_host_resource_v1'',
       sk_unit = ''bytes''\<rparr>,
     rw_dims_json = ''{}'', rw_real = None, rw_integer = Some v, rw_quality = ''observed'', rw_observed_at = t,
     rw_epoch = t, rw_boot = boot\<rparr>"

theorem counter_delta_correct_witness:
  "cs_delta (aggregate_counter [sample_raw ''a'' 0 5 (Some ''x''), sample_raw ''b'' 1 9 (Some ''y''),
      sample_raw ''c'' 2 12 (Some ''y'')] (Some \<lparr>cb_sample = ''p'', cb_value = 1, cb_boot = Some ''x''\<rparr>)) = Some 7"
proof -
  let ?ss = "[sample_raw ''a'' 0 5 (Some ''x''), sample_raw ''b'' 1 9 (Some ''y''), sample_raw ''c'' 2 12 (Some ''y'')]"
  have o: "observed_integers ?ss = [(?ss ! 0, 5), (?ss ! 1, 9), (?ss ! 2, 12)]"
    by (simp add: observed_integers_def map_filter_simps sample_raw_def)
  show ?thesis
    using counter_delta_correct [of ?ss "Some \<lparr>cb_sample = ''p'', cb_value = 1, cb_boot = Some ''x''\<rparr>"]
    unfolding o by (simp add: sample_raw_def i64_max_def u32_max_def boot_changed_def increments_def)
qed

subsection \<open>What a digest determines\<close>

lemma length_bytes_length [simp]: "length (length_bytes n) = 8"
  by (simp add: length_bytes_def)

lemma length_bytes_inj:
  assumes "length_bytes m = length_bytes n" and "m < 2 ^ 64" and "n < 2 ^ 64"
  shows "m = n"
proof -
  have "\<forall>i \<in> set [7, 6, 5, 4, 3, 2, 1, 0 :: nat]. char_of (m div 256 ^ i) = (char_of (n div 256 ^ i) :: char)"
    using assms(1) unfolding length_bytes_def map_eq_conv .
  moreover have "set [7, 6, 5, 4, 3, 2, 1, 0 :: nat] = {..<8}" by (auto simp: set_eq_iff)
  ultimately have all: "\<forall>i \<in> {..<8}. char_of (m div 256 ^ i) = (char_of (n div 256 ^ i) :: char)" by (simp only:)
  have byte: "m div 256 ^ i mod 256 = n div 256 ^ i mod 256" if "i < 8" for i
  proof -
    have "char_of (m div 256 ^ i) = (char_of (n div 256 ^ i) :: char)"
      using all that by simp
    then show ?thesis by (metis of_char_of)
  qed
  have low: "k mod 256 ^ Suc i = k mod 256 ^ i + 256 ^ i * (k div 256 ^ i mod 256)" for k i :: nat
    using mod_mult2_eq [of k "256 ^ i" 256] by (simp add: mult.commute)
  have "m mod 256 ^ i = n mod 256 ^ i" if "i \<le> 8" for i
    using that
  proof (induction i)
    case (Suc i)
    then show ?case using byte [of i] by (simp only: low)
  qed simp
  from this [of 8] have "m mod 2 ^ 64 = n mod 2 ^ 64" by simp
  then show ?thesis using assms(2,3) by (simp only: mod_less)
qed

lemma digest_field_nonempty [simp]: "digest_field v \<noteq> []"
  by (metis digest_field_def append_is_Nil_conv length_bytes_length list.size(3) zero_neq_numeral)

lemma fields_decodable:
  assumes "concat (map digest_field fs) = concat (map digest_field gs)"
    and "\<forall>f \<in> set fs. length f < 2 ^ 64" and "\<forall>g \<in> set gs. length g < 2 ^ 64"
  shows "fs = gs"
  using assms
proof (induction fs arbitrary: gs)
  case Nil
  then show ?case by (cases gs) simp_all
next
  case (Cons f fs)
  obtain g gs' where gs: "gs = g # gs'"
    using Cons.prems(1) by (cases gs) simp_all
  have "length_bytes (length f) = length_bytes (length g)"
    and rest: "f @ concat (map digest_field fs) = g @ concat (map digest_field gs')"
    using Cons.prems(1) by (simp_all add: gs digest_field_def [of f] digest_field_def [of g])
  then have "length f = length g" using Cons.prems(2,3) by (intro length_bytes_inj) (simp_all add: gs)
  then have "f = g" "concat (map digest_field fs) = concat (map digest_field gs')" using rest by simp_all
  then show ?case using Cons.IH [of gs'] Cons.prems(2,3) by (simp add: gs)
qed

lemma equal_blocks:
  assumes "concat xs = concat ys" and "\<forall>x \<in> set xs. length x = k" and "\<forall>y \<in> set ys. length y = k" and "0 < k"
  shows "xs = ys"
  using assms(1-3)
proof (induction xs arbitrary: ys)
  case Nil
  then show ?case using assms(4) by (cases ys) auto
next
  case (Cons x xs)
  then obtain y ys' where "ys = y # ys'" using assms(4) by (cases ys) auto
  with Cons show ?case by auto
qed

lemma digests_concat: "concat (map (digest_sample e) ss) = concat (map digest_field (concat (map (sample_fields e) ss)))"
  by (induction ss) (simp_all add: digest_sample_def)

text \<open>
  The input digest of a partition is a digest of its samples: two lists of samples with the same digest
  have the same fields sample by sample, the length prefixes rule out that bytes move from one field to
  another, unless they exhibit two different texts with the same SHA-256.
\<close>

theorem partition_digest_separates:
  assumes same: "partition_input_digest e ss = partition_input_digest e ss'"
    and len: "\<forall>s \<in> set ss \<union> set ss'. \<forall>f \<in> set (sample_fields e s). length f < 2 ^ 64"
    and bytes: "\<forall>v. \<forall>b \<in> set (sha256 e v). b < 256"
  shows "map (sample_fields e) ss = map (sample_fields e) ss'
    \<or> (\<exists>a b. a \<noteq> b \<and> sha256 e a = sha256 e b)"
proof (cases "concat (map (digest_sample e) ss) = concat (map (digest_sample e) ss')")
  case True
  then have "concat (map (sample_fields e) ss) = concat (map (sample_fields e) ss')"
    unfolding digests_concat using len by (intro fields_decodable) auto
  then have "map (sample_fields e) ss = map (sample_fields e) ss'"
    by (rule equal_blocks [where k = 17]) (auto simp: sample_fields_def)
  then show ?thesis ..
next
  case False
  moreover have "sha256 e (concat (map (digest_sample e) ss)) = sha256 e (concat (map (digest_sample e) ss'))"
    using same bytes by (intro hex_digest_inj) (auto simp: partition_input_digest_def)
  ultimately show ?thesis by blast
qed

definition sample_rollup_env :: rollup_env where
  "sample_rollup_env = env.extend sample_env
     (rollup_env.fields show_int (\<lambda>x. nat \<lfloor>\<bar>f_value x\<bar>\<rfloor>) (\<lambda>t. 0 \<le> t \<and> t < 2 ^ 60))
     \<lparr>sha256 := \<lambda>v. map (\<lambda>i. length v div 256 ^ i mod 256) [0 ..< 32]\<rparr>"

theorem partition_digest_separates_witness:
  "map (sample_fields sample_rollup_env) [sample_raw ''a'' 1 5 None] = map (sample_fields sample_rollup_env) [sample_raw ''a'' 1 5 None]
    \<or> (\<exists>a b. a \<noteq> b \<and> sha256 sample_rollup_env a = sha256 sample_rollup_env b)"
  by (rule partition_digest_separates)
    (simp_all add: sample_fields_def sample_raw_def sample_rollup_env_def env.defs rollup_env.defs show_nat.simps show_int_def)

subsection \<open>Settings\<close>

text \<open>
  C39. Whatever the environment variables hold, the settings have the shape the maintenance table and the
  ticker require: the raw classes, the hour rows and the day rows are kept for ever longer, and the period,
  the partitions and the rows per tick are in their ranges and positive.
\<close>

theorem settings_admissible:
  "let s = rollup_settings_from_environment vars in
     1 \<le> rs_raw_observed_days s \<and> rs_raw_observed_days s \<le> rs_raw_non_observed_days s
     \<and> rs_raw_non_observed_days s \<le> rs_hour_days s \<and> rs_hour_days s \<le> rs_day_days s \<and> rs_day_days s \<le> 7300
     \<and> 60 \<le> rs_tick_seconds s \<and> rs_tick_seconds s \<le> 86400
     \<and> 1 \<le> rs_partitions_per_tick s \<and> rs_partitions_per_tick s \<le> 1024
     \<and> 1 \<le> rs_delete_batch_size s \<and> rs_delete_batch_size s \<le> 100000"
proof -
  obtain obs where o: "obs = rollup_env_u32 vars ''NETWORK_ATLAS_MONITOR_RAW_OBSERVED_RETENTION_DAYS'' 7 1 365" by simp
  obtain n where n: "n = rollup_env_u32 vars ''NETWORK_ATLAS_MONITOR_RAW_NON_OBSERVED_RETENTION_DAYS'' (max 30 obs) obs 730" by simp
  obtain h where h: "h = rollup_env_u32 vars ''NETWORK_ATLAS_MONITOR_HOUR_RETENTION_DAYS'' (max 90 n) n 3650" by simp
  have o1: "1 \<le> obs" "obs \<le> 365" using rollup_env_u32_range [of 1 365] by (simp_all add: o)
  then have n1: "obs \<le> n" "n \<le> 730" using rollup_env_u32_range [of obs 730] by (simp_all add: n)
  then have h1: "n \<le> h" "h \<le> 3650" using rollup_env_u32_range [of n 3650] by (simp_all add: h)
  then have "h \<le> rollup_env_u32 vars v d h 7300 \<and> rollup_env_u32 vars v d h 7300 \<le> 7300" for v d
    by (intro rollup_env_u32_range) simp
  then show ?thesis
    using o1 n1 h1 rollup_env_u32_range [of 60 86400] rollup_env_u32_range [of 1 1024]
      rollup_env_u32_range [of 1 100000]
    by (simp add: rollup_settings_from_environment_def Let_def default_rollup_settings_def
        o [symmetric, simplified] n [symmetric] h [symmetric])
qed

end
