(* ===== verification/RollupHistory.thy ===== *)
theory RollupHistory
  imports RollupAccounting RollupStatistics
begin

text \<open>
  The history of all samples ever stored, against what the tables still hold: a transition system over the
  storing of samples, compactions and retention, whose invariant says that a sample is either still there or
  counted in a sealed partition of its hour and of its day.
\<close>

subsection \<open>The rows of a partition\<close>

definition ru_bucket :: "rollup_row \<Rightarrow> string \<times> resolution \<times> int" where
  "ru_bucket u = (ru_host u, ru_resolution u, ru_start u)"

lemma rollup_key_eq: "rollup_key u = (h, k, r, t) \<longleftrightarrow> ru_bucket u = (h, r, t) \<and> sr_key (ru_series u) = k"
  by (auto simp: rollup_key_def ru_bucket_def)

definition rows_of :: "rollup_db \<Rightarrow> partition_row \<Rightarrow> rollup_row set" where
  "rows_of d p = {u \<in> set (rollups d). ru_bucket u = bucket_key p}"

lemma partition_key_unique:
  "tables_ok d \<Longrightarrow> p \<in> set (partitions d) \<Longrightarrow> q \<in> set (partitions d) \<Longrightarrow> bucket_key p = bucket_key q \<Longrightarrow> p = q"
  by (auto simp: tables_ok_def distinct_map inj_on_def)

lemma rollup_row_unique:
  "tables_ok d \<Longrightarrow> u \<in> set (rollups d) \<Longrightarrow> v \<in> set (rollups d) \<Longrightarrow> rollup_key u = rollup_key v \<Longrightarrow> u = v"
  by (auto simp: tables_ok_def distinct_map inj_on_def)

lemma partition_of_row:
  assumes "tables_ok d" and "u \<in> set (rollups d)"
  obtains p where "p \<in> set (partitions d)" "pt_id p = ru_partition u" "bucket_key p = ru_bucket u"
  using assms unfolding tables_ok_def ru_bucket_def by blast

lemma partition_rollups_set:
  assumes "tables_ok d" and "p \<in> set (partitions d)"
  shows "set (partition_rollups d p) = rows_of d p"
proof -
  have "ru_partition u = pt_id p \<longleftrightarrow> ru_bucket u = bucket_key p" if u: "u \<in> set (rollups d)" for u
  proof -
    obtain q where q: "q \<in> set (partitions d)" "pt_id q = ru_partition u" "bucket_key q = ru_bucket u"
      using partition_of_row [OF assms(1) u] .
    moreover have "pt_id q = pt_id p \<longleftrightarrow> q = p"
      using assms q(1) by (auto simp: tables_ok_def distinct_map inj_on_def)
    ultimately show ?thesis using partition_key_unique [OF assms(1) q(1) assms(2)] by auto
  qed
  then show ?thesis by (auto simp: partition_rollups_def rows_of_def)
qed

lemma find_partition_iff:
  assumes "tables_ok d"
  shows "find_partition d h r t = Some q \<longleftrightarrow> q \<in> set (partitions d) \<and> bucket_key q = (h, r, t)"
proof
  assume q: "q \<in> set (partitions d) \<and> bucket_key q = (h, r, t)"
  then obtain q' where q': "find_partition d h r t = Some q'"
    by (cases "find_partition d h r t") (auto simp: find_partition_def find_None_iff)
  then show "find_partition d h r t = Some q"
    using find_partition_SomeD [OF q'] q partition_key_unique [OF assms, of q' q] by auto
qed (rule find_partition_SomeD)

subsection \<open>What a partition has counted\<close>

text \<open>\<open>S\<close> is the set of samples the partition was computed from.\<close>

definition matches :: "rollup_db \<Rightarrow> partition_row \<Rightarrow> sample_row set \<Rightarrow> bool" where
  "matches d p S =
     (pt_input_count p = card S \<and> pt_series_count p = card (key_of_row ` S)
      \<and> (pt_pruned_at p = None \<longrightarrow>
           (\<lambda>u. sr_key (ru_series u)) ` rows_of d p = key_of_row ` S
           \<and> (\<forall>u \<in> rows_of d p. sr_sample_count (ru_series u) = card {s \<in> S. key_of_row s = sr_key (ru_series u)})))"

definition bucket_in :: "sample_row set \<Rightarrow> partition_row \<Rightarrow> sample_row set" where
  "bucket_in H p = bucket_set H (pt_host p) (pt_resolution p) (pt_start p)"

lemma bucket_in_update [simp]:
  "bucket_in H (p\<lparr>pt_state := a, pt_sealed_at := b\<rparr>) = bucket_in H p"
  "bucket_in H (p\<lparr>pt_pruned_at := c\<rparr>) = bucket_in H p"
  by (simp_all add: bucket_in_def)

definition partition_ok :: "sample_row set \<Rightarrow> rollup_db \<Rightarrow> partition_row \<Rightarrow> bool" where
  "partition_ok H d p =
     (\<exists>S \<subseteq> bucket_in H p. matches d p S
        \<and> (pt_state p = ''complete'' \<longrightarrow> bucket_in H p \<subseteq> set (samples d) \<and> pt_pruned_at p = None)
        \<and> (\<forall>t. pt_sealed_at p = Some t \<longrightarrow> (\<forall>s \<in> bucket_in H p - S. t \<le> smp_created_at s)))"

definition covered :: "rollup_db \<Rightarrow> sample_row \<Rightarrow> resolution \<Rightarrow> bool" where
  "covered d s r =
     (\<exists>p \<in> set (partitions d). bucket_key p = (smp_host s, r, bucket_of r (smp_observed_ms s))
        \<and> pt_state p = ''sealed'' \<and> (\<exists>t. pt_sealed_at p = Some t \<and> smp_created_at s < t))"

definition history_ok :: "sample_row set \<Rightarrow> rollup_db \<Rightarrow> bool" where
  "history_ok H d =
     (tables_ok d \<and> finite H \<and> set (samples d) \<subseteq> H \<and> (\<forall>p \<in> set (partitions d). partition_ok H d p)
      \<and> (\<forall>s \<in> H - set (samples d). \<forall>r. covered d s r))"

lemma history_parts:
  assumes "history_ok H d"
  shows "tables_ok d" "finite H" "set (samples d) \<subseteq> H" "p \<in> set (partitions d) \<Longrightarrow> partition_ok H d p"
    "s \<in> H \<Longrightarrow> s \<notin> set (samples d) \<Longrightarrow> covered d s r"
  using assms by (auto simp: history_ok_def)

subsection \<open>A compaction\<close>

lemma compacted_rows:
  assumes h: "history_ok H d" and c: "compacted_into d host r start p d'" and ok': "tables_ok d'"
  shows "matches d' p (bucket_set (set (samples d)) host r start)"
proof -
  let ?B = "bucket_set (set (samples d)) host r start"
  let ?K = "(\<lambda>k. (host, k, r, start)) ` key_of_row ` ?B"
  note ok = history_parts(1) [OF h]
  have key: "bucket_key p = (host, r, start)"
    and old: "{u \<in> set (rollups d'). rollup_key u \<notin> ?K} = {u \<in> set (rollups d). rollup_key u \<notin> ?K}"
    and new: "\<And>k. k \<in> key_of_row ` ?B \<Longrightarrow> \<exists>u \<in> set (rollups d'). rollup_key u = (host, k, r, start)
        \<and> sr_sample_count (ru_series u) = card {s \<in> ?B. key_of_row s = k}"
    and counts: "pt_input_count p = card ?B" "pt_series_count p = card (key_of_row ` ?B)"
    and ex: "case find_partition d host r start of None \<Rightarrow> True | Some q \<Rightarrow> pt_state q = ''complete''"
    using c by (auto simp: compacted_into_def Let_def split: option.splits)
  have keys: "sr_key (ru_series u) \<in> key_of_row ` ?B" if u: "u \<in> rows_of d' p" for u
  proof (rule ccontr)
    assume no: "sr_key (ru_series u) \<notin> key_of_row ` ?B"
    have b: "ru_bucket u = (host, r, start)" using u key by (simp add: rows_of_def)
    then have "rollup_key u \<notin> ?K" using no by (auto simp: rollup_key_eq)
    then have m: "u \<in> set (rollups d)" using u old by (auto simp: rows_of_def)
    obtain q where q: "q \<in> set (partitions d)" "bucket_key q = (host, r, start)"
      using partition_of_row [OF ok m] b by metis
    then have "find_partition d host r start = Some q" by (simp add: find_partition_iff [OF ok])
    then have "pt_state q = ''complete''" using ex by simp
    then obtain S where S: "S \<subseteq> bucket_in H q" "matches d q S" "bucket_in H q \<subseteq> set (samples d)" "pt_pruned_at q = None"
      using history_parts(4) [OF h q(1)] by (auto simp: partition_ok_def)
    have "u \<in> rows_of d q" using m b q(2) by (simp add: rows_of_def)
    then have "sr_key (ru_series u) \<in> key_of_row ` S" using S(2,4) unfolding matches_def by blast
    moreover have "S \<subseteq> ?B" using S(1,3) q(2) by (auto simp: bucket_in_def bucket_set_def bucket_key_def)
    ultimately show False using no by blast
  qed
  have row: "sr_sample_count (ru_series u) = card {s \<in> ?B. key_of_row s = sr_key (ru_series u)}"
    if u: "u \<in> rows_of d' p" for u
  proof -
    obtain v where v: "v \<in> set (rollups d')" "rollup_key v = (host, sr_key (ru_series u), r, start)"
        "sr_sample_count (ru_series v) = card {s \<in> ?B. key_of_row s = sr_key (ru_series u)}"
      using new [OF keys [OF u]] by blast
    have "rollup_key u = (host, sr_key (ru_series u), r, start)" using u key by (simp add: rows_of_def rollup_key_eq)
    then have "rollup_key u = rollup_key v" by (simp only: v(2))
    then have "u = v" using rollup_row_unique [OF ok' _ v(1)] u by (simp add: rows_of_def)
    then show ?thesis using v(3) by simp
  qed
  have "key_of_row ` ?B \<subseteq> (\<lambda>u. sr_key (ru_series u)) ` rows_of d' p"
  proof
    fix k assume "k \<in> key_of_row ` ?B"
    from new [OF this] obtain u where "u \<in> set (rollups d')" "rollup_key u = (host, k, r, start)" by blast
    then show "k \<in> (\<lambda>u. sr_key (ru_series u)) ` rows_of d' p" using key by (auto simp: rows_of_def rollup_key_eq)
  qed
  then show ?thesis using counts keys row by (auto simp: matches_def)
qed

lemma matches_cong:
  "rows_of d' p = rows_of d p \<Longrightarrow> matches d' p S = matches d p S"
  by (simp add: matches_def)

lemma compaction_keeps_history:
  assumes h: "history_ok H d" and run: "compact_partition e r c i d = Inr (done, d')"
    and dvd: "bucket_milliseconds r dvd ca_start c"
  shows "history_ok H d'"
proof (cases "done")
  case False
  then have "d' = d" using run by (auto simp: compact_partition_def Let_def split: if_splits)
  then show ?thesis using h by simp
next
  case True
  let ?key = "(ca_host c, r, ca_start c)"
  note ok = history_parts(1) [OF h]
  obtain p where ok': "tables_ok d'" and p: "compacted_into d (ca_host c) r (ca_start c) p d'"
    using compact_partition_effect [OF ok _ dvd] run [unfolded eqTrueI [OF True]] by blast
  from p have eq: "d' = d\<lparr>partitions := partitions d', rollups := rollups d'\<rparr>" and key: "bucket_key p = ?key"
    and parts: "set (partitions d') = insert p {q \<in> set (partitions d). bucket_key q \<noteq> ?key}"
    and state: "pt_state p = ''complete''"
    and old: "{u \<in> set (rollups d'). rollup_key u \<notin> (\<lambda>k. (ca_host c, k, r, ca_start c)) ` key_of_row ` bucket_set (set (samples d)) (ca_host c) r (ca_start c)}
      = {u \<in> set (rollups d). rollup_key u \<notin> (\<lambda>k. (ca_host c, k, r, ca_start c)) ` key_of_row ` bucket_set (set (samples d)) (ca_host c) r (ca_start c)}"
    and ex: "case find_partition d (ca_host c) r (ca_start c) of None \<Rightarrow> pt_pruned_at p = None
      | Some q \<Rightarrow> pt_pruned_at p = pt_pruned_at q \<and> pt_state q = ''complete''"
    unfolding compacted_into_def Let_def by (blast, blast, blast, blast, blast, simp split: option.splits)
  have samples: "samples d' = samples d" by (subst eq) simp
  have rows: "rows_of d' q = rows_of d q" if "bucket_key q \<noteq> ?key" for q
  proof -
    have "rollup_key u \<notin> (\<lambda>k. (ca_host c, k, r, ca_start c)) ` key_of_row ` bucket_set (set (samples d)) (ca_host c) r (ca_start c)"
      if "ru_bucket u = bucket_key q" for u
      using that \<open>bucket_key q \<noteq> ?key\<close> by (auto simp: rollup_key_eq)
    with old show ?thesis unfolding rows_of_def by blast
  qed
  have B: "bucket_in H p \<subseteq> set (samples d)" "pt_pruned_at p = None"
  proof -
    have in_p: "bucket_in H p = bucket_set H (ca_host c) r (ca_start c)"
      using key by (simp add: bucket_in_def bucket_key_def)
    have "bucket_in H p \<subseteq> set (samples d) \<and> pt_pruned_at p = None"
    proof (cases "find_partition d (ca_host c) r (ca_start c)")
      case None
      have "s \<in> set (samples d)" if "s \<in> bucket_in H p" for s
      proof (rule ccontr)
        assume "s \<notin> set (samples d)"
        moreover have "s \<in> H" "smp_host s = ca_host c" "bucket_of r (smp_observed_ms s) = ca_start c"
          using that by (auto simp: in_p bucket_set_def)
        ultimately have "\<exists>q \<in> set (partitions d). bucket_key q = ?key"
          using history_parts(5) [OF h, of s r] by (auto simp: covered_def)
        then show False using None find_partition_iff [OF ok] by (metis option.distinct(1))
      qed
      then show ?thesis using None ex by auto
    next
      case (Some q)
      then have q: "q \<in> set (partitions d)" "bucket_key q = ?key" "pt_state q = ''complete''" "pt_pruned_at p = pt_pruned_at q"
        using ex find_partition_SomeD [OF Some] by auto
      then show ?thesis using history_parts(4) [OF h q(1)] in_p
        by (auto simp: partition_ok_def bucket_in_def bucket_key_def)
    qed
    then show "bucket_in H p \<subseteq> set (samples d)" "pt_pruned_at p = None" by simp_all
  qed
  have "bucket_set (set (samples d)) (ca_host c) r (ca_start c) = bucket_in H p"
    using B(1) key history_parts(3) [OF h] by (auto simp: bucket_in_def bucket_set_def bucket_key_def)
  then have "matches d' p (bucket_in H p)" using compacted_rows [OF h p ok'] by simp
  then have "partition_ok H d' p" using B by (auto simp: partition_ok_def samples)
  moreover have "partition_ok H d' q" if "q \<in> set (partitions d)" "bucket_key q \<noteq> ?key" for q
    using history_parts(4) [OF h that(1)] by (simp add: partition_ok_def samples matches_cong [OF rows [OF that(2)]])
  moreover have "covered d' s r'" if "s \<in> H" "s \<notin> set (samples d)" for s r'
  proof -
    have "covered d s r'" by (rule history_parts(5) [OF h that])
    then obtain q where q: "q \<in> set (partitions d)" "bucket_key q = (smp_host s, r', bucket_of r' (smp_observed_ms s))"
        "pt_state q = ''sealed''" "\<exists>t. pt_sealed_at q = Some t \<and> smp_created_at s < t"
      unfolding covered_def by blast
    have "bucket_key q \<noteq> ?key"
    proof
      assume "bucket_key q = ?key"
      then have "find_partition d (ca_host c) r (ca_start c) = Some q" using q(1) find_partition_iff [OF ok] by simp
      then show False using ex q(3) by simp
    qed
    then show ?thesis using q parts by (auto simp: covered_def)
  qed
  ultimately show ?thesis using ok' history_parts(2,3) [OF h] parts by (auto simp: history_ok_def samples)
qed


subsection \<open>Retention\<close>

lemma update_partitions_history:
  assumes h: "history_ok H d" and P: "\<And>p. p \<in> set (partitions d) \<Longrightarrow> P p \<Longrightarrow> partition_checks (f p)
      \<and> (\<forall>S. matches d p S \<longrightarrow> matches d (f p) S) \<and> partition_ok H d (f p)
      \<and> (pt_state p = ''sealed'' \<longrightarrow> pt_state (f p) = ''sealed'' \<and> pt_sealed_at (f p) = pt_sealed_at p)"
    and f: "\<And>p. bucket_key (f p) = bucket_key p" "\<And>p. pt_id (f p) = pt_id p" "\<And>p. pt_end (f p) = pt_end p"
  shows "history_ok H (d\<lparr>partitions := update_rows P f (partitions d)\<rparr>)" (is "history_ok H ?d")
proof -
  have keys: "map bucket_key (update_rows P f (partitions d)) = map bucket_key (partitions d)"
      "map pt_id (update_rows P f (partitions d)) = map pt_id (partitions d)"
    by (simp_all add: map_update_rows f)
  have same: "pt_host (f p) = pt_host p" "pt_resolution (f p) = pt_resolution p" "pt_start (f p) = pt_start p" for p
    using f(1) [of p] by (simp_all add: bucket_key_def)
  have here: "\<exists>p \<in> set (update_rows P f (partitions d)). pt_id p = pt_id q \<and> bucket_key p = bucket_key q"
    if "q \<in> set (partitions d)" for q
    using that f by (cases "P q") (auto simp: set_update_rows)
  have rows: "rows_of ?d = rows_of d" by (simp add: rows_of_def fun_eq_iff)
  have "tables_ok ?d"
  proof -
    note ok = history_parts(1) [OF h]
    have "partition_checks p \<and> pt_end p = pt_start p + bucket_milliseconds (pt_resolution p)
        \<and> bucket_milliseconds (pt_resolution p) dvd pt_start p" if "p \<in> set (partitions ?d)" for p
      using that P ok by (auto simp: set_update_rows tables_ok_def f same)
    moreover have "\<exists>p \<in> set (partitions ?d). pt_id p = ru_partition u
        \<and> bucket_key p = (ru_host u, ru_resolution u, ru_start u)" if u: "u \<in> set (rollups d)" for u
    proof -
      obtain q where "q \<in> set (partitions d)" "pt_id q = ru_partition u" "bucket_key q = ru_bucket u"
        by (rule partition_of_row [OF ok u])
      then show ?thesis using here [of q] by (simp add: ru_bucket_def)
    qed
    ultimately show ?thesis using ok by (simp add: tables_ok_def keys run_of_def)
  qed
  moreover have "partition_ok H ?d p" if "p \<in> set (partitions ?d)" for p
  proof -
    have "partition_ok H d p" using that P history_parts(4) [OF h] by (auto simp: set_update_rows)
    then show ?thesis by (simp add: partition_ok_def matches_def rows)
  qed
  moreover have "covered ?d s r" if "s \<in> H" "s \<notin> set (samples d)" for s r
  proof -
    have "covered d s r" by (rule history_parts(5) [OF h that])
    then obtain q where q: "q \<in> set (partitions d)" "bucket_key q = (smp_host s, r, bucket_of r (smp_observed_ms s))"
        "pt_state q = ''sealed''" "\<exists>t. pt_sealed_at q = Some t \<and> smp_created_at s < t"
      unfolding covered_def by blast
    show ?thesis
    proof (cases "P q")
      case True
      then have "f q \<in> set (partitions ?d)" using q(1) by (auto simp: set_update_rows)
      then show ?thesis using P [OF q(1) True] q f(1) [of q] unfolding covered_def by (intro bexI [of _ "f q"]) auto
    next
      case False
      then have "q \<in> set (partitions ?d)" using q(1) by (auto simp: set_update_rows)
      then show ?thesis using q unfolding covered_def by blast
    qed
  qed
  ultimately show ?thesis using history_parts(2,3) [OF h] by (auto simp: history_ok_def)
qed

lemma seal_keeps_history:
  assumes h: "history_ok H d"
  shows "history_ok H (seal_partitions now cutoff r d)"
  unfolding seal_partitions_def
proof (rule update_partitions_history [OF h])
  fix p assume p: "p \<in> set (partitions d)" "sealable d cutoff r p"
  note ok = history_parts(1) [OF h]
  have checks: "partition_checks p" "pt_end p = pt_start p + bucket_milliseconds (pt_resolution p)"
      "bucket_milliseconds (pt_resolution p) dvd pt_start p" and dist: "distinct (map smp_id (samples d))"
    using ok p(1) by (auto simp: tables_ok_def)
  have c: "pt_state p = ''complete''" "pt_input_count p = length (row_bucket d p)" "pt_sealed_at p = None"
    using p(2) checks(1) by (auto simp: sealable_def partition_checks_def)
  obtain S where S: "S \<subseteq> bucket_in H p" "matches d p S" "bucket_in H p \<subseteq> set (samples d)" "pt_pruned_at p = None"
    using history_parts(4) [OF h p(1)] c(1) by (auto simp: partition_ok_def)
  have "bucket_in H p = bucket_set (set (samples d)) (pt_host p) (pt_resolution p) (pt_start p)"
    using S(3) history_parts(3) [OF h] by (auto simp: bucket_in_def bucket_set_def)
  then have "card S = card (bucket_in H p)"
    using S(2) c(2) bucket_samples_card [OF dist checks(3), of "pt_host p"]
    by (simp add: matches_def row_bucket_def checks(2))
  moreover have "finite (bucket_in H p)" using history_parts(2) [OF h] by (simp add: bucket_in_def bucket_set_def)
  ultimately have "S = bucket_in H p" using S(1) by (simp add: card_subset_eq)
  moreover have m: "matches d (seal_partition now p) = matches d p"
    by (simp add: matches_def seal_partition_def rows_of_def bucket_key_def fun_eq_iff)
  moreover have "bucket_in H (seal_partition now p) = bucket_in H p" by (simp add: bucket_in_def seal_partition_def)
  ultimately have "partition_ok H d (seal_partition now p)"
    using S(2) c(3) unfolding partition_ok_def by (intro exI [of _ S]) (simp add: seal_partition_def)
  then show "partition_checks (seal_partition now p) \<and> (\<forall>S. matches d p S \<longrightarrow> matches d (seal_partition now p) S)
      \<and> partition_ok H d (seal_partition now p)
      \<and> (pt_state p = ''sealed'' \<longrightarrow> pt_state (seal_partition now p) = ''sealed''
         \<and> pt_sealed_at (seal_partition now p) = pt_sealed_at p)"
    using checks(1) c m by (simp add: seal_partition_def partition_checks_def)
qed (simp_all add: seal_partition_def bucket_key_def)

lemma mark_keeps_history:
  assumes h: "history_ok H d" and P: "\<And>p. P p \<Longrightarrow> pt_state p = ''sealed''"
  shows "history_ok H (mark_pruned P now limit d)"
  unfolding mark_pruned_def Let_def
proof (rule update_partitions_history [OF h])
  fix p assume p: "p \<in> set (partitions d)"
    "pt_id p \<in> set (take limit (map pt_id (sort_key (\<lambda>p. (pt_start p, pt_host p)) (filter P (partitions d)))))"
  let ?p = "p\<lparr>pt_pruned_at := (case pt_pruned_at p of Some t \<Rightarrow> Some t | None \<Rightarrow> Some now)\<rparr>"
  obtain q where "q \<in> set (partitions d)" "P q" "pt_id q = pt_id p"
    using set_take_subset [of limit] p(2) by fastforce
  then have sealed: "pt_state p = ''sealed''"
    using P p(1) history_parts(1) [OF h] by (auto simp: tables_ok_def distinct_map inj_on_def)
  have m: "matches d p S \<Longrightarrow> matches d ?p S" for S
    by (simp add: matches_def split: option.split)
  have "bucket_in H ?p = bucket_in H p" by (simp add: bucket_in_def)
  then have "partition_ok H d ?p"
    using history_parts(4) [OF h p(1)] m sealed by (auto simp: partition_ok_def)
  moreover have "partition_checks p" using history_parts(1) [OF h] p(1) by (simp add: tables_ok_def)
  ultimately show "partition_checks ?p \<and> (\<forall>S. matches d p S \<longrightarrow> matches d ?p S) \<and> partition_ok H d ?p
      \<and> (pt_state p = ''sealed'' \<longrightarrow> pt_state ?p = ''sealed'' \<and> pt_sealed_at ?p = pt_sealed_at p)"
    using m by (simp add: partition_checks_def)
qed (simp_all add: bucket_key_def)

lemma delete_rows_keeps_history:
  assumes h: "history_ok H d"
  shows "history_ok H (snd (delete_pruned_rows r d))"
proof -
  let ?d = "d\<lparr>rollups := filter (\<lambda>u. \<not> is_pruned_row d r u) (rollups d)\<rparr>"
  note ok = history_parts(1) [OF h]
  have "tables_ok ?d" using ok by (auto simp: tables_ok_def run_of_def distinct_map_filter)
  moreover have "rows_of ?d p = rows_of d p" if p: "p \<in> set (partitions d)" "pt_pruned_at p = None" for p
  proof -
    have "\<not> is_pruned_row d r u" if u: "u \<in> set (rollups d)" "ru_bucket u = bucket_key p" for u
    proof
      assume "is_pruned_row d r u"
      then obtain q where q: "q \<in> set (partitions d)" "pt_id q = ru_partition u" "pt_pruned_at q \<noteq> None"
        by (auto simp: is_pruned_row_def)
      obtain q' where q': "q' \<in> set (partitions d)" "pt_id q' = ru_partition u" "bucket_key q' = ru_bucket u"
        by (rule partition_of_row [OF ok u(1)])
      have "q' = q" using ok q q' by (auto simp: tables_ok_def distinct_map inj_on_def)
      moreover have "q' = p" using partition_key_unique [OF ok q'(1) p(1)] q'(3) u(2) by simp
      ultimately show False using p(2) q(3) by simp
    qed
    then show ?thesis by (auto simp: rows_of_def)
  qed
  then have "partition_ok H ?d p" if "p \<in> set (partitions d)" for p
    using history_parts(4) [OF h that] that by (auto simp: partition_ok_def matches_def)
  ultimately show ?thesis
    using h by (auto simp: history_ok_def covered_def delete_pruned_rows_def)
qed

lemma delete_raw_keeps_history:
  assumes h: "history_ok H d"
  shows "history_ok H (snd (delete_raw_batch observed cutoff limit d))"
proof (cases "limit = 0")
  case False
  let ?ids = "take limit (map smp_id (sort_key (\<lambda>s. (smp_observed_ms s, smp_id s)) (filter (deletable d observed cutoff) (samples d))))"
  let ?d = "d\<lparr>samples := filter (\<lambda>s. smp_id s \<notin> set ?ids) (samples d)\<rparr>"
  note ok = history_parts(1) [OF h]
  have del: "\<exists>p \<in> set (partitions d). covers d r s p" if s: "s \<in> set (samples d)" "s \<notin> set (samples ?d)" for s r
  proof -
    have "smp_id s \<in> set ?ids" using s by auto
    then obtain s' where "s' \<in> set (samples d)" "deletable d observed cutoff s'" "smp_id s' = smp_id s"
      using set_take_subset [of limit] by fastforce
    then have "deletable d observed cutoff s"
      using s(1) ok by (auto simp: tables_ok_def distinct_map inj_on_def)
    then show ?thesis by (cases r) (auto simp: deletable_def)
  qed
  have "tables_ok ?d" using ok by (auto simp: tables_ok_def run_of_def distinct_map_filter)
  moreover have "partition_ok H ?d p" if p: "p \<in> set (partitions d)" for p
  proof -
    have "s \<in> set (samples ?d)" if c: "pt_state p = ''complete''" and s: "s \<in> bucket_in H p" "s \<in> set (samples d)" for s
    proof (rule ccontr)
      assume "s \<notin> set (samples ?d)"
      with del [OF s(2)] obtain q where q: "q \<in> set (partitions d)" "covers d (pt_resolution p) s q" by blast
      then have "bucket_key q = bucket_key p"
        using s(1) by (auto simp: covers_def bucket_in_def bucket_set_def bucket_key_def)
      then have "q = p" using partition_key_unique [OF ok q(1) p] by simp
      then show False using q(2) c by (simp add: covers_def)
    qed
    moreover obtain S where "S \<subseteq> bucket_in H p" "matches d p S"
        "pt_state p = ''complete'' \<longrightarrow> bucket_in H p \<subseteq> set (samples d) \<and> pt_pruned_at p = None"
        "\<forall>t. pt_sealed_at p = Some t \<longrightarrow> (\<forall>s \<in> bucket_in H p - S. t \<le> smp_created_at s)"
      using history_parts(4) [OF h p] unfolding partition_ok_def by blast
    moreover have "matches ?d p S" if "matches d p S" for S using that by (simp add: matches_def rows_of_def)
    ultimately show ?thesis unfolding partition_ok_def by (intro exI [of _ S]) blast
  qed
  moreover have "covered ?d s r" if s: "s \<in> H" "s \<notin> set (samples ?d)" for s r
  proof (cases "s \<in> set (samples d)")
    case True
    from del [OF True s(2)] obtain q where "q \<in> set (partitions d)" "covers d r s q" by blast
    then show ?thesis by (auto simp: covered_def covers_def split: option.splits)
  next
    case False
    have "covered d s r" by (rule history_parts(5) [OF h s(1) False])
    then show ?thesis by (simp add: covered_def)
  qed
  ultimately have "history_ok H ?d" using history_parts(2,3) [OF h] unfolding history_ok_def by auto
  then show ?thesis using False by (simp add: delete_raw_batch_def Let_def)
qed (use h in \<open>simp add: delete_raw_batch_def\<close>)

lemma retention_keeps_history:
  assumes h: "history_ok H d" and run: "enforce_retention e t s now d = Inr (res, d')"
  shows "history_ok H d'"
proof -
  obtain c1 c2 c3 c4 where c: "day_aligned_cutoff e t (rs_raw_observed_days s) = Inr c1"
      "day_aligned_cutoff e t (rs_raw_non_observed_days s) = Inr c2"
      "day_aligned_cutoff e t (rs_hour_days s) = Inr c3" "day_aligned_cutoff e t (rs_day_days s) = Inr c4"
    using run by (auto simp: enforce_retention_def)
  let ?d1 = "seal_partitions now c1 Day (seal_partitions now c1 Hour d)"
  obtain n2 d2 where d2: "delete_raw_batch True c1 (rs_delete_batch_size s) ?d1 = (n2, d2)" by fastforce
  obtain n3 d3 where d3: "delete_raw_batch False c2 (rs_delete_batch_size s - n2) d2 = (n3, d3)" by fastforce
  obtain n4 d4 where d4: "delete_pruned_rows Hour (mark_pruned (hour_prunable d3 c3) now (rs_partitions_per_tick s) d3) = (n4, d4)"
    by fastforce
  obtain n5 d5 where d5: "delete_pruned_rows Day (mark_pruned (day_prunable d4 c4) now (rs_partitions_per_tick s) d4) = (n5, d5)"
    by fastforce
  have "history_ok H d2" using delete_raw_keeps_history [OF seal_keeps_history [OF seal_keeps_history [OF h]]] d2 by (metis snd_conv)
  then have "history_ok H d3" using delete_raw_keeps_history d3 by (metis snd_conv)
  then have "history_ok H (mark_pruned (hour_prunable d3 c3) now (rs_partitions_per_tick s) d3)"
    by (rule mark_keeps_history) (simp add: hour_prunable_def)
  then have "history_ok H d4" using delete_rows_keeps_history d4 by (metis snd_conv)
  then have "history_ok H (mark_pruned (day_prunable d4 c4) now (rs_partitions_per_tick s) d4)"
    by (rule mark_keeps_history) (simp add: day_prunable_def)
  then have "history_ok H d5" using delete_rows_keeps_history d5 by (metis snd_conv)
  moreover have "d' = d5" using run by (simp add: enforce_retention_def c d2 d3 d4 d5)
  ultimately show ?thesis by simp
qed


subsection \<open>All operations\<close>

text \<open>
  The steps that touch samples, partitions or rollup rows, with the set of all samples ever stored. A sample
  is stored by a clock that is not behind the times partitions were sealed at; \<open>elsewhere\<close> stands for all
  writes to other tables, which keep the runs that samples refer to.
\<close>

inductive archive_step ::
  "rollup_env \<Rightarrow> sample_row set \<times> rollup_db \<Rightarrow> sample_row set \<times> rollup_db \<Rightarrow> bool"
for e where
  store: "insert_sample s (db.truncate d) = Inr b
     \<Longrightarrow> \<forall>p \<in> set (partitions d). \<forall>t. pt_sealed_at p = Some t \<longrightarrow> t \<le> smp_created_at s
     \<Longrightarrow> archive_step e (H, d) (insert s H, d\<lparr>samples := samples b\<rparr>)"
| compact: "compact_partition e r c i d = Inr (done, d') \<Longrightarrow> bucket_milliseconds r dvd ca_start c
     \<Longrightarrow> archive_step e (H, d) (H, d')"
| retain: "enforce_retention e t s now d = Inr (res, d') \<Longrightarrow> archive_step e (H, d) (H, d')"
| elsewhere: "samples d' = samples d \<Longrightarrow> partitions d' = partitions d \<Longrightarrow> rollups d' = rollups d
     \<Longrightarrow> \<forall>x \<in> set (samples d). run_of d' (smp_run x) \<noteq> None \<Longrightarrow> archive_step e (H, d) (H, d')"

lemma insert_sample_stored:
  assumes "insert_sample s (db.truncate d) = Inr b"
  shows "samples b = samples d @ [s] \<and> smp_id s \<notin> smp_id ` set (samples d) \<and> sample_checks s
    \<and> run_of d (smp_run s) \<noteq> None"
proof -
  have t: "samples (db.truncate d) = samples d" "runs (db.truncate d) = runs d" by (simp_all add: db.truncate_def)
  have "\<exists>r \<in> set (runs d). run_id r = smp_run s" and "sample_checks s" and "samples b = samples d @ [s]"
      and "smp_id s \<notin> smp_id ` set (samples d)"
    using assms by (auto simp: insert_sample_def t split: if_splits)
  then show ?thesis by (auto simp: run_of_def find_None_iff)
qed

lemma store_keeps_history:
  assumes h: "history_ok H d" and ins: "insert_sample s (db.truncate d) = Inr b"
    and clock: "\<forall>p \<in> set (partitions d). \<forall>t. pt_sealed_at p = Some t \<longrightarrow> t \<le> smp_created_at s"
  shows "history_ok (insert s H) (d\<lparr>samples := samples b\<rparr>)" (is "history_ok _ ?d")
proof -
  note new = insert_sample_stored [OF ins]
  have "tables_ok ?d" using history_parts(1) [OF h] new by (auto simp: tables_ok_def run_of_def)
  moreover have "partition_ok (insert s H) ?d p" if p: "p \<in> set (partitions d)" for p
  proof -
    obtain S where S: "S \<subseteq> bucket_in H p" "matches d p S"
        "pt_state p = ''complete'' \<longrightarrow> bucket_in H p \<subseteq> set (samples d) \<and> pt_pruned_at p = None"
        "\<forall>t. pt_sealed_at p = Some t \<longrightarrow> (\<forall>s \<in> bucket_in H p - S. t \<le> smp_created_at s)"
      using history_parts(4) [OF h p] unfolding partition_ok_def by blast
    have B: "bucket_in H p \<subseteq> bucket_in (insert s H) p" "bucket_in (insert s H) p \<subseteq> insert s (bucket_in H p)"
      by (auto simp: bucket_in_def bucket_set_def)
    have "matches ?d p S" using S(2) by (simp add: matches_def rows_of_def)
    moreover have "\<forall>t. pt_sealed_at p = Some t \<longrightarrow> (\<forall>x \<in> bucket_in (insert s H) p - S. t \<le> smp_created_at x)"
      using S(4) B(2) clock p by blast
    moreover have "pt_state p = ''complete'' \<longrightarrow> bucket_in (insert s H) p \<subseteq> set (samples ?d) \<and> pt_pruned_at p = None"
      using S(3) B(2) new by auto
    ultimately show ?thesis using S(1) B(1) unfolding partition_ok_def by (intro exI [of _ S]) blast
  qed
  moreover have "covered ?d x r" if x: "x \<in> insert s H" "x \<notin> set (samples ?d)" for x r
  proof -
    have "x \<in> H" "x \<notin> set (samples d)" using x new by auto
    then have "covered d x r" by (rule history_parts(5) [OF h])
    then show ?thesis by (simp add: covered_def)
  qed
  ultimately show ?thesis using history_parts(2,3) [OF h] new by (auto simp: history_ok_def)
qed

lemma archive_step_keeps_history:
  assumes "archive_step e (H, d) (H', d')" and h: "history_ok H d"
  shows "history_ok H' d'"
  using assms(1)
proof cases
  case a: elsewhere
  have "rows_of d' = rows_of d" using a by (simp add: rows_of_def fun_eq_iff)
  then have "partition_ok H d' = partition_ok H d" "covered d' = covered d"
    using a by (simp_all add: partition_ok_def matches_def covered_def fun_eq_iff)
  moreover have "tables_ok d'" using history_parts(1) [OF h] a by (simp add: tables_ok_def)
  ultimately show ?thesis using h a by (simp add: history_ok_def)
next
  case (store s b)
  then show ?thesis using store_keeps_history [OF h] by blast
next
  case (compact r c i wrote)
  then show ?thesis using compaction_keeps_history [OF h] by blast
next
  case (retain t s now res)
  then show ?thesis using retention_keeps_history [OF h] by blast
qed

lemma archive_keeps_history:
  assumes "(archive_step e)\<^sup>*\<^sup>* x y" and "history_ok (fst x) (snd x)"
  shows "history_ok (fst y) (snd y)"
  using assms
proof (induction rule: rtranclp_induct)
  case (step y z)
  have "archive_step e (fst y, snd y) (fst z, snd z)" using step.hyps(2) by simp
  then show ?case by (rule archive_step_keeps_history) (rule step.IH [OF step.prems])
qed simp

text \<open>No samples, partitions or rollup rows yet.\<close>

definition no_history :: "rollup_db \<Rightarrow> bool" where
  "no_history d = (samples d = [] \<and> partitions d = [] \<and> rollups d = [])"

lemma no_history_ok: "no_history d \<Longrightarrow> history_ok {} d"
  by (simp add: no_history_def history_ok_def tables_ok_def)

text \<open>
  C35. No sample is ever lost: whatever sequence of insertions, compactions and retention passes has run, a
  sample that was stored is either still there, or for both the hour and the day of its time there is a
  partition sealed after the sample was stored, and unless the rows of that partition have expired, the
  rollup row of the sample's series counts at least all samples of that series and bucket stored before
  the sealing.
\<close>

theorem no_sample_lost:
  assumes run: "(archive_step e)\<^sup>*\<^sup>* ({}, d0) (H, d)" and init: "no_history d0" and s: "s \<in> H"
  shows "s \<in> set (samples d) \<or>
    (\<forall>r. \<exists>p \<in> set (partitions d). \<exists>t. bucket_key p = (smp_host s, r, bucket_of r (smp_observed_ms s))
       \<and> pt_sealed_at p = Some t \<and> smp_created_at s < t
       \<and> (pt_pruned_at p \<noteq> None
          \<or> (\<exists>u \<in> set (rollups d). rollup_key u = (smp_host s, key_of_row s, r, bucket_of r (smp_observed_ms s))
               \<and> card {x \<in> H. smp_host x = smp_host s \<and> bucket_of r (smp_observed_ms x) = bucket_of r (smp_observed_ms s)
                    \<and> key_of_row x = key_of_row s \<and> smp_created_at x < t} \<le> sr_sample_count (ru_series u))))"
proof (cases "s \<in> set (samples d)")
  case False
  have h: "history_ok H d" using archive_keeps_history [OF run] no_history_ok [OF init] by simp
  have "\<exists>p \<in> set (partitions d). \<exists>t. bucket_key p = (smp_host s, r, bucket_of r (smp_observed_ms s))
       \<and> pt_sealed_at p = Some t \<and> smp_created_at s < t
       \<and> (pt_pruned_at p \<noteq> None
          \<or> (\<exists>u \<in> set (rollups d). rollup_key u = (smp_host s, key_of_row s, r, bucket_of r (smp_observed_ms s))
               \<and> card {x \<in> H. smp_host x = smp_host s \<and> bucket_of r (smp_observed_ms x) = bucket_of r (smp_observed_ms s)
                    \<and> key_of_row x = key_of_row s \<and> smp_created_at x < t} \<le> sr_sample_count (ru_series u)))" for r
  proof -
    have "covered d s r" by (rule history_parts(5) [OF h s False])
    then obtain p t where p: "p \<in> set (partitions d)" "bucket_key p = (smp_host s, r, bucket_of r (smp_observed_ms s))"
        "pt_sealed_at p = Some t" "smp_created_at s < t"
      unfolding covered_def by blast
    obtain S where S: "S \<subseteq> bucket_in H p" "matches d p S" "\<forall>x \<in> bucket_in H p - S. t \<le> smp_created_at x"
      using history_parts(4) [OF h p(1)] p(3) unfolding partition_ok_def by blast
    let ?T = "{x \<in> H. smp_host x = smp_host s \<and> bucket_of r (smp_observed_ms x) = bucket_of r (smp_observed_ms s)
        \<and> key_of_row x = key_of_row s \<and> smp_created_at x < t}"
    have B: "bucket_in H p = {x \<in> H. smp_host x = smp_host s \<and> bucket_of r (smp_observed_ms x) = bucket_of r (smp_observed_ms s)}"
      using p(2) by (simp add: bucket_in_def bucket_set_def bucket_key_def)
    have sub: "?T \<subseteq> {x \<in> S. key_of_row x = key_of_row s}" using S(3) B by force
    have "finite S" using S(1) history_parts(2) [OF h] B by (auto intro: finite_subset)
    then have le: "card ?T \<le> card {x \<in> S. key_of_row x = key_of_row s}" using sub by (intro card_mono) auto
    have "s \<in> S" using sub s p(4) by blast
    then have "\<exists>u \<in> set (rollups d). rollup_key u = (smp_host s, key_of_row s, r, bucket_of r (smp_observed_ms s))
        \<and> card ?T \<le> sr_sample_count (ru_series u)" if "pt_pruned_at p = None"
    proof -
      have "key_of_row s \<in> (\<lambda>u. sr_key (ru_series u)) ` rows_of d p"
        using S(2) that \<open>s \<in> S\<close> unfolding matches_def by blast
      then obtain u where u: "u \<in> rows_of d p" "sr_key (ru_series u) = key_of_row s" by auto
      then have "sr_sample_count (ru_series u) = card {x \<in> S. key_of_row x = key_of_row s}"
        using S(2) that unfolding matches_def by metis
      then show ?thesis using u le p(2) by (intro bexI [of _ u]) (auto simp: rows_of_def rollup_key_eq)
    qed
    then show ?thesis using p by blast
  qed
  then show ?thesis by blast
qed simp


theorem no_sample_lost_witness:
  "sample_gauge ''a'' 5 \<in> set (samples (sample_archive [sample_run Succeeded] [sample_gauge ''a'' 5] [] [])) \<or>
    (\<forall>r. \<exists>p \<in> set (partitions (sample_archive [sample_run Succeeded] [sample_gauge ''a'' 5] [] [])). pt_resolution p = r)"
proof -
  let ?d0 = "sample_archive [sample_run Succeeded] [] [] []" and ?s = "sample_gauge ''a'' 5"
  have t: "samples (db.truncate ?d0) = []" "runs (db.truncate ?d0) = [sample_run Succeeded]"
    by (simp_all add: db.truncate_def)
  have "insert_sample ?s (db.truncate ?d0) = Inr (db.truncate ?d0\<lparr>samples := [?s]\<rparr>)"
    using sample_gauge_checks [of 5 "''a''"]
    by (simp add: insert_sample_def t) (simp add: sample_gauge_def sample_run_def)
  then have "archive_step sample_rollup_env ({}, ?d0) (insert ?s {}, ?d0\<lparr>samples := samples (db.truncate ?d0\<lparr>samples := [?s]\<rparr>)\<rparr>)"
    by (rule archive_step.store) simp
  then have run: "(archive_step sample_rollup_env)\<^sup>*\<^sup>* ({}, ?d0) ({?s}, sample_archive [sample_run Succeeded] [?s] [] [])"
    by simp
  have "no_history ?d0" by (simp add: no_history_def)
  from no_sample_lost [OF run this, of ?s] show ?thesis by auto
qed

end
