(* ===== verification/HistoryPaging.thy ===== *)
theory HistoryPaging
  imports HistoryQueries RollupHistory
begin

text \<open>
  Reading a range page by page. The locale \<open>keyset_query\<close> is the contract of a query whose rows are in the
  order of a position: a page and the rows after its cursor are the rows that were left. Both queries of
  \<open>HistoryQueries\<close> are instances, and a client that follows the cursors reads every row once. The second
  part relates the choice of a resolution to the retention of \<open>RollupRetention\<close>.
\<close>

subsection \<open>Pages of a sorted answer\<close>

lemma after_cursor_Some:
  "after_cursor (Some \<lparr>hcu_epoch_ms = t, hcu_sample_id = i\<rparr>) p \<longleftrightarrow> (t, i) < p"
  by (cases p) (auto simp: after_cursor_def)

locale keyset_query =
  fixes rows :: "'q \<Rightarrow> 'r list" and pos :: "'r \<Rightarrow> int \<times> string"
  assumes rows_sorted: "sorted (map pos (rows q))"
begin

lemma cursor_drops:
  assumes d: "distinct (map pos (rows q))" and n: "n < length rest" "0 < n"
    and rest: "rest = filter (\<lambda>r. after_cursor c (pos r)) (rows q)"
    and c': "c' = Some \<lparr>hcu_epoch_ms = fst (pos (rest ! (n - 1))), hcu_sample_id = snd (pos (rest ! (n - 1)))\<rparr>"
  shows "filter (\<lambda>r. after_cursor c' (pos r)) (rows q) = drop n rest"
proof -
  let ?p = "pos (rest ! (n - 1))"
  have after': "after_cursor c' x \<longleftrightarrow> ?p < x" for x
    unfolding c' after_cursor_Some by simp
  have "sorted_wrt (<) (map pos (rows q))"
    using d rows_sorted [of q] by (simp only: strict_sorted_iff simp_thms)
  then have s: "sorted_wrt (<) (map pos rest)"
    unfolding rest by (simp add: sorted_wrt_map sorted_wrt_filter)
  have "rest ! (n - 1) \<in> set rest" using n by simp
  then have p: "after_cursor c ?p" unfolding rest by simp
  have trans: "after_cursor c x" if "?p < x" for x
    using p that by (cases c; cases x; cases "?p") (auto simp: after_cursor_def)
  have "filter (\<lambda>r. after_cursor c' (pos r)) (rows q) = filter (\<lambda>r. after_cursor c' (pos r)) rest"
    unfolding rest filter_filter by (intro filter_cong refl) (metis after' trans)
  also have "\<dots> = filter (\<lambda>r. ?p < pos r) (take n rest) @ filter (\<lambda>r. ?p < pos r) (drop n rest)"
    by (simp add: after' flip: filter_append)
  also have "filter (\<lambda>r. ?p < pos r) (take n rest) = []"
  proof -
    have "\<not> ?p < pos (rest ! i)" if "i < n" for i
    proof (cases "i = n - 1")
      case False
      then have "pos (rest ! i) < ?p"
        using s n that by (simp add: sorted_wrt_iff_nth_less)
      then show ?thesis by simp
    qed simp
    then show ?thesis using n by (auto simp: filter_empty_conv in_set_conv_nth)
  qed
  also have "filter (\<lambda>r. ?p < pos r) (drop n rest) = drop n rest"
  proof -
    have "?p < pos (rest ! (n + i))" if "n + i < length rest" for i
      using s n that by (simp add: sorted_wrt_iff_nth_less)
    then show ?thesis using n by (auto simp: filter_id_conv in_set_conv_nth)
  qed
  finally show ?thesis by simp
qed

lemma page_step:
  assumes d: "distinct (map pos (rows q))" and n: "0 < limit"
    and rest: "rest = filter (\<lambda>r. after_cursor c (pos r)) (rows q)"
    and cut: "cut_page pos limit (take (limit + 1) rest) = (page, has_more, c')"
  shows "page = take limit rest" and "has_more \<longleftrightarrow> limit < length rest"
    and "has_more \<Longrightarrow> c' \<noteq> None \<and> filter (\<lambda>r. after_cursor c' (pos r)) (rows q) = drop limit rest"
    and "\<not> has_more \<Longrightarrow> c' = None"
    and "has_more \<Longrightarrow> \<exists>r \<in> set rest. c' = Some \<lparr>hcu_epoch_ms = fst (pos r), hcu_sample_id = snd (pos r)\<rparr>"
proof -
  show page: "page = take limit rest" and m: "has_more \<longleftrightarrow> limit < length rest"
    using cut by (auto simp: cut_page_def Let_def min_def split: if_splits)
  show "\<not> has_more \<Longrightarrow> c' = None" using cut by (auto simp: cut_page_def Let_def)
  assume h: "has_more"
  then have l: "limit < length rest" using m by simp
  have ne: "take limit rest \<noteq> []" using l n by auto
  have "last (take limit rest) = rest ! (limit - 1)"
    using last_conv_nth [OF ne] l n by (simp add: min_def)
  then have r: "rev (take limit rest) = rest ! (limit - 1) # rev (butlast (take limit rest))"
    using ne by (metis append_butlast_last_id rev_eq_Cons_iff rev_rev_ident)
  have "c' = (case rev page of [] \<Rightarrow> None | r # _ \<Rightarrow> Some \<lparr>hcu_epoch_ms = fst (pos r), hcu_sample_id = snd (pos r)\<rparr>)"
    using cut h by (auto simp: cut_page_def Let_def)
  then have c': "c' = Some \<lparr>hcu_epoch_ms = fst (pos (rest ! (limit - 1))), hcu_sample_id = snd (pos (rest ! (limit - 1)))\<rparr>"
    by (simp only: page r list.case)
  show "c' \<noteq> None \<and> filter (\<lambda>r. after_cursor c' (pos r)) (rows q) = drop limit rest"
    using cursor_drops [OF d l n rest c'] c' by simp
  show "\<exists>r \<in> set rest. c' = Some \<lparr>hcu_epoch_ms = fst (pos r), hcu_sample_id = snd (pos r)\<rparr>"
    using c' l n by (intro bexI [of _ "rest ! (limit - 1)"]) simp_all
qed

end

interpretation raw_query: keyset_query "\<lambda>(host, from, to, f, d). matching_samples host from to f d" sample_position
  by unfold_locales (simp add: matching_samples_def split: prod.split)

interpretation rollup_query:
  keyset_query "\<lambda>(host, r, from, to, f, d). matching_rollups host r from to f d" rollup_position
  by unfold_locales (simp add: matching_rollups_def split: prod.split)

subsection \<open>Grouping into series\<close>

lemma mset_concat_groups:
  "distinct ks \<Longrightarrow> mset (concat (map (\<lambda>k. filter (\<lambda>p. fst p = k) ps) ks)) = mset (filter (\<lambda>p. fst p \<in> set ks) ps)"
proof (induction ks)
  case (Cons k ks)
  have "mset (filter (\<lambda>p. fst p \<in> set (k # ks)) ps)
      = mset (filter (\<lambda>p. fst p = k) ps) + mset (filter (\<lambda>p. fst p \<in> set ks) ps)"
    using Cons.prems by (induction ps) auto
  then show ?case using Cons by simp
qed simp

lemma group_points_all:
  "mset (concat (map (\<lambda>g. snd (snd g)) (group_points ps))) = mset (map (\<lambda>p. snd (snd p)) ps)"
proof -
  let ?ks = "sort_key series_fields (remdups (map fst ps))"
  have "concat (map (\<lambda>g. snd (snd g)) (group_points ps))
      = map (\<lambda>p. snd (snd p)) (concat (map (\<lambda>k. filter (\<lambda>p. fst p = k) ps) ?ks))"
    by (simp add: group_points_def map_concat comp_def Let_def)
  then have "mset (concat (map (\<lambda>g. snd (snd g)) (group_points ps)))
      = image_mset (\<lambda>p. snd (snd p)) (mset (filter (\<lambda>p. fst p \<in> set ?ks) ps))"
    by (simp only: mset_map mset_concat_groups distinct_sort distinct_remdups)
  also have "filter (\<lambda>p. fst p \<in> set ?ks) ps = ps" by (simp add: filter_id_conv)
  finally show ?thesis by simp
qed

lemma group_points_member:
  "(k, j, points) \<in> set (group_points ps) \<Longrightarrow>
     points \<noteq> [] \<and> points = map (\<lambda>p. snd (snd p)) (filter (\<lambda>p. fst p = k) ps) \<and> k \<in> fst ` set ps"
  by (fastforce simp: group_points_def Let_def filter_empty_conv)

text \<open>The names a row stores are all the queries need to build its series.\<close>

definition readable_key :: "series_key \<Rightarrow> bool" where
  "readable_key k =
     (sk_family k \<in> set sample_families \<and> sk_subject_kind k \<in> set sample_subjects
      \<and> sk_kind k \<in> {''gauge'', ''counter'', ''derived''} \<and> sk_source k = HISTORY_SOURCE_KIND)"

lemma series_of_total:
  assumes "readable_key (fst g)"
  shows "\<exists>se. series_of g = Inr se \<and> hse_points se = snd (snd g)"
proof -
  obtain f s k where "parse_family (sk_family (fst g)) = Inr f" "parse_subject_kind (sk_subject_kind (fst g)) = Inr s"
    "parse_sample_kind (sk_kind (fst g)) = Inr k"
    using assms stored_names_parse unfolding readable_key_def by meson
  then show ?thesis using assms by (simp add: series_of_def readable_key_def parse_source_kind_def Let_def)
qed

lemma page_of_total:
  assumes cut: "cut_page pos limit rows = (page, has_more, c')"
    and point: "\<And>r. r \<in> set page \<Longrightarrow> \<exists>k j p. point r = Inr (k, j, p) \<and> readable_key k"
  shows "\<exists>series. page_of pos point limit rows = Inr \<lparr>hpg_series = series, hpg_has_more = has_more, hpg_next_cursor = c'\<rparr>
           \<and> mset (concat (map hse_points series)) = mset (map (\<lambda>r. snd (snd (projr (point r)))) page)"
proof -
  let ?ps = "map (\<lambda>r. projr (point r)) page"
  have ps: "collect_results (map point page) = Inr ?ps"
    unfolding collect_results_Inr map_map comp_def using point by (intro map_cong refl) (metis sum.sel(2))
  have keys: "readable_key (fst p)" if "p \<in> set ?ps" for p using point that by fastforce
  have each: "\<exists>se. series_of g = Inr se \<and> hse_points se = snd (snd g)" if "g \<in> set (group_points ?ps)" for g
  proof (rule series_of_total)
    obtain k j points where g: "g = (k, j, points)" using prod_cases3 by blast
    have "k \<in> fst ` set ?ps" using group_points_member that unfolding g by blast
    then obtain p where "p \<in> set ?ps" "k = fst p" by blast
    then show "readable_key (fst g)" using keys unfolding g by simp
  qed
  let ?series = "map (\<lambda>g. projr (series_of g)) (group_points ?ps)"
  have "collect_results (map series_of (group_points ?ps)) = Inr ?series"
    unfolding collect_results_Inr map_map comp_def using each by (intro map_cong refl) (metis sum.sel(2))
  moreover have "map hse_points ?series = map (\<lambda>g. snd (snd g)) (group_points ?ps)"
    unfolding map_map comp_def using each by (intro map_cong refl) (metis sum.sel(2))
  ultimately show ?thesis
    using group_points_all [of ?ps] by (auto simp: page_of_def cut ps comp_def cong: map_cong)
qed

subsection \<open>A client that follows the cursors\<close>

definition continue_at :: "history_cursor \<Rightarrow> history_query \<Rightarrow> history_query" where
  "continue_at c q = q\<lparr>hq_after_epoch_ms := Some (hcu_epoch_ms c), hq_after_sample_id := Some (hcu_sample_id c)\<rparr>"

fun follow ::
  "nat \<Rightarrow> query_env \<Rightarrow> headers \<Rightarrow> string \<Rightarrow> history_query \<Rightarrow> ('a rollup_db_scheme) history_request
   \<Rightarrow> history_error + history_response list"
where
  "follow 0 e hdr host q x = Inr []"
| "follow (Suc n) e hdr host q x =
     and_then (get_host_metrics e hdr host (Some q) x) (\<lambda>r.
       case hda_next_cursor (hr_data r) of
         None \<Rightarrow> Inr [r]
       | Some c \<Rightarrow> and_then (follow n e hdr host (continue_at c q) x) (\<lambda>rs. Inr (r # rs)))"

definition response_positions :: "history_response \<Rightarrow> (int \<times> string) multiset" where
  "response_positions r =
     mset (map (\<lambda>p. (hp_at_epoch_ms p, hp_sample_id p)) (concat (map hse_points (hda_series (hr_data r)))))"

text \<open>The rows a query is about, by time and identifier, in the order of the answer.\<close>

definition history_answer ::
  "history_resolution \<Rightarrow> string \<Rightarrow> instant \<Rightarrow> instant \<Rightarrow> history_filters \<Rightarrow> ('a rollup_db_scheme) \<Rightarrow> (int \<times> string) list"
where
  "history_answer res host from to f d =
     (case res of
        ResRaw \<Rightarrow> map sample_position (matching_samples host from to f d)
      | ResHour \<Rightarrow> map rollup_position (matching_rollups host Hour from to f d)
      | ResDay \<Rightarrow> map rollup_position (matching_rollups host Day from to f d))"

text \<open>What the constraints of the tables give, with identifiers and dimensions as the writers make them.\<close>

definition readable_tables :: "query_env \<Rightarrow> ('a rollup_db_scheme) \<Rightarrow> bool" where
  "readable_tables e d =
     ((\<forall>s \<in> set (samples d). sample_checks s \<and> valid_cursor_sample_id e (smp_id s) \<and> json_value e (smp_dims_json s) \<noteq> None)
      \<and> distinct (map smp_id (samples d))
      \<and> (\<forall>u \<in> set (rollups d). rollup_checks u \<and> valid_cursor_sample_id e (ru_id u)
           \<and> (\<exists>fs. json_value e (sr_dims_json (ru_series u)) = Some (JObj fs)))
      \<and> distinct (map ru_id (rollups d)))"

lemma continue_at_simps [simp]:
  "hq_from (continue_at c q) = hq_from q" "hq_to (continue_at c q) = hq_to q"
  "hq_resolution (continue_at c q) = hq_resolution q"
  "effective_subject host (continue_at c q) = effective_subject host q"
  by (simp_all add: continue_at_def effective_subject_def)

lemma validate_continued:
  assumes "validate_query_options e host q = Inr (f, c, limit)"
    and "0 \<le> t" "valid_cursor_sample_id e i"
  shows "validate_query_options e host (continue_at \<lparr>hcu_epoch_ms = t, hcu_sample_id = i\<rparr> q)
           = Inr (f, Some \<lparr>hcu_epoch_ms = t, hcu_sample_id = i\<rparr>, limit)"
  using assms by (auto simp: validate_query_options_def effective_cursor_def Let_def
      split: if_splits) (auto simp: continue_at_def)

lemma validated_limit: "validate_query_options e host q = Inr (f, c, limit) \<Longrightarrow> 1 \<le> limit \<and> limit \<le> 5000"
  by (auto simp: validate_query_options_def Let_def MAX_HISTORY_PAGE_LIMIT_def split: if_splits)

lemma coverage_total: "\<exists>c. query_coverage host from to fam res d = Inr c"
  by (cases res) (simp_all add: query_coverage_def query_rollup_coverage_def Let_def)

lemma latest_total: "\<exists>l. query_latest_observation host from to f res d = Inr l"
  by (cases res) (simp_all add: query_latest_observation_def query_rollup_latest_observation_def)

lemma triple_exists: "\<exists>a b c. z = (a, b, c)"
  by (cases z) auto

lemma freshness_total: "\<exists>a b c. query_freshness host from to now f res d = Inr (a, b, c)"
  by (cases res) (simp_all add: query_freshness_def query_rollup_freshness_def triple_exists)

lemma metrics_answered:
  assumes "host \<in> set (hosts (qr_hosts x))"
    and "rfc3339 e (hq_from q) = Some from" "rfc3339 e (hq_to q) = Some to"
    and "validate_range (qr_range_checked_at x) from to (hq_resolution q) = Inr ()"
    and "validate_query_options e host q = Inr (f, c, limit)"
    and "res = choose_resolution (hq_resolution q) from to (qr_evaluated_at x) (qr_settings x)"
    and "query_page e host (max from (qr_history_started_at x * ns_per_ms)) to f c limit res (qr_page x) = Inr page"
  shows "\<exists>r. get_host_metrics e hdr host (Some q) x = Inr r \<and> hda_series (hr_data r) = hpg_series page
           \<and> hda_next_cursor (hr_data r) = hpg_next_cursor page \<and> hda_has_more (hr_data r) = hpg_has_more page"
proof -
  let ?ef = "max from (qr_history_started_at x * ns_per_ms)"
  obtain cov where cov: "query_coverage host ?ef to (hf_family f) res (qr_coverage x) = Inr cov"
    using coverage_total by blast
  obtain l where l: "query_latest_observation host ?ef to f res (qr_latest x) = Inr l" using latest_total by blast
  obtain a b fr where fr: "query_freshness host ?ef to (qr_evaluated_at x) f res (qr_freshness x) = Inr (a, b, fr)"
    using freshness_total by metis
  show ?thesis
    using assms cov l fr by (simp add: get_host_metrics_def parse_query_time_def Let_def)
qed

lemma sample_point_total:
  assumes "readable_tables e d" "s \<in> set (samples d)"
  shows "\<exists>k j p. sample_point e s = Inr (k, j, p) \<and> readable_key k
           \<and> (hp_at_epoch_ms p, hp_sample_id p) = sample_position s"
proof -
  have c: "sample_checks s" and j: "json_value e (smp_dims_json s) \<noteq> None"
    using assms by (auto simp: readable_tables_def)
  obtain j where "json_value e (smp_dims_json s) = Some j" using j by auto
  moreover obtain m where "parse_metric_quality (smp_quality s) = Inr m"
    using c stored_names_parse(4) unfolding sample_checks_def by blast
  moreover have "readable_key (key_of_row s)"
    using c by (simp add: readable_key_def key_of_row_def sample_checks_def HISTORY_SOURCE_KIND_def)
  ultimately show ?thesis by (simp add: sample_point_def json_or_internal_def sample_position_def)
qed

lemma rollup_point_total:
  assumes "readable_tables e d" "u \<in> set (rollups d)"
  shows "\<exists>k j p. rollup_point e r u = Inr (k, j, p) \<and> readable_key k
           \<and> (hp_at_epoch_ms p, hp_sample_id p) = rollup_position u"
proof -
  have c: "rollup_checks u" using assms by (auto simp: readable_tables_def)
  obtain fs where "json_value e (sr_dims_json (ru_series u)) = Some (JObj fs)"
    using assms by (auto simp: readable_tables_def)
  moreover have "sr_quality (ru_series u) \<in> set sample_qualities" using c unfolding rollup_checks_def Let_def by blast
  then obtain m where "parse_metric_quality (sr_quality (ru_series u)) = Inr m"
    using stored_names_parse(4) by blast
  moreover have "series_key_checks (sr_key (ru_series u))" using c unfolding rollup_checks_def Let_def by blast
  then have "readable_key (sr_key (ru_series u))"
    by (simp add: readable_key_def series_key_checks_def HISTORY_SOURCE_KIND_def)
  ultimately show ?thesis by (simp add: rollup_point_def json_or_internal_def rollup_position_def Let_def)
qed

text \<open>The contract of a page, for the three resolutions alike.\<close>

definition page_positions :: "history_page \<Rightarrow> (int \<times> string) multiset" where
  "page_positions p = mset (map (\<lambda>p. (hp_at_epoch_ms p, hp_sample_id p)) (concat (map hse_points (hpg_series p))))"

definition continues :: "query_env \<Rightarrow> (int \<times> string) list \<Rightarrow> nat \<Rightarrow> (int \<times> string) list \<Rightarrow> history_cursor option \<Rightarrow> bool" where
  "continues e rows limit rest c =
     (case c of
        None \<Rightarrow> length rest \<le> limit
      | Some x \<Rightarrow> limit < length rest \<and> filter (after_cursor c) rows = drop limit rest
          \<and> 0 \<le> hcu_epoch_ms x \<and> valid_cursor_sample_id e (hcu_sample_id x))"

context keyset_query
begin

lemma page_contract:
  assumes d: "distinct (map pos (rows q))" and n: "0 < limit"
    and point: "\<And>r. r \<in> set (rows q) \<Longrightarrow> \<exists>k j p. point r = Inr (k, j, p) \<and> readable_key k
                  \<and> (hp_at_epoch_ms p, hp_sample_id p) = pos r"
    and ids: "\<And>r. r \<in> set (rows q) \<Longrightarrow> 0 \<le> fst (pos r) \<and> valid_cursor_sample_id e (snd (pos r))"
  shows "\<exists>page. page_of pos point limit (take (limit + 1) (filter (\<lambda>r. after_cursor c (pos r)) (rows q))) = Inr page
           \<and> page_positions page = mset (take limit (filter (after_cursor c) (map pos (rows q))))
           \<and> continues e (map pos (rows q)) limit (filter (after_cursor c) (map pos (rows q))) (hpg_next_cursor page)"
proof -
  define rest where "rest = filter (\<lambda>r. after_cursor c (pos r)) (rows q)"
  have rest': "filter (after_cursor c) (map pos (rows q)) = map pos rest"
    by (simp add: filter_map comp_def rest_def)
  obtain page has_more c' where cut: "cut_page pos limit (take (limit + 1) rest) = (page, has_more, c')"
    using prod_cases3 by blast
  note step = page_step [OF d n rest_def cut]
  have sub: "set page \<subseteq> set (rows q)" unfolding step(1) rest_def using set_take_subset by fastforce
  obtain series where page: "page_of pos point limit (take (limit + 1) rest)
        = Inr \<lparr>hpg_series = series, hpg_has_more = has_more, hpg_next_cursor = c'\<rparr>"
    and points: "mset (concat (map hse_points series)) = mset (map (\<lambda>r. snd (snd (projr (point r)))) page)"
    using page_of_total [OF cut] point sub by (metis subsetD)
  have at_pos: "(\<lambda>p. (hp_at_epoch_ms p, hp_sample_id p)) (snd (snd (projr (point r)))) = pos r" if "r \<in> set page" for r
    using point [of r] that sub by fastforce
  have "page_positions \<lparr>hpg_series = series, hpg_has_more = has_more, hpg_next_cursor = c'\<rparr>
      = image_mset (\<lambda>p. (hp_at_epoch_ms p, hp_sample_id p)) (mset (map (\<lambda>r. snd (snd (projr (point r)))) page))"
    unfolding page_positions_def by (simp only: history_page.simps mset_map points)
  also have "\<dots> = mset (map pos page)"
    using at_pos by (simp add: multiset.map_comp comp_def cong: map_cong flip: mset_map)
  finally have pos: "page_positions \<lparr>hpg_series = series, hpg_has_more = has_more, hpg_next_cursor = c'\<rparr>
      = mset (take limit (map pos rest))" by (simp add: step(1) take_map)
  have "continues e (map pos (rows q)) limit (map pos rest) c'"
  proof (cases has_more)
    case True
    then obtain r where r: "r \<in> set rest" "c' = Some \<lparr>hcu_epoch_ms = fst (pos r), hcu_sample_id = snd (pos r)\<rparr>"
      using step(5) by blast
    moreover have "filter (after_cursor c') (map pos (rows q)) = drop limit (map pos rest)"
      using step(3) True by (simp add: filter_map comp_def drop_map)
    ultimately show ?thesis
      using ids [of r] step(2) True by (simp add: continues_def rest_def)
  qed (use step(2,4) in \<open>simp add: continues_def\<close>)
  then show ?thesis using page pos by (auto simp flip: rest_def simp: rest')
qed

end

lemma answer_page:
  assumes t: "readable_tables e d" and n: "0 < limit"
  shows "\<exists>page. query_page e host from to f c limit res d = Inr page
           \<and> page_positions page = mset (take limit (filter (after_cursor c) (history_answer res host from to f d)))
           \<and> continues e (history_answer res host from to f d) limit
               (filter (after_cursor c) (history_answer res host from to f d)) (hpg_next_cursor page)"
proof -
  have samples: "s \<in> set (samples d)" if "s \<in> set (matching_samples host from to f d)" for s
    using that by (simp add: matching_samples_def)
  have rollups: "u \<in> set (rollups d)" if "u \<in> set (matching_rollups host r from to f d)" for u r
    using that by (simp add: matching_rollups_def)
  have ds: "distinct (map sample_position (matching_samples host from to f d))"
    using t by (auto simp: matching_samples_def readable_tables_def distinct_map sample_position_def inj_on_def)
  have dr: "distinct (map rollup_position (matching_rollups host r from to f d))" for r
    using t by (auto simp: matching_rollups_def readable_tables_def distinct_map rollup_position_def inj_on_def)
  have ids: "0 \<le> fst (sample_position s) \<and> valid_cursor_sample_id e (snd (sample_position s))"
    if "s \<in> set (matching_samples host from to f d)" for s
    using samples [OF that] t by (auto simp: readable_tables_def sample_checks_def sample_position_def)
  have ir: "0 \<le> fst (rollup_position u) \<and> valid_cursor_sample_id e (snd (rollup_position u))"
    if "u \<in> set (matching_rollups host r from to f d)" for u r
    using rollups [OF that] t by (auto simp: readable_tables_def rollup_checks_def rollup_position_def Let_def)
  show ?thesis
    using raw_query.page_contract [of "(host, from, to, f, d)" limit "sample_point e" e c]
      rollup_query.page_contract [of "(host, Hour, from, to, f, d)" limit "rollup_point e Hour" e c]
      rollup_query.page_contract [of "(host, Day, from, to, f, d)" limit "rollup_point e Day" e c]
      ds dr n ids ir sample_point_total [OF t] rollup_point_total [OF t] samples rollups
    by (cases res) (simp_all add: query_page_def history_answer_def query_metric_series_def query_rollup_series_def)
qed

lemma follow_from:
  assumes t: "readable_tables e (qr_page x)"
    and host: "host \<in> set (hosts (qr_hosts x))"
    and t1: "rfc3339 e (hq_from q) = Some from" and t2: "rfc3339 e (hq_to q) = Some to"
    and range: "validate_range (qr_range_checked_at x) from to (hq_resolution q) = Inr ()"
    and v: "validate_query_options e host q = Inr (f, c, limit)"
    and res: "res = choose_resolution (hq_resolution q) from to (qr_evaluated_at x) (qr_settings x)"
    and answer: "answer = history_answer res host (max from (qr_history_started_at x * ns_per_ms)) to f (qr_page x)"
    and n: "length (filter (after_cursor c) answer) \<le> n * limit"
  shows "\<exists>rs chunks. follow n e hdr host q x = Inr rs \<and> concat chunks = filter (after_cursor c) answer
           \<and> list_all2 (\<lambda>r ps. response_positions r = mset ps \<and> length ps \<le> limit) rs chunks"
  using t1 t2 range v res n
proof (induction n arbitrary: q c)
  case 0
  then show ?case by (intro exI [of _ "[]"]) simp
next
  case (Suc n)
  let ?rest = "filter (after_cursor c) answer"
  have limit: "0 < limit" using validated_limit [OF Suc.prems(4)] by simp
  obtain page where page: "query_page e host (max from (qr_history_started_at x * ns_per_ms)) to f c limit res (qr_page x) = Inr page"
    and pos: "page_positions page = mset (take limit ?rest)"
    and cont: "continues e answer limit ?rest (hpg_next_cursor page)"
    using answer_page [OF t limit] unfolding answer by blast
  obtain r where r: "get_host_metrics e hdr host (Some q) x = Inr r" "hda_series (hr_data r) = hpg_series page"
    "hda_next_cursor (hr_data r) = hpg_next_cursor page"
    using metrics_answered [OF host Suc.prems(1-5) page] by blast
  have rp: "response_positions r = mset (take limit ?rest)"
    using pos by (simp add: response_positions_def page_positions_def r)
  show ?case
  proof (cases "hpg_next_cursor page")
    case None
    then have "length ?rest \<le> limit" using cont by (simp add: continues_def)
    then show ?thesis using r rp None by (intro exI [of _ "[r]"] exI [of _ "[?rest]"]) simp
  next
    case (Some c')
    obtain t' i where c': "c' = \<lparr>hcu_epoch_ms = t', hcu_sample_id = i\<rparr>" by (cases c')
    note C = cont [unfolded continues_def Some option.case c' history_cursor.simps]
    have v': "validate_query_options e host (continue_at c' q) = Inr (f, Some c', limit)"
      unfolding c' using validate_continued [OF Suc.prems(4)] C by blast
    have drop: "filter (after_cursor (Some c')) answer = drop limit ?rest" using C unfolding c' by blast
    have "length (filter (after_cursor (Some c')) answer) \<le> n * limit"
      unfolding drop using Suc.prems(6) by simp
    note ih = Suc.IH [of "continue_at c' q" "Some c'", unfolded continue_at_simps, OF Suc.prems(1-3) v' Suc.prems(5) this,
        unfolded drop]
    then obtain rs chunks where "follow n e hdr host (continue_at c' q) x = Inr rs" "concat chunks = drop limit ?rest"
      "list_all2 (\<lambda>r ps. response_positions r = mset ps \<and> length ps \<le> limit) rs chunks"
      by blast
    then show ?thesis using r rp Some
      by (intro exI [of _ "r # rs"] exI [of _ "take limit ?rest # chunks"]) simp
  qed
qed

text \<open>
  C14. Reading a range page by page misses nothing and repeats nothing: a client that asks for a range and
  then follows the cursors it is given is never refused, and gets every stored sample or rollup row of the
  range that passes the filters exactly once, in pages of at most the limit that follow one another in time.
\<close>

theorem history_pages_complete:
  assumes "readable_tables e (qr_page x)"
    and "host \<in> set (hosts (qr_hosts x))"
    and "rfc3339 e (hq_from q) = Some from" and "rfc3339 e (hq_to q) = Some to"
    and "validate_range (qr_range_checked_at x) from to (hq_resolution q) = Inr ()"
    and "validate_query_options e host q = Inr (f, None, limit)"
    and "res = choose_resolution (hq_resolution q) from to (qr_evaluated_at x) (qr_settings x)"
    and "answer = history_answer res host (max from (qr_history_started_at x * ns_per_ms)) to f (qr_page x)"
    and "length answer \<le> n * limit"
  shows "\<exists>rs chunks. follow n e hdr host q x = Inr rs \<and> concat chunks = answer
           \<and> list_all2 (\<lambda>r ps. response_positions r = mset ps \<and> length ps \<le> limit) rs chunks"
proof -
  have all: "filter (after_cursor None) answer = answer" by (simp add: after_cursor_def filter_id_conv)
  show ?thesis
    using follow_from [OF assms(1-8)] assms(9) unfolding all by blast
qed

text \<open>Three samples read in pages of two.\<close>

definition reading_env :: query_env where
  "reading_env = \<lparr>rfc3339 = (\<lambda>t. if t = ''t0'' then Some 0 else Some (60 * ns_per_s)), uuid_text = Some,
     json_value = (\<lambda>_. Some (JObj []))\<rparr>"

definition reading_query :: history_query where
  "reading_query = \<lparr>hq_from = ''t0'', hq_to = ''t1'', hq_resolution = ReqRaw, hq_family = None, hq_subject_kind = None,
     hq_subject_id = None, hq_metric_name = Some ''load1'', hq_sample_kind = None, hq_after_epoch_ms = None,
     hq_after_sample_id = None, hq_limit = Some 2\<rparr>"

definition three_samples :: rollup_db where
  "three_samples = sample_archive [sample_run Succeeded]
     [sample_gauge ''s2'' 2000, sample_gauge ''s3'' 2000, sample_gauge ''s1'' 1000] [] []"

definition reading :: "rollup_db history_request" where
  "reading = \<lparr>qr_hosts = three_samples, qr_page = three_samples, qr_coverage = three_samples, qr_latest = three_samples,
     qr_freshness = three_samples, qr_history_started_at = 0, qr_range_checked_at = 60 * ns_per_s,
     qr_evaluated_at = 60 * ns_per_s, qr_generated_at = 60 * ns_per_s, qr_settings = default_rollup_settings,
     qr_fresh_id = ''q''\<rparr>"

theorem history_pages_complete_witness:
  "\<exists>rs chunks. follow 2 reading_env (\<lambda>_. None) ''h'' reading_query reading = Inr rs
     \<and> concat chunks = [(1000, ''s1''), (2000, ''s2''), (2000, ''s3'')]
     \<and> list_all2 (\<lambda>r ps. response_positions r = mset ps \<and> length ps \<le> 2) rs chunks"
proof -
  have trims: "trim ''s1'' = ''s1''" "trim ''s2'' = ''s2''" "trim ''s3'' = ''s3''" "trim ''load1'' = ''load1''"
    by (simp_all add: trim_plain plain_char_def)
  have tables: "readable_tables reading_env (qr_page reading)"
    by (simp add: readable_tables_def reading_def three_samples_def sample_gauge_checks)
      (simp add: sample_gauge_def reading_env_def valid_cursor_sample_id_def valid_bounded_text_def trims text_between_def
        char_length_def is_ascii_control_def MAX_CURSOR_SAMPLE_ID_CHARS_def)
  have checked: "validate_query_options reading_env ''h'' reading_query = Inr (\<lparr>hf_family = None, hf_subject_kind = ''host'',
      hf_subject_id = Some ''h'', hf_metric_name = Some ''load1'', hf_sample_kind = None\<rparr>, None, 2)"
    by (simp add: validate_query_options_def reading_query_def valid_metric_name_def valid_bounded_text_def trims
        text_between_def char_length_def is_ascii_control_def is_alnum_char_def MAX_METRIC_NAME_CHARS_def
        effective_subject_def effective_cursor_def MAX_HISTORY_PAGE_LIMIT_def)
  let ?f = "\<lparr>hf_family = None, hf_subject_kind = ''host'', hf_subject_id = Some ''h'', hf_metric_name = Some ''load1'',
    hf_sample_kind = None\<rparr>"
  have answer: "history_answer ResRaw ''h'' (max 0 (qr_history_started_at reading * ns_per_ms)) (60 * ns_per_s) ?f (qr_page reading)
      = [(1000, ''s1''), (2000, ''s2''), (2000, ''s3'')]"
    by (simp add: history_answer_def matching_samples_def reading_def three_samples_def sample_in_range_def key_passes_def
        passes_def sample_gauge_def key_of_row_def sample_position_def timestamp_ms_def ns_per_s_def ns_per_ms_def
        less_eq_prod_def less_prod_def)
  have host: "''h'' \<in> set (hosts (qr_hosts reading))" by (simp add: reading_def three_samples_def)
  have times: "rfc3339 reading_env (hq_from reading_query) = Some 0" "rfc3339 reading_env (hq_to reading_query) = Some (60 * ns_per_s)"
    by (simp_all add: reading_env_def reading_query_def)
  have range: "validate_range (qr_range_checked_at reading) 0 (60 * ns_per_s) (hq_resolution reading_query) = Inr ()"
    by (simp add: validate_range_def reading_def reading_query_def seconds_def ns_per_s_def RAW_QUERY_MAX_SPAN_SECONDS_def)
  have res: "ResRaw = choose_resolution (hq_resolution reading_query) 0 (60 * ns_per_s) (qr_evaluated_at reading) (qr_settings reading)"
    by (simp add: choose_resolution_def reading_query_def)
  have "length [(1000 :: int, ''s1''), (2000, ''s2''), (2000, ''s3'')] \<le> 2 * 2" by simp
  from history_pages_complete [OF tables host times range checked res answer [symmetric] this]
  show ?thesis .
qed

end
