(* ===== verification/RollupProgress.thy ===== *)
theory RollupProgress
  imports RollupHistory RollupStatistics
begin

text \<open>
  Compaction does not fail on well-formed tables: every row it computes passes the checks of the schema, so a
  pass over the closed buckets compacts the oldest of them, as many as its limit allows.
\<close>

subsection \<open>Values\<close>

abbreviation counter_value :: "int \<Rightarrow> bool" where
  "counter_value v \<equiv> 0 \<le> v \<and> v \<le> i64_max"

definition values_ok :: "rollup_db \<Rightarrow> bool" where
  "values_ok d =
     ((\<forall>s \<in> set (samples d). pred_option f_is_finite (smp_value s) \<and> pred_option counter_value (smp_value_integer s))
      \<and> (\<forall>u \<in> set (rollups d). pred_option counter_value (sr_counter_last (ru_series u))))"

lemma boundary_value:
  assumes "values_ok d" and "boundary_for d host k t = Some b"
  shows "counter_value (cb_value b)"
proof -
  let ?rows = "raw_boundaries d host k t @ rollup_boundaries d host k t"
  let ?b = "last (sort_key (\<lambda>b. (bo_epoch b, bo_sample b, - int (bo_rank b))) ?rows)"
  have ne: "?rows \<noteq> []" and b: "cb_value b = bo_value ?b"
    using assms(2) by (auto simp: boundary_for_def load_counter_boundary_def Let_def split: if_splits)
  have "sort_key (\<lambda>b. (bo_epoch b, bo_sample b, - int (bo_rank b))) ?rows \<noteq> []"
    using ne by (metis length_0_conv length_sort)
  then have "?b \<in> set (sort_key (\<lambda>b. (bo_epoch b, bo_sample b, - int (bo_rank b))) ?rows)" by (rule last_in_set)
  then have "?b \<in> set ?rows" by simp
  moreover have "counter_value (bo_value x)" if "x \<in> set (raw_boundaries d host k t)" for x
    using that assms(1)
    by (fastforce simp: raw_boundaries_def map_filter_def with_runs_def values_ok_def)
  moreover have "counter_value (bo_value x)" if x: "x \<in> set (rollup_boundaries d host k t)" for x
  proof -
    obtain u where "u \<in> set (rollups d)" "sr_counter_last (ru_series u) = Some (bo_value x)"
      using x by (auto simp: rollup_boundaries_def split: option.splits)
    then show ?thesis using assms(1) by (auto simp: values_ok_def)
  qed
  ultimately have "counter_value (bo_value ?b)" unfolding set_append by blast
  then show ?thesis by (simp only: b)
qed

lemma counter_statistics_range:
  assumes "\<forall>s \<in> set ss. pred_option counter_value (rw_integer s)"
    and "\<forall>b. boundary = Some b \<longrightarrow> counter_value (cb_value b)" and "length ss \<le> u32_max"
  shows "pred_option (\<lambda>v. 0 \<le> v) (cs_delta (aggregate_counter ss boundary))
    \<and> pred_option counter_value (cs_last (aggregate_counter ss boundary))"
proof (cases "observed_integers ss = []")
  case True
  then show ?thesis by (simp add: aggregate_counter_def default_counter_statistics_def)
next
  case False
  have vals: "\<forall>s \<in> set ss. \<forall>v. rw_integer s = Some v \<longrightarrow> 0 \<le> v \<and> v \<le> i64_max" using assms(1) by auto
  have "\<forall>b. boundary = Some b \<longrightarrow> 0 \<le> cb_value b" using assms(2) by auto
  note delta = counter_delta_correct [OF vals this assms(3) False]
  have "snd (last (observed_integers ss)) = v \<Longrightarrow> counter_value v" for v
  proof -
    obtain s w where "last (observed_integers ss) = (s, w)" by fastforce
    moreover from this have "(s, w) \<in> set (observed_integers ss)" using last_in_set [OF False] by simp
    ultimately show "snd (last (observed_integers ss)) = v \<Longrightarrow> counter_value v"
      using observed_integers_mem vals by fastforce
  qed
  then have "pred_option counter_value (cs_last (aggregate_counter ss boundary))"
    using False by (auto simp: aggregate_counter_def Let_def split: list.splits)
  then show ?thesis using delta increments_nonneg by (simp add: pred_option_def)
qed

subsection \<open>The row of a series\<close>

lemma worst_quality_mem: "worst_quality q qs \<in> insert q (set qs)"
  by (induction q qs rule: worst_quality.induct) auto

lemma aggregate_series_total:
  assumes ne: "ss \<noteq> []" and len: "length ss \<le> u32_max" and key: "\<forall>s \<in> set ss. rw_key s = k"
    and q: "\<forall>s \<in> set ss. rw_quality s \<in> set sample_qualities" and epoch: "\<forall>s \<in> set ss. 0 \<le> rw_epoch s"
    and vals: "\<forall>s \<in> set ss. pred_option counter_value (rw_integer s)"
    and bound: "\<forall>b. boundary = Some b \<longrightarrow> counter_value (cb_value b)"
    and checks: "series_key_checks k" and range: "0 \<le> br_start b" "br_start b < br_end b"
  shows "\<exists>s. aggregate_series e k ss boundary = Inr s \<and> rollup_checks (rollup_row_of i pid host r b now s)
    \<and> pred_option counter_value (sr_counter_last s)"
proof -
  let ?ss = "by_time ss"
  have set: "set ?ss = set ss" and length: "length ?ss = length ss" by (simp_all add: by_time_def)
  then have ne': "?ss \<noteq> []" using ne by auto
  then obtain newest older where rev: "rev ?ss = newest # older" by (cases "rev ?ss") auto
  then have new: "newest \<in> set ss" using set by (metis list.set_intros(1) set_rev)
  obtain s where s: "aggregate_series e k ss boundary = Inr s" using rev len length
    by (auto simp: aggregate_series_def Let_def)
  let ?c = "aggregate_counter ?ss boundary"
  have c: "pred_option (\<lambda>v. 0 \<le> v) (cs_delta ?c) \<and> pred_option counter_value (cs_last ?c)"
    using vals bound len by (intro counter_statistics_range) (simp_all add: set length)
  have worst: "worst_quality (rw_quality (hd ?ss)) (map rw_quality (tl ?ss)) \<in> set sample_qualities"
  proof -
    obtain x xs where x: "?ss = x # xs" using ne' by (cases ?ss) auto
    then have "rw_quality ` set (x # xs) \<subseteq> set sample_qualities" using q set by auto
    then show ?thesis using worst_quality_mem [of "rw_quality x" "map rw_quality xs"] unfolding x by auto
  qed
  have f: "sr_key s = k" "sr_sample_count s = length ?ss" "sr_observed_count s = length (filter is_observed ?ss)"
      "sr_quality s = (if sk_kind k = ''counter'' \<and> cs_overflowed ?c then ''counter_unreliable''
         else worst_quality (rw_quality (hd ?ss)) (map rw_quality (tl ?ss)))"
      "sr_counter_delta s = (if sk_kind k = ''counter'' then cs_delta ?c else None)"
      "sr_counter_first s = (if sk_kind k = ''counter'' then cs_first ?c else None)"
      "sr_counter_last s = (if sk_kind k = ''counter'' then cs_last ?c else None)"
      "sr_reset_count s = (if sk_kind k = ''counter'' then cs_reset_count ?c else 0)"
      "sr_last_sample_ms s = rw_epoch newest"
      "sr_last_valid_ms s = map_option rw_epoch (find is_observed (rev ?ss))"
    using s rev len length by (auto simp: aggregate_series_def Let_def split: if_splits)
  have g: "sr_min s = (if sk_kind k = ''counter'' then None else gs_min (gauge_statistics_of (gauge_values ?ss)))"
      "sr_max s = (if sk_kind k = ''counter'' then None else gs_max (gauge_statistics_of (gauge_values ?ss)))"
      "sr_average s = (if sk_kind k = ''counter'' then None else gs_average (gauge_statistics_of (gauge_values ?ss)))"
      "sr_p95 s = (if sk_kind k = ''counter'' then None else gs_p95 (gauge_statistics_of (gauge_values ?ss)))"
      "sr_last s = (if sk_kind k = ''counter'' then None
         else finite_value (Option.bind (find is_observed (rev ?ss)) rw_real))"
    using s rev len length by (auto simp: aggregate_series_def Let_def split: if_splits)
  have none: "gauge_values ?ss = []" "find is_observed (rev ?ss) = None" "observed_integers ?ss = []"
    if "filter is_observed ?ss = []"
    using that by (simp_all add: gauge_values_def find_None_iff filter_empty_conv observed_integers_def
        is_observed_def [abs_def] map_filter_simps)
  have valid: "pred_option (\<lambda>v. 0 \<le> v) (map_option rw_epoch (find is_observed (rev ?ss)))"
  proof -
    have "0 \<le> rw_epoch x" if "find is_observed (rev ?ss) = Some x" for x
      using that epoch set select_one_Some [of is_observed "rev ?ss" x] by (simp add: select_one_def)
    then show ?thesis by (auto simp: pred_option_def)
  qed
  have empty: "filter is_observed ?ss = [] \<Longrightarrow> sr_min s = None \<and> sr_max s = None \<and> sr_average s = None \<and> sr_p95 s = None
      \<and> sr_last s = None \<and> sr_counter_first s = None \<and> sr_counter_last s = None \<and> sr_counter_delta s = None"
    using none by (simp add: f g gauge_statistics_of_def finite_value_def aggregate_counter_def default_counter_statistics_def)
  have "rollup_checks (rollup_row_of i pid host r b now s)"
    unfolding rollup_checks_def Let_def
    using checks range ne' worst c valid new epoch empty
    by (auto simp: rollup_row_of_def f g sample_qualities_def)
  then show ?thesis using s c by (intro exI [of _ s]) (simp add: f)
qed


subsection \<open>One partition\<close>

lemma insert_rollup_total:
  assumes "rollup_checks u" and "p \<in> set (partitions d)" and "pt_id p = ru_partition u"
    and "bucket_key p = (ru_host u, ru_resolution u, ru_start u)" and "ru_id u \<notin> ru_id ` set (rollups d)"
  shows "\<exists>d'. insert_rollup u d = Inr d'"
  using assms by (auto simp: insert_rollup_def)

lemma write_series_total:
  assumes "\<forall>(k, ss) \<in> set groups. ss \<noteq> [] \<and> length ss \<le> u32_max \<and> series_key_checks k
      \<and> (\<forall>s \<in> set ss. rw_key s = k \<and> rw_quality s \<in> set sample_qualities \<and> 0 \<le> rw_epoch s
           \<and> pred_option counter_value (rw_integer s))"
    and "distinct (map fst groups)" and "distinct (map rollup_key (rollups d))" and "values_ok d"
    and "p \<in> set (partitions d)" "pt_id p = pid" "bucket_key p = (host, r, br_start b)"
    and "0 \<le> br_start b" "br_start b < br_end b"
    and "inj (ci_rollup_ids i)" and "\<forall>(k, ss) \<in> set groups. ci_rollup_ids i k \<notin> ru_id ` set (rollups d)"
  shows "\<exists>d'. write_series e pid host r b i groups d = Inr d' \<and> values_ok d'
    \<and> ru_id ` set (rollups d') \<subseteq> ru_id ` set (rollups d) \<union> range (ci_rollup_ids i)"
  using assms
proof (induction groups arbitrary: d)
  case (Cons g groups)
  obtain k ss where g: "g = (k, ss)" by (cases g)
  have bound: "\<forall>x. boundary_for d host k (br_start b) = Some x \<longrightarrow> counter_value (cb_value x)"
    using boundary_value [OF Cons.prems(4)] by blast
  obtain s where s: "aggregate_series e k ss (boundary_for d host k (br_start b)) = Inr s"
      "rollup_checks (rollup_row_of (ci_rollup_ids i k) pid host r b (ci_now i) s)" "pred_option counter_value (sr_counter_last s)"
    using aggregate_series_total [of ss k "boundary_for d host k (br_start b)" b e "ci_rollup_ids i k" pid host r "ci_now i"]
      Cons.prems(1,8,9) bound by (auto simp: g)
  let ?u = "rollup_row_of (ci_rollup_ids i k) pid host r b (ci_now i) s"
  have u: "ru_id ?u = ci_rollup_ids i k" "ru_partition ?u = pid" "ru_host ?u = host" "ru_resolution ?u = r"
      "ru_start ?u = br_start b" "ru_series ?u = s"
    by (simp_all add: rollup_row_of_def)
  have "ru_id ?u \<notin> ru_id ` set (rollups d)" using Cons.prems(11) by (simp add: g u)
  then obtain d1 where d1: "insert_rollup ?u d = Inr d1"
    using insert_rollup_total [OF s(2) Cons.prems(5)] Cons.prems(6,7) u by auto
  obtain u' where u': "ru_series u' = s" "set (rollups d1) = insert u' {v \<in> set (rollups d). rollup_key v \<noteq> rollup_key ?u}"
      "distinct (map rollup_key (rollups d1))" "d1 = d\<lparr>rollups := rollups d1\<rparr>"
      "ru_id u' \<in> insert (ru_id ?u) (ru_id ` set (rollups d))"
    by (rule insert_rollup_effect [OF d1 Cons.prems(3)]) (simp add: u)
  have same: "samples d1 = samples d" "partitions d1 = partitions d" by (subst u'(4), simp)+
  have ids: "ru_id ` set (rollups d1) \<subseteq> insert (ci_rollup_ids i k) (ru_id ` set (rollups d))" using u'(2,5) u(1) by auto
  have "values_ok d1" using Cons.prems(4) u'(1,2) s(3) by (auto simp: values_ok_def same)
  moreover have "\<forall>(k', ss) \<in> set groups. ci_rollup_ids i k' \<notin> ru_id ` set (rollups d1)"
  proof (intro ballI, clarify)
    fix k' ss' x assume m: "(k', ss') \<in> set groups" "x \<in> set (rollups d1)" "ci_rollup_ids i k' = ru_id x"
    have "k' \<noteq> k" using Cons.prems(2) m(1) by (force simp: g)
    then have "ci_rollup_ids i k' \<noteq> ci_rollup_ids i k" using Cons.prems(10) by (simp add: inj_eq)
    then have "ci_rollup_ids i k' \<in> ru_id ` set (rollups d)" using ids m(2,3) by auto
    then show False using Cons.prems(11) m(1) by auto
  qed
  ultimately obtain d' where d': "write_series e pid host r b i groups d1 = Inr d'" "values_ok d'"
      "ru_id ` set (rollups d') \<subseteq> ru_id ` set (rollups d1) \<union> range (ci_rollup_ids i)"
    using Cons.IH [of d1] Cons.prems(1,2,5-10) u'(3) by (auto simp: same)
  moreover have "ru_id ` set (rollups d') \<subseteq> ru_id ` set (rollups d) \<union> range (ci_rollup_ids i)"
    using d'(3) ids by blast
  ultimately show ?case using s(1) d1 by (simp add: g upsert_rollup_def)
qed auto

text \<open>What a pass over a candidate relies on.\<close>

definition candidate_ready :: "rollup_env \<Rightarrow> resolution \<Rightarrow> partition_candidate \<Rightarrow> compaction_input \<Rightarrow> rollup_db \<Rightarrow> bool" where
  "candidate_ready e r c i d =
     (let B = bucket_set (set (samples d)) (ca_host c) r (ca_start c)
      in ca_count c = card B \<and> 0 < card B \<and> card B \<le> u32_max
         \<and> bucket_milliseconds r dvd ca_start c \<and> 0 \<le> ca_start c
         \<and> ca_start c + bucket_milliseconds r \<le> i64_max
         \<and> representable e (ca_start c) \<and> representable e (ca_start c + bucket_milliseconds r)
         \<and> ca_host c \<in> set (hosts d)
         \<and> pred_option (\<lambda>p. pt_state p = ''complete'') (find_partition d (ca_host c) r (ca_start c))
         \<and> ci_partition_id i \<notin> pt_id ` set (partitions d)
         \<and> inj (ci_rollup_ids i) \<and> range (ci_rollup_ids i) \<inter> ru_id ` set (rollups d) = {})"

lemma upsert_partition_total:
  assumes "partition_checks p" and "pt_host p \<in> set (hosts d)"
    and "bucket_key p \<in> bucket_key ` set (partitions d) \<or> pt_id p \<notin> pt_id ` set (partitions d)"
  shows "\<exists>d'. upsert_partition p d = Inr d'"
  using assms by (auto simp: upsert_partition_def)

lemma series_key_checks_row: "sample_checks s \<Longrightarrow> series_key_checks (key_of_row s)"
  by (simp add: sample_checks_def series_key_checks_def key_of_row_def)

lemma compact_partition_total:
  assumes ok: "tables_ok d" and vals: "values_ok d" and ready: "candidate_ready e r c i d"
  shows "\<exists>b d'. compact_partition e r c i d = Inr (b, d') \<and> values_ok d' \<and> hosts d' = hosts d
    \<and> pt_id ` set (partitions d') \<subseteq> insert (ci_partition_id i) (pt_id ` set (partitions d))
    \<and> ru_id ` set (rollups d') \<subseteq> ru_id ` set (rollups d) \<union> range (ci_rollup_ids i)"
proof -
  let ?B = "bucket_set (set (samples d)) (ca_host c) r (ca_start c)" and ?ex = "find_partition d (ca_host c) r (ca_start c)"
  have r: "ca_count c = card ?B" "0 < card ?B" "card ?B \<le> u32_max" "bucket_milliseconds r dvd ca_start c" "0 \<le> ca_start c"
      "ca_start c + bucket_milliseconds r \<le> i64_max" "representable e (ca_start c)"
      "representable e (ca_start c + bucket_milliseconds r)" "ca_host c \<in> set (hosts d)"
      "ci_partition_id i \<notin> pt_id ` set (partitions d)" "inj (ci_rollup_ids i)"
      "range (ci_rollup_ids i) \<inter> ru_id ` set (rollups d) = {}"
    and ex: "pred_option (\<lambda>p. pt_state p = ''complete'') ?ex"
    using ready by (simp_all add: candidate_ready_def Let_def)
  have "i64_min \<le> ca_start c + bucket_milliseconds r"
    using r(5) bucket_milliseconds_pos [of r] unfolding i64_min_def by linarith
  then obtain b where bb: "bucket_bounds e (ca_start c) r = Inr b"
    using r(6-8) by (simp add: bucket_bounds_def checked_add_i64_def)
  note b = bucket_bounds_Inr [OF bb]
  have rows: "\<forall>s \<in> set (samples d). sample_checks s \<and> run_of d (smp_run s) \<noteq> None"
    using ok by (simp add: tables_ok_def)
  have "\<exists>ss. load_raw_partition d (ca_host c) b = Inr ss"
    using rows vals by (intro load_raw_partition_total) (auto simp: values_ok_def)
  then obtain ss where ss: "load_raw_partition d (ca_host c) b = Inr ss" ..
  have view: "set ss = raw_view d ` ?B"
    using load_raw_partition_view [OF ss] rows bucket_samples_set [OF r(4), of d "ca_host c"] b by simp
  note groups = bucket_groups [OF ok ss conjunct1 [OF b] conjunct2 [OF b] r(4)]
  have len: "length ss = ca_count c" "ss \<noteq> []" using groups(1) r(1,2) by auto
  have few: "length (group_by_series ss) \<le> u32_max"
  proof -
    have "length (group_by_series ss) \<le> length ss"
      by (simp add: group_by_series_keys(4)) (metis card_image_le card_length finite_set le_trans)
    then show ?thesis using groups(1) r(3) by simp
  qed
  let ?pid = "case ?ex of Some p \<Rightarrow> pt_id p | None \<Rightarrow> ci_partition_id i"
  let ?p = "\<lparr>pt_id = ?pid, pt_host = ca_host c, pt_resolution = r, pt_start = br_start b, pt_end = br_end b,
      pt_input_count = ca_count c, pt_input_digest = partition_input_digest e ss,
      pt_series_count = length (group_by_series ss), pt_state = ''complete'', pt_compacted_at = ci_now i,
      pt_sealed_at = None, pt_pruned_at = None\<rparr>"
  have unsealed: "\<not> (pred_option (\<lambda>p. pt_state p = ''sealed'') ?ex \<and> ?ex \<noteq> None)"
    using ex by (cases ?ex) auto
  show ?thesis
  proof (cases "?ex \<noteq> None \<and> pred_option (\<lambda>p. pt_input_count p = ca_count c \<and> pt_input_digest p = partition_input_digest e ss) ?ex")
    case True
    then have "compact_partition e r c i d = Inr (False, d)"
      using unsealed len by (simp add: compact_partition_def bb ss b Let_def)
    then show ?thesis using vals by auto
  next
    case False
    have "group_by_series ss \<noteq> []" using len(2) group_by_series_keys(2) [of ss] by auto
    then have pc: "partition_checks ?p" using r(1,2,5) b by (simp add: partition_checks_def)
    have key: "bucket_key ?p = (ca_host c, r, ca_start c)" by (simp add: bucket_key_def b)
    have "bucket_key ?p \<in> bucket_key ` set (partitions d) \<or> pt_id ?p \<notin> pt_id ` set (partitions d)"
    proof (cases ?ex)
      case (Some q)
      then show ?thesis using find_partition_SomeD [OF Some] key by (metis image_eqI)
    qed (use r(10) in simp)
    then obtain d1 where d1: "upsert_partition ?p d = Inr d1" using upsert_partition_total [OF pc] r(9) by auto
    have "distinct (map bucket_key (partitions d))" "distinct (map pt_id (partitions d))"
      using ok by (simp_all add: tables_ok_def)
    then obtain p where p: "bucket_key p = bucket_key ?p" "pt_id p = ?pid"
      "set (partitions d1) = insert p {q \<in> set (partitions d). bucket_key q \<noteq> bucket_key ?p}"
      "d1 = d\<lparr>partitions := partitions d1\<rparr>"
      by (rule upsert_partition_effect [OF d1]) (simp_all add: b split: option.splits)
    have same: "samples d1 = samples d" "rollups d1 = rollups d" "hosts d1 = hosts d" by (subst p(4), simp)+
    have "\<forall>(k, g) \<in> set (group_by_series ss). g \<noteq> [] \<and> length g \<le> u32_max \<and> series_key_checks k
      \<and> (\<forall>s \<in> set g. rw_key s = k \<and> rw_quality s \<in> set sample_qualities \<and> 0 \<le> rw_epoch s
           \<and> pred_option counter_value (rw_integer s))"
    proof (intro ballI, clarify)
      fix k g assume kg: "(k, g) \<in> set (group_by_series ss)"
      have g: "g = filter (\<lambda>s. rw_key s = k) ss" by (rule group_by_series_keys(3) [OF kg])
      have "k \<in> rw_key ` set ss" using kg group_by_series_keys(2) [of ss] by force
      then obtain x where x: "x \<in> ?B" "key_of_row x = k" using groups(2) by auto
      have B: "s \<in> set (samples d)" if "s \<in> ?B" for s using that by (simp add: bucket_set_def)
      have "length g \<le> length ss" by (simp add: g)
      moreover have "g \<noteq> []" using view x by (force simp: g filter_empty_conv)
      moreover have "series_key_checks k" using series_key_checks_row rows B [OF x(1)] x(2) by blast
      moreover have "rw_quality s \<in> set sample_qualities \<and> 0 \<le> rw_epoch s \<and> pred_option counter_value (rw_integer s)"
        if "s \<in> set g" for s
        using that view rows B vals by (auto simp: g sample_checks_def values_ok_def)
      ultimately show "g \<noteq> [] \<and> length g \<le> u32_max \<and> series_key_checks k
          \<and> (\<forall>s \<in> set g. rw_key s = k \<and> rw_quality s \<in> set sample_qualities \<and> 0 \<le> rw_epoch s
             \<and> pred_option counter_value (rw_integer s))"
        using groups(1) r(3) by (auto simp: g)
    qed
    moreover have "values_ok d1" using vals by (simp add: values_ok_def same)
    moreover have "distinct (map rollup_key (rollups d1))" using ok by (simp add: same tables_ok_def)
    ultimately obtain d' where d': "write_series e ?pid (ca_host c) r b i (group_by_series ss) d1 = Inr d'" "values_ok d'"
        "ru_id ` set (rollups d') \<subseteq> ru_id ` set (rollups d1) \<union> range (ci_rollup_ids i)"
      using write_series_total [of "group_by_series ss" d1 p ?pid "ca_host c" r b i e] p key b r(5,11,12) group_by_series_keys(1)
      by (fastforce simp: same)
    have run: "compact_partition e r c i d = Inr (True, d')"
      using unsealed len False few d1 d'(1) by (simp add: compact_partition_def bb ss b Let_def)
    obtain p' where c: "compacted_into d (ca_host c) r (ca_start c) p' d'"
      using compact_partition_effect [OF ok run r(4)] by blast
    have eq: "d' = d\<lparr>partitions := partitions d', rollups := rollups d'\<rparr>"
      and parts: "set (partitions d') = insert p' {q \<in> set (partitions d). bucket_key q \<noteq> (ca_host c, r, ca_start c)}"
      using c unfolding compacted_into_def Let_def by blast+
    have "hosts d' = hosts d" by (subst eq) simp
    moreover have "pt_id ` set (partitions d') \<subseteq> insert (ci_partition_id i) (pt_id ` set (partitions d))"
    proof -
      have "distinct (map rollup_key (rollups d1))" using ok by (simp add: same tables_ok_def)
      then have "d' = d1\<lparr>rollups := rollups d'\<rparr>"
        using write_series_effect [OF d'(1) _ group_by_series_keys(1)] by blast
      then have "partitions d' = partitions d1" by (metis rollup_db.select_convs(1) rollup_db.surjective rollup_db.update_convs(2))
      moreover have "pt_id p \<in> insert (ci_partition_id i) (pt_id ` set (partitions d))"
        using p(2) find_partition_SomeD [of d "ca_host c" r "ca_start c"] by (auto split: option.splits)
      ultimately show ?thesis using p(3) by auto
    qed
    ultimately show ?thesis using run d' by (auto simp: same)
  qed
qed


subsection \<open>A whole pass\<close>

text \<open>
  A complete partition whose digest is that of the samples now in its bucket was computed after all of them
  were stored: the clock did not go back in between.
\<close>

definition digests_current :: "rollup_env \<Rightarrow> rollup_db \<Rightarrow> bool" where
  "digests_current e d =
     (\<forall>p \<in> set (partitions d). \<forall>b ss. bucket_bounds e (pt_start p) (pt_resolution p) = Inr b
        \<longrightarrow> load_raw_partition d (pt_host p) b = Inr ss \<longrightarrow> pt_input_digest p = partition_input_digest e ss
        \<longrightarrow> (\<forall>s \<in> bucket_in (set (samples d)) p. smp_created_at s \<le> pt_compacted_at p))"

definition up_to_date :: "rollup_db \<Rightarrow> resolution \<Rightarrow> string \<Rightarrow> int \<Rightarrow> bool" where
  "up_to_date d r host start =
     (\<forall>s \<in> bucket_set (set (samples d)) host r start. \<not> needs_compaction d r s)"

lemma not_outdatedI:
  assumes ok: "tables_ok d" and p: "p \<in> set (partitions d)" and n: "pt_input_count p = card (bucket_in (set (samples d)) p)"
    and t: "\<forall>s \<in> bucket_in (set (samples d)) p. smp_created_at s \<le> pt_compacted_at p"
  shows "up_to_date d (pt_resolution p) (pt_host p) (pt_start p)"
proof -
  have dvd: "bucket_milliseconds (pt_resolution p) dvd pt_start p" and dist: "distinct (map smp_id (samples d))"
    using ok p by (auto simp: tables_ok_def)
  note B = bucket_samples_set [OF dvd, of d "pt_host p"] bucket_samples_card [OF dist dvd, of "pt_host p"]
  have "\<not> outdated d p" using n t by (auto simp: outdated_def Let_def B bucket_in_def)
  moreover have "find_partition d (pt_host p) (pt_resolution p) (pt_start p) = Some p"
    using p by (simp add: find_partition_iff [OF ok] bucket_key_def)
  ultimately show ?thesis by (simp add: up_to_date_def bucket_set_def needs_compaction_def)
qed

lemma compact_partition_current:
  assumes ok: "tables_ok d" and ready: "candidate_ready e r c i d" and dig: "digests_current e d"
    and clock: "\<forall>s \<in> set (samples d). smp_created_at s \<le> ci_now i"
    and run: "compact_partition e r c i d = Inr (wrote, d')"
  shows "tables_ok d' \<and> samples d' = samples d \<and> runs d' = runs d \<and> up_to_date d' r (ca_host c) (ca_start c)
    \<and> digests_current e d'
    \<and> (\<forall>h t. (h, t) \<noteq> (ca_host c, ca_start c) \<longrightarrow> find_partition d' h r t = find_partition d h r t)"
proof (cases wrote)
  case False
  let ?ex = "find_partition d (ca_host c) r (ca_start c)"
  have d': "d' = d" using run False by (auto simp: compact_partition_def Let_def split: if_splits)
  have r: "ca_count c = card (bucket_set (set (samples d)) (ca_host c) r (ca_start c))" "0 < ca_count c"
      "bucket_milliseconds r dvd ca_start c"
    using ready by (auto simp: candidate_ready_def Let_def)
  obtain b where bb: "bucket_bounds e (ca_start c) r = Inr b" using run by (auto simp: compact_partition_def)
  note b = bucket_bounds_Inr [OF bb]
  obtain ss where ss: "load_raw_partition d (ca_host c) b = Inr ss"
    using run by (auto simp: compact_partition_def bb Let_def split: if_splits)
  have len: "length ss = ca_count c" using bucket_groups(1) [OF ok ss conjunct1 [OF b] conjunct2 [OF b] r(3)] r(1) by simp
  then have "ss \<noteq> []" using r(2) by auto
  then obtain p where p: "?ex = Some p" "pt_input_count p = ca_count c" "pt_input_digest p = partition_input_digest e ss"
    using run False len by (auto simp: compact_partition_def bb ss b Let_def pred_option_def split: if_splits option.splits)
  note mem = find_partition_SomeD [OF p(1)]
  then have key: "pt_host p = ca_host c" "pt_resolution p = r" "pt_start p = ca_start c" by (simp_all add: bucket_key_def)
  have "\<forall>s \<in> bucket_in (set (samples d)) p. smp_created_at s \<le> pt_compacted_at p"
    using dig [unfolded digests_current_def, THEN bspec, OF conjunct1 [OF mem]] p(3) bb ss by (simp add: key)
  then have "up_to_date d r (ca_host c) (ca_start c)"
    using not_outdatedI [OF ok conjunct1 [OF mem]] p(2) r(1) key by (simp add: bucket_in_def)
  then show ?thesis using ok dig by (simp add: d')
next
  case True
  let ?key = "(ca_host c, r, ca_start c)"
  have dvd: "bucket_milliseconds r dvd ca_start c" using ready by (simp add: candidate_ready_def Let_def)
  obtain p where ok': "tables_ok d'" and c: "compacted_into d (ca_host c) r (ca_start c) p d'" and now: "pt_compacted_at p = ci_now i"
    using compact_partition_effect [OF ok run [unfolded eqTrueI [OF True]] dvd] by blast
  have eq: "d' = d\<lparr>partitions := partitions d', rollups := rollups d'\<rparr>" and key: "bucket_key p = ?key"
    and parts: "set (partitions d') = insert p {q \<in> set (partitions d). bucket_key q \<noteq> ?key}"
    and n: "pt_input_count p = card (bucket_set (set (samples d)) (ca_host c) r (ca_start c))"
    using c unfolding compacted_into_def Let_def by blast+
  have same: "samples d' = samples d" "runs d' = runs d" by (subst eq, simp)+
  have k: "pt_host p = ca_host c" "pt_resolution p = r" "pt_start p = ca_start c" using key by (simp_all add: bucket_key_def)
  have pt: "\<forall>s \<in> bucket_in (set (samples d)) p. smp_created_at s \<le> pt_compacted_at p"
    using clock by (simp add: now bucket_in_def bucket_set_def)
  have "up_to_date d' r (ca_host c) (ca_start c)"
    using not_outdatedI [OF ok', of p] parts n k pt by (simp add: same bucket_in_def)
  moreover have "load_raw_partition d' = load_raw_partition d"
    by (simp add: fun_eq_iff load_raw_partition_def with_runs_def run_of_def bucket_samples_def same)
  then have "digests_current e d'" using dig pt parts unfolding digests_current_def same by auto
  moreover have "find_partition d' h r t = find_partition d h r t" if "(h, t) \<noteq> (ca_host c, ca_start c)" for h t
  proof -
    have "find_partition d' h r t = Some q \<longleftrightarrow> find_partition d h r t = Some q" for q
      unfolding find_partition_iff [OF ok'] find_partition_iff [OF ok] parts using that key by auto
    then show ?thesis by (metis option.exhaust)
  qed
  ultimately show ?thesis using ok' same by blast
qed

text \<open>No shutdown, nothing else written in between, and identifiers that no two candidates share.\<close>

definition undisturbed :: "(partition_candidate \<Rightarrow> compaction_input) \<Rightarrow> partition_candidate list \<Rightarrow> rollup_db \<Rightarrow> bool" where
  "undisturbed ins cs d =
     ((\<forall>c \<in> set cs. \<not> ci_shutdown (ins c) \<and> ci_others (ins c) = (\<lambda>d. d)
         \<and> (\<forall>s \<in> set (samples d). smp_created_at s \<le> ci_now (ins c)))
      \<and> (\<forall>c \<in> set cs. \<forall>c' \<in> set cs. c \<noteq> c' \<longrightarrow> ci_partition_id (ins c) \<noteq> ci_partition_id (ins c')
         \<and> range (ci_rollup_ids (ins c)) \<inter> range (ci_rollup_ids (ins c')) = {}))"

lemma up_to_date_cong:
  "samples d' = samples d \<Longrightarrow> find_partition d' h r t = find_partition d h r t \<Longrightarrow> up_to_date d h' h t \<Longrightarrow> h' = r
     \<Longrightarrow> up_to_date d' r h t"
  by (auto simp: up_to_date_def needs_compaction_def bucket_set_def outdated_def bucket_samples_def Let_def
      split: option.splits)

lemma fresh_after:
  "x \<notin> A \<Longrightarrow> A' \<subseteq> insert y A \<Longrightarrow> y \<noteq> x \<Longrightarrow> x \<notin> A'"
  "R \<inter> B = {} \<Longrightarrow> B' \<subseteq> B \<union> Q \<Longrightarrow> Q \<inter> R = {} \<Longrightarrow> R \<inter> B' = {}"
  by blast+

lemma compact_loop_total:
  assumes "tables_ok d" and "values_ok d" and "digests_current e d" and "undisturbed ins cs d"
    and "distinct (map (\<lambda>c. (ca_host c, ca_start c)) cs)"
    and "\<forall>c \<in> set cs. candidate_ready e r c (ins c) d"
  shows "\<exists>d' m. compact_loop e r ins cs n d = (d', Inr m) \<and> tables_ok d' \<and> samples d' = samples d
    \<and> values_ok d' \<and> digests_current e d' \<and> hosts d' = hosts d
    \<and> (\<forall>c \<in> set cs. up_to_date d' r (ca_host c) (ca_start c))
    \<and> (\<forall>h t. (h, t) \<notin> (\<lambda>c. (ca_host c, ca_start c)) ` set cs \<longrightarrow> find_partition d' h r t = find_partition d h r t)"
  using assms
proof (induction cs arbitrary: d n)
  case (Cons c cs)
  let ?i = "ins c"
  have c: "\<not> ci_shutdown ?i" "ci_others ?i = (\<lambda>d. d)" "\<forall>s \<in> set (samples d). smp_created_at s \<le> ci_now ?i"
    using Cons.prems(4) by (simp_all add: undisturbed_def)
  have ready: "candidate_ready e r c ?i d" using Cons.prems(6) by simp
  obtain b d1 where run: "compact_partition e r c ?i d = Inr (b, d1)" and d1: "values_ok d1" "hosts d1 = hosts d"
      "pt_id ` set (partitions d1) \<subseteq> insert (ci_partition_id ?i) (pt_id ` set (partitions d))"
      "ru_id ` set (rollups d1) \<subseteq> ru_id ` set (rollups d) \<union> range (ci_rollup_ids ?i)"
    using compact_partition_total [OF Cons.prems(1,2) ready] by blast
  have step: "tables_ok d1" "samples d1 = samples d" "runs d1 = runs d" "up_to_date d1 r (ca_host c) (ca_start c)"
      "digests_current e d1"
      "\<And>h t. (h, t) \<noteq> (ca_host c, ca_start c) \<Longrightarrow> find_partition d1 h r t = find_partition d h r t"
    using compact_partition_current [OF Cons.prems(1) ready Cons.prems(3) c(3) run] by blast+
  have new: "(ca_host c, ca_start c) \<notin> (\<lambda>c. (ca_host c, ca_start c)) ` set cs" using Cons.prems(5) by simp
  have all: "candidate_ready e r c' (ins c') d1" if c': "c' \<in> set cs" for c'
  proof -
    have key: "(ca_host c', ca_start c') \<noteq> (ca_host c, ca_start c)"
      using new imageI [OF c', of "\<lambda>c. (ca_host c, ca_start c)"] by metis
    then have ne: "c \<noteq> c'" by auto
    have sep: "ci_partition_id ?i \<noteq> ci_partition_id (ins c')" "range (ci_rollup_ids ?i) \<inter> range (ci_rollup_ids (ins c')) = {}"
      using Cons.prems(4) c' ne by (simp_all add: undisturbed_def)
    have r: "candidate_ready e r c' (ins c') d" using Cons.prems(6) c' by simp
    then have old: "ci_partition_id (ins c') \<notin> pt_id ` set (partitions d)" "range (ci_rollup_ids (ins c')) \<inter> ru_id ` set (rollups d) = {}"
      by (simp_all add: candidate_ready_def Let_def)
    note fresh_after(1) [OF old(1) d1(3) sep(1)] fresh_after(2) [OF old(2) d1(4) sep(2)]
    then show ?thesis
      using r unfolding candidate_ready_def Let_def step(2) step(6) [OF key] d1(2) by simp
  qed
  have und: "undisturbed ins cs d1" using Cons.prems(4) by (simp add: undisturbed_def step(2))
  have dist: "distinct (map (\<lambda>c. (ca_host c, ca_start c)) cs)" using Cons.prems(5) by simp
  have all': "\<forall>c \<in> set cs. candidate_ready e r c (ins c) d1" using all by blast
  obtain d' m where rest: "compact_loop e r ins cs (if b then sat_add32 n 1 else n) d1 = (d', Inr m)"
      "tables_ok d'" "samples d' = samples d1"
      "values_ok d'" "digests_current e d'" "hosts d' = hosts d1" "\<forall>c \<in> set cs. up_to_date d' r (ca_host c) (ca_start c)"
      "\<forall>h t. (h, t) \<notin> (\<lambda>c. (ca_host c, ca_start c)) ` set cs \<longrightarrow> find_partition d' h r t = find_partition d1 h r t"
    using Cons.IH [OF step(1) d1(1) step(5) und dist all', of "if b then sat_add32 n 1 else n"] by (elim exE conjE)
  from new have "up_to_date d' r (ca_host c) (ca_start c)"
    using up_to_date_cong [OF rest(3) _ step(4) refl] rest(8) by blast
  moreover have "compact_loop e r ins (c # cs) n d = (d', Inr m)" using rest(1) run c by (simp add: Let_def)
  moreover have "find_partition d' h r t = find_partition d h r t"
    if "(h, t) \<notin> (\<lambda>c. (ca_host c, ca_start c)) ` set (c # cs)" for h t
    using that rest(8) step(6) [of h t] by simp
  ultimately show ?case using rest(2-7) step(2) d1(2) by (intro exI [of _ d'] exI [of _ m]) simp
qed auto


subsection \<open>Candidates\<close>

definition sample_bucket :: "resolution \<Rightarrow> sample_row \<Rightarrow> int \<times> string" where
  "sample_bucket r s = (bucket_of r (smp_observed_ms s), smp_host s)"

text \<open>The closed buckets that have to be compacted.\<close>

definition pending_buckets :: "rollup_db \<Rightarrow> resolution \<Rightarrow> int \<Rightarrow> (int \<times> string) set" where
  "pending_buckets d r cutoff =
     sample_bucket r ` {s \<in> set (samples d). smp_observed_ms s < cutoff \<and> needs_compaction d r s}"

lemma closed_bucket:
  assumes "bucket_milliseconds r dvd cutoff" and "bucket_of r x = bucket_of r y" and "x < cutoff"
  shows "y < cutoff"
proof -
  have "bucket_of r x < cutoff" using bucket_of_bounds [of r x] assms(3) by simp
  moreover have "bucket_milliseconds r dvd cutoff - bucket_of r x" using assms(1) by (intro dvd_diff) simp_all
  ultimately have "bucket_milliseconds r \<le> cutoff - bucket_of r x" by (intro zdvd_imp_le) simp_all
  then show ?thesis using bucket_of_bounds [of r y] assms(2) by simp
qed

lemma candidates_spec:
  assumes ok: "tables_ok d" and few: "length (samples d) \<le> u32_max" and dvd: "bucket_milliseconds r dvd cutoff"
  shows "\<exists>cs. load_partition_candidates d r cutoff limit = Inr cs \<and> distinct (map (\<lambda>c. (ca_host c, ca_start c)) cs)
    \<and> (\<lambda>c. (ca_start c, ca_host c)) ` set cs = set (take limit (sorted_list_of_set (pending_buckets d r cutoff)))
    \<and> (\<forall>c \<in> set cs. ca_count c = card (bucket_set (set (samples d)) (ca_host c) r (ca_start c)))"
proof -
  let ?rows = "filter (\<lambda>s. smp_observed_ms s < cutoff \<and> needs_compaction d r s) (samples d)"
  let ?keys = "sort (remdups (map (sample_bucket r) ?rows))"
  let ?n = "\<lambda>k. length (filter (\<lambda>s. sample_bucket r s = k) ?rows)"
  let ?c = "\<lambda>(start, host). \<lparr>ca_host = host, ca_start = start, ca_count = ?n (start, host)\<rparr>"
  have keys: "set ?keys = pending_buckets d r cutoff" by (auto simp: pending_buckets_def)
  let ?first = "take limit ?keys"
  have first: "?first = take limit (sorted_list_of_set (pending_buckets d r cutoff))"
    unfolding keys [symmetric] by (simp only: set_sort sorted_list_of_set_sort_remdups remdups_remdups)
  have sub: "set ?first \<subseteq> pending_buckets d r cutoff" unfolding keys [symmetric] by (rule set_take_subset)
  have n: "?n k \<le> u32_max" for k
    using few length_filter_le [of "\<lambda>s. sample_bucket r s = k" ?rows] length_filter_le [of _ "samples d"]
    by (meson le_trans)
  have "map (\<lambda>(start, host). let n = ?n (start, host) in if u32_max < n then Inl Overflow
        else Inr \<lparr>ca_host = host, ca_start = start, ca_count = n\<rparr>) ?first = map Inr (map ?c ?first)"
    using n by (auto simp: Let_def not_less [symmetric] split: prod.split)
  then have load: "load_partition_candidates d r cutoff limit = Inr (map ?c ?first)"
    unfolding load_partition_candidates_def Let_def sample_bucket_def [symmetric]
    by (simp only: collect_results_Inr)
  have "distinct (map (\<lambda>c. (ca_host c, ca_start c)) (map ?c ?first))"
    by (auto simp: distinct_map inj_on_def split: prod.splits)
  moreover have "(\<lambda>c. (ca_start c, ca_host c)) ` set (map ?c ?first) = set ?first"
  proof -
    have "(\<lambda>c. (ca_start c, ca_host c)) ` set (map ?c ?first) = (\<lambda>k. k) ` set ?first"
      unfolding set_map image_image by (rule image_cong) auto
    then show ?thesis by (simp only: image_ident)
  qed
  moreover have "?n (start, host) = card (bucket_set (set (samples d)) host r start)"
    if k: "(start, host) \<in> pending_buckets d r cutoff" for start host
  proof -
    obtain x where x: "x \<in> set (samples d)" "smp_observed_ms x < cutoff" "needs_compaction d r x"
        "bucket_of r (smp_observed_ms x) = start" "smp_host x = host"
      using k by (auto simp: pending_buckets_def sample_bucket_def)
    have "distinct (filter (\<lambda>s. sample_bucket r s = (start, host)) ?rows)"
      using ok by (simp add: tables_ok_def distinct_map)
    moreover have "set (filter (\<lambda>s. sample_bucket r s = (start, host)) ?rows) = bucket_set (set (samples d)) host r start"
      using x closed_bucket [OF dvd, of "smp_observed_ms x"]
      by (auto simp: bucket_set_def sample_bucket_def needs_compaction_def)
    ultimately show ?thesis by (metis distinct_card)
  qed
  ultimately show ?thesis using load sub unfolding first [symmetric] by (intro exI [of _ "map ?c ?first"]) auto
qed

lemma no_candidates:
  assumes "\<forall>s \<in> set (samples d). smp_observed_ms s < cutoff \<longrightarrow> \<not> needs_compaction d r s"
  shows "load_partition_candidates d r cutoff limit = Inr []"
proof -
  have "filter (\<lambda>s. smp_observed_ms s < cutoff \<and> needs_compaction d r s) (samples d) = []"
    using assms by (simp add: filter_empty_conv)
  then show ?thesis by (simp add: load_partition_candidates_def Let_def)
qed

text \<open>Fresh identifiers for the partitions and the rows of the candidates.\<close>

definition fresh_inputs :: "(partition_candidate \<Rightarrow> compaction_input) \<Rightarrow> partition_candidate list \<Rightarrow> rollup_db \<Rightarrow> bool" where
  "fresh_inputs ins cs d =
     (\<forall>c \<in> set cs. ci_partition_id (ins c) \<notin> pt_id ` set (partitions d) \<and> inj (ci_rollup_ids (ins c))
        \<and> range (ci_rollup_ids (ins c)) \<inter> ru_id ` set (rollups d) = {})"

text \<open>The hosts of the samples exist, and their buckets are in the range of the calendar.\<close>

definition datable :: "rollup_env \<Rightarrow> resolution \<Rightarrow> rollup_db \<Rightarrow> bool" where
  "datable e r d =
     (\<forall>s \<in> set (samples d). smp_host s \<in> set (hosts d)
        \<and> (let t = bucket_of r (smp_observed_ms s)
           in representable e t \<and> representable e (t + bucket_milliseconds r) \<and> t + bucket_milliseconds r \<le> i64_max))"

end
