(* ===== verification/RollupOutcomes.thy ===== *)
theory RollupOutcomes
  imports RollupProgress
begin

text \<open>
  What compaction and retention achieve, and two behaviours against their intention: hour rows whose day was
  pruned first are never deleted, and the boundary of a counter can lose the boot it belongs to.
\<close>

subsection \<open>Compaction\<close>

text \<open>
  C37. A compaction that writes accounts for every sample of its bucket: the partition records their number
  and the number of their series, each series has exactly one row, which counts the samples and the observed
  samples of the series, the samples stay, and rows and partitions of other buckets are left alone.
\<close>

theorem compaction_accounts:
  assumes ok: "tables_ok d" and run: "compact_partition e r c i d = Inr (True, d')"
    and dvd: "bucket_milliseconds r dvd ca_start c"
  defines "B \<equiv> bucket_set (set (samples d)) (ca_host c) r (ca_start c)"
  shows "tables_ok d' \<and> samples d' = samples d
    \<and> (\<exists>p \<in> set (partitions d'). bucket_key p = (ca_host c, r, ca_start c) \<and> pt_state p = ''complete''
         \<and> pt_input_count p = card B \<and> pt_series_count p = card (key_of_row ` B) \<and> pt_compacted_at p = ci_now i
         \<and> (\<forall>k \<in> key_of_row ` B. \<exists>!u. u \<in> set (rollups d') \<and> rollup_key u = (ca_host c, k, r, ca_start c)
              \<and> ru_partition u = pt_id p
              \<and> sr_sample_count (ru_series u) = card {s \<in> B. key_of_row s = k}
              \<and> sr_observed_count (ru_series u) = card {s \<in> B. key_of_row s = k \<and> smp_quality s = ''observed''}))
    \<and> {q \<in> set (partitions d'). bucket_key q \<noteq> (ca_host c, r, ca_start c)}
        = {q \<in> set (partitions d). bucket_key q \<noteq> (ca_host c, r, ca_start c)}
    \<and> {u \<in> set (rollups d'). ru_bucket u \<noteq> (ca_host c, r, ca_start c)}
        = {u \<in> set (rollups d). ru_bucket u \<noteq> (ca_host c, r, ca_start c)}"
proof -
  let ?key = "(ca_host c, r, ca_start c)" and ?K = "(\<lambda>k. (ca_host c, k, r, ca_start c)) ` key_of_row ` B"
  obtain p where ok': "tables_ok d'" and c: "compacted_into d (ca_host c) r (ca_start c) p d'" and now: "pt_compacted_at p = ci_now i"
    using compact_partition_effect [OF ok run dvd] by blast
  have eq: "d' = d\<lparr>partitions := partitions d', rollups := rollups d'\<rparr>" and key: "bucket_key p = ?key" "pt_state p = ''complete''"
    and counts: "pt_input_count p = card B" "pt_series_count p = card (key_of_row ` B)"
    and parts: "set (partitions d') = insert p {q \<in> set (partitions d). bucket_key q \<noteq> ?key}"
    and old: "{u \<in> set (rollups d'). rollup_key u \<notin> ?K} = {u \<in> set (rollups d). rollup_key u \<notin> ?K}"
    and rows: "\<And>k. k \<in> key_of_row ` B \<Longrightarrow> \<exists>u \<in> set (rollups d'). rollup_key u = (ca_host c, k, r, ca_start c)
        \<and> ru_partition u = pt_id p \<and> sr_sample_count (ru_series u) = card {s \<in> B. key_of_row s = k}
        \<and> sr_observed_count (ru_series u) = card {s \<in> B. key_of_row s = k \<and> smp_quality s = ''observed''}"
    using c unfolding compacted_into_def Let_def B_def by blast+
  have one: "\<exists>!u. u \<in> set (rollups d') \<and> rollup_key u = (ca_host c, k, r, ca_start c) \<and> ru_partition u = pt_id p
        \<and> sr_sample_count (ru_series u) = card {s \<in> B. key_of_row s = k}
        \<and> sr_observed_count (ru_series u) = card {s \<in> B. key_of_row s = k \<and> smp_quality s = ''observed''}"
    if "k \<in> key_of_row ` B" for k
    using rows [OF that] rollup_row_unique [OF ok'] by (metis (no_types, lifting))
  have "rollup_key u \<notin> ?K" if "ru_bucket u \<noteq> ?key" for u using that by (auto simp: rollup_key_eq)
  then have "{u \<in> set (rollups d'). ru_bucket u \<noteq> ?key} = {u \<in> set (rollups d). ru_bucket u \<noteq> ?key}"
    using old by blast
  moreover have "samples d' = samples d" by (subst eq) simp
  moreover have "{q \<in> set (partitions d'). bucket_key q \<noteq> ?key} = {q \<in> set (partitions d). bucket_key q \<noteq> ?key}"
    using parts key by auto
  moreover have "p \<in> set (partitions d')" using parts by simp
  ultimately show ?thesis using ok' one key counts now by (intro conjI bexI [of _ p] ballI) simp_all
qed

text \<open>
  C36. Compaction makes progress. On well-formed tables with values in range, where a partition whose digest is that of its
  samples was compacted after they were created, a pass that is neither shut down nor disturbed ends without an
  error, changes no sample and compacts the oldest closed buckets that need it, as many as its limit allows:
  exactly the others are left, and nothing is left if the limit is not below their number. The tables are then as
  the next pass needs them, so that further passes take the rest.
\<close>

theorem compaction_clears_backlog:
  assumes ok: "tables_ok d" and vals: "values_ok d" and dig: "digests_current e d" and date: "datable e r d"
    and few: "length (samples d) \<le> u32_max" and cutoff: "bucket_start_epoch_ms t r = Some cutoff"
    and cs: "load_partition_candidates d r cutoff limit = Inr cs"
    and quiet: "undisturbed ins cs d" and fresh: "fresh_inputs ins cs d"
  shows "\<exists>d' n. compact_resolution e r t limit ins d = (d', Inr n) \<and> samples d' = samples d
    \<and> pending_buckets d' r cutoff
        = pending_buckets d r cutoff - set (take limit (sorted_list_of_set (pending_buckets d r cutoff)))
    \<and> card (pending_buckets d' r cutoff) = card (pending_buckets d r cutoff) - limit
    \<and> (card (pending_buckets d r cutoff) \<le> limit \<longrightarrow> load_partition_candidates d' r cutoff m = Inr [])
    \<and> tables_ok d' \<and> values_ok d' \<and> digests_current e d' \<and> datable e r d'"
proof -
  have dvd: "bucket_milliseconds r dvd cutoff" using cutoff by (auto simp: bucket_start_epoch_ms_def split: if_splits)
  have spec: "distinct (map (\<lambda>c. (ca_host c, ca_start c)) cs)"
      "(\<lambda>c. (ca_start c, ca_host c)) ` set cs = set (take limit (sorted_list_of_set (pending_buckets d r cutoff)))"
      "\<forall>c \<in> set cs. ca_count c = card (bucket_set (set (samples d)) (ca_host c) r (ca_start c))"
    using candidates_spec [OF ok few dvd, of limit] cs by auto
  let ?P = "pending_buckets d r cutoff" and ?T = "set (take limit (sorted_list_of_set (pending_buckets d r cutoff)))"
  have fin: "finite ?P" by (simp add: pending_buckets_def)
  have sub: "?T \<subseteq> ?P" using set_take_subset [of limit "sorted_list_of_set ?P"] fin by simp
  have ready: "candidate_ready e r c (ins c) d" if c: "c \<in> set cs" for c
  proof -
    let ?B = "bucket_set (set (samples d)) (ca_host c) r (ca_start c)"
    have "(ca_start c, ca_host c) \<in> (\<lambda>c. (ca_start c, ca_host c)) ` set cs" using c by (rule imageI)
    then have "(ca_start c, ca_host c) \<in> pending_buckets d r cutoff" using spec(2) sub by blast
    then obtain x where x: "x \<in> set (samples d)" "needs_compaction d r x" "bucket_of r (smp_observed_ms x) = ca_start c"
        "smp_host x = ca_host c"
      by (auto simp: pending_buckets_def sample_bucket_def)
    have "x \<in> ?B" using x by (simp add: bucket_set_def)
    then have "0 < card ?B" by (auto simp: card_gt_0_iff bucket_set_def)
    moreover have "card ?B \<le> u32_max"
      using few card_mono [of "set (samples d)" ?B] card_length [of "samples d"] by (auto simp: bucket_set_def)
    moreover have "0 \<le> smp_observed_ms x" using ok x(1) by (auto simp: tables_ok_def sample_checks_def)
    then have "0 \<le> ca_start c"
      unfolding x(3) [symmetric] bucket_of_def
      by (intro mult_nonneg_nonneg pos_imp_zdiv_nonneg_iff [THEN iffD2]) (simp_all add: less_imp_le)
    moreover have "bucket_milliseconds r dvd ca_start c" unfolding x(3) [symmetric] by simp
    moreover have "pred_option (\<lambda>p. pt_state p = ''complete'') (find_partition d (ca_host c) r (ca_start c))"
      using x(2-4) by (auto simp: needs_compaction_def outdated_def Let_def split: option.splits)
    ultimately show ?thesis
      using spec(3) c date x fresh by (auto simp: candidate_ready_def Let_def datable_def fresh_inputs_def)
  qed
  obtain d' n where loop: "compact_loop e r ins cs 0 d = (d', Inr n)" "tables_ok d'" "samples d' = samples d"
      "values_ok d'" "digests_current e d'" "hosts d' = hosts d"
      "\<forall>c \<in> set cs. up_to_date d' r (ca_host c) (ca_start c)"
      "\<forall>h t. (h, t) \<notin> (\<lambda>c. (ca_host c, ca_start c)) ` set cs \<longrightarrow> find_partition d' h r t = find_partition d h r t"
    using compact_loop_total [where r = r and n = 0, OF ok vals dig quiet spec(1)] ready by blast
  have needs: "needs_compaction d' r s \<longleftrightarrow> needs_compaction d r s \<and> sample_bucket r s \<notin> ?T"
    if s: "s \<in> set (samples d)" for s
  proof (cases "sample_bucket r s \<in> ?T")
    case True
    then obtain c where "c \<in> set cs" "ca_start c = bucket_of r (smp_observed_ms s)" "ca_host c = smp_host s"
      unfolding spec(2) [symmetric] by (auto simp: sample_bucket_def)
    then have "\<not> needs_compaction d' r s" using loop(3,7) s by (auto simp: up_to_date_def bucket_set_def)
    then show ?thesis using True by simp
  next
    case False
    then have "(smp_host s, bucket_of r (smp_observed_ms s)) \<notin> (\<lambda>c. (ca_host c, ca_start c)) ` set cs"
      unfolding spec(2) [symmetric] by (auto simp: sample_bucket_def)
    then have "find_partition d' (smp_host s) r (bucket_of r (smp_observed_ms s))
        = find_partition d (smp_host s) r (bucket_of r (smp_observed_ms s))"
      using loop(8) by blast
    then show ?thesis using loop(3) False
      by (simp add: needs_compaction_def outdated_def bucket_samples_def split: option.splits)
  qed
  have pending: "pending_buckets d' r cutoff = ?P - ?T"
    using needs by (auto simp: pending_buckets_def loop(3))
  have "card ?T = min (card ?P) limit"
    using distinct_card [of "take limit (sorted_list_of_set ?P)"] fin by simp
  then have card: "card (pending_buckets d' r cutoff) = card ?P - limit"
    unfolding pending using card_Diff_subset [OF _ sub] by simp
  have none: "load_partition_candidates d' r cutoff m = Inr []" if "card ?P \<le> limit"
  proof (rule no_candidates, intro ballI impI notI)
    fix s assume s: "s \<in> set (samples d')" "smp_observed_ms s < cutoff" "needs_compaction d' r s"
    then have "sample_bucket r s \<in> pending_buckets d' r cutoff" by (auto simp: pending_buckets_def)
    moreover have "finite (pending_buckets d' r cutoff)" by (simp add: pending_buckets_def)
    ultimately show False using card that by auto
  qed
  have "datable e r d'" using date by (simp add: datable_def loop(3,6))
  moreover have "compact_resolution e r t limit ins d = (d', Inr n)" using loop(1) cutoff cs by (simp add: compact_resolution_def)
  ultimately show ?thesis using loop(2-5) pending card none by (intro exI [of _ d'] exI [of _ n]) simp
qed

text \<open>The archive of the witnesses: one load sample in the first hour, and identifiers that encode a key.\<close>

definition one_sample :: rollup_db where
  "one_sample = sample_archive [sample_run Succeeded] [sample_gauge ''a'' 5] [] []"

definition padded :: "string \<Rightarrow> string" where
  "padded s = concat (map (\<lambda>c. [CHR ''x'', c]) s) @ ''.''"

definition key_text :: "series_key \<Rightarrow> string" where
  "key_text k = padded (sk_family k) @ padded (sk_subject_kind k) @ padded (sk_subject_id k) @ padded (sk_metric k)
     @ padded (sk_dims_sha k) @ padded (sk_kind k) @ padded (sk_source k) @ padded (sk_unit k)"

lemma padded_inj: "padded s @ r = padded s' @ r' \<longleftrightarrow> s = s' \<and> r = r'"
proof (induction s arbitrary: s')
  case Nil
  then show ?case by (cases s') (auto simp: padded_def)
next
  case (Cons c s)
  then show ?case by (cases s') (auto simp: padded_def)
qed

lemma key_text_inj: "inj key_text"
proof (rule injI)
  fix a b assume "key_text a = key_text b"
  then have "padded (sk_family a) @ padded (sk_subject_kind a) @ padded (sk_subject_id a) @ padded (sk_metric a)
     @ padded (sk_dims_sha a) @ padded (sk_kind a) @ padded (sk_source a) @ padded (sk_unit a) @ []
   = padded (sk_family b) @ padded (sk_subject_kind b) @ padded (sk_subject_id b) @ padded (sk_metric b)
     @ padded (sk_dims_sha b) @ padded (sk_kind b) @ padded (sk_source b) @ padded (sk_unit b) @ []"
    by (simp add: key_text_def)
  then show "a = b" by (simp only: padded_inj) simp
qed

definition sample_candidate :: partition_candidate where
  "sample_candidate = \<lparr>ca_host = ''h'', ca_start = 0, ca_count = 1\<rparr>"

definition sample_input :: "partition_candidate \<Rightarrow> compaction_input" where
  "sample_input c = \<lparr>ci_shutdown = False, ci_others = (\<lambda>d. d), ci_now = 10000, ci_partition_id = ''p'',
     ci_rollup_ids = key_text\<rparr>"

lemma one_sample_ok: "tables_ok one_sample" "values_ok one_sample" "digests_current e one_sample"
  using sample_gauge_checks [of 5 "''a''"]
  by (simp_all add: one_sample_def tables_ok_def values_ok_def digests_current_def run_of_def)
    (simp_all add: sample_gauge_def sample_run_def)

lemma one_sample_bucket: "bucket_of Hour (smp_observed_ms (sample_gauge ''a'' 5)) = 0" "smp_host (sample_gauge ''a'' 5) = ''h''"
    "smp_observed_ms (sample_gauge ''a'' 5) = 5" "bucket_of Hour 5 = 0"
  by (simp_all add: sample_gauge_def bucket_of_def HOUR_MILLISECONDS_def)

lemma one_sample_bucket_set: "bucket_set (set (samples one_sample)) ''h'' Hour 0 = {sample_gauge ''a'' 5}"
  by (auto simp: bucket_set_def one_sample_def one_sample_bucket)

lemma one_sample_candidates: "load_partition_candidates one_sample Hour 3600000 5 = Inr [sample_candidate]"
  by (simp add: load_partition_candidates_def one_sample_def needs_compaction_def find_partition_def one_sample_bucket
      sample_candidate_def u32_max_def Let_def)

lemma sample_representable: "representable sample_rollup_env t \<longleftrightarrow> 0 \<le> t \<and> t < 2 ^ 60"
  by (simp add: sample_rollup_env_def env.defs rollup_env.defs)

lemma one_sample_datable: "datable sample_rollup_env Hour one_sample"
  by (simp add: datable_def one_sample_def one_sample_bucket HOUR_MILLISECONDS_def i64_max_def sample_representable)

lemma one_sample_inputs: "undisturbed sample_input [sample_candidate] one_sample" "fresh_inputs sample_input [sample_candidate] one_sample"
  using key_text_inj by (simp_all add: undisturbed_def fresh_inputs_def sample_input_def one_sample_def sample_gauge_def)

theorem compaction_clears_backlog_witness:
  "\<exists>d' n. compact_resolution sample_rollup_env Hour 3700000 5 sample_input one_sample = (d', Inr n)
     \<and> samples d' = samples one_sample \<and> load_partition_candidates d' Hour 3600000 7 = Inr []"
proof -
  have few: "length (samples one_sample) \<le> u32_max" by (simp add: one_sample_def u32_max_def)
  have cutoff: "bucket_start_epoch_ms 3700000 Hour = Some 3600000"
    by (simp add: bucket_start_epoch_ms_def HOUR_MILLISECONDS_def)
  have "pending_buckets one_sample Hour 3600000 \<subseteq> {sample_bucket Hour (sample_gauge ''a'' 5)}"
    by (auto simp: pending_buckets_def one_sample_def)
  from card_mono [OF _ this] have "card (pending_buckets one_sample Hour 3600000) \<le> 5" by simp
  then show ?thesis
    using compaction_clears_backlog [OF one_sample_ok one_sample_datable few cutoff one_sample_candidates one_sample_inputs, of 7]
    by blast
qed

theorem compaction_accounts_witness:
  "\<exists>d' p. compact_partition sample_rollup_env Hour sample_candidate (sample_input sample_candidate) one_sample = Inr (True, d')
     \<and> p \<in> set (partitions d') \<and> pt_input_count p = 1 \<and> pt_series_count p = 1"
proof -
  let ?c = sample_candidate and ?d = one_sample
  have f: "find_partition ?d ''h'' Hour 0 = None" by (simp add: find_partition_def one_sample_def)
  have ready: "candidate_ready sample_rollup_env Hour ?c (sample_input ?c) ?d"
    using one_sample_inputs(2) one_sample_datable
    by (simp add: candidate_ready_def sample_candidate_def one_sample_bucket_set f fresh_inputs_def datable_def Let_def u32_max_def)
      (simp add: one_sample_def one_sample_bucket)
  obtain b d' where run: "compact_partition sample_rollup_env Hour ?c (sample_input ?c) ?d = Inr (b, d')"
    using compact_partition_total [OF one_sample_ok(1,2) ready] by blast
  have "b"
  proof (rule ccontr)
    assume "\<not> b"
    then have "d' = ?d" using run by (auto simp: compact_partition_def Let_def split: if_splits)
    moreover have "up_to_date d' Hour ''h'' 0"
      using compact_partition_current [OF one_sample_ok(1) ready one_sample_ok(3) _ run] one_sample_inputs(1)
      by (simp add: sample_candidate_def undisturbed_def)
    ultimately show False
      by (simp add: up_to_date_def one_sample_bucket_set needs_compaction_def one_sample_bucket f)
  qed
  then have run: "compact_partition sample_rollup_env Hour ?c (sample_input ?c) ?d = Inr (True, d')" using run by simp
  have "\<exists>p \<in> set (partitions d'). pt_input_count p = card {sample_gauge ''a'' 5} \<and> pt_series_count p = card (key_of_row ` {sample_gauge ''a'' 5})"
    using compaction_accounts [OF one_sample_ok(1) run] by (simp add: sample_candidate_def one_sample_bucket_set) blast
  then show ?thesis using run by auto
qed


subsection \<open>Hour rows whose day was pruned first\<close>

text \<open>
  An hour partition is only pruned while the partition of its day still has its rows. Partitions of both
  kinds are pruned with the same limit per pass, so a day can be pruned while hours of it are still waiting.
\<close>

definition stranded :: "rollup_db \<Rightarrow> partition_row \<Rightarrow> partition_row \<Rightarrow> rollup_row \<Rightarrow> bool" where
  "stranded d p q u =
     (p \<in> set (partitions d) \<and> pt_resolution p = Hour \<and> pt_state p = ''sealed'' \<and> pt_pruned_at p = None
      \<and> q \<in> set (partitions d) \<and> bucket_key q = (pt_host p, Day, bucket_of Day (pt_start p))
      \<and> pt_state q = ''sealed'' \<and> pt_pruned_at q \<noteq> None
      \<and> u \<in> set (rollups d) \<and> ru_bucket u = bucket_key p)"

lemma seal_keeps_row: "p \<in> set (partitions d) \<Longrightarrow> pt_state p = ''sealed'' \<Longrightarrow> p \<in> set (partitions (seal_partitions now c r d))"
  by (auto simp: seal_partitions_def set_update_rows sealable_def)

lemma partition_id_unique:
  "tables_ok d \<Longrightarrow> p \<in> set (partitions d) \<Longrightarrow> q \<in> set (partitions d) \<Longrightarrow> pt_id p = pt_id q \<Longrightarrow> p = q"
  by (auto simp: tables_ok_def distinct_map inj_on_def)

lemma mark_keeps_row:
  assumes "tables_ok d" and p: "p \<in> set (partitions d)" "\<not> P p"
  shows "p \<in> set (partitions (mark_pruned P now limit d))"
proof -
  have "pt_id p \<notin> pt_id ` set (filter P (partitions d))"
    using assms by (auto simp: tables_ok_def distinct_map inj_on_def)
  then have "pt_id p \<notin> set (take limit (map pt_id (sort_key (\<lambda>p. (pt_start p, pt_host p)) (filter P (partitions d)))))"
    using set_take_subset by fastforce
  then show ?thesis using p by (simp add: mark_pruned_def Let_def set_update_rows)
qed

lemma delete_keeps_row:
  assumes ok: "tables_ok d" and p: "p \<in> set (partitions d)" "pt_pruned_at p = None"
    and u: "u \<in> set (rollups d)" "ru_bucket u = bucket_key p"
  shows "u \<in> set (rollups (snd (delete_pruned_rows r d)))"
proof -
  obtain q where q: "q \<in> set (partitions d)" "pt_id q = ru_partition u" "bucket_key q = ru_bucket u"
    by (rule partition_of_row [OF ok u(1)])
  have "q = p" using partition_key_unique [OF ok q(1) p(1)] q(3) u(2) by simp
  have "\<not> is_pruned_row d r u"
  proof
    assume "is_pruned_row d r u"
    then obtain x where x: "x \<in> set (partitions d)" "pt_id x = ru_partition u" "pt_pruned_at x \<noteq> None"
      by (auto simp: is_pruned_row_def)
    have "x = q" using partition_id_unique [OF ok x(1) q(1)] x(2) q(2) by simp
    then show False using x(3) p(2) \<open>q = p\<close> by simp
  qed
  then show ?thesis using u(1) by (simp add: delete_pruned_rows_def)
qed

lemma delete_rows_same [simp]:
  "partitions (snd (delete_pruned_rows r d)) = partitions d" "samples (snd (delete_pruned_rows r d)) = samples d"
  "partitions (snd (delete_raw_batch b c l d)) = partitions d" "rollups (snd (delete_raw_batch b c l d)) = rollups d"
  "rollups (mark_pruned P now l d) = rollups d" "rollups (seal_partitions now c r d) = rollups d"
  by (simp_all add: delete_pruned_rows_def delete_raw_batch_def mark_pruned_def seal_partitions_def Let_def)

lemma prune_keeps_stranded:
  assumes ok: "tables_ok d" and s: "stranded d p q u" and P: "\<not> P p" "\<not> P q"
    and ok': "tables_ok (mark_pruned P now limit d)"
  shows "stranded (snd (delete_pruned_rows r (mark_pruned P now limit d))) p q u"
proof -
  have "p \<in> set (partitions (mark_pruned P now limit d))" "q \<in> set (partitions (mark_pruned P now limit d))"
    using mark_keeps_row [OF ok] s P by (auto simp: stranded_def)
  moreover have "u \<in> set (rollups (snd (delete_pruned_rows r (mark_pruned P now limit d))))"
    using delete_keeps_row [OF ok'] calculation(1) s by (simp add: stranded_def)
  ultimately show ?thesis using s by (simp add: stranded_def)
qed

lemma hour_not_prunable: "stranded d p q u \<Longrightarrow> tables_ok d \<Longrightarrow> \<not> hour_prunable d c p \<and> \<not> hour_prunable d c q"
  using partition_key_unique [of d _ q] by (auto simp: stranded_def hour_prunable_def bucket_key_def)

lemma day_not_prunable: "stranded d p q u \<Longrightarrow> \<not> day_prunable d c p \<and> \<not> day_prunable d c q"
  by (auto simp: stranded_def day_prunable_def)

lemma retention_keeps_stranded:
  assumes h: "history_ok H d" and s: "stranded d p q u" and run: "enforce_retention e t st now d = Inr (res, d')"
  shows "stranded d' p q u"
proof -
  obtain c1 c2 c3 c4 where c: "day_aligned_cutoff e t (rs_raw_observed_days st) = Inr c1"
      "day_aligned_cutoff e t (rs_raw_non_observed_days st) = Inr c2"
      "day_aligned_cutoff e t (rs_hour_days st) = Inr c3" "day_aligned_cutoff e t (rs_day_days st) = Inr c4"
    using run by (auto simp: enforce_retention_def)
  let ?l = "rs_partitions_per_tick st"
  define d1 where "d1 = seal_partitions now c1 Day (seal_partitions now c1 Hour d)"
  define d2 where "d2 = snd (delete_raw_batch True c1 (rs_delete_batch_size st) d1)"
  define n2 where "n2 = fst (delete_raw_batch True c1 (rs_delete_batch_size st) d1)"
  define d3 where "d3 = snd (delete_raw_batch False c2 (rs_delete_batch_size st - n2) d2)"
  define d4 where "d4 = snd (delete_pruned_rows Hour (mark_pruned (hour_prunable d3 c3) now ?l d3))"
  define d5 where "d5 = snd (delete_pruned_rows Day (mark_pruned (day_prunable d4 c4) now ?l d4))"
  have "d' = d5" using run
    by (simp add: enforce_retention_def c d5_def d4_def d3_def d2_def d1_def n2_def split_beta Let_def)
  have h1: "history_ok H d1" unfolding d1_def by (intro seal_keeps_history h)
  have h3: "history_ok H d3" unfolding d3_def d2_def by (intro delete_raw_keeps_history h1)
  have m4: "history_ok H (mark_pruned (hour_prunable d3 c3) now ?l d3)"
    by (rule mark_keeps_history [OF h3]) (simp add: hour_prunable_def)
  have h4: "history_ok H d4" unfolding d4_def by (rule delete_rows_keeps_history [OF m4])
  have m5: "history_ok H (mark_pruned (day_prunable d4 c4) now ?l d4)"
    by (rule mark_keeps_history [OF h4]) (simp add: day_prunable_def)
  have "stranded d3 p q u"
    using s seal_keeps_row by (simp add: stranded_def d3_def d2_def d1_def)
  then have "stranded d4 p q u"
    unfolding d4_def using hour_not_prunable history_parts(1) [OF h3] history_parts(1) [OF m4]
    by (intro prune_keeps_stranded) blast+
  then have "stranded d5 p q u"
    unfolding d5_def using day_not_prunable history_parts(1) [OF h4] history_parts(1) [OF m5]
    by (intro prune_keeps_stranded) blast+
  then show ?thesis by (simp add: \<open>d' = d5\<close>)
qed

lemma compaction_keeps_stranded:
  assumes h: "history_ok H d" and s: "stranded d p q u" and run: "compact_partition e r c i d = Inr (wrote, d')"
    and dvd: "bucket_milliseconds r dvd ca_start c"
  shows "stranded d' p q u"
proof (cases wrote)
  case False
  then have "d' = d" using run by (auto simp: compact_partition_def Let_def split: if_splits)
  then show ?thesis using s by simp
next
  case True
  let ?key = "(ca_host c, r, ca_start c)"
  note ok = history_parts(1) [OF h]
  obtain p' where c: "compacted_into d (ca_host c) r (ca_start c) p' d'"
    using compact_partition_effect [OF ok run [unfolded eqTrueI [OF True]] dvd] by blast
  from c have parts: "set (partitions d') = insert p' {q \<in> set (partitions d). bucket_key q \<noteq> ?key}"
    and old: "{u \<in> set (rollups d'). rollup_key u \<notin> (\<lambda>k. (ca_host c, k, r, ca_start c)) ` key_of_row ` bucket_set (set (samples d)) (ca_host c) r (ca_start c)}
      = {u \<in> set (rollups d). rollup_key u \<notin> (\<lambda>k. (ca_host c, k, r, ca_start c)) ` key_of_row ` bucket_set (set (samples d)) (ca_host c) r (ca_start c)}"
    and ex: "case find_partition d (ca_host c) r (ca_start c) of None \<Rightarrow> True | Some q \<Rightarrow> pt_state q = ''complete''"
    unfolding compacted_into_def Let_def by (blast, blast, auto split: option.splits)
  have other: "bucket_key x \<noteq> ?key" if "x \<in> set (partitions d)" "pt_state x = ''sealed''" for x
  proof
    assume "bucket_key x = ?key"
    then have "find_partition d (ca_host c) r (ca_start c) = Some x" using that(1) find_partition_iff [OF ok] by simp
    then show False using ex that(2) by simp
  qed
  have "p \<in> set (partitions d')" "q \<in> set (partitions d')" and key: "bucket_key p \<noteq> ?key"
    using s other parts by (auto simp: stranded_def)
  moreover have "u \<in> set (rollups d')"
  proof -
    have "rollup_key u \<notin> (\<lambda>k. (ca_host c, k, r, ca_start c)) ` key_of_row ` bucket_set (set (samples d)) (ca_host c) r (ca_start c)"
      using s key by (auto simp: stranded_def rollup_key_eq)
    then show ?thesis using s old by (auto simp: stranded_def)
  qed
  ultimately show ?thesis using s by (simp add: stranded_def)
qed

lemma step_keeps_stranded:
  assumes step: "archive_step e (H, d) (H', d')" and h: "history_ok H d" and s: "stranded d p q u"
  shows "stranded d' p q u"
  using step
proof cases
  case (compact r c i wrote)
  then show ?thesis using compaction_keeps_stranded [OF h s] by blast
next
  case (retain t st now res)
  then show ?thesis using retention_keeps_stranded [OF h s] by blast
qed (use s in \<open>simp_all add: stranded_def\<close>)

text \<open>
  C40. Once a day partition has been pruned while a sealed hour of that day still has its rows, these rows
  are never deleted: no later compaction, retention pass or insertion removes them, although hour rows are
  meant to expire after the hour retention.
\<close>

theorem stranded_hours_stay:
  assumes run: "(archive_step e)\<^sup>*\<^sup>* (H, d) (H', d')" and h: "history_ok H d" and s: "stranded d p q u"
  shows "stranded d' p q u"
proof -
  have "stranded (snd y) p q u \<and> history_ok (fst y) (snd y)" if "(archive_step e)\<^sup>*\<^sup>* (H, d) y" for y
    using that
  proof (induction rule: rtranclp_induct)
    case base
    then show ?case using s h by simp
  next
    case (step y z)
    have st: "archive_step e (fst y, snd y) (fst z, snd z)" using step.hyps(2) by simp
    have "history_ok (fst z) (snd z)" by (rule archive_step_keeps_history [OF st]) (use step.IH in simp)
    moreover have "stranded (snd z) p q u" using step_keeps_stranded [OF st] step.IH by blast
    ultimately show ?case by simp
  qed
  from this [OF run] show ?thesis by simp
qed


text \<open>
  The archive of the witness: one day with two sealed hours, all raw samples already deleted, and a
  retention pass 500 days later that prunes one partition of each kind.
\<close>

definition sample_series :: "nat \<Rightarrow> series_rollup" where
  "sample_series n = \<lparr>sr_key = key_of_row (sample_gauge ''a'' 5), sr_dims_json = ''{}'', sr_sample_count = n,
     sr_observed_count = n, sr_min = None, sr_max = None, sr_average = None, sr_p95 = None, sr_last = None,
     sr_counter_first = None, sr_counter_last = None, sr_counter_delta = None, sr_reset_count = 0,
     sr_quality = ''observed'', sr_quality_counts = [], sr_input_digest = [], sr_boundary = None,
     sr_last_sample = ''a'', sr_last_run = ''r'', sr_last_sample_at = 5, sr_last_sample_ms = 5,
     sr_last_valid_at = None, sr_last_valid_ms = None, sr_last_valid_run = None\<rparr>"

definition sealed_row :: "string \<Rightarrow> resolution \<Rightarrow> int \<Rightarrow> nat \<Rightarrow> millis option \<Rightarrow> partition_row" where
  "sealed_row i r start n pruned = \<lparr>pt_id = i, pt_host = ''h'', pt_resolution = r, pt_start = start,
     pt_end = start + bucket_milliseconds r, pt_input_count = n, pt_input_digest = [], pt_series_count = 1,
     pt_state = ''sealed'', pt_compacted_at = 90000000, pt_sealed_at = Some 90000000, pt_pruned_at = pruned\<rparr>"

definition series_row :: "string \<Rightarrow> string \<Rightarrow> resolution \<Rightarrow> int \<Rightarrow> nat \<Rightarrow> rollup_row" where
  "series_row i pid r start n = \<lparr>ru_id = i, ru_partition = pid, ru_host = ''h'', ru_resolution = r, ru_start = start,
     ru_end = start + bucket_milliseconds r, ru_series = sample_series n, ru_non_observed = 0, ru_input_count = n,
     ru_created_at = 90000000, ru_updated_at = 90000000\<rparr>"

definition two_hours :: rollup_db where
  "two_hours = sample_archive [sample_run Succeeded] []
     [sealed_row ''p1'' Hour 0 1 None, sealed_row ''p2'' Hour 3600000 1 None, sealed_row ''q'' Day 0 2 None]
     [series_row ''u1'' ''p1'' Hour 0 1, series_row ''u2'' ''p2'' Hour 3600000 1, series_row ''v'' ''q'' Day 0 2]"

definition one_hour_left :: rollup_db where
  "one_hour_left = sample_archive [sample_run Succeeded] []
     [sealed_row ''p1'' Hour 0 1 (Some 7), sealed_row ''p2'' Hour 3600000 1 None, sealed_row ''q'' Day 0 2 (Some 7)]
     [series_row ''u2'' ''p2'' Hour 3600000 1]"

definition narrow_settings :: rollup_settings where
  "narrow_settings = default_rollup_settings\<lparr>rs_partitions_per_tick := 1\<rparr>"

lemma archive_fields [simp]:
  "pt_id (sealed_row i r start n pr) = i" "pt_host (sealed_row i r start n pr) = ''h''"
  "pt_resolution (sealed_row i r start n pr) = r" "pt_start (sealed_row i r start n pr) = start"
  "pt_end (sealed_row i r start n pr) = start + bucket_milliseconds r" "pt_input_count (sealed_row i r start n pr) = n"
  "pt_series_count (sealed_row i r start n pr) = 1" "pt_state (sealed_row i r start n pr) = ''sealed''"
  "pt_sealed_at (sealed_row i r start n pr) = Some 90000000" "pt_pruned_at (sealed_row i r start n pr) = pr"
  "bucket_key (sealed_row i r start n pr) = (''h'', r, start)"
  "sealed_row i r start n pr\<lparr>pt_pruned_at := pr'\<rparr> = sealed_row i r start n pr'"
  "ru_partition (series_row i pid r start n) = pid" "ru_resolution (series_row i pid r start n) = r"
  "ru_bucket (series_row i pid r start n) = (''h'', r, start)" "ru_series (series_row i pid r start n) = sample_series n"
  "rollup_key (series_row i pid r start n) = (''h'', key_of_row (sample_gauge ''a'' 5), r, start)"
  "ru_host (series_row i pid r start n) = ''h''" "ru_start (series_row i pid r start n) = start"
  "sr_key (sample_series n) = key_of_row (sample_gauge ''a'' 5)" "sr_sample_count (sample_series n) = n"
  by (simp_all add: sealed_row_def series_row_def sample_series_def bucket_key_def ru_bucket_def rollup_key_def)

lemma gauge_key: "key_of_row (sample_gauge i t) = key_of_row (sample_gauge ''a'' 5)"
  by (simp add: key_of_row_def sample_gauge_def)

lemma gauge_fields: "smp_host (sample_gauge i t) = ''h''" "smp_observed_ms (sample_gauge i t) = t"
    "smp_created_at (sample_gauge i t) = t + 1000"
  by (simp_all add: sample_gauge_def)

lemma two_hours_ok: "history_ok {sample_gauge ''a'' 5, sample_gauge ''b'' 3600005} two_hours"
proof -
  let ?a = "sample_gauge ''a'' 5" and ?b = "sample_gauge ''b'' 3600005"
  have buckets: "bucket_of Hour 5 = 0" "bucket_of Hour 3600005 = 3600000" "bucket_of Day 5 = 0" "bucket_of Day 3600005 = 0"
    by (simp_all add: bucket_of_def HOUR_MILLISECONDS_def DAY_MILLISECONDS_def)
  have sets: "bucket_set {?a, ?b} ''h'' Hour 0 = {?a}" "bucket_set {?a, ?b} ''h'' Hour 3600000 = {?b}"
      "bucket_set {?a, ?b} ''h'' Day 0 = {?a, ?b}"
    by (auto simp: bucket_set_def gauge_fields buckets)
  have ok: "tables_ok two_hours"
    by (simp add: tables_ok_def two_hours_def partition_checks_def HOUR_MILLISECONDS_def DAY_MILLISECONDS_def)
  have two: "card {?a, ?b} = 2" by simp
  have key: "{s. (s = ?a \<or> s = ?b) \<and> key_of_row s = key_of_row ?a} = {?a, ?b}" "{s. s = ?b \<and> key_of_row s = key_of_row ?a} = {?b}"
      "{s. s = ?a \<and> key_of_row s = key_of_row ?a} = {?a}"
    using gauge_key by auto
  have rows: "rows_of two_hours (sealed_row i Hour 0 n pr) = {series_row ''u1'' ''p1'' Hour 0 1}"
      "rows_of two_hours (sealed_row i Hour 3600000 n pr) = {series_row ''u2'' ''p2'' Hour 3600000 1}"
      "rows_of two_hours (sealed_row i Day 0 n pr) = {series_row ''v'' ''q'' Day 0 2}" for i n pr
    by (auto simp: rows_of_def two_hours_def)
  have p1: "partition_ok {?a, ?b} two_hours (sealed_row ''p1'' Hour 0 1 None)"
    unfolding partition_ok_def
    by (rule exI [of _ "{?a}"]) (simp add: bucket_in_def sets matches_def rows key)
  have p2: "partition_ok {?a, ?b} two_hours (sealed_row ''p2'' Hour 3600000 1 None)"
    unfolding partition_ok_def
    by (rule exI [of _ "{?b}"]) (simp add: bucket_in_def sets matches_def rows key gauge_key [of "''b''"])
  have q: "partition_ok {?a, ?b} two_hours (sealed_row ''q'' Day 0 2 None)"
    unfolding partition_ok_def
    by (rule exI [of _ "{?a, ?b}"]) (simp add: bucket_in_def sets matches_def rows key gauge_key [of "''b''"])
  have "covered two_hours s r" if "s \<in> {?a, ?b}" for s r
    using that by (cases r) (auto simp: covered_def two_hours_def gauge_fields buckets)
  then show ?thesis using ok p1 p2 q by (simp add: history_ok_def two_hours_def)
qed

lemma cutoffs:
  "day_aligned_cutoff sample_rollup_env 43200000000 n = Inr (43200000000 - int n * DAY_MILLISECONDS)" if "n \<le> 365"
proof -
  have "43200000000 - int n * DAY_MILLISECONDS = (500 - int n) * DAY_MILLISECONDS"
    by (simp add: DAY_MILLISECONDS_def HOUR_MILLISECONDS_def)
  moreover have "0 < DAY_MILLISECONDS" "500 * DAY_MILLISECONDS < 2 ^ 60"
    by (simp_all add: DAY_MILLISECONDS_def HOUR_MILLISECONDS_def)
  ultimately show ?thesis using that
    by (simp add: day_aligned_cutoff_def sample_representable bucket_start_epoch_ms_def Let_def)
      (simp add: DAY_MILLISECONDS_def HOUR_MILLISECONDS_def)
qed

lemma two_hours_pruned:
  "\<exists>res. enforce_retention sample_rollup_env 43200000000 narrow_settings 7 two_hours = Inr (res, one_hour_left)"
proof -
  let ?z = "43200000000 :: int"
  have seal: "seal_partitions 7 c r two_hours = two_hours" for c r
    by (simp add: seal_partitions_def two_hours_def sealable_def update_rows_def)
  have raw: "delete_raw_batch b c l two_hours = (0, two_hours)" for b c l
    by (simp add: delete_raw_batch_def two_hours_def Let_def u32_of_nat_def)
  let ?p1 = "sealed_row ''p1'' Hour 0 1" and ?p2 = "sealed_row ''p2'' Hour 3600000 1" and ?q = "sealed_row ''q'' Day 0 2"
  let ?u2 = "series_row ''u2'' ''p2'' Hour 3600000 1" and ?v = "series_row ''v'' ''q'' Day 0 2"
  have bucket: "bucket_of Day 0 = 0" "bucket_of Day 3600000 = 0"
    by (simp_all add: bucket_of_def DAY_MILLISECONDS_def HOUR_MILLISECONDS_def)
  let ?h = "sample_archive [sample_run Succeeded] [] [?p1 (Some 7), ?p2 None, ?q None] [?u2, ?v]"
  have hours: "delete_pruned_rows Hour (mark_pruned (hour_prunable two_hours (?z - 90 * DAY_MILLISECONDS)) 7 1 two_hours) = (1, ?h)"
    by (simp add: mark_pruned_def two_hours_def hour_prunable_def row_bucket_def bucket_samples_def bucket update_rows_def
        delete_pruned_rows_def is_pruned_row_def rows_affected_def DAY_MILLISECONDS_def HOUR_MILLISECONDS_def)
  have days: "delete_pruned_rows Day (mark_pruned (day_prunable ?h (?z - 365 * DAY_MILLISECONDS)) 7 1 ?h) = (1, one_hour_left)"
    by (simp add: mark_pruned_def one_hour_left_def day_prunable_def row_bucket_def bucket_samples_def update_rows_def
        delete_pruned_rows_def is_pruned_row_def rows_affected_def DAY_MILLISECONDS_def HOUR_MILLISECONDS_def)
  show ?thesis
    by (simp add: enforce_retention_def narrow_settings_def default_rollup_settings_def cutoffs seal raw
        hours [unfolded One_nat_def] days [unfolded One_nat_def])
qed

theorem stranded_hours_stay_witness:
  "\<exists>res d1 res' d2. enforce_retention sample_rollup_env 43200000000 narrow_settings 7 two_hours = Inr (res, d1)
     \<and> enforce_retention sample_rollup_env 43200000000 default_rollup_settings 8 d1 = Inr (res', d2)
     \<and> series_row ''u2'' ''p2'' Hour 3600000 1 \<in> set (rollups d2)"
proof -
  let ?H = "{sample_gauge ''a'' 5, sample_gauge ''b'' 3600005}"
  obtain res where one: "enforce_retention sample_rollup_env 43200000000 narrow_settings 7 two_hours = Inr (res, one_hour_left)"
    using two_hours_pruned by blast
  have h: "history_ok ?H one_hour_left" by (rule retention_keeps_history [OF two_hours_ok one])
  obtain res' d2 where two: "enforce_retention sample_rollup_env 43200000000 default_rollup_settings 8 one_hour_left = Inr (res', d2)"
    by (simp add: enforce_retention_def default_rollup_settings_def cutoffs split_beta Let_def)
  have s: "stranded one_hour_left (sealed_row ''p2'' Hour 3600000 1 None) (sealed_row ''q'' Day 0 2 (Some 7))
      (series_row ''u2'' ''p2'' Hour 3600000 1)"
    by (simp add: stranded_def one_hour_left_def bucket_of_def DAY_MILLISECONDS_def HOUR_MILLISECONDS_def)
  have "(archive_step sample_rollup_env)\<^sup>*\<^sup>* (?H, one_hour_left) (?H, d2)"
    by (rule r_into_rtranclp) (rule archive_step.retain [OF two])
  from stranded_hours_stay [OF this h s] have "series_row ''u2'' ''p2'' Hour 3600000 1 \<in> set (rollups d2)"
    by (simp add: stranded_def)
  with one two show ?thesis by blast
qed


subsection \<open>A boundary without its boot\<close>

text \<open>
  A host whose boot identifier could not be read in the second of three observations: its processor counters
  of that observation are stored without a value, and the host reboots before the third.
\<close>

definition boot_run :: "string \<Rightarrow> string option \<Rightarrow> run_row" where
  "boot_run i boot = (sample_run Succeeded)\<lparr>run_id := i, run_key := i, run_boot_id := boot\<rparr>"

definition tick_counter :: "string \<Rightarrow> string \<Rightarrow> millis \<Rightarrow> int option \<Rightarrow> sample_row" where
  "tick_counter i run t v = \<lparr>smp_id = i, smp_run = run, smp_host = ''h'', smp_family = ''cpu'', smp_subject_kind = ''host'',
     smp_subject_id = ''h'', smp_metric = ''user_ticks'', smp_dims_json = ''{}'', smp_dims_sha = replicate 64 CHR ''0'',
     smp_kind = ''counter'', smp_value = None, smp_value_integer = v, smp_unit = ''ticks'', smp_window = None,
     smp_quality = (if v = None then ''parse_failed'' else ''observed''), smp_observed_at = t, smp_observed_ms = t,
     smp_source = ''ssh_host_resource_v1'', smp_created_at = t + 1000\<rparr>"

definition tick_key :: series_key where
  "tick_key = key_of_row (tick_counter [] [] 0 None)"

definition first_hour :: "rollup_env \<Rightarrow> rollup_error + series_rollup" where
  "first_hour e = aggregate_series e tick_key
     [raw_of_row (tick_counter ''s1'' ''r1'' 600000 (Some 100)) (boot_run ''r1'' (Some ''A'')),
      raw_of_row (tick_counter ''s2'' ''r2'' 1200000 None) (boot_run ''r2'' None)] None"

definition rebooted :: "series_rollup list \<Rightarrow> rollup_db" where
  "rebooted hours = sample_archive
     [boot_run ''r1'' (Some ''A''), boot_run ''r2'' None, boot_run ''r3'' (Some ''B'')]
     [tick_counter ''s1'' ''r1'' 600000 (Some 100), tick_counter ''s2'' ''r2'' 1200000 None,
      tick_counter ''s3'' ''r3'' 4200000 (Some 150)]
     [] (map (rollup_row_of ''u'' ''p'' ''h'' Hour \<lparr>br_start = 0, br_end = 3600000\<rparr> 90000000) hours)"

lemma tick_fields [simp]:
  "smp_id (tick_counter i run t v) = i" "smp_run (tick_counter i run t v) = run" "smp_host (tick_counter i run t v) = ''h''"
  "smp_value_integer (tick_counter i run t v) = v" "smp_observed_ms (tick_counter i run t v) = t"
  "smp_quality (tick_counter i run t v) = (if v = None then ''parse_failed'' else ''observed'')"
  "key_of_row (tick_counter i run t v) = tick_key" "sk_kind tick_key = ''counter''"
  "run_id (boot_run i b) = i" "run_boot_id (boot_run i b) = b"
  by (simp_all add: tick_counter_def key_of_row_def boot_run_def tick_key_def)

lemma raw_fields [simp]:
  "rw_id (raw_of_row s r) = smp_id s" "rw_run (raw_of_row s r) = smp_run s" "rw_epoch (raw_of_row s r) = smp_observed_ms s"
  "rw_integer (raw_of_row s r) = smp_value_integer s" "rw_quality (raw_of_row s r) = smp_quality s"
  "rw_boot (raw_of_row s r) = run_boot_id r"
  by (simp_all add: raw_of_row_def)

lemma first_hour_row:
  "\<exists>s. first_hour e = Inr s \<and> sr_counter_last s = Some 100 \<and> sr_last_sample s = ''s2'' \<and> sr_last_run s = ''r2''
     \<and> sr_last_sample_ms s = 1200000 \<and> sr_last_valid_run s = Some ''r1''
     \<and> sr_key s = tick_key"
  by (simp add: first_hour_def aggregate_series_def by_time_def Let_def u32_max_def aggregate_counter_def
      observed_integers_def map_filter_simps is_observed_def counter_step_def)

text \<open>
  The boundary of a counter can lose its boot: the rollup row of the hour names the run of its last
  sample, which is not the run of its last observed value, and since that sample is the newer one the row is
  preferred over the raw sample that is still there. In the example the boundary of the second hour has no
  boot, and the increment across the reboot is counted, where the raw sample alone gives a reset and no
  increment.
\<close>

theorem boundary_loses_boot:
  "\<exists>s b raw_b. first_hour e = Inr s \<and> sr_last_valid_run s = Some ''r1''
     \<and> boundary_for (rebooted [s]) ''h'' (sr_key s) 3600000 = Some b
     \<and> b = \<lparr>cb_sample = ''s2'', cb_value = 100, cb_boot = None\<rparr>
     \<and> boundary_for (rebooted []) ''h'' (sr_key s) 3600000 = Some raw_b
     \<and> raw_b = \<lparr>cb_sample = ''s1'', cb_value = 100, cb_boot = Some ''A''\<rparr>
     \<and> (let hour = [raw_of_row (tick_counter ''s3'' ''r3'' 4200000 (Some 150)) (boot_run ''r3'' (Some ''B''))]
        in cs_delta (aggregate_counter hour (Some b)) = Some 50 \<and> cs_reset_count (aggregate_counter hour (Some b)) = 0
           \<and> cs_delta (aggregate_counter hour (Some raw_b)) = None
           \<and> cs_reset_count (aggregate_counter hour (Some raw_b)) = 1)"
proof -
  obtain s where s: "first_hour e = Inr s" "sr_counter_last s = Some 100" "sr_last_sample s = ''s2''" "sr_last_run s = ''r2''"
      "sr_last_sample_ms s = 1200000" "sr_last_valid_run s = Some ''r1''"
      "sr_key s = tick_key"
    using first_hour_row by blast
  have row: "ru_host (rollup_row_of i p h r b n s) = h" "ru_series (rollup_row_of i p h r b n s) = s" for i p h r b n
    by (simp_all add: rollup_row_of_def)
  have run: "run_of (rebooted hs) ''r1'' = Some (boot_run ''r1'' (Some ''A''))"
      "run_of (rebooted hs) ''r2'' = Some (boot_run ''r2'' None)" for hs
    by (simp_all add: run_of_def rebooted_def)
  have raw: "raw_boundaries (rebooted hs) ''h'' (sr_key s) 3600000
      = [\<lparr>bo_sample = ''s1'', bo_value = 100, bo_boot = Some ''A'', bo_epoch = 600000, bo_rank = 0\<rparr>]" for hs
    by (simp add: raw_boundaries_def with_runs_def map_filter_simps run)
      (simp add: rebooted_def s(7) map_filter_simps run [unfolded rebooted_def])
  have roll: "rollup_boundaries (rebooted [s]) ''h'' (sr_key s) 3600000
      = [\<lparr>bo_sample = ''s2'', bo_value = 100, bo_boot = None, bo_epoch = 1200000, bo_rank = 1\<rparr>]"
      "rollup_boundaries (rebooted []) ''h'' (sr_key s) 3600000 = []"
    using run(2) [of "[s]"] by (simp_all add: rollup_boundaries_def rebooted_def row s)
  have "boundary_for (rebooted [s]) ''h'' (sr_key s) 3600000 = Some \<lparr>cb_sample = ''s2'', cb_value = 100, cb_boot = None\<rparr>"
    using raw roll by (simp add: boundary_for_def load_counter_boundary_def s(7) Let_def)
  moreover have "boundary_for (rebooted []) ''h'' (sr_key s) 3600000 = Some \<lparr>cb_sample = ''s1'', cb_value = 100, cb_boot = Some ''A''\<rparr>"
    using raw roll by (simp add: boundary_for_def load_counter_boundary_def s(7) Let_def)
  moreover have "observed_integers [raw_of_row (tick_counter ''s3'' ''r3'' 4200000 (Some 150)) (boot_run ''r3'' (Some ''B''))]
      = [(raw_of_row (tick_counter ''s3'' ''r3'' 4200000 (Some 150)) (boot_run ''r3'' (Some ''B'')), 150)]"
    by (simp add: observed_integers_def map_filter_simps)
  ultimately show ?thesis
    using s(1,6)
    by (intro exI [of _ s] exI [of _ "\<lparr>cb_sample = ''s2'', cb_value = 100, cb_boot = None\<rparr>"]
        exI [of _ "\<lparr>cb_sample = ''s1'', cb_value = 100, cb_boot = Some ''A''\<rparr>"] conjI) (simp_all add: aggregate_counter_def Let_def counter_step_def boot_changed_def
        sat_add32_def u32_max_def checked_add_i64_def wrap_i64_def i64_min_def i64_max_def)
qed

end
