(* ===== verification/HistoryRetention.thy ===== *)
theory HistoryRetention
  imports HistoryPaging RollupOutcomes
begin

text \<open>
  The resolution a history query picks and the retention of \<open>monitoring_rollup.rs\<close> use the same cutoffs: an
  automatic choice never reads a tier from which a retention run has deleted rows of the range.
\<close>

subsection \<open>Cutoffs\<close>

lemma horizon_after_cutoff:
  assumes "day_aligned_cutoff e ev days = Inr c" and "ev * ns_per_ms \<le> t"
  shows "c * ns_per_ms \<le> retention_horizon t days"
proof -
  let ?D = DAY_MILLISECONDS
  have c: "c = (ev - int days * ?D) div ?D * ?D"
    using assms(1) by (auto simp: day_aligned_cutoff_def bucket_start_epoch_ms_def Let_def split: if_splits option.splits)
  have pos: "0 < ns_per_ms" "0 < ns_per_day" by (simp_all add: ns_per_ms_def ns_per_day_def DAY_MILLISECONDS_def HOUR_MILLISECONDS_def)
  have "(ev - int days * ?D) div ?D = ((ev - int days * ?D) * ns_per_ms) div ns_per_day"
    using pos unfolding ns_per_day_def by simp
  also have "\<dots> \<le> (t - int days * ns_per_day) div ns_per_day"
    using assms(2) pos by (intro zdiv_mono1) (simp_all add: ns_per_day_def algebra_simps)
  finally show ?thesis
    using pos unfolding c retention_horizon_def
    by (metis mult.assoc mult_right_mono less_imp_le ns_per_day_def)
qed

lemma cutoff_mono:
  assumes "day_aligned_cutoff e ev m = Inr a" "day_aligned_cutoff e ev n = Inr b" "m \<le> n"
  shows "b \<le> a"
proof -
  let ?D = DAY_MILLISECONDS
  have ab: "a = (ev - int m * ?D) div ?D * ?D" "b = (ev - int n * ?D) div ?D * ?D"
    using assms by (auto simp: day_aligned_cutoff_def bucket_start_epoch_ms_def Let_def split: if_splits option.splits)
  have D: "0 < ?D" by (simp add: DAY_MILLISECONDS_def HOUR_MILLISECONDS_def)
  have "ev - int n * ?D \<le> ev - int m * ?D" using assms(3) D by simp
  then show ?thesis unfolding ab using D by (intro mult_right_mono zdiv_mono1) simp_all
qed

lemma timestamp_ms_ge: "c * ns_per_ms \<le> t \<Longrightarrow> c \<le> timestamp_ms t"
  unfolding timestamp_ms_def by (metis ns_per_ms_def nonzero_mult_div_cancel_right zdiv_mono1 zero_less_numeral less_irrefl)

subsection \<open>What retention keeps\<close>

lemma delete_raw_keeps_recent:
  assumes "distinct (map smp_id (samples d))" and "\<And>s. P s \<Longrightarrow> c \<le> smp_observed_ms s"
  shows "filter P (samples (snd (delete_raw_batch b c n d))) = filter P (samples d)"
proof -
  let ?cs = "sort_key (\<lambda>s. (smp_observed_ms s, smp_id s)) (filter (deletable d b c) (samples d))"
  have "smp_id s \<notin> set (take n (map smp_id ?cs))" if s: "s \<in> set (samples d)" "P s" for s
  proof
    assume "smp_id s \<in> set (take n (map smp_id ?cs))"
    then have "smp_id s \<in> smp_id ` set ?cs" using in_set_takeD by force
    then obtain s' where "s' \<in> set (samples d)" "deletable d b c s'" "smp_id s' = smp_id s" by auto
    moreover have "s' = s"
      using calculation s assms(1) inj_onD [of smp_id "set (samples d)" s' s] by (auto simp: distinct_map)
    ultimately have "smp_observed_ms s < c" by (simp add: deletable_def)
    then show False using assms(2) [OF s(2)] by simp
  qed
  then show ?thesis by (auto simp: delete_raw_batch_def Let_def filter_filter intro!: filter_cong)
qed

lemma delete_raw_others [simp]:
  "partitions (snd (delete_raw_batch b c n d)) = partitions d" "rollups (snd (delete_raw_batch b c n d)) = rollups d"
  "distinct (map smp_id (samples d)) \<Longrightarrow> distinct (map smp_id (samples (snd (delete_raw_batch b c n d))))"
  by (auto simp: delete_raw_batch_def Let_def distinct_map_filter)

text \<open>No row of a pruned partition is left, and a row ends where its bucket does.\<close>

definition rows_in_place :: "rollup_db \<Rightarrow> bool" where
  "rows_in_place d =
     (\<forall>u \<in> set (rollups d). \<not> is_pruned_row d (ru_resolution u) u
        \<and> ru_end u = ru_start u + bucket_milliseconds (ru_resolution u))"

lemma marked_row:
  assumes p: "distinct (map pt_id (partitions d))"
    and u: "is_pruned_row (mark_pruned P now n d) r u" "\<not> is_pruned_row d r u"
  shows "\<exists>p \<in> set (partitions d). pt_id p = ru_partition u \<and> P p"
proof -
  let ?ids = "set (take n (map pt_id (sort_key (\<lambda>p. (pt_start p, pt_host p)) (filter P (partitions d)))))"
  obtain q where q: "q \<in> set (partitions (mark_pruned P now n d))" "pt_id q = ru_partition u" "pt_resolution q = r"
      "pt_pruned_at q \<noteq> None" "ru_resolution u = r"
    using u(1) by (auto simp: is_pruned_row_def)
  obtain q' where q': "q' \<in> set (partitions d)"
    "q = (if pt_id q' \<in> ?ids then q'\<lparr>pt_pruned_at := (case pt_pruned_at q' of Some t \<Rightarrow> Some t | None \<Rightarrow> Some now)\<rparr> else q')"
    using q(1) by (auto simp: mark_pruned_def update_rows_def Let_def)
  have "pt_id q' = ru_partition u" "pt_resolution q' = r" using q q'(2) by (auto split: if_splits)
  moreover have "pt_pruned_at q' = None" using u(2) q'(1) calculation q(5) by (auto simp: is_pruned_row_def)
  ultimately have "pt_id q' \<in> ?ids" using q(4) q'(2) by (auto split: if_splits)
  then have "pt_id q' \<in> pt_id ` set (filter P (partitions d))" using in_set_takeD by fastforce
  then show ?thesis using \<open>pt_id q' = ru_partition u\<close> by auto
qed

text \<open>What sealing leaves of a partition.\<close>

definition partition_core :: "partition_row \<Rightarrow> string \<times> resolution \<times> int \<times> millis option" where
  "partition_core p = (pt_id p, pt_resolution p, pt_end p, pt_pruned_at p)"

lemma seal_core [simp]: "map partition_core (partitions (seal_partitions now c r d)) = map partition_core (partitions d)"
  by (simp add: seal_partitions_def update_rows_def partition_core_def seal_partition_def)

lemma core_ids: "map pt_id ps = map fst (map partition_core ps)"
  by (simp add: partition_core_def)

lemma core_member: "p \<in> set ps \<Longrightarrow> map partition_core ps = map partition_core qs \<Longrightarrow> \<exists>q \<in> set qs. partition_core q = partition_core p"
  by (metis (mono_tags, lifting) imageE image_eqI list.set_map)

lemma core_pruned:
  "is_pruned_row d r u \<longleftrightarrow>
     ru_resolution u = r \<and> (\<exists>x \<in> set (map partition_core (partitions d)). fst x = ru_partition u \<and> fst (snd x) = r \<and> snd (snd (snd x)) \<noteq> None)"
  by (auto simp: is_pruned_row_def partition_core_def)

lemma pruned_after_seal [simp]:
  "is_pruned_row (seal_partitions now c r' d) r u = is_pruned_row d r u"
  "map pt_id (partitions (seal_partitions now c r' d)) = map pt_id (partitions d)"
  unfolding core_pruned core_ids seal_core by (rule refl)+

lemma hour_rows_kept:
  assumes ok: "tables_ok d" and place: "rows_in_place d"
    and run: "enforce_retention e ev s now d = Inr (res, d')"
    and cut: "day_aligned_cutoff e ev (rs_hour_days s) = Inr c"
    and Q: "\<And>u. Q u \<Longrightarrow> ru_resolution u = Hour \<and> c < ru_end u"
  shows "filter Q (rollups d') = filter Q (rollups d)"
proof -
  obtain c1 c2 c4 where cs: "day_aligned_cutoff e ev (rs_raw_observed_days s) = Inr c1"
      "day_aligned_cutoff e ev (rs_raw_non_observed_days s) = Inr c2" "day_aligned_cutoff e ev (rs_day_days s) = Inr c4"
    using run by (auto simp: enforce_retention_def)
  define d1 where "d1 = seal_partitions now c1 Day (seal_partitions now c1 Hour d)"
  define n2 where "n2 = fst (delete_raw_batch True c1 (rs_delete_batch_size s) d1)"
  define d2 where "d2 = snd (delete_raw_batch True c1 (rs_delete_batch_size s) d1)"
  define d3 where "d3 = snd (delete_raw_batch False c2 (rs_delete_batch_size s - n2) d2)"
  define dm where "dm = mark_pruned (hour_prunable d3 c) now (rs_partitions_per_tick s) d3"
  define d4 where "d4 = snd (delete_pruned_rows Hour dm)"
  define dn where "dn = mark_pruned (day_prunable d4 c4) now (rs_partitions_per_tick s) d4"
  have d': "d' = snd (delete_pruned_rows Day dn)"
    using run by (simp add: enforce_retention_def cs cut d1_def n2_def d2_def d3_def dm_def d4_def dn_def split_beta Let_def)
  have p3: "partitions d3 = partitions d1" and u3: "rollups d3 = rollups d"
    by (simp_all add: d3_def d2_def d1_def seal_partitions_def)
  have ids: "distinct (map pt_id (partitions d3))" unfolding p3 d1_def using ok by (simp add: tables_ok_def)
  have not_pruned: "\<not> is_pruned_row dm Hour u" if u: "u \<in> set (rollups d)" "Q u" for u
  proof
    assume pr: "is_pruned_row dm Hour u"
    have r: "ru_resolution u = Hour" "c < ru_end u" using Q [OF u(2)] by auto
    have "\<not> is_pruned_row d Hour u" using place u(1) r by (auto simp: rows_in_place_def)
    then have "\<not> is_pruned_row d3 Hour u"
      unfolding core_pruned p3 d1_def seal_core .
    then obtain p where p: "p \<in> set (partitions d3)" "pt_id p = ru_partition u" "hour_prunable d3 c p"
      using marked_row [OF ids pr [unfolded dm_def]] by blast
    obtain q where q: "q \<in> set (partitions d)" "pt_id q = ru_partition u"
        "bucket_key q = (ru_host u, ru_resolution u, ru_start u)" "pt_end q = pt_start q + bucket_milliseconds (pt_resolution q)"
      using ok u(1) unfolding tables_ok_def by blast
    have "map partition_core (partitions d) = map partition_core (partitions d1)" by (simp add: d1_def)
    then obtain q' where q': "q' \<in> set (partitions d1)" "pt_id q' = pt_id q" "pt_end q' = pt_end q"
      using core_member [OF q(1)] by (auto simp: partition_core_def)
    have "q' = p" using ids p(1,2) q'(1,2) q(2) unfolding p3 by (auto simp: distinct_map inj_on_def)
    then have "pt_end q \<le> c" using p(3) q'(3) by (simp add: hour_prunable_def)
    moreover have "ru_end u = pt_end q" using place u(1) q(3,4) by (auto simp: rows_in_place_def bucket_key_def)
    ultimately show False using r by simp
  qed
  have "rollups d4 = filter (\<lambda>u. \<not> is_pruned_row dm Hour u) (rollups d)"
    by (simp add: d4_def delete_pruned_rows_def dm_def mark_pruned_def Let_def u3)
  moreover have "rollups d' = filter (\<lambda>u. \<not> is_pruned_row dn Day u) (rollups d4)"
    by (simp add: d' delete_pruned_rows_def dn_def mark_pruned_def Let_def)
  moreover have "\<not> is_pruned_row dn Day u" if "Q u" for u using Q [OF that] by (simp add: is_pruned_row_def)
  ultimately show ?thesis using not_pruned by (auto simp: intro!: filter_cong)
qed

lemma raw_samples_kept:
  assumes ok: "distinct (map smp_id (samples d))"
    and run: "enforce_retention e ev s now d = Inr (res, d')"
    and cut: "day_aligned_cutoff e ev (rs_raw_observed_days s) = Inr c"
    and days: "rs_raw_observed_days s \<le> rs_raw_non_observed_days s"
    and P: "\<And>x. P x \<Longrightarrow> c \<le> smp_observed_ms x"
  shows "filter P (samples d') = filter P (samples d)"
proof -
  obtain c2 c3 c4 where cs: "day_aligned_cutoff e ev (rs_raw_non_observed_days s) = Inr c2"
      "day_aligned_cutoff e ev (rs_hour_days s) = Inr c3" "day_aligned_cutoff e ev (rs_day_days s) = Inr c4"
    using run by (auto simp: enforce_retention_def)
  define d1 where "d1 = seal_partitions now c Day (seal_partitions now c Hour d)"
  define n2 where "n2 = fst (delete_raw_batch True c (rs_delete_batch_size s) d1)"
  define d2 where "d2 = snd (delete_raw_batch True c (rs_delete_batch_size s) d1)"
  define d3 where "d3 = snd (delete_raw_batch False c2 (rs_delete_batch_size s - n2) d2)"
  have "samples d' = samples d3"
    using run by (auto simp: enforce_retention_def cs cut d1_def n2_def d2_def d3_def split_beta Let_def
        delete_pruned_rows_def mark_pruned_def)
  moreover have s1: "samples d1 = samples d" by (simp add: d1_def seal_partitions_def)
  moreover have "filter P (samples d2) = filter P (samples d1)"
    unfolding d2_def using ok P s1 by (intro delete_raw_keeps_recent) auto
  moreover have "filter P (samples d3) = filter P (samples d2)"
    unfolding d3_def
  proof (rule delete_raw_keeps_recent)
    show "distinct (map smp_id (samples d2))" using ok s1 unfolding d2_def by simp
    show "c2 \<le> smp_observed_ms x" if "P x" for x
      using P [OF that] cutoff_mono [OF cut cs(1) days] by simp
  qed
  ultimately show ?thesis by simp
qed

text \<open>
  C15. Automatic resolution and retention agree: where a query without an explicit resolution is answered
  from the raw samples or the hour rows, no retention run under the same settings that was evaluated before
  the query has removed any row of the answer.
\<close>

theorem auto_reads_kept:
  assumes "tables_ok d" and "rows_in_place d"
    and "enforce_retention e ev s now d = Inr (res, d')"
    and "rs_retention_enabled s" and "rs_raw_observed_days s \<le> rs_raw_non_observed_days s"
    and "ev * ns_per_ms \<le> t" and "from \<le> effective_from"
    and "choose_resolution ReqAuto from to t s = tier" and "tier \<noteq> ResDay"
  shows "history_answer tier host effective_from to f d' = history_answer tier host effective_from to f d"
proof (cases tier)
  case ResRaw
  obtain c where c: "day_aligned_cutoff e ev (rs_raw_observed_days s) = Inr c"
    using assms(3) by (auto simp: enforce_retention_def)
  have "retention_horizon t (rs_raw_observed_days s) \<le> from"
    using assms(4,8) ResRaw by (auto simp: choose_resolution_def split: if_splits)
  then have "c \<le> timestamp_ms effective_from"
    using horizon_after_cutoff [OF c assms(6)] assms(7) by (intro timestamp_ms_ge) linarith
  then have "filter (\<lambda>x. sample_in_range host effective_from to x \<and> key_passes f (key_of_row x)) (samples d')
      = filter (\<lambda>x. sample_in_range host effective_from to x \<and> key_passes f (key_of_row x)) (samples d)"
    using assms(1) by (intro raw_samples_kept [OF _ assms(3) c assms(5)]) (auto simp: tables_ok_def sample_in_range_def)
  then show ?thesis by (simp add: ResRaw history_answer_def matching_samples_def)
next
  case ResHour
  obtain c where c: "day_aligned_cutoff e ev (rs_hour_days s) = Inr c"
    using assms(3) by (auto simp: enforce_retention_def)
  have "retention_horizon t (rs_hour_days s) \<le> from"
    using assms(4,8) ResHour by (auto simp: choose_resolution_def split: if_splits)
  then have "c \<le> timestamp_ms effective_from"
    using horizon_after_cutoff [OF c assms(6)] assms(7) by (intro timestamp_ms_ge) linarith
  then have "filter (\<lambda>u. rollup_in_range host Hour effective_from to u \<and> key_passes f (sr_key (ru_series u))) (rollups d')
      = filter (\<lambda>u. rollup_in_range host Hour effective_from to u \<and> key_passes f (sr_key (ru_series u))) (rollups d)"
    by (intro hour_rows_kept [OF assms(1,2,3) c]) (auto simp: rollup_in_range_def)
  then show ?thesis by (simp add: ResHour history_answer_def matching_rollups_def)
qed (use assms(9) in simp)

text \<open>A retention run that prunes an old hour, and a query for a month of the last quarter.\<close>

definition enforced_settings :: rollup_settings where
  "enforced_settings = narrow_settings\<lparr>rs_retention_enabled := True\<rparr>"

definition every_host_metric :: history_filters where
  "every_host_metric = \<lparr>hf_family = None, hf_subject_kind = ''host'', hf_subject_id = None, hf_metric_name = None, hf_sample_kind = None\<rparr>"

theorem auto_reads_kept_witness:
  "\<exists>res. enforce_retention sample_rollup_env 43200000000 enforced_settings 7 two_hours = Inr (res, one_hour_left)
     \<and> history_answer ResHour ''h'' (38016000000 * ns_per_ms) (40608000000 * ns_per_ms) every_host_metric one_hour_left
       = history_answer ResHour ''h'' (38016000000 * ns_per_ms) (40608000000 * ns_per_ms) every_host_metric two_hours"
proof -
  obtain res where "enforce_retention sample_rollup_env 43200000000 narrow_settings 7 two_hours = Inr (res, one_hour_left)"
    using two_hours_pruned by blast
  then have run: "enforce_retention sample_rollup_env 43200000000 enforced_settings 7 two_hours = Inr (res, one_hour_left)"
    by (simp add: enforce_retention_def enforced_settings_def)
  have place: "rows_in_place two_hours"
    by (simp add: rows_in_place_def two_hours_def is_pruned_row_def series_row_def)
  have tier: "choose_resolution ReqAuto (38016000000 * ns_per_ms) (40608000000 * ns_per_ms) (43200000000 * ns_per_ms)
      enforced_settings = ResHour"
    by (simp add: choose_resolution_def enforced_settings_def narrow_settings_def default_rollup_settings_def
        retention_horizon_def ns_per_day_def ns_per_ms_def DAY_MILLISECONDS_def HOUR_MILLISECONDS_def seconds_def
        ns_per_s_def RAW_QUERY_MAX_SPAN_SECONDS_def HOUR_QUERY_MAX_SPAN_SECONDS_def)
  have "rs_retention_enabled enforced_settings"
    and "rs_raw_observed_days enforced_settings \<le> rs_raw_non_observed_days enforced_settings"
    by (simp_all add: enforced_settings_def narrow_settings_def default_rollup_settings_def)
  note kept = auto_reads_kept [OF history_parts(1) [OF two_hours_ok] place run this order_refl order_refl tier
      history_resolution.distinct(5)]
  show ?thesis
    by (rule exI [of _ res], rule conjI [OF run kept])
qed

end
