(* ===== verification/Graph.thy ===== *)
theory Graph
  imports RustStd Contracts
begin

text \<open>
  The contracts of discovery and projection in \<open>backend/src/contracts.rs\<close>: the evidence of a scan, the graph
  a user edits, and the patches to it. Texts are UTF-8 bytes; a Chinese text of the source is given by its
  bytes, and is never compared with anything but itself. A JSON number is an integer, as the scanner writes.
\<close>

subsection \<open>Texts\<close>

definition utf8 :: "nat list \<Rightarrow> string" where
  "utf8 = map char_of"

text \<open>\<open>chars().take(n)\<close>: the first characters, each with the bytes that continue it.\<close>

fun take_chars :: "nat \<Rightarrow> string \<Rightarrow> string" where
  "take_chars n [] = []"
| "take_chars n (c # cs) =
     (if 128 \<le> (of_char c :: nat) \<and> (of_char c :: nat) < 192 then c # take_chars n cs
      else case n of 0 \<Rightarrow> [] | Suc m \<Rightarrow> c # take_chars m cs)"

definition char_count :: "string \<Rightarrow> nat" where
  "char_count s = length (filter (\<lambda>c. (of_char c :: nat) < 128 \<or> 192 \<le> (of_char c :: nat)) s)"

subsection \<open>Evidence\<close>

datatype evidence_kind =
    EkHostIdentity | EkDockerEngine | EkComposeProject | EkSystemdUnit | EkContainer | EkImage | EkNetwork
  | EkVolume | EkDocument | EkHealthCheck

fun evidence_kind_name :: "evidence_kind \<Rightarrow> string" where
  "evidence_kind_name EkHostIdentity = ''host_identity''"
| "evidence_kind_name EkDockerEngine = ''docker_engine''"
| "evidence_kind_name EkComposeProject = ''compose_project''"
| "evidence_kind_name EkSystemdUnit = ''systemd_unit''"
| "evidence_kind_name EkContainer = ''container''"
| "evidence_kind_name EkImage = ''image''"
| "evidence_kind_name EkNetwork = ''network''"
| "evidence_kind_name EkVolume = ''volume''"
| "evidence_kind_name EkDocument = ''document''"
| "evidence_kind_name EkHealthCheck = ''health_check''"

text \<open>\<open>freshness\<close> and \<open>redaction_state\<close> of an item are only stored and are left out.\<close>

record evidence_item =
  evi_external_id :: string
  evi_kind :: evidence_kind
  evi_source :: string
  evi_observed_at :: string
  evi_sha256 :: "string option"
  evi_metadata :: json

record discovery_evidence =
  de_address :: string
  de_os :: string
  de_host_facts :: "evidence_item list"
  de_docker_engines :: "evidence_item list"
  de_compose_projects :: "evidence_item list"
  de_systemd_units :: "evidence_item list"
  de_containers :: "evidence_item list"
  de_images :: "evidence_item list"
  de_networks :: "evidence_item list"
  de_volumes :: "evidence_item list"
  de_document_candidates :: "evidence_item list"
  de_health_checks :: "evidence_item list"
  de_started_at :: string

definition evidence_items :: "discovery_evidence \<Rightarrow> evidence_item list" where
  "evidence_items e =
     de_host_facts e @ de_docker_engines e @ de_compose_projects e @ de_systemd_units e @ de_containers e
     @ de_images e @ de_networks e @ de_volumes e @ de_document_candidates e @ de_health_checks e"

subsection \<open>The graph\<close>

datatype projection_state =
    PsFixture | PsDiscovered | PsDraft | PsConfirmed | PsStale | PsUnavailable | PsArchived

datatype node_kind =
    GkWorkspace | GkHost | GkProject | GkComposeProject | GkService | GkContainer | GkImage | GkNetwork
  | GkVolume | GkPort | GkDocument | GkUnknown

datatype relation_kind =
    RkContains | RkDeploys | RkDependsOn | RkConnectsTo | RkMounts | RkExposes | RkUsesImage | RkDocuments

fun relation_kind_name :: "relation_kind \<Rightarrow> string" where
  "relation_kind_name RkContains = ''contains''"
| "relation_kind_name RkDeploys = ''deploys''"
| "relation_kind_name RkDependsOn = ''depends_on''"
| "relation_kind_name RkConnectsTo = ''connects_to''"
| "relation_kind_name RkMounts = ''mounts''"
| "relation_kind_name RkExposes = ''exposes''"
| "relation_kind_name RkUsesImage = ''uses_image''"
| "relation_kind_name RkDocuments = ''documents''"

record graph_position =
  gp_x :: f64
  gp_y :: f64

record graph_fact =
  gf_label :: string
  gf_value :: string

record graph_health =
  gh_label :: string
  gh_tone :: string
  gh_activity :: nat
  gh_alerts :: nat
  gh_updated :: string

record graph_node =
  gn_id :: string
  gn_kind :: node_kind
  gn_label :: string
  gn_subtitle :: "string option"
  gn_state :: projection_state
  gn_source_refs :: "string list"
  gn_observed_at :: "string option"
  gn_position :: graph_position
  gn_width :: f64
  gn_height :: f64
  gn_summary :: "string option"
  gn_facts :: "graph_fact list"
  gn_project :: "string option"
  gn_health :: "graph_health option"

record graph_edge =
  ge_id :: string
  ge_from :: string
  ge_to :: string
  ge_kind :: relation_kind
  ge_label :: string
  ge_state :: projection_state
  ge_source_refs :: "string list"

record canvas_layout =
  cl_layout_id :: string
  cl_scope :: string
  cl_revision :: int

datatype graph_scope_kind = ScopeGlobal | ScopeProject

record graph_snapshot =
  sn_focus :: "graph_scope_kind \<times> string"
  sn_nodes :: "graph_node list"
  sn_edges :: "graph_edge list"
  sn_layout :: canvas_layout

definition set_layout_revision :: "int \<Rightarrow> graph_snapshot \<Rightarrow> graph_snapshot" where
  "set_layout_revision r s = s\<lparr>sn_layout := (sn_layout s)\<lparr>cl_revision := r\<rparr>\<rparr>"

definition node_ids :: "graph_snapshot \<Rightarrow> string set" where
  "node_ids s = gn_id ` set (sn_nodes s)"

subsection \<open>Patches and requests\<close>

datatype patch_operation =
    Rename string string
  | Move string graph_position
  | AssignProject string "string option"
  | CreateProject string string string
  | AddRelation string string relation_kind string
  | RemoveRelation string
  | ArchiveNode string
  | RestoreNode string

datatype ignore_action = ActIgnore | ActArchive | ActRestore

record draft_update_request =
  du_base_revision :: int
  du_operations :: "patch_operation list"

record layout_update_request =
  lu_base_revision :: int
  lu_positions :: "(string \<times> graph_position) list"

record ignore_rule_request =
  ir_draft :: string
  ir_node :: string
  ir_action :: ignore_action
  ir_base_revision :: int

end
