(* ===== verification/EvidenceMapping.thy ===== *)
theory EvidenceMapping
  imports Graph
begin

text \<open>
  The deterministic mapping of a scan to a graph, \<open>map_evidence\<close> of \<open>backend/src/projection.rs\<close>. The vectors
  of nodes and edges with the sets of their identifiers are a \<open>builder\<close>: an identifier is known when a node or
  edge of the vector has it. \<open>usage\<close> is the list of its entries. SHA-256 and the JSON form of an item are
  arguments.
\<close>

record projection_env =
  hex_sha256 :: "string \<Rightarrow> string"
  evidence_json :: "evidence_item \<Rightarrow> string"
  update_json :: "draft_update_request \<Rightarrow> string"
  confirm_json :: "int \<Rightarrow> string"
  layout_json :: "layout_update_request \<Rightarrow> string"
  ignore_json :: "ignore_rule_request \<Rightarrow> string"

definition stable_id :: "projection_env \<Rightarrow> string \<Rightarrow> string \<Rightarrow> string \<Rightarrow> string" where
  "stable_id e prefix host external =
     prefix @ ''-'' @ take 20 (hex_sha256 e (prefix @ [CHR 0x00] @ host @ [CHR 0x00] @ external))"

definition metadata_string :: "json \<Rightarrow> string \<Rightarrow> string option" where
  "metadata_string v key =
     (case v of JObj fs \<Rightarrow> (case map_of fs key of Some (JStr s) \<Rightarrow> Some s | _ \<Rightarrow> None) | _ \<Rightarrow> None)"

definition list_values :: "string \<Rightarrow> string list" where
  "list_values v = filter (\<lambda>x. x \<noteq> []) (map trim (split_on (CHR '','') v))"

fun json_text :: "json \<Rightarrow> string option" where
  "json_text (JStr s) = Some s"
| "json_text _ = None"

fun fact_display :: "json \<Rightarrow> string option" where
  "fact_display (JStr s) = Some s"
| "fact_display (JInt i) = Some (show_int i)"
| "fact_display (JBool b) = Some (if b then ''true'' else ''false'')"
| "fact_display (JArr vs) = (if length vs \<le> 6 then Some (join_with '', '' (List.map_filter json_text vs)) else None)"
| "fact_display _ = None"

definition facts_from_metadata :: "json \<Rightarrow> graph_fact list" where
  "facts_from_metadata metadata =
     (case metadata of
        JObj fs \<Rightarrow>
          take 6 (List.map_filter (\<lambda>key.
            case fact_display (the (map_of fs key)) of
              None \<Rightarrow> None
            | Some display \<Rightarrow>
                if display = [] then None
                else Some \<lparr>gf_label = map (\<lambda>c. if c = CHR ''_'' then CHR '' '' else c) key, gf_value = take_chars 160 display\<rparr>)
            (sort (remdups (map fst fs))))
      | _ \<Rightarrow> [])"

definition node_size :: "node_kind \<Rightarrow> f64 \<times> f64" where
  "node_size k =
     (if k \<in> {GkHost, GkProject} then (Fin 184, Fin 84)
      else if k \<in> {GkComposeProject, GkService} then (Fin 164, Fin 76)
      else (Fin 154, Fin 72))"

definition node_position :: "nat \<Rightarrow> node_kind \<Rightarrow> graph_position" where
  "node_position index k =
     (if k = GkHost then \<lparr>gp_x = Fin 48, gp_y = Fin 246\<rparr>
      else \<lparr>gp_x = f_add (Fin 260) (f_mul (f_of_nat (index mod 3)) (Fin 220)),
            gp_y = f_add (Fin 74) (f_mul (f_of_nat (index div 3)) (Fin 116))\<rparr>)"

definition evidence_refs :: "string \<Rightarrow> string \<Rightarrow> string \<Rightarrow> string list" where
  "evidence_refs run external source = [''discovery:'' @ run, ''evidence:'' @ external, source]"

record node_provenance =
  np_run :: string
  np_external_id :: string
  np_source :: string
  np_observed_at :: string
  np_metadata :: json
  np_index :: nat

definition text_original_name :: string where
  "text_original_name = utf8
     [229, 142, 159, 229, 167, 139, 229, 144, 141, 231, 167, 176]"

definition text_node_summary :: string where
  "text_node_summary = utf8
     [231, 148, 177, 231, 161, 174, 229, 174, 154, 230, 128, 167, 232, 167, 132, 229, 136, 153, 228, 187,
      142, 229, 143, 170, 232, 175, 187, 232, 175, 129, 230, 141, 174, 230, 152, 160, 229, 176, 132, 239,
      188, 155, 231, 148, 168, 230, 136, 183, 231, 161, 174, 232, 174, 164, 229, 137, 141, 228, 187, 133,
      228, 184, 186, 230, 156, 172, 229, 156, 176, 232, 141, 137, 231, 168, 191, 227, 128, 130]"

definition make_evidence_node ::
  "string \<Rightarrow> node_kind \<Rightarrow> string \<Rightarrow> string \<Rightarrow> string option \<Rightarrow> node_provenance \<Rightarrow> graph_node"
where
  "make_evidence_node i k label subtitle project p =
     (let facts = facts_from_metadata (np_metadata p)
      in \<lparr>gn_id = i, gn_kind = k, gn_label = label, gn_subtitle = Some subtitle, gn_state = PsDraft,
          gn_source_refs = evidence_refs (np_run p) (np_external_id p) (np_source p),
          gn_observed_at = Some (np_observed_at p), gn_position = node_position (np_index p) k,
          gn_width = fst (node_size k), gn_height = snd (node_size k), gn_summary = Some text_node_summary,
          gn_facts = (if list_ex (\<lambda>f. gf_label f = text_original_name) facts then facts
                      else \<lparr>gf_label = text_original_name, gf_value = label\<rparr> # facts),
          gn_project = project, gn_health = None\<rparr>)"

record builder =
  bd_nodes :: "graph_node list"
  bd_edges :: "graph_edge list"
  bd_usage :: "(string \<times> string) list"

definition knows :: "builder \<Rightarrow> string \<Rightarrow> bool" where
  "knows b i = (i \<in> set (map gn_id (bd_nodes b)))"

definition add_node :: "graph_node \<Rightarrow> builder \<Rightarrow> builder" where
  "add_node n b = (if knows b (gn_id n) then b else b\<lparr>bd_nodes := bd_nodes b @ [n]\<rparr>)"

definition edge_id :: "projection_env \<Rightarrow> string \<Rightarrow> string \<Rightarrow> relation_kind \<Rightarrow> string" where
  "edge_id e from to k = stable_id e ''edge'' from (to @ [CHR 0x00] @ relation_kind_name k)"

definition add_edge ::
  "projection_env \<Rightarrow> string \<Rightarrow> string \<Rightarrow> relation_kind \<Rightarrow> string \<Rightarrow> string list \<Rightarrow> builder \<Rightarrow> builder"
where
  "add_edge e from to k label refs b =
     (if edge_id e from to k \<in> set (map ge_id (bd_edges b)) then b
      else b\<lparr>bd_edges := bd_edges b @ [\<lparr>ge_id = edge_id e from to k, ge_from = from, ge_to = to, ge_kind = k,
               ge_label = label, ge_state = PsDraft, ge_source_refs = refs\<rparr>]\<rparr>)"

definition use_in :: "string \<Rightarrow> string option \<Rightarrow> builder \<Rightarrow> builder" where
  "use_in i project b = (case project of None \<Rightarrow> b | Some p \<Rightarrow> b\<lparr>bd_usage := (i, p) # bd_usage b\<rparr>)"

text \<open>What the steps of the mapping share: the run, the host and where an item comes from.\<close>

record mapping_context =
  mc_run :: string
  mc_host :: string

definition item_node ::
  "mapping_context \<Rightarrow> evidence_item \<Rightarrow> string \<Rightarrow> node_kind \<Rightarrow> string \<Rightarrow> string \<Rightarrow> string option \<Rightarrow> builder \<Rightarrow> graph_node"
where
  "item_node c item i k label subtitle project b =
     make_evidence_node i k label subtitle project
       \<lparr>np_run = mc_run c, np_external_id = evi_external_id item, np_source = evi_source item,
        np_observed_at = evi_observed_at item, np_metadata = evi_metadata item, np_index = length (bd_nodes b)\<rparr>"

definition item_refs :: "mapping_context \<Rightarrow> evidence_item \<Rightarrow> string list" where
  "item_refs c item = evidence_refs (mc_run c) (evi_external_id item) (evi_source item)"

definition or_external :: "evidence_item \<Rightarrow> string option \<Rightarrow> string" where
  "or_external item v = (case v of Some x \<Rightarrow> x | None \<Rightarrow> evi_external_id item)"

definition or_empty :: "string option \<Rightarrow> string" where
  "or_empty v = (case v of Some x \<Rightarrow> x | None \<Rightarrow> [])"

subsection \<open>Host, systemd units and projects\<close>

definition map_host :: "mapping_context \<Rightarrow> discovery_evidence \<Rightarrow> builder \<Rightarrow> builder" where
  "map_host c ev b =
     add_node (make_evidence_node (mc_host c) GkHost (de_address ev) ''Linux HOST'' None
       \<lparr>np_run = mc_run c, np_external_id = mc_host c, np_source = ''ssh:host'', np_observed_at = de_started_at ev,
        np_metadata = (case de_host_facts ev of item # _ \<Rightarrow> evi_metadata item | [] \<Rightarrow> JObj [(''os'', JStr (de_os ev))]),
        np_index = 0\<rparr>) b"

definition text_systemd_edge :: string where
  "text_systemd_edge = utf8
     [229, 143, 145, 231, 142, 176, 32, 115, 121, 115, 116, 101, 109, 100, 32, 230, 156, 141, 229, 138,
      161]"

definition map_systemd_unit :: "projection_env \<Rightarrow> mapping_context \<Rightarrow> evidence_item \<Rightarrow> builder \<Rightarrow> builder" where
  "map_systemd_unit e c item b =
     (let label = or_external item (metadata_string (evi_metadata item) ''unit'');
          i = stable_id e ''systemd-unit'' (mc_host c) (evi_external_id item);
          active = or_empty (metadata_string (evi_metadata item) ''active'');
          sub = or_empty (metadata_string (evi_metadata item) ''sub'');
          node = (item_node c item i GkService label ''systemd service'' None b)\<lparr>gn_health := Some
            \<lparr>gh_label = (if sub = [] then active else active @ ''/'' @ sub),
             gh_tone = (if active = ''active'' then ''green'' else ''amber''),
             gh_activity = (if active = ''active'' then 1 else 0),
             gh_alerts = (if active \<noteq> ''active'' then 1 else 0), gh_updated = evi_observed_at item\<rparr>\<rparr>
      in add_edge e (mc_host c) i RkContains text_systemd_edge (item_refs c item) (add_node node b))"

definition project_names :: "discovery_evidence \<Rightarrow> string list" where
  "project_names ev =
     sort (remdups (List.map_filter (\<lambda>item. metadata_string (evi_metadata item) ''name'') (de_compose_projects ev)
       @ filter (\<lambda>n. n \<noteq> []) (List.map_filter (\<lambda>item. metadata_string (evi_metadata item) ''compose_project'') (de_containers ev))))"

definition project_id_of :: "projection_env \<Rightarrow> mapping_context \<Rightarrow> string \<Rightarrow> string" where
  "project_id_of e c name = stable_id e ''project'' (mc_host c) name"

definition projects_of :: "projection_env \<Rightarrow> mapping_context \<Rightarrow> discovery_evidence \<Rightarrow> (string \<times> string) list" where
  "projects_of e c ev = map (\<lambda>n. (n, project_id_of e c n)) (project_names ev)"

definition text_project_candidate :: string where
  "text_project_candidate = utf8
     [67, 111, 109, 112, 111, 115, 101, 32, 233, 161, 185, 231, 155, 174, 229, 128, 153, 233, 128, 137]"

definition text_project_edge :: string where
  "text_project_edge = utf8
     [229, 143, 145, 231, 142, 176, 233, 161, 185, 231, 155, 174]"

definition map_project :: "projection_env \<Rightarrow> mapping_context \<Rightarrow> discovery_evidence \<Rightarrow> string \<Rightarrow> builder \<Rightarrow> builder" where
  "map_project e c ev name b =
     (let i = project_id_of e c name;
          node = make_evidence_node i GkProject name text_project_candidate (Some i)
            \<lparr>np_run = mc_run c, np_external_id = i, np_source = ''deterministic:compose-project'',
             np_observed_at = de_started_at ev,
             np_metadata = JObj [(''compose_project'', JStr name), (''mapping'', JStr ''deterministic'')],
             np_index = length (bd_nodes b)\<rparr>
      in add_edge e (mc_host c) i RkContains text_project_edge [''discovery:'' @ mc_run c] (add_node node b))"

subsection \<open>Images, networks, volumes and compose files\<close>

type_synonym names = "string \<Rightarrow> string option"

definition map_image :: "projection_env \<Rightarrow> mapping_context \<Rightarrow> evidence_item \<Rightarrow> builder \<times> names \<Rightarrow> builder \<times> names" where
  "map_image e c item s =
     (case s of (b, by_name) \<Rightarrow>
        let repository = metadata_string (evi_metadata item) ''repository'';
            label = (case repository of
                       None \<Rightarrow> evi_external_id item
                     | Some r \<Rightarrow> if r \<noteq> ''<none>'' then r else evi_external_id item);
            tag = or_empty (metadata_string (evi_metadata item) ''tag'');
            display = (if tag = [] \<or> tag = ''<none>'' then label else label @ '':'' @ tag);
            i = stable_id e ''image'' (mc_host c) (evi_external_id item);
            by1 = by_name(label \<mapsto> i, display \<mapsto> i);
            by2 = (case metadata_string (evi_metadata item) ''id'' of None \<Rightarrow> by1 | Some raw \<Rightarrow> by1(raw \<mapsto> i))
        in (add_node (item_node c item i GkImage display ''Docker image'' None b) b, by2))"

definition map_named ::
  "projection_env \<Rightarrow> mapping_context \<Rightarrow> string \<Rightarrow> node_kind \<Rightarrow> string \<Rightarrow> evidence_item \<Rightarrow> builder \<times> names \<Rightarrow> builder \<times> names"
where
  "map_named e c prefix k subtitle item s =
     (case s of (b, by_name) \<Rightarrow>
        let label = or_external item (metadata_string (evi_metadata item) ''name'');
            i = stable_id e prefix (mc_host c) (evi_external_id item)
        in (add_node (item_node c item i k label subtitle None b) b, by_name(label \<mapsto> i)))"

definition text_compose_edge :: string where
  "text_compose_edge = utf8
     [229, 140, 133, 229, 144, 171, 32, 67, 111, 109, 112, 111, 115, 101]"

definition map_compose ::
  "projection_env \<Rightarrow> mapping_context \<Rightarrow> (string \<times> string) list \<Rightarrow> evidence_item \<Rightarrow> builder \<times> names \<Rightarrow> builder \<times> names"
where
  "map_compose e c projects item s =
     (case s of (b, by_name) \<Rightarrow>
        let name = or_external item (metadata_string (evi_metadata item) ''name'')
        in case map_of projects name of
             None \<Rightarrow> (b, by_name)
           | Some project \<Rightarrow>
               let i = stable_id e ''compose'' (mc_host c) (evi_external_id item);
                   b1 = use_in i (Some project) b;
                   b2 = add_node (item_node c item i GkComposeProject name ''Docker Compose'' (Some project) b1) b1
               in (add_edge e project i RkContains text_compose_edge (item_refs c item) b2, by_name(name \<mapsto> i)))"

definition health_by_container :: "discovery_evidence \<Rightarrow> names" where
  "health_by_container ev =
     fold (\<lambda>item m.
       case (metadata_string (evi_metadata item) ''container_id'', metadata_string (evi_metadata item) ''status'') of
         (Some i, Some s) \<Rightarrow> m(i \<mapsto> s)
       | _ \<Rightarrow> m) (de_health_checks ev) (\<lambda>_. None)"

subsection \<open>Containers\<close>

record mapping_names =
  mn_projects :: "(string \<times> string) list"
  mn_images :: names
  mn_networks :: names
  mn_volumes :: names
  mn_compose :: names
  mn_health :: names

definition text_service_edge :: string where
  "text_service_edge = utf8
     [229, 140, 133, 229, 144, 171, 230, 156, 141, 229, 138, 161]"

definition text_deploys_edge :: string where
  "text_deploys_edge = utf8
     [233, 131, 168, 231, 189, 178, 229, 174, 185, 229, 153, 168]"

definition text_unassigned_edge :: string where
  "text_unassigned_edge = utf8
     [229, 190, 133, 229, 189, 146, 231, 177, 187, 229, 174, 185, 229, 153, 168]"

definition text_image_edge :: string where
  "text_image_edge = utf8
     [228, 189, 191, 231, 148, 168, 233, 149, 156, 229, 131, 143]"

definition text_network_edge :: string where
  "text_network_edge = utf8
     [232, 191, 158, 230, 142, 165, 231, 189, 145, 231, 187, 156]"

definition text_volume_edge :: string where
  "text_volume_edge = utf8
     [230, 140, 130, 232, 189, 189, 229, 141, 183]"

definition text_port_edge :: string where
  "text_port_edge = utf8
     [230, 154, 180, 233, 156, 178, 231, 171, 175, 229, 143, 163]"

definition container_project :: "mapping_names \<Rightarrow> evidence_item \<Rightarrow> string option" where
  "container_project ns item =
     Option.bind (metadata_string (evi_metadata item) ''compose_project'') (map_of (mn_projects ns))"

definition container_node ::
  "projection_env \<Rightarrow> mapping_context \<Rightarrow> mapping_names \<Rightarrow> evidence_item \<Rightarrow> builder \<Rightarrow> graph_node"
where
  "container_node e c ns item b =
     (let external = or_external item (metadata_string (evi_metadata item) ''id'');
          name = (case metadata_string (evi_metadata item) ''name'' of Some n \<Rightarrow> n | None \<Rightarrow> external);
          node = item_node c item (stable_id e ''container'' (mc_host c) (evi_external_id item)) GkContainer name
            ''Docker container'' (container_project ns item) b
      in case mn_health ns external of
           None \<Rightarrow> node
         | Some status \<Rightarrow> node\<lparr>gn_health := Some
             \<lparr>gh_label = status, gh_tone = (if status = ''healthy'' then ''green'' else ''amber''), gh_activity = 0,
              gh_alerts = (if status \<noteq> ''healthy'' then 1 else 0), gh_updated = evi_observed_at item\<rparr>\<rparr>)"

text \<open>The service a container belongs to, with its node and the edge from its compose file or project.\<close>

definition map_service ::
  "projection_env \<Rightarrow> mapping_context \<Rightarrow> mapping_names \<Rightarrow> evidence_item \<Rightarrow> string \<Rightarrow> string \<Rightarrow> builder \<times> names
   \<Rightarrow> string \<times> builder \<times> names"
where
  "map_service e c ns item project service s =
     (case s of (b, services) \<Rightarrow>
        let key = project @ [CHR 0x00] @ service;
            i = (case services key of Some x \<Rightarrow> x | None \<Rightarrow> stable_id e ''service'' (mc_host c) (project @ '':'' @ service));
            b1 = use_in i (Some project) b
        in (i,
            (if knows b1 i then b1
             else
               let node = make_evidence_node i GkService service ''Compose service'' (Some project)
                     \<lparr>np_run = mc_run c, np_external_id = service, np_source = ''deterministic:compose-service'',
                      np_observed_at = evi_observed_at item, np_metadata = JObj [(''compose_service'', JStr service)],
                      np_index = length (bd_nodes b1)\<rparr>;
                   compose = (case Option.bind (metadata_string (evi_metadata item) ''compose_project'') (mn_compose ns) of
                                Some x \<Rightarrow> x | None \<Rightarrow> project)
               in add_edge e compose i RkContains text_service_edge (item_refs c item) (add_node node b1)),
            services(key \<mapsto> i)))"

definition link_image ::
  "projection_env \<Rightarrow> mapping_context \<Rightarrow> mapping_names \<Rightarrow> evidence_item \<Rightarrow> string \<Rightarrow> builder \<Rightarrow> builder"
where
  "link_image e c ns item container b =
     (case Option.bind (metadata_string (evi_metadata item) ''image'') (mn_images ns) of
        None \<Rightarrow> b
      | Some i \<Rightarrow>
          add_edge e container i RkUsesImage text_image_edge (item_refs c item) (use_in i (container_project ns item) b))"

definition link_named ::
  "projection_env \<Rightarrow> mapping_context \<Rightarrow> mapping_names \<Rightarrow> evidence_item \<Rightarrow> string \<Rightarrow> string \<Rightarrow> names \<Rightarrow> relation_kind \<Rightarrow> string
   \<Rightarrow> builder \<Rightarrow> builder"
where
  "link_named e c ns item container field by_name k label b =
     (case metadata_string (evi_metadata item) field of
        None \<Rightarrow> b
      | Some v \<Rightarrow>
          fold (\<lambda>name b. case by_name name of
              None \<Rightarrow> b
            | Some i \<Rightarrow> add_edge e container i k label (item_refs c item) (use_in i (container_project ns item) b))
            (list_values v) b)"

definition link_ports ::
  "projection_env \<Rightarrow> mapping_context \<Rightarrow> mapping_names \<Rightarrow> evidence_item \<Rightarrow> string \<Rightarrow> builder \<Rightarrow> builder"
where
  "link_ports e c ns item container b =
     (case metadata_string (evi_metadata item) ''ports'' of
        None \<Rightarrow> b
      | Some v \<Rightarrow>
          fold (\<lambda>port b.
            let external = or_external item (metadata_string (evi_metadata item) ''id'');
                i = stable_id e ''port'' (mc_host c) (external @ '':'' @ port);
                b1 = use_in i (container_project ns item) b;
                b2 = (if knows b1 i then b1
                      else add_node (make_evidence_node i GkPort port ''Published port'' (container_project ns item)
                        \<lparr>np_run = mc_run c, np_external_id = port, np_source = evi_source item,
                         np_observed_at = evi_observed_at item,
                         np_metadata = JObj [(''binding'', JStr port), (''container_id'', JStr external)],
                         np_index = length (bd_nodes b1)\<rparr>) b1)
            in add_edge e container i RkExposes text_port_edge (item_refs c item) b2) (list_values v) b)"

definition map_container ::
  "projection_env \<Rightarrow> mapping_context \<Rightarrow> mapping_names \<Rightarrow> evidence_item \<Rightarrow> builder \<times> names \<Rightarrow> builder \<times> names"
where
  "map_container e c ns item s =
     (case s of (b, services) \<Rightarrow>
        let project = container_project ns item;
            service = (case metadata_string (evi_metadata item) ''compose_service'' of
                         Some v \<Rightarrow> if v \<noteq> [] then Some v else None | None \<Rightarrow> None);
            container = stable_id e ''container'' (mc_host c) (evi_external_id item);
            b1 = use_in container project b;
            b2 = add_node (container_node e c ns item b1) b1;
            (parent, b3, services') =
              (case (project, service) of
                 (Some p, Some v) \<Rightarrow> (case map_service e c ns item p v (b2, services) of (i, x) \<Rightarrow> (Some i, x))
               | _ \<Rightarrow> (project, b2, services));
            b4 = (case parent of
                    Some p \<Rightarrow> add_edge e p container RkDeploys text_deploys_edge (item_refs c item) b3
                  | None \<Rightarrow> add_edge e (mc_host c) container RkContains text_unassigned_edge (item_refs c item) b3);
            b5 = link_image e c ns item container b4;
            b6 = link_named e c ns item container ''networks'' (mn_networks ns) RkConnectsTo text_network_edge b5;
            b7 = link_named e c ns item container ''mounts'' (mn_volumes ns) RkMounts text_volume_edge b6
        in (link_ports e c ns item container b7, services'))"

subsection \<open>Documents, and the whole mapping\<close>

definition text_document :: string where
  "text_document = utf8
     [233, 161, 185, 231, 155, 174, 230, 150, 135, 230, 161, 163]"

definition map_document ::
  "projection_env \<Rightarrow> mapping_context \<Rightarrow> string option \<Rightarrow> evidence_item \<Rightarrow> builder \<Rightarrow> builder"
where
  "map_document e c sole item b =
     (let label = or_external item (metadata_string (evi_metadata item) ''relative_path'');
          i = stable_id e ''document'' (mc_host c) (evi_external_id item);
          b1 = use_in i sole b;
          b2 = add_node (item_node c item i GkDocument label text_document sole b1) b1
      in add_edge e (case sole of Some p \<Rightarrow> p | None \<Rightarrow> mc_host c) i RkDocuments text_document (item_refs c item) b2)"

definition settle_node :: "(string \<times> string) list \<Rightarrow> string set \<Rightarrow> graph_node \<Rightarrow> graph_node" where
  "settle_node usages ignored n =
     (let used = remdups (map snd (filter (\<lambda>u. fst u = gn_id n) usages));
          n1 = (if used = [] then n else n\<lparr>gn_project := (if length used = 1 then Some (hd used) else None)\<rparr>)
      in if gn_id n1 \<in> ignored then n1\<lparr>gn_state := PsArchived\<rparr> else n1)"

definition archived_ids :: "graph_node list \<Rightarrow> string set" where
  "archived_ids ns = gn_id ` set (filter (\<lambda>n. gn_state n = PsArchived) ns)"

definition settle_edge :: "string set \<Rightarrow> graph_edge \<Rightarrow> graph_edge" where
  "settle_edge archived x =
     (if ge_from x \<in> archived \<or> ge_to x \<in> archived then x\<lparr>ge_state := PsArchived\<rparr> else x)"

definition no_names :: names where
  "no_names = (\<lambda>_. None)"

definition built :: "projection_env \<Rightarrow> string \<Rightarrow> string \<Rightarrow> discovery_evidence \<Rightarrow> builder" where
  "built e run host ev =
     (let c = \<lparr>mc_run = run, mc_host = host\<rparr>;
          projects = projects_of e c ev;
          b0 = map_host c ev \<lparr>bd_nodes = [], bd_edges = [], bd_usage = []\<rparr>;
          b1 = fold (map_systemd_unit e c) (de_systemd_units ev) b0;
          b2 = fold (map_project e c ev) (project_names ev) b1;
          (b3, images) = fold (map_image e c) (de_images ev) (b2, no_names);
          (b4, networks) = fold (map_named e c ''network'' GkNetwork ''Docker network'') (de_networks ev) (b3, no_names);
          (b5, volumes) = fold (map_named e c ''volume'' GkVolume ''Docker volume'') (de_volumes ev) (b4, no_names);
          (b6, compose) = fold (map_compose e c projects) (de_compose_projects ev) (b5, no_names);
          ns = \<lparr>mn_projects = projects, mn_images = images, mn_networks = networks, mn_volumes = volumes,
                mn_compose = compose, mn_health = health_by_container ev\<rparr>;
          (b7, services) = fold (map_container e c ns) (de_containers ev) (b6, no_names);
          sole = (case projects of [p] \<Rightarrow> Some (snd p) | _ \<Rightarrow> None)
      in fold (map_document e c sole) (de_document_candidates ev) b7)"

definition map_evidence ::
  "projection_env \<Rightarrow> string \<Rightarrow> string \<Rightarrow> string \<Rightarrow> discovery_evidence \<Rightarrow> string set \<Rightarrow> graph_snapshot"
where
  "map_evidence e draft run host ev ignored =
     (let b = built e run host ev;
          nodes = map (settle_node (bd_usage b) ignored) (bd_nodes b)
      in \<lparr>sn_focus = (ScopeGlobal, ''workspace-default''), sn_nodes = nodes,
          sn_edges = map (settle_edge (archived_ids nodes)) (bd_edges b),
          sn_layout = \<lparr>cl_layout_id = ''layout-'' @ draft, cl_scope = ''host:'' @ host, cl_revision = 1\<rparr>\<rparr>)"

end
