(* ===== verification/DiscoveryDiff.thy ===== *)
theory DiscoveryDiff
  imports EvidenceMapping Store
begin

text \<open>
  The tables of discovery and projection, and \<open>backend/src/discovery_diff.rs\<close>: the difference of a scan to the
  last one of its host, stored once per run. A \<open>BTreeMap\<close> of evidence is the list of its entries in key order.
  A JSON column holds its value; \<open>evidence\<close> of a run that cannot be parsed is not modelled, since the same
  program wrote it. Text columns with a time are whole seconds.
\<close>

subsection \<open>Tables\<close>

datatype change_kind = ChAdded | ChChanged | ChMissing | ChConflict | ChUnchanged

record diff_item =
  di_key :: string
  di_kind :: evidence_kind
  di_external_id :: string
  di_change :: change_kind
  di_summary :: string
  di_previous_sha256 :: "string option"
  di_current_sha256 :: "string option"
  di_evidence_refs :: "string list"

record diff_counts =
  dc_added :: nat
  dc_changed :: nat
  dc_missing :: nat
  dc_conflict :: nat
  dc_unchanged :: nat

record scan_row =
  scn_id :: string
  scn_host :: string
  scn_state :: discovery_state
  scn_submitted_at :: secs
  scn_finished_at :: "secs option"
  scn_evidence :: "discovery_evidence option"
  scn_draft :: "string option"
  scn_diff :: "string option"

record diff_row =
  dif_id :: string
  dif_run :: string
  dif_host :: string
  dif_previous_run :: "string option"
  dif_counts :: diff_counts
  dif_items :: "diff_item list"
  dif_created_at :: secs

datatype draft_state = DsDraft | DsConfirmed | DsArchived

record draft_row =
  drf_id :: string
  drf_run :: string
  drf_host :: string
  drf_base_revision :: int
  drf_revision :: int
  drf_state :: draft_state
  drf_pending_changes :: int
  drf_snapshot :: graph_snapshot
  drf_created_at :: secs
  drf_updated_at :: secs

record published_row =
  pub_id :: string
  pub_draft :: string
  pub_host :: string
  pub_revision :: int
  pub_confirmed_at :: secs
  pub_snapshot :: graph_snapshot

record layout_row =
  lay_id :: string
  lay_scope :: string
  lay_revision :: int
  lay_positions :: "(string \<times> graph_position) list"
  lay_updated_at :: secs

record rule_row =
  rul_id :: string
  rul_host :: string
  rul_fingerprint :: string
  rul_state :: string
  rul_created_at :: secs
  rul_updated_at :: secs

text \<open>What a stored response holds: a draft, a published version or a layout, with the meta data.\<close>

record draft_view =
  dv_draft :: string
  dv_run :: string
  dv_host :: string
  dv_base_revision :: int
  dv_revision :: int
  dv_state :: projection_state
  dv_pending_changes :: nat
  dv_updated_at :: secs
  dv_snapshot :: graph_snapshot

record layout_view =
  lv_layout :: string
  lv_revision :: int
  lv_positions :: "(string \<times> graph_position) list"

datatype projection_response =
    DraftResponse draft_view api_meta
  | VersionResponse published_row api_meta
  | LayoutResponse layout_view api_meta

record mutation_row =
  mut_id :: string
  mut_kind :: string
  mut_resource :: string
  mut_key :: string
  mut_sha :: string
  mut_response :: projection_response
  mut_created_at :: secs

record projection_db =
  pj_hosts :: "string list"
  pj_scans :: "scan_row list"
  pj_diffs :: "diff_row list"
  pj_drafts :: "draft_row list"
  pj_published :: "published_row list"
  pj_layouts :: "layout_row list"
  pj_rules :: "rule_row list"
  pj_mutations :: "mutation_row list"

datatype projection_error =
    PBadRequest nat string
  | PNotFound string string
  | PConflict nat string
  | PStorage
  | PInternal

fun projection_error_response :: "projection_error \<Rightarrow> nat \<times> string" where
  "projection_error_response (PBadRequest status code) = (status, code)"
| "projection_error_response (PNotFound resource i) = (404, ''NOT_FOUND'')"
| "projection_error_response (PConflict status code) = (status, code)"
| "projection_error_response PStorage = (503, ''STORAGE_UNAVAILABLE'')"
| "projection_error_response PInternal = (500, ''INTERNAL_ERROR'')"

subsection \<open>Comparing two scans\<close>

definition evidence_key :: "evidence_item \<Rightarrow> string" where
  "evidence_key item = evidence_kind_name (evi_kind item) @ '':'' @ evi_external_id item"

definition evidence_digest :: "projection_env \<Rightarrow> evidence_item \<Rightarrow> string" where
  "evidence_digest e item = hex_sha256 e (evidence_json e item)"

definition evidence_map :: "discovery_evidence \<Rightarrow> (string \<times> evidence_item) list" where
  "evidence_map ev = bt_collect (map (\<lambda>item. (evidence_key item, item)) (evidence_items ev))"

definition matching_node :: "graph_snapshot \<Rightarrow> string \<Rightarrow> graph_node option" where
  "matching_node s external = find (\<lambda>n. list_ex (\<lambda>r. r = ''evidence:'' @ external) (gn_source_refs n)) (sn_nodes s)"

definition text_ignored_again :: string where
  "text_ignored_again = utf8
     [229, 183, 178, 229, 191, 189, 231, 149, 165, 229, 175, 185, 232, 177, 161, 229, 134, 141, 230, 172,
      161, 229, 135, 186, 231, 142, 176, 229, 156, 168, 230, 137, 171, 230, 143, 143, 228, 186, 139, 229,
      174, 158, 228, 184, 173]"

definition text_archived_again :: string where
  "text_archived_again = utf8
     [229, 183, 178, 229, 189, 146, 230, 161, 163, 229, 175, 185, 232, 177, 161, 229, 134, 141, 230, 172,
      161, 229, 135, 186, 231, 142, 176, 229, 156, 168, 230, 137, 171, 230, 143, 143, 228, 186, 139, 229,
      174, 158, 228, 184, 173]"

definition text_other_name :: string where
  "text_other_name = utf8
     [229, 164, 150, 233, 131, 168, 228, 186, 139, 229, 174, 158, 229, 144, 141, 231, 167, 176, 228, 184,
      142, 231, 148, 168, 230, 136, 183, 231, 161, 174, 232, 174, 164, 229, 144, 141, 231, 167, 176, 228,
      184, 141, 229, 144, 140]"

definition text_other_project :: string where
  "text_other_project = utf8
     [231, 161, 174, 229, 174, 154, 230, 128, 167, 229, 189, 146, 231, 177, 187, 228, 184, 142, 231, 148,
      168, 230, 136, 183, 231, 161, 174, 232, 174, 164, 229, 189, 146, 231, 177, 187, 228, 184, 141, 229,
      144, 140]"

definition text_added :: string where
  "text_added = utf8
     [230, 156, 172, 230, 172, 161, 230, 137, 171, 230, 143, 143, 230, 150, 176, 229, 162, 158, 228, 186,
      139, 229, 174, 158]"

definition text_missing :: string where
  "text_missing = utf8
     [230, 173, 164, 229, 137, 141, 228, 186, 139, 229, 174, 158, 230, 156, 172, 230, 172, 161, 230, 156,
      170, 229, 134, 141, 232, 167, 130, 229, 175, 159, 229, 136, 176, 239, 188, 155, 230, 156, 172, 229,
      156, 176, 230, 138, 149, 229, 189, 177, 230, 156, 170, 229, 136, 160, 233, 153, 164]"

definition text_unchanged :: string where
  "text_unchanged = utf8
     [228, 186, 139, 229, 174, 158, 230, 156, 170, 229, 143, 152, 229, 140, 150]"

definition text_changed :: string where
  "text_changed = utf8
     [231, 187, 147, 230, 158, 132, 229, 140, 150, 228, 186, 139, 229, 174, 158, 229, 143, 145, 231, 148,
      159, 229, 143, 152, 229, 140, 150]"

definition confirmed_conflict ::
  "evidence_item \<Rightarrow> graph_snapshot \<Rightarrow> graph_snapshot option \<Rightarrow> string option"
where
  "confirmed_conflict item deterministic confirmed =
     (case matching_node deterministic (evi_external_id item) of
        None \<Rightarrow> None
      | Some current \<Rightarrow>
          if gn_state current = PsArchived then Some text_ignored_again
          else case Option.bind confirmed (\<lambda>s. find (\<lambda>n. gn_id n = gn_id current) (sn_nodes s)) of
                 None \<Rightarrow> None
               | Some c \<Rightarrow>
                   if gn_state c = PsArchived then Some text_archived_again
                   else if gn_label c \<noteq> gn_label current then Some text_other_name
                   else if gn_project c \<noteq> gn_project current then Some text_other_project
                   else None)"

definition no_counts :: diff_counts where
  "no_counts = \<lparr>dc_added = 0, dc_changed = 0, dc_missing = 0, dc_conflict = 0, dc_unchanged = 0\<rparr>"

fun increment :: "change_kind \<Rightarrow> diff_counts \<Rightarrow> diff_counts" where
  "increment ChAdded c = c\<lparr>dc_added := dc_added c + 1\<rparr>"
| "increment ChChanged c = c\<lparr>dc_changed := dc_changed c + 1\<rparr>"
| "increment ChMissing c = c\<lparr>dc_missing := dc_missing c + 1\<rparr>"
| "increment ChConflict c = c\<lparr>dc_conflict := dc_conflict c + 1\<rparr>"
| "increment ChUnchanged c = c\<lparr>dc_unchanged := dc_unchanged c + 1\<rparr>"

text \<open>The change of one key, with the text for it and the item that stands for it.\<close>

definition classify ::
  "projection_env \<Rightarrow> evidence_item option \<Rightarrow> evidence_item option \<Rightarrow> string option
   \<Rightarrow> (change_kind \<times> string \<times> evidence_item) option"
where
  "classify e previous current conflict =
     (case (previous, current, conflict) of
        (_, Some c, Some summary) \<Rightarrow> Some (ChConflict, summary, c)
      | (None, Some c, None) \<Rightarrow> Some (ChAdded, text_added, c)
      | (Some p, None, _) \<Rightarrow> Some (ChMissing, text_missing, p)
      | (Some p, Some c, None) \<Rightarrow>
          if map_option (evidence_digest e) previous = map_option (evidence_digest e) current
          then Some (ChUnchanged, text_unchanged, c) else Some (ChChanged, text_changed, c)
      | (None, None, _) \<Rightarrow> None)"

definition diff_item_of ::
  "projection_env \<Rightarrow> string \<Rightarrow> string option \<Rightarrow> (string \<times> evidence_item) list \<Rightarrow> (string \<times> evidence_item) list
   \<Rightarrow> graph_snapshot \<Rightarrow> graph_snapshot option \<Rightarrow> string \<Rightarrow> diff_item option"
where
  "diff_item_of e run previous_run previous_map current_map deterministic confirmed key =
     (let previous = map_of previous_map key; current = map_of current_map key;
          conflict = Option.bind current (\<lambda>item. confirmed_conflict item deterministic confirmed)
      in map_option (\<lambda>(change, summary, item).
           \<lparr>di_key = key, di_kind = evi_kind item, di_external_id = evi_external_id item, di_change = change,
            di_summary = summary, di_previous_sha256 = map_option (evidence_digest e) previous,
            di_current_sha256 = map_option (evidence_digest e) current,
            di_evidence_refs = (case previous_run of None \<Rightarrow> [] | Some r \<Rightarrow> [''discovery:'' @ r])
              @ (if current \<noteq> None then [''discovery:'' @ run] else []) @ [''evidence:'' @ evi_external_id item]\<rparr>)
         (classify e previous current conflict))"

definition diff_items ::
  "projection_env \<Rightarrow> string \<Rightarrow> string option \<Rightarrow> (string \<times> evidence_item) list \<Rightarrow> (string \<times> evidence_item) list
   \<Rightarrow> graph_snapshot \<Rightarrow> graph_snapshot option \<Rightarrow> diff_item list"
where
  "diff_items e run previous_run previous_map current_map deterministic confirmed =
     List.map_filter (diff_item_of e run previous_run previous_map current_map deterministic confirmed)
       (sort (remdups (map fst previous_map @ map fst current_map)))"

definition count_changes :: "diff_item list \<Rightarrow> diff_counts" where
  "count_changes items = fold (\<lambda>i. increment (di_change i)) items no_counts"

subsection \<open>The previous scan and the stored difference\<close>

text \<open>
  The scan of the host with evidence that finished last; \<open>NULL\<close> orders before all times, and among equals the
  one inserted last is taken.
\<close>

definition has_evidence :: "scan_row \<Rightarrow> bool" where
  "has_evidence r = (scn_state r \<in> {EvidenceReady, DiscoveryComplete, DiscoveryPartial} \<and> scn_evidence r \<noteq> None)"

definition finish_order :: "scan_row \<Rightarrow> bool \<times> secs \<times> secs" where
  "finish_order r = (scn_finished_at r \<noteq> None, (case scn_finished_at r of Some t \<Rightarrow> t | None \<Rightarrow> 0), scn_submitted_at r)"

definition previous_scan :: "projection_db \<Rightarrow> string \<Rightarrow> string \<Rightarrow> scan_row option" where
  "previous_scan d host run =
     (case rev (sort_key finish_order (filter (\<lambda>r. scn_host r = host \<and> scn_id r \<noteq> run \<and> has_evidence r) (pj_scans d))) of
        [] \<Rightarrow> None
      | r # _ \<Rightarrow> Some r)"

definition diff_id_of :: "projection_env \<Rightarrow> string \<Rightarrow> string" where
  "diff_id_of e run = ''diff-'' @ take 24 (hex_sha256 e run)"

definition insert_diff :: "diff_row \<Rightarrow> projection_db \<Rightarrow> projection_error + projection_db" where
  "insert_diff x d =
     (if \<exists>y \<in> set (pj_diffs d). dif_id y = dif_id x \<or> dif_run y = dif_run x then Inl PStorage
      else if dif_run x \<notin> set (map scn_id (pj_scans d)) \<or> dif_host x \<notin> set (pj_hosts d)
              \<or> \<not> pred_option (\<lambda>p. p \<in> set (map scn_id (pj_scans d))) (dif_previous_run x)
      then Inl PStorage
      else Inr (d\<lparr>pj_diffs := pj_diffs d @ [x]\<rparr>))"

definition create_discovery_diff_in ::
  "projection_env \<Rightarrow> string \<Rightarrow> string \<Rightarrow> discovery_evidence \<Rightarrow> graph_snapshot \<Rightarrow> graph_snapshot option \<Rightarrow> secs
   \<Rightarrow> projection_db \<Rightarrow> projection_error + string \<times> projection_db"
where
  "create_discovery_diff_in e run host ev deterministic confirmed created_at d =
     (case select_one (\<lambda>x. dif_run x = run) (pj_diffs d) of
        Some x \<Rightarrow> Inr (dif_id x, d)
      | None \<Rightarrow>
          let previous = previous_scan d host run;
              previous_map = (case Option.bind previous scn_evidence of None \<Rightarrow> [] | Some p \<Rightarrow> evidence_map p);
              items = diff_items e run (map_option scn_id previous) previous_map (evidence_map ev) deterministic confirmed;
              i = diff_id_of e run
          in and_then (insert_diff \<lparr>dif_id = i, dif_run = run, dif_host = host,
                 dif_previous_run = map_option scn_id previous, dif_counts = count_changes items, dif_items = items,
                 dif_created_at = created_at\<rparr> d) (\<lambda>d1.
             Inr (i, d1\<lparr>pj_scans := update_rows (\<lambda>r. scn_id r = run) (\<lambda>r. r\<lparr>scn_diff := Some i\<rparr>) (pj_scans d1)\<rparr>)))"

definition load_diff :: "projection_db \<Rightarrow> string \<Rightarrow> projection_error + diff_row" where
  "load_diff d run =
     ok_or (PNotFound ''discovery_diff'' run) (select_one (\<lambda>x. dif_run x = run) (pj_diffs d))"

end
