(* ===== verification/Projection.thy ===== *)
theory Projection
  imports DiscoveryDiff Rollup Http
begin

text \<open>
  The drafts of \<open>backend/src/projection.rs\<close>: the patch operations on a graph, the overlay of what a user
  confirmed on a new scan, and the creation of a draft from evidence. An \<open>_in\<close> function runs inside a
  transaction of its caller; its error is the caller's, which then leaves the tables as they were. Revisions
  stay below \<open>2^63\<close>.
\<close>

definition MAX_LABEL_CHARS :: nat where
  "MAX_LABEL_CHARS = 120"

definition MAX_OPERATIONS :: nat where
  "MAX_OPERATIONS = 128"

subsection \<open>Headers and checks\<close>

definition require_key :: "headers \<Rightarrow> projection_error + string" where
  "require_key h = ok_or (PBadRequest 400 ''IDEMPOTENCY_KEY_REQUIRED'') (idempotency_key h)"

text \<open>\<open>If-Match\<close>: \<open>"revision-N"\<close>, or a bare number.\<close>

definition require_if_match :: "headers \<Rightarrow> projection_error + int" where
  "require_if_match h =
     (case header_str h ''if-match'' of
        None \<Rightarrow> Inl (PBadRequest 428 ''IF_MATCH_REQUIRED'')
      | Some v \<Rightarrow>
          let normalized = trim_matches (CHR 0x22) (trim v)
          in case parse_i64 (case strip_prefix ''revision-'' normalized of Some n \<Rightarrow> n | None \<Rightarrow> normalized) of
               None \<Rightarrow> Inl (PBadRequest 400 ''INVALID_IF_MATCH'')
             | Some r \<Rightarrow> if 0 \<le> r then Inr r else Inl (PBadRequest 400 ''INVALID_IF_MATCH''))"

definition projection_meta :: "string \<Rightarrow> int \<Rightarrow> secs \<Rightarrow> api_meta" where
  "projection_meta rid revision generated =
     \<lparr>meta_request_id = rid, meta_revision = revision, meta_generated_at = generated, meta_freshness = Fresh\<rparr>"

definition valid_local_id :: "string \<Rightarrow> bool" where
  "valid_local_id v =
     (1 \<le> length v \<and> length v \<le> 96 \<and> list_all (\<lambda>c. is_alnum_char c \<or> c \<in> {CHR ''-'', CHR ''_''}) v)"

definition valid_label :: "string \<Rightarrow> bool" where
  "valid_label v =
     (1 \<le> char_count (trim v) \<and> char_count (trim v) \<le> MAX_LABEL_CHARS \<and> list_all (\<lambda>c. \<not> is_ascii_control c) v)"

definition valid_position :: "graph_position \<Rightarrow> bool" where
  "valid_position p =
     (f_is_finite (gp_x p) \<and> f_is_finite (gp_y p)
      \<and> \<not> f_lt (Fin 100000) (f_abs (gp_x p)) \<and> \<not> f_lt (Fin 100000) (f_abs (gp_y p)))"

subsection \<open>Operations on a graph\<close>

text \<open>\<open>iter_mut().find(\<dots>)\<close>: the first element that matches is changed, if there is one.\<close>

fun update_first :: "('a \<Rightarrow> bool) \<Rightarrow> ('a \<Rightarrow> 'e + 'a) \<Rightarrow> 'e \<Rightarrow> 'a list \<Rightarrow> 'e + 'a list" where
  "update_first P f e [] = Inl e"
| "update_first P f e (x # xs) =
     (if P x then and_then (f x) (\<lambda>y. Inr (y # xs))
      else and_then (update_first P f e xs) (\<lambda>ys. Inr (x # ys)))"

definition update_node ::
  "string \<Rightarrow> (graph_node \<Rightarrow> projection_error + graph_node) \<Rightarrow> graph_snapshot \<Rightarrow> projection_error + graph_snapshot"
where
  "update_node i f s =
     and_then (update_first (\<lambda>n. gn_id n = i) f (PNotFound ''projection_node'' i) (sn_nodes s))
       (\<lambda>ns. Inr (s\<lparr>sn_nodes := ns\<rparr>))"

definition set_edge_states :: "(graph_edge \<Rightarrow> bool) \<Rightarrow> projection_state \<Rightarrow> graph_snapshot \<Rightarrow> graph_snapshot" where
  "set_edge_states P st s = s\<lparr>sn_edges := map (\<lambda>x. if P x then x\<lparr>ge_state := st\<rparr> else x) (sn_edges s)\<rparr>"

definition touches :: "string \<Rightarrow> graph_edge \<Rightarrow> bool" where
  "touches i x = (ge_from x = i \<or> ge_to x = i)"

definition active_ids :: "graph_snapshot \<Rightarrow> string set" where
  "active_ids s = gn_id ` set (filter (\<lambda>n. gn_state n \<noteq> PsArchived) (sn_nodes s))"

definition text_project_summary :: string where
  "text_project_summary = utf8
     [231, 148, 168, 230, 136, 183, 229, 156, 168, 230, 156, 172, 229, 156, 176, 232, 141, 137, 231, 168,
      191, 228, 184, 173, 229, 136, 155, 229, 187, 186, 231, 154, 132, 233, 161, 185, 231, 155, 174, 232,
      190, 185, 231, 149, 140, 227, 128, 130]"

definition text_declaration :: string where
  "text_declaration = utf8
     [229, 163, 176, 230, 152, 142]"

definition new_project :: "string \<Rightarrow> string \<Rightarrow> string \<Rightarrow> string \<Rightarrow> nat \<Rightarrow> graph_node" where
  "new_project draft i label subtitle index =
     \<lparr>gn_id = i, gn_kind = GkProject, gn_label = trim label, gn_subtitle = Some (trim subtitle), gn_state = PsDraft,
      gn_source_refs = [''user:draft:'' @ draft], gn_observed_at = None, gn_position = node_position index GkProject,
      gn_width = fst (node_size GkProject), gn_height = snd (node_size GkProject), gn_summary = Some text_project_summary,
      gn_facts = [\<lparr>gf_label = text_declaration, gf_value = ''user_declared''\<rparr>], gn_project = Some i, gn_health = None\<rparr>"

fun apply_operation ::
  "projection_env \<Rightarrow> string \<Rightarrow> patch_operation \<Rightarrow> graph_snapshot \<Rightarrow> projection_error + graph_snapshot"
where
  "apply_operation e draft (Rename i label) s =
     (if \<not> valid_label label then Inl (PBadRequest 400 ''INVALID_LABEL'')
      else update_node i (\<lambda>n. Inr (n\<lparr>gn_label := trim label, gn_state := PsDraft\<rparr>)) s)"
| "apply_operation e draft (Move i p) s =
     (if \<not> valid_position p then Inl (PBadRequest 400 ''INVALID_POSITION'')
      else update_node i (\<lambda>n. Inr (n\<lparr>gn_position := p\<rparr>)) s)"
| "apply_operation e draft (AssignProject i project) s =
     (if \<not> pred_option (\<lambda>p. list_ex (\<lambda>n. gn_id n = p \<and> gn_kind n = GkProject) (sn_nodes s)) project
      then Inl (PNotFound ''project'' (the project))
      else update_node i (\<lambda>n. if gn_kind n \<in> {GkHost, GkWorkspace} then Inl (PBadRequest 400 ''NODE_NOT_ASSIGNABLE'')
             else Inr (n\<lparr>gn_project := project, gn_state := PsDraft\<rparr>)) s)"
| "apply_operation e draft (CreateProject i label subtitle) s =
     (if \<not> valid_local_id i \<or> \<not> valid_label label \<or> 240 < char_count subtitle
      then Inl (PBadRequest 400 ''INVALID_PROJECT'')
      else if list_ex (\<lambda>n. gn_id n = i) (sn_nodes s) then Inl (PConflict 409 ''PROJECT_ALREADY_EXISTS'')
      else Inr (s\<lparr>sn_nodes := sn_nodes s @ [new_project draft i label subtitle (length (sn_nodes s))]\<rparr>))"
| "apply_operation e draft (AddRelation from to k label) s =
     (if from = to \<or> \<not> valid_label label then Inl (PBadRequest 400 ''INVALID_RELATION'')
      else if \<not> list_ex (\<lambda>n. gn_id n = from) (sn_nodes s) then Inl (PNotFound ''projection_node'' from)
      else if \<not> list_ex (\<lambda>n. gn_id n = to) (sn_nodes s) then Inl (PNotFound ''projection_node'' to)
      else if list_ex (\<lambda>x. ge_id x = edge_id e from to k) (sn_edges s) then Inl (PConflict 409 ''RELATION_ALREADY_EXISTS'')
      else Inr (s\<lparr>sn_edges := sn_edges s @ [\<lparr>ge_id = edge_id e from to k, ge_from = from, ge_to = to, ge_kind = k,
                   ge_label = trim label, ge_state = PsDraft, ge_source_refs = [''user:draft:'' @ draft]\<rparr>]\<rparr>))"
| "apply_operation e draft (RemoveRelation i) s =
     (let edges = filter (\<lambda>x. ge_id x \<noteq> i) (sn_edges s)
      in if length edges = length (sn_edges s) then Inl (PNotFound ''projection_edge'' i)
         else Inr (s\<lparr>sn_edges := edges\<rparr>))"
| "apply_operation e draft (ArchiveNode i) s =
     and_then (update_node i (\<lambda>n. Inr (n\<lparr>gn_state := PsArchived\<rparr>)) s)
       (\<lambda>s1. Inr (set_edge_states (touches i) PsArchived s1))"
| "apply_operation e draft (RestoreNode i) s =
     and_then (update_node i (\<lambda>n. Inr (n\<lparr>gn_state := PsDraft\<rparr>)) s)
       (\<lambda>s1. Inr (set_edge_states (\<lambda>x. ge_from x \<in> active_ids s1 \<and> ge_to x \<in> active_ids s1) PsDraft s1))"

fun apply_operations ::
  "projection_env \<Rightarrow> string \<Rightarrow> patch_operation list \<Rightarrow> graph_snapshot \<Rightarrow> projection_error + graph_snapshot"
where
  "apply_operations e draft [] s = Inr s"
| "apply_operations e draft (op # ops) s = and_then (apply_operation e draft op s) (apply_operations e draft ops)"

definition operations_allowed :: "patch_operation list \<Rightarrow> bool" where
  "operations_allowed ops = (ops \<noteq> [] \<and> length ops \<le> MAX_OPERATIONS)"

definition validate_projection_operations ::
  "projection_env \<Rightarrow> graph_snapshot \<Rightarrow> string \<Rightarrow> patch_operation list \<Rightarrow> projection_error + graph_snapshot"
where
  "validate_projection_operations e s draft ops =
     (if \<not> operations_allowed ops then Inl (PBadRequest 400 ''INVALID_OPERATIONS'')
      else apply_operations e draft ops s)"

subsection \<open>The overlay of confirmed decisions\<close>

record confirmed_baseline =
  cb_snapshot :: graph_snapshot
  cb_deterministic :: "graph_snapshot option"
  cb_revision :: int

definition user_declared :: "string list \<Rightarrow> bool" where
  "user_declared refs = list_ex (\<lambda>r. strip_prefix ''user:'' r \<noteq> None) refs"

definition drop_removed_edges :: "confirmed_baseline \<Rightarrow> graph_snapshot \<Rightarrow> graph_snapshot" where
  "drop_removed_edges b current =
     (case cb_deterministic b of
        None \<Rightarrow> current
      | Some previous \<Rightarrow>
          let confirmed = set (map ge_id (sn_edges (cb_snapshot b)));
              removed = set (map ge_id (filter (\<lambda>x. ge_id x \<notin> confirmed) (sn_edges previous)))
          in current\<lparr>sn_edges := filter (\<lambda>x. ge_id x \<notin> removed) (sn_edges current)\<rparr>)"

text \<open>
  \<open>current_nodes\<close> maps an identifier to the index of the last node that has it; the identifiers of a graph
  are distinct.
\<close>

definition decide_node :: "graph_node \<Rightarrow> graph_node \<Rightarrow> graph_node" where
  "decide_node confirmed n =
     (let m = n\<lparr>gn_label := gn_label confirmed, gn_project := gn_project confirmed, gn_position := gn_position confirmed\<rparr>
      in if gn_state confirmed = PsArchived then m\<lparr>gn_state := PsArchived\<rparr> else m)"

definition preserve_node :: "graph_node \<Rightarrow> graph_node" where
  "preserve_node confirmed =
     (if gn_state confirmed = PsArchived then confirmed
      else confirmed\<lparr>gn_state := (if user_declared (gn_source_refs confirmed) then PsDraft else PsStale)\<rparr>)"

definition overlay_node :: "graph_node \<Rightarrow> graph_snapshot \<Rightarrow> graph_snapshot" where
  "overlay_node confirmed s =
     (if list_ex (\<lambda>n. gn_id n = gn_id confirmed) (sn_nodes s)
      then s\<lparr>sn_nodes := map (\<lambda>n. if gn_id n = gn_id confirmed then decide_node confirmed n else n) (sn_nodes s)\<rparr>
      else s\<lparr>sn_nodes := sn_nodes s @ [preserve_node confirmed]\<rparr>)"

definition preserve_edge :: "graph_snapshot \<Rightarrow> graph_edge \<Rightarrow> graph_edge" where
  "preserve_edge s confirmed =
     confirmed\<lparr>ge_state :=
       (if list_ex (\<lambda>n. gn_id n \<in> {ge_from confirmed, ge_to confirmed} \<and> gn_state n = PsArchived) (sn_nodes s)
           \<or> ge_state confirmed = PsArchived then PsArchived
        else if user_declared (ge_source_refs confirmed) then PsDraft else PsStale)\<rparr>"

definition overlay_edge :: "graph_edge \<Rightarrow> graph_snapshot \<Rightarrow> graph_snapshot" where
  "overlay_edge confirmed s =
     (if list_ex (\<lambda>x. ge_id x = ge_id confirmed) (sn_edges s)
      then (if ge_state confirmed = PsArchived
            then s\<lparr>sn_edges := map (\<lambda>x. if ge_id x = ge_id confirmed then x\<lparr>ge_state := PsArchived\<rparr> else x) (sn_edges s)\<rparr>
            else s)
      else if ge_from confirmed \<notin> node_ids s \<or> ge_to confirmed \<notin> node_ids s then s
      else s\<lparr>sn_edges := sn_edges s @ [preserve_edge s confirmed]\<rparr>)"

definition overlay_confirmed_decisions :: "graph_snapshot \<Rightarrow> confirmed_baseline \<Rightarrow> graph_snapshot" where
  "overlay_confirmed_decisions current b =
     fold overlay_edge (sn_edges (cb_snapshot b))
       (fold overlay_node (sn_nodes (cb_snapshot b)) (drop_removed_edges b current))"

definition visible_snapshot :: "graph_snapshot \<Rightarrow> graph_snapshot" where
  "visible_snapshot s =
     s\<lparr>sn_nodes := filter (\<lambda>n. gn_state n \<noteq> PsArchived) (sn_nodes s),
       sn_edges := filter (\<lambda>x. ge_state x \<noteq> PsArchived \<and> ge_from x \<in> active_ids s \<and> ge_to x \<in> active_ids s) (sn_edges s)\<rparr>"

subsection \<open>Creating a draft\<close>

definition ignored_fingerprints :: "projection_db \<Rightarrow> string \<Rightarrow> string set" where
  "ignored_fingerprints d host =
     set (map rul_fingerprint (filter (\<lambda>r. rul_host r = host \<and> rul_state r \<in> {''ignored'', ''archived''}) (pj_rules d)))"

definition load_confirmed_baseline_in ::
  "projection_env \<Rightarrow> string \<Rightarrow> string set \<Rightarrow> projection_db \<Rightarrow> confirmed_baseline option"
where
  "load_confirmed_baseline_in e host ignored d =
     (case rev (sort_key (\<lambda>(v, x). (pub_confirmed_at v, pub_id v))
             (List.map_filter (\<lambda>v. map_option (Pair v) (select_one (\<lambda>x. drf_id x = pub_draft v) (pj_drafts d)))
               (filter (\<lambda>v. pub_host v = host) (pj_published d)))) of
        [] \<Rightarrow> None
      | (v, x) # _ \<Rightarrow>
          Some \<lparr>cb_snapshot = pub_snapshot v,
                cb_deterministic = map_option (\<lambda>ev. map_evidence e (drf_id x) (drf_run x) host ev ignored)
                  (Option.bind (select_one (\<lambda>r. scn_id r = drf_run x) (pj_scans d)) scn_evidence),
                cb_revision = pub_revision v\<rparr>)"

definition insert_draft :: "draft_row \<Rightarrow> projection_db \<Rightarrow> projection_error + projection_db" where
  "insert_draft x d =
     (if \<exists>y \<in> set (pj_drafts d). drf_id y = drf_id x \<or> drf_run y = drf_run x then Inl PStorage
      else if drf_host x \<notin> set (pj_hosts d) then Inl PStorage
      else Inr (d\<lparr>pj_drafts := pj_drafts d @ [x]\<rparr>))"

definition insert_layout :: "layout_row \<Rightarrow> projection_db \<Rightarrow> projection_error + projection_db" where
  "insert_layout x d =
     (if lay_id x \<in> set (map lay_id (pj_layouts d)) then Inl PStorage
      else Inr (d\<lparr>pj_layouts := pj_layouts d @ [x]\<rparr>))"

definition positions_of :: "graph_snapshot \<Rightarrow> (string \<times> graph_position) list" where
  "positions_of s = map (\<lambda>n. (gn_id n, gn_position n)) (sn_nodes s)"

definition draft_id_of :: "projection_env \<Rightarrow> string \<Rightarrow> string" where
  "draft_id_of e run = ''draft-'' @ take 24 (hex_sha256 e run)"

definition create_draft_from_evidence_in ::
  "projection_env \<Rightarrow> string \<Rightarrow> string \<Rightarrow> discovery_evidence \<Rightarrow> secs \<Rightarrow> secs \<Rightarrow> projection_db
   \<Rightarrow> projection_error + string \<times> projection_db"
where
  "create_draft_from_evidence_in e run host ev diff_at now d =
     (case select_one (\<lambda>x. drf_run x = run) (pj_drafts d) of
        Some x \<Rightarrow> Inr (drf_id x, d)
      | None \<Rightarrow>
          let ignored = ignored_fingerprints d host;
              draft = draft_id_of e run;
              deterministic = map_evidence e draft run host ev ignored;
              baseline = load_confirmed_baseline_in e host ignored d;
              base_revision = (case baseline of None \<Rightarrow> 0 | Some b \<Rightarrow> cb_revision b);
              revision = base_revision + 1
          in and_then (create_discovery_diff_in e run host ev deterministic (map_option cb_snapshot baseline) diff_at d)
             (\<lambda>(_, d1).
             let snapshot = set_layout_revision revision
                   (case baseline of None \<Rightarrow> deterministic | Some b \<Rightarrow> overlay_confirmed_decisions deterministic b)
             in and_then (insert_draft \<lparr>drf_id = draft, drf_run = run, drf_host = host, drf_base_revision = base_revision,
                    drf_revision = revision, drf_state = DsDraft, drf_pending_changes = 0, drf_snapshot = snapshot,
                    drf_created_at = now, drf_updated_at = now\<rparr> d1) (\<lambda>d2.
                and_then (insert_layout \<lparr>lay_id = cl_layout_id (sn_layout snapshot), lay_scope = cl_scope (sn_layout snapshot),
                    lay_revision = revision, lay_positions = positions_of snapshot, lay_updated_at = now\<rparr> d2) (\<lambda>d3.
                Inr (draft, d3\<lparr>pj_scans := update_rows (\<lambda>r. scn_id r = run) (\<lambda>r. r\<lparr>scn_draft := Some draft\<rparr>) (pj_scans d3)\<rparr>)))))"

end
