(* ===== verification/ProjectionApi.thy ===== *)
theory ProjectionApi
  imports Projection
begin

text \<open>
  The handlers of \<open>backend/src/projection.rs\<close> that read and change a draft, and the two functions the project
  agent applies and undoes its patches with. A handler reads the stored answer of its key and the draft before
  its transaction, in the tables \<open>pre\<close>, and writes in the tables \<open>d\<close> it finds there; a failing one leaves \<open>d\<close>
  as it was. A body that is no JSON of the contract is \<open>None\<close>.
\<close>

subsection \<open>Reading a draft\<close>

fun draft_state_of :: "draft_state \<Rightarrow> projection_state" where
  "draft_state_of DsConfirmed = PsConfirmed"
| "draft_state_of DsArchived = PsArchived"
| "draft_state_of DsDraft = PsDraft"

definition view_of_row :: "draft_row \<Rightarrow> draft_view" where
  "view_of_row x =
     \<lparr>dv_draft = drf_id x, dv_run = drf_run x, dv_host = drf_host x, dv_base_revision = drf_base_revision x,
      dv_revision = drf_revision x, dv_state = draft_state_of (drf_state x),
      dv_pending_changes = non_negative_u32 (drf_pending_changes x), dv_updated_at = drf_updated_at x,
      dv_snapshot = drf_snapshot x\<rparr>"

definition load_projection_draft :: "projection_db \<Rightarrow> string \<Rightarrow> projection_error + draft_view" where
  "load_projection_draft d i =
     map_sum (\<lambda>x. x) view_of_row (ok_or (PNotFound ''projection_draft'' i) (select_one (\<lambda>x. drf_id x = i) (pj_drafts d)))"

definition draft_response :: "draft_view \<Rightarrow> string \<Rightarrow> secs \<Rightarrow> projection_response" where
  "draft_response v rid generated = DraftResponse v (projection_meta rid (dv_revision v) generated)"

definition get_projection_draft :: "headers \<Rightarrow> string \<Rightarrow> string \<Rightarrow> secs \<Rightarrow> projection_db \<Rightarrow> projection_error + projection_response" where
  "get_projection_draft hdr i rid generated d =
     and_then (load_projection_draft d i) (\<lambda>v. Inr (draft_response v (request_id hdr rid) generated))"

subsection \<open>Stored answers and revisions\<close>

definition replay_mutation ::
  "string \<Rightarrow> string \<Rightarrow> string \<Rightarrow> string \<Rightarrow> projection_db \<Rightarrow> projection_error + projection_response option"
where
  "replay_mutation kind resource key sha d =
     (case select_one (\<lambda>m. mut_kind m = kind \<and> mut_resource m = resource \<and> mut_key m = key) (pj_mutations d) of
        None \<Rightarrow> Inr None
      | Some m \<Rightarrow> if mut_sha m \<noteq> sha then Inl (PConflict 409 ''IDEMPOTENCY_KEY_REUSED'') else Inr (Some (mut_response m)))"

definition store_mutation ::
  "string \<Rightarrow> string \<Rightarrow> string \<Rightarrow> string \<Rightarrow> string \<Rightarrow> projection_response \<Rightarrow> secs \<Rightarrow> projection_db
   \<Rightarrow> projection_error + projection_db"
where
  "store_mutation i kind resource key sha response created_at d =
     (if \<exists>m \<in> set (pj_mutations d). mut_id m = i \<or> mut_kind m = kind \<and> mut_resource m = resource \<and> mut_key m = key
      then Inl PStorage
      else Inr (d\<lparr>pj_mutations := pj_mutations d @ [\<lparr>mut_id = i, mut_kind = kind, mut_resource = resource, mut_key = key,
                   mut_sha = sha, mut_response = response, mut_created_at = created_at\<rparr>]\<rparr>))"

definition verify_revision :: "int \<Rightarrow> int \<Rightarrow> int \<Rightarrow> projection_error + unit" where
  "verify_revision header body current =
     (if header \<noteq> body \<or> body \<noteq> current then Inl (PConflict 412 ''PRECONDITION_FAILED'') else Inr ())"

text \<open>\<open>UPDATE projection_drafts \<dots> WHERE draft_id = ? AND revision = ?\<close> with the number of rows it changed.\<close>

definition at_revision :: "string \<Rightarrow> int \<Rightarrow> draft_row \<Rightarrow> bool" where
  "at_revision i revision x = (drf_id x = i \<and> drf_revision x = revision)"

definition update_drafts ::
  "string \<Rightarrow> int \<Rightarrow> (draft_row \<Rightarrow> draft_row) \<Rightarrow> projection_db \<Rightarrow> nat \<times> projection_db"
where
  "update_drafts i revision f d =
     (rows_affected (at_revision i revision) (pj_drafts d),
      d\<lparr>pj_drafts := update_rows (at_revision i revision) f (pj_drafts d)\<rparr>)"

definition require_draft_update ::
  "string \<Rightarrow> int \<Rightarrow> (draft_row \<Rightarrow> draft_row) \<Rightarrow> projection_db \<Rightarrow> projection_error + projection_db"
where
  "require_draft_update i revision f d =
     (case update_drafts i revision f d of
        (n, d1) \<Rightarrow> if n \<noteq> 1 then Inl (PConflict 412 ''PRECONDITION_FAILED'') else Inr d1)"

definition require_layout_update ::
  "string \<Rightarrow> int \<Rightarrow> (string \<times> graph_position) list \<Rightarrow> secs \<Rightarrow> projection_db \<Rightarrow> projection_error + projection_db"
where
  "require_layout_update i revision positions now d =
     (if rows_affected (\<lambda>x. lay_id x = i) (pj_layouts d) \<noteq> 1 then Inl (PNotFound ''layout'' i)
      else Inr (d\<lparr>pj_layouts := update_rows (\<lambda>x. lay_id x = i)
             (\<lambda>x. x\<lparr>lay_revision := revision, lay_positions := positions, lay_updated_at := now\<rparr>) (pj_layouts d)\<rparr>))"

definition set_draft :: "draft_view \<Rightarrow> draft_row \<Rightarrow> draft_row" where
  "set_draft v x = x\<lparr>drf_revision := dv_revision v, drf_state := DsDraft, drf_pending_changes := int (dv_pending_changes v),
     drf_snapshot := dv_snapshot v, drf_updated_at := dv_updated_at v\<rparr>"

text \<open>The next revision of a draft with a new graph.\<close>

definition revise :: "graph_snapshot \<Rightarrow> nat \<Rightarrow> secs \<Rightarrow> draft_view \<Rightarrow> draft_view" where
  "revise s pending now v = v\<lparr>dv_snapshot := set_layout_revision (dv_revision v + 1) s, dv_revision := dv_revision v + 1,
     dv_pending_changes := pending, dv_updated_at := now\<rparr>"

definition answer :: "projection_error + ('r \<times> projection_db) \<Rightarrow> projection_db \<Rightarrow> (projection_error + 'r) \<times> projection_db" where
  "answer r d = (case r of Inl x \<Rightarrow> (Inl x, d) | Inr (y, d1) \<Rightarrow> (Inr y, d1))"

text \<open>Clock values and fresh identifiers of a request.\<close>

record request_env =
  rq_now :: secs
  rq_generated_at :: secs
  rq_stored_at :: secs
  rq_request_id :: string
  rq_mutation_id :: string
  rq_version_id :: string
  rq_rule_id :: string
  rq_rule_at :: secs

subsection \<open>Patching a draft\<close>

definition update_projection_draft ::
  "projection_env \<Rightarrow> headers \<Rightarrow> string \<Rightarrow> draft_update_request option \<Rightarrow> request_env \<Rightarrow> projection_db \<Rightarrow> projection_db
   \<Rightarrow> (projection_error + projection_response) \<times> projection_db"
where
  "update_projection_draft e hdr draft payload q pre d =
     answer
       (and_then (ok_or (PBadRequest 400 ''INVALID_JSON'') payload) (\<lambda>request.
        and_then (require_key hdr) (\<lambda>key.
        and_then (require_if_match hdr) (\<lambda>header_revision.
        if \<not> operations_allowed (du_operations request) then Inl (PBadRequest 400 ''INVALID_OPERATIONS'')
        else let sha = hex_sha256 e (update_json e request) in
        and_then (replay_mutation ''draft'' draft key sha pre) (\<lambda>stored.
        case stored of Some response \<Rightarrow> Inr (response, d) | None \<Rightarrow>
        and_then (load_projection_draft pre draft) (\<lambda>row.
        if dv_state row = PsConfirmed then Inl (PConflict 409 ''DRAFT_ALREADY_CONFIRMED'')
        else
        and_then (verify_revision header_revision (du_base_revision request) (dv_revision row)) (\<lambda>_.
        and_then (apply_operations e draft (du_operations request) (dv_snapshot row)) (\<lambda>s.
        let row1 = revise s (sat_add32 (dv_pending_changes row) (u32_of_nat (length (du_operations request)))) (rq_now q) row;
            response = draft_response row1 (request_id hdr (rq_request_id q)) (rq_generated_at q)
        in
        and_then (require_draft_update draft (du_base_revision request) (set_draft row1) d) (\<lambda>d1.
        and_then (store_mutation (rq_mutation_id q) ''draft'' draft key sha response (rq_stored_at q) d1) (\<lambda>d2.
        Inr (response, d2)))))))))))
       d"

subsection \<open>Confirming a draft\<close>

definition confirmed_snapshot :: "graph_snapshot \<Rightarrow> graph_snapshot" where
  "confirmed_snapshot s =
     s\<lparr>sn_nodes := map (\<lambda>n. if gn_state n \<noteq> PsArchived then n\<lparr>gn_state := PsConfirmed\<rparr> else n) (sn_nodes s),
       sn_edges := map (\<lambda>x. if ge_state x \<noteq> PsArchived then x\<lparr>ge_state := PsConfirmed\<rparr> else x) (sn_edges s)\<rparr>"

definition insert_published :: "published_row \<Rightarrow> projection_db \<Rightarrow> projection_error + projection_db" where
  "insert_published v d =
     (if \<exists>w \<in> set (pj_published d). pub_id w = pub_id v \<or> pub_draft w = pub_draft v \<and> pub_revision w = pub_revision v
      then Inl PStorage
      else if pub_draft v \<notin> set (map drf_id (pj_drafts d)) \<or> pub_host v \<notin> set (pj_hosts d) then Inl PStorage
      else Inr (d\<lparr>pj_published := pj_published d @ [v]\<rparr>))"

text \<open>The update of the draft does not look at the number of rows it changed.\<close>

definition confirm_projection ::
  "projection_env \<Rightarrow> headers \<Rightarrow> string \<Rightarrow> int option \<Rightarrow> request_env \<Rightarrow> projection_db \<Rightarrow> projection_db
   \<Rightarrow> (projection_error + nat \<times> projection_response) \<times> projection_db"
where
  "confirm_projection e hdr draft payload q pre d =
     answer
       (and_then (ok_or (PBadRequest 400 ''INVALID_JSON'') payload) (\<lambda>base_revision.
        and_then (require_key hdr) (\<lambda>key.
        and_then (require_if_match hdr) (\<lambda>header_revision.
        let sha = hex_sha256 e (confirm_json e base_revision) in
        and_then (replay_mutation ''confirm'' draft key sha pre) (\<lambda>stored.
        case stored of Some response \<Rightarrow> Inr ((200, response), d) | None \<Rightarrow>
        and_then (load_projection_draft pre draft) (\<lambda>row.
        and_then (verify_revision header_revision base_revision (dv_revision row)) (\<lambda>_.
        if dv_state row = PsConfirmed then Inl (PConflict 409 ''DRAFT_ALREADY_CONFIRMED'')
        else
        let s = confirmed_snapshot (dv_snapshot row);
            v = \<lparr>pub_id = rq_version_id q, pub_draft = draft, pub_host = dv_host row, pub_revision = dv_revision row,
                 pub_confirmed_at = rq_now q, pub_snapshot = s\<rparr>;
            response = VersionResponse v
              (projection_meta (request_id hdr (rq_request_id q)) (dv_revision row) (rq_generated_at q))
        in
        and_then (insert_published v d) (\<lambda>d1.
        let (n, d2) = update_drafts draft (dv_revision row)
              (\<lambda>x. x\<lparr>drf_state := DsConfirmed, drf_pending_changes := 0, drf_snapshot := s, drf_updated_at := rq_now q\<rparr>) d1
        in
        and_then (store_mutation (rq_mutation_id q) ''confirm'' draft key sha response (rq_stored_at q) d2) (\<lambda>d3.
        Inr ((201, response), d3))))))))))
       d"

subsection \<open>Moving nodes\<close>

text \<open>The positions are visited in the order of their node identifiers.\<close>

fun place_nodes :: "(string \<times> graph_position) list \<Rightarrow> graph_snapshot \<Rightarrow> projection_error + graph_snapshot" where
  "place_nodes [] s = Inr s"
| "place_nodes ((i, p) # ps) s =
     (if \<not> valid_position p then Inl (PBadRequest 400 ''INVALID_POSITION'')
      else and_then (update_node i (\<lambda>n. Inr (n\<lparr>gn_position := p\<rparr>)) s) (place_nodes ps))"

definition update_layout ::
  "projection_env \<Rightarrow> headers \<Rightarrow> string \<Rightarrow> layout_update_request option \<Rightarrow> request_env \<Rightarrow> projection_db \<Rightarrow> projection_db
   \<Rightarrow> (projection_error + projection_response) \<times> projection_db"
where
  "update_layout e hdr layout payload q pre d =
     answer
       (and_then (ok_or (PBadRequest 400 ''INVALID_JSON'') payload) (\<lambda>request.
        and_then (require_key hdr) (\<lambda>key.
        and_then (require_if_match hdr) (\<lambda>header_revision.
        let sha = hex_sha256 e (layout_json e request) in
        and_then (replay_mutation ''layout'' layout key sha pre) (\<lambda>stored.
        case stored of Some response \<Rightarrow> Inr (response, d) | None \<Rightarrow>
        and_then (ok_or (PNotFound ''layout'' layout) (strip_prefix ''layout-'' layout)) (\<lambda>draft.
        and_then (load_projection_draft pre draft) (\<lambda>row.
        if dv_state row = PsConfirmed then Inl (PConflict 409 ''DRAFT_ALREADY_CONFIRMED'')
        else
        and_then (verify_revision header_revision (lu_base_revision request) (dv_revision row)) (\<lambda>_.
        let positions = bt_collect (lu_positions request) in
        if length positions \<noteq> length (lu_positions request) then Inl (PBadRequest 400 ''DUPLICATE_LAYOUT_NODE'')
        else
        and_then (place_nodes positions (dv_snapshot row)) (\<lambda>s.
        let row1 = revise s (dv_pending_changes row) (rq_now q) row;
            response = LayoutResponse
              \<lparr>lv_layout = layout, lv_revision = dv_revision row1, lv_positions = lu_positions request\<rparr>
              (projection_meta (request_id hdr (rq_request_id q)) (dv_revision row1) (rq_generated_at q))
        in
        and_then (require_draft_update draft (lu_base_revision request)
          (\<lambda>x. x\<lparr>drf_revision := dv_revision row1, drf_snapshot := dv_snapshot row1, drf_updated_at := dv_updated_at row1\<rparr>) d)
          (\<lambda>d1.
        and_then (require_layout_update layout (dv_revision row1) (lu_positions request) (dv_updated_at row1) d1) (\<lambda>d2.
        and_then (store_mutation (rq_mutation_id q) ''layout'' layout key sha response (rq_stored_at q) d2) (\<lambda>d3.
        Inr (response, d3)))))))))))))
       d"

subsection \<open>Ignoring and restoring a node\<close>

fun rule_state_of :: "ignore_action \<Rightarrow> string" where
  "rule_state_of ActIgnore = ''ignored''"
| "rule_state_of ActArchive = ''archived''"
| "rule_state_of ActRestore = ''active''"

fun node_state_of :: "ignore_action \<Rightarrow> projection_state" where
  "node_state_of ActIgnore = PsArchived"
| "node_state_of ActArchive = PsArchived"
| "node_state_of ActRestore = PsDraft"

definition ignore_node :: "ignore_rule_request \<Rightarrow> graph_snapshot \<Rightarrow> projection_error + graph_snapshot" where
  "ignore_node request s =
     and_then (update_node (ir_node request) (\<lambda>n. Inr (n\<lparr>gn_state := node_state_of (ir_action request)\<rparr>)) s)
       (\<lambda>s1. Inr (set_edge_states (touches (ir_node request)) (node_state_of (ir_action request)) s1))"

definition upsert_rule :: "rule_row \<Rightarrow> projection_db \<Rightarrow> projection_error + projection_db" where
  "upsert_rule r d =
     (let same = (\<lambda>x. rul_host x = rul_host r \<and> rul_fingerprint x = rul_fingerprint r)
      in if \<exists>x \<in> set (pj_rules d). same x
         then Inr (d\<lparr>pj_rules := update_rows same
                (\<lambda>x. x\<lparr>rul_state := rul_state r, rul_updated_at := rul_updated_at r\<rparr>) (pj_rules d)\<rparr>)
         else if rul_id r \<in> set (map rul_id (pj_rules d)) \<or> rul_host r \<notin> set (pj_hosts d) then Inl PStorage
         else Inr (d\<lparr>pj_rules := pj_rules d @ [r]\<rparr>))"

definition create_ignore_rule ::
  "projection_env \<Rightarrow> headers \<Rightarrow> ignore_rule_request option \<Rightarrow> request_env \<Rightarrow> projection_db \<Rightarrow> projection_db
   \<Rightarrow> (projection_error + projection_response) \<times> projection_db"
where
  "create_ignore_rule e hdr payload q pre d =
     answer
       (and_then (ok_or (PBadRequest 400 ''INVALID_JSON'') payload) (\<lambda>request.
        and_then (require_key hdr) (\<lambda>key.
        and_then (require_if_match hdr) (\<lambda>header_revision.
        let sha = hex_sha256 e (ignore_json e request) in
        and_then (replay_mutation ''ignore'' (ir_draft request) key sha pre) (\<lambda>stored.
        case stored of Some response \<Rightarrow> Inr (response, d) | None \<Rightarrow>
        and_then (load_projection_draft pre (ir_draft request)) (\<lambda>row.
        if dv_state row = PsConfirmed then Inl (PConflict 409 ''DRAFT_ALREADY_CONFIRMED'')
        else
        and_then (verify_revision header_revision (ir_base_revision request) (dv_revision row)) (\<lambda>_.
        and_then (ignore_node request (dv_snapshot row)) (\<lambda>s.
        let row1 = revise s (sat_add32 (dv_pending_changes row) 1) (rq_now q) row;
            response = draft_response row1 (request_id hdr (rq_request_id q)) (rq_generated_at q)
        in
        and_then (upsert_rule \<lparr>rul_id = rq_rule_id q, rul_host = dv_host row, rul_fingerprint = ir_node request,
            rul_state = rule_state_of (ir_action request), rul_created_at = rq_rule_at q, rul_updated_at = rq_rule_at q\<rparr> d)
          (\<lambda>d1.
        and_then (require_draft_update (dv_draft row) (ir_base_revision request)
          (\<lambda>x. x\<lparr>drf_revision := dv_revision row1, drf_pending_changes := int (dv_pending_changes row1),
                 drf_snapshot := dv_snapshot row1, drf_updated_at := dv_updated_at row1\<rparr>) d1)
          (\<lambda>d2.
        and_then (store_mutation (rq_mutation_id q) ''ignore'' (dv_draft row) key sha response (rq_stored_at q) d2) (\<lambda>d3.
        Inr (response, d3))))))))))))
       d"

subsection \<open>Patches of the project agent\<close>

record undo_state =
  un_snapshot :: graph_snapshot
  un_pending_changes :: nat

definition persist_agent_draft_in :: "draft_view \<Rightarrow> int \<Rightarrow> projection_db \<Rightarrow> projection_error + projection_db" where
  "persist_agent_draft_in row expected d =
     and_then (require_draft_update (dv_draft row) expected (set_draft row) d) (\<lambda>d1.
     require_layout_update (cl_layout_id (sn_layout (dv_snapshot row))) (dv_revision row) (positions_of (dv_snapshot row))
       (dv_updated_at row) d1)"

definition apply_agent_operations_in ::
  "projection_env \<Rightarrow> string \<Rightarrow> int \<Rightarrow> patch_operation list \<Rightarrow> secs \<Rightarrow> projection_db
   \<Rightarrow> projection_error + (draft_view \<times> undo_state) \<times> projection_db"
where
  "apply_agent_operations_in e draft expected ops now d =
     and_then (load_projection_draft d draft) (\<lambda>row.
     if dv_state row \<noteq> PsDraft then Inl (PConflict 409 ''DRAFT_NOT_EDITABLE'')
     else if dv_revision row \<noteq> expected then Inl (PConflict 412 ''PRECONDITION_FAILED'')
     else
     and_then (validate_projection_operations e (dv_snapshot row) draft ops) (\<lambda>s.
     let row1 = revise s (sat_add32 (dv_pending_changes row) (u32_of_nat (length ops))) now row
     in and_then (persist_agent_draft_in row1 expected d) (\<lambda>d1.
        Inr ((row1, \<lparr>un_snapshot = dv_snapshot row, un_pending_changes = dv_pending_changes row\<rparr>), d1))))"

definition undo_agent_operations_in ::
  "string \<Rightarrow> int \<Rightarrow> int \<Rightarrow> undo_state \<Rightarrow> secs \<Rightarrow> projection_db \<Rightarrow> projection_error + draft_view \<times> projection_db"
where
  "undo_agent_operations_in draft expected applied undo now d =
     and_then (load_projection_draft d draft) (\<lambda>row.
     if dv_state row \<noteq> PsDraft then Inl (PConflict 409 ''DRAFT_NOT_EDITABLE'')
     else if expected \<noteq> applied \<or> dv_revision row \<noteq> applied then Inl (PConflict 412 ''UNDO_HAS_INTERVENING_CHANGES'')
     else
     let row1 = revise (un_snapshot undo) (un_pending_changes undo) now row
     in and_then (persist_agent_draft_in row1 applied d) (\<lambda>d1. Inr (row1, d1)))"

text \<open>The graph that is shown of a host: its latest published version, or else its latest draft.\<close>

definition latest_host_snapshot :: "projection_db \<Rightarrow> string \<Rightarrow> (graph_snapshot \<times> int \<times> bool) option" where
  "latest_host_snapshot d host =
     (case rev (sort_key (\<lambda>v. (pub_confirmed_at v, pub_id v)) (filter (\<lambda>v. pub_host v = host) (pj_published d))) of
        v # _ \<Rightarrow> Some (pub_snapshot v, pub_revision v, True)
      | [] \<Rightarrow>
          (case rev (sort_key (\<lambda>x. (drf_updated_at x, drf_id x)) (filter (\<lambda>x. drf_host x = host) (pj_drafts d))) of
             x # _ \<Rightarrow> Some (drf_snapshot x, drf_revision x, False)
           | [] \<Rightarrow> None))"

end
