(* ===== verification/EvidenceGraph.thy ===== *)
theory EvidenceGraph
  imports ProjectionApi
begin

text \<open>
  Well-formed graphs: distinct nodes, distinct edges, and no edge without its ends. The mapping of a scan, the
  overlay of confirmed decisions and every operation of a patch give well-formed graphs, whatever the digest.
\<close>

definition graph_ok :: "graph_snapshot \<Rightarrow> bool" where
  "graph_ok s =
     (distinct (map gn_id (sn_nodes s)) \<and> distinct (map ge_id (sn_edges s))
      \<and> (\<forall>x \<in> set (sn_edges s). ge_from x \<in> node_ids s \<and> ge_to x \<in> node_ids s))"

named_theorems keep_simps \<open>what a step of the mapping keeps\<close>

subsection \<open>The mapping\<close>

definition builder_ok :: "mapping_context \<Rightarrow> builder \<Rightarrow> bool" where
  "builder_ok c b =
     (distinct (map gn_id (bd_nodes b)) \<and> distinct (map ge_id (bd_edges b)) \<and> knows b (mc_host c)
      \<and> (\<forall>x \<in> set (bd_edges b). knows b (ge_from x) \<and> knows b (ge_to x)))"

definition grows :: "builder \<Rightarrow> builder \<Rightarrow> bool" where
  "grows b b' = (\<forall>i. knows b i \<longrightarrow> knows b' i)"

lemma grows_refl [simp]: "grows b b"
  by (simp add: grows_def)

lemma grows_trans: "grows a b \<Longrightarrow> grows b c \<Longrightarrow> grows a c"
  by (simp add: grows_def)

lemma knows_add_node [simp]: "knows (add_node n b) i \<longleftrightarrow> i = gn_id n \<or> knows b i"
  by (auto simp: add_node_def knows_def)

lemma knows_add_edge [simp]: "knows (add_edge e f t k l r b) i = knows b i"
  by (simp add: add_edge_def knows_def)

lemma knows_use_in [simp]: "knows (use_in j p b) i = knows b i"
  by (simp add: use_in_def knows_def split: option.split)

lemma grows_add [simp]:
  "grows b (add_node n b)" "grows b (use_in j p b)" "grows b (add_edge e f t k l r b)"
  by (simp_all add: grows_def)

lemma builder_ok_add_node [simp]: "builder_ok c b \<Longrightarrow> builder_ok c (add_node n b)"
  unfolding builder_ok_def knows_add_node by (simp add: add_node_def knows_def)

lemma builder_ok_use_in [simp]: "builder_ok c (use_in j p b) = builder_ok c b"
  unfolding builder_ok_def knows_use_in by (simp add: use_in_def split: option.split)

lemma builder_ok_add_edge [simp]:
  "builder_ok c b \<Longrightarrow> knows b f \<Longrightarrow> knows b t \<Longrightarrow> builder_ok c (add_edge e f t k l r b)"
  unfolding builder_ok_def knows_add_edge by (auto simp: add_edge_def)

lemma builder_host [simp]: "builder_ok c b \<Longrightarrow> knows b (mc_host c)"
  by (simp add: builder_ok_def)

lemma node_id_simps [simp]:
  "gn_id (make_evidence_node i k l s p v) = i" "gn_id (item_node c item i k l s p b) = i"
  by (simp_all add: make_evidence_node_def item_node_def Let_def)

text \<open>A step that keeps a builder well-formed and forgets no node, and a loop of such steps.\<close>

definition sound_step :: "mapping_context \<Rightarrow> builder \<Rightarrow> builder \<Rightarrow> bool" where
  "sound_step c b b' = (builder_ok c b' \<and> grows b b')"

lemma sound_step_trans: "sound_step c a b \<Longrightarrow> sound_step c b d \<Longrightarrow> sound_step c a d"
  by (auto simp: sound_step_def intro: grows_trans)

lemma sound_fold:
  assumes "builder_ok c b0" and "\<And>x b. x \<in> set xs \<Longrightarrow> builder_ok c b \<Longrightarrow> grows b0 b \<Longrightarrow> sound_step c b (f x b)"
  shows "sound_step c b0 (fold f xs b0)"
proof -
  have "sound_step c b0 (fold f ys b)" if "sound_step c b0 b" "set ys \<subseteq> set xs" for ys b
    using that
  proof (induction ys arbitrary: b)
    case (Cons x ys)
    have "sound_step c b (f x b)" using Cons.prems assms(2) unfolding sound_step_def by auto
    then have "sound_step c b0 (f x b)" using Cons.prems(1) by (blast intro: sound_step_trans)
    then show ?case using Cons.IH Cons.prems by simp
  qed simp
  from this [of b0 xs] show ?thesis using assms(1) by (simp add: sound_step_def)
qed

definition names_ok :: "builder \<Rightarrow> names \<Rightarrow> bool" where
  "names_ok b m = (\<forall>x i. m x = Some i \<longrightarrow> knows b i)"

lemma names_ok_grows: "names_ok b m \<Longrightarrow> grows b b' \<Longrightarrow> names_ok b' m"
  by (auto simp: names_ok_def grows_def)

lemma names_ok_upd: "names_ok b m \<Longrightarrow> knows b i \<Longrightarrow> names_ok b (m(x \<mapsto> i))"
  by (auto simp: names_ok_def)

lemma names_ok_keeps [simp]:
  "names_ok b m \<Longrightarrow> names_ok (add_node n b) m" "names_ok b m \<Longrightarrow> names_ok (use_in i p b) m"
  "names_ok b m \<Longrightarrow> names_ok (add_edge e f t k l r b) m"
  by (auto simp: names_ok_def)

lemma names_ok_empty [simp]: "names_ok b no_names"
  by (simp add: names_ok_def no_names_def)

definition sound_names :: "mapping_context \<Rightarrow> builder \<Rightarrow> builder \<times> names \<Rightarrow> bool" where
  "sound_names c b0 s = (sound_step c b0 (fst s) \<and> names_ok (fst s) (snd s))"

lemma sound_names_fold:
  assumes "sound_names c b0 s" and "\<And>x s. x \<in> set xs \<Longrightarrow> sound_names c b0 s \<Longrightarrow> sound_names c b0 (f x s)"
  shows "sound_names c b0 (fold f xs s)"
  using assms by (induction xs arbitrary: s) simp_all

lemma map_systemd_sound: "builder_ok c b \<Longrightarrow> sound_step c b (map_systemd_unit e c item b)"
  by (auto simp: map_systemd_unit_def Let_def sound_step_def grows_def)

lemma map_project_sound:
  "builder_ok c b \<Longrightarrow> sound_step c b (map_project e c ev n b) \<and> knows (map_project e c ev n b) (project_id_of e c n)"
  by (auto simp: map_project_def Let_def sound_step_def grows_def)

lemma map_image_sound: "sound_names c b0 s \<Longrightarrow> sound_names c b0 (map_image e c item s)"
  unfolding map_image_def sound_names_def sound_step_def Let_def
  by (auto simp: grows_def split: prod.split option.split intro!: names_ok_upd)

lemma map_named_sound: "sound_names c b0 s \<Longrightarrow> sound_names c b0 (map_named e c pre k sub item s)"
  unfolding map_named_def sound_names_def sound_step_def Let_def
  by (auto simp: grows_def split: prod.split intro!: names_ok_upd)

lemma map_compose_sound:
  assumes "sound_names c b0 s" and "\<And>p. p \<in> snd ` set ps \<Longrightarrow> knows b0 p"
  shows "sound_names c b0 (map_compose e c ps item s)"
proof -
  obtain b m where s: "s = (b, m)" by (cases s)
  have b: "builder_ok c b" "grows b0 b" "names_ok b m" using assms(1) by (auto simp: sound_names_def sound_step_def s)
  show ?thesis
  proof (cases "map_of ps (or_external item (metadata_string (evi_metadata item) ''name''))")
    case None
    then show ?thesis using assms(1) by (simp add: map_compose_def s)
  next
    case (Some p)
    then have "p \<in> snd ` set ps" by (force dest: map_of_SomeD)
    then have "knows b p" using assms(2) b(2) by (simp add: grows_def)
    then show ?thesis using b Some unfolding map_compose_def s sound_names_def sound_step_def Let_def
      by (auto simp: grows_def intro!: names_ok_upd)
  qed
qed

definition mapping_ok :: "builder \<Rightarrow> mapping_names \<Rightarrow> bool" where
  "mapping_ok b ns =
     ((\<forall>p \<in> snd ` set (mn_projects ns). knows b p) \<and> names_ok b (mn_images ns) \<and> names_ok b (mn_networks ns)
      \<and> names_ok b (mn_volumes ns) \<and> names_ok b (mn_compose ns))"

lemma mapping_ok_grows: "mapping_ok b ns \<Longrightarrow> grows b b' \<Longrightarrow> mapping_ok b' ns"
  by (auto simp: mapping_ok_def elim: names_ok_grows) (auto simp: grows_def)

lemma container_project_known: "mapping_ok b ns \<Longrightarrow> container_project ns item = Some p \<Longrightarrow> knows b p"
  by (force simp: mapping_ok_def container_project_def bind_eq_Some_conv dest: map_of_SomeD)

lemma container_node_id [simp]:
  "gn_id (container_node e c ns item b) = stable_id e ''container'' (mc_host c) (evi_external_id item)"
  by (simp add: container_node_def Let_def split: option.split)

lemma map_service_sound:
  assumes "builder_ok c b" "mapping_ok b ns" "names_ok b services" "knows b project"
    and "map_service e c ns item project v (b, services) = (i, b', services')"
  shows "sound_step c b b' \<and> names_ok b' services' \<and> knows b' i"
proof -
  have "knows b x" if "Option.bind (metadata_string (evi_metadata item) ''compose_project'') (mn_compose ns) = Some x" for x
    using assms(2) that by (auto simp: mapping_ok_def names_ok_def bind_eq_Some_conv)
  then show ?thesis using assms unfolding map_service_def sound_step_def Let_def
    by (auto simp: grows_def split: if_splits option.splits intro!: names_ok_upd)
qed

lemma link_image_sound:
  assumes "builder_ok c b" "mapping_ok b ns" "knows b container"
  shows "sound_step c b (link_image e c ns item container b)"
proof -
  have "knows b x" if "Option.bind (metadata_string (evi_metadata item) ''image'') (mn_images ns) = Some x" for x
    using assms(2) that by (auto simp: mapping_ok_def names_ok_def bind_eq_Some_conv)
  then show ?thesis using assms unfolding link_image_def sound_step_def by (auto simp: grows_def split: option.splits)
qed

lemma link_named_sound:
  assumes "builder_ok c b" "names_ok b by_name" "knows b container"
  shows "sound_step c b (link_named e c ns item container field by_name k label b)"
proof (cases "metadata_string (evi_metadata item) field")
  case (Some v)
  have "sound_step c b (fold (\<lambda>name b. case by_name name of None \<Rightarrow> b
        | Some i \<Rightarrow> add_edge e container i k label (item_refs c item) (use_in i (container_project ns item) b)) (list_values v) b)"
  proof (rule sound_fold [OF assms(1)])
    fix name b' assume b': "builder_ok c b'" "grows b b'"
    then have "names_ok b' by_name" "knows b' container" using assms by (auto elim: names_ok_grows simp: grows_def)
    then show "sound_step c b' (case by_name name of None \<Rightarrow> b'
        | Some i \<Rightarrow> add_edge e container i k label (item_refs c item) (use_in i (container_project ns item) b'))"
      using b' by (auto simp: sound_step_def names_ok_def grows_def split: option.split)
  qed
  then show ?thesis by (simp add: link_named_def Some)
qed (simp add: link_named_def sound_step_def assms)

lemma link_ports_sound:
  assumes "builder_ok c b" "knows b container"
  shows "sound_step c b (link_ports e c ns item container b)"
proof (cases "metadata_string (evi_metadata item) ''ports''")
  case (Some v)
  show ?thesis unfolding link_ports_def Some option.case
  proof (rule sound_fold [OF assms(1)], goal_cases)
    case (1 port b')
    then have "knows b' container" using assms(2) by (simp add: grows_def)
    then show ?case using 1 unfolding Let_def sound_step_def by (auto simp: grows_def)
  qed
qed (simp add: link_ports_def sound_step_def assms)

text \<open>The edges of a container to its image, networks, volumes and ports.\<close>

lemma links_sound:
  assumes "builder_ok c b" "mapping_ok b ns" "knows b i"
    and b5: "b5 = link_image e c ns item i b"
    and b6: "b6 = link_named e c ns item i ''networks'' (mn_networks ns) RkConnectsTo text_network_edge b5"
    and b7: "b7 = link_named e c ns item i ''mounts'' (mn_volumes ns) RkMounts text_volume_edge b6"
  shows "sound_step c b (link_ports e c ns item i b7)"
proof -
  have s5: "sound_step c b b5" unfolding b5 by (rule link_image_sound [OF assms(1-3)])
  then have ok5: "builder_ok c b5" "knows b5 i" "names_ok b5 (mn_networks ns)" "names_ok b5 (mn_volumes ns)"
    using assms(3) mapping_ok_grows [OF assms(2)] by (auto simp: sound_step_def grows_def mapping_ok_def)
  have s6: "sound_step c b5 b6" unfolding b6 by (rule link_named_sound [OF ok5(1,3,2)])
  then have ok6: "builder_ok c b6" "knows b6 i" "names_ok b6 (mn_volumes ns)"
    using ok5 by (auto simp: sound_step_def grows_def names_ok_def)
  have s7: "sound_step c b6 b7" unfolding b7 by (rule link_named_sound [OF ok6(1,3,2)])
  then have ok7: "builder_ok c b7" "knows b7 i" using ok6(2) by (auto simp: sound_step_def grows_def)
  show ?thesis using s5 s6 s7 link_ports_sound [OF ok7] by (blast intro: sound_step_trans)
qed

text \<open>The parent of a container: its service, or else its project.\<close>

lemma parent_sound:
  assumes b: "builder_ok c b" "mapping_ok b ns" "names_ok b services" and known: "\<And>q. project = Some q \<Longrightarrow> knows b q"
    and p: "(case (project, service) of
      (Some p, Some v) \<Rightarrow> (case map_service e c ns item p v (b, services) of (i, x) \<Rightarrow> (Some i, x))
    | _ \<Rightarrow> (project, b, services)) = (parent, b', services')"
  shows "sound_step c b b' \<and> names_ok b' services' \<and> (\<forall>q. parent = Some q \<longrightarrow> knows b' q)"
proof (cases "\<exists>q v. project = Some q \<and> service = Some v")
  case True
  then obtain q v where qv: "project = Some q" "service = Some v" by blast
  obtain i b1 sv1 where m: "map_service e c ns item q v (b, services) = (i, b1, sv1)" by (rule prod_cases3)
  then show ?thesis using map_service_sound [OF b known [OF qv(1)] m] p qv by auto
next
  case False
  then have "(parent, b', services') = (project, b, services)" using p by (cases project; cases service) auto
  then show ?thesis using b known by (simp add: sound_step_def)
qed

lemma map_container_sound:
  assumes s: "sound_names c b0 s" and ns: "mapping_ok b0 ns"
  shows "sound_names c b0 (map_container e c ns item s)"
proof -
  obtain b services where s': "s = (b, services)" by (cases s)
  have b: "builder_ok c b" "grows b0 b" "names_ok b services" using s by (auto simp: sound_names_def sound_step_def s')
  have ns_b: "mapping_ok b ns" by (rule mapping_ok_grows [OF ns b(2)])
  let ?i = "stable_id e ''container'' (mc_host c) (evi_external_id item)"
  define project where "project = container_project ns item"
  define service where "service = (case metadata_string (evi_metadata item) ''compose_service'' of
      Some v \<Rightarrow> if v \<noteq> [] then Some v else None | None \<Rightarrow> None)"
  define b2 where "b2 = add_node (container_node e c ns item (use_in ?i project b)) (use_in ?i project b)"
  obtain parent b3 services' where p: "(case (project, service) of
      (Some p, Some v) \<Rightarrow> (case map_service e c ns item p v (b2, services) of (i, x) \<Rightarrow> (Some i, x))
    | _ \<Rightarrow> (project, b2, services)) = (parent, b3, services')" by (rule prod_cases3)
  have b2: "builder_ok c b2" "grows b b2" "names_ok b2 services" "knows b2 ?i"
    using b by (auto simp: b2_def grows_def)
  have ns2: "mapping_ok b2 ns" by (rule mapping_ok_grows [OF ns_b b2(2)])
  have known: "knows b2 q" if "project = Some q" for q
    using container_project_known [OF ns2] that unfolding project_def by blast
  have b3: "sound_step c b2 b3 \<and> names_ok b3 services' \<and> (\<forall>q. parent = Some q \<longrightarrow> knows b3 q)"
    by (rule parent_sound [OF b2(1) ns2 b2(3) known p])
  define b4 where "b4 = (case parent of
      Some p \<Rightarrow> add_edge e p ?i RkDeploys text_deploys_edge (item_refs c item) b3
    | None \<Rightarrow> add_edge e (mc_host c) ?i RkContains text_unassigned_edge (item_refs c item) b3)"
  have "knows b3 ?i" using b2(4) b3 by (auto simp: sound_step_def grows_def)
  then have b4: "sound_step c b3 b4" "knows b4 ?i"
    using b3 by (auto simp: b4_def sound_step_def grows_def split: option.split)
  have ok4: "builder_ok c b4" and ns4: "mapping_ok b4 ns"
    using b3 b4 mapping_ok_grows [OF ns2] by (auto simp: sound_step_def intro: grows_trans)
  define b5 where "b5 = link_image e c ns item ?i b4"
  define b6 where "b6 = link_named e c ns item ?i ''networks'' (mn_networks ns) RkConnectsTo text_network_edge b5"
  define b7 where "b7 = link_named e c ns item ?i ''mounts'' (mn_volumes ns) RkMounts text_volume_edge b6"
  have "sound_step c b3 (link_ports e c ns item ?i b7)"
    using b4(1) links_sound [OF ok4 ns4 b4(2) b5_def b6_def b7_def] by (blast intro: sound_step_trans)
  then have "sound_step c b2 (link_ports e c ns item ?i b7)" "names_ok (link_ports e c ns item ?i b7) services'"
    using b3 by (blast intro: sound_step_trans, auto simp: sound_step_def elim: names_ok_grows)
  then have "sound_names c b0 (link_ports e c ns item ?i b7, services')"
    using b(2) b2(2) by (auto simp: sound_names_def sound_step_def intro: grows_trans)
  moreover have "map_container e c ns item s = (link_ports e c ns item ?i b7, services')"
    using p unfolding s' map_container_def Let_def project_def [symmetric] service_def [symmetric] b2_def
    by (simp add: b4_def b5_def b6_def b7_def)
  ultimately show ?thesis by simp
qed

lemma map_document_sound:
  assumes "builder_ok c b" "\<And>p. sole = Some p \<Longrightarrow> knows b p"
  shows "sound_step c b (map_document e c sole item b)"
  using assms by (auto simp: map_document_def Let_def sound_step_def grows_def split: option.split)

lemma projects_known:
  assumes "builder_ok c b"
  shows "sound_step c b (fold (map_project e c ev) ns b)
    \<and> (\<forall>n \<in> set ns. knows (fold (map_project e c ev) ns b) (project_id_of e c n))"
  using assms
proof (induction ns arbitrary: b)
  case (Cons n ns)
  have n: "sound_step c b (map_project e c ev n b)" "knows (map_project e c ev n b) (project_id_of e c n)"
    using map_project_sound [OF Cons.prems] by auto
  then show ?case using Cons.IH [of "map_project e c ev n b"]
    by (auto simp: sound_step_def grows_def)
qed (simp add: sound_step_def)

lemma names_start: "builder_ok c b \<Longrightarrow> sound_names c b (b, no_names)"
  by (simp add: sound_names_def sound_step_def)

lemma built_ok: "builder_ok \<lparr>mc_run = run, mc_host = host\<rparr> (built e run host ev)"
proof -
  define c where "c = \<lparr>mc_run = run, mc_host = host\<rparr>"
  define b0 where "b0 = map_host c ev \<lparr>bd_nodes = [], bd_edges = [], bd_usage = []\<rparr>"
  define b1 where "b1 = fold (map_systemd_unit e c) (de_systemd_units ev) b0"
  define b2 where "b2 = fold (map_project e c ev) (project_names ev) b1"
  obtain b3 images where s3: "fold (map_image e c) (de_images ev) (b2, no_names) = (b3, images)" by fastforce
  obtain b4 networks where s4: "fold (map_named e c ''network'' GkNetwork ''Docker network'') (de_networks ev) (b3, no_names)
      = (b4, networks)" by fastforce
  obtain b5 volumes where s5: "fold (map_named e c ''volume'' GkVolume ''Docker volume'') (de_volumes ev) (b4, no_names)
      = (b5, volumes)" by fastforce
  define projects where "projects = projects_of e c ev"
  obtain b6 compose where s6: "fold (map_compose e c projects) (de_compose_projects ev) (b5, no_names) = (b6, compose)"
    by fastforce
  define ns where "ns = \<lparr>mn_projects = projects, mn_images = images, mn_networks = networks, mn_volumes = volumes,
      mn_compose = compose, mn_health = health_by_container ev\<rparr>"
  obtain b7 services where s7: "fold (map_container e c ns) (de_containers ev) (b6, no_names) = (b7, services)" by fastforce
  have ok0: "builder_ok c b0"
    by (simp add: b0_def map_host_def builder_ok_def add_node_def knows_def c_def)
  have "sound_step c b0 b1" unfolding b1_def by (rule sound_fold [OF ok0]) (rule map_systemd_sound)
  then have ok1: "builder_ok c b1" by (simp add: sound_step_def)
  have ok2: "builder_ok c b2" and pr2: "\<And>p. p \<in> snd ` set projects \<Longrightarrow> knows b2 p"
    using projects_known [OF ok1] unfolding b2_def sound_step_def projects_def projects_of_def by auto
  have st3: "sound_names c b2 (b3, images)"
    unfolding s3 [symmetric] by (rule sound_names_fold [OF names_start [OF ok2]]) (rule map_image_sound)
  then have ok3: "builder_ok c b3" by (simp add: sound_names_def sound_step_def)
  have st4: "sound_names c b3 (b4, networks)"
    unfolding s4 [symmetric] by (rule sound_names_fold [OF names_start [OF ok3]]) (rule map_named_sound)
  then have ok4: "builder_ok c b4" by (simp add: sound_names_def sound_step_def)
  have st5: "sound_names c b4 (b5, volumes)"
    unfolding s5 [symmetric] by (rule sound_names_fold [OF names_start [OF ok4]]) (rule map_named_sound)
  then have ok5: "builder_ok c b5" by (simp add: sound_names_def sound_step_def)
  have g25: "grows b2 b5" using st3 st4 st5 by (auto simp: sound_names_def sound_step_def grows_def)
  have pr5: "knows b5 p" if "p \<in> snd ` set projects" for p using pr2 [OF that] g25 by (simp add: grows_def)
  have st6: "sound_names c b5 (b6, compose)"
    unfolding s6 [symmetric] by (rule sound_names_fold [OF names_start [OF ok5]]) (rule map_compose_sound [OF _ pr5])
  then have ok6: "builder_ok c b6" by (simp add: sound_names_def sound_step_def)
  have ns6: "mapping_ok b6 ns"
    using st3 st4 st5 st6 pr5 unfolding mapping_ok_def ns_def sound_names_def sound_step_def names_ok_def grows_def by auto
  have st7: "sound_names c b6 (b7, services)"
    unfolding s7 [symmetric] by (rule sound_names_fold [OF names_start [OF ok6]]) (rule map_container_sound [OF _ ns6])
  then have ok7: "builder_ok c b7" and g7: "grows b6 b7" by (auto simp: sound_names_def sound_step_def)
  define sole where "sole = (case projects of [p] \<Rightarrow> Some (snd p) | _ \<Rightarrow> None)"
  have "knows b7 p" if "sole = Some p" for p
  proof -
    have "p \<in> snd ` set projects" using that by (auto simp: sole_def split: list.splits)
    then show ?thesis using ns6 g7 by (auto simp: mapping_ok_def ns_def grows_def)
  qed
  then have "sound_step c b7 (fold (map_document e c sole) (de_document_candidates ev) b7)"
    by (intro sound_fold [OF ok7] map_document_sound) (auto simp: grows_def)
  moreover have "built e run host ev = fold (map_document e c sole) (de_document_candidates ev) b7"
    unfolding built_def Let_def c_def [symmetric] projects_def [symmetric] b0_def [symmetric] b1_def [symmetric]
      b2_def [symmetric] s3 s4 s5 s6 ns_def [symmetric] s7 prod.case sole_def [symmetric] by simp
  ultimately show ?thesis unfolding sound_step_def c_def by simp
qed

lemma settle_node_id [simp]: "gn_id (settle_node u ign n) = gn_id n"
  by (simp add: settle_node_def Let_def)

lemma settle_edge_ids [simp]:
  "ge_id (settle_edge a x) = ge_id x" "ge_from (settle_edge a x) = ge_from x" "ge_to (settle_edge a x) = ge_to x"
  by (simp_all add: settle_edge_def)

lemma map_evidence_ok: "graph_ok (map_evidence e draft run host ev ignored) \<and> host \<in> node_ids (map_evidence e draft run host ev ignored)"
  using built_ok [of run host e ev]
  by (simp add: builder_ok_def graph_ok_def map_evidence_def Let_def comp_def node_ids_def knows_def image_image)

end
