(* ===== verification/ProjectionGraphs.thy ===== *)
theory ProjectionGraphs
  imports EvidenceGraph
begin

text \<open>
  What the operations on a graph keep: well-formed graphs, the nodes there are, and the layout. The overlay
  keeps what the user confirmed; undoing a patch of the agent gives back the graph there was.
\<close>

lemma graph_okI:
  "distinct (map gn_id ns) \<Longrightarrow> distinct (map ge_id es) \<Longrightarrow> (\<And>x. x \<in> set es \<Longrightarrow> ge_from x \<in> gn_id ` set ns \<and> ge_to x \<in> gn_id ` set ns)
   \<Longrightarrow> sn_nodes s = ns \<Longrightarrow> sn_edges s = es \<Longrightarrow> graph_ok s"
  by (simp add: graph_ok_def node_ids_def)

subsection \<open>Operations\<close>

lemma update_first_cases:
  assumes "update_first P f e xs = Inr ys"
  shows "\<exists>as x bs y. xs = as @ x # bs \<and> ys = as @ y # bs \<and> P x \<and> f x = Inr y \<and> (\<forall>a \<in> set as. \<not> P a)"
  using assms
proof (induction xs arbitrary: ys)
  case (Cons z zs)
  show ?case
  proof (cases "P z")
    case True
    then show ?thesis using Cons.prems by (intro exI [of _ "[]"]) auto
  next
    case False
    then obtain ws where "update_first P f e zs = Inr ws" "ys = z # ws" using Cons.prems by auto
    then obtain as x bs y where "zs = as @ x # bs" "ws = as @ y # bs" "P x" "f x = Inr y" "\<forall>a \<in> set as. \<not> P a"
      using Cons.IH by blast
    then show ?thesis using False \<open>ys = z # ws\<close> by (intro exI [of _ "z # as"] exI [of _ x] exI [of _ bs] exI [of _ y]) simp
  qed
qed simp

lemma update_node_ids:
  assumes "update_node i f s = Inr s'" and "\<And>n m. f n = Inr m \<Longrightarrow> gn_id m = gn_id n"
  shows "map gn_id (sn_nodes s') = map gn_id (sn_nodes s) \<and> sn_edges s' = sn_edges s \<and> sn_layout s' = sn_layout s"
proof -
  obtain ns where ns: "update_first (\<lambda>n. gn_id n = i) f (PNotFound ''projection_node'' i) (sn_nodes s) = Inr ns"
    "s' = s\<lparr>sn_nodes := ns\<rparr>" using assms(1) by (auto simp: update_node_def)
  then show ?thesis using update_first_cases [OF ns(1)] assms(2) by auto
qed

lemma node_ids_map: "map gn_id (sn_nodes s') = map gn_id (sn_nodes s) \<Longrightarrow> node_ids s' = node_ids s"
  unfolding node_ids_def by (metis list.set_map)

lemma graph_ok_same_ids:
  assumes "graph_ok s" "map gn_id (sn_nodes s') = map gn_id (sn_nodes s)"
    and "map ge_id (sn_edges s') = map ge_id (sn_edges s)"
    and "\<And>x. x \<in> set (sn_edges s') \<Longrightarrow> \<exists>y \<in> set (sn_edges s). ge_from x = ge_from y \<and> ge_to x = ge_to y"
  shows "graph_ok s'"
  using assms node_ids_map [OF assms(2)] unfolding graph_ok_def by metis

lemma graph_ok_nodes:
  assumes "map gn_id (sn_nodes s') = map gn_id (sn_nodes s)" "sn_edges s' = sn_edges s"
  shows "graph_ok s' = graph_ok s"
  using assms(1) node_ids_map [OF assms(1)] by (simp only: graph_ok_def assms(2))

lemma set_edge_states_simps [simp]:
  "sn_nodes (set_edge_states P st s) = sn_nodes s" "sn_layout (set_edge_states P st s) = sn_layout s"
  "map ge_id (sn_edges (set_edge_states P st s)) = map ge_id (sn_edges s)"
  by (auto simp: set_edge_states_def)

lemma set_edge_states_ok: "graph_ok s \<Longrightarrow> graph_ok (set_edge_states P st s)"
  by (rule graph_ok_same_ids) (auto simp: set_edge_states_def)

text \<open>An operation keeps a graph well-formed and its layout, and no node goes away.\<close>

definition keeps_graph :: "graph_snapshot \<Rightarrow> graph_snapshot \<Rightarrow> bool" where
  "keeps_graph s s' = ((graph_ok s \<longrightarrow> graph_ok s') \<and> node_ids s \<subseteq> node_ids s' \<and> sn_layout s' = sn_layout s)"

lemma keeps_graph_refl [simp]: "keeps_graph s s"
  by (simp add: keeps_graph_def)

lemma keeps_graph_trans: "keeps_graph a b \<Longrightarrow> keeps_graph b c \<Longrightarrow> keeps_graph a c"
  by (auto simp: keeps_graph_def)

lemma update_node_keeps:
  assumes "update_node i f s = Inr s'" and "\<And>n m. f n = Inr m \<Longrightarrow> gn_id m = gn_id n"
  shows "keeps_graph s s'"
proof -
  note u = update_node_ids [OF assms]
  show ?thesis unfolding keeps_graph_def using u graph_ok_nodes [of s' s] node_ids_map [of s' s] by blast
qed

lemma set_edge_states_keeps: "keeps_graph s (set_edge_states P st s)"
  by (auto simp: keeps_graph_def set_edge_states_ok node_ids_def)

lemma apply_operation_keeps: "apply_operation e draft op s = Inr s' \<Longrightarrow> keeps_graph s s'"
proof (cases op)
  case (CreateProject i label subtitle)
  assume "apply_operation e draft op s = Inr s'"
  then have s': "s' = s\<lparr>sn_nodes := sn_nodes s @ [new_project draft i label subtitle (length (sn_nodes s))]\<rparr>"
    and new: "i \<notin> node_ids s"
    by (auto simp: CreateProject list_ex_iff node_ids_def split: if_splits)
  then show ?thesis by (auto simp: keeps_graph_def graph_ok_def node_ids_def new_project_def)
next
  case (AddRelation f t k label)
  assume "apply_operation e draft op s = Inr s'"
  moreover define x where "x = \<lparr>ge_id = edge_id e f t k, ge_from = f, ge_to = t, ge_kind = k, ge_label = trim label,
      ge_state = PsDraft, ge_source_refs = [''user:draft:'' @ draft]\<rparr>"
  ultimately have "s' = s\<lparr>sn_edges := sn_edges s @ [x]\<rparr>" and "edge_id e f t k \<notin> ge_id ` set (sn_edges s)"
      and "f \<in> node_ids s" "t \<in> node_ids s"
    by (auto simp: AddRelation node_ids_def list_ex_iff split: if_splits)
  moreover have "ge_id x = edge_id e f t k" "ge_from x = f" "ge_to x = t" by (simp_all add: x_def)
  ultimately show ?thesis by (auto simp: keeps_graph_def graph_ok_def node_ids_def)
next
  case (RemoveRelation i)
  assume "apply_operation e draft op s = Inr s'"
  then show ?thesis
    by (auto simp: RemoveRelation keeps_graph_def graph_ok_def node_ids_def Let_def distinct_map_filter split: if_splits)
next
  case (ArchiveNode i)
  assume "apply_operation e draft op s = Inr s'"
  then show ?thesis
    by (auto simp: ArchiveNode intro: keeps_graph_trans [OF update_node_keeps set_edge_states_keeps])
next
  case (RestoreNode i)
  assume "apply_operation e draft op s = Inr s'"
  then show ?thesis
    by (auto simp: RestoreNode intro: keeps_graph_trans [OF update_node_keeps set_edge_states_keeps])
next
  case (AssignProject i project)
  assume "apply_operation e draft op s = Inr s'"
  then show ?thesis by (auto simp: AssignProject split: if_splits intro!: update_node_keeps)
qed (auto split: if_splits intro: update_node_keeps)

lemma apply_operations_keeps: "apply_operations e draft ops s = Inr s' \<Longrightarrow> keeps_graph s s'"
  by (induction ops arbitrary: s) (auto intro: keeps_graph_trans apply_operation_keeps)

lemma place_nodes_keeps: "place_nodes ps s = Inr s' \<Longrightarrow> keeps_graph s s'"
proof (induction ps s rule: place_nodes.induct)
  case (2 i p ps s)
  then obtain s1 where "update_node i (\<lambda>n. Inr (n\<lparr>gn_position := p\<rparr>)) s = Inr s1" "place_nodes ps s1 = Inr s'" "valid_position p"
    by (auto split: if_splits)
  moreover have "keeps_graph s s1" by (rule update_node_keeps [OF calculation(1)]) auto
  ultimately show ?case using "2.IH" by (blast intro: keeps_graph_trans)
qed simp

lemma ignore_node_keeps: "ignore_node r s = Inr s' \<Longrightarrow> keeps_graph s s'"
  by (auto simp: ignore_node_def intro: keeps_graph_trans [OF update_node_keeps set_edge_states_keeps])

lemma confirmed_snapshot_keeps: "keeps_graph s (confirmed_snapshot s)"
proof -
  have ids: "map gn_id (sn_nodes (confirmed_snapshot s)) = map gn_id (sn_nodes s)"
    "map ge_id (sn_edges (confirmed_snapshot s)) = map ge_id (sn_edges s)"
    by (simp_all add: confirmed_snapshot_def)
  have "\<exists>y \<in> set (sn_edges s). ge_from x = ge_from y \<and> ge_to x = ge_to y" if "x \<in> set (sn_edges (confirmed_snapshot s))" for x
    using that by (auto simp: confirmed_snapshot_def)
  then have "graph_ok (confirmed_snapshot s)" if "graph_ok s" using graph_ok_same_ids [OF that ids] by blast
  moreover have "sn_layout (confirmed_snapshot s) = sn_layout s" by (simp add: confirmed_snapshot_def)
  ultimately show ?thesis using node_ids_map [OF ids(1)] by (simp add: keeps_graph_def)
qed

lemma set_layout_revision_ok [simp]:
  "graph_ok (set_layout_revision r s) = graph_ok s" "node_ids (set_layout_revision r s) = node_ids s"
  "cl_layout_id (sn_layout (set_layout_revision r s)) = cl_layout_id (sn_layout s)"
  "set_layout_revision r (set_layout_revision q s) = set_layout_revision r s"
  by (simp_all add: set_layout_revision_def graph_ok_def node_ids_def)

subsection \<open>The overlay\<close>

lemma overlay_node_ok:
  assumes "graph_ok s"
  shows "graph_ok (overlay_node c s)" and "node_ids (overlay_node c s) = insert (gn_id c) (node_ids s)"
proof -
  have ids: "gn_id (decide_node c n) = gn_id n" "gn_id (preserve_node c) = gn_id c" for n
    by (simp_all add: decide_node_def preserve_node_def Let_def)
  show "node_ids (overlay_node c s) = insert (gn_id c) (node_ids s)"
  proof (cases "list_ex (\<lambda>n. gn_id n = gn_id c) (sn_nodes s)")
    case True
    then have "map gn_id (sn_nodes (overlay_node c s)) = map gn_id (sn_nodes s)" by (simp add: overlay_node_def ids)
    then have "node_ids (overlay_node c s) = node_ids s" by (rule node_ids_map)
    moreover have "gn_id c \<in> node_ids s" using True by (auto simp: node_ids_def list_ex_iff simp del: image_eqI intro: rev_image_eqI)
    ultimately show ?thesis by auto
  qed (simp add: overlay_node_def node_ids_def ids)
  show "graph_ok (overlay_node c s)"
  proof (cases "list_ex (\<lambda>n. gn_id n = gn_id c) (sn_nodes s)")
    case True
    then show ?thesis
      by (intro graph_ok_same_ids [OF assms]) (auto simp: overlay_node_def ids)
  next
    case False
    then show ?thesis using assms
      by (auto simp: overlay_node_def graph_ok_def node_ids_def ids list_ex_iff)
  qed
qed

lemma overlay_edge_ok:
  assumes "graph_ok s"
  shows "graph_ok (overlay_edge c s)" and "sn_nodes (overlay_edge c s) = sn_nodes s"
proof -
  show "sn_nodes (overlay_edge c s) = sn_nodes s" by (simp add: overlay_edge_def)
  have p: "ge_id (preserve_edge s c) = ge_id c" "ge_from (preserve_edge s c) = ge_from c" "ge_to (preserve_edge s c) = ge_to c"
    by (simp_all add: preserve_edge_def)
  show "graph_ok (overlay_edge c s)"
  proof (cases "list_ex (\<lambda>x. ge_id x = ge_id c) (sn_edges s)")
    case True
    then show ?thesis
      by (intro graph_ok_same_ids [OF assms]) (auto simp: overlay_edge_def split: if_splits)
  next
    case False
    then show ?thesis using assms
      by (auto simp: overlay_edge_def graph_ok_def node_ids_def p list_ex_iff)
  qed
qed

lemma overlay_nodes_ok:
  "graph_ok s \<Longrightarrow> graph_ok (fold overlay_node cs s) \<and> node_ids (fold overlay_node cs s) = node_ids s \<union> gn_id ` set cs"
  by (induction cs arbitrary: s) (auto simp: overlay_node_ok)

lemma overlay_edges_ok:
  "graph_ok s \<Longrightarrow> graph_ok (fold overlay_edge cs s) \<and> sn_nodes (fold overlay_edge cs s) = sn_nodes s"
  by (induction cs arbitrary: s) (simp_all add: overlay_edge_ok)

lemma drop_removed_ok: "graph_ok s \<Longrightarrow> graph_ok (drop_removed_edges b s)"
  by (auto simp: drop_removed_edges_def graph_ok_def node_ids_def Let_def distinct_map_filter split: option.split)

lemma drop_removed_nodes [simp]: "sn_nodes (drop_removed_edges b s) = sn_nodes s"
  by (simp add: drop_removed_edges_def Let_def split: option.split)

lemma overlay_ok: "graph_ok s \<Longrightarrow> graph_ok (overlay_confirmed_decisions s b)"
  unfolding overlay_confirmed_decisions_def
  using overlay_edges_ok overlay_nodes_ok drop_removed_ok by metis

subsection \<open>Confirmed decisions on a new scan\<close>

text \<open>What the user decided about a node: its name, its project, its place, and whether it is archived.\<close>

definition decided :: "graph_node \<Rightarrow> graph_node \<Rightarrow> bool" where
  "decided c n =
     (gn_id n = gn_id c \<and> gn_label n = gn_label c \<and> gn_project n = gn_project c \<and> gn_position n = gn_position c
      \<and> (gn_state c = PsArchived \<longrightarrow> gn_state n = PsArchived))"

lemma overlay_node_decides: "\<exists>n \<in> set (sn_nodes (overlay_node c s)). decided c n"
proof (cases "list_ex (\<lambda>n. gn_id n = gn_id c) (sn_nodes s)")
  case True
  then obtain n where "n \<in> set (sn_nodes s)" "gn_id n = gn_id c" by (auto simp: list_ex_iff)
  moreover have "decided c (decide_node c n)" using calculation by (simp add: decided_def decide_node_def Let_def)
  ultimately show ?thesis using True
    by (intro bexI [of _ "decide_node c n"]) (auto simp: overlay_node_def intro!: image_eqI [of _ _ n])
qed (auto simp: overlay_node_def decided_def preserve_node_def)

lemma overlay_node_others: "n \<in> set (sn_nodes s) \<Longrightarrow> gn_id n \<noteq> gn_id c \<Longrightarrow> n \<in> set (sn_nodes (overlay_node c s))"
  by (auto simp: overlay_node_def)

lemma overlay_nodes_others:
  "n \<in> set (sn_nodes s) \<Longrightarrow> gn_id n \<notin> gn_id ` set cs \<Longrightarrow> n \<in> set (sn_nodes (fold overlay_node cs s))"
  by (induction cs arbitrary: s) (auto simp: overlay_node_others)

lemma overlay_nodes_decide:
  assumes "c \<in> set cs" "distinct (map gn_id cs)"
  shows "\<exists>n \<in> set (sn_nodes (fold overlay_node cs s)). decided c n"
  using assms
proof (induction cs arbitrary: s)
  case (Cons c' cs)
  show ?case
  proof (cases "c = c'")
    case True
    obtain n where n: "n \<in> set (sn_nodes (overlay_node c s))" "decided c n" using overlay_node_decides by blast
    moreover have "gn_id n \<notin> gn_id ` set cs" using n(2) Cons.prems True by (auto simp: decided_def)
    ultimately show ?thesis using True overlay_nodes_others by auto
  qed (use Cons in auto)
qed simp

lemma overlay_edge_ids: "ge_id ` set (sn_edges (overlay_edge c s)) \<subseteq> insert (ge_id c) (ge_id ` set (sn_edges s))"
  by (auto simp: overlay_edge_def preserve_edge_def)

lemma overlay_edges_ids: "ge_id ` set (sn_edges (fold overlay_edge cs s)) \<subseteq> ge_id ` set cs \<union> ge_id ` set (sn_edges s)"
proof (induction cs arbitrary: s)
  case (Cons c cs)
  have "ge_id ` set (sn_edges (fold overlay_edge (c # cs) s))
      \<subseteq> ge_id ` set cs \<union> ge_id ` set (sn_edges (overlay_edge c s))" using Cons.IH by simp
  also have "\<dots> \<subseteq> ge_id ` set (c # cs) \<union> ge_id ` set (sn_edges s)" using overlay_edge_ids [of c s] by auto
  finally show ?case .
qed simp

subsection \<open>Evidence that is no longer stored\<close>

text \<open>
  \<open>prune_complete_runs\<close>, which runs after every successful scan: only the last three of the host keep their
  evidence. (The rows of \<open>evidence_items\<close> it deletes too are copies of items of the evidence.)
\<close>

definition pruned_scans :: "string \<Rightarrow> projection_db \<Rightarrow> scan_row list" where
  "pruned_scans host d =
     drop 3 (rev (sort_key scn_submitted_at (filter (\<lambda>r. scn_host r = host
       \<and> scn_state r \<in> {EvidenceReady, DiscoveryComplete, DiscoveryPartial, DiscoveryUnavailable}) (pj_scans d))))"

definition prune_complete_runs :: "string \<Rightarrow> projection_db \<Rightarrow> projection_db" where
  "prune_complete_runs host d =
     fold (\<lambda>r d. d\<lparr>pj_scans := update_rows (\<lambda>x. scn_id x = scn_id r) (\<lambda>x. x\<lparr>scn_evidence := None\<rparr>) (pj_scans d)\<rparr>)
       (pruned_scans host d) d"

lemma prune_fold:
  "fold (\<lambda>r d. d\<lparr>pj_scans := update_rows (\<lambda>x. scn_id x = scn_id r) (\<lambda>x. x\<lparr>scn_evidence := None\<rparr>) (pj_scans d)\<rparr>) rs d
   = d\<lparr>pj_scans := update_rows (\<lambda>x. scn_id x \<in> scn_id ` set rs) (\<lambda>x. x\<lparr>scn_evidence := None\<rparr>) (pj_scans d)\<rparr>"
proof (induction rs arbitrary: d)
  case (Cons r rs)
  then show ?case by (auto simp: update_rows_def)
qed (simp add: update_rows_def)

text \<open>In a descending list, a row that more than two others exceed is behind the first three.\<close>

lemma dropped_if_exceeded:
  fixes f :: "'a \<Rightarrow> int"
  assumes "r \<in> set xs" and "n \<le> length (filter (\<lambda>x. f r < f x) xs)"
  shows "r \<in> set (drop n (rev (sort_key f xs)))"
proof (rule ccontr)
  let ?ys = "rev (sort_key f xs)"
  assume no: "r \<notin> set (drop n ?ys)"
  have srt: "sorted_wrt (\<lambda>x y. f y \<le> f x) ?ys"
    using sorted_sort_key [of f xs] by (simp add: sorted_wrt_rev sorted_wrt_map)
  have "r \<in> set ?ys" using assms(1) by simp
  then obtain as bs where s: "?ys = as @ r # bs" by (meson split_list)
  have "length as < n"
  proof (rule ccontr)
    assume "\<not> length as < n"
    then have "drop n ?ys = drop n as @ r # bs" by (simp add: s)
    then show False using no by simp
  qed
  moreover have "filter (\<lambda>x. f r < f x) (r # bs) = []" using srt by (auto simp: s sorted_wrt_append filter_empty_conv)
  then have "filter (\<lambda>x. f r < f x) ?ys = filter (\<lambda>x. f r < f x) as" by (simp add: s)
  then have "length (filter (\<lambda>x. f r < f x) ?ys) \<le> length as" by (metis length_filter_le)
  moreover have "length (filter (\<lambda>x. f r < f x) ?ys) = length (filter (\<lambda>x. f r < f x) xs)"
    by (simp add: rev_filter [symmetric] filter_sort)
  ultimately show False using assms(2) by simp
qed

text \<open>Once its evidence is pruned, the scan of the confirmed version no longer says what the user removed.\<close>

lemma pruned_baseline:
  assumes "r \<in> set (pruned_scans host d)"
    and "\<And>v x. v \<in> set (pj_published d) \<Longrightarrow> pub_host v = host \<Longrightarrow> select_one (\<lambda>x. drf_id x = pub_draft v) (pj_drafts d) = Some x
           \<Longrightarrow> drf_run x = scn_id r"
    and "load_confirmed_baseline_in e host ignored (prune_complete_runs host d) = Some b"
  shows "cb_deterministic b = None"
proof -
  let ?d = "prune_complete_runs host d"
  have d: "?d = d\<lparr>pj_scans := pj_scans ?d\<rparr>"
    and scans: "pj_scans ?d = update_rows (\<lambda>x. scn_id x \<in> scn_id ` set (pruned_scans host d)) (\<lambda>x. x\<lparr>scn_evidence := None\<rparr>) (pj_scans d)"
    by (simp_all add: prune_complete_runs_def prune_fold)
  have same: "pj_published ?d = pj_published d" "pj_drafts ?d = pj_drafts d" by (subst d, simp)+
  let ?l = "rev (sort_key (\<lambda>(v, x). (pub_confirmed_at v, pub_id v))
     (List.map_filter (\<lambda>v. map_option (Pair v) (select_one (\<lambda>x. drf_id x = pub_draft v) (pj_drafts d)))
        (filter (\<lambda>v. pub_host v = host) (pj_published d))))"
  obtain v x rest where l: "?l = (v, x) # rest"
      and b: "cb_deterministic b = map_option (\<lambda>ev. map_evidence e (drf_id x) (drf_run x) host ev ignored)
        (Option.bind (select_one (\<lambda>r. scn_id r = drf_run x) (pj_scans ?d)) scn_evidence)"
    using assms(3) unfolding load_confirmed_baseline_in_def same
    by (cases ?l) (auto split: prod.splits)
  have "(v, x) \<in> set ?l" unfolding l by simp
  then have "v \<in> set (pj_published d)" "pub_host v = host" "select_one (\<lambda>x. drf_id x = pub_draft v) (pj_drafts d) = Some x"
    by (auto simp: map_filter_def)
  then have run: "drf_run x = scn_id r" by (rule assms(2))
  have "Option.bind (select_one (\<lambda>y. scn_id y = drf_run x) (pj_scans ?d)) scn_evidence = None"
  proof (cases "select_one (\<lambda>y. scn_id y = drf_run x) (pj_scans ?d)")
    case (Some y)
    then have "y \<in> set (pj_scans ?d)" "scn_id y = scn_id r" using select_one_Some [OF Some] run by simp_all
    then have "scn_evidence y = None" using assms(1) by (auto simp: scans update_rows_def)
    then show ?thesis using Some by simp
  qed simp
  then show ?thesis by (simp add: b)
qed

lemma archived_edge_ids: "ge_id ` set (map (\<lambda>x. if P x then x\<lparr>ge_state := a\<rparr> else x) es) = ge_id ` set es"
  by (induction es) simp_all

lemma overlay_edge_keeps: "ge_id ` set (sn_edges s) \<subseteq> ge_id ` set (sn_edges (overlay_edge c s))"
  by (simp add: overlay_edge_def archived_edge_ids subset_insertI del: set_map)

lemma overlay_edges_keep: "ge_id ` set (sn_edges s) \<subseteq> ge_id ` set (sn_edges (fold overlay_edge cs s))"
  by (induction cs arbitrary: s) (simp, use overlay_edge_keeps in fastforce)

lemma overlay_nodes_edges: "sn_edges (fold overlay_node cs t) = sn_edges t"
  by (induction cs arbitrary: t) (simp_all add: overlay_node_def)

lemma overlay_without_evidence:
  assumes "cb_deterministic b = None"
  shows "ge_id ` set (sn_edges current) \<subseteq> ge_id ` set (sn_edges (overlay_confirmed_decisions current b))"
  using overlay_edges_keep [of "fold overlay_node (sn_nodes (cb_snapshot b)) (drop_removed_edges b current)"]
  by (simp add: overlay_confirmed_decisions_def overlay_nodes_edges drop_removed_edges_def assms)

text \<open>
  The user confirmed a graph without a relation of the scan. Three scans later the evidence of that scan is
  pruned, and the relation is back in the draft of the next scan.
\<close>

theorem removed_edges_return:
  assumes "r \<in> set (pj_scans d)" and "scn_host r = host"
    and "scn_state r \<in> {EvidenceReady, DiscoveryComplete, DiscoveryPartial, DiscoveryUnavailable}"
    and "3 \<le> length (filter (\<lambda>x. scn_host x = host \<and> scn_submitted_at r < scn_submitted_at x
            \<and> scn_state x \<in> {EvidenceReady, DiscoveryComplete, DiscoveryPartial, DiscoveryUnavailable}) (pj_scans d))"
    and "\<And>v x. v \<in> set (pj_published d) \<Longrightarrow> pub_host v = host \<Longrightarrow> select_one (\<lambda>x. drf_id x = pub_draft v) (pj_drafts d) = Some x
           \<Longrightarrow> drf_run x = scn_id r"
    and "load_confirmed_baseline_in e host ignored (prune_complete_runs host d) = Some b"
  shows "ge_id ` set (sn_edges current) \<subseteq> ge_id ` set (sn_edges (overlay_confirmed_decisions current b))"
proof -
  let ?done = "\<lambda>x. scn_host x = host
       \<and> scn_state x \<in> {EvidenceReady, DiscoveryComplete, DiscoveryPartial, DiscoveryUnavailable}"
  have "filter (\<lambda>x. scn_host x = host \<and> scn_submitted_at r < scn_submitted_at x
            \<and> scn_state x \<in> {EvidenceReady, DiscoveryComplete, DiscoveryPartial, DiscoveryUnavailable}) (pj_scans d)
      = filter (\<lambda>x. scn_submitted_at r < scn_submitted_at x) (filter ?done (pj_scans d))"
    unfolding filter_filter by (rule filter_cong) auto
  then have "r \<in> set (pruned_scans host d)"
    unfolding pruned_scans_def using assms(1-4) by (intro dropped_if_exceeded) auto
  then show ?thesis using pruned_baseline [OF _ assms(5,6)] by (intro overlay_without_evidence)
qed

subsection \<open>What a rescan keeps\<close>

text \<open>
  C13. A new scan keeps what the user confirmed: every node of the confirmed version is there with its name,
  project and place, and archived if it was, and a node of the scan the version does not know is taken over as it
  is. A relation the user removed from the graph of the confirmed scan does not come back while the evidence of that
  scan is stored; once it is pruned, every relation of the new scan is in the draft, removed before or not.
\<close>

theorem overlay_keeps_decisions:
  assumes "graph_ok (cb_snapshot b)" and "graph_ok current"
  shows "graph_ok (overlay_confirmed_decisions current b)
    \<and> (\<forall>c \<in> set (sn_nodes (cb_snapshot b)). \<exists>n \<in> set (sn_nodes (overlay_confirmed_decisions current b)). decided c n)
    \<and> (\<forall>n \<in> set (sn_nodes current). gn_id n \<notin> node_ids (cb_snapshot b)
         \<longrightarrow> n \<in> set (sn_nodes (overlay_confirmed_decisions current b)))
    \<and> (\<forall>previous. \<forall>x \<in> set (sn_edges previous). cb_deterministic b = Some previous
         \<and> ge_id x \<notin> ge_id ` set (sn_edges (cb_snapshot b))
         \<longrightarrow> ge_id x \<notin> ge_id ` set (sn_edges (overlay_confirmed_decisions current b)))
    \<and> (cb_deterministic b = None
         \<longrightarrow> ge_id ` set (sn_edges current) \<subseteq> ge_id ` set (sn_edges (overlay_confirmed_decisions current b)))"
proof (intro conjI)
  let ?cs = "sn_nodes (cb_snapshot b)"
  let ?s = "fold overlay_node ?cs (drop_removed_edges b current)"
  have s: "graph_ok ?s" using overlay_nodes_ok [OF drop_removed_ok [OF assms(2)]] by blast
  have nodes: "sn_nodes (overlay_confirmed_decisions current b) = sn_nodes ?s"
    unfolding overlay_confirmed_decisions_def using overlay_edges_ok [OF s] by blast
  show "graph_ok (overlay_confirmed_decisions current b)" by (rule overlay_ok [OF assms(2)])
  show "\<forall>c \<in> set ?cs. \<exists>n \<in> set (sn_nodes (overlay_confirmed_decisions current b)). decided c n"
    unfolding nodes using overlay_nodes_decide assms(1) by (auto simp: graph_ok_def)
  show "\<forall>n \<in> set (sn_nodes current). gn_id n \<notin> node_ids (cb_snapshot b)
         \<longrightarrow> n \<in> set (sn_nodes (overlay_confirmed_decisions current b))"
    unfolding nodes using overlay_nodes_others by (auto simp: node_ids_def)
  show "cb_deterministic b = None
      \<longrightarrow> ge_id ` set (sn_edges current) \<subseteq> ge_id ` set (sn_edges (overlay_confirmed_decisions current b))"
    using overlay_without_evidence by blast
  have "ge_id x \<notin> ge_id ` set (sn_edges (drop_removed_edges b current))"
    if "cb_deterministic b = Some previous" "x \<in> set (sn_edges previous)" "ge_id x \<notin> ge_id ` set (sn_edges (cb_snapshot b))"
    for previous x
  proof -
    have "ge_id x \<in> ge_id ` {y \<in> set (sn_edges previous). ge_id y \<notin> ge_id ` set (sn_edges (cb_snapshot b))}"
      using that(2,3) by blast
    then show ?thesis using that(1) by (auto simp: drop_removed_edges_def Let_def)
  qed
  then show "\<forall>previous. \<forall>x \<in> set (sn_edges previous). cb_deterministic b = Some previous
         \<and> ge_id x \<notin> ge_id ` set (sn_edges (cb_snapshot b))
         \<longrightarrow> ge_id x \<notin> ge_id ` set (sn_edges (overlay_confirmed_decisions current b))"
    unfolding overlay_confirmed_decisions_def using overlay_edges_ids [of "sn_edges (cb_snapshot b)" ?s] unfolding overlay_nodes_edges by blast
qed

text \<open>A scan of a host with one container, the version in which the user renamed it and removed the edge, and a rescan.\<close>

definition plain_node :: "string \<Rightarrow> node_kind \<Rightarrow> string \<Rightarrow> graph_node" where
  "plain_node i k label = \<lparr>gn_id = i, gn_kind = k, gn_label = label, gn_subtitle = None, gn_state = PsDraft, gn_source_refs = [],
     gn_observed_at = None, gn_position = node_position 0 k, gn_width = Fin 1, gn_height = Fin 1, gn_summary = None,
     gn_facts = [], gn_project = None, gn_health = None\<rparr>"

definition plain_edge :: "string \<Rightarrow> string \<Rightarrow> string \<Rightarrow> graph_edge" where
  "plain_edge i f t = \<lparr>ge_id = i, ge_from = f, ge_to = t, ge_kind = RkContains, ge_label = i, ge_state = PsDraft, ge_source_refs = []\<rparr>"

definition plain_graph :: "graph_node list \<Rightarrow> graph_edge list \<Rightarrow> graph_snapshot" where
  "plain_graph ns es = \<lparr>sn_focus = (ScopeGlobal, ''w''), sn_nodes = ns, sn_edges = es,
     sn_layout = \<lparr>cl_layout_id = ''layout-d'', cl_scope = ''host:h'', cl_revision = 1\<rparr>\<rparr>"

definition scanned :: graph_snapshot where
  "scanned = plain_graph [plain_node ''h'' GkHost ''host'', plain_node ''c'' GkContainer ''api''] [plain_edge ''x'' ''h'' ''c'']"

definition renamed :: graph_snapshot where
  "renamed = plain_graph [plain_node ''h'' GkHost ''host'', plain_node ''c'' GkContainer ''backend''] []"

lemma plain_simps [simp]:
  "gn_id (plain_node i k l) = i" "gn_label (plain_node i k l) = l" "ge_id (plain_edge i f t) = i"
  "ge_from (plain_edge i f t) = f" "ge_to (plain_edge i f t) = t" "sn_nodes (plain_graph ns es) = ns"
  "sn_edges (plain_graph ns es) = es" "gn_kind (plain_node i k l) = k" "gn_state (plain_node i k l) = PsDraft"
  "sn_layout (plain_graph ns es) = \<lparr>cl_layout_id = ''layout-d'', cl_scope = ''host:h'', cl_revision = 1\<rparr>"
  by (simp_all add: plain_node_def plain_edge_def plain_graph_def)

theorem overlay_keeps_decisions_witness:
  "(\<exists>n \<in> set (sn_nodes (overlay_confirmed_decisions scanned
        \<lparr>cb_snapshot = renamed, cb_deterministic = Some scanned, cb_revision = 1\<rparr>)). gn_id n = ''c'' \<and> gn_label n = ''backend'')
   \<and> ''x'' \<notin> ge_id ` set (sn_edges (overlay_confirmed_decisions scanned
        \<lparr>cb_snapshot = renamed, cb_deterministic = Some scanned, cb_revision = 1\<rparr>))"
proof -
  let ?b = "\<lparr>cb_snapshot = renamed, cb_deterministic = Some scanned, cb_revision = 1\<rparr>"
  have ok: "graph_ok (cb_snapshot ?b)" "graph_ok scanned"
    by (simp_all add: graph_ok_def renamed_def scanned_def node_ids_def)
  note o = overlay_keeps_decisions [OF ok]
  have "plain_node ''c'' GkContainer ''backend'' \<in> set (sn_nodes (cb_snapshot ?b))" by (simp add: renamed_def)
  then obtain n where "n \<in> set (sn_nodes (overlay_confirmed_decisions scanned ?b))"
      "decided (plain_node ''c'' GkContainer ''backend'') n" using o by blast
  moreover have "plain_edge ''x'' ''h'' ''c'' \<in> set (sn_edges scanned)" "cb_deterministic ?b = Some scanned"
      "ge_id (plain_edge ''x'' ''h'' ''c'') \<notin> ge_id ` set (sn_edges (cb_snapshot ?b))"
    by (simp_all add: scanned_def renamed_def)
  then have "ge_id (plain_edge ''x'' ''h'' ''c'') \<notin> ge_id ` set (sn_edges (overlay_confirmed_decisions scanned ?b))"
    using o by blast
  ultimately show ?thesis by (auto simp: decided_def)
qed

end
