(* ===== verification/ProjectRemoval.thy ===== *)
theory ProjectRemoval
  imports ProjectionGraphs
begin

text \<open>
  The deletion of a project in \<open>backend/src/data_management.rs\<close>: its nodes leave every draft and every published
  version in one transaction. The table \<open>projects\<close> of the first migration, from which a row is deleted as well,
  is never filled by the program and has no counterpart here. Backup, confirmation header and stored response of
  the handler are not modelled.
\<close>

subsection \<open>The operations\<close>

datatype data_error = DataNotFound string string

definition in_project :: "string \<Rightarrow> graph_node \<Rightarrow> bool" where
  "in_project project n = (gn_id n = project \<or> gn_project n = Some project)"

definition remove_project :: "string \<Rightarrow> graph_snapshot \<Rightarrow> string list \<times> graph_snapshot" where
  "remove_project project s =
     (let removed = map gn_id (filter (in_project project) (sn_nodes s))
      in (removed, s\<lparr>sn_nodes := filter (\<lambda>n. gn_id n \<notin> set removed) (sn_nodes s),
                     sn_edges := filter (\<lambda>x. ge_from x \<notin> set removed \<and> ge_to x \<notin> set removed) (sn_edges s)\<rparr>))"

definition filter_project_snapshot :: "graph_snapshot \<Rightarrow> string \<Rightarrow> graph_snapshot" where
  "filter_project_snapshot s project =
     (let linked = (\<lambda>n x. ge_from x = project \<and> ge_to x = gn_id n \<or> ge_to x = project \<and> ge_from x = gn_id n);
          keep = set (map gn_id (filter (\<lambda>n. in_project project n \<or> list_ex (linked n) (sn_edges s)) (sn_nodes s)))
      in s\<lparr>sn_nodes := filter (\<lambda>n. gn_id n \<in> keep) (sn_nodes s),
           sn_edges := filter (\<lambda>x. ge_from x \<in> keep \<and> ge_to x \<in> keep) (sn_edges s),
           sn_focus := (fst (sn_focus s), project)\<rparr>)"

definition trim_layout :: "string \<Rightarrow> int \<Rightarrow> string list \<Rightarrow> secs \<Rightarrow> projection_db \<Rightarrow> projection_db" where
  "trim_layout i revision removed now d =
     (case select_one (\<lambda>l. lay_id l = i) (pj_layouts d) of
        None \<Rightarrow> d
      | Some row \<Rightarrow> d\<lparr>pj_layouts := update_rows (\<lambda>l. lay_id l = i)
          (\<lambda>l. l\<lparr>lay_revision := revision, lay_positions := filter (\<lambda>p. fst p \<notin> set removed) (lay_positions row),
                 lay_updated_at := now\<rparr>) (pj_layouts d)\<rparr>)"

definition without_project :: "string \<Rightarrow> secs \<Rightarrow> draft_row \<Rightarrow> draft_row \<Rightarrow> draft_row" where
  "without_project project now row x =
     x\<lparr>drf_revision := drf_revision row + 1, drf_pending_changes := drf_pending_changes x + 1,
       drf_snapshot := set_layout_revision (drf_revision row + 1) (snd (remove_project project (drf_snapshot row))),
       drf_updated_at := now\<rparr>"

definition remove_from_draft :: "string \<Rightarrow> secs \<Rightarrow> draft_row \<Rightarrow> nat \<times> projection_db \<Rightarrow> nat \<times> projection_db" where
  "remove_from_draft project now row s =
     (let removed = fst (remove_project project (drf_snapshot row)); d = snd s
      in if removed = [] then s
         else (fst s + 1,
           trim_layout (cl_layout_id (sn_layout (drf_snapshot row))) (drf_revision row + 1) removed now
             (d\<lparr>pj_drafts := update_rows (\<lambda>x. drf_id x = drf_id row) (without_project project now row) (pj_drafts d)\<rparr>)))"

definition remove_from_version :: "string \<Rightarrow> published_row \<Rightarrow> projection_db \<Rightarrow> projection_db" where
  "remove_from_version project row d =
     (case remove_project project (pub_snapshot row) of (removed, s) \<Rightarrow>
        if removed = [] then d
        else d\<lparr>pj_published := update_rows (\<lambda>v. pub_id v = pub_id row) (\<lambda>v. v\<lparr>pub_snapshot := s\<rparr>) (pj_published d)\<rparr>)"

definition remove_project_from_snapshots :: "string \<Rightarrow> secs \<Rightarrow> projection_db \<Rightarrow> (data_error + unit) \<times> projection_db" where
  "remove_project_from_snapshots project now d =
     (case fold (remove_from_draft project now) (pj_drafts d) (0, d) of (changed, d1) \<Rightarrow>
        let d2 = fold (remove_from_version project) (pj_published d1) d1
        in if changed = 0 then (Inl (DataNotFound ''project'' project), d) else (Inr (), d2))"

subsection \<open>Graphs\<close>

lemma remove_project_ok: "graph_ok s \<Longrightarrow> graph_ok (snd (remove_project project s))"
  by (auto simp: remove_project_def graph_ok_def node_ids_def Let_def distinct_map_filter)

lemma filter_project_ok: "graph_ok s \<Longrightarrow> graph_ok (filter_project_snapshot s project)"
  by (auto simp: filter_project_snapshot_def graph_ok_def node_ids_def Let_def distinct_map_filter)

lemma remove_project_nodes:
  assumes "distinct (map gn_id (sn_nodes s))"
  shows "sn_nodes (snd (remove_project project s)) = filter (\<lambda>n. \<not> in_project project n) (sn_nodes s)"
proof -
  have "gn_id n \<in> set (map gn_id (filter (in_project project) (sn_nodes s))) \<longleftrightarrow> in_project project n"
    if "n \<in> set (sn_nodes s)" for n
    using that assms by (auto simp: distinct_map dest: inj_onD)
  then show ?thesis by (auto simp: remove_project_def Let_def intro!: filter_cong)
qed

lemma remove_project_nothing: "fst (remove_project project s) = [] \<Longrightarrow> \<not> list_ex (in_project project) (sn_nodes s)"
  by (auto simp: remove_project_def Let_def filter_empty_conv list_ex_iff)

subsection \<open>Rows rewritten by the rows that were read\<close>

text \<open>Each row read is written by its key; with distinct keys every row is changed by itself alone.\<close>

lemma fold_update_rows:
  assumes "distinct (map k rows)" "\<And>r x. k (f r x) = k x"
  shows "fold (\<lambda>r rs. if Q r then update_rows (\<lambda>x. k x = k r) (f r) rs else rs) rows ys =
    map (\<lambda>y. case find (\<lambda>r. k r = k y) rows of None \<Rightarrow> y | Some r \<Rightarrow> if Q r then f r y else y) ys"
  using assms(1)
proof (induction rows arbitrary: ys)
  case (Cons r rows)
  have none: "find (\<lambda>q. k q = k y) rows = None" if "k r = k y" for y
    using that Cons.prems unfolding find_None_iff by (metis distinct.simps(2) image_eqI list.set_map list.simps(9))
  have ys: "(if Q r then update_rows (\<lambda>x. k x = k r) (f r) ys else ys) = map (\<lambda>y. if Q r \<and> k r = k y then f r y else y) ys"
    by (auto simp: update_rows_def)
  have "distinct (map k rows)" using Cons.prems by simp
  then show ?case using Cons.IH none assms(2) by (auto simp: ys comp_def)
qed simp

lemma find_by_key: "distinct (map k rows) \<Longrightarrow> y \<in> set rows \<Longrightarrow> find (\<lambda>r. k r = k y) rows = Some y"
  using select_one_unique [of k rows y "\<lambda>r. k r = k y"] by (simp add: select_one_def)

lemma fold_update_rows_self:
  assumes "distinct (map k rows)" "\<And>r x. k (f r x) = k x"
  shows "fold (\<lambda>r rs. if Q r then update_rows (\<lambda>x. k x = k r) (f r) rs else rs) rows rows = map (\<lambda>y. if Q y then f y y else y) rows"
proof -
  note fold_update_rows [where Q = Q and f = f and rows = rows and ys = rows, OF assms]
  also have "map (\<lambda>y. case find (\<lambda>r. k r = k y) rows of None \<Rightarrow> y | Some r \<Rightarrow> if Q r then f r y else y) rows
      = map (\<lambda>y. if Q y then f y y else y) rows"
    by (rule map_cong [OF refl]) (simp add: find_by_key [OF assms(1)])
  finally show ?thesis .
qed

subsection \<open>The whole removal\<close>

definition holds_project :: "string \<Rightarrow> graph_snapshot \<Rightarrow> bool" where
  "holds_project project s = (\<exists>n \<in> set (sn_nodes s). in_project project n)"

lemma holds_project_removed: "fst (remove_project project s) \<noteq> [] \<longleftrightarrow> holds_project project s"
  by (auto simp: remove_project_def Let_def filter_empty_conv holds_project_def)

lemma trim_layout_keeps [simp]: "pj_drafts (trim_layout i r ps t d) = pj_drafts d" "pj_published (trim_layout i r ps t d) = pj_published d"
  by (simp_all add: trim_layout_def split: option.splits)

lemma fold_remove_drafts:
  "pj_drafts (snd (fold (remove_from_draft project now) rows s))
     = fold (\<lambda>r rs. if holds_project project (drf_snapshot r) then update_rows (\<lambda>x. drf_id x = drf_id r) (without_project project now r) rs
         else rs) rows (pj_drafts (snd s))
   \<and> pj_published (snd (fold (remove_from_draft project now) rows s)) = pj_published (snd s)
   \<and> fst (fold (remove_from_draft project now) rows s) = fst s + length (filter (\<lambda>r. holds_project project (drf_snapshot r)) rows)"
  by (induction rows arbitrary: s) (simp_all add: remove_from_draft_def Let_def flip: holds_project_removed)

lemma fold_remove_versions:
  "pj_published (fold (remove_from_version project) rows d)
     = fold (\<lambda>r rs. if holds_project project (pub_snapshot r)
         then update_rows (\<lambda>v. pub_id v = pub_id r) (\<lambda>v. v\<lparr>pub_snapshot := snd (remove_project project (pub_snapshot r))\<rparr>) rs
         else rs) rows (pj_published d)
   \<and> pj_drafts (fold (remove_from_version project) rows d) = pj_drafts d"
  by (induction rows arbitrary: d) (simp_all add: remove_from_version_def case_prod_beta flip: holds_project_removed)

lemma without_project_id [simp]: "drf_id (without_project project now r x) = drf_id x"
  by (simp add: without_project_def)

lemma removal_result:
  assumes "distinct (map drf_id (pj_drafts d))" "distinct (map pub_id (pj_published d))"
    and "remove_project_from_snapshots project now d = (Inr (), d')"
  shows "pj_drafts d' = map (\<lambda>x. if holds_project project (drf_snapshot x) then without_project project now x x else x) (pj_drafts d)
     \<and> pj_published d' = map (\<lambda>v. if holds_project project (pub_snapshot v)
         then v\<lparr>pub_snapshot := snd (remove_project project (pub_snapshot v))\<rparr> else v) (pj_published d)"
  using assms(3)
  by (auto simp: remove_project_from_snapshots_def Let_def case_prod_beta fold_remove_drafts fold_remove_versions
      fold_update_rows_self [OF assms(1)] fold_update_rows_self [OF assms(2)] split: if_splits)

lemma removal_refused:
  "fst (remove_project_from_snapshots project now d) = Inr () \<longleftrightarrow> (\<exists>x \<in> set (pj_drafts d). holds_project project (drf_snapshot x))"
  "fst (remove_project_from_snapshots project now d) \<noteq> Inr () \<Longrightarrow> snd (remove_project_from_snapshots project now d) = d"
  by (auto simp: remove_project_from_snapshots_def Let_def case_prod_beta fold_remove_drafts filter_empty_conv split: if_splits)

lemma nothing_held: "graph_ok s \<Longrightarrow> \<not> holds_project project (snd (remove_project project s))"
  by (simp add: holds_project_def remove_project_nodes graph_ok_def)

end
