(* ===== verification/ProjectionHistory.thy ===== *)
theory ProjectionHistory
  imports ProjectRemoval
begin

text \<open>
  The tables of the projection as a transition system over all operations that write drafts and versions, with
  the states a handler may still hold from its reads. Well-formed graphs are an invariant, and so is that a
  revision of a draft has one graph until it is confirmed, from which follows that an accepted edit is an edit of
  the current draft. Deletion of a host or of the workspace is not a step.
\<close>

subsection \<open>What a step may do to the drafts\<close>

definition stored_graphs_ok :: "projection_db \<Rightarrow> bool" where
  "stored_graphs_ok d =
     ((\<forall>x \<in> set (pj_drafts d). graph_ok (drf_snapshot x)) \<and> (\<forall>v \<in> set (pj_published d). graph_ok (pub_snapshot v)))"

text \<open>A draft stays, never goes back, and changes at one revision only by being confirmed.\<close>

definition continues_as :: "draft_row \<Rightarrow> draft_row \<Rightarrow> bool" where
  "continues_as x y =
     (drf_id y = drf_id x \<and> drf_revision x \<le> drf_revision y
      \<and> (drf_revision x = drf_revision y \<longrightarrow> y = x \<or> drf_state y = DsConfirmed))"

lemma continues_refl [simp]: "continues_as x x"
  by (simp add: continues_as_def)

lemma continues_trans: "continues_as x y \<Longrightarrow> continues_as y z \<Longrightarrow> continues_as x z"
  by (auto simp: continues_as_def)

definition later :: "projection_db \<Rightarrow> projection_db \<Rightarrow> bool" where
  "later d d' = (\<forall>x \<in> set (pj_drafts d). \<exists>y \<in> set (pj_drafts d'). continues_as x y)"

lemma later_subset: "set (pj_drafts d) \<subseteq> set (pj_drafts d') \<Longrightarrow> later d d'"
  unfolding later_def using continues_refl by blast

lemma later_refl [simp]: "later d d"
  by (rule later_subset) simp

lemma later_trans: "later a b \<Longrightarrow> later b c \<Longrightarrow> later a c"
  unfolding later_def by (meson continues_trans)

definition drafts_ok :: "projection_db \<Rightarrow> bool" where
  "drafts_ok d = (stored_graphs_ok d \<and> distinct (map drf_id (pj_drafts d)) \<and> distinct (map pub_id (pj_published d)))"

definition sound_change :: "projection_db \<Rightarrow> projection_db \<Rightarrow> bool" where
  "sound_change d d' = (drafts_ok d \<longrightarrow> drafts_ok d' \<and> later d d')"

lemma sound_refl [simp]: "sound_change d d"
  by (simp add: sound_change_def)

lemma sound_same: "pj_drafts d' = pj_drafts d \<Longrightarrow> pj_published d' = pj_published d \<Longrightarrow> sound_change d d'"
  by (simp add: sound_change_def drafts_ok_def stored_graphs_ok_def later_subset)

lemma sound_trans: "sound_change a b \<Longrightarrow> sound_change b c \<Longrightarrow> sound_change a c"
  unfolding sound_change_def by (blast intro: later_trans)

text \<open>The next revision of a row, or the confirmation of a revision.\<close>

definition next_row :: "draft_row \<Rightarrow> draft_row \<Rightarrow> bool" where
  "next_row x y =
     (drf_id y = drf_id x \<and> graph_ok (drf_snapshot y)
      \<and> (drf_revision y = drf_revision x + 1 \<or> drf_revision y = drf_revision x \<and> drf_state y = DsConfirmed))"

lemma sound_update:
  assumes "pj_drafts d' = update_rows P f (pj_drafts d)" "pj_published d' = pj_published d"
    and "\<And>x. x \<in> set (pj_drafts d) \<Longrightarrow> P x \<Longrightarrow> next_row x (f x)"
  shows "sound_change d d'"
proof -
  have ids: "map drf_id (pj_drafts d') = map drf_id (pj_drafts d)"
    unfolding assms(1) by (rule map_update_rows) (use assms(3) next_row_def in blast)
  have step: "\<exists>y \<in> set (pj_drafts d'). continues_as x y" if x: "x \<in> set (pj_drafts d)" for x
  proof -
    define y where "y = (if P x then f x else x)"
    have "y \<in> set (pj_drafts d')" using x by (auto simp: assms(1) update_rows_def y_def)
    moreover have "continues_as x y" using assms(3) [OF x] by (auto simp: y_def continues_as_def next_row_def)
    ultimately show ?thesis by blast
  qed
  have "graph_ok (drf_snapshot y)" if "y \<in> set (pj_drafts d')" "\<forall>x \<in> set (pj_drafts d). graph_ok (drf_snapshot x)" for y
    using that assms(3) by (auto simp: assms(1) set_update_rows next_row_def)
  then show ?thesis using step
    by (simp add: sound_change_def drafts_ok_def stored_graphs_ok_def later_def ids assms(2))
qed

lemma sound_insert_published:
  assumes "insert_published v d = Inr d'" "graph_ok (pub_snapshot v)"
  shows "sound_change d d' \<and> pj_drafts d' = pj_drafts d"
proof -
  have "d' = d\<lparr>pj_published := pj_published d @ [v]\<rparr>" "pub_id v \<notin> pub_id ` set (pj_published d)"
    using assms(1) by (auto simp: insert_published_def split: if_splits)
  then show ?thesis using assms(2) by (auto simp: sound_change_def drafts_ok_def stored_graphs_ok_def intro: later_subset)
qed

lemma sound_insert_draft:
  assumes "insert_draft x d = Inr d'" "graph_ok (drf_snapshot x)"
  shows "sound_change d d'"
proof -
  have "d' = d\<lparr>pj_drafts := pj_drafts d @ [x]\<rparr>" "drf_id x \<notin> drf_id ` set (pj_drafts d)"
    using assms(1) by (auto simp: insert_draft_def split: if_splits)
  then show ?thesis using assms(2) by (auto simp: sound_change_def drafts_ok_def stored_graphs_ok_def intro: later_subset)
qed

subsection \<open>Reading and writing a draft\<close>

lemma load_projection_draft_row:
  "load_projection_draft d i = Inr v \<Longrightarrow> \<exists>x \<in> set (pj_drafts d). drf_id x = i \<and> v = view_of_row x"
  by (cases "select_one (\<lambda>x. drf_id x = i) (pj_drafts d)")
    (auto simp: load_projection_draft_def ok_or.simps dest: select_one_Some)

lemma view_simps [simp]:
  "dv_revision (view_of_row x) = drf_revision x" "dv_snapshot (view_of_row x) = drf_snapshot x"
  "dv_draft (view_of_row x) = drf_id x" "dv_state (view_of_row x) = draft_state_of (drf_state x)"
  by (simp_all add: view_of_row_def)

lemma revise_simps [simp]:
  "dv_revision (revise s n t v) = dv_revision v + 1" "graph_ok (dv_snapshot (revise s n t v)) = graph_ok s"
  "dv_draft (revise s n t v) = dv_draft v"
  by (simp_all add: revise_def)

lemma draft_update_done:
  assumes "require_draft_update i r f d = Inr d'"
  shows "d' = d\<lparr>pj_drafts := update_rows (at_revision i r) f (pj_drafts d)\<rparr> \<and> (\<exists>x \<in> set (pj_drafts d). at_revision i r x)"
proof -
  have "rows_affected (at_revision i r) (pj_drafts d) = 1"
    using assms by (auto simp: require_draft_update_def update_drafts_def split: if_splits)
  then have "\<exists>x \<in> set (pj_drafts d). at_revision i r x" using rows_affected_pos [of "at_revision i r" "pj_drafts d"] by simp
  then show ?thesis using assms by (auto simp: require_draft_update_def update_drafts_def split: if_splits)
qed

lemma layout_update_drafts:
  "require_layout_update i r ps t d = Inr d' \<Longrightarrow> pj_drafts d' = pj_drafts d \<and> pj_published d' = pj_published d"
  by (auto simp: require_layout_update_def split: if_splits)

lemma store_mutation_drafts:
  "store_mutation i k res key sha resp t d = Inr d' \<Longrightarrow> pj_drafts d' = pj_drafts d \<and> pj_published d' = pj_published d"
  by (auto simp: store_mutation_def split: if_splits)

lemma upsert_rule_drafts: "upsert_rule r d = Inr d' \<Longrightarrow> pj_drafts d' = pj_drafts d \<and> pj_published d' = pj_published d"
  by (auto simp: upsert_rule_def Let_def split: if_splits)

lemma answer_cases: "answer r d = (a, d') \<Longrightarrow> d' = d \<or> (\<exists>y. r = Inr (y, d') \<and> a = Inr y)"
  by (auto simp: answer_def split: sum.splits)

lemma verify_revision_ok: "verify_revision h b c = Inr x \<Longrightarrow> b = c"
  by (auto simp: verify_revision_def split: if_splits)

subsection \<open>The handlers\<close>

lemma edit_sound:
  assumes "require_draft_update i r f d = Inr d1" "pj_drafts d' = pj_drafts d1" "pj_published d' = pj_published d1"
    and "\<And>x. drf_id (f x) = drf_id x" "\<And>x. drf_revision (f x) = r + 1" "\<And>x. graph_ok (drf_snapshot (f x))"
  shows "sound_change d d'"
proof (rule sound_update)
  show "pj_drafts d' = update_rows (at_revision i r) f (pj_drafts d)" using draft_update_done [OF assms(1)] assms(2) by simp
  show "pj_published d' = pj_published d" using draft_update_done [OF assms(1)] assms(3) by simp
  show "next_row x (f x)" if "at_revision i r x" for x using that assms(4-6) by (simp add: next_row_def at_revision_def)
qed

lemma loaded_graph_ok: "load_projection_draft pre i = Inr v \<Longrightarrow> stored_graphs_ok pre \<Longrightarrow> graph_ok (dv_snapshot v)"
  using load_projection_draft_row by (fastforce simp: stored_graphs_ok_def)

lemma loaded_id: "load_projection_draft pre i = Inr v \<Longrightarrow> dv_draft v = i"
  using load_projection_draft_row by fastforce

lemmas handler_simps = Let_def ok_or.simps
lemmas handler_done = verify_revision_ok store_mutation_drafts layout_update_drafts upsert_rule_drafts

text \<open>What an accepted patch did that is no replay; likewise for the other handlers.\<close>

lemma update_projection_draft_cases:
  assumes "update_projection_draft e hdr draft payload q pre d = (r, d')"
  shows "d' = d \<or> (\<exists>request row s d1. payload = Some request \<and> load_projection_draft pre draft = Inr row
    \<and> dv_state row \<noteq> PsConfirmed \<and> du_base_revision request = dv_revision row
    \<and> apply_operations e draft (du_operations request) (dv_snapshot row) = Inr s
    \<and> require_draft_update draft (dv_revision row) (set_draft (revise s
         (sat_add32 (dv_pending_changes row) (u32_of_nat (length (du_operations request)))) (rq_now q) row)) d = Inr d1
    \<and> pj_drafts d' = pj_drafts d1 \<and> pj_published d' = pj_published d1)"
  using answer_cases [OF assms [unfolded update_projection_draft_def]]
  by (auto simp: handler_simps split: option.splits if_splits dest!: handler_done)

lemma confirm_projection_cases:
  assumes "confirm_projection e hdr draft payload q pre d = (r, d')"
  shows "d' = d \<or> (\<exists>row d1. payload = Some (dv_revision row) \<and> load_projection_draft pre draft = Inr row \<and> dv_state row \<noteq> PsConfirmed
    \<and> insert_published \<lparr>pub_id = rq_version_id q, pub_draft = draft, pub_host = dv_host row, pub_revision = dv_revision row,
        pub_confirmed_at = rq_now q, pub_snapshot = confirmed_snapshot (dv_snapshot row)\<rparr> d = Inr d1
    \<and> pj_drafts d' = update_rows (at_revision draft (dv_revision row)) (\<lambda>x. x\<lparr>drf_state := DsConfirmed, drf_pending_changes := 0,
        drf_snapshot := confirmed_snapshot (dv_snapshot row), drf_updated_at := rq_now q\<rparr>) (pj_drafts d1)
    \<and> pj_published d' = pj_published d1)"
  using answer_cases [OF assms [unfolded confirm_projection_def]]
  by (auto simp: handler_simps update_drafts_def split: option.splits if_splits dest!: handler_done)

lemma update_layout_cases:
  assumes "update_layout e hdr layout payload q pre d = (r, d')"
  shows "d' = d \<or> (\<exists>request draft row s d1. payload = Some request \<and> lu_base_revision request = dv_revision row
    \<and> strip_prefix ''layout-'' layout = Some draft \<and> load_projection_draft pre draft = Inr row \<and> dv_state row \<noteq> PsConfirmed
    \<and> place_nodes (bt_collect (lu_positions request)) (dv_snapshot row) = Inr s
    \<and> require_draft_update draft (dv_revision row) (\<lambda>x. x\<lparr>drf_revision := dv_revision row + 1,
        drf_snapshot := set_layout_revision (dv_revision row + 1) s, drf_updated_at := rq_now q\<rparr>) d = Inr d1
    \<and> pj_drafts d' = pj_drafts d1 \<and> pj_published d' = pj_published d1)"
  using answer_cases [OF assms [unfolded update_layout_def]]
  by (auto simp: handler_simps revise_def split: option.splits if_splits dest!: handler_done)

lemma create_ignore_rule_cases:
  assumes "create_ignore_rule e hdr payload q pre d = (r, d')"
  shows "d' = d \<or> (\<exists>request row s d0 d1. payload = Some request \<and> ir_base_revision request = dv_revision row
    \<and> load_projection_draft pre (ir_draft request) = Inr row \<and> dv_state row \<noteq> PsConfirmed
    \<and> ignore_node request (dv_snapshot row) = Inr s \<and> pj_drafts d0 = pj_drafts d \<and> pj_published d0 = pj_published d
    \<and> require_draft_update (dv_draft row) (dv_revision row) (\<lambda>x. x\<lparr>drf_revision := dv_revision row + 1,
        drf_pending_changes := int (sat_add32 (dv_pending_changes row) 1),
        drf_snapshot := set_layout_revision (dv_revision row + 1) s, drf_updated_at := rq_now q\<rparr>) d0 = Inr d1
    \<and> pj_drafts d' = pj_drafts d1 \<and> pj_published d' = pj_published d1)"
  using answer_cases [OF assms [unfolded create_ignore_rule_def]]
  by (auto simp: handler_simps revise_def split: option.splits if_splits dest!: handler_done) blast+

lemma persist_agent_draft_cases:
  "persist_agent_draft_in v r d = Inr d' \<Longrightarrow> \<exists>d1. require_draft_update (dv_draft v) r (set_draft v) d = Inr d1
     \<and> pj_drafts d' = pj_drafts d1 \<and> pj_published d' = pj_published d1"
  by (auto simp: persist_agent_draft_in_def dest!: handler_done)

text \<open>Each of them is a sound change when what it read was well-formed.\<close>

lemma patch_sound:
  assumes "update_projection_draft e hdr draft payload q pre d = (r, d')" "stored_graphs_ok pre"
  shows "sound_change d d'"
proof -
  from update_projection_draft_cases [OF assms(1)] show ?thesis
  proof (elim disjE exE conjE)
    fix request row s d1
    assume row: "load_projection_draft pre draft = Inr row"
      and s: "apply_operations e draft (du_operations request) (dv_snapshot row) = Inr s"
      and u: "require_draft_update draft (dv_revision row) (set_draft (revise s
         (sat_add32 (dv_pending_changes row) (u32_of_nat (length (du_operations request)))) (rq_now q) row)) d = Inr d1"
      and "pj_drafts d' = pj_drafts d1" "pj_published d' = pj_published d1"
    moreover have "graph_ok s"
      using apply_operations_keeps [OF s] loaded_graph_ok [OF row assms(2)] by (simp add: keeps_graph_def)
    ultimately show ?thesis by (intro edit_sound [OF u]) (simp_all add: set_draft_def)
  qed simp
qed

lemma layout_sound:
  assumes "update_layout e hdr layout payload q pre d = (r, d')" "stored_graphs_ok pre"
  shows "sound_change d d'"
proof -
  from update_layout_cases [OF assms(1)] show ?thesis
  proof (elim disjE exE conjE)
    fix request draft row s d1
    assume row: "load_projection_draft pre draft = Inr row"
      and s: "place_nodes (bt_collect (lu_positions request)) (dv_snapshot row) = Inr s"
      and u: "require_draft_update draft (dv_revision row) (\<lambda>x. x\<lparr>drf_revision := dv_revision row + 1,
        drf_snapshot := set_layout_revision (dv_revision row + 1) s, drf_updated_at := rq_now q\<rparr>) d = Inr d1"
      and "pj_drafts d' = pj_drafts d1" "pj_published d' = pj_published d1"
    moreover have "graph_ok s"
      using place_nodes_keeps [OF s] loaded_graph_ok [OF row assms(2)] by (simp add: keeps_graph_def)
    ultimately show ?thesis by (intro edit_sound [OF u]) simp_all
  qed simp
qed

lemma ignore_sound:
  assumes "create_ignore_rule e hdr payload q pre d = (r, d')" "stored_graphs_ok pre"
  shows "sound_change d d'"
proof -
  from create_ignore_rule_cases [OF assms(1)] show ?thesis
  proof (elim disjE exE conjE)
    fix request row s d0 d1
    assume row: "load_projection_draft pre (ir_draft request) = Inr row"
      and s: "ignore_node request (dv_snapshot row) = Inr s"
      and d0: "pj_drafts d0 = pj_drafts d" "pj_published d0 = pj_published d"
      and u: "require_draft_update (dv_draft row) (dv_revision row) (\<lambda>x. x\<lparr>drf_revision := dv_revision row + 1,
        drf_pending_changes := int (sat_add32 (dv_pending_changes row) 1),
        drf_snapshot := set_layout_revision (dv_revision row + 1) s, drf_updated_at := rq_now q\<rparr>) d0 = Inr d1"
      and "pj_drafts d' = pj_drafts d1" "pj_published d' = pj_published d1"
    moreover have "graph_ok s"
      using ignore_node_keeps [OF s] loaded_graph_ok [OF row assms(2)] by (simp add: keeps_graph_def)
    ultimately have "sound_change d0 d'" by (intro edit_sound [OF u]) simp_all
    then show ?thesis using sound_same [OF d0] by (rule sound_trans [rotated])
  qed simp
qed

lemma confirm_sound:
  assumes "confirm_projection e hdr draft payload q pre d = (r, d')" "stored_graphs_ok pre"
  shows "sound_change d d'"
proof -
  from confirm_projection_cases [OF assms(1)] show ?thesis
  proof (elim disjE exE conjE)
    fix row d1
    assume row: "load_projection_draft pre draft = Inr row"
      and v: "insert_published \<lparr>pub_id = rq_version_id q, pub_draft = draft, pub_host = dv_host row, pub_revision = dv_revision row,
        pub_confirmed_at = rq_now q, pub_snapshot = confirmed_snapshot (dv_snapshot row)\<rparr> d = Inr d1"
      and u: "pj_drafts d' = update_rows (at_revision draft (dv_revision row)) (\<lambda>x. x\<lparr>drf_state := DsConfirmed, drf_pending_changes := 0,
        drf_snapshot := confirmed_snapshot (dv_snapshot row), drf_updated_at := rq_now q\<rparr>) (pj_drafts d1)"
      and p: "pj_published d' = pj_published d1"
    have ok: "graph_ok (confirmed_snapshot (dv_snapshot row))"
      using confirmed_snapshot_keeps loaded_graph_ok [OF row assms(2)] by (auto simp: keeps_graph_def)
    have "sound_change d1 d'"
      by (rule sound_update [OF u p]) (use ok in \<open>simp add: next_row_def at_revision_def\<close>)
    moreover have "sound_change d d1" using sound_insert_published [OF v] ok by simp
    ultimately show ?thesis by (rule sound_trans [rotated])
  qed simp
qed

lemma agent_sound:
  assumes "apply_agent_operations_in e draft expected ops now d = Inr ((v, undo), d')"
  shows "sound_change d d'"
proof -
  obtain row s where row: "load_projection_draft d draft = Inr row"
    and s: "validate_projection_operations e (dv_snapshot row) draft ops = Inr s"
    and p: "persist_agent_draft_in (revise s (sat_add32 (dv_pending_changes row) (u32_of_nat (length ops))) now row) (dv_revision row) d = Inr d'"
    using assms by (auto simp: apply_agent_operations_in_def handler_simps split: if_splits)
  have keep: "keeps_graph (dv_snapshot row) s"
    using s by (auto simp: validate_projection_operations_def split: if_splits intro: apply_operations_keeps)
  show ?thesis
  proof (cases "stored_graphs_ok d")
    case True
    then have "graph_ok s" using keep loaded_graph_ok [OF row] by (simp add: keeps_graph_def)
    then show ?thesis using persist_agent_draft_cases [OF p] by (auto intro!: edit_sound simp: set_draft_def)
  qed (simp add: sound_change_def drafts_ok_def)
qed

lemma undo_sound:
  assumes "undo_agent_operations_in draft expected applied undo now d = Inr (v, d')" "graph_ok (un_snapshot undo)"
  shows "sound_change d d'"
proof -
  obtain row where p: "persist_agent_draft_in (revise (un_snapshot undo) (un_pending_changes undo) now row) (dv_revision row) d = Inr d'"
    using assms(1) by (auto simp: undo_agent_operations_in_def handler_simps split: if_splits)
  then show ?thesis using persist_agent_draft_cases [OF p] assms(2) by (auto intro!: edit_sound simp: set_draft_def)
qed

lemma undo_state_ok:
  assumes "apply_agent_operations_in e draft expected ops now pre = Inr ((v, undo), d')" "stored_graphs_ok pre"
  shows "graph_ok (un_snapshot undo)"
  using assms loaded_graph_ok by (auto simp: apply_agent_operations_in_def handler_simps split: if_splits)

lemma create_sound:
  assumes "create_draft_from_evidence_in e run host ev diff_at now d = Inr (i, d')"
  shows "sound_change d d'"
proof (cases "select_one (\<lambda>x. drf_run x = run) (pj_drafts d)")
  case (Some x)
  then show ?thesis using assms by (simp add: create_draft_from_evidence_in_def)
next
  case None
  define b where "b = load_confirmed_baseline_in e host (ignored_fingerprints d host) d"
  define g where "g = map_evidence e (draft_id_of e run) run host ev (ignored_fingerprints d host)"
  define s where "s = (case b of None \<Rightarrow> g | Some x \<Rightarrow> overlay_confirmed_decisions g x)"
  define r where "r = (case b of None \<Rightarrow> 0 | Some x \<Rightarrow> cb_revision x)"
  define x where "x = \<lparr>drf_id = draft_id_of e run, drf_run = run, drf_host = host, drf_base_revision = r, drf_revision = r + 1,
    drf_state = DsDraft, drf_pending_changes = 0, drf_snapshot = set_layout_revision (r + 1) s, drf_created_at = now, drf_updated_at = now\<rparr>"
  define l where "l = \<lparr>lay_id = cl_layout_id (sn_layout (set_layout_revision (r + 1) s)),
    lay_scope = cl_scope (sn_layout (set_layout_revision (r + 1) s)), lay_revision = r + 1,
    lay_positions = positions_of (set_layout_revision (r + 1) s), lay_updated_at = now\<rparr>"
  obtain j d1 d2 d3 where diff: "create_discovery_diff_in e run host ev g (map_option cb_snapshot b) diff_at d = Inr (j, d1)"
    and x: "insert_draft x d1 = Inr d2" and l: "insert_layout l d2 = Inr d3"
    and d': "d' = d3\<lparr>pj_scans := update_rows (\<lambda>r. scn_id r = run) (\<lambda>r. r\<lparr>scn_draft := Some i\<rparr>) (pj_scans d3)\<rparr>"
    using assms None unfolding create_draft_from_evidence_in_def Let_def option.case b_def [symmetric] g_def [symmetric]
    s_def [symmetric] r_def [symmetric] l_def [symmetric] x_def [symmetric]
    by auto
  have "graph_ok s" using map_evidence_ok overlay_ok by (auto simp: s_def g_def split: option.splits)
  then have "sound_change d1 d2" using sound_insert_draft [OF x] by (simp add: x_def)
  moreover have "sound_change d d1" using diff
    by (intro sound_same) (auto simp: create_discovery_diff_in_def insert_diff_def handler_simps split: option.splits if_splits)
  moreover have "sound_change d2 d'" using l d' by (intro sound_same) (auto simp: insert_layout_def split: if_splits)
  ultimately show ?thesis by (meson sound_trans)
qed

lemma removal_row_next:
  "graph_ok (drf_snapshot x) \<Longrightarrow> next_row x (without_project project now x x)"
  by (simp add: next_row_def without_project_def remove_project_ok)

lemma removal_sound:
  assumes r: "remove_project_from_snapshots project now d = (r, d')"
  shows "sound_change d d'"
proof (cases "r = Inr () \<and> drafts_ok d")
  case True
  then have ok: "stored_graphs_ok d" and ids: "distinct (map drf_id (pj_drafts d))" "distinct (map pub_id (pj_published d))"
    by (simp_all add: drafts_ok_def)
  have d': "pj_drafts d' = update_rows (\<lambda>x. holds_project project (drf_snapshot x)) (\<lambda>x. without_project project now x x) (pj_drafts d)"
    "pj_published d' = map (\<lambda>v. if holds_project project (pub_snapshot v)
       then v\<lparr>pub_snapshot := snd (remove_project project (pub_snapshot v))\<rparr> else v) (pj_published d)"
    using removal_result [OF ids] r True by (simp_all add: update_rows_def)
  have "sound_change d (d\<lparr>pj_drafts := pj_drafts d'\<rparr>)"
    by (rule sound_update [where P = "\<lambda>x. holds_project project (drf_snapshot x)" and f = "\<lambda>x. without_project project now x x"])
      (use ok removal_row_next in \<open>simp_all add: d' stored_graphs_ok_def\<close>)
  then have m: "drafts_ok (d\<lparr>pj_drafts := pj_drafts d'\<rparr>)" "later d (d\<lparr>pj_drafts := pj_drafts d'\<rparr>)"
    using True by (simp_all add: sound_change_def)
  have "map pub_id (pj_published d') = map pub_id (pj_published d)" by (simp add: d')
  moreover have "graph_ok (pub_snapshot v)" if "v \<in> set (pj_published d')" for v
    using that ok remove_project_ok by (fastforce simp: d' stored_graphs_ok_def)
  ultimately have "drafts_ok d'" using m(1) ids(2) by (simp add: drafts_ok_def stored_graphs_ok_def)
  then show ?thesis using m(2) by (simp add: sound_change_def later_def)
next
  case False
  then show ?thesis using removal_refused(2) [of project now d] r by (auto simp: sound_change_def)
qed

subsection \<open>Histories\<close>

text \<open>
  One step from \<open>d\<close> of a handler that read \<open>pre\<close>. An undo is one of a patch the agent applied to \<open>pre\<close>.
  \<open>elsewhere\<close> stands for the other tables.
\<close>

inductive projection_step :: "projection_env \<Rightarrow> projection_db \<Rightarrow> projection_db \<Rightarrow> projection_db \<Rightarrow> bool" for e where
  scanned: "create_draft_from_evidence_in e run host ev diff_at now d = Inr (i, d') \<Longrightarrow> projection_step e pre d d'"
| patched: "update_projection_draft e hdr draft payload q pre d = (r, d') \<Longrightarrow> projection_step e pre d d'"
| confirmed: "confirm_projection e hdr draft revision q pre d = (c, d') \<Longrightarrow> projection_step e pre d d'"
| laid_out: "update_layout e hdr layout positions q pre d = (r, d') \<Longrightarrow> projection_step e pre d d'"
| ignored: "create_ignore_rule e hdr rule q pre d = (r, d') \<Longrightarrow> projection_step e pre d d'"
| agent_applied: "apply_agent_operations_in e draft expected ops now d = Inr ((v, undo), d') \<Longrightarrow> projection_step e pre d d'"
| agent_undone: "apply_agent_operations_in e draft before ops then_at pre = Inr ((w, undo), applied) \<Longrightarrow>
    undo_agent_operations_in draft expected revision undo now d = Inr (v, d') \<Longrightarrow> projection_step e pre d d'"
| project_removed: "remove_project_from_snapshots project now d = (outcome, d') \<Longrightarrow> projection_step e pre d d'"
| elsewhere: "pj_drafts d' = pj_drafts d \<Longrightarrow> pj_published d' = pj_published d \<Longrightarrow> projection_step e pre d d'"

text \<open>The states so far, the last one first.\<close>

inductive projection_history :: "projection_env \<Rightarrow> projection_db list \<Rightarrow> bool" for e where
  begun: "pj_drafts d = [] \<Longrightarrow> pj_published d = [] \<Longrightarrow> projection_history e [d]"
| continued: "projection_history e (d # ds) \<Longrightarrow> pre \<in> set (d # ds) \<Longrightarrow> projection_step e pre d d' \<Longrightarrow>
    projection_history e (d' # d # ds)"

lemma step_sound: "projection_step e pre d d' \<Longrightarrow> stored_graphs_ok pre \<Longrightarrow> sound_change d d'"
  by (induction rule: projection_step.induct)
    (blast intro: create_sound patch_sound confirm_sound layout_sound ignore_sound agent_sound undo_sound undo_state_ok
       removal_sound sound_same)+

lemma history_sound:
  "projection_history e hs \<Longrightarrow> (\<forall>p \<in> set hs. drafts_ok p \<and> later p (hd hs))"
proof (induction rule: projection_history.induct)
  case (begun d)
  then show ?case by (simp add: drafts_ok_def stored_graphs_ok_def later_def)
next
  case (continued d ds pre d')
  then have "sound_change d d'" using step_sound by (auto simp: drafts_ok_def)
  then have "drafts_ok d'" "later d d'" using continued.IH by (auto simp: sound_change_def)
  then show ?case using continued.IH by (auto intro: later_trans)
qed

end
