(* ===== verification/ProjectionOutcomes.thy ===== *)
theory ProjectionOutcomes
  imports ProjectionHistory
begin

text \<open>
  What the operations of the projection achieve in any history: edits of the current draft, the undo of the
  agent's patch, the removal of a project; and two orders of an edit and a confirmation that the optimistic
  check of the revision does not separate.
\<close>

subsection \<open>Histories\<close>

lemma history_tables:
  assumes "projection_history e hs" "p \<in> set hs"
  shows "drafts_ok p \<and> later p (hd hs)"
  using history_sound [OF assms(1)] assms(2) by blast

lemma drafts_okD: "drafts_ok d \<Longrightarrow> distinct (map drf_id (pj_drafts d))" "drafts_ok d \<Longrightarrow> stored_graphs_ok d"
  by (simp_all add: drafts_ok_def)

lemma same_id_same_row: "drafts_ok d \<Longrightarrow> x \<in> set (pj_drafts d) \<Longrightarrow> y \<in> set (pj_drafts d) \<Longrightarrow> drf_id x = drf_id y \<Longrightarrow> x = y"
  using drafts_okD(1) by (auto simp: distinct_map dest: inj_onD)

text \<open>A draft read earlier is the current one if its revision is, unless it has been confirmed.\<close>

lemma read_is_current:
  assumes "projection_history e (d # ds)" "pre \<in> set (d # ds)" "load_projection_draft pre i = Inr row"
    and "x \<in> set (pj_drafts d)" "at_revision i (dv_revision row) x"
  shows "row = view_of_row x \<or> drf_state x = DsConfirmed"
proof -
  obtain p where p: "p \<in> set (pj_drafts pre)" "drf_id p = i" "row = view_of_row p"
    using load_projection_draft_row [OF assms(3)] by blast
  have ok: "drafts_ok d" and "later pre d"
    using history_tables [OF assms(1)] assms(2) by auto
  then obtain y where y: "y \<in> set (pj_drafts d)" "continues_as p y" using p(1) by (auto simp: later_def)
  then have "y = x" using same_id_same_row [OF ok y(1) assms(4)] p assms(5) by (simp add: continues_as_def at_revision_def)
  then show ?thesis using y(2) p(3) assms(5) by (auto simp: continues_as_def at_revision_def)
qed

subsection \<open>Edits\<close>

text \<open>
  C10. Every draft and every published version that the handlers ever store is a well-formed graph: node and edge
  identifiers are distinct and no edge points to a node that is not there; drafts have distinct identifiers.
\<close>

theorem stored_graphs_wellformed:
  assumes "projection_history e (d # ds)"
  shows "(\<forall>x \<in> set (pj_drafts d). graph_ok (drf_snapshot x)) \<and> (\<forall>v \<in> set (pj_published d). graph_ok (pub_snapshot v))
    \<and> distinct (map drf_id (pj_drafts d))"
  using history_tables [OF assms, of d] by (simp add: drafts_ok_def stored_graphs_ok_def)

text \<open>
  C5. No lost update: an edit that is accepted and is no replay names the revision the draft has when it is
  written, and, unless the draft has been confirmed since it was read, its result is the operations applied to
  the graph the draft had at that moment.
\<close>

theorem accepted_edit_is_current:
  assumes history: "projection_history e (d # ds)" and pre: "pre \<in> set (d # ds)"
    and edit: "update_projection_draft e hdr draft payload q pre d = (Inr response, d')" "d' \<noteq> d"
  shows "\<exists>request x y s. payload = Some request \<and> x \<in> set (pj_drafts d) \<and> at_revision draft (du_base_revision request) x
    \<and> pj_drafts d' = update_rows (\<lambda>z. z = x) (\<lambda>_. y) (pj_drafts d) \<and> at_revision draft (du_base_revision request + 1) y
    \<and> drf_snapshot y = set_layout_revision (drf_revision y) s
    \<and> (drf_state x = DsConfirmed \<or> apply_operations e draft (du_operations request) (drf_snapshot x) = Inr s)"
proof -
  obtain request row s d1 where c: "payload = Some request" "load_projection_draft pre draft = Inr row"
      "du_base_revision request = dv_revision row" "apply_operations e draft (du_operations request) (dv_snapshot row) = Inr s"
    and u: "require_draft_update draft (dv_revision row) (set_draft (revise s
         (sat_add32 (dv_pending_changes row) (u32_of_nat (length (du_operations request)))) (rq_now q) row)) d = Inr d1"
    and d': "pj_drafts d' = pj_drafts d1"
    using update_projection_draft_cases [OF edit(1)] edit(2) by blast
  have ok: "drafts_ok d" using history_tables [OF history, of d] by simp
  obtain x where x: "x \<in> set (pj_drafts d)" "at_revision draft (dv_revision row) x"
    using draft_update_done [OF u] by blast
  define f where "f = set_draft (revise s
         (sat_add32 (dv_pending_changes row) (u32_of_nat (length (du_operations request)))) (rq_now q) row)"
  have "update_rows (at_revision draft (dv_revision row)) f (pj_drafts d) = update_rows (\<lambda>z. z = x) (\<lambda>_. f x) (pj_drafts d)"
    unfolding update_rows_def using x same_id_same_row [OF ok] by (intro map_cong [OF refl]) (auto simp: at_revision_def)
  then have "pj_drafts d' = update_rows (\<lambda>z. z = x) (\<lambda>_. f x) (pj_drafts d)"
    using draft_update_done [OF u] d' by (simp add: f_def)
  moreover have "at_revision draft (dv_revision row + 1) (f x)" "drf_snapshot (f x) = set_layout_revision (drf_revision (f x)) s"
    using x(2) by (simp_all add: f_def set_draft_def at_revision_def revise_def)
  moreover have "drf_state x = DsConfirmed \<or> apply_operations e draft (du_operations request) (drf_snapshot x) = Inr s"
    using read_is_current [OF history pre c(2) x] c(4) by auto
  ultimately show ?thesis using c(1,3) x by metis
qed

subsection \<open>Removing a project\<close>

text \<open>
  C24. Removing a project either finds it in no draft and changes nothing, or leaves no node of it in any draft
  or version; a draft that had such nodes is at its next revision, so that an edit of the old one is refused.
\<close>

theorem project_removal_complete:
  assumes "projection_history e (d # ds)" and "remove_project_from_snapshots project now d = (r, d')"
  shows "(r = Inr () \<longleftrightarrow> (\<exists>x \<in> set (pj_drafts d). holds_project project (drf_snapshot x))) \<and> (r \<noteq> Inr () \<longrightarrow> d' = d)
    \<and> (r = Inr () \<longrightarrow>
        (\<forall>x \<in> set (pj_drafts d'). \<not> holds_project project (drf_snapshot x))
      \<and> (\<forall>v \<in> set (pj_published d'). \<not> holds_project project (pub_snapshot v))
      \<and> map (\<lambda>x. (drf_id x, drf_revision x)) (pj_drafts d')
          = map (\<lambda>x. (drf_id x, if holds_project project (drf_snapshot x) then drf_revision x + 1 else drf_revision x)) (pj_drafts d))"
proof -
  have ok: "drafts_ok d" using history_tables [OF assms(1), of d] by simp
  have refused: "(r = Inr ()) = (\<exists>x \<in> set (pj_drafts d). holds_project project (drf_snapshot x))" "r \<noteq> Inr () \<longrightarrow> d' = d"
    using removal_refused [of project now d] assms(2) by simp_all
  have "(\<forall>x \<in> set (pj_drafts d'). \<not> holds_project project (drf_snapshot x))
      \<and> (\<forall>v \<in> set (pj_published d'). \<not> holds_project project (pub_snapshot v))
      \<and> map (\<lambda>x. (drf_id x, drf_revision x)) (pj_drafts d')
          = map (\<lambda>x. (drf_id x, if holds_project project (drf_snapshot x) then drf_revision x + 1 else drf_revision x)) (pj_drafts d)"
    if "r = Inr ()"
  proof -
    have ids: "distinct (map drf_id (pj_drafts d))" "distinct (map pub_id (pj_published d))" using ok by (simp_all add: drafts_ok_def)
    note d' = removal_result [OF ids assms(2) [unfolded that]]
    show ?thesis using ok nothing_held
      by (auto simp: d' drafts_ok_def stored_graphs_ok_def without_project_def holds_project_def set_layout_revision_def)
  qed
  then show ?thesis using refused by blast
qed

subsection \<open>Undoing a patch of the agent\<close>

lemma persist_agent_draft_total:
  assumes "rows_affected (at_revision (dv_draft v) r) (pj_drafts d) = 1"
    and "rows_affected (\<lambda>x. lay_id x = cl_layout_id (sn_layout (dv_snapshot v))) (pj_layouts d) = 1"
  shows "\<exists>d'. persist_agent_draft_in v r d = Inr d' \<and> pj_drafts d' = update_rows (at_revision (dv_draft v) r) (set_draft v) (pj_drafts d)
    \<and> pj_layouts d' = update_rows (\<lambda>x. lay_id x = cl_layout_id (sn_layout (dv_snapshot v)))
         (\<lambda>x. x\<lparr>lay_revision := dv_revision v, lay_positions := positions_of (dv_snapshot v), lay_updated_at := dv_updated_at v\<rparr>) (pj_layouts d)"
  using assms by (simp add: persist_agent_draft_in_def require_draft_update_def update_drafts_def require_layout_update_def)

lemma rows_affected_update:
  "(\<And>x. x \<in> set xs \<Longrightarrow> Q (if P x then f x else x) = R x) \<Longrightarrow> rows_affected Q (update_rows P f xs) = rows_affected R xs"
  by (induction xs) (auto simp: rows_affected_def update_rows_def)

lemma update_rows_twice:
  assumes "drafts_ok d" "x \<in> set (pj_drafts d)" "drf_id x = i" "at_revision i a x" "at_revision i b (f x)" "g (f x) = h x"
  shows "update_rows (at_revision i b) g (update_rows (at_revision i a) f (pj_drafts d)) = update_rows (\<lambda>z. drf_id z = i) h (pj_drafts d)"
proof -
  have "(if at_revision i b (if at_revision i a z then f z else z) then g (if at_revision i a z then f z else z)
      else if at_revision i a z then f z else z) = (if drf_id z = i then h z else z)" if "z \<in> set (pj_drafts d)" for z
  proof (cases "drf_id z = i")
    case True
    then have "z = x" using same_id_same_row [OF assms(1) that assms(2)] assms(3) by simp
    then show ?thesis using assms(3-6) by simp
  qed (simp add: at_revision_def)
  then show ?thesis unfolding update_rows_def map_map comp_def by (intro map_cong [OF refl])
qed

text \<open>What a patch of the agent did.\<close>

lemma agent_patch_effect:
  assumes "apply_agent_operations_in e draft expected ops now d = Inr ((v, undo), d1)"
  shows "\<exists>x \<in> set (pj_drafts d). drf_id x = draft \<and> drf_state x = DsDraft
    \<and> undo = \<lparr>un_snapshot = drf_snapshot x, un_pending_changes = non_negative_u32 (drf_pending_changes x)\<rparr>
    \<and> dv_revision v = drf_revision x + 1 \<and> cl_layout_id (sn_layout (dv_snapshot v)) = cl_layout_id (sn_layout (drf_snapshot x))
    \<and> pj_drafts d1 = update_rows (at_revision draft (drf_revision x)) (set_draft v) (pj_drafts d)
    \<and> rows_affected (\<lambda>l. lay_id l = cl_layout_id (sn_layout (drf_snapshot x))) (pj_layouts d1) = 1"
proof -
  obtain row s where row: "load_projection_draft d draft = Inr row" "dv_state row = PsDraft"
    and s: "validate_projection_operations e (dv_snapshot row) draft ops = Inr s"
    and v: "v = revise s (sat_add32 (dv_pending_changes row) (u32_of_nat (length ops))) now row"
    and undo: "undo = \<lparr>un_snapshot = dv_snapshot row, un_pending_changes = dv_pending_changes row\<rparr>"
    and p: "persist_agent_draft_in v (dv_revision row) d = Inr d1"
    using assms by (auto simp: apply_agent_operations_in_def handler_simps split: if_splits)
  obtain x where x: "x \<in> set (pj_drafts d)" "drf_id x = draft" "row = view_of_row x"
    using load_projection_draft_row [OF row(1)] by blast
  have state: "drf_state x = DsDraft" using row(2) x(3) by (cases "drf_state x") auto
  define i where "i = cl_layout_id (sn_layout (drf_snapshot x))"
  have v_simps: "dv_draft v = draft" "dv_revision v = drf_revision x + 1" "cl_layout_id (sn_layout (dv_snapshot v)) = i"
    using s x by (auto simp: v i_def revise_def validate_projection_operations_def keeps_graph_def split: if_splits
      dest!: apply_operations_keeps)
  obtain dA where dA: "require_draft_update draft (drf_revision x) (set_draft v) d = Inr dA"
    and lay: "require_layout_update i (drf_revision x + 1) (positions_of (dv_snapshot v)) (dv_updated_at v) dA = Inr d1"
    using p x by (auto simp: persist_agent_draft_in_def v_simps)
  have "pj_drafts d1 = update_rows (at_revision draft (drf_revision x)) (set_draft v) (pj_drafts d)"
    using draft_update_done [OF dA] layout_update_drafts [OF lay] by simp
  moreover have "rows_affected (\<lambda>l. lay_id l = i) (pj_layouts d1) = 1"
    using lay by (auto simp: require_layout_update_def rows_affected_update split: if_splits)
  moreover have "undo = \<lparr>un_snapshot = drf_snapshot x, un_pending_changes = non_negative_u32 (drf_pending_changes x)\<rparr>"
    by (simp add: undo x(3)) (simp add: view_of_row_def)
  ultimately show ?thesis using x state v_simps unfolding i_def by blast
qed

text \<open>
  C22. The undo of a patch of the agent right after it always succeeds and gives the draft the graph it had, at
  the revision after the next; no other draft changes, and the layout has the positions of that graph.
\<close>

theorem undo_restores_graph:
  assumes history: "projection_history e (d # ds)"
    and patch: "apply_agent_operations_in e draft expected ops now d = Inr ((v, undo), d1)"
  shows "\<exists>w d2. undo_agent_operations_in draft (dv_revision v) (dv_revision v) undo later_on d1 = Inr (w, d2)
    \<and> pj_drafts d2 = update_rows (\<lambda>x. drf_id x = draft) (\<lambda>x. x\<lparr>drf_revision := drf_revision x + 2,
        drf_pending_changes := int (non_negative_u32 (drf_pending_changes x)),
        drf_snapshot := set_layout_revision (drf_revision x + 2) (drf_snapshot x), drf_updated_at := later_on\<rparr>) (pj_drafts d)
    \<and> (\<exists>l \<in> set (pj_layouts d2). lay_id l = cl_layout_id (sn_layout (dv_snapshot w)) \<and> lay_positions l = positions_of (un_snapshot undo))"
proof -
  have ok: "drafts_ok d" using history_tables [OF history, of d] by simp
  obtain x where x: "x \<in> set (pj_drafts d)" "drf_id x = draft" "drf_state x = DsDraft"
    and undo: "undo = \<lparr>un_snapshot = drf_snapshot x, un_pending_changes = non_negative_u32 (drf_pending_changes x)\<rparr>"
    and v: "dv_revision v = drf_revision x + 1"
    and d1: "pj_drafts d1 = update_rows (at_revision draft (drf_revision x)) (set_draft v) (pj_drafts d)"
    and lay: "rows_affected (\<lambda>l. lay_id l = cl_layout_id (sn_layout (drf_snapshot x))) (pj_layouts d1) = 1"
    using agent_patch_effect [OF patch] by blast
  define y where "y = set_draft v x"
  have y: "y \<in> set (pj_drafts d1)" "drf_id y = draft" "drf_revision y = drf_revision x + 1" "drf_state y = DsDraft"
    using x v by (auto simp: y_def d1 set_update_rows at_revision_def set_draft_def)
  have ok1: "drafts_ok d1" using agent_sound [OF patch] ok by (simp add: sound_change_def)
  have one: "rows_affected (at_revision draft (drf_revision x + 1)) (pj_drafts d1) = 1"
    by (rule rows_affected_1I [OF drafts_okD(1) [OF ok1] y(1)]) (use y in \<open>auto simp: at_revision_def\<close>)
  have load: "load_projection_draft d1 draft = Inr (view_of_row y)"
    using select_one_unique [OF drafts_okD(1) [OF ok1] y(1), of "\<lambda>x. drf_id x = draft"] y(2)
    by (simp add: load_projection_draft_def ok_or.simps)
  define w where "w = revise (drf_snapshot x) (non_negative_u32 (drf_pending_changes x)) later_on (view_of_row y)"
  have w: "dv_draft w = draft" "cl_layout_id (sn_layout (dv_snapshot w)) = cl_layout_id (sn_layout (drf_snapshot x))"
      "positions_of (dv_snapshot w) = positions_of (drf_snapshot x)"
    using y by (simp_all add: w_def revise_def positions_of_def set_layout_revision_def)
  obtain d2 where d2: "persist_agent_draft_in w (drf_revision x + 1) d1 = Inr d2"
      "pj_drafts d2 = update_rows (at_revision draft (drf_revision x + 1)) (set_draft w) (pj_drafts d1)"
      "pj_layouts d2 = update_rows (\<lambda>l. lay_id l = cl_layout_id (sn_layout (drf_snapshot x)))
         (\<lambda>l. l\<lparr>lay_revision := dv_revision w, lay_positions := positions_of (drf_snapshot x), lay_updated_at := dv_updated_at w\<rparr>) (pj_layouts d1)"
    using persist_agent_draft_total [of w "drf_revision x + 1" d1] one lay unfolding w by blast
  have undone: "undo_agent_operations_in draft (dv_revision v) (dv_revision v) undo later_on d1 = Inr (w, d2)"
    using d2(1) y by (simp add: undo_agent_operations_in_def load v undo w_def)
  have restored: "set_draft w y = x\<lparr>drf_revision := drf_revision x + 2,
        drf_pending_changes := int (non_negative_u32 (drf_pending_changes x)),
        drf_snapshot := set_layout_revision (drf_revision x + 2) (drf_snapshot x), drf_updated_at := later_on\<rparr>" (is "_ = ?g x")
    using y(3) x(3) by (cases x) (simp add: w_def y_def set_draft_def revise_def view_of_row_def add.commute [of 2])
  have "pj_drafts d2 = update_rows (\<lambda>x. drf_id x = draft) ?g (pj_drafts d)"
    unfolding d2(2) d1 by (rule update_rows_twice [OF ok x(1,2)]) (use y x restored in \<open>simp_all add: at_revision_def y_def\<close>)
  moreover obtain l where "l \<in> set (pj_layouts d1)" "lay_id l = cl_layout_id (sn_layout (drf_snapshot x))"
    using lay rows_affected_pos [of "\<lambda>l. lay_id l = cl_layout_id (sn_layout (drf_snapshot x))" "pj_layouts d1"] by auto
  then have "\<exists>l \<in> set (pj_layouts d2). lay_id l = cl_layout_id (sn_layout (dv_snapshot w)) \<and> lay_positions l = positions_of (un_snapshot undo)"
    by (auto simp: d2(3) set_update_rows w(2) undo bex_Un)
  ultimately show ?thesis using undone by blast
qed

subsection \<open>An edit and a confirmation at once\<close>

lemma require_draft_update_iff:
  "require_draft_update i r f d = Inr d' \<longleftrightarrow>
     rows_affected (at_revision i r) (pj_drafts d) = 1 \<and> d' = d\<lparr>pj_drafts := update_rows (at_revision i r) f (pj_drafts d)\<rparr>"
  by (auto simp: require_draft_update_def update_drafts_def)

definition mutation_free :: "string \<Rightarrow> string \<Rightarrow> string \<Rightarrow> string \<Rightarrow> mutation_row list \<Rightarrow> bool" where
  "mutation_free i kind resource key ms =
     (\<forall>m \<in> set ms. mut_id m \<noteq> i \<and> \<not> (mut_kind m = kind \<and> mut_resource m = resource \<and> mut_key m = key))"

lemma store_mutation_iff:
  "store_mutation i k res key sha resp t d = Inr d' \<longleftrightarrow> mutation_free i k res key (pj_mutations d)
     \<and> d' = d\<lparr>pj_mutations := pj_mutations d @ [\<lparr>mut_id = i, mut_kind = k, mut_resource = res, mut_key = key, mut_sha = sha,
           mut_response = resp, mut_created_at = t\<rparr>]\<rparr>"
  by (auto simp: store_mutation_def mutation_free_def)

lemma insert_published_result: "insert_published v d = Inr d' \<Longrightarrow> d' = d\<lparr>pj_published := pj_published d @ [v]\<rparr>"
  by (auto simp: insert_published_def split: if_splits)

lemma verify_revision_iff: "verify_revision h b c = Inr u \<longleftrightarrow> h = b \<and> b = c"
  by (auto simp: verify_revision_def)

text \<open>
  The facts under which the two handlers commit, split into what they read and what they find when they write.
\<close>

definition patch_reads ::
  "projection_env \<Rightarrow> headers \<Rightarrow> string \<Rightarrow> draft_update_request option \<Rightarrow> projection_db \<Rightarrow> draft_update_request \<Rightarrow> string \<Rightarrow> draft_view
   \<Rightarrow> graph_snapshot \<Rightarrow> bool"
where
  "patch_reads e hdr draft payload pre request key row s =
     (payload = Some request \<and> require_key hdr = Inr key \<and> operations_allowed (du_operations request)
      \<and> require_if_match hdr = Inr (dv_revision row) \<and> du_base_revision request = dv_revision row
      \<and> replay_mutation ''draft'' draft key (hex_sha256 e (update_json e request)) pre = Inr None
      \<and> load_projection_draft pre draft = Inr row \<and> dv_state row \<noteq> PsConfirmed
      \<and> apply_operations e draft (du_operations request) (dv_snapshot row) = Inr s)"

definition patched_view :: "draft_update_request \<Rightarrow> draft_view \<Rightarrow> graph_snapshot \<Rightarrow> request_env \<Rightarrow> draft_view" where
  "patched_view request row s q =
     revise s (sat_add32 (dv_pending_changes row) (u32_of_nat (length (du_operations request)))) (rq_now q) row"

definition patch_response :: "headers \<Rightarrow> draft_update_request \<Rightarrow> draft_view \<Rightarrow> graph_snapshot \<Rightarrow> request_env \<Rightarrow> projection_response" where
  "patch_response hdr request row s q = draft_response (patched_view request row s q) (request_id hdr (rq_request_id q)) (rq_generated_at q)"

lemma patch_commits:
  "(\<exists>response. update_projection_draft e hdr draft payload q pre d = (Inr response, d')) \<and> d' \<noteq> d \<Longrightarrow>
   \<exists>request key row s d1. patch_reads e hdr draft payload pre request key row s
     \<and> require_draft_update draft (du_base_revision request) (set_draft (patched_view request row s q)) d = Inr d1
     \<and> store_mutation (rq_mutation_id q) ''draft'' draft key (hex_sha256 e (update_json e request)) (patch_response hdr request row s q)
         (rq_stored_at q) d1 = Inr d'"
  by (auto simp: update_projection_draft_def answer_def handler_simps verify_revision_iff patch_reads_def patched_view_def patch_response_def
      split: sum.splits option.splits if_splits)

lemma patch_commitsI:
  assumes "patch_reads e hdr draft payload pre request key row s"
    and "require_draft_update draft (du_base_revision request) (set_draft (patched_view request row s q)) d = Inr d1"
    and "store_mutation (rq_mutation_id q) ''draft'' draft key (hex_sha256 e (update_json e request)) (patch_response hdr request row s q)
         (rq_stored_at q) d1 = Inr d'"
  shows "update_projection_draft e hdr draft payload q pre d = (Inr (patch_response hdr request row s q), d')"
  using assms by (auto simp: update_projection_draft_def answer_def handler_simps verify_revision_def patch_reads_def patched_view_def patch_response_def)

lemma patch_accepted:
  assumes reads: "patch_reads e hdr draft payload pre request key row s"
    and "rows_affected (at_revision draft (dv_revision row)) (pj_drafts d) = 1"
    and free: "mutation_free (rq_mutation_id q) ''draft'' draft key (pj_mutations d)"
  shows "\<exists>d'. update_projection_draft e hdr draft payload q pre d = (Inr (patch_response hdr request row s q), d')
    \<and> pj_published d' = pj_published d
    \<and> pj_drafts d' = update_rows (at_revision draft (dv_revision row)) (set_draft (patched_view request row s q)) (pj_drafts d)"
proof -
  have base: "du_base_revision request = dv_revision row" using reads by (simp add: patch_reads_def)
  define d1 where "d1 = d\<lparr>pj_drafts := update_rows (at_revision draft (dv_revision row)) (set_draft (patched_view request row s q)) (pj_drafts d)\<rparr>"
  obtain d' where d': "store_mutation (rq_mutation_id q) ''draft'' draft key (hex_sha256 e (update_json e request))
      (patch_response hdr request row s q) (rq_stored_at q) d1 = Inr d'"
    using free by (simp add: store_mutation_iff d1_def)
  have "update_projection_draft e hdr draft payload q pre d = (Inr (patch_response hdr request row s q), d')"
    using assms(2) by (intro patch_commitsI [OF reads _ d']) (simp add: require_draft_update_iff d1_def base)
  then show ?thesis using d' by (simp add: store_mutation_iff d1_def)
qed

definition confirm_reads ::
  "projection_env \<Rightarrow> headers \<Rightarrow> string \<Rightarrow> int option \<Rightarrow> projection_db \<Rightarrow> string \<Rightarrow> draft_view \<Rightarrow> bool"
where
  "confirm_reads e hdr draft payload pre key row =
     (require_key hdr = Inr key \<and> payload = Some (dv_revision row)
      \<and> require_if_match hdr = Inr (dv_revision row)
      \<and> replay_mutation ''confirm'' draft key (hex_sha256 e (confirm_json e (dv_revision row))) pre = Inr None
      \<and> load_projection_draft pre draft = Inr row \<and> dv_state row \<noteq> PsConfirmed)"

definition confirmed_version :: "string \<Rightarrow> draft_view \<Rightarrow> request_env \<Rightarrow> published_row" where
  "confirmed_version draft row q =
     \<lparr>pub_id = rq_version_id q, pub_draft = draft, pub_host = dv_host row, pub_revision = dv_revision row,
      pub_confirmed_at = rq_now q, pub_snapshot = confirmed_snapshot (dv_snapshot row)\<rparr>"

definition confirm_response :: "headers \<Rightarrow> string \<Rightarrow> draft_view \<Rightarrow> request_env \<Rightarrow> projection_response" where
  "confirm_response hdr draft row q = VersionResponse (confirmed_version draft row q)
     (projection_meta (request_id hdr (rq_request_id q)) (dv_revision row) (rq_generated_at q))"

definition confirm_row :: "draft_view \<Rightarrow> request_env \<Rightarrow> draft_row \<Rightarrow> draft_row" where
  "confirm_row row q x = x\<lparr>drf_state := DsConfirmed, drf_pending_changes := 0,
     drf_snapshot := confirmed_snapshot (dv_snapshot row), drf_updated_at := rq_now q\<rparr>"

lemma confirm_commits:
  "confirm_projection e hdr draft payload q pre d = (Inr (201, response), d') \<Longrightarrow>
   \<exists>key row d1. confirm_reads e hdr draft payload pre key row \<and> insert_published (confirmed_version draft row q) d = Inr d1
     \<and> store_mutation (rq_mutation_id q) ''confirm'' draft key (hex_sha256 e (confirm_json e (dv_revision row)))
         (confirm_response hdr draft row q) (rq_stored_at q)
         (d1\<lparr>pj_drafts := update_rows (at_revision draft (dv_revision row)) (confirm_row row q) (pj_drafts d1)\<rparr>) = Inr d'"
  by (auto simp: confirm_projection_def answer_def handler_simps verify_revision_iff confirm_reads_def confirmed_version_def confirm_response_def
      confirm_row_def [abs_def] update_drafts_def split: sum.splits option.splits if_splits)

lemma confirm_commitsI:
  assumes "confirm_reads e hdr draft payload pre key row" "insert_published (confirmed_version draft row q) d = Inr d1"
    and "store_mutation (rq_mutation_id q) ''confirm'' draft key (hex_sha256 e (confirm_json e (dv_revision row)))
         (confirm_response hdr draft row q) (rq_stored_at q)
         (d1\<lparr>pj_drafts := update_rows (at_revision draft (dv_revision row)) (confirm_row row q) (pj_drafts d1)\<rparr>) = Inr d'"
  shows "confirm_projection e hdr draft payload q pre d = (Inr (201, confirm_response hdr draft row q), d')"
  using assms by (auto simp: confirm_projection_def answer_def handler_simps verify_revision_def confirm_reads_def confirmed_version_def confirm_response_def
      confirm_row_def [abs_def] update_drafts_def)

lemma confirm_accepted:
  assumes reads: "confirm_reads e hdr draft payload pre key row" and p: "insert_published (confirmed_version draft row q) d = Inr d1"
    and free: "mutation_free (rq_mutation_id q) ''confirm'' draft key (pj_mutations d)"
  shows "\<exists>d'. confirm_projection e hdr draft payload q pre d = (Inr (201, confirm_response hdr draft row q), d')
    \<and> pj_published d' = pj_published d @ [confirmed_version draft row q]
    \<and> pj_drafts d' = update_rows (at_revision draft (dv_revision row)) (confirm_row row q) (pj_drafts d)"
proof -
  note d1 = insert_published_result [OF p]
  define d2 where "d2 = d1\<lparr>pj_drafts := update_rows (at_revision draft (dv_revision row)) (confirm_row row q) (pj_drafts d1)\<rparr>"
  obtain d' where d': "store_mutation (rq_mutation_id q) ''confirm'' draft key (hex_sha256 e (confirm_json e (dv_revision row)))
      (confirm_response hdr draft row q) (rq_stored_at q) d2 = Inr d'"
    using free by (simp add: store_mutation_iff d2_def d1)
  have "confirm_projection e hdr draft payload q pre d = (Inr (201, confirm_response hdr draft row q), d')"
    by (rule confirm_commitsI [OF reads p d' [unfolded d2_def]])
  then show ?thesis using d' by (simp add: store_mutation_iff d2_def d1)
qed

text \<open>
  C33. Against the intention that a confirmed draft is immutable: an edit that read the draft before it was
  confirmed, and would have been accepted then, is accepted after the confirmation as well, with the same
  response. The published version stays, and the draft is editable again at the next revision.
\<close>

theorem confirmed_draft_reopened:
  assumes edit: "update_projection_draft e hdr draft payload q d d = (Inr response, d1)" "d1 \<noteq> d"
    and confirmed: "confirm_projection e hdr2 draft revision q2 d d = (Inr (201, version), d2)"
    and fresh: "rq_mutation_id q \<noteq> rq_mutation_id q2"
  shows "\<exists>d3. update_projection_draft e hdr draft payload q d d2 = (Inr response, d3) \<and> pj_published d3 = pj_published d2
    \<and> (\<exists>x \<in> set (pj_drafts d2). \<exists>y \<in> set (pj_drafts d3). drf_id x = draft \<and> drf_state x = DsConfirmed
        \<and> drf_id y = draft \<and> drf_state y = DsDraft \<and> drf_revision y = drf_revision x + 1)"
proof -
  obtain request key row s da where reads: "patch_reads e hdr draft payload d request key row s"
    and u: "require_draft_update draft (du_base_revision request) (set_draft (patched_view request row s q)) d = Inr da"
    and m: "store_mutation (rq_mutation_id q) ''draft'' draft key (hex_sha256 e (update_json e request)) (patch_response hdr request row s q)
         (rq_stored_at q) da = Inr d1"
    using patch_commits [of e hdr draft payload q d d d1] edit by blast
  obtain key2 row2 db where reads2: "confirm_reads e hdr2 draft revision d key2 row2"
    and p: "insert_published (confirmed_version draft row2 q2) d = Inr db"
    and m2: "store_mutation (rq_mutation_id q2) ''confirm'' draft key2 (hex_sha256 e (confirm_json e (dv_revision row2)))
         (confirm_response hdr2 draft row2 q2) (rq_stored_at q2)
         (db\<lparr>pj_drafts := update_rows (at_revision draft (dv_revision row2)) (confirm_row row2 q2) (pj_drafts db)\<rparr>) = Inr d2"
    using confirm_commits [OF confirmed] by blast
  have row2: "row2 = row" using reads reads2 by (simp add: patch_reads_def confirm_reads_def)
  have base: "du_base_revision request = dv_revision row" using reads by (simp add: patch_reads_def)
  have affected: "rows_affected (at_revision draft (dv_revision row)) (pj_drafts d) = 1"
    and free: "mutation_free (rq_mutation_id q) ''draft'' draft key (pj_mutations d)"
    using u m base by (auto simp: require_draft_update_iff store_mutation_iff)
  have d2: "pj_drafts d2 = update_rows (at_revision draft (dv_revision row)) (confirm_row row q2) (pj_drafts d)"
      "mutation_free (rq_mutation_id q) ''draft'' draft key (pj_mutations d2)"
    using m2 fresh free insert_published_result [OF p] by (auto simp: store_mutation_iff row2 mutation_free_def)
  have "rows_affected (at_revision draft (dv_revision row)) (pj_drafts d2) = 1"
    unfolding d2(1) using affected by (subst rows_affected_update) (auto simp: at_revision_def confirm_row_def)
  then obtain d3 where d3: "update_projection_draft e hdr draft payload q d d2 = (Inr (patch_response hdr request row s q), d3)"
      "pj_published d3 = pj_published d2"
      "pj_drafts d3 = update_rows (at_revision draft (dv_revision row)) (set_draft (patched_view request row s q)) (pj_drafts d2)"
    using patch_accepted [OF reads _ d2(2)] by blast
  have response: "response = patch_response hdr request row s q"
    using edit(1) patch_commitsI [OF reads u m] by simp
  obtain x where x: "x \<in> set (pj_drafts d)" "at_revision draft (dv_revision row) x"
    using affected rows_affected_pos [of "at_revision draft (dv_revision row)" "pj_drafts d"] by auto
  define y where "y = confirm_row row q2 x"
  define z where "z = set_draft (patched_view request row s q) y"
  have y: "y \<in> set (pj_drafts d2)" "at_revision draft (dv_revision row) y" "drf_state y = DsConfirmed"
    using x by (auto simp: d2(1) set_update_rows confirm_row_def at_revision_def y_def)
  then have z: "z \<in> set (pj_drafts d3)" "drf_id z = draft" "drf_state z = DsDraft" "drf_revision z = drf_revision y + 1"
    by (auto simp: d3 set_update_rows z_def set_draft_def patched_view_def at_revision_def)
  have "drf_id y = draft" using y(2) by (simp add: at_revision_def)
  then show ?thesis unfolding response using d3(1,2) y(1,3) z by blast
qed

text \<open>
  C34. Against the intention that a version publishes the draft it names: a confirmation that read the draft
  before an edit was committed is accepted after the edit. It publishes the graph without the edit, and the
  draft, whose update matches no row, stays an unconfirmed draft.
\<close>

theorem stale_graph_published:
  assumes edit: "update_projection_draft e hdr draft payload q d d = (Inr response, d1)" "d1 \<noteq> d"
    and confirmed: "confirm_projection e hdr2 draft revision q2 d d = (Inr (201, version), d2)"
    and fresh: "rq_mutation_id q \<noteq> rq_mutation_id q2"
  shows "\<exists>d3 v x. confirm_projection e hdr2 draft revision q2 d d1 = (Inr (201, version), d3)
    \<and> pj_published d3 = pj_published d1 @ [v] \<and> pj_drafts d3 = pj_drafts d1
    \<and> x \<in> set (pj_drafts d) \<and> drf_id x = draft \<and> pub_draft v = draft \<and> pub_snapshot v = confirmed_snapshot (drf_snapshot x)
    \<and> (\<exists>y \<in> set (pj_drafts d3). drf_id y = draft \<and> drf_state y = DsDraft \<and> drf_revision y = pub_revision v + 1)"
proof -
  obtain request key row s da where reads: "patch_reads e hdr draft payload d request key row s"
    and u: "require_draft_update draft (du_base_revision request) (set_draft (patched_view request row s q)) d = Inr da"
    and m: "store_mutation (rq_mutation_id q) ''draft'' draft key (hex_sha256 e (update_json e request)) (patch_response hdr request row s q)
         (rq_stored_at q) da = Inr d1"
    using patch_commits [of e hdr draft payload q d d d1] edit by blast
  obtain key2 row2 db where reads2: "confirm_reads e hdr2 draft revision d key2 row2"
    and p: "insert_published (confirmed_version draft row2 q2) d = Inr db"
    and m2: "store_mutation (rq_mutation_id q2) ''confirm'' draft key2 (hex_sha256 e (confirm_json e (dv_revision row2)))
         (confirm_response hdr2 draft row2 q2) (rq_stored_at q2)
         (db\<lparr>pj_drafts := update_rows (at_revision draft (dv_revision row2)) (confirm_row row2 q2) (pj_drafts db)\<rparr>) = Inr d2"
    using confirm_commits [OF confirmed] by blast
  have row2: "row2 = row" and base: "du_base_revision request = dv_revision row" and load: "load_projection_draft d draft = Inr row"
    using reads reads2 by (simp_all add: patch_reads_def confirm_reads_def)
  define f where "f = set_draft (patched_view request row s q)"
  have d1: "pj_drafts d1 = update_rows (at_revision draft (dv_revision row)) f (pj_drafts d)" "pj_published d1 = pj_published d" "pj_hosts d1 = pj_hosts d"
      "mutation_free (rq_mutation_id q2) ''confirm'' draft key2 (pj_mutations d1)"
    using u m m2 fresh insert_published_result [OF p]
    by (auto simp: require_draft_update_iff store_mutation_iff base f_def mutation_free_def)
  have ids: "map drf_id (pj_drafts d1) = map drf_id (pj_drafts d)"
    unfolding d1(1) by (rule map_update_rows) (simp add: f_def set_draft_def)
  define v where "v = confirmed_version draft row q2"
  have "insert_published v d1 = Inr (d1\<lparr>pj_published := pj_published d1 @ [v]\<rparr>)"
    using p unfolding row2 by (auto simp: insert_published_def ids d1(2,3) v_def split: if_splits)
  then obtain d3 where d3: "confirm_projection e hdr2 draft revision q2 d d1 = (Inr (201, confirm_response hdr2 draft row q2), d3)"
      "pj_published d3 = pj_published d1 @ [v]"
      "pj_drafts d3 = update_rows (at_revision draft (dv_revision row)) (confirm_row row q2) (pj_drafts d1)"
    using confirm_accepted [OF reads2 [unfolded row2] _ d1(4)] unfolding v_def by blast
  have "\<not> at_revision draft (dv_revision row) (f z)" for z
    by (simp add: f_def at_revision_def set_draft_def patched_view_def)
  then have same: "pj_drafts d3 = pj_drafts d1"
    unfolding d3(3) by (intro update_rows_none) (auto simp only: d1(1) set_update_rows)
  have version: "version = confirm_response hdr2 draft row q2"
    using confirmed confirm_commitsI [OF reads2 p m2] row2 by simp
  obtain x where x: "x \<in> set (pj_drafts d)" "drf_id x = draft" "row = view_of_row x"
    using load_projection_draft_row [OF load] by blast
  have y: "f x \<in> set (pj_drafts d3)" using x by (auto simp: same d1(1) set_update_rows at_revision_def)
  have fx: "drf_id (f x) = draft" "drf_state (f x) = DsDraft" "drf_revision (f x) = pub_revision v + 1"
    using x(2) by (simp_all add: f_def set_draft_def patched_view_def v_def confirmed_version_def)
  have v: "pub_draft v = draft" "pub_snapshot v = confirmed_snapshot (drf_snapshot x)"
    by (simp_all add: v_def confirmed_version_def x(3))
  show ?thesis unfolding version
    by (rule exI [of _ d3], rule exI [of _ v], rule exI [of _ x])
      (intro conjI bexI [of _ "f x"] d3(1,2) same x(1,2) v fx y)
qed

subsection \<open>A host that is scanned, edited and confirmed\<close>

definition bare_env :: projection_env where
  "bare_env = \<lparr>hex_sha256 = (\<lambda>_. ''0''), evidence_json = (\<lambda>_. ''''), update_json = (\<lambda>_. ''''), confirm_json = (\<lambda>_. ''''),
     layout_json = (\<lambda>_. ''''), ignore_json = (\<lambda>_. '''')\<rparr>"

definition plain_evidence :: discovery_evidence where
  "plain_evidence = \<lparr>de_address = ''a'', de_os = ''linux'', de_host_facts = [], de_docker_engines = [], de_compose_projects = [],
     de_systemd_units = [], de_containers = [], de_images = [], de_networks = [], de_volumes = [], de_document_candidates = [],
     de_health_checks = [], de_started_at = ''t''\<rparr>"

definition unscanned :: projection_db where
  "unscanned = \<lparr>pj_hosts = [''h''], pj_scans = [\<lparr>scn_id = ''r'', scn_host = ''h'', scn_state = EvidenceReady, scn_submitted_at = 0,
     scn_finished_at = Some 1, scn_evidence = Some plain_evidence, scn_draft = None, scn_diff = None\<rparr>], pj_diffs = [], pj_drafts = [],
     pj_published = [], pj_layouts = [], pj_rules = [], pj_mutations = []\<rparr>"

definition drafted :: projection_db where
  "drafted = (case create_draft_from_evidence_in bare_env ''r'' ''h'' plain_evidence 1 1 unscanned of Inr (i, d) \<Rightarrow> d | Inl x \<Rightarrow> unscanned)"

definition host_graph :: graph_snapshot where
  "host_graph = \<lparr>sn_focus = (ScopeGlobal, ''workspace-default''),
     sn_nodes = [make_evidence_node ''h'' GkHost ''a'' ''Linux HOST'' None \<lparr>np_run = ''r'', np_external_id = ''h'', np_source = ''ssh:host'',
        np_observed_at = ''t'', np_metadata = JObj [(''os'', JStr ''linux'')], np_index = 0\<rparr>],
     sn_edges = [], sn_layout = \<lparr>cl_layout_id = ''layout-draft-0'', cl_scope = ''host:h'', cl_revision = 1\<rparr>\<rparr>"

definition host_draft :: draft_row where
  "host_draft = \<lparr>drf_id = ''draft-0'', drf_run = ''r'', drf_host = ''h'', drf_base_revision = 0, drf_revision = 1, drf_state = DsDraft,
     drf_pending_changes = 0, drf_snapshot = host_graph, drf_created_at = 1, drf_updated_at = 1\<rparr>"

lemma map_plain: "map_evidence bare_env ''draft-0'' ''r'' ''h'' plain_evidence {} = host_graph"
  by (simp add: map_evidence_def built_def map_host_def add_node_def knows_def plain_evidence_def project_names_def projects_of_def
      map_filter_simps settle_node_def host_graph_def Let_def)

lemma scan_drafted:
  "create_draft_from_evidence_in bare_env ''r'' ''h'' plain_evidence 1 1 unscanned = Inr (''draft-0'', drafted)
   \<and> pj_drafts drafted = [host_draft] \<and> pj_published drafted = [] \<and> pj_hosts drafted = [''h''] \<and> pj_mutations drafted = []
   \<and> map lay_id (pj_layouts drafted) = [''layout-draft-0'']"
proof -
  have i: "draft_id_of bare_env ''r'' = ''draft-0''" "ignored_fingerprints unscanned ''h'' = {}"
     "load_confirmed_baseline_in bare_env ''h'' {} unscanned = None"
    by (simp_all add: draft_id_of_def bare_env_def ignored_fingerprints_def unscanned_def load_confirmed_baseline_in_def map_filter_simps)
  obtain j d1 where d1: "create_discovery_diff_in bare_env ''r'' ''h'' plain_evidence host_graph None 1 unscanned = Inr (j, d1)"
     "pj_hosts d1 = [''h'']" "pj_drafts d1 = []" "pj_published d1 = []" "pj_mutations d1 = []" "pj_layouts d1 = []"
    by (simp add: create_discovery_diff_in_def unscanned_def plain_evidence_def bare_env_def
   select_one_def diff_id_of_def previous_scan_def has_evidence_def insert_diff_def Let_def)
  have none: "select_one (\<lambda>x. drf_run x = ''r'') (pj_drafts unscanned) = None"
    by (simp add: unscanned_def select_one_def)
  have revision: "set_layout_revision 1 host_graph = host_graph" by (simp add: set_layout_revision_def host_graph_def)
  have "\<exists>d. create_draft_from_evidence_in bare_env ''r'' ''h'' plain_evidence 1 1 unscanned = Inr (''draft-0'', d)
    \<and> pj_drafts d = [host_draft] \<and> pj_published d = [] \<and> pj_hosts d = [''h''] \<and> pj_mutations d = []
    \<and> map lay_id (pj_layouts d) = [''layout-draft-0'']"
    unfolding create_draft_from_evidence_in_def none i Let_def option.case option.map map_plain
    by (simp add: d1 insert_draft_def insert_layout_def host_draft_def revision) (simp add: host_graph_def)
  then show ?thesis by (auto simp: drafted_def)
qed

definition edit_headers :: "string \<Rightarrow> headers" where
  "edit_headers key = (\<lambda>n. if n = ''idempotency-key'' then Some (Text key) else if n = ''if-match'' then Some (Text ''revision-1'') else None)"

definition archive_host :: draft_update_request where
  "archive_host = \<lparr>du_base_revision = 1, du_operations = [ArchiveNode ''h'']\<rparr>"

definition plain_request :: "string \<Rightarrow> request_env" where
  "plain_request i = \<lparr>rq_now = 1, rq_generated_at = 1, rq_stored_at = 1, rq_request_id = ''q'', rq_mutation_id = i, rq_version_id = ''v'',
     rq_rule_id = ''u'', rq_rule_at = 1\<rparr>"

lemma sample_headers:
  "require_key (edit_headers ''k1'') = Inr ''k1''" "require_key (edit_headers ''k2'') = Inr ''k2''"
  "require_if_match (edit_headers k) = Inr 1"
proof -
  show "require_key (edit_headers ''k1'') = Inr ''k1''" "require_key (edit_headers ''k2'') = Inr ''k2''"
    by (simp_all add: require_key_def idempotency_key_def edit_headers_def header_str_def ok_or.simps, code_simp+)
  show "require_if_match (edit_headers k) = Inr 1"
    by (simp add: require_if_match_def edit_headers_def header_str_def, code_simp)
qed

lemma sample_host_node: "map gn_id (sn_nodes host_graph) = [''h'']"
  by (simp add: host_graph_def make_evidence_node_def Let_def)

lemma sample_loaded: "load_projection_draft drafted ''draft-0'' = Inr (view_of_row host_draft)"
  using scan_drafted by (simp add: load_projection_draft_def select_one_def host_draft_def ok_or.simps)

lemma sample_reads:
  "\<exists>s. patch_reads bare_env (edit_headers ''k1'') ''draft-0'' (Some archive_host) drafted archive_host ''k1'' (view_of_row host_draft) s"
  "confirm_reads bare_env (edit_headers ''k2'') ''draft-0'' (Some 1) drafted ''k2'' (view_of_row host_draft)"
proof -
  obtain n where n: "sn_nodes host_graph = [n]" "gn_id n = ''h''" using sample_host_node by (auto simp: map_eq_Cons_conv)
  have "\<exists>s. apply_operations bare_env ''draft-0'' (du_operations archive_host) host_graph = Inr s"
    by (simp add: archive_host_def update_node_def n)
  then show "\<exists>s. patch_reads bare_env (edit_headers ''k1'') ''draft-0'' (Some archive_host) drafted archive_host ''k1'' (view_of_row host_draft) s"
    using sample_loaded scan_drafted by (simp add: patch_reads_def sample_headers replay_mutation_def select_one_def host_draft_def)
      (simp add: archive_host_def operations_allowed_def MAX_OPERATIONS_def)
  show "confirm_reads bare_env (edit_headers ''k2'') ''draft-0'' (Some 1) drafted ''k2'' (view_of_row host_draft)"
    using sample_loaded scan_drafted by (simp add: confirm_reads_def sample_headers replay_mutation_def select_one_def host_draft_def)
qed

lemma history_drafted: "projection_history bare_env [drafted, unscanned]"
  by (rule continued [OF begun _ scanned [OF conjunct1 [OF scan_drafted], of unscanned]]) (simp_all add: unscanned_def)

lemma sample_edit:
  "\<exists>d1 response. update_projection_draft bare_env (edit_headers ''k1'') ''draft-0'' (Some archive_host) (plain_request ''m1'') drafted drafted
     = (Inr response, d1) \<and> d1 \<noteq> drafted"
proof -
  obtain s where s: "patch_reads bare_env (edit_headers ''k1'') ''draft-0'' (Some archive_host) drafted archive_host ''k1'' (view_of_row host_draft) s"
    using sample_reads by blast
  have "rows_affected (at_revision ''draft-0'' (dv_revision (view_of_row host_draft))) (pj_drafts drafted) = 1"
      "mutation_free (rq_mutation_id (plain_request ''m1'')) ''draft'' ''draft-0'' ''k1'' (pj_mutations drafted)"
    using scan_drafted by (simp_all add: rows_affected_def at_revision_def host_draft_def mutation_free_def)
  note e = patch_accepted [OF s this]
  have "update_rows (at_revision ''draft-0'' (dv_revision (view_of_row host_draft)))
      (set_draft (patched_view archive_host (view_of_row host_draft) s (plain_request ''m1''))) (pj_drafts drafted) \<noteq> pj_drafts drafted"
    using scan_drafted by (simp add: update_rows_def at_revision_def host_draft_def set_draft_def patched_view_def)
  then show ?thesis using e by metis
qed

lemma sample_confirmation:
  "\<exists>d2 version. confirm_projection bare_env (edit_headers ''k2'') ''draft-0'' (Some 1) (plain_request ''m2'') drafted drafted
     = (Inr (201, version), d2)"
proof -
  have "insert_published (confirmed_version ''draft-0'' (view_of_row host_draft) (plain_request ''m2'')) drafted
     = Inr (drafted\<lparr>pj_published := [confirmed_version ''draft-0'' (view_of_row host_draft) (plain_request ''m2'')]\<rparr>)"
    using scan_drafted by (simp add: insert_published_def confirmed_version_def view_of_row_def host_draft_def)
  moreover have "mutation_free (rq_mutation_id (plain_request ''m2'')) ''confirm'' ''draft-0'' ''k2'' (pj_mutations drafted)"
    using scan_drafted by (simp add: mutation_free_def)
  ultimately show ?thesis using confirm_accepted [OF sample_reads(2)] by blast
qed

lemma sample_agent_patch:
  "\<exists>v undo d1. apply_agent_operations_in bare_env ''draft-0'' 1 [ArchiveNode ''h''] 2 drafted = Inr ((v, undo), d1)"
proof -
  obtain n where n: "sn_nodes host_graph = [n]" "gn_id n = ''h''" using sample_host_node by (auto simp: map_eq_Cons_conv)
  obtain s where s: "apply_operation bare_env ''draft-0'' (ArchiveNode ''h'') host_graph = Inr s"
      "validate_projection_operations bare_env host_graph ''draft-0'' [ArchiveNode ''h''] = Inr s"
    by (simp add: validate_projection_operations_def operations_allowed_def MAX_OPERATIONS_def update_node_def n)
  have layout: "cl_layout_id (sn_layout s) = ''layout-draft-0''"
    using apply_operation_keeps [OF s(1)] by (simp add: keeps_graph_def host_graph_def)
  define v where "v = revise s (sat_add32 (dv_pending_changes (view_of_row host_draft)) (u32_of_nat 1)) 2 (view_of_row host_draft)"
  have "rows_affected (at_revision (dv_draft v) 1) (pj_drafts drafted) = 1"
    using scan_drafted by (simp add: v_def rows_affected_def at_revision_def host_draft_def)
  moreover have "rows_affected (\<lambda>l. lay_id l = cl_layout_id (sn_layout (dv_snapshot v))) (pj_layouts drafted) = 1"
    using scan_drafted by (auto simp: v_def revise_def layout rows_affected_def map_eq_Cons_conv)
  ultimately obtain d1 where "persist_agent_draft_in v 1 drafted = Inr d1" using persist_agent_draft_total by blast
  then show ?thesis using s(2) sample_loaded
    by (simp add: apply_agent_operations_in_def Let_def v_def host_draft_def)
qed

theorem stored_graphs_wellformed_witness: "host_draft \<in> set (pj_drafts drafted) \<and> graph_ok (drf_snapshot host_draft)"
  using stored_graphs_wellformed [OF history_drafted] scan_drafted by simp

theorem accepted_edit_is_current_witness:
  "\<exists>response d1 y. update_projection_draft bare_env (edit_headers ''k1'') ''draft-0'' (Some archive_host) (plain_request ''m1'') drafted drafted
     = (Inr response, d1) \<and> pj_drafts d1 = [y] \<and> drf_revision y = 2"
proof -
  obtain response d1 where e: "update_projection_draft bare_env (edit_headers ''k1'') ''draft-0'' (Some archive_host) (plain_request ''m1'')
     drafted drafted = (Inr response, d1)" "d1 \<noteq> drafted" using sample_edit by blast
  obtain x y where "x \<in> set (pj_drafts drafted)" "pj_drafts d1 = update_rows (\<lambda>z. z = x) (\<lambda>_. y) (pj_drafts drafted)"
      "at_revision ''draft-0'' (du_base_revision archive_host + 1) y"
    using accepted_edit_is_current [OF history_drafted _ e] by auto
  then show ?thesis using e(1) scan_drafted by (auto simp: update_rows_def at_revision_def archive_host_def)
qed

theorem project_removal_complete_witness:
  "fst (remove_project_from_snapshots ''h'' 5 drafted) = Inr ()
   \<and> map (\<lambda>x. (drf_id x, drf_revision x)) (pj_drafts (snd (remove_project_from_snapshots ''h'' 5 drafted))) = [(''draft-0'', 2)]"
proof -
  obtain n where "sn_nodes host_graph = [n]" "gn_id n = ''h''" using sample_host_node by (auto simp: map_eq_Cons_conv)
  then have "holds_project ''h'' (drf_snapshot host_draft)" by (simp add: holds_project_def host_draft_def in_project_def)
  then show ?thesis
    using project_removal_complete [OF history_drafted, of "''h''" 5 "fst (remove_project_from_snapshots ''h'' 5 drafted)"
      "snd (remove_project_from_snapshots ''h'' 5 drafted)"] scan_drafted by (simp add: host_draft_def)
qed

theorem undo_restores_graph_witness:
  "\<exists>v undo d1 w d2 y. apply_agent_operations_in bare_env ''draft-0'' 1 [ArchiveNode ''h''] 2 drafted = Inr ((v, undo), d1)
     \<and> undo_agent_operations_in ''draft-0'' (dv_revision v) (dv_revision v) undo 3 d1 = Inr (w, d2)
     \<and> pj_drafts d2 = [y] \<and> drf_snapshot y = set_layout_revision 3 host_graph"
proof -
  obtain v undo d1 where e: "apply_agent_operations_in bare_env ''draft-0'' 1 [ArchiveNode ''h''] 2 drafted = Inr ((v, undo), d1)"
    using sample_agent_patch by blast
  show ?thesis using undo_restores_graph [OF history_drafted e, of 3] e scan_drafted
    by (auto simp: update_rows_def host_draft_def)
qed

theorem confirmed_draft_reopened_witness:
  "\<exists>d2 d3 response version. confirm_projection bare_env (edit_headers ''k2'') ''draft-0'' (Some 1) (plain_request ''m2'') drafted drafted
     = (Inr (201, version), d2)
   \<and> update_projection_draft bare_env (edit_headers ''k1'') ''draft-0'' (Some archive_host) (plain_request ''m1'') drafted d2
     = (Inr response, d3)
   \<and> (\<exists>y \<in> set (pj_drafts d3). drf_state y = DsDraft)"
proof -
  obtain response d1 where e: "update_projection_draft bare_env (edit_headers ''k1'') ''draft-0'' (Some archive_host) (plain_request ''m1'')
     drafted drafted = (Inr response, d1)" "d1 \<noteq> drafted" using sample_edit by blast
  obtain version d2 where c: "confirm_projection bare_env (edit_headers ''k2'') ''draft-0'' (Some 1) (plain_request ''m2'') drafted drafted
     = (Inr (201, version), d2)" using sample_confirmation by blast
  have "rq_mutation_id (plain_request ''m1'') \<noteq> rq_mutation_id (plain_request ''m2'')" by (simp add: plain_request_def)
  then show ?thesis using confirmed_draft_reopened [OF e c] c by blast
qed

theorem stale_graph_published_witness:
  "\<exists>d1 d3 response version. update_projection_draft bare_env (edit_headers ''k1'') ''draft-0'' (Some archive_host) (plain_request ''m1'')
     drafted drafted = (Inr response, d1)
   \<and> confirm_projection bare_env (edit_headers ''k2'') ''draft-0'' (Some 1) (plain_request ''m2'') drafted d1 = (Inr (201, version), d3)
   \<and> pj_drafts d3 = pj_drafts d1"
proof -
  obtain response d1 where e: "update_projection_draft bare_env (edit_headers ''k1'') ''draft-0'' (Some archive_host) (plain_request ''m1'')
     drafted drafted = (Inr response, d1)" "d1 \<noteq> drafted" using sample_edit by blast
  obtain version d2 where c: "confirm_projection bare_env (edit_headers ''k2'') ''draft-0'' (Some 1) (plain_request ''m2'') drafted drafted
     = (Inr (201, version), d2)" using sample_confirmation by blast
  have "rq_mutation_id (plain_request ''m1'') \<noteq> rq_mutation_id (plain_request ''m2'')" by (simp add: plain_request_def)
  then show ?thesis using stale_graph_published [OF e c] e by blast
qed

end
