(* ===== verification/ScanDifference.thy ===== *)
theory ScanDifference
  imports ProjectionOutcomes
begin

text \<open>
  The difference of a scan to the one before it accounts for every fact of both, once, and its counts are the
  counts of its items.
\<close>

lemma map_filter_keys:
  assumes "\<And>k. k \<in> set ks \<Longrightarrow> \<exists>x. f k = Some x \<and> g x = k \<and> P x"
  shows "map g (List.map_filter f ks) = ks \<and> list_all P (List.map_filter f ks)"
  using assms
proof (induction ks)
  case (Cons k ks)
  then obtain x where "f k = Some x" "g x = k" "P x" by auto
  then show ?case using Cons by (simp add: map_filter_simps)
qed (simp add: map_filter_simps)

text \<open>
  A fact contradicts a decision of the user when the first node of the new graph that cites it is archived by a
  rule, or stands in the confirmed graph archived, under another name or in another project.
\<close>

definition contradicts :: "graph_snapshot \<Rightarrow> graph_snapshot option \<Rightarrow> evidence_item \<Rightarrow> bool" where
  "contradicts det confirmed item =
     (\<exists>n. matching_node det (evi_external_id item) = Some n
        \<and> (gn_state n = PsArchived
           \<or> (\<exists>s c. confirmed = Some s \<and> find (\<lambda>x. gn_id x = gn_id n) (sn_nodes s) = Some c
                \<and> (gn_state c = PsArchived \<or> gn_label c \<noteq> gn_label n \<or> gn_project c \<noteq> gn_project n))))"

lemma conflict_iff: "confirmed_conflict item det confirmed \<noteq> None \<longleftrightarrow> contradicts det confirmed item"
  by (cases confirmed) (auto simp: confirmed_conflict_def contradicts_def split: option.splits)

text \<open>What an item says about its key in the two scans.\<close>

definition change_right ::
  "projection_env \<Rightarrow> (string \<times> evidence_item) list \<Rightarrow> (string \<times> evidence_item) list \<Rightarrow> graph_snapshot
   \<Rightarrow> graph_snapshot option \<Rightarrow> diff_item \<Rightarrow> bool"
where
  "change_right e previous current det confirmed i =
     (let p = map_of previous (di_key i); c = map_of current (di_key i)
      in di_previous_sha256 i = map_option (evidence_digest e) p
       \<and> di_current_sha256 i = map_option (evidence_digest e) c
       \<and> (case (p, c) of
           (None, None) \<Rightarrow> False
         | (Some p', None) \<Rightarrow> di_change i = ChMissing \<and> di_kind i = evi_kind p' \<and> di_external_id i = evi_external_id p'
         | (_, Some c') \<Rightarrow>
             di_change i = (if contradicts det confirmed c' then ChConflict
               else if p = None then ChAdded
               else if di_previous_sha256 i = di_current_sha256 i then ChUnchanged else ChChanged)
             \<and> di_kind i = evi_kind c' \<and> di_external_id i = evi_external_id c'))"

lemma diff_item_right:
  assumes "k \<in> set (map fst previous) \<union> set (map fst current)"
  shows "\<exists>i. diff_item_of e run previous_run previous current det confirmed k = Some i \<and> di_key i = k
    \<and> change_right e previous current det confirmed i"
proof -
  have "map_of previous k \<noteq> None \<or> map_of current k \<noteq> None" using assms by (auto simp: map_of_eq_None_iff)
  then show ?thesis
  proof (cases "map_of current k")
    case None
    then show ?thesis using \<open>map_of previous k \<noteq> None \<or> map_of current k \<noteq> None\<close>
      by (auto simp: diff_item_of_def classify_def change_right_def)
  next
    case (Some c)
    then show ?thesis using conflict_iff [of c det confirmed]
      by (cases "map_of previous k"; cases "confirmed_conflict c det confirmed")
        (auto simp: diff_item_of_def classify_def change_right_def)
  qed
qed

lemma diff_items_right:
  "map di_key (diff_items e run previous_run previous current det confirmed) = sort (remdups (map fst previous @ map fst current))
   \<and> list_all (change_right e previous current det confirmed) (diff_items e run previous_run previous current det confirmed)"
  unfolding diff_items_def by (rule map_filter_keys) (rule diff_item_right, simp)

definition count_of :: "change_kind \<Rightarrow> diff_counts \<Rightarrow> nat" where
  "count_of k c = (case k of ChAdded \<Rightarrow> dc_added c | ChChanged \<Rightarrow> dc_changed c | ChMissing \<Rightarrow> dc_missing c
     | ChConflict \<Rightarrow> dc_conflict c | ChUnchanged \<Rightarrow> dc_unchanged c)"

lemma count_increment: "count_of k (increment j c) = count_of k c + (if j = k then 1 else 0)"
  by (cases j; cases k) (simp_all add: count_of_def)

lemma count_changes_of: "count_of k (count_changes items) = length (filter (\<lambda>i. di_change i = k) items)"
proof -
  have "count_of k (fold (\<lambda>i. increment (di_change i)) items c) = count_of k c + length (filter (\<lambda>i. di_change i = k) items)" for c
    by (induction items arbitrary: c) (simp_all add: count_increment)
  then show ?thesis by (cases k) (simp_all add: count_changes_def no_counts_def count_of_def)
qed

text \<open>The evidence of the scan before, and none if there is no such scan.\<close>

definition evidence_before :: "projection_db \<Rightarrow> string \<Rightarrow> string \<Rightarrow> (string \<times> evidence_item) list" where
  "evidence_before d host run =
     (case Option.bind (previous_scan d host run) scn_evidence of None \<Rightarrow> [] | Some p \<Rightarrow> evidence_map p)"

text \<open>
  C23. The first difference stored for a run has one item per key of the facts of the scan or the scan before, in
  the order of the keys. A fact that is only in the scan before is missing and nothing else is. A fact of the scan
  is a conflict exactly if it contradicts a decision of the user; otherwise it is added if the scan before lacks it,
  and else unchanged or changed as the two digests of the item, those of the two facts, agree or not. The counts
  are the numbers of the items.
\<close>

theorem scan_difference_complete:
  assumes "create_discovery_diff_in e run host ev deterministic confirmed at_secs d = Inr (i, d')"
    and "\<And>x. x \<in> set (pj_diffs d) \<Longrightarrow> dif_run x \<noteq> run"
  shows "\<exists>x. pj_diffs d' = pj_diffs d @ [x] \<and> dif_run x = run
    \<and> map di_key (dif_items x) = sorted_list_of_set (fst ` set (evidence_before d host run) \<union> evidence_key ` set (evidence_items ev))
    \<and> list_all (change_right e (evidence_before d host run) (evidence_map ev) deterministic confirmed) (dif_items x)
    \<and> (\<forall>k. count_of k (dif_counts x) = length (filter (\<lambda>j. di_change j = k) (dif_items x)))"
proof -
  define x where "x = \<lparr>dif_id = diff_id_of e run, dif_run = run, dif_host = host, dif_previous_run = map_option scn_id (previous_scan d host run),
    dif_counts = count_changes (diff_items e run (map_option scn_id (previous_scan d host run)) (evidence_before d host run)
      (evidence_map ev) deterministic confirmed),
    dif_items = diff_items e run (map_option scn_id (previous_scan d host run)) (evidence_before d host run) (evidence_map ev) deterministic confirmed,
    dif_created_at = at_secs\<rparr>"
  have "select_one (\<lambda>x. dif_run x = run) (pj_diffs d) = None" using assms(2) by (simp add: select_one_None)
  then obtain d1 where "insert_diff x d = Inr d1" "pj_diffs d' = pj_diffs d1"
    using assms(1) by (auto simp: create_discovery_diff_in_def Let_def x_def evidence_before_def)
  then have diffs: "pj_diffs d' = pj_diffs d @ [x]" by (auto simp: insert_diff_def split: if_splits)
  have keys: "fst ` set (evidence_map ev) = evidence_key ` set (evidence_items ev)"
    unfolding evidence_map_def using bt.keys_collect [of "map (\<lambda>item. (evidence_key item, item)) (evidence_items ev)"]
    by (simp add: image_image)
  have "sort (remdups (map fst (evidence_before d host run) @ map fst (evidence_map ev)))
      = sorted_list_of_set (fst ` set (evidence_before d host run) \<union> evidence_key ` set (evidence_items ev))"
    by (simp only: sorted_list_of_set_sort_remdups [symmetric] set_append set_map keys)
  then show ?thesis using diffs diff_items_right by (simp add: x_def count_changes_of)
qed

text \<open>A scan with a network after one with a container.\<close>

definition fact_item :: "evidence_kind \<Rightarrow> string \<Rightarrow> evidence_item" where
  "fact_item k i = \<lparr>evi_external_id = i, evi_kind = k, evi_source = ''s'', evi_observed_at = ''t'', evi_sha256 = None, evi_metadata = JObj []\<rparr>"

definition fact_scan :: "evidence_item list \<Rightarrow> discovery_evidence" where
  "fact_scan items = \<lparr>de_address = ''a'', de_os = ''linux'', de_host_facts = items, de_docker_engines = [], de_compose_projects = [],
     de_systemd_units = [], de_containers = [], de_images = [], de_networks = [], de_volumes = [], de_document_candidates = [],
     de_health_checks = [], de_started_at = ''t''\<rparr>"

definition digest_env :: projection_env where
  "digest_env = \<lparr>hex_sha256 = (\<lambda>s. s), evidence_json = evi_external_id, update_json = (\<lambda>_. []), confirm_json = (\<lambda>_. []),
     layout_json = (\<lambda>_. []), ignore_json = (\<lambda>_. [])\<rparr>"

definition fact_scan_row :: "string \<Rightarrow> secs \<Rightarrow> evidence_item list \<Rightarrow> scan_row" where
  "fact_scan_row i t items = \<lparr>scn_id = i, scn_host = ''h'', scn_state = EvidenceReady, scn_submitted_at = t, scn_finished_at = Some t,
     scn_evidence = Some (fact_scan items), scn_draft = None, scn_diff = None\<rparr>"

definition two_scans :: projection_db where
  "two_scans = \<lparr>pj_hosts = [''h''], pj_scans = [fact_scan_row ''r'' 1 [fact_item EkContainer ''c''], fact_scan_row ''s'' 2 [fact_item EkNetwork ''n'']],
     pj_diffs = [], pj_drafts = [], pj_published = [], pj_layouts = [], pj_rules = [], pj_mutations = []\<rparr>"

definition no_nodes :: graph_snapshot where
  "no_nodes = \<lparr>sn_focus = (ScopeGlobal, ''w''), sn_nodes = [], sn_edges = [], sn_layout = \<lparr>cl_layout_id = ''l'', cl_scope = ''s'', cl_revision = 1\<rparr>\<rparr>"

lemma two_scans_before: "previous_scan two_scans ''h'' ''s'' = Some (fact_scan_row ''r'' 1 [fact_item EkContainer ''c''])"
  by (simp add: previous_scan_def two_scans_def fact_scan_row_def has_evidence_def)

lemma fact_map: "evidence_map (fact_scan [fact_item k i]) = [(evidence_kind_name k @ '':'' @ i, fact_item k i)]"
  by (simp add: evidence_map_def evidence_items_def fact_scan_def bt_collect_def evidence_key_def fact_item_def)

theorem scan_difference_complete_witness:
  "\<exists>i d' x. create_discovery_diff_in digest_env ''s'' ''h'' (fact_scan [fact_item EkNetwork ''n'']) no_nodes None 3 two_scans = Inr (i, d')
     \<and> pj_diffs d' = [x] \<and> map di_key (dif_items x) = [''container:c'', ''network:n''] \<and> count_of ChMissing (dif_counts x) = 1
     \<and> count_of ChAdded (dif_counts x) = 1"
proof -
  let ?ev = "fact_scan [fact_item EkNetwork ''n'']"
  have before: "evidence_before two_scans ''h'' ''s'' = [(''container:c'', fact_item EkContainer ''c'')]"
    by (simp add: evidence_before_def two_scans_before fact_map) (simp add: fact_scan_row_def fact_map)
  have tables: "pj_diffs two_scans = []" "pj_hosts two_scans = [''h'']" "map scn_id (pj_scans two_scans) = [''r'', ''s'']"
      "scn_id (fact_scan_row j t items) = j" for j t items
    by (simp_all add: two_scans_def fact_scan_row_def)
  have scans: "set (map scn_id (pj_scans two_scans)) = {''r'', ''s''}" by (simp only: tables) simp
  obtain i d' where e: "create_discovery_diff_in digest_env ''s'' ''h'' ?ev no_nodes None 3 two_scans = Inr (i, d')"
    by (simp add: create_discovery_diff_in_def select_one_def Let_def insert_diff_def two_scans_before tables scans del: set_map)
  have empty: "\<And>x. x \<in> set (pj_diffs two_scans) \<Longrightarrow> dif_run x \<noteq> ''s''" "pj_diffs two_scans = []" by (simp_all add: tables)
  obtain x where x: "pj_diffs d' = [x]"
      "map di_key (dif_items x) = sorted_list_of_set (fst ` set (evidence_before two_scans ''h'' ''s'') \<union> evidence_key ` set (evidence_items ?ev))"
      "list_all (change_right digest_env (evidence_before two_scans ''h'' ''s'') (evidence_map ?ev) no_nodes None) (dif_items x)"
      "\<forall>k. count_of k (dif_counts x) = length (filter (\<lambda>j. di_change j = k) (dif_items x))"
    using scan_difference_complete [OF e empty(1)] unfolding empty(2) by auto
  have keys: "map di_key (dif_items x) = [''container:c'', ''network:n'']"
    unfolding x(2) before by (simp add: evidence_items_def fact_scan_def fact_item_def evidence_key_def)
  then obtain a b where ab: "dif_items x = [a, b]" "di_key a = ''container:c''" "di_key b = ''network:n''"
    by (auto simp: map_eq_Cons_conv)
  have "\<not> contradicts no_nodes None (fact_item EkNetwork ''n'')"
    by (simp add: contradicts_def matching_node_def no_nodes_def)
  then have "di_change a = ChMissing" "di_change b = ChAdded"
    using x(3) by (auto simp: ab before fact_map change_right_def Let_def)
  then have "count_of ChMissing (dif_counts x) = 1" "count_of ChAdded (dif_counts x) = 1" using x(4) by (auto simp: ab)
  then have "pj_diffs d' = [x] \<and> map di_key (dif_items x) = [''container:c'', ''network:n''] \<and> count_of ChMissing (dif_counts x) = 1
     \<and> count_of ChAdded (dif_counts x) = 1"
    using x(1) keys by simp
  then show ?thesis using e by (intro exI [of _ i] exI [of _ d'] exI [of _ x] conjI [OF e])
qed

end
