(* ===== verification/Spec2Isabelle.thy ===== *)
theory Spec2Isabelle
  imports HealthEvidence SchedulerTick CollectionHistory RunOutcomes HistoryRetention ScanDifference
begin

text \<open>
  A verification development of the Network Atlas backend (\<open>src/backend/src\<close>): its monitoring and its
  projection of hosts.

  \<^bold>\<open>The program.\<close> The backend observes Linux hosts. A host has at most one live monitoring schedule; a
  ticking scheduler claims its due slots and turns each into a run; a finished run is evaluated against the
  health policy that was pinned when it was claimed, and the receipt is what the owner sees as the health of
  the host. The samples of a run are compacted into hour and day rows and deleted by age; a history query
  answers from one of the three tiers. A scan of a host is mapped to a graph, which the user edits as a draft,
  confirms as a version, and which the next scan is overlaid with. Changes are announced in an event log that
  clients follow as a stream. All state is in SQLite; a handler is a read phase and one transaction.

  \<^bold>\<open>Theories.\<close>
  \<^item> \<open>Prelude\<close>: saturating and clamping integers, decimal texts, the result type's \<open>and_then\<close>, rows as
    lists (\<open>select_one\<close>, \<open>update_rows\<close>, \<open>rows_affected\<close> are the shapes of the SQL statements).
  \<^item> \<open>Float64\<close>: doubles as rationals with infinities and NaN, and the rounding of the operations used.
  \<^item> \<open>Contracts\<close>: enums and records of \<open>contracts.rs\<close> with the names they are stored under; the locale
    \<open>stored_enum\<close> states that writing and reading an enum is the identity.
  \<^item> \<open>Store\<close>: the rows of the monitoring tables and the checks, unique indexes, foreign keys and triggers
    of \<open>migrations/0010\<close> and \<open>migrations/0013\<close> that an \<open>INSERT\<close> or \<open>UPDATE\<close> must pass.
  \<^item> \<open>Http\<close>: the request headers the handlers read.
  \<^item> \<open>Events\<close> (\<open>events.rs\<close>): the log, its retention and the stream; the locale \<open>windowed_log\<close> is the
    abstract log with a bounded window.
  \<^item> \<open>Versions\<close>: append-only version chains, shared by policies and schedules (locale \<open>version_table\<close>).
  \<^item> \<open>HealthPolicy\<close>, \<open>HealthEvaluation\<close> (\<open>monitoring_health.rs\<close>): policies and receipts.
  \<^item> \<open>Scheduler\<close>, \<open>ScheduleHistory\<close>, \<open>SchedulerTick\<close> (\<open>monitoring_scheduler.rs\<close>): the operations, the
    history invariant of the version rows, and what ticks and updates achieve.
  \<^item> \<open>RustStd\<close>: the functions on texts and numbers of the standard library that the parsers call.
  \<^item> \<open>Collector\<close>, \<open>HostParsers\<close>, \<open>HostRates\<close> (\<open>monitoring.rs\<close>): the fixed profile with its remote
    command and the parser of the batch output, the parsers of \<open>/proc\<close> and \<open>df\<close> texts, and the rates,
    families and completeness of an observation.
  \<^item> \<open>HistorySamples\<close>, \<open>CollectionHistory\<close> (\<open>monitoring_history.rs\<close>): the samples of an observation and
    their insertion; which captures can be stored.
  \<^item> \<open>SnapshotContracts\<close>, \<open>Snapshot\<close>: the records of a host snapshot and the conversion of an observation.
  \<^item> \<open>MonitorRuns\<close> (\<open>monitoring_api.rs\<close>, with \<open>M1Error\<close> and the target of \<open>m1.rs\<close>): manual runs, the
    background task, persistence of observations and failures, interruption, recovery and the reads.
  \<^item> \<open>RunLedger\<close>, \<open>RunProgress\<close>, \<open>RunHistory\<close>, \<open>RunOutcomes\<close>: the ledger of runs and receipts as a
    transition system over all operations that write it (locale \<open>ledger_system\<close>), when its statements
    succeed, and how a run ends.
  \<^item> \<open>Rollup\<close>, \<open>RollupStore\<close>, \<open>RollupCompaction\<close>, \<open>RollupRetention\<close> (\<open>monitoring_rollup.rs\<close> and
    \<open>migrations/0012\<close>): settings, statistics and digests of a bucket; the rollup tables; a compaction pass;
    retention, the record of a pass and its status.
  \<^item> \<open>RollupStatistics\<close>, \<open>RollupAccounting\<close>, \<open>RollupHistory\<close>, \<open>RollupProgress\<close>, \<open>RollupOutcomes\<close>: the
    statistics are what they are called, a bucket accounts for its samples, no sample is lost in any history of
    insertions, passes and retention, and a pass shrinks the backlog by its limit.
  \<^item> \<open>HistoryQueries\<close> (\<open>monitoring_history.rs\<close>), \<open>HistoryPaging\<close>, \<open>HistoryRetention\<close>: the history query; its
    pages (locale \<open>keyset_query\<close>, for samples and rollup rows) and its agreement with retention. The locale
    \<open>named_value\<close> is that of the three enums that filter.
  \<^item> \<open>Graph\<close> (\<open>contracts.rs\<close>), \<open>EvidenceMapping\<close>, \<open>Projection\<close>, \<open>ProjectionApi\<close> (\<open>projection.rs\<close>),
    \<open>DiscoveryDiff\<close> (\<open>discovery_diff.rs\<close>), \<open>ProjectRemoval\<close> (\<open>data_management.rs\<close>): evidence and graphs; the
    mapping of a scan; patches, overlay and new drafts; the handlers and the patches of the agent; the
    difference of two scans; the removal of a project.
  \<^item> \<open>EvidenceGraph\<close>, \<open>ProjectionGraphs\<close>, \<open>ProjectionHistory\<close>, \<open>ProjectionOutcomes\<close>, \<open>ScanDifference\<close>: graphs
    are well-formed whatever happens; the drafts and versions as a transition system over all operations that
    write them; what edits, undo, removal and differences achieve.

  \<^bold>\<open>How state and operations correspond.\<close> The record \<open>db\<close> has one list per table
  of the monitoring, which \<open>rollup_db\<close> extends; \<open>projection_db\<close> has the tables of discovery and projection. A handler takes the
  database at its transaction (and, where it reads before, the earlier database \<open>pre\<close>) and returns the
  response or error with the database after it; a failing transaction leaves the database as it was. Clock
  values, fresh identifiers, digests and JSON texts are arguments (records \<open>env\<close>, \<open>history_env\<close>,
  \<open>monitor_env\<close>, \<open>background_env\<close>, \<open>rollup_env\<close>, \<open>query_env\<close>, \<open>projection_env\<close>, \<open>request_env\<close>), and so are the host inventory, the secret store and what the SSH client
  returns. Times stored as RFC 3339 texts of whole seconds or milliseconds are integers, which order in the
  same way. Texts are lists of bytes (UTF-8); a stored JSON value is kept as the value it encodes. Unsigned
  and signed integers are bounded as in the source, with the wrap-around of a release build.

  \<^bold>\<open>What the lemmas show.\<close> Per component: an invariant of its tables kept by every operation, the effect of
  each operation on each branch, and the contract a client relies on: no event sent twice and none lost
  while a stream keeps up with the log, exactly one policy version in effect, alerts with hysteresis, no green
  without observed evidence under a readable policy, due slots claimed exactly once and accounted to one version, rates only from trustworthy counters, every sample stored, found page by
  page and kept until it is accounted for in both coarser tiers, one receipt per finished run, every run brought
  to an end, well-formed graphs, and edits of a draft that are never lost. Some theorems state behaviour the
  code has against its intention; they say so.

  \<^bold>\<open>Bounds.\<close> No fuel is used: the loops are structural recursions over the rows a query returned. The list
  of \<open>tick_input\<close> values of a tick has an entry per row it may meet; the theorems that a tick achieves
  something ask for as many entries as rows. \<open>slots_fit\<close> asks that the number of missed slots fits 32 bits,
  which holds for all times of the years 0 to 9999 since an interval is at least 300 seconds.
  In \<open>compactor_input\<close> the list \<open>ci_others\<close> is what other writers insert between the transactions of a pass. A
  history of the projection is the list of its states, so that a handler may have read any earlier one.

  \<^bold>\<open>Not modelled.\<close> Transient database and network failures other than rejected statements; the length
  checks of identifiers and digests outside the sample table; \<open>json_valid\<close>; the SSH client, key storage and
  process handling (I/O); the time bands of the health window; the remote scan and its parsers; the views of the
  graph for the web client; the deletion of hosts and of the workspace, backup and restore; catalog, project
  agent, onboarding, authentication and the web client. Stored JSON is the value it encodes; the numbers in
  the metadata of evidence are integers, as the scanner writes them.
\<close>

end
